(* ===== verification/Prelude.thy ===== *)
theory Prelude
  imports Complex_Main "HOL-Library.Word"
begin

text \<open>
  Shared vocabulary of the development: the machine types of the LP64 platform the
  sources are read for, the faults a C function can end with, the allocation oracle that
  stands for \<^verbatim>\<open>malloc\<close>, the floating point environment, and the generic lemmas on words,
  lists and results that the component theories rely on.
\<close>

named_theorems res_simps \<open>unfolding of results, binds and the allocation oracle\<close>
named_theorems wf_intros \<open>well-formedness of component states\<close>

section \<open>Machine types\<close>

type_synonym u8 = "8 word"
type_synonym u32 = "32 word"
type_synonym u64 = "64 word"

abbreviation INT_MAX :: int where "INT_MAX \<equiv> 2147483647"
abbreviation INT_MIN :: int where "INT_MIN \<equiv> -2147483648"
abbreviation UINT_MAX :: int where "UINT_MAX \<equiv> 4294967295"
abbreviation LONG_MAX :: int where "LONG_MAX \<equiv> 9223372036854775807"
abbreviation LONG_MIN :: int where "LONG_MIN \<equiv> -9223372036854775808"

text \<open>
  A C \<^verbatim>\<open>int\<close> is an integer between \<open>INT_MIN\<close> and \<open>INT_MAX\<close>; unsigned types are words, so
  that their arithmetic wraps. \<open>c_int\<close> is the conversion of any integer to \<^verbatim>\<open>int\<close>.
\<close>

definition c_int :: "int \<Rightarrow> int" where
  "c_int i = sint (word_of_int i :: u32)"

definition int_range :: "int \<Rightarrow> bool" where
  "int_range i \<longleftrightarrow> INT_MIN \<le> i \<and> i \<le> INT_MAX"

lemma c_int_id [simp]: "int_range i \<Longrightarrow> c_int i = i"
  unfolding int_range_def c_int_def
  by (simp add: sint_word_ariths signed_take_bit_int_eq_self sint_sbintrunc')

section \<open>Faults and results\<close>

text \<open>
  The ways in which a function of the program does not return to its caller: it calls
  \<^verbatim>\<open>abort\<close> or \<^verbatim>\<open>exit\<close>, or its behaviour is undefined (a NULL pointer is read, an index leaves
  its array, an integer is divided by zero, an uninitialised variable is read, memory is used or
  released that is not allocated). The last one stands for a loop whose end is not decided by the program
  and which has not ended after the number of iterations followed.
\<close>

datatype fault =
    Abort_call
  | Exit_call int
  | Null_deref
  | Out_of_bounds
  | Div_zero
  | Uninit_read
  | Bad_access
  | Bad_free
  | Still_running

type_synonym 'a res = "fault + 'a"

definition rbind :: "'a res \<Rightarrow> ('a \<Rightarrow> 'b res) \<Rightarrow> 'b res" where
  "rbind m f = (case m of Inl e \<Rightarrow> Inl e | Inr x \<Rightarrow> f x)"

lemma rbind_Inr [simp, res_simps]: "rbind (Inr x) f = f x"
  by (simp add: rbind_def)

lemma rbind_Inl [simp, res_simps]: "rbind (Inl e) f = Inl e"
  by (simp add: rbind_def)

lemma rbind_eq_Inr: "rbind m f = Inr y \<longleftrightarrow> (\<exists>x. m = Inr x \<and> f x = Inr y)"
  by (cases m) (simp_all add: rbind_def)

lemma rbind_eq_Inl: "rbind m f = Inl e \<longleftrightarrow> m = Inl e \<or> (\<exists>x. m = Inr x \<and> f x = Inl e)"
  by (cases m) (simp_all add: rbind_def)

lemma rbind_assoc: "rbind (rbind m f) g = rbind m (\<lambda>x. rbind (f x) g)"
  by (cases m) (simp_all add: rbind_def)

text \<open>Reading an array element: out of range is a fault, never an unspecified value.\<close>

definition aread :: "'a list \<Rightarrow> nat \<Rightarrow> 'a res" where
  "aread xs i = (if i < length xs then Inr (xs ! i) else Inl Out_of_bounds)"

definition awrite :: "'a list \<Rightarrow> nat \<Rightarrow> 'a \<Rightarrow> 'a list res" where
  "awrite xs i v = (if i < length xs then Inr (xs[i := v]) else Inl Out_of_bounds)"

lemma aread_Inr [simp]: "i < length xs \<Longrightarrow> aread xs i = Inr (xs ! i)"
  by (simp add: aread_def)

lemma awrite_Inr [simp]: "i < length xs \<Longrightarrow> awrite xs i v = Inr (xs[i := v])"
  by (simp add: awrite_def)

lemma aread_eq_Inr: "aread xs i = Inr x \<longleftrightarrow> i < length xs \<and> x = xs ! i"
  by (auto simp: aread_def)

lemma awrite_eq_Inr: "awrite xs i v = Inr ys \<longleftrightarrow> i < length xs \<and> ys = xs[i := v]"
  by (auto simp: awrite_def)

section \<open>Allocation\<close>

text \<open>
  Whether an allocation succeeds is not decided by the program. The outcomes of the
  allocations still to come are an oracle: each allocation consumes one outcome, and
  once the list is used up every further allocation succeeds. \<open>[]\<close> is the oracle of a
  run in which no allocation fails.
\<close>

type_synonym mem = "bool list"

fun malloc :: "mem \<Rightarrow> bool \<times> mem" where
  "malloc [] = (True, [])"
| "malloc (b # m) = (b, m)"

section \<open>Floating point environment\<close>

text \<open>
  A \<^verbatim>\<open>double\<close> is a real number; every arithmetic operation of the sources on doubles is the
  exact operation followed by the rounding \<open>fp_round\<close> (\<open>fp_round32\<close> for \<^verbatim>\<open>float\<close>). The mathematical functions
  come from the C library. The record collects these parameters; \<open>fp_ok\<close> states what the
  proofs use of them: IEEE rounding to nearest is monotone, leaves the integers up to \<open>2^53\<close>
  unchanged and has relative error at most \<open>2^(-53)\<close> on the normal numbers, and \<^verbatim>\<open>log\<close> and
  \<^verbatim>\<open>exp\<close> are monotone.
\<close>

record fpenv =
  fp_round :: "real \<Rightarrow> real"
  fp_round32 :: "real \<Rightarrow> real"
  fp_log :: "real \<Rightarrow> real"
  fp_exp :: "real \<Rightarrow> real"
  fp_pow :: "real \<Rightarrow> real \<Rightarrow> real"
  fp_sqrt :: "real \<Rightarrow> real"

definition fp_ok :: "fpenv \<Rightarrow> bool" where
  "fp_ok fp \<longleftrightarrow>
     mono (fp_round fp) \<and>
     (\<forall>k::int. \<bar>k\<bar> \<le> 2 ^ 53 \<longrightarrow> fp_round fp (of_int k) = of_int k) \<and>
     (\<forall>x. 1 / 2 ^ 1022 \<le> \<bar>x\<bar> \<longrightarrow> \<bar>x\<bar> < 2 ^ 1023 \<longrightarrow>
          \<bar>fp_round fp x - x\<bar> \<le> \<bar>x\<bar> / 2 ^ 53) \<and>
     (\<forall>x y. 0 < x \<longrightarrow> x \<le> y \<longrightarrow> fp_log fp x \<le> fp_log fp y) \<and>
     mono (fp_exp fp)"

text \<open>IEEE 754 asks for a correctly rounded square root.\<close>

definition sqrt_ok :: "fpenv \<Rightarrow> bool" where
  "sqrt_ok fp \<longleftrightarrow> (\<forall>x\<ge>0. fp_sqrt fp x = fp_round fp (sqrt x))"

definition fadd :: "fpenv \<Rightarrow> real \<Rightarrow> real \<Rightarrow> real" where "fadd fp x y = fp_round fp (x + y)"
definition fsub :: "fpenv \<Rightarrow> real \<Rightarrow> real \<Rightarrow> real" where "fsub fp x y = fp_round fp (x - y)"
definition fmul :: "fpenv \<Rightarrow> real \<Rightarrow> real \<Rightarrow> real" where "fmul fp x y = fp_round fp (x * y)"
definition fdiv :: "fpenv \<Rightarrow> real \<Rightarrow> real \<Rightarrow> real" where "fdiv fp x y = fp_round fp (x / y)"

text \<open>The environment without rounding, used to show that the hypotheses can hold.\<close>

definition fp_exact :: fpenv where
  "fp_exact = \<lparr>fp_round = (\<lambda>x. x), fp_round32 = (\<lambda>x. x), fp_log = (\<lambda>x. x), fp_exp = (\<lambda>x. x),
               fp_pow = (\<lambda>x y. x), fp_sqrt = sqrt\<rparr>"

lemma fp_exact_ok: "fp_ok fp_exact"
  by (simp add: fp_ok_def fp_exact_def mono_def)

lemma sqrt_exact_ok: "sqrt_ok fp_exact"
  by (simp add: sqrt_ok_def fp_exact_def)

lemma fp_round_le: "fp_ok fp \<Longrightarrow> x \<le> y \<Longrightarrow> fp_round fp x \<le> fp_round fp y"
  by (auto simp: fp_ok_def mono_def)

lemma fp_round_int:
  assumes "fp_ok fp" and "\<bar>k\<bar> \<le> 2 ^ 53"
  shows "fp_round fp (of_int k) = of_int k"
  using assms unfolding fp_ok_def by blast

lemma fp_round_0: "fp_ok fp \<Longrightarrow> fp_round fp 0 = 0"
  using fp_round_int [of fp 0] by simp

lemma fp_round_nonneg: "fp_ok fp \<Longrightarrow> 0 \<le> x \<Longrightarrow> 0 \<le> fp_round fp x"
  using fp_round_le [of fp 0 x] by (simp add: fp_round_0)

lemma fp_round_upper:
  assumes "fp_ok fp" and "1 / 2 ^ 1022 \<le> x" and "x < 2 ^ 1023"
  shows "fp_round fp x \<le> x + x / 2 ^ 53"
proof -
  have "0 < x"
    using assms(2) by (rule less_le_trans [rotated]) simp
  then have "\<bar>fp_round fp x - x\<bar> \<le> x / 2 ^ 53"
    using assms unfolding fp_ok_def by (metis abs_of_pos)
  then show ?thesis by linarith
qed

section \<open>Generic lemmas\<close>

lemma list_eq_map_upd: "i < length xs \<Longrightarrow> map f (xs[i := x]) = (map f xs)[i := f x]"
  by (simp add: map_update)

lemma find_None_distinct: "find P xs = None \<longleftrightarrow> (\<forall>x\<in>set xs. \<not> P x)"
  by (induction xs) auto

lemma find_SomeD: "find P xs = Some x \<Longrightarrow> x \<in> set xs \<and> P x"
  by (induction xs) (auto split: if_splits)

lemma dropWhile_length: "length (dropWhile P xs) \<le> length xs"
  by (induction xs) auto

lemma unat_word_minus: "b \<le> a \<Longrightarrow> unat (a - b :: 'a::len word) = unat a - unat b"
  by (simp add: unat_sub)

lemma unat_plus_no_wrap:
  "unat a + unat b < 2 ^ LENGTH('a) \<Longrightarrow> unat (a + b :: 'a::len word) = unat a + unat b"
  by (simp add: unat_word_ariths)

lemma unat_of_nat_u32: "n < 2 ^ 32 \<Longrightarrow> unat (of_nat n :: u32) = n"
  by (simp add: unat_of_nat take_bit_nat_eq_self)

lemma sint_word_of_int_u64: "- (2 ^ 63) \<le> i \<Longrightarrow> i < 2 ^ 63 \<Longrightarrow> sint (word_of_int i :: u64) = i"
  by (simp add: signed_take_bit_int_eq_self sint_sbintrunc')

lemma sint_of_nat_u64: "n < 2 ^ 63 \<Longrightarrow> sint (of_nat n :: u64) = int n"
  using sint_word_of_int_u64 [of "int n"] by simp

end
