(* ===== verification/CLib.thy ===== *)
theory CLib
  imports Prelude
begin

text \<open>
  The part of the C library the sources use on strings and numbers: character classes,
  \<^verbatim>\<open>strtol\<close>, \<^verbatim>\<open>strtok\<close>, \<^verbatim>\<open>strchr\<close>, \<^verbatim>\<open>strcasecmp\<close>, \<^verbatim>\<open>fgets\<close>, \<^verbatim>\<open>snprintf\<close> and the conversions of
  \<^verbatim>\<open>printf\<close> and \<^verbatim>\<open>sscanf\<close>. A C string is a list of characters without its terminating NUL;
  a pointer that may be NULL is an \<open>option\<close>.
\<close>

section \<open>Characters\<close>

abbreviation chr_code :: "char \<Rightarrow> nat" where "chr_code c \<equiv> of_char c"

text \<open>The value of a \<^verbatim>\<open>char\<close> as an \<^verbatim>\<open>int\<close> (signed on the platform modelled).\<close>

definition schar :: "char \<Rightarrow> int" where
  "schar c = (let n = int (chr_code c) in if n < 128 then n else n - 256)"

definition isspace :: "char \<Rightarrow> bool" where
  "isspace c \<longleftrightarrow> chr_code c = 32 \<or> (9 \<le> chr_code c \<and> chr_code c \<le> 13)"

definition isdigit :: "char \<Rightarrow> bool" where
  "isdigit c \<longleftrightarrow> 48 \<le> chr_code c \<and> chr_code c \<le> 57"

definition digit_val :: "char \<Rightarrow> nat" where
  "digit_val c = chr_code c - 48"

definition digit_char :: "nat \<Rightarrow> char" where
  "digit_char n = char_of (48 + n)"

definition toupper :: "char \<Rightarrow> char" where
  "toupper c = (if 97 \<le> chr_code c \<and> chr_code c \<le> 122 then char_of (chr_code c - 32) else c)"

definition tolower :: "char \<Rightarrow> char" where
  "tolower c = (if 65 \<le> chr_code c \<and> chr_code c \<le> 90 then char_of (chr_code c + 32) else c)"

lemma schar_inj: "schar c = schar d \<longleftrightarrow> c = d"
proof
  assume "schar c = schar d"
  then have "chr_code c = chr_code d"
    using nat_of_char_less_256 [of c] nat_of_char_less_256 [of d]
    unfolding schar_def Let_def by (auto simp del: nat_of_char_less_256 split: if_splits)
  then show "c = d" by simp
qed simp

lemma schar_0: "schar c = 0 \<longleftrightarrow> chr_code c = 0"
  using nat_of_char_less_256 [of c] unfolding schar_def Let_def
  by (auto simp del: nat_of_char_less_256)

lemma chr_code_digit_char [simp]: "n < 10 \<Longrightarrow> chr_code (digit_char n) = 48 + n"
  by (simp add: digit_char_def)

lemma isdigit_digit_char [simp]: "n < 10 \<Longrightarrow> isdigit (digit_char n)"
  by (simp add: isdigit_def)

lemma digit_val_digit_char [simp]: "n < 10 \<Longrightarrow> digit_val (digit_char n) = n"
  by (simp add: digit_val_def)

lemma isdigit_not_space: "isdigit c \<Longrightarrow> \<not> isspace c"
  by (auto simp: isdigit_def isspace_def)

section \<open>Comparing and searching\<close>

definition strcasecmp_eq :: "string \<Rightarrow> string \<Rightarrow> bool" where
  "strcasecmp_eq s t \<longleftrightarrow> map tolower s = map tolower t"

definition strncasecmp_eq :: "string \<Rightarrow> string \<Rightarrow> nat \<Rightarrow> bool" where
  "strncasecmp_eq s t n \<longleftrightarrow> take n (map tolower s) = take n (map tolower t)"

text \<open>\<^verbatim>\<open>strchr\<close>: the part before the character and the part after it.\<close>

fun strchr :: "string \<Rightarrow> char \<Rightarrow> (string \<times> string) option" where
  "strchr [] d = None"
| "strchr (c # s) d =
     (if c = d then Some ([], s) else map_option (\<lambda>(a, b). (c # a, b)) (strchr s d))"

lemma strchr_Some: "strchr s d = Some (a, b) \<longleftrightarrow> s = a @ d # b \<and> d \<notin> set a"
proof (induction s arbitrary: a)
  case (Cons c s)
  show ?case
  proof (cases "c = d")
    case True
    then show ?thesis by (cases a) auto
  next
    case False
    then show ?thesis
      using Cons by (cases a) auto
  qed
qed simp

lemma strchr_None: "strchr s d = None \<longleftrightarrow> d \<notin> set s"
  by (induction s) auto

text \<open>The tokens successive calls of \<^verbatim>\<open>strtok\<close> with a one-character delimiter return.\<close>

function strtok_all :: "char \<Rightarrow> string \<Rightarrow> string list" where
  "strtok_all d s =
     (let t = dropWhile (\<lambda>c. c = d) s in
      if t = [] then []
      else takeWhile (\<lambda>c. c \<noteq> d) t # strtok_all d (dropWhile (\<lambda>c. c \<noteq> d) t))"
  by pat_completeness auto
termination
proof (relation "measure (\<lambda>(d, s). length s)", goal_cases)
  case (2 d s t)
  from 2(2) obtain c u where cu: "t = c # u"
    unfolding neq_Nil_conv by blast
  have "\<not> hd t = d"
    using hd_dropWhile [of "\<lambda>c. c = d" s] 2 by simp
  then have "length (dropWhile (\<lambda>c. c \<noteq> d) t) \<le> length u"
    using cu by (simp add: length_dropWhile_le)
  also have "length (c # u) \<le> length s"
    using 2(1) cu length_dropWhile_le by metis
  then have "length u < length s" by simp
  finally show ?case by simp
qed simp

declare strtok_all.simps [simp del]

section \<open>Decimal numbers\<close>

fun print_nat :: "nat \<Rightarrow> string" where
  "print_nat n = (if n < 10 then [digit_char n] else print_nat (n div 10) @ [digit_char (n mod 10)])"

declare print_nat.simps [simp del]

definition print_int :: "int \<Rightarrow> string" where
  "print_int i = (if i < 0 then CHR ''-'' # print_nat (nat (- i)) else print_nat (nat i))"

fun digits_value :: "nat \<Rightarrow> string \<Rightarrow> nat" where
  "digits_value acc [] = acc"
| "digits_value acc (c # s) = digits_value (10 * acc + digit_val c) s"

definition clamp_long :: "int \<Rightarrow> int" where
  "clamp_long i = max LONG_MIN (min LONG_MAX i)"

text \<open>\<^verbatim>\<open>strtol(s, &endptr, 10)\<close>: the value and the rest of the string at \<^verbatim>\<open>endptr\<close>.\<close>

definition strtol :: "string \<Rightarrow> int \<times> string" where
  "strtol s =
     (let t = dropWhile isspace s;
          neg = (t \<noteq> [] \<and> hd t = CHR ''-'');
          u = (if t \<noteq> [] \<and> (hd t = CHR ''-'' \<or> hd t = CHR ''+'') then tl t else t);
          ds = takeWhile isdigit u
      in if ds = [] then (0, s)
         else (clamp_long (if neg then - int (digits_value 0 ds) else int (digits_value 0 ds)),
               dropWhile isdigit u))"

definition atoi :: "string \<Rightarrow> int" where
  "atoi s = c_int (fst (strtol s))"

lemma print_nat_digits: "list_all isdigit (print_nat n)"
proof (induction n rule: print_nat.induct)
  case (1 n)
  then show ?case by (cases "n < 10") (simp_all add: print_nat.simps [of n])
qed

lemma print_nat_nonempty [simp]: "print_nat n \<noteq> []"
  by (subst print_nat.simps) simp

lemma digits_value_append:
  "digits_value acc (s @ t) = digits_value (digits_value acc s) t"
  by (induction s arbitrary: acc) auto

lemma digits_value_print_nat [simp]: "digits_value 0 (print_nat n) = n"
proof (induction n rule: print_nat.induct)
  case (1 n)
  show ?case
  proof (cases "n < 10")
    case True
    then show ?thesis by (simp add: print_nat.simps [of n])
  next
    case False
    then show ?thesis
      using 1 by (simp add: print_nat.simps [of n] digits_value_append)
  qed
qed

lemma takeWhile_digits:
  assumes "list_all isdigit s" and "r = [] \<or> \<not> isdigit (hd r)"
  shows "takeWhile isdigit (s @ r) = s" and "dropWhile isdigit (s @ r) = r"
proof -
  have all: "\<And>c. c \<in> set s \<Longrightarrow> isdigit c"
    using assms(1) by (auto simp: list_all_iff)
  have r: "takeWhile isdigit r = []" "dropWhile isdigit r = r"
    using assms(2) by (cases r; simp)+
  show "takeWhile isdigit (s @ r) = s"
    using all r(1) by (simp add: takeWhile_append2)
  show "dropWhile isdigit (s @ r) = r"
    using all r(2) by (simp add: dropWhile_append2)
qed

lemma print_nat_hd: "isdigit (hd (print_nat n))"
  using print_nat_digits [of n] print_nat_nonempty [of n]
  by (cases "print_nat n") auto

lemma sign_not_digit [simp]:
  "\<not> isdigit CHR ''-''" "\<not> isdigit CHR ''+''" "\<not> isspace CHR ''-''"
  by (simp_all add: isdigit_def isspace_def)

text \<open>Reading back a printed number, with anything but a digit after it.\<close>

lemma strtol_print_int:
  assumes range: "LONG_MIN \<le> i" "i \<le> LONG_MAX" and r: "r = [] \<or> \<not> isdigit (hd r)"
  shows "strtol (print_int i @ r) = (i, r)"
proof (cases "i < 0")
  case True
  note tw = takeWhile_digits [OF print_nat_digits r, of "nat (- i)"]
  show ?thesis
    using True range tw by (simp add: strtol_def print_int_def Let_def clamp_long_def)
next
  case False
  obtain c u where cu: "print_nat (nat i) = c # u"
    using print_nat_nonempty by (metis neq_Nil_conv)
  then have c: "isdigit c"
    using print_nat_hd [of "nat i"] by simp
  then have nc: "c \<noteq> CHR ''-''" "c \<noteq> CHR ''+''" "\<not> isspace c"
    using isdigit_not_space by auto
  note tw = takeWhile_digits [OF print_nat_digits r, of "nat i"]
  have "digits_value 0 (c # u) = nat i"
    using cu digits_value_print_nat [of "nat i"] by simp
  then show ?thesis
    using False range tw cu nc c
    by (simp add: strtol_def print_int_def Let_def clamp_long_def del: takeWhile.simps dropWhile.simps
          digits_value.simps) simp
qed

text \<open>The list a delimiter-separated text stands for, and its tokens.\<close>

fun join_sep :: "char \<Rightarrow> string list \<Rightarrow> string" where
  "join_sep d [] = []"
| "join_sep d [x] = x"
| "join_sep d (x # y # zs) = x @ d # join_sep d (y # zs)"

lemma takeWhile_token:
  assumes "d \<notin> set x" and "r = [] \<or> hd r = d"
  shows "takeWhile (\<lambda>c. c \<noteq> d) (x @ r) = x" and "dropWhile (\<lambda>c. c \<noteq> d) (x @ r) = r"
proof -
  have all: "\<And>c. c \<in> set x \<Longrightarrow> c \<noteq> d"
    using assms(1) by auto
  have r: "takeWhile (\<lambda>c. c \<noteq> d) r = []" "dropWhile (\<lambda>c. c \<noteq> d) r = r"
    using assms(2) by (cases r; simp)+
  show "takeWhile (\<lambda>c. c \<noteq> d) (x @ r) = x"
    using all r(1) by simp
  show "dropWhile (\<lambda>c. c \<noteq> d) (x @ r) = r"
    using all r(2) by simp
qed

lemma strtok_all_Nil [simp]: "strtok_all d [] = []"
  by (simp add: strtok_all.simps)

lemma strtok_all_skip [simp]: "strtok_all d (d # s) = strtok_all d s"
  by (subst strtok_all.simps, subst (2) strtok_all.simps) simp

lemma strtok_all_token:
  assumes "x \<noteq> []" and "d \<notin> set x" and "r = [] \<or> hd r = d"
  shows "strtok_all d (x @ r) = x # strtok_all d r"
proof -
  obtain c u where cu: "x = c # u" and "c \<noteq> d"
    using assms(1,2) by (cases x) auto
  then have "dropWhile (\<lambda>c. c = d) (x @ r) = x @ r" by simp
  then show ?thesis
    using assms takeWhile_token [OF assms(2,3)]
    by (subst strtok_all.simps) (simp add: Let_def)
qed

lemma strtok_all_join:
  assumes "\<forall>x\<in>set xs. x \<noteq> [] \<and> d \<notin> set x"
  shows "strtok_all d (join_sep d xs) = xs"
  using assms
proof (induction d xs rule: join_sep.induct)
  case (2 d x)
  then show ?case using strtok_all_token [of x d "[]"] by simp
next
  case (3 d x y zs)
  then show ?case
    using strtok_all_token [of x d "d # join_sep d (y # zs)"] by simp
qed simp

section \<open>Reading lines, formatting\<close>

text \<open>
  \<^verbatim>\<open>fgets(buf, k + 1, fp)\<close> on a file with the given remaining contents: the line read and
  the contents left. On an empty remainder \<^verbatim>\<open>fgets\<close> returns NULL.
\<close>

fun fgets :: "nat \<Rightarrow> string \<Rightarrow> string \<times> string" where
  "fgets 0 s = ([], s)"
| "fgets (Suc k) [] = ([], [])"
| "fgets (Suc k) (c # s) =
     (if c = CHR 0x0A then ([c], s) else (case fgets k s of (a, b) \<Rightarrow> (c # a, b)))"

lemma fgets_append: "fgets k s = (a, b) \<Longrightarrow> s = a @ b"
  by (induction k s arbitrary: a rule: fgets.induct) (auto split: if_splits prod.splits)

lemma fgets_length: "fgets k s = (a, b) \<Longrightarrow> length a \<le> k"
  by (induction k s arbitrary: a rule: fgets.induct) (auto split: if_splits prod.splits)

lemma fgets_decreases: "0 < k \<Longrightarrow> s \<noteq> [] \<Longrightarrow> length (snd (fgets k s)) < length s"
proof -
  assume k: "0 < k" and s: "s \<noteq> []"
  obtain a b where ab: "fgets k s = (a, b)" by (cases "fgets k s")
  obtain j c t where "k = Suc j" and "s = c # t"
    using k s by (metis gr0_implies_Suc neq_Nil_conv)
  then have "a \<noteq> []"
    using ab by (auto split: if_splits prod.splits)
  then show ?thesis
    using fgets_append [OF ab] ab by simp
qed

lemma fgets_less: "fgets k s = (a, b) \<Longrightarrow> 0 < k \<Longrightarrow> s \<noteq> [] \<Longrightarrow> length b < length s"
  using fgets_decreases [of k s] by simp

text \<open>
  \<^verbatim>\<open>snprintf\<close> into a buffer of the given size: the text left in the buffer; the value returned is
  the length of the whole text.
\<close>

definition snprintf_text :: "nat \<Rightarrow> string \<Rightarrow> string" where
  "snprintf_text n s = take (n - 1) s"

definition pad_left :: "nat \<Rightarrow> string \<Rightarrow> string" where
  "pad_left w s = replicate (w - length s) CHR '' '' @ s"

definition pad_right :: "nat \<Rightarrow> string \<Rightarrow> string" where
  "pad_right w s = s @ replicate (w - length s) CHR '' ''"

definition pad_zero :: "nat \<Rightarrow> string \<Rightarrow> string" where
  "pad_zero w s = replicate (w - length s) CHR ''0'' @ s"

text \<open>\<^verbatim>\<open>%.pf\<close>: the exact value rounded half to even at the given number of decimals.\<close>

definition round_even :: "real \<Rightarrow> int" where
  "round_even r =
     (let f = \<lfloor>r\<rfloor>; d = r - of_int f in
      if d < 1 / 2 then f else if d > 1 / 2 then f + 1 else if even f then f else f + 1)"

definition fmt_fixed :: "nat \<Rightarrow> real \<Rightarrow> string" where
  "fmt_fixed p x =
     (let k = nat (round_even (\<bar>x\<bar> * 10 ^ p));
          whole = print_nat (k div 10 ^ p);
          frac = pad_zero p (print_nat (k mod 10 ^ p))
      in (if x < 0 then ''-'' else []) @ whole @ (if p = 0 then [] else CHR ''.'' # frac))"

text \<open>\<^verbatim>\<open>%w.pf\<close>.\<close>

definition fmt_f :: "nat \<Rightarrow> nat \<Rightarrow> real \<Rightarrow> string" where
  "fmt_f w p x = pad_left w (fmt_fixed p x)"

text \<open>
  \<^verbatim>\<open>%.pg\<close> of a non-negative value: \<open>p\<close> significant digits, trailing zeros removed, scientific
  notation when the exponent is below -4 or at least \<open>p\<close>. The search for the exponent of a value
  below 1 stops after 400 places, more than a \<^verbatim>\<open>double\<close> has.
\<close>

fun small_exp :: "nat \<Rightarrow> real \<Rightarrow> nat" where
  "small_exp 0 v = 0"
| "small_exp (Suc n) v = (if v \<ge> 1 then 0 else Suc (small_exp n (v * 10)))"

definition strip_zeros :: "string \<Rightarrow> string" where
  "strip_zeros s = rev (dropWhile (\<lambda>c. c = CHR ''0'') (rev s))"

definition fmt_g :: "nat \<Rightarrow> real \<Rightarrow> string" where
  "fmt_g p v =
     (if v = 0 then ''0''
      else
       (let x0 = (if v \<ge> 1 then int (length (print_nat (nat \<lfloor>v\<rfloor>))) - 1 else - int (small_exp 400 v));
            e0 = int p - 1 - x0;
            k0 = nat (round_even (if e0 \<ge> 0 then v * 10 ^ nat e0 else v / 10 ^ nat (- e0)));
            x = (if k0 = 10 ^ p then x0 + 1 else x0);
            k = (if k0 = 10 ^ p then 10 ^ (p - 1) else k0)
        in if - 4 \<le> x \<and> x < int p then
             (let q = nat (int p - 1 - x);
                  frac = strip_zeros (pad_zero q (print_nat (k mod 10 ^ q)))
              in print_nat (k div 10 ^ q) @ (if q = 0 \<or> frac = [] then [] else CHR ''.'' # frac))
           else
             (let ds = pad_zero p (print_nat k); frac = strip_zeros (tl ds)
              in hd ds # (if frac = [] then [] else CHR ''.'' # frac) @ CHR ''e''
                 # (if x < 0 then CHR ''-'' else CHR ''+'') # pad_zero 2 (print_nat (nat \<bar>x\<bar>)))))"

text \<open>
  \<^verbatim>\<open>sscanf(s, "%f", &res)\<close> on decimal notation: sign, digits with an optional point, optional
  exponent. The value before it is rounded to \<^verbatim>\<open>float\<close>; \<open>None\<close> when nothing is converted.
\<close>

definition pow10 :: "int \<Rightarrow> real" where
  "pow10 e = (if e < 0 then 1 / 10 ^ nat (- e) else 10 ^ nat e)"

definition scan_decimal :: "string \<Rightarrow> real option" where
  "scan_decimal s =
     (let t = dropWhile isspace s;
          neg = (t \<noteq> [] \<and> hd t = CHR ''-'');
          u = (if t \<noteq> [] \<and> (hd t = CHR ''-'' \<or> hd t = CHR ''+'') then tl t else t);
          ip = takeWhile isdigit u; u1 = dropWhile isdigit u;
          pt = (u1 \<noteq> [] \<and> hd u1 = CHR ''.'');
          fp = (if pt then takeWhile isdigit (tl u1) else []);
          u2 = (if pt then dropWhile isdigit (tl u1) else u1);
          mant = real (digits_value 0 (ip @ fp)) * pow10 (- int (length fp));
          m = (if neg then - mant else mant)
      in if ip @ fp = [] then None
         else if u2 \<noteq> [] \<and> (hd u2 = CHR ''e'' \<or> hd u2 = CHR ''E'') then
           (let v = tl u2;
                eneg = (v \<noteq> [] \<and> hd v = CHR ''-'');
                w = (if v \<noteq> [] \<and> (hd v = CHR ''-'' \<or> hd v = CHR ''+'') then tl v else v);
                es = takeWhile isdigit w; e = int (digits_value 0 es)
            in if es = [] then None else Some (m * pow10 (if eneg then - e else e)))
         else Some m)"

lemma scan_decimal_examples:
  "scan_decimal ''1.5'' = Some (3 / 2)" "scan_decimal '' -2e1x'' = Some (- 20)" "scan_decimal ''x'' = None"
  by (simp_all add: scan_decimal_def Let_def isspace_def isdigit_def pow10_def digit_val_def)

lemma length_print_nat: "n < 10 ^ k \<Longrightarrow> 0 < k \<Longrightarrow> length (print_nat n) \<le> k"
proof (induction n arbitrary: k rule: print_nat.induct)
  case (1 n)
  show ?case
  proof (cases "n < 10")
    case True
    then show ?thesis using 1(3) by (simp add: print_nat.simps [of n])
  next
    case False
    then obtain j where j: "k = Suc j" "0 < j"
      using 1(2,3) by (cases k; cases "k - 1") auto
    then have "n div 10 < 10 ^ j"
      using 1(2) by (simp add: less_mult_imp_div_less mult.commute)
    then show ?thesis
      using 1(1) [OF False, of j] False j by (simp add: print_nat.simps [of n])
  qed
qed

end
