(* ===== verification/SbRand.thy ===== *)
theory SbRand
  imports CLib "HOL-Library.Multiset"
begin

text \<open>
  The random number generators of \<^verbatim>\<open>sysbench.c\<close>. The numbers the C library returns are
  an arbitrary sequence: the outcomes of successive calls of \<^verbatim>\<open>lrand48\<close> (below \<open>2^31\<close>) and of \<^verbatim>\<open>drand48\<close>. Signed
  and unsigned arithmetic is kept apart as in the source: a division of an \<^verbatim>\<open>int\<close> by an \<^verbatim>\<open>unsigned int\<close>
  is a division of 32-bit words. The unique generator has its seed protected by a mutex, so
  that a call is one step.
\<close>

section \<open>The generators\<close>

datatype rand_dist_t = DIST_TYPE_UNIFORM | DIST_TYPE_GAUSSIAN | DIST_TYPE_SPECIAL | DIST_TYPE_PARETO

definition LARGE_PRIME :: nat where "LARGE_PRIME = 2147483647"

record rand_t =
  rd_lrand48 :: "nat \<Rightarrow> nat"
  rd_calls :: nat
  rd_drand48 :: "nat \<Rightarrow> real"
  rd_dcalls :: nat
  rd_type :: rand_dist_t
  rd_iter :: u32
  rd_pct :: u32
  rd_res :: u32
  rd_pareto_power :: real
  rd_seed :: u64

definition SB_MAX_RND :: nat where "SB_MAX_RND = 0x3fffffff"

definition sb_rnd :: "rand_t \<Rightarrow> nat \<times> rand_t" where
  "sb_rnd r = (rd_lrand48 r (rd_calls r) mod SB_MAX_RND, r\<lparr>rd_calls := rd_calls r + 1\<rparr>)"

definition sb_rnd_double :: "rand_t \<Rightarrow> real \<times> rand_t" where
  "sb_rnd_double r = (rd_drand48 r (rd_dcalls r), r\<lparr>rd_dcalls := rd_dcalls r + 1\<rparr>)"

text \<open>The remainder of a number that is not negative by an \<^verbatim>\<open>int\<close>: its sign does not matter.\<close>

definition sb_rand_uniform :: "int \<Rightarrow> int \<Rightarrow> rand_t \<Rightarrow> (int \<times> rand_t) res" where
  "sb_rand_uniform a b r =
     (case sb_rnd r of (x, r) \<Rightarrow>
        if b - a + 1 = 0 then Inl Div_zero
        else Inr (c_int (a + int x mod \<bar>b - a + 1\<bar>), r))"

text \<open>The summing loop of the gaussian generators.\<close>

fun gaussian_sum :: "nat \<Rightarrow> u32 \<Rightarrow> u32 \<Rightarrow> rand_t \<Rightarrow> u32 \<times> rand_t" where
  "gaussian_sum 0 t s r = (s, r)"
| "gaussian_sum (Suc n) t s r =
     (case sb_rnd r of (x, r) \<Rightarrow> gaussian_sum n t (s + of_nat (x mod unat t)) r)"

definition sb_rand_gaussian :: "int \<Rightarrow> int \<Rightarrow> rand_t \<Rightarrow> (int \<times> rand_t) res" where
  "sb_rand_gaussian a b r =
     (let t = word_of_int (b - a + 1) :: u32 in
      if rd_iter r = 0 \<or> t = 0 then Inl Div_zero
      else case gaussian_sum (unat (rd_iter r)) t 0 r of (s, r) \<Rightarrow>
             Inr (sint (word_of_int a + s div rd_iter r), r))"

definition sb_rand_special :: "int \<Rightarrow> int \<Rightarrow> rand_t \<Rightarrow> (int \<times> rand_t) res" where
  "sb_rand_special a b r =
     (if a \<ge> b then Inr (0, r)
      else
        (let t = word_of_int (b - a + 1) :: u32 in
         if 100 - rd_res r = 0 then Inl Div_zero
         else
           (let range_size = t * (100 div (100 - rd_res r)) in
            if range_size = 0 then Inl Div_zero
            else case sb_rnd r of (x, r) \<Rightarrow>
              (let res = of_nat (x mod unat range_size) :: u32 in
               if res < t
               then (if rd_iter r = 0 then Inl Div_zero
                     else case gaussian_sum (unat (rd_iter r)) t 0 r of (s, r) \<Rightarrow>
                            Inr (sint (word_of_int a + s div rd_iter r), r))
               else
                 (let d = t * rd_pct r div 100;
                      d = (if d < 1 then 1 else d);
                      res = res mod d;
                      res = res + (t div 2 - t * rd_pct r div (100 * 2))
                  in Inr (sint (word_of_int a + res), r))))))"

definition sb_rand_pareto :: "fpenv \<Rightarrow> int \<Rightarrow> int \<Rightarrow> rand_t \<Rightarrow> (int \<times> rand_t) res" where
  "sb_rand_pareto fp a b r =
     (case sb_rnd_double r of (u, r) \<Rightarrow>
        (let v = fadd fp (of_int a) (fmul fp (of_int (c_int (b - a + 1))) (fp_pow fp u (rd_pareto_power r)))
         in Inr (if v \<ge> 0 then \<lfloor>v\<rfloor> else \<lceil>v\<rceil>, r)))"

definition sb_rand :: "fpenv \<Rightarrow> int \<Rightarrow> int \<Rightarrow> rand_t \<Rightarrow> (int \<times> rand_t) res" where
  "sb_rand fp a b r =
     (case rd_type r of
        DIST_TYPE_UNIFORM \<Rightarrow> sb_rand_uniform a b r
      | DIST_TYPE_GAUSSIAN \<Rightarrow> sb_rand_gaussian a b r
      | DIST_TYPE_SPECIAL \<Rightarrow> sb_rand_special a b r
      | DIST_TYPE_PARETO \<Rightarrow> sb_rand_pareto fp a b r)"

text \<open>The divisor is converted to 64 bits; a negative one would become a huge number.\<close>

definition sb_rand_uniq :: "int \<Rightarrow> int \<Rightarrow> rand_t \<Rightarrow> (int \<times> rand_t) res" where
  "sb_rand_uniq a b r =
     (let k = word_of_int (b - a + 1) :: u64 in
      if k = 0 then Inl Div_zero
      else (let res = sint (ucast (rd_seed r mod k) :: u32)
            in Inr (c_int (res + a), r\<lparr>rd_seed := rd_seed r + of_nat LARGE_PRIME\<rparr>)))"

text \<open>\<^verbatim>\<open>sb_rand_str\<close>: the characters written to the buffer, one per character of the format.\<close>

fun sb_rand_str :: "string \<Rightarrow> rand_t \<Rightarrow> (string \<times> rand_t) res" where
  "sb_rand_str [] r = Inr ([], r)"
| "sb_rand_str (c # fmt) r =
     rbind (if c = CHR ''#'' then rbind (sb_rand_uniform (schar CHR ''0'') (schar CHR ''9'') r) (\<lambda>(x, r). Inr (char_of (nat x), r))
            else if c = CHR ''@'' then rbind (sb_rand_uniform (schar CHR ''a'') (schar CHR ''z'') r) (\<lambda>(x, r). Inr (char_of (nat x), r))
            else Inr (c, r))
       (\<lambda>(d, r). rbind (sb_rand_str fmt r) (\<lambda>(s, r). Inr (d # s, r)))"

section \<open>Ranges\<close>

text \<open>Both ends are \<^verbatim>\<open>int\<close>s and the width of the range is one too.\<close>

definition range_ok :: "int \<Rightarrow> int \<Rightarrow> bool" where
  "range_ok a b \<longleftrightarrow> int_range a \<and> int_range b \<and> a \<le> b \<and> b - a < INT_MAX"

lemma range_okD: "range_ok a b \<Longrightarrow> a \<le> i \<Longrightarrow> i \<le> b \<Longrightarrow> int_range i"
  by (auto simp: range_ok_def int_range_def)

lemma sb_rand_uniform_range:
  assumes "range_ok a b"
  shows "\<exists>x r'. sb_rand_uniform a b r = Inr (x, r') \<and> a \<le> x \<and> x \<le> b \<and> rd_seed r' = rd_seed r"
proof -
  obtain x r' where x: "sb_rnd r = (x, r')" "rd_seed r' = rd_seed r"
    by (simp add: sb_rnd_def)
  have ab: "a \<le> b" "b - a + 1 > 0"
    using assms by (auto simp: range_ok_def)
  let ?y = "a + int x mod (b - a + 1)"
  have y: "a \<le> ?y" "?y \<le> b"
    using pos_mod_sign [OF ab(2), of "int x"] pos_mod_bound [OF ab(2), of "int x"] by linarith+
  then show ?thesis
    using x ab c_int_id [OF range_okD [OF assms y]] by (simp add: sb_rand_uniform_def)
qed

lemma sint_word_of_int_u32: "int_range i \<Longrightarrow> sint (word_of_int i :: u32) = i"
  using c_int_id [of i] by (simp add: c_int_def)

lemma unat_word_of_int_u32: "0 \<le> i \<Longrightarrow> i < 2 ^ 32 \<Longrightarrow> unat (word_of_int i :: u32) = nat i"
  by (simp add: unat_eq_nat_uint uint_word_of_int_eq take_bit_int_eq_self)

lemma unat_width: "range_ok a b \<Longrightarrow> unat (word_of_int (b - a + 1) :: u32) = nat (b - a) + 1"
  by (subst unat_word_of_int_u32) (auto simp: range_ok_def)

text \<open>A value below the width of the range, added to its lower end.\<close>

lemma offset_in_range:
  assumes "range_ok a b" and "unat w \<le> nat (b - a)"
  shows "sint (word_of_int a + (w :: u32)) = a + int (unat w) \<and> a \<le> a + int (unat w) \<and> a + int (unat w) \<le> b"
proof -
  have ab: "a \<le> b"
    using assms(1) by (simp add: range_ok_def)
  have "int (unat w) \<le> int (nat (b - a))"
    using assms(2) by (simp only: of_nat_le_iff)
  then have "int (unat w) \<le> b - a"
    unfolding int_nat_eq using ab by (simp only: if_P diff_ge_0_iff_ge)
  then have le: "a \<le> a + int (unat w)" "a + int (unat w) \<le> b"
    using of_nat_0_le_iff [of "unat w"] by linarith+
  have "word_of_int a + w = word_of_int (a + int (unat w))"
    by (simp add: uint_nat [symmetric])
  then show ?thesis
    using sint_word_of_int_u32 [OF range_okD [OF assms(1) le]] le by metis
qed

lemma gaussian_sum_bound:
  assumes "0 < unat t" and "unat s + n * (unat t - 1) < 2 ^ 32"
  shows "unat (fst (gaussian_sum n t s r)) \<le> unat s + n * (unat t - 1)"
  using assms(2)
proof (induction n arbitrary: s r)
  case (Suc n)
  obtain x r' where x: "sb_rnd r = (x, r')" by fastforce
  have "x mod unat t < unat t"
    using assms(1) by simp
  then have le: "x mod unat t \<le> unat t - 1"
    by simp
  have small: "x mod unat t < 2 ^ 32"
    using le Suc.prems by simp
  have sum: "unat (s + of_nat (x mod unat t)) = unat s + x mod unat t"
    using Suc.prems le small
    by (subst unat_plus_no_wrap) (simp_all add: unat_of_nat take_bit_nat_eq_self)
  have "unat (fst (gaussian_sum n t (s + of_nat (x mod unat t)) r')) \<le> unat s + x mod unat t + n * (unat t - 1)"
    unfolding sum [symmetric] using Suc.prems le sum by (intro Suc.IH) simp
  then show ?case using x le by simp
qed simp

lemma gaussian_sum_frame: "gaussian_sum n t s r = (s', r') \<Longrightarrow> rd_iter r' = rd_iter r \<and> rd_seed r' = rd_seed r"
  by (induction n arbitrary: s r) (auto simp: sb_rnd_def)

lemma gaussian_quotient:
  assumes "range_ok a b" and "iter \<noteq> 0" and "unat iter * nat (b - a) < 2 ^ 32"
  shows "unat (fst (gaussian_sum (unat iter) (word_of_int (b - a + 1)) 0 r) div iter) \<le> nat (b - a)"
proof -
  define s where "s = fst (gaussian_sum (unat iter) (word_of_int (b - a + 1)) 0 r)"
  have it: "0 < unat iter"
    using assms(2) by (simp add: unat_gt_0)
  have "unat s \<le> unat iter * nat (b - a)"
    using gaussian_sum_bound [of "word_of_int (b - a + 1)" 0 "unat iter" r] assms(3)
    unfolding s_def unat_width [OF assms(1)] by simp
  then have "unat s div unat iter \<le> unat iter * nat (b - a) div unat iter"
    by (rule div_le_mono)
  then show ?thesis
    using it unfolding s_def [symmetric] by (simp add: unat_div)
qed

text \<open>The second part of the special distribution stays below the width of the range.\<close>

lemma special_offset:
  fixes t pct res :: nat
  assumes "2 \<le> t" and "pct \<le> 100" and "d = (if t * pct div 100 < 1 then 1 else t * pct div 100)"
  shows "t * pct div 200 \<le> t div 2" and "res mod d + (t div 2 - t * pct div 200) \<le> t - 1"
proof -
  define m where "m = t * pct"
  have m: "m \<le> 100 * t"
    using assms(2) by (simp add: m_def)
  show le: "t * pct div 200 \<le> t div 2"
    unfolding m_def [symmetric] using m by linarith
  have "res mod d \<le> d - 1"
    using assms(3) by (cases "d = 0") (auto simp: Suc_le_eq less_Suc_eq_le [symmetric] split: if_splits)
  moreover have "d - 1 + (t div 2 - m div 200) \<le> t - 1"
    using assms(1,3) m unfolding m_def [symmetric] by (auto split: if_splits)
  ultimately show "res mod d + (t div 2 - t * pct div 200) \<le> t - 1"
    unfolding m_def [symmetric] by linarith
qed

section \<open>Properties of the generators\<close>

text \<open>What the gaussian and the special distribution ask of their parameters.\<close>

definition gaussian_ok :: "rand_t \<Rightarrow> int \<Rightarrow> int \<Rightarrow> bool" where
  "gaussian_ok r a b \<longleftrightarrow> 0 < unat (rd_iter r) \<and> unat (rd_iter r) * nat (b - a) < 2 ^ 32"

definition special_ok :: "rand_t \<Rightarrow> int \<Rightarrow> int \<Rightarrow> bool" where
  "special_ok r a b \<longleftrightarrow>
     gaussian_ok r a b \<and> a < b \<and>
     unat (rd_res r) < 100 \<and> (nat (b - a) + 1) * (100 div (100 - unat (rd_res r))) < 2 ^ 32 \<and>
     unat (rd_pct r) \<le> 100 \<and> (nat (b - a) + 1) * unat (rd_pct r) < 2 ^ 32"

definition dist_ok :: "rand_t \<Rightarrow> int \<Rightarrow> int \<Rightarrow> bool" where
  "dist_ok r a b \<longleftrightarrow>
     range_ok a b \<and>
     (case rd_type r of
        DIST_TYPE_UNIFORM \<Rightarrow> True
      | DIST_TYPE_GAUSSIAN \<Rightarrow> gaussian_ok r a b
      | DIST_TYPE_SPECIAL \<Rightarrow> special_ok r a b
      | DIST_TYPE_PARETO \<Rightarrow> False)"

lemma sb_rand_gaussian_range:
  assumes "range_ok a b" and "rd_iter r \<noteq> 0" and "unat (rd_iter r) * nat (b - a) < 2 ^ 32"
  shows "\<exists>x r'. sb_rand_gaussian a b r = Inr (x, r') \<and> a \<le> x \<and> x \<le> b"
proof -
  obtain s r' where s: "gaussian_sum (unat (rd_iter r)) (word_of_int (b - a + 1)) 0 r = (s, r')"
    by fastforce
  have "(word_of_int (b - a + 1) :: u32) \<noteq> 0"
    using unat_width [OF assms(1)] by (metis Suc_eq_plus1 nat.distinct(1) unat_0)
  then show ?thesis
    using s offset_in_range [OF assms(1), of "s div rd_iter r"] gaussian_quotient [OF assms, of r] assms(2)
      gaussian_sum_frame [OF s] by (simp add: sb_rand_gaussian_def)
qed

lemma unat_mult_small: "unat a * unat b < 2 ^ 32 \<Longrightarrow> unat (a * b :: u32) = unat a * unat b"
  by (simp add: unat_word_ariths)

lemma sb_rand_special_range:
  assumes "range_ok a b" and "special_ok r a b"
  shows "\<exists>x r'. sb_rand_special a b r = Inr (x, r') \<and> a \<le> x \<and> x \<le> b"
proof -
  have ok: "range_ok a b" "a < b" "unat (rd_iter r) * nat (b - a) < 2 ^ 32" "rd_iter r \<noteq> 0" "unat (rd_res r) < 100"
      "(nat (b - a) + 1) * (100 div (100 - unat (rd_res r))) < 2 ^ 32" "unat (rd_pct r) \<le> 100"
      "(nat (b - a) + 1) * unat (rd_pct r) < 2 ^ 32"
    using assms by (auto simp: special_ok_def gaussian_ok_def unat_gt_0)
  define t :: u32 where "t = word_of_int (b - a + 1)"
  have t': "word_of_int b - word_of_int a + 1 = t"
    by (simp add: t_def)
  have t: "unat t = nat (b - a) + 1" "2 \<le> unat t"
    using unat_width [OF ok(1)] ok(2) by (auto simp: t_def)
  have "rd_res r \<le> 100"
    using ok(5) by (simp add: word_le_nat_alt)
  then have q: "unat (100 - rd_res r) = 100 - unat (rd_res r)"
    by (simp add: unat_sub)
  then have q0: "100 - rd_res r \<noteq> 0"
    using ok(5) by auto
  have qd: "unat (100 div (100 - rd_res r)) = 100 div (100 - unat (rd_res r))"
    by (simp add: unat_div q)
  let ?rs = "t * (100 div (100 - rd_res r))"
  have "unat ?rs = unat t * (100 div (100 - unat (rd_res r)))"
    using ok(6) t(1) qd by (subst unat_mult_small) simp_all
  moreover have "0 < 100 div (100 - unat (rd_res r))"
    using ok(5) by (simp add: div_greater_zero_iff)
  ultimately have rs: "?rs \<noteq> 0"
    using t(2) by (metis mult_eq_0_iff not_gr_zero not_numeral_le_zero unat_0)
  obtain x r1 where x: "sb_rnd r = (x, r1)" "rd_iter r1 = rd_iter r" "rd_pct r1 = rd_pct r"
    by (simp add: sb_rnd_def)
  define res where "res = (of_nat (x mod unat ?rs) :: u32)"
  show ?thesis
  proof (cases "res < t")
    case True
    obtain s r2 where s: "gaussian_sum (unat (rd_iter r)) t 0 r1 = (s, r2)"
      by fastforce
    have "unat (s div rd_iter r) \<le> nat (b - a)"
      using gaussian_quotient [OF ok(1,4,3), of r1] s by (simp add: t_def)
    then show ?thesis
      using offset_in_range [OF ok(1), of "s div rd_iter r"] s x rs q0 True ok(2,4) gaussian_sum_frame [OF s]
      by (simp add: sb_rand_special_def t' res_def [symmetric] Let_def)
  next
    case False
    let ?d = "if t * rd_pct r div 100 < 1 then 1 else t * rd_pct r div 100"
    let ?o = "res mod ?d + (t div 2 - t * rd_pct r div 200)"
    have tp: "unat (t * rd_pct r) = unat t * unat (rd_pct r)"
      using ok(8) t(1) by (intro unat_mult_small) simp
    have d: "unat ?d = (if unat t * unat (rd_pct r) div 100 < 1 then 1 else unat t * unat (rd_pct r) div 100)"
      using tp by (simp add: unat_div word_less_nat_alt)
    note so = special_offset [OF t(2) ok(7) d]
    have sub: "unat (t div 2 - t * rd_pct r div 200) = unat t div 2 - unat t * unat (rd_pct r) div 200"
      using so(1) tp by (subst unat_sub) (simp_all add: word_le_nat_alt unat_div)
    have bound: "unat (res mod ?d) + unat (t div 2 - t * rd_pct r div 200) \<le> unat t - 1"
      using so(2) [of "unat res"] unfolding sub unat_mod d by simp
    then have "unat ?o = unat (res mod ?d) + unat (t div 2 - t * rd_pct r div 200)"
      using t(1) ok(1) by (intro unat_plus_no_wrap) (auto simp: range_ok_def)
    then have o: "unat ?o \<le> nat (b - a)"
      using bound t(1) by linarith
    have "sb_rand_special a b r = Inr (sint (word_of_int a + ?o), r1)"
      using x rs q0 False ok(2) by (simp add: sb_rand_special_def t' res_def [symmetric] Let_def)
    then show ?thesis
      using offset_in_range [OF ok(1) o] by metis
  qed
qed

text \<open>For a single number, or an empty range, the special distribution returns 0, whatever the number is.\<close>

lemma sb_rand_special_single: "b \<le> a \<Longrightarrow> sb_rand_special a b r = Inr (0, r)"
  by (simp add: sb_rand_special_def)

text \<open>
  (C32) Whatever the C library returns, the uniform, gaussian and special generators return
  a number of the range asked for, without a fault. The range must not be empty and its width must fit an \<^verbatim>\<open>int\<close>; the gaussian and the special
  distribution need at least one iteration, and the sum of their draws must not wrap; the special distribution
  needs a range of at least two numbers (for one number it returns 0), percentages below their limits and products that do not wrap in 32 bits.
\<close>

theorem sb_rand_in_range:
  assumes "dist_ok r a b"
  shows "\<exists>x r'. sb_rand fp a b r = Inr (x, r') \<and> a \<le> x \<and> x \<le> b"
proof (cases "rd_type r")
  case DIST_TYPE_UNIFORM
  then show ?thesis
    using assms sb_rand_uniform_range [of a b r] by (auto simp: dist_ok_def sb_rand_def)
next
  case DIST_TYPE_GAUSSIAN
  then show ?thesis
    using assms sb_rand_gaussian_range [of a b r] by (auto simp: dist_ok_def gaussian_ok_def sb_rand_def unat_gt_0)
next
  case DIST_TYPE_SPECIAL
  then show ?thesis
    using assms sb_rand_special_range [of a b r] by (auto simp: dist_ok_def sb_rand_def)
next
  case DIST_TYPE_PARETO
  then show ?thesis
    using assms by (simp add: dist_ok_def)
qed

definition sample_rand :: rand_t where
  "sample_rand = \<lparr>rd_lrand48 = (\<lambda>n. 1103515245 * n + 12345), rd_calls = 0, rd_drand48 = (\<lambda>n. 0), rd_dcalls = 0,
     rd_type = DIST_TYPE_SPECIAL, rd_iter = 12, rd_pct = 1, rd_res = 75, rd_pareto_power = 1, rd_seed = 2147483647\<rparr>"

lemma sb_rand_in_range_witness:
  "\<exists>x r'. sb_rand fp_exact 1 10000 sample_rand = Inr (x, r') \<and> 1 \<le> x \<and> x \<le> 10000"
  using sb_rand_in_range [of sample_rand 1 10000 fp_exact]
  by (simp add: dist_ok_def special_ok_def gaussian_ok_def range_ok_def int_range_def sample_rand_def)

section \<open>Unique numbers\<close>

fun sb_rand_uniq_seq :: "nat \<Rightarrow> int \<Rightarrow> int \<Rightarrow> rand_t \<Rightarrow> (int list \<times> rand_t) res" where
  "sb_rand_uniq_seq 0 a b r = Inr ([], r)"
| "sb_rand_uniq_seq (Suc n) a b r =
     rbind (sb_rand_uniq a b r)
       (\<lambda>(x, r). rbind (sb_rand_uniq_seq n a b r) (\<lambda>(xs, r). Inr (x # xs, r)))"

lemma sb_rand_uniq_step:
  assumes "range_ok a b"
  shows "sb_rand_uniq a b r =
    Inr (a + int (unat (rd_seed r) mod (nat (b - a) + 1)), r\<lparr>rd_seed := rd_seed r + of_nat LARGE_PRIME\<rparr>)"
proof -
  let ?k = "word_of_int (b - a + 1) :: u64" and ?n = "nat (b - a) + 1"
  have ab: "0 \<le> b - a" "b - a < INT_MAX"
    using assms by (auto simp: range_ok_def)
  have k: "unat ?k = ?n"
    using ab by (simp add: unat_eq_nat_uint uint_word_of_int_eq take_bit_int_eq_self nat_add_distrib del: of_int_add of_int_diff)
  then have k0: "?k \<noteq> 0"
    by (metis Suc_eq_plus1 nat.distinct(1) unat_0)
  define m where "m = unat (rd_seed r) mod ?n"
  have m: "m < ?n" "unat (rd_seed r mod ?k) = m"
    using k by (simp_all add: m_def unat_mod)
  have "m < 2 ^ 32"
    using m(1) ab by simp
  then have "unat (ucast (rd_seed r mod ?k) :: u32) = m"
    using m(2) by (simp add: unsigned_ucast_eq take_bit_nat_eq_self)
  then have "uint (ucast (rd_seed r mod ?k) :: u32) = int m"
    unfolding uint_nat by (rule arg_cong)
  then have "(ucast (rd_seed r mod ?k) :: u32) = word_of_int (int m)"
    by (metis word_of_int_uint)
  moreover have "int_range (int m)"
    using m(1) ab by (simp add: int_range_def)
  ultimately have s: "sint (ucast (rd_seed r mod ?k) :: u32) = int m"
    using sint_word_of_int_u32 by metis
  have "int_range (a + int m)"
    using m(1) ab by (intro range_okD [OF assms]) auto
  then show ?thesis
    using k0 s unfolding sb_rand_uniq_def Let_def by (simp add: add.commute m_def del: of_int_add of_int_diff)
qed

lemma sb_rand_uniq_seq_eq:
  assumes "range_ok a b" and "unat (rd_seed r) + n * LARGE_PRIME < 2 ^ 64"
  shows "\<exists>r'. sb_rand_uniq_seq n a b r =
    Inr (map (\<lambda>i. a + int ((unat (rd_seed r) + i * LARGE_PRIME) mod (nat (b - a) + 1))) [0..<n], r')"
  using assms(2)
proof (induction n arbitrary: r)
  case (Suc n)
  let ?r = "r\<lparr>rd_seed := rd_seed r + of_nat LARGE_PRIME\<rparr>"
  have seed: "unat (rd_seed ?r) = unat (rd_seed r) + LARGE_PRIME"
    using Suc.prems by (simp add: unat_plus_no_wrap LARGE_PRIME_def)
  obtain r' where "sb_rand_uniq_seq n a b ?r =
      Inr (map (\<lambda>i. a + int ((unat (rd_seed ?r) + i * LARGE_PRIME) mod (nat (b - a) + 1))) [0..<n], r')"
    using Suc.IH [of ?r] Suc.prems seed by (auto simp: algebra_simps)
  moreover have "map (\<lambda>i. a + int ((unat (rd_seed ?r) + i * LARGE_PRIME) mod (nat (b - a) + 1))) [0..<n] =
      map (\<lambda>i. a + int ((unat (rd_seed r) + i * LARGE_PRIME) mod (nat (b - a) + 1))) (map Suc [0..<n])"
    unfolding seed by (simp add: algebra_simps)
  ultimately show ?case
    using sb_rand_uniq_step [OF assms(1), of r] by (simp add: upt_conv_Cons map_Suc_upt del: upt_Suc)
qed simp

lemma mod_shift_inj:
  fixes k p :: nat
  assumes "coprime k p" and "i < k" and "j < k" and "i \<le> j" and "(s + i * p) mod k = (s + j * p) mod k"
  shows "i = j"
proof -
  have "k dvd (s + j * p) - (s + i * p)"
    using assms(4,5) by (metis add_le_cancel_left mod_eq_dvd_iff_nat mult_le_mono1)
  then have "k dvd (j - i) * p"
    by (simp add: diff_mult_distrib)
  then have "k dvd j - i"
    using assms(1) by (simp add: coprime_dvd_mult_left_iff)
  then show ?thesis
    using assms(3,4) by (auto dest: dvd_imp_le)
qed

text \<open>
  (C33) Unique numbers are unique: for a range whose width is coprime to \<^verbatim>\<open>LARGE_PRIME\<close>, as many
  successive calls of \<^verbatim>\<open>sb_rand_uniq\<close> as the range has elements return each element of the range exactly once,
  as long as the 64-bit seed does not wrap in between.
\<close>

theorem sb_rand_uniq_permutation:
  assumes "range_ok a b" and "coprime (nat (b - a) + 1) LARGE_PRIME"
    and "unat (rd_seed r) + (nat (b - a) + 1) * LARGE_PRIME < 2 ^ 64"
  shows "\<exists>xs r'. sb_rand_uniq_seq (nat (b - a) + 1) a b r = Inr (xs, r') \<and> distinct xs \<and> set xs = {a..b}"
proof -
  let ?k = "nat (b - a) + 1" and ?s = "unat (rd_seed r)"
  let ?f = "\<lambda>i. a + int ((?s + i * LARGE_PRIME) mod ?k)"
  have "inj_on ?f {0..<?k}"
  proof (rule inj_onI)
    fix i j assume ij: "i \<in> {0..<?k}" "j \<in> {0..<?k}" and "?f i = ?f j"
    then have "(?s + i * LARGE_PRIME) mod ?k = (?s + j * LARGE_PRIME) mod ?k" by simp
    then show "i = j"
      using mod_shift_inj [OF assms(2), of i j ?s] mod_shift_inj [OF assms(2), of j i ?s] ij
      unfolding atLeastLessThan_iff by (metis linear)
  qed
  then have dist: "distinct (map ?f [0..<?k])"
    unfolding distinct_map set_upt by (intro conjI distinct_upt)
  have "?f i \<in> {a..b}" for i
  proof -
    have "(?s + i * LARGE_PRIME) mod ?k < ?k" by simp
    then have "int ((?s + i * LARGE_PRIME) mod ?k) < int ?k"
      unfolding of_nat_less_iff .
    moreover have "int ?k = b - a + 1"
      using assms(1) by (simp add: range_ok_def)
    ultimately show ?thesis
      unfolding atLeastAtMost_iff by linarith
  qed
  then have "set (map ?f [0..<?k]) \<subseteq> {a..b}"
    unfolding set_map by blast
  moreover have "card (set (map ?f [0..<?k])) = card {a..b}"
    unfolding distinct_card [OF dist] length_map using assms(1) by (simp add: range_ok_def nat_add_distrib)
  ultimately have "set (map ?f [0..<?k]) = {a..b}"
    by (intro card_subset_eq) auto
  then show ?thesis
    using sb_rand_uniq_seq_eq [OF assms(1,3)] dist by blast
qed

lemma sb_rand_uniq_permutation_witness:
  "\<exists>xs r'. sb_rand_uniq_seq 10 1 10 sample_rand = Inr (xs, r') \<and> distinct xs \<and> set xs = {1..10}"
proof -
  have "coprime (10::nat) LARGE_PRIME"
    by (simp add: LARGE_PRIME_def coprime_iff_gcd_eq_1 gcd_non_0_nat)
  then show ?thesis
    using sb_rand_uniq_permutation [of 1 10 sample_rand]
    by (simp add: range_ok_def int_range_def LARGE_PRIME_def sample_rand_def)
qed

section \<open>Random strings\<close>

definition fits_format :: "char \<Rightarrow> char \<Rightarrow> bool" where
  "fits_format f c \<longleftrightarrow>
     (if f = CHR ''#'' then isdigit c
      else if f = CHR ''@'' then 97 \<le> chr_code c \<and> chr_code c \<le> 122
      else c = f)"

lemma uniform_char:
  assumes "0 \<le> a" and "a \<le> b" and "b < 256"
  shows "\<exists>x r'. sb_rand_uniform a b r = Inr (x, r') \<and> a \<le> int (chr_code (char_of (nat x) :: char)) \<and> int (chr_code (char_of (nat x) :: char)) \<le> b"
proof -
  have "range_ok a b"
    using assms by (simp add: range_ok_def int_range_def)
  then obtain x r' where x: "sb_rand_uniform a b r = Inr (x, r')" "a \<le> x" "x \<le> b"
    using sb_rand_uniform_range by blast
  moreover have "chr_code (char_of (nat x) :: char) = nat x"
    using x assms by (simp add: of_char_of nat_less_iff)
  ultimately show ?thesis
    using assms by auto
qed

text \<open>
  A random string has the length of its format: each \<^verbatim>\<open>#\<close> becomes a decimal digit, each \<^verbatim>\<open>@\<close> a lower
  case letter, and every other character is copied.
\<close>

lemma sb_rand_str_format:
  "\<exists>s r'. sb_rand_str fmt r = Inr (s, r') \<and> list_all2 fits_format fmt s"
proof (induction fmt arbitrary: r)
  case (Cons c fmt)
  have "\<exists>d r1. (if c = CHR ''#'' then rbind (sb_rand_uniform (schar CHR ''0'') (schar CHR ''9'') r) (\<lambda>(x, r). Inr (char_of (nat x), r))
        else if c = CHR ''@'' then rbind (sb_rand_uniform (schar CHR ''a'') (schar CHR ''z'') r) (\<lambda>(x, r). Inr (char_of (nat x), r))
        else Inr (c, r)) = Inr (d, r1) \<and> fits_format c d"
    using uniform_char [of 48 57 r] uniform_char [of 97 122 r]
    by (auto simp: schar_def fits_format_def isdigit_def)
  then obtain d r1 where "sb_rand_str (c # fmt) r = rbind (sb_rand_str fmt r1) (\<lambda>(s, r). Inr (d # s, r))" "fits_format c d"
    by auto
  then show ?case
    using Cons.IH [of r1] by auto
qed simp

end
