(* ===== verification/SbList.thy ===== *)
theory SbList
  imports Prelude
begin

text \<open>
  The intrusive doubly linked lists of \<^verbatim>\<open>sb_list.h\<close>. An address is a number, the store maps
  an address to its item, and each macro is the sequence of assignments it expands to. A
  list is circular through its head; \<open>dll h hd xs\<close> says that the list at head \<open>hd\<close> holds the
  items \<open>xs\<close> in this order. Every operation is shown to refine the operation on \<open>xs\<close>, and the
  interface \<open>intrusive_list\<close> is what the components that keep lists rely on.
\<close>

section \<open>Items and stores\<close>

record sb_list_item_t =
  next_p :: nat
  prev_p :: nat

type_synonym store = "nat \<Rightarrow> sb_list_item_t"

definition set_next :: "nat \<Rightarrow> nat \<Rightarrow> store \<Rightarrow> store" where
  "set_next a v h = h(a := (h a)\<lparr>next_p := v\<rparr>)"

definition set_prev :: "nat \<Rightarrow> nat \<Rightarrow> store \<Rightarrow> store" where
  "set_prev a v h = h(a := (h a)\<lparr>prev_p := v\<rparr>)"

lemma next_set_next [simp]: "next_p (set_next a v h x) = (if x = a then v else next_p (h x))"
  by (simp add: set_next_def)

lemma prev_set_next [simp]: "prev_p (set_next a v h x) = prev_p (h x)"
  by (simp add: set_next_def)

lemma next_set_prev [simp]: "next_p (set_prev a v h x) = next_p (h x)"
  by (simp add: set_prev_def)

lemma prev_set_prev [simp]: "prev_p (set_prev a v h x) = (if x = a then v else prev_p (h x))"
  by (simp add: set_prev_def)

section \<open>The macros\<close>

definition SB_LIST_INIT :: "nat \<Rightarrow> store \<Rightarrow> store" where
  "SB_LIST_INIT hd_p h =
     (let h = set_next hd_p hd_p h;
          h = set_prev hd_p hd_p h
      in h)"

definition SB_LIST_ADD :: "nat \<Rightarrow> nat \<Rightarrow> store \<Rightarrow> store" where
  "SB_LIST_ADD item_p hd_p h =
     (let h = set_next item_p (next_p (h hd_p)) h;
          h = set_prev item_p hd_p h;
          h = set_next hd_p item_p h;
          h = set_prev (next_p (h item_p)) item_p h
      in h)"

definition SB_LIST_ADD_TAIL :: "nat \<Rightarrow> nat \<Rightarrow> store \<Rightarrow> store" where
  "SB_LIST_ADD_TAIL item_p hd_p h =
     (let h = set_prev item_p (prev_p (h hd_p)) h;
          h = set_next item_p hd_p h;
          h = set_prev hd_p item_p h;
          h = set_next (prev_p (h item_p)) item_p h
      in h)"

definition SB_LIST_DELETE :: "nat \<Rightarrow> store \<Rightarrow> store" where
  "SB_LIST_DELETE old_p h =
     (let h = set_prev (next_p (h old_p)) (prev_p (h old_p)) h;
          h = set_next (prev_p (h old_p)) (next_p (h old_p)) h
      in h)"

definition SB_LIST_REPLACE :: "nat \<Rightarrow> nat \<Rightarrow> store \<Rightarrow> store" where
  "SB_LIST_REPLACE item_p old_p h =
     (let h = set_next item_p (next_p (h old_p)) h;
          h = set_prev item_p (prev_p (h old_p)) h;
          h = set_prev (next_p (h item_p)) item_p h;
          h = set_next (prev_p (h item_p)) item_p h
      in h)"

definition SB_LIST_IS_EMPTY :: "nat \<Rightarrow> store \<Rightarrow> bool" where
  "SB_LIST_IS_EMPTY hd_p h \<longleftrightarrow> next_p (h hd_p) = hd_p"

definition SB_LIST_ITEM_IN_LIST :: "nat \<Rightarrow> store \<Rightarrow> bool" where
  "SB_LIST_ITEM_IN_LIST item_p h \<longleftrightarrow> next_p (h item_p) \<noteq> item_p"

definition SB_LIST_ITEM_FIRST :: "nat \<Rightarrow> nat \<Rightarrow> store \<Rightarrow> bool" where
  "SB_LIST_ITEM_FIRST item_p hd_p h \<longleftrightarrow> prev_p (h item_p) \<noteq> hd_p"

definition SB_LIST_ITEM_LAST :: "nat \<Rightarrow> nat \<Rightarrow> store \<Rightarrow> bool" where
  "SB_LIST_ITEM_LAST item_p hd_p h \<longleftrightarrow> next_p (h item_p) = hd_p"

definition SB_LIST_ITEM_NEXT :: "nat \<Rightarrow> store \<Rightarrow> nat" where
  "SB_LIST_ITEM_NEXT item_p h = next_p (h item_p)"

definition SB_LIST_ITEM_PREV :: "nat \<Rightarrow> store \<Rightarrow> nat" where
  "SB_LIST_ITEM_PREV item_p h = prev_p (h item_p)"

text \<open>\<^verbatim>\<open>SB_LIST_ONCE\<close>: the first item, if there is one.\<close>

definition SB_LIST_ONCE :: "nat \<Rightarrow> store \<Rightarrow> nat option" where
  "SB_LIST_ONCE hd_p h = (let pos = next_p (h hd_p) in if pos \<noteq> hd_p then Some pos else None)"

definition SB_LIST_ENUM_NEXT :: "nat \<Rightarrow> nat \<Rightarrow> store \<Rightarrow> nat option" where
  "SB_LIST_ENUM_NEXT pos_p hd_p h =
     (if next_p (h pos_p) \<noteq> hd_p then Some (next_p (h pos_p)) else None)"

text \<open>
  \<^verbatim>\<open>SB_LIST_FOR_EACH\<close> with a body that may change a state but not the list: the loop runs
  while the position is not the head. A corrupted list can make it run for ever, so the loop
  has fuel; \<open>None\<close> is running out of it.
\<close>

fun SB_LIST_FOR_EACH :: "nat \<Rightarrow> (nat \<Rightarrow> 's \<Rightarrow> 's) \<Rightarrow> nat \<Rightarrow> store \<Rightarrow> nat \<Rightarrow> 's \<Rightarrow> 's option" where
  "SB_LIST_FOR_EACH 0 body hd_p h pos s = None"
| "SB_LIST_FOR_EACH (Suc n) body hd_p h pos s =
     (if pos \<noteq> hd_p then SB_LIST_FOR_EACH n body hd_p h (next_p (h pos)) (body pos s)
      else Some s)"

text \<open>
  \<^verbatim>\<open>SB_LIST_FOR_EACH_SAFE\<close>: the successor is read before the body runs, so the body may
  unlink the current item.
\<close>

fun SB_LIST_FOR_EACH_SAFE ::
  "nat \<Rightarrow> (nat \<Rightarrow> store \<times> 's \<Rightarrow> store \<times> 's) \<Rightarrow> nat \<Rightarrow> nat \<Rightarrow> nat \<Rightarrow> store \<times> 's \<Rightarrow> (store \<times> 's) option"
where
  "SB_LIST_FOR_EACH_SAFE 0 body hd_p pos temp s = None"
| "SB_LIST_FOR_EACH_SAFE (Suc n) body hd_p pos temp s =
     (if pos \<noteq> hd_p
      then (let s' = body pos s
            in SB_LIST_FOR_EACH_SAFE n body hd_p temp (next_p (fst s' temp)) s')
      else Some s)"

lemmas sb_list_macros =
  SB_LIST_INIT_def SB_LIST_ADD_def SB_LIST_ADD_TAIL_def SB_LIST_DELETE_def SB_LIST_REPLACE_def
  SB_LIST_IS_EMPTY_def SB_LIST_ITEM_IN_LIST_def SB_LIST_ITEM_FIRST_def SB_LIST_ITEM_LAST_def
  SB_LIST_ITEM_NEXT_def SB_LIST_ITEM_PREV_def SB_LIST_ONCE_def SB_LIST_ENUM_NEXT_def Let_def

section \<open>The list a store holds\<close>

fun linked :: "store \<Rightarrow> nat \<Rightarrow> nat list \<Rightarrow> nat \<Rightarrow> bool" where
  "linked h a [] b \<longleftrightarrow> next_p (h a) = b \<and> prev_p (h b) = a"
| "linked h a (x # xs) b \<longleftrightarrow> next_p (h a) = x \<and> prev_p (h x) = a \<and> linked h x xs b"

definition dll :: "store \<Rightarrow> nat \<Rightarrow> nat list \<Rightarrow> bool" where
  "dll h hd_p xs \<longleftrightarrow> distinct (hd_p # xs) \<and> linked h hd_p xs hd_p"

lemma linked_append:
  "linked h a (xs @ y # ys) b \<longleftrightarrow> linked h a xs y \<and> linked h y ys b"
  by (induction xs arbitrary: a) auto

lemma linked_cong:
  assumes "\<And>x. x \<in> set (a # xs) \<Longrightarrow> next_p (g x) = next_p (h x)"
    and "\<And>x. x \<in> set (xs @ [b]) \<Longrightarrow> prev_p (g x) = prev_p (h x)"
  shows "linked g a xs b \<longleftrightarrow> linked h a xs b"
  using assms by (induction xs arbitrary: a) auto

lemma linked_cong_next: "linked h a xs b \<Longrightarrow> next_p (h a) = hd (xs @ [b])"
  by (cases xs) auto

lemma linked_cong_prev: "linked h a xs b \<Longrightarrow> prev_p (h b) = last (a # xs)"
  by (induction xs arbitrary: a) auto

lemma dll_next: "dll h hd_p (xs @ y # ys) \<Longrightarrow> next_p (h y) = hd (ys @ [hd_p])"
  by (auto simp: dll_def linked_append dest: linked_cong_next)

lemma dll_prev: "dll h hd_p (xs @ y # ys) \<Longrightarrow> prev_p (h y) = last (hd_p # xs)"
  by (auto simp: dll_def linked_append dest: linked_cong_prev)

lemma dll_first: "dll h hd_p xs \<Longrightarrow> next_p (h hd_p) = hd (xs @ [hd_p])"
  by (auto simp: dll_def dest: linked_cong_next)

lemma dll_last: "dll h hd_p xs \<Longrightarrow> prev_p (h hd_p) = last (hd_p # xs)"
  by (auto simp: dll_def dest: linked_cong_prev)

section \<open>The macros refine list operations\<close>

lemma dll_INIT: "dll (SB_LIST_INIT hd_p h) hd_p []"
  by (simp add: dll_def sb_list_macros)

lemma dll_ADD:
  assumes "dll h hd_p xs" and "item \<notin> set (hd_p # xs)"
  shows "dll (SB_LIST_ADD item hd_p h) hd_p (item # xs)"
proof (cases xs)
  case Nil
  then show ?thesis using assms by (auto simp: dll_def sb_list_macros)
next
  case (Cons y ys)
  let ?g = "SB_LIST_ADD item hd_p h"
  have "linked ?g y ys hd_p \<longleftrightarrow> linked h y ys hd_p"
    using assms Cons by (intro linked_cong) (auto simp: dll_def sb_list_macros)
  then show ?thesis
    using assms Cons by (auto simp: dll_def sb_list_macros)
qed

lemma dll_ADD_TAIL:
  assumes "dll h hd_p xs" and "item \<notin> set (hd_p # xs)"
  shows "dll (SB_LIST_ADD_TAIL item hd_p h) hd_p (xs @ [item])"
proof (cases xs rule: rev_cases)
  case Nil
  then show ?thesis using assms by (auto simp: dll_def sb_list_macros)
next
  case (snoc ys y)
  let ?g = "SB_LIST_ADD_TAIL item hd_p h"
  have y: "prev_p (h hd_p) = y" "next_p (h y) = hd_p"
    using assms(1) snoc by (auto simp: dll_def linked_append)
  have "linked ?g hd_p ys y \<longleftrightarrow> linked h hd_p ys y"
    using assms y snoc by (intro linked_cong) (auto simp: dll_def sb_list_macros)
  then show ?thesis
    using assms y snoc by (auto simp: dll_def sb_list_macros linked_append)
qed

lemma dll_DELETE:
  assumes "dll h hd_p (xs @ old # ys)"
  shows "dll (SB_LIST_DELETE old h) hd_p (xs @ ys)"
proof -
  let ?g = "SB_LIST_DELETE old h"
  let ?n = "hd (ys @ [hd_p])" and ?p = "last (hd_p # xs)"
  have n: "next_p (h old) = ?n" and p: "prev_p (h old) = ?p"
    using dll_next [OF assms] dll_prev [OF assms] by simp_all
  have dist: "distinct (hd_p # xs @ old # ys)" and l1: "linked h hd_p xs old" and l2: "linked h old ys hd_p"
    using assms by (auto simp: dll_def linked_append)
  have pn: "?p \<notin> set ys"
    using dist by (cases xs rule: rev_cases) auto
  have g: "next_p (?g x) = (if x = ?p then ?n else next_p (h x))"
       "prev_p (?g x) = (if x = ?n then ?p else prev_p (h x))" for x
    using dist n p by (auto simp: sb_list_macros)
  show ?thesis
  proof (cases ys)
    case Nil
    show ?thesis
    proof (cases xs rule: rev_cases)
      case Nil
      then show ?thesis using dist g \<open>ys = []\<close> by (auto simp: dll_def)
    next
      case (snoc zs z)
      have "linked ?g hd_p zs z \<longleftrightarrow> linked h hd_p zs z"
        using dist g snoc \<open>ys = []\<close> by (intro linked_cong) auto
      then show ?thesis
        using dist g snoc l1 \<open>ys = []\<close> by (auto simp: dll_def linked_append)
    qed
  next
    case (Cons w ws)
    have lw: "linked ?g w ws hd_p \<longleftrightarrow> linked h w ws hd_p"
      using dist g Cons pn by (intro linked_cong) auto
    show ?thesis
    proof (cases xs rule: rev_cases)
      case Nil
      then show ?thesis using dist g l2 lw Cons by (auto simp: dll_def)
    next
      case (snoc zs z)
      have "linked ?g hd_p zs z \<longleftrightarrow> linked h hd_p zs z"
        using dist g snoc Cons by (intro linked_cong) auto
      then show ?thesis
        using dist g snoc l1 l2 lw Cons by (auto simp: dll_def linked_append)
    qed
  qed
qed

lemma dll_REPLACE:
  assumes "dll h hd_p (xs @ old # ys)" and "item \<notin> set (hd_p # xs @ old # ys)"
  shows "dll (SB_LIST_REPLACE item old h) hd_p (xs @ item # ys)"
proof -
  let ?g = "SB_LIST_REPLACE item old h"
  let ?n = "hd (ys @ [hd_p])" and ?p = "last (hd_p # xs)"
  have n: "next_p (h old) = ?n" and p: "prev_p (h old) = ?p"
    using dll_next [OF assms(1)] dll_prev [OF assms(1)] by simp_all
  have dist: "distinct (hd_p # xs @ old # ys)" and l1: "linked h hd_p xs old" and l2: "linked h old ys hd_p"
    using assms(1) by (auto simp: dll_def linked_append)
  have pn: "?p \<notin> set ys"
    using dist by (cases xs rule: rev_cases) auto
  have np: "?n \<noteq> item" "?p \<noteq> item"
    using assms(2) by (cases ys; cases xs rule: rev_cases; auto)+
  have g: "next_p (?g x) = (if x = ?p then item else if x = item then ?n else next_p (h x))"
       "prev_p (?g x) = (if x = ?n then item else if x = item then ?p else prev_p (h x))" for x
    using n p np by (auto simp: sb_list_macros)
  have "linked ?g hd_p xs item"
  proof (cases xs rule: rev_cases)
    case Nil
    then show ?thesis using g np by auto
  next
    case (snoc zs z)
    have "linked ?g hd_p zs z \<longleftrightarrow> linked h hd_p zs z"
      using dist g snoc assms(2) by (cases ys; intro linked_cong) auto
    then show ?thesis using g l1 snoc np by (auto simp: linked_append)
  qed
  moreover have "linked ?g item ys hd_p"
  proof (cases ys)
    case Nil
    then show ?thesis using g np by auto
  next
    case (Cons w ws)
    have "linked ?g w ws hd_p \<longleftrightarrow> linked h w ws hd_p"
      using dist g Cons assms(2) pn by (intro linked_cong) auto
    then show ?thesis using g l2 Cons np by auto
  qed
  ultimately show ?thesis
    using dist assms(2) by (auto simp: dll_def linked_append)
qed

text \<open>Items outside the list keep their links, so separate lists do not disturb each other.\<close>

lemma dll_frame:
  assumes "\<And>x. x \<in> set (hd_p # xs) \<Longrightarrow> g x = h x"
  shows "dll g hd_p xs \<longleftrightarrow> dll h hd_p xs"
proof -
  have "linked g hd_p xs hd_p \<longleftrightarrow> linked h hd_p xs hd_p"
    using assms by (intro linked_cong) auto
  then show ?thesis by (simp add: dll_def)
qed

lemma ADD_TAIL_frame:
  assumes "dll h hd_p xs" and "x \<notin> set (item # hd_p # xs)"
  shows "SB_LIST_ADD_TAIL item hd_p h x = h x"
proof -
  have "prev_p (h hd_p) \<in> set (hd_p # xs)"
    using dll_last [OF assms(1)] by (metis last_in_set list.distinct(1))
  then show ?thesis
    using assms(2) by (auto simp: sb_list_macros set_next_def set_prev_def)
qed

lemma DELETE_frame:
  assumes "dll h hd_p (xs @ old # ys)" and "x \<notin> set (hd_p # xs @ old # ys)"
  shows "SB_LIST_DELETE old h x = h x"
proof -
  have "last (hd_p # xs) \<in> set (hd_p # xs)" "hd (ys @ [hd_p]) \<in> set (ys @ [hd_p])"
    by (rule last_in_set, simp) (rule hd_in_set, simp)
  then have "prev_p (h old) \<noteq> x" "next_p (h old) \<noteq> x"
    using assms by (auto simp: dll_prev [OF assms(1)] dll_next [OF assms(1)])
  then show ?thesis
    by (auto simp: sb_list_macros set_next_def set_prev_def)
qed

section \<open>Tests and loops\<close>

lemma dll_IS_EMPTY: "dll h hd_p xs \<Longrightarrow> SB_LIST_IS_EMPTY hd_p h \<longleftrightarrow> xs = []"
  by (cases xs) (auto simp: dll_def sb_list_macros)

lemma dll_ONCE: "dll h hd_p xs \<Longrightarrow> SB_LIST_ONCE hd_p h = (case xs of [] \<Rightarrow> None | x # _ \<Rightarrow> Some x)"
  by (cases xs) (auto simp: dll_def sb_list_macros)

lemma dll_ITEM_LAST:
  "dll h hd_p (xs @ y # ys) \<Longrightarrow> SB_LIST_ITEM_LAST y hd_p h \<longleftrightarrow> ys = []"
  by (cases ys) (auto simp: dll_next sb_list_macros, auto simp: dll_def)

text \<open>The macro \<^verbatim>\<open>SB_LIST_ITEM_FIRST\<close> holds of every item but the first.\<close>

lemma dll_ITEM_FIRST:
  "dll h hd_p (xs @ y # ys) \<Longrightarrow> SB_LIST_ITEM_FIRST y hd_p h \<longleftrightarrow> xs \<noteq> []"
proof -
  assume d: "dll h hd_p (xs @ y # ys)"
  have "xs \<noteq> [] \<Longrightarrow> last xs \<noteq> hd_p"
    using d by (cases xs rule: rev_cases) (auto simp: dll_def)
  then show ?thesis
    using dll_prev [OF d] by (simp add: sb_list_macros)
qed

lemma FOR_EACH_from:
  assumes "dll h hd_p (xs @ ys)" and "length ys < n"
  shows "SB_LIST_FOR_EACH n body hd_p h (hd (ys @ [hd_p])) s = Some (fold body ys s)"
  using assms
proof (induction ys arbitrary: xs n s)
  case Nil
  then show ?case by (cases n) auto
next
  case (Cons y ys)
  then obtain m where n: "n = Suc m" and m: "length ys < m"
    by (cases n) auto
  have "y \<noteq> hd_p"
    using Cons.prems(1) by (auto simp: dll_def)
  moreover have "next_p (h y) = hd (ys @ [hd_p])"
    using Cons.prems(1) by (rule dll_next)
  moreover have "dll h hd_p ((xs @ [y]) @ ys)"
    using Cons.prems(1) by simp
  ultimately show ?case
    using Cons.IH [of "xs @ [y]" m "body y s"] m n by simp
qed

text \<open>A loop that unlinks every item it visits ends with the empty list.\<close>

lemma FOR_EACH_SAFE_delete_from:
  assumes "dll h hd_p ys" and "length ys < n"
  shows "\<exists>h'. SB_LIST_FOR_EACH_SAFE n (\<lambda>a (h, s). (SB_LIST_DELETE a h, body a s)) hd_p
                (hd (ys @ [hd_p])) (next_p (h (hd (ys @ [hd_p])))) (h, s)
              = Some (h', fold body ys s) \<and> dll h' hd_p []"
  using assms
proof (induction ys arbitrary: h n s)
  case Nil
  then show ?case by (cases n) auto
next
  case (Cons y ys)
  then obtain m where n: "n = Suc m" and m: "length ys < m"
    by (cases n) auto
  let ?h = "SB_LIST_DELETE y h"
  have "dll h hd_p ([] @ y # ys)"
    using Cons.prems(1) by simp
  note del = dll_DELETE [OF this] and nxt = dll_next [OF this]
  have "y \<noteq> hd_p"
    using Cons.prems(1) by (auto simp: dll_def)
  then show ?case
    using Cons.IH [of ?h m "body y s"] del nxt m n by (simp add: Let_def)
qed

section \<open>The interface of a list\<close>

text \<open>
  What a component that keeps its records on such a list relies on: \<open>rep h hd_p xs\<close> relates
  the store to the sequence, and appending, unlinking and looking at the first item act on
  the sequence. Queueing a batch and taking it off again in order are derived here once.
\<close>

locale intrusive_list =
  fixes rep :: "'h \<Rightarrow> 'a \<Rightarrow> 'a list \<Rightarrow> bool"
    and add_tail :: "'a \<Rightarrow> 'a \<Rightarrow> 'h \<Rightarrow> 'h"
    and delete :: "'a \<Rightarrow> 'h \<Rightarrow> 'h"
    and once :: "'a \<Rightarrow> 'h \<Rightarrow> 'a option"
  assumes rep_distinct: "rep h hd_p xs \<Longrightarrow> distinct (hd_p # xs)"
    and rep_add_tail:
      "rep h hd_p xs \<Longrightarrow> item \<notin> set (hd_p # xs) \<Longrightarrow> rep (add_tail item hd_p h) hd_p (xs @ [item])"
    and rep_delete: "rep h hd_p (xs @ old # ys) \<Longrightarrow> rep (delete old h) hd_p (xs @ ys)"
    and rep_once: "rep h hd_p xs \<Longrightarrow> once hd_p h = (case xs of [] \<Rightarrow> None | x # _ \<Rightarrow> Some x)"
begin

lemma rep_add_all:
  "rep h hd_p xs \<Longrightarrow> distinct (hd_p # xs @ ys) \<Longrightarrow>
   rep (fold (\<lambda>y. add_tail y hd_p) ys h) hd_p (xs @ ys)"
proof (induction ys arbitrary: h xs)
  case (Cons y ys)
  have "rep (add_tail y hd_p h) hd_p (xs @ [y])"
    using Cons.prems by (intro rep_add_tail) auto
  then show ?case
    using Cons.IH [of "add_tail y hd_p h" "xs @ [y]"] Cons.prems(2) by simp
qed simp

lemma rep_take_first:
  "rep h hd_p (x # xs) \<Longrightarrow> once hd_p h = Some x \<and> rep (delete x h) hd_p xs"
  using rep_once [of h hd_p "x # xs"] rep_delete [of h hd_p "[]" x xs] by simp

lemma rep_delete_all:
  "rep h hd_p (xs @ ys) \<Longrightarrow> rep (fold delete xs h) hd_p ys"
proof (induction xs arbitrary: h)
  case (Cons x xs)
  then show ?case
    using Cons.IH [of "delete x h"] rep_delete [of h hd_p "[]" x "xs @ ys"] by simp
qed simp

text \<open>First in, first out: a batch queued behind \<open>xs\<close> comes to the front once \<open>xs\<close> is taken off.\<close>

lemma rep_fifo:
  assumes "rep h hd_p xs" and "distinct (hd_p # xs @ ys)"
  shows "rep (fold delete xs (fold (\<lambda>y. add_tail y hd_p) ys h)) hd_p ys"
  using rep_add_all [OF assms] by (rule rep_delete_all)

end

interpretation sblist: intrusive_list dll SB_LIST_ADD_TAIL SB_LIST_DELETE SB_LIST_ONCE
proof
  fix h :: store and hd_p xs ys item old
  show "dll h hd_p xs \<Longrightarrow> distinct (hd_p # xs)"
    by (simp add: dll_def)
  show "dll h hd_p xs \<Longrightarrow> item \<notin> set (hd_p # xs) \<Longrightarrow> dll (SB_LIST_ADD_TAIL item hd_p h) hd_p (xs @ [item])"
    by (rule dll_ADD_TAIL)
  show "dll h hd_p (xs @ old # ys) \<Longrightarrow> dll (SB_LIST_DELETE old h) hd_p (xs @ ys)"
    by (rule dll_DELETE)
  show "dll h hd_p xs \<Longrightarrow> SB_LIST_ONCE hd_p h = (case xs of [] \<Rightarrow> None | x # _ \<Rightarrow> Some x)"
    by (rule dll_ONCE)
qed

section \<open>Properties\<close>

text \<open>
  (C10) The list macros implement a sequence: on a well-formed circular list, appending a fresh item
  extends the sequence at its end, pushing one extends it at its front, unlinking
  any member removes exactly that member, and replacing one puts the new item in its place.
\<close>

theorem sb_list_refines_sequence:
  assumes "dll h hd_p (xs @ old # ys)" and "item \<notin> set (hd_p # xs @ old # ys)"
  shows "dll (SB_LIST_ADD_TAIL item hd_p h) hd_p (xs @ old # ys @ [item]) \<and>
         dll (SB_LIST_ADD item hd_p h) hd_p (item # xs @ old # ys) \<and>
         dll (SB_LIST_DELETE old h) hd_p (xs @ ys) \<and>
         dll (SB_LIST_REPLACE item old h) hd_p (xs @ item # ys)"
  using dll_ADD_TAIL [OF assms] dll_ADD [OF assms] dll_DELETE [OF assms(1)] dll_REPLACE [OF assms]
  by simp

theorem sb_list_refines_sequence_witness:
  "\<exists>h. dll h 0 ([1] @ 2 # [3]) \<and> dll (SB_LIST_DELETE 2 h) 0 [1, 3] \<and>
       dll (SB_LIST_ADD_TAIL 4 0 h) 0 [1, 2, 3, 4] \<and> dll (SB_LIST_REPLACE 4 2 h) 0 [1, 4, 3]"
proof -
  let ?h = "\<lambda>a. \<lparr>next_p = (a + 1) mod 4, prev_p = (a + 3) mod 4\<rparr>"
  have "dll ?h 0 ([1] @ 2 # [3])"
    by (simp add: dll_def)
  then show ?thesis
    using sb_list_refines_sequence [of ?h 0 "[1]" 2 "[3]" 4] by auto
qed

text \<open>
  The list loops terminate and visit every item once, in order: with more fuel than the list has
  items the read-only loop returns the fold of its body over the sequence, and the safe
  loop whose body unlinks the visited item leaves the empty list.
\<close>

lemma sb_list_loops_visit_all:
  assumes "dll h hd_p xs" and "length xs < n"
  shows "SB_LIST_FOR_EACH n body hd_p h (next_p (h hd_p)) s = Some (fold body xs s) \<and>
         (\<exists>h'. SB_LIST_FOR_EACH_SAFE n (\<lambda>a (h, s). (SB_LIST_DELETE a h, body a s)) hd_p
                (next_p (h hd_p)) (next_p (h (next_p (h hd_p)))) (h, s)
              = Some (h', fold body xs s) \<and> SB_LIST_IS_EMPTY hd_p h')"
  using FOR_EACH_from [of h hd_p "[]" xs n body s] FOR_EACH_SAFE_delete_from [OF assms, of body s]
    assms dll_first [OF assms(1)] dll_IS_EMPTY by fastforce

theorem sb_list_loops_visit_all_witness:
  "\<exists>h h'. dll h 0 [1, 2] \<and>
     SB_LIST_FOR_EACH 3 (\<lambda>a s. s @ [a]) 0 h (next_p (h 0)) [] = Some [1, 2] \<and>
     SB_LIST_IS_EMPTY 0 h'"
proof -
  let ?h = "\<lambda>a. \<lparr>next_p = (a + 1) mod 3, prev_p = (a + 2) mod 3\<rparr>"
  have d: "dll ?h 0 [1, 2]"
    by (simp add: dll_def)
  show ?thesis
    using d sb_list_loops_visit_all [OF d, of 3 "\<lambda>a s. s @ [a]" "[]"]
    by fastforce
qed

end
