(* ===== verification/SbOptions.thy ===== *)
theory SbOptions
  imports CLib SbList
begin

text \<open>
  The options library, \<^verbatim>\<open>sb_options.c\<close> and \<^verbatim>\<open>sb_options.h\<close>. The global list of options is a
  sequence of records (by the refinement of \<open>SbList\<close>), each with its type and its list of
  values. A pointer to an option of the list is its position. Allocation outcomes come from
  the oracle, the contents of files from the parameter \<open>fs\<close> (\<open>Inl\<close>: \<^verbatim>\<open>fopen\<close> fails, with the text of
  the system error), and what
  is written to the standard streams is collected. The data of a value that is on a list and
  the name of an option that is on a list are never NULL: they are linked only after the
  copy succeeded, or the program has crashed in \<open>convert_dashes\<close>.
\<close>

section \<open>Data\<close>

datatype sb_arg_type_t =
    SB_ARG_TYPE_NULL
  | SB_ARG_TYPE_FLAG
  | SB_ARG_TYPE_INT
  | SB_ARG_TYPE_SIZE
  | SB_ARG_TYPE_FLOAT
  | SB_ARG_TYPE_STRING
  | SB_ARG_TYPE_LIST
  | SB_ARG_TYPE_FILE

record sb_arg_t =
  arg_name :: string
  arg_desc :: string
  arg_type :: sb_arg_type_t
  arg_value :: "string option"

record value_t =
  val_data :: string
  val_ignore :: bool

record option_t =
  opt_name :: string
  opt_type :: sb_arg_type_t
  opt_values :: "value_t list"
  opt_ignore :: bool

record opt_state =
  os_options :: "option_t list"
  os_mem :: mem
  os_out :: string

type_synonym fs = "string \<Rightarrow> string + string"

abbreviation os_print :: "string \<Rightarrow> opt_state \<Rightarrow> opt_state" where
  "os_print s st \<equiv> st\<lparr>os_out := os_out st @ s\<rparr>"

abbreviation newline :: string where "newline \<equiv> [CHR 0x0A]"

definition VALUE_DELIMITER :: char where "VALUE_DELIMITER = CHR ''=''"
definition VALUE_SEPARATOR :: char where "VALUE_SEPARATOR = CHR '',''"
definition COMMENT_CHAR :: char where "COMMENT_CHAR = CHR ''#''"
definition MAXSTRLEN :: nat where "MAXSTRLEN = 256"
definition sizemods :: string where "sizemods = ''KMGT''"

lemmas option_consts =
  VALUE_DELIMITER_def VALUE_SEPARATOR_def COMMENT_CHAR_def MAXSTRLEN_def sizemods_def

section \<open>Names\<close>

fun convert_dashes :: "string \<Rightarrow> string" where
  "convert_dashes [] = []"
| "convert_dashes (c # s) = (if c = CHR ''-'' then CHR ''_'' else c) # convert_dashes s"

fun opt_name_cmp :: "string \<Rightarrow> string \<Rightarrow> int" where
  "opt_name_cmp [] [] = 0"
| "opt_name_cmp [] (d # t) = 0 - schar d"
| "opt_name_cmp (c # s) [] = schar c"
| "opt_name_cmp (c # s) (d # t) =
     (if c = d then opt_name_cmp s t
      else if (c \<noteq> CHR ''-'' \<and> c \<noteq> CHR ''_'') \<or> (d \<noteq> CHR ''-'' \<and> d \<noteq> CHR ''_'')
      then schar c - schar d
      else opt_name_cmp s t)"

section \<open>Values\<close>

text \<open>\<^verbatim>\<open>new_value\<close>: a zeroed structure, or NULL.\<close>

definition new_value :: "mem \<Rightarrow> value_t option \<times> mem" where
  "new_value m = (case malloc m of (ok, m) \<Rightarrow>
     (if ok then Some \<lparr>val_data = [], val_ignore = False\<rparr> else None, m))"

definition add_value ::
  "mem \<Rightarrow> value_t list option \<Rightarrow> string option \<Rightarrow> value_t option \<times> value_t list option \<times> mem" where
  "add_value m values data =
     (case (values, data) of
        (Some vs, Some d) \<Rightarrow>
          (case new_value m of
             (None, m) \<Rightarrow> (None, values, m)
           | (Some newval, m) \<Rightarrow>
               (case malloc m of (ok, m) \<Rightarrow>
                  if ok then (let newval = newval\<lparr>val_data := d\<rparr> in (Some newval, Some (vs @ [newval]), m))
                  else (None, values, m)))
      | _ \<Rightarrow> (None, values, m))"

definition find_value :: "value_t list option \<Rightarrow> string option \<Rightarrow> value_t option" where
  "find_value values data =
     (case (values, data) of
        (Some vs, Some d) \<Rightarrow> find (\<lambda>v. val_data v = d) vs
      | _ \<Rightarrow> None)"

definition free_values :: "value_t list option \<Rightarrow> value_t list option" where
  "free_values values = (case values of None \<Rightarrow> None | Some vs \<Rightarrow> Some [])"

text \<open>\<^verbatim>\<open>remove_value\<close>: the first matching value is unlinked; 1 when there is none.\<close>

fun remove_first :: "('a \<Rightarrow> bool) \<Rightarrow> 'a list \<Rightarrow> 'a list" where
  "remove_first P [] = []"
| "remove_first P (x # xs) = (if P x then xs else x # remove_first P xs)"

definition remove_value :: "value_t list option \<Rightarrow> string option \<Rightarrow> int \<times> value_t list option" where
  "remove_value values valname =
     (case (values, valname) of
        (Some vs, Some d) \<Rightarrow>
          (case find_value values valname of
             None \<Rightarrow> (1, values)
           | Some v \<Rightarrow> (0, Some (remove_first (\<lambda>v. val_data v = d) vs)))
      | _ \<Rightarrow> (1, values))"

section \<open>Options\<close>

definition new_option :: "mem \<Rightarrow> option_t option \<times> mem" where
  "new_option m = (case malloc m of (ok, m) \<Rightarrow>
     (if ok then Some \<lparr>opt_name = [], opt_type = SB_ARG_TYPE_NULL, opt_values = [], opt_ignore = False\<rparr>
      else None, m))"

text \<open>The position of the first option of a given name.\<close>

fun option_index :: "option_t list \<Rightarrow> string \<Rightarrow> nat option" where
  "option_index [] name = None"
| "option_index (opt # opts) name =
     (if opt_name_cmp (opt_name opt) name = 0 then Some 0 else map_option Suc (option_index opts name))"

definition find_option :: "option_t list option \<Rightarrow> string option \<Rightarrow> option_t option" where
  "find_option options name =
     (case (options, name) of
        (Some opts, Some n) \<Rightarrow> map_option (\<lambda>i. opts ! i) (option_index opts n)
      | _ \<Rightarrow> None)"

text \<open>
  \<^verbatim>\<open>add_option\<close> returns the option of the given name, adding it when there is none: its
  position, and the list. A failed copy of the name is dereferenced by \<^verbatim>\<open>convert_dashes\<close>.
\<close>

definition add_option ::
  "mem \<Rightarrow> option_t list option \<Rightarrow> string option \<Rightarrow> (nat option \<times> option_t list option \<times> mem) res" where
  "add_option m options name =
     (case (options, name) of
        (Some opts, Some n) \<Rightarrow>
          (case option_index opts n of
             Some i \<Rightarrow> Inr (Some i, options, m)
           | None \<Rightarrow>
               (case new_option m of
                  (None, m) \<Rightarrow> Inr (None, options, m)
                | (Some opt, m) \<Rightarrow>
                    (case malloc m of (ok, m) \<Rightarrow>
                       if ok
                       then Inr (Some (length opts), Some (opts @ [opt\<lparr>opt_name := convert_dashes n\<rparr>]), m)
                       else Inl Null_deref)))
      | _ \<Rightarrow> Inr (None, options, m))"

definition remove_option :: "option_t list option \<Rightarrow> string option \<Rightarrow> int \<times> option_t list option" where
  "remove_option options optname =
     (case (options, optname) of
        (Some opts, Some n) \<Rightarrow>
          (case find_option options optname of
             None \<Rightarrow> (1, options)
           | Some opt \<Rightarrow> (0, Some (remove_first (\<lambda>opt. opt_name_cmp (opt_name opt) n = 0) opts)))
      | _ \<Rightarrow> (1, options))"

section \<open>Configuration files\<close>

text \<open>
  The values of one line: the loop of \<^verbatim>\<open>read_config\<close> over \<^verbatim>\<open>tmp\<close>. The flag is \<open>False\<close> when a quote is
  not closed on its line.
\<close>

function read_values :: "mem \<Rightarrow> value_t list \<Rightarrow> string \<Rightarrow> bool \<times> value_t list \<times> mem" where
  "read_values m vs [] = (True, vs, m)"
| "read_values m vs (c # t) =
     (if isspace c then read_values m vs t
      else if c = COMMENT_CHAR then (True, vs, m)
      else if c = CHR 0x27 \<or> c = CHR 0x22 then
        (let v = takeWhile (\<lambda>x. x \<noteq> c) t; r = dropWhile (\<lambda>x. x \<noteq> c) t
         in if r = [] then (False, vs, m)
            else (case add_value m (Some vs) (Some v) of (_, vs', m) \<Rightarrow>
                    read_values m (the vs') (tl (dropWhile (\<lambda>x. x \<noteq> VALUE_SEPARATOR) (tl r)))))
      else
        (let v = takeWhile (\<lambda>x. x \<noteq> VALUE_SEPARATOR \<and> \<not> isspace x) (c # t);
             r = dropWhile (\<lambda>x. x \<noteq> VALUE_SEPARATOR \<and> \<not> isspace x) (c # t)
         in (case add_value m (Some vs) (Some v) of (_, vs', m) \<Rightarrow> read_values m (the vs') (tl r))))"
  by pat_completeness auto
termination
proof (relation "measure (\<lambda>(m, vs, s). length s)", goal_cases)
  case (3 m vs c t v r a p vs' m')
  have "length (tl (dropWhile (\<lambda>x. x \<noteq> VALUE_SEPARATOR) (tl r))) \<le> length (tl r)"
    by (metis diff_le_self le_trans length_dropWhile_le length_tl)
  also have "\<dots> \<le> length t"
    using 3(5) by (metis diff_le_self le_trans length_dropWhile_le length_tl)
  finally show ?case by simp
next
  case (4 m vs c t v r a p vs' m')
  have "length r \<le> length (c # t)"
    using 4(5) by (simp only: length_dropWhile_le)
  then show ?case by simp
qed auto

text \<open>One line of the file: \<open>False\<close> where \<^verbatim>\<open>read_config\<close> returns NULL.\<close>

definition read_config_line :: "nat \<Rightarrow> string \<Rightarrow> opt_state \<Rightarrow> (bool \<times> opt_state) res" where
  "read_config_line nline buf st =
     (case strchr buf VALUE_DELIMITER of
        None \<Rightarrow> Inr (True, st)
      | Some (name, tmp) \<Rightarrow>
          rbind (add_option (os_mem st) (Some (os_options st)) (Some name))
            (\<lambda>(newopt, opts, m).
               let st = st\<lparr>os_options := the opts, os_mem := m\<rparr> in
               case newopt of
                 None \<Rightarrow> Inr (False, st)
               | Some i \<Rightarrow>
                   (case read_values m (the (free_values (Some (opt_values (os_options st ! i))))) tmp of
                      (ok, vs, m) \<Rightarrow>
                        (let st = st\<lparr>os_options := (os_options st)[i := (os_options st ! i)\<lparr>opt_values := vs\<rparr>],
                                     os_mem := m\<rparr>
                         in Inr (ok, if ok then st
                                     else os_print (''unexpected EOL on line '' @ print_int (int nline) @ newline) st)))))"

function read_config :: "nat \<Rightarrow> string \<Rightarrow> opt_state \<Rightarrow> (bool \<times> opt_state) res" where
  "read_config nline contents st =
     (if contents = [] then Inr (True, st)
      else
        (case fgets (MAXSTRLEN - 1) contents of (buf, rest) \<Rightarrow>
           rbind (read_config_line (nline + 1) buf st)
             (\<lambda>(ok, st). if ok then read_config (nline + 1) rest st else Inr (False, st))))"
  by pat_completeness auto
termination
  by (relation "measure (\<lambda>(nline, s, st). length s)")
     (auto dest!: fgets_less [OF sym] simp: MAXSTRLEN_def)

declare read_config.simps [simp del]

text \<open>\<^verbatim>\<open>write_config\<close>: the text written and the list with the written options marked.\<close>

fun write_values :: "value_t list \<Rightarrow> string" where
  "write_values [] = []"
| "write_values (v # vs) =
     (if \<not> val_ignore v then val_data v else [])
     @ (if vs \<noteq> [] then [VALUE_SEPARATOR, CHR '' ''] else []) @ write_values vs"

fun write_options :: "option_t list \<Rightarrow> string \<times> option_t list" where
  "write_options [] = ([], [])"
| "write_options (opt # opts) =
     (case write_options opts of (out, opts') \<Rightarrow>
        if opt_ignore opt then (out, opt # opts')
        else (opt_name opt @ [CHR '' '', VALUE_DELIMITER, CHR '' ''] @ write_values (opt_values opt) @ newline @ out,
              opt\<lparr>opt_ignore := True\<rparr> # opts'))"

definition write_config :: "bool \<Rightarrow> option_t list option \<Rightarrow> int \<times> string \<times> option_t list option" where
  "write_config fp_open options =
     (case options of
        None \<Rightarrow> (1, [], options)
      | Some opts \<Rightarrow>
          if \<not> fp_open then (1, [], options)
          else (case write_options opts of (out, opts) \<Rightarrow> (0, out, Some opts)))"

section \<open>The global list\<close>

definition sb_options_init :: "opt_state \<Rightarrow> int \<times> opt_state" where
  "sb_options_init st = (0, st\<lparr>os_options := []\<rparr>)"

definition sb_find_option :: "opt_state \<Rightarrow> string \<Rightarrow> option_t option" where
  "sb_find_option st name = find_option (Some (os_options st)) (Some name)"

definition read_config_file :: "fs \<Rightarrow> string \<Rightarrow> opt_state \<Rightarrow> opt_state res" where
  "read_config_file fs filename st =
     (case fs filename of
        Inl strerror \<Rightarrow> Inr (os_print (filename @ '': '' @ strerror @ newline) st)
      | Inr contents \<Rightarrow> rbind (read_config 0 contents st) (\<lambda>(ok, st). Inr st))"

text \<open>The loop that adds the tokens of a list value; the results of \<^verbatim>\<open>add_value\<close> are ignored.\<close>

fun add_values :: "mem \<Rightarrow> value_t list \<Rightarrow> string list \<Rightarrow> value_t list \<times> mem" where
  "add_values m vs [] = (vs, m)"
| "add_values m vs (t # ts) =
     (case add_value m (Some vs) (Some t) of (_, vs', m) \<Rightarrow> add_values m (the vs') ts)"

definition set_option ::
  "fs \<Rightarrow> opt_state \<Rightarrow> string \<Rightarrow> string option \<Rightarrow> sb_arg_type_t \<Rightarrow> (int \<times> opt_state) res" where
  "set_option fs st name value ty =
     rbind (add_option (os_mem st) (Some (os_options st)) (Some name))
       (\<lambda>(opt, opts, m).
          let st = st\<lparr>os_options := the opts, os_mem := m\<rparr> in
          case opt of
            None \<Rightarrow> Inr (1, st)
          | Some i \<Rightarrow>
              (let upd = (\<lambda>vs m st. st\<lparr>os_options := (os_options st)[i := (os_options st ! i)\<lparr>opt_values := vs\<rparr>],
                                       os_mem := m\<rparr>);
                   vs = the (free_values (Some (opt_values (os_options st ! i))));
                   st = upd vs m st;
                   st = st\<lparr>os_options := (os_options st)[i := (os_options st ! i)\<lparr>opt_type := ty\<rparr>]\<rparr>
               in if ty \<noteq> SB_ARG_TYPE_FLAG \<and> (value = None \<or> value = Some []) then Inr (0, st)
                  else
                    (case ty of
                       SB_ARG_TYPE_FLAG \<Rightarrow>
                         if value = None \<or> value = Some ''on''
                         then (case add_value m (Some vs) (Some ''on'') of (_, vs, m) \<Rightarrow> Inr (0, upd (the vs) m st))
                         else Inr (0, st)
                     | SB_ARG_TYPE_INT \<Rightarrow>
                         (case add_value m (Some vs) value of (_, vs, m) \<Rightarrow> Inr (0, upd (the vs) m st))
                     | SB_ARG_TYPE_SIZE \<Rightarrow>
                         (case add_value m (Some vs) value of (_, vs, m) \<Rightarrow> Inr (0, upd (the vs) m st))
                     | SB_ARG_TYPE_FLOAT \<Rightarrow>
                         (case add_value m (Some vs) value of (_, vs, m) \<Rightarrow> Inr (0, upd (the vs) m st))
                     | SB_ARG_TYPE_STRING \<Rightarrow>
                         (case add_value m (Some vs) value of (_, vs, m) \<Rightarrow> Inr (0, upd (the vs) m st))
                     | SB_ARG_TYPE_LIST \<Rightarrow>
                         (case malloc m of (ok, m) \<Rightarrow>
                            if ok
                            then (case add_values m vs (strtok_all CHR '','' (the value)) of (vs, m) \<Rightarrow>
                                    Inr (0, upd vs m st))
                            else Inl Null_deref)
                     | SB_ARG_TYPE_FILE \<Rightarrow>
                         rbind (read_config_file fs (the value) st) (\<lambda>st. Inr (0, st))
                     | SB_ARG_TYPE_NULL \<Rightarrow>
                         Inr (1, os_print (''Unknown argument type: 0'') st))))"

fun sb_register_arg_set :: "fs \<Rightarrow> opt_state \<Rightarrow> sb_arg_t list \<Rightarrow> (int \<times> opt_state) res" where
  "sb_register_arg_set fs st [] = Inr (0, st)"
| "sb_register_arg_set fs st (a # args) =
     rbind (set_option fs st (arg_name a) (arg_value a) (arg_type a))
       (\<lambda>(rc, st). if rc \<noteq> 0 then Inr (1, st) else sb_register_arg_set fs st args)"

section \<open>Reading values\<close>

definition sb_opt_to_flag :: "option_t \<Rightarrow> bool" where
  "sb_opt_to_flag opt \<longleftrightarrow> opt_values opt \<noteq> []"

definition sb_get_value_flag :: "opt_state \<Rightarrow> string \<Rightarrow> bool" where
  "sb_get_value_flag st name =
     (case find_option (Some (os_options st)) (Some name) of
        None \<Rightarrow> False
      | Some opt \<Rightarrow> sb_opt_to_flag opt)"

definition sb_opt_to_int :: "option_t \<Rightarrow> int res" where
  "sb_opt_to_int opt =
     (case opt_values opt of
        [] \<Rightarrow> Inr 0
      | val # _ \<Rightarrow>
          (case strtol (val_data val) of (res, endptr) \<Rightarrow>
             if endptr \<noteq> [] \<or> res > INT_MAX \<or> res < INT_MIN then Inl (Exit_call 1) else Inr res))"

definition sb_get_value_int :: "opt_state \<Rightarrow> string \<Rightarrow> int res" where
  "sb_get_value_int st name =
     (case find_option (Some (os_options st)) (Some name) of
        None \<Rightarrow> Inr 0
      | Some opt \<Rightarrow> sb_opt_to_int opt)"

text \<open>The digit loop of \<^verbatim>\<open>sb_opt_to_size\<close>: \<open>rc\<close>, the number so far, and the character after it.\<close>

fun size_scan :: "string \<Rightarrow> nat \<Rightarrow> u64 \<Rightarrow> nat \<times> u64 \<times> char" where
  "size_scan [] rc res = (rc, res, CHR 0x00)"
| "size_scan (c # s) rc res =
     (if schar c < schar CHR ''0'' \<or> schar c > schar CHR ''9''
      then (if rc = 1 then (2, res, c) else (rc, res, CHR 0x00))
      else size_scan s 1 (res * 10 + word_of_int (schar c) - word_of_int (schar CHR ''0'')))"

fun mod_index :: "char \<Rightarrow> string \<Rightarrow> nat option" where
  "mod_index c [] = None"
| "mod_index c (d # s) = (if toupper c = d then Some 0 else map_option Suc (mod_index c s))"

definition sb_opt_to_size :: "option_t \<Rightarrow> u64" where
  "sb_opt_to_size opt =
     (case opt_values opt of
        [] \<Rightarrow> 0
      | val # _ \<Rightarrow>
          (case size_scan (val_data val) 0 0 of (rc, res, mult) \<Rightarrow>
             if rc = 2
             then (case mod_index mult sizemods of
                     Some n \<Rightarrow> ((\<lambda>r. r * 1024) ^^ Suc n) res
                   | None \<Rightarrow> 0)
             else res))"

definition sb_get_value_size :: "opt_state \<Rightarrow> string \<Rightarrow> u64" where
  "sb_get_value_size st name =
     (case find_option (Some (os_options st)) (Some name) of
        None \<Rightarrow> 0
      | Some opt \<Rightarrow> sb_opt_to_size opt)"

text \<open>The loop of \<^verbatim>\<open>sb_opt_to_float\<close> goes over all values; without any, \<^verbatim>\<open>res\<close> is never set.\<close>

definition sb_opt_to_float :: "fpenv \<Rightarrow> option_t \<Rightarrow> real res" where
  "sb_opt_to_float fp opt =
     fold (\<lambda>val res. case scan_decimal (val_data val) of None \<Rightarrow> Inr 0 | Some r \<Rightarrow> Inr (fp_round32 fp r))
       (opt_values opt) (Inl Uninit_read)"

definition sb_get_value_float :: "fpenv \<Rightarrow> opt_state \<Rightarrow> string \<Rightarrow> real res" where
  "sb_get_value_float fp st name =
     (case find_option (Some (os_options st)) (Some name) of
        None \<Rightarrow> Inr 0
      | Some opt \<Rightarrow> sb_opt_to_float fp opt)"

definition sb_opt_to_string :: "option_t \<Rightarrow> string option" where
  "sb_opt_to_string opt = (case opt_values opt of [] \<Rightarrow> None | val # _ \<Rightarrow> Some (val_data val))"

definition sb_get_value_string :: "opt_state \<Rightarrow> string \<Rightarrow> string option" where
  "sb_get_value_string st name =
     (case find_option (Some (os_options st)) (Some name) of
        None \<Rightarrow> None
      | Some opt \<Rightarrow> sb_opt_to_string opt)"

definition sb_opt_to_list :: "option_t \<Rightarrow> value_t list" where
  "sb_opt_to_list opt = opt_values opt"

definition sb_get_value_list :: "opt_state \<Rightarrow> string \<Rightarrow> value_t list option" where
  "sb_get_value_list st name =
     (case find_option (Some (os_options st)) (Some name) of
        None \<Rightarrow> None
      | Some opt \<Rightarrow> Some (sb_opt_to_list opt))"

section \<open>Printing\<close>

fun value_size_loop :: "fpenv \<Rightarrow> nat \<Rightarrow> nat \<Rightarrow> real \<Rightarrow> nat \<times> real" where
  "value_size_loop fp 0 i value = (i, value)"
| "value_size_loop fp (Suc n) i value =
     (if value \<ge> 1024 then value_size_loop fp n (i + 1) (fdiv fp value 1024) else (i, value))"

text \<open>
  \<^verbatim>\<open>sizeof(sizemods)\<close> counts the terminating NUL, so the loop divides up to five times; the
  character printed after five divisions is that NUL, which ends the text.
\<close>

definition sb_print_value_size :: "fpenv \<Rightarrow> nat \<Rightarrow> real \<Rightarrow> string" where
  "sb_print_value_size fp buflen value =
     (case value_size_loop fp (length sizemods + 1) 0 value of (i, value) \<Rightarrow>
        if i > 0
        then snprintf_text buflen (fmt_g 5 value @ (if i - 1 < length sizemods then [sizemods ! (i - 1)] else []))
        else snprintf_text buflen (fmt_g 5 value))"

definition arg_fmt :: "sb_arg_type_t \<Rightarrow> string" where
  "arg_fmt ty =
     (case ty of
        SB_ARG_TYPE_FLAG \<Rightarrow> ''=[on|off]''
      | SB_ARG_TYPE_LIST \<Rightarrow> ''=[LIST,...]''
      | SB_ARG_TYPE_SIZE \<Rightarrow> ''=SIZE''
      | SB_ARG_TYPE_INT \<Rightarrow> ''=N''
      | SB_ARG_TYPE_FLOAT \<Rightarrow> ''=N''
      | SB_ARG_TYPE_STRING \<Rightarrow> ''=STRING''
      | SB_ARG_TYPE_FILE \<Rightarrow> ''=FILENAME''
      | SB_ARG_TYPE_NULL \<Rightarrow> ''<UNKNOWN>'')"

definition sb_print_options :: "sb_arg_t list \<Rightarrow> string" where
  "sb_print_options opts =
     (let maxlen = fold (\<lambda>a m. if length (arg_name a) > m then length (arg_name a) else m) opts 0
      in concat (map (\<lambda>a.
           ''  --'' @ arg_name a @ pad_right (maxlen - length (arg_name a) + 8) (arg_fmt (arg_type a)) @ arg_desc a
           @ (case arg_value a of None \<Rightarrow> [] | Some v \<Rightarrow> '' ['' @ v @ '']'')
           @ newline) opts) @ newline)"

section \<open>Enumeration\<close>

text \<open>A position is the number of items passed; 0 is the head of the list.\<close>

definition sb_options_enum_start :: nat where
  "sb_options_enum_start = 0"

definition sb_options_enum_next :: "opt_state \<Rightarrow> nat \<Rightarrow> (nat \<times> option_t) option" where
  "sb_options_enum_next st pos =
     (if pos < length (os_options st) then Some (pos + 1, os_options st ! pos) else None)"

section \<open>Names, lookup and the well-formedness of the list\<close>

definition cstring :: "string \<Rightarrow> bool" where
  "cstring s \<longleftrightarrow> CHR 0x00 \<notin> set s"

definition opts_wf :: "option_t list \<Rightarrow> bool" where
  "opts_wf opts \<longleftrightarrow>
     distinct (map opt_name opts) \<and>
     (\<forall>opt\<in>set opts. cstring (opt_name opt) \<and> convert_dashes (opt_name opt) = opt_name opt)"

lemma convert_dashes_idem [simp]: "convert_dashes (convert_dashes s) = convert_dashes s"
  by (induction s) auto

lemma cstring_convert_dashes [simp]: "cstring (convert_dashes s) \<longleftrightarrow> cstring s"
  by (induction s) (auto simp: cstring_def)

lemma schar_NUL: "schar c = 0 \<longleftrightarrow> c = CHR 0x00"
  using schar_inj [of c "CHR 0x00"] by (simp add: schar_def)

lemma opt_name_cmp_0:
  "cstring s \<Longrightarrow> cstring t \<Longrightarrow> opt_name_cmp s t = 0 \<longleftrightarrow> convert_dashes s = convert_dashes t"
proof (induction s t rule: opt_name_cmp.induct)
  case (4 c s d t)
  then show ?case by (auto simp: cstring_def schar_inj)
qed (auto simp: cstring_def schar_NUL)

lemma option_index_bound: "option_index opts n = Some i \<Longrightarrow> i < length opts"
  by (induction opts arbitrary: i) (auto split: if_splits)

lemma opts_wf_Nil [simp, wf_intros]: "opts_wf []"
  by (simp add: opts_wf_def)

lemma opts_wf_Cons: "opts_wf (opt # opts) \<longleftrightarrow>
  opt_name opt \<notin> opt_name ` set opts \<and> cstring (opt_name opt) \<and>
  convert_dashes (opt_name opt) = opt_name opt \<and> opts_wf opts"
  by (auto simp: opts_wf_def)

lemma option_index_Some:
  assumes "opts_wf opts" and "cstring n"
  shows "option_index opts n = Some i \<longleftrightarrow> i < length opts \<and> opt_name (opts ! i) = convert_dashes n"
  using assms(1)
proof (induction opts arbitrary: i)
  case (Cons opt opts)
  then have wf: "opts_wf opts" and nm: "cstring (opt_name opt)" "convert_dashes (opt_name opt) = opt_name opt"
    and new: "opt_name opt \<notin> opt_name ` set opts"
    by (auto simp: opts_wf_Cons)
  have cmp: "opt_name_cmp (opt_name opt) n = 0 \<longleftrightarrow> opt_name opt = convert_dashes n"
    using opt_name_cmp_0 [OF nm(1) assms(2)] nm(2) by simp
  have "i < length opts \<Longrightarrow> opt_name (opts ! i) \<noteq> opt_name opt" for i
    using new by (metis image_eqI nth_mem)
  then show ?case
    using Cons.IH [OF wf] cmp by (cases i) auto
qed simp

lemma option_index_None:
  assumes "opts_wf opts" and "cstring n"
  shows "option_index opts n = None \<longleftrightarrow> convert_dashes n \<notin> opt_name ` set opts"
proof -
  have "option_index opts n = None \<longleftrightarrow> (\<forall>i. option_index opts n \<noteq> Some i)"
    by (cases "option_index opts n") auto
  also have "\<dots> \<longleftrightarrow> convert_dashes n \<notin> opt_name ` set opts"
    using option_index_Some [OF assms] by (metis image_iff in_set_conv_nth)
  finally show ?thesis .
qed

lemma opts_wf_update:
  assumes "opts_wf opts" and "i < length opts" and "opt_name opt = opt_name (opts ! i)"
  shows "opts_wf (opts[i := opt])"
proof -
  have "map opt_name (opts[i := opt]) = map opt_name opts"
    using assms(2,3) by (simp add: map_update list_update_same_conv)
  moreover have "cstring (opt_name o') \<and> convert_dashes (opt_name o') = opt_name o'"
    if "o' \<in> set (opts[i := opt])" for o'
  proof -
    have "opt_name o' \<in> set (map opt_name (opts[i := opt]))"
      using that by auto
    then show ?thesis
      using assms(1) calculation by (auto simp: opts_wf_def)
  qed
  ultimately show ?thesis using assms(1) by (simp add: opts_wf_def)
qed

lemma opts_wf_append:
  assumes "opts_wf opts" and "convert_dashes n \<notin> opt_name ` set opts" and "cstring n"
  shows "opts_wf (opts @ [opt\<lparr>opt_name := convert_dashes n\<rparr>])"
  using assms by (auto simp: opts_wf_def)

text \<open>
  \<^verbatim>\<open>add_option\<close> keeps the list well-formed whatever the allocations do, and the position it
  returns holds the option of that name.
\<close>

lemma add_option_wf:
  assumes "add_option m (Some opts) (Some n) = Inr (pos, opts', m')"
    and "opts_wf opts" and "cstring n"
  shows "\<exists>os. opts' = Some os \<and> opts_wf os \<and>
           (\<forall>i. pos = Some i \<longrightarrow> i < length os \<and> opt_name (os ! i) = convert_dashes n)"
proof (cases "option_index opts n")
  case None
  have fresh: "convert_dashes n \<notin> opt_name ` set opts"
    using None option_index_None [OF assms(2,3)] by simp
  show ?thesis
    using assms None opts_wf_append [OF assms(2) fresh assms(3)]
    by (auto simp: add_option_def nth_append split: option.splits prod.splits if_splits)
next
  case (Some i)
  then show ?thesis
    using assms option_index_Some [OF assms(2,3), of i] by (auto simp: add_option_def)
qed

lemma add_option_succeeds:
  "\<exists>i os. add_option [] (Some opts) (Some n) = Inr (Some i, Some os, [])"
  by (cases "option_index opts n") (auto simp: add_option_def new_option_def)

lemma add_value_succeeds [simp]:
  "add_value [] (Some vs) (Some d) =
     (Some \<lparr>val_data = d, val_ignore = False\<rparr>, Some (vs @ [\<lparr>val_data = d, val_ignore = False\<rparr>]), [])"
  by (simp add: add_value_def new_value_def Let_def)

lemma add_value_list [simp]: "\<exists>vs'. fst (snd (add_value m (Some vs) (Some d))) = Some vs'"
  by (auto simp: add_value_def Let_def split: prod.splits option.splits)

lemma add_values_succeeds:
  "add_values [] vs ts = (vs @ map (\<lambda>t. \<lparr>val_data = t, val_ignore = False\<rparr>) ts, [])"
  by (induction ts arbitrary: vs) auto

section \<open>The store interface\<close>

text \<open>
  What the rest of the program relies on: assignments to named options, where two names with
  the same key are the same option. The client lemma, that after a sequence of
  assignments the last one for a name counts, is proved here once.
\<close>

locale option_store =
  fixes lookup :: "'s \<Rightarrow> 'n \<Rightarrow> 'v option"
    and assign :: "'s \<Rightarrow> 'n \<times> 'a \<Rightarrow> 's"
    and content :: "'a \<Rightarrow> 'v"
    and key :: "'n \<Rightarrow> 'k"
    and wf :: "'s \<Rightarrow> bool"
    and ok :: "'n \<times> 'a \<Rightarrow> bool"
    and nameok :: "'n \<Rightarrow> bool"
  assumes lookup_assign:
      "wf s \<Longrightarrow> ok (n, v) \<Longrightarrow> nameok n' \<Longrightarrow>
       lookup (assign s (n, v)) n' = (if key n' = key n then Some (content v) else lookup s n')"
    and wf_assign: "wf s \<Longrightarrow> ok (n, v) \<Longrightarrow> wf (assign s (n, v))"
begin

lemma wf_assign_all: "wf s \<Longrightarrow> list_all ok xs \<Longrightarrow> wf (foldl assign s xs)"
  by (induction xs arbitrary: s) (auto intro: wf_assign)

lemma lookup_assign_all:
  assumes "wf s" and "list_all ok xs" and "nameok n"
  shows "lookup (foldl assign s xs) n =
           (case find (\<lambda>(m, _). key m = key n) (rev xs) of
              Some (_, w) \<Rightarrow> Some (content w)
            | None \<Rightarrow> lookup s n)"
  using assms(2)
proof (induction xs rule: rev_induct)
  case (snoc x xs)
  obtain m w where x: "x = (m, w)" by (cases x)
  have "wf (foldl assign s xs)"
    using assms(1) snoc.prems by (intro wf_assign_all) auto
  then have "lookup (foldl assign s (xs @ [x])) n =
      (if key n = key m then Some (content w) else lookup (foldl assign s xs) n)"
    using lookup_assign [of "foldl assign s xs" m w n] snoc.prems assms(3) x by simp
  then show ?case
    using snoc x by auto
qed simp

end

text \<open>What is kept of an assignment of the given text to an option of the given type.\<close>

definition option_view :: "option_t \<Rightarrow> sb_arg_type_t \<times> string list" where
  "option_view opt = (opt_type opt, map val_data (opt_values opt))"

definition values_of :: "sb_arg_type_t \<Rightarrow> string option \<Rightarrow> string list" where
  "values_of ty value =
     (case ty of
        SB_ARG_TYPE_FLAG \<Rightarrow> if value = None \<or> value = Some ''on'' then [''on''] else []
      | SB_ARG_TYPE_LIST \<Rightarrow> (case value of None \<Rightarrow> [] | Some v \<Rightarrow> strtok_all CHR '','' v)
      | _ \<Rightarrow> (case value of None \<Rightarrow> [] | Some v \<Rightarrow> if v = [] then [] else [v]))"

definition opt_lookup :: "opt_state \<Rightarrow> string \<Rightarrow> (sb_arg_type_t \<times> string list) option" where
  "opt_lookup st n = map_option option_view (find_option (Some (os_options st)) (Some n))"

definition opt_assign :: "opt_state \<Rightarrow> string \<times> sb_arg_type_t \<times> string option \<Rightarrow> opt_state" where
  "opt_assign st a =
     (case a of (n, ty, value) \<Rightarrow>
        (case set_option (\<lambda>f. Inl []) st n value ty of Inl e \<Rightarrow> st | Inr (rc, st') \<Rightarrow> st'))"

definition opt_inv :: "opt_state \<Rightarrow> bool" where
  "opt_inv st \<longleftrightarrow> opts_wf (os_options st) \<and> os_mem st = []"

definition plain_type :: "sb_arg_type_t \<Rightarrow> bool" where
  "plain_type ty \<longleftrightarrow> ty \<noteq> SB_ARG_TYPE_FILE \<and> ty \<noteq> SB_ARG_TYPE_NULL"

text \<open>A value that is stored as it is: one of an ordinary type, or none at all, as of a file option without a default file.\<close>

definition plain_arg :: "sb_arg_type_t \<Rightarrow> string option \<Rightarrow> bool" where
  "plain_arg ty value \<longleftrightarrow> plain_type ty \<or> value = None \<or> value = Some []"

lemma plain_argI [simp]: "plain_type ty \<Longrightarrow> plain_arg ty value"
  by (simp add: plain_arg_def)

text \<open>
  Without allocation failures \<^verbatim>\<open>set_option\<close> on such a value succeeds, and its effect on
  the list is to store the type and the values at the position of the option.
\<close>

lemma set_option_effect:
  assumes "opt_inv st" and "cstring n" and "plain_arg ty value"
  shows "\<exists>st' i base. set_option fs st n value ty = Inr (0, st') \<and> os_mem st' = [] \<and> os_out st' = os_out st \<and>
           opts_wf base \<and> i < length base \<and> opt_name (base ! i) = convert_dashes n \<and>
           (base = os_options st \<or>
            (option_index (os_options st) n = None \<and> i = length (os_options st) \<and> butlast base = os_options st \<and> base \<noteq> [])) \<and>
           os_options st' = base[i := (base ! i)\<lparr>opt_type := ty,
               opt_values := map (\<lambda>d. \<lparr>val_data = d, val_ignore = False\<rparr>) (values_of ty value)\<rparr>]"
proof -
  have wf: "opts_wf (os_options st)" and mem: "os_mem st = []"
    using assms(1) by (auto simp: opt_inv_def)
  obtain i base where add: "add_option [] (Some (os_options st)) (Some n) = Inr (Some i, Some base, [])"
    using add_option_succeeds by blast
  have base: "opts_wf base" "i < length base" "opt_name (base ! i) = convert_dashes n"
    using add_option_wf [OF add wf assms(2)] by auto
  have shape: "base = os_options st \<or>
      (option_index (os_options st) n = None \<and> i = length (os_options st) \<and> butlast base = os_options st \<and> base \<noteq> [])"
    using add by (cases "option_index (os_options st) n") (auto simp: add_option_def new_option_def)
  have comm: "opt\<lparr>opt_values := vs, opt_type := t\<rparr> = opt\<lparr>opt_type := t, opt_values := vs\<rparr>" for opt :: option_t and vs t
    by simp
  have "\<exists>st'. set_option fs st n value ty = Inr (0, st') \<and> os_mem st' = [] \<and> os_out st' = os_out st \<and>
      os_options st' = base[i := (base ! i)\<lparr>opt_type := ty,
        opt_values := map (\<lambda>d. \<lparr>val_data = d, val_ignore = False\<rparr>) (values_of ty value)\<rparr>]"
    using assms(3) mem add base(2)
    by (cases ty; cases "value")
       (auto simp: set_option_def plain_arg_def plain_type_def values_of_def Let_def free_values_def add_values_succeeds comm)
  then show ?thesis
    using base shape by blast
qed

lemma find_option_wf:
  assumes "opts_wf opts" and "cstring n" and "i < length opts" and "opt_name (opts ! i) = convert_dashes n"
  shows "find_option (Some opts) (Some n) = Some (opts ! i)"
  using assms option_index_Some [OF assms(1,2), of i] by (simp add: find_option_def)

lemma find_option_other:
  assumes "opts_wf opts" and "cstring n" and "i < length opts"
    and "opt_name opt = opt_name (opts ! i)" and "opt_name (opts ! i) \<noteq> convert_dashes n"
  shows "find_option (Some (opts[i := opt])) (Some n) = find_option (Some opts) (Some n)"
proof -
  have wf: "opts_wf (opts[i := opt])"
    using assms opts_wf_update by blast
  have "option_index (opts[i := opt]) n = Some j \<longleftrightarrow> option_index opts n = Some j" for j
    using assms by (auto simp: option_index_Some [OF wf assms(2)] option_index_Some [OF assms(1,2)] nth_list_update)
  then have idx: "option_index (opts[i := opt]) n = option_index opts n"
    by (metis option.exhaust)
  have "option_index opts n = Some j \<Longrightarrow> j \<noteq> i" for j
    using assms by (auto simp: option_index_Some [OF assms(1,2)])
  then show ?thesis
    using idx by (cases "option_index opts n") (auto simp: find_option_def)
qed

lemma find_option_snoc:
  assumes "opts_wf (opts @ [x])" and "cstring n" and "opt_name x \<noteq> convert_dashes n"
  shows "find_option (Some (opts @ [x])) (Some n) = find_option (Some opts) (Some n)"
proof -
  have wf: "opts_wf opts"
    using assms(1) by (auto simp: opts_wf_def)
  have "option_index (opts @ [x]) n = Some j \<longleftrightarrow> option_index opts n = Some j" for j
    unfolding option_index_Some [OF wf assms(2)] option_index_Some [OF assms(1,2)]
    using assms(3) by (auto simp: nth_append less_Suc_eq)
  then have "option_index (opts @ [x]) n = option_index opts n"
    by (metis option.exhaust)
  then show ?thesis
    using option_index_bound [of opts n]
    by (cases "option_index opts n") (simp_all add: find_option_def nth_append)
qed

text \<open>
  The effect of an update at the position \<open>add_option\<close> returned, seen through \<open>find_option\<close>: the
  named option is the new one, every other name finds what it found before.
\<close>

lemma find_option_update:
  assumes wf: "opts_wf base" and i: "i < length base" "opt_name (base ! i) = convert_dashes n"
    and shape: "base = opts \<or> (i = length opts \<and> butlast base = opts \<and> base \<noteq> [])"
    and nm: "opt_name opt = opt_name (base ! i)" and cs: "cstring n'"
  shows "find_option (Some (base[i := opt])) (Some n') =
           (if convert_dashes n' = convert_dashes n then Some opt else find_option (Some opts) (Some n'))"
proof (cases "convert_dashes n' = convert_dashes n")
  case True
  have "opts_wf (base[i := opt])"
    using wf i nm opts_wf_update by simp
  then show ?thesis
    using True i nm find_option_wf [OF _ cs, of "base[i := opt]" i] by simp
next
  case False
  have "find_option (Some (base[i := opt])) (Some n') = find_option (Some base) (Some n')"
    using False i nm by (intro find_option_other [OF wf cs]) auto
  also have "\<dots> = find_option (Some opts) (Some n')"
    using shape
  proof
    assume s: "i = length opts \<and> butlast base = opts \<and> base \<noteq> []"
    then have "base = opts @ [base ! i]"
      by (metis append_butlast_last_id last_conv_nth length_butlast)
    then show ?thesis
      using find_option_snoc [of opts "base ! i" n'] wf cs False i by simp
  qed simp
  finally show ?thesis using False by simp
qed

lemma opt_assign_stores:
  assumes "opt_inv st" and "cstring n" and "plain_arg ty value"
  shows "opt_inv (opt_assign st (n, ty, value))"
    and "cstring n' \<Longrightarrow> opt_lookup (opt_assign st (n, ty, value)) n' =
           (if convert_dashes n' = convert_dashes n then Some (ty, values_of ty value) else opt_lookup st n')"
proof -
  obtain st' i base where eff: "set_option (\<lambda>f. Inl []) st n value ty = Inr (0, st')" "os_mem st' = []"
      "opts_wf base" "i < length base" "opt_name (base ! i) = convert_dashes n"
      "base = os_options st \<or> (i = length (os_options st) \<and> butlast base = os_options st \<and> base \<noteq> [])"
      "os_options st' = base[i := (base ! i)\<lparr>opt_type := ty,
          opt_values := map (\<lambda>d. \<lparr>val_data = d, val_ignore = False\<rparr>) (values_of ty value)\<rparr>]"
    using set_option_effect [OF assms, of "\<lambda>f. Inl []"] by blast
  show "opt_inv (opt_assign st (n, ty, value))"
    using eff opts_wf_update [OF eff(3,4)] by (simp add: opt_inv_def opt_assign_def)
  assume "cstring n'"
  then show "opt_lookup (opt_assign st (n, ty, value)) n' =
      (if convert_dashes n' = convert_dashes n then Some (ty, values_of ty value) else opt_lookup st n')"
    using eff(1,7) by (simp add: opt_lookup_def opt_assign_def find_option_update [OF eff(3,4,5,6)]
        option_view_def comp_def)
qed

lemma opt_assign_effect:
  assumes "opt_inv st" and "cstring n" and "plain_type ty"
  shows "opt_inv (opt_assign st (n, ty, value))"
    and "cstring n' \<Longrightarrow> opt_lookup (opt_assign st (n, ty, value)) n' =
           (if convert_dashes n' = convert_dashes n then Some (ty, values_of ty value) else opt_lookup st n')"
  using opt_assign_stores [OF assms(1,2) plain_argI [OF assms(3)]] by auto

definition assignment_ok :: "string \<times> sb_arg_type_t \<times> string option \<Rightarrow> bool" where
  "assignment_ok a \<longleftrightarrow> cstring (fst a) \<and> plain_arg (fst (snd a)) (snd (snd a))"

interpretation sbopts: option_store opt_lookup opt_assign "\<lambda>(ty, value). (ty, values_of ty value)"
  convert_dashes opt_inv assignment_ok cstring
  by unfold_locales (auto simp: assignment_ok_def opt_assign_stores)

lemma set_option_fs:
  "plain_arg ty value \<Longrightarrow> set_option fs st n value ty = set_option (\<lambda>f. Inl []) st n value ty"
  by (cases "add_option (os_mem st) (Some (os_options st)) (Some n)"; cases ty)
     (auto simp: set_option_def plain_arg_def plain_type_def Let_def split: option.split)

lemma set_option_assigns:
  assumes "opt_inv st" and "cstring n" and "plain_arg ty value"
  shows "set_option fs st n value ty = Inr (0, opt_assign st (n, ty, value))"
proof -
  obtain st' where "set_option (\<lambda>f. Inl []) st n value ty = Inr (0, st')"
    using set_option_effect [OF assms, of "\<lambda>f. Inl []"] by blast
  then show ?thesis using set_option_fs [OF assms(3), of fs st n] by (simp add: opt_assign_def)
qed

lemma set_option_opt_assign:
  "opt_inv st \<Longrightarrow> cstring n \<Longrightarrow> plain_type ty \<Longrightarrow> set_option fs st n value ty = Inr (0, opt_assign st (n, ty, value))"
  by (simp add: set_option_assigns)

definition arg_assignment :: "sb_arg_t \<Rightarrow> string \<times> sb_arg_type_t \<times> string option" where
  "arg_assignment a = (arg_name a, arg_type a, arg_value a)"

lemma sb_register_arg_set_foldl:
  "opt_inv st \<Longrightarrow> list_all (assignment_ok \<circ> arg_assignment) args \<Longrightarrow>
   sb_register_arg_set fs st args = Inr (0, foldl opt_assign st (map arg_assignment args))"
proof (induction args arbitrary: st)
  case (Cons a args)
  then have "opt_inv (opt_assign st (arg_assignment a))"
    by (auto simp: assignment_ok_def arg_assignment_def intro: opt_assign_stores)
  then show ?case
    using Cons by (simp add: set_option_assigns assignment_ok_def arg_assignment_def)
qed simp

lemma find_map_arg:
  "find (\<lambda>(m, _). P m) (map arg_assignment as) = map_option arg_assignment (find (P \<circ> arg_name) as)"
  by (induction as) (auto simp: arg_assignment_def)

text \<open>
  (C19) Registering a set of arguments succeeds when no allocation fails, keeps the list of
  options well-formed, and afterwards every name, whether spelled with dashes or underscores, finds the type
  and the values of the last argument of the set with that name, or what it found before. An argument that names a file must have no default file, as
  \<^verbatim>\<open>config-file\<close> of the program, since the file would set other options when it is registered; every other argument must have a type.
\<close>

theorem sb_register_arg_set_last_wins:
  assumes "opt_inv st" and "list_all (assignment_ok \<circ> arg_assignment) args" and "cstring n"
  shows "\<exists>st'. sb_register_arg_set fs st args = Inr (0, st') \<and> opt_inv st' \<and>
           opt_lookup st' n =
             (case find (\<lambda>a. convert_dashes (arg_name a) = convert_dashes n) (rev args) of
                Some a \<Rightarrow> Some (arg_type a, values_of (arg_type a) (arg_value a))
              | None \<Rightarrow> opt_lookup st n)"
proof -
  let ?xs = "map arg_assignment args"
  have ok: "list_all assignment_ok ?xs"
    using assms(2) by (simp add: list.pred_map)
  have "find (\<lambda>(m, _). convert_dashes m = convert_dashes n) (rev ?xs) =
      map_option arg_assignment (find (\<lambda>a. convert_dashes (arg_name a) = convert_dashes n) (rev args))"
    using find_map_arg [of "\<lambda>m. convert_dashes m = convert_dashes n" "rev args"]
    by (simp add: rev_map comp_def)
  then have "opt_lookup (foldl opt_assign st ?xs) n =
      (case find (\<lambda>a. convert_dashes (arg_name a) = convert_dashes n) (rev args) of
         Some a \<Rightarrow> Some (arg_type a, values_of (arg_type a) (arg_value a)) | None \<Rightarrow> opt_lookup st n)"
    using sbopts.lookup_assign_all [OF assms(1) ok assms(3)]
    by (auto simp: arg_assignment_def split: option.splits)
  then show ?thesis
    using sb_register_arg_set_foldl [OF assms(1,2)] sbopts.wf_assign_all [OF assms(1) ok] by blast
qed

text \<open>A concrete argument set: the second \<^verbatim>\<open>num-threads\<close> counts.\<close>

definition sample_args :: "sb_arg_t list" where
  "sample_args =
     [\<lparr>arg_name = ''num-threads'', arg_desc = ''threads'', arg_type = SB_ARG_TYPE_INT, arg_value = Some ''1''\<rparr>,
      \<lparr>arg_name = ''config-file'', arg_desc = ''file'', arg_type = SB_ARG_TYPE_FILE, arg_value = None\<rparr>,
      \<lparr>arg_name = ''num_threads'', arg_desc = ''threads'', arg_type = SB_ARG_TYPE_INT, arg_value = Some ''8''\<rparr>]"

definition empty_opts :: opt_state where
  "empty_opts = \<lparr>os_options = [], os_mem = [], os_out = []\<rparr>"

lemma empty_opts_inv [simp]: "opt_inv empty_opts"
  by (simp add: opt_inv_def empty_opts_def)

lemma sb_register_arg_set_last_wins_witness:
  "\<exists>st'. sb_register_arg_set (\<lambda>f. Inl []) empty_opts sample_args = Inr (0, st') \<and>
     opt_lookup st' ''num-threads'' = Some (SB_ARG_TYPE_INT, [''8''])"
  using sb_register_arg_set_last_wins [of empty_opts sample_args "''num-threads''" "\<lambda>f. Inl []"]
  by (auto simp: sample_args_def arg_assignment_def assignment_ok_def cstring_def plain_arg_def plain_type_def values_of_def)

lemma opt_lookup_find:
  "opt_lookup st n = Some (ty, ds) \<Longrightarrow>
   \<exists>opt. find_option (Some (os_options st)) (Some n) = Some opt \<and> opt_type opt = ty \<and> map val_data (opt_values opt) = ds"
  by (auto simp: opt_lookup_def option_view_def)

lemma set_option_lookup:
  assumes "opt_inv st" and "cstring n" and "plain_type ty" and "set_option fs st n value ty = Inr (rc, st')"
  shows "rc = 0" and "\<exists>opt. find_option (Some (os_options st')) (Some n) = Some opt \<and> opt_type opt = ty \<and>
     map val_data (opt_values opt) = values_of ty value"
  using assms set_option_opt_assign [OF assms(1,2,3), of fs "value"] opt_assign_effect(2) [OF assms(1,2,3,2)]
  by (auto intro!: opt_lookup_find)

text \<open>
  Integers survive the store: an option set to the decimal text of any \<^verbatim>\<open>int\<close> is read
  back by \<^verbatim>\<open>sb_get_value_int\<close> as that number, and a text that is no \<^verbatim>\<open>int\<close> (a number out of
  range, or one followed by anything else) makes the program exit with status 1 instead of a wrong value.
\<close>

lemma set_option_get_int:
  assumes "opt_inv st" and "cstring n" and "LONG_MIN \<le> k" and "k \<le> LONG_MAX"
    and "r = [] \<or> \<not> isdigit (hd r)"
    and "set_option fs st n (Some (print_int k @ r)) SB_ARG_TYPE_INT = Inr (rc, st')"
  shows "sb_get_value_int st' n = (if r = [] \<and> int_range k then Inr k else Inl (Exit_call 1))"
proof -
  obtain opt where opt: "find_option (Some (os_options st')) (Some n) = Some opt"
    "map val_data (opt_values opt) = values_of SB_ARG_TYPE_INT (Some (print_int k @ r))"
    using set_option_lookup(2) [OF assms(1,2) _ assms(6)] by (auto simp: plain_type_def)
  have ne: "print_int k @ r \<noteq> []"
    by (simp add: print_int_def)
  obtain v where "opt_values opt = [v]" and "val_data v = print_int k @ r"
    using opt(2) ne by (auto simp: values_of_def)
  then show ?thesis
    using opt(1) strtol_print_int [OF assms(3,4,5)]
    by (auto simp: sb_get_value_int_def sb_opt_to_int_def int_range_def)
qed

lemma set_option_get_int_witness:
  "\<exists>st'. set_option (\<lambda>f. Inl []) empty_opts ''max-time'' (Some (print_int (- 17) @ [])) SB_ARG_TYPE_INT = Inr (0, st') \<and>
     sb_get_value_int st' ''max-time'' = Inr (- 17)"
  using set_option_get_int [of empty_opts "''max-time''" "- 17" "[]" "\<lambda>f. Inl []" 0]
    set_option_opt_assign [of empty_opts "''max-time''" SB_ARG_TYPE_INT "\<lambda>f. Inl []" "Some (print_int (- 17) @ [])"]
  by (simp add: cstring_def plain_type_def int_range_def)

section \<open>Sizes\<close>

lemma size_scan_digit:
  assumes "isdigit c"
  shows "size_scan (c # s) rc res = size_scan s 1 (res * 10 + of_nat (digit_val c))"
proof -
  have c: "48 \<le> chr_code c" "chr_code c \<le> 57"
    using assms by (auto simp: isdigit_def)
  have sc: "schar c = int (chr_code c)"
    using c by (simp add: schar_def)
  have "word_of_int (int (chr_code c)) - (word_of_int 48 :: u64) = word_of_nat (chr_code c - 48)"
    using c(1) by (metis of_nat_diff of_nat_numeral of_int_of_nat_eq)
  then show ?thesis
    using c sc by (simp add: digit_val_def schar_def [of "CHR ''0''"] schar_def [of "CHR ''9''"] algebra_simps)
qed

lemma size_scan_digits:
  "list_all isdigit s \<Longrightarrow> s \<noteq> [] \<Longrightarrow> r = [] \<or> \<not> isdigit (hd r) \<Longrightarrow>
   size_scan (s @ r) rc (of_nat a) =
     (if r = [] then (1, of_nat (digits_value a s), CHR 0x00) else (2, of_nat (digits_value a s), hd r))"
proof (induction s arbitrary: rc a)
  case (Cons c s)
  have step: "of_nat a * 10 + of_nat (digit_val c) = (of_nat (10 * a + digit_val c) :: u64)"
    by simp
  have "size_scan (c # (s @ r)) rc (of_nat a) = size_scan (s @ r) 1 (of_nat (10 * a + digit_val c))"
    using Cons.prems(1) unfolding step [symmetric] by (intro size_scan_digit) simp
  moreover have "size_scan r 1 w = (if r = [] then (1, w, CHR 0x00) else (2, w, hd r))" for w
  proof (cases r)
    case (Cons d r')
    then have "chr_code d < 48 \<or> 57 < chr_code d"
      using \<open>r = [] \<or> \<not> isdigit (hd r)\<close> by (auto simp: isdigit_def)
    moreover have "schar d < 0 \<or> schar d = int (chr_code d)"
      using nat_of_char_less_256 [of d] by (auto simp: schar_def Let_def)
    ultimately show ?thesis
      using Cons by (auto simp: schar_def [of "CHR ''0''"] schar_def [of "CHR ''9''"])
  qed simp
  ultimately show ?case
    using Cons.IH [of 1 "10 * a + digit_val c"] Cons.prems by (cases "s = []") simp_all
qed simp

lemma iterate_1024: "((\<lambda>r. r * 1024) ^^ k) (of_nat n :: u64) = of_nat (n * 1024 ^ k)"
  by (induction k) simp_all

text \<open>
  Sizes with a suffix: an option set to the decimal text of \<open>k\<close>, followed by the letter
  number \<open>j\<close> of \<^verbatim>\<open>KMGT\<close> in either case, is read back by \<^verbatim>\<open>sb_get_value_size\<close> as \<open>k \<cdot> 1024^(j+1)\<close>
  modulo \<open>2^64\<close>; without a suffix as \<open>k\<close> modulo \<open>2^64\<close>; with any other character after the number as 0.
\<close>

lemma set_option_get_size:
  assumes "opt_inv st" and "cstring n" and "r = [] \<or> \<not> isdigit (hd r)"
    and "set_option fs st n (Some (print_nat k @ r)) SB_ARG_TYPE_SIZE = Inr (rc, st')"
  shows "sb_get_value_size st' n =
           (if r = [] then of_nat k
            else case mod_index (hd r) ''KMGT'' of
                   Some j \<Rightarrow> of_nat (k * 1024 ^ Suc j)
                 | None \<Rightarrow> 0)"
proof -
  obtain opt where opt: "find_option (Some (os_options st')) (Some n) = Some opt"
    "map val_data (opt_values opt) = values_of SB_ARG_TYPE_SIZE (Some (print_nat k @ r))"
    using set_option_lookup(2) [OF assms(1,2) _ assms(4)] by (auto simp: plain_type_def)
  obtain v where "opt_values opt = [v]" and "val_data v = print_nat k @ r"
    using opt(2) by (auto simp: values_of_def)
  then show ?thesis
    using opt(1) size_scan_digits [OF print_nat_digits print_nat_nonempty assms(3), of k 0 0]
      iterate_1024 [of _ k]
    by (auto simp: sb_get_value_size_def sb_opt_to_size_def sizemods_def simp del: funpow.simps of_nat_mult
        split: option.splits)
qed

lemma mod_index_g: "mod_index CHR ''g'' ''KMGT'' = Some 2"
  by code_simp

lemma set_option_get_size_witness:
  "\<exists>st'. set_option (\<lambda>f. Inl []) empty_opts ''file-total-size'' (Some (print_nat 2 @ ''g'')) SB_ARG_TYPE_SIZE = Inr (0, st') \<and>
     sb_get_value_size st' ''file-total-size'' = 2147483648"
  using set_option_get_size [of empty_opts "''file-total-size''" "''g''" "\<lambda>f. Inl []" 2 0]
    set_option_opt_assign [of empty_opts "''file-total-size''" SB_ARG_TYPE_SIZE "\<lambda>f. Inl []" "Some (print_nat 2 @ ''g'')"]
  by (simp add: cstring_def plain_type_def isdigit_def mod_index_g del: mod_index.simps)

section \<open>Lists\<close>

text \<open>
  A list option set to a comma-separated text holds exactly the items of the text, in
  order: joining any non-empty items without commas and reading the option back with
  \<^verbatim>\<open>sb_get_value_list\<close> returns the items.
\<close>

lemma set_option_get_list:
  assumes "opt_inv st" and "cstring n" and "\<forall>x\<in>set items. x \<noteq> [] \<and> CHR '','' \<notin> set x"
    and "set_option fs st n (Some (join_sep CHR '','' items)) SB_ARG_TYPE_LIST = Inr (rc, st')"
  shows "map_option (map val_data) (sb_get_value_list st' n) = Some items"
proof -
  obtain opt where opt: "find_option (Some (os_options st')) (Some n) = Some opt"
    "map val_data (opt_values opt) = values_of SB_ARG_TYPE_LIST (Some (join_sep CHR '','' items))"
    using set_option_lookup(2) [OF assms(1,2) _ assms(4)] by (auto simp: plain_type_def)
  then show ?thesis
    using strtok_all_join [OF assms(3)] by (simp add: sb_get_value_list_def sb_opt_to_list_def values_of_def)
qed

lemma set_option_get_list_witness:
  "\<exists>st'. set_option (\<lambda>f. Inl []) empty_opts ''mysql-host'' (Some (join_sep CHR '','' [''db1'', ''db2''])) SB_ARG_TYPE_LIST
            = Inr (0, st') \<and>
     map_option (map val_data) (sb_get_value_list st' ''mysql-host'') = Some [''db1'', ''db2'']"
  using set_option_get_list [of empty_opts "''mysql-host''" "[''db1'', ''db2'']" "\<lambda>f. Inl []" 0]
    set_option_opt_assign [of empty_opts "''mysql-host''" SB_ARG_TYPE_LIST "\<lambda>f. Inl []" "Some (join_sep CHR '','' [''db1'', ''db2''])"]
  by (simp add: cstring_def plain_type_def)

section \<open>The invariant under every allocation outcome\<close>

lemma read_config_line_wf:
  assumes "read_config_line k buf st = Inr (ok, st')" and "opts_wf (os_options st)" and "cstring buf"
  shows "opts_wf (os_options st')"
proof (cases "strchr buf VALUE_DELIMITER")
  case None
  then show ?thesis using assms by (simp add: read_config_line_def)
next
  case (Some p)
  obtain name tmp where p: "p = (name, tmp)" by (cases p)
  have name: "cstring name"
    using Some p assms(3) by (auto simp: strchr_Some cstring_def)
  obtain newopt opts m where add: "add_option (os_mem st) (Some (os_options st)) (Some name) = Inr (newopt, opts, m)"
    using assms(1) Some p by (auto simp: read_config_line_def rbind_eq_Inr)
  obtain os where os: "opts = Some os" "opts_wf os"
      "\<And>i. newopt = Some i \<Longrightarrow> i < length os \<and> opt_name (os ! i) = convert_dashes name"
    using add_option_wf [OF add assms(2) name] by blast
  have "opts_wf (os[i := (os ! i)\<lparr>opt_values := vs\<rparr>])" if "newopt = Some i" for i vs
    using os(2) os(3) [OF that] by (intro opts_wf_update) auto
  then show ?thesis
    using assms(1) Some p add os(1,2)
    by (auto simp: read_config_line_def free_values_def Let_def split: option.splits prod.splits if_splits)
qed

lemma read_config_wf:
  "read_config k s st = Inr (ok, st') \<Longrightarrow> opts_wf (os_options st) \<Longrightarrow> cstring s \<Longrightarrow> opts_wf (os_options st')"
proof (induction k s st arbitrary: st' ok rule: read_config.induct)
  case (1 nline contents st)
  note step = 1(2) [unfolded read_config.simps [of nline contents]]
  show ?case
  proof (cases "contents = []")
    case True
    then show ?thesis using step 1(3) by simp
  next
    case False
    obtain buf rest where fg: "fgets (MAXSTRLEN - 1) contents = (buf, rest)"
      by fastforce
    have cs: "cstring rest" "cstring buf"
      using fgets_append [OF fg] 1(4) by (auto simp: cstring_def)
    obtain ok' st1 where line: "read_config_line (nline + 1) buf st = Inr (ok', st1)"
        and cont: "(if ok' then read_config (nline + 1) rest st1 else Inr (False, st1)) = Inr (ok, st')"
      using step False fg by (auto simp: rbind_eq_Inr)
    have "opts_wf (os_options st1)"
      using read_config_line_wf [OF line 1(3) cs(2)] .
    then show ?thesis
      using cont cs(1) 1(1) [OF False fg [symmetric]] by (auto split: if_splits)
  qed
qed

lemma set_option_wf:
  assumes "opts_wf (os_options st)" and "cstring n"
    and fs: "\<And>f s. fs f = Inr s \<Longrightarrow> cstring s"
    and "set_option fs st n value ty = Inr (rc, st')"
  shows "opts_wf (os_options st')"
proof -
  obtain pos opts m where add: "add_option (os_mem st) (Some (os_options st)) (Some n) = Inr (pos, opts, m)"
    using assms(4) by (auto simp: set_option_def rbind_eq_Inr)
  obtain os where os: "opts = Some os" "opts_wf os"
      "\<And>i. pos = Some i \<Longrightarrow> i < length os \<and> opt_name (os ! i) = convert_dashes n"
    using add_option_wf [OF add assms(1,2)] by blast
  have upd: "opts_wf (os[i := (os ! i)\<lparr>opt_values := vs, opt_type := ty\<rparr>])"
            "opts_wf (os[i := (os ! i)\<lparr>opt_values := vs, opt_type := ty, opt_values := vs'\<rparr>])" if "pos = Some i" for i vs vs'
    using os(2) os(3) [OF that] by (auto intro: opts_wf_update)
  have cfg: "opts_wf (os_options st2)" if "read_config_file fs f st1 = Inr st2" "opts_wf (os_options st1)" for f st1 st2
    using that fs by (auto simp: read_config_file_def rbind_eq_Inr intro: read_config_wf split: sum.splits)
  show ?thesis
  proof (cases pos)
    case None
    then show ?thesis using assms(4) add os by (auto simp: set_option_def)
  next
    case (Some i)
    note i = os(3) [OF Some] and upd = upd [OF Some]
    show ?thesis
      using assms(4) add os(1) Some i upd
      by (cases ty) (auto simp: set_option_def Let_def rbind_eq_Inr split: if_splits prod.splits intro: cfg)
  qed
qed

text \<open>
  (C38) Whatever the allocations do and whatever a configuration file contains, registering
  arguments of any type never breaks the list of options: when the call returns, with success or an error,
  names are still distinct, hold no dash, and so at most one option answers to a name.
\<close>

theorem sb_register_arg_set_keeps_wf:
  assumes "opts_wf (os_options st)" and "\<forall>a\<in>set args. cstring (arg_name a)"
    and "\<forall>f s. fs f = Inr s \<longrightarrow> cstring s"
    and "sb_register_arg_set fs st args = Inr (rc, st')"
  shows "opts_wf (os_options st')"
  using assms(1,2,4)
proof (induction args arbitrary: st)
  case (Cons a args)
  obtain rc1 st1 where step: "set_option fs st (arg_name a) (arg_value a) (arg_type a) = Inr (rc1, st1)"
    using Cons.prems(3) by (auto simp: rbind_eq_Inr)
  have "opts_wf (os_options st1)"
    using set_option_wf [OF Cons.prems(1) _ _ step] Cons.prems(2) assms(3) by simp
  then show ?case
    using Cons step by (auto split: if_splits)
qed simp

text \<open>An allocation fails while the second value is copied, and a file adds an option.\<close>

definition sample_file_args :: "sb_arg_t list" where
  "sample_file_args =
     [\<lparr>arg_name = ''test'', arg_desc = [], arg_type = SB_ARG_TYPE_STRING, arg_value = Some ''cpu''\<rparr>,
      \<lparr>arg_name = ''config'', arg_desc = [], arg_type = SB_ARG_TYPE_FILE, arg_value = Some ''f''\<rparr>]"

lemma sb_register_arg_set_keeps_wf_witness:
  "\<exists>st'. sb_register_arg_set (\<lambda>f. Inr ''a-b=1'') (empty_opts\<lparr>os_mem := [True, True, True, False]\<rparr>) sample_file_args
            = Inr (0, st') \<and> map opt_name (os_options st') = [''test'', ''config'', ''a_b''] \<and> opts_wf (os_options st')"
proof -
  let ?run = "sb_register_arg_set (\<lambda>f. Inr ''a-b=1'') (empty_opts\<lparr>os_mem := [True, True, True, False]\<rparr>) sample_file_args"
  have run: "map_sum id (\<lambda>(rc, st). (rc, map opt_name (os_options st))) ?run = Inr (0, [''test'', ''config'', ''a_b''])"
    by code_simp
  then obtain st' where st': "?run = Inr (0, st')" "map opt_name (os_options st') = [''test'', ''config'', ''a_b'']"
    by (cases ?run) auto
  then show ?thesis
    using sb_register_arg_set_keeps_wf [OF _ _ _ st'(1)]
    by (auto simp: empty_opts_def sample_file_args_def cstring_def)
qed


section \<open>Configuration files as assignments\<close>

definition clean_value :: "string \<Rightarrow> bool" where
  "clean_value v \<longleftrightarrow> v \<noteq> [] \<and> (\<forall>c\<in>set v. c \<noteq> CHR '','' \<and> \<not> isspace c) \<and>
     hd v \<noteq> CHR ''#'' \<and> hd v \<noteq> CHR 0x27 \<and> hd v \<noteq> CHR 0x22"

definition config_text :: "string \<times> string list \<Rightarrow> string" where
  "config_text l = fst l @ CHR ''='' # join_sep CHR '','' (snd l) @ newline"

definition config_ok :: "string \<times> string list \<Rightarrow> bool" where
  "config_ok l \<longleftrightarrow> cstring (fst l) \<and> CHR ''='' \<notin> set (fst l) \<and> CHR 0x0A \<notin> set (fst l) \<and>
     (\<forall>v\<in>set (snd l). clean_value v) \<and> length (config_text l) < MAXSTRLEN"

definition config_assign :: "opt_state \<Rightarrow> string \<times> string list \<Rightarrow> opt_state" where
  "config_assign st l = (case read_config_line 0 (config_text l) st of Inl e \<Rightarrow> st | Inr (ok, st') \<Rightarrow> st')"

definition opt_values_lookup :: "opt_state \<Rightarrow> string \<Rightarrow> string list option" where
  "opt_values_lookup st n = map_option snd (opt_lookup st n)"

lemma isspace_newline [simp]: "isspace CHR 0x0A" "\<not> isspace CHR '',''"
  by (simp_all add: isspace_def)

lemma read_values_item:
  assumes "clean_value v" and "s = CHR 0x0A # r \<or> s = CHR '','' # r"
  shows "read_values [] vs (v @ s) = read_values [] (vs @ [\<lparr>val_data = v, val_ignore = False\<rparr>]) r"
proof -
  let ?P = "\<lambda>x. x \<noteq> VALUE_SEPARATOR \<and> \<not> isspace x"
  obtain c u where cu: "v = c # u"
    using assms(1) by (cases v) (auto simp: clean_value_def)
  have all: "\<And>x. x \<in> set v \<Longrightarrow> ?P x"
    using assms(1) by (auto simp: clean_value_def VALUE_SEPARATOR_def)
  have tw: "takeWhile ?P (v @ s) = v" "dropWhile ?P (v @ s) = s"
    using all assms(2) by (auto simp: VALUE_SEPARATOR_def takeWhile_append2 dropWhile_append2)
  have hd: "\<not> isspace c" "c \<noteq> COMMENT_CHAR" "c \<noteq> CHR 0x27" "c \<noteq> CHR 0x22"
    using assms(1) cu by (auto simp: clean_value_def COMMENT_CHAR_def)
  show ?thesis
    using tw hd assms(2) unfolding cu by (auto simp: Let_def simp del: takeWhile.simps dropWhile.simps)
qed

lemma read_values_join:
  "\<forall>v\<in>set xs. clean_value v \<Longrightarrow>
   read_values [] vs (join_sep CHR '','' xs @ newline) =
     (True, vs @ map (\<lambda>v. \<lparr>val_data = v, val_ignore = False\<rparr>) xs, [])"
proof (induction "CHR '',''" xs arbitrary: vs rule: join_sep.induct)
  case (2 x)
  then show ?case using read_values_item [of x newline "[]" vs] by simp
next
  case (3 x y zs)
  then show ?case
    using read_values_item [of x "CHR '','' # join_sep CHR '','' (y # zs) @ newline" _ vs] by simp
qed simp

lemma fgets_line:
  "CHR 0x0A \<notin> set s \<Longrightarrow> length s < k \<Longrightarrow> fgets k (s @ CHR 0x0A # r) = (s @ [CHR 0x0A], r)"
proof (induction s arbitrary: k)
  case Nil
  then show ?case by (cases k) auto
next
  case (Cons c s)
  then show ?case by (cases k) auto
qed

lemma join_sep_no_newline:
  "\<forall>v\<in>set xs. clean_value v \<Longrightarrow> CHR 0x0A \<notin> set (join_sep CHR '','' xs)"
proof (induction "CHR '',''" xs rule: join_sep.induct)
  case (2 x)
  then have "\<forall>c\<in>set x. \<not> isspace c" by (simp add: clean_value_def)
  then show ?case using isspace_newline(1) by auto
next
  case (3 x y zs)
  then have "\<forall>c\<in>set x. \<not> isspace c" by (simp add: clean_value_def)
  then show ?case using 3 isspace_newline(1) by auto
qed simp

lemma read_config_line_effect:
  assumes "opt_inv st" and "config_ok (n, vs)"
  shows "\<exists>st'. (\<forall>k. read_config_line k (config_text (n, vs)) st = Inr (True, st')) \<and> opt_inv st' \<and>
           (\<forall>n'. cstring n' \<longrightarrow> opt_values_lookup st' n' =
              (if convert_dashes n' = convert_dashes n then Some vs else opt_values_lookup st n'))"
proof -
  have wf: "opts_wf (os_options st)" and mem: "os_mem st = []" and n: "cstring n"
    using assms by (auto simp: opt_inv_def config_ok_def)
  have chr: "strchr (config_text (n, vs)) VALUE_DELIMITER = Some (n, join_sep CHR '','' vs @ newline)"
    using assms(2) by (simp add: strchr_Some config_text_def config_ok_def VALUE_DELIMITER_def)
  obtain i base where add: "add_option [] (Some (os_options st)) (Some n) = Inr (Some i, Some base, [])"
    using add_option_succeeds by blast
  have base: "opts_wf base" "i < length base" "opt_name (base ! i) = convert_dashes n"
    using add_option_wf [OF add wf n] by auto
  have shape: "base = os_options st \<or>
      (i = length (os_options st) \<and> butlast base = os_options st \<and> base \<noteq> [])"
    using add by (cases "option_index (os_options st) n") (auto simp: add_option_def new_option_def)
  let ?opt = "(base ! i)\<lparr>opt_values := map (\<lambda>v. \<lparr>val_data = v, val_ignore = False\<rparr>) vs\<rparr>"
  let ?st = "st\<lparr>os_options := base[i := ?opt], os_mem := []\<rparr>"
  have step: "\<forall>k. read_config_line k (config_text (n, vs)) st = Inr (True, ?st)"
    using chr mem add read_values_join [of vs "[]"] assms(2)
    by (simp add: read_config_line_def free_values_def Let_def config_ok_def)
  have inv: "opt_inv ?st"
    using base opts_wf_update [OF base(1,2)] by (simp add: opt_inv_def)
  have "opt_values_lookup ?st n' = (if convert_dashes n' = convert_dashes n then Some vs else opt_values_lookup st n')"
    if "cstring n'" for n'
    using find_option_update [OF base shape _ that, of ?opt]
    by (simp add: opt_values_lookup_def opt_lookup_def option_view_def comp_def)
  then show ?thesis using step inv by blast
qed

lemma config_assign_effect:
  assumes "opt_inv st" and "config_ok (n, vs)"
  shows "opt_inv (config_assign st (n, vs))"
    and "cstring n' \<Longrightarrow> opt_values_lookup (config_assign st (n, vs)) n' =
           (if convert_dashes n' = convert_dashes n then Some vs else opt_values_lookup st n')"
  using read_config_line_effect [OF assms] by (auto simp: config_assign_def)

interpretation config: option_store opt_values_lookup config_assign "\<lambda>vs. vs"
  convert_dashes opt_inv config_ok cstring
  by unfold_locales (auto simp: config_assign_effect)

lemma read_config_foldl:
  "opt_inv st \<Longrightarrow> list_all config_ok ls \<Longrightarrow>
   read_config k (concat (map config_text ls)) st = Inr (True, foldl config_assign st ls)"
proof (induction ls arbitrary: st k)
  case (Cons l ls)
  obtain n vs where l: "l = (n, vs)" by (cases l)
  have ok: "config_ok (n, vs)"
    using Cons.prems l by simp
  have line: "read_config_line j (config_text l) st = Inr (True, config_assign st l)" for j
    using read_config_line_effect [OF Cons.prems(1) ok] l
    by (auto simp: config_assign_def)
  have "fgets (MAXSTRLEN - 1) (concat (map config_text (l # ls))) = (config_text l, concat (map config_text ls))"
    using ok l fgets_line [of "n @ CHR ''='' # join_sep CHR '','' vs" "MAXSTRLEN - 1"] join_sep_no_newline [of vs]
    by (simp add: config_text_def config_ok_def MAXSTRLEN_def)
  moreover have "config_text l \<noteq> []"
    by (simp add: config_text_def)
  ultimately have "read_config k (concat (map config_text (l # ls))) st =
      read_config (k + 1) (concat (map config_text ls)) (config_assign st l)"
    using line by (subst read_config.simps) simp
  then show ?case
    using Cons.IH [of "config_assign st l" "k + 1"] Cons.prems l config_assign_effect(1) [OF Cons.prems(1) ok] by simp
qed (simp add: read_config.simps)

text \<open>
  Reading a configuration file of lines \<^verbatim>\<open>name=v1,v2,...\<close> (values without blanks, commas or
  quotes; lines shorter than the buffer of \<^verbatim>\<open>read_config\<close>) sets exactly the options named in it: every name finds
  the values of its last line, in order, and the names that do not occur keep their values.
\<close>

lemma read_config_assigns:
  assumes "opt_inv st" and "list_all config_ok ls" and "cstring n"
  shows "\<exists>st'. read_config 0 (concat (map config_text ls)) st = Inr (True, st') \<and> opt_inv st' \<and>
           opt_values_lookup st' n =
             (case find (\<lambda>(m, _). convert_dashes m = convert_dashes n) (rev ls) of
                Some (_, vs) \<Rightarrow> Some vs
              | None \<Rightarrow> opt_values_lookup st n)"
  using read_config_foldl [OF assms(1,2), of 0] config.lookup_assign_all [OF assms] config.wf_assign_all [OF assms(1,2)]
  by blast

lemma read_config_assigns_witness:
  "\<exists>st'. read_config 0 (concat (map config_text [(''mysql-host'', [''a'', ''b'']), (''test'', [''cpu'']), (''mysql_host'', [''c'', ''d''])])) empty_opts
            = Inr (True, st') \<and> opt_values_lookup st' ''mysql-host'' = Some [''c'', ''d'']"
  using read_config_assigns [of empty_opts "[(''mysql-host'', [''a'', ''b'']), (''test'', [''cpu'']), (''mysql_host'', [''c'', ''d''])]" "''mysql-host''"]
  by (auto simp: config_ok_def clean_value_def cstring_def isspace_def config_text_def MAXSTRLEN_def)

text \<open>
  What \<^verbatim>\<open>write_config\<close> writes is not what \<^verbatim>\<open>read_config\<close> reads: the writer puts a space before
  the delimiter, which the reader keeps as part of the name. An option written and read back
  in a fresh list is not found under its name.
\<close>

lemma write_config_not_read_back:
  "\<exists>opts out opts' st'. opts_wf opts \<and> find_option (Some opts) (Some ''a'') \<noteq> None \<and>
     write_config True (Some opts) = (0, out, Some opts') \<and>
     read_config 0 out empty_opts = Inr (True, st') \<and>
     sb_find_option st' ''a'' = None \<and> sb_find_option st' ''a '' \<noteq> None"
proof -
  let ?opts = "[\<lparr>opt_name = ''a'', opt_type = SB_ARG_TYPE_INT, opt_values = [\<lparr>val_data = ''1'', val_ignore = False\<rparr>],
                 opt_ignore = False\<rparr>]"
  let ?run = "read_config 0 ''a = 1\<newline>'' empty_opts"
  have w: "write_config True (Some ?opts) = (0, ''a = 1\<newline>'', Some (map (\<lambda>opt. opt\<lparr>opt_ignore := True\<rparr>) ?opts))"
    by (simp add: write_config_def VALUE_DELIMITER_def)
  have "map_sum id (\<lambda>(ok, st). (ok, sb_find_option st ''a'' = None, sb_find_option st ''a '' = None)) ?run = Inr (True, True, False)"
    by code_simp
  then obtain st' where "?run = Inr (True, st')" "sb_find_option st' ''a'' = None" "sb_find_option st' ''a '' \<noteq> None"
    by (cases ?run) auto
  moreover have "opts_wf ?opts" "find_option (Some ?opts) (Some ''a'') \<noteq> None"
    by (auto simp: opts_wf_def cstring_def find_option_def)
  ultimately show ?thesis using w by blast
qed


end
