(* ===== verification/LogReq.thy ===== *)
theory LogReq
  imports CLib
begin

text \<open>
  What the components hand to the logger (\<^verbatim>\<open>sb_logger.h\<close>): the priorities of text messages, and
  a request, a priority with the text the format arguments expand to. A function that
  logs returns its requests in order; \<open>SbLogger\<close> says what happens to each of them.
\<close>

datatype log_msg_priority_t =
    LOG_FATAL
  | LOG_ALERT
  | LOG_WARNING
  | LOG_NOTICE
  | LOG_INFO
  | LOG_DEBUG

type_synonym log_req = "log_msg_priority_t \<times> string"

text \<open>The numeric value of the enumeration constant, which the verbosity is compared with.\<close>

definition priority_num :: "log_msg_priority_t \<Rightarrow> int" where
  "priority_num p =
     (case p of LOG_FATAL \<Rightarrow> 0 | LOG_ALERT \<Rightarrow> 1 | LOG_WARNING \<Rightarrow> 2 | LOG_NOTICE \<Rightarrow> 3 | LOG_INFO \<Rightarrow> 4 | LOG_DEBUG \<Rightarrow> 5)"

end
