(* ===== verification/SbTimer.thy ===== *)
theory SbTimer
  imports LogReq "HOL-Library.Signed_Division"
begin

text \<open>
  Timers, \<^verbatim>\<open>sb_timer.c\<close> and \<^verbatim>\<open>sb_timer.h\<close>. The counters are 64-bit words, so that they wrap as
  \<^verbatim>\<open>unsigned long long\<close> does; the fields of a \<^verbatim>\<open>timespec\<close> are integers. The time a call
  of \<^verbatim>\<open>SB_GETTIME\<close> returns is the argument \<open>now\<close>. A timer in use records the durations of its
  events: \<open>timer_stats\<close> relates it to the list of these durations, and the operations
  are shown to implement the corresponding operations on the list.
\<close>

section \<open>The timer\<close>

record timespec =
  tv_sec :: int
  tv_nsec :: int

datatype timer_state_t = TIMER_UNINITIALIZED | TIMER_INITIALIZED | TIMER_STOPPED | TIMER_RUNNING

record sb_timer_t =
  time_start :: timespec
  time_end :: timespec
  time_split :: timespec
  elapsed :: u64
  min_time :: u64
  max_time :: u64
  sum_time :: u64
  events :: u64
  queue_time :: u64
  state :: timer_state_t

definition SEC2NS :: "int \<Rightarrow> u64" where
  "SEC2NS sec = word_of_int sec * 1000000000"

definition MS2NS :: "int \<Rightarrow> u64" where
  "MS2NS sec = word_of_int sec * 1000000"

definition NS2SEC :: "fpenv \<Rightarrow> u64 \<Rightarrow> real" where
  "NS2SEC fp nsec = fdiv fp (fp_round fp (real (unat nsec))) 1000000000"

definition NS2MS :: "fpenv \<Rightarrow> u64 \<Rightarrow> real" where
  "NS2MS fp nsec = fdiv fp (fp_round fp (real (unat nsec))) 1000000"

definition TIMESPEC_DIFF :: "timespec \<Rightarrow> timespec \<Rightarrow> u64" where
  "TIMESPEC_DIFF a b = SEC2NS (tv_sec a - tv_sec b) + word_of_int (tv_nsec a - tv_nsec b)"

definition timespec_zero :: timespec where
  "timespec_zero = \<lparr>tv_sec = 0, tv_nsec = 0\<rparr>"

definition sb_timer_update :: "timespec \<Rightarrow> sb_timer_t \<Rightarrow> sb_timer_t" where
  "sb_timer_update now t =
     (let t = t\<lparr>time_end := now\<rparr>
      in t\<lparr>elapsed := TIMESPEC_DIFF (time_end t) (time_start t) + queue_time t\<rparr>)"

definition sb_timer_reset :: "sb_timer_t \<Rightarrow> sb_timer_t" where
  "sb_timer_reset t = t\<lparr>min_time := 0xffffffffffffffff, max_time := 0, sum_time := 0, events := 0,
                         elapsed := 0, queue_time := 0\<rparr>"

definition sb_timer_init :: "sb_timer_t \<Rightarrow> sb_timer_t" where
  "sb_timer_init t =
     (let t = t\<lparr>time_start := timespec_zero, time_end := timespec_zero, time_split := timespec_zero\<rparr>;
          t = sb_timer_reset t
      in t\<lparr>state := TIMER_INITIALIZED\<rparr>)"

definition sb_timer_initialized :: "sb_timer_t \<Rightarrow> bool" where
  "sb_timer_initialized t \<longleftrightarrow> state t \<noteq> TIMER_UNINITIALIZED"

definition sb_timer_running :: "sb_timer_t \<Rightarrow> bool" where
  "sb_timer_running t \<longleftrightarrow> state t = TIMER_RUNNING"

definition sb_timer_start :: "timespec \<Rightarrow> sb_timer_t \<Rightarrow> (sb_timer_t \<times> log_req list) res" where
  "sb_timer_start now t =
     (let go = (\<lambda>msgs. Inr (t\<lparr>time_start := now, time_split := now, state := TIMER_RUNNING\<rparr>, msgs))
      in case state t of
           TIMER_INITIALIZED \<Rightarrow> go []
         | TIMER_STOPPED \<Rightarrow> go []
         | TIMER_RUNNING \<Rightarrow> go [(LOG_WARNING, ''timer was already started'')]
         | TIMER_UNINITIALIZED \<Rightarrow> Inl Abort_call)"

definition sb_timer_stop :: "timespec \<Rightarrow> sb_timer_t \<Rightarrow> (sb_timer_t \<times> log_req list) res" where
  "sb_timer_stop now t =
     (let go = (\<lambda>msgs.
          let t = sb_timer_update now t;
              t = t\<lparr>events := events t + 1\<rparr>;
              t = t\<lparr>sum_time := sum_time t + elapsed t\<rparr>;
              t = (if elapsed t < min_time t then t\<lparr>min_time := elapsed t\<rparr> else t);
              t = (if elapsed t > max_time t then t\<lparr>max_time := elapsed t\<rparr> else t)
          in Inr (t\<lparr>state := TIMER_STOPPED\<rparr>, msgs))
      in case state t of
           TIMER_INITIALIZED \<Rightarrow> go [(LOG_WARNING, ''timer was never started'')]
         | TIMER_STOPPED \<Rightarrow> go [(LOG_WARNING, ''timer was already stopped'')]
         | TIMER_RUNNING \<Rightarrow> go []
         | TIMER_UNINITIALIZED \<Rightarrow> Inl Abort_call)"

definition sb_timer_value :: "timespec \<Rightarrow> sb_timer_t \<Rightarrow> (u64 \<times> sb_timer_t \<times> log_req list) res" where
  "sb_timer_value now t =
     (case state t of
        TIMER_INITIALIZED \<Rightarrow> Inr (0, t, [(LOG_WARNING, ''timer was never started'')])
      | TIMER_STOPPED \<Rightarrow> Inr (elapsed t, t, [])
      | TIMER_RUNNING \<Rightarrow> (let t = sb_timer_update now t in Inr (elapsed t, t, []))
      | TIMER_UNINITIALIZED \<Rightarrow> Inl Abort_call)"

definition sb_timer_split :: "timespec \<Rightarrow> sb_timer_t \<Rightarrow> (u64 \<times> sb_timer_t \<times> log_req list) res" where
  "sb_timer_split now t =
     (case state t of
        TIMER_INITIALIZED \<Rightarrow> Inr (0, t, [(LOG_WARNING, ''timer was never started'')])
      | TIMER_STOPPED \<Rightarrow>
          (let res = TIMESPEC_DIFF (time_end t) (time_split t);
               t = t\<lparr>time_split := time_end t\<rparr>
           in if res \<noteq> 0 then Inr (res, t, [])
              else Inr (0, t, [(LOG_WARNING, ''timer was already stopped'')]))
      | TIMER_RUNNING \<Rightarrow>
          (let t = t\<lparr>elapsed := TIMESPEC_DIFF now (time_start t)\<rparr>;
               res = TIMESPEC_DIFF now (time_split t)
           in Inr (res, t\<lparr>time_split := now\<rparr>, []))
      | TIMER_UNINITIALIZED \<Rightarrow> Inl Abort_call)"

definition get_avg_time :: "sb_timer_t \<Rightarrow> u64" where
  "get_avg_time t = (if events t = 0 then 0 else sum_time t div events t)"

definition get_sum_time :: "sb_timer_t \<Rightarrow> u64" where
  "get_sum_time t = sum_time t"

definition get_min_time :: "sb_timer_t \<Rightarrow> u64" where
  "get_min_time t = min_time t"

definition get_max_time :: "sb_timer_t \<Rightarrow> u64" where
  "get_max_time t = max_time t"

definition timer_zero :: sb_timer_t where
  "timer_zero = \<lparr>time_start = timespec_zero, time_end = timespec_zero, time_split = timespec_zero,
     elapsed = 0, min_time = 0, max_time = 0, sum_time = 0, events = 0, queue_time = 0,
     state = TIMER_UNINITIALIZED\<rparr>"

definition merge_timers :: "sb_timer_t \<Rightarrow> sb_timer_t \<Rightarrow> sb_timer_t" where
  "merge_timers t1 t2 =
     timer_zero
       \<lparr>elapsed := elapsed t1 + elapsed t2,
        sum_time := sum_time t1 + sum_time t2,
        events := events t1 + events t2,
        max_time := (if max_time t1 > max_time t2 then max_time t1 else max_time t2),
        min_time := (if min_time t1 < min_time t2 then min_time t1 else min_time t2)\<rparr>"

text \<open>\<^verbatim>\<open>/\<close> and \<^verbatim>\<open>%\<close> of \<^verbatim>\<open>long long\<close> truncate towards zero.\<close>

definition add_ns_to_timespec :: "timespec \<Rightarrow> int \<Rightarrow> timespec" where
  "add_ns_to_timespec dest delta =
     (let x = tv_nsec dest + delta in
      if x > 1000000000 then
        dest\<lparr>tv_sec := tv_sec dest + x sdiv 1000000000, tv_nsec := x smod 1000000000\<rparr>
      else if x < 0 then
        dest\<lparr>tv_sec := tv_sec dest - 1 + x sdiv 1000000000, tv_nsec := x smod 1000000000 + 1000000000\<rparr>
      else dest\<lparr>tv_nsec := x\<rparr>)"

section \<open>Time differences\<close>

text \<open>The instant a \<^verbatim>\<open>timespec\<close> stands for, in nanoseconds.\<close>

definition ns :: "timespec \<Rightarrow> int" where
  "ns ts = tv_sec ts * 1000000000 + tv_nsec ts"

lemma TIMESPEC_DIFF_ns: "TIMESPEC_DIFF a b = word_of_int (ns a - ns b)"
  by (simp add: TIMESPEC_DIFF_def SEC2NS_def ns_def algebra_simps)

lemma TIMESPEC_DIFF_add: "TIMESPEC_DIFF c b + TIMESPEC_DIFF b a = TIMESPEC_DIFF c a"
  by (simp add: TIMESPEC_DIFF_ns)

section \<open>A timer as the list of the durations it measured\<close>

definition timer_stats :: "sb_timer_t \<Rightarrow> u64 list \<Rightarrow> bool" where
  "timer_stats t ds \<longleftrightarrow>
     events t = of_nat (length ds) \<and> sum_time t = sum_list ds \<and>
     min_time t = fold min ds (- 1) \<and> max_time t = fold max ds 0"

lemma fold_min_start: "fold min ds (m :: u64) = min m (fold min ds (- 1))"
proof (induction ds arbitrary: m)
  case Nil
  then show ?case by (simp add: min_def)
next
  case (Cons d ds)
  have "fold min (d # ds) m = min (min d m) (fold min ds (- 1))"
    using Cons.IH [of "min d m"] by simp
  also have "\<dots> = min m (fold min (d # ds) (- 1))"
    using Cons.IH [of "min d (- 1)"] by (simp add: min.assoc min.commute min.left_commute)
  finally show ?case .
qed

lemma fold_max_start: "fold max ds (m :: u64) = max m (fold max ds 0)"
proof (induction ds arbitrary: m)
  case (Cons d ds)
  have "fold max (d # ds) m = max (max d m) (fold max ds 0)"
    using Cons.IH [of "max d m"] by simp
  also have "\<dots> = max m (fold max (d # ds) 0)"
    using Cons.IH [of "max d 0"] by (simp add: max.assoc max.commute max.left_commute)
  finally show ?case .
qed simp

lemma timer_stats_init [wf_intros]: "timer_stats (sb_timer_init t) []"
  by (simp add: timer_stats_def sb_timer_init_def sb_timer_reset_def Let_def)

lemma timer_stats_reset [wf_intros]: "timer_stats (sb_timer_reset t) []"
  by (simp add: timer_stats_def sb_timer_reset_def)

lemma timer_stats_start: "sb_timer_start now t = Inr (t', msgs) \<Longrightarrow> timer_stats t' ds \<longleftrightarrow> timer_stats t ds"
  by (auto simp: timer_stats_def sb_timer_start_def Let_def split: timer_state_t.splits)

lemma sb_timer_stop_fields:
  assumes "sb_timer_stop now t = Inr (t', msgs)"
  shows "elapsed t' = TIMESPEC_DIFF now (time_start t) + queue_time t" and "state t' = TIMER_STOPPED"
    and "queue_time t' = queue_time t"
    and "events t' = events t + 1" and "sum_time t' = sum_time t + elapsed t'"
    and "min_time t' = min (elapsed t') (min_time t)" and "max_time t' = max (elapsed t') (max_time t)"
  using assms
  by (auto simp: sb_timer_stop_def sb_timer_update_def Let_def min_def max_def split: timer_state_t.splits if_splits)

lemma timer_stats_stop:
  assumes "timer_stats t ds" and "sb_timer_stop now t = Inr (t', msgs)"
  shows "timer_stats t' (ds @ [TIMESPEC_DIFF now (time_start t) + queue_time t])"
  using assms(1) sb_timer_stop_fields [OF assms(2)] by (simp add: timer_stats_def)

lemma timer_stats_merge:
  assumes "timer_stats t1 ds1" and "timer_stats t2 ds2"
  shows "timer_stats (merge_timers t1 t2) (ds1 @ ds2)"
proof -
  have "fold min (ds1 @ ds2) (- 1) = min (min_time t1) (min_time t2)"
    using assms fold_min_start [of ds2 "fold min ds1 (- 1)"] by (simp add: timer_stats_def)
  moreover have "fold max (ds1 @ ds2) 0 = max (max_time t1) (max_time t2)"
    using assms fold_max_start [of ds2 "fold max ds1 0"] by (simp add: timer_stats_def)
  ultimately show ?thesis
    using assms by (auto simp: timer_stats_def merge_timers_def min_def max_def)
qed

section \<open>Merging\<close>

text \<open>
  Statistics that are collected per thread and merged for a report: the interface
  between the timers and their users. Whatever the number of threads, the merge of all
  collectors represents all their observations.
\<close>

locale mergeable =
  fixes rep :: "'t \<Rightarrow> 'e list \<Rightarrow> bool"
    and merge :: "'t \<Rightarrow> 't \<Rightarrow> 't"
    and start :: 't
  assumes rep_start: "rep start []"
    and rep_merge: "rep t xs \<Longrightarrow> rep u ys \<Longrightarrow> rep (merge t u) (xs @ ys)"
begin

lemma rep_merge_from:
  "rep t xs \<Longrightarrow> list_all2 rep ts xss \<Longrightarrow> rep (foldl merge t ts) (xs @ concat xss)"
proof (induction ts arbitrary: t xs xss)
  case (Cons u ts)
  then obtain ys yss where "xss = ys # yss" "rep u ys" "list_all2 rep ts yss"
    by (auto simp: list_all2_Cons1)
  then show ?case
    using Cons.IH [of "merge t u" "xs @ ys" yss] Cons.prems(1) rep_merge by simp
qed simp

lemma rep_merge_all: "list_all2 rep ts xss \<Longrightarrow> rep (foldl merge start ts) (concat xss)"
  using rep_merge_from [OF rep_start] by simp

end

interpretation timers: mergeable timer_stats merge_timers "sb_timer_init t0"
  by unfold_locales (auto intro: timer_stats_init timer_stats_merge)

section \<open>Properties\<close>

text \<open>One event: the timer is started at one instant and stopped at another.\<close>

definition timer_event :: "sb_timer_t \<Rightarrow> timespec \<times> timespec \<Rightarrow> (sb_timer_t \<times> log_req list) res" where
  "timer_event t se =
     rbind (sb_timer_start (fst se) t)
       (\<lambda>(t, w1). rbind (sb_timer_stop (snd se) t) (\<lambda>(t, w2). Inr (t, w1 @ w2)))"

fun timer_events :: "sb_timer_t \<Rightarrow> (timespec \<times> timespec) list \<Rightarrow> (sb_timer_t \<times> log_req list) res" where
  "timer_events t [] = Inr (t, [])"
| "timer_events t (se # ses) =
     rbind (timer_event t se) (\<lambda>(t, w1). rbind (timer_events t ses) (\<lambda>(t, w2). Inr (t, w1 @ w2)))"

lemma timer_event_stats:
  assumes "timer_stats t ds" and "state t = TIMER_INITIALIZED \<or> state t = TIMER_STOPPED" and "queue_time t = 0"
  shows "\<exists>t'. timer_event t (s, e) = Inr (t', []) \<and> timer_stats t' (ds @ [word_of_int (ns e - ns s)]) \<and>
           state t' = TIMER_STOPPED \<and> queue_time t' = 0"
proof -
  let ?t1 = "t\<lparr>time_start := s, time_split := s, state := TIMER_RUNNING\<rparr>"
  have start: "sb_timer_start s t = Inr (?t1, [])"
    using assms(2) by (auto simp: sb_timer_start_def)
  obtain t' where stop: "sb_timer_stop e ?t1 = Inr (t', [])"
    by (simp add: sb_timer_stop_def Let_def)
  show ?thesis
    using start stop timer_stats_stop [OF _ stop] timer_stats_start [OF start] assms(1,3) sb_timer_stop_fields [OF stop]
    by (simp add: timer_event_def TIMESPEC_DIFF_ns)
qed

lemma timer_events_stats:
  assumes "timer_stats t ds" and "state t = TIMER_INITIALIZED \<or> state t = TIMER_STOPPED" and "queue_time t = 0"
  shows "\<exists>t'. timer_events t ses = Inr (t', []) \<and>
           timer_stats t' (ds @ map (\<lambda>(s, e). word_of_int (ns e - ns s)) ses)"
  using assms
proof (induction ses arbitrary: t ds)
  case (Cons se ses)
  obtain s e where se: "se = (s, e)" by (cases se)
  obtain t1 where t1: "timer_event t (s, e) = Inr (t1, [])"
      "timer_stats t1 (ds @ [word_of_int (ns e - ns s)])" "state t1 = TIMER_STOPPED" "queue_time t1 = 0"
    using timer_event_stats [OF Cons.prems] by blast
  then show ?case
    using Cons.IH [OF t1(2)] se by auto
qed auto

lemma unat_sum_list:
  "sum_list (map unat ds) < 2 ^ 64 \<Longrightarrow> unat (sum_list (ds :: u64 list)) = sum_list (map unat ds)"
  by (induction ds) (simp_all add: unat_plus_no_wrap)

lemma fold_min_bound: "d \<in> set ds \<Longrightarrow> fold min ds (- 1) \<le> (d :: u64)"
proof (induction ds)
  case (Cons x ds)
  then show ?case
    using fold_min_start [of ds x] by (auto simp: min_le_iff_disj)
qed simp

lemma fold_max_bound: "d \<in> set ds \<Longrightarrow> d \<le> fold max ds (0 :: u64)"
proof (induction ds)
  case (Cons x ds)
  then show ?case
    using fold_max_start [of ds x] by (auto simp: le_max_iff_disj)
qed simp

text \<open>Both bounds are reached.\<close>

lemma fold_min_mem: "ds \<noteq> [] \<Longrightarrow> fold min ds (- 1) \<in> set (ds :: u64 list)"
proof (induction ds)
  case (Cons x ds)
  have "fold min ds x = x \<or> fold min ds x = fold min ds (- 1)"
    using fold_min_start [of ds x] by (metis min_def)
  then show ?case
    using Cons by (cases "ds = []") auto
qed simp

lemma fold_max_mem: "ds \<noteq> [] \<Longrightarrow> fold max ds 0 \<in> set (ds :: u64 list)"
proof (induction ds)
  case (Cons x ds)
  have "fold max ds x = x \<or> fold max ds x = fold max ds 0"
    using fold_max_start [of ds x] by (metis max_def)
  then show ?case
    using Cons by (cases "ds = []") auto
qed simp

lemma sum_list_bounds:
  assumes "\<forall>d\<in>set ds. (l::nat) \<le> f d \<and> f d \<le> u"
  shows "length ds * l \<le> sum_list (map f ds)" and "sum_list (map f ds) \<le> length ds * u"
  using assms by (induction ds) auto

text \<open>
  (C11) A fresh timer that measures a sequence of events reports exact statistics: when the
  number of events and the sum of the durations fit into 64 bits, the number of events, the total, the average
  (the integer part of the mean), the minimum and the maximum are those of the durations, no warning is
  logged, and minimum, average and maximum are in order.
\<close>

theorem timer_statistics_exact:
  assumes "ses \<noteq> []" and "\<forall>(s, e)\<in>set ses. ns s \<le> ns e"
    and "sum_list (map (\<lambda>(s, e). nat (ns e - ns s)) ses) < 2 ^ 64" and "length ses < 2 ^ 64"
  shows "\<exists>t. timer_events (sb_timer_init t0) ses = Inr (t, []) \<and>
           unat (events t) = length ses \<and>
           unat (get_sum_time t) = sum_list (map (\<lambda>(s, e). nat (ns e - ns s)) ses) \<and>
           unat (get_avg_time t) = sum_list (map (\<lambda>(s, e). nat (ns e - ns s)) ses) div length ses \<and>
           unat (get_min_time t) = Min ((\<lambda>(s, e). nat (ns e - ns s)) ` set ses) \<and>
           unat (get_max_time t) = Max ((\<lambda>(s, e). nat (ns e - ns s)) ` set ses) \<and>
           get_min_time t \<le> get_avg_time t \<and> get_avg_time t \<le> get_max_time t"
proof -
  define f :: "timespec \<times> timespec \<Rightarrow> u64" where "f = (\<lambda>(s, e). word_of_int (ns e - ns s))"
  define g where "g = (\<lambda>(s, e). nat (ns e - ns s))"
  have g_le: "g x \<le> sum_list (map g ses)" if "x \<in> set ses" for x
    using that by (simp add: member_le_sum_list)
  have fg: "unat (f x) = g x" if "x \<in> set ses" for x
  proof -
    have "f x = of_nat (g x)"
      using that assms(2) by (auto simp: f_def g_def)
    then show ?thesis
      using g_le [OF that] assms(3) by (simp add: g_def [symmetric] unat_of_nat take_bit_nat_eq_self)
  qed
  then have map_fg: "map unat (map f ses) = map g ses" by simp
  obtain t where t: "timer_events (sb_timer_init t0) ses = Inr (t, [])" "timer_stats t (map f ses)"
    using timer_events_stats [OF timer_stats_init [of t0], of ses]
    by (auto simp: sb_timer_init_def sb_timer_reset_def Let_def f_def)
  have ev: "unat (events t) = length ses"
    using t(2) assms(4) by (simp add: timer_stats_def unat_of_nat take_bit_nat_eq_self)
  have sum: "unat (sum_time t) = sum_list (map g ses)"
    using t(2) unat_sum_list [of "map f ses", unfolded map_fg] assms(3) by (simp add: timer_stats_def g_def [symmetric])
  have avg: "unat (get_avg_time t) = sum_list (map g ses) div length ses"
    using ev sum assms(1) by (auto simp: get_avg_time_def unat_div)
  have mm: "unat (get_min_time t) \<le> g x \<and> g x \<le> unat (get_max_time t)" if "x \<in> set ses" for x
    using t(2) that fold_min_bound [of "f x" "map f ses"] fold_max_bound [of "f x" "map f ses"] fg [OF that]
    by (auto simp: timer_stats_def get_min_time_def get_max_time_def word_le_nat_alt)
  have "get_min_time t \<in> set (map f ses)" "get_max_time t \<in> set (map f ses)"
    using t(2) fold_min_mem [of "map f ses"] fold_max_mem [of "map f ses"] assms(1)
    by (simp_all add: timer_stats_def get_min_time_def get_max_time_def)
  then have "unat (get_min_time t) \<in> g ` set ses" "unat (get_max_time t) \<in> g ` set ses"
    using fg by auto
  then have ends: "unat (get_min_time t) = Min (g ` set ses)" "unat (get_max_time t) = Max (g ` set ses)"
    using mm by (auto intro!: Min_eqI [symmetric] Max_eqI [symmetric])
  note bounds = sum_list_bounds [of ses "unat (get_min_time t)" g "unat (get_max_time t)"]
  have "unat (get_min_time t) \<le> unat (get_avg_time t)"
    using bounds(1) mm assms(1) unfolding avg by (simp add: less_eq_div_iff_mult_less_eq mult.commute)
  moreover have "sum_list (map g ses) div length ses \<le> (length ses * unat (get_max_time t)) div length ses"
    using bounds(2) mm by (intro div_le_mono) auto
  then have "unat (get_avg_time t) \<le> unat (get_max_time t)"
    using assms(1) unfolding avg by simp
  ultimately show ?thesis
    using t(1) ev sum avg ends by (auto simp: g_def [symmetric] get_sum_time_def word_le_nat_alt)
qed

definition instant :: "int \<Rightarrow> int \<Rightarrow> timespec" where
  "instant s n = \<lparr>tv_sec = s, tv_nsec = n\<rparr>"

lemma timer_statistics_exact_witness:
  "\<exists>t. timer_events (sb_timer_init timer_zero) [(instant 1 999999999, instant 2 4), (instant 3 0, instant 3 10)] = Inr (t, []) \<and>
     unat (events t) = 2 \<and> unat (get_sum_time t) = 15 \<and> unat (get_avg_time t) = 7 \<and> unat (get_min_time t) = 5 \<and> unat (get_max_time t) = 10"
  using timer_statistics_exact [of "[(instant 1 999999999, instant 2 4), (instant 3 0, instant 3 10)]" timer_zero]
  by (auto simp: ns_def instant_def numeral_2_eq_2 [symmetric])

text \<open>
  Merging the timers of all threads, in the way the reports do, gives the statistics of
  all events of all threads together: the counts and sums add up (modulo \<open>2^64\<close>), the
  minimum and the maximum are taken over every event.
\<close>

lemma merge_timers_all_threads:
  assumes "list_all2 timer_stats ts dss"
  shows "events (foldl merge_timers (sb_timer_init t0) ts) = of_nat (length (concat dss)) \<and>
         get_sum_time (foldl merge_timers (sb_timer_init t0) ts) = sum_list (concat dss) \<and>
         get_min_time (foldl merge_timers (sb_timer_init t0) ts) = fold min (concat dss) (- 1) \<and>
         get_max_time (foldl merge_timers (sb_timer_init t0) ts) = fold max (concat dss) 0"
  using timers.rep_merge_all [OF assms, of t0]
  by (simp_all add: timer_stats_def get_sum_time_def get_min_time_def get_max_time_def)

lemma merge_timers_all_threads_witness:
  "events (foldl merge_timers (sb_timer_init timer_zero)
     [timer_zero\<lparr>events := 2, sum_time := 12, min_time := 5, max_time := 7\<rparr>, sb_timer_init timer_zero]) = 2"
  using merge_timers_all_threads [of
      "[timer_zero\<lparr>events := 2, sum_time := 12, min_time := 5, max_time := 7\<rparr>, sb_timer_init timer_zero]"
      "[[5, 7], []]" timer_zero] timer_stats_init [of timer_zero]
  by (simp add: timer_stats_def timer_zero_def min_def max_def)

text \<open>The successive results of \<^verbatim>\<open>sb_timer_split\<close> at the given instants.\<close>

fun timer_splits :: "sb_timer_t \<Rightarrow> timespec list \<Rightarrow> (u64 list \<times> sb_timer_t) res" where
  "timer_splits t [] = Inr ([], t)"
| "timer_splits t (n # ns') =
     rbind (sb_timer_split n t) (\<lambda>(r, t, _). rbind (timer_splits t ns') (\<lambda>(rs, t). Inr (r # rs, t)))"

lemma timer_splits_sum:
  "state t = TIMER_RUNNING \<Longrightarrow>
   \<exists>rs t'. timer_splits t nows = Inr (rs, t') \<and> length rs = length nows \<and>
     sum_list rs = TIMESPEC_DIFF (last (time_split t # nows)) (time_split t)"
proof (induction nows arbitrary: t)
  case Nil
  then show ?case by (simp add: TIMESPEC_DIFF_ns)
next
  case (Cons n ns')
  let ?t1 = "t\<lparr>elapsed := TIMESPEC_DIFF n (time_start t), time_split := n\<rparr>"
  have step: "sb_timer_split n t = Inr (TIMESPEC_DIFF n (time_split t), ?t1, [])"
    using Cons.prems by (simp add: sb_timer_split_def Let_def)
  obtain rs t' where rs: "timer_splits ?t1 ns' = Inr (rs, t')" "length rs = length ns'"
      "sum_list rs = TIMESPEC_DIFF (last (n # ns')) n"
    using Cons.IH [of ?t1] Cons.prems by auto
  have "TIMESPEC_DIFF n (time_split t) + sum_list rs = TIMESPEC_DIFF (last (n # ns')) (time_split t)"
    unfolding rs(3) using TIMESPEC_DIFF_add by (metis add.commute)
  then show ?case
    using step rs(1,2) by simp
qed

text \<open>
  No time is lost between intermediate reports: on a running timer the values returned
  by successive calls of \<^verbatim>\<open>sb_timer_split\<close> add up to the time from the start to the last call.
\<close>

lemma sb_timer_split_total:
  assumes "sb_timer_start s t = Inr (t1, w)" and "nows \<noteq> []" and "ns s \<le> ns (last nows)" and "ns (last nows) - ns s < 2 ^ 64"
  shows "\<exists>rs t'. timer_splits t1 nows = Inr (rs, t') \<and> length rs = length nows \<and>
           uint (sum_list rs) = ns (last nows) - ns s"
proof -
  have run: "state t1 = TIMER_RUNNING" "time_split t1 = s"
    using assms(1) by (auto simp: sb_timer_start_def Let_def split: timer_state_t.splits)
  have "uint (TIMESPEC_DIFF (last nows) s) = ns (last nows) - ns s"
    unfolding TIMESPEC_DIFF_ns using assms(3,4)
    by (simp add: uint_word_of_int_eq take_bit_int_eq_self del: of_int_diff)
  then show ?thesis
    using timer_splits_sum [OF run(1), of nows] run(2) assms(2) by auto
qed

lemma sb_timer_split_total_witness:
  "\<exists>t1 rs t'. sb_timer_start (instant 1 0) (sb_timer_init timer_zero) = Inr (t1, []) \<and>
     timer_splits t1 [instant 1 500, instant 2 100] = Inr (rs, t') \<and> uint (sum_list rs) = 1000000100"
proof -
  obtain t1 where t1: "sb_timer_start (instant 1 0) (sb_timer_init timer_zero) = Inr (t1, [])"
    by (simp add: sb_timer_start_def sb_timer_init_def sb_timer_reset_def Let_def)
  show ?thesis
    using sb_timer_split_total [OF t1, of "[instant 1 500, instant 2 100]"] t1 by (auto simp: ns_def instant_def)
qed

text \<open>
  \<^verbatim>\<open>add_ns_to_timespec\<close> moves an instant by exactly the given number of nanoseconds, in
  both directions, and the nanosecond field stays between 0 and \<open>10^9\<close>; the excluded value \<open>10^9\<close>
  itself is reached exactly when the sum of the fields is \<open>10^9\<close> or a negative multiple of it.
\<close>

lemma add_ns_to_timespec_exact:
  "ns (add_ns_to_timespec dest delta) = ns dest + delta \<and>
   0 \<le> tv_nsec (add_ns_to_timespec dest delta) \<and> tv_nsec (add_ns_to_timespec dest delta) \<le> 1000000000 \<and>
   (tv_nsec (add_ns_to_timespec dest delta) = 1000000000 \<longleftrightarrow>
      tv_nsec dest + delta = 1000000000 \<or>
      (tv_nsec dest + delta < 0 \<and> (tv_nsec dest + delta) mod 1000000000 = 0))"
proof -
  define x where "x = tv_nsec dest + delta"
  have pos: "x sdiv 1000000000 = x div 1000000000" "x smod 1000000000 = x mod 1000000000" if "x > 0"
    using that by (simp_all add: signed_divide_int_def signed_modulo_int_def minus_div_mult_eq_mod)
  define y where "y = - x"
  have neg: "x sdiv 1000000000 = - (y div 1000000000)" "x smod 1000000000 = - (y mod 1000000000)" if "x < 0"
    using that minus_div_mult_eq_mod [of y 1000000000]
    by (simp_all add: y_def signed_divide_int_def signed_modulo_int_def)
  have res: "add_ns_to_timespec dest delta =
      (if x > 1000000000 then dest\<lparr>tv_sec := tv_sec dest + x div 1000000000, tv_nsec := x mod 1000000000\<rparr>
       else if x < 0 then dest\<lparr>tv_sec := tv_sec dest - 1 - y div 1000000000, tv_nsec := 1000000000 - y mod 1000000000\<rparr>
       else dest\<lparr>tv_nsec := x\<rparr>)"
    using pos neg by (simp add: add_ns_to_timespec_def Let_def x_def [symmetric])
  have dm: "x mod 1000000000 = x - 1000000000 * (x div 1000000000)" "y mod 1000000000 = y - 1000000000 * (y div 1000000000)"
    by (simp_all add: minus_mult_div_eq_mod)
  have "ns (add_ns_to_timespec dest delta) = ns dest + delta"
    unfolding res ns_def by (auto simp: dm, auto simp: x_def y_def algebra_simps)
  moreover have "0 \<le> tv_nsec (add_ns_to_timespec dest delta)"
    unfolding res by (simp add: less_imp_le pos_mod_bound)
  moreover have "tv_nsec (add_ns_to_timespec dest delta) \<le> 1000000000"
    unfolding res by (simp add: less_imp_le pos_mod_bound)
  moreover have "y mod 1000000000 = 0 \<longleftrightarrow> x mod 1000000000 = 0" "x mod 1000000000 < 1000000000"
    by (auto simp: y_def mod_eq_0_iff_dvd)
  then have "tv_nsec (add_ns_to_timespec dest delta) = 1000000000 \<longleftrightarrow>
      tv_nsec dest + delta = 1000000000 \<or>
      (tv_nsec dest + delta < 0 \<and> (tv_nsec dest + delta) mod 1000000000 = 0)"
    unfolding res x_def [symmetric] by auto
  ultimately show ?thesis by blast
qed

end
