(* ===== verification/SbPercentile.thy ===== *)
theory SbPercentile
  imports LogReq
begin

text \<open>
  The percentile histogram, \<^verbatim>\<open>sb_percentile.c\<close>. Counters are 64-bit words; the double
  arithmetic goes through the floating point environment, rounding included. The mutex of the structure
  makes an update or a reset one atomic step, which is what the definitions are. An
  update outside the array is a fault.
\<close>

record sb_percentile_t =
  pc_values :: "u64 list"
  pc_tmp :: "u64 list"
  pc_total :: u64
  pc_size :: nat
  pc_range_min :: real
  pc_range_max :: real
  pc_range_deduct :: real
  pc_range_mult :: real

definition sb_percentile_init ::
  "fpenv \<Rightarrow> mem \<Rightarrow> nat \<Rightarrow> real \<Rightarrow> real \<Rightarrow> (log_req list + sb_percentile_t) \<times> mem" where
  "sb_percentile_init fp m sz range_min range_max =
     (case malloc m of (ok1, m) \<Rightarrow> (case malloc m of (ok2, m) \<Rightarrow>
        if \<not> ok1 \<or> \<not> ok2
        then (Inl [(LOG_FATAL, ''Cannot allocate values array, size = '' @ print_nat sz)], m)
        else
          (let deduct = fp_log fp range_min in
           (Inr \<lparr>pc_values = replicate sz 0, pc_tmp = replicate sz 0, pc_total = 0, pc_size = sz,
                 pc_range_min = range_min, pc_range_max = range_max, pc_range_deduct = deduct,
                 pc_range_mult = fdiv fp (real (sz - 1)) (fsub fp (fp_log fp range_max) deduct)\<rparr>, m))))"

text \<open>The index computed for a value.\<close>

definition percentile_index :: "fpenv \<Rightarrow> sb_percentile_t \<Rightarrow> real \<Rightarrow> int" where
  "percentile_index fp p v =
     (let v = (if v < pc_range_min p then pc_range_min p
               else if v > pc_range_max p then pc_range_max p else v)
      in \<lfloor>fadd fp (fmul fp (fsub fp (fp_log fp v) (pc_range_deduct p)) (pc_range_mult p)) (1 / 2)\<rfloor>)"

definition sb_percentile_update :: "fpenv \<Rightarrow> sb_percentile_t \<Rightarrow> real \<Rightarrow> sb_percentile_t res" where
  "sb_percentile_update fp p v =
     (let n = percentile_index fp p v in
      if n < 0 then Inl Out_of_bounds
      else rbind (aread (pc_values p) (nat n))
             (\<lambda>x. rbind (awrite (pc_values p) (nat n) (x + 1))
               (\<lambda>vs. Inr (p\<lparr>pc_total := pc_total p + 1, pc_values := vs\<rparr>))))"

text \<open>The loop over the counters: the index it ends with.\<close>

fun percentile_loop :: "u64 list \<Rightarrow> nat \<Rightarrow> u64 \<Rightarrow> u64 \<Rightarrow> nat" where
  "percentile_loop [] i ncur nmax = i"
| "percentile_loop (x # xs) i ncur nmax =
     (let ncur = ncur + x in if ncur \<ge> nmax then i else percentile_loop xs (i + 1) ncur nmax)"

definition percentile_nmax :: "fpenv \<Rightarrow> u64 \<Rightarrow> real \<Rightarrow> u64" where
  "percentile_nmax fp n percent =
     word_of_int \<lfloor>fadd fp (fdiv fp (fmul fp (fp_round fp (real (unat n))) percent) 100) (1 / 2)\<rfloor>"

definition sb_percentile_calculate :: "fpenv \<Rightarrow> sb_percentile_t \<Rightarrow> real \<Rightarrow> (real \<times> sb_percentile_t) res" where
  "sb_percentile_calculate fp p percent =
     (if pc_total p = 0 then Inr (0, p)
      else
        (let tmp = take (pc_size p) (pc_values p) @ drop (pc_size p) (pc_tmp p);
             nmax = percentile_nmax fp (pc_total p) percent
         in rbind (aread tmp 0)
              (\<lambda>ncur. let i = percentile_loop (drop 1 (take (pc_size p) tmp)) 1 ncur nmax
                 in Inr (fp_exp fp (fadd fp (fdiv fp (real i) (pc_range_mult p)) (pc_range_deduct p)),
                         p\<lparr>pc_tmp := tmp\<rparr>))))"

definition sb_percentile_reset :: "sb_percentile_t \<Rightarrow> sb_percentile_t" where
  "sb_percentile_reset p = p\<lparr>pc_total := 0, pc_values := replicate (pc_size p) 0\<rparr>"

section \<open>The invariant\<close>

text \<open>
  The parameters are sane when the range is a proper interval of positive numbers whose logarithms differ by a
  number of ordinary magnitude, and the array has at least two and at most \<open>2^32\<close> elements.
\<close>

definition percentile_params :: "fpenv \<Rightarrow> nat \<Rightarrow> real \<Rightarrow> real \<Rightarrow> bool" where
  "percentile_params fp sz lo hi \<longleftrightarrow>
     2 \<le> sz \<and> sz \<le> 2 ^ 32 \<and> 0 < lo \<and> lo \<le> hi \<and>
     1 / 2 ^ 900 \<le> fsub fp (fp_log fp hi) (fp_log fp lo) \<and> fsub fp (fp_log fp hi) (fp_log fp lo) \<le> 2 ^ 900"

definition percentile_wf :: "fpenv \<Rightarrow> sb_percentile_t \<Rightarrow> bool" where
  "percentile_wf fp p \<longleftrightarrow>
     percentile_params fp (pc_size p) (pc_range_min p) (pc_range_max p) \<and>
     length (pc_values p) = pc_size p \<and> length (pc_tmp p) = pc_size p \<and>
     pc_range_deduct p = fp_log fp (pc_range_min p) \<and>
     pc_range_mult p = fdiv fp (real (pc_size p - 1)) (fsub fp (fp_log fp (pc_range_max p)) (pc_range_deduct p)) \<and>
     pc_total p = sum_list (pc_values p)"

lemma percentile_init_wf [wf_intros]:
  "sb_percentile_init fp m sz lo hi = (Inr p, m') \<Longrightarrow> percentile_params fp sz lo hi \<Longrightarrow> percentile_wf fp p"
  by (auto simp: sb_percentile_init_def percentile_wf_def Let_def sum_list_replicate split: prod.splits if_splits)

text \<open>
  The largest product the index computation can form stays below \<open>size - 1/2\<close> after every
  rounding: the relative errors are at most \<open>2^(-53)\<close> each, and the size is at most \<open>2^32\<close>.
\<close>

lemma percentile_mult_bounds:
  assumes fp: "fp_ok fp" and par: "percentile_params fp sz lo hi"
    and A: "A = fsub fp (fp_log fp hi) (fp_log fp lo)" and M: "M = fdiv fp (real (sz - 1)) A"
  shows "0 \<le> M" and "A * M \<le> real (sz - 1) + 1 / 2 ^ 20"
proof -
  have sz: "1 \<le> real (sz - 1)" "real (sz - 1) \<le> 2 ^ 32" and A1: "1 / 2 ^ 900 \<le> A" "A \<le> 2 ^ 900"
    using par A by (auto simp: percentile_params_def of_nat_diff)
  have A0: "0 < A"
    using A1(1) by (rule less_le_trans [rotated]) simp
  let ?q = "real (sz - 1) / A"
  have "1 / 2 ^ 900 \<le> ?q"
    using sz(1) A1 A0 by (intro frac_le) auto
  then have q1: "1 / 2 ^ 1022 \<le> ?q"
    by (rule order_trans [rotated]) (simp add: field_simps)
  have "?q \<le> 2 ^ 32 / (1 / 2 ^ 900)"
    using sz A1 A0 by (intro frac_le) auto
  then have q2: "?q < 2 ^ 1023"
    by (rule le_less_trans) simp
  show "0 \<le> M"
    unfolding M fdiv_def using fp A0 by (intro fp_round_nonneg) auto
  have "M \<le> ?q + ?q / 2 ^ 53"
    unfolding M fdiv_def using fp_round_upper [OF fp q1 q2] .
  then have "A * M \<le> A * (?q + ?q / 2 ^ 53)"
    using A0 by (intro mult_left_mono) auto
  also have "\<dots> = real (sz - 1) + real (sz - 1) / 2 ^ 53"
    using A0 by (simp add: field_simps)
  also have "\<dots> \<le> real (sz - 1) + 1 / 2 ^ 20"
    using sz(2) by (simp add: field_simps)
  finally show "A * M \<le> real (sz - 1) + 1 / 2 ^ 20" .
qed

lemma percentile_index_range:
  assumes fp: "fp_ok fp" and wf: "percentile_wf fp p"
  shows "0 \<le> percentile_index fp p v" and "percentile_index fp p v < int (pc_size p)"
proof -
  define A where "A = fsub fp (fp_log fp (pc_range_max p)) (fp_log fp (pc_range_min p))"
  define w where "w = (if v < pc_range_min p then pc_range_min p else if v > pc_range_max p then pc_range_max p else v)"
  define a where "a = fsub fp (fp_log fp w) (pc_range_deduct p)"
  define y where "y = fmul fp a (pc_range_mult p)"
  have par: "percentile_params fp (pc_size p) (pc_range_min p) (pc_range_max p)"
    and ded: "pc_range_deduct p = fp_log fp (pc_range_min p)"
    and M: "pc_range_mult p = fdiv fp (real (pc_size p - 1)) A"
    using wf by (auto simp: percentile_wf_def A_def)
  have sz: "1 \<le> real (pc_size p - 1)" "real (pc_size p - 1) \<le> 2 ^ 32" and
    w: "pc_range_min p \<le> w" "w \<le> pc_range_max p" "0 < pc_range_min p" "0 < w"
    using par by (auto simp: percentile_params_def of_nat_diff w_def)
  have idx: "percentile_index fp p v = \<lfloor>fadd fp y (1 / 2)\<rfloor>"
    by (simp add: percentile_index_def w_def a_def y_def Let_def)
  note MB = percentile_mult_bounds [OF fp par A_def M]
  have logs: "fp_log fp (pc_range_min p) \<le> fp_log fp w" "fp_log fp w \<le> fp_log fp (pc_range_max p)"
    using fp w unfolding fp_ok_def by blast+
  have a: "0 \<le> a" "a \<le> A"
    using fp logs unfolding a_def A_def ded fsub_def by (auto intro: fp_round_nonneg fp_round_le)
  then have y0: "0 \<le> y"
    unfolding y_def fmul_def using fp MB(1) by (intro fp_round_nonneg) auto
  then show "0 \<le> percentile_index fp p v"
    unfolding idx fadd_def using fp by (simp add: fp_round_nonneg)
  let ?k = "real (pc_size p - 1) + 1 / 2 ^ 20"
  have "a * pc_range_mult p \<le> ?k"
    using a MB by (meson mult_right_mono order_trans)
  then have "y \<le> fp_round fp ?k"
    unfolding y_def fmul_def using fp by (intro fp_round_le)
  also have "\<dots> \<le> ?k + ?k / 2 ^ 53"
    using sz by (intro fp_round_upper [OF fp]) (auto simp: field_simps)
  also have "\<dots> \<le> real (pc_size p - 1) + 1 / 2 ^ 18"
    using sz(2) by (simp add: field_simps)
  finally have "y + 1 / 2 \<le> real (pc_size p - 1) + 3 / 4"
    by simp
  then have "fadd fp y (1 / 2) \<le> fp_round fp (real (pc_size p - 1) + 3 / 4)"
    unfolding fadd_def using fp by (intro fp_round_le)
  also have "\<dots> \<le> (real (pc_size p - 1) + 3 / 4) + (real (pc_size p - 1) + 3 / 4) / 2 ^ 53"
    using sz by (intro fp_round_upper [OF fp]) (auto simp: field_simps)
  also have "\<dots> < real (pc_size p - 1) + 1"
    using sz(2) by (simp add: field_simps)
  also have "\<dots> = real (pc_size p)"
    using sz(1) by (simp add: of_nat_diff)
  finally show "percentile_index fp p v < int (pc_size p)"
    unfolding idx by (simp add: floor_less_iff)
qed

lemma sum_list_update_word: "i < length xs \<Longrightarrow> sum_list (xs[i := xs ! i + 1]) = sum_list (xs :: u64 list) + 1"
proof (induction xs arbitrary: i)
  case (Cons x xs)
  then show ?case by (cases i) (auto simp: algebra_simps)
qed simp

lemma percentile_update_total:
  assumes "fp_ok fp" and "percentile_wf fp p"
  shows "\<exists>i p'. sb_percentile_update fp p v = Inr p' \<and> i < pc_size p \<and>
           pc_values p' = (pc_values p)[i := pc_values p ! i + 1] \<and> percentile_wf fp p' \<and> pc_total p' = pc_total p + 1"
proof -
  let ?n = "nat (percentile_index fp p v)"
  have n: "0 \<le> percentile_index fp p v" "?n < pc_size p"
    using percentile_index_range [OF assms, of v] by auto
  have len: "length (pc_values p) = pc_size p"
    using assms(2) by (simp add: percentile_wf_def)
  let ?p = "p\<lparr>pc_total := pc_total p + 1, pc_values := (pc_values p)[?n := pc_values p ! ?n + 1]\<rparr>"
  have "sb_percentile_update fp p v = Inr ?p"
    using n len by (simp add: sb_percentile_update_def Let_def)
  moreover have "percentile_wf fp ?p"
    using assms(2) n len by (simp add: percentile_wf_def sum_list_update_word)
  ultimately show ?thesis using n by fastforce
qed

text \<open>
  (C30) Recording a response time never writes outside the histogram, whatever the value and in spite of
  every rounding of the floating point computation; exactly one counter grows, and the total stays the sum
  of all counters.
\<close>

theorem sb_percentile_update_safe:
  assumes "fp_ok fp" and "percentile_wf fp p"
  shows "\<exists>i p'. sb_percentile_update fp p v = Inr p' \<and> i < pc_size p \<and>
           pc_values p' = (pc_values p)[i := pc_values p ! i + 1] \<and> percentile_wf fp p'"
  using percentile_update_total [OF assms] by blast

definition sample_percentile :: sb_percentile_t where
  "sample_percentile = \<lparr>pc_values = [0, 0, 0], pc_tmp = [0, 0, 0], pc_total = 0, pc_size = 3,
     pc_range_min = 1, pc_range_max = 5, pc_range_deduct = 1, pc_range_mult = 1 / 2\<rparr>"

lemma sample_percentile_wf: "percentile_wf fp_exact sample_percentile"
  by (simp add: percentile_wf_def percentile_params_def sample_percentile_def fp_exact_def fsub_def fdiv_def)

lemma sb_percentile_update_safe_witness:
  "\<exists>p'. sb_percentile_update fp_exact sample_percentile 1000 = Inr p' \<and> percentile_wf fp_exact p'"
  using sb_percentile_update_safe [OF fp_exact_ok sample_percentile_wf, of 1000] by blast

section \<open>Ranks\<close>

lemma percentile_loop_bounds: "i \<le> percentile_loop xs i c m \<and> percentile_loop xs i c m \<le> i + length xs"
  by (induction xs i c m rule: percentile_loop.induct) (auto simp: Let_def)

lemma percentile_loop_below:
  "i + k < percentile_loop xs i c m \<Longrightarrow> c + sum_list (take (Suc k) xs) < m"
proof (induction xs i c m arbitrary: k rule: percentile_loop.induct)
  case (2 x xs i c m)
  then show ?case by (cases k) (auto simp: Let_def not_le algebra_simps split: if_splits)
qed simp

lemma percentile_loop_reached:
  "percentile_loop xs i c m = i + k \<Longrightarrow> k < length xs \<Longrightarrow> m \<le> c + sum_list (take (Suc k) xs)"
proof (induction xs i c m arbitrary: k rule: percentile_loop.induct)
  case (2 x xs i c m)
  show ?case
  proof (cases "m \<le> c + x")
    case True
    then show ?thesis using 2 by (cases k) (auto simp: Let_def)
  next
    case False
    then have "percentile_loop xs (i + 1) (c + x) m = i + k"
      using 2(2) by (simp add: Let_def)
    then obtain k' where "k = Suc k'"
      using percentile_loop_bounds [of "i + 1" xs "c + x" m] by (cases k) auto
    then show ?thesis
      using 2(1) [OF refl False, of k'] 2(2,3) False by (auto simp: Let_def algebra_simps)
  qed
qed simp

lemma percentile_loop_mono: "m \<le> m' \<Longrightarrow> percentile_loop xs i c m \<le> percentile_loop xs i c m'"
proof (induction xs i c m rule: percentile_loop.induct)
  case (2 x xs i c m)
  then show ?case
    using percentile_loop_bounds [of "i + 1" xs "c + x" m'] by (auto simp: Let_def)
qed simp

text \<open>The bucket number that \<^verbatim>\<open>sb_percentile_calculate\<close> converts back to a time.\<close>

definition percentile_bucket :: "fpenv \<Rightarrow> sb_percentile_t \<Rightarrow> real \<Rightarrow> nat" where
  "percentile_bucket fp p percent =
     percentile_loop (tl (pc_values p)) 1 (hd (pc_values p)) (percentile_nmax fp (pc_total p) percent)"

lemma sb_percentile_calculate_eq:
  assumes "percentile_wf fp p" and "pc_total p \<noteq> 0"
  shows "sb_percentile_calculate fp p percent =
    Inr (fp_exp fp (fadd fp (fdiv fp (real (percentile_bucket fp p percent)) (pc_range_mult p)) (pc_range_deduct p)),
         p\<lparr>pc_tmp := pc_values p\<rparr>)"
proof -
  obtain x xs where v: "pc_values p = x # xs"
    using assms by (cases "pc_values p") (auto simp: percentile_wf_def)
  have len: "length (pc_values p) = pc_size p" "length (pc_tmp p) = pc_size p"
    using assms(1) by (auto simp: percentile_wf_def)
  have "take (pc_size p) (pc_values p) @ drop (pc_size p) (pc_tmp p) = pc_values p"
    using len by simp
  then show ?thesis
    using assms(2) v len by (simp add: sb_percentile_calculate_def percentile_bucket_def aread_def Let_def)
qed

text \<open>
  (C31) The percentile reported is that of the right rank: it is the time of a bucket whose
  cumulative count (buckets 0 up to it) reaches the requested share of the total, while no bucket from 1 up to the one before it
  does, or of the position after the last one when no cumulative count reaches it; the histogram itself is unchanged.
\<close>

theorem sb_percentile_calculate_rank:
  assumes "percentile_wf fp p" and "pc_total p \<noteq> 0"
  shows "\<exists>i p'. sb_percentile_calculate fp p percent =
             Inr (fp_exp fp (fadd fp (fdiv fp (real i) (pc_range_mult p)) (pc_range_deduct p)), p') \<and>
           1 \<le> i \<and> i \<le> pc_size p \<and>
           (\<forall>j. 1 \<le> j \<and> j < i \<longrightarrow> sum_list (take (Suc j) (pc_values p)) < percentile_nmax fp (pc_total p) percent) \<and>
           (i < pc_size p \<longrightarrow> percentile_nmax fp (pc_total p) percent \<le> sum_list (take (Suc i) (pc_values p))) \<and>
           pc_values p' = pc_values p \<and> percentile_wf fp p'"
proof -
  obtain x xs where v: "pc_values p = x # xs"
    using assms by (cases "pc_values p") (auto simp: percentile_wf_def)
  have len: "length xs + 1 = pc_size p"
    using assms(1) v by (auto simp: percentile_wf_def)
  let ?m = "percentile_nmax fp (pc_total p) percent"
  let ?i = "percentile_bucket fp p percent"
  have i: "?i = percentile_loop xs 1 x ?m"
    by (simp add: percentile_bucket_def v)
  have "sum_list (take (Suc j) (pc_values p)) < ?m" if "1 \<le> j" "j < ?i" for j
    using percentile_loop_below [of 1 "j - 1" xs x ?m] that i v by (cases j) auto
  moreover have "?m \<le> sum_list (take (Suc ?i) (pc_values p))" if "?i < pc_size p"
    using percentile_loop_reached [of xs 1 x ?m "?i - 1"] percentile_loop_bounds [of 1 xs x ?m] that i v len
    by (cases ?i) auto
  moreover have "1 \<le> ?i" "?i \<le> pc_size p"
    using percentile_loop_bounds [of 1 xs x ?m] i len by auto
  moreover have "percentile_wf fp (p\<lparr>pc_tmp := pc_values p\<rparr>)"
    using assms(1) by (simp add: percentile_wf_def)
  ultimately show ?thesis
    using sb_percentile_calculate_eq [OF assms, of percent] by (intro exI [of _ ?i] exI [of _ "p\<lparr>pc_tmp := pc_values p\<rparr>"]) simp
qed

definition filled_percentile :: sb_percentile_t where
  "filled_percentile = sample_percentile\<lparr>pc_values := [2, 5, 1], pc_total := 8\<rparr>"

lemma filled_percentile_wf: "percentile_wf fp_exact filled_percentile" "pc_total filled_percentile \<noteq> 0"
  using sample_percentile_wf by (simp_all add: filled_percentile_def percentile_wf_def sample_percentile_def)

lemma sb_percentile_calculate_rank_witness:
  "\<exists>r p'. sb_percentile_calculate fp_exact filled_percentile 95 = Inr (r, p') \<and> pc_values p' = [2, 5, 1]"
  using sb_percentile_calculate_rank [OF filled_percentile_wf, of 95]
  by (auto simp: filled_percentile_def)

text \<open>
  A higher percentage never reports a lower response time, as long as the rank fits
  into 64 bits.
\<close>

lemma sb_percentile_calculate_mono:
  assumes "fp_ok fp" and "percentile_wf fp p" and "0 \<le> a" and "a \<le> b"
    and "fadd fp (fdiv fp (fmul fp (fp_round fp (real (unat (pc_total p)))) b) 100) (1 / 2) < 2 ^ 64"
    and "sb_percentile_calculate fp p a = Inr (ra, pa)" and "sb_percentile_calculate fp p b = Inr (rb, pb)"
  shows "ra \<le> rb"
proof (cases "pc_total p = 0")
  case True
  then show ?thesis using assms(6,7) by (simp add: sb_percentile_calculate_def)
next
  case False
  define n where "n = fp_round fp (real (unat (pc_total p)))"
  define f where "f = (\<lambda>q. fadd fp (fdiv fp (fmul fp n q) 100) (1 / 2))"
  have n0: "0 \<le> n"
    unfolding n_def by (rule fp_round_nonneg [OF assms(1) of_nat_0_le_iff])
  have f: "0 \<le> f a" "f a \<le> f b" "f b < 2 ^ 64"
    using assms(1,3,4,5) n0 unfolding f_def fadd_def fdiv_def fmul_def n_def
    by (auto intro!: fp_round_nonneg fp_round_le add_nonneg_nonneg divide_right_mono mult_left_mono)
  have "\<lfloor>f q\<rfloor> < 2 ^ 64" if "f q < 2 ^ 64" for q
    using that by (simp add: floor_less_iff)
  then have "uint (word_of_int \<lfloor>f a\<rfloor> :: u64) = \<lfloor>f a\<rfloor>" "uint (word_of_int \<lfloor>f b\<rfloor> :: u64) = \<lfloor>f b\<rfloor>"
    using f by (auto simp: uint_word_of_int_eq take_bit_int_eq_self)
  then have "percentile_nmax fp (pc_total p) a \<le> percentile_nmax fp (pc_total p) b"
    using f(2) unfolding percentile_nmax_def n_def [symmetric] by (simp add: word_le_def floor_mono f_def)
  then have le: "percentile_bucket fp p a \<le> percentile_bucket fp p b"
    by (simp add: percentile_bucket_def percentile_loop_mono)
  have "0 \<le> pc_range_mult p"
    using percentile_mult_bounds(1) [OF assms(1) _ refl refl] assms(2) by (simp add: percentile_wf_def)
  then have "fadd fp (fdiv fp (real (percentile_bucket fp p a)) (pc_range_mult p)) (pc_range_deduct p)
      \<le> fadd fp (fdiv fp (real (percentile_bucket fp p b)) (pc_range_mult p)) (pc_range_deduct p)"
    using assms(1) le unfolding fadd_def fdiv_def by (auto intro!: fp_round_le divide_right_mono)
  moreover have "mono (fp_exp fp)"
    using assms(1) by (simp add: fp_ok_def)
  ultimately show ?thesis
    using assms(6,7) sb_percentile_calculate_eq [OF assms(2) False] by (auto dest: monoD)
qed

lemma sb_percentile_calculate_mono_witness:
  "\<exists>ra pa rb pb. sb_percentile_calculate fp_exact filled_percentile 20 = Inr (ra, pa) \<and>
     sb_percentile_calculate fp_exact filled_percentile 95 = Inr (rb, pb) \<and> ra \<le> rb"
proof -
  obtain ra pa rb pb where r: "sb_percentile_calculate fp_exact filled_percentile 20 = Inr (ra, pa)"
      "sb_percentile_calculate fp_exact filled_percentile 95 = Inr (rb, pb)"
    using sb_percentile_calculate_eq [OF filled_percentile_wf] by simp
  have "ra \<le> rb"
    by (rule sb_percentile_calculate_mono [OF fp_exact_ok filled_percentile_wf(1) _ _ _ r])
       (simp_all add: fadd_def fdiv_def fmul_def fp_exact_def filled_percentile_def)
  then show ?thesis using r by blast
qed

lemma percentile_reset_wf [wf_intros]: "percentile_wf fp p \<Longrightarrow> percentile_wf fp (sb_percentile_reset p)"
  by (simp add: percentile_wf_def sb_percentile_reset_def sum_list_replicate)

lemma percentile_calculate_total:
  "percentile_wf fp p \<Longrightarrow> \<exists>r p'. sb_percentile_calculate fp p q = Inr (r, p') \<and> percentile_wf fp p'"
  using sb_percentile_calculate_eq [of fp p q]
  by (cases "pc_total p = 0") (auto simp: sb_percentile_calculate_def percentile_wf_def)

end
