(* ===== verification/SbGlobals.thy ===== *)
theory SbGlobals
  imports SbOptions SbTimer SbPercentile
begin

text \<open>
  The global variables of \<^verbatim>\<open>sysbench.h\<close> and the state of the whole process that the logger and the
  main program work on: the globals, the options with the text written to the standard streams, the logger's
  variables, and the clock. The instants successive readings of the clock return are an arbitrary
  sequence; a call that reads the clock takes the next one (for a timer that
  is not running the reading is taken and not used).
\<close>

datatype sb_cmd_t =
    SB_COMMAND_NULL
  | SB_COMMAND_PREPARE
  | SB_COMMAND_RUN
  | SB_COMMAND_CLEANUP
  | SB_COMMAND_HELP
  | SB_COMMAND_VERSION

definition MAX_CHECKPOINTS :: nat where "MAX_CHECKPOINTS = 256"

record sb_globals_t =
  g_command :: sb_cmd_t
  g_error :: int
  g_exec_timer :: sb_timer_t
  g_cumulative_timer1 :: sb_timer_t
  g_cumulative_timer2 :: sb_timer_t
  g_num_threads :: u32
  g_num_running :: u32
  g_report_interval :: u32
  g_percentile_rank :: u32
  g_checkpoints :: "u32 list"
  g_n_checkpoints :: u32
  g_tx_rate :: u32
  g_max_requests :: u32
  g_max_time :: u32
  g_debug :: bool
  g_force_shutdown :: bool
  g_timeout :: u32
  g_validate :: bool
  g_verbosity :: u8
  g_event_queue_length :: int
  g_concurrency :: int
  g_forced_shutdown_in_progress :: bool

text \<open>The two built-in handlers of the logger, and its variables.\<close>

datatype log_msg_type_t = LOG_MSG_TYPE_MIN | LOG_MSG_TYPE_TEXT | LOG_MSG_TYPE_OPER | LOG_MSG_TYPE_MAX

datatype log_handler_t = Text_handler | Oper_handler

record log_state =
  lg_handlers :: "log_msg_type_t \<Rightarrow> log_handler_t list"
  lg_initialized :: bool
  lg_percentile :: "sb_percentile_t option"
  lg_text_cnt :: u32
  lg_text_buf :: string
  lg_timers :: "sb_timer_t list"

record world =
  w_globals :: sb_globals_t
  w_opts :: opt_state
  w_log :: log_state
  w_clock :: "nat \<Rightarrow> timespec"
  w_ticks :: nat

definition SB_GETTIME :: "world \<Rightarrow> timespec \<times> world" where
  "SB_GETTIME w = (w_clock w (w_ticks w), w\<lparr>w_ticks := w_ticks w + 1\<rparr>)"

abbreviation w_print :: "string \<Rightarrow> world \<Rightarrow> world" where
  "w_print s w \<equiv> w\<lparr>w_opts := os_print s (w_opts w)\<rparr>"

abbreviation w_out :: "world \<Rightarrow> string" where
  "w_out w \<equiv> os_out (w_opts w)"

abbreviation upd_log :: "(log_state \<Rightarrow> log_state) \<Rightarrow> world \<Rightarrow> world" where
  "upd_log f w \<equiv> w\<lparr>w_log := f (w_log w)\<rparr>"

abbreviation upd_globals :: "(sb_globals_t \<Rightarrow> sb_globals_t) \<Rightarrow> world \<Rightarrow> world" where
  "upd_globals f w \<equiv> w\<lparr>w_globals := f (w_globals w)\<rparr>"

text \<open>Running a list of steps in order.\<close>

fun rfold :: "('a \<Rightarrow> 's \<Rightarrow> 's res) \<Rightarrow> 'a list \<Rightarrow> 's \<Rightarrow> 's res" where
  "rfold f [] s = Inr s"
| "rfold f (x # xs) s = rbind (f x s) (rfold f xs)"

lemma rfold_append: "rfold f (xs @ ys) s = rbind (rfold f xs s) (rfold f ys)"
proof (induction xs arbitrary: s)
  case (Cons x xs)
  then show ?case by (cases "f x s") auto
qed simp

lemma rfold_single [simp]: "rfold f [x] s = f x s"
  by (cases "f x s") (simp_all add: rbind_def)

end
