(* ===== verification/SbLogger.thy ===== *)
theory SbLogger
  imports SbGlobals
begin

text \<open>
  The logger, \<^verbatim>\<open>sb_logger.c\<close>: handler chains per message type, the text handler with its
  suppression of repeated messages, the operation handler with a timer per thread and the
  percentile histogram, and the final report. A formatted message arrives as
  the text its format expands to. A handler that gets a message of the other type would read it
  through the wrong structure, which is a fault.
\<close>

section \<open>Messages and handlers\<close>

definition TEXT_BUFFER_SIZE :: nat where "TEXT_BUFFER_SIZE = 4096"
definition OPER_LOG_GRANULARITY :: nat where "OPER_LOG_GRANULARITY = 100000"
definition OPER_LOG_MIN_VALUE :: real where "OPER_LOG_MIN_VALUE = 1"
definition OPER_LOG_MAX_VALUE :: real where "OPER_LOG_MAX_VALUE = 10 ^ 13"

datatype log_msg_oper_action_t = LOG_MSG_OPER_START | LOG_MSG_OPER_STOP

datatype log_msg_t =
    Text_msg log_msg_priority_t string bool
  | Oper_msg log_msg_oper_action_t int

definition text_handler_args :: "sb_arg_t list" where
  "text_handler_args =
     [\<lparr>arg_name = ''verbosity'', arg_desc = ''verbosity level {5 - debug, 0 - only critical messages}'',
       arg_type = SB_ARG_TYPE_INT, arg_value = Some ''3''\<rparr>]"

definition oper_handler_args :: "sb_arg_t list" where
  "oper_handler_args =
     [\<lparr>arg_name = ''percentile'', arg_desc = ''percentile rank of query response times to count'',
       arg_type = SB_ARG_TYPE_INT, arg_value = Some ''95''\<rparr>]"

definition handler_args :: "log_handler_t \<Rightarrow> sb_arg_t list" where
  "handler_args h = (case h of Text_handler \<Rightarrow> text_handler_args | Oper_handler \<Rightarrow> oper_handler_args)"

definition msg_type :: "log_msg_t \<Rightarrow> log_msg_type_t" where
  "msg_type m = (case m of Text_msg _ _ _ \<Rightarrow> LOG_MSG_TYPE_TEXT | Oper_msg _ _ \<Rightarrow> LOG_MSG_TYPE_OPER)"

section \<open>The text handler\<close>

definition prefix_of :: "log_msg_priority_t \<Rightarrow> string" where
  "prefix_of p =
     (case p of LOG_FATAL \<Rightarrow> ''FATAL: '' | LOG_ALERT \<Rightarrow> ''ALERT: '' | LOG_WARNING \<Rightarrow> ''WARNING: ''
      | LOG_DEBUG \<Rightarrow> ''DEBUG: '' | _ \<Rightarrow> [])"

definition text_handler_process :: "log_msg_priority_t \<Rightarrow> string \<Rightarrow> bool \<Rightarrow> world \<Rightarrow> world" where
  "text_handler_process priority text allow_duplicates w =
     (if priority_num priority > uint (g_verbosity (w_globals w)) then w
      else if \<not> allow_duplicates \<and> lg_text_buf (w_log w) = text
      then upd_log (\<lambda>l. l\<lparr>lg_text_cnt := lg_text_cnt l + 1\<rparr>) w
      else
        (let w = (if \<not> allow_duplicates
                  then (let w = (if lg_text_cnt (w_log w) > 0
                                 then w_print (''(last message repeated '' @ print_nat (unat (lg_text_cnt (w_log w)))
                                               @ '' times)'' @ newline) w
                                 else w)
                        in upd_log (\<lambda>l. l\<lparr>lg_text_cnt := 0, lg_text_buf := take TEXT_BUFFER_SIZE text\<rparr>) w)
                  else w)
         in w_print (prefix_of priority @ text) w))"

definition text_handler_init :: "world \<Rightarrow> (int \<times> world) res" where
  "text_handler_init w =
     rbind (sb_get_value_int (w_opts w) ''verbosity'')
       (\<lambda>v. let w = upd_globals (\<lambda>g. g\<lparr>g_verbosity := word_of_int v\<rparr>) w in
          if uint (g_verbosity (w_globals w)) > priority_num LOG_DEBUG
          then Inr (1, w_print (''Invalid value for verbosity: '' @ print_int (uint (g_verbosity (w_globals w))) @ newline) w)
          else Inr (0, upd_log (\<lambda>l. l\<lparr>lg_text_cnt := 0, lg_text_buf := []\<rparr>) w))"

section \<open>Sending text messages\<close>

text \<open>
  The chain of a message type, for text messages. The handlers get the message in order.
\<close>

definition text_dispatch :: "log_msg_priority_t \<Rightarrow> string \<Rightarrow> bool \<Rightarrow> log_handler_t \<Rightarrow> world \<Rightarrow> world res" where
  "text_dispatch priority text dup h w =
     (case h of Text_handler \<Rightarrow> Inr (text_handler_process priority text dup w) | Oper_handler \<Rightarrow> Inl Uninit_read)"

definition log_text_msg :: "log_msg_priority_t \<Rightarrow> string \<Rightarrow> bool \<Rightarrow> world \<Rightarrow> world res" where
  "log_text_msg priority text dup w =
     rfold (text_dispatch priority text dup) (lg_handlers (w_log w) LOG_MSG_TYPE_TEXT) w"

text \<open>
  The buffer after the two \<^verbatim>\<open>snprintf\<close> calls of \<^verbatim>\<open>log_text\<close>: the first leaves at most 4095
  characters, the second appends the newline at position \<open>n\<close> if there is room.
\<close>

definition log_buffer :: "string \<Rightarrow> string" where
  "log_buffer s =
     (let maxlen = TEXT_BUFFER_SIZE;
          buf = snprintf_text maxlen s;
          n = (if length s \<ge> maxlen then maxlen else length s)
      in buf @ snprintf_text (maxlen - n) newline)"

definition log_text :: "log_msg_priority_t \<Rightarrow> string \<Rightarrow> world \<Rightarrow> world res" where
  "log_text priority s w =
     (let buf = log_buffer s in
      if \<not> lg_initialized (w_log w) then Inr (w_print buf w)
      else log_text_msg priority buf False w)"

definition log_timestamp :: "fpenv \<Rightarrow> log_msg_priority_t \<Rightarrow> sb_timer_t \<Rightarrow> string \<Rightarrow> world \<Rightarrow> world res" where
  "log_timestamp fp priority timer s w =
     (let stamp = ''['' @ fmt_f 4 0 (NS2SEC fp (elapsed timer)) @ ''s] '';
          maxlen = TEXT_BUFFER_SIZE - length stamp;
          n = (if length s \<ge> maxlen then maxlen else length s);
          buf = stamp @ snprintf_text maxlen s @ snprintf_text (maxlen - n) newline
      in if \<not> lg_initialized (w_log w) then Inr (w_print buf w)
         else log_text_msg priority buf True w)"

text \<open>
  \<^verbatim>\<open>log_errno\<close>, with the error number and its text. A message longer than the buffer passes the
  test \<^verbatim>\<open>n == TEXT_BUFFER_SIZE\<close>, and the second \<^verbatim>\<open>snprintf\<close> writes behind the buffer.
\<close>

definition log_errno :: "log_msg_priority_t \<Rightarrow> int \<Rightarrow> string \<Rightarrow> string \<Rightarrow> world \<Rightarrow> world res" where
  "log_errno priority old_errno strerr s w =
     (let n = length s in
      if n = TEXT_BUFFER_SIZE then Inr w
      else if n > TEXT_BUFFER_SIZE then Inl Out_of_bounds
      else log_text priority
             (s @ snprintf_text (TEXT_BUFFER_SIZE - n) ('' errno = '' @ print_int old_errno @ '' ('' @ strerr @ '')'')) w)"

definition log_reqs :: "log_req list \<Rightarrow> world \<Rightarrow> world res" where
  "log_reqs = rfold (\<lambda>(p, s). log_text p s)"

section \<open>The operation handler\<close>

definition oper_handler_init :: "fpenv \<Rightarrow> world \<Rightarrow> (int \<times> world) res" where
  "oper_handler_init fp w =
     rbind (sb_get_value_int (w_opts w) ''percentile'')
       (\<lambda>v. let tmp = word_of_int v :: u32 in
          if tmp < 1 \<or> tmp > 100
          then rbind (log_text LOG_FATAL (''Invalid value for percentile option: '' @ print_int (sint tmp)) w)
                 (\<lambda>w. Inr (1, w))
          else
            (let w = upd_globals (\<lambda>g. g\<lparr>g_percentile_rank := tmp\<rparr>) w in
             case sb_percentile_init fp (os_mem (w_opts w)) OPER_LOG_GRANULARITY OPER_LOG_MIN_VALUE OPER_LOG_MAX_VALUE of
               (Inl msgs, m) \<Rightarrow>
                 rbind (log_reqs msgs (w\<lparr>w_opts := (w_opts w)\<lparr>os_mem := m\<rparr>\<rparr>)) (\<lambda>w. Inr (1, w))
             | (Inr p, m) \<Rightarrow>
                 (case malloc m of (ok1, m) \<Rightarrow> (case malloc m of (ok2, m) \<Rightarrow>
                    let w = upd_log (\<lambda>l. l\<lparr>lg_percentile := Some p\<rparr>) (w\<lparr>w_opts := (w_opts w)\<lparr>os_mem := m\<rparr>\<rparr>) in
                    if \<not> ok1 \<or> \<not> ok2
                    then rbind (log_text LOG_FATAL ''Memory allocation failure'' w) (\<lambda>w. Inr (1, w))
                    else Inr (0, upd_log (\<lambda>l. l\<lparr>lg_timers :=
                           replicate (unat (g_num_threads (w_globals w))) (sb_timer_init timer_zero)\<rparr>) w)))))"

text \<open>The timer of a thread is stored back after the operation on it.\<close>

definition oper_handler_process :: "fpenv \<Rightarrow> log_msg_oper_action_t \<Rightarrow> int \<Rightarrow> world \<Rightarrow> world res" where
  "oper_handler_process fp action thread_id w =
     (if thread_id < 0 then Inl Out_of_bounds
      else
        rbind (aread (lg_timers (w_log w)) (nat thread_id))
          (\<lambda>timer. case SB_GETTIME w of (now, w) \<Rightarrow>
             let store = (\<lambda>t w. upd_log (\<lambda>l. l\<lparr>lg_timers := (lg_timers l)[nat thread_id := t]\<rparr>) w) in
             if action = LOG_MSG_OPER_START
             then rbind (sb_timer_start now timer) (\<lambda>(t, msgs). log_reqs msgs (store t w))
             else
               rbind (sb_timer_stop now timer)
                 (\<lambda>(t, msgs). rbind (log_reqs msgs (store t w))
                   (\<lambda>w. rbind (sb_timer_value now t)
                     (\<lambda>(v, t, msgs). rbind (log_reqs msgs (store t w))
                       (\<lambda>w. case lg_percentile (w_log w) of
                          None \<Rightarrow> Inl Null_deref
                        | Some p \<Rightarrow>
                            rbind (sb_percentile_update fp p (fp_round fp (real_of_int (sint v))))
                              (\<lambda>p. Inr (upd_log (\<lambda>l. l\<lparr>lg_percentile := Some p\<rparr>) w))))))))"

definition log_msg :: "fpenv \<Rightarrow> log_msg_t \<Rightarrow> world \<Rightarrow> world res" where
  "log_msg fp msg w =
     (case msg of
        Text_msg p s d \<Rightarrow> log_text_msg p s d w
      | Oper_msg a i \<Rightarrow>
          rfold (\<lambda>h w. case h of Oper_handler \<Rightarrow> oper_handler_process fp a i w | Text_handler \<Rightarrow> Inl Uninit_read)
            (lg_handlers (w_log w) LOG_MSG_TYPE_OPER) w)"

definition LOG_EVENT_START :: "fpenv \<Rightarrow> int \<Rightarrow> world \<Rightarrow> world res" where
  "LOG_EVENT_START fp thread_id = log_msg fp (Oper_msg LOG_MSG_OPER_START thread_id)"

definition LOG_EVENT_STOP :: "fpenv \<Rightarrow> int \<Rightarrow> world \<Rightarrow> world res" where
  "LOG_EVENT_STOP fp thread_id = log_msg fp (Oper_msg LOG_MSG_OPER_STOP thread_id)"

text \<open>\<^verbatim>\<open>sb_timer_split\<close> of a global timer.\<close>

definition w_split ::
  "(sb_globals_t \<Rightarrow> sb_timer_t) \<Rightarrow> (sb_timer_t \<Rightarrow> sb_globals_t \<Rightarrow> sb_globals_t) \<Rightarrow> world \<Rightarrow> (u64 \<times> world) res" where
  "w_split sel put w =
     (case SB_GETTIME w of (now, w) \<Rightarrow>
        rbind (sb_timer_split now (sel (w_globals w)))
          (\<lambda>(v, t, msgs). rbind (log_reqs msgs (upd_globals (put t) w)) (\<lambda>w. Inr (v, w))))"

section \<open>The report\<close>

text \<open>The running timers of the copy are stopped on a forced shutdown, and counted.\<close>

fun stop_running :: "sb_timer_t list \<Rightarrow> world \<Rightarrow> (nat \<times> sb_timer_t list \<times> world) res" where
  "stop_running [] w = Inr (0, [], w)"
| "stop_running (t # ts) w =
     (if sb_timer_running t
      then (case SB_GETTIME w of (now, w) \<Rightarrow>
              rbind (sb_timer_stop now t)
                (\<lambda>(t, msgs). rbind (log_reqs msgs w)
                  (\<lambda>w. rbind (stop_running ts w) (\<lambda>(n, ts, w). Inr (n + 1, t # ts, w)))))
      else rbind (stop_running ts w) (\<lambda>(n, ts, w). Inr (n, t # ts, w)))"

definition u64_double :: "fpenv \<Rightarrow> u64 \<Rightarrow> real" where
  "u64_double fp x = fp_round fp (real (unat x))"

text \<open>The deviations of the threads from an average: the loop and the square root after it.\<close>

definition stddev :: "fpenv \<Rightarrow> nat \<Rightarrow> real \<Rightarrow> real list \<Rightarrow> real" where
  "stddev fp nthreads avg xs =
     fp_sqrt fp (fdiv fp
       (foldl (\<lambda>acc x. let diff = \<bar>fsub fp avg x\<bar> in fadd fp acc (fmul fp diff diff)) 0 xs)
       (real nthreads))"

definition general_statistics :: "fpenv \<Rightarrow> sb_globals_t \<Rightarrow> u64 \<Rightarrow> real \<Rightarrow> sb_timer_t \<Rightarrow> log_req list" where
  "general_statistics fp g total_time_ns percentile_val t =
     [(LOG_NOTICE, []),
      (LOG_NOTICE, ''General statistics:''),
      (LOG_NOTICE, ''    total time:                          '' @ fmt_fixed 4 (NS2SEC fp total_time_ns) @ ''s''),
      (LOG_NOTICE, ''    total number of events:              '' @ print_int (sint (events t))),
      (LOG_NOTICE, ''    total time taken by event execution: '' @ fmt_fixed 4 (NS2SEC fp (get_sum_time t)) @ ''s''),
      (LOG_NOTICE, ''    response time:''),
      (LOG_NOTICE, ''         min:                            '' @ fmt_f 10 2 (NS2MS fp (get_min_time t)) @ ''ms''),
      (LOG_NOTICE, ''         avg:                            '' @ fmt_f 10 2 (NS2MS fp (get_avg_time t)) @ ''ms''),
      (LOG_NOTICE, ''         max:                            '' @ fmt_f 10 2 (NS2MS fp (get_max_time t)) @ ''ms'')]
     @ (if events t > 0
        then [(LOG_NOTICE, ''         approx. '' @ pad_left 3 (print_int (sint (g_percentile_rank g)))
                 @ '' percentile:         '' @ fmt_f 10 2 (fdiv fp percentile_val 1000000) @ ''ms'')]
        else [])
     @ [(LOG_NOTICE, [])]"

definition fairness_statistics :: "fpenv \<Rightarrow> nat \<Rightarrow> sb_timer_t \<Rightarrow> sb_timer_t list \<Rightarrow> log_req list" where
  "fairness_statistics fp nthreads t ts =
     (let events_avg = fdiv fp (u64_double fp (events t)) (real nthreads);
          time_avg = fdiv fp (NS2SEC fp (get_sum_time t)) (real nthreads);
          events_stddev = stddev fp nthreads events_avg (map (\<lambda>t. u64_double fp (events t)) ts);
          time_stddev = stddev fp nthreads time_avg (map (\<lambda>t. NS2SEC fp (get_sum_time t)) ts)
      in [(LOG_NOTICE, ''Threads fairness:''),
          (LOG_NOTICE, ''    events (avg/stddev):           '' @ fmt_fixed 4 events_avg @ ''/'' @ fmt_f 3 2 events_stddev),
          (LOG_NOTICE, ''    execution time (avg/stddev):   '' @ fmt_fixed 4 time_avg @ ''/'' @ fmt_f 3 2 time_stddev),
          (LOG_NOTICE, [])])"

definition thread_statistics :: "fpenv \<Rightarrow> nat \<Rightarrow> sb_timer_t \<Rightarrow> log_req list" where
  "thread_statistics fp i t =
     [(LOG_DEBUG, ''    thread #'' @ pad_left 3 (print_nat i) @ '': min: '' @ fmt_fixed 4 (NS2SEC fp (get_min_time t))
         @ ''s  avg: '' @ fmt_fixed 4 (NS2SEC fp (get_avg_time t)) @ ''s  max: '' @ fmt_fixed 4 (NS2SEC fp (get_max_time t))
         @ ''s  events: '' @ print_int (sint (events t))),
      (LOG_DEBUG, ''                 total time taken by even execution: '' @ fmt_fixed 4 (NS2SEC fp (get_sum_time t)) @ ''s'')]"

definition debug_statistics :: "fpenv \<Rightarrow> sb_timer_t list \<Rightarrow> log_req list" where
  "debug_statistics fp ts =
     [(LOG_DEBUG, ''Verbose per-thread statistics:'' @ newline)]
     @ concat (map (\<lambda>(i, t). thread_statistics fp i t) (enumerate 0 ts))
     @ [(LOG_NOTICE, [])]"

text \<open>
  The first half of \<^verbatim>\<open>print_global_stats\<close>, under the mutex of the timers: the copy is taken, the timers and the histogram
  are reset; the copy, the time since the last report and the percentile are returned.
\<close>

definition take_global_stats :: "fpenv \<Rightarrow> world \<Rightarrow> (sb_timer_t list \<times> u64 \<times> real \<times> world) res" where
  "take_global_stats fp w =
     (let timers_copy = lg_timers (w_log w);
          w = upd_log (\<lambda>l. l\<lparr>lg_timers := map sb_timer_reset (lg_timers l)\<rparr>) w
      in case SB_GETTIME w of (now, w) \<Rightarrow>
           rbind (sb_timer_split now (g_cumulative_timer2 (w_globals w)))
             (\<lambda>(total_time_ns, ct2, msgs).
                let w = upd_globals (\<lambda>g. g\<lparr>g_cumulative_timer2 := ct2\<rparr>) w in
                rbind (log_reqs msgs w)
                  (\<lambda>w. case lg_percentile (w_log w) of
                     None \<Rightarrow> Inl Null_deref
                   | Some p \<Rightarrow>
                       rbind (sb_percentile_calculate fp p (real (unat (g_percentile_rank (w_globals w)))))
                         (\<lambda>(percentile_val, p).
                            let w = upd_log (\<lambda>l. l\<lparr>lg_percentile := Some (sb_percentile_reset p)\<rparr>) w
                            in Inr (timers_copy, total_time_ns, percentile_val, w)))))"

text \<open>The second half: running timers on a forced shutdown, and the report itself.\<close>

definition finish_timers :: "sb_timer_t list \<Rightarrow> world \<Rightarrow> (sb_timer_t list \<times> world) res" where
  "finish_timers timers_copy w =
     (if g_forced_shutdown_in_progress (w_globals w)
      then rbind (stop_running timers_copy w)
             (\<lambda>(unfinished, ts, w).
                if unfinished > 0
                then rbind (log_reqs [(LOG_NOTICE, []),
                       (LOG_NOTICE, ''Number of unfinished transactions on forced shutdown: '' @ print_nat unfinished)] w)
                     (\<lambda>w. Inr (ts, w))
                else Inr (ts, w))
      else Inr (timers_copy, w))"

definition print_global_stats :: "fpenv \<Rightarrow> world \<Rightarrow> (int \<times> world) res" where
  "print_global_stats fp w =
     (let nthreads = unat (g_num_threads (w_globals w)) in
      rbind (take_global_stats fp w)
        (\<lambda>(timers_copy, total_time_ns, percentile_val, w).
           rbind (finish_timers timers_copy w)
             (\<lambda>(ts, w).
                let t = foldl merge_timers (sb_timer_init timer_zero) ts in
                rbind (log_reqs (general_statistics fp (w_globals w) total_time_ns percentile_val t) w)
                  (\<lambda>w. rbind (log_reqs (fairness_statistics fp nthreads t ts) w)
                    (\<lambda>w. rbind (if g_debug (w_globals w) then log_reqs (debug_statistics fp ts) w else Inr w)
                      (\<lambda>w. Inr (0, w)))))))"

definition oper_handler_done :: "fpenv \<Rightarrow> world \<Rightarrow> (int \<times> world) res" where
  "oper_handler_done fp w =
     rbind (print_global_stats fp w) (\<lambda>(rc, w). Inr (0, upd_log (\<lambda>l. l\<lparr>lg_timers := []\<rparr>) w))"

section \<open>Registering, initialising and closing\<close>

definition log_add_handler :: "fs \<Rightarrow> log_msg_type_t \<Rightarrow> log_handler_t \<Rightarrow> world \<Rightarrow> (int \<times> world) res" where
  "log_add_handler fs ty h w =
     (if ty = LOG_MSG_TYPE_MIN \<or> ty = LOG_MSG_TYPE_MAX then Inr (1, w)
      else
        rbind (sb_register_arg_set fs (w_opts w) (handler_args h))
          (\<lambda>(_, st). let w = w\<lparr>w_opts := st\<rparr> in
             Inr (0, upd_log (\<lambda>l. l\<lparr>lg_handlers := (lg_handlers l)(ty := lg_handlers l ty @ [h])\<rparr>) w)))"

definition log_register :: "fs \<Rightarrow> world \<Rightarrow> (int \<times> world) res" where
  "log_register fs w =
     (let w = upd_log (\<lambda>l. l\<lparr>lg_handlers := (\<lambda>ty. [])\<rparr>) w in
      rbind (log_add_handler fs LOG_MSG_TYPE_TEXT Text_handler w)
        (\<lambda>(_, w). rbind (log_add_handler fs LOG_MSG_TYPE_OPER Oper_handler w)
          (\<lambda>(_, w). Inr (0, w))))"

text \<open>The loops over all types visit the chains in the order of the enumeration.\<close>

definition all_handlers :: "world \<Rightarrow> log_handler_t list" where
  "all_handlers w =
     concat (map (lg_handlers (w_log w)) [LOG_MSG_TYPE_MIN, LOG_MSG_TYPE_TEXT, LOG_MSG_TYPE_OPER])"

definition log_usage :: "world \<Rightarrow> world" where
  "log_usage w = fold (\<lambda>h. w_print (sb_print_options (handler_args h))) (all_handlers w) w"

fun init_handlers :: "fpenv \<Rightarrow> log_handler_t list \<Rightarrow> world \<Rightarrow> (int \<times> world) res" where
  "init_handlers fp [] w = Inr (0, w)"
| "init_handlers fp (h # hs) w =
     rbind (case h of Text_handler \<Rightarrow> text_handler_init w | Oper_handler \<Rightarrow> oper_handler_init fp w)
       (\<lambda>(rc, w). if rc \<noteq> 0 then Inr (1, w) else init_handlers fp hs w)"

definition log_init :: "fpenv \<Rightarrow> world \<Rightarrow> (int \<times> world) res" where
  "log_init fp w =
     rbind (init_handlers fp (all_handlers w) w)
       (\<lambda>(rc, w). if rc \<noteq> 0 then Inr (1, w) else Inr (0, upd_log (\<lambda>l. l\<lparr>lg_initialized := True\<rparr>) w))"

text \<open>The text handler has no \<^verbatim>\<open>done\<close> operation.\<close>

definition log_done :: "fpenv \<Rightarrow> world \<Rightarrow> world res" where
  "log_done fp w =
     rbind (rfold (\<lambda>h w. case h of
                      Text_handler \<Rightarrow> Inr w
                    | Oper_handler \<Rightarrow> rbind (oper_handler_done fp w) (\<lambda>(_, w). Inr w))
              (all_handlers w) w)
       (\<lambda>w. Inr (upd_log (\<lambda>l. l\<lparr>lg_initialized := False\<rparr>) w))"

section \<open>Text messages\<close>

text \<open>
  A message is logged as its text followed by a newline, cut to the 4095 characters that fit
  into the buffer: no message, however long, writes beyond the buffer, and one of up to 4094 characters is logged whole.
\<close>

lemma log_buffer_bounded:
  "log_buffer s = take (TEXT_BUFFER_SIZE - 1) (s @ newline) \<and> length (log_buffer s) < TEXT_BUFFER_SIZE"
  by (auto simp: log_buffer_def snprintf_text_def TEXT_BUFFER_SIZE_def Let_def min_def)

lemma log_buffer_eq: "log_buffer s = take 4095 (s @ newline)"
  by (auto simp: log_buffer_def snprintf_text_def TEXT_BUFFER_SIZE_def Let_def)

lemma log_buffer_take: "take 4096 (log_buffer s) = log_buffer s"
  by (simp add: log_buffer_eq)

definition logger_ready :: "world \<Rightarrow> bool" where
  "logger_ready w \<longleftrightarrow> lg_initialized (w_log w) \<and> lg_handlers (w_log w) LOG_MSG_TYPE_TEXT = [Text_handler]"

lemma log_text_ready:
  "logger_ready w \<Longrightarrow> log_text p s w = Inr (text_handler_process p (log_buffer s) False w)"
  by (simp add: log_text_def logger_ready_def log_text_msg_def text_dispatch_def Let_def)

text \<open>What a text message leaves alone, and that it only adds to the output.\<close>

definition text_frame :: "world \<Rightarrow> world \<Rightarrow> bool" where
  "text_frame w w' \<longleftrightarrow>
     w_globals w' = w_globals w \<and> w_clock w' = w_clock w \<and> w_ticks w' = w_ticks w \<and>
     os_options (w_opts w') = os_options (w_opts w) \<and> os_mem (w_opts w') = os_mem (w_opts w) \<and>
     (\<exists>out. w_out w' = w_out w @ out) \<and>
     lg_handlers (w_log w') = lg_handlers (w_log w) \<and> lg_initialized (w_log w') = lg_initialized (w_log w) \<and>
     lg_percentile (w_log w') = lg_percentile (w_log w) \<and> lg_timers (w_log w') = lg_timers (w_log w)"

lemma text_frame_refl [simp]: "text_frame w w"
  by (simp add: text_frame_def)

lemma text_frame_trans: "text_frame w w' \<Longrightarrow> text_frame w' w'' \<Longrightarrow> text_frame w w''"
  by (auto simp: text_frame_def)

lemma text_frame_ready: "text_frame w w' \<Longrightarrow> logger_ready w \<Longrightarrow> logger_ready w'"
  by (simp add: text_frame_def logger_ready_def)

lemma text_handler_process_frame: "text_frame w (text_handler_process p s d w)"
  by (simp add: text_frame_def text_handler_process_def Let_def)

lemma log_reqs_ready:
  "logger_ready w \<Longrightarrow> \<exists>w'. log_reqs msgs w = Inr w' \<and> text_frame w w'"
proof (induction msgs arbitrary: w)
  case (Cons m msgs)
  obtain p s where m: "m = (p, s)" by (cases m)
  let ?w = "text_handler_process p (log_buffer s) False w"
  have f: "text_frame w ?w" by (rule text_handler_process_frame)
  obtain w' where "log_reqs msgs ?w = Inr w'" "text_frame ?w w'"
    using Cons.IH text_frame_ready [OF f Cons.prems] by blast
  then show ?case
    using Cons.prems m text_frame_trans [OF f] by (auto simp: log_reqs_def log_text_ready)
qed (simp add: log_reqs_def)

lemma log_reqs_append: "log_reqs (xs @ ys) w = rbind (log_reqs xs w) (log_reqs ys)"
  by (simp add: log_reqs_def rfold_append)

lemma log_reqs_Cons: "log_reqs ((p, s) # ys) w = rbind (log_text p s w) (log_reqs ys)"
  by (simp add: log_reqs_def)

lemma log_text_shown:
  assumes "logger_ready w" and "priority_num p \<le> uint (g_verbosity (w_globals w))"
    and "lg_text_buf (w_log w) \<noteq> log_buffer s"
  shows "\<exists>w'. log_text p s w = Inr w' \<and> text_frame w w' \<and> lg_text_buf (w_log w') = log_buffer s \<and> lg_text_cnt (w_log w') = 0 \<and>
    w_out w' = w_out w @
      (if lg_text_cnt (w_log w) > 0
       then ''(last message repeated '' @ print_nat (unat (lg_text_cnt (w_log w))) @ '' times)'' @ newline else [])
      @ prefix_of p @ log_buffer s"
  using assms text_handler_process_frame [of w p "log_buffer s" False]
  by (simp add: log_text_ready text_handler_process_def Let_def TEXT_BUFFER_SIZE_def log_buffer_take)

lemma log_text_repeated:
  assumes "logger_ready w" and "priority_num p \<le> uint (g_verbosity (w_globals w))"
    and "lg_text_buf (w_log w) = log_buffer s"
  shows "log_text p s w = Inr (upd_log (\<lambda>l. l\<lparr>lg_text_cnt := lg_text_cnt l + 1\<rparr>) w)"
  using assms by (simp add: log_text_ready text_handler_process_def)

lemma log_reqs_replicate:
  "logger_ready w \<Longrightarrow> priority_num p \<le> uint (g_verbosity (w_globals w)) \<Longrightarrow> lg_text_buf (w_log w) = log_buffer s \<Longrightarrow>
   log_reqs (replicate k (p, s)) w = Inr (upd_log (\<lambda>l. l\<lparr>lg_text_cnt := lg_text_cnt l + of_nat k\<rparr>) w)"
proof (induction k arbitrary: w)
  case (Suc k)
  let ?w = "upd_log (\<lambda>l. l\<lparr>lg_text_cnt := lg_text_cnt l + 1\<rparr>) w"
  have "logger_ready ?w"
    using Suc.prems(1) by (simp add: logger_ready_def)
  then have "log_reqs (replicate k (p, s)) ?w = Inr (upd_log (\<lambda>l. l\<lparr>lg_text_cnt := lg_text_cnt l + of_nat k\<rparr>) ?w)"
    using Suc.prems by (intro Suc.IH) auto
  then show ?case
    using Suc.prems log_text_repeated [OF Suc.prems] by (simp add: log_reqs_Cons add.assoc)
qed (simp add: log_reqs_def)

text \<open>A run is a message with the number of its immediate repetitions; what is printed for a list of runs.\<close>

type_synonym run = "log_msg_priority_t \<times> string \<times> nat"

fun runs_out :: "nat \<Rightarrow> run list \<Rightarrow> string" where
  "runs_out c [] = []"
| "runs_out c ((p, s, k) # rs) =
     (if c > 0 then ''(last message repeated '' @ print_nat c @ '' times)'' @ newline else [])
     @ prefix_of p @ log_buffer s @ runs_out k rs"

fun runs_ok :: "string \<Rightarrow> run list \<Rightarrow> bool" where
  "runs_ok prev [] \<longleftrightarrow> True"
| "runs_ok prev ((p, s, k) # rs) \<longleftrightarrow> log_buffer s \<noteq> prev \<and> k < 2 ^ 32 \<and> runs_ok (log_buffer s) rs"

definition expand_runs :: "run list \<Rightarrow> log_req list" where
  "expand_runs rs = concat (map (\<lambda>(p, s, k). replicate (Suc k) (p, s)) rs)"

text \<open>
  Repeated messages are suppressed without losing their number: for every sequence of
  messages within the verbosity, split into runs of equal consecutive texts, each run is printed once, and its number of
  repetitions is printed before the next different message; the repetitions of the last run are still counted in
  \<^verbatim>\<open>text_cnt\<close>.
\<close>

lemma log_text_runs:
  assumes "logger_ready w" and "\<forall>(p, s, k)\<in>set rs. priority_num p \<le> uint (g_verbosity (w_globals w))"
    and "runs_ok (lg_text_buf (w_log w)) rs"
  shows "\<exists>w'. log_reqs (expand_runs rs) w = Inr w' \<and>
           w_out w' = w_out w @ runs_out (unat (lg_text_cnt (w_log w))) rs \<and>
           (rs \<noteq> [] \<longrightarrow> unat (lg_text_cnt (w_log w')) = snd (snd (last rs)))"
  using assms
proof (induction rs arbitrary: w)
  case (Cons r rs)
  obtain p s k where r: "r = (p, s, k)" by (cases r)
  have p: "priority_num p \<le> uint (g_verbosity (w_globals w))" and k: "k < 2 ^ 32"
    and s: "lg_text_buf (w_log w) \<noteq> log_buffer s" and rs: "runs_ok (log_buffer s) rs"
    using Cons.prems r by auto
  obtain w1 where w1: "log_text p s w = Inr w1" "text_frame w w1" "lg_text_buf (w_log w1) = log_buffer s"
      "lg_text_cnt (w_log w1) = 0" "w_out w1 = w_out w @ runs_out (unat (lg_text_cnt (w_log w))) [(p, s, 0)]"
    using log_text_shown [OF Cons.prems(1) p s] by (auto simp: word_neq_0_conv unat_gt_0)
  let ?w2 = "upd_log (\<lambda>l. l\<lparr>lg_text_cnt := lg_text_cnt l + of_nat k\<rparr>) w1"
  have ready1: "logger_ready w1" "g_verbosity (w_globals w1) = g_verbosity (w_globals w)"
    using w1(2) Cons.prems(1) text_frame_ready by (auto simp: text_frame_def)
  have rep: "log_reqs (replicate k (p, s)) w1 = Inr ?w2"
    using ready1 p w1(3) by (intro log_reqs_replicate) auto
  have cnt: "unat (lg_text_cnt (w_log ?w2)) = k"
    using w1(4) k by (simp add: unat_of_nat take_bit_nat_eq_self)
  have "\<exists>w'. log_reqs (expand_runs rs) ?w2 = Inr w' \<and> w_out w' = w_out ?w2 @ runs_out (unat (lg_text_cnt (w_log ?w2))) rs \<and>
      (rs \<noteq> [] \<longrightarrow> unat (lg_text_cnt (w_log w')) = snd (snd (last rs)))"
  proof (rule Cons.IH)
    show "logger_ready ?w2" using ready1(1) by (simp add: logger_ready_def)
    show "\<forall>(p, s, k)\<in>set rs. priority_num p \<le> uint (g_verbosity (w_globals ?w2))"
      using Cons.prems(2) ready1(2) by auto
    show "runs_ok (lg_text_buf (w_log ?w2)) rs" using rs w1(3) by simp
  qed
  then obtain w' where w': "log_reqs (expand_runs rs) ?w2 = Inr w'" "w_out w' = w_out ?w2 @ runs_out k rs"
      "rs \<noteq> [] \<Longrightarrow> unat (lg_text_cnt (w_log w')) = snd (snd (last rs))"
    unfolding cnt by blast
  have "log_reqs (expand_runs (r # rs)) w = Inr w'"
    using w1(1) rep w'(1) r by (simp add: expand_runs_def log_reqs_Cons log_reqs_append)
  moreover have "w_out w' = w_out w @ runs_out (unat (lg_text_cnt (w_log w))) (r # rs)"
    using w'(2) w1(5) r by simp
  moreover have "unat (lg_text_cnt (w_log w')) = snd (snd (last (r # rs)))"
  proof (cases "rs = []")
    case True
    then have "w' = ?w2" using w'(1) by (simp add: expand_runs_def log_reqs_def)
    then show ?thesis using True cnt r by simp
  qed (use w'(3) in simp)
  ultimately show ?case by blast
qed (simp add: expand_runs_def log_reqs_def)

definition sample_globals :: sb_globals_t where
  "sample_globals = \<lparr>g_command = SB_COMMAND_RUN, g_error = 0, g_exec_timer = sb_timer_init timer_zero,
     g_cumulative_timer1 = sb_timer_init timer_zero, g_cumulative_timer2 = sb_timer_init timer_zero,
     g_num_threads = 2, g_num_running = 0, g_report_interval = 0, g_percentile_rank = 95,
     g_checkpoints = [], g_n_checkpoints = 0, g_tx_rate = 0, g_max_requests = 0, g_max_time = 0,
     g_debug = False, g_force_shutdown = False, g_timeout = 0, g_validate = False, g_verbosity = 3,
     g_event_queue_length = 0, g_concurrency = 0, g_forced_shutdown_in_progress = False\<rparr>"

definition sample_world :: world where
  "sample_world = \<lparr>w_globals = sample_globals, w_opts = empty_opts,
     w_log = \<lparr>lg_handlers = (\<lambda>ty. if ty = LOG_MSG_TYPE_TEXT then [Text_handler] else if ty = LOG_MSG_TYPE_OPER then [Oper_handler] else []),
              lg_initialized = True, lg_percentile = Some sample_percentile, lg_text_cnt = 0, lg_text_buf = [],
              lg_timers = replicate 2 (sb_timer_init timer_zero)\<rparr>,
     w_clock = (\<lambda>n. instant (int n) 0), w_ticks = 0\<rparr>"

lemma sample_world_ready [simp]: "logger_ready sample_world"
  by (simp add: logger_ready_def sample_world_def)

lemma log_text_runs_witness:
  "\<exists>w'. log_reqs (expand_runs [(LOG_WARNING, ''a'', 2), (LOG_NOTICE, ''b'', 0)]) sample_world = Inr w' \<and>
     w_out w' = runs_out 0 [(LOG_WARNING, ''a'', 2), (LOG_NOTICE, ''b'', 0)] \<and> unat (lg_text_cnt (w_log w')) = 0"
  using log_text_runs [of sample_world "[(LOG_WARNING, ''a'', 2), (LOG_NOTICE, ''b'', 0)]"]
  by (auto simp: sample_world_def sample_globals_def priority_num_def log_buffer_eq empty_opts_def logger_ready_def)

text \<open>
  \<^verbatim>\<open>log_errno\<close> is safe exactly for messages of at most 4096 characters: for a longer one the
  test \<^verbatim>\<open>n == TEXT_BUFFER_SIZE\<close> does not hold and the error text is written behind the buffer.
\<close>

lemma log_errno_overflow:
  "logger_ready w \<Longrightarrow> (log_errno p e strerr s w = Inl Out_of_bounds) \<longleftrightarrow> length s > TEXT_BUFFER_SIZE"
  by (simp add: log_errno_def Let_def log_text_ready)

lemma log_errno_overflow_witness:
  "log_errno LOG_FATAL 2 ''No such file'' (replicate 4097 CHR ''x'') sample_world = Inl Out_of_bounds"
  using log_errno_overflow [of sample_world LOG_FATAL 2 "''No such file''" "replicate 4097 CHR ''x''"]
  by (simp add: TEXT_BUFFER_SIZE_def)
section \<open>Operation messages and the report\<close>

definition oper_ready :: "fpenv \<Rightarrow> world \<Rightarrow> bool" where
  "oper_ready fp w \<longleftrightarrow>
     logger_ready w \<and> lg_handlers (w_log w) LOG_MSG_TYPE_OPER = [Oper_handler] \<and>
     list_all sb_timer_initialized (lg_timers (w_log w)) \<and>
     (\<exists>p. lg_percentile (w_log w) = Some p \<and> percentile_wf fp p)"

lemma log_event_oper:
  assumes "oper_ready fp w"
  shows "LOG_EVENT_START fp i w = oper_handler_process fp LOG_MSG_OPER_START i w"
    and "LOG_EVENT_STOP fp i w = oper_handler_process fp LOG_MSG_OPER_STOP i w"
  using assms by (simp_all add: LOG_EVENT_START_def LOG_EVENT_STOP_def log_msg_def oper_ready_def del: rfold.simps)

lemma sb_timer_initialized_start:
  "sb_timer_initialized t \<Longrightarrow> \<exists>t' msgs. sb_timer_start now t = Inr (t', msgs) \<and> sb_timer_initialized t' \<and>
     time_start t' = now \<and> queue_time t' = queue_time t \<and> state t' = TIMER_RUNNING"
  by (cases "state t") (auto simp: sb_timer_start_def sb_timer_initialized_def)

lemma sb_timer_initialized_stop:
  assumes "sb_timer_initialized t"
  shows "\<exists>t' msgs. sb_timer_stop now t = Inr (t', msgs) \<and> sb_timer_initialized t' \<and> sb_timer_value now t' = Inr (elapsed t', t', [])"
proof -
  obtain t' msgs where t': "sb_timer_stop now t = Inr (t', msgs)"
    using assms by (cases "state t") (auto simp: sb_timer_stop_def sb_timer_initialized_def Let_def)
  then show ?thesis
    using sb_timer_stop_fields(2) [OF t'] by (auto simp: sb_timer_initialized_def sb_timer_value_def)
qed

lemma list_all_update: "list_all P xs \<Longrightarrow> P x \<Longrightarrow> list_all P (xs[i := x])"
  by (cases "i < length xs") (auto simp: list_all_length nth_list_update)

lemma oper_start:
  assumes "oper_ready fp w" and i: "i < length (lg_timers (w_log w))"
  shows "\<exists>w' t'. LOG_EVENT_START fp (int i) w = Inr w' \<and> oper_ready fp w' \<and>
    lg_timers (w_log w') = (lg_timers (w_log w))[i := t'] \<and> time_start t' = w_clock w (w_ticks w) \<and>
    queue_time t' = queue_time (lg_timers (w_log w) ! i) \<and> state t' = TIMER_RUNNING \<and>
    (\<forall>ds. timer_stats t' ds \<longleftrightarrow> timer_stats (lg_timers (w_log w) ! i) ds) \<and>
    lg_percentile (w_log w') = lg_percentile (w_log w) \<and> w_clock w' = w_clock w \<and> w_ticks w' = Suc (w_ticks w) \<and>
    w_globals w' = w_globals w"
proof -
  let ?now = "w_clock w (w_ticks w)" and ?t = "lg_timers (w_log w) ! i"
  have init: "sb_timer_initialized ?t"
    using assms by (simp add: oper_ready_def list_all_length)
  obtain t' msgs where t': "sb_timer_start ?now ?t = Inr (t', msgs)" "sb_timer_initialized t'" "time_start t' = ?now"
      "queue_time t' = queue_time ?t" "state t' = TIMER_RUNNING"
    using sb_timer_initialized_start [OF init] by blast
  let ?w = "upd_log (\<lambda>l. l\<lparr>lg_timers := (lg_timers l)[i := t']\<rparr>) (w\<lparr>w_ticks := w_ticks w + 1\<rparr>)"
  have "logger_ready ?w"
    using assms by (simp add: oper_ready_def logger_ready_def)
  then obtain w' where w': "log_reqs msgs ?w = Inr w'" "text_frame ?w w'"
    using log_reqs_ready by blast
  have "LOG_EVENT_START fp (int i) w = Inr w'"
    using log_event_oper [OF assms(1)] i t'(1) w'(1)
    by (simp add: oper_handler_process_def SB_GETTIME_def Let_def)
  moreover have "oper_ready fp w'"
    using w'(2) text_frame_ready [OF w'(2) \<open>logger_ready ?w\<close>] assms t'(2)
    by (auto simp: oper_ready_def text_frame_def list_all_update)
  ultimately show ?thesis
    using w'(2) t' timer_stats_start [OF t'(1)] by (auto simp: text_frame_def)
qed

lemma oper_stop:
  assumes fp: "fp_ok fp" and "oper_ready fp w" and i: "i < length (lg_timers (w_log w))"
  shows "\<exists>w' t' p p'. LOG_EVENT_STOP fp (int i) w = Inr w' \<and> oper_ready fp w' \<and>
    lg_timers (w_log w') = (lg_timers (w_log w))[i := t'] \<and> state t' = TIMER_STOPPED \<and>
    (\<forall>ds. timer_stats (lg_timers (w_log w) ! i) ds \<longrightarrow>
       timer_stats t' (ds @ [TIMESPEC_DIFF (w_clock w (w_ticks w)) (time_start (lg_timers (w_log w) ! i))
                             + queue_time (lg_timers (w_log w) ! i)])) \<and>
    lg_percentile (w_log w) = Some p \<and> lg_percentile (w_log w') = Some p' \<and> pc_total p' = pc_total p + 1 \<and>
    w_clock w' = w_clock w \<and> w_ticks w' = Suc (w_ticks w) \<and> w_globals w' = w_globals w"
proof -
  let ?now = "w_clock w (w_ticks w)" and ?t = "lg_timers (w_log w) ! i"
  have init: "sb_timer_initialized ?t"
    using assms by (simp add: oper_ready_def list_all_length)
  obtain p where p: "lg_percentile (w_log w) = Some p" "percentile_wf fp p"
    using assms(2) by (auto simp: oper_ready_def)
  obtain t' msgs where t': "sb_timer_stop ?now ?t = Inr (t', msgs)" "sb_timer_initialized t'"
      "sb_timer_value ?now t' = Inr (elapsed t', t', [])"
    using sb_timer_initialized_stop [OF init] by blast
  let ?store = "\<lambda>w. upd_log (\<lambda>l. l\<lparr>lg_timers := (lg_timers l)[i := t']\<rparr>) w"
  have "logger_ready (?store (w\<lparr>w_ticks := w_ticks w + 1\<rparr>))"
    using assms by (simp add: oper_ready_def logger_ready_def)
  then obtain w1 where w1: "log_reqs msgs (?store (w\<lparr>w_ticks := w_ticks w + 1\<rparr>)) = Inr w1"
      "text_frame (?store (w\<lparr>w_ticks := w_ticks w + 1\<rparr>)) w1" "logger_ready w1"
    using log_reqs_ready text_frame_ready by blast
  obtain j p' where p': "sb_percentile_update fp p (fp_round fp (real_of_int (sint (elapsed t')))) = Inr p'" "percentile_wf fp p'"
      "pc_total p' = pc_total p + 1"
    using percentile_update_total [OF fp p(2)] by blast
  let ?w' = "upd_log (\<lambda>l. l\<lparr>lg_percentile := Some p'\<rparr>) (?store w1)"
  have same: "lg_timers (w_log w1) = (lg_timers (w_log w))[i := t']" "lg_percentile (w_log w1) = Some p"
      "w_clock w1 = w_clock w" "w_ticks w1 = Suc (w_ticks w)" "lg_handlers (w_log w1) = lg_handlers (w_log w)"
      "w_globals w1 = w_globals w"
    using w1(2) p(1) by (auto simp: text_frame_def)
  have "LOG_EVENT_STOP fp (int i) w = Inr ?w'"
    using log_event_oper [OF assms(2)] i t' w1(1) p'(1) same
    by (simp add: oper_handler_process_def SB_GETTIME_def log_reqs_def Let_def)
  moreover have "oper_ready fp ?w'"
    using same w1(3) assms(2) p'(2) t'(2) by (simp add: oper_ready_def logger_ready_def list_all_update)
  ultimately show ?thesis
    using same p p' sb_timer_stop_fields(2) [OF t'(1)] timer_stats_stop [OF _ t'(1)]
    by (intro exI [of _ ?w'] exI [of _ t'] exI [of _ p] exI [of _ p']) simp
qed

text \<open>
  (C12) Every event is measured exactly once: for any thread of the test, an event start
  followed by its stop adds one duration to the statistics of that thread, the time between the two
  clock readings plus the time in the queue, and one observation to the histogram; the timers of
  the other threads are untouched and no fault can occur.
\<close>

theorem event_measured_once:
  assumes "fp_ok fp" and "oper_ready fp w" and "i < length (lg_timers (w_log w))"
    and "timer_stats (lg_timers (w_log w) ! i) ds" and "lg_percentile (w_log w) = Some p"
  shows "\<exists>w1 w2 t p'. LOG_EVENT_START fp (int i) w = Inr w1 \<and> LOG_EVENT_STOP fp (int i) w1 = Inr w2 \<and>
           lg_timers (w_log w2) = (lg_timers (w_log w))[i := t] \<and>
           timer_stats t (ds @ [TIMESPEC_DIFF (w_clock w (Suc (w_ticks w))) (w_clock w (w_ticks w))
                                + queue_time (lg_timers (w_log w) ! i)]) \<and>
           lg_percentile (w_log w2) = Some p' \<and> pc_total p' = pc_total p + 1 \<and> oper_ready fp w2"
proof -
  obtain w1 t1 where w1: "LOG_EVENT_START fp (int i) w = Inr w1" "oper_ready fp w1"
      "lg_timers (w_log w1) = (lg_timers (w_log w))[i := t1]" "time_start t1 = w_clock w (w_ticks w)"
      "queue_time t1 = queue_time (lg_timers (w_log w) ! i)" "timer_stats t1 ds"
      "lg_percentile (w_log w1) = Some p" "w_clock w1 = w_clock w" "w_ticks w1 = Suc (w_ticks w)"
    using oper_start [OF assms(2,3)] assms(4,5) by auto
  have len: "i < length (lg_timers (w_log w1))"
    using w1(3) assms(3) by simp
  obtain w2 t2 q p' where w2: "LOG_EVENT_STOP fp (int i) w1 = Inr w2" "oper_ready fp w2"
      "lg_timers (w_log w2) = (lg_timers (w_log w1))[i := t2]"
      "timer_stats (lg_timers (w_log w1) ! i) ds \<Longrightarrow>
         timer_stats t2 (ds @ [TIMESPEC_DIFF (w_clock w1 (w_ticks w1)) (time_start (lg_timers (w_log w1) ! i))
                               + queue_time (lg_timers (w_log w1) ! i)])"
      "lg_percentile (w_log w1) = Some q" "lg_percentile (w_log w2) = Some p'" "pc_total p' = pc_total q + 1"
    using oper_stop [OF assms(1) w1(2) len] by blast
  then show ?thesis
    using w1 assms(3) by auto
qed

lemma sample_world_oper: "oper_ready fp_exact sample_world"
  using sample_percentile_wf
  by (simp add: oper_ready_def sample_world_def logger_ready_def sb_timer_initialized_def sb_timer_init_def Let_def
        numeral_2_eq_2)

lemma event_measured_once_witness:
  "\<exists>w1 w2 t. LOG_EVENT_START fp_exact 1 sample_world = Inr w1 \<and> LOG_EVENT_STOP fp_exact 1 w1 = Inr w2 \<and>
     lg_timers (w_log w2) = [sb_timer_init timer_zero, t] \<and> timer_stats t [1000000000]"
  using event_measured_once [OF fp_exact_ok sample_world_oper, of 1 "[]" sample_percentile] timer_stats_init [of timer_zero]
  by (auto simp: sample_world_def numeral_2_eq_2 TIMESPEC_DIFF_ns ns_def instant_def sb_timer_init_def sb_timer_reset_def Let_def)
lemma log_text_buf:
  assumes "logger_ready w" and "priority_num p \<le> uint (g_verbosity (w_globals w))"
  shows "\<exists>w'. log_text p s w = Inr w' \<and> text_frame w w' \<and> lg_text_buf (w_log w') = log_buffer s"
proof (cases "lg_text_buf (w_log w) = log_buffer s")
  case True
  then show ?thesis
    using log_text_repeated [OF assms True] by (simp add: text_frame_def)
next
  case False
  then show ?thesis using log_text_shown [OF assms False] by blast
qed

lemma print_int_nat: "0 \<le> i \<Longrightarrow> print_int i = print_nat (nat i)"
  by (simp add: print_int_def)

definition events_line :: "nat \<Rightarrow> string" where
  "events_line n = ''    total number of events:              '' @ print_nat n @ newline"

text \<open>
  The line with the number of events, when the first lines of the report have been logged: it is printed.
\<close>

lemma general_statistics_events:
  assumes ready: "logger_ready w" and verb: "3 \<le> uint (g_verbosity (w_globals w))" and n: "n < 2 ^ 63" "events t = of_nat n"
  shows "\<exists>w' pre post. log_reqs (general_statistics fp g tot pv t) w = Inr w' \<and> text_frame w w' \<and>
           w_out w' = w_out w @ pre @ events_line n @ post"
proof -
  let ?time = "''    total time:                          '' @ fmt_fixed 4 (NS2SEC fp tot) @ ''s''"
  let ?ev = "''    total number of events:              '' @ print_nat n"
  define rest where "rest = drop 4 (general_statistics fp g tot pv t)"
  have sint: "sint (events t) = int n"
    using n by (simp add: sint_of_nat_u64)
  have gs: "general_statistics fp g tot pv t =
      [(LOG_NOTICE, []), (LOG_NOTICE, ''General statistics:'')] @ (LOG_NOTICE, ?time) # (LOG_NOTICE, ?ev) # rest"
    by (simp add: general_statistics_def rest_def sint print_int_nat)
  obtain w1 where w1: "log_reqs [(LOG_NOTICE, []), (LOG_NOTICE, ''General statistics:'')] w = Inr w1" "text_frame w w1"
    using log_reqs_ready [OF ready] by blast
  have r1: "logger_ready w1" "3 \<le> uint (g_verbosity (w_globals w1))"
    using w1(2) ready verb text_frame_ready by (auto simp: text_frame_def)
  obtain w2 where w2: "log_text LOG_NOTICE ?time w1 = Inr w2" "text_frame w1 w2" "lg_text_buf (w_log w2) = log_buffer ?time"
    using log_text_buf [OF r1(1), of LOG_NOTICE ?time] r1(2) by (auto simp: priority_num_def)
  have r2: "logger_ready w2" "3 \<le> uint (g_verbosity (w_globals w2))"
    using w2(2) r1 text_frame_ready by (auto simp: text_frame_def)
  have "log_buffer ?time ! 10 = CHR ''t''" "log_buffer ?ev ! 10 = CHR ''n''"
    by (simp_all add: log_buffer_eq)
  then have ne: "log_buffer ?time \<noteq> log_buffer ?ev" by auto
  have "length (print_nat n) \<le> 19"
    using n(1) by (intro length_print_nat) auto
  then have ev: "log_buffer ?ev = events_line n"
    by (simp add: log_buffer_eq events_line_def)
  obtain w3 pre where w3: "log_text LOG_NOTICE ?ev w2 = Inr w3" "text_frame w2 w3" "w_out w3 = w_out w2 @ pre @ events_line n"
    using log_text_shown [OF r2(1), of LOG_NOTICE ?ev] r2(2) w2(3) ne ev by (auto simp: priority_num_def prefix_of_def)
  obtain w4 where w4: "log_reqs rest w3 = Inr w4" "text_frame w3 w4"
    using log_reqs_ready text_frame_ready [OF w3(2) r2(1)] by blast
  have "log_reqs (general_statistics fp g tot pv t) w = Inr w4"
    unfolding gs log_reqs_append using w1(1) w2(1) w3(1) w4(1) by (simp add: log_reqs_Cons)
  moreover have "text_frame w w4"
    using w1(2) w2(2) w3(2) w4(2) text_frame_trans by blast
  moreover obtain o1 o2 where "w_out w2 = w_out w @ o1" "w_out w4 = w_out w3 @ o2"
    using text_frame_trans [OF w1(2) w2(2)] w4(2) by (auto simp: text_frame_def)
  then have "w_out w4 = w_out w @ (o1 @ pre) @ events_line n @ o2"
    using w3(3) by simp
  ultimately show ?thesis by blast
qed

lemma sb_timer_split_total_call:
  "state t \<noteq> TIMER_UNINITIALIZED \<Longrightarrow> \<exists>r t' msgs. sb_timer_split now t = Inr (r, t', msgs)"
  by (cases "state t"; cases "TIMESPEC_DIFF (time_end t) (time_split t) = 0") (simp_all add: sb_timer_split_def Let_def)

lemma w_split_ready:
  assumes "logger_ready w" and "sb_timer_initialized (sel (w_globals w))"
  shows "\<exists>v t w'. w_split sel put w = Inr (v, w') \<and> logger_ready w' \<and> w_globals w' = put t (w_globals w)"
proof -
  let ?now = "w_clock w (w_ticks w)"
  obtain v t msgs where sp: "sb_timer_split ?now (sel (w_globals w)) = Inr (v, t, msgs)"
    using assms(2) sb_timer_split_total_call [of "sel (w_globals w)" ?now] by (auto simp: sb_timer_initialized_def)
  let ?w1 = "upd_globals (put t) (w\<lparr>w_ticks := w_ticks w + 1\<rparr>)"
  have "logger_ready ?w1"
    using assms(1) by (simp add: logger_ready_def)
  then obtain w' where "log_reqs msgs ?w1 = Inr w'" "text_frame ?w1 w'" "logger_ready w'"
    using log_reqs_ready text_frame_ready by blast
  then show ?thesis
    using sp by (auto simp: w_split_def SB_GETTIME_def text_frame_def)
qed

lemma take_global_stats_frame:
  assumes "oper_ready fp w" and "sb_timer_initialized (g_cumulative_timer2 (w_globals w))"
  shows "\<exists>tot pv w1 p1. take_global_stats fp w = Inr (lg_timers (w_log w), tot, pv, w1) \<and> logger_ready w1 \<and>
     g_verbosity (w_globals w1) = g_verbosity (w_globals w) \<and>
     g_forced_shutdown_in_progress (w_globals w1) = g_forced_shutdown_in_progress (w_globals w) \<and>
     lg_timers (w_log w1) = map sb_timer_reset (lg_timers (w_log w)) \<and> lg_handlers (w_log w1) = lg_handlers (w_log w) \<and>
     lg_percentile (w_log w1) = Some p1 \<and> percentile_wf fp p1 \<and> pc_total p1 = 0 \<and> (\<exists>o1. w_out w1 = w_out w @ o1)"
proof -
  let ?now = "w_clock w (w_ticks w)" and ?ct = "g_cumulative_timer2 (w_globals w)"
  obtain tot ct2 msgs where split: "sb_timer_split ?now ?ct = Inr (tot, ct2, msgs)"
    using assms(2) sb_timer_split_total_call [of ?ct ?now] by (auto simp: sb_timer_initialized_def)
  let ?w = "w\<lparr>w_log := (w_log w)\<lparr>lg_timers := map sb_timer_reset (lg_timers (w_log w))\<rparr>, w_ticks := w_ticks w + 1,
               w_globals := (w_globals w)\<lparr>g_cumulative_timer2 := ct2\<rparr>\<rparr>"
  have "logger_ready ?w"
    using assms(1) by (simp add: oper_ready_def logger_ready_def)
  then obtain w1 where w1: "log_reqs msgs ?w = Inr w1" "text_frame ?w w1" "logger_ready w1"
    using log_reqs_ready text_frame_ready by blast
  obtain p where p: "lg_percentile (w_log w1) = Some p" "percentile_wf fp p"
    using w1(2) assms(1) by (auto simp: text_frame_def oper_ready_def)
  obtain r p' where p': "sb_percentile_calculate fp p (real (unat (g_percentile_rank (w_globals w1)))) = Inr (r, p')" "percentile_wf fp p'"
    using percentile_calculate_total [OF p(2)] by blast
  let ?w2 = "upd_log (\<lambda>l. l\<lparr>lg_percentile := Some (sb_percentile_reset p')\<rparr>) w1"
  have "take_global_stats fp w = Inr (lg_timers (w_log w), tot, r, ?w2)"
    using split w1(1) p(1) p'(1) by (simp add: take_global_stats_def SB_GETTIME_def Let_def)
  moreover have "logger_ready ?w2"
    using w1(3) by (simp add: logger_ready_def)
  moreover have "percentile_wf fp (sb_percentile_reset p')" "pc_total (sb_percentile_reset p') = 0"
    using p'(2) percentile_reset_wf by (auto simp: sb_percentile_reset_def)
  ultimately show ?thesis
    using w1(2) by (auto simp: text_frame_def)
qed

text \<open>
  The report is complete and starts a new period: the number of events printed by
  \<^verbatim>\<open>print_global_stats\<close> is the number of all events measured by all threads since the last report, and
  afterwards the statistics of every thread and the histogram are empty, so that the next report counts no event twice.
\<close>

lemma print_global_stats_complete:
  assumes "oper_ready fp w" and "list_all2 timer_stats (lg_timers (w_log w)) dss"
    and "length (concat dss) < 2 ^ 63"
    and "sb_timer_initialized (g_cumulative_timer2 (w_globals w))"
    and "\<not> g_forced_shutdown_in_progress (w_globals w)" and "3 \<le> uint (g_verbosity (w_globals w))"
  shows "\<exists>w' pre post p'. print_global_stats fp w = Inr (0, w') \<and>
           w_out w' = w_out w @ pre @ events_line (length (concat dss)) @ post \<and>
           length (lg_timers (w_log w')) = length (lg_timers (w_log w)) \<and>
           list_all (\<lambda>t. timer_stats t []) (lg_timers (w_log w')) \<and>
           lg_percentile (w_log w') = Some p' \<and> pc_total p' = 0 \<and> oper_ready fp w'"
proof -
  obtain tot pv w1 p1 where w1: "take_global_stats fp w = Inr (lg_timers (w_log w), tot, pv, w1)" "logger_ready w1"
      "g_verbosity (w_globals w1) = g_verbosity (w_globals w)" "\<not> g_forced_shutdown_in_progress (w_globals w1)"
      "lg_timers (w_log w1) = map sb_timer_reset (lg_timers (w_log w))" "lg_handlers (w_log w1) = lg_handlers (w_log w)"
      "lg_percentile (w_log w1) = Some p1" "percentile_wf fp p1" "pc_total p1 = 0" "\<exists>o1. w_out w1 = w_out w @ o1"
    using take_global_stats_frame [OF assms(1,4)] assms(5) by metis
  let ?ts = "lg_timers (w_log w)"
  let ?t = "foldl merge_timers (sb_timer_init timer_zero) ?ts"
  have ev: "events ?t = of_nat (length (concat dss))"
    using timers.rep_merge_all [OF assms(2), of timer_zero] by (simp add: timer_stats_def)
  obtain w2 pre post where w2: "log_reqs (general_statistics fp (w_globals w1) tot pv ?t) w1 = Inr w2" "text_frame w1 w2"
      "w_out w2 = w_out w1 @ pre @ events_line (length (concat dss)) @ post"
    using general_statistics_events [OF w1(2) _ assms(3) ev] w1(3) assms(6) by metis
  let ?fair = "fairness_statistics fp (unat (g_num_threads (w_globals w))) ?t ?ts"
  let ?dbg = "if g_debug (w_globals w1) then debug_statistics fp ?ts else []"
  obtain w3 where w3: "log_reqs ?fair w2 = Inr w3" "text_frame w2 w3"
    using log_reqs_ready text_frame_ready [OF w2(2) w1(2)] by blast
  obtain w4 where w4: "log_reqs ?dbg w3 = Inr w4" "text_frame w3 w4"
    using log_reqs_ready text_frame_ready [OF text_frame_trans [OF w2(2) w3(2)] w1(2)] by blast
  have f: "text_frame w1 w4" "text_frame w2 w4"
    using w2(2) w3(2) w4(2) text_frame_trans by blast+
  have g: "w_globals w3 = w_globals w1"
    using w2(2) w3(2) by (simp add: text_frame_def)
  have "print_global_stats fp w = Inr (0, w4)"
    using w1(1,4) w2(1) w3(1) w4(1) g by (simp add: print_global_stats_def finish_timers_def log_reqs_def split: if_splits)
  moreover obtain o1 o4 where "w_out w1 = w_out w @ o1" "w_out w4 = w_out w2 @ o4"
    using w1(10) f(2) by (auto simp: text_frame_def)
  then have "w_out w4 = w_out w @ (o1 @ pre) @ events_line (length (concat dss)) @ (post @ o4)"
    using w2(3) by simp
  moreover have "lg_timers (w_log w4) = map sb_timer_reset ?ts" "lg_percentile (w_log w4) = Some p1" "oper_ready fp w4"
    using f(1) w1 text_frame_ready [OF f(1) w1(2)] assms(1)
    by (auto simp: text_frame_def oper_ready_def list_all_iff sb_timer_initialized_def sb_timer_reset_def)
  ultimately show ?thesis
    using w1(9) timer_stats_reset by (fastforce simp: list_all_iff)
qed

lemma print_global_stats_complete_witness:
  "\<exists>w' pre post. print_global_stats fp_exact (upd_log (\<lambda>l. l\<lparr>lg_timers :=
       [timer_zero\<lparr>events := 2, sum_time := 12, min_time := 5, max_time := 7, state := TIMER_STOPPED\<rparr>, sb_timer_init timer_zero]\<rparr>) sample_world)
       = Inr (0, w') \<and> w_out w' = pre @ events_line 2 @ post"
proof -
  let ?ts = "[timer_zero\<lparr>events := 2, sum_time := 12, min_time := 5, max_time := 7, state := TIMER_STOPPED\<rparr>, sb_timer_init timer_zero]"
  let ?w = "upd_log (\<lambda>l. l\<lparr>lg_timers := ?ts\<rparr>) sample_world"
  have st: "list_all2 timer_stats (lg_timers (w_log ?w)) [[5, 7], []]"
    using timer_stats_init [of timer_zero] by (simp add: timer_stats_def timer_zero_def min_def max_def)
  have rd: "oper_ready fp_exact ?w"
    using sample_world_oper by (simp add: oper_ready_def logger_ready_def sb_timer_initialized_def sb_timer_init_def Let_def)
  have g: "sb_timer_initialized (g_cumulative_timer2 (w_globals ?w))" "\<not> g_forced_shutdown_in_progress (w_globals ?w)"
      "3 \<le> uint (g_verbosity (w_globals ?w))"
    by (simp_all add: sample_world_def sample_globals_def sb_timer_initialized_def sb_timer_init_def Let_def)
  have out: "w_out ?w = []"
    by (simp add: sample_world_def empty_opts_def)
  have len: "length (concat [[5, 7], []] :: u64 list) = 2" "(2::nat) < 2 ^ 63"
    by simp_all
  show ?thesis
    using print_global_stats_complete [OF rd st _ g, unfolded len(1), OF len(2)] unfolding out by auto
qed

end
