(* ===== verification/SbArgs.thy ===== *)
theory SbArgs
  imports SbLogger SbRand
begin

text \<open>
  The single-threaded start of the program (\<^verbatim>\<open>sysbench.c\<close>): the general options, parsing of the command
  line, usage texts, and the initialisation of the global variables from the
  options. A step that can return early with an error is a function to a return code and the state;
  \<open>pthen\<close> runs the next step only after the code 0.
\<close>

section \<open>State\<close>

record prog =
  pg_w :: world
  pg_rand :: rand_t
  pg_rand_init :: bool
  pg_rand_seed :: int
  pg_pareto_h :: real
  pg_stack_size :: int

abbreviation pg_globals :: "prog \<Rightarrow> sb_globals_t" where "pg_globals pg \<equiv> w_globals (pg_w pg)"
abbreviation pg_opts :: "prog \<Rightarrow> opt_state" where "pg_opts pg \<equiv> w_opts (pg_w pg)"

abbreviation upd_w :: "(world \<Rightarrow> world) \<Rightarrow> prog \<Rightarrow> prog" where
  "upd_w f pg \<equiv> pg\<lparr>pg_w := f (pg_w pg)\<rparr>"

abbreviation upd_g :: "(sb_globals_t \<Rightarrow> sb_globals_t) \<Rightarrow> prog \<Rightarrow> prog" where
  "upd_g f pg \<equiv> upd_w (upd_globals f) pg"

abbreviation set_opts :: "opt_state \<Rightarrow> prog \<Rightarrow> prog" where
  "set_opts st pg \<equiv> upd_w (\<lambda>w. w\<lparr>w_opts := st\<rparr>) pg"

definition p_log :: "log_msg_priority_t \<Rightarrow> string \<Rightarrow> prog \<Rightarrow> prog res" where
  "p_log p s pg = rbind (log_text p s (pg_w pg)) (\<lambda>w. Inr (pg\<lparr>pg_w := w\<rparr>))"

definition p_fail :: "log_msg_priority_t \<Rightarrow> string \<Rightarrow> prog \<Rightarrow> (int \<times> prog) res" where
  "p_fail p s pg = rbind (p_log p s pg) (\<lambda>pg. Inr (1, pg))"

definition pthen :: "(prog \<Rightarrow> (int \<times> prog) res) \<Rightarrow> (prog \<Rightarrow> (int \<times> prog) res) \<Rightarrow> prog \<Rightarrow> (int \<times> prog) res" where
  "pthen f g pg = rbind (f pg) (\<lambda>(rc, pg). if rc \<noteq> 0 then Inr (rc, pg) else g pg)"

section \<open>Options and commands\<close>

definition mk_arg :: "string \<Rightarrow> string \<Rightarrow> sb_arg_type_t \<Rightarrow> string option \<Rightarrow> sb_arg_t" where
  "mk_arg n d ty v = \<lparr>arg_name = n, arg_desc = d, arg_type = ty, arg_value = v\<rparr>"

definition general_args :: "sb_arg_t list" where
  "general_args =
     [mk_arg ''num-threads'' ''number of threads to use'' SB_ARG_TYPE_INT (Some ''1''),
      mk_arg ''max-requests'' ''limit for total number of requests'' SB_ARG_TYPE_INT (Some ''10000''),
      mk_arg ''max-time'' ''limit for total execution time in seconds'' SB_ARG_TYPE_INT (Some ''0''),
      mk_arg ''forced-shutdown'' ''amount of time to wait after --max-time before forcing shutdown'' SB_ARG_TYPE_STRING (Some ''off''),
      mk_arg ''thread-stack-size'' ''size of stack per thread'' SB_ARG_TYPE_SIZE (Some ''64K''),
      mk_arg ''tx-rate'' ''target transaction rate (tps)'' SB_ARG_TYPE_INT (Some ''0''),
      mk_arg ''report-interval'' ''periodically report intermediate statistics with a specified interval in seconds. 0 disables intermediate reports'' SB_ARG_TYPE_INT (Some ''0''),
      mk_arg ''report-checkpoints'' ''dump full statistics and reset all counters at specified points in time. The argument is a list of comma-separated values representing the amount of time in seconds elapsed from start of test when report checkpoint(s) must be performed. Report checkpoints are off by default.'' SB_ARG_TYPE_LIST (Some []),
      mk_arg ''test'' ''test to run'' SB_ARG_TYPE_STRING None,
      mk_arg ''debug'' ''print more debugging info'' SB_ARG_TYPE_FLAG (Some ''off''),
      mk_arg ''validate'' ''perform validation checks where possible'' SB_ARG_TYPE_FLAG (Some ''off''),
      mk_arg ''help'' ''print help and exit'' SB_ARG_TYPE_FLAG None,
      mk_arg ''version'' ''print version and exit'' SB_ARG_TYPE_FLAG (Some ''off''),
      mk_arg ''rand-init'' ''initialize random number generator'' SB_ARG_TYPE_FLAG (Some ''off''),
      mk_arg ''rand-type'' ''random numbers distribution {uniform,gaussian,special,pareto}'' SB_ARG_TYPE_STRING (Some ''special''),
      mk_arg ''rand-spec-iter'' ''number of iterations used for numbers generation'' SB_ARG_TYPE_INT (Some ''12''),
      mk_arg ''rand-spec-pct'' (''percentage of values to be treated as '' @ [CHR 0x27] @ ''special'' @ [CHR 0x27] @ '' (for special distribution)'') SB_ARG_TYPE_INT (Some ''1''),
      mk_arg ''rand-spec-res'' (''percentage of '' @ [CHR 0x27] @ ''special'' @ [CHR 0x27] @ '' values to use (for special distribution)'') SB_ARG_TYPE_INT (Some ''75''),
      mk_arg ''rand-seed'' ''seed for random number generator, ignored when 0'' SB_ARG_TYPE_INT (Some ''0''),
      mk_arg ''rand-pareto-h'' ''parameter h for pareto distibution'' SB_ARG_TYPE_FLOAT (Some ''0.2''),
      mk_arg ''config-file'' ''File containing command line options'' SB_ARG_TYPE_FILE None]"

definition parse_command :: "string \<Rightarrow> sb_cmd_t" where
  "parse_command cmd =
     (if cmd = ''prepare'' then SB_COMMAND_PREPARE
      else if cmd = ''run'' then SB_COMMAND_RUN
      else if cmd = ''help'' then SB_COMMAND_HELP
      else if cmd = ''cleanup'' then SB_COMMAND_CLEANUP
      else if cmd = ''version'' then SB_COMMAND_VERSION
      else SB_COMMAND_NULL)"

text \<open>One option of the command line: the name, and the value if there is a \<^verbatim>\<open>=\<close>.\<close>

definition split_arg :: "string \<Rightarrow> string \<times> string option" where
  "split_arg name = (case strchr name CHR ''='' of None \<Rightarrow> (name, None) | Some (n, v) \<Rightarrow> (n, Some v))"

definition set_from_arg :: "fs \<Rightarrow> string \<Rightarrow> string option \<Rightarrow> opt_state \<Rightarrow> (int \<times> opt_state) res" where
  "set_from_arg fs name value st =
     (case sb_find_option st name of
        None \<Rightarrow> set_option fs st name value SB_ARG_TYPE_STRING
      | Some opt \<Rightarrow> set_option fs st name value (opt_type opt))"

fun parse_argv :: "fs \<Rightarrow> string list \<Rightarrow> prog \<Rightarrow> (int \<times> prog) res" where
  "parse_argv fs [] pg = Inr (0, pg)"
| "parse_argv fs (arg # argv) pg =
     (if take 2 arg \<noteq> ''--'' then
        (if g_command (pg_globals pg) \<noteq> SB_COMMAND_NULL
         then Inr (1, upd_w (w_print (''Multiple commands are not allowed.'' @ newline)) pg)
         else
           (let pg = upd_g (\<lambda>g. g\<lparr>g_command := parse_command arg\<rparr>) pg in
            if g_command (pg_globals pg) = SB_COMMAND_NULL
            then Inr (1, upd_w (w_print (''Unknown command: '' @ arg @ ''.'' @ newline)) pg)
            else parse_argv fs argv pg))
      else
        (case split_arg (drop 2 arg) of (name, value) \<Rightarrow>
           if g_command (pg_globals pg) = SB_COMMAND_HELP then Inr (1, pg)
           else if g_command (pg_globals pg) = SB_COMMAND_VERSION then Inr (0, pg)
           else
             rbind (set_from_arg fs name value (pg_opts pg))
               (\<lambda>(rc, st). let pg = set_opts st pg in
                  if rc \<noteq> 0 then Inr (1, pg) else parse_argv fs argv pg)))"

text \<open>The defaults of the tests are registered up to the first test without options.\<close>

fun register_test_args :: "fs \<Rightarrow> sb_arg_t list option list \<Rightarrow> prog \<Rightarrow> (int \<times> prog) res" where
  "register_test_args fs [] pg = Inr (0, pg)"
| "register_test_args fs (None # rest) pg = Inr (0, pg)"
| "register_test_args fs (Some args # rest) pg =
     rbind (sb_register_arg_set fs (pg_opts pg) args)
       (\<lambda>(rc, st). let pg = set_opts st pg in
          if rc \<noteq> 0 then Inr (1, pg) else register_test_args fs rest pg)"

definition parse_arguments :: "fs \<Rightarrow> sb_arg_t list option list \<Rightarrow> string list \<Rightarrow> prog \<Rightarrow> (int \<times> prog) res" where
  "parse_arguments fs test_args argv pg =
     (let pg = upd_g (\<lambda>g. g\<lparr>g_command := SB_COMMAND_NULL\<rparr>) pg in
      rbind (sb_register_arg_set fs (pg_opts pg) general_args)
        (\<lambda>(rc, st). let pg = set_opts st pg in
           if rc \<noteq> 0 then Inr (1, pg)
           else pthen (register_test_args fs test_args) (parse_argv fs argv) pg))"

definition print_usage :: "(string \<times> string) list \<Rightarrow> prog \<Rightarrow> prog" where
  "print_usage tests pg =
     (let pg = upd_w (w_print (''Usage:'' @ newline @ ''  sysbench [general-options]... --test=<test-name> [test-options]... command''
                @ newline @ newline @ ''General options:'' @ newline @ sb_print_options general_args @ ''Log options:'' @ newline)) pg;
          pg = upd_w log_usage pg
      in upd_w (w_print (''Compiled-in tests:'' @ newline
           @ concat (map (\<lambda>(s, l). ''  '' @ s @ '' - '' @ l @ newline) tests) @ newline
           @ ''Commands: prepare run cleanup help version'' @ newline @ newline
           @ ''See '' @ [CHR 0x27] @ ''sysbench --test=<name> help'' @ [CHR 0x27] @ '' for a list of options for each test.'' @ newline @ newline)) pg)"

definition print_header :: "string \<Rightarrow> prog \<Rightarrow> prog res" where
  "print_header version_string =
     p_log LOG_NOTICE (version_string @ '':  multi-threaded system evaluation benchmark'' @ newline)"

section \<open>Initialisation\<close>

definition checkpoint_cmp :: "u32 \<Rightarrow> u32 \<Rightarrow> int" where
  "checkpoint_cmp a b = sint (a - b)"

text \<open>\<^verbatim>\<open>qsort\<close> with a comparison function.\<close>

fun insert_by :: "('a \<Rightarrow> 'a \<Rightarrow> int) \<Rightarrow> 'a \<Rightarrow> 'a list \<Rightarrow> 'a list" where
  "insert_by cmp x [] = [x]"
| "insert_by cmp x (y # ys) = (if cmp x y \<le> 0 then x # y # ys else y # insert_by cmp x ys)"

definition qsort :: "('a \<Rightarrow> 'a \<Rightarrow> int) \<Rightarrow> 'a list \<Rightarrow> 'a list" where
  "qsort cmp xs = foldr (insert_by cmp) xs []"

definition get_int :: "string \<Rightarrow> prog \<Rightarrow> int res" where
  "get_int name pg = sb_get_value_int (pg_opts pg) name"

definition init_limits :: "prog \<Rightarrow> (int \<times> prog) res" where
  "init_limits pg =
     rbind (get_int ''num-threads'' pg) (\<lambda>n.
       let pg = upd_g (\<lambda>g. g\<lparr>g_num_threads := word_of_int n\<rparr>) pg in
       if g_num_threads (pg_globals pg) = 0
       then p_fail LOG_FATAL (''Invalid value for --num-threads: '' @ print_int (sint (g_num_threads (pg_globals pg))) @ ''.'' @ newline) pg
       else
         rbind (get_int ''max-requests'' pg) (\<lambda>r.
         rbind (get_int ''max-time'' pg) (\<lambda>t.
           let pg = upd_g (\<lambda>g. g\<lparr>g_max_requests := word_of_int r, g_max_time := word_of_int t\<rparr>) pg in
           if g_max_requests (pg_globals pg) = 0 \<and> g_max_time (pg_globals pg) = 0
           then rbind (p_log LOG_WARNING ''WARNING: Both max-requests and max-time are 0, running endless test'' pg) (\<lambda>pg. Inr (0, pg))
           else Inr (0, pg))))"

text \<open>The value of \<^verbatim>\<open>--forced-shutdown\<close>; a percentage is taken of the time limit.\<close>

definition init_shutdown :: "fpenv \<Rightarrow> prog \<Rightarrow> (int \<times> prog) res" where
  "init_shutdown fp pg =
     (let max_time = g_max_time (pg_globals pg) in
      if max_time = 0 then Inr (0, pg)
      else
        (case sb_get_value_string (pg_opts pg) ''forced-shutdown'' of
           None \<Rightarrow> Inr (0, upd_g (\<lambda>g. g\<lparr>g_force_shutdown := True, g_timeout := max_time div 20\<rparr>) pg)
         | Some tmp \<Rightarrow>
             if \<not> strcasecmp_eq tmp ''off'' then
               (case strtol tmp of (v, endptr) \<Rightarrow>
                  let pg = upd_g (\<lambda>g. g\<lparr>g_force_shutdown := True, g_timeout := word_of_int v\<rparr>) pg in
                  if endptr \<noteq> [] \<and> hd endptr = CHR ''%''
                  then Inr (0, upd_g (\<lambda>g. g\<lparr>g_timeout :=
                         word_of_int \<lfloor>fdiv fp (fmul fp (real (unat (g_timeout g))) (real (unat max_time))) 100\<rfloor>\<rparr>) pg)
                  else if tmp = [] \<or> endptr \<noteq> []
                  then p_fail LOG_FATAL (''Invalid value for --forced-shutdown: '' @ [CHR 0x27] @ tmp @ [CHR 0x27]) pg
                  else Inr (0, pg))
             else Inr (0, upd_g (\<lambda>g. g\<lparr>g_force_shutdown := False\<rparr>) pg)))"

definition init_stack :: "prog \<Rightarrow> (int \<times> prog) res" where
  "init_stack pg =
     (case malloc (os_mem (pg_opts pg)) of (ok, m) \<Rightarrow>
        let pg = set_opts ((pg_opts pg)\<lparr>os_mem := m\<rparr>) pg in
        if \<not> ok then p_fail LOG_FATAL (''Memory allocation failure.'' @ newline) pg
        else
          (let pg = pg\<lparr>pg_stack_size := sint (ucast (sb_get_value_size (pg_opts pg) ''thread-stack-size'') :: u32)\<rparr> in
           if pg_stack_size pg \<le> 0
           then p_fail LOG_FATAL (''Invalid value for thread-stack-size: '' @ print_int (pg_stack_size pg) @ ''.'' @ newline) pg
           else Inr (0, pg)))"

definition init_flags :: "fs \<Rightarrow> prog \<Rightarrow> (int \<times> prog) res" where
  "init_flags fs pg =
     (let pg = upd_g (\<lambda>g. g\<lparr>g_debug := sb_get_value_flag (pg_opts pg) ''debug''\<rparr>) pg in
      rbind (if g_debug (pg_globals pg)
             then (case sb_find_option (pg_opts pg) ''verbosity'' of
                     None \<Rightarrow> Inr pg
                   | Some opt \<Rightarrow> rbind (set_option fs (pg_opts pg) (opt_name opt) (Some ''5'') (opt_type opt))
                                    (\<lambda>(_, st). Inr (set_opts st pg)))
             else Inr pg)
        (\<lambda>pg. Inr (0, upd_g (\<lambda>g. g\<lparr>g_validate := sb_get_value_flag (pg_opts pg) ''validate''\<rparr>) pg)))"

definition init_rand :: "fpenv \<Rightarrow> prog \<Rightarrow> (int \<times> prog) res" where
  "init_rand fp pg =
     (let pg = pg\<lparr>pg_rand_init := sb_get_value_flag (pg_opts pg) ''rand-init''\<rparr> in
      rbind (get_int ''rand-seed'' pg) (\<lambda>seed.
        let pg = pg\<lparr>pg_rand_seed := seed\<rparr> in
        if pg_rand_init pg \<and> pg_rand_seed pg \<noteq> 0
        then p_fail LOG_FATAL ''Cannot set both --rand-init and --rand-seed'' pg
        else
          (case sb_get_value_string (pg_opts pg) ''rand-type'' of
             None \<Rightarrow> Inl Null_deref
           | Some s \<Rightarrow>
               let set_type = (\<lambda>ty. pg\<lparr>pg_rand := (pg_rand pg)\<lparr>rd_type := ty\<rparr>\<rparr>) in
               (case (if s = ''uniform'' then Some (set_type DIST_TYPE_UNIFORM)
                      else if s = ''gaussian'' then Some (set_type DIST_TYPE_GAUSSIAN)
                      else if s = ''special'' then Some (set_type DIST_TYPE_SPECIAL)
                      else if s = ''pareto'' then Some (set_type DIST_TYPE_PARETO)
                      else None) of
                  None \<Rightarrow> p_fail LOG_FATAL (''Invalid random numbers distribution: '' @ s @ ''.'') pg
                | Some pg \<Rightarrow>
                    rbind (get_int ''rand-spec-iter'' pg) (\<lambda>iter.
                    rbind (get_int ''rand-spec-pct'' pg) (\<lambda>pct.
                    rbind (get_int ''rand-spec-res'' pg) (\<lambda>r.
                    rbind (sb_get_value_float fp (pg_opts pg) ''rand-pareto-h'') (\<lambda>h.
                      Inr (0, pg\<lparr>pg_pareto_h := h,
                             pg_rand := (pg_rand pg)\<lparr>rd_iter := word_of_int iter, rd_pct := word_of_int pct, rd_res := word_of_int r,
                               rd_pareto_power := fdiv fp (fp_log fp h) (fp_log fp (fsub fp 1 h))\<rparr>\<rparr>)))))))))"

text \<open>The loop over the values of \<^verbatim>\<open>--report-checkpoints\<close>; the array is the list of the values stored so far.\<close>

fun read_checkpoints :: "value_t list \<Rightarrow> prog \<Rightarrow> (int \<times> prog) res" where
  "read_checkpoints [] pg = Inr (0, pg)"
| "read_checkpoints (val # vals) pg =
     (case strtol (val_data val) of (r, endptr) \<Rightarrow>
        if endptr \<noteq> [] \<or> r < 0 \<or> r > UINT_MAX
        then p_fail LOG_FATAL (''Invalid value for --report-checkpoints: '' @ [CHR 0x27] @ val_data val @ [CHR 0x27]) pg
        else
          (let pg = upd_g (\<lambda>g. g\<lparr>g_n_checkpoints := g_n_checkpoints g + 1\<rparr>) pg in
           if unat (g_n_checkpoints (pg_globals pg)) > MAX_CHECKPOINTS
           then p_fail LOG_FATAL (''Too many checkpoints in --report-checkpoints (up to '' @ print_nat MAX_CHECKPOINTS @ '' can be defined)'') pg
           else read_checkpoints vals (upd_g (\<lambda>g. g\<lparr>g_checkpoints := g_checkpoints g @ [word_of_int r]\<rparr>) pg)))"

definition init_reports :: "prog \<Rightarrow> (int \<times> prog) res" where
  "init_reports pg =
     rbind (get_int ''tx-rate'' pg) (\<lambda>rate.
     rbind (get_int ''report-interval'' pg) (\<lambda>interval.
       let pg = upd_g (\<lambda>g. g\<lparr>g_tx_rate := word_of_int rate, g_report_interval := word_of_int interval,
                            g_n_checkpoints := 0, g_checkpoints := []\<rparr>) pg in
       case sb_get_value_list (pg_opts pg) ''report-checkpoints'' of
         None \<Rightarrow> Inl Null_deref
       | Some vals \<Rightarrow>
           pthen (read_checkpoints vals)
             (\<lambda>pg. Inr (0, if g_n_checkpoints (pg_globals pg) > 0
                          then upd_g (\<lambda>g. g\<lparr>g_checkpoints := qsort checkpoint_cmp (g_checkpoints g)\<rparr>) pg else pg)) pg))"

definition init :: "fpenv \<Rightarrow> fs \<Rightarrow> prog \<Rightarrow> (int \<times> prog) res" where
  "init fp fs =
     pthen init_limits (pthen (init_shutdown fp) (pthen init_stack (pthen (init_flags fs)
       (pthen (init_rand fp) init_reports))))"

section \<open>Command line options override the defaults\<close>

lemma find_append: "find P (xs @ ys) = (case find P xs of None \<Rightarrow> find P ys | Some x \<Rightarrow> Some x)"
  by (induction xs) auto

lemma opt_lookup_key:
  assumes "opts_wf (os_options st)" and "cstring m" and "cstring n" and "convert_dashes m = convert_dashes n"
  shows "opt_lookup st m = opt_lookup st n"
proof -
  have "option_index (os_options st) m = Some i \<longleftrightarrow> option_index (os_options st) n = Some i" for i
    using option_index_Some [OF assms(1,2)] option_index_Some [OF assms(1,3)] assms(4) by simp
  then have "option_index (os_options st) m = option_index (os_options st) n"
    by (metis option.exhaust)
  then show ?thesis by (simp add: opt_lookup_def find_option_def)
qed

text \<open>The type an option has, or gets when it is not registered.\<close>

text \<open>The general arguments can be registered: the only file option has no default file.\<close>

lemma general_args_ok: "list_all (assignment_ok \<circ> arg_assignment) general_args"
  by (simp add: general_args_def mk_arg_def assignment_ok_def arg_assignment_def plain_arg_def plain_type_def cstring_def)

definition type_of :: "opt_state \<Rightarrow> string \<Rightarrow> sb_arg_type_t" where
  "type_of st n = (case opt_lookup st n of None \<Rightarrow> SB_ARG_TYPE_STRING | Some (ty, _) \<Rightarrow> ty)"

lemma set_from_arg_eq:
  assumes "opt_inv st" and "cstring n" and "plain_type (type_of st n)"
  shows "set_from_arg fs n v st = Inr (0, opt_assign st (n, type_of st n, v))"
proof (cases "sb_find_option st n")
  case None
  then have "type_of st n = SB_ARG_TYPE_STRING"
    by (simp add: type_of_def opt_lookup_def sb_find_option_def)
  then show ?thesis
    using None set_option_opt_assign [OF assms] by (simp add: set_from_arg_def)
next
  case (Some opt)
  then have "type_of st n = opt_type opt"
    by (simp add: type_of_def opt_lookup_def sb_find_option_def option_view_def)
  then show ?thesis
    using Some set_option_opt_assign [OF assms] by (simp add: set_from_arg_def)
qed

definition option_arg :: "string \<times> string \<Rightarrow> string" where
  "option_arg nv = ''--'' @ fst nv @ CHR ''='' # snd nv"

definition option_arg_ok :: "string \<times> string \<Rightarrow> bool" where
  "option_arg_ok nv \<longleftrightarrow> cstring (fst nv) \<and> CHR ''='' \<notin> set (fst nv)"

lemma split_option_arg: "option_arg_ok (n, v) \<Longrightarrow> split_arg (drop 2 (option_arg (n, v))) = (n, Some v)"
proof -
  assume "option_arg_ok (n, v)"
  then have "strchr (n @ CHR ''='' # v) CHR ''='' = Some (n, v)"
    by (simp add: strchr_Some option_arg_ok_def)
  then show ?thesis by (simp add: split_arg_def option_arg_def)
qed

text \<open>
  Options on the command line override the defaults, whatever their order: parsing
  arguments \<^verbatim>\<open>--name=value\<close> succeeds, and afterwards every option holds the value of its last occurrence, read with
  the type it was registered with (as a string when it was not), or its value from before.
\<close>

lemma parse_argv_overrides:
  assumes "opt_inv (pg_opts pg)" and "\<forall>n. cstring n \<longrightarrow> plain_type (type_of (pg_opts pg) n)"
    and "list_all option_arg_ok nvs" and "cstring m"
    and "g_command (pg_globals pg) \<noteq> SB_COMMAND_HELP" and "g_command (pg_globals pg) \<noteq> SB_COMMAND_VERSION"
  shows "\<exists>pg'. parse_argv fs (map option_arg nvs) pg = Inr (0, pg') \<and> opt_inv (pg_opts pg') \<and>
           opt_lookup (pg_opts pg') m =
             (case find (\<lambda>(n, _). convert_dashes n = convert_dashes m) (rev nvs) of
                None \<Rightarrow> opt_lookup (pg_opts pg) m
              | Some (_, v) \<Rightarrow> Some (type_of (pg_opts pg) m, values_of (type_of (pg_opts pg) m) (Some v)))"
  using assms(1,2,3,5,6)
proof (induction nvs arbitrary: pg)
  case (Cons nv nvs)
  obtain n v where nv: "nv = (n, v)" by (cases nv)
  let ?st = "pg_opts pg" and ?ty = "type_of (pg_opts pg) n"
  let ?pg = "set_opts (opt_assign ?st (n, ?ty, Some v)) pg"
  have ok: "option_arg_ok (n, v)" "cstring n"
    using Cons.prems(3) nv by (auto simp: option_arg_ok_def)
  have plain: "plain_type ?ty"
    using Cons.prems(2) ok(2) by simp
  note eff = opt_assign_effect [OF Cons.prems(1) ok(2) plain]
  have step: "parse_argv fs (map option_arg (nv # nvs)) pg = parse_argv fs (map option_arg nvs) ?pg"
    using Cons.prems(4,5) set_from_arg_eq [OF Cons.prems(1) ok(2) plain] split_option_arg [OF ok(1)] nv
    by (simp add: option_arg_def)
  have ty: "type_of (pg_opts ?pg) k = type_of ?st k" if "cstring k" for k
    using eff(2) [OF that] opt_lookup_key [OF _ that ok(2), of ?st] Cons.prems(1)
    by (auto simp: type_of_def opt_inv_def)
  obtain pg' where pg': "parse_argv fs (map option_arg nvs) ?pg = Inr (0, pg')" "opt_inv (pg_opts pg')"
      "opt_lookup (pg_opts pg') m =
         (case find (\<lambda>(n, _). convert_dashes n = convert_dashes m) (rev nvs) of
            None \<Rightarrow> opt_lookup (pg_opts ?pg) m
          | Some (_, v) \<Rightarrow> Some (type_of (pg_opts ?pg) m, values_of (type_of (pg_opts ?pg) m) (Some v)))"
    using Cons.IH [of ?pg] eff(1) Cons.prems ty nv by auto
  have "opt_lookup (pg_opts ?pg) m =
      (if convert_dashes m = convert_dashes n then Some (?ty, values_of ?ty (Some v)) else opt_lookup ?st m)"
    using eff(2) [OF assms(4)] by simp
  moreover have "convert_dashes m = convert_dashes n \<Longrightarrow> type_of ?st m = ?ty"
    using opt_lookup_key [OF _ assms(4) ok(2), of ?st] Cons.prems(1) by (simp add: type_of_def opt_inv_def)
  ultimately show ?case
    using step pg' ty [OF assms(4)] nv by (auto simp: find_append split: option.splits)
qed simp

definition sample_prog :: prog where
  "sample_prog = \<lparr>pg_w = sample_world\<lparr>w_globals := sample_globals\<lparr>g_command := SB_COMMAND_NULL\<rparr>\<rparr>, pg_rand = sample_rand,
     pg_rand_init = False, pg_rand_seed = 0, pg_pareto_h = 0, pg_stack_size = 0\<rparr>"

lemma parse_argv_overrides_witness:
  "\<exists>pg'. parse_argv (\<lambda>f. Inl []) [''--test=cpu'', ''--test=oltp''] sample_prog = Inr (0, pg') \<and>
     opt_lookup (pg_opts pg') ''test'' = Some (SB_ARG_TYPE_STRING, [''oltp''])"
proof -
  have ty: "type_of (pg_opts sample_prog) n = SB_ARG_TYPE_STRING" for n
    by (simp add: type_of_def sample_prog_def sample_world_def empty_opts_def opt_lookup_def find_option_def)
  have cmd: "g_command (pg_globals sample_prog) = SB_COMMAND_NULL"
    by (simp add: sample_prog_def)
  have inv: "opt_inv (pg_opts sample_prog)"
    by (simp add: sample_prog_def sample_world_def)
  show ?thesis
    using parse_argv_overrides [OF inv, of "[(''test'', ''cpu''), (''test'', ''oltp'')]" "''test''" "\<lambda>f. Inl []"]
    by (simp add: ty cmd plain_type_def option_arg_ok_def cstring_def option_arg_def values_of_def del: parse_argv.simps) blast
qed

section \<open>What a successful initialisation guarantees\<close>

lemma log_text_frame: "log_text p s w = Inr w' \<Longrightarrow> text_frame w w'"
proof -
  have "rfold (text_dispatch p b d) hs v = Inr v' \<Longrightarrow> text_frame v v'" for b d hs v v'
  proof (induction hs arbitrary: v)
    case (Cons h hs)
    then obtain v1 where v1: "text_dispatch p b d h v = Inr v1" "rfold (text_dispatch p b d) hs v1 = Inr v'"
      by (auto simp: rbind_eq_Inr)
    then have "text_frame v v1"
      using text_handler_process_frame by (cases h) (auto simp: text_dispatch_def)
    then show ?case using Cons.IH [OF v1(2)] text_frame_trans by blast
  qed simp
  then show "log_text p s w = Inr w' \<Longrightarrow> text_frame w w'"
    by (auto simp: log_text_def log_text_msg_def Let_def text_frame_def split: if_splits)
qed

lemma p_log_globals: "p_log p s pg = Inr pg' \<Longrightarrow> pg_globals pg' = pg_globals pg \<and> pg_stack_size pg' = pg_stack_size pg \<and>
    pg_rand_init pg' = pg_rand_init pg \<and> pg_rand_seed pg' = pg_rand_seed pg \<and> pg_rand pg' = pg_rand pg"
  by (auto simp: p_log_def rbind_eq_Inr text_frame_def dest!: log_text_frame)

lemma p_fail_not_0 [simp]: "p_fail p s pg \<noteq> Inr (0, pg')"
  by (auto simp: p_fail_def rbind_eq_Inr)

lemma pthen_0: "pthen f g pg = Inr (0, pg') \<longleftrightarrow> (\<exists>pg1. f pg = Inr (0, pg1) \<and> g pg1 = Inr (0, pg'))"
  by (auto simp: pthen_def rbind_eq_Inr split: if_splits)

lemma init_limits_0: "init_limits pg = Inr (0, pg') \<Longrightarrow> g_num_threads (pg_globals pg') \<noteq> 0"
  unfolding init_limits_def Let_def rbind_eq_Inr
  by (elim exE conjE, split if_splits, simp, unfold rbind_eq_Inr, elim conjE exE, split if_splits)
     (auto simp: rbind_eq_Inr dest: p_log_globals)

lemma init_shutdown_0: "init_shutdown fp pg = Inr (0, pg') \<Longrightarrow> g_num_threads (pg_globals pg') = g_num_threads (pg_globals pg)"
  by (auto simp: init_shutdown_def Let_def split: if_splits option.splits prod.splits)

lemma init_stack_0: "init_stack pg = Inr (0, pg') \<Longrightarrow> pg_globals pg' = pg_globals pg \<and> pg_stack_size pg' > 0"
  by (auto simp: init_stack_def Let_def split: if_splits prod.splits)

lemma init_flags_0: "init_flags fs pg = Inr (0, pg') \<Longrightarrow>
    g_num_threads (pg_globals pg') = g_num_threads (pg_globals pg) \<and> pg_stack_size pg' = pg_stack_size pg"
proof -
  assume "init_flags fs pg = Inr (0, pg')"
  then obtain q where "pg' = upd_g (\<lambda>g. g\<lparr>g_validate := sb_get_value_flag (pg_opts q) ''validate''\<rparr>) q"
      "q = upd_g (\<lambda>g. g\<lparr>g_debug := sb_get_value_flag (pg_opts pg) ''debug''\<rparr>) pg \<or>
       (\<exists>st. q = set_opts st (upd_g (\<lambda>g. g\<lparr>g_debug := sb_get_value_flag (pg_opts pg) ''debug''\<rparr>) pg))"
    unfolding init_flags_def Let_def rbind_eq_Inr
    by (elim exE conjE) (simp split: if_splits option.splits, auto simp: rbind_eq_Inr)
  then show ?thesis by auto
qed

lemma init_rand_0: "init_rand fp pg = Inr (0, pg') \<Longrightarrow>
    pg_globals pg' = pg_globals pg \<and> pg_stack_size pg' = pg_stack_size pg \<and> \<not> (pg_rand_init pg' \<and> pg_rand_seed pg' \<noteq> 0)"
  by (auto simp: init_rand_def Let_def rbind_eq_Inr split: if_splits option.splits)

lemma read_checkpoints_0:
  "read_checkpoints vals pg = Inr (0, pg') \<Longrightarrow> length (g_checkpoints (pg_globals pg)) = unat (g_n_checkpoints (pg_globals pg)) \<Longrightarrow>
   unat (g_n_checkpoints (pg_globals pg)) \<le> MAX_CHECKPOINTS \<Longrightarrow>
   length (g_checkpoints (pg_globals pg')) = unat (g_n_checkpoints (pg_globals pg')) \<and>
   unat (g_n_checkpoints (pg_globals pg')) \<le> MAX_CHECKPOINTS \<and>
   g_num_threads (pg_globals pg') = g_num_threads (pg_globals pg) \<and> pg_stack_size pg' = pg_stack_size pg \<and>
   pg_rand_init pg' = pg_rand_init pg \<and> pg_rand_seed pg' = pg_rand_seed pg"
proof (induction vals arbitrary: pg)
  case (Cons val vals)
  obtain r e where r: "strtol (val_data val) = (r, e)" by fastforce
  let ?pg = "upd_g (\<lambda>g. g\<lparr>g_n_checkpoints := g_n_checkpoints g + 1, g_checkpoints := g_checkpoints g @ [word_of_int r]\<rparr>) pg"
  have n: "unat (g_n_checkpoints (pg_globals pg) + 1) = unat (g_n_checkpoints (pg_globals pg)) + 1"
    using Cons.prems(3) by (simp add: unat_plus_no_wrap MAX_CHECKPOINTS_def)
  have step: "read_checkpoints vals ?pg = Inr (0, pg')" and le: "unat (g_n_checkpoints (pg_globals ?pg)) \<le> MAX_CHECKPOINTS"
    using Cons.prems(1) r by (auto simp: Let_def split: if_splits)
  show ?case
    using Cons.IH [OF step _ le] Cons.prems(2) n r by simp
qed simp

lemma set_insert_by: "set (insert_by cmp x ys) = insert x (set ys)"
  by (induction ys) auto

lemma mset_insert_by: "mset (insert_by cmp x ys) = add_mset x (mset ys)"
  by (induction ys) auto

lemma mset_qsort [simp]: "mset (qsort cmp xs) = mset xs"
  by (induction xs) (simp_all add: qsort_def mset_insert_by)

lemma length_qsort [simp]: "length (qsort cmp xs) = length xs"
  using mset_qsort by (metis size_mset)

lemma checkpoint_cmp_le:
  assumes "a < 2 ^ 31" and "b < 2 ^ 31"
  shows "checkpoint_cmp a b \<le> 0 \<longleftrightarrow> a \<le> b"
proof -
  have ab: "uint a < 2147483648" "uint b < 2147483648"
    using assms by (simp_all add: word_less_def)
  have "a - b = word_of_int (uint a - uint b)"
    by simp
  moreover have "int_range (uint a - uint b)"
    using ab uint_ge_0 [of a] uint_ge_0 [of b] unfolding int_range_def by linarith
  ultimately have "checkpoint_cmp a b = uint a - uint b"
    unfolding checkpoint_cmp_def using sint_word_of_int_u32 by metis
  then show ?thesis by (simp add: word_le_def)
qed

lemma sorted_qsort_checkpoints:
  "\<forall>x\<in>set xs. x < 2 ^ 31 \<Longrightarrow> sorted (qsort checkpoint_cmp xs)"
proof (induction xs)
  case (Cons x xs)
  have ins: "sorted ys \<Longrightarrow> \<forall>y\<in>set ys. y < 2 ^ 31 \<Longrightarrow> sorted (insert_by checkpoint_cmp x ys)" for ys
  proof (induction ys)
    case (Cons y ys)
    have "checkpoint_cmp x y \<le> 0 \<longleftrightarrow> x \<le> y"
      using Cons.prems(2) \<open>\<forall>x\<in>set (x # xs). x < 2 ^ 31\<close> by (intro checkpoint_cmp_le) auto
    then show ?case
      using Cons by (auto simp: set_insert_by)
  qed simp
  have "set (qsort checkpoint_cmp xs) = set xs"
    by (metis mset_qsort set_mset_mset)
  then show ?case
    using Cons ins by (simp add: qsort_def)
qed (simp add: qsort_def)

text \<open>
  (C35) When the initialisation succeeds the rest of the program may rely on the options: there is at least one
  thread, the stack size is positive, the generator is not asked to use a timer and a seed
  at once, the number of checkpoints is the length of their list and at most \<^verbatim>\<open>MAX_CHECKPOINTS\<close>, and the checkpoints are in
  increasing order (if they are below \<open>2^31\<close>, where the comparison function is right).
\<close>

theorem init_establishes:
  assumes "init fp fs pg = Inr (0, pg')"
  shows "g_num_threads (pg_globals pg') \<noteq> 0 \<and> pg_stack_size pg' > 0 \<and>
         \<not> (pg_rand_init pg' \<and> pg_rand_seed pg' \<noteq> 0) \<and>
         length (g_checkpoints (pg_globals pg')) = unat (g_n_checkpoints (pg_globals pg')) \<and>
         unat (g_n_checkpoints (pg_globals pg')) \<le> MAX_CHECKPOINTS \<and>
         ((\<forall>x\<in>set (g_checkpoints (pg_globals pg')). x < 2 ^ 31) \<longrightarrow> sorted (g_checkpoints (pg_globals pg')))"
proof -
  obtain p1 p2 p3 p4 p5 where p: "init_limits pg = Inr (0, p1)" "init_shutdown fp p1 = Inr (0, p2)" "init_stack p2 = Inr (0, p3)"
      "init_flags fs p3 = Inr (0, p4)" "init_rand fp p4 = Inr (0, p5)" "init_reports p5 = Inr (0, pg')"
    using assms by (auto simp: init_def pthen_0)
  have p5: "g_num_threads (pg_globals p5) \<noteq> 0" "pg_stack_size p5 > 0" "\<not> (pg_rand_init p5 \<and> pg_rand_seed p5 \<noteq> 0)"
    using init_limits_0 [OF p(1)] init_shutdown_0 [OF p(2)] init_stack_0 [OF p(3)] init_flags_0 [OF p(4)] init_rand_0 [OF p(5)]
    by auto
  obtain rate interval vals p6 where p6: "read_checkpoints vals (upd_g (\<lambda>g. g\<lparr>g_tx_rate := rate, g_report_interval := interval,
        g_n_checkpoints := 0, g_checkpoints := []\<rparr>) p5) = Inr (0, p6)"
      and pg': "pg' = (if g_n_checkpoints (pg_globals p6) > 0
                 then upd_g (\<lambda>g. g\<lparr>g_checkpoints := qsort checkpoint_cmp (g_checkpoints g)\<rparr>) p6 else p6)"
    using p(6) by (auto simp: init_reports_def Let_def rbind_eq_Inr pthen_0 split: option.splits)
  note rc = read_checkpoints_0 [OF p6]
  have "sorted (g_checkpoints (pg_globals pg'))" if "\<forall>x\<in>set (g_checkpoints (pg_globals pg')). x < 2 ^ 31"
  proof (cases "g_n_checkpoints (pg_globals p6) > 0")
    case True
    have "set (qsort checkpoint_cmp (g_checkpoints (pg_globals p6))) = set (g_checkpoints (pg_globals p6))"
      by (metis mset_qsort set_mset_mset)
    then show ?thesis
      using True that pg' by (simp add: sorted_qsort_checkpoints)
  next
    case False
    then have "g_checkpoints (pg_globals p6) = []"
      using rc by (simp add: word_gt_0)
    then show ?thesis using False pg' by simp
  qed
  then show ?thesis
    using rc p5 pg' by simp
qed


text \<open>A run of the initialisation on a list of options with two checkpoints.\<close>

definition sample_option :: "string \<Rightarrow> sb_arg_type_t \<Rightarrow> string list \<Rightarrow> option_t" where
  "sample_option n ty vs = \<lparr>opt_name = n, opt_type = ty, opt_values = map (\<lambda>v. \<lparr>val_data = v, val_ignore = False\<rparr>) vs, opt_ignore = False\<rparr>"

definition default_opts :: opt_state where
  "default_opts = \<lparr>os_options =
       [sample_option ''num_threads'' SB_ARG_TYPE_INT [''4''], sample_option ''max_requests'' SB_ARG_TYPE_INT [''100''],
        sample_option ''thread_stack_size'' SB_ARG_TYPE_SIZE [''64K''], sample_option ''rand_type'' SB_ARG_TYPE_STRING [''uniform''],
        sample_option ''report_checkpoints'' SB_ARG_TYPE_LIST [''20'', ''5'']], os_mem = [], os_out = []\<rparr>"

lemma default_opts_values:
  "sb_get_value_int default_opts ''num-threads'' = Inr 4"
  "sb_get_value_int default_opts ''max-requests'' = Inr 100"
  "sb_get_value_int default_opts ''max-time'' = Inr 0"
  "sb_get_value_int default_opts ''rand-seed'' = Inr 0"
  "sb_get_value_int default_opts ''tx-rate'' = Inr 0"
  "sb_get_value_int default_opts ''report-interval'' = Inr 0"
  "sb_get_value_int default_opts ''rand-spec-iter'' = Inr 0"
  "sb_get_value_int default_opts ''rand-spec-pct'' = Inr 0"
  "sb_get_value_int default_opts ''rand-spec-res'' = Inr 0"
  "find_option (Some (os_options default_opts)) (Some ''rand-pareto-h'') = None"
  "sb_get_value_flag default_opts ''debug'' = False"
  "sb_get_value_flag default_opts ''validate'' = False"
  "sb_get_value_flag default_opts ''rand-init'' = False"
  "sb_get_value_size default_opts ''thread-stack-size'' = 65536"
  "sb_get_value_string default_opts ''rand-type'' = Some ''uniform''"
  "map_option (map (\<lambda>v. strtol (val_data v))) (sb_get_value_list default_opts ''report-checkpoints'') = Some [(20, []), (5, [])]"
  by code_simp+

lemma qsort_sample: "qsort checkpoint_cmp [20, 5] = [5, 20]"
  by (simp add: qsort_def checkpoint_cmp_def)

lemma init_default:
  "\<exists>pg'. init fp_exact (\<lambda>f. Inl []) (set_opts default_opts sample_prog) = Inr (0, pg') \<and> g_checkpoints (pg_globals pg') = [5, 20]"
proof -
  obtain a b where ab: "sb_get_value_list default_opts ''report-checkpoints'' = Some [a, b]"
      "strtol (val_data a) = (20, [])" "strtol (val_data b) = (5, [])"
    using default_opts_values(16) by (auto simp: map_eq_Cons_conv)
  have mem: "os_mem default_opts = []" "default_opts\<lparr>os_mem := []\<rparr> = default_opts"
    by (simp_all add: default_opts_def)
  have fl: "sb_get_value_float fp_exact default_opts ''rand-pareto-h'' = Inr 0"
    by (simp add: sb_get_value_float_def default_opts_values(10))
  show ?thesis
    by (simp add: init_def pthen_def init_limits_def init_shutdown_def init_stack_def init_flags_def init_rand_def init_reports_def
        get_int_def default_opts_values ab mem fl Let_def sample_prog_def qsort_sample MAX_CHECKPOINTS_def sint_word_ariths)
qed

lemma init_establishes_witness:
  "\<exists>pg'. init fp_exact (\<lambda>f. Inl []) (set_opts default_opts sample_prog) = Inr (0, pg') \<and>
     g_num_threads (pg_globals pg') \<noteq> 0 \<and> g_checkpoints (pg_globals pg') = [5, 20]"
  using init_default init_establishes by blast

end
