(* ===== verification/EventQueue.thy ===== *)
theory EventQueue
  imports SbList
begin

text \<open>
  The event queue of the rate-limited mode (\<^verbatim>\<open>sysbench.c\<close>): the generator thread
  links elements of a fixed array into a list, the worker threads take them from its front. The state is
  shared; a step is what one thread does while it holds \<^verbatim>\<open>event_queue_mutex\<close>, or an access outside of it (the
  generator fills in the element before it takes the mutex). The steps of all threads interleave
  arbitrarily, and the invariant is proved by rule induction over the runs.
\<close>

section \<open>State\<close>

definition MAX_QUEUE_LEN :: nat where "MAX_QUEUE_LEN = 100000"

text \<open>The generator is about to fill in an element, about to link it, or has returned.\<close>

datatype gen_pc = G_write | G_add | G_done

text \<open>
  A worker is at the start of an iteration, has found the queue not full and waits for an event, executes an
  event with the given queueing start time, or has left its loop.
\<close>

datatype worker = W_start | W_wait | W_busy u64 | W_stopped

record equeue =
  q_store :: store
  q_event_time :: "nat \<Rightarrow> u64"
  q_length :: int
  q_is_full :: bool
  q_i :: nat
  q_gen :: gen_pc
  q_concurrency :: int
  q_workers :: "nat \<Rightarrow> worker"

text \<open>The addresses of the head of the list and of \<^verbatim>\<open>queue_array[i].listitem\<close>.\<close>

definition event_queue :: nat where "event_queue = 0"

definition elem_addr :: "nat \<Rightarrow> nat" where "elem_addr i = i + 1"

definition addr_elem :: "nat \<Rightarrow> nat" where "addr_elem a = a - 1"

section \<open>Steps\<close>

definition queue_init :: "store \<Rightarrow> equeue" where
  "queue_init h = \<lparr>q_store = SB_LIST_INIT event_queue h, q_event_time = (\<lambda>i. 0), q_length = 0, q_is_full = False,
     q_i = 0, q_gen = G_write, q_concurrency = 0, q_workers = (\<lambda>j. W_start)\<rparr>"

definition gen_write :: "u64 \<Rightarrow> equeue \<Rightarrow> equeue" where
  "gen_write now q = q\<lparr>q_event_time := (q_event_time q)(q_i q := now), q_gen := G_add\<rparr>"

definition gen_add :: "equeue \<Rightarrow> equeue" where
  "gen_add q =
     (let q = q\<lparr>q_store := SB_LIST_ADD_TAIL (elem_addr (q_i q)) event_queue (q_store q)\<rparr>;
          q = q\<lparr>q_length := q_length q + 1\<rparr>;
          q = (if q_length q \<ge> int MAX_QUEUE_LEN then q\<lparr>q_is_full := True\<rparr> else q)
      in if q_is_full q then q\<lparr>q_gen := G_done\<rparr>
         else
           (let q = q\<lparr>q_i := q_i q + 1\<rparr>;
                q = (if q_i q \<ge> MAX_QUEUE_LEN then q\<lparr>q_i := 0\<rparr> else q)
            in q\<lparr>q_gen := G_write\<rparr>))"

definition set_worker :: "nat \<Rightarrow> worker \<Rightarrow> equeue \<Rightarrow> equeue" where
  "set_worker j s q = q\<lparr>q_workers := (q_workers q)(j := s)\<rparr>"

definition worker_check :: "nat \<Rightarrow> equeue \<Rightarrow> equeue" where
  "worker_check j q = set_worker j (if q_is_full q then W_stopped else W_wait) q"

text \<open>
  Taking an event: with an empty list \<^verbatim>\<open>SB_LIST_ONCE\<close> runs no body and the start time of the previous iteration
  stays; the argument is that old value.
\<close>

definition worker_take :: "nat \<Rightarrow> u64 \<Rightarrow> equeue \<Rightarrow> u64 \<times> equeue" where
  "worker_take j old q =
     (case SB_LIST_ONCE event_queue (q_store q) of
        None \<Rightarrow> (old, set_worker j (W_busy old) (q\<lparr>q_concurrency := q_concurrency q + 1\<rparr>))
      | Some pos \<Rightarrow>
          (let t = q_event_time q (addr_elem pos);
               q = q\<lparr>q_store := SB_LIST_DELETE pos (q_store q), q_length := q_length q - 1\<rparr>
           in (t, set_worker j (W_busy t) (q\<lparr>q_concurrency := q_concurrency q + 1\<rparr>))))"

text \<open>The end of an iteration: the loop goes on, or a limit is reached.\<close>

definition worker_finish :: "nat \<Rightarrow> bool \<Rightarrow> equeue \<Rightarrow> equeue" where
  "worker_finish j stop q =
     set_worker j (if stop then W_stopped else W_start) (q\<lparr>q_concurrency := q_concurrency q - 1\<rparr>)"

text \<open>A failed request leaves the loop at once; the concurrency counter is not decremented.\<close>

definition worker_fail :: "nat \<Rightarrow> equeue \<Rightarrow> equeue" where
  "worker_fail j q = set_worker j W_stopped q"

datatype qevent = Filled | Added u64 | Checked nat | Took nat u64 | Finished nat | Failed nat

inductive queue_step :: "nat \<Rightarrow> equeue \<Rightarrow> qevent \<Rightarrow> equeue \<Rightarrow> bool" for W where
  fill: "q_gen q = G_write \<Longrightarrow> queue_step W q Filled (gen_write now q)"
| add: "q_gen q = G_add \<Longrightarrow> queue_step W q (Added (q_event_time q (q_i q))) (gen_add q)"
| check: "j < W \<Longrightarrow> q_workers q j = W_start \<Longrightarrow> queue_step W q (Checked j) (worker_check j q)"
| take: "j < W \<Longrightarrow> q_workers q j = W_wait \<Longrightarrow> q_length q \<noteq> 0 \<Longrightarrow> worker_take j old q = (t, q') \<Longrightarrow>
     queue_step W q (Took j t) q'"
| finish: "j < W \<Longrightarrow> q_workers q j = W_busy t \<Longrightarrow> queue_step W q (Finished j) (worker_finish j stop q)"
| fail: "j < W \<Longrightarrow> q_workers q j = W_busy t \<Longrightarrow> queue_step W q (Failed j) (worker_fail j q)"

inductive queue_run :: "nat \<Rightarrow> qevent list \<Rightarrow> equeue \<Rightarrow> bool" for W where
  start: "queue_run W [] (queue_init h)"
| step: "queue_run W tr q \<Longrightarrow> queue_step W q e q' \<Longrightarrow> queue_run W (tr @ [e]) q'"

inductive_cases queue_stepE: "queue_step W q e q'"

section \<open>The invariant\<close>

fun added :: "qevent list \<Rightarrow> u64 list" where
  "added [] = []"
| "added (Added t # tr) = t # added tr"
| "added (_ # tr) = added tr"

fun taken :: "qevent list \<Rightarrow> u64 list" where
  "taken [] = []"
| "taken (Took j t # tr) = t # taken tr"
| "taken (_ # tr) = taken tr"

fun failures :: "qevent list \<Rightarrow> nat" where
  "failures [] = 0"
| "failures (Failed j # tr) = Suc (failures tr)"
| "failures (_ # tr) = failures tr"

lemma added_append [simp]: "added (xs @ ys) = added xs @ added ys"
  by (induction xs rule: added.induct) auto

lemma taken_append [simp]: "taken (xs @ ys) = taken xs @ taken ys"
  by (induction xs rule: taken.induct) auto

lemma failures_append [simp]: "failures (xs @ ys) = failures xs + failures ys"
  by (induction xs rule: failures.induct) auto

text \<open>
  After \<open>h\<close> events have been taken and \<open>h + n\<close> added, the list holds the array elements number \<open>h\<close> to \<open>h + n - 1\<close> modulo the
  size of the array.
\<close>

definition window :: "nat \<Rightarrow> nat \<Rightarrow> nat list" where
  "window h n = map (\<lambda>k. k mod MAX_QUEUE_LEN) [h..<h + n]"

definition busy :: "worker \<Rightarrow> bool" where
  "busy w \<longleftrightarrow> (case w of W_busy t \<Rightarrow> True | _ \<Rightarrow> False)"

definition busy_workers :: "nat \<Rightarrow> equeue \<Rightarrow> nat set" where
  "busy_workers W q = {j. j < W \<and> busy (q_workers q j)}"

definition queue_inv :: "nat \<Rightarrow> qevent list \<Rightarrow> equeue \<Rightarrow> nat \<Rightarrow> nat \<Rightarrow> bool" where
  "queue_inv W tr q h n \<longleftrightarrow>
     dll (q_store q) event_queue (map elem_addr (window h n)) \<and>
     q_length q = int n \<and> n \<le> MAX_QUEUE_LEN \<and>
     (q_is_full q \<longleftrightarrow> q_gen q = G_done) \<and> (q_gen q \<noteq> G_done \<longrightarrow> n < MAX_QUEUE_LEN \<and> q_i q = (h + n) mod MAX_QUEUE_LEN) \<and>
     added tr = taken tr @ map (q_event_time q) (window h n) \<and> length (taken tr) = h \<and>
     q_concurrency q = int (card (busy_workers W q)) + int (failures tr)"

lemma MAX_QUEUE_LEN_pos [simp]: "0 < MAX_QUEUE_LEN"
  by (simp add: MAX_QUEUE_LEN_def)

lemma window_0 [simp]: "window h 0 = []"
  by (simp add: window_def)

lemma window_Suc: "window h (Suc n) = window h n @ [(h + n) mod MAX_QUEUE_LEN]"
  by (simp add: window_def)

lemma window_Cons: "window h (Suc n) = h mod MAX_QUEUE_LEN # window (Suc h) n"
  by (simp add: window_def upt_conv_Cons del: upt_Suc)

lemma mod_window:
  assumes "n < MAX_QUEUE_LEN"
  shows "(h + n) mod MAX_QUEUE_LEN \<notin> set (window h n)"
proof
  assume "(h + n) mod MAX_QUEUE_LEN \<in> set (window h n)"
  then obtain k where k: "h \<le> k" "k < h + n" "(h + n) mod MAX_QUEUE_LEN = k mod MAX_QUEUE_LEN"
    by (auto simp: window_def)
  then have "MAX_QUEUE_LEN dvd h + n - k"
    by (metis less_imp_le_nat mod_eq_dvd_iff_nat)
  then show False
    using k assms by (auto dest: dvd_imp_le)
qed

lemma elem_addr_inj [simp]: "elem_addr i = elem_addr j \<longleftrightarrow> i = j" "elem_addr i \<noteq> event_queue" "addr_elem (elem_addr i) = i"
  by (simp_all add: elem_addr_def event_queue_def addr_elem_def)

lemma queue_inv_init: "queue_inv W [] (queue_init h0) 0 0"
  by (simp add: queue_inv_def queue_init_def dll_INIT busy_workers_def busy_def)

text \<open>Adding and taking, as operations on the window; the list interface gives the effect on the store.\<close>

lemma queue_inv_add:
  assumes inv: "queue_inv W tr q h n" and gen: "q_gen q = G_add"
  shows "queue_inv W (tr @ [Added (q_event_time q (q_i q))]) (gen_add q) h (Suc n)"
proof -
  have n: "n < MAX_QUEUE_LEN" and i: "q_i q = (h + n) mod MAX_QUEUE_LEN" and nf: "\<not> q_is_full q"
    using inv gen by (auto simp: queue_inv_def)
  have "elem_addr (q_i q) \<notin> set (event_queue # map elem_addr (window h n))"
    using mod_window [OF n, of h] i by auto
  then have store: "dll (SB_LIST_ADD_TAIL (elem_addr (q_i q)) event_queue (q_store q)) event_queue
      (map elem_addr (window h (Suc n)))"
    using inv sblist.rep_add_tail by (simp add: queue_inv_def window_Suc i)
  have lt: "q_i q < MAX_QUEUE_LEN"
    using i by simp
  have next_i: "q_i q + 1 < MAX_QUEUE_LEN \<Longrightarrow> q_i q + 1 = (h + Suc n) mod MAX_QUEUE_LEN"
    "\<not> q_i q + 1 < MAX_QUEUE_LEN \<Longrightarrow> 0 = (h + Suc n) mod MAX_QUEUE_LEN"
    using lt by (auto simp: mod_Suc i [symmetric])
  show ?thesis
    using inv store gen n nf next_i i
    by (auto simp: queue_inv_def gen_add_def Let_def window_Suc busy_workers_def)
qed

lemma queue_inv_fill:
  assumes inv: "queue_inv W tr q h n" and gen: "q_gen q = G_write"
  shows "queue_inv W (tr @ [Filled]) (gen_write now q) h n"
proof -
  have "q_i q \<notin> set (window h n)"
    using inv gen mod_window [of n h] by (auto simp: queue_inv_def)
  then have "map ((q_event_time q)(q_i q := now)) (window h n) = map (q_event_time q) (window h n)"
    by simp
  then show ?thesis
    using inv gen by (simp add: queue_inv_def gen_write_def busy_workers_def)
qed

lemma card_busy_set:
  assumes "j < W"
  shows "\<not> busy (q_workers q j) \<Longrightarrow> card (busy_workers W (set_worker j (W_busy t) q)) = Suc (card (busy_workers W q))"
    and "busy (q_workers q j) \<Longrightarrow> \<not> busy s \<Longrightarrow> Suc (card (busy_workers W (set_worker j s q))) = card (busy_workers W q)"
    and "\<not> busy (q_workers q j) \<Longrightarrow> \<not> busy s \<Longrightarrow> busy_workers W (set_worker j s q) = busy_workers W q"
proof -
  have fin: "finite (busy_workers W q)"
    by (simp add: busy_workers_def)
  have ins: "busy_workers W (set_worker j (W_busy t) q) = insert j (busy_workers W q)" for t
    using assms by (auto simp: busy_workers_def set_worker_def busy_def)
  show "\<not> busy (q_workers q j) \<Longrightarrow> card (busy_workers W (set_worker j (W_busy t) q)) = Suc (card (busy_workers W q))"
    using fin ins by (simp add: busy_workers_def)
  have rem: "\<not> busy s \<Longrightarrow> busy_workers W (set_worker j s q) = busy_workers W q - {j}"
    by (auto simp: busy_workers_def set_worker_def)
  show "busy (q_workers q j) \<Longrightarrow> \<not> busy s \<Longrightarrow> Suc (card (busy_workers W (set_worker j s q))) = card (busy_workers W q)"
    using rem card_Suc_Diff1 [OF fin, of j] assms by (simp add: busy_workers_def)
  show "\<not> busy (q_workers q j) \<Longrightarrow> \<not> busy s \<Longrightarrow> busy_workers W (set_worker j s q) = busy_workers W q"
    using rem by (auto simp: busy_workers_def)
qed

lemma queue_inv_take:
  assumes inv: "queue_inv W tr q h n" and len: "q_length q \<noteq> 0" and j: "j < W" "\<not> busy (q_workers q j)"
    and take: "worker_take j old q = (t, q')"
  shows "t = q_event_time q (h mod MAX_QUEUE_LEN) \<and> queue_inv W (tr @ [Took j t]) q' (Suc h) (n - 1)"
proof -
  obtain m where n: "n = Suc m"
    using inv len by (cases n) (auto simp: queue_inv_def)
  let ?a = "h mod MAX_QUEUE_LEN"
  have "dll (q_store q) event_queue (elem_addr ?a # map elem_addr (window (Suc h) m))"
    using inv n by (simp add: queue_inv_def window_Cons)
  from sblist.rep_take_first [OF this]
  have once: "SB_LIST_ONCE event_queue (q_store q) = Some (elem_addr ?a)"
    and del: "dll (SB_LIST_DELETE (elem_addr ?a) (q_store q)) event_queue (map elem_addr (window (Suc h) m))"
    by auto
  have q': "t = q_event_time q ?a"
      "q' = set_worker j (W_busy t) (q\<lparr>q_store := SB_LIST_DELETE (elem_addr ?a) (q_store q),
              q_length := q_length q - 1, q_concurrency := q_concurrency q + 1\<rparr>)"
    using take once by (auto simp: worker_take_def Let_def)
  have "card (busy_workers W q') = Suc (card (busy_workers W q))"
    unfolding q'(2) using card_busy_set(1) [OF j(1), of "q\<lparr>q_store := SB_LIST_DELETE (elem_addr ?a) (q_store q),
              q_length := q_length q - 1, q_concurrency := q_concurrency q + 1\<rparr>" t] j(2)
    by (simp add: busy_workers_def)
  then show ?thesis
    using inv del n q'(1)
    by (auto simp: q'(2) queue_inv_def set_worker_def window_Cons)
qed

lemma queue_step_inv:
  assumes inv: "queue_inv W tr q h n" and "queue_step W q e q'"
  shows "\<exists>h' n'. queue_inv W (tr @ [e]) q' h' n'"
  using assms(2)
proof (elim queue_stepE, goal_cases)
  case (1 now)
  then show ?case using queue_inv_fill [OF inv] by blast
next
  case 2
  then show ?case using queue_inv_add [OF inv] by blast
next
  case (3 j)
  let ?s = "if q_is_full q then W_stopped else W_wait"
  have "busy_workers W (set_worker j ?s q) = busy_workers W q"
    using 3 by (intro card_busy_set(3)) (auto simp: busy_def)
  then have "queue_inv W (tr @ [e]) q' h n"
    using inv 3 by (simp add: queue_inv_def worker_check_def set_worker_def)
  then show ?case by blast
next
  case (4 j old t)
  then have "\<not> busy (q_workers q j)"
    by (simp add: busy_def)
  from queue_inv_take [OF inv 4(4) 4(2) this 4(5)] show ?case
    using 4(1) by blast
next
  case (5 j t stop)
  let ?q = "q\<lparr>q_concurrency := q_concurrency q - 1\<rparr>"
  have "Suc (card (busy_workers W (set_worker j (if stop then W_stopped else W_start) ?q))) = card (busy_workers W ?q)"
    using 5 by (intro card_busy_set(2)) (auto simp: busy_def)
  then have "queue_inv W (tr @ [e]) q' h n"
    using inv 5 by (simp add: queue_inv_def worker_finish_def set_worker_def busy_workers_def)
  then show ?case by blast
next
  case (6 j t)
  have "Suc (card (busy_workers W (set_worker j W_stopped q))) = card (busy_workers W q)"
    using 6 by (intro card_busy_set(2)) (auto simp: busy_def)
  then have "queue_inv W (tr @ [e]) q' h n"
    using inv 6 by (simp add: queue_inv_def worker_fail_def set_worker_def)
  then show ?case by blast
qed

lemma queue_run_inv: "queue_run W tr q \<Longrightarrow> \<exists>h n. queue_inv W tr q h n"
proof (induction rule: queue_run.induct)
  case (start h)
  then show ?case using queue_inv_init by blast
next
  case (step tr q e q')
  then show ?case using queue_step_inv by blast
qed

section \<open>Properties\<close>

text \<open>
  (C1) In every interleaving of the generator and any number of workers, the queue is never corrupted:
  the list is well-formed, \<^verbatim>\<open>event_queue_length\<close> is the number of its elements and at most \<^verbatim>\<open>MAX_QUEUE_LEN\<close>, the
  queue is marked full only when the generator has stopped, and the element the generator is about to fill or link is not in the list.
\<close>

theorem event_queue_consistent:
  assumes "queue_run W tr q"
  shows "\<exists>xs. dll (q_store q) event_queue (map elem_addr xs) \<and> q_length q = int (length xs) \<and>
           length xs \<le> MAX_QUEUE_LEN \<and> (q_is_full q \<longleftrightarrow> q_gen q = G_done) \<and>
           (q_gen q = G_done \<or> (q_i q < MAX_QUEUE_LEN \<and> q_i q \<notin> set xs))"
proof -
  obtain h n where inv: "queue_inv W tr q h n"
    using queue_run_inv [OF assms] by blast
  have "length (window h n) = n"
    by (simp add: window_def)
  then show ?thesis
    using inv mod_window [of n h] by (intro exI [of _ "window h n"]) (auto simp: queue_inv_def)
qed

text \<open>A run: the generator adds an event, worker 0 takes it.\<close>

definition sample_store :: store where
  "sample_store = (\<lambda>a. \<lparr>next_p = 0, prev_p = 0\<rparr>)"

lemma sample_run:
  "\<exists>q. queue_run 2 [Filled, Added 7, Checked 0, Took 0 7] q"
proof -
  let ?q0 = "queue_init sample_store"
  let ?q1 = "gen_write 7 ?q0" let ?q2 = "gen_add ?q1" let ?q3 = "worker_check 0 ?q2"
  have g: "q_gen ?q0 = G_write" "q_gen ?q1 = G_add" "q_event_time ?q1 (q_i ?q1) = 7" "q_workers ?q2 0 = W_start"
      "q_is_full ?q2 = False" "q_length ?q3 = 1" "q_event_time ?q3 0 = 7"
    by (simp_all add: queue_init_def gen_write_def gen_add_def worker_check_def set_worker_def Let_def MAX_QUEUE_LEN_def)
  have r1: "queue_run 2 [Filled] ?q1"
    using queue_run.step [OF queue_run.start queue_step.fill [OF g(1)]] by simp
  have r2: "queue_run 2 [Filled, Added 7] ?q2"
    using queue_run.step [OF r1 queue_step.add [OF g(2)]] g(3) by simp
  have r3: "queue_run 2 [Filled, Added 7, Checked 0] ?q3"
    using queue_run.step [OF r2 queue_step.check [OF _ g(4)]] by simp
  have w: "q_workers ?q3 0 = W_wait"
    using g(5) by (simp add: worker_check_def set_worker_def)
  obtain t q4 where t: "worker_take 0 0 ?q3 = (t, q4)" by fastforce
  have r4: "queue_run 2 [Filled, Added 7, Checked 0, Took 0 t] q4"
    using queue_run.step [OF r3 queue_step.take [OF _ w _ t]] g(6) by simp
  have "t = 7"
    using queue_run_inv [OF r4] by (auto simp: queue_inv_def)
  then show ?thesis using r4 by blast
qed

lemma event_queue_consistent_witness:
  "\<exists>q xs. queue_run 2 [Filled, Added 7, Checked 0, Took 0 7] q \<and> dll (q_store q) event_queue (map elem_addr xs) \<and>
     q_length q = int (length xs)"
  using sample_run event_queue_consistent by blast

text \<open>
  (C28) Events are served in order and none is lost or served twice: in every run the start times handed to the
  workers, in the order in which they took them, are exactly the first of the times the generator queued, and the rest is still in
  the queue, in order.
\<close>

theorem event_queue_fifo:
  assumes "queue_run W tr q"
  shows "\<exists>pending. added tr = taken tr @ pending \<and> q_length q = int (length pending)"
proof -
  obtain h n where "queue_inv W tr q h n"
    using queue_run_inv [OF assms] by blast
  then show ?thesis
    by (intro exI [of _ "map (q_event_time q) (window h n)"]) (simp add: queue_inv_def window_def)
qed

lemma event_queue_fifo_witness:
  "\<exists>q pending. queue_run 2 [Filled, Added 7, Checked 0, Took 0 7] q \<and> [7] = [7] @ pending \<and> q_length q = int (length pending)"
proof -
  obtain q where "queue_run 2 [Filled, Added 7, Checked 0, Took 0 7] q"
    using sample_run by blast
  then show ?thesis using event_queue_fifo [of 2 "[Filled, Added 7, Checked 0, Took 0 7]" q] by auto
qed

text \<open>
  The concurrency counter is the number of workers executing a request as long as no request
  fails; every failed request leaves it one too high, since the loop is left before the counter is decremented.
\<close>

lemma event_queue_concurrency:
  assumes "queue_run W tr q"
  shows "q_concurrency q = int (card (busy_workers W q)) + int (failures tr)"
  using queue_run_inv [OF assms] by (auto simp: queue_inv_def)

lemma event_queue_concurrency_witness:
  "\<exists>q. queue_run 2 [Filled, Added 7, Checked 0, Took 0 7] q \<and>
     q_concurrency q = int (card (busy_workers 2 q)) + int (failures [Filled, Added 7, Checked 0, Took 0 7])"
  using sample_run event_queue_concurrency by blast

end
