(* ===== verification/SbRun.thy ===== *)
theory SbRun
  imports SbArgs EventQueue
begin

text \<open>
  The execution of a test (\<^verbatim>\<open>sysbench.c\<close>): requests, the body of a worker thread, the event generator,
  the report and checkpoint threads, \<^verbatim>\<open>run_test\<close> and \<^verbatim>\<open>main\<close>. A test is a record of
  its operations, functions on the state of the program and the state \<open>'t\<close> of the test; a missing operation is
  \<open>None\<close>. A worker thread is followed by itself here; the interleaving of the threads at the event
  queue is in \<open>EventQueue\<close>. What the started threads do until they are joined, and whether the operating
  system creates and joins them, are arguments of \<open>run_test\<close>.
\<close>

section \<open>Tests and requests\<close>

datatype sb_request_type_t =
    SB_REQ_TYPE_NULL
  | SB_REQ_TYPE_CPU
  | SB_REQ_TYPE_MEMORY
  | SB_REQ_TYPE_FILE
  | SB_REQ_TYPE_SQL
  | SB_REQ_TYPE_THREADS
  | SB_REQ_TYPE_MUTEX
  | SB_REQ_TYPE_SCRIPT

datatype sb_stat_t = SB_STAT_INTERMEDIATE | SB_STAT_CUMULATIVE

type_synonym 't st = "prog \<times> 't"
type_synonym 't op = "'t st \<Rightarrow> (int \<times> 't st) res"
type_synonym 'r sb_request = "sb_request_type_t \<times> 'r option"

record ('t, 'r) sb_test =
  t_sname :: string
  t_lname :: string
  op_init :: "'t op option"
  op_prepare :: "'t op option"
  op_thread_init :: "(nat \<Rightarrow> 't op) option"
  op_print_mode :: "('t st \<Rightarrow> 't st res) option"
  op_get_request :: "(nat \<Rightarrow> 't st \<Rightarrow> ('r sb_request \<times> 't st) res) option"
  op_execute_request :: "('r sb_request \<Rightarrow> nat \<Rightarrow> 't op) option"
  op_print_stats :: "(sb_stat_t \<Rightarrow> 't st \<Rightarrow> 't st res) option"
  op_thread_done :: "(nat \<Rightarrow> 't op) option"
  op_cleanup :: "'t op option"
  op_done :: "'t op option"
  cmd_help :: "'t op option"
  cmd_prepare :: "'t op option"
  cmd_run :: "'t op option"
  cmd_cleanup :: "'t op option"
  t_args :: "sb_arg_t list option"

definition s_log :: "log_msg_priority_t \<Rightarrow> string \<Rightarrow> 't st \<Rightarrow> 't st res" where
  "s_log p m s = rbind (p_log p m (fst s)) (\<lambda>pg. Inr (pg, snd s))"

definition upd_sg :: "(sb_globals_t \<Rightarrow> sb_globals_t) \<Rightarrow> 't st \<Rightarrow> 't st" where
  "upd_sg f s = (upd_g f (fst s), snd s)"

abbreviation s_globals :: "'t st \<Rightarrow> sb_globals_t" where "s_globals s \<equiv> pg_globals (fst s)"

text \<open>An operation that may be missing; a missing one counts as success.\<close>

definition run_op :: "'t op option \<Rightarrow> 't st \<Rightarrow> (int \<times> 't st) res" where
  "run_op f s = (case f of None \<Rightarrow> Inr (0, s) | Some g \<Rightarrow> g s)"

definition get_request :: "('t, 'r) sb_test \<Rightarrow> nat \<Rightarrow> 't st \<Rightarrow> ('r sb_request \<times> 't st) res" where
  "get_request test thread_id s =
     (case op_get_request test of
        Some f \<Rightarrow> f thread_id s
      | None \<Rightarrow> rbind (s_log LOG_ALERT ''Unsupported mode! Creating NULL request.'' s)
                  (\<lambda>s. Inr ((SB_REQ_TYPE_NULL, None), s)))"

definition execute_request :: "('t, 'r) sb_test \<Rightarrow> 'r sb_request \<Rightarrow> nat \<Rightarrow> 't st \<Rightarrow> (int \<times> 't st) res" where
  "execute_request test r thread_id s =
     (case op_execute_request test of
        Some f \<Rightarrow> f r thread_id s
      | None \<Rightarrow> rbind (s_log LOG_FATAL ''Unknown request. Aborting'' s) (\<lambda>s. Inr (1, s)))"

definition find_test :: "('t, 'r) sb_test list \<Rightarrow> string \<Rightarrow> ('t, 'r) sb_test option" where
  "find_test tests name = find (\<lambda>t. t_sname t = name) tests"

section \<open>Timers of the run\<close>

text \<open>\<^verbatim>\<open>sb_timer_value(&sb_globals.exec_timer)\<close>.\<close>

definition exec_timer_value :: "'t st \<Rightarrow> (u64 \<times> 't st) res" where
  "exec_timer_value s =
     (case SB_GETTIME (pg_w (fst s)) of (now, w) \<Rightarrow>
        rbind (sb_timer_value now (g_exec_timer (w_globals w)))
          (\<lambda>(v, t, msgs).
             rbind (log_reqs msgs (upd_globals (\<lambda>g. g\<lparr>g_exec_timer := t\<rparr>) w))
               (\<lambda>w. Inr (v, ((fst s)\<lparr>pg_w := w\<rparr>, snd s)))))"

text \<open>The three timers of the run are started and stopped together, each at its own clock reading.\<close>

definition on_timer ::
  "(timespec \<Rightarrow> sb_timer_t \<Rightarrow> (sb_timer_t \<times> log_req list) res) \<Rightarrow> (sb_globals_t \<Rightarrow> sb_timer_t) \<Rightarrow>
   (sb_timer_t \<Rightarrow> sb_globals_t \<Rightarrow> sb_globals_t) \<Rightarrow> world \<Rightarrow> world res" where
  "on_timer f sel put w =
     (case SB_GETTIME w of (now, w) \<Rightarrow>
        rbind (f now (sel (w_globals w)))
          (\<lambda>(t, msgs). log_reqs msgs (upd_globals (put t) w)))"

definition on_run_timers :: "(timespec \<Rightarrow> sb_timer_t \<Rightarrow> (sb_timer_t \<times> log_req list) res) \<Rightarrow> world \<Rightarrow> world res" where
  "on_run_timers f w =
     rbind (on_timer f g_exec_timer (\<lambda>t g. g\<lparr>g_exec_timer := t\<rparr>) w)
       (\<lambda>w. rbind (on_timer f g_cumulative_timer1 (\<lambda>t g. g\<lparr>g_cumulative_timer1 := t\<rparr>) w)
         (on_timer f g_cumulative_timer2 (\<lambda>t g. g\<lparr>g_cumulative_timer2 := t\<rparr>)))"

definition s_world :: "(world \<Rightarrow> world res) \<Rightarrow> 't st \<Rightarrow> 't st res" where
  "s_world f s = rbind (f (pg_w (fst s))) (\<lambda>w. Inr ((fst s)\<lparr>pg_w := w\<rparr>, snd s))"

definition sigalrm_handler :: "fpenv \<Rightarrow> ('t, 'r) sb_test option \<Rightarrow> 't st \<Rightarrow> (int \<times> 't st) res" where
  "sigalrm_handler fp current_test s =
     (let s = upd_sg (\<lambda>g. g\<lparr>g_forced_shutdown_in_progress := True\<rparr>) s in
      rbind (s_world (on_run_timers sb_timer_stop) s)
        (\<lambda>s. rbind (s_log LOG_FATAL ''The --max-time limit has expired, forcing shutdown...'' s)
          (\<lambda>s. rbind (case current_test of
                        None \<Rightarrow> Inr s
                      | Some t \<Rightarrow> (case op_print_stats t of None \<Rightarrow> Inr s | Some f \<Rightarrow> f SB_STAT_CUMULATIVE s))
            (\<lambda>s. rbind (s_world (log_done fp) s) (\<lambda>s. Inr (2, s))))))"

section \<open>The run mode\<close>

text \<open>The checkpoints, printed into a buffer of the given size.\<close>

fun checkpoint_list :: "nat \<Rightarrow> u32 list \<Rightarrow> string" where
  "checkpoint_list sz [] = []"
| "checkpoint_list sz [x] = snprintf_text sz (print_nat (unat x))"
| "checkpoint_list sz (x # y # zs) =
     (let s = print_nat (unat x) @ '', '' in
      if length s \<ge> sz then snprintf_text sz s else s @ checkpoint_list (sz - length s) (y # zs))"

definition print_run_mode :: "(int \<Rightarrow> nat \<Rightarrow> nat) \<Rightarrow> int \<Rightarrow> ('t, 'r) sb_test \<Rightarrow> 't st \<Rightarrow> 't st res" where
  "print_run_mode srand48 time test s =
     (let g = s_globals s;
          srnd = (\<lambda>seed s. ((fst s)\<lparr>pg_rand := (pg_rand (fst s))\<lparr>rd_lrand48 := srand48 seed, rd_calls := 0\<rparr>\<rparr>, snd s));
          note = s_log LOG_NOTICE in
      rbind (note ''Running the test with following options:'' s) (\<lambda>s.
      rbind (note (''Number of threads: '' @ print_int (sint (g_num_threads g))) s) (\<lambda>s.
      rbind (if g_tx_rate g > 0 then note (''Target transaction rate: '' @ print_int (sint (g_tx_rate g)) @ ''/sec'') s else Inr s) (\<lambda>s.
      rbind (if g_report_interval g \<noteq> 0
             then note (''Report intermediate results every '' @ print_int (sint (g_report_interval g)) @ '' second(s)'') s else Inr s) (\<lambda>s.
      rbind (if g_n_checkpoints g > 0
             then note (''Report checkpoint(s) at '' @ checkpoint_list (MAX_CHECKPOINTS * 12) (g_checkpoints g) @ '' seconds'') s else Inr s) (\<lambda>s.
      rbind (if g_debug g then note (''Debug mode enabled.'' @ newline) s else Inr s) (\<lambda>s.
      rbind (if g_validate g then note (''Additional request validation enabled.'' @ newline) s else Inr s) (\<lambda>s.
      rbind (if pg_rand_init (fst s)
             then rbind (note (''Initializing random number generator from timer.'' @ newline) s) (\<lambda>s. Inr (srnd time s)) else Inr s) (\<lambda>s.
      rbind (if pg_rand_seed (fst s) \<noteq> 0
             then rbind (note (''Initializing random number generator from seed ('' @ print_int (pg_rand_seed (fst s)) @ '').'' @ newline) s)
                    (\<lambda>s. Inr (srnd (pg_rand_seed (fst s)) s))
             else note (''Random number generator seed is 0 and will be ignored'' @ newline) s) (\<lambda>s.
      rbind (if g_force_shutdown g
             then note (''Forcing shutdown in '' @ print_nat (unat (g_max_time g + g_timeout g)) @ '' seconds'') s else Inr s) (\<lambda>s.
      rbind (note [] s) (\<lambda>s.
        case op_print_mode test of None \<Rightarrow> Inr s | Some f \<Rightarrow> f s))))))))))))"

section \<open>A worker thread\<close>

text \<open>
  One iteration of the loop ends with going on, with leaving the loop, or with waiting for an event that is not there yet.
\<close>

datatype outcome = Again | Left_loop | Waiting

text \<open>
  The part of an iteration that takes an event in the rate-limited mode. The queue is an argument; the start time of the event is stored as
  the queueing time of the thread's timer.
\<close>

definition take_event :: "nat \<Rightarrow> u64 \<Rightarrow> equeue \<Rightarrow> 't st \<Rightarrow> (outcome \<times> u64 \<times> equeue \<times> 't st) res" where
  "take_event thread_id start q s =
     (if q_is_full q
      then rbind (s_log LOG_FATAL ''Event queue is full.'' s) (\<lambda>s. Inr (Left_loop, start, q, s))
      else if q_length q = 0 then Inr (Waiting, start, q, s)
      else
        (case worker_take thread_id start q of (start, q) \<Rightarrow>
           rbind (exec_timer_value s)
             (\<lambda>(v, s). rbind (aread (lg_timers (w_log (pg_w (fst s)))) thread_id)
               (\<lambda>t. Inr (Again, start, q,
                   (upd_w (upd_log (\<lambda>l. l\<lparr>lg_timers := (lg_timers l)[thread_id := t\<lparr>queue_time := v - start\<rparr>]\<rparr>)) (fst s), snd s))))))"

definition time_limit_exceeded :: "'t st \<Rightarrow> (bool \<times> 't st) res" where
  "time_limit_exceeded s =
     (if g_max_time (s_globals s) = 0 then Inr (False, s)
      else rbind (exec_timer_value s)
             (\<lambda>(v, s). if v \<ge> SEC2NS (uint (g_max_time (s_globals s)))
                then rbind (s_log LOG_INFO ''Time limit exceeded, exiting...'' s) (\<lambda>s. Inr (True, s))
                else Inr (False, s)))"

definition runner_iteration ::
  "('t, 'r) sb_test \<Rightarrow> nat \<Rightarrow> u64 \<Rightarrow> equeue \<Rightarrow> 't st \<Rightarrow> (outcome \<times> u64 \<times> equeue \<times> 't st) res" where
  "runner_iteration test thread_id start q s =
     (let rate = g_tx_rate (s_globals s) > 0 in
      rbind (if rate then take_event thread_id start q s else Inr (Again, start, q, s))
        (\<lambda>(res, start, q, s).
           if res \<noteq> Again then Inr (res, start, q, s)
           else
             rbind (get_request test thread_id s)
               (\<lambda>(request, s).
                  rbind (if fst request \<noteq> SB_REQ_TYPE_NULL then execute_request test request thread_id s else Inr (0, s))
                    (\<lambda>(rc, s).
                       if rc \<noteq> 0 then Inr (Left_loop, start, q, s)
                       else
                         (let q = (if rate then q\<lparr>q_concurrency := q_concurrency q - 1\<rparr> else q) in
                          rbind (time_limit_exceeded s)
                            (\<lambda>(late, s).
                               Inr (if late \<or> fst request = SB_REQ_TYPE_NULL \<or> g_error (s_globals s) \<noteq> 0 then Left_loop else Again,
                                    start, q, s)))))))"

text \<open>The loop, with fuel for the number of iterations; \<open>Again\<close> is the result when the fuel is used up.\<close>

fun runner_loop ::
  "nat \<Rightarrow> ('t, 'r) sb_test \<Rightarrow> nat \<Rightarrow> u64 \<Rightarrow> equeue \<Rightarrow> 't st \<Rightarrow> (outcome \<times> u64 \<times> equeue \<times> 't st) res" where
  "runner_loop 0 test thread_id start q s = Inr (Again, start, q, s)"
| "runner_loop (Suc n) test thread_id start q s =
     rbind (runner_iteration test thread_id start q s)
       (\<lambda>(res, start, q, s). if res = Again then runner_loop n test thread_id start q s else Inr (res, start, q, s))"

definition runner_thread ::
  "nat \<Rightarrow> ('t, 'r) sb_test \<Rightarrow> nat \<Rightarrow> equeue \<Rightarrow> 't st \<Rightarrow> (outcome \<times> equeue \<times> 't st) res" where
  "runner_thread fuel test thread_id q s =
     rbind (s_log LOG_DEBUG (''Runner thread started ('' @ print_nat thread_id @ '')!'') s) (\<lambda>s.
     rbind (run_op (map_option (\<lambda>f. f thread_id) (op_thread_init test)) s) (\<lambda>(rc, s).
       if rc \<noteq> 0 then Inr (Left_loop, q, upd_sg (\<lambda>g. g\<lparr>g_error := 1\<rparr>) s)
       else
         (let s = upd_sg (\<lambda>g. g\<lparr>g_num_running := g_num_running g + 1\<rparr>) s in
          rbind (runner_loop fuel test thread_id 0 q s)
            (\<lambda>(res, start, q, s).
               if res \<noteq> Left_loop then Inr (res, q, s)
               else
                 rbind (run_op (map_option (\<lambda>f. f thread_id) (op_thread_done test)) s)
                   (\<lambda>(_, s). Inr (Left_loop, q, upd_sg (\<lambda>g. g\<lparr>g_num_running := g_num_running g - 1\<rparr>) s))))))"

section \<open>The event generator, reports and checkpoints\<close>

definition eventgen_interval :: "fpenv \<Rightarrow> nat \<Rightarrow> u32 \<Rightarrow> u64" where
  "eventgen_interval fp rnd tx_rate =
     word_of_int (let v = fmul fp (fdiv fp (fp_log fp (fsub fp 1 (fdiv fp (real rnd) (real SB_MAX_RND))))
                                            (- real (unat tx_rate))) 1000000
                  in if v \<ge> 0 then \<lfloor>v\<rfloor> else \<lceil>v\<rceil>)"

text \<open>
  An iteration of the generator up to the linking of the element: the time to sleep, the next event time, and whether the thread is late.
\<close>

definition eventgen_pause :: "u64 \<Rightarrow> u64 \<Rightarrow> u64 \<Rightarrow> u64 \<times> u64 \<times> bool" where
  "eventgen_pause next_ns intr_ns curr_ns =
     (let next_ns = next_ns + intr_ns * 1000 in
      if next_ns > curr_ns then (next_ns - curr_ns, next_ns, False) else (1000, next_ns, True))"

definition eventgen_step :: "fpenv \<Rightarrow> u64 \<times> equeue \<Rightarrow> 't st \<Rightarrow> (u64 \<times> (u64 \<times> equeue) \<times> 't st) res" where
  "eventgen_step fp nq s =
     rbind (exec_timer_value s)
       (\<lambda>(curr_ns, s).
          case sb_rnd (pg_rand (fst s)) of (x, r) \<Rightarrow>
            (let s = ((fst s)\<lparr>pg_rand := r\<rparr>, snd s) in
             case eventgen_pause (fst nq) (eventgen_interval fp x (g_tx_rate (s_globals s))) curr_ns of
               (pause_ns, next_ns, late) \<Rightarrow>
                 rbind (if late
                        then s_world (log_timestamp fp LOG_DEBUG (g_exec_timer (s_globals s)) ''Event generation thread is too slow'') s
                        else Inr s)
                   (\<lambda>s. rbind (exec_timer_value s)
                     (\<lambda>(t, s).
                        let q = gen_add (gen_write t (snd nq)) in
                        rbind (if q_is_full q then s_log LOG_FATAL ''Event queue is full.'' s else Inr s)
                          (\<lambda>s. Inr (pause_ns, (next_ns, q), s))))))"

text \<open>
  The first \<open>n\<close> rounds of the generator, which ends only when the queue is full: the times slept, and the time of the next event with the queue.
\<close>

fun eventgen_loop :: "nat \<Rightarrow> fpenv \<Rightarrow> u64 \<times> equeue \<Rightarrow> 't st \<Rightarrow> (u64 list \<times> (u64 \<times> equeue) \<times> 't st) res" where
  "eventgen_loop 0 fp nq s = Inr ([], nq, s)"
| "eventgen_loop (Suc n) fp nq s =
     rbind (eventgen_step fp nq s) (\<lambda>(pause_ns, nq, s).
       if q_is_full (snd nq) then Inr ([pause_ns], nq, s)
       else rbind (eventgen_loop n fp nq s) (\<lambda>(pauses, nq, s). Inr (pause_ns # pauses, nq, s)))"

definition eventgen_thread_proc :: "nat \<Rightarrow> fpenv \<Rightarrow> equeue \<Rightarrow> 't st \<Rightarrow> (u64 list \<times> (u64 \<times> equeue) \<times> 't st) res" where
  "eventgen_thread_proc n fp q s =
     (let q = q\<lparr>q_store := SB_LIST_INIT event_queue (q_store q), q_i := 0\<rparr> in
      rbind (s_log LOG_DEBUG ''Event generating thread started'' s) (\<lambda>s.
      rbind (exec_timer_value s) (\<lambda>(curr_ns, s).
        case sb_rnd (pg_rand (fst s)) of (x, r) \<Rightarrow>
          (let s = ((fst s)\<lparr>pg_rand := r\<rparr>, snd s);
               intr_ns = eventgen_interval fp x (g_tx_rate (s_globals s))
           in eventgen_loop n fp (curr_ns + intr_ns * 1000, q) s))))"

text \<open>The loop that finds the time of the next report; with an interval of 0 it would not end.\<close>

partial_function (option) report_next :: "u64 \<Rightarrow> u64 \<Rightarrow> u64 \<Rightarrow> u64 option" where
  "report_next prev_ns interval_ns curr_ns =
     (let next_ns = prev_ns + interval_ns in
      if curr_ns \<ge> next_ns then report_next next_ns interval_ns curr_ns else Some next_ns)"

definition report_step ::
  "('t, 'r) sb_test \<Rightarrow> u64 \<Rightarrow> u64 \<Rightarrow> 't st \<Rightarrow> ((u64 \<times> u64) option \<times> 't st) res" where
  "report_step test interval_ns prev_ns s =
     rbind (if g_report_interval (s_globals s) > 0
            then (case op_print_stats test of None \<Rightarrow> Inl Null_deref | Some f \<Rightarrow> f SB_STAT_INTERMEDIATE s)
            else Inr s)
       (\<lambda>s. rbind (exec_timer_value s)
         (\<lambda>(curr_ns, s). Inr (map_option (\<lambda>next_ns. (next_ns - curr_ns, next_ns)) (report_next prev_ns interval_ns curr_ns), s)))"

text \<open>The first \<open>n\<close> rounds of the report thread, which only ends when it is cancelled: the times slept before each report.\<close>

fun report_loop :: "nat \<Rightarrow> ('t, 'r) sb_test \<Rightarrow> u64 \<Rightarrow> u64 \<Rightarrow> u64 \<Rightarrow> 't st \<Rightarrow> (u64 list \<times> 't st) res" where
  "report_loop 0 test interval_ns prev_ns pause_ns s = Inr ([], s)"
| "report_loop (Suc n) test interval_ns prev_ns pause_ns s =
     rbind (report_step test interval_ns prev_ns s) (\<lambda>(r, s). case r of
       None \<Rightarrow> Inl Still_running
     | Some (pause_ns', next_ns) \<Rightarrow>
         rbind (report_loop n test interval_ns next_ns pause_ns' s) (\<lambda>(pauses, s). Inr (pause_ns # pauses, s)))"

definition report_thread_proc :: "nat \<Rightarrow> ('t, 'r) sb_test \<Rightarrow> 't st \<Rightarrow> (u64 list \<times> 't st) res" where
  "report_thread_proc n test s =
     (let interval_ns = SEC2NS (uint (g_report_interval (s_globals s))) in
      case op_print_stats test of
        None \<Rightarrow> rbind (s_log LOG_DEBUG ''Reporting not supported by the current test, '' s) (\<lambda>s. Inr ([], s))
      | Some f \<Rightarrow>
          rbind (s_log LOG_DEBUG ''Reporting thread started'' s) (\<lambda>s.
          rbind (exec_timer_value s) (\<lambda>(t, s). report_loop n test interval_ns (t + interval_ns) interval_ns s)))"

text \<open>The checkpoint thread: what happens at each checkpoint that is still to come.\<close>

definition checkpoint_step :: "fpenv \<Rightarrow> ('t, 'r) sb_test \<Rightarrow> u32 \<Rightarrow> 't st \<Rightarrow> 't st res" where
  "checkpoint_step fp test checkpoint s =
     (let next_ns = SEC2NS (uint checkpoint) in
      rbind (exec_timer_value s)
        (\<lambda>(curr_ns, s).
           if next_ns \<le> curr_ns then Inr s
           else
             rbind (exec_timer_value s)
               (\<lambda>(curr_ns, s).
                  rbind (s_world (log_timestamp fp LOG_NOTICE (g_exec_timer (s_globals s)) ''Checkpoint report:'') s)
                    (\<lambda>s. rbind (case op_print_stats test of None \<Rightarrow> Inl Null_deref | Some f \<Rightarrow> f SB_STAT_CUMULATIVE s)
                      (s_world (\<lambda>w. rbind (print_global_stats fp w) (\<lambda>(_, w). Inr w)))))))"

definition checkpoints_thread_proc :: "fpenv \<Rightarrow> ('t, 'r) sb_test \<Rightarrow> 't st \<Rightarrow> 't st res" where
  "checkpoints_thread_proc fp test s =
     (case op_print_stats test of
        None \<Rightarrow> s_log LOG_DEBUG ''Reporting not supported by the current test, '' s
      | Some f \<Rightarrow>
          rbind (s_log LOG_DEBUG ''Checkpoints report thread started'' s)
            (\<lambda>s. rfold (checkpoint_step fp test) (take (unat (g_n_checkpoints (s_globals s))) (g_checkpoints (s_globals s))) s))"

section \<open>Running a test\<close>

text \<open>
  The operating system's part of a run: whether the threads can be created, joined and cancelled, what the workers
  already started do before the next one is created, and what all of them do between the release of the start mutex and
  the last join; the number and the text of the system error that is logged.
\<close>

record 't run_env =
  re_report_created :: bool
  re_eventgen_created :: bool
  re_checkpoints_created :: bool
  re_worker_created :: "nat \<Rightarrow> bool"
  re_worker_joined :: "nat \<Rightarrow> bool"
  re_report_ended :: bool
  re_eventgen_ended :: bool
  re_checkpoints_ended :: bool
  re_started :: "nat \<Rightarrow> 't st \<Rightarrow> 't st"
  re_running :: "'t st \<Rightarrow> 't st res"
  re_errno :: int
  re_strerror :: string

definition s_log_errno :: "'t run_env \<Rightarrow> log_msg_priority_t \<Rightarrow> string \<Rightarrow> 't st \<Rightarrow> 't st res" where
  "s_log_errno env p m = s_world (log_errno p (re_errno env) (re_strerror env) m)"

definition s_fail_errno :: "'t run_env \<Rightarrow> string \<Rightarrow> 't st \<Rightarrow> (int \<times> 't st) res" where
  "s_fail_errno env m s = rbind (s_log_errno env LOG_FATAL m s) (\<lambda>s. Inr (1, s))"

definition sthen :: "('t st \<Rightarrow> (int \<times> 't st) res) \<Rightarrow> ('t st \<Rightarrow> (int \<times> 't st) res) \<Rightarrow> 't st \<Rightarrow> (int \<times> 't st) res" where
  "sthen f g s = rbind (f s) (\<lambda>(rc, s). if rc \<noteq> 0 then Inr (1, s) else g s)"

fun create_workers :: "'t run_env \<Rightarrow> nat list \<Rightarrow> 't st \<Rightarrow> (int \<times> 't st) res" where
  "create_workers env [] s = Inr (0, s)"
| "create_workers env (i # is) s =
     (if g_error (s_globals s) \<noteq> 0 then Inr (1, s)
      else if \<not> re_worker_created env i then s_fail_errno env (''pthread_create() for thread #'' @ print_nat i @ '' failed.'') s
      else create_workers env is (re_started env i s))"

definition reset_run :: "'t st \<Rightarrow> 't st" where
  "reset_run s =
     (let s = upd_sg (\<lambda>g. g\<lparr>g_event_queue_length := 0, g_num_running := 0\<rparr>) s
      in ((fst s)\<lparr>pg_rand := (pg_rand (fst s))\<lparr>rd_seed := of_nat LARGE_PRIME\<rparr>\<rparr>, snd s))"

text \<open>Up to the moment when all workers have been created.\<close>

definition start_threads :: "'t run_env \<Rightarrow> 't st \<Rightarrow> (int \<times> 't st) res" where
  "start_threads env =
     sthen (\<lambda>s. if g_report_interval (s_globals s) > 0 \<and> \<not> re_report_created env
                then s_fail_errno env ''pthread_create() for the reporting thread failed.'' s else Inr (0, s))
    (sthen (\<lambda>s. if g_tx_rate (s_globals s) > 0 \<and> \<not> re_eventgen_created env
                then s_fail_errno env ''pthread_create() for the reporting thread failed.'' s else Inr (0, s))
    (sthen (\<lambda>s. if g_n_checkpoints (s_globals s) > 0 \<and> \<not> re_checkpoints_created env
                then s_fail_errno env ''pthread_create() for the checkpoint thread failed.'' s else Inr (0, s))
           (\<lambda>s. create_workers env [0..<unat (g_num_threads (s_globals s))] s)))"

definition join_workers :: "'t run_env \<Rightarrow> nat \<Rightarrow> 't st \<Rightarrow> 't st res" where
  "join_workers env n =
     rfold (\<lambda>i s. if re_worker_joined env i then Inr s
                  else s_log_errno env LOG_FATAL (''pthread_join() for thread #'' @ print_nat i @ '' failed.'') s) [0..<n]"

text \<open>After the workers have ended: the report thread is silenced, the test is cleaned up and reports.\<close>

definition finish_run :: "'t run_env \<Rightarrow> ('t, 'r) sb_test \<Rightarrow> bool \<Rightarrow> bool \<Rightarrow> bool \<Rightarrow> 't st \<Rightarrow> (int \<times> 't st) res" where
  "finish_run env test report eventgen checkpoints s =
     rbind (s_log LOG_INFO (''Done.'' @ newline) (upd_sg (\<lambda>g. g\<lparr>g_report_interval := 0\<rparr>) s)) (\<lambda>s.
     rbind (run_op (op_cleanup test) s) (\<lambda>(rc, s).
       if rc \<noteq> 0 then Inr (1, s)
       else
         rbind (case op_print_stats test of
                  Some f \<Rightarrow> if g_error (s_globals s) = 0 then f SB_STAT_CUMULATIVE s else Inr s
                | None \<Rightarrow> Inr s) (\<lambda>s.
         rbind (run_op (op_done test) s) (\<lambda>(_, s).
         rbind (if report \<and> \<not> re_report_ended env then s_log_errno env LOG_FATAL ''Terminating the reporting thread failed.'' s else Inr s) (\<lambda>s.
         rbind (if eventgen \<and> \<not> re_eventgen_ended env then s_log LOG_FATAL ''Terminating the event generator thread failed.'' s else Inr s) (\<lambda>s.
         rbind (if checkpoints \<and> \<not> re_checkpoints_ended env then s_log_errno env LOG_FATAL ''Terminating the checkpoint thread failed.'' s else Inr s) (\<lambda>s.
           Inr (if g_error (s_globals s) \<noteq> 0 then 1 else 0, s))))))))"

definition run_test :: "(int \<Rightarrow> nat \<Rightarrow> nat) \<Rightarrow> int \<Rightarrow> 't run_env \<Rightarrow> ('t, 'r) sb_test \<Rightarrow> 't st \<Rightarrow> (int \<times> 't st) res" where
  "run_test srand48 time env test =
     sthen (run_op (op_init test))
    (sthen (\<lambda>s. rbind (print_run_mode srand48 time test s)
              (\<lambda>s. Inr (0, upd_sg (\<lambda>g. g\<lparr>g_exec_timer := sb_timer_init (g_exec_timer g),
                      g_cumulative_timer1 := sb_timer_init (g_cumulative_timer1 g),
                      g_cumulative_timer2 := sb_timer_init (g_cumulative_timer2 g)\<rparr>) s)))
    (sthen (run_op (op_prepare test))
    (sthen (\<lambda>s. start_threads env (reset_run s))
           (\<lambda>s. let report = g_report_interval (s_globals s) > 0;
                    eventgen = g_tx_rate (s_globals s) > 0;
                    checkpoints = g_n_checkpoints (s_globals s) > 0;
                    n = unat (g_num_threads (s_globals s)) in
                rbind (s_world (on_run_timers sb_timer_start) s) (\<lambda>s.
                rbind (s_log LOG_NOTICE (''Threads started!'' @ newline) s) (\<lambda>s.
                rbind (re_running env s) (\<lambda>s.
                rbind (join_workers env n s) (\<lambda>s.
                rbind (s_world (on_run_timers sb_timer_stop) s)
                  (finish_run env test report eventgen checkpoints)))))))))"

section \<open>The program\<close>

definition die :: "int \<Rightarrow> string \<Rightarrow> 't st \<Rightarrow> (int \<times> 't st) res" where
  "die rc m s = Inr (rc, (upd_w (w_print m) (fst s), snd s))"

definition usage :: "('t, 'r) sb_test list \<Rightarrow> 't st \<Rightarrow> 't st" where
  "usage tests s = (print_usage (map (\<lambda>t. (t_sname t, t_lname t)) tests) (fst s), snd s)"

definition help_command :: "('t, 'r) sb_test list \<Rightarrow> ('t, 'r) sb_test option \<Rightarrow> 't st \<Rightarrow> (int \<times> 't st) res" where
  "help_command tests test s =
     (case test of
        None \<Rightarrow> Inr (0, usage tests s)
      | Some t \<Rightarrow>
          (let s = (case t_args t of
                      None \<Rightarrow> s
                    | Some args \<Rightarrow> (upd_w (w_print (t_sname t @ '' options:'' @ newline @ sb_print_options args)) (fst s), snd s))
           in case cmd_help t of
                Some f \<Rightarrow> rbind (f s) (\<lambda>(_, s). Inr (0, s))
              | None \<Rightarrow> die 0 (''No help available for test '' @ [CHR 0x27] @ t_sname t @ [CHR 0x27] @ ''.'' @ newline) s))"

definition run_command ::
  "fpenv \<Rightarrow> (int \<Rightarrow> nat \<Rightarrow> nat) \<Rightarrow> int \<Rightarrow> 't run_env \<Rightarrow> ('t, 'r) sb_test \<Rightarrow> 't st \<Rightarrow> (int \<times> 't st) res" where
  "run_command fp srand48 time env test s =
     (let missing = (\<lambda>c. [CHR 0x27] @ t_sname test @ [CHR 0x27] @ '' test does not have the '' @ [CHR 0x27] @ c @ [CHR 0x27] @ '' command.'' @ newline) in
      case g_command (s_globals s) of
        SB_COMMAND_PREPARE \<Rightarrow> (case cmd_prepare test of None \<Rightarrow> die 1 (missing ''prepare'') s | Some f \<Rightarrow> f s)
      | SB_COMMAND_CLEANUP \<Rightarrow> (case cmd_cleanup test of None \<Rightarrow> die 1 (missing ''cleanup'') s | Some f \<Rightarrow> f s)
      | _ \<Rightarrow>
          rbind (run_test srand48 time env test s)
            (\<lambda>(rc, s). if rc \<noteq> 0 then Inr (1, s)
               else rbind (s_world (log_done fp) s) (\<lambda>s. Inr (0, s))))"

text \<open>
  \<^verbatim>\<open>main\<close>: the exit status and the final state. \<open>registered\<close> is the sum of the results of the registration functions of the
  tests, \<open>script_load\<close> what the scripting component makes of a test name that is a script.
\<close>

definition sb_main ::
  "fpenv \<Rightarrow> fs \<Rightarrow> string \<Rightarrow> (int \<Rightarrow> nat \<Rightarrow> nat) \<Rightarrow> int \<Rightarrow> 't run_env \<Rightarrow> int \<Rightarrow> ('t, 'r) sb_test list \<Rightarrow>
   (string \<Rightarrow> 't st \<Rightarrow> (('t, 'r) sb_test option \<times> 't st) res) \<Rightarrow> string list \<Rightarrow> 't st \<Rightarrow> (int \<times> 't st) res" where
  "sb_main fp fs version srand48 time env registered tests script_load argv s =
     (let s = (set_opts (snd (sb_options_init (pg_opts (fst s)))) (fst s), snd s) in
      rbind (log_register fs (pg_w (fst s))) (\<lambda>(rc, w).
        let s = ((fst s)\<lparr>pg_w := w\<rparr>, snd s) in
        if rc \<noteq> 0 then Inr (1, s)
        else if registered \<noteq> 0 then die 1 (''Failed to register tests.'' @ newline) s
        else
          rbind (parse_arguments fs (map t_args tests) argv (fst s)) (\<lambda>(rc, pg).
            let s = (pg, snd s) in
            if rc \<noteq> 0 then Inr (1, usage tests s)
            else if g_command (s_globals s) = SB_COMMAND_VERSION \<or> sb_get_value_flag (pg_opts (fst s)) ''version''
            then die 0 (version @ newline) s
            else if g_command (s_globals s) = SB_COMMAND_NULL
            then Inr (1, usage tests (upd_w (w_print (''Missing required command argument.'' @ newline)) (fst s), snd s))
            else
              rbind (pthen (init fp fs) (\<lambda>pg. rbind (log_init fp (pg_w pg)) (\<lambda>(rc, w). Inr (rc, pg\<lparr>pg_w := w\<rparr>))) (fst s)) (\<lambda>(rc, pg).
                let s = (pg, snd s) in
                if rc \<noteq> 0 then Inr (1, s)
                else
                  rbind (print_header version (fst s)) (\<lambda>pg.
                    let s = (pg, snd s); testname = sb_get_value_string (pg_opts pg) ''test'' in
                    rbind (case testname of
                             None \<Rightarrow> Inr (None, s)
                           | Some n \<Rightarrow> (case find_test tests n of Some t \<Rightarrow> Inr (Some t, s) | None \<Rightarrow> script_load n s)) (\<lambda>(test, s).
                      if g_command (s_globals s) = SB_COMMAND_HELP then help_command tests test s
                      else
                        (case testname of
                           None \<Rightarrow> Inr (1, usage tests (upd_w (w_print (''Missing required argument: --test.'' @ newline)) (fst s), snd s))
                         | Some n \<Rightarrow>
                             (case test of
                                None \<Rightarrow> die 1 (''Invalid test name: '' @ n @ ''.'' @ newline) s
                              | Some t \<Rightarrow> run_command fp srand48 time env t s))))))))"

section \<open>Properties\<close>

lemma print_nat_u32: "length (print_nat (unat (x :: u32))) \<le> 10"
proof -
  have "unat x < 10 ^ 10"
    using unsigned_less [of x, where ?'a = nat] by (rule less_le_trans) simp
  then show ?thesis by (rule length_print_nat) simp
qed

fun comma_list :: "string list \<Rightarrow> string" where
  "comma_list [] = []"
| "comma_list [x] = x"
| "comma_list (x # y # zs) = x @ '', '' @ comma_list (y # zs)"

text \<open>
  The buffer for the list of checkpoints is large enough: for any number of checkpoints the initialisation accepts,
  the text logged is the complete list, separated by commas.
\<close>

lemma checkpoint_list_complete:
  assumes "length xs \<le> MAX_CHECKPOINTS"
  shows "checkpoint_list (MAX_CHECKPOINTS * 12) xs = comma_list (map (\<lambda>x. print_nat (unat x)) xs)"
proof -
  have "12 * length xs \<le> sz \<Longrightarrow> checkpoint_list sz xs = comma_list (map (\<lambda>x. print_nat (unat x)) xs)" for sz
  proof (induction sz xs rule: checkpoint_list.induct)
    case (2 sz x)
    then show ?case using print_nat_u32 [of x] by (simp add: snprintf_text_def)
  next
    case (3 sz x y zs)
    then show ?case using print_nat_u32 [of x] by (simp add: Let_def)
  qed simp
  then show ?thesis using assms by simp
qed

lemma checkpoint_list_complete_witness:
  "checkpoint_list (MAX_CHECKPOINTS * 12) [5, 20] = comma_list (map (\<lambda>x. print_nat (unat x)) [5, 20 :: u32])"
  by (rule checkpoint_list_complete) (simp add: MAX_CHECKPOINTS_def)

lemma report_next_least:
  assumes "0 < unat interval" and "unat tm + 2 * unat interval < 2 ^ 64" and "unat prev \<le> unat tm + unat interval"
  shows "\<exists>nxt k. report_next prev interval tm = Some nxt \<and> unat nxt = unat prev + Suc k * unat interval \<and>
           unat tm < unat nxt \<and> (k = 0 \<or> unat prev + k * unat interval \<le> unat tm)"
  using assms(3)
proof (induction "unat tm + unat interval - unat prev" arbitrary: prev rule: less_induct)
  case less
  have nx: "unat (prev + interval) = unat prev + unat interval"
    using less.prems assms(2) by (intro unat_plus_no_wrap) simp
  show ?case
  proof (cases "prev + interval \<le> tm")
    case False
    then have "report_next prev interval tm = Some (prev + interval)" "unat tm < unat prev + unat interval"
      using nx by (simp_all add: report_next.simps [of prev] word_le_nat_alt)
    then show ?thesis
      using nx by (intro exI [of _ "prev + interval"] exI [of _ 0]) simp
  next
    case True
    then have le: "unat prev + unat interval \<le> unat tm"
      using nx by (simp add: word_le_nat_alt)
    have "unat tm + unat interval - unat (prev + interval) < unat tm + unat interval - unat prev"
      using le nx assms(1) by linarith
    moreover have "unat (prev + interval) \<le> unat tm + unat interval"
      using le nx by linarith
    ultimately obtain nxt k where "report_next (prev + interval) interval tm = Some nxt"
        "unat nxt = unat (prev + interval) + Suc k * unat interval" "unat tm < unat nxt"
        "k = 0 \<or> unat (prev + interval) + k * unat interval \<le> unat tm"
      using less.hyps by blast
    then show ?thesis
      using True nx le by (intro exI [of _ nxt] exI [of _ "Suc k"]) (auto simp: report_next.simps [of prev])
  qed
qed

text \<open>
  Reports keep their rhythm: the loop that computes the time of the next intermediate report ends, and its
  result is the first instant of the grid \<open>prev + k \<cdot> interval\<close> (\<open>k \<ge> 1\<close>) after the current time, so that reports which took too long are skipped and the pause is positive
  and at most one interval once the grid has been reached.
\<close>

lemma report_next_on_grid:
  assumes "0 < unat interval" and "unat tm + 2 * unat interval < 2 ^ 64" and "unat prev \<le> unat tm + unat interval"
  shows "\<exists>nxt k. report_next prev interval tm = Some nxt \<and> unat nxt = unat prev + Suc k * unat interval \<and>
           tm < nxt \<and> (prev \<le> tm \<longrightarrow> unat (nxt - tm) \<le> unat interval)"
proof -
  obtain nxt k where n: "report_next prev interval tm = Some nxt" "unat nxt = unat prev + Suc k * unat interval"
      "unat tm < unat nxt" "k = 0 \<or> unat prev + k * unat interval \<le> unat tm"
    using report_next_least [OF assms] by blast
  have "unat (nxt - tm) = unat nxt - unat tm"
    using n(3) by (intro unat_word_minus) (simp add: word_le_nat_alt)
  then show ?thesis
    using n by (auto simp: word_less_nat_alt word_le_nat_alt)
qed

lemma report_next_on_grid_witness:
  "\<exists>nxt k. report_next 100 10 125 = Some nxt \<and> unat nxt = 100 + Suc k * 10 \<and> 125 < nxt"
  using report_next_on_grid [of 10 125 100] by auto

section \<open>Worker threads end\<close>

text \<open>What the loop of a worker needs of the program state: an initialised logger and timer, no error, no rate limit.\<close>

definition run_ok :: "prog \<Rightarrow> bool" where
  "run_ok pg \<longleftrightarrow> logger_ready (pg_w pg) \<and> sb_timer_initialized (g_exec_timer (pg_globals pg)) \<and> g_tx_rate (pg_globals pg) = 0"

lemma sb_timer_value_initialized:
  "sb_timer_initialized t \<Longrightarrow> \<exists>v t' msgs. sb_timer_value now t = Inr (v, t', msgs) \<and> sb_timer_initialized t'"
  by (cases "state t") (auto simp: sb_timer_value_def sb_timer_initialized_def sb_timer_update_def Let_def)

text \<open>What reading the clock and writing messages between two requests change: the execution timer and the text output.\<close>

definition run_frame :: "prog \<Rightarrow> prog \<Rightarrow> bool" where
  "run_frame pg pg' \<longleftrightarrow>
     (\<exists>t. pg_globals pg' = (pg_globals pg)\<lparr>g_exec_timer := t\<rparr>) \<and> pg_rand pg' = pg_rand pg \<and>
     lg_handlers (w_log (pg_w pg')) = lg_handlers (w_log (pg_w pg)) \<and>
     lg_initialized (w_log (pg_w pg')) = lg_initialized (w_log (pg_w pg)) \<and>
     lg_percentile (w_log (pg_w pg')) = lg_percentile (w_log (pg_w pg)) \<and>
     lg_timers (w_log (pg_w pg')) = lg_timers (w_log (pg_w pg))"

lemma update_exec_timer:
  "\<exists>t'. g\<lparr>g_exec_timer := t, g_num_running := n\<rparr> = g\<lparr>g_num_running := n, g_exec_timer := t'\<rparr>"
  by (intro exI [of _ t]) simp

lemma run_frame_refl [simp]: "run_frame pg pg"
  by (auto simp: run_frame_def intro: exI [of _ "g_exec_timer (pg_globals pg)"])

lemma run_frame_trans: "run_frame pg pg' \<Longrightarrow> run_frame pg' pg'' \<Longrightarrow> run_frame pg pg''"
  by (auto simp: run_frame_def)

lemma text_frame_run_frame: "text_frame (pg_w pg) w' \<Longrightarrow> run_frame pg (pg\<lparr>pg_w := w'\<rparr>)"
  by (auto simp: run_frame_def text_frame_def intro: exI [of _ "g_exec_timer (pg_globals pg)"])

lemma run_frame_running:
  assumes "run_frame (fst s) pg"
  shows "run_frame (fst (upd_sg (\<lambda>g. g\<lparr>g_num_running := g_num_running g + 1\<rparr>) s))
           (fst (upd_sg (\<lambda>g. g\<lparr>g_num_running := g_num_running g + 1\<rparr>) (pg, t)))"
  using assms by (auto simp: run_frame_def upd_sg_def update_exec_timer)

lemma s_log_run_ok:
  assumes "run_ok (fst s)"
  shows "\<exists>pg'. s_log p m s = Inr (pg', snd s) \<and> run_ok pg' \<and> run_frame (fst s) pg'"
proof -
  obtain w' where w': "log_text p m (pg_w (fst s)) = Inr w'" "text_frame (pg_w (fst s)) w'"
    using assms log_text_ready text_handler_process_frame by (metis run_ok_def)
  then show ?thesis
    using assms text_frame_ready [OF w'(2)] text_frame_run_frame [OF w'(2)]
    by (auto simp: s_log_def p_log_def run_ok_def text_frame_def)
qed

lemma exec_timer_value_run_ok:
  assumes "run_ok (fst s)"
  shows "\<exists>v pg'. exec_timer_value s = Inr (v, (pg', snd s)) \<and> run_ok pg' \<and> run_frame (fst s) pg'"
proof -
  let ?w = "pg_w (fst s)" and ?now = "w_clock (pg_w (fst s)) (w_ticks (pg_w (fst s)))"
  obtain v t msgs where v: "sb_timer_value ?now (g_exec_timer (w_globals ?w)) = Inr (v, t, msgs)" "sb_timer_initialized t"
    using sb_timer_value_initialized assms by (metis run_ok_def)
  let ?w1 = "upd_globals (\<lambda>g. g\<lparr>g_exec_timer := t\<rparr>) (?w\<lparr>w_ticks := w_ticks ?w + 1\<rparr>)"
  have r1: "logger_ready ?w1"
    using assms by (simp add: run_ok_def logger_ready_def)
  then obtain w' where w': "log_reqs msgs ?w1 = Inr w'" "text_frame ?w1 w'"
    using log_reqs_ready by blast
  have "run_ok ((fst s)\<lparr>pg_w := w'\<rparr>)"
    using w'(2) text_frame_ready [OF w'(2) r1] assms v(2) by (simp add: run_ok_def text_frame_def)
  moreover have "run_frame (fst s) ((fst s)\<lparr>pg_w := w'\<rparr>)"
    using w'(2) by (auto simp: run_frame_def text_frame_def)
  ultimately show ?thesis
    using v(1) w'(1) by (auto simp: exec_timer_value_def SB_GETTIME_def)
qed

lemma time_limit_run_ok:
  assumes "run_ok (fst s)"
  shows "\<exists>late pg'. time_limit_exceeded s = Inr (late, (pg', snd s)) \<and> run_ok pg' \<and> run_frame (fst s) pg'"
proof (cases "g_max_time (pg_globals (fst s)) = 0")
  case True
  then show ?thesis using assms by (cases s) (auto simp: time_limit_exceeded_def)
next
  case False
  obtain v pg1 where v: "exec_timer_value s = Inr (v, (pg1, snd s))" "run_ok pg1" "run_frame (fst s) pg1"
    using exec_timer_value_run_ok [OF assms] by blast
  obtain pg2 where "s_log LOG_INFO ''Time limit exceeded, exiting...'' (pg1, snd s) = Inr (pg2, snd s)" "run_ok pg2"
      "run_frame (fst s) pg2"
    using s_log_run_ok [of "(pg1, snd s)"] v(2,3) run_frame_trans by fastforce
  then show ?thesis
    using v False by (auto simp: time_limit_exceeded_def)
qed

text \<open>
  A test whose requests come to an end: the interface between a test and the worker loop. \<open>remaining\<close>
  bounds the number of requests the thread may still serve; getting and executing one
  uses it up, unless the execution ends the loop itself, and what the loop does between two requests does not matter.
\<close>

locale request_source =
  fixes get :: "nat \<Rightarrow> 't st \<Rightarrow> ('r sb_request \<times> 't st) res"
    and exec :: "'r sb_request \<Rightarrow> nat \<Rightarrow> 't op"
    and remaining :: "'t st \<Rightarrow> nat"
    and ok :: "nat \<Rightarrow> 't st \<Rightarrow> bool"
  assumes serve:
      "ok i s \<Longrightarrow> run_ok (fst s) \<Longrightarrow>
       \<exists>ty r s1. get i s = Inr ((ty, r), s1) \<and> ok i s1 \<and> run_ok (fst s1) \<and>
         (ty \<noteq> SB_REQ_TYPE_NULL \<longrightarrow>
            (\<exists>rc s2. exec (ty, r) i s1 = Inr (rc, s2) \<and> ok i s2 \<and> run_ok (fst s2) \<and>
               (rc = 0 \<longrightarrow> remaining s2 < remaining s)))"
    and between: "ok i (pg, t) \<Longrightarrow> run_frame pg pg' \<Longrightarrow> ok i (pg', t) \<and> remaining (pg', t) = remaining (pg, t)"
begin

lemma iteration_progress:
  assumes "ok i s" and "run_ok (fst s)" and "op_get_request test = Some get" and "op_execute_request test = Some exec"
  shows "\<exists>res q' s'. runner_iteration test i start q s = Inr (res, start, q', s') \<and> ok i s' \<and> run_ok (fst s') \<and>
           (res = Left_loop \<or> (res = Again \<and> remaining s' < remaining s))"
proof -
  have rate: "\<not> g_tx_rate (s_globals s) > 0"
    using assms(2) by (simp add: run_ok_def)
  obtain ty r s1 where s1: "get i s = Inr ((ty, r), s1)" "ok i s1" "run_ok (fst s1)"
      "ty \<noteq> SB_REQ_TYPE_NULL \<Longrightarrow> \<exists>rc s2. exec (ty, r) i s1 = Inr (rc, s2) \<and> ok i s2 \<and> run_ok (fst s2) \<and>
         (rc = 0 \<longrightarrow> remaining s2 < remaining s)"
    using serve [OF assms(1,2)] by blast
  obtain rc s2 where s2: "(if ty \<noteq> SB_REQ_TYPE_NULL then exec (ty, r) i s1 else Inr (0, s1)) = Inr (rc, s2)"
      "ok i s2" "run_ok (fst s2)" "ty \<noteq> SB_REQ_TYPE_NULL \<and> rc = 0 \<longrightarrow> remaining s2 < remaining s"
    using s1 by (cases "ty = SB_REQ_TYPE_NULL") auto
  obtain late pg3 where s3: "time_limit_exceeded s2 = Inr (late, (pg3, snd s2))" "run_ok pg3" "run_frame (fst s2) pg3"
    using time_limit_run_ok [OF s2(3)] by blast
  have "ok i (pg3, snd s2) \<and> remaining (pg3, snd s2) = remaining s2"
    using between [of i "fst s2" "snd s2" pg3] s2(2) s3(3) by simp
  then show ?thesis
    using rate s1(1) s2 s3(1,2) assms(3,4)
    by (cases s2; cases "rc = 0") (auto simp: runner_iteration_def get_request_def execute_request_def)
qed

lemma loop_ends:
  "ok i s \<Longrightarrow> run_ok (fst s) \<Longrightarrow> op_get_request test = Some get \<Longrightarrow> op_execute_request test = Some exec \<Longrightarrow>
   remaining s < n \<Longrightarrow> \<exists>q' s'. runner_loop n test i start q s = Inr (Left_loop, start, q', s') \<and> ok i s' \<and> run_ok (fst s')"
proof (induction n arbitrary: s q)
  case (Suc n)
  obtain res q1 s1 where it: "runner_iteration test i start q s = Inr (res, start, q1, s1)" "ok i s1" "run_ok (fst s1)"
      "res = Left_loop \<or> (res = Again \<and> remaining s1 < remaining s)"
    using iteration_progress [OF Suc.prems(1-4)] by blast
  show ?case
  proof (cases "res = Left_loop")
    case True
    then show ?thesis using it by simp
  next
    case False
    then show ?thesis
      using it Suc.IH [of s1 q1] Suc.prems(3-5) by auto
  qed
qed simp

text \<open>A whole worker thread of a test without thread initialisation, which every built-in test is.\<close>

lemma thread_ends:
  assumes "ok i (upd_sg (\<lambda>g. g\<lparr>g_num_running := g_num_running g + 1\<rparr>) s)" and "run_ok (fst s)"
    and "op_get_request test = Some get" and "op_execute_request test = Some exec"
    and "op_thread_init test = None" and "op_thread_done test = None"
    and "remaining (upd_sg (\<lambda>g. g\<lparr>g_num_running := g_num_running g + 1\<rparr>) s) < n"
  shows "\<exists>q' s'. runner_thread n test i q s = Inr (Left_loop, q', s')"
proof -
  obtain pg1 where l: "s_log LOG_DEBUG (''Runner thread started ('' @ print_nat i @ '')!'') s = Inr (pg1, snd s)" "run_ok pg1"
      "run_frame (fst s) pg1"
    using s_log_run_ok [OF assms(2)] by blast
  let ?up = "upd_sg (\<lambda>g. g\<lparr>g_num_running := g_num_running g + 1\<rparr>)"
  have f: "run_frame (fst (?up s)) (fst (?up (pg1, snd s)))" "run_ok (fst (?up (pg1, snd s)))"
    using l(2) run_frame_running [OF l(3)] by (auto simp: run_ok_def upd_sg_def logger_ready_def)
  have "ok i (?up (pg1, snd s))" "remaining (?up (pg1, snd s)) = remaining (?up s)"
    using between [of i "fst (?up s)" "snd s" "fst (?up (pg1, snd s))"] f(1) assms(1) by (simp_all add: upd_sg_def)
  then obtain q' s' where "runner_loop n test i 0 q (?up (pg1, snd s)) = Inr (Left_loop, 0, q', s')"
    using loop_ends [of i "?up (pg1, snd s)" test n 0 q] f(2) assms(3,4,7) by auto
  then show ?thesis
    using l(1) assms(5,6) by (simp add: runner_thread_def run_op_def)
qed

end

end
