(* ===== verification/DbDriver.thy ===== *)
theory DbDriver
  imports SbRun
begin

text \<open>
  The database layer (\<^verbatim>\<open>db_driver.c\<close>, \<^verbatim>\<open>db_driver.h\<close>). Connections, statements and rows
  are allocated objects: the state holds a store for each kind, a pointer is an address (\<open>None\<close> is NULL), and an
  access to an object that is not allocated is a fault. A result set is a part of its connection and has the
  connection's address. A database driver is a record of operations on this state, which includes the driver's own
  state \<open>'d\<close>; the list of the registered drivers is an argument \<open>drvs\<close> of the functions, and a pointer to a driver is its index there.
\<close>

section \<open>Data\<close>

datatype db_ps_mode_t = DB_PS_MODE_AUTO | DB_PS_MODE_DISABLE

record drv_caps_t =
  multi_rows_insert :: bool
  prepared_statements :: bool
  auto_increment :: bool
  needs_commit :: bool
  serial :: bool
  unsigned_int :: bool

datatype db_error_t =
    SB_DB_ERROR_NONE
  | SB_DB_ERROR_RESTART_TRANSACTION
  | SB_DB_ERROR_RECONNECTED
  | SB_DB_ERROR_FAILED

datatype db_bind_type_t =
    DB_TYPE_NONE
  | DB_TYPE_TINYINT
  | DB_TYPE_SMALLINT
  | DB_TYPE_INT
  | DB_TYPE_BIGINT
  | DB_TYPE_FLOAT
  | DB_TYPE_DOUBLE
  | DB_TYPE_TIME
  | DB_TYPE_DATE
  | DB_TYPE_DATETIME
  | DB_TYPE_TIMESTAMP
  | DB_TYPE_CHAR
  | DB_TYPE_VARCHAR

record db_time_t =
  tm_year :: u32
  tm_month :: u32
  tm_day :: u32
  tm_hour :: u32
  tm_minute :: u32
  tm_second :: u32

text \<open>
  What the pointers of a bound variable point to: a buffer with a number, a time or the bytes of a string, a length, or a NULL flag.
  The variables belong to the caller, which changes them between two executions of a statement; they are in a store.
\<close>

datatype bind_data =
    Undef_data
  | Int_data int
  | Real_data real
  | String_data string
  | Time_data db_time_t
  | Len_data u64
  | Flag_data bool

type_synonym vars = "nat \<Rightarrow> bind_data option"

record db_bind_t =
  b_type :: db_bind_type_t
  b_buffer :: "nat option"
  b_data_len :: "nat option"
  b_max_len :: u64
  b_is_null :: "nat option"

record db_result_set_t =
  rs_connection :: "nat option"
  rs_statement :: "nat option"
  rs_row :: "nat option"
  rs_ptr :: "nat option"
  rs_nrows :: u64

definition rs_zero :: db_result_set_t where
  "rs_zero = \<lparr>rs_connection = None, rs_statement = None, rs_row = None, rs_ptr = None, rs_nrows = 0\<rparr>"

text \<open>A character buffer of a fixed capacity; a cell that has not been written is \<open>None\<close>.\<close>

record cbuf =
  cb_cap :: nat
  cb_cells :: "nat \<Rightarrow> char option"

definition cb_new :: "nat \<Rightarrow> cbuf" where
  "cb_new n = \<lparr>cb_cap = n, cb_cells = (\<lambda>_. None)\<rparr>"

definition cb_put :: "nat \<Rightarrow> char \<Rightarrow> cbuf \<Rightarrow> cbuf res" where
  "cb_put i c b = (if i < cb_cap b then Inr (b\<lparr>cb_cells := (cb_cells b)(i := Some c)\<rparr>) else Inl Out_of_bounds)"

text \<open>\<^verbatim>\<open>strcpy\<close> to a position of the buffer, and the string that starts at a position.\<close>

fun cb_strcpy :: "nat \<Rightarrow> string \<Rightarrow> cbuf \<Rightarrow> cbuf res" where
  "cb_strcpy i [] b = cb_put i (CHR 0x00) b"
| "cb_strcpy i (c # cs) b = rbind (cb_put i c b) (cb_strcpy (Suc i) cs)"

function cb_string :: "nat \<Rightarrow> cbuf \<Rightarrow> string res" where
  "cb_string i b =
     (if i \<ge> cb_cap b then Inl Out_of_bounds
      else (case cb_cells b i of
              None \<Rightarrow> Inl Uninit_read
            | Some c \<Rightarrow> if c = CHR 0x00 then Inr [] else rbind (cb_string (Suc i) b) (\<lambda>s. Inr (c # s))))"
  by pat_completeness auto

termination
  by (relation "measure (\<lambda>(i, b). cb_cap b - i)") auto

declare cb_string.simps [simp del]

datatype db_conn_type_t = DB_CONN_TYPE_UNUSED | DB_CONN_TYPE_MYSQL

record db_conn_t =
  con_driver :: "nat option"
  con_type :: db_conn_type_t
  con_ptr :: "nat option"
  con_errno :: db_error_t
  bulk_supported :: bool
  bulk_cnt :: u32
  bulk_buffer :: "cbuf option"
  bulk_buflen :: u32
  bulk_ptr :: u32
  bulk_ptr_orig :: u32
  bulk_commit_cnt :: u32
  bulk_commit_max :: u32
  con_thread_id :: int
  con_rs :: db_result_set_t

datatype db_query_type_t =
    DB_QUERY_TYPE_READ
  | DB_QUERY_TYPE_WRITE
  | DB_QUERY_TYPE_COMMIT
  | DB_QUERY_TYPE_OTHER

record db_stmt_t =
  st_connection :: "nat option"
  st_query :: "string option"
  st_bound_param :: "db_bind_t list option"
  st_bound_param_len :: u32
  st_emulated :: bool
  st_type :: db_query_type_t
  st_ptr :: "nat option"

text \<open>The zeroed memory of \<^verbatim>\<open>calloc\<close>.\<close>

definition con_zero :: db_conn_t where
  "con_zero =
     \<lparr>con_driver = None, con_type = DB_CONN_TYPE_UNUSED, con_ptr = None, con_errno = SB_DB_ERROR_NONE,
      bulk_supported = False, bulk_cnt = 0, bulk_buffer = None, bulk_buflen = 0, bulk_ptr = 0, bulk_ptr_orig = 0,
      bulk_commit_cnt = 0, bulk_commit_max = 0, con_thread_id = 0, con_rs = rs_zero\<rparr>"

definition stmt_zero :: db_stmt_t where
  "stmt_zero =
     \<lparr>st_connection = None, st_query = None, st_bound_param = None, st_bound_param_len = 0, st_emulated = False,
      st_type = DB_QUERY_TYPE_READ, st_ptr = None\<rparr>"

record db_thread_stat_t =
  read_ops :: u64
  write_ops :: u64
  other_ops :: u64
  transactions :: u64
  errors :: u64
  reconnects :: u64

definition stat_zero :: db_thread_stat_t where
  "stat_zero = \<lparr>read_ops = 0, write_ops = 0, other_ops = 0, transactions = 0, errors = 0, reconnects = 0\<rparr>"

text \<open>The state of the layer: the program, the variables of \<^verbatim>\<open>db_driver.c\<close>, the stores and the state of the driver.\<close>

record 'd db_state =
  ds_pg :: prog
  ds_ps_mode :: db_ps_mode_t
  ds_driver :: "string option"
  ds_debug :: bool
  local_percentile :: "sb_percentile_t option"
  last_transactions :: u64
  last_read_ops :: u64
  last_write_ops :: u64
  last_errors :: u64
  last_reconnects :: u64
  thread_stats :: "db_thread_stat_t list option"
  exec_timers :: "sb_timer_t list option"
  fetch_timers :: "sb_timer_t list option"
  ds_conns :: "nat \<Rightarrow> db_conn_t option"
  ds_stmts :: "nat \<Rightarrow> db_stmt_t option"
  ds_rows :: "nat \<Rightarrow> nat option option"
  ds_vars :: vars
  ds_next :: nat
  ds_drv :: 'd

abbreviation ds_globals :: "'d db_state \<Rightarrow> sb_globals_t" where "ds_globals st \<equiv> pg_globals (ds_pg st)"

type_synonym 'd dop = "'d db_state \<Rightarrow> (int \<times> 'd db_state) res"
type_synonym 'd eop = "'d db_state \<Rightarrow> (db_error_t \<times> 'd db_state) res"

record 'd drv_ops_t =
  drv_init :: "'d dop"
  drv_describe :: "('d db_state \<Rightarrow> ((int \<times> drv_caps_t) \<times> 'd db_state) res) option"
  drv_connect :: "nat \<Rightarrow> 'd dop"
  drv_disconnect :: "nat \<Rightarrow> 'd dop"
  drv_prepare :: "nat \<Rightarrow> string \<Rightarrow> 'd dop"
  drv_bind_param :: "nat \<Rightarrow> db_bind_t list \<Rightarrow> u32 \<Rightarrow> 'd dop"
  drv_bind_result :: "nat \<Rightarrow> db_bind_t list \<Rightarrow> u32 \<Rightarrow> 'd dop"
  drv_execute :: "nat \<Rightarrow> nat \<Rightarrow> 'd eop"
  drv_fetch :: "nat \<Rightarrow> 'd dop"
  drv_fetch_row :: "nat \<Rightarrow> nat \<Rightarrow> 'd dop"
  drv_num_rows :: "nat \<Rightarrow> 'd db_state \<Rightarrow> (u64 \<times> 'd db_state) res"
  drv_free_results :: "nat \<Rightarrow> 'd dop"
  drv_close :: "nat \<Rightarrow> 'd dop"
  drv_query :: "nat \<Rightarrow> string \<Rightarrow> nat \<Rightarrow> 'd eop"
  drv_store_results :: "nat \<Rightarrow> 'd eop"
  drv_done :: "'d dop"

record 'd db_driver_t =
  d_sname :: string
  d_lname :: string
  d_args :: "sb_arg_t list option"
  d_ops :: "'d drv_ops_t"

definition BULK_PACKET_SIZE :: nat where "BULK_PACKET_SIZE = 512 * 1024"
definition ROWS_BEFORE_COMMIT :: u32 where "ROWS_BEFORE_COMMIT = 1000"

section \<open>Access to the state\<close>

definition d_log :: "log_msg_priority_t \<Rightarrow> string \<Rightarrow> 'd db_state \<Rightarrow> 'd db_state res" where
  "d_log p m st = rbind (p_log p m (ds_pg st)) (\<lambda>pg. Inr (st\<lparr>ds_pg := pg\<rparr>))"

definition d_malloc :: "'d db_state \<Rightarrow> bool \<times> 'd db_state" where
  "d_malloc st =
     (case malloc (os_mem (pg_opts (ds_pg st))) of (ok, m) \<Rightarrow>
        (ok, st\<lparr>ds_pg := set_opts ((pg_opts (ds_pg st))\<lparr>os_mem := m\<rparr>) (ds_pg st)\<rparr>))"

definition con_at :: "nat \<Rightarrow> 'd db_state \<Rightarrow> db_conn_t res" where
  "con_at c st = (case ds_conns st c of None \<Rightarrow> Inl Bad_access | Some con \<Rightarrow> Inr con)"

definition stmt_at :: "nat \<Rightarrow> 'd db_state \<Rightarrow> db_stmt_t res" where
  "stmt_at s st = (case ds_stmts st s of None \<Rightarrow> Inl Bad_access | Some stmt \<Rightarrow> Inr stmt)"

definition upd_con :: "nat \<Rightarrow> (db_conn_t \<Rightarrow> db_conn_t) \<Rightarrow> 'd db_state \<Rightarrow> 'd db_state res" where
  "upd_con c f st = rbind (con_at c st) (\<lambda>con. Inr (st\<lparr>ds_conns := (ds_conns st)(c := Some (f con))\<rparr>))"

definition upd_stmt :: "nat \<Rightarrow> (db_stmt_t \<Rightarrow> db_stmt_t) \<Rightarrow> 'd db_state \<Rightarrow> 'd db_state res" where
  "upd_stmt s f st = rbind (stmt_at s st) (\<lambda>stmt. Inr (st\<lparr>ds_stmts := (ds_stmts st)(s := Some (f stmt))\<rparr>))"

definition upd_rs :: "nat \<Rightarrow> (db_result_set_t \<Rightarrow> db_result_set_t) \<Rightarrow> 'd db_state \<Rightarrow> 'd db_state res" where
  "upd_rs c f = upd_con c (\<lambda>con. con\<lparr>con_rs := f (con_rs con)\<rparr>)"

text \<open>The driver of a connection, \<open>None\<close> when the connection or its driver is NULL.\<close>

definition driver_of :: "'d db_driver_t list \<Rightarrow> nat option \<Rightarrow> 'd db_state \<Rightarrow> 'd drv_ops_t option res" where
  "driver_of drvs c st =
     (case c of
        None \<Rightarrow> Inr None
      | Some c \<Rightarrow>
          rbind (con_at c st)
            (\<lambda>con. case con_driver con of
               None \<Rightarrow> Inr None
             | Some d \<Rightarrow> rbind (aread drvs d) (\<lambda>drv. Inr (Some (d_ops drv)))))"

section \<open>Statistics\<close>

text \<open>\<^verbatim>\<open>thread_stats[id]\<close> is changed in place.\<close>

definition upd_stat :: "int \<Rightarrow> (db_thread_stat_t \<Rightarrow> db_thread_stat_t) \<Rightarrow> 'd db_state \<Rightarrow> 'd db_state res" where
  "upd_stat tid f st =
     (case thread_stats st of
        None \<Rightarrow> Inl Null_deref
      | Some ts \<Rightarrow>
          if 0 \<le> tid \<and> nat tid < length ts
          then Inr (st\<lparr>thread_stats := Some (ts[nat tid := f (ts ! nat tid)])\<rparr>)
          else Inl Out_of_bounds)"

definition db_get_query_type :: "string \<Rightarrow> db_query_type_t" where
  "db_get_query_type query =
     (let query = dropWhile isspace query in
      if strncasecmp_eq query ''select'' 6 then DB_QUERY_TYPE_READ
      else if strncasecmp_eq query ''insert'' 6 \<or> strncasecmp_eq query ''update'' 6 \<or> strncasecmp_eq query ''delete'' 6
      then DB_QUERY_TYPE_WRITE
      else if strncasecmp_eq query ''commit'' 6 \<or> strncasecmp_eq query ''unlock tables'' 13
      then DB_QUERY_TYPE_COMMIT
      else DB_QUERY_TYPE_OTHER)"

fun count_query :: "db_query_type_t \<Rightarrow> db_thread_stat_t \<Rightarrow> db_thread_stat_t" where
  "count_query DB_QUERY_TYPE_READ s = s\<lparr>read_ops := read_ops s + 1\<rparr>"
| "count_query DB_QUERY_TYPE_WRITE s = s\<lparr>write_ops := write_ops s + 1\<rparr>"
| "count_query DB_QUERY_TYPE_COMMIT s = s\<lparr>other_ops := other_ops s + 1, transactions := transactions s + 1\<rparr>"
| "count_query DB_QUERY_TYPE_OTHER s = s\<lparr>other_ops := other_ops s + 1\<rparr>"

definition db_update_thread_stats :: "int \<Rightarrow> db_query_type_t \<Rightarrow> 'd db_state \<Rightarrow> 'd db_state res" where
  "db_update_thread_stats tid ty st = (if tid < 0 then Inr st else upd_stat tid (count_query ty) st)"

text \<open>A call of a timer function on one of the timers of the globals; its messages are logged.\<close>

definition d_split ::
  "(sb_globals_t \<Rightarrow> sb_timer_t) \<Rightarrow> (sb_timer_t \<Rightarrow> sb_globals_t \<Rightarrow> sb_globals_t) \<Rightarrow> 'd db_state \<Rightarrow> (u64 \<times> 'd db_state) res" where
  "d_split sel put st =
     rbind (w_split sel put (pg_w (ds_pg st))) (\<lambda>(v, w). Inr (v, st\<lparr>ds_pg := (ds_pg st)\<lparr>pg_w := w\<rparr>\<rparr>))"

abbreviation put_exec_timer :: "sb_timer_t \<Rightarrow> sb_globals_t \<Rightarrow> sb_globals_t" where
  "put_exec_timer t g \<equiv> g\<lparr>g_exec_timer := t\<rparr>"

abbreviation put_cumulative_timer1 :: "sb_timer_t \<Rightarrow> sb_globals_t \<Rightarrow> sb_globals_t" where
  "put_cumulative_timer1 t g \<equiv> g\<lparr>g_cumulative_timer1 := t\<rparr>"

definition num_threads :: "'d db_state \<Rightarrow> nat" where
  "num_threads st = unat (g_num_threads (ds_globals st))"

text \<open>The array of a timer per thread: every element up to the number of threads is written.\<close>

definition timers_init :: "nat \<Rightarrow> sb_timer_t list option \<Rightarrow> sb_timer_t list option res" where
  "timers_init n ts =
     (case ts of
        None \<Rightarrow> if n = 0 then Inr None else Inl Null_deref
      | Some ts \<Rightarrow> if n \<le> length ts then Inr (Some (map sb_timer_init (take n ts) @ drop n ts)) else Inl Out_of_bounds)"

definition db_reset_stats :: "'d db_state \<Rightarrow> 'd db_state res" where
  "db_reset_stats st =
     rbind (case thread_stats st of
              None \<Rightarrow> if num_threads st = 0 then Inr st else Inl Null_deref
            | Some ts \<Rightarrow>
                if num_threads st \<le> length ts
                then Inr (st\<lparr>thread_stats := Some (replicate (num_threads st) stat_zero @ drop (num_threads st) ts)\<rparr>)
                else Inl Out_of_bounds) (\<lambda>st.
     let st = st\<lparr>last_transactions := 0, last_read_ops := 0, last_write_ops := 0, last_errors := 0\<rparr> in
     rbind (if sb_timer_running (g_exec_timer (ds_globals st))
            then rbind (d_split g_exec_timer put_exec_timer st) (\<lambda>(_, st). Inr st) else Inr st) (\<lambda>st.
       if ds_debug st
       then rbind (timers_init (num_threads st) (exec_timers st)) (\<lambda>et.
            rbind (timers_init (num_threads st) (fetch_timers st)) (\<lambda>ft.
              Inr (st\<lparr>exec_timers := et, fetch_timers := ft\<rparr>)))
       else Inr st))"

section \<open>Drivers\<close>

definition db_args :: "sb_arg_t list" where
  "db_args =
     [mk_arg ''db-driver'' (''specifies database driver to use ('' @ [CHR 0x27] @ ''help'' @ [CHR 0x27] @ '' to get list of available drivers)'') SB_ARG_TYPE_STRING None,
      mk_arg ''db-ps-mode'' ''prepared statements usage mode {auto, disable}'' SB_ARG_TYPE_STRING (Some ''auto''),
      mk_arg ''db-debug'' ''print database-specific debug information'' SB_ARG_TYPE_FLAG (Some ''off'')]"

text \<open>
  The options of the drivers and of the layer are registered; the results of the registrations are not looked at.
\<close>

definition db_register :: "fs \<Rightarrow> 'd db_driver_t list \<Rightarrow> prog \<Rightarrow> (int \<times> prog) res" where
  "db_register fs drvs pg =
     rbind (rfold (\<lambda>args pg. rbind (sb_register_arg_set fs (pg_opts pg) args) (\<lambda>(_, st). Inr (set_opts st pg)))
              (List.map_filter d_args drvs @ [db_args]) pg)
       (\<lambda>pg. Inr (0, pg))"

definition db_print_help :: "'d db_driver_t list \<Rightarrow> prog \<Rightarrow> prog res" where
  "db_print_help drvs pg =
     (let note = p_log LOG_NOTICE; options = (\<lambda>args. upd_w (w_print (sb_print_options args))) in
      rbind (note (''General database options:'' @ newline) pg) (\<lambda>pg.
      rbind (note [] (options db_args pg)) (\<lambda>pg.
      rbind (note ''Compiled-in database drivers:'' pg) (\<lambda>pg.
      rbind (rfold (\<lambda>d. note (''  '' @ d_sname d @ '' - '' @ d_lname d)) drvs pg) (\<lambda>pg.
      rbind (note [] pg)
        (rfold (\<lambda>d pg. rbind (note (d_sname d @ '' options:'') pg)
                  (\<lambda>pg. case d_args d of None \<Rightarrow> Inl Null_deref | Some a \<Rightarrow> Inr (options a pg))) drvs))))))"

definition db_parse_arguments :: "'d db_state \<Rightarrow> (int \<times> 'd db_state) res" where
  "db_parse_arguments st =
     (let go = (\<lambda>mode. let opts = pg_opts (ds_pg st) in
                 Inr (0, st\<lparr>ds_ps_mode := mode, ds_driver := sb_get_value_string opts ''db-driver'',
                            ds_debug := sb_get_value_flag opts ''db-debug''\<rparr>))
      in case sb_get_value_string (pg_opts (ds_pg st)) ''db-ps-mode'' of
           None \<Rightarrow> Inl Null_deref
         | Some s \<Rightarrow>
             if s = ''auto'' then go DB_PS_MODE_AUTO
             else if s = ''disable'' then go DB_PS_MODE_DISABLE
             else rbind (d_log LOG_FATAL (''Invalid value for db-ps-mode: '' @ s) st) (\<lambda>st. Inr (1, st)))"

text \<open>
  The loop that looks for a driver: the variable holds the driver visited last when no name matches.
\<close>

fun driver_scan :: "string \<Rightarrow> 'd db_driver_t list \<Rightarrow> nat \<Rightarrow> nat option \<Rightarrow> nat option" where
  "driver_scan name [] i drv = drv"
| "driver_scan name (d # ds) i drv = (if d_sname d = name then Some i else driver_scan name ds (Suc i) (Some i))"

definition db_choose :: "'d db_driver_t list \<Rightarrow> string option \<Rightarrow> 'd db_state \<Rightarrow> (nat option \<times> 'd db_state) res" where
  "db_choose drvs name st =
     (case (case name of None \<Rightarrow> ds_driver st | Some n \<Rightarrow> Some n) of
        None \<Rightarrow>
          if length drvs = 1
          then rbind (d_log LOG_INFO (''No DB drivers specified, using '' @ d_sname (hd drvs)) st) (\<lambda>st. Inr (Some 0, st))
          else rbind (d_log LOG_FATAL ''no database driver specified'' st) (\<lambda>st. Inr (None, st))
      | Some n \<Rightarrow>
          (case driver_scan n drvs 0 None of
             Some d \<Rightarrow> Inr (Some d, st)
           | None \<Rightarrow>
               rbind (d_log LOG_FATAL (''invalid database driver name: '' @ [CHR 0x27] @ n @ [CHR 0x27]) st)
                 (\<lambda>st. Inr (None, st))))"

text \<open>
  The arrays allocated for the statistics and, in debug mode, for the timers; the results of the last two
  allocations are not checked. \<open>None\<close> when the statistics cannot be allocated.
\<close>

definition db_alloc :: "'d db_state \<Rightarrow> 'd db_state option" where
  "db_alloc st =
     (case d_malloc st of (ok, st) \<Rightarrow>
        if \<not> ok then None
        else
          (let st = st\<lparr>thread_stats := Some (replicate (num_threads st) stat_zero)\<rparr> in
           Some (if ds_debug st
                 then (case d_malloc st of (ok1, st) \<Rightarrow> (case d_malloc st of (ok2, st) \<Rightarrow>
                         st\<lparr>exec_timers := (if ok1 then Some (replicate (num_threads st) timer_zero) else None),
                            fetch_timers := (if ok2 then Some (replicate (num_threads st) timer_zero) else None)\<rparr>))
                 else st)))"

definition db_percentile_init :: "fpenv \<Rightarrow> 'd db_state \<Rightarrow> (bool \<times> 'd db_state) res" where
  "db_percentile_init fp st =
     (case sb_percentile_init fp (os_mem (pg_opts (ds_pg st))) 100000 1 (10 ^ 13) of (r, m) \<Rightarrow>
        (let st = st\<lparr>ds_pg := set_opts ((pg_opts (ds_pg st))\<lparr>os_mem := m\<rparr>) (ds_pg st)\<rparr> in
         case r of
           Inl msgs \<Rightarrow>
             rbind (log_reqs msgs (pg_w (ds_pg st))) (\<lambda>w. Inr (False, st\<lparr>ds_pg := (ds_pg st)\<lparr>pg_w := w\<rparr>\<rparr>))
         | Inr p \<Rightarrow> Inr (True, st\<lparr>local_percentile := Some p\<rparr>)))"

definition db_init :: "fpenv \<Rightarrow> 'd db_driver_t list \<Rightarrow> string option \<Rightarrow> 'd db_state \<Rightarrow> (nat option \<times> 'd db_state) res" where
  "db_init fp drvs name st =
     (if drvs = [] then rbind (d_log LOG_FATAL ''No DB drivers available'' st) (\<lambda>st. Inr (None, st))
      else
        rbind (db_parse_arguments st) (\<lambda>(rc, st).
          if rc \<noteq> 0 then Inr (None, st)
          else
            rbind (db_choose drvs name st) (\<lambda>(drv, st).
              case drv of
                None \<Rightarrow> Inr (None, st)
              | Some d \<Rightarrow>
                  rbind (aread drvs d) (\<lambda>drv.
                  rbind (drv_init (d_ops drv) st) (\<lambda>(rc, st).
                    if rc \<noteq> 0 then Inr (None, st)
                    else
                      (case db_alloc st of
                         None \<Rightarrow> Inr (None, snd (d_malloc st))
                       | Some st \<Rightarrow>
                           rbind (db_reset_stats st) (\<lambda>st.
                           rbind (db_percentile_init fp st) (\<lambda>(ok, st). Inr (if ok then Some d else None, st)))))))))"

definition db_describe :: "'d db_driver_t \<Rightarrow> 'd db_state \<Rightarrow> ((int \<times> drv_caps_t option) \<times> 'd db_state) res" where
  "db_describe drv st =
     (case drv_describe (d_ops drv) of
        None \<Rightarrow> Inr ((1, None), st)
      | Some f \<Rightarrow> rbind (f st) (\<lambda>((rc, caps), st). Inr ((rc, Some caps), st)))"

definition db_done :: "'d db_driver_t \<Rightarrow> 'd dop" where
  "db_done drv st =
     (let st = (if ds_debug st then st\<lparr>exec_timers := None, fetch_timers := None\<rparr> else st);
          st = st\<lparr>thread_stats := None, local_percentile := None\<rparr>
      in drv_done (d_ops drv) st)"

section \<open>Connections and statements\<close>

definition db_connect :: "'d db_driver_t list \<Rightarrow> nat \<Rightarrow> 'd db_state \<Rightarrow> (nat option \<times> 'd db_state) res" where
  "db_connect drvs d st =
     (case d_malloc st of (ok, st) \<Rightarrow>
        if \<not> ok then Inr (None, st)
        else
          (let c = ds_next st;
               st = st\<lparr>ds_next := c + 1, ds_conns := (ds_conns st)(c := Some (con_zero\<lparr>con_driver := Some d\<rparr>))\<rparr> in
           rbind (aread drvs d) (\<lambda>drv.
           rbind (drv_connect (d_ops drv) c st) (\<lambda>(rc, st).
             if rc \<noteq> 0 then Inr (None, st\<lparr>ds_conns := (ds_conns st)(c := None)\<rparr>) else Inr (Some c, st)))))"

definition db_set_thread :: "nat \<Rightarrow> int \<Rightarrow> 'd db_state \<Rightarrow> 'd db_state res" where
  "db_set_thread c thread_id = upd_con c (\<lambda>con. con\<lparr>con_thread_id := thread_id\<rparr>)"

definition db_disconnect :: "'d db_driver_t list \<Rightarrow> nat \<Rightarrow> 'd dop" where
  "db_disconnect drvs c st =
     rbind (driver_of drvs (Some c) st)
       (\<lambda>drv. case drv of
          None \<Rightarrow> Inr (1, st)
        | Some ops \<Rightarrow> rbind (drv_disconnect ops c st) (\<lambda>(rc, st). Inr (rc, st\<lparr>ds_conns := (ds_conns st)(c := None)\<rparr>)))"

definition db_prepare :: "'d db_driver_t list \<Rightarrow> nat \<Rightarrow> string \<Rightarrow> 'd db_state \<Rightarrow> (nat option \<times> 'd db_state) res" where
  "db_prepare drvs c query st =
     (case d_malloc st of (ok, st) \<Rightarrow>
        if \<not> ok then Inr (None, st)
        else
          (let s = ds_next st;
               st = st\<lparr>ds_next := s + 1, ds_stmts := (ds_stmts st)(s := Some (stmt_zero\<lparr>st_connection := Some c\<rparr>))\<rparr> in
           rbind (driver_of drvs (Some c) st) (\<lambda>drv. case drv of
             None \<Rightarrow> Inl Null_deref
           | Some ops \<Rightarrow>
               rbind (drv_prepare ops s query st) (\<lambda>(rc, st).
                 if rc \<noteq> 0 then Inr (None, st\<lparr>ds_stmts := (ds_stmts st)(s := None)\<rparr>)
                 else rbind (upd_stmt s (\<lambda>stmt. stmt\<lparr>st_type := db_get_query_type query\<rparr>) st) (\<lambda>st. Inr (Some s, st))))))"

definition db_bind_param :: "'d db_driver_t list \<Rightarrow> nat \<Rightarrow> db_bind_t list \<Rightarrow> u32 \<Rightarrow> 'd dop" where
  "db_bind_param drvs s params len st =
     rbind (stmt_at s st) (\<lambda>stmt.
     rbind (driver_of drvs (st_connection stmt) st) (\<lambda>drv.
       case drv of None \<Rightarrow> Inr (1, st) | Some ops \<Rightarrow> drv_bind_param ops s params len st))"

definition db_bind_result :: "'d db_driver_t list \<Rightarrow> nat \<Rightarrow> db_bind_t list \<Rightarrow> u32 \<Rightarrow> 'd dop" where
  "db_bind_result drvs s results len st =
     rbind (stmt_at s st) (\<lambda>stmt.
     rbind (driver_of drvs (st_connection stmt) st) (\<lambda>drv.
       case drv of None \<Rightarrow> Inr (1, st) | Some ops \<Rightarrow> drv_bind_result ops s results len st))"

text \<open>What a failed query does to the statistics and to the error stored in the connection.\<close>

definition db_count_error :: "nat \<Rightarrow> db_error_t \<Rightarrow> 'd db_state \<Rightarrow> 'd db_state res" where
  "db_count_error c e st =
     rbind (con_at c st) (\<lambda>con.
       case e of
         SB_DB_ERROR_RECONNECTED \<Rightarrow>
           rbind (upd_stat (con_thread_id con) (\<lambda>s. s\<lparr>reconnects := reconnects s + 1\<rparr>) st)
             (upd_con c (\<lambda>con. con\<lparr>con_errno := SB_DB_ERROR_RESTART_TRANSACTION\<rparr>))
       | SB_DB_ERROR_RESTART_TRANSACTION \<Rightarrow>
           upd_stat (con_thread_id con) (\<lambda>s. s\<lparr>errors := errors s + 1\<rparr>) st
       | _ \<Rightarrow> Inr st)"

definition db_count_ok :: "nat \<Rightarrow> db_query_type_t \<Rightarrow> 'd db_state \<Rightarrow> 'd db_state res" where
  "db_count_ok c ty st = rbind (con_at c st) (\<lambda>con. db_update_thread_stats (con_thread_id con) ty st)"

definition db_execute :: "'d db_driver_t list \<Rightarrow> nat \<Rightarrow> 'd db_state \<Rightarrow> (nat option \<times> 'd db_state) res" where
  "db_execute drvs s st =
     rbind (stmt_at s st) (\<lambda>stmt.
     rbind (driver_of drvs (st_connection stmt) st) (\<lambda>drv.
       case (drv, st_connection stmt) of
         (Some ops, Some c) \<Rightarrow>
           rbind (upd_rs c (\<lambda>_. rs_zero\<lparr>rs_statement := Some s, rs_connection := Some c\<rparr>) st) (\<lambda>st.
           rbind (drv_execute ops s c st) (\<lambda>(e, st).
           rbind (upd_con c (\<lambda>con. con\<lparr>con_errno := e\<rparr>) st) (\<lambda>st.
             if e \<noteq> SB_DB_ERROR_NONE
             then
               rbind (d_log LOG_DEBUG (''ERROR: exiting db_execute(), driver'' @ [CHR 0x27] @ ''s execute method failed'') st) (\<lambda>st.
               rbind (db_count_error c e st) (\<lambda>st. Inr (None, st)))
             else
               rbind (stmt_at s st) (\<lambda>stmt. rbind (db_count_ok c (st_type stmt) st) (\<lambda>st. Inr (Some c, st))))))
       | _ \<Rightarrow>
           rbind (d_log LOG_DEBUG ''ERROR: exiting db_execute(), uninitialized connection'' st) (\<lambda>st. Inr (None, st))))"

definition db_num_rows :: "'d db_driver_t list \<Rightarrow> nat \<Rightarrow> 'd db_state \<Rightarrow> (u64 \<times> 'd db_state) res" where
  "db_num_rows drvs rs st =
     rbind (con_at rs st) (\<lambda>con.
     rbind (driver_of drvs (rs_connection (con_rs con)) st) (\<lambda>drv.
       case drv of None \<Rightarrow> Inr (0, st) | Some ops \<Rightarrow> drv_num_rows ops rs st))"

definition db_free_row :: "nat \<Rightarrow> 'd db_state \<Rightarrow> 'd db_state res" where
  "db_free_row a st = (if ds_rows st a = None then Inl Bad_free else Inr (st\<lparr>ds_rows := (ds_rows st)(a := None)\<rparr>))"

definition db_fetch_row :: "'d db_driver_t list \<Rightarrow> nat \<Rightarrow> 'd db_state \<Rightarrow> (nat option \<times> 'd db_state) res" where
  "db_fetch_row drvs rs st =
     rbind (con_at rs st) (\<lambda>con.
       if rs_statement (con_rs con) \<noteq> None then Inr (None, st)
       else
         rbind (driver_of drvs (rs_connection (con_rs con)) st) (\<lambda>drv. case drv of
           None \<Rightarrow> Inr (None, st)
         | Some ops \<Rightarrow>
             rbind (case rs_row (con_rs con) of None \<Rightarrow> Inr st | Some a \<Rightarrow> db_free_row a st) (\<lambda>st.
               case d_malloc st of (ok, st) \<Rightarrow>
                 if \<not> ok then rbind (upd_rs rs (\<lambda>r. r\<lparr>rs_row := None\<rparr>) st) (\<lambda>st. Inr (None, st))
                 else
                   (let a = ds_next st; st = st\<lparr>ds_next := a + 1, ds_rows := (ds_rows st)(a := Some None)\<rparr> in
                    rbind (upd_rs rs (\<lambda>r. r\<lparr>rs_row := Some a\<rparr>) st) (\<lambda>st.
                    rbind (drv_fetch_row ops rs a st) (\<lambda>(rc, st).
                      if rc \<noteq> 0 then rbind (db_free_row a st) (\<lambda>st. Inr (None, st)) else Inr (Some a, st)))))))"

definition db_query :: "'d db_driver_t list \<Rightarrow> nat \<Rightarrow> string \<Rightarrow> 'd db_state \<Rightarrow> (nat option \<times> 'd db_state) res" where
  "db_query drvs c query st =
     rbind (driver_of drvs (Some c) st) (\<lambda>drv. case drv of
       None \<Rightarrow> Inr (None, st)
     | Some ops \<Rightarrow>
         rbind (upd_rs c (\<lambda>_. rs_zero\<lparr>rs_connection := Some c\<rparr>) st) (\<lambda>st.
         rbind (drv_query ops c query c st) (\<lambda>(e, st).
         rbind (upd_con c (\<lambda>con. con\<lparr>con_errno := e\<rparr>) st) (\<lambda>st.
           if e = SB_DB_ERROR_NONE
           then rbind (db_count_ok c (db_get_query_type query) st) (\<lambda>st. Inr (Some c, st))
           else rbind (db_count_error c e st) (\<lambda>st. Inr (None, st))))))"

definition db_free_results :: "'d db_driver_t list \<Rightarrow> nat \<Rightarrow> 'd dop" where
  "db_free_results drvs rs st =
     rbind (con_at rs st) (\<lambda>con.
     rbind (driver_of drvs (rs_connection (con_rs con)) st) (\<lambda>drv. case drv of
       None \<Rightarrow> Inr (1, st)
     | Some ops \<Rightarrow>
         rbind (drv_free_results ops rs st) (\<lambda>(rc, st).
         rbind (con_at rs st) (\<lambda>con.
         rbind (case rs_row (con_rs con) of None \<Rightarrow> Inr st | Some a \<Rightarrow> db_free_row a st) (\<lambda>st. Inr (rc, st))))))"

definition db_close :: "'d db_driver_t list \<Rightarrow> nat option \<Rightarrow> 'd dop" where
  "db_close drvs s st =
     (case s of
        None \<Rightarrow> Inr (1, st)
      | Some s \<Rightarrow>
          rbind (stmt_at s st) (\<lambda>stmt.
          rbind (driver_of drvs (st_connection stmt) st) (\<lambda>drv. case drv of
            None \<Rightarrow> Inr (1, st)
          | Some ops \<Rightarrow>
              rbind (drv_close ops s st) (\<lambda>(rc, st).
              rbind (stmt_at s st) (\<lambda>_. Inr (rc, st\<lparr>ds_stmts := (ds_stmts st)(s := None)\<rparr>))))))"

definition db_store_results :: "'d db_driver_t list \<Rightarrow> nat \<Rightarrow> 'd eop" where
  "db_store_results drvs rs st =
     rbind (con_at rs st) (\<lambda>con.
     rbind (driver_of drvs (rs_connection (con_rs con)) st) (\<lambda>drv.
       case drv of None \<Rightarrow> Inr (SB_DB_ERROR_FAILED, st) | Some ops \<Rightarrow> drv_store_results ops rs st))"

definition db_errno :: "nat \<Rightarrow> 'd db_state \<Rightarrow> db_error_t res" where
  "db_errno c st = rbind (con_at c st) (\<lambda>con. Inr (con_errno con))"

section \<open>Bound variables\<close>

text \<open>
  The text \<^verbatim>\<open>snprintf\<close> produces for a bound variable; the buffer has to hold data of the type, and a string has to end inside its buffer.
\<close>

definition var_at :: "vars \<Rightarrow> nat option \<Rightarrow> bind_data res" where
  "var_at vars a = (case a of None \<Rightarrow> Inl Null_deref | Some a \<Rightarrow> (case vars a of None \<Rightarrow> Inl Bad_access | Some d \<Rightarrow> Inr d))"

definition is_null_var :: "vars \<Rightarrow> db_bind_t \<Rightarrow> bool res" where
  "is_null_var vars var =
     (if b_is_null var = None then Inr False
      else rbind (var_at vars (b_is_null var)) (\<lambda>d. case d of Flag_data b \<Rightarrow> Inr b | _ \<Rightarrow> Inl Bad_access))"

definition bind_text :: "vars \<Rightarrow> db_bind_t \<Rightarrow> string res" where
  "bind_text vars var =
     (let q = [CHR 0x27];
          buffer = var_at vars (b_buffer var);
          num = (\<lambda>f. rbind buffer (\<lambda>d. case d of Int_data i \<Rightarrow> Inr (print_int (f i)) | Undef_data \<Rightarrow> Inl Uninit_read | _ \<Rightarrow> Inl Bad_access));
          flt = rbind buffer (\<lambda>d. case d of Real_data x \<Rightarrow> Inr (fmt_fixed 6 x) | Undef_data \<Rightarrow> Inl Uninit_read | _ \<Rightarrow> Inl Bad_access);
          text = rbind buffer (\<lambda>d. case d of
                   String_data s \<Rightarrow> if CHR 0x00 \<in> set s then Inr (q @ takeWhile (\<lambda>c. c \<noteq> CHR 0x00) s @ q) else Inl Out_of_bounds
                 | Undef_data \<Rightarrow> Inl Uninit_read | _ \<Rightarrow> Inl Bad_access);
          time = (\<lambda>f. rbind buffer (\<lambda>d. case d of Time_data t \<Rightarrow> Inr (q @ f t @ q) | Undef_data \<Rightarrow> Inl Uninit_read | _ \<Rightarrow> Inl Bad_access));
          d = (\<lambda>x :: u32. print_int (sint x));
          date = (\<lambda>t. d (tm_year t) @ ''-'' @ d (tm_month t) @ ''-'' @ d (tm_day t));
          clock = (\<lambda>t. d (tm_hour t) @ '':'' @ d (tm_minute t) @ '':'' @ d (tm_second t))
      in rbind (is_null_var vars var) (\<lambda>null.
         if null then Inr ''NULL''
         else
           (case b_type var of
              DB_TYPE_TINYINT \<Rightarrow> num (\<lambda>i. sint (word_of_int i :: 8 word))
            | DB_TYPE_SMALLINT \<Rightarrow> num (\<lambda>i. sint (word_of_int i :: 16 word))
            | DB_TYPE_INT \<Rightarrow> num (\<lambda>i. sint (word_of_int i :: 32 word))
            | DB_TYPE_BIGINT \<Rightarrow> num (\<lambda>i. sint (word_of_int i :: 64 word))
            | DB_TYPE_FLOAT \<Rightarrow> flt
            | DB_TYPE_DOUBLE \<Rightarrow> flt
            | DB_TYPE_CHAR \<Rightarrow> text
            | DB_TYPE_VARCHAR \<Rightarrow> text
            | DB_TYPE_DATE \<Rightarrow> time date
            | DB_TYPE_TIME \<Rightarrow> time clock
            | DB_TYPE_DATETIME \<Rightarrow> time (\<lambda>t. date t @ '' '' @ clock t)
            | DB_TYPE_TIMESTAMP \<Rightarrow> time (\<lambda>t. date t @ '' '' @ clock t)
            | DB_TYPE_NONE \<Rightarrow> Inr [])))"

text \<open>The return value and the text in the buffer.\<close>

definition db_print_value :: "vars \<Rightarrow> db_bind_t \<Rightarrow> int \<Rightarrow> (int \<times> string) res" where
  "db_print_value vars var buflen =
     rbind (bind_text vars var)
       (\<lambda>s. Inr (if int (length s) < buflen then int (length s) else - 1, snprintf_text (nat buflen) s))"

section \<open>Multi-row inserts\<close>

definition db_bulk_insert_init :: "'d db_driver_t list \<Rightarrow> nat \<Rightarrow> string \<Rightarrow> 'd dop" where
  "db_bulk_insert_init drvs c query st =
     rbind (con_at c st) (\<lambda>con. case con_driver con of
       None \<Rightarrow> Inr (1, st)
     | Some d \<Rightarrow>
         rbind (aread drvs d) (\<lambda>drv.
         rbind (db_describe drv st) (\<lambda>((rc, caps), st).
           case (rc = 0, caps) of
             (True, Some driver_caps) \<Rightarrow>
               if length query + 1 > BULK_PACKET_SIZE
               then rbind (d_log LOG_FATAL (''Query length exceeds the maximum value ('' @ print_nat BULK_PACKET_SIZE @ ''), aborting'') st)
                      (\<lambda>st. Inr (1, st))
               else
                 rbind (upd_con c (\<lambda>con. con\<lparr>bulk_buflen := of_nat BULK_PACKET_SIZE\<rparr>) st) (\<lambda>st.
                   case d_malloc st of (ok, st) \<Rightarrow>
                     if \<not> ok then rbind (upd_con c (\<lambda>con. con\<lparr>bulk_buffer := None\<rparr>) st) (\<lambda>st. Inr (1, st))
                     else
                       rbind (cb_strcpy 0 query (cb_new BULK_PACKET_SIZE)) (\<lambda>buf.
                       rbind (upd_con c (\<lambda>con. con\<lparr>bulk_buffer := Some buf,
                                 bulk_supported := multi_rows_insert driver_caps,
                                 bulk_commit_max := (if needs_commit driver_caps then ROWS_BEFORE_COMMIT else 0),
                                 bulk_commit_cnt := 0, bulk_ptr := of_nat (length query),
                                 bulk_ptr_orig := of_nat (length query), bulk_cnt := 0\<rparr>) st) (\<lambda>st. Inr (0, st))))
           | _ \<Rightarrow> rbind (d_log LOG_FATAL ''failed to get database capabilities!'' st) (\<lambda>st. Inr (1, st)))))"

definition db_bulk_do_insert :: "'d db_driver_t list \<Rightarrow> nat \<Rightarrow> bool \<Rightarrow> 'd dop" where
  "db_bulk_do_insert drvs c is_last st =
     rbind (con_at c st) (\<lambda>con.
       if bulk_cnt con = 0 then Inr (0, st)
       else
         rbind (case bulk_buffer con of None \<Rightarrow> Inl Null_deref | Some buf \<Rightarrow> cb_string 0 buf) (\<lambda>query.
         rbind (db_query drvs c query st) (\<lambda>(rs, st).
           if rs = None then Inr (1, st)
           else
             rbind (con_at c st) (\<lambda>con.
             rbind (if bulk_commit_max con \<noteq> 0
                    then
                      rbind (upd_con c (\<lambda>con. con\<lparr>bulk_commit_cnt := bulk_commit_cnt con + bulk_cnt con\<rparr>) st) (\<lambda>st.
                        if is_last \<or> bulk_commit_cnt con + bulk_cnt con \<ge> bulk_commit_max con
                        then
                          rbind (db_query drvs c ''COMMIT'' st) (\<lambda>(rs, st).
                            if rs = None then Inr (1, st)
                            else rbind (upd_con c (\<lambda>con. con\<lparr>bulk_commit_cnt := 0\<rparr>) st) (\<lambda>st. Inr (0, st)))
                        else Inr (0, st))
                    else Inr (0 :: int, st)) (\<lambda>(rc, st).
               if rc \<noteq> 0 then Inr (1, st)
               else rbind (upd_con c (\<lambda>con. con\<lparr>bulk_ptr := bulk_ptr_orig con, bulk_cnt := 0\<rparr>) st) (\<lambda>st. Inr (0, st)))))))"

text \<open>The row is appended at the write position, after a comma unless it is the first row.\<close>

definition bulk_append :: "string \<Rightarrow> db_conn_t \<Rightarrow> db_conn_t res" where
  "bulk_append query con =
     (case bulk_buffer con of
        None \<Rightarrow> Inl Null_deref
      | Some buf \<Rightarrow>
          rbind (if bulk_cnt con > 0
                 then rbind (cb_put (unat (bulk_ptr con)) CHR '','' buf) (cb_strcpy (unat (bulk_ptr con) + 1) query)
                 else cb_strcpy (unat (bulk_ptr con)) query buf)
            (\<lambda>buf. Inr (con\<lparr>bulk_buffer := Some buf,
                bulk_ptr := bulk_ptr con + (of_nat (length query) + (if bulk_cnt con > 0 then 1 else 0)),
                bulk_cnt := bulk_cnt con + 1\<rparr>)))"

definition db_bulk_insert_next :: "'d db_driver_t list \<Rightarrow> nat \<Rightarrow> string \<Rightarrow> 'd dop" where
  "db_bulk_insert_next drvs c query st =
     rbind (con_at c st) (\<lambda>con.
     let query_len = of_nat (length query) :: u32 in
     rbind (if bulk_ptr con + query_len + 1 + (if bulk_cnt con > 0 then 1 else 0) > bulk_buflen con
            then
              if bulk_cnt con = 0
              then rbind (d_log LOG_FATAL (''Query length exceeds the maximum value ('' @ print_nat (unat (bulk_buflen con)) @ ''), aborting'') st)
                     (\<lambda>st. Inr (1, st))
              else rbind (db_bulk_do_insert drvs c False st) (\<lambda>(rc, st). Inr (if rc \<noteq> 0 then 1 else 0, st))
            else Inr (0 :: int, st)) (\<lambda>(rc, st).
       if rc \<noteq> 0 then Inr (1, st)
       else
         rbind (con_at c st) (\<lambda>con. rbind (bulk_append query con) (\<lambda>con. rbind (upd_con c (\<lambda>_. con) st) (\<lambda>st. Inr (0, st))))))"

definition db_bulk_insert_done :: "'d db_driver_t list \<Rightarrow> nat \<Rightarrow> 'd db_state \<Rightarrow> 'd db_state res" where
  "db_bulk_insert_done drvs c st =
     rbind (db_bulk_do_insert drvs c True st) (\<lambda>(_, st). upd_con c (\<lambda>con. con\<lparr>bulk_buffer := None\<rparr>) st)"

section \<open>Reports\<close>

definition add_stats :: "db_thread_stat_t \<Rightarrow> db_thread_stat_t \<Rightarrow> db_thread_stat_t" where
  "add_stats a b =
     \<lparr>read_ops = read_ops a + read_ops b, write_ops = write_ops a + write_ops b, other_ops = other_ops a + other_ops b,
      transactions = transactions a + transactions b, errors = errors a + errors b, reconnects = reconnects a + reconnects b\<rparr>"

text \<open>The sums over the threads.\<close>

definition sum_stats :: "'d db_state \<Rightarrow> db_thread_stat_t res" where
  "sum_stats st =
     (case thread_stats st of
        None \<Rightarrow> if num_threads st = 0 then Inr stat_zero else Inl Null_deref
      | Some ts \<Rightarrow> if num_threads st \<le> length ts then Inr (foldl add_stats stat_zero (take (num_threads st) ts)) else Inl Out_of_bounds)"

text \<open>A number per second; a division by zero prints as the GNU library does.\<close>

definition per_sec :: "fpenv \<Rightarrow> nat \<Rightarrow> u64 \<Rightarrow> real \<Rightarrow> string" where
  "per_sec fp w n seconds =
     pad_left w (if seconds = 0 then (if n = 0 then ''-nan'' else ''inf'') else fmt_fixed 2 (fdiv fp (u64_double fp n) seconds))"

text \<open>An \<^verbatim>\<open>unsigned long\<close> printed by \<^verbatim>\<open>%d\<close>.\<close>

definition print_d :: "u64 \<Rightarrow> string" where
  "print_d n = print_int (sint (ucast n :: u32))"

definition intermediate_line :: "fpenv \<Rightarrow> 'd db_state \<Rightarrow> db_thread_stat_t \<Rightarrow> real \<Rightarrow> real \<Rightarrow> string" where
  "intermediate_line fp st s pct seconds =
     (let g = ds_globals st in
      ''threads: '' @ print_int (sint (g_num_threads g))
      @ '', tps: '' @ per_sec fp 4 (transactions s - last_transactions st) seconds
      @ '', reads: '' @ per_sec fp 4 (read_ops s - last_read_ops st) seconds
      @ '', writes: '' @ per_sec fp 4 (write_ops s - last_write_ops st) seconds
      @ '', response time: '' @ fmt_f 4 2 (fdiv fp pct 1000000) @ ''ms ('' @ print_nat (unat (g_percentile_rank g)) @ ''%)''
      @ '', errors: '' @ per_sec fp 4 (errors s - last_errors st) seconds
      @ '', reconnects: '' @ per_sec fp 5 (reconnects s - last_reconnects st) seconds)"

definition d_timestamp :: "fpenv \<Rightarrow> string \<Rightarrow> 'd db_state \<Rightarrow> 'd db_state res" where
  "d_timestamp fp m st =
     rbind (log_timestamp fp LOG_NOTICE (g_exec_timer (ds_globals st)) m (pg_w (ds_pg st)))
       (\<lambda>w. Inr (st\<lparr>ds_pg := (ds_pg st)\<lparr>pg_w := w\<rparr>\<rparr>))"

definition db_print_intermediate :: "fpenv \<Rightarrow> db_thread_stat_t \<Rightarrow> 'd db_state \<Rightarrow> 'd db_state res" where
  "db_print_intermediate fp s st =
     rbind (d_split g_exec_timer put_exec_timer st) (\<lambda>(ns, st).
       case local_percentile st of
         None \<Rightarrow> Inl Null_deref
       | Some p \<Rightarrow>
           rbind (sb_percentile_calculate fp p (real (unat (g_percentile_rank (ds_globals st))))) (\<lambda>(pct, p).
           rbind (d_timestamp fp (intermediate_line fp st s pct (NS2SEC fp ns)) st) (\<lambda>st.
           rbind (if g_tx_rate (ds_globals st) > 0
                  then d_timestamp fp (''queue length: '' @ print_int (g_event_queue_length (ds_globals st))
                         @ '', concurrency: '' @ print_int (g_concurrency (ds_globals st))) st
                  else Inr st) (\<lambda>st.
             Inr (st\<lparr>last_transactions := transactions s, last_read_ops := read_ops s, last_write_ops := write_ops s,
                     last_errors := errors s, last_reconnects := reconnects s, local_percentile := Some (sb_percentile_reset p)\<rparr>)))))"

definition cumulative_lines :: "fpenv \<Rightarrow> db_thread_stat_t \<Rightarrow> real \<Rightarrow> log_req list" where
  "cumulative_lines fp s seconds =
     (let line = (\<lambda>title n. (LOG_NOTICE, title @ pad_right 6 (print_d n) @ '' ('' @ per_sec fp 0 n seconds @ '' per sec.)'')) in
      [(LOG_NOTICE, ''OLTP test statistics:''),
       (LOG_NOTICE, ''    queries performed:''),
       (LOG_NOTICE, ''        read:                            '' @ print_d (read_ops s)),
       (LOG_NOTICE, ''        write:                           '' @ print_d (write_ops s)),
       (LOG_NOTICE, ''        other:                           '' @ print_d (other_ops s)),
       (LOG_NOTICE, ''        total:                           '' @ print_d (read_ops s + write_ops s + other_ops s)),
       line ''    transactions:                        '' (transactions s),
       line ''    read/write requests:                 '' (read_ops s + write_ops s),
       line ''    other operations:                    '' (other_ops s),
       line ''    ignored errors:                      '' (errors s),
       line ''    reconnects:                          '' (reconnects s)])"

definition timer_lines :: "fpenv \<Rightarrow> sb_timer_t \<Rightarrow> log_req list" where
  "timer_lines fp t =
     [(LOG_DEBUG, ''    min:                                '' @ fmt_fixed 4 (NS2SEC fp (get_min_time t)) @ ''s''),
      (LOG_DEBUG, ''    avg:                                '' @ fmt_fixed 4 (NS2SEC fp (get_avg_time t)) @ ''s''),
      (LOG_DEBUG, ''    max:                                '' @ fmt_fixed 4 (NS2SEC fp (get_max_time t)) @ ''s''),
      (LOG_DEBUG, ''  total:                                '' @ fmt_fixed 4 (NS2SEC fp (get_sum_time t)) @ ''s'')]"

definition merge_all :: "nat \<Rightarrow> sb_timer_t list option \<Rightarrow> sb_timer_t res" where
  "merge_all n ts =
     (case ts of
        None \<Rightarrow> if n = 0 then Inr (sb_timer_init timer_zero) else Inl Null_deref
      | Some ts \<Rightarrow> if n \<le> length ts then Inr (foldl merge_timers (sb_timer_init timer_zero) (take n ts)) else Inl Out_of_bounds)"

definition d_log_reqs :: "log_req list \<Rightarrow> 'd db_state \<Rightarrow> 'd db_state res" where
  "d_log_reqs ms st = rbind (log_reqs ms (pg_w (ds_pg st))) (\<lambda>w. Inr (st\<lparr>ds_pg := (ds_pg st)\<lparr>pg_w := w\<rparr>\<rparr>))"

definition db_print_cumulative :: "fpenv \<Rightarrow> db_thread_stat_t \<Rightarrow> 'd db_state \<Rightarrow> 'd db_state res" where
  "db_print_cumulative fp s st =
     rbind (d_split g_cumulative_timer1 put_cumulative_timer1 st) (\<lambda>(ns, st).
     rbind (d_log_reqs (cumulative_lines fp s (NS2SEC fp ns)) st) (\<lambda>st.
     rbind (if ds_debug st
            then
              rbind (merge_all (num_threads st) (exec_timers st)) (\<lambda>et.
              rbind (merge_all (num_threads st) (fetch_timers st)) (\<lambda>ft.
                d_log_reqs ([(LOG_DEBUG, []), (LOG_DEBUG, ''Query execution statistics:'')] @ timer_lines fp et
                  @ [(LOG_DEBUG, ''Results fetching statistics:'')] @ timer_lines fp ft) st))
            else Inr st)
       db_reset_stats))"

definition db_print_stats :: "fpenv \<Rightarrow> sb_stat_t \<Rightarrow> 'd db_state \<Rightarrow> 'd db_state res" where
  "db_print_stats fp ty st =
     rbind (sum_stats st)
       (\<lambda>s. case ty of
          SB_STAT_INTERMEDIATE \<Rightarrow> db_print_intermediate fp s st
        | SB_STAT_CUMULATIVE \<Rightarrow> db_print_cumulative fp s st)"

section \<open>Buffers\<close>

definition cb_holds :: "nat \<Rightarrow> string \<Rightarrow> cbuf \<Rightarrow> bool" where
  "cb_holds i s b \<longleftrightarrow> (\<forall>k<length s. cb_cells b (i + k) = Some (s ! k))"

lemma cb_holds_Nil [simp]: "cb_holds i [] b"
  by (simp add: cb_holds_def)

lemma cb_holds_Cons: "cb_holds i (c # s) b \<longleftrightarrow> cb_cells b i = Some c \<and> cb_holds (Suc i) s b"
  by (auto simp: cb_holds_def less_Suc_eq_0_disj)

lemma cb_holds_append: "cb_holds i (s @ t) b \<longleftrightarrow> cb_holds i s b \<and> cb_holds (i + length s) t b"
  by (induction s arbitrary: i) (auto simp: cb_holds_Cons)

lemma cb_strcpy_ok:
  "i + length s < cb_cap b \<Longrightarrow>
   \<exists>b'. cb_strcpy i s b = Inr b' \<and> cb_cap b' = cb_cap b \<and> cb_holds i s b' \<and>
        cb_cells b' (i + length s) = Some (CHR 0x00) \<and> (\<forall>j<i. cb_cells b' j = cb_cells b j)"
proof (induction i s b rule: cb_strcpy.induct)
  case (1 i b)
  then show ?case by (simp add: cb_put_def)
next
  case (2 i c cs b)
  let ?b = "b\<lparr>cb_cells := (cb_cells b)(i := Some c)\<rparr>"
  have put: "cb_put i c b = Inr ?b"
    using 2(2) by (simp add: cb_put_def)
  obtain b' where "cb_strcpy (Suc i) cs ?b = Inr b'" "cb_cap b' = cb_cap ?b" "cb_holds (Suc i) cs b'"
      "cb_cells b' (Suc i + length cs) = Some (CHR 0x00)" "\<forall>j<Suc i. cb_cells b' j = cb_cells ?b j"
    using 2(1) [of ?b] 2(2) by auto
  then show ?case
    using put by (auto simp: cb_holds_Cons)
qed

lemma cb_string_ok:
  "cb_holds i s b \<Longrightarrow> cb_cells b (i + length s) = Some (CHR 0x00) \<Longrightarrow> i + length s < cb_cap b \<Longrightarrow> CHR 0x00 \<notin> set s \<Longrightarrow>
   cb_string i b = Inr s"
proof (induction s arbitrary: i)
  case Nil
  then show ?case by (simp add: cb_string.simps [of i])
next
  case (Cons c s)
  then have "cb_string (Suc i) b = Inr s"
    by (simp add: cb_holds_Cons)
  then show ?case
    using Cons.prems by (auto simp: cb_string.simps [of i] cb_holds_Cons)
qed

lemma cb_holds_cong: "(\<forall>j<i + length s. cb_cells b' j = cb_cells b j) \<Longrightarrow> cb_holds i s b' = cb_holds i s b"
  by (auto simp: cb_holds_def)

lemma cb_strcpy_overflow:
  "i + length s \<ge> cb_cap b \<Longrightarrow> cb_strcpy i s b = Inl Out_of_bounds"
proof (induction i s b rule: cb_strcpy.induct)
  case (2 i c cs b)
  then show ?case by (cases "i < cb_cap b") (simp_all add: cb_put_def)
qed (simp add: cb_put_def)

lemma join_sep_snoc: "xs \<noteq> [] \<Longrightarrow> join_sep d (xs @ [x]) = join_sep d xs @ d # x"
  by (induction d xs rule: join_sep.induct) auto

lemma length_join_sep: "length xs \<le> Suc (length (join_sep d xs))"
  by (induction d xs rule: join_sep.induct) auto

section \<open>The text of a multi-row insert\<close>

text \<open>
  What is collected for a connection: the buffer holds the beginning of the statement and the pending rows, separated by commas.
\<close>

definition bulk_text :: "string \<Rightarrow> string list \<Rightarrow> string" where
  "bulk_text base rows = base @ join_sep CHR '','' rows"

definition bulk_inv :: "string \<Rightarrow> string list \<Rightarrow> nat \<Rightarrow> db_conn_t \<Rightarrow> bool" where
  "bulk_inv base pend cc con \<longleftrightarrow>
     (\<exists>b. bulk_buffer con = Some b \<and> cb_cap b = BULK_PACKET_SIZE \<and> cb_holds 0 (bulk_text base pend) b \<and>
        (pend \<noteq> [] \<longrightarrow> cb_cells b (length (bulk_text base pend)) = Some (CHR 0x00))) \<and>
     length (bulk_text base pend) < BULK_PACKET_SIZE \<and> CHR 0x00 \<notin> set (bulk_text base pend) \<and>
     bulk_buflen con = of_nat BULK_PACKET_SIZE \<and> bulk_ptr con = of_nat (length (bulk_text base pend)) \<and>
     bulk_ptr_orig con = of_nat (length base) \<and> bulk_cnt con = of_nat (length pend) \<and>
     bulk_commit_cnt con = of_nat cc \<and> (bulk_commit_max con = 0 \<or> cc < unat (bulk_commit_max con)) \<and> bulk_commit_max con \<le> ROWS_BEFORE_COMMIT"

lemma bulk_text_snoc:
  "bulk_text base (pend @ [r]) = bulk_text base pend @ (if pend = [] then r else CHR '','' # r)"
  by (cases "pend = []") (simp_all add: bulk_text_def join_sep_snoc)

lemma bulk_inv_cnt:
  assumes "bulk_inv base pend cc con"
  shows "length pend \<le> BULK_PACKET_SIZE" "unat (bulk_cnt con) = length pend" "bulk_cnt con = 0 \<longleftrightarrow> pend = []"
    "unat (bulk_ptr con) = length (bulk_text base pend)" "unat (bulk_buflen con) = BULK_PACKET_SIZE"
proof -
  show len: "length pend \<le> BULK_PACKET_SIZE"
    using assms length_join_sep [of pend "CHR '',''"] by (simp add: bulk_inv_def bulk_text_def)
  have small: "BULK_PACKET_SIZE < 2 ^ 32"
    by (simp add: BULK_PACKET_SIZE_def)
  show cnt: "unat (bulk_cnt con) = length pend"
    using assms len small by (simp add: bulk_inv_def unat_of_nat take_bit_nat_eq_self)
  show "bulk_cnt con = 0 \<longleftrightarrow> pend = []"
    using cnt by (metis length_0_conv unat_eq_zero)
  show "unat (bulk_ptr con) = length (bulk_text base pend)" "unat (bulk_buflen con) = BULK_PACKET_SIZE"
    using assms small by (simp_all add: bulk_inv_def unat_of_nat take_bit_nat_eq_self)
qed

lemma bulk_inv_query:
  "bulk_inv base pend cc con \<Longrightarrow> pend \<noteq> [] \<Longrightarrow> \<exists>b. bulk_buffer con = Some b \<and> cb_string 0 b = Inr (bulk_text base pend)"
  using cb_string_ok [of 0 "bulk_text base pend"] by (auto simp: bulk_inv_def)

lemma bulk_inv_append:
  assumes "bulk_inv base pend cc con" and "CHR 0x00 \<notin> set r" and "length (bulk_text base (pend @ [r])) < BULK_PACKET_SIZE"
  shows "\<exists>con'. bulk_append r con = Inr con' \<and> bulk_inv base (pend @ [r]) cc con' \<and>
           con' = con\<lparr>bulk_buffer := bulk_buffer con', bulk_ptr := bulk_ptr con', bulk_cnt := bulk_cnt con'\<rparr>"
proof -
  note cnt = bulk_inv_cnt [OF assms(1)]
  obtain b where b: "bulk_buffer con = Some b" "cb_cap b = BULK_PACKET_SIZE" "cb_holds 0 (bulk_text base pend) b"
    using assms(1) by (auto simp: bulk_inv_def)
  let ?n = "length (bulk_text base pend)" and ?t = "bulk_text base (pend @ [r])"
  have len: "?n + (if pend = [] then 0 else 1) + length r < BULK_PACKET_SIZE"
    using assms(3) by (simp add: bulk_text_snoc split: if_splits)
  obtain b' where b': "(if bulk_cnt con > 0 then rbind (cb_put ?n CHR '','' b) (cb_strcpy (?n + 1) r) else cb_strcpy ?n r b) = Inr b'"
      "cb_cap b' = BULK_PACKET_SIZE" "cb_holds 0 ?t b'" "cb_cells b' (length ?t) = Some (CHR 0x00)"
  proof (cases "pend = []")
    case True
    then obtain b' where "cb_strcpy ?n r b = Inr b'" "cb_cap b' = cb_cap b" "cb_holds ?n r b'"
        "cb_cells b' (?n + length r) = Some (CHR 0x00)" "\<forall>j<?n. cb_cells b' j = cb_cells b j"
      using cb_strcpy_ok [of ?n r b] len b(2) by auto
    then show ?thesis
      using that [of b'] True cnt(3) b cb_holds_cong [of 0 "bulk_text base pend" b' b]
      by (simp add: bulk_text_def cb_holds_append)
  next
    case False
    let ?b = "b\<lparr>cb_cells := (cb_cells b)(?n := Some CHR '','')\<rparr>"
    have put: "cb_put ?n CHR '','' b = Inr ?b"
      using False assms(3) b(2) by (simp add: cb_put_def bulk_text_snoc)
    obtain b' where "cb_strcpy (?n + 1) r ?b = Inr b'" "cb_cap b' = cb_cap ?b" "cb_holds (?n + 1) r b'"
        "cb_cells b' (?n + 1 + length r) = Some (CHR 0x00)" "\<forall>j<?n + 1. cb_cells b' j = cb_cells ?b j"
      using cb_strcpy_ok [of "?n + 1" r ?b] len b(2) False by auto
    then show ?thesis
      using that [of b'] False cnt(3) b put cb_holds_cong [of 0 "bulk_text base pend" b' b]
      by (simp add: bulk_text_snoc cb_holds_append cb_holds_Cons word_gt_0)
  qed
  let ?con = "con\<lparr>bulk_buffer := Some b', bulk_ptr := bulk_ptr con + (of_nat (length r) + (if bulk_cnt con > 0 then 1 else 0)),
                bulk_cnt := bulk_cnt con + 1\<rparr>"
  have ap: "bulk_append r con = Inr ?con"
    using b(1) b'(1) cnt(4) by (cases "bulk_cnt con > 0") (simp_all add: bulk_append_def)
  have "bulk_ptr ?con = of_nat (length ?t)"
    using assms(1) cnt(3) by (auto simp: bulk_inv_def bulk_text_snoc word_gt_0)
  moreover have "bulk_cnt ?con = of_nat (length (pend @ [r]))"
    using assms(1) by (simp add: bulk_inv_def)
  moreover have "CHR 0x00 \<notin> set ?t"
    using assms(1,2) by (auto simp: bulk_inv_def bulk_text_snoc)
  ultimately have "bulk_inv base (pend @ [r]) cc ?con"
    using assms(1,3) b' unfolding bulk_inv_def by simp
  then show ?thesis
    using ap by (intro exI [of _ ?con]) simp
qed

section \<open>What the server is sent\<close>

text \<open>
  The statements a multi-row insert should send: a flush sends the statement with the pending rows, and a commit
  when the driver needs one and enough rows have been sent. \<open>cmax\<close> is the number of rows before a commit (0: none), \<open>cc\<close> the
  number of rows sent since the last one.
\<close>

definition bulk_commits :: "nat \<Rightarrow> bool \<Rightarrow> nat \<Rightarrow> bool" where
  "bulk_commits cmax is_last n \<longleftrightarrow> cmax \<noteq> 0 \<and> (is_last \<or> cmax \<le> n)"

definition bulk_flush :: "nat \<Rightarrow> bool \<Rightarrow> nat \<Rightarrow> string \<Rightarrow> string list \<Rightarrow> string list" where
  "bulk_flush cmax is_last cc base pend =
     bulk_text base pend # (if bulk_commits cmax is_last (cc + length pend) then [''COMMIT''] else [])"

definition bulk_count :: "nat \<Rightarrow> bool \<Rightarrow> nat \<Rightarrow> nat \<Rightarrow> nat" where
  "bulk_count cmax is_last cc n =
     (if cmax = 0 then cc else if bulk_commits cmax is_last (cc + n) then 0 else cc + n)"

fun bulk_script :: "nat \<Rightarrow> nat \<Rightarrow> string \<Rightarrow> string list \<Rightarrow> string list \<Rightarrow> string list" where
  "bulk_script cmax cc base pend [] = (if pend = [] then [] else bulk_flush cmax True cc base pend)"
| "bulk_script cmax cc base pend (r # rs) =
     (if pend \<noteq> [] \<and> BULK_PACKET_SIZE < length (bulk_text base (pend @ [r])) + 1
      then bulk_flush cmax False cc base pend @ bulk_script cmax (bulk_count cmax False cc (length pend)) base [r] rs
      else bulk_script cmax cc base (pend @ [r]) rs)"

text \<open>The calls a client makes: all rows, then the end.\<close>

fun db_bulk_insert_rows :: "'d db_driver_t list \<Rightarrow> nat \<Rightarrow> string list \<Rightarrow> 'd dop" where
  "db_bulk_insert_rows drvs c [] st = Inr (0, st)"
| "db_bulk_insert_rows drvs c (r # rs) st =
     rbind (db_bulk_insert_next drvs c r st) (\<lambda>(rc, st). if rc \<noteq> 0 then Inr (rc, st) else db_bulk_insert_rows drvs c rs st)"

definition attached :: "'d db_driver_t list \<Rightarrow> 'd drv_ops_t \<Rightarrow> nat \<Rightarrow> 'd db_state \<Rightarrow> db_conn_t \<Rightarrow> bool" where
  "attached drvs ops c st con \<longleftrightarrow>
     ds_conns st c = Some con \<and> (\<exists>d<length drvs. con_driver con = Some d \<and> d_ops (drvs ! d) = ops) \<and>
     (\<exists>ts. thread_stats st = Some ts \<and> con_thread_id con < int (length ts))"

lemma attached_driver: "attached drvs ops c st con \<Longrightarrow> driver_of drvs (Some c) st = Inr (Some ops)"
  by (auto simp: attached_def driver_of_def con_at_def)

lemma attached_upd:
  assumes "attached drvs ops c st con" and "con_driver con' = con_driver con" and "con_thread_id con' = con_thread_id con"
  shows "attached drvs ops c (st\<lparr>ds_conns := (ds_conns st)(c := Some con')\<rparr>) con'"
  using assms by (auto simp: attached_def)

lemma bulk_inv_other [simp]:
  "bulk_inv base pend cc (con\<lparr>con_errno := e\<rparr>) = bulk_inv base pend cc con"
  "bulk_inv base pend cc (con\<lparr>con_rs := r\<rparr>) = bulk_inv base pend cc con"
  by (simp_all add: bulk_inv_def)

lemma bulk_inv_reset:
  assumes "bulk_inv base pend cc con" and "bulk_commit_max con = 0 \<or> cc' < unat (bulk_commit_max con)"
  shows "bulk_inv base [] cc' (con\<lparr>bulk_commit_cnt := of_nat cc', bulk_ptr := bulk_ptr_orig con, bulk_cnt := 0\<rparr>)"
proof -
  have "length base < BULK_PACKET_SIZE" "CHR 0x00 \<notin> set base"
    using assms(1) by (auto simp: bulk_inv_def bulk_text_def)
  then show ?thesis
    using assms by (auto simp: bulk_inv_def bulk_text_def cb_holds_append)
qed

lemma bulk_inv_commit_bound:
  assumes "bulk_inv base pend cc con" and "bulk_commit_max con \<noteq> 0"
  shows "unat (bulk_commit_cnt con + bulk_cnt con) = cc + length pend" "bulk_commit_cnt con = of_nat cc"
proof -
  have cc: "cc < unat (bulk_commit_max con)" "unat (bulk_commit_max con) \<le> 1000" "bulk_commit_cnt con = of_nat cc"
    using assms by (auto simp: bulk_inv_def ROWS_BEFORE_COMMIT_def word_le_nat_alt)
  then have "unat (bulk_commit_cnt con) = cc"
    by (simp add: unat_of_nat take_bit_nat_eq_self)
  then show "unat (bulk_commit_cnt con + bulk_cnt con) = cc + length pend" "bulk_commit_cnt con = of_nat cc"
    using bulk_inv_cnt(1,2) [OF assms(1)] cc by (auto simp: unat_plus_no_wrap BULK_PACKET_SIZE_def)
qed

lemma bulk_room:
  assumes "bulk_inv base pend cc con" and "length base + length r < BULK_PACKET_SIZE"
  shows "(bulk_ptr con + of_nat (length r) + 1 + (if bulk_cnt con > 0 then 1 else 0) > bulk_buflen con) =
         (BULK_PACKET_SIZE < length (bulk_text base (pend @ [r])) + 1)"
proof -
  let ?n = "length (bulk_text base pend) + length r + 1 + (if bulk_cnt con > 0 then 1 else 0)"
  have "?n < 2 ^ 32"
    using assms by (simp add: bulk_inv_def BULK_PACKET_SIZE_def)
  moreover have "bulk_ptr con + of_nat (length r) + 1 + (if bulk_cnt con > 0 then 1 else 0) = (of_nat ?n :: u32)"
    using assms(1) by (simp add: bulk_inv_def)
  ultimately have "unat (bulk_ptr con + of_nat (length r) + 1 + (if bulk_cnt con > 0 then 1 else 0)) = ?n"
    using unat_of_nat_u32 by metis
  then show ?thesis
    using bulk_inv_cnt(3,5) [OF assms(1)]
    by (cases "pend = []") (simp_all add: word_less_nat_alt bulk_text_snoc [of base pend] bulk_text_snoc [of base "[]", simplified] unat_gt_0)
qed

lemma db_count_ok_succeeds:
  assumes "ds_conns st c = Some con" and "thread_stats st = Some ts" and "con_thread_id con < int (length ts)"
  shows "\<exists>ts'. db_count_ok c ty st = Inr (st\<lparr>thread_stats := Some ts'\<rparr>) \<and> length ts' = length ts"
proof (cases "con_thread_id con < 0")
  case True
  have "st = st\<lparr>thread_stats := Some ts\<rparr>"
    using assms(2) by (cases st) simp
  then show ?thesis
    using assms True by (intro exI [of _ ts]) (simp add: db_count_ok_def con_at_def db_update_thread_stats_def)
next
  case False
  then show ?thesis
    using assms
    by (intro exI [of _ "ts[nat (con_thread_id con) := count_query ty (ts ! nat (con_thread_id con))]"])
      (simp add: db_count_ok_def con_at_def db_update_thread_stats_def upd_stat_def nat_less_iff)
qed

text \<open>
  What a query may change of the data of the layer: the result set of its connection, nothing else of the connection and no statistics.
\<close>

definition con_kept :: "nat \<Rightarrow> 'd db_state \<Rightarrow> 'd db_state \<Rightarrow> bool" where
  "con_kept c st st' \<longleftrightarrow>
     thread_stats st' = thread_stats st \<and> (\<forall>con. ds_conns st c = Some con \<longrightarrow> (\<exists>r. ds_conns st' c = Some (con\<lparr>con_rs := r\<rparr>)))"

lemma con_keptI: "ds_conns st' = ds_conns st \<Longrightarrow> thread_stats st' = thread_stats st \<Longrightarrow> con_kept c st st'"
proof -
  assume "ds_conns st' = ds_conns st" "thread_stats st' = thread_stats st"
  moreover have "con = con\<lparr>con_rs := con_rs con\<rparr>" for con
    by (cases con) simp
  ultimately show ?thesis
    unfolding con_kept_def by metis
qed

text \<open>
  The contract of a driver whose server accepts every statement: in a ready state a query succeeds and the server
  has received its text; asking for the capabilities sends nothing and allocates nothing.
\<close>

locale accepting_driver =
  fixes ops :: "'d drv_ops_t"
    and ready :: "nat \<Rightarrow> 'd db_state \<Rightarrow> bool"
    and sent :: "'d \<Rightarrow> string list"
    and caps :: "'d \<Rightarrow> drv_caps_t"
  assumes query_accepted:
      "ready c st \<Longrightarrow> ds_conns st c = Some con \<Longrightarrow>
       \<exists>st'. drv_query ops c q c st = Inr (SB_DB_ERROR_NONE, st') \<and> ready c st' \<and> sent (ds_drv st') = sent (ds_drv st) @ [q] \<and>
             con_kept c st st'"
    and describes:
      "ready c st \<Longrightarrow>
       \<exists>f st'. drv_describe ops = Some f \<and> f st = Inr ((0, caps (ds_drv st)), st') \<and> ready c st' \<and> sent (ds_drv st') = sent (ds_drv st) \<and>
             ds_conns st' = ds_conns st \<and> thread_stats st' = thread_stats st \<and> os_mem (pg_opts (ds_pg st')) = os_mem (pg_opts (ds_pg st))"
    and ready_frame:
      "ready c st \<Longrightarrow> ds_drv st' = ds_drv st \<Longrightarrow> ds_pg st' = ds_pg st \<Longrightarrow>
       map_option con_ptr (ds_conns st' c) = map_option con_ptr (ds_conns st c) \<Longrightarrow> ready c st'"
begin

lemma db_query_accepted:
  assumes "ready c st" and "attached drvs ops c st con"
  shows "\<exists>st' r. db_query drvs c q st = Inr (Some c, st') \<and> ready c st' \<and>
           attached drvs ops c st' (con\<lparr>con_rs := r, con_errno := SB_DB_ERROR_NONE\<rparr>) \<and>
           sent (ds_drv st') = sent (ds_drv st) @ [q]"
proof -
  let ?con1 = "con\<lparr>con_rs := rs_zero\<lparr>rs_connection := Some c\<rparr>\<rparr>"
  let ?st1 = "st\<lparr>ds_conns := (ds_conns st)(c := Some ?con1)\<rparr>"
  have at: "ds_conns st c = Some con"
    using assms(2) by (simp add: attached_def)
  have rs: "upd_rs c (\<lambda>_. rs_zero\<lparr>rs_connection := Some c\<rparr>) st = Inr ?st1"
    using at by (simp add: upd_rs_def upd_con_def con_at_def)
  have "ready c ?st1"
    using ready_frame [OF assms(1), of ?st1] at by simp
  then obtain st2 where st2: "drv_query ops c q c ?st1 = Inr (SB_DB_ERROR_NONE, st2)" "ready c st2"
      "sent (ds_drv st2) = sent (ds_drv st) @ [q]" "con_kept c ?st1 st2"
    using query_accepted [of c ?st1 ?con1 q] by auto
  then obtain r where kept: "ds_conns st2 c = Some (con\<lparr>con_rs := r\<rparr>)" "thread_stats st2 = thread_stats st"
    by (auto simp: con_kept_def)
  let ?con3 = "con\<lparr>con_rs := r, con_errno := SB_DB_ERROR_NONE\<rparr>"
  let ?st3 = "st2\<lparr>ds_conns := (ds_conns st2)(c := Some ?con3)\<rparr>"
  have errno: "upd_con c (\<lambda>con. con\<lparr>con_errno := SB_DB_ERROR_NONE\<rparr>) st2 = Inr ?st3"
    using kept(1) by (simp add: upd_con_def con_at_def)
  obtain ts where ts: "thread_stats st = Some ts" "con_thread_id con < int (length ts)"
    using assms(2) by (auto simp: attached_def)
  obtain ts' where st4: "db_count_ok c (db_get_query_type q) ?st3 = Inr (?st3\<lparr>thread_stats := Some ts'\<rparr>)" "length ts' = length ts"
    using db_count_ok_succeeds [of ?st3 c ?con3 ts] ts kept(2) by auto
  let ?st4 = "?st3\<lparr>thread_stats := Some ts'\<rparr>"
  have "db_query drvs c q st = Inr (Some c, ?st4)"
    using attached_driver [OF assms(2)] rs st2(1) errno st4(1) by (simp add: db_query_def)
  moreover have "ready c ?st4"
    using ready_frame [OF st2(2), of ?st4] kept(1) by simp
  moreover have "attached drvs ops c ?st4 ?con3"
    using assms(2) ts st4(2) by (auto simp: attached_def)
  ultimately show ?thesis
    using st2(3) by (intro exI [of _ ?st4] exI [of _ r]) simp
qed

lemma upd_con_ready:
  assumes "ready c st" and "attached drvs ops c st con"
    and "con_driver (f con) = con_driver con" "con_thread_id (f con) = con_thread_id con" "con_ptr (f con) = con_ptr con"
  shows "\<exists>st'. upd_con c f st = Inr st' \<and> ready c st' \<and> attached drvs ops c st' (f con) \<and> ds_drv st' = ds_drv st"
proof -
  let ?st = "st\<lparr>ds_conns := (ds_conns st)(c := Some (f con))\<rparr>"
  have at: "ds_conns st c = Some con"
    using assms(2) by (simp add: attached_def)
  then have "upd_con c f st = Inr ?st"
    by (simp add: upd_con_def con_at_def)
  moreover have "ready c ?st"
    using ready_frame [OF assms(1), of ?st] at assms(5) by simp
  ultimately show ?thesis
    using attached_upd [OF assms(2-4)] by auto
qed

lemma bulk_commit_sends:
  assumes "ready c st" and "attached drvs ops c st con" and "bulk_inv base pend cc con" and "bulk_commit_max con \<noteq> 0"
  shows "\<exists>st' r e. rbind (upd_con c (\<lambda>con. con\<lparr>bulk_commit_cnt := bulk_commit_cnt con + bulk_cnt con\<rparr>) st) (\<lambda>st.
             if is_last \<or> bulk_commit_cnt con + bulk_cnt con \<ge> bulk_commit_max con
             then rbind (db_query drvs c ''COMMIT'' st) (\<lambda>(rs, st).
                    if rs = None then Inr (1, st)
                    else rbind (upd_con c (\<lambda>con. con\<lparr>bulk_commit_cnt := 0\<rparr>) st) (\<lambda>st. Inr (0, st)))
             else Inr (0 :: int, st)) = Inr (0, st') \<and> ready c st' \<and>
           attached drvs ops c st' (con\<lparr>con_rs := r, con_errno := e,
                     bulk_commit_cnt := of_nat (bulk_count (unat (bulk_commit_max con)) is_last cc (length pend))\<rparr>) \<and>
           sent (ds_drv st') = sent (ds_drv st) @ tl (bulk_flush (unat (bulk_commit_max con)) is_last cc base pend)"
proof -
  note cnt = bulk_inv_commit_bound [OF assms(3,4)]
  let ?f = "\<lambda>con. con\<lparr>bulk_commit_cnt := bulk_commit_cnt con + bulk_cnt con\<rparr>"
  obtain st1 where st1: "upd_con c ?f st = Inr st1" "ready c st1" "attached drvs ops c st1 (?f con)" "ds_drv st1 = ds_drv st"
    using upd_con_ready [OF assms(1,2), of ?f] by auto
  have iff: "(is_last \<or> bulk_commit_cnt con + bulk_cnt con \<ge> bulk_commit_max con) =
      bulk_commits (unat (bulk_commit_max con)) is_last (cc + length pend)"
    using cnt(1) assms(4) by (auto simp: bulk_commits_def word_le_nat_alt unat_gt_0)
  show ?thesis
  proof (cases "bulk_commits (unat (bulk_commit_max con)) is_last (cc + length pend)")
    case True
    obtain st2 r where st2: "db_query drvs c ''COMMIT'' st1 = Inr (Some c, st2)" "ready c st2"
        "attached drvs ops c st2 ((?f con)\<lparr>con_rs := r, con_errno := SB_DB_ERROR_NONE\<rparr>)"
        "sent (ds_drv st2) = sent (ds_drv st1) @ [''COMMIT'']"
      using db_query_accepted [OF st1(2,3)] by blast
    let ?g = "\<lambda>con :: db_conn_t. con\<lparr>bulk_commit_cnt := 0\<rparr>"
    obtain st3 where st3: "upd_con c ?g st2 = Inr st3" "ready c st3" "ds_drv st3 = ds_drv st2"
        "attached drvs ops c st3 (con\<lparr>con_rs := r, con_errno := SB_DB_ERROR_NONE, bulk_commit_cnt := 0\<rparr>)"
      using upd_con_ready [OF st2(2,3), of ?g] by auto
    then show ?thesis
      using True iff assms(4) st1(1,4) st2(1,4)
      by (intro exI [of _ st3] exI [of _ r] exI [of _ SB_DB_ERROR_NONE]) (simp add: bulk_count_def bulk_flush_def unat_eq_zero)
  next
    case False
    have "?f con = con\<lparr>con_rs := con_rs con, con_errno := con_errno con, bulk_commit_cnt := of_nat (cc + length pend)\<rparr>"
      using cnt(2) assms(3) by (simp add: bulk_inv_def)
    then show ?thesis
      using False iff assms(4) st1
      by (intro exI [of _ st1] exI [of _ "con_rs con"] exI [of _ "con_errno con"]) (simp add: bulk_count_def bulk_flush_def unat_eq_zero)
  qed
qed

lemma bulk_flush_sends:
  assumes "ready c st" and "attached drvs ops c st con" and "bulk_inv base pend cc con" and "pend \<noteq> []"
  shows "\<exists>st' con'. db_bulk_do_insert drvs c is_last st = Inr (0, st') \<and> ready c st' \<and> attached drvs ops c st' con' \<and>
           bulk_inv base [] (bulk_count (unat (bulk_commit_max con)) is_last cc (length pend)) con' \<and>
           bulk_commit_max con' = bulk_commit_max con \<and>
           sent (ds_drv st') = sent (ds_drv st) @ bulk_flush (unat (bulk_commit_max con)) is_last cc base pend"
proof -
  let ?n = "bulk_count (unat (bulk_commit_max con)) is_last cc (length pend)"
  obtain b where b: "bulk_buffer con = Some b" "cb_string 0 b = Inr (bulk_text base pend)"
    using bulk_inv_query [OF assms(3,4)] by blast
  obtain st1 r1 where q1: "db_query drvs c (bulk_text base pend) st = Inr (Some c, st1)" "ready c st1"
      "attached drvs ops c st1 (con\<lparr>con_rs := r1, con_errno := SB_DB_ERROR_NONE\<rparr>)"
      "sent (ds_drv st1) = sent (ds_drv st) @ [bulk_text base pend]"
    using db_query_accepted [OF assms(1,2)] by blast
  define con1 where "con1 = con\<lparr>con_rs := r1, con_errno := SB_DB_ERROR_NONE\<rparr>"
  have inv1: "bulk_inv base pend cc con1" "bulk_commit_max con1 = bulk_commit_max con" "attached drvs ops c st1 con1"
    using assms(3) q1(3) by (simp_all add: con1_def)
  let ?commit = "\<lambda>st. if bulk_commit_max con1 \<noteq> 0
      then rbind (upd_con c (\<lambda>con. con\<lparr>bulk_commit_cnt := bulk_commit_cnt con + bulk_cnt con\<rparr>) st) (\<lambda>st.
             if is_last \<or> bulk_commit_cnt con1 + bulk_cnt con1 \<ge> bulk_commit_max con1
             then rbind (db_query drvs c ''COMMIT'' st) (\<lambda>(rs, st).
                    if rs = None then Inr (1, st)
                    else rbind (upd_con c (\<lambda>con. con\<lparr>bulk_commit_cnt := 0\<rparr>) st) (\<lambda>st. Inr (0, st)))
             else Inr (0 :: int, st))
      else Inr (0, st)"
  obtain st2 r2 e2 where q2: "?commit st1 = Inr (0, st2)" "ready c st2"
      "attached drvs ops c st2 (con1\<lparr>con_rs := r2, con_errno := e2, bulk_commit_cnt := of_nat ?n\<rparr>)"
      "sent (ds_drv st2) = sent (ds_drv st1) @ tl (bulk_flush (unat (bulk_commit_max con)) is_last cc base pend)"
  proof (cases "bulk_commit_max con1 = 0")
    case True
    have "con1 = con1\<lparr>con_rs := con_rs con1, con_errno := con_errno con1, bulk_commit_cnt := of_nat ?n\<rparr>"
      using inv1 True by (simp add: bulk_count_def bulk_inv_def)
    then show ?thesis
      using that [of st1 "con_errno con1" "con_rs con1"] True inv1(2,3) q1(2) by (simp add: bulk_flush_def bulk_commits_def)
  next
    case False
    show ?thesis
      using that bulk_commit_sends [OF q1(2) inv1(3,1) False, of is_last] False inv1(2) by auto
  qed
  let ?con2 = "con1\<lparr>con_rs := r2, con_errno := e2, bulk_commit_cnt := of_nat ?n\<rparr>"
  let ?f = "\<lambda>con. con\<lparr>bulk_ptr := bulk_ptr_orig con, bulk_cnt := 0\<rparr>"
  obtain st3 where st3: "upd_con c ?f st2 = Inr st3" "ready c st3" "attached drvs ops c st3 (?f ?con2)" "ds_drv st3 = ds_drv st2"
    using upd_con_ready [OF q2(2,3), of ?f] by auto
  have "bulk_commit_max con1 = 0 \<or> ?n < unat (bulk_commit_max con1)"
    using inv1(2) by (cases "bulk_commit_max con = 0") (auto simp: bulk_count_def bulk_commits_def unat_gt_0)
  then have "bulk_inv base [] ?n (con1\<lparr>bulk_commit_cnt := of_nat ?n, bulk_ptr := bulk_ptr_orig con1, bulk_cnt := 0\<rparr>)"
    using bulk_inv_reset [OF inv1(1)] by blast
  then have "bulk_inv base [] ?n (?f ?con2)" "bulk_commit_max (?f ?con2) = bulk_commit_max con"
    using inv1(2) by (simp_all add: bulk_inv_def bulk_text_def)
  moreover have "db_bulk_do_insert drvs c is_last st = Inr (0, st3)"
    using b q1(1) inv1(3) q2(1) st3(1) assms(2,4) bulk_inv_cnt(3) [OF assms(3)]
    by (simp add: db_bulk_do_insert_def con_at_def attached_def)
  ultimately show ?thesis
    using st3 q1(4) q2(4) by (intro exI [of _ st3] exI [of _ "?f ?con2"]) (simp add: bulk_flush_def)
qed

lemma bulk_next_sends:
  assumes "ready c st" and "attached drvs ops c st con" and "bulk_inv base pend cc con"
    and "cstring r" and "length base + length r < BULK_PACKET_SIZE"
  shows "\<exists>st' con' pend' cc' out. db_bulk_insert_next drvs c r st = Inr (0, st') \<and> ready c st' \<and> attached drvs ops c st' con' \<and>
           bulk_inv base pend' cc' con' \<and> pend' \<noteq> [] \<and> bulk_commit_max con' = bulk_commit_max con \<and> sent (ds_drv st') = sent (ds_drv st) @ out \<and>
           (\<forall>rs. bulk_script (unat (bulk_commit_max con)) cc base pend (r # rs) =
                 out @ bulk_script (unat (bulk_commit_max con)) cc' base pend' rs)"
proof -
  define full where "full \<longleftrightarrow> pend \<noteq> [] \<and> BULK_PACKET_SIZE < length (bulk_text base (pend @ [r])) + 1"
  let ?max = "unat (bulk_commit_max con)"
  obtain st1 con1 pend1 cc1 out where s1: "(if full then db_bulk_do_insert drvs c False st else Inr (0, st)) = Inr (0, st1)"
      "ready c st1" "attached drvs ops c st1 con1" "bulk_inv base pend1 cc1 con1" "bulk_commit_max con1 = bulk_commit_max con"
      "sent (ds_drv st1) = sent (ds_drv st) @ out" "length (bulk_text base (pend1 @ [r])) < BULK_PACKET_SIZE"
      "\<forall>rs. bulk_script ?max cc base pend (r # rs) = out @ bulk_script ?max cc1 base (pend1 @ [r]) rs"
  proof (cases full)
    case True
    obtain st1 con1 where "db_bulk_do_insert drvs c False st = Inr (0, st1)" "ready c st1" "attached drvs ops c st1 con1"
        "bulk_inv base [] (bulk_count ?max False cc (length pend)) con1" "bulk_commit_max con1 = bulk_commit_max con"
        "sent (ds_drv st1) = sent (ds_drv st) @ bulk_flush ?max False cc base pend"
      using bulk_flush_sends [OF assms(1-3)] True full_def by blast
    then show ?thesis
      using that True assms(5) full_def by (simp add: bulk_text_def)
  next
    case False
    have "length (bulk_text base (pend @ [r])) < BULK_PACKET_SIZE"
      using False assms(5) full_def by (cases "pend = []") (simp_all add: bulk_text_def)
    moreover have "\<forall>rs. bulk_script ?max cc base pend (r # rs) = [] @ bulk_script ?max cc base (pend @ [r]) rs"
      using False unfolding full_def by (simp only: bulk_script.simps if_False append_Nil simp_thms)
    moreover have "(if full then db_bulk_do_insert drvs c False st else Inr (0, st)) = Inr (0, st)"
      using False by presburger
    ultimately show ?thesis
      using that [of st con pend cc "[]"] assms(1-3) by simp
  qed
  obtain con2 where con2: "bulk_append r con1 = Inr con2" "bulk_inv base (pend1 @ [r]) cc1 con2"
      "con2 = con1\<lparr>bulk_buffer := bulk_buffer con2, bulk_ptr := bulk_ptr con2, bulk_cnt := bulk_cnt con2\<rparr>"
    using bulk_inv_append [OF s1(4) _ s1(7)] assms(4) by (auto simp: cstring_def)
  have same: "con_driver con2 = con_driver con1" "con_thread_id con2 = con_thread_id con1" "con_ptr con2 = con_ptr con1"
      "bulk_commit_max con2 = bulk_commit_max con1"
    by (subst con2(3), simp)+
  obtain st2 where st2: "upd_con c (\<lambda>_. con2) st1 = Inr st2" "ready c st2" "attached drvs ops c st2 con2" "ds_drv st2 = ds_drv st1"
    using upd_con_ready [OF s1(2,3), of "\<lambda>_. con2"] same by auto
  have "(bulk_ptr con + of_nat (length r) + 1 + (if bulk_cnt con > 0 then 1 else 0) > bulk_buflen con) = full"
    using bulk_room [OF assms(3,5)] assms(5) full_def by (cases "pend = []") (auto simp: bulk_text_def)
  moreover have cnt0: "full \<Longrightarrow> bulk_cnt con \<noteq> 0"
    using bulk_inv_cnt(3) [OF assms(3)] full_def by simp
  ultimately have "db_bulk_insert_next drvs c r st = Inr (0, st2)"
    using s1(1,3) st2(1) con2(1) assms(2) cnt0
    by (cases full) (simp_all add: db_bulk_insert_next_def con_at_def attached_def Let_def)
  then show ?thesis
    using st2 con2(2) same(4) s1(5,6,8)
    by (intro exI [of _ st2] exI [of _ con2] exI [of _ "pend1 @ [r]"] exI [of _ cc1] exI [of _ out]) simp
qed

lemma bulk_rows_send:
  "ready c st \<Longrightarrow> attached drvs ops c st con \<Longrightarrow> bulk_inv base pend cc con \<Longrightarrow>
   \<forall>r\<in>set rs. cstring r \<and> length base + length r < BULK_PACKET_SIZE \<Longrightarrow>
   \<exists>st1 st'. db_bulk_insert_rows drvs c rs st = Inr (0, st1) \<and> db_bulk_insert_done drvs c st1 = Inr st' \<and> ready c st' \<and>
     sent (ds_drv st') = sent (ds_drv st) @ bulk_script (unat (bulk_commit_max con)) cc base pend rs"
proof (induction rs arbitrary: st con pend cc)
  case Nil
  let ?f = "\<lambda>con :: db_conn_t. con\<lparr>bulk_buffer := None\<rparr>"
  obtain st1 con1 where s1: "db_bulk_do_insert drvs c True st = Inr (0, st1)" "ready c st1" "attached drvs ops c st1 con1"
      "sent (ds_drv st1) = sent (ds_drv st) @ bulk_script (unat (bulk_commit_max con)) cc base pend []"
  proof (cases "pend = []")
    case True
    then have "db_bulk_do_insert drvs c True st = Inr (0, st)"
      using Nil.prems(2) bulk_inv_cnt(3) [OF Nil.prems(3)] by (simp add: db_bulk_do_insert_def con_at_def attached_def)
    then show ?thesis using that Nil.prems(1,2) True by simp
  next
    case False
    then show ?thesis using that bulk_flush_sends [OF Nil.prems(1-3) False, of True] by auto
  qed
  then show ?case
    using upd_con_ready [OF s1(2,3), of ?f] by (auto simp: db_bulk_insert_done_def)
next
  case (Cons r rs)
  obtain st1 con1 pend1 cc1 out where s1: "db_bulk_insert_next drvs c r st = Inr (0, st1)" "ready c st1" "attached drvs ops c st1 con1"
      "bulk_inv base pend1 cc1 con1" "bulk_commit_max con1 = bulk_commit_max con" "sent (ds_drv st1) = sent (ds_drv st) @ out"
      "\<forall>rs. bulk_script (unat (bulk_commit_max con)) cc base pend (r # rs) =
            out @ bulk_script (unat (bulk_commit_max con)) cc1 base pend1 rs"
    using bulk_next_sends [OF Cons.prems(1-3), of r] Cons.prems(4) by auto
  then show ?case
    using Cons.IH [OF s1(2-4)] Cons.prems(4) by auto
qed

lemma bulk_init_starts:
  assumes "ready c st" and "attached drvs ops c st con" and "os_mem (pg_opts (ds_pg st)) = []"
    and "cstring base" and "length base < BULK_PACKET_SIZE"
  shows "\<exists>st' con'. db_bulk_insert_init drvs c base st = Inr (0, st') \<and> ready c st' \<and> attached drvs ops c st' con' \<and>
           bulk_inv base [] 0 con' \<and> bulk_commit_max con' = (if needs_commit (caps (ds_drv st)) then ROWS_BEFORE_COMMIT else 0) \<and>
           sent (ds_drv st') = sent (ds_drv st)"
proof -
  let ?caps = "caps (ds_drv st)"
  let ?f1 = "\<lambda>con :: db_conn_t. con\<lparr>bulk_buflen := of_nat BULK_PACKET_SIZE\<rparr>"
  obtain f st0 where f: "drv_describe ops = Some f" "f st = Inr ((0, ?caps), st0)" "ready c st0" "sent (ds_drv st0) = sent (ds_drv st)"
      "ds_conns st0 = ds_conns st" "thread_stats st0 = thread_stats st" "os_mem (pg_opts (ds_pg st0)) = []"
    using describes [OF assms(1)] assms(3) by auto
  have att: "attached drvs ops c st0 con"
    using assms(2) f(5,6) by (simp add: attached_def)
  obtain st1 where st1: "upd_con c ?f1 st0 = Inr st1" "ready c st1" "attached drvs ops c st1 (?f1 con)" "ds_drv st1 = ds_drv st0"
    using upd_con_ready [OF f(3) att, of ?f1] by auto
  have "ds_pg st1 = ds_pg st0"
    using st1(1) by (auto simp: upd_con_def rbind_eq_Inr)
  then have mal: "d_malloc st1 = (True, st1)"
    using f(7) by (simp add: d_malloc_def)
  obtain b where b: "cb_strcpy 0 base (cb_new BULK_PACKET_SIZE) = Inr b" "cb_cap b = BULK_PACKET_SIZE" "cb_holds 0 base b"
    using cb_strcpy_ok [of 0 base "cb_new BULK_PACKET_SIZE"] assms(5) by (auto simp: cb_new_def)
  let ?f2 = "\<lambda>con. con\<lparr>bulk_buffer := Some b, bulk_supported := multi_rows_insert ?caps,
      bulk_commit_max := (if needs_commit ?caps then ROWS_BEFORE_COMMIT else 0), bulk_commit_cnt := 0,
      bulk_ptr := of_nat (length base), bulk_ptr_orig := of_nat (length base), bulk_cnt := 0\<rparr>"
  obtain st2 where st2: "upd_con c ?f2 st1 = Inr st2" "ready c st2" "attached drvs ops c st2 (?f2 (?f1 con))" "ds_drv st2 = ds_drv st1"
    using upd_con_ready [OF st1(2,3), of ?f2] by auto
  obtain d where d: "ds_conns st c = Some con" "con_driver con = Some d" "d < length drvs" "d_ops (drvs ! d) = ops"
    using assms(2) by (auto simp: attached_def)
  have "db_bulk_insert_init drvs c base st = Inr (0, st2)"
    using d f(1,2) st1(1) mal b(1) st2(1) assms(5) by (simp add: db_bulk_insert_init_def con_at_def db_describe_def)
  moreover have "bulk_inv base [] 0 (?f2 (?f1 con))"
    using b assms(4,5) by (simp add: bulk_inv_def bulk_text_def cstring_def ROWS_BEFORE_COMMIT_def)
  ultimately show ?thesis
    using st2 st1(4) f(4) by (intro exI [of _ st2] exI [of _ "?f2 (?f1 con)"]) simp
qed

lemma bulk_load_sends:
  assumes "ready c st" and "attached drvs ops c st con" and "os_mem (pg_opts (ds_pg st)) = []"
    and "cstring base" and "length base < BULK_PACKET_SIZE"
    and "\<forall>r\<in>set rows. cstring r \<and> length base + length r < BULK_PACKET_SIZE"
  shows "\<exists>st1 st2 st3. db_bulk_insert_init drvs c base st = Inr (0, st1) \<and> db_bulk_insert_rows drvs c rows st1 = Inr (0, st2) \<and>
           db_bulk_insert_done drvs c st2 = Inr st3 \<and> ready c st3 \<and>
           sent (ds_drv st3) = sent (ds_drv st) @
             bulk_script (if needs_commit (caps (ds_drv st)) then unat ROWS_BEFORE_COMMIT else 0) 0 base [] rows"
proof -
  obtain st1 con1 where s1: "db_bulk_insert_init drvs c base st = Inr (0, st1)" "ready c st1" "attached drvs ops c st1 con1"
      "bulk_inv base [] 0 con1" "bulk_commit_max con1 = (if needs_commit (caps (ds_drv st)) then ROWS_BEFORE_COMMIT else 0)"
      "sent (ds_drv st1) = sent (ds_drv st)"
    using bulk_init_starts [OF assms(1-5)] by blast
  obtain st2 st3 where "db_bulk_insert_rows drvs c rows st1 = Inr (0, st2)" "db_bulk_insert_done drvs c st2 = Inr st3" "ready c st3"
      "sent (ds_drv st3) = sent (ds_drv st1) @ bulk_script (unat (bulk_commit_max con1)) 0 base [] rows"
    using bulk_rows_send [OF s1(2-4) assms(6)] by blast
  then show ?thesis
    using s1(1,5,6) by (auto split: if_splits)
qed

text \<open>
  After a flush the length of the row is not checked again: a row that does not fit behind the beginning of the statement is
  written beyond the end of the buffer.
\<close>

lemma bulk_next_overflows:
  assumes "ready c st" and "attached drvs ops c st con" and "bulk_inv base pend cc con" and "pend \<noteq> []"
    and "BULK_PACKET_SIZE \<le> length base + length r" and "length r < 2 ^ 31"
  shows "db_bulk_insert_next drvs c r st = Inl Out_of_bounds"
proof -
  obtain st1 con1 cc1 where s1: "db_bulk_do_insert drvs c False st = Inr (0, st1)" "attached drvs ops c st1 con1" "bulk_inv base [] cc1 con1"
    using bulk_flush_sends [OF assms(1-4), of False] by blast
  obtain b where b: "bulk_buffer con1 = Some b" "cb_cap b = BULK_PACKET_SIZE" "unat (bulk_ptr con1) = length base" "bulk_cnt con1 = 0"
    using s1(3) bulk_inv_cnt(3,4) [OF s1(3)] by (auto simp: bulk_inv_def bulk_text_def)
  have app: "bulk_append r con1 = Inl Out_of_bounds"
    using cb_strcpy_overflow [of b "length base" r] b assms(5) by (simp add: bulk_append_def)
  let ?n = "length (bulk_text base pend) + length r + 1 + 1"
  have "?n < 2 ^ 32"
    using assms(3,6) by (simp add: bulk_inv_def BULK_PACKET_SIZE_def)
  moreover have "bulk_ptr con + of_nat (length r) + 1 + 1 = (of_nat ?n :: u32)"
    using assms(3) by (simp add: bulk_inv_def)
  ultimately have "unat (bulk_ptr con + of_nat (length r) + 1 + 1) = ?n"
    using unat_of_nat_u32 by metis
  moreover have "BULK_PACKET_SIZE < ?n" "bulk_cnt con \<noteq> 0"
    using assms(4,5) bulk_inv_cnt(3) [OF assms(3)] by (simp_all add: bulk_text_def)
  ultimately have "bulk_ptr con + of_nat (length r) + 1 + (if bulk_cnt con > 0 then 1 else 0) > bulk_buflen con" "bulk_cnt con \<noteq> 0"
    using bulk_inv_cnt(5) [OF assms(3)] by (simp_all add: word_less_nat_alt unat_gt_0)
  then show ?thesis
    using s1(1,2) app assms(2) by (simp add: db_bulk_insert_next_def con_at_def attached_def Let_def)
qed

end

text \<open>Without commits the statements are the chunks of the rows.\<close>

fun bulk_chunks :: "string \<Rightarrow> string list \<Rightarrow> string list \<Rightarrow> string list list" where
  "bulk_chunks base pend [] = (if pend = [] then [] else [pend])"
| "bulk_chunks base pend (r # rs) =
     (if pend \<noteq> [] \<and> BULK_PACKET_SIZE < length (bulk_text base (pend @ [r])) + 1
      then pend # bulk_chunks base [r] rs else bulk_chunks base (pend @ [r]) rs)"

lemma bulk_script_chunks: "bulk_script 0 cc base pend rows = map (bulk_text base) (bulk_chunks base pend rows)"
  by (induction base pend rows arbitrary: cc rule: bulk_chunks.induct) (simp_all add: bulk_flush_def bulk_commits_def bulk_count_def)

lemma concat_bulk_chunks: "concat (bulk_chunks base pend rows) = pend @ rows"
  by (induction base pend rows rule: bulk_chunks.induct) simp_all

lemma bulk_chunks_fit:
  "pend = [] \<or> length (bulk_text base pend) < BULK_PACKET_SIZE \<Longrightarrow> \<forall>r\<in>set rows. length base + length r < BULK_PACKET_SIZE \<Longrightarrow>
   ch \<in> set (bulk_chunks base pend rows) \<Longrightarrow> ch \<noteq> [] \<and> length (bulk_text base ch) < BULK_PACKET_SIZE"
proof (induction base pend rows rule: bulk_chunks.induct)
  case (2 base pend r rs)
  have "length (bulk_text base [r]) < BULK_PACKET_SIZE"
    using 2(4) by (simp add: bulk_text_def)
  then show ?case
    using 2 by (cases "pend = []") (auto split: if_splits)
qed (simp split: if_splits)

section \<open>Accounting\<close>

text \<open>What one query adds to the statistics of its thread, by the result of the driver.\<close>

fun tally :: "db_error_t \<Rightarrow> db_query_type_t \<Rightarrow> db_thread_stat_t \<Rightarrow> db_thread_stat_t" where
  "tally SB_DB_ERROR_NONE ty s = count_query ty s"
| "tally SB_DB_ERROR_RESTART_TRANSACTION ty s = s\<lparr>errors := errors s + 1\<rparr>"
| "tally SB_DB_ERROR_RECONNECTED ty s = s\<lparr>reconnects := reconnects s + 1\<rparr>"
| "tally SB_DB_ERROR_FAILED ty s = s"

text \<open>The error the caller sees: a reconnect asks for the transaction to be restarted.\<close>

definition seen_error :: "db_error_t \<Rightarrow> db_error_t" where
  "seen_error e = (if e = SB_DB_ERROR_RECONNECTED then SB_DB_ERROR_RESTART_TRANSACTION else e)"

text \<open>Queries one after the other on a connection, with the error of each.\<close>

fun db_queries :: "'d db_driver_t list \<Rightarrow> nat \<Rightarrow> string list \<Rightarrow> 'd db_state \<Rightarrow> (db_error_t list \<times> 'd db_state) res" where
  "db_queries drvs c [] st = Inr ([], st)"
| "db_queries drvs c (q # qs) st =
     rbind (db_query drvs c q st) (\<lambda>(r, st).
     rbind (db_errno c st) (\<lambda>e.
     rbind (db_queries drvs c qs st) (\<lambda>(es, st). Inr (e # es, st))))"

text \<open>
  What the driver itself returned for a query, which is asked with a new result set, and for each of several queries. The layer does not show the
  difference between a reconnect and a transaction to restart to its caller.
\<close>

definition driver_answer :: "'d drv_ops_t \<Rightarrow> nat \<Rightarrow> string \<Rightarrow> 'd db_state \<Rightarrow> db_error_t option" where
  "driver_answer ops c q st =
     (case rbind (upd_rs c (\<lambda>_. rs_zero\<lparr>rs_connection := Some c\<rparr>) st) (drv_query ops c q c) of
        Inl _ \<Rightarrow> None | Inr (e, st) \<Rightarrow> Some e)"

fun driver_answers :: "'d db_driver_t list \<Rightarrow> 'd drv_ops_t \<Rightarrow> nat \<Rightarrow> string list \<Rightarrow> 'd db_state \<Rightarrow> db_error_t option list" where
  "driver_answers drvs ops c [] st = []"
| "driver_answers drvs ops c (q # qs) st =
     driver_answer ops c q st # (case db_query drvs c q st of Inl _ \<Rightarrow> [] | Inr (r, st) \<Rightarrow> driver_answers drvs ops c qs st)"

definition tally_all :: "(string \<times> db_error_t) list \<Rightarrow> db_thread_stat_t \<Rightarrow> db_thread_stat_t" where
  "tally_all qes s = foldl (\<lambda>s (q, e). tally e (db_get_query_type q) s) s qes"

definition count_ok :: "db_query_type_t set \<Rightarrow> (string \<times> db_error_t) list \<Rightarrow> u64" where
  "count_ok tys qes = of_nat (length (filter (\<lambda>(q, e). e = SB_DB_ERROR_NONE \<and> db_get_query_type q \<in> tys) qes))"

definition count_err :: "db_error_t \<Rightarrow> (string \<times> db_error_t) list \<Rightarrow> u64" where
  "count_err x qes = of_nat (length (filter (\<lambda>(q, e). e = x) qes))"

lemma tally_all_counts:
  "tally_all qes s =
     \<lparr>read_ops = read_ops s + count_ok {DB_QUERY_TYPE_READ} qes,
      write_ops = write_ops s + count_ok {DB_QUERY_TYPE_WRITE} qes,
      other_ops = other_ops s + count_ok {DB_QUERY_TYPE_COMMIT, DB_QUERY_TYPE_OTHER} qes,
      transactions = transactions s + count_ok {DB_QUERY_TYPE_COMMIT} qes,
      errors = errors s + count_err SB_DB_ERROR_RESTART_TRANSACTION qes,
      reconnects = reconnects s + count_err SB_DB_ERROR_RECONNECTED qes\<rparr>"
proof (induction qes arbitrary: s)
  case Nil
  show ?case by (simp add: tally_all_def count_ok_def count_err_def)
next
  case (Cons qe qes)
  obtain q e where qe: "qe = (q, e)" by fastforce
  have "tally_all (qe # qes) s = tally_all qes (tally e (db_get_query_type q) s)"
    by (simp add: tally_all_def qe)
  then show ?case
    unfolding Cons.IH qe
    by (cases e; cases "db_get_query_type q") (simp_all add: count_ok_def count_err_def)
qed

text \<open>A driver whose query operation touches nothing of the layer but the result set of the connection.\<close>

locale quiet_driver =
  fixes ops :: "'d drv_ops_t"
  assumes query_quiet: "drv_query ops c q c st = Inr (e, st') \<Longrightarrow> con_kept c st st'"
begin

lemma db_query_tally:
  assumes "attached drvs ops c st con" and "thread_stats st = Some ts" and "0 \<le> con_thread_id con"
    and "db_query drvs c q st = Inr (r, st')"
  shows "\<exists>e con'. thread_stats st' = Some (ts[nat (con_thread_id con) := tally e (db_get_query_type q) (ts ! nat (con_thread_id con))]) \<and>
           attached drvs ops c st' con' \<and> con_thread_id con' = con_thread_id con \<and> (r = Some c \<longleftrightarrow> e = SB_DB_ERROR_NONE) \<and>
           db_errno c st' = Inr (seen_error e) \<and> driver_answer ops c q st = Some e"
proof -
  let ?i = "nat (con_thread_id con)"
  have at: "ds_conns st c = Some con" "?i < length ts"
    using assms(1-3) by (auto simp: attached_def)
  let ?st1 = "st\<lparr>ds_conns := (ds_conns st)(c := Some (con\<lparr>con_rs := rs_zero\<lparr>rs_connection := Some c\<rparr>\<rparr>))\<rparr>"
  obtain e st2 where q: "drv_query ops c q c ?st1 = Inr (e, st2)"
    using assms(4) attached_driver [OF assms(1)] at
    by (auto simp: db_query_def upd_rs_def upd_con_def con_at_def rbind_eq_Inr)
  have answer: "driver_answer ops c q st = Some e"
    using q at(1) by (simp add: driver_answer_def upd_rs_def upd_con_def con_at_def)
  obtain rs where quiet: "ds_conns st2 c = Some (con\<lparr>con_rs := rs\<rparr>)" "thread_stats st2 = Some ts"
    using query_quiet [OF q] assms(2) by (auto simp: con_kept_def)
  then have "\<exists>con'. thread_stats st' = Some (ts[?i := tally e (db_get_query_type q) (ts ! ?i)]) \<and>
      ds_conns st' c = Some con' \<and> con_driver con' = con_driver con \<and> con_thread_id con' = con_thread_id con \<and>
      con_errno con' = seen_error e \<and> (r = Some c \<longleftrightarrow> e = SB_DB_ERROR_NONE)"
    using assms(3,4) attached_driver [OF assms(1)] at q
    by (cases e) (auto simp: db_query_def upd_rs_def upd_con_def con_at_def db_count_ok_def db_count_error_def
        db_update_thread_stats_def upd_stat_def seen_error_def)
  then show ?thesis
    using assms(1,2) at(2) answer by (fastforce simp: attached_def db_errno_def con_at_def)
qed

lemma db_queries_tally:
  "attached drvs ops c st con \<Longrightarrow> thread_stats st = Some ts \<Longrightarrow> 0 \<le> con_thread_id con \<Longrightarrow>
   db_queries drvs c qs st = Inr (es, st') \<Longrightarrow>
   \<exists>os. driver_answers drvs ops c qs st = map Some os \<and> length os = length qs \<and> es = map seen_error os \<and>
     thread_stats st' = Some (ts[nat (con_thread_id con) := tally_all (zip qs os) (ts ! nat (con_thread_id con))])"
proof (induction qs arbitrary: st con ts es)
  case Nil
  then show ?case by (simp add: tally_all_def)
next
  case (Cons q qs)
  let ?i = "nat (con_thread_id con)"
  obtain r st1 where q: "db_query drvs c q st = Inr (r, st1)"
    using Cons.prems(4) by (auto simp: rbind_eq_Inr)
  obtain e con1 where e: "thread_stats st1 = Some (ts[?i := tally e (db_get_query_type q) (ts ! ?i)])"
      "attached drvs ops c st1 con1" "con_thread_id con1 = con_thread_id con" "db_errno c st1 = Inr (seen_error e)"
      "driver_answer ops c q st = Some e"
    using db_query_tally [OF Cons.prems(1-3) q] by blast
  obtain es1 where es1: "db_queries drvs c qs st1 = Inr (es1, st')" "es = seen_error e # es1"
    using Cons.prems(4) q e(4) by (auto simp: rbind_eq_Inr)
  have i: "?i < length ts"
    using Cons.prems(1-3) by (auto simp: attached_def)
  obtain os where "driver_answers drvs ops c qs st1 = map Some os" "length os = length qs" "es1 = map seen_error os"
      "thread_stats st' = Some (ts[?i := tally_all (zip qs os) (tally e (db_get_query_type q) (ts ! ?i))])"
    using Cons.IH [OF e(2,1) _ es1(1)] Cons.prems(3) e(3) i by auto
  then show ?case
    using es1(2) q e(5) by (intro exI [of _ "e # os"]) (simp add: tally_all_def)
qed

end

section \<open>Reports\<close>

lemma d_split_ready:
  assumes "logger_ready (pg_w (ds_pg st))" and "sb_timer_initialized (sel (ds_globals st))"
  shows "\<exists>v t w'. d_split sel put st = Inr (v, st\<lparr>ds_pg := (ds_pg st)\<lparr>pg_w := w'\<rparr>\<rparr>) \<and> logger_ready w' \<and>
           w_globals w' = put t (ds_globals st)"
proof -
  obtain v t w' where "w_split sel put (pg_w (ds_pg st)) = Inr (v, w')" "logger_ready w'" "w_globals w' = put t (ds_globals st)"
    using w_split_ready [OF assms(1), of sel put] assms(2) by blast
  then show ?thesis
    by (intro exI [of _ v] exI [of _ t] exI [of _ w']) (simp add: d_split_def)
qed

lemma d_log_ready:
  assumes "logger_ready (pg_w (ds_pg st))"
  shows "\<exists>w'. d_log p m st = Inr (st\<lparr>ds_pg := (ds_pg st)\<lparr>pg_w := w'\<rparr>\<rparr>) \<and> logger_ready w' \<and> w_globals w' = ds_globals st \<and>
           text_frame (pg_w (ds_pg st)) w'"
proof -
  obtain w' where "log_text p m (pg_w (ds_pg st)) = Inr w'" "text_frame (pg_w (ds_pg st)) w'" "logger_ready w'"
    using assms log_text_ready text_handler_process_frame text_frame_ready by metis
  then show ?thesis by (auto simp: d_log_def p_log_def text_frame_def)
qed

lemma d_log_reqs_ready:
  assumes "logger_ready (pg_w (ds_pg st))"
  shows "\<exists>w'. d_log_reqs ms st = Inr (st\<lparr>ds_pg := (ds_pg st)\<lparr>pg_w := w'\<rparr>\<rparr>) \<and> logger_ready w' \<and> w_globals w' = ds_globals st"
proof -
  obtain w' where "log_reqs ms (pg_w (ds_pg st)) = Inr w'" "text_frame (pg_w (ds_pg st)) w'" "logger_ready w'"
    using assms log_reqs_ready text_frame_ready by blast
  then show ?thesis by (auto simp: d_log_reqs_def text_frame_def)
qed

lemma add_stat_zero: "foldl add_stats stat_zero (replicate n stat_zero) = stat_zero"
  by (induction n) (simp_all add: add_stats_def stat_zero_def)

lemma db_reset_stats_ready:
  assumes "logger_ready (pg_w (ds_pg st))" and "thread_stats st = Some ts" and "length ts = num_threads st" and "\<not> ds_debug st"
  shows "\<exists>st'. db_reset_stats st = Inr st' \<and> sum_stats st' = Inr stat_zero \<and> last_transactions st' = 0 \<and> last_read_ops st' = 0 \<and>
           last_write_ops st' = 0 \<and> last_errors st' = 0 \<and> last_reconnects st' = last_reconnects st"
proof -
  let ?st1 = "st\<lparr>thread_stats := Some (replicate (num_threads st) stat_zero), last_transactions := 0, last_read_ops := 0,
               last_write_ops := 0, last_errors := 0\<rparr>"
  obtain w where w: "(if sb_timer_running (g_exec_timer (ds_globals ?st1))
        then rbind (d_split g_exec_timer put_exec_timer ?st1) (\<lambda>(_, st). Inr st) else Inr ?st1) =
        Inr (?st1\<lparr>ds_pg := (ds_pg st)\<lparr>pg_w := w\<rparr>\<rparr>)" "g_num_threads (w_globals w) = g_num_threads (ds_globals st)"
  proof (cases "sb_timer_running (g_exec_timer (ds_globals st))")
    case True
    then have "sb_timer_initialized (g_exec_timer (ds_globals ?st1))"
      by (simp add: sb_timer_running_def sb_timer_initialized_def)
    then obtain v t w' where "d_split g_exec_timer put_exec_timer ?st1 = Inr (v, ?st1\<lparr>ds_pg := (ds_pg ?st1)\<lparr>pg_w := w'\<rparr>\<rparr>)"
        "w_globals w' = put_exec_timer t (ds_globals ?st1)"
      using d_split_ready [of ?st1 g_exec_timer put_exec_timer] assms(1) by auto
    then show ?thesis using that [of w'] True by simp
  next
    case False
    then show ?thesis using that [of "pg_w (ds_pg st)"] by simp
  qed
  have "db_reset_stats st = Inr (?st1\<lparr>ds_pg := (ds_pg st)\<lparr>pg_w := w\<rparr>\<rparr>)"
    using assms(2-4) w(1) by (simp add: db_reset_stats_def Let_def)
  then show ?thesis
    using w(2) by (simp add: sum_stats_def num_threads_def add_stat_zero)
qed

text \<open>
  A cumulative report starts a new period: afterwards all counters of all threads are zero and the next intermediate report counts
  from zero, except for the reconnects: the number of reconnects of the previous intermediate report is kept, so that the next
  intermediate report computes a difference that wraps around when there were any.
\<close>

lemma cumulative_report_restarts:
  assumes "logger_ready (pg_w (ds_pg st))" and "sb_timer_initialized (g_cumulative_timer1 (ds_globals st))"
    and "thread_stats st = Some ts" and "length ts = num_threads st" and "\<not> ds_debug st"
  shows "\<exists>st'. db_print_stats fp SB_STAT_CUMULATIVE st = Inr st' \<and> sum_stats st' = Inr stat_zero \<and>
           last_transactions st' = 0 \<and> last_read_ops st' = 0 \<and> last_write_ops st' = 0 \<and> last_errors st' = 0 \<and>
           reconnects stat_zero - last_reconnects st' = - last_reconnects st"
proof -
  obtain v t w1 where s1: "d_split g_cumulative_timer1 put_cumulative_timer1 st = Inr (v, st\<lparr>ds_pg := (ds_pg st)\<lparr>pg_w := w1\<rparr>\<rparr>)"
      "logger_ready w1" "w_globals w1 = put_cumulative_timer1 t (ds_globals st)"
    using d_split_ready [OF assms(1), of g_cumulative_timer1] assms(2) by blast
  let ?st1 = "st\<lparr>ds_pg := (ds_pg st)\<lparr>pg_w := w1\<rparr>\<rparr>" and ?s = "foldl add_stats stat_zero ts"
  obtain w2 where s2: "d_log_reqs (cumulative_lines fp ?s (NS2SEC fp v)) ?st1 = Inr (?st1\<lparr>ds_pg := (ds_pg ?st1)\<lparr>pg_w := w2\<rparr>\<rparr>)"
      "logger_ready w2" "w_globals w2 = w_globals w1"
    using d_log_reqs_ready [of ?st1] s1(2) by fastforce
  let ?st2 = "?st1\<lparr>ds_pg := (ds_pg ?st1)\<lparr>pg_w := w2\<rparr>\<rparr>"
  obtain st' where "db_reset_stats ?st2 = Inr st'" "sum_stats st' = Inr stat_zero" "last_transactions st' = 0" "last_read_ops st' = 0"
      "last_write_ops st' = 0" "last_errors st' = 0" "last_reconnects st' = last_reconnects st"
    using db_reset_stats_ready [of ?st2 ts] s1(3) s2(2,3) assms(3-5) by (auto simp: num_threads_def)
  moreover have "sum_stats st = Inr ?s"
    using assms(3,4) by (simp add: sum_stats_def)
  ultimately show ?thesis
    using s1(1) s2(1) assms(5) by (simp add: db_print_stats_def db_print_cumulative_def stat_zero_def)
qed

definition sample_db :: "'d \<Rightarrow> 'd db_state" where
  "sample_db d =
     \<lparr>ds_pg = sample_prog\<lparr>pg_w := sample_world\<rparr>, ds_ps_mode = DB_PS_MODE_AUTO, ds_driver = None, ds_debug = False,
      local_percentile = None, last_transactions = 0, last_read_ops = 0, last_write_ops = 0, last_errors = 0, last_reconnects = 0,
      thread_stats = Some (replicate (unat (g_num_threads (w_globals sample_world))) stat_zero), exec_timers = None, fetch_timers = None,
      ds_conns = (\<lambda>_. None), ds_stmts = (\<lambda>_. None), ds_rows = (\<lambda>_. None), ds_vars = (\<lambda>_. None), ds_next = 0, ds_drv = d\<rparr>"

lemma cumulative_report_restarts_witness:
  "\<exists>st'. db_print_stats fp_exact SB_STAT_CUMULATIVE ((sample_db ())\<lparr>last_reconnects := 3\<rparr>) = Inr st' \<and>
     sum_stats st' = Inr stat_zero \<and> reconnects stat_zero - last_reconnects st' = - 3"
proof -
  let ?st = "(sample_db ())\<lparr>last_reconnects := 3\<rparr>"
  have "logger_ready (pg_w (ds_pg ?st))" "sb_timer_initialized (g_cumulative_timer1 (ds_globals ?st))" "\<not> ds_debug ?st"
    using sample_world_ready by (simp_all add: sample_db_def sample_world_def sample_globals_def sb_timer_initialized_def sb_timer_init_def Let_def)
  moreover have "thread_stats ?st = Some (replicate (num_threads ?st) stat_zero)"
    by (simp add: sample_db_def num_threads_def)
  ultimately show ?thesis
    using cumulative_report_restarts [of ?st "replicate (num_threads ?st) stat_zero" fp_exact] by auto
qed

end
