(* ===== verification/DrvCommon.thy ===== *)
theory DrvCommon
  imports DbDriver
begin

text \<open>
  What the database drivers have in common: copies of statements, the choice of the next host, the loop that replaces the question marks of a statement in a buffer that grows
  as needed (by the values of an emulated statement in the MySQL and PostgreSQL drivers, by numbered placeholders in the PostgreSQL driver), and the
  relation between the states before and after an operation that leaves the data of the layer alone. The loop follows a
  \<^verbatim>\<open>goto again\<close> as an iteration of its own; it takes fuel, of which 45 more than the statement has characters is enough.
\<close>

section \<open>Statements\<close>

definition stmt_con :: "nat \<Rightarrow> 'd db_state \<Rightarrow> nat res" where
  "stmt_con s st = rbind (stmt_at s st) (\<lambda>stmt. case st_connection stmt of None \<Rightarrow> Inl Null_deref | Some c \<Rightarrow> Inr c)"

text \<open>\<^verbatim>\<open>strdup\<close>: NULL when the allocation fails.\<close>

definition d_strdup :: "string \<Rightarrow> 'd db_state \<Rightarrow> string option \<times> 'd db_state" where
  "d_strdup s st = (case d_malloc st of (ok, st) \<Rightarrow> (if ok then Some s else None, st))"

section \<open>Hosts in turn\<close>

text \<open>
  A position in a list of \<open>n\<close> elements is 0 for the list head and \<open>i + 1\<close> for the \<open>i\<close>-th element: the next position, and the next one that is not the head.
\<close>

definition next_pos :: "nat \<Rightarrow> nat \<Rightarrow> nat" where
  "next_pos n pos = (if pos < n then pos + 1 else 0)"

definition advance_pos :: "nat \<Rightarrow> nat \<Rightarrow> nat" where
  "advance_pos n pos = (let pos = next_pos n pos in if pos = 0 then next_pos n pos else pos)"

definition element_at :: "'a list \<Rightarrow> nat \<Rightarrow> 'a res" where
  "element_at xs pos = (if pos = 0 then Inl Bad_access else aread xs (pos - 1))"

section \<open>Debugging output and bound parameters\<close>

text \<open>The macro \<^verbatim>\<open>DEBUG\<close> of the Drizzle and libAttachSQL drivers.\<close>

definition DEBUG_db :: "string \<Rightarrow> 'd db_state \<Rightarrow> 'd db_state res" where
  "DEBUG_db m st = (if ds_debug st then d_log LOG_DEBUG m st else Inr st)"

definition in_quotes :: "string \<Rightarrow> string" where
  "in_quotes s = [CHR 0x22] @ s @ [CHR 0x22]"

text \<open>A number printed by \<^verbatim>\<open>%u\<close>.\<close>

definition print_u :: "nat \<Rightarrow> string" where
  "print_u n = print_nat (unat (of_nat n :: u32))"

text \<open>What glibc prints for \<^verbatim>\<open>%s\<close> and a pointer that may be NULL.\<close>

definition print_s :: "string option \<Rightarrow> string" where
  "print_s s = (case s of None \<Rightarrow> ''(null)'' | Some s \<Rightarrow> s)"

text \<open>The copy of the bindings that the Drizzle and libAttachSQL drivers keep: the old copy is released first.\<close>

definition keep_params :: "nat \<Rightarrow> db_bind_t list \<Rightarrow> u32 \<Rightarrow> 'd dop" where
  "keep_params s params len st =
     (case d_malloc st of (ok, st) \<Rightarrow>
        if \<not> ok then rbind (upd_stmt s (\<lambda>stmt. stmt\<lparr>st_bound_param := None\<rparr>) st) (\<lambda>st. Inr (1, st))
        else if length params < unat len then Inl Out_of_bounds
        else
          rbind (upd_stmt s (\<lambda>stmt. stmt\<lparr>st_bound_param := Some (take (unat len) params), st_bound_param_len := len\<rparr>) st)
            (\<lambda>st. Inr (0, st)))"

section \<open>Replacing the question marks\<close>

text \<open>
  \<open>put v n\<close> writes what replaces the question mark number \<open>v\<close> to the \<open>n\<close> bytes that are left: the result is negative when there is no room.
  \<open>qs\<close> is the rest of the statement, \<open>out\<close> the \<open>j\<close> characters written so far, \<open>vcnt\<close> the number of question marks replaced,
  \<open>buflen\<close> the size of the buffer (0 while it is NULL). The result \<open>None\<close> is an allocation failure.
\<close>

fun fill_loop ::
  "(nat \<Rightarrow> int \<Rightarrow> (int \<times> string) res) \<Rightarrow> nat \<Rightarrow> nat \<Rightarrow> string \<Rightarrow> string \<Rightarrow> u32 \<Rightarrow> bool \<Rightarrow> mem \<Rightarrow> ((string \<times> nat) option \<times> mem) res" where
  "fill_loop put fuel vcnt [] out buflen need_realloc m =
     (if buflen = 0 then Inl Null_deref
      else if length out < unat buflen then Inr (Some (out, vcnt), m) else Inl Out_of_bounds)"
| "fill_loop put 0 vcnt (c # qs) out buflen need_realloc m = Inl Still_running"
| "fill_loop put (Suc fuel) vcnt (c # qs) out buflen need_realloc m =
     (let j = of_nat (length out) :: u32;
          grow = j + 1 \<ge> buflen \<or> need_realloc;
          buflen = (if grow then if buflen > 0 then buflen * 2 else 256 else buflen)
      in case (if grow then malloc m else (True, m)) of (ok, m) \<Rightarrow>
           if \<not> ok then Inr (None, m)
           else if c \<noteq> CHR ''?''
           then (if length out < unat buflen then fill_loop put fuel vcnt qs (out @ [c]) buflen False m else Inl Out_of_bounds)
           else
             rbind (put vcnt (sint (buflen - j))) (\<lambda>(n, text).
               if n < 0 then fill_loop put fuel vcnt (c # qs) out buflen True m
               else fill_loop put fuel (vcnt + 1) qs (out @ text) buflen False m))"

text \<open>The values of an emulated statement.\<close>

definition emulated_param :: "vars \<Rightarrow> db_bind_t list option \<Rightarrow> nat \<Rightarrow> int \<Rightarrow> (int \<times> string) res" where
  "emulated_param vars params vcnt n =
     (case params of None \<Rightarrow> Inl Null_deref | Some ps \<Rightarrow> rbind (aread ps vcnt) (\<lambda>var. db_print_value vars var n))"

definition emulate_query :: "vars \<Rightarrow> nat \<Rightarrow> db_bind_t list option \<Rightarrow> string \<Rightarrow> mem \<Rightarrow> (string option \<times> mem) res" where
  "emulate_query vars fuel params query m =
     rbind (fill_loop (emulated_param vars params) fuel 0 query [] 0 True m) (\<lambda>(r, m). Inr (map_option fst r, m))"

text \<open>The text of a statement with the parameters put in place of the question marks.\<close>

fun substitute :: "string list \<Rightarrow> string \<Rightarrow> string" where
  "substitute ts [] = []"
| "substitute ts (c # qs) =
     (if c = CHR ''?'' then (case ts of [] \<Rightarrow> [] | t # ts' \<Rightarrow> t @ substitute ts' qs) else c # substitute ts qs)"

lemma length_substitute: "length (filter (\<lambda>c. c = CHR ''?'') qs) \<le> length ts \<Longrightarrow> length qs \<le> length (substitute ts qs) + length ts"
  by (induction ts qs rule: substitute.induct) (auto split: list.splits)

lemma space_left:
  assumes "e \<le> 30" and "n < 2 ^ e"
  shows "sint ((2 ^ e :: u32) - of_nat n) = int (2 ^ e - n)"
proof -
  have le: "(2::nat) ^ e \<le> 2 ^ 30"
    using assms(1) by (intro power_increasing) simp_all
  have "(2 ^ e :: u32) - of_nat n = of_nat (2 ^ e - n)"
    using assms(2) by (simp add: of_nat_diff)
  moreover have "2 ^ e - n < 2 ^ 31"
    using le by simp
  ultimately show ?thesis
    by (simp add: signed_of_nat signed_take_bit_int_eq_self)
qed

lemma unat_power_u32: "e \<le> 30 \<Longrightarrow> unat (2 ^ e :: u32) = 2 ^ e"
  using unat_of_nat_u32 [of "2 ^ e"] power_increasing [of e 30 "2 :: nat"] by simp

lemma fill_loop_Nil:
  "length out < 2 ^ e \<Longrightarrow> e \<le> 30 \<Longrightarrow> fill_loop put fuel v [] out (2 ^ e) need m = Inr (Some (out, v), m)"
  using unat_power_u32 [of e] by (cases fuel) (auto simp flip: unat_eq_zero)

lemma needs_room: "length out < 2 ^ e \<Longrightarrow> e \<le> 30 \<Longrightarrow> (of_nat (length out) + 1 \<ge> (2 ^ e :: u32)) = (2 ^ e \<le> length out + 1)"
  using unat_power_u32 [of e] unat_of_nat_u32 [of "length out + 1"] power_increasing [of e 30 "2 :: nat"]
  by (simp add: word_le_nat_alt add.commute)

text \<open>The texts written for the question marks; a text for which there is not enough room is cut off.\<close>

definition prints :: "(nat \<Rightarrow> int \<Rightarrow> (int \<times> string) res) \<Rightarrow> string list \<Rightarrow> bool" where
  "prints put ts \<longleftrightarrow>
     (\<forall>v<length ts. \<forall>n>0. put v (int n) = Inr (if length (ts ! v) < n then int (length (ts ! v)) else - 1, snprintf_text n (ts ! v)))"

lemma fill_loop_substitutes:
  assumes "prints put ts"
  shows "length (filter (\<lambda>c. c = CHR ''?'') qs) \<le> length (drop vcnt ts) \<Longrightarrow>
     length out < 2 ^ e \<Longrightarrow> e \<le> 30 \<Longrightarrow> length out + length (substitute (drop vcnt ts) qs) + 1 < 2 ^ 30 \<Longrightarrow>
     (need \<longrightarrow> 2 ^ e \<le> length out + length (substitute (drop vcnt ts) qs)) \<Longrightarrow>
     length qs + 2 * (30 - e) + (if need then 0 else 1) \<le> fuel \<Longrightarrow>
     fill_loop put fuel vcnt qs out (2 ^ e) need [] = Inr (Some (out @ substitute (drop vcnt ts) qs, vcnt + length (filter (\<lambda>c. c = CHR ''?'') qs)), [])"
proof (induction fuel arbitrary: vcnt qs out e need)
  case 0
  then have "qs = []" by simp
  then show ?case using fill_loop_Nil 0 by simp
next
  case (Suc fuel)
  show ?case
  proof (cases qs)
    case Nil
    then show ?thesis using fill_loop_Nil Suc.prems by simp
  next
    case (Cons c cs)
    define grow where "grow \<longleftrightarrow> 2 ^ e \<le> length out + 1 \<or> need"
    define e' where "e' = (if grow then e + 1 else e)"
    let ?L = "length out + length (substitute (drop vcnt ts) qs)"
    have "grow \<Longrightarrow> (2::nat) ^ e < 2 ^ 30"
      using Suc.prems(4,5) grow_def by auto
    then have e': "e' \<le> 30" "length out < 2 ^ e'" "grow \<Longrightarrow> e < 30" "\<not> grow \<Longrightarrow> length out + 1 < 2 ^ e'"
      using Suc.prems(2,3) power_less_imp_less_exp [of "2::nat" e 30] by (auto simp: e'_def grow_def)
    have len1: "length out + 1 < 2 ^ e'"
      using e'(4) Suc.prems(2) by (cases grow) (simp_all add: e'_def)
    have fuel: "length cs + 2 * (30 - e') + 1 \<le> fuel" "length qs + 2 * (30 - e') \<le> fuel"
      using Suc.prems(6) Cons e'(3) by (cases grow; cases need; simp add: e'_def grow_def)+
    have room: "(of_nat (length out) + 1 \<ge> (2 ^ e :: u32) \<or> need) = grow" "(if grow then if (2 ^ e :: u32) > 0 then 2 ^ e * 2 else 256 else 2 ^ e) = (2 ^ e' :: u32)"
      "(if grow then malloc [] else (True, [])) = (True, [])"
      using needs_room [OF Suc.prems(2,3)] unat_power_u32 [OF Suc.prems(3)] by (auto simp: grow_def e'_def word_less_nat_alt)
    have step: "fill_loop put (Suc fuel) vcnt qs out (2 ^ e) need [] =
       (if c \<noteq> CHR ''?'' then fill_loop put fuel vcnt cs (out @ [c]) (2 ^ e') False []
        else rbind (put vcnt (int (2 ^ e' - length out))) (\<lambda>(n, text).
               if n < 0 then fill_loop put fuel vcnt qs out (2 ^ e') True []
               else fill_loop put fuel (vcnt + 1) cs (out @ text) (2 ^ e') False []))"
      unfolding Cons fill_loop.simps Let_def room if_distrib [of "\<lambda>m. case m of (ok, m) \<Rightarrow> f ok m" for f]
      using e'(1,2) unat_power_u32 [OF e'(1)] space_left [OF e'(1,2)] by (simp add: Cons)
    show ?thesis
    proof (cases "c = CHR ''?''")
      case False
      have "length (substitute (drop vcnt ts) qs) = Suc (length (substitute (drop vcnt ts) cs))"
        using Cons False by simp
      then show ?thesis
        unfolding step using Suc.IH [of cs vcnt "out @ [c]" e' False] Suc.prems(1,4) e'(1) len1 fuel(1) Cons False by simp
    next
      case True
      then obtain t ts' where t: "drop vcnt ts = t # ts'"
        using Suc.prems(1) Cons by (cases "drop vcnt ts") auto
      then have v: "vcnt < length ts" "ts ! vcnt = t" "drop (Suc vcnt) ts = ts'"
        by (metis drop_eq_Nil list.discI not_less, metis drop_eq_Nil hd_drop_conv_nth list.discI list.sel(1) not_less,
            metis drop_Suc list.sel(3) tl_drop)
      have sub: "substitute (drop vcnt ts) qs = t @ substitute ts' cs"
        using Cons True t by simp
      have pv: "put vcnt (int (2 ^ e' - length out)) =
          Inr (if length t < 2 ^ e' - length out then int (length t) else - 1, snprintf_text (2 ^ e' - length out) t)"
        using assms v(1,2) e'(2) by (simp add: prints_def del: of_nat_diff)
      show ?thesis
      proof (cases "length t < 2 ^ e' - length out")
        case fits: True
        have "fill_loop put fuel (vcnt + 1) cs (out @ t) (2 ^ e') False [] = Inr (Some ((out @ t) @ substitute ts' cs, vcnt + 1 + length (filter (\<lambda>c. c = CHR ''?'') cs)), [])"
          using Suc.IH [of cs "vcnt + 1" "out @ t" e' False] Suc.prems(1,4) e'(1) fuel(1) Cons True t v sub fits by simp
        then show ?thesis
          unfolding step pv using True fits sub Cons by (simp add: snprintf_text_def del: of_nat_diff)
      next
        case False
        have "fill_loop put fuel vcnt qs out (2 ^ e') True [] = Inr (Some (out @ substitute (drop vcnt ts) qs, vcnt + length (filter (\<lambda>c. c = CHR ''?'') qs)), [])"
          using Suc.IH [of qs vcnt out e' True] Suc.prems(1,4) e'(1,2) fuel(2) sub False by simp
        then show ?thesis
          unfolding step pv using True False by (simp del: of_nat_diff)
      qed
    qed
  qed
qed

lemma fill_loop_text:
  assumes "prints put ts" and "length (filter (\<lambda>c. c = CHR ''?'') query) \<le> length ts"
    and "query \<noteq> []" and "length (substitute ts query) + 1 < 2 ^ 30" and "length query + 45 \<le> fuel"
  shows "fill_loop put fuel 0 query [] 0 True [] = Inr (Some (substitute ts query, length (filter (\<lambda>c. c = CHR ''?'') query)), [])"
proof -
  obtain n where fuel: "fuel = Suc n" "length query + 44 \<le> n"
    using assms(5) by (cases fuel) auto
  obtain c cs where q: "query = c # cs"
    using assms(3) by (cases query) auto
  have no_room: "\<not> (256 :: u32) \<le> 1"
    by (simp add: word_le_nat_alt)
  have first: "fill_loop put fuel 0 query [] 0 True [] = fill_loop put (Suc n) 0 query [] 256 False []"
    using no_room by (simp add: fuel q Let_def)
  show ?thesis
    unfolding first using fill_loop_substitutes [OF assms(1), of query 0 "[]" 8 False "Suc n"] assms(2,4) fuel(2) by simp
qed

lemma emulate_query_text:
  assumes "map (bind_text vars) ps = map Inr ts" and "length (filter (\<lambda>c. c = CHR ''?'') query) \<le> length ts"
    and "query \<noteq> []" and "length (substitute ts query) + 1 < 2 ^ 30" and "length query + 45 \<le> fuel"
  shows "emulate_query vars fuel (Some ps) query [] = Inr (Some (substitute ts query), [])"
proof -
  have len: "length ps = length ts"
    using assms(1) by (metis length_map)
  have "emulated_param vars (Some ps) v (int n) = Inr (if length (ts ! v) < n then int (length (ts ! v)) else - 1, snprintf_text n (ts ! v))"
    if "v < length ts" "0 < n" for v n
  proof -
    have "bind_text vars (ps ! v) = Inr (ts ! v)"
      using that(1) len by (metis (mono_tags) assms(1) nth_map)
    then show ?thesis
      using that len by (simp add: emulated_param_def db_print_value_def)
  qed
  then have "prints (emulated_param vars (Some ps)) ts"
    by (simp add: prints_def)
  then show ?thesis
    using fill_loop_text [OF _ assms(2-5)] by (simp add: emulate_query_def)
qed

section \<open>What a driver leaves alone\<close>

definition layer_same :: "'d db_state \<Rightarrow> 'd db_state \<Rightarrow> bool" where
  "layer_same st st' \<longleftrightarrow> ds_conns st' = ds_conns st \<and> ds_stmts st' = ds_stmts st \<and> ds_rows st' = ds_rows st \<and>
     ds_vars st' = ds_vars st \<and> ds_next st' = ds_next st \<and> thread_stats st' = thread_stats st"

lemma layer_same_refl [simp]: "layer_same st st"
  by (simp add: layer_same_def)

lemma layer_same_trans: "layer_same a b \<Longrightarrow> layer_same b c \<Longrightarrow> layer_same a c"
  by (simp add: layer_same_def)

lemma layer_same_pg [simp]:
  "layer_same (st\<lparr>ds_pg := pg\<rparr>) st' = layer_same st st'" "layer_same st (st'\<lparr>ds_pg := pg\<rparr>) = layer_same st st'"
  by (simp_all add: layer_same_def)

lemma d_log_same: "d_log p m st = Inr st' \<Longrightarrow> layer_same st st'"
  by (auto simp: d_log_def rbind_eq_Inr)

lemma DEBUG_db_same: "DEBUG_db m st = Inr st' \<Longrightarrow> layer_same st st'"
  by (auto simp: DEBUG_db_def dest: d_log_same split: if_splits)

lemma DEBUG_db_ready:
  assumes "logger_ready (pg_w (ds_pg st))"
  shows "\<exists>w'. DEBUG_db m st = Inr (st\<lparr>ds_pg := (ds_pg st)\<lparr>pg_w := w'\<rparr>\<rparr>) \<and> logger_ready w'"
proof (cases "ds_debug st")
  case True
  then show ?thesis using d_log_ready [OF assms] by (auto simp: DEBUG_db_def)
next
  case False
  then show ?thesis
    using assms by (intro exI [of _ "pg_w (ds_pg st)"]) (simp add: DEBUG_db_def)
qed

end
