(* ===== verification/DrvMysql.thy ===== *)
theory DrvMysql
  imports DrvCommon
begin

text \<open>
  The MySQL driver (\<^verbatim>\<open>drivers/mysql/drv_mysql.c\<close>), for a client library with prepared statements (version 5.0 or later). The client library is not
  part of the sources: its functions and error numbers are an argument \<open>api\<close>, its state \<open>'m\<close> is part of the driver's state. The number of
  iterations that are followed of the loops that wait for the server (reconnecting, fetching) and of the loop
  that builds an emulated query is the argument \<open>fuel\<close>; a loop that has not ended by then is the fault \<open>Still_running\<close>.
\<close>

section \<open>Data\<close>

record mysql_drv_args_t =
  a_hosts :: "string list"
  a_port :: u32
  a_sockets :: "string list option"
  a_user :: "string option"
  a_password :: "string option"
  a_db :: "string option"
  a_use_ssl :: bool
  a_use_compression :: bool
  a_debug :: bool
  a_ignored_errors :: "string list option"
  a_dry_run :: bool

record db_mysql_conn_t =
  mc_mysql :: "nat option"
  mc_host :: "string option"
  mc_user :: "string option"
  mc_password :: "string option"
  mc_db :: "string option"
  mc_port :: u32
  mc_socket :: "string option"

datatype my_type =
    MYSQL_TYPE_TINY
  | MYSQL_TYPE_SHORT
  | MYSQL_TYPE_LONG
  | MYSQL_TYPE_LONGLONG
  | MYSQL_TYPE_FLOAT
  | MYSQL_TYPE_DOUBLE
  | MYSQL_TYPE_DATETIME
  | MYSQL_TYPE_TIMESTAMP
  | MYSQL_TYPE_STRING
  | MYSQL_TYPE_VAR_STRING

definition db_mysql_bind_map :: "(db_bind_type_t \<times> my_type) list" where
  "db_mysql_bind_map =
     [(DB_TYPE_TINYINT, MYSQL_TYPE_TINY), (DB_TYPE_SMALLINT, MYSQL_TYPE_SHORT), (DB_TYPE_INT, MYSQL_TYPE_LONG),
      (DB_TYPE_BIGINT, MYSQL_TYPE_LONGLONG), (DB_TYPE_FLOAT, MYSQL_TYPE_FLOAT), (DB_TYPE_DOUBLE, MYSQL_TYPE_DOUBLE),
      (DB_TYPE_DATETIME, MYSQL_TYPE_DATETIME), (DB_TYPE_TIMESTAMP, MYSQL_TYPE_TIMESTAMP),
      (DB_TYPE_CHAR, MYSQL_TYPE_STRING), (DB_TYPE_VARCHAR, MYSQL_TYPE_VAR_STRING)]"

text \<open>The type number passed to the library, \<open>None\<close> for -1.\<close>

definition get_mysql_bind_type :: "db_bind_type_t \<Rightarrow> my_type option" where
  "get_mysql_bind_type ty = map_option snd (find (\<lambda>m. fst m = ty) db_mysql_bind_map)"

record mysql_bind =
  bi_type :: "my_type option"
  bi_buffer :: "nat option"
  bi_buffer_length :: u64
  bi_length :: "nat option"
  bi_is_null :: "nat option"

definition to_mysql_bind :: "db_bind_t \<Rightarrow> mysql_bind" where
  "to_mysql_bind b =
     \<lparr>bi_type = get_mysql_bind_type (b_type b), bi_buffer = b_buffer b, bi_buffer_length = b_max_len b, bi_length = b_data_len b,
      bi_is_null = b_is_null b\<rparr>"

section \<open>The client library\<close>

text \<open>
  A handle is an address; a result pointer is \<open>None\<close> for NULL. \<open>my_ptr\<close> is the text of a pointer in a debug
  message, \<open>my_others\<close> what happens while the thread sleeps: whether another thread sets the global error.
\<close>

record 'm mysql_conn_api =
  my_library_init :: "'m \<Rightarrow> 'm"
  my_library_end :: "'m \<Rightarrow> 'm"
  my_init :: "nat \<Rightarrow> 'm \<Rightarrow> 'm"
  my_ssl_set :: "nat \<Rightarrow> 'm \<Rightarrow> 'm"
  my_compress :: "nat \<Rightarrow> 'm \<Rightarrow> 'm"
  my_real_connect :: "nat \<Rightarrow> db_mysql_conn_t \<Rightarrow> 'm \<Rightarrow> bool \<times> 'm"
  my_close :: "nat \<Rightarrow> 'm \<Rightarrow> 'm"
  my_errno :: "nat \<Rightarrow> 'm \<Rightarrow> u32"
  my_error :: "nat \<Rightarrow> 'm \<Rightarrow> string"
  my_real_query :: "nat \<Rightarrow> string \<Rightarrow> 'm \<Rightarrow> int \<times> 'm"
  my_others :: "'m \<Rightarrow> bool \<times> 'm"
  my_ptr :: "nat option \<Rightarrow> string"

record mysql_codes =
  ER_UNSUPPORTED_PS :: u32
  CR_SERVER_LOST :: u32
  CR_SERVER_GONE_ERROR :: u32
  CR_TCP_CONNECTION :: u32
  CR_SERVER_LOST_EXTENDED :: u32

record 'm mysql_stmt_api =
  ms_init :: "nat \<Rightarrow> 'm \<Rightarrow> nat option \<times> 'm"
  ms_prepare :: "nat \<Rightarrow> string \<Rightarrow> 'm \<Rightarrow> int \<times> 'm"
  ms_param_count :: "nat \<Rightarrow> 'm \<Rightarrow> u64"
  ms_bind_param :: "nat \<Rightarrow> mysql_bind list \<Rightarrow> 'm \<Rightarrow> int \<times> 'm"
  ms_bind_result :: "nat \<Rightarrow> mysql_bind list \<Rightarrow> 'm \<Rightarrow> int \<times> 'm"
  ms_execute :: "nat \<Rightarrow> vars \<Rightarrow> 'm \<Rightarrow> int \<times> 'm"
  ms_store_result :: "nat \<Rightarrow> 'm \<Rightarrow> int \<times> 'm"
  ms_field_count :: "nat \<Rightarrow> 'm \<Rightarrow> u32"
  ms_num_rows :: "nat \<Rightarrow> 'm \<Rightarrow> u64"
  ms_fetch :: "nat \<Rightarrow> 'm \<Rightarrow> int \<times> 'm"
  ms_free_result :: "nat option \<Rightarrow> 'm \<Rightarrow> int \<times> 'm"
  ms_close :: "nat \<Rightarrow> 'm \<Rightarrow> int \<times> 'm"

record 'm mysql_res_api =
  mr_store_result :: "nat \<Rightarrow> 'm \<Rightarrow> nat option \<times> 'm"
  mr_field_count :: "nat \<Rightarrow> 'm \<Rightarrow> u32"
  mr_num_rows :: "nat \<Rightarrow> 'm \<Rightarrow> u64"
  mr_fetch_row :: "nat option \<Rightarrow> 'm \<Rightarrow> nat option \<times> 'm"
  mr_free_result :: "nat \<Rightarrow> 'm \<Rightarrow> 'm"

record 'm mysql_api =
  api_conn :: "'m mysql_conn_api"
  api_codes :: mysql_codes
  api_stmt :: "'m mysql_stmt_api"
  api_res :: "'m mysql_res_api"

text \<open>
  The variables of the driver. A position in the list of hosts or sockets is 0 for the list head and \<open>i + 1\<close> for the
  \<open>i\<close>-th element.
\<close>

record 'm mysql_drv =
  m_args :: mysql_drv_args_t
  m_use_ps :: bool
  mysql_drv_caps :: drv_caps_t
  m_hosts_pos :: nat
  m_sockets_pos :: nat
  m_conns :: "nat \<Rightarrow> db_mysql_conn_t option"
  m_gresults :: "db_bind_t list"
  m_lib :: 'm

type_synonym 'm mst = "'m mysql_drv db_state"

section \<open>Access to the driver's state\<close>

abbreviation margs :: "'m mst \<Rightarrow> mysql_drv_args_t" where "margs st \<equiv> m_args (ds_drv st)"
abbreviation mlib :: "'m mst \<Rightarrow> 'm" where "mlib st \<equiv> m_lib (ds_drv st)"

definition upd_m :: "('m mysql_drv \<Rightarrow> 'm mysql_drv) \<Rightarrow> 'm mst \<Rightarrow> 'm mst" where
  "upd_m f st = st\<lparr>ds_drv := f (ds_drv st)\<rparr>"

text \<open>A call of the library.\<close>

definition lib_call :: "('m \<Rightarrow> 'a \<times> 'm) \<Rightarrow> 'm mst \<Rightarrow> 'a \<times> 'm mst" where
  "lib_call f st = (case f (mlib st) of (x, m) \<Rightarrow> (x, upd_m (\<lambda>d. d\<lparr>m_lib := m\<rparr>) st))"

definition lib_do :: "('m \<Rightarrow> 'm) \<Rightarrow> 'm mst \<Rightarrow> 'm mst" where
  "lib_do f st = upd_m (\<lambda>d. d\<lparr>m_lib := f (m_lib d)\<rparr>) st"

definition DEBUG :: "string \<Rightarrow> 'm mst \<Rightarrow> 'm mst res" where
  "DEBUG m st = (if a_debug (margs st) then d_log LOG_DEBUG m st else Inr st)"

definition SAFESTR :: "string option \<Rightarrow> string" where
  "SAFESTR s = (case s of None \<Rightarrow> ''(null)'' | Some s \<Rightarrow> s)"

abbreviation ptr_text :: "'m mysql_api \<Rightarrow> nat option \<Rightarrow> string" where "ptr_text api \<equiv> my_ptr (api_conn api)"

text \<open>The driver's data of a connection, through the pointer in the connection.\<close>

definition mysql_con_at :: "nat \<Rightarrow> 'm mst \<Rightarrow> db_mysql_conn_t res" where
  "mysql_con_at c st =
     rbind (con_at c st) (\<lambda>con. case con_ptr con of
       None \<Rightarrow> Inl Null_deref
     | Some a \<Rightarrow> (case m_conns (ds_drv st) a of None \<Rightarrow> Inl Bad_access | Some mc \<Rightarrow> Inr mc))"

definition mysql_error_text :: "'m mysql_api \<Rightarrow> nat \<Rightarrow> 'm mst \<Rightarrow> string" where
  "mysql_error_text api h st = my_error (api_conn api) h (mlib st)"

definition mysql_errno_num :: "'m mysql_api \<Rightarrow> nat \<Rightarrow> 'm mst \<Rightarrow> u32" where
  "mysql_errno_num api h st = my_errno (api_conn api) h (mlib st)"

section \<open>Initialisation\<close>

definition mysql_drv_args :: "sb_arg_t list" where
  "mysql_drv_args =
     [mk_arg ''mysql-host'' ''MySQL server host'' SB_ARG_TYPE_LIST (Some ''localhost''),
      mk_arg ''mysql-port'' ''MySQL server port'' SB_ARG_TYPE_INT (Some ''3306''),
      mk_arg ''mysql-socket'' ''MySQL socket'' SB_ARG_TYPE_LIST None,
      mk_arg ''mysql-user'' ''MySQL user'' SB_ARG_TYPE_STRING (Some ''sbtest''),
      mk_arg ''mysql-password'' ''MySQL password'' SB_ARG_TYPE_STRING (Some []),
      mk_arg ''mysql-db'' ''MySQL database name'' SB_ARG_TYPE_STRING (Some ''sbtest''),
      mk_arg ''mysql-table-engine'' ''storage engine to use for the test table {myisam,innodb,bdb,heap,ndbcluster,federated}'' SB_ARG_TYPE_STRING (Some ''innodb''),
      mk_arg ''mysql-engine-trx'' ''whether storage engine used is transactional or not {yes,no,auto}'' SB_ARG_TYPE_STRING (Some ''auto''),
      mk_arg ''mysql-ssl'' ''use SSL connections, if available in the client library'' SB_ARG_TYPE_FLAG (Some ''off''),
      mk_arg ''mysql-compression'' ''use compression, if available in the client library'' SB_ARG_TYPE_FLAG (Some ''off''),
      mk_arg ''myisam-max-rows'' ''max-rows parameter for MyISAM tables'' SB_ARG_TYPE_INT (Some ''1000000''),
      mk_arg ''mysql-debug'' ''dump all client library calls'' SB_ARG_TYPE_FLAG (Some ''off''),
      mk_arg ''mysql-ignore-errors'' (''list of errors to ignore, or '' @ in_quotes ''all'') SB_ARG_TYPE_LIST (Some ''1213,1020,1205''),
      mk_arg ''mysql-dry-run'' ''Dry run, pretent that all MySQL client API calls are successful without executing them'' SB_ARG_TYPE_FLAG (Some ''off'')]"

definition mysql_caps :: drv_caps_t where
  "mysql_caps = \<lparr>multi_rows_insert = True, prepared_statements = False, auto_increment = True, needs_commit = False,
                 serial = False, unsigned_int = True\<rparr>"

definition mysql_drv_init :: "'m mysql_api \<Rightarrow> 'm mysql_drv dop" where
  "mysql_drv_init api st =
     (let opts = pg_opts (ds_pg st); vals = map_option (map val_data) in
      case vals (sb_get_value_list opts ''mysql-host'') of
        None \<Rightarrow> Inl Null_deref
      | Some [] \<Rightarrow> rbind (d_log LOG_FATAL ''No MySQL hosts specified, aborting'' st) (\<lambda>st. Inr (1, st))
      | Some hosts \<Rightarrow>
          rbind (sb_get_value_int opts ''mysql-port'') (\<lambda>port.
            let args = \<lparr>a_hosts = hosts, a_port = word_of_int port, a_sockets = vals (sb_get_value_list opts ''mysql-socket''),
                        a_user = sb_get_value_string opts ''mysql-user'', a_password = sb_get_value_string opts ''mysql-password'',
                        a_db = sb_get_value_string opts ''mysql-db'', a_use_ssl = sb_get_value_flag opts ''mysql-ssl'',
                        a_use_compression = sb_get_value_flag opts ''mysql-compression'',
                        a_debug = sb_get_value_flag opts ''mysql-debug'',
                        a_ignored_errors = vals (sb_get_value_list opts ''mysql-ignore-errors''),
                        a_dry_run = sb_get_value_flag opts ''mysql-dry-run''\<rparr>;
                st = upd_m (\<lambda>d. d\<lparr>m_args := args, m_hosts_pos := 0, m_sockets_pos := 0,
                       mysql_drv_caps := (mysql_drv_caps d)\<lparr>prepared_statements := True\<rparr>,
                       m_use_ps := (ds_ps_mode st \<noteq> DB_PS_MODE_DISABLE)\<rparr>) st;
                st = (if a_debug args
                      then st\<lparr>ds_pg := upd_g (\<lambda>g. g\<lparr>g_verbosity := word_of_int (priority_num LOG_DEBUG)\<rparr>) (ds_pg st)\<rparr> else st)
            in rbind (DEBUG (''mysql_library_init(0, '' @ ptr_text api None @ '', '' @ ptr_text api None @ '')'') st)
                 (\<lambda>st. Inr (0, lib_do (my_library_init (api_conn api)) st))))"

definition mysql_drv_describe :: "'m mst \<Rightarrow> ((int \<times> drv_caps_t) \<times> 'm mst) res" where
  "mysql_drv_describe st = Inr ((0, mysql_drv_caps (ds_drv st)), st)"

section \<open>Connections\<close>

text \<open>The result is True when the connection failed.\<close>

definition mysql_drv_real_connect :: "'m mysql_api \<Rightarrow> db_mysql_conn_t \<Rightarrow> 'm mst \<Rightarrow> (bool \<times> 'm mst) res" where
  "mysql_drv_real_connect api mc st =
     (case mc_mysql mc of
        None \<Rightarrow> Inl Null_deref
      | Some h \<Rightarrow>
          rbind (if a_use_ssl (margs st)
                 then rbind (DEBUG (''mysql_ssl_set('' @ ptr_text api (Some h) @ '','' @ in_quotes ''client-key.pem'' @ '', ''
                               @ in_quotes ''client-cert.pem'' @ '', '' @ in_quotes ''cacert.pem'' @ '', NULL, NULL)'') st)
                        (\<lambda>st. Inr (lib_do (my_ssl_set (api_conn api) h) st))
                 else Inr st) (\<lambda>st.
            let st = (if a_use_compression (margs st) then lib_do (my_compress (api_conn api) h) st else st) in
            rbind (DEBUG (''mysql_real_connect('' @ ptr_text api (Some h) @ '', '' @ in_quotes (SAFESTR (mc_host mc)) @ '', ''
                     @ in_quotes (SAFESTR (mc_user mc)) @ '', '' @ in_quotes (SAFESTR (mc_password mc)) @ '', ''
                     @ in_quotes (SAFESTR (mc_db mc)) @ '', '' @ print_nat (unat (mc_port mc)) @ '', ''
                     @ in_quotes (SAFESTR (mc_socket mc)) @ '', CLIENT_MULTI_STATEMENTS)'') st) (\<lambda>st.
              case lib_call (my_real_connect (api_conn api) h mc) st of (ok, st) \<Rightarrow> Inr (\<not> ok, st))))"

text \<open>The host and the socket of the next connection, chosen in turn.\<close>

definition choose_host :: "'m mst \<Rightarrow> ((string option \<times> string option) \<times> 'm mst) res" where
  "choose_host st =
     (case a_sockets (margs st) of
        None \<Rightarrow> Inl Null_deref
      | Some [] \<Rightarrow>
          (let hosts = a_hosts (margs st); pos = advance_pos (length hosts) (m_hosts_pos (ds_drv st)) in
           rbind (element_at hosts pos) (\<lambda>h. Inr ((Some h, None), upd_m (\<lambda>d. d\<lparr>m_hosts_pos := pos\<rparr>) st)))
      | Some sockets \<Rightarrow>
          (let pos = advance_pos (length sockets) (m_sockets_pos (ds_drv st)) in
           rbind (element_at sockets pos) (\<lambda>s. Inr ((Some ''localhost'', Some s), upd_m (\<lambda>d. d\<lparr>m_sockets_pos := pos\<rparr>) st))))"

definition put_mc :: "nat \<Rightarrow> db_mysql_conn_t option \<Rightarrow> 'm mst \<Rightarrow> 'm mst" where
  "put_mc a mc st = upd_m (\<lambda>d. d\<lparr>m_conns := (m_conns d)(a := mc)\<rparr>) st"

definition mysql_drv_connect :: "'m mysql_api \<Rightarrow> nat \<Rightarrow> 'm mysql_drv dop" where
  "mysql_drv_connect api c st =
     (if a_dry_run (margs st) then Inr (0, st)
      else
        case d_malloc st of (ok1, st) \<Rightarrow>
          if \<not> ok1 then Inr (1, st)
          else
            case d_malloc st of (ok2, st) \<Rightarrow>
              if \<not> ok2 then Inr (1, st)
              else
                (let a = ds_next st; h = ds_next st + 1; st = st\<lparr>ds_next := ds_next st + 2\<rparr> in
                 rbind (DEBUG (''mysql_init('' @ ptr_text api (Some h) @ '')'') st) (\<lambda>st.
                 rbind (choose_host (lib_do (my_init (api_conn api) h) st)) (\<lambda>((host, socket), st).
                   let mc = \<lparr>mc_mysql = Some h, mc_host = host, mc_user = a_user (margs st), mc_password = a_password (margs st),
                             mc_db = a_db (margs st), mc_port = a_port (margs st), mc_socket = socket\<rparr>
                   in
                   rbind (mysql_drv_real_connect api mc st) (\<lambda>(failed, st).
                     if failed
                     then
                       rbind (d_log LOG_FATAL ''unable to connect to MySQL server, aborting...'' st) (\<lambda>st.
                       rbind (d_log LOG_FATAL (''error '' @ print_int (sint (mysql_errno_num api h st)) @ '': '' @ mysql_error_text api h st) st)
                         (\<lambda>st. Inr (1, st)))
                     else rbind (upd_con c (\<lambda>con. con\<lparr>con_ptr := Some a\<rparr>) (put_mc a (Some mc) st)) (\<lambda>st. Inr (0, st)))))))"

definition mysql_drv_disconnect :: "'m mysql_api \<Rightarrow> nat \<Rightarrow> 'm mysql_drv dop" where
  "mysql_drv_disconnect api c st =
     rbind (con_at c st) (\<lambda>con.
       if a_dry_run (margs st) then Inr (0, st)
       else
         (case con_ptr con of
            None \<Rightarrow> Inr (0, st)
          | Some a \<Rightarrow>
              rbind (mysql_con_at c st) (\<lambda>mc. case mc_mysql mc of
                None \<Rightarrow> Inr (0, st)
              | Some h \<Rightarrow>
                  rbind (DEBUG (''mysql_close('' @ ptr_text api (Some h) @ '')'') st)
                    (\<lambda>st. Inr (0, put_mc a None (lib_do (my_close (api_conn api) h) st))))))"

text \<open>
  Reconnecting: the attempts go on until one succeeds or the global error is set, which another thread may do while
  this one sleeps.
\<close>

fun reconnect_loop :: "nat \<Rightarrow> 'm mysql_api \<Rightarrow> db_mysql_conn_t \<Rightarrow> 'm mst \<Rightarrow> (db_error_t \<times> 'm mst) res" where
  "reconnect_loop 0 api mc st = Inl Still_running"
| "reconnect_loop (Suc n) api mc st =
     rbind (mysql_drv_real_connect api mc st) (\<lambda>(failed, st).
       if \<not> failed then Inr (SB_DB_ERROR_RECONNECTED, st)
       else if g_error (ds_globals st) \<noteq> 0 then Inr (SB_DB_ERROR_FAILED, st)
       else
         (case lib_call (my_others (api_conn api)) st of (err, st) \<Rightarrow>
            reconnect_loop n api mc (if err then st\<lparr>ds_pg := upd_g (\<lambda>g. g\<lparr>g_error := 1\<rparr>) (ds_pg st)\<rparr> else st)))"

definition mysql_drv_reconnect :: "nat \<Rightarrow> 'm mysql_api \<Rightarrow> nat \<Rightarrow> 'm mysql_drv eop" where
  "mysql_drv_reconnect fuel api c st =
     rbind (mysql_con_at c st) (\<lambda>mc. case mc_mysql mc of
       None \<Rightarrow> Inl Null_deref
     | Some h \<Rightarrow>
         rbind (d_log LOG_DEBUG ''Reconnecting'' st) (\<lambda>st.
         rbind (DEBUG (''mysql_close('' @ ptr_text api (Some h) @ '')'') st) (\<lambda>st.
         rbind (reconnect_loop fuel api mc (lib_do (my_close (api_conn api) h) st)) (\<lambda>(e, st).
           if e = SB_DB_ERROR_RECONNECTED then rbind (d_log LOG_DEBUG ''Reconnected'' st) (\<lambda>st. Inr (e, st)) else Inr (e, st)))))"

definition reconnect_codes :: "mysql_codes \<Rightarrow> u32 set" where
  "reconnect_codes k = {CR_SERVER_LOST k, CR_SERVER_GONE_ERROR k, CR_TCP_CONNECTION k, CR_SERVER_LOST_EXTENDED k}"

text \<open>The first entry of the list of ignored errors that matches decides.\<close>

definition ignored :: "u32 \<Rightarrow> string \<Rightarrow> bool" where
  "ignored err val \<longleftrightarrow> err = word_of_int (atoi val) \<or> val = ''all''"

definition check_error :: "nat \<Rightarrow> 'm mysql_api \<Rightarrow> nat \<Rightarrow> string \<Rightarrow> string option \<Rightarrow> 'm mysql_drv eop" where
  "check_error fuel api c func query st =
     rbind (mysql_con_at c st) (\<lambda>mc. case mc_mysql mc of
       None \<Rightarrow> Inl Null_deref
     | Some h \<Rightarrow>
         (let err = mysql_errno_num api h st in
          rbind (DEBUG (''mysql_errno('' @ ptr_text api (Some h) @ '') = '' @ print_nat (unat err)) st) (\<lambda>st.
            case a_ignored_errors (margs st) of
              None \<Rightarrow> Inl Null_deref
            | Some vals \<Rightarrow>
                if \<exists>val\<in>set vals. ignored err val
                then
                  rbind (d_log LOG_DEBUG (''Ignoring error '' @ print_nat (unat err) @ '' '' @ mysql_error_text api h st @ '', '') st) (\<lambda>st.
                    if err \<in> reconnect_codes (api_codes api) then mysql_drv_reconnect fuel api c st
                    else Inr (SB_DB_ERROR_RESTART_TRANSACTION, st))
                else
                  rbind (d_log LOG_ALERT
                      (case query of
                         Some q \<Rightarrow> func @ '' for query '' @ [CHR 0x27] @ q @ [CHR 0x27] @ '' failed: '' @ print_nat (unat err) @ '' ''
                           @ mysql_error_text api h st
                       | None \<Rightarrow> func @ '' failed: '' @ print_nat (unat err) @ '' '' @ mysql_error_text api h st) st)
                    (\<lambda>st. Inr (SB_DB_ERROR_FAILED, st)))))"

section \<open>Statements and queries\<close>

definition keep_query :: "nat \<Rightarrow> string \<Rightarrow> bool \<Rightarrow> 'm mysql_drv dop" where
  "keep_query s query emulate st =
     (case d_strdup query st of (q, st) \<Rightarrow>
        rbind (upd_stmt s (\<lambda>stmt. stmt\<lparr>st_query := q, st_emulated := st_emulated stmt \<or> emulate\<rparr>) st) (\<lambda>st. Inr (0, st)))"

definition mysql_drv_prepare :: "'m mysql_api \<Rightarrow> nat \<Rightarrow> string \<Rightarrow> 'm mysql_drv dop" where
  "mysql_drv_prepare api s query st =
     rbind (stmt_con s st) (\<lambda>c.
     rbind (mysql_con_at c st) (\<lambda>mc.
       if a_dry_run (margs st) then Inr (0, st)
       else
         (case mc_mysql mc of
            None \<Rightarrow> Inr (1, st)
          | Some h \<Rightarrow>
              if \<not> m_use_ps (ds_drv st) then keep_query s query True st
              else
                (case lib_call (ms_init (api_stmt api) h) st of (mystmt, st) \<Rightarrow>
                 rbind (DEBUG (''mysql_stmt_init('' @ ptr_text api (Some h) @ '') = '' @ ptr_text api mystmt) st) (\<lambda>st.
                   case mystmt of
                     None \<Rightarrow> rbind (d_log LOG_FATAL ''mysql_stmt_init() failed'' st) (\<lambda>st. Inr (1, st))
                   | Some ms \<Rightarrow>
                       rbind (upd_stmt s (\<lambda>stmt. stmt\<lparr>st_ptr := Some ms\<rparr>) st) (\<lambda>st.
                       rbind (DEBUG (''mysql_stmt_prepare('' @ ptr_text api (Some ms) @ '', '' @ in_quotes query @ '', ''
                                @ print_nat (length query) @ '') = '' @ ptr_text api (Some ms)) st) (\<lambda>st.
                         case lib_call (ms_prepare (api_stmt api) ms query) st of (rc, st) \<Rightarrow>
                           if rc = 0 then keep_query s query False st
                           else
                             (let err = mysql_errno_num api h st in
                              rbind (DEBUG (''mysql_errno('' @ ptr_text api (Some h) @ '') = '' @ print_nat (unat err)) st) (\<lambda>st.
                                if err = ER_UNSUPPORTED_PS (api_codes api)
                                then
                                  rbind (d_log LOG_INFO (''Failed to prepare query '' @ in_quotes query @ '' ('' @ print_int (sint err) @ '': ''
                                           @ mysql_error_text api h st @ ''), using emulation'') st)
                                    (keep_query s query True)
                                else
                                  rbind (d_log LOG_FATAL ''mysql_stmt_prepare() failed'' st) (\<lambda>st.
                                  rbind (d_log LOG_FATAL (''MySQL error: '' @ print_int (sint err) @ '' '' @ in_quotes (mysql_error_text api h st)) st) (\<lambda>st.
                                  rbind (DEBUG (''mysql_stmt_close('' @ ptr_text api (Some ms) @ '')'') st)
                                    (\<lambda>st. Inr (1, snd (lib_call (ms_close (api_stmt api) ms) st))))))))))))))"

definition mysql_drv_bind_param :: "'m mysql_api \<Rightarrow> nat \<Rightarrow> db_bind_t list \<Rightarrow> u32 \<Rightarrow> 'm mysql_drv dop" where
  "mysql_drv_bind_param api s params len st =
     rbind (stmt_con s st) (\<lambda>c.
     rbind (mysql_con_at c st) (\<lambda>mc.
     rbind (stmt_at s st) (\<lambda>stmt.
       if a_dry_run (margs st) then Inr (0, st)
       else
         (case mc_mysql mc of
            None \<Rightarrow> Inr (1, st)
          | Some h \<Rightarrow>
              if \<not> st_emulated stmt
              then
                (case st_ptr stmt of
                   None \<Rightarrow> Inr (1, st)
                 | Some ms \<Rightarrow>
                     (let n = ms_param_count (api_stmt api) ms (mlib st) in
                      rbind (DEBUG (''mysql_stmt_param_count('' @ ptr_text api (Some ms) @ '') = '' @ print_nat (unat n)) st) (\<lambda>st.
                        if n \<noteq> ucast len
                        then rbind (d_log LOG_FATAL ''Wrong number of parameters to mysql_stmt_bind_param'' st) (\<lambda>st. Inr (1, st))
                        else
                          case d_malloc st of (ok, st) \<Rightarrow>
                            if \<not> ok then Inr (1, st)
                            else if length params < unat len then Inl Out_of_bounds
                            else
                              (let b = ds_next st; st = st\<lparr>ds_next := b + 1\<rparr> in
                              case lib_call (ms_bind_param (api_stmt api) ms (map to_mysql_bind (take (unat len) params))) st of (rc, st) \<Rightarrow>
                                rbind (DEBUG (''mysql_stmt_bind_param('' @ ptr_text api (Some ms) @ '', '' @ ptr_text api (Some b) @ '') = '' @ print_int rc) st) (\<lambda>st.
                                  if rc \<noteq> 0
                                  then
                                    rbind (d_log LOG_FATAL ''mysql_stmt_bind_param() failed'' st) (\<lambda>st.
                                    rbind (d_log LOG_FATAL (''MySQL error: '' @ print_int (sint (mysql_errno_num api h st)) @ '' ''
                                             @ in_quotes (mysql_error_text api h st)) st) (\<lambda>st. Inr (1, st)))
                                  else Inr (0, st))))))
              else
                case d_malloc st of (ok, st) \<Rightarrow>
                  if \<not> ok then rbind (upd_stmt s (\<lambda>stmt. stmt\<lparr>st_bound_param := None\<rparr>) st) (\<lambda>st. Inr (1, st))
                  else if length params < unat len then Inl Out_of_bounds
                  else
                    rbind (upd_stmt s (\<lambda>stmt. stmt\<lparr>st_bound_param := Some (take (unat len) params), st_bound_param_len := len\<rparr>) st)
                      (\<lambda>st. Inr (0, st))))))"

definition mysql_drv_bind_result :: "'m mysql_api \<Rightarrow> nat \<Rightarrow> db_bind_t list \<Rightarrow> u32 \<Rightarrow> 'm mysql_drv dop" where
  "mysql_drv_bind_result api s params len st =
     rbind (stmt_con s st) (\<lambda>c.
     rbind (mysql_con_at c st) (\<lambda>mc.
     rbind (stmt_at s st) (\<lambda>stmt.
       case (mc_mysql mc, st_ptr stmt) of
         (Some h, Some ms) \<Rightarrow>
           (case d_malloc st of (ok, st) \<Rightarrow>
              if \<not> ok then Inr (1, st)
              else if length params < unat len then Inl Out_of_bounds
              else
                (let b = ds_next st; st = st\<lparr>ds_next := b + 1\<rparr> in
                 case lib_call (ms_bind_result (api_stmt api) ms (map to_mysql_bind (take (unat len) params)))
                        (upd_m (\<lambda>d. d\<lparr>m_gresults := params\<rparr>) st) of (rc, st) \<Rightarrow>
                   rbind (DEBUG (''mysql_stmt_bind_result('' @ ptr_text api (Some ms) @ '', '' @ ptr_text api (Some b) @ '') = '' @ print_int rc) st)
                     (\<lambda>st. Inr (if rc \<noteq> 0 then 1 else 0, st))))
       | _ \<Rightarrow> Inr (1, st))))"

definition mysql_drv_query :: "nat \<Rightarrow> 'm mysql_api \<Rightarrow> nat \<Rightarrow> string \<Rightarrow> nat \<Rightarrow> 'm mysql_drv eop" where
  "mysql_drv_query fuel api c query rs st =
     (if a_dry_run (margs st) then Inr (SB_DB_ERROR_NONE, st)
      else
        rbind (mysql_con_at c st) (\<lambda>mc. case mc_mysql mc of
          None \<Rightarrow> Inl Null_deref
        | Some h \<Rightarrow>
            (case lib_call (my_real_query (api_conn api) h query) st of (rc, st) \<Rightarrow>
               rbind (DEBUG (''mysql_real_query('' @ ptr_text api (Some h) @ '', '' @ in_quotes query @ '', '' @ print_nat (length query)
                        @ '') = '' @ print_nat (unat (word_of_int rc :: u32))) st) (\<lambda>st.
                 if rc \<noteq> 0 then check_error fuel api c ''mysql_drv_query()'' (Some query) st
                 else Inr (SB_DB_ERROR_NONE, st)))))"

definition mysql_drv_execute :: "nat \<Rightarrow> 'm mysql_api \<Rightarrow> nat \<Rightarrow> nat \<Rightarrow> 'm mysql_drv eop" where
  "mysql_drv_execute fuel api s rs st =
     rbind (stmt_at s st) (\<lambda>stmt.
       if a_dry_run (margs st) then Inr (SB_DB_ERROR_NONE, st)
       else if \<not> st_emulated stmt
       then
         (case st_ptr stmt of
            None \<Rightarrow>
              rbind (d_log LOG_DEBUG ''ERROR: exiting mysql_drv_execute(), uninitialized statement'' st) (\<lambda>st. Inr (SB_DB_ERROR_FAILED, st))
          | Some ms \<Rightarrow>
              (case lib_call (ms_execute (api_stmt api) ms (ds_vars st)) st of (rc, st) \<Rightarrow>
                 rbind (DEBUG (''mysql_stmt_execute('' @ ptr_text api (Some ms) @ '') = '' @ print_nat (unat (word_of_int rc :: u32))) st) (\<lambda>st.
                   if rc \<noteq> 0
                   then rbind (stmt_con s st) (\<lambda>c. check_error fuel api c ''mysql_stmt_execute()'' (st_query stmt) st)
                   else Inr (SB_DB_ERROR_NONE, st))))
       else
         (case st_query stmt of
            None \<Rightarrow> Inl Null_deref
          | Some query \<Rightarrow>
              rbind (emulate_query (ds_vars st) fuel (st_bound_param stmt) query (os_mem (pg_opts (ds_pg st)))) (\<lambda>(buf, m).
                let st = st\<lparr>ds_pg := set_opts ((pg_opts (ds_pg st))\<lparr>os_mem := m\<rparr>) (ds_pg st)\<rparr> in
                case buf of
                  None \<Rightarrow>
                    rbind (d_log LOG_DEBUG ''ERROR: exiting mysql_drv_execute(), memory allocation failure'' st)
                      (\<lambda>st. Inr (SB_DB_ERROR_FAILED, st))
                | Some text \<Rightarrow>
                    rbind (stmt_con s st) (\<lambda>c.
                    rbind (mysql_drv_query fuel api c text rs st) (\<lambda>(e, st).
                    rbind (upd_con c (\<lambda>con. con\<lparr>con_errno := e\<rparr>) st) (\<lambda>st.
                      if e \<noteq> SB_DB_ERROR_NONE
                      then rbind (d_log LOG_DEBUG ''ERROR: exiting mysql_drv_execute(), database error'' st) (\<lambda>st. Inr (e, st))
                      else Inr (SB_DB_ERROR_NONE, st)))))))"

section \<open>Results\<close>

definition mysql_drv_fetch :: "nat \<Rightarrow> 'm mysql_drv dop" where
  "mysql_drv_fetch rs st = Inr (1, st)"

definition rs_con :: "nat \<Rightarrow> 'm mst \<Rightarrow> nat res" where
  "rs_con rs st = rbind (con_at rs st) (\<lambda>con. case rs_connection (con_rs con) of None \<Rightarrow> Inl Null_deref | Some c \<Rightarrow> Inr c)"

definition mysql_drv_fetch_row :: "'m mysql_api \<Rightarrow> nat \<Rightarrow> nat \<Rightarrow> 'm mysql_drv dop" where
  "mysql_drv_fetch_row api rs row st =
     rbind (rs_con rs st) (\<lambda>c.
     rbind (con_at rs st) (\<lambda>con.
     let res = rs_ptr (con_rs con) in
     case lib_call (mr_fetch_row (api_res api) res) st of (r, st) \<Rightarrow>
       if ds_rows st row = None then Inl Bad_access
       else
         rbind (DEBUG (''mysql_fetch_row('' @ ptr_text api res @ '') = '' @ ptr_text api r) (st\<lparr>ds_rows := (ds_rows st)(row := Some r)\<rparr>)) (\<lambda>st.
           case r of
             Some _ \<Rightarrow> Inr (0, st)
           | None \<Rightarrow>
               rbind (mysql_con_at c st) (\<lambda>mc. case mc_mysql mc of
                 None \<Rightarrow> Inl Null_deref
               | Some h \<Rightarrow>
                   rbind (d_log LOG_FATAL (''mysql_fetch_row() failed: '' @ mysql_error_text api h st) st) (\<lambda>st. Inr (1, st))))))"

definition mysql_drv_num_rows :: "nat \<Rightarrow> 'm mst \<Rightarrow> (u64 \<times> 'm mst) res" where
  "mysql_drv_num_rows rs st =
     (if a_dry_run (margs st) then Inr (0, st) else rbind (con_at rs st) (\<lambda>con. Inr (rs_nrows (con_rs con), st)))"

text \<open>The loops that fetch all rows of a result.\<close>

fun stmt_fetch_loop :: "nat \<Rightarrow> 'm mysql_api \<Rightarrow> nat \<Rightarrow> 'm mst \<Rightarrow> 'm mst res" where
  "stmt_fetch_loop 0 api ms st = Inl Still_running"
| "stmt_fetch_loop (Suc n) api ms st =
     (case lib_call (ms_fetch (api_stmt api) ms) st of (rc, st) \<Rightarrow>
        rbind (DEBUG (''mysql_stmt_fetch('' @ ptr_text api (Some ms) @ '') = '' @ print_int (c_int rc)) st) (\<lambda>st.
          if rc = 0 then stmt_fetch_loop n api ms st else Inr st))"

fun row_fetch_loop :: "nat \<Rightarrow> 'm mysql_api \<Rightarrow> nat \<Rightarrow> 'm mst \<Rightarrow> 'm mst res" where
  "row_fetch_loop 0 api res st = Inl Still_running"
| "row_fetch_loop (Suc n) api res st =
     (case lib_call (mr_fetch_row (api_res api) (Some res)) st of (row, st) \<Rightarrow>
        (case row of
           None \<Rightarrow> Inr st
         | Some r \<Rightarrow>
             rbind (DEBUG (''mysql_fetch_row('' @ ptr_text api (Some res) @ '') = '' @ ptr_text api (Some r)) st) (row_fetch_loop n api res)))"

text \<open>The statement of a result set that is not emulated, if there is one.\<close>

definition rs_server_stmt :: "nat \<Rightarrow> 'm mst \<Rightarrow> db_stmt_t option res" where
  "rs_server_stmt rs st =
     rbind (con_at rs st) (\<lambda>con. case rs_statement (con_rs con) of
       None \<Rightarrow> Inr None
     | Some s \<Rightarrow> rbind (stmt_at s st) (\<lambda>stmt. Inr (if st_emulated stmt then None else Some stmt)))"

definition mysql_drv_store_results :: "nat \<Rightarrow> 'm mysql_api \<Rightarrow> nat \<Rightarrow> 'm mysql_drv eop" where
  "mysql_drv_store_results fuel api rs st =
     rbind (rs_con rs st) (\<lambda>c.
       if a_dry_run (margs st) then Inr (SB_DB_ERROR_NONE, st)
       else
         rbind (mysql_con_at c st) (\<lambda>mc.
         rbind (rs_server_stmt rs st) (\<lambda>server. case server of
           Some stmt \<Rightarrow>
             (case st_ptr stmt of
                None \<Rightarrow> Inr (SB_DB_ERROR_RESTART_TRANSACTION, st)
              | Some ms \<Rightarrow>
                  (case lib_call (ms_store_result (api_stmt api) ms) st of (rc, st) \<Rightarrow>
                     rbind (DEBUG (''mysql_stmt_store_result('' @ ptr_text api (Some ms) @ '') = '' @ print_int (c_int rc)) st) (\<lambda>st.
                       if rc \<noteq> 0
                       then
                         if ms_field_count (api_stmt api) ms (mlib st) = 0 then Inr (SB_DB_ERROR_NONE, st)
                         else check_error fuel api c ''mysql_stmt_store_result()'' None st
                       else
                         (let n = ms_num_rows (api_stmt api) ms (mlib st) in
                          rbind (upd_rs rs (\<lambda>r. r\<lparr>rs_nrows := n\<rparr>) st) (\<lambda>st.
                          rbind (DEBUG (''mysql_stmt_num_rows('' @ ptr_text api (Some ms) @ '') = '' @ print_d n) st) (\<lambda>st.
                          rbind (stmt_fetch_loop fuel api ms st) (\<lambda>st. Inr (SB_DB_ERROR_NONE, st))))))))
         | None \<Rightarrow>
             (case mc_mysql mc of
                None \<Rightarrow> Inr (SB_DB_ERROR_FAILED, st)
              | Some h \<Rightarrow>
                  (case lib_call (mr_store_result (api_res api) h) st of (res, st) \<Rightarrow>
                     rbind (DEBUG (''mysql_store_result('' @ ptr_text api (Some h) @ '') = '' @ ptr_text api res) st) (\<lambda>st.
                       case res of
                         None \<Rightarrow>
                           if mr_field_count (api_res api) h (mlib st) = 0 then Inr (SB_DB_ERROR_NONE, st)
                           else check_error fuel api c ''mysql_store_result()'' None st
                       | Some r \<Rightarrow>
                           (let n = mr_num_rows (api_res api) r (mlib st) in
                            rbind (upd_rs rs (\<lambda>q. q\<lparr>rs_ptr := Some r, rs_nrows := n\<rparr>) st) (\<lambda>st.
                            rbind (DEBUG (''mysql_num_rows('' @ ptr_text api (Some r) @ '') = '' @ print_nat (unat (ucast n :: u32))) st) (\<lambda>st.
                            rbind (row_fetch_loop fuel api r st) (\<lambda>st. Inr (SB_DB_ERROR_NONE, st)))))))))))"

definition mysql_drv_free_results :: "'m mysql_api \<Rightarrow> nat \<Rightarrow> 'm mysql_drv dop" where
  "mysql_drv_free_results api rs st =
     (if a_dry_run (margs st) then Inr (0, st)
      else
        rbind (rs_server_stmt rs st) (\<lambda>server. case server of
          Some stmt \<Rightarrow>
            rbind (DEBUG (''mysql_stmt_free_result('' @ ptr_text api (st_ptr stmt) @ '')'') st)
              (\<lambda>st. Inr (lib_call (ms_free_result (api_stmt api) (st_ptr stmt)) st))
        | None \<Rightarrow>
            rbind (con_at rs st) (\<lambda>con. case rs_ptr (con_rs con) of
              None \<Rightarrow> Inr (1, st)
            | Some r \<Rightarrow>
                rbind (DEBUG (''mysql_free_result('' @ ptr_text api (Some r) @ '')'') st)
                  (\<lambda>st. Inr (0, lib_do (mr_free_result (api_res api) r) st)))))"

definition mysql_drv_close :: "'m mysql_api \<Rightarrow> nat \<Rightarrow> 'm mysql_drv dop" where
  "mysql_drv_close api s st =
     (if a_dry_run (margs st) then Inr (0, st)
      else
        rbind (upd_stmt s (\<lambda>stmt. stmt\<lparr>st_query := None\<rparr>) st) (\<lambda>st.
        rbind (stmt_at s st) (\<lambda>stmt. case st_ptr stmt of
          None \<Rightarrow> Inr (1, st)
        | Some ms \<Rightarrow>
            rbind (DEBUG (''mysql_stmt_close('' @ ptr_text api (Some ms) @ '')'') st)
              (\<lambda>st. Inr (lib_call (ms_close (api_stmt api) ms) st)))))"

definition mysql_drv_done :: "'m mysql_api \<Rightarrow> 'm mysql_drv dop" where
  "mysql_drv_done api st = (if a_dry_run (margs st) then Inr (0, st) else Inr (0, lib_do (my_library_end (api_conn api)) st))"

section \<open>The driver\<close>

definition mysql_ops :: "nat \<Rightarrow> 'm mysql_api \<Rightarrow> 'm mysql_drv drv_ops_t" where
  "mysql_ops fuel api =
     \<lparr>drv_init = mysql_drv_init api, drv_describe = Some mysql_drv_describe, drv_connect = mysql_drv_connect api,
      drv_disconnect = mysql_drv_disconnect api, drv_prepare = mysql_drv_prepare api, drv_bind_param = mysql_drv_bind_param api,
      drv_bind_result = mysql_drv_bind_result api, drv_execute = mysql_drv_execute fuel api, drv_fetch = mysql_drv_fetch,
      drv_fetch_row = mysql_drv_fetch_row api, drv_num_rows = mysql_drv_num_rows, drv_free_results = mysql_drv_free_results api,
      drv_close = mysql_drv_close api, drv_query = mysql_drv_query fuel api, drv_store_results = mysql_drv_store_results fuel api,
      drv_done = mysql_drv_done api\<rparr>"

definition mysql_driver :: "nat \<Rightarrow> 'm mysql_api \<Rightarrow> 'm mysql_drv db_driver_t" where
  "mysql_driver fuel api = \<lparr>d_sname = ''mysql'', d_lname = ''MySQL driver'', d_args = Some mysql_drv_args, d_ops = mysql_ops fuel api\<rparr>"

definition register_driver_mysql :: "nat \<Rightarrow> 'm mysql_api \<Rightarrow> 'm mysql_drv db_driver_t list \<Rightarrow> 'm mysql_drv db_driver_t list" where
  "register_driver_mysql fuel api drivers = drivers @ [mysql_driver fuel api]"

section \<open>What the driver leaves alone\<close>

lemma layer_same_lib [simp]:
  "layer_same (lib_do f st) st' = layer_same st st'" "layer_same st (lib_do f st') = layer_same st st'"
  "layer_same (snd (lib_call g st)) st' = layer_same st st'" "layer_same st (snd (lib_call g st')) = layer_same st st'"
  by (simp_all add: layer_same_def lib_do_def lib_call_def upd_m_def case_prod_unfold)

lemma DEBUG_same: "DEBUG m st = Inr st' \<Longrightarrow> layer_same st st'"
  by (auto simp: DEBUG_def d_log_same split: if_splits)

lemma real_connect_same: "mysql_drv_real_connect api mc st = Inr (b, st') \<Longrightarrow> layer_same st st'"
  unfolding mysql_drv_real_connect_def Let_def case_prod_unfold
  by (auto simp: rbind_eq_Inr split: option.splits if_splits dest!: DEBUG_same intro: layer_same_trans)

lemma reconnect_loop_same: "reconnect_loop n api mc st = Inr (e, st') \<Longrightarrow> layer_same st st'"
proof (induction n arbitrary: st)
  case (Suc n)
  obtain failed st1 where c: "mysql_drv_real_connect api mc st = Inr (failed, st1)"
    using Suc.prems by (auto simp: rbind_eq_Inr)
  then have "layer_same st1 st'"
    using Suc.prems
    by (auto simp: case_prod_unfold split: if_splits dest!: Suc.IH)
  then show ?case
    using real_connect_same [OF c] layer_same_trans by blast
qed simp

lemma reconnect_same: "mysql_drv_reconnect fuel api c st = Inr (e, st') \<Longrightarrow> layer_same st st'"
  unfolding mysql_drv_reconnect_def
  by (auto simp: rbind_eq_Inr split: option.splits if_splits
      dest!: DEBUG_same d_log_same reconnect_loop_same) (meson layer_same_trans)+

lemma check_error_same:
  assumes "check_error fuel api c func q st = Inr (e, st')"
  shows "layer_same st st'"
proof -
  obtain mc h where h: "mysql_con_at c st = Inr mc" "mc_mysql mc = Some h"
    using assms by (auto simp: check_error_def rbind_eq_Inr split: option.splits)
  let ?err = "mysql_errno_num api h st"
  obtain st1 where st1: "DEBUG (''mysql_errno('' @ ptr_text api (Some h) @ '') = '' @ print_nat (unat ?err)) st = Inr st1"
    using assms h by (auto simp: check_error_def Let_def rbind_eq_Inr)
  obtain vals where vals: "a_ignored_errors (margs st1) = Some vals"
    using assms h st1 by (auto simp: check_error_def Let_def split: option.splits)
  have "layer_same st1 st'"
    using assms h st1 vals
    by (cases "\<exists>val\<in>set vals. ignored ?err val"; cases "?err \<in> reconnect_codes (api_codes api)")
      (auto simp: check_error_def Let_def rbind_eq_Inr dest!: d_log_same reconnect_same intro: layer_same_trans)
  then show ?thesis
    using DEBUG_same [OF st1] layer_same_trans by blast
qed

lemma mysql_query_same: "mysql_drv_query fuel api c q rs st = Inr (e, st') \<Longrightarrow> layer_same st st'"
  unfolding mysql_drv_query_def case_prod_unfold
  by (auto simp: rbind_eq_Inr split: option.splits if_splits dest!: DEBUG_same check_error_same) (meson layer_same_trans)+

interpretation mysql_quiet: quiet_driver "mysql_ops fuel api" for fuel api
  by unfold_locales (auto simp: mysql_ops_def layer_same_def intro: con_keptI dest!: mysql_query_same)

section \<open>A server that accepts every statement\<close>

text \<open>
  What the client library promises when the server accepts everything: \<^verbatim>\<open>mysql_real_query\<close> returns 0 and the server has received the statement.
\<close>

definition client_accepts :: "'m mysql_api \<Rightarrow> ('m \<Rightarrow> string list) \<Rightarrow> bool" where
  "client_accepts api received \<longleftrightarrow>
     (\<forall>h q m. fst (my_real_query (api_conn api) h q m) = 0 \<and> received (snd (my_real_query (api_conn api) h q m)) = received m @ [q])"

text \<open>A connection that is open, outside the dry-run mode.\<close>

definition mysql_open :: "nat \<Rightarrow> 'm mst \<Rightarrow> bool" where
  "mysql_open c st \<longleftrightarrow>
     logger_ready (pg_w (ds_pg st)) \<and> \<not> a_dry_run (margs st) \<and>
     (\<exists>con a mc h. ds_conns st c = Some con \<and> con_ptr con = Some a \<and> m_conns (ds_drv st) a = Some mc \<and> mc_mysql mc = Some h)"

definition mysql_ready :: "'m mysql_api \<Rightarrow> ('m \<Rightarrow> string list) \<Rightarrow> nat \<Rightarrow> 'm mst \<Rightarrow> bool" where
  "mysql_ready api received c st \<longleftrightarrow> client_accepts api received \<and> mysql_open c st"

lemma DEBUG_ready:
  assumes "logger_ready (pg_w (ds_pg st))"
  shows "\<exists>w'. DEBUG m st = Inr (st\<lparr>ds_pg := (ds_pg st)\<lparr>pg_w := w'\<rparr>\<rparr>) \<and> logger_ready w' \<and> w_globals w' = ds_globals st \<and>
           text_frame (pg_w (ds_pg st)) w'"
proof (cases "a_debug (margs st)")
  case True
  then show ?thesis using d_log_ready [OF assms] by (simp add: DEBUG_def)
next
  case False
  then show ?thesis
    using assms by (intro exI [of _ "pg_w (ds_pg st)"]) (simp add: DEBUG_def)
qed

lemma mysql_query_accepted:
  assumes "mysql_ready api received c st"
  shows "\<exists>st'. mysql_drv_query fuel api c q rs st = Inr (SB_DB_ERROR_NONE, st') \<and> mysql_ready api received c st' \<and>
           received (mlib st') = received (mlib st) @ [q] \<and> ds_conns st' = ds_conns st \<and> thread_stats st' = thread_stats st \<and>
           os_mem (pg_opts (ds_pg st')) = os_mem (pg_opts (ds_pg st))"
proof -
  obtain con a mc h where opn: "ds_conns st c = Some con" "con_ptr con = Some a" "m_conns (ds_drv st) a = Some mc" "mc_mysql mc = Some h"
      "logger_ready (pg_w (ds_pg st))" "\<not> a_dry_run (margs st)"
    using assms by (auto simp: mysql_ready_def mysql_open_def)
  have api: "fst (my_real_query (api_conn api) h q (mlib st)) = 0"
      "received (snd (my_real_query (api_conn api) h q (mlib st))) = received (mlib st) @ [q]"
    using assms by (auto simp: mysql_ready_def client_accepts_def)
  let ?st1 = "upd_m (\<lambda>d. d\<lparr>m_lib := snd (my_real_query (api_conn api) h q (mlib st))\<rparr>) st"
  have call: "lib_call (my_real_query (api_conn api) h q) st = (0, ?st1)"
    using api(1) by (simp add: lib_call_def case_prod_unfold)
  obtain w' where w': "DEBUG (''mysql_real_query('' @ ptr_text api (Some h) @ '', '' @ in_quotes q @ '', '' @ print_nat (length q)
                        @ '') = '' @ print_nat (unat (word_of_int 0 :: u32))) ?st1 = Inr (?st1\<lparr>ds_pg := (ds_pg ?st1)\<lparr>pg_w := w'\<rparr>\<rparr>)" "logger_ready w'"
      "os_mem (w_opts w') = os_mem (pg_opts (ds_pg st))"
    using DEBUG_ready [of ?st1] opn(5) by (auto simp: upd_m_def text_frame_def)
  let ?st2 = "?st1\<lparr>ds_pg := (ds_pg ?st1)\<lparr>pg_w := w'\<rparr>\<rparr>"
  have "mysql_drv_query fuel api c q rs st = Inr (SB_DB_ERROR_NONE, ?st2)"
    using opn call w'(1) by (simp add: mysql_drv_query_def mysql_con_at_def con_at_def)
  moreover have "mysql_open c ?st2"
    using opn w'(2) by (simp add: mysql_open_def upd_m_def)
  ultimately show ?thesis
    using assms api(2) w'(3) by (simp add: mysql_ready_def upd_m_def)
qed

interpretation mysql_accepting:
  accepting_driver "mysql_ops fuel api" "mysql_ready api received" "\<lambda>d. received (m_lib d)" "mysql_drv_caps :: 'm mysql_drv \<Rightarrow> drv_caps_t"
  for fuel and api :: "'m mysql_api" and received
proof (unfold_locales, goal_cases)
  case (1 c st con q)
  then show ?case using mysql_query_accepted [of api received c st fuel q c] by (auto simp: mysql_ops_def intro: con_keptI)
next
  case (2 c st)
  then show ?case by (simp add: mysql_ops_def mysql_drv_describe_def)
next
  case (3 c st st')
  then show ?case by (auto simp: mysql_ready_def mysql_open_def)
qed

text \<open>
  (C2) Multi-row inserts lose and reorder nothing: inserting rows one by one through the MySQL driver sends the server
  a sequence of statements, each the beginning of the statement followed by a non-empty group of rows separated by commas and each shorter than
  the packet size; the groups together are exactly the rows, in order. No buffer is overrun.
\<close>

theorem mysql_bulk_insert:
  assumes "mysql_ready api received c st" and "attached drvs (mysql_ops fuel api) c st con"
    and "os_mem (pg_opts (ds_pg st)) = []" and "\<not> needs_commit (mysql_drv_caps (ds_drv st))"
    and "cstring base" and "length base < BULK_PACKET_SIZE"
    and "\<forall>r\<in>set rows. cstring r \<and> length base + length r < BULK_PACKET_SIZE"
  shows "\<exists>st1 st2 st3 chunks. db_bulk_insert_init drvs c base st = Inr (0, st1) \<and> db_bulk_insert_rows drvs c rows st1 = Inr (0, st2) \<and>
           db_bulk_insert_done drvs c st2 = Inr st3 \<and>
           received (mlib st3) = received (mlib st) @ map (\<lambda>ch. base @ join_sep CHR '','' ch) chunks \<and>
           concat chunks = rows \<and> list_all (\<lambda>ch. ch \<noteq> [] \<and> length (base @ join_sep CHR '','' ch) < BULK_PACKET_SIZE) chunks"
proof -
  obtain st1 st2 st3 where s: "db_bulk_insert_init drvs c base st = Inr (0, st1)" "db_bulk_insert_rows drvs c rows st1 = Inr (0, st2)"
      "db_bulk_insert_done drvs c st2 = Inr st3" "received (mlib st3) = received (mlib st) @ bulk_script 0 0 base [] rows"
    using mysql_accepting.bulk_load_sends [OF assms(1-3,5-7)] assms(4) by auto
  have "list_all (\<lambda>ch. ch \<noteq> [] \<and> length (bulk_text base ch) < BULK_PACKET_SIZE) (bulk_chunks base [] rows)"
    using bulk_chunks_fit [of "[]" base rows] assms(7) by (auto simp: list_all_iff)
  then show ?thesis
    using s concat_bulk_chunks [of base "[]" rows]
    by (intro exI [of _ st1] exI [of _ st2] exI [of _ st3] exI [of _ "bulk_chunks base [] rows"]) (simp add: bulk_script_chunks bulk_text_def)
qed

definition sample_api :: "string list mysql_api" where
  "sample_api =
     \<lparr>api_conn = \<lparr>my_library_init = id, my_library_end = id, my_init = (\<lambda>_. id), my_ssl_set = (\<lambda>_. id), my_compress = (\<lambda>_. id),
        my_real_connect = (\<lambda>_ _ m. (True, m)), my_close = (\<lambda>_. id), my_errno = (\<lambda>_ _. 2013), my_error = (\<lambda>_ _. []),
        my_real_query = (\<lambda>_ q m. (0, m @ [q])), my_others = (\<lambda>m. (False, m)), my_ptr = (\<lambda>_. [])\<rparr>,
      api_codes = \<lparr>ER_UNSUPPORTED_PS = 1295, CR_SERVER_LOST = 2013, CR_SERVER_GONE_ERROR = 2006, CR_TCP_CONNECTION = 2011, CR_SERVER_LOST_EXTENDED = 2055\<rparr>,
      api_stmt = \<lparr>ms_init = (\<lambda>_ m. (Some 0, m)), ms_prepare = (\<lambda>_ q m. (0, m)), ms_param_count = (\<lambda>_ _. 0), ms_bind_param = (\<lambda>_ _ m. (0, m)),
        ms_bind_result = (\<lambda>_ _ m. (0, m)), ms_execute = (\<lambda>_ _ m. (0, m)), ms_store_result = (\<lambda>_ m. (0, m)), ms_field_count = (\<lambda>_ _. 0),
        ms_num_rows = (\<lambda>_ _. 0), ms_fetch = (\<lambda>_ m. (1, m)), ms_free_result = (\<lambda>_ m. (0, m)), ms_close = (\<lambda>_ m. (0, m))\<rparr>,
      api_res = \<lparr>mr_store_result = (\<lambda>_ m. (None, m)), mr_field_count = (\<lambda>_ _. 0), mr_num_rows = (\<lambda>_ _. 0), mr_fetch_row = (\<lambda>_ m. (None, m)),
        mr_free_result = (\<lambda>_. id)\<rparr>\<rparr>"

definition sample_margs :: mysql_drv_args_t where
  "sample_margs =
     \<lparr>a_hosts = [''alpha'', ''beta''], a_port = 3306, a_sockets = Some [], a_user = Some ''sbtest'', a_password = Some [], a_db = Some ''sbtest'',
      a_use_ssl = False, a_use_compression = False, a_debug = False, a_ignored_errors = Some [''1213'', ''2013''], a_dry_run = False\<rparr>"

definition sample_mc :: db_mysql_conn_t where
  "sample_mc = \<lparr>mc_mysql = Some 8, mc_host = Some ''alpha'', mc_user = None, mc_password = None, mc_db = None, mc_port = 3306, mc_socket = None\<rparr>"

definition sample_con :: db_conn_t where
  "sample_con = con_zero\<lparr>con_driver := Some 0, con_ptr := Some 7\<rparr>"

definition sample_mdrv :: "string list mysql_drv" where
  "sample_mdrv =
     \<lparr>m_args = sample_margs, m_use_ps = True, mysql_drv_caps = mysql_caps, m_hosts_pos = 0, m_sockets_pos = 0, m_conns = [7 \<mapsto> sample_mc],
      m_gresults = [], m_lib = []\<rparr>"

text \<open>A program with the MySQL driver, connected; the connection has the address 1.\<close>

definition sample_mysql :: "string list mst" where
  "sample_mysql = (sample_db sample_mdrv)\<lparr>ds_conns := [1 \<mapsto> sample_con], ds_next := 9\<rparr>"

definition sample_drvs :: "string list mysql_drv db_driver_t list" where
  "sample_drvs = register_driver_mysql 10 sample_api []"

lemma sample_mysql_ready:
  "mysql_ready sample_api id 1 sample_mysql" "attached sample_drvs (mysql_ops 10 sample_api) 1 sample_mysql sample_con"
  "os_mem (pg_opts (ds_pg sample_mysql)) = []" "\<not> needs_commit (mysql_drv_caps (ds_drv sample_mysql))"
  using sample_world_ready
  by (simp_all add: mysql_ready_def client_accepts_def mysql_open_def sample_api_def sample_mysql_def sample_db_def sample_mdrv_def
      sample_margs_def sample_con_def sample_mc_def attached_def sample_drvs_def register_driver_mysql_def mysql_driver_def con_zero_def
      sample_world_def sample_globals_def empty_opts_def mysql_caps_def)

lemma mysql_bulk_insert_witness:
  "\<exists>st1 st2 st3 chunks. db_bulk_insert_init sample_drvs 1 ''INSERT INTO t VALUES'' sample_mysql = Inr (0, st1) \<and>
     db_bulk_insert_rows sample_drvs 1 [''(1)'', ''(2)''] st1 = Inr (0, st2) \<and> db_bulk_insert_done sample_drvs 1 st2 = Inr st3 \<and>
     mlib st3 = map (\<lambda>ch. ''INSERT INTO t VALUES'' @ join_sep CHR '','' ch) chunks \<and> concat chunks = [''(1)'', ''(2)'']"
proof -
  have "\<forall>r\<in>set [''(1)'', ''(2)'']. cstring r \<and> length ''INSERT INTO t VALUES'' + length r < BULK_PACKET_SIZE"
    by (simp add: cstring_def BULK_PACKET_SIZE_def)
  moreover have "cstring ''INSERT INTO t VALUES''" "length ''INSERT INTO t VALUES'' < BULK_PACKET_SIZE"
    by (simp_all add: cstring_def BULK_PACKET_SIZE_def)
  moreover have "mlib sample_mysql = []"
    by (simp add: sample_mysql_def sample_db_def sample_mdrv_def)
  ultimately show ?thesis
    using mysql_bulk_insert [OF sample_mysql_ready, of "''INSERT INTO t VALUES''" "[''(1)'', ''(2)'']"] by auto
qed

text \<open>
  (C40) A long row is checked only as the first row of a packet: before any row a row that does not fit into a packet is rejected with the code 1,
  but after another row it is written beyond the end of the buffer.
\<close>

theorem mysql_bulk_overflow:
  assumes "mysql_ready api received c st" and "attached drvs (mysql_ops fuel api) c st con"
    and "os_mem (pg_opts (ds_pg st)) = []" and "cstring base" and "length base < BULK_PACKET_SIZE"
    and "cstring r0" and "length base + length r0 < BULK_PACKET_SIZE"
    and "BULK_PACKET_SIZE \<le> length base + length r" and "length r < 2 ^ 31"
  shows "\<exists>st1 st2 st3. db_bulk_insert_init drvs c base st = Inr (0, st1) \<and> db_bulk_insert_next drvs c r st1 = Inr (1, st3) \<and>
           db_bulk_insert_next drvs c r0 st1 = Inr (0, st2) \<and> db_bulk_insert_next drvs c r st2 = Inl Out_of_bounds"
proof -
  obtain st1 con1 where s1: "db_bulk_insert_init drvs c base st = Inr (0, st1)" "mysql_ready api received c st1"
      "attached drvs (mysql_ops fuel api) c st1 con1" "bulk_inv base [] 0 con1"
    using mysql_accepting.bulk_init_starts [OF assms(1-5)] by blast
  obtain st2 con2 pend cc where s2: "db_bulk_insert_next drvs c r0 st1 = Inr (0, st2)" "mysql_ready api received c st2"
      "attached drvs (mysql_ops fuel api) c st2 con2" "bulk_inv base pend cc con2" "pend \<noteq> []"
    using mysql_accepting.bulk_next_sends [OF s1(2-4) assms(6,7)] by blast
  have "db_bulk_insert_next drvs c r st2 = Inl Out_of_bounds"
    using mysql_accepting.bulk_next_overflows [OF s2(2-5) assms(8,9)] .
  moreover have "\<exists>st3. db_bulk_insert_next drvs c r st1 = Inr (1, st3)"
  proof -
    have "unat (of_nat (length base + length r + 1) :: u32) = length base + length r + 1"
      using assms(5,9) by (intro unat_of_nat_u32) (simp add: BULK_PACKET_SIZE_def)
    then have "bulk_buflen con1 < of_nat (length base + length r + 1)"
      using bulk_inv_cnt(5) [OF s1(4)] assms(8) by (simp only: word_less_nat_alt)
    then have "bulk_buflen con1 < bulk_ptr con1 + of_nat (length r) + 1" "bulk_cnt con1 = 0"
      using s1(4) by (simp_all add: bulk_inv_def bulk_text_def ac_simps)
    moreover have "logger_ready (pg_w (ds_pg st1))"
      using s1(2) by (simp add: mysql_ready_def mysql_open_def)
    ultimately show ?thesis
      using s1(3) d_log_ready [of st1 LOG_FATAL "''Query length exceeds the maximum value ('' @ print_nat (unat (bulk_buflen con1)) @ ''), aborting''"]
      by (auto simp: db_bulk_insert_next_def con_at_def attached_def Let_def)
  qed
  ultimately show ?thesis
    using s1(1) s2(1) by blast
qed

lemma mysql_bulk_overflow_witness:
  "\<exists>st1 st2 st3. db_bulk_insert_init sample_drvs 1 ''I'' sample_mysql = Inr (0, st1) \<and>
     db_bulk_insert_next sample_drvs 1 (replicate 600000 CHR ''x'') st1 = Inr (1, st3) \<and>
     db_bulk_insert_next sample_drvs 1 ''(1)'' st1 = Inr (0, st2) \<and>
     db_bulk_insert_next sample_drvs 1 (replicate 600000 CHR ''x'') st2 = Inl Out_of_bounds"
  by (rule mysql_bulk_overflow [OF sample_mysql_ready(1-3)]) (simp_all add: cstring_def BULK_PACKET_SIZE_def)

text \<open>
  (C29) Every query is accounted for exactly once: after any sequence of queries on a connection through the MySQL driver, the counters of its
  thread have grown by the numbers of reads, writes, commits and other statements for which the driver returned no error, of ignored errors, for which
  the driver asked to restart the transaction, and of reconnects the driver returned, whatever the server
  answered; a fatal error counts nowhere, and the counters of the other threads are unchanged. The caller sees a reconnect as a transaction to restart.
\<close>

theorem db_queries_accounted:
  assumes "attached drvs (mysql_ops fuel api) c st con" and "thread_stats st = Some ts" and "0 \<le> con_thread_id con"
    and "db_queries drvs c qs st = Inr (es, st')"
  shows "\<exists>os. driver_answers drvs (mysql_ops fuel api) c qs st = map Some os \<and> length os = length qs \<and> es = map seen_error os \<and>
           thread_stats st' = Some (ts[nat (con_thread_id con) :=
             (let s = ts ! nat (con_thread_id con); qes = zip qs os in
              \<lparr>read_ops = read_ops s + count_ok {DB_QUERY_TYPE_READ} qes,
               write_ops = write_ops s + count_ok {DB_QUERY_TYPE_WRITE} qes,
               other_ops = other_ops s + count_ok {DB_QUERY_TYPE_COMMIT, DB_QUERY_TYPE_OTHER} qes,
               transactions = transactions s + count_ok {DB_QUERY_TYPE_COMMIT} qes,
               errors = errors s + count_err SB_DB_ERROR_RESTART_TRANSACTION qes,
               reconnects = reconnects s + count_err SB_DB_ERROR_RECONNECTED qes\<rparr>)])"
  using mysql_quiet.db_queries_tally [OF assms] by (simp add: tally_all_counts Let_def)

lemma sample_query:
  assumes "mysql_ready sample_api id 1 st" and "attached sample_drvs (mysql_ops 10 sample_api) 1 st con"
  shows "\<exists>st' r. db_query sample_drvs 1 q st = Inr (Some 1, st') \<and> db_errno 1 st' = Inr SB_DB_ERROR_NONE \<and>
           mysql_ready sample_api id 1 st' \<and> attached sample_drvs (mysql_ops 10 sample_api) 1 st' (con\<lparr>con_rs := r, con_errno := SB_DB_ERROR_NONE\<rparr>)"
  using mysql_accepting.db_query_accepted [OF assms, of q] by (auto simp: db_errno_def con_at_def attached_def)

lemma seen_no_error: "SB_DB_ERROR_NONE = seen_error e \<longleftrightarrow> e = SB_DB_ERROR_NONE"
  by (auto simp: seen_error_def)

lemma db_queries_accounted_witness:
  "\<exists>es st'. db_queries sample_drvs 1 [''SELECT 1'', ''COMMIT''] sample_mysql = Inr (es, st') \<and> es = [SB_DB_ERROR_NONE, SB_DB_ERROR_NONE] \<and>
     driver_answers sample_drvs (mysql_ops 10 sample_api) 1 [''SELECT 1'', ''COMMIT''] sample_mysql = [Some SB_DB_ERROR_NONE, Some SB_DB_ERROR_NONE] \<and>
     thread_stats st' = Some [\<lparr>read_ops = 1, write_ops = 0, other_ops = 1, transactions = 1, errors = 0, reconnects = 0\<rparr>, stat_zero]"
proof -
  obtain st1 r1 where s1: "db_query sample_drvs 1 ''SELECT 1'' sample_mysql = Inr (Some 1, st1)" "db_errno 1 st1 = Inr SB_DB_ERROR_NONE"
      "mysql_ready sample_api id 1 st1" "attached sample_drvs (mysql_ops 10 sample_api) 1 st1 (sample_con\<lparr>con_rs := r1, con_errno := SB_DB_ERROR_NONE\<rparr>)"
    using sample_query [OF sample_mysql_ready(1,2)] by blast
  obtain st2 where s2: "db_query sample_drvs 1 ''COMMIT'' st1 = Inr (Some 1, st2)" "db_errno 1 st2 = Inr SB_DB_ERROR_NONE"
    using sample_query [OF s1(3,4)] by blast
  have run: "db_queries sample_drvs 1 [''SELECT 1'', ''COMMIT''] sample_mysql = Inr ([SB_DB_ERROR_NONE, SB_DB_ERROR_NONE], st2)"
    using s1(1,2) s2 by simp
  have two: "replicate 2 stat_zero = [stat_zero, stat_zero]" by (simp add: numeral_2_eq_2)
  have ts: "thread_stats sample_mysql = Some [stat_zero, stat_zero]" "0 \<le> con_thread_id sample_con" "con_thread_id sample_con = 0"
    by (simp_all add: two sample_mysql_def sample_db_def sample_con_def con_zero_def sample_world_def sample_globals_def)
  obtain os where os: "driver_answers sample_drvs (mysql_ops 10 sample_api) 1 [''SELECT 1'', ''COMMIT''] sample_mysql = map Some os"
      "[SB_DB_ERROR_NONE, SB_DB_ERROR_NONE] = map seen_error os"
      "thread_stats st2 = Some ([stat_zero, stat_zero][nat (con_thread_id sample_con) :=
         (let s = [stat_zero, stat_zero] ! nat (con_thread_id sample_con); qes = zip [''SELECT 1'', ''COMMIT''] os in
          \<lparr>read_ops = read_ops s + count_ok {DB_QUERY_TYPE_READ} qes,
           write_ops = write_ops s + count_ok {DB_QUERY_TYPE_WRITE} qes,
           other_ops = other_ops s + count_ok {DB_QUERY_TYPE_COMMIT, DB_QUERY_TYPE_OTHER} qes,
           transactions = transactions s + count_ok {DB_QUERY_TYPE_COMMIT} qes,
           errors = errors s + count_err SB_DB_ERROR_RESTART_TRANSACTION qes,
           reconnects = reconnects s + count_err SB_DB_ERROR_RECONNECTED qes\<rparr>)])"
    using db_queries_accounted [OF sample_mysql_ready(2) ts(1,2) run] by (elim exE conjE) (rule that, assumption+)
  have none: "os = [SB_DB_ERROR_NONE, SB_DB_ERROR_NONE]"
    using os(2) by (auto simp: seen_no_error)
  have ty: "db_get_query_type ''SELECT 1'' = DB_QUERY_TYPE_READ" "db_get_query_type ''COMMIT'' = DB_QUERY_TYPE_COMMIT"
    by code_simp+
  show ?thesis
    using run os(1,3) by (simp add: none ts(3) ty count_ok_def count_err_def stat_zero_def)
qed

section \<open>Hosts\<close>

text \<open>The hosts of successive connections.\<close>

fun choose_hosts :: "nat \<Rightarrow> 'm mst \<Rightarrow> ((string option \<times> string option) list \<times> 'm mst) res" where
  "choose_hosts 0 st = Inr ([], st)"
| "choose_hosts (Suc n) st =
     rbind (choose_host st) (\<lambda>(h, st). rbind (choose_hosts n st) (\<lambda>(hs, st). Inr (h # hs, st)))"

lemma advance_pos_mod: "0 < n \<Longrightarrow> pos \<le> n \<Longrightarrow> advance_pos n pos = pos mod n + 1"
  by (auto simp: advance_pos_def next_pos_def Let_def)

lemma choose_hosts_from:
  assumes "a_sockets (margs st) = Some []" and "a_hosts (margs st) \<noteq> []" and "m_hosts_pos (ds_drv st) = i mod length (a_hosts (margs st)) \<or>
      m_hosts_pos (ds_drv st) = length (a_hosts (margs st)) \<and> i mod length (a_hosts (margs st)) = 0"
  shows "\<exists>st'. choose_hosts n st =
           Inr (map (\<lambda>k. (Some (a_hosts (margs st) ! (k mod length (a_hosts (margs st)))), None)) [i..<i + n], st')"
  using assms
proof (induction n arbitrary: i st)
  case (Suc n)
  let ?hs = "a_hosts (margs st)" and ?p = "i mod length (a_hosts (margs st)) + 1"
  let ?st = "upd_m (\<lambda>d. d\<lparr>m_hosts_pos := ?p\<rparr>) st"
  have n0: "0 < length ?hs"
    using Suc.prems(2) by simp
  have "advance_pos (length ?hs) (m_hosts_pos (ds_drv st)) = ?p"
    using Suc.prems(3) n0 advance_pos_mod [OF n0, of "m_hosts_pos (ds_drv st)"] by fastforce
  then have h: "choose_host st = Inr ((Some (?hs ! (i mod length ?hs)), None), ?st)"
    using Suc.prems(1) n0 by (simp add: choose_host_def element_at_def Let_def)
  have "m_hosts_pos (ds_drv ?st) = Suc i mod length ?hs \<or> m_hosts_pos (ds_drv ?st) = length ?hs \<and> Suc i mod length ?hs = 0"
    using n0 by (auto simp: upd_m_def mod_Suc)
  then obtain st' where "choose_hosts n ?st = Inr (map (\<lambda>k. (Some (?hs ! (k mod length ?hs)), None)) [Suc i..<Suc i + n], st')"
    using Suc.IH [of ?st "Suc i"] Suc.prems(1,2) by (auto simp: upd_m_def)
  moreover have "[i..<i + Suc n] = i # [Suc i..<Suc i + n]"
    by (simp add: upt_conv_Cons del: upt_Suc)
  ultimately show ?case
    using h by (simp del: upt_Suc)
qed simp

text \<open>
  Connections are distributed over the hosts in turn: without sockets the \<open>k\<close>-th connection (from 0) goes to the host
  number \<open>k mod n\<close> of the \<open>n\<close> hosts of \<^verbatim>\<open>--mysql-host\<close>.
\<close>

lemma hosts_in_turn:
  assumes "a_sockets (margs st) = Some []" and "a_hosts (margs st) \<noteq> []" and "m_hosts_pos (ds_drv st) = 0"
  shows "\<exists>st'. choose_hosts n st =
           Inr (map (\<lambda>k. (Some (a_hosts (margs st) ! (k mod length (a_hosts (margs st)))), None)) [0..<n], st')"
  using choose_hosts_from [OF assms(1,2), of 0 n] assms(3) by simp

lemma hosts_in_turn_witness:
  "\<exists>st'. choose_hosts 3 sample_mysql = Inr ([(Some ''alpha'', None), (Some ''beta'', None), (Some ''alpha'', None)], st')"
  using hosts_in_turn [of sample_mysql 3]
  by (simp add: sample_mysql_def sample_db_def sample_mdrv_def sample_margs_def numeral_3_eq_3 upt_conv_Cons)

section \<open>Reconnecting\<close>

text \<open>
  The library accepts the connection within \<open>n\<close> attempts, and no other thread reports an error before that.
\<close>

fun connects_within :: "nat \<Rightarrow> 'm mysql_api \<Rightarrow> mysql_drv_args_t \<Rightarrow> nat \<Rightarrow> db_mysql_conn_t \<Rightarrow> 'm \<Rightarrow> bool" where
  "connects_within 0 api args h mc m = False"
| "connects_within (Suc n) api args h mc m =
     (let m = (if a_use_ssl args then my_ssl_set (api_conn api) h m else m);
          m = (if a_use_compression args then my_compress (api_conn api) h m else m);
          (ok, m) = my_real_connect (api_conn api) h mc m
      in ok \<or> (case my_others (api_conn api) m of (err, m) \<Rightarrow> \<not> err \<and> connects_within n api args h mc m))"

text \<open>The order in which the two parts of the state are updated does not matter.\<close>

lemma update_order: "st\<lparr>ds_drv := d, ds_pg := p\<rparr> = st\<lparr>ds_pg := p, ds_drv := d\<rparr>"
  by (cases st) simp

lemma real_connect_ready:
  assumes "mc_mysql mc = Some h" and "logger_ready (pg_w (ds_pg st))"
  shows "\<exists>w'. mysql_drv_real_connect api mc st =
           (let m = (if a_use_ssl (margs st) then my_ssl_set (api_conn api) h (mlib st) else mlib st);
                m = (if a_use_compression (margs st) then my_compress (api_conn api) h m else m);
                (ok, m) = my_real_connect (api_conn api) h mc m
            in Inr (\<not> ok, (upd_m (\<lambda>d. d\<lparr>m_lib := m\<rparr>) st)\<lparr>ds_pg := (ds_pg st)\<lparr>pg_w := w'\<rparr>\<rparr>)) \<and>
           logger_ready w' \<and> w_globals w' = ds_globals st"
proof -
  let ?ssl = "''mysql_ssl_set('' @ ptr_text api (Some h) @ '','' @ in_quotes ''client-key.pem'' @ '', ''
                 @ in_quotes ''client-cert.pem'' @ '', '' @ in_quotes ''cacert.pem'' @ '', NULL, NULL)''"
  let ?m1 = "if a_use_ssl (margs st) then my_ssl_set (api_conn api) h (mlib st) else mlib st"
  obtain w1 where s1: "(if a_use_ssl (margs st) then rbind (DEBUG ?ssl st) (\<lambda>st. Inr (lib_do (my_ssl_set (api_conn api) h) st)) else Inr st) =
      Inr ((upd_m (\<lambda>d. d\<lparr>m_lib := ?m1\<rparr>) st)\<lparr>ds_pg := (ds_pg st)\<lparr>pg_w := w1\<rparr>\<rparr>)" "logger_ready w1" "w_globals w1 = ds_globals st"
  proof (cases "a_use_ssl (margs st)")
    case True
    then show ?thesis
      using that DEBUG_ready [OF assms(2), of ?ssl] by (auto simp: lib_do_def upd_m_def update_order)
  next
    case False
    then show ?thesis
      using that [of "pg_w (ds_pg st)"] assms(2) by (simp add: upd_m_def)
  qed
  let ?m2 = "if a_use_compression (margs st) then my_compress (api_conn api) h ?m1 else ?m1"
  let ?st2 = "(upd_m (\<lambda>d. d\<lparr>m_lib := ?m2\<rparr>) st)\<lparr>ds_pg := (ds_pg st)\<lparr>pg_w := w1\<rparr>\<rparr>"
  let ?con = "''mysql_real_connect('' @ ptr_text api (Some h) @ '', '' @ in_quotes (SAFESTR (mc_host mc)) @ '', ''
                     @ in_quotes (SAFESTR (mc_user mc)) @ '', '' @ in_quotes (SAFESTR (mc_password mc)) @ '', ''
                     @ in_quotes (SAFESTR (mc_db mc)) @ '', '' @ print_nat (unat (mc_port mc)) @ '', ''
                     @ in_quotes (SAFESTR (mc_socket mc)) @ '', CLIENT_MULTI_STATEMENTS)''"
  obtain w2 where s2: "DEBUG ?con ?st2 = Inr (?st2\<lparr>ds_pg := (ds_pg ?st2)\<lparr>pg_w := w2\<rparr>\<rparr>)" "logger_ready w2" "w_globals w2 = w_globals w1"
    using DEBUG_ready [of ?st2 ?con] s1(2) by auto
  show ?thesis
    using assms(1) s1 s2
    by (intro exI [of _ w2])
      (cases "a_use_compression (margs st)"; simp add: mysql_drv_real_connect_def Let_def lib_call_def lib_do_def upd_m_def case_prod_unfold update_order)
qed

lemma reconnect_loop_connects:
  "connects_within n api (margs st) h mc (mlib st) \<Longrightarrow> n \<le> fuel \<Longrightarrow> mc_mysql mc = Some h \<Longrightarrow>
   logger_ready (pg_w (ds_pg st)) \<Longrightarrow> g_error (ds_globals st) = 0 \<Longrightarrow>
   \<exists>st'. reconnect_loop fuel api mc st = Inr (SB_DB_ERROR_RECONNECTED, st') \<and> logger_ready (pg_w (ds_pg st'))"
proof (induction n arbitrary: fuel st)
  case (Suc n)
  obtain k where k: "fuel = Suc k" "n \<le> k"
    using Suc.prems(2) by (cases fuel) auto
  let ?m1 = "if a_use_ssl (margs st) then my_ssl_set (api_conn api) h (mlib st) else mlib st"
  let ?m2 = "if a_use_compression (margs st) then my_compress (api_conn api) h ?m1 else ?m1"
  obtain ok m where c: "my_real_connect (api_conn api) h mc ?m2 = (ok, m)" by fastforce
  obtain w' where w': "mysql_drv_real_connect api mc st = Inr (\<not> ok, (upd_m (\<lambda>d. d\<lparr>m_lib := m\<rparr>) st)\<lparr>ds_pg := (ds_pg st)\<lparr>pg_w := w'\<rparr>\<rparr>)"
      "logger_ready w'" "w_globals w' = ds_globals st"
    using real_connect_ready [OF Suc.prems(3,4), of api] c by (auto simp: Let_def)
  let ?st1 = "(upd_m (\<lambda>d. d\<lparr>m_lib := m\<rparr>) st)\<lparr>ds_pg := (ds_pg st)\<lparr>pg_w := w'\<rparr>\<rparr>"
  obtain err m3 where o: "my_others (api_conn api) m = (err, m3)" by fastforce
  show ?case
  proof (cases ok)
    case True
    then show ?thesis using w' k(1) by simp
  next
    case False
    have "\<not> err" "connects_within n api (margs st) h mc m3"
      using Suc.prems(1) False c o by (auto simp: Let_def)
    moreover have "lib_call (my_others (api_conn api)) ?st1 = (err, upd_m (\<lambda>d. d\<lparr>m_lib := m3\<rparr>) ?st1)"
      using o by (simp add: lib_call_def upd_m_def)
    ultimately show ?thesis
      using Suc.IH [of "upd_m (\<lambda>d. d\<lparr>m_lib := m3\<rparr>) ?st1" k] k w' False Suc.prems(3,5)
      by (simp add: upd_m_def)
  qed
qed simp

text \<open>
  Reconnecting succeeds when the server comes back: if the client library accepts the connection within the number of attempts
  followed and no thread reports an error before that, \<^verbatim>\<open>mysql_drv_reconnect\<close> returns, with the result that the connection was re-established.
\<close>

lemma mysql_reconnects:
  assumes "mysql_open c st" and "mysql_con_at c st = Inr mc" and "mc_mysql mc = Some h" and "g_error (ds_globals st) = 0"
    and "connects_within n api (margs st) h mc (my_close (api_conn api) h (mlib st))" and "n \<le> fuel"
  shows "\<exists>st'. mysql_drv_reconnect fuel api c st = Inr (SB_DB_ERROR_RECONNECTED, st')"
proof -
  obtain w1 where s1: "d_log LOG_DEBUG ''Reconnecting'' st = Inr (st\<lparr>ds_pg := (ds_pg st)\<lparr>pg_w := w1\<rparr>\<rparr>)" "logger_ready w1"
      "w_globals w1 = ds_globals st"
    using assms(1) d_log_ready by (metis mysql_open_def)
  let ?st1 = "st\<lparr>ds_pg := (ds_pg st)\<lparr>pg_w := w1\<rparr>\<rparr>"
  obtain w2 where s2: "DEBUG (''mysql_close('' @ ptr_text api (Some h) @ '')'') ?st1 = Inr (?st1\<lparr>ds_pg := (ds_pg ?st1)\<lparr>pg_w := w2\<rparr>\<rparr>)"
      "logger_ready w2" "w_globals w2 = w_globals w1"
    using DEBUG_ready [of ?st1] s1(2) by fastforce
  let ?st2 = "lib_do (my_close (api_conn api) h) (?st1\<lparr>ds_pg := (ds_pg ?st1)\<lparr>pg_w := w2\<rparr>\<rparr>)"
  obtain st3 where s3: "reconnect_loop fuel api mc ?st2 = Inr (SB_DB_ERROR_RECONNECTED, st3)" "logger_ready (pg_w (ds_pg st3))"
    using reconnect_loop_connects [of n api ?st2 h mc fuel] assms s1(3) s2(2,3) by (auto simp: lib_do_def upd_m_def)
  show ?thesis
    using assms(2,3) s1(1) s2(1) s3 d_log_ready [OF s3(2), of LOG_DEBUG "''Reconnected''"] by (auto simp: mysql_drv_reconnect_def)
qed

lemma mysql_reconnects_witness:
  "\<exists>st'. mysql_drv_reconnect 10 sample_api 1 sample_mysql = Inr (SB_DB_ERROR_RECONNECTED, st')"
proof (rule mysql_reconnects)
  show "mysql_open 1 sample_mysql"
    using sample_mysql_ready(1) by (simp add: mysql_ready_def)
  show "mysql_con_at 1 sample_mysql = Inr sample_mc" "mc_mysql sample_mc = Some 8"
    by (simp_all add: mysql_con_at_def con_at_def sample_mysql_def sample_db_def sample_con_def con_zero_def sample_mdrv_def sample_mc_def)
  show "g_error (ds_globals sample_mysql) = 0"
    by (simp add: sample_mysql_def sample_db_def sample_world_def sample_globals_def)
  show "connects_within 1 sample_api (margs sample_mysql) 8 sample_mc (my_close (api_conn sample_api) 8 (mlib sample_mysql))"
    by (simp add: sample_api_def)
qed simp

section \<open>Faults\<close>

text \<open>
  The dry-run mode cannot prepare statements: a connection made in the dry-run mode has no data of the driver, and preparing any
  statement on it reads through the NULL pointer before the mode is looked at.
\<close>

lemma dry_run_prepare_faults:
  assumes "a_dry_run (margs st)" and "os_mem (pg_opts (ds_pg st)) = []"
    and "drvs = register_driver_mysql fuel api []"
  shows "\<exists>c st'. db_connect drvs 0 st = Inr (Some c, st') \<and> db_prepare drvs c query st' = Inl Null_deref"
proof -
  let ?c = "ds_next st" and ?con = "con_zero\<lparr>con_driver := Some 0\<rparr>"
  let ?st = "st\<lparr>ds_next := ?c + 1, ds_conns := (ds_conns st)(?c := Some ?con)\<rparr>"
  have mal: "d_malloc st = (True, st)" "d_malloc ?st = (True, ?st)"
    using assms(2) by (simp_all add: d_malloc_def)
  have "db_connect drvs 0 st = Inr (Some ?c, ?st)"
    using assms(1,3) mal(1)
    by (simp add: db_connect_def Let_def register_driver_mysql_def mysql_driver_def mysql_ops_def mysql_drv_connect_def)
  moreover have "db_prepare drvs ?c query ?st = Inl Null_deref"
    using assms(3) mal(2)
    by (simp add: db_prepare_def driver_of_def con_at_def stmt_at_def stmt_con_def mysql_con_at_def stmt_zero_def con_zero_def Let_def
        register_driver_mysql_def mysql_driver_def mysql_ops_def mysql_drv_prepare_def)
  ultimately show ?thesis by blast
qed

lemma dry_run_prepare_faults_witness:
  "\<exists>c st'. db_connect sample_drvs 0 (upd_m (\<lambda>d. d\<lparr>m_args := (m_args d)\<lparr>a_dry_run := True\<rparr>\<rparr>) sample_mysql) = Inr (Some c, st') \<and>
     db_prepare sample_drvs c ''SELECT 1'' st' = Inl Null_deref"
  using sample_mysql_ready(3) by (intro dry_run_prepare_faults) (simp_all add: upd_m_def sample_drvs_def)

lemma fetch_row_at_end:
  assumes "ds_conns st rs = Some con" and "rs_connection (con_rs con) = Some c" and "rs = c" and "con_ptr con = Some a"
    and "m_conns (ds_drv st) a = Some mc" and "mc_mysql mc = Some h" and "logger_ready (pg_w (ds_pg st))" and "\<not> a_dry_run (margs st)"
    and "ds_rows st row = Some None" and "\<And>r m. fst (mr_fetch_row (api_res api) r m) = None"
  shows "\<exists>st'. mysql_drv_fetch_row api rs row st = Inr (1, st') \<and> layer_same st st' \<and> logger_ready (pg_w (ds_pg st')) \<and> \<not> a_dry_run (margs st')"
proof -
  let ?res = "rs_ptr (con_rs con)"
  let ?st1 = "upd_m (\<lambda>d. d\<lparr>m_lib := snd (mr_fetch_row (api_res api) ?res (mlib st))\<rparr>) st"
  have call: "lib_call (mr_fetch_row (api_res api) ?res) st = (None, ?st1)"
    using assms(10) by (simp add: lib_call_def case_prod_unfold)
  have rows: "?st1\<lparr>ds_rows := (ds_rows ?st1)(row := Some None)\<rparr> = ?st1"
    using assms(9) by (cases st) (auto simp: upd_m_def)
  let ?msg = "''mysql_fetch_row('' @ ptr_text api ?res @ '') = '' @ ptr_text api None"
  obtain w1 where w1: "DEBUG ?msg ?st1 = Inr (?st1\<lparr>ds_pg := (ds_pg ?st1)\<lparr>pg_w := w1\<rparr>\<rparr>)" "logger_ready w1"
    using DEBUG_ready [of ?st1 ?msg] assms(7) by (auto simp: upd_m_def)
  let ?st2 = "?st1\<lparr>ds_pg := (ds_pg ?st1)\<lparr>pg_w := w1\<rparr>\<rparr>"
  let ?err = "''mysql_fetch_row() failed: '' @ mysql_error_text api h ?st2"
  obtain w2 where w2: "d_log LOG_FATAL ?err ?st2 = Inr (?st2\<lparr>ds_pg := (ds_pg ?st2)\<lparr>pg_w := w2\<rparr>\<rparr>)" "logger_ready w2"
    using d_log_ready [of ?st2 LOG_FATAL ?err] w1(2) by auto
  have "mysql_con_at c ?st2 = Inr mc" "ds_rows ?st1 row = Some None"
    using assms by (simp_all add: mysql_con_at_def con_at_def upd_m_def)
  then have "mysql_drv_fetch_row api rs row st = Inr (1, ?st2\<lparr>ds_pg := (ds_pg ?st2)\<lparr>pg_w := w2\<rparr>\<rparr>)"
    using assms(1-3,6) call rows w1(1) w2(1)
    unfolding mysql_drv_fetch_row_def rs_con_def by (simp add: con_at_def Let_def)
  then show ?thesis
    using w2(2) assms(8) by (simp add: layer_same_def upd_m_def)
qed

lemma free_results_ready:
  assumes "ds_conns st rs = Some con" and "rs_statement (con_rs con) = None" and "logger_ready (pg_w (ds_pg st))" and "\<not> a_dry_run (margs st)"
  shows "\<exists>rc st'. mysql_drv_free_results api rs st = Inr (rc, st') \<and> layer_same st st'"
proof (cases "rs_ptr (con_rs con)")
  case None
  then show ?thesis
    using assms by (simp add: mysql_drv_free_results_def rs_server_stmt_def con_at_def)
next
  case (Some r)
  then show ?thesis
    using assms DEBUG_ready [OF assms(3), of "''mysql_free_result('' @ ptr_text api (Some r) @ '')''"]
    by (auto simp: mysql_drv_free_results_def rs_server_stmt_def con_at_def)
qed

text \<open>
  A result that is fetched to its end is freed twice: when the library has no more rows, \<^verbatim>\<open>db_fetch_row\<close> frees the row
  but leaves the pointer to it in the result set, and \<^verbatim>\<open>db_free_results\<close> frees it again.
\<close>

lemma fetch_to_the_end_frees_twice:
  assumes "mysql_open c st" and "attached drvs (mysql_ops fuel api) c st con" and "os_mem (pg_opts (ds_pg st)) = []"
    and "rs_connection (con_rs con) = Some c" and "rs_statement (con_rs con) = None" and "rs_row (con_rs con) = None"
    and "\<And>r m. fst (mr_fetch_row (api_res api) r m) = None"
  shows "\<exists>st'. db_fetch_row drvs c st = Inr (None, st') \<and> db_free_results drvs c st' = Inl Bad_free"
proof -
  obtain d where d: "ds_conns st c = Some con" "con_driver con = Some d" "d < length drvs" "d_ops (drvs ! d) = mysql_ops fuel api"
    using assms(2) by (auto simp: attached_def)
  obtain a mc h where o: "con_ptr con = Some a" "m_conns (ds_drv st) a = Some mc" "mc_mysql mc = Some h" "logger_ready (pg_w (ds_pg st))"
      "\<not> a_dry_run (margs st)"
    using assms(1) d(1) by (auto simp: mysql_open_def)
  let ?r = "ds_next st" and ?con1 = "con\<lparr>con_rs := (con_rs con)\<lparr>rs_row := Some (ds_next st)\<rparr>\<rparr>"
  let ?st0 = "st\<lparr>ds_next := ?r + 1, ds_rows := (ds_rows st)(?r := Some None)\<rparr>"
  let ?st1 = "?st0\<lparr>ds_conns := (ds_conns st)(c := Some ?con1)\<rparr>"
  obtain st2 where s2: "mysql_drv_fetch_row api c ?r ?st1 = Inr (1, st2)" "layer_same ?st1 st2" "logger_ready (pg_w (ds_pg st2))"
      "\<not> a_dry_run (margs st2)"
    using fetch_row_at_end [of ?st1 c ?con1 c a mc h ?r api] assms(4,7) o by auto
  let ?st3 = "st2\<lparr>ds_rows := (ds_rows st2)(?r := None)\<rparr>"
  have same: "ds_conns st2 c = Some ?con1" "ds_rows st2 ?r = Some None"
    using s2(2) by (simp_all add: layer_same_def)
  obtain rc st4 where s4: "mysql_drv_free_results api c ?st3 = Inr (rc, st4)" "layer_same ?st3 st4"
    using free_results_ready [of ?st3 c ?con1 api] same(1) s2(3,4) assms(5) by auto
  have "d_malloc st = (True, st)"
    using assms(3) by (simp add: d_malloc_def)
  then have "db_fetch_row drvs c st = Inr (None, ?st3)"
    using d assms(4-6) s2(1) same
    by (simp add: db_fetch_row_def driver_of_def con_at_def upd_rs_def upd_con_def Let_def mysql_ops_def db_free_row_def)
  moreover have "db_free_results drvs c ?st3 = Inl Bad_free"
    using d assms(4) s4 same(1)
    by (simp add: db_free_results_def driver_of_def con_at_def mysql_ops_def db_free_row_def layer_same_def)
  ultimately show ?thesis by blast
qed

lemma fetch_to_the_end_frees_twice_witness:
  "\<exists>st'. db_fetch_row sample_drvs 1 (sample_mysql\<lparr>ds_conns := [1 \<mapsto> sample_con\<lparr>con_rs := rs_zero\<lparr>rs_connection := Some 1\<rparr>\<rparr>]\<rparr>) = Inr (None, st') \<and>
     db_free_results sample_drvs 1 st' = Inl Bad_free"
proof -
  let ?con = "sample_con\<lparr>con_rs := rs_zero\<lparr>rs_connection := Some 1\<rparr>\<rparr>"
  let ?st = "sample_mysql\<lparr>ds_conns := [1 \<mapsto> ?con]\<rparr>"
  have "mysql_open 1 ?st" "attached sample_drvs (mysql_ops 10 sample_api) 1 ?st ?con" "os_mem (pg_opts (ds_pg ?st)) = []"
    using sample_mysql_ready by (auto simp: mysql_ready_def mysql_open_def attached_def sample_mysql_def)
  then show ?thesis
    by (rule fetch_to_the_end_frees_twice) (simp_all add: rs_zero_def sample_api_def)
qed

section \<open>Emulated statements\<close>

lemma emulated_execute:
  assumes "mysql_ready api received c st" and "os_mem (pg_opts (ds_pg st)) = []"
    and "ds_stmts st s = Some stmt" and "st_emulated stmt" and "st_connection stmt = Some c" and "st_query stmt = Some query"
    and "st_bound_param stmt = Some ps" and "map (bind_text (ds_vars st)) ps = map Inr ts" and "length (filter (\<lambda>c. c = CHR ''?'') query) \<le> length ts"
    and "query \<noteq> []" and "length (substitute ts query) + 1 < 2 ^ 30" and "length query + 45 \<le> fuel" and "ds_conns st c = Some con"
  shows "\<exists>st1. mysql_drv_query fuel api c (substitute ts query) rs st = Inr (SB_DB_ERROR_NONE, st1) \<and>
           mysql_drv_execute fuel api s rs st =
             Inr (SB_DB_ERROR_NONE, st1\<lparr>ds_conns := (ds_conns st1)(c := Some (con\<lparr>con_errno := SB_DB_ERROR_NONE\<rparr>))\<rparr>)"
proof -
  obtain st1 where st1: "mysql_drv_query fuel api c (substitute ts query) rs st = Inr (SB_DB_ERROR_NONE, st1)" "ds_conns st1 = ds_conns st"
    using mysql_query_accepted [OF assms(1)] by blast
  have dry: "\<not> a_dry_run (margs st)"
    using assms(1) by (auto simp: mysql_ready_def mysql_open_def)
  have mem: "st\<lparr>ds_pg := set_opts ((pg_opts (ds_pg st))\<lparr>os_mem := []\<rparr>) (ds_pg st)\<rparr> = st"
    using assms(2) by simp
  have "emulate_query (ds_vars st) fuel (Some ps) query (os_mem (pg_opts (ds_pg st))) = Inr (Some (substitute ts query), [])"
    using emulate_query_text [OF assms(8-12)] assms(2) by simp
  then show ?thesis
    using assms(3-7,13) dry st1 mem by (simp add: mysql_drv_execute_def stmt_at_def stmt_con_def upd_con_def con_at_def)
qed

text \<open>
  (C13) An emulated prepared statement sends the right text: if the values of all parameters can be printed, \<^verbatim>\<open>mysql_drv_execute\<close> succeeds
  on a server that accepts every statement, and what the server receives is the statement with the question marks replaced by the printed parameters
  in order. The loop that builds the text ends after at most 45 iterations more than the statement has characters and stays inside its growing buffer.
\<close>

theorem emulated_statement_sent:
  assumes "mysql_ready api received c st" and "os_mem (pg_opts (ds_pg st)) = []"
    and "ds_stmts st s = Some stmt" and "st_emulated stmt" and "st_connection stmt = Some c" and "st_query stmt = Some query"
    and "st_bound_param stmt = Some ps" and "map (bind_text (ds_vars st)) ps = map Inr ts" and "length (filter (\<lambda>c. c = CHR ''?'') query) \<le> length ts"
    and "query \<noteq> []" and "length (substitute ts query) + 1 < 2 ^ 30" and "length query + 45 \<le> fuel"
  shows "\<exists>st'. mysql_drv_execute fuel api s rs st = Inr (SB_DB_ERROR_NONE, st') \<and>
           received (mlib st') = received (mlib st) @ [substitute ts query]"
proof -
  obtain con where con: "ds_conns st c = Some con"
    using assms(1) by (auto simp: mysql_ready_def mysql_open_def)
  obtain st1 where st1: "mysql_drv_query fuel api c (substitute ts query) rs st = Inr (SB_DB_ERROR_NONE, st1)"
      "mysql_drv_execute fuel api s rs st =
         Inr (SB_DB_ERROR_NONE, st1\<lparr>ds_conns := (ds_conns st1)(c := Some (con\<lparr>con_errno := SB_DB_ERROR_NONE\<rparr>))\<rparr>)"
    using emulated_execute [OF assms con] by blast
  moreover have "received (mlib st1) = received (mlib st) @ [substitute ts query]"
    using mysql_query_accepted [OF assms(1), of fuel "substitute ts query" rs] st1(1) by auto
  ultimately show ?thesis
    by simp
qed

definition sample_params :: "db_bind_t list" where
  "sample_params =
     [\<lparr>b_type = DB_TYPE_INT, b_buffer = Some 20, b_data_len = None, b_max_len = 4, b_is_null = None\<rparr>,
      \<lparr>b_type = DB_TYPE_VARCHAR, b_buffer = Some 21, b_data_len = None, b_max_len = 3, b_is_null = Some 22\<rparr>]"

definition sample_vars :: vars where
  "sample_vars = [20 \<mapsto> Int_data 42, 21 \<mapsto> String_data (''abc'' @ [CHR 0x00]), 22 \<mapsto> Flag_data False]"

lemma emulated_statement_sent_witness:
  "\<exists>st'. mysql_drv_execute 100 sample_api 5 1 (sample_mysql\<lparr>ds_stmts := [5 \<mapsto> stmt_zero\<lparr>st_connection := Some 1, st_emulated := True,
       st_query := Some ''SELECT ? , ?'', st_bound_param := Some sample_params\<rparr>], ds_vars := sample_vars\<rparr>) = Inr (SB_DB_ERROR_NONE, st') \<and>
     mlib st' = [''SELECT 42 , '' @ [CHR 0x27] @ ''abc'' @ [CHR 0x27]]"
proof -
  let ?stmt = "stmt_zero\<lparr>st_connection := Some 1, st_emulated := True, st_query := Some ''SELECT ? , ?'', st_bound_param := Some sample_params\<rparr>"
  let ?st = "sample_mysql\<lparr>ds_stmts := [5 \<mapsto> ?stmt], ds_vars := sample_vars\<rparr>" and ?ts = "[''42'', [CHR 0x27] @ ''abc'' @ [CHR 0x27]]"
  have digits: "digit_char 4 = CHR ''4''" "digit_char 2 = CHR ''2''"
    by code_simp+
  have "map (bind_text (ds_vars ?st)) sample_params = map Inr ?ts"
    using digits
    by (simp add: sample_params_def sample_vars_def bind_text_def is_null_var_def var_at_def Let_def print_int_def print_nat.simps)
  moreover have "mysql_ready sample_api id 1 ?st" "os_mem (pg_opts (ds_pg ?st)) = []"
    using sample_mysql_ready(1,3) by (simp_all add: mysql_ready_def mysql_open_def)
  moreover have "mlib ?st = []"
    by (simp add: sample_mysql_def sample_db_def sample_mdrv_def)
  ultimately show ?thesis
    using emulated_statement_sent [of sample_api id 1 ?st 5 ?stmt "''SELECT ? , ?''" sample_params ?ts 100 1] by simp
qed

end
