(* ===== verification/DrvPgsql.thy ===== *)
theory DrvPgsql
  imports DrvCommon
begin

text \<open>
  The PostgreSQL driver (\<^verbatim>\<open>drivers/pgsql/drv_pgsql.c\<close>). The client library libpq is not part of the sources: its functions and the
  numbers of its result states are an argument \<open>api\<close>, its state \<open>'m\<close> is part of the driver's state. The handle of a connection or a result is a number,
  \<open>None\<close> when it is NULL; the functions of libpq take a NULL handle. The values that are bound to a prepared statement are copied to buffers of
  256 characters, which the library reads as strings. \<open>fuel\<close> is the number of iterations followed of the loops that fill a buffer.
\<close>

section \<open>Data\<close>

definition MAX_PARAM_LENGTH :: nat where "MAX_PARAM_LENGTH = 256"

record pgsql_drv_args_t =
  pa_host :: "string option"
  pa_port :: "string option"
  pa_user :: "string option"
  pa_password :: "string option"
  pa_db :: "string option"

definition db_pgsql_bind_map :: "(db_bind_type_t \<times> int) list" where
  "db_pgsql_bind_map =
     [(DB_TYPE_TINYINT, 0), (DB_TYPE_SMALLINT, 21), (DB_TYPE_INT, 23), (DB_TYPE_BIGINT, 20), (DB_TYPE_FLOAT, 700), (DB_TYPE_DOUBLE, 701),
      (DB_TYPE_DATETIME, 0), (DB_TYPE_TIMESTAMP, 1114), (DB_TYPE_CHAR, 18), (DB_TYPE_VARCHAR, 1043)]"

definition get_pgsql_bind_type :: "db_bind_type_t \<Rightarrow> int" where
  "get_pgsql_bind_type ty = (case map_of db_pgsql_bind_map ty of None \<Rightarrow> - 1 | Some t \<Rightarrow> t)"

text \<open>
  A pointer is NULL, points to data, or its data has been released. A buffer for a value has not been written, holds a string, or has been filled up without a
  terminating zero.
\<close>

datatype 'a pgptr = Pg_null | Pg_freed | Pg_at 'a

datatype pg_buf = Unwritten | Holds string | Unterminated

record pg_stmt_t =
  ps_name :: "string pgptr"
  ps_prepared :: bool
  ps_nparams :: int
  ps_ptypes :: "u32 list pgptr"
  ps_pvalues :: "pg_buf option list pgptr"

text \<open>The library; the constants are those of \<^verbatim>\<open>ExecStatusType\<close>.\<close>

record 'm pgsql_api =
  pq_setdbLogin :: "pgsql_drv_args_t \<Rightarrow> 'm \<Rightarrow> nat option \<times> 'm"
  pq_status_ok :: "nat option \<Rightarrow> 'm \<Rightarrow> bool"
  pq_errorMessage :: "nat option \<Rightarrow> 'm \<Rightarrow> string"
  pq_finish :: "nat option \<Rightarrow> 'm \<Rightarrow> 'm"
  pq_serverVersion :: "nat option \<Rightarrow> 'm \<Rightarrow> int"
  pq_prepare :: "nat option \<Rightarrow> string option \<Rightarrow> string option \<Rightarrow> int \<Rightarrow> u32 list option \<Rightarrow> 'm \<Rightarrow> nat option \<times> 'm"
  pq_execPrepared :: "nat option \<Rightarrow> string option \<Rightarrow> int \<Rightarrow> string option list option \<Rightarrow> 'm \<Rightarrow> nat option \<times> 'm"
  pq_exec :: "nat option \<Rightarrow> string \<Rightarrow> 'm \<Rightarrow> nat option \<times> 'm"
  pq_resultStatus :: "nat option \<Rightarrow> 'm \<Rightarrow> int"
  pq_ntuples :: "nat \<Rightarrow> 'm \<Rightarrow> int"
  pq_nfields :: "nat \<Rightarrow> 'm \<Rightarrow> int"
  pq_getvalue :: "nat \<Rightarrow> int \<Rightarrow> int \<Rightarrow> 'm \<Rightarrow> 'm"
  pq_clear :: "nat \<Rightarrow> 'm \<Rightarrow> 'm"
  PGRES_COMMAND_OK :: int
  PGRES_TUPLES_OK :: int

text \<open>The variables of the driver, the prepared statements and the state of the library.\<close>

record 'm pgsql_drv =
  p_args :: pgsql_drv_args_t
  p_use_ps :: bool
  pgsql_drv_caps :: drv_caps_t
  p_stmts :: "nat \<Rightarrow> pg_stmt_t option"
  p_lib :: 'm

type_synonym 'm pst = "'m pgsql_drv db_state"

section \<open>Access to the driver's state\<close>

abbreviation plib :: "'m pst \<Rightarrow> 'm" where "plib st \<equiv> p_lib (ds_drv st)"

definition upd_p :: "('m pgsql_drv \<Rightarrow> 'm pgsql_drv) \<Rightarrow> 'm pst \<Rightarrow> 'm pst" where
  "upd_p f st = st\<lparr>ds_drv := f (ds_drv st)\<rparr>"

definition pq_call :: "('m \<Rightarrow> 'a \<times> 'm) \<Rightarrow> 'm pst \<Rightarrow> 'a \<times> 'm pst" where
  "pq_call f st = (case f (plib st) of (x, m) \<Rightarrow> (x, upd_p (\<lambda>d. d\<lparr>p_lib := m\<rparr>) st))"

definition pq_do :: "('m \<Rightarrow> 'm) \<Rightarrow> 'm pst \<Rightarrow> 'm pst" where
  "pq_do f st = upd_p (\<lambda>d. d\<lparr>p_lib := f (p_lib d)\<rparr>) st"

definition pgstmt_at :: "nat option \<Rightarrow> 'm pst \<Rightarrow> (nat \<times> pg_stmt_t) res" where
  "pgstmt_at p st = (case p of None \<Rightarrow> Inl Null_deref | Some a \<Rightarrow> (case p_stmts (ds_drv st) a of None \<Rightarrow> Inl Bad_access | Some ps \<Rightarrow> Inr (a, ps)))"

definition put_pgstmt :: "nat \<Rightarrow> pg_stmt_t \<Rightarrow> 'm pst \<Rightarrow> 'm pst" where
  "put_pgstmt a ps st = upd_p (\<lambda>d. d\<lparr>p_stmts := (p_stmts d)(a := Some ps)\<rparr>) st"

text \<open>The argument of a call for a pointer: NULL is passed on, released memory must not be.\<close>

definition ptr_arg :: "'a pgptr \<Rightarrow> 'a option res" where
  "ptr_arg p = (case p of Pg_null \<Rightarrow> Inr None | Pg_freed \<Rightarrow> Inl Bad_access | Pg_at x \<Rightarrow> Inr (Some x))"

definition ptr_of :: "'a option \<Rightarrow> 'a pgptr" where
  "ptr_of x = (case x of None \<Rightarrow> Pg_null | Some x \<Rightarrow> Pg_at x)"

section \<open>Initialisation and connections\<close>

definition pgsql_drv_args :: "sb_arg_t list" where
  "pgsql_drv_args =
     [mk_arg ''pgsql-host'' ''PostgreSQL server host'' SB_ARG_TYPE_STRING (Some ''localhost''),
      mk_arg ''pgsql-port'' ''PostgreSQL server port'' SB_ARG_TYPE_INT (Some ''5432''),
      mk_arg ''pgsql-user'' ''PostgreSQL user'' SB_ARG_TYPE_STRING (Some ''sbtest''),
      mk_arg ''pgsql-password'' ''PostgreSQL password'' SB_ARG_TYPE_STRING (Some []),
      mk_arg ''pgsql-db'' ''PostgreSQL database name'' SB_ARG_TYPE_STRING (Some ''sbtest'')]"

definition pgsql_caps :: drv_caps_t where
  "pgsql_caps = \<lparr>multi_rows_insert = True, prepared_statements = True, auto_increment = False, needs_commit = False, serial = True,
                 unsigned_int = False\<rparr>"

definition pgsql_drv_init :: "'m pgsql_drv dop" where
  "pgsql_drv_init st =
     (let get = sb_get_value_string (pg_opts (ds_pg st));
          args = \<lparr>pa_host = get ''pgsql-host'', pa_port = get ''pgsql-port'', pa_user = get ''pgsql-user'', pa_password = get ''pgsql-password'',
                  pa_db = get ''pgsql-db''\<rparr>
      in Inr (0, upd_p (\<lambda>d. d\<lparr>p_args := args, pgsql_drv_caps := (pgsql_drv_caps d)\<lparr>prepared_statements := True\<rparr>,
                              p_use_ps := (ds_ps_mode st \<noteq> DB_PS_MODE_DISABLE)\<rparr>) st))"

text \<open>The login that \<^verbatim>\<open>pgsql_drv_describe\<close> and \<^verbatim>\<open>pgsql_drv_connect\<close> begin with: \<open>None\<close> after the message and the release of a handle that is not connected.\<close>

definition pgsql_login :: "'m pgsql_api \<Rightarrow> 'm pst \<Rightarrow> (nat option option \<times> 'm pst) res" where
  "pgsql_login api st =
     (case pq_call (pq_setdbLogin api (p_args (ds_drv st))) st of (con, st) \<Rightarrow>
        if \<not> pq_status_ok api con (plib st)
        then
          rbind (d_log LOG_FATAL (''Connection to database failed: '' @ pq_errorMessage api con (plib st)) st)
            (\<lambda>st. Inr (None, pq_do (pq_finish api con) st))
        else Inr (Some con, st))"

definition pgsql_drv_describe :: "'m pgsql_api \<Rightarrow> 'm pst \<Rightarrow> ((int \<times> drv_caps_t) \<times> 'm pst) res" where
  "pgsql_drv_describe api st =
     (let caps = pgsql_drv_caps (ds_drv st) in
      rbind (pgsql_login api st) (\<lambda>(r, st). case r of
        None \<Rightarrow> Inr ((1, caps), st)
      | Some con \<Rightarrow>
          (let caps = (if pq_serverVersion api con (plib st) < 80200 then caps\<lparr>multi_rows_insert := False\<rparr> else caps) in
           Inr ((0, caps), pq_do (pq_finish api con) st))))"

definition pgsql_drv_connect :: "'m pgsql_api \<Rightarrow> nat \<Rightarrow> 'm pgsql_drv dop" where
  "pgsql_drv_connect api c st =
     rbind (pgsql_login api st) (\<lambda>(r, st). case r of
       None \<Rightarrow> Inr (1, st)
     | Some con \<Rightarrow> rbind (upd_con c (\<lambda>sb_conn. sb_conn\<lparr>con_ptr := con\<rparr>) st) (\<lambda>st. Inr (0, st)))"

definition pgsql_drv_disconnect :: "'m pgsql_api \<Rightarrow> nat \<Rightarrow> 'm pgsql_drv dop" where
  "pgsql_drv_disconnect api c st =
     rbind (con_at c st) (\<lambda>con. Inr (0, if con_ptr con \<noteq> None then pq_do (pq_finish api (con_ptr con)) st else st))"

section \<open>Preparing statements\<close>

text \<open>The placeholder for a question mark; \<^verbatim>\<open>snprintf\<close> returns the length it would need.\<close>

definition placeholder :: "nat \<Rightarrow> string" where
  "placeholder v = CHR ''$'' # print_int (sint (of_nat v + 1 :: u32))"

definition put_placeholder :: "nat \<Rightarrow> int \<Rightarrow> (int \<times> string) res" where
  "put_placeholder v n =
     (let text = placeholder v in Inr (if int (length text) < n then int (length text) else - 1, snprintf_text (nat n) text))"

text \<open>Two random numbers, read from left to right.\<close>

definition get_unique_stmt_name :: "nat \<Rightarrow> rand_t \<Rightarrow> string \<times> rand_t" where
  "get_unique_stmt_name len r =
     (case sb_rnd r of (x, r) \<Rightarrow> (case sb_rnd r of (y, r) \<Rightarrow>
        (snprintf_text len (''sbstmt'' @ print_int (int x) @ print_int (int y)), r)))"

definition pg_stmt_zero :: pg_stmt_t where
  "pg_stmt_zero = \<lparr>ps_name = Pg_null, ps_prepared = False, ps_nparams = 0, ps_ptypes = Pg_null, ps_pvalues = Pg_null\<rparr>"

text \<open>The handle of the statement's connection.\<close>

definition stmt_pgcon :: "nat \<Rightarrow> 'm pst \<Rightarrow> nat option res" where
  "stmt_pgcon s st = rbind (stmt_con s st) (\<lambda>c. rbind (con_at c st) (\<lambda>con. Inr (con_ptr con)))"

text \<open>
  \<^verbatim>\<open>PQprepare\<close> and the check of its result: True when the statement was prepared.
\<close>

definition pgsql_do_prepare ::
  "'m pgsql_api \<Rightarrow> nat option \<Rightarrow> string option \<Rightarrow> string option \<Rightarrow> int \<Rightarrow> u32 list option \<Rightarrow> 'm pst \<Rightarrow> (bool \<times> 'm pst) res" where
  "pgsql_do_prepare api con name query nparams ptypes st =
     (case pq_call (pq_prepare api con name query nparams ptypes) st of (pgres, st) \<Rightarrow>
        if pq_resultStatus api pgres (plib st) \<noteq> PGRES_COMMAND_OK api
        then rbind (d_log LOG_FATAL (''PQprepare() failed: '' @ pq_errorMessage api con (plib st)) st) (\<lambda>st. Inr (False, st))
        else Inr (True, st))"

definition pgsql_drv_prepare :: "nat \<Rightarrow> 'm pgsql_api \<Rightarrow> nat \<Rightarrow> string \<Rightarrow> 'm pgsql_drv dop" where
  "pgsql_drv_prepare fuel api s query st =
     rbind (stmt_pgcon s st) (\<lambda>con.
       if con = None then Inr (1, st)
       else if \<not> p_use_ps (ds_drv st)
       then
         (case d_strdup query st of (q, st) \<Rightarrow>
            rbind (upd_stmt s (\<lambda>stmt. stmt\<lparr>st_emulated := True, st_query := q\<rparr>) st) (\<lambda>st. Inr (0, st)))
       else
         rbind (fill_loop put_placeholder fuel 0 query [] 0 True (os_mem (pg_opts (ds_pg st)))) (\<lambda>(r, m).
           let st = st\<lparr>ds_pg := set_opts ((pg_opts (ds_pg st))\<lparr>os_mem := m\<rparr>) (ds_pg st)\<rparr> in
           case r of
             None \<Rightarrow> Inr (1, st)
           | Some (buf, vcnt) \<Rightarrow>
               (case d_strdup buf st of (q, st) \<Rightarrow>
                rbind (upd_stmt s (\<lambda>stmt. stmt\<lparr>st_query := q\<rparr>) st) (\<lambda>st.
                  case d_malloc st of (ok, st) \<Rightarrow>
                    if \<not> ok then Inr (1, st)
                    else
                      (case get_unique_stmt_name 32 (pg_rand (ds_pg st)) of (name, r) \<Rightarrow>
                       case d_strdup name (st\<lparr>ds_pg := (ds_pg st)\<lparr>pg_rand := r\<rparr>\<rparr>) of (name, st) \<Rightarrow>
                         let a = ds_next st;
                             nparams = sint (of_nat vcnt :: u32);
                             pgstmt = pg_stmt_zero\<lparr>ps_name := ptr_of name, ps_nparams := nparams\<rparr>;
                             st = put_pgstmt a pgstmt (st\<lparr>ds_next := a + 1\<rparr>)
                         in
                         rbind (if nparams = 0 then pgsql_do_prepare api con name q nparams None st else Inr (True, st)) (\<lambda>(prepared, st).
                           if \<not> prepared then Inr (1, st)
                           else
                             rbind (upd_stmt s (\<lambda>stmt. stmt\<lparr>st_ptr := Some a\<rparr>)
                                 (if nparams = 0 then put_pgstmt a (pgstmt\<lparr>ps_prepared := True\<rparr>) st else st))
                               (\<lambda>st. Inr (0, st))))))))"

text \<open>
  The buffers of the values: the array is zeroed when it is allocated, so that the branch that releases an earlier buffer is never taken.
\<close>

fun alloc_pvalues :: "nat \<Rightarrow> pg_buf option list \<Rightarrow> 'd db_state \<Rightarrow> (bool \<times> pg_buf option list) \<times> 'd db_state" where
  "alloc_pvalues 0 vs st = ((True, vs), st)"
| "alloc_pvalues (Suc n) vs st =
     (case d_malloc st of (ok, st) \<Rightarrow>
        if ok then alloc_pvalues n (vs @ [Some Unwritten]) st else ((False, vs @ replicate (Suc n) None), st))"

definition pgsql_drv_bind_param :: "'m pgsql_api \<Rightarrow> nat \<Rightarrow> db_bind_t list \<Rightarrow> u32 \<Rightarrow> 'm pgsql_drv dop" where
  "pgsql_drv_bind_param api s params len st =
     rbind (stmt_pgcon s st) (\<lambda>con.
       if con = None then Inr (1, st)
       else
         case d_malloc st of (ok, st) \<Rightarrow>
           if \<not> ok then rbind (upd_stmt s (\<lambda>stmt. stmt\<lparr>st_bound_param := None\<rparr>) st) (\<lambda>st. Inr (1, st))
           else if length params < unat len then Inl Out_of_bounds
           else
             (let params = take (unat len) params in
              rbind (upd_stmt s (\<lambda>stmt. stmt\<lparr>st_bound_param := Some params, st_bound_param_len := len\<rparr>) st) (\<lambda>st.
              rbind (stmt_at s st) (\<lambda>stmt.
                if st_emulated stmt then Inr (0, st)
                else
                  rbind (pgstmt_at (st_ptr stmt) st) (\<lambda>(a, pgstmt).
                    if ps_prepared pgstmt then Inr (0, st)
                    else if (word_of_int (ps_nparams pgstmt) :: u32) \<noteq> len
                    then
                      rbind (d_log LOG_ALERT ''wrong number of parameters in prepared statement'' st) (\<lambda>st.
                      rbind (d_log LOG_DEBUG (''counted: '' @ print_int (ps_nparams pgstmt) @ '', passed to bind_param(): '' @ print_int (sint len)) st)
                        (\<lambda>st. Inr (1, st)))
                    else
                      case d_malloc st of (ok, st) \<Rightarrow>
                        if \<not> ok then Inr (1, put_pgstmt a (pgstmt\<lparr>ps_ptypes := Pg_null\<rparr>) st)
                        else
                          (let ptypes = map (\<lambda>p. word_of_int (get_pgsql_bind_type (b_type p)) :: u32) params;
                               pgstmt = pgstmt\<lparr>ps_ptypes := Pg_at ptypes\<rparr>;
                               st = put_pgstmt a pgstmt st
                           in
                           rbind (ptr_arg (ps_name pgstmt)) (\<lambda>name.
                           rbind (pgsql_do_prepare api con name (st_query stmt) (ps_nparams pgstmt) (Some ptypes) st) (\<lambda>(prepared, st).
                             if \<not> prepared then Inr (1, st)
                             else
                               case d_malloc st of (ok, st) \<Rightarrow>
                                 if \<not> ok then Inr (1, put_pgstmt a (pgstmt\<lparr>ps_pvalues := Pg_null\<rparr>) st)
                                 else
                                   (case alloc_pvalues (unat len) [] st of ((ok, vs), st) \<Rightarrow>
                                      if \<not> ok then Inr (1, put_pgstmt a (pgstmt\<lparr>ps_pvalues := Pg_at vs\<rparr>) st)
                                      else Inr (0, put_pgstmt a (pgstmt\<lparr>ps_pvalues := Pg_at vs, ps_prepared := True\<rparr>) st))))))))))"

definition pgsql_drv_bind_result :: "nat \<Rightarrow> db_bind_t list \<Rightarrow> u32 \<Rightarrow> 'm pgsql_drv dop" where
  "pgsql_drv_bind_result s params len st = Inr (0, st)"

section \<open>Executing\<close>

text \<open>\<^verbatim>\<open>strstr\<close>, as a test.\<close>

fun occurs_in :: "string \<Rightarrow> string \<Rightarrow> bool" where
  "occurs_in s [] \<longleftrightarrow> s = []"
| "occurs_in s (c # cs) \<longleftrightarrow> take (length s) (c # cs) = s \<or> occurs_in s cs"

definition pgsql_check_status :: "'m pgsql_api \<Rightarrow> nat option \<Rightarrow> nat option \<Rightarrow> string \<Rightarrow> 'm pgsql_drv eop" where
  "pgsql_check_status api pgcon pgres funcname st =
     (let status = pq_resultStatus api pgres (plib st) in
      if status \<noteq> PGRES_TUPLES_OK api \<and> status \<noteq> PGRES_COMMAND_OK api
      then
        (let errmsg = pq_errorMessage api pgcon (plib st) in
         if occurs_in ''deadlock detected'' errmsg \<or> occurs_in ''duplicate key value violates unique constraint'' errmsg
         then Inr (SB_DB_ERROR_RESTART_TRANSACTION, snd (pq_call (pq_exec api pgcon ''ROLLBACK'') st))
         else
           rbind (d_log LOG_FATAL (funcname @ ''() failed: '' @ print_int status @ '' '' @ errmsg) st) (\<lambda>st. Inr (SB_DB_ERROR_FAILED, st)))
      else Inr (SB_DB_ERROR_NONE, st))"

definition pgsql_drv_query :: "'m pgsql_api \<Rightarrow> nat \<Rightarrow> string \<Rightarrow> nat \<Rightarrow> 'm pgsql_drv eop" where
  "pgsql_drv_query api c query rs st =
     rbind (con_at c st) (\<lambda>sb_conn.
       let con = con_ptr sb_conn in
       case pq_call (pq_exec api con query) st of (pgres, st) \<Rightarrow>
         rbind (pgsql_check_status api con pgres ''PQexec'' st) (\<lambda>(rc, st).
           if rc = SB_DB_ERROR_NONE then rbind (upd_rs rs (\<lambda>r. r\<lparr>rs_ptr := pgres\<rparr>) st) (\<lambda>st. Inr (rc, st))
           else if rc = SB_DB_ERROR_FAILED then rbind (d_log LOG_FATAL (''failed query: '' @ query) st) (\<lambda>st. Inr (rc, st))
           else Inr (rc, st)))"

text \<open>
  The buffer of a parameter after its value is stored: \<^verbatim>\<open>strncpy\<close> for strings, which reads and writes at most 256 characters and does not terminate a longer
  string, and \<^verbatim>\<open>db_print_value\<close> for the rest, which writes nothing for a parameter without type.
\<close>

definition strncpy_buf :: "string \<Rightarrow> pg_buf res" where
  "strncpy_buf s =
     (let t = takeWhile (\<lambda>c. c \<noteq> CHR 0x00) s in
      if MAX_PARAM_LENGTH \<le> length t then Inr Unterminated
      else if CHR 0x00 \<in> set s then Inr (Holds t) else Inl Out_of_bounds)"

definition param_buf :: "vars \<Rightarrow> db_bind_t \<Rightarrow> pg_buf option \<Rightarrow> pg_buf option res" where
  "param_buf vars var buf =
     (if b_type var = DB_TYPE_NONE then Inr buf
      else
        case buf of
          None \<Rightarrow> Inl Null_deref
        | Some _ \<Rightarrow>
            if b_type var = DB_TYPE_CHAR \<or> b_type var = DB_TYPE_VARCHAR
            then
              rbind (var_at vars (b_buffer var)) (\<lambda>d. case d of
                String_data s \<Rightarrow> rbind (strncpy_buf s) (\<lambda>b. Inr (Some b))
              | Undef_data \<Rightarrow> Inl Uninit_read
              | _ \<Rightarrow> Inl Bad_access)
            else rbind (db_print_value vars var (int MAX_PARAM_LENGTH)) (\<lambda>(n, text). Inr (Some (Holds text))))"

text \<open>A parameter with a NULL flag is passed over, whatever the flag says.\<close>

definition store_param :: "vars \<Rightarrow> db_bind_t list option \<Rightarrow> nat \<Rightarrow> pg_buf option list pgptr \<Rightarrow> pg_buf option list pgptr res" where
  "store_param vars params i pvalues =
     rbind (case params of None \<Rightarrow> Inl Null_deref | Some ps \<Rightarrow> aread ps i) (\<lambda>var.
       if b_is_null var \<noteq> None then Inr pvalues
       else
         case pvalues of
           Pg_null \<Rightarrow> Inl Null_deref
         | Pg_freed \<Rightarrow> Inl Bad_access
         | Pg_at vs \<Rightarrow> rbind (aread vs i) (\<lambda>buf. rbind (param_buf vars var buf) (\<lambda>buf. Inr (Pg_at (vs[i := buf])))))"

text \<open>The values the library reads from the buffers; a NULL pointer stands for an SQL NULL.\<close>

definition read_buf :: "pg_buf option \<Rightarrow> string option res" where
  "read_buf b =
     (case b of
        None \<Rightarrow> Inr None
      | Some Unwritten \<Rightarrow> Inl Uninit_read
      | Some Unterminated \<Rightarrow> Inl Out_of_bounds
      | Some (Holds s) \<Rightarrow> Inr (Some s))"

fun read_bufs :: "pg_buf option list \<Rightarrow> string option list res" where
  "read_bufs [] = Inr []"
| "read_bufs (b # bs) = rbind (read_buf b) (\<lambda>v. rbind (read_bufs bs) (\<lambda>vs. Inr (v # vs)))"

definition values_arg :: "pg_buf option list pgptr \<Rightarrow> string option list option res" where
  "values_arg p = rbind (ptr_arg p) (\<lambda>vs. case vs of None \<Rightarrow> Inr None | Some vs \<Rightarrow> rbind (read_bufs vs) (\<lambda>ts. Inr (Some ts)))"

definition pgsql_drv_execute :: "nat \<Rightarrow> 'm pgsql_api \<Rightarrow> nat \<Rightarrow> nat \<Rightarrow> 'm pgsql_drv eop" where
  "pgsql_drv_execute fuel api s rs st =
     rbind (stmt_con s st) (\<lambda>c.
     rbind (con_at c st) (\<lambda>con.
     rbind (stmt_at s st) (\<lambda>stmt.
       if \<not> st_emulated stmt
       then
         (if st_ptr stmt = None then Inr (SB_DB_ERROR_FAILED, st)
          else
            rbind (pgstmt_at (st_ptr stmt) st) (\<lambda>(a, pgstmt).
            rbind (rfold (store_param (ds_vars st) (st_bound_param stmt)) [0..<unat (word_of_int (ps_nparams pgstmt) :: u32)] (ps_pvalues pgstmt)) (\<lambda>pvalues.
              let st = put_pgstmt a (pgstmt\<lparr>ps_pvalues := pvalues\<rparr>) st in
              rbind (ptr_arg (ps_name pgstmt)) (\<lambda>name.
              rbind (values_arg pvalues) (\<lambda>vals.
                case pq_call (pq_execPrepared api (con_ptr con) name (ps_nparams pgstmt) vals) st of (pgres, st) \<Rightarrow>
                  rbind (pgsql_check_status api (con_ptr con) pgres ''PQexecPrepared'' st) (\<lambda>(rc, st).
                    if rc = SB_DB_ERROR_NONE then rbind (upd_rs rs (\<lambda>r. r\<lparr>rs_ptr := pgres\<rparr>) st) (\<lambda>st. Inr (rc, st))
                    else Inr (rc, st)))))))
       else
         (case st_query stmt of
            None \<Rightarrow> Inl Null_deref
          | Some query \<Rightarrow>
              rbind (emulate_query (ds_vars st) fuel (st_bound_param stmt) query (os_mem (pg_opts (ds_pg st)))) (\<lambda>(buf, m).
                let st = st\<lparr>ds_pg := set_opts ((pg_opts (ds_pg st))\<lparr>os_mem := m\<rparr>) (ds_pg st)\<rparr> in
                case buf of
                  None \<Rightarrow> Inr (SB_DB_ERROR_FAILED, st)
                | Some text \<Rightarrow>
                    rbind (pgsql_drv_query api c text rs st) (\<lambda>(e, st).
                    rbind (upd_con c (\<lambda>con. con\<lparr>con_errno := e\<rparr>) st) (\<lambda>st. Inr (e, st))))))))"

section \<open>Results\<close>

definition pgsql_drv_fetch :: "nat \<Rightarrow> 'm pgsql_drv dop" where
  "pgsql_drv_fetch rs st = Inr (1, st)"

definition pgsql_drv_fetch_row :: "nat \<Rightarrow> nat \<Rightarrow> 'm pgsql_drv dop" where
  "pgsql_drv_fetch_row rs row st = Inr (1, st)"

definition pgsql_drv_num_rows :: "nat \<Rightarrow> 'm pst \<Rightarrow> (u64 \<times> 'm pst) res" where
  "pgsql_drv_num_rows rs st = rbind (con_at rs st) (\<lambda>con. Inr (rs_nrows (con_rs con), st))"

text \<open>
  Every field of every row is asked for. Without a result the function returns 1, which is the number of \<open>SB_DB_ERROR_RESTART_TRANSACTION\<close>.
\<close>

definition pgsql_drv_store_results :: "'m pgsql_api \<Rightarrow> nat \<Rightarrow> 'm pgsql_drv eop" where
  "pgsql_drv_store_results api rs st =
     rbind (con_at rs st) (\<lambda>con. case rs_ptr (con_rs con) of
       None \<Rightarrow> Inr (SB_DB_ERROR_RESTART_TRANSACTION, st)
     | Some pgres \<Rightarrow>
         (let nrows = word_of_int (pq_ntuples api pgres (plib st)) :: u64 in
          rbind (upd_rs rs (\<lambda>r. r\<lparr>rs_nrows := nrows\<rparr>) st) (\<lambda>st.
            let ncolumns = word_of_int (pq_nfields api pgres (plib st)) :: u64 in
            Inr (SB_DB_ERROR_NONE,
                 fold (\<lambda>i. fold (\<lambda>j. pq_do (pq_getvalue api pgres (c_int (int i)) (c_int (int j)))) [0..<unat ncolumns]) [0..<unat nrows] st))))"

definition pgsql_drv_free_results :: "'m pgsql_api \<Rightarrow> nat \<Rightarrow> 'm pgsql_drv dop" where
  "pgsql_drv_free_results api rs st =
     rbind (con_at rs st) (\<lambda>con. case rs_ptr (con_rs con) of
       Some pgres \<Rightarrow> Inr (0, pq_do (pq_clear api pgres) st)
     | None \<Rightarrow> Inr (1, st))"

definition release :: "'a pgptr \<Rightarrow> 'a pgptr res" where
  "release p = (case p of Pg_null \<Rightarrow> Inr Pg_null | Pg_freed \<Rightarrow> Inl Bad_free | Pg_at _ \<Rightarrow> Inr Pg_freed)"

text \<open>
  The buffers up to the number of parameters are released before the array; the statement itself stays allocated.
\<close>

definition pgsql_drv_close :: "nat \<Rightarrow> 'm pgsql_drv dop" where
  "pgsql_drv_close s st =
     rbind (stmt_at s st) (\<lambda>stmt.
       if st_ptr stmt = None then Inr (1, st)
       else
         rbind (pgstmt_at (st_ptr stmt) st) (\<lambda>(a, pgstmt).
         rbind (release (ps_name pgstmt)) (\<lambda>name.
         rbind (release (ps_ptypes pgstmt)) (\<lambda>ptypes.
         rbind (case ps_pvalues pgstmt of
                  Pg_at vs \<Rightarrow> if ps_nparams pgstmt \<le> int (length vs) then Inr Pg_freed else Inl Out_of_bounds
                | p \<Rightarrow> release p) (\<lambda>pvalues.
           Inr (0, put_pgstmt a (pgstmt\<lparr>ps_name := name, ps_ptypes := ptypes, ps_pvalues := pvalues\<rparr>) st))))))"

definition pgsql_drv_done :: "'m pgsql_drv dop" where
  "pgsql_drv_done st = Inr (0, st)"

section \<open>The driver\<close>

definition pgsql_ops :: "nat \<Rightarrow> 'm pgsql_api \<Rightarrow> 'm pgsql_drv drv_ops_t" where
  "pgsql_ops fuel api =
     \<lparr>drv_init = pgsql_drv_init, drv_describe = Some (pgsql_drv_describe api), drv_connect = pgsql_drv_connect api,
      drv_disconnect = pgsql_drv_disconnect api, drv_prepare = pgsql_drv_prepare fuel api, drv_bind_param = pgsql_drv_bind_param api,
      drv_bind_result = pgsql_drv_bind_result, drv_execute = pgsql_drv_execute fuel api, drv_fetch = pgsql_drv_fetch,
      drv_fetch_row = pgsql_drv_fetch_row, drv_num_rows = pgsql_drv_num_rows, drv_free_results = pgsql_drv_free_results api,
      drv_close = pgsql_drv_close, drv_query = pgsql_drv_query api, drv_store_results = pgsql_drv_store_results api,
      drv_done = pgsql_drv_done\<rparr>"

definition pgsql_driver :: "nat \<Rightarrow> 'm pgsql_api \<Rightarrow> 'm pgsql_drv db_driver_t" where
  "pgsql_driver fuel api = \<lparr>d_sname = ''pgsql'', d_lname = ''PostgreSQL driver'', d_args = Some pgsql_drv_args, d_ops = pgsql_ops fuel api\<rparr>"

definition register_driver_pgsql :: "nat \<Rightarrow> 'm pgsql_api \<Rightarrow> 'm pgsql_drv db_driver_t list \<Rightarrow> 'm pgsql_drv db_driver_t list" where
  "register_driver_pgsql fuel api drivers = drivers @ [pgsql_driver fuel api]"

section \<open>What the driver leaves alone\<close>

lemma layer_same_pq [simp]:
  "layer_same (pq_do f st) st' = layer_same st st'" "layer_same st (pq_do f st') = layer_same st st'"
  "layer_same (snd (pq_call g st)) st' = layer_same st st'" "layer_same st (snd (pq_call g st')) = layer_same st st'"
  by (simp_all add: layer_same_def pq_do_def pq_call_def upd_p_def case_prod_unfold)

lemma pgsql_check_same: "pgsql_check_status api con pgres f st = Inr (e, st') \<Longrightarrow> layer_same st st'"
  by (auto simp: pgsql_check_status_def Let_def rbind_eq_Inr dest!: d_log_same split: if_splits)

lemma pgsql_query_kept:
  assumes "pgsql_drv_query api c q c st = Inr (e, st')"
  shows "con_kept c st st'"
proof -
  obtain con where con: "con_at c st = Inr con"
    using assms by (auto simp: pgsql_drv_query_def rbind_eq_Inr)
  let ?r = "fst (pq_call (pq_exec api (con_ptr con) q) st)" and ?st1 = "snd (pq_call (pq_exec api (con_ptr con) q) st)"
  obtain st2 where st2: "pgsql_check_status api (con_ptr con) ?r ''PQexec'' ?st1 = Inr (e, st2)"
      "(if e = SB_DB_ERROR_NONE then rbind (upd_rs c (\<lambda>r. r\<lparr>rs_ptr := ?r\<rparr>) st2) (\<lambda>st. Inr (e, st))
        else if e = SB_DB_ERROR_FAILED then rbind (d_log LOG_FATAL (''failed query: '' @ q) st2) (\<lambda>st. Inr (e, st))
        else Inr (e, st2)) = Inr (e, st')"
    using assms con by (auto simp: pgsql_drv_query_def rbind_eq_Inr case_prod_unfold Let_def split: if_splits)
  have same: "layer_same st st2"
    using pgsql_check_same [OF st2(1)] by simp
  show ?thesis
  proof (cases "e = SB_DB_ERROR_NONE")
    case True
    then show ?thesis
      using st2(2) same con by (auto simp: con_kept_def layer_same_def upd_rs_def upd_con_def con_at_def rbind_eq_Inr split: option.splits)
  next
    case False
    then have "layer_same st st'"
      using st2(2) same by (auto simp: rbind_eq_Inr split: if_splits dest!: d_log_same intro: layer_same_trans)
    then show ?thesis
      by (intro con_keptI) (simp_all add: layer_same_def)
  qed
qed

interpretation pgsql_quiet: quiet_driver "pgsql_ops fuel api" for fuel api
  by unfold_locales (auto simp: pgsql_ops_def dest!: pgsql_query_kept)

section \<open>A server that accepts every statement\<close>

text \<open>
  What libpq promises when the server, of version \<open>v\<close>, accepts every connection and every statement; \<open>sent m\<close> are the statements the server has received.
\<close>

definition pg_done_ok :: "'m pgsql_api \<Rightarrow> nat option \<times> 'm \<Rightarrow> bool" where
  "pg_done_ok api r \<longleftrightarrow> pq_resultStatus api (fst r) (snd r) \<in> {PGRES_COMMAND_OK api, PGRES_TUPLES_OK api}"

definition pgsql_accepts :: "'m pgsql_api \<Rightarrow> ('m \<Rightarrow> string list) \<Rightarrow> int \<Rightarrow> bool" where
  "pgsql_accepts api sent v \<longleftrightarrow>
     (\<forall>con q m. pg_done_ok api (pq_exec api con q m) \<and> sent (snd (pq_exec api con q m)) = sent m @ [q]) \<and>
     (\<forall>args m con m'. pq_setdbLogin api args m = (con, m') \<longrightarrow> pq_status_ok api con m' \<and> pq_serverVersion api con m' = v \<and> sent m' = sent m) \<and>
     (\<forall>con m. sent (pq_finish api con m) = sent m)"

definition pgsql_ready :: "'m pgsql_api \<Rightarrow> ('m \<Rightarrow> string list) \<Rightarrow> int \<Rightarrow> nat \<Rightarrow> 'm pst \<Rightarrow> bool" where
  "pgsql_ready api sent v c st \<longleftrightarrow> pgsql_accepts api sent v \<and> ds_conns st c \<noteq> None"

definition pgsql_caps_of :: "int \<Rightarrow> 'm pgsql_drv \<Rightarrow> drv_caps_t" where
  "pgsql_caps_of v d = (if v < 80200 then (pgsql_drv_caps d)\<lparr>multi_rows_insert := False\<rparr> else pgsql_drv_caps d)"

lemma pgsql_check_ok:
  "pg_done_ok api (r, plib st) \<Longrightarrow> pgsql_check_status api con r f st = Inr (SB_DB_ERROR_NONE, st)"
  by (auto simp: pgsql_check_status_def pg_done_ok_def Let_def)

lemma pgsql_query_accepted:
  assumes "pgsql_ready api sent v c st" and "ds_conns st c = Some con"
  shows "\<exists>st'. pgsql_drv_query api c q c st = Inr (SB_DB_ERROR_NONE, st') \<and> pgsql_ready api sent v c st' \<and>
           sent (plib st') = sent (plib st) @ [q] \<and> con_kept c st st'"
proof -
  obtain r m where x: "pq_exec api (con_ptr con) q (plib st) = (r, m)"
    by fastforce
  have ok: "pg_done_ok api (r, m)" "sent m = sent (plib st) @ [q]"
    using assms(1) x by (auto simp: pgsql_ready_def pgsql_accepts_def) (metis, metis snd_conv)
  let ?st1 = "upd_p (\<lambda>d. d\<lparr>p_lib := m\<rparr>) st"
  let ?st2 = "?st1\<lparr>ds_conns := (ds_conns st)(c := Some (con\<lparr>con_rs := (con_rs con)\<lparr>rs_ptr := r\<rparr>\<rparr>))\<rparr>"
  have "pgsql_drv_query api c q c st = Inr (SB_DB_ERROR_NONE, ?st2)"
    using assms(2) x ok(1)
    by (simp add: pgsql_drv_query_def con_at_def pq_call_def pgsql_check_ok upd_rs_def upd_con_def upd_p_def)
  moreover from this have "con_kept c st ?st2"
    by (rule pgsql_query_kept)
  ultimately show ?thesis
    using assms(1) ok(2) by (intro exI [of _ ?st2]) (simp add: pgsql_ready_def upd_p_def)
qed

lemma pgsql_describes:
  assumes "pgsql_ready api sent v c st"
  shows "\<exists>st'. pgsql_drv_describe api st = Inr ((0, pgsql_caps_of v (ds_drv st)), st') \<and> sent (plib st') = sent (plib st) \<and>
           layer_same st st' \<and> ds_pg st' = ds_pg st"
proof -
  obtain con m where x: "pq_setdbLogin api (p_args (ds_drv st)) (plib st) = (con, m)"
    by fastforce
  let ?st1 = "upd_p (\<lambda>d. d\<lparr>p_lib := m\<rparr>) st"
  have ok: "pq_status_ok api con m" "pq_serverVersion api con m = v" "sent m = sent (plib st)" "sent (pq_finish api con m) = sent m"
    using assms x by (auto simp: pgsql_ready_def pgsql_accepts_def)
  have "pgsql_drv_describe api st = Inr ((0, pgsql_caps_of v (ds_drv st)), pq_do (pq_finish api con) ?st1)"
    using x ok(1,2) by (simp add: pgsql_drv_describe_def pgsql_login_def pq_call_def pgsql_caps_of_def upd_p_def)
  moreover have "layer_same st (pq_do (pq_finish api con) ?st1)" "ds_pg (pq_do (pq_finish api con) ?st1) = ds_pg st"
    by (simp_all add: layer_same_def upd_p_def pq_do_def)
  ultimately show ?thesis
    using ok(3,4) by (intro exI [of _ "pq_do (pq_finish api con) ?st1"]) (simp add: pq_do_def upd_p_def)
qed

interpretation pgsql_accepting:
  accepting_driver "pgsql_ops fuel api" "pgsql_ready api sent v" "\<lambda>d. sent (p_lib d)" "pgsql_caps_of v :: 'm pgsql_drv \<Rightarrow> drv_caps_t"
  for fuel and api :: "'m pgsql_api" and sent v
proof (unfold_locales, goal_cases)
  case (1 c st con q)
  then show ?case using pgsql_query_accepted [of api sent v c st con q] by (auto simp: pgsql_ops_def)
next
  case (2 c st)
  then show ?case using pgsql_describes [of api sent v c st] by (auto simp: pgsql_ops_def layer_same_def pgsql_ready_def)
next
  case (3 c st st')
  then show ?case by (auto simp: pgsql_ready_def)
qed

lemma length_join_sep_le: "length (join_sep d xs) \<le> sum_list (map length xs) + (length xs - 1)"
  by (induction d xs rule: join_sep.induct) simp_all

lemma bulk_chunks_single:
  "length base + sum_list (map length (pend @ rows)) + length (pend @ rows) < BULK_PACKET_SIZE \<Longrightarrow> length (bulk_chunks base pend rows) \<le> 1"
proof (induction rows arbitrary: pend)
  case (Cons r rs)
  have "length (bulk_text base (pend @ [r])) + 1 \<le> BULK_PACKET_SIZE"
    using Cons.prems length_join_sep_le [of "CHR '',''" "pend @ [r]"] by (simp add: bulk_text_def)
  then show ?case
    using Cons.IH [of "pend @ [r]"] Cons.prems by simp
qed simp

text \<open>
  Multi-row inserts through the PostgreSQL driver lose and reorder nothing, whatever the version of the server: the statements it receives carry non-empty groups of
  rows, each statement shorter than the packet size, and the groups together are exactly the rows, in order. For a server before version 8.2, which has no multi-row inserts,
  the driver says so when it is asked for its capabilities, but the layer sends the same groups.
\<close>

lemma pgsql_bulk_insert:
  assumes "pgsql_ready api sent v c st" and "attached drvs (pgsql_ops fuel api) c st con"
    and "os_mem (pg_opts (ds_pg st)) = []" and "\<not> needs_commit (pgsql_drv_caps (ds_drv st))"
    and "cstring base" and "length base < BULK_PACKET_SIZE"
    and "\<forall>r\<in>set rows. cstring r \<and> length base + length r < BULK_PACKET_SIZE"
  shows "\<exists>caps st0 st1 st2 st3 chunks. pgsql_drv_describe api st = Inr ((0, caps), st0) \<and> (v < 80200 \<longrightarrow> \<not> multi_rows_insert caps) \<and>
           db_bulk_insert_init drvs c base st = Inr (0, st1) \<and> db_bulk_insert_rows drvs c rows st1 = Inr (0, st2) \<and>
           db_bulk_insert_done drvs c st2 = Inr st3 \<and>
           sent (plib st3) = sent (plib st) @ map (\<lambda>ch. base @ join_sep CHR '','' ch) chunks \<and> concat chunks = rows \<and>
           list_all (\<lambda>ch. ch \<noteq> [] \<and> length (base @ join_sep CHR '','' ch) < BULK_PACKET_SIZE) chunks \<and>
           (length base + sum_list (map length rows) + length rows < BULK_PACKET_SIZE \<longrightarrow> length chunks \<le> 1)"
proof -
  obtain st0 where d: "pgsql_drv_describe api st = Inr ((0, pgsql_caps_of v (ds_drv st)), st0)"
    using pgsql_describes [OF assms(1)] by blast
  obtain st1 st2 st3 where s: "db_bulk_insert_init drvs c base st = Inr (0, st1)" "db_bulk_insert_rows drvs c rows st1 = Inr (0, st2)"
      "db_bulk_insert_done drvs c st2 = Inr st3" "sent (plib st3) = sent (plib st) @ bulk_script 0 0 base [] rows"
    using pgsql_accepting.bulk_load_sends [OF assms(1-3,5-7)] assms(4) by (auto simp: pgsql_caps_of_def)
  have "list_all (\<lambda>ch. ch \<noteq> [] \<and> length (bulk_text base ch) < BULK_PACKET_SIZE) (bulk_chunks base [] rows)"
    using bulk_chunks_fit [of "[]" base rows] assms(7) by (auto simp: list_all_iff)
  moreover have "length base + sum_list (map length rows) + length rows < BULK_PACKET_SIZE \<Longrightarrow> length (bulk_chunks base [] rows) \<le> 1"
    using bulk_chunks_single [of base "[]" rows] by simp
  ultimately show ?thesis
    using d s concat_bulk_chunks [of base "[]" rows]
    by (intro exI [of _ "pgsql_caps_of v (ds_drv st)"] exI [of _ st0] exI [of _ st1] exI [of _ st2] exI [of _ st3] exI [of _ "bulk_chunks base [] rows"])
      (simp add: bulk_script_chunks bulk_text_def pgsql_caps_of_def)
qed

text \<open>A server that records what it receives, and a driver with one open connection.\<close>

datatype pg_call =
    Sent string
  | Prepared "string option" "string option" int "u32 list option"
  | Executed "string option" int "string option list option"

definition sample_pg_api :: "pg_call list pgsql_api" where
  "sample_pg_api =
     \<lparr>pq_setdbLogin = (\<lambda>_ m. (Some 3, m)), pq_status_ok = (\<lambda>_ _. True), pq_errorMessage = (\<lambda>_ _. ''ERROR:  deadlock detected''),
      pq_finish = (\<lambda>_. id), pq_serverVersion = (\<lambda>_ _. 80100), pq_prepare = (\<lambda>_ name q n ts m. (Some 1, m @ [Prepared name q n ts])),
      pq_execPrepared = (\<lambda>_ name n vs m. (Some 2, m @ [Executed name n vs])), pq_exec = (\<lambda>_ q m. (Some 2, m @ [Sent q])),
      pq_resultStatus = (\<lambda>_ _. 1), pq_ntuples = (\<lambda>_ _. 0), pq_nfields = (\<lambda>_ _. 0), pq_getvalue = (\<lambda>_ _ _. id), pq_clear = (\<lambda>_. id),
      PGRES_COMMAND_OK = 1, PGRES_TUPLES_OK = 2\<rparr>"

definition pg_queries :: "pg_call list \<Rightarrow> string list" where
  "pg_queries calls = List.map_filter (\<lambda>x. case x of Sent q \<Rightarrow> Some q | _ \<Rightarrow> None) calls"

definition sample_pdrv :: "pg_call list pgsql_drv" where
  "sample_pdrv =
     \<lparr>p_args = \<lparr>pa_host = Some ''localhost'', pa_port = Some ''5432'', pa_user = Some ''sbtest'', pa_password = Some [], pa_db = Some ''sbtest''\<rparr>,
      p_use_ps = True, pgsql_drv_caps = pgsql_caps, p_stmts = (\<lambda>_. None), p_lib = []\<rparr>"

definition sample_pcon :: db_conn_t where
  "sample_pcon = con_zero\<lparr>con_driver := Some 0, con_ptr := Some 3\<rparr>"

definition sample_pgsql :: "pg_call list pst" where
  "sample_pgsql = (sample_db sample_pdrv)\<lparr>ds_conns := [1 \<mapsto> sample_pcon], ds_next := 9\<rparr>"

definition sample_pdrvs :: "pg_call list pgsql_drv db_driver_t list" where
  "sample_pdrvs = register_driver_pgsql 200 sample_pg_api []"

lemma sample_pgsql_ready:
  "pgsql_ready sample_pg_api pg_queries 80100 1 sample_pgsql" "attached sample_pdrvs (pgsql_ops 200 sample_pg_api) 1 sample_pgsql sample_pcon"
  "os_mem (pg_opts (ds_pg sample_pgsql)) = []" "\<not> needs_commit (pgsql_drv_caps (ds_drv sample_pgsql))" "logger_ready (pg_w (ds_pg sample_pgsql))"
  using sample_world_ready
  by (simp_all add: pgsql_ready_def pgsql_accepts_def pg_done_ok_def sample_pg_api_def sample_pgsql_def sample_db_def sample_pdrv_def
      sample_pcon_def pg_queries_def List.map_filter_def attached_def sample_pdrvs_def register_driver_pgsql_def pgsql_driver_def con_zero_def
      sample_world_def sample_globals_def empty_opts_def pgsql_caps_def)

lemma pgsql_bulk_insert_witness:
  "\<exists>caps st0 st1 st2 st3 chunks. pgsql_drv_describe sample_pg_api sample_pgsql = Inr ((0, caps), st0) \<and> \<not> multi_rows_insert caps \<and>
     db_bulk_insert_init sample_pdrvs 1 ''INSERT INTO t VALUES'' sample_pgsql = Inr (0, st1) \<and>
     db_bulk_insert_rows sample_pdrvs 1 [''(1)'', ''(2)''] st1 = Inr (0, st2) \<and> db_bulk_insert_done sample_pdrvs 1 st2 = Inr st3 \<and>
     pg_queries (plib st3) = map (\<lambda>ch. ''INSERT INTO t VALUES'' @ join_sep CHR '','' ch) chunks \<and> concat chunks = [''(1)'', ''(2)''] \<and>
     length chunks \<le> 1"
proof -
  have "\<forall>r\<in>set [''(1)'', ''(2)'']. cstring r \<and> length ''INSERT INTO t VALUES'' + length r < BULK_PACKET_SIZE"
    by (simp add: cstring_def BULK_PACKET_SIZE_def)
  moreover have "cstring ''INSERT INTO t VALUES''" "length ''INSERT INTO t VALUES'' < BULK_PACKET_SIZE"
    by (simp_all add: cstring_def BULK_PACKET_SIZE_def)
  moreover have "pg_queries (plib sample_pgsql) = []"
    by (simp add: sample_pgsql_def sample_db_def sample_pdrv_def pg_queries_def List.map_filter_def)
  moreover have "(80100 :: int) < 80200" "length ''INSERT INTO t VALUES'' + sum_list (map length [''(1)'', ''(2)'']) + length [''(1)'', ''(2)''] < BULK_PACKET_SIZE"
    by (simp_all add: BULK_PACKET_SIZE_def)
  ultimately show ?thesis
    using pgsql_bulk_insert [OF sample_pgsql_ready(1-4), of "''INSERT INTO t VALUES''" "[''(1)'', ''(2)'']"] by (simp only: append_Nil simp_thms) blast
qed

section \<open>Prepared statements on the server\<close>

lemma sint_count: "n < 2 ^ 31 \<Longrightarrow> sint (of_nat n :: u32) = int n"
  by (simp add: signed_of_nat signed_take_bit_int_eq_self)

lemma malloc_succeeds: "os_mem (pg_opts (ds_pg st)) = [] \<Longrightarrow> d_malloc st = (True, st)"
  by (simp add: d_malloc_def)

lemma strdup_succeeds: "os_mem (pg_opts (ds_pg st)) = [] \<Longrightarrow> d_strdup s st = (Some s, st)"
  by (simp add: d_strdup_def malloc_succeeds)

lemma alloc_pvalues_succeeds:
  "os_mem (pg_opts (ds_pg st)) = [] \<Longrightarrow> alloc_pvalues n vs st = ((True, vs @ replicate n (Some Unwritten)), st)"
  by (induction n arbitrary: vs) (simp_all add: malloc_succeeds)

text \<open>The statement with its question marks numbered.\<close>

definition question_marks :: "string \<Rightarrow> nat" where
  "question_marks q = length (filter (\<lambda>c. c = CHR ''?'') q)"

definition numbered :: "string \<Rightarrow> string" where
  "numbered q = substitute (map placeholder [0..<question_marks q]) q"

lemma prints_placeholders: "prints put_placeholder (map placeholder [0..<n])"
  by (simp add: prints_def put_placeholder_def Let_def)

lemma fill_placeholders:
  assumes "query \<noteq> []" and "length (numbered query) + 1 < 2 ^ 30" and "length query + 45 \<le> fuel"
  shows "fill_loop put_placeholder fuel 0 query [] 0 True [] = Inr (Some (numbered query, question_marks query), [])"
  using fill_loop_text [OF prints_placeholders, of query "question_marks query"] assms
  by (simp add: numbered_def question_marks_def)

lemma length_placeholder: "0 < length (placeholder v)"
  by (simp add: placeholder_def)

text \<open>A statement on an open connection.\<close>

definition on_con :: "nat \<Rightarrow> nat \<Rightarrow> nat \<Rightarrow> db_stmt_t \<Rightarrow> 'm pst \<Rightarrow> bool" where
  "on_con s c h stmt st \<longleftrightarrow>
     ds_stmts st s = Some stmt \<and> st_connection stmt = Some c \<and> (\<exists>con. ds_conns st c = Some con \<and> con_ptr con = Some h) \<and>
     os_mem (pg_opts (ds_pg st)) = []"

lemma on_con_pgcon: "on_con s c h stmt st \<Longrightarrow> stmt_pgcon s st = Inr (Some h)"
  by (auto simp: on_con_def stmt_pgcon_def stmt_con_def stmt_at_def con_at_def)

text \<open>The statement after it was prepared on the client's side, and after its parameters were bound.\<close>

definition pg_prepared :: "nat \<Rightarrow> nat \<Rightarrow> nat \<Rightarrow> string \<Rightarrow> string \<Rightarrow> nat \<Rightarrow> 'm pst \<Rightarrow> bool" where
  "pg_prepared s c h name q n st \<longleftrightarrow>
     (\<exists>stmt a. on_con s c h stmt st \<and> \<not> st_emulated stmt \<and> st_query stmt = Some q \<and> st_ptr stmt = Some a \<and>
        p_stmts (ds_drv st) a = Some (pg_stmt_zero\<lparr>ps_name := Pg_at name, ps_nparams := int n\<rparr>))"

definition pg_bound :: "nat \<Rightarrow> nat \<Rightarrow> nat \<Rightarrow> string \<Rightarrow> db_bind_t list \<Rightarrow> pg_buf option list \<Rightarrow> 'm pst \<Rightarrow> bool" where
  "pg_bound s c h name ps bufs st \<longleftrightarrow>
     (\<exists>stmt a pgstmt. on_con s c h stmt st \<and> \<not> st_emulated stmt \<and> st_bound_param stmt = Some ps \<and> st_ptr stmt = Some a \<and>
        p_stmts (ds_drv st) a = Some pgstmt \<and> ps_name pgstmt = Pg_at name \<and> ps_nparams pgstmt = int (length ps) \<and>
        ps_pvalues pgstmt = Pg_at bufs \<and> length bufs = length ps)"

lemma pgsql_prepare_numbers:
  assumes "on_con s c h stmt st" and "\<not> st_emulated stmt" and "p_use_ps (ds_drv st)"
    and "question_marks query \<noteq> 0" and "length (numbered query) + 1 < 2 ^ 30" and "length query + 45 \<le> fuel" and "question_marks query < 2 ^ 31"
  shows "\<exists>name st'. pgsql_drv_prepare fuel api s query st = Inr (0, st') \<and>
           pg_prepared s c h name (numbered query) (question_marks query) st' \<and> plib st' = plib st \<and> ds_conns st' = ds_conns st \<and> thread_stats st' = thread_stats st"
proof -
  let ?n = "question_marks query"
  obtain con where at: "ds_stmts st s = Some stmt" "st_connection stmt = Some c" "ds_conns st c = Some con" "con_ptr con = Some h"
      "os_mem (pg_opts (ds_pg st)) = []"
    using assms(1) by (auto simp: on_con_def)
  have "query \<noteq> []"
    using assms(4) by (auto simp: question_marks_def)
  note fill = fill_placeholders [OF this assms(5,6)]
  have n: "sint (of_nat ?n :: u32) = int ?n"
    using assms(7) by (rule sint_count)
  have mem: "st\<lparr>ds_pg := set_opts ((pg_opts (ds_pg st))\<lparr>os_mem := []\<rparr>) (ds_pg st)\<rparr> = st"
    using at(5) by simp
  obtain name r where name: "get_unique_stmt_name 32 (pg_rand (ds_pg st)) = (name, r)"
    by fastforce
  let ?st1 = "st\<lparr>ds_stmts := (ds_stmts st)(s := Some (stmt\<lparr>st_query := Some (numbered query)\<rparr>))\<rparr>"
  let ?st2 = "?st1\<lparr>ds_pg := (ds_pg st)\<lparr>pg_rand := r\<rparr>\<rparr>"
  let ?ps = "pg_stmt_zero\<lparr>ps_name := Pg_at name, ps_nparams := int ?n\<rparr>"
  let ?st3 = "put_pgstmt (ds_next st) ?ps (?st2\<lparr>ds_next := ds_next st + 1\<rparr>)"
  let ?stmt = "stmt\<lparr>st_query := Some (numbered query), st_ptr := Some (ds_next st)\<rparr>"
  let ?st4 = "?st3\<lparr>ds_stmts := (ds_stmts st)(s := Some ?stmt)\<rparr>"
  have "pgsql_drv_prepare fuel api s query st = Inr (0, ?st4)"
    using at assms(3,4) fill n mem name on_con_pgcon [OF assms(1)]
    by (simp add: pgsql_drv_prepare_def strdup_succeeds malloc_succeeds upd_stmt_def stmt_at_def ptr_of_def Let_def put_pgstmt_def upd_p_def)
  moreover have "on_con s c h ?stmt ?st4"
    using at by (simp add: on_con_def put_pgstmt_def upd_p_def)
  ultimately show ?thesis
    using assms(2) by (intro exI [of _ name] exI [of _ ?st4]) (auto simp: pg_prepared_def put_pgstmt_def upd_p_def intro!: exI [of _ ?stmt])
qed

text \<open>The types of the parameters as the library gets them.\<close>

definition pg_types :: "db_bind_t list \<Rightarrow> u32 list" where
  "pg_types = map (\<lambda>p. word_of_int (get_pgsql_bind_type (b_type p)))"

lemma pgsql_bind_prepares:
  assumes "pg_prepared s c h name q (length ps) st" and "length ps < 2 ^ 31"
    and "pq_prepare api (Some h) (Some name) (Some q) (int (length ps)) (Some (pg_types ps)) (plib st) = (r, m)"
    and "pq_resultStatus api r m = PGRES_COMMAND_OK api"
  shows "\<exists>st'. pgsql_drv_bind_param api s ps (of_nat (length ps)) st = Inr (0, st') \<and>
           pg_bound s c h name ps (replicate (length ps) (Some Unwritten)) st' \<and> plib st' = m \<and> ds_conns st' = ds_conns st \<and> thread_stats st' = thread_stats st"
proof -
  let ?ps = "pg_stmt_zero\<lparr>ps_name := Pg_at name, ps_nparams := int (length ps)\<rparr>"
  obtain stmt a con where at: "ds_stmts st s = Some stmt" "st_connection stmt = Some c" "ds_conns st c = Some con" "con_ptr con = Some h"
      "os_mem (pg_opts (ds_pg st)) = []" "\<not> st_emulated stmt" "st_query stmt = Some q" "st_ptr stmt = Some a" "p_stmts (ds_drv st) a = Some ?ps"
    using assms(1) by (auto simp: pg_prepared_def on_con_def)
  have pgcon: "stmt_pgcon s st = Inr (Some h)"
    using assms(1) on_con_pgcon by (auto simp: pg_prepared_def)
  have n: "unat (of_nat (length ps) :: u32) = length ps" "(word_of_int (int (length ps)) :: u32) = of_nat (length ps)"
    using assms(2) by (simp_all add: unat_of_nat_u32)
  let ?stmt = "stmt\<lparr>st_bound_param := Some ps, st_bound_param_len := of_nat (length ps)\<rparr>"
  let ?st1 = "st\<lparr>ds_stmts := (ds_stmts st)(s := Some ?stmt)\<rparr>"
  let ?st2 = "put_pgstmt a (?ps\<lparr>ps_ptypes := Pg_at (pg_types ps)\<rparr>) ?st1"
  let ?st3 = "upd_p (\<lambda>d. d\<lparr>p_lib := m\<rparr>) ?st2"
  let ?ps' = "?ps\<lparr>ps_ptypes := Pg_at (pg_types ps), ps_pvalues := Pg_at (replicate (length ps) (Some Unwritten)), ps_prepared := True\<rparr>"
  let ?st4 = "put_pgstmt a ?ps' ?st3"
  have prep: "pgsql_do_prepare api (Some h) (Some name) (Some q) (int (length ps)) (Some (pg_types ps)) ?st2 = Inr (True, ?st3)"
    using assms(3,4) by (simp add: pgsql_do_prepare_def pq_call_def upd_p_def put_pgstmt_def)
  have "pgsql_drv_bind_param api s ps (of_nat (length ps)) st = Inr (0, ?st4)"
    using at n prep pgcon
    by (simp add: pgsql_drv_bind_param_def malloc_succeeds upd_stmt_def stmt_at_def pgstmt_at_def pg_stmt_zero_def Let_def ptr_arg_def
        alloc_pvalues_succeeds put_pgstmt_def upd_p_def pg_types_def)
  moreover have "on_con s c h ?stmt ?st4"
    using at by (simp add: on_con_def put_pgstmt_def upd_p_def)
  ultimately show ?thesis
    using at(6-9) by (intro exI [of _ ?st4]) (auto simp: pg_bound_def put_pgstmt_def upd_p_def intro!: exI [of _ ?stmt])
qed

text \<open>
  The text of a value as it is stored for the library: a string as it is, another value as it would be printed into a statement, both with less than 256 characters.
\<close>

definition sendable :: "vars \<Rightarrow> db_bind_t \<Rightarrow> string \<Rightarrow> bool" where
  "sendable vars p t \<longleftrightarrow> length t < MAX_PARAM_LENGTH \<and>
     (if b_type p \<in> {DB_TYPE_CHAR, DB_TYPE_VARCHAR}
      then \<exists>a rest. b_buffer p = Some a \<and> vars a = Some (String_data (t @ CHR 0x00 # rest)) \<and> CHR 0x00 \<notin> set t
      else b_type p \<noteq> DB_TYPE_NONE \<and> bind_text vars p = Inr t)"

lemma sendable_buf: "sendable vars p t \<Longrightarrow> param_buf vars p (Some b) = Inr (Some (Holds t))"
proof -
  assume s: "sendable vars p t"
  have "takeWhile (\<lambda>c. c \<noteq> CHR 0x00) (t @ CHR 0x00 # rest) = t" if "CHR 0x00 \<notin> set t" for rest
    using that by (induction t) auto
  then show ?thesis
    using s by (auto simp: sendable_def param_buf_def var_at_def strncpy_buf_def db_print_value_def snprintf_text_def MAX_PARAM_LENGTH_def split: if_splits)
qed

text \<open>The buffers after a value was stored for every parameter without a NULL flag.\<close>

definition stored_bufs :: "db_bind_t list \<Rightarrow> string list \<Rightarrow> pg_buf option list \<Rightarrow> pg_buf option list" where
  "stored_bufs ps ts bufs = map (\<lambda>i. if b_is_null (ps ! i) = None then Some (Holds (ts ! i)) else bufs ! i) [0..<length ps]"

lemma store_params:
  assumes "length ts = length ps" and "length bufs = length ps" and "None \<notin> set bufs"
    and "\<forall>i<length ps. b_is_null (ps ! i) = None \<longrightarrow> sendable vars (ps ! i) (ts ! i)"
  shows "rfold (store_param vars (Some ps)) [0..<length ps] (Pg_at bufs) = Inr (Pg_at (stored_bufs ps ts bufs))"
proof -
  have "rfold (store_param vars (Some ps)) [0..<k] (Pg_at bufs) =
      Inr (Pg_at (map (\<lambda>i. if i < k \<and> b_is_null (ps ! i) = None then Some (Holds (ts ! i)) else bufs ! i) [0..<length ps]))"
    if "k \<le> length ps" for k
    using that
  proof (induction k)
    case 0
    then show ?case
      using map_nth [of bufs] by (simp add: assms(2))
  next
    case (Suc k)
    let ?bufs = "\<lambda>k. map (\<lambda>i. if i < k \<and> b_is_null (ps ! i) = None then Some (Holds (ts ! i)) else bufs ! i) [0..<length ps]"
    have k: "k < length ps"
      using Suc.prems by simp
    obtain b where b: "bufs ! k = Some b"
      using assms(2,3) k by (metis nth_mem option.exhaust)
    have "store_param vars (Some ps) k (Pg_at (?bufs k)) = Inr (Pg_at (?bufs (Suc k)))"
    proof (cases "b_is_null (ps ! k) = None")
      case True
      have "(?bufs k)[k := Some (Holds (ts ! k))] = ?bufs (Suc k)"
        using k True by (intro nth_equalityI) (auto simp: nth_list_update less_Suc_eq)
      then show ?thesis
        using True k b sendable_buf [of vars "ps ! k" "ts ! k"] assms(4) by (simp add: store_param_def)
    next
      case False
      have "?bufs k = ?bufs (Suc k)"
        using False by (auto simp: less_Suc_eq)
      then show ?thesis
        using False k by (simp add: store_param_def)
    qed
    then show ?case
      using Suc.IH k by (simp add: rfold_append)
  qed
  then show ?thesis
    by (simp add: stored_bufs_def)
qed

lemma read_bufs_hold: "read_bufs (map (\<lambda>t. Some (Holds t)) ts) = Inr (map Some ts)"
  by (induction ts) (simp_all add: read_buf_def)

lemma read_bufs_unwritten:
  "Some Unwritten \<in> set bs \<Longrightarrow> set bs \<subseteq> {Some Unwritten} \<union> {Some (Holds t) | t. True} \<Longrightarrow> read_bufs bs = Inl Uninit_read"
  by (induction bs) (auto simp: read_buf_def)

lemma stored_bufs_all: "\<forall>p\<in>set ps. b_is_null p = None \<Longrightarrow> length ts = length ps \<Longrightarrow> stored_bufs ps ts bufs = map (\<lambda>t. Some (Holds t)) ts"
  by (intro nth_equalityI) (simp_all add: stored_bufs_def)

lemma pgsql_execute_sends:
  assumes "pg_bound s c h name ps bufs st" and "None \<notin> set bufs" and "length ps < 2 ^ 31"
    and "\<forall>p\<in>set ps. b_is_null p = None" and "list_all2 (sendable (ds_vars st)) ps ts"
    and "pq_execPrepared api (Some h) (Some name) (int (length ps)) (Some (map Some ts)) (plib st) = (r, m)" and "pg_done_ok api (r, m)"
  shows "\<exists>st'. pgsql_drv_execute fuel api s c st = Inr (SB_DB_ERROR_NONE, st') \<and>
           pg_bound s c h name ps (map (\<lambda>t. Some (Holds t)) ts) st' \<and> plib st' = m \<and> con_kept c st st'"
proof -
  obtain stmt a pgstmt con where at: "ds_stmts st s = Some stmt" "st_connection stmt = Some c" "ds_conns st c = Some con" "con_ptr con = Some h"
      "os_mem (pg_opts (ds_pg st)) = []" "\<not> st_emulated stmt" "st_bound_param stmt = Some ps" "st_ptr stmt = Some a"
      "p_stmts (ds_drv st) a = Some pgstmt" "ps_name pgstmt = Pg_at name" "ps_nparams pgstmt = int (length ps)" "ps_pvalues pgstmt = Pg_at bufs"
      "length bufs = length ps"
    using assms(1) by (auto simp: pg_bound_def on_con_def)
  have len: "length ts = length ps" "\<forall>i<length ps. sendable (ds_vars st) (ps ! i) (ts ! i)"
    using assms(5) by (auto simp: list_all2_conv_all_nth)
  have n: "unat (word_of_int (int (length ps)) :: u32) = length ps"
    using assms(3) by (simp add: unat_of_nat_u32)
  have store: "rfold (store_param (ds_vars st) (Some ps)) [0..<length ps] (Pg_at bufs) = Inr (Pg_at (map (\<lambda>t. Some (Holds t)) ts))"
    using store_params [OF len(1) at(13) assms(2)] len assms(4) stored_bufs_all by simp
  have vals: "values_arg (Pg_at (map (\<lambda>t. Some (Holds t)) ts)) = Inr (Some (map Some ts))"
    by (simp add: values_arg_def ptr_arg_def read_bufs_hold)
  let ?st1 = "put_pgstmt a (pgstmt\<lparr>ps_pvalues := Pg_at (map (\<lambda>t. Some (Holds t)) ts)\<rparr>) st"
  let ?st2 = "upd_p (\<lambda>d. d\<lparr>p_lib := m\<rparr>) ?st1"
  let ?st3 = "?st2\<lparr>ds_conns := (ds_conns st)(c := Some (con\<lparr>con_rs := (con_rs con)\<lparr>rs_ptr := r\<rparr>\<rparr>))\<rparr>"
  have "pq_call (pq_execPrepared api (Some h) (Some name) (int (length ps)) (Some (map Some ts))) ?st1 = (r, ?st2)"
    using assms(6) by (simp add: pq_call_def put_pgstmt_def upd_p_def)
  moreover have "pgsql_check_status api (Some h) r ''PQexecPrepared'' ?st2 = Inr (SB_DB_ERROR_NONE, ?st2)"
    using assms(7) by (intro pgsql_check_ok) (simp add: upd_p_def)
  moreover have "upd_rs c (\<lambda>q. q\<lparr>rs_ptr := r\<rparr>) ?st2 = Inr ?st3"
    using at(3) by (simp add: upd_rs_def upd_con_def con_at_def put_pgstmt_def upd_p_def)
  ultimately have "pgsql_drv_execute fuel api s c st = Inr (SB_DB_ERROR_NONE, ?st3)"
    using at n store vals
    by (simp add: pgsql_drv_execute_def stmt_con_def stmt_at_def con_at_def pgstmt_at_def ptr_arg_def Let_def)
  moreover have "pg_bound s c h name ps (map (\<lambda>t. Some (Holds t)) ts) ?st3"
    using at len(1) by (auto simp: pg_bound_def on_con_def put_pgstmt_def upd_p_def intro!: exI [of _ stmt])
  moreover have "con_kept c st ?st3"
    using at(3) by (auto simp: con_kept_def put_pgstmt_def upd_p_def)
  ultimately show ?thesis
    by (intro exI [of _ ?st3]) (simp add: upd_p_def)
qed

lemma pgsql_execute_unwritten:
  assumes "pg_bound s c h name ps (replicate (length ps) (Some Unwritten)) st" and "length ps < 2 ^ 31" and "length ts = length ps"
    and "\<forall>i<length ps. b_is_null (ps ! i) = None \<longrightarrow> sendable (ds_vars st) (ps ! i) (ts ! i)" and "\<exists>p\<in>set ps. b_is_null p \<noteq> None"
  shows "pgsql_drv_execute fuel api s c st = Inl Uninit_read"
proof -
  let ?bufs = "replicate (length ps) (Some Unwritten)"
  obtain stmt a pgstmt con where at: "ds_stmts st s = Some stmt" "st_connection stmt = Some c" "ds_conns st c = Some con"
      "\<not> st_emulated stmt" "st_bound_param stmt = Some ps" "st_ptr stmt = Some a" "p_stmts (ds_drv st) a = Some pgstmt"
      "ps_name pgstmt = Pg_at name" "ps_nparams pgstmt = int (length ps)" "ps_pvalues pgstmt = Pg_at ?bufs"
    using assms(1) by (auto simp: pg_bound_def on_con_def)
  have n: "unat (word_of_int (int (length ps)) :: u32) = length ps"
    using assms(2) by (simp add: unat_of_nat_u32)
  have store: "rfold (store_param (ds_vars st) (Some ps)) [0..<length ps] (Pg_at ?bufs) = Inr (Pg_at (stored_bufs ps ts ?bufs))"
    using store_params [OF assms(3) _ _ assms(4), of ?bufs] by auto
  have "Some Unwritten \<in> set (stored_bufs ps ts ?bufs)"
    using assms(5) by (force simp: stored_bufs_def in_set_conv_nth)
  then have "read_bufs (stored_bufs ps ts ?bufs) = Inl Uninit_read"
    by (rule read_bufs_unwritten) (auto simp: stored_bufs_def)
  then show ?thesis
    using at n store
    by (simp add: pgsql_drv_execute_def stmt_con_def stmt_at_def con_at_def pgstmt_at_def ptr_arg_def values_arg_def Let_def)
qed

text \<open>What libpq promises when the server accepts every prepared statement; \<open>calls m\<close> are the calls it has received.\<close>

definition pgsql_prepares :: "'m pgsql_api \<Rightarrow> ('m \<Rightarrow> pg_call list) \<Rightarrow> bool" where
  "pgsql_prepares api calls \<longleftrightarrow>
     (\<forall>con name q n ts m r m'. pq_prepare api con name q n ts m = (r, m') \<longrightarrow>
        pq_resultStatus api r m' = PGRES_COMMAND_OK api \<and> calls m' = calls m @ [Prepared name q n ts]) \<and>
     (\<forall>con name n vs m r m'. pq_execPrepared api con name n vs m = (r, m') \<longrightarrow>
        pg_done_ok api (r, m') \<and> calls m' = calls m @ [Executed name n vs])"

lemma pg_bound_frame:
  "pg_bound s c h name ps bufs st \<Longrightarrow> ds_stmts st' = ds_stmts st \<Longrightarrow> ds_drv st' = ds_drv st \<Longrightarrow> ds_pg st' = ds_pg st \<Longrightarrow>
   map_option con_ptr (ds_conns st' c) = map_option con_ptr (ds_conns st c) \<Longrightarrow> pg_bound s c h name ps bufs st'"
  by (auto simp: pg_bound_def on_con_def)

lemma pg_bound_vars [simp]: "pg_bound s c h name ps bufs (st\<lparr>ds_vars := v\<rparr>) = pg_bound s c h name ps bufs st"
  by (simp add: pg_bound_def on_con_def)

lemma attached_vars [simp]: "attached drvs ops c (st\<lparr>ds_vars := v\<rparr>) con = attached drvs ops c st con"
  by (simp add: attached_def)

lemma db_execute_bound:
  assumes "pg_bound s c h name ps bufs st" and "None \<notin> set bufs" and "length ps < 2 ^ 31"
    and "\<forall>p\<in>set ps. b_is_null p = None" and "list_all2 (sendable (ds_vars st)) ps ts"
    and "pgsql_prepares api calls" and "attached drvs (pgsql_ops fuel api) c st con"
  shows "\<exists>st' con'. db_execute drvs s st = Inr (Some c, st') \<and> pg_bound s c h name ps (map (\<lambda>t. Some (Holds t)) ts) st' \<and>
           attached drvs (pgsql_ops fuel api) c st' con' \<and>
           calls (plib st') = calls (plib st) @ [Executed (Some name) (int (length ps)) (Some (map Some ts))]"
proof -
  obtain stmt where stmt: "ds_stmts st s = Some stmt" "st_connection stmt = Some c"
    using assms(1) by (auto simp: pg_bound_def on_con_def)
  have at: "ds_conns st c = Some con"
    using assms(7) by (simp add: attached_def)
  let ?rs = "rs_zero\<lparr>rs_statement := Some s, rs_connection := Some c\<rparr>"
  let ?st1 = "st\<lparr>ds_conns := (ds_conns st)(c := Some (con\<lparr>con_rs := ?rs\<rparr>))\<rparr>"
  have bound1: "pg_bound s c h name ps bufs ?st1"
    using pg_bound_frame [OF assms(1), of ?st1] at by simp
  obtain r m where x: "pq_execPrepared api (Some h) (Some name) (int (length ps)) (Some (map Some ts)) (plib ?st1) = (r, m)"
    by fastforce
  then have ok: "pg_done_ok api (r, m)" "calls m = calls (plib st) @ [Executed (Some name) (int (length ps)) (Some (map Some ts))]"
    using assms(6) by (auto simp: pgsql_prepares_def)
  obtain st2 where st2: "pgsql_drv_execute fuel api s c ?st1 = Inr (SB_DB_ERROR_NONE, st2)"
      "pg_bound s c h name ps (map (\<lambda>t. Some (Holds t)) ts) st2" "plib st2 = m" "con_kept c ?st1 st2"
    using pgsql_execute_sends [OF bound1 assms(2-4) _ x ok(1)] assms(5) by auto
  obtain q where kept: "ds_conns st2 c = Some (con\<lparr>con_rs := q\<rparr>)" "thread_stats st2 = thread_stats st"
    using st2(4) by (auto simp: con_kept_def)
  let ?con3 = "con\<lparr>con_rs := q, con_errno := SB_DB_ERROR_NONE\<rparr>"
  let ?st3 = "st2\<lparr>ds_conns := (ds_conns st2)(c := Some ?con3)\<rparr>"
  obtain stmt2 where stmt2: "ds_stmts st2 s = Some stmt2"
    using st2(2) by (auto simp: pg_bound_def on_con_def)
  obtain ts0 where ts0: "thread_stats st = Some ts0" "con_thread_id con < int (length ts0)"
    using assms(7) by (auto simp: attached_def)
  obtain ts' where st4: "db_count_ok c (st_type stmt2) ?st3 = Inr (?st3\<lparr>thread_stats := Some ts'\<rparr>)" "length ts' = length ts0"
    using db_count_ok_succeeds [of ?st3 c ?con3 ts0] ts0 kept(2) by auto
  let ?st4 = "?st3\<lparr>thread_stats := Some ts'\<rparr>"
  have "db_execute drvs s st = Inr (Some c, ?st4)"
    using stmt at attached_driver [OF assms(7)] st2(1) kept(1) stmt2 st4(1)
    by (simp add: db_execute_def stmt_at_def upd_rs_def upd_con_def con_at_def pgsql_ops_def)
  moreover have "pg_bound s c h name ps (map (\<lambda>t. Some (Holds t)) ts) ?st4"
    using pg_bound_frame [OF st2(2), of ?st4] kept(1) by simp
  moreover have "attached drvs (pgsql_ops fuel api) c ?st4 ?con3"
    using assms(7) ts0 st4(2) by (auto simp: attached_def)
  ultimately show ?thesis
    using st2(3) ok(2) by (intro exI [of _ ?st4] exI [of _ ?con3]) simp
qed

text \<open>A client that changes its variables and executes the statement again, for each of a list of values of the variables.\<close>

fun db_executions :: "'d db_driver_t list \<Rightarrow> nat \<Rightarrow> vars list \<Rightarrow> 'd db_state \<Rightarrow> (bool \<times> 'd db_state) res" where
  "db_executions drvs s [] st = Inr (True, st)"
| "db_executions drvs s (v # vs) st =
     rbind (db_execute drvs s (st\<lparr>ds_vars := v\<rparr>)) (\<lambda>(rs, st). if rs = None then Inr (False, st) else db_executions drvs s vs st)"

lemma db_executions_bound:
  assumes "length ps < 2 ^ 31" and "\<forall>p\<in>set ps. b_is_null p = None" and "pgsql_prepares api calls"
  shows "list_all2 (\<lambda>v ts. list_all2 (sendable v) ps ts) vss tss \<Longrightarrow> pg_bound s c h name ps bufs st \<Longrightarrow> None \<notin> set bufs \<Longrightarrow>
     attached drvs (pgsql_ops fuel api) c st con \<Longrightarrow>
     \<exists>st'. db_executions drvs s vss st = Inr (True, st') \<and>
       calls (plib st') = calls (plib st) @ map (\<lambda>ts. Executed (Some name) (int (length ps)) (Some (map Some ts))) tss"
proof (induction vss tss arbitrary: st bufs con rule: list_all2_induct)
  case (Cons v vs ts tss)
  have "pg_bound s c h name ps bufs (st\<lparr>ds_vars := v\<rparr>)" "attached drvs (pgsql_ops fuel api) c (st\<lparr>ds_vars := v\<rparr>) con"
    using Cons.prems by simp_all
  then obtain st1 con1 where st1: "db_execute drvs s (st\<lparr>ds_vars := v\<rparr>) = Inr (Some c, st1)"
      "pg_bound s c h name ps (map (\<lambda>t. Some (Holds t)) ts) st1" "attached drvs (pgsql_ops fuel api) c st1 con1"
      "calls (plib st1) = calls (plib st) @ [Executed (Some name) (int (length ps)) (Some (map Some ts))]"
    using db_execute_bound [OF _ Cons.prems(2) assms(1,2) _ assms(3), where st = "st\<lparr>ds_vars := v\<rparr>"] Cons.hyps(1) by force
  moreover have "None \<notin> set (map (\<lambda>t. Some (Holds t)) ts)"
    by auto
  ultimately show ?case
    using Cons.IH [OF st1(2) _ st1(3)] by auto
qed simp

lemma db_prepare_numbers:
  assumes "attached drvs (pgsql_ops fuel api) c st con" and "con_ptr con = Some h" and "os_mem (pg_opts (ds_pg st)) = []"
    and "p_use_ps (ds_drv st)" and "question_marks query \<noteq> 0" and "length (numbered query) + 1 < 2 ^ 30" and "length query + 45 \<le> fuel"
    and "question_marks query < 2 ^ 31"
  shows "\<exists>name st'. db_prepare drvs c query st = Inr (Some (ds_next st), st') \<and>
           pg_prepared (ds_next st) c h name (numbered query) (question_marks query) st' \<and> plib st' = plib st \<and>
           attached drvs (pgsql_ops fuel api) c st' con"
proof -
  let ?s = "ds_next st"
  let ?stmt = "stmt_zero\<lparr>st_connection := Some c\<rparr>"
  let ?st1 = "st\<lparr>ds_next := ?s + 1, ds_stmts := (ds_stmts st)(?s := Some ?stmt)\<rparr>"
  have at: "ds_conns st c = Some con"
    using assms(1) by (simp add: attached_def)
  have att1: "attached drvs (pgsql_ops fuel api) c ?st1 con"
    using assms(1) by (simp add: attached_def)
  have "on_con ?s c h ?stmt ?st1" "\<not> st_emulated ?stmt" "p_use_ps (ds_drv ?st1)"
    using at assms(2-4) by (simp_all add: on_con_def stmt_zero_def)
  then obtain name st2 where st2: "pgsql_drv_prepare fuel api ?s query ?st1 = Inr (0, st2)"
      "pg_prepared ?s c h name (numbered query) (question_marks query) st2" "plib st2 = plib st" "ds_conns st2 = ds_conns st"
      "thread_stats st2 = thread_stats st"
    using pgsql_prepare_numbers [OF _ _ _ assms(5-8), of ?s c h ?stmt ?st1 api] by auto
  obtain stmt a where stmt: "on_con ?s c h stmt st2" "\<not> st_emulated stmt" "st_query stmt = Some (numbered query)" "st_ptr stmt = Some a"
      "p_stmts (ds_drv st2) a = Some (pg_stmt_zero\<lparr>ps_name := Pg_at name, ps_nparams := int (question_marks query)\<rparr>)"
    using st2(2) by (auto simp: pg_prepared_def)
  let ?stmt3 = "stmt\<lparr>st_type := db_get_query_type query\<rparr>"
  let ?st3 = "st2\<lparr>ds_stmts := (ds_stmts st2)(?s := Some ?stmt3)\<rparr>"
  have "db_prepare drvs c query st = Inr (Some ?s, ?st3)"
    using attached_driver [OF att1] st2(1) stmt(1) malloc_succeeds [OF assms(3)]
    by (simp add: db_prepare_def Let_def pgsql_ops_def on_con_def upd_stmt_def stmt_at_def)
  moreover have "on_con ?s c h ?stmt3 ?st3"
    using stmt(1) by (simp add: on_con_def)
  then have "pg_prepared ?s c h name (numbered query) (question_marks query) ?st3"
    using stmt(2-5) by (auto simp: pg_prepared_def intro!: exI [of _ ?stmt3])
  moreover have "attached drvs (pgsql_ops fuel api) c ?st3 con"
    using assms(1) st2(4,5) by (simp add: attached_def)
  ultimately show ?thesis
    using st2(3) by (intro exI [of _ name] exI [of _ ?st3]) simp
qed

lemma db_bind_prepares:
  assumes "attached drvs (pgsql_ops fuel api) c st con" and "pg_prepared s c h name q (length ps) st" and "length ps < 2 ^ 31"
    and "pgsql_prepares api calls"
  shows "\<exists>st'. db_bind_param drvs s ps (of_nat (length ps)) st = Inr (0, st') \<and>
           pg_bound s c h name ps (replicate (length ps) (Some Unwritten)) st' \<and> attached drvs (pgsql_ops fuel api) c st' con \<and>
           calls (plib st') = calls (plib st) @ [Prepared (Some name) (Some q) (int (length ps)) (Some (pg_types ps))]"
proof -
  obtain stmt where stmt: "ds_stmts st s = Some stmt" "st_connection stmt = Some c"
    using assms(2) by (auto simp: pg_prepared_def on_con_def)
  obtain r m where x: "pq_prepare api (Some h) (Some name) (Some q) (int (length ps)) (Some (pg_types ps)) (plib st) = (r, m)"
    by fastforce
  then have ok: "pq_resultStatus api r m = PGRES_COMMAND_OK api"
      "calls m = calls (plib st) @ [Prepared (Some name) (Some q) (int (length ps)) (Some (pg_types ps))]"
    using assms(4) by (auto simp: pgsql_prepares_def)
  obtain st' where st': "pgsql_drv_bind_param api s ps (of_nat (length ps)) st = Inr (0, st')"
      "pg_bound s c h name ps (replicate (length ps) (Some Unwritten)) st'" "plib st' = m" "ds_conns st' = ds_conns st" "thread_stats st' = thread_stats st"
    using pgsql_bind_prepares [OF assms(2,3) x ok(1)] by blast
  then show ?thesis
    using stmt attached_driver [OF assms(1)] assms(1) ok(2)
    by (intro exI [of _ st']) (simp add: db_bind_param_def stmt_at_def pgsql_ops_def attached_def)
qed

text \<open>
  (C4) A prepared statement of the PostgreSQL driver sends what was bound: preparing a statement through the layer numbers its question marks in order,
  binding prepares the numbered statement once on the server with the types of the parameters, and each execution sends the values the variables have at that time, in the order of
  the parameters, for any number of executions between which the variables change. No buffer is overrun. The parameters have no NULL flag, and their texts have less than 256 characters.
\<close>

theorem pgsql_statement_transmits:
  assumes "attached drvs (pgsql_ops fuel api) c st con" and "con_ptr con = Some h" and "os_mem (pg_opts (ds_pg st)) = []"
    and "p_use_ps (ds_drv st)" and "pgsql_prepares api calls"
    and "question_marks query = length ps" and "ps \<noteq> []" and "length ps < 2 ^ 31" and "length (numbered query) + 1 < 2 ^ 30" and "length query + 45 \<le> fuel"
    and "\<forall>p\<in>set ps. b_is_null p = None" and "list_all2 (\<lambda>v ts. list_all2 (sendable v) ps ts) vss tss"
  shows "\<exists>s name st1 st2 st3. db_prepare drvs c query st = Inr (Some s, st1) \<and>
           db_bind_param drvs s ps (of_nat (length ps)) st1 = Inr (0, st2) \<and> db_executions drvs s vss st2 = Inr (True, st3) \<and>
           calls (plib st3) = calls (plib st) @
             Prepared (Some name) (Some (numbered query)) (int (length ps)) (Some (pg_types ps)) #
             map (\<lambda>ts. Executed (Some name) (int (length ps)) (Some (map Some ts))) tss"
proof -
  obtain name st1 where st1: "db_prepare drvs c query st = Inr (Some (ds_next st), st1)"
      "pg_prepared (ds_next st) c h name (numbered query) (length ps) st1" "plib st1 = plib st" "attached drvs (pgsql_ops fuel api) c st1 con"
    using db_prepare_numbers [OF assms(1-4) _ assms(9,10)] assms(6-8) by auto
  obtain st2 where st2: "db_bind_param drvs (ds_next st) ps (of_nat (length ps)) st1 = Inr (0, st2)"
      "pg_bound (ds_next st) c h name ps (replicate (length ps) (Some Unwritten)) st2" "attached drvs (pgsql_ops fuel api) c st2 con"
      "calls (plib st2) = calls (plib st) @ [Prepared (Some name) (Some (numbered query)) (int (length ps)) (Some (pg_types ps))]"
    using db_bind_prepares [OF st1(4,2) assms(8,5)] st1(3) by auto
  obtain st3 where "db_executions drvs (ds_next st) vss st2 = Inr (True, st3)"
      "calls (plib st3) = calls (plib st2) @ map (\<lambda>ts. Executed (Some name) (int (length ps)) (Some (map Some ts))) tss"
    using db_executions_bound [OF assms(8,11,5,12) st2(2) _ st2(3)] by auto
  then show ?thesis
    using st1(1) st2(1,4) by (intro exI [of _ "ds_next st"] exI [of _ name] exI [of _ st1] exI [of _ st2] exI [of _ st3]) simp
qed

text \<open>
  A parameter with a NULL flag is never sent, even when the flag is not set: \<^verbatim>\<open>pgsql_drv_execute\<close> looks at the pointer to the flag and not at the
  flag, so that the first execution after binding hands the library a buffer that was never written. This is the case for every number that a script binds.
\<close>

lemma pgsql_flagged_value_unsent:
  assumes "attached drvs (pgsql_ops fuel api) c st con" and "con_ptr con = Some h" and "os_mem (pg_opts (ds_pg st)) = []"
    and "p_use_ps (ds_drv st)" and "pgsql_prepares api calls"
    and "question_marks query = length ps" and "length ps < 2 ^ 31" and "length (numbered query) + 1 < 2 ^ 30" and "length query + 45 \<le> fuel"
    and "length ts = length ps" and "\<forall>i<length ps. b_is_null (ps ! i) = None \<longrightarrow> sendable vars (ps ! i) (ts ! i)" and "\<exists>p\<in>set ps. b_is_null p \<noteq> None"
  shows "\<exists>s st1 st2. db_prepare drvs c query st = Inr (Some s, st1) \<and> db_bind_param drvs s ps (of_nat (length ps)) st1 = Inr (0, st2) \<and>
           db_execute drvs s (st2\<lparr>ds_vars := vars\<rparr>) = Inl Uninit_read"
proof -
  have "length ps \<noteq> 0"
    using assms(12) by auto
  then obtain name st1 where st1: "db_prepare drvs c query st = Inr (Some (ds_next st), st1)"
      "pg_prepared (ds_next st) c h name (numbered query) (length ps) st1" "attached drvs (pgsql_ops fuel api) c st1 con"
    using db_prepare_numbers [OF assms(1-4) _ assms(8,9)] assms(6,7) by auto
  obtain st2 where st2: "db_bind_param drvs (ds_next st) ps (of_nat (length ps)) st1 = Inr (0, st2)"
      "pg_bound (ds_next st) c h name ps (replicate (length ps) (Some Unwritten)) st2" "attached drvs (pgsql_ops fuel api) c st2 con"
    using db_bind_prepares [OF st1(3,2) assms(7,5)] by auto
  let ?st3 = "st2\<lparr>ds_vars := vars\<rparr>"
  let ?st4 = "?st3\<lparr>ds_conns := (ds_conns st2)(c := Some (con\<lparr>con_rs := rs_zero\<lparr>rs_statement := Some (ds_next st), rs_connection := Some c\<rparr>\<rparr>))\<rparr>"
  have at: "ds_conns st2 c = Some con"
    using st2(3) by (simp add: attached_def)
  have att3: "attached drvs (pgsql_ops fuel api) c ?st3 con" and bound3: "pg_bound (ds_next st) c h name ps (replicate (length ps) (Some Unwritten)) ?st3"
    using st2(2,3) by simp_all
  obtain stmt where stmt: "ds_stmts st2 (ds_next st) = Some stmt" "st_connection stmt = Some c"
    using st2(2) by (auto simp: pg_bound_def on_con_def)
  have "pg_bound (ds_next st) c h name ps (replicate (length ps) (Some Unwritten)) ?st4"
    by (rule pg_bound_frame [OF bound3]) (simp_all add: at)
  then have "pgsql_drv_execute fuel api (ds_next st) c ?st4 = Inl Uninit_read"
    using assms(7,10-12) by (intro pgsql_execute_unwritten) simp_all
  then have "db_execute drvs (ds_next st) ?st3 = Inl Uninit_read"
    using stmt at attached_driver [OF att3] by (simp add: db_execute_def stmt_at_def upd_rs_def upd_con_def con_at_def pgsql_ops_def)
  then show ?thesis
    using st1(1) st2(1) by blast
qed

section \<open>Errors\<close>

definition pg_restartable :: "string \<Rightarrow> bool" where
  "pg_restartable msg \<longleftrightarrow> occurs_in ''deadlock detected'' msg \<or> occurs_in ''duplicate key value violates unique constraint'' msg"

text \<open>
  A query that the PostgreSQL server refuses: when the message is about a deadlock or a duplicate key, the transaction is rolled back, the error is counted once in
  the statistics of the thread, and the caller is asked to restart the transaction; after any other message the query has failed, and nothing else is sent or counted.
\<close>

lemma pgsql_refused_query:
  assumes "attached drvs (pgsql_ops fuel api) c st con" and "thread_stats st = Some ts" and "0 \<le> con_thread_id con" and "logger_ready (pg_w (ds_pg st))"
    and "pq_exec api (con_ptr con) q (plib st) = (r, m)" and "\<not> pg_done_ok api (r, m)"
  shows "\<exists>st'. db_query drvs c q st = Inr (None, st') \<and>
           (if pg_restartable (pq_errorMessage api (con_ptr con) m)
            then db_errno c st' = Inr SB_DB_ERROR_RESTART_TRANSACTION \<and> plib st' = snd (pq_exec api (con_ptr con) ''ROLLBACK'' m) \<and>
                 thread_stats st' = Some (ts[nat (con_thread_id con) := (ts ! nat (con_thread_id con))\<lparr>errors := errors (ts ! nat (con_thread_id con)) + 1\<rparr>])
            else db_errno c st' = Inr SB_DB_ERROR_FAILED \<and> plib st' = m \<and> thread_stats st' = Some ts)"
proof -
  let ?i = "nat (con_thread_id con)" and ?msg = "pq_errorMessage api (con_ptr con) m"
  let ?con1 = "con\<lparr>con_rs := rs_zero\<lparr>rs_connection := Some c\<rparr>\<rparr>"
  let ?st1 = "st\<lparr>ds_conns := (ds_conns st)(c := Some ?con1)\<rparr>"
  let ?st2 = "upd_p (\<lambda>d. d\<lparr>p_lib := m\<rparr>) ?st1"
  have at: "ds_conns st c = Some con" "?i < length ts"
    using assms(1-3) by (auto simp: attached_def)
  have bad: "pq_resultStatus api r m \<noteq> PGRES_TUPLES_OK api" "pq_resultStatus api r m \<noteq> PGRES_COMMAND_OK api"
    using assms(6) by (auto simp: pg_done_ok_def)
  have call: "pq_call (pq_exec api (con_ptr con) q) ?st1 = (r, ?st2)"
    using assms(5) by (simp add: pq_call_def upd_p_def)
  obtain e st3 where drv: "pgsql_drv_query api c q c ?st1 = Inr (e, st3)" "ds_conns st3 c = Some ?con1" "thread_stats st3 = Some ts"
      "if pg_restartable ?msg then e = SB_DB_ERROR_RESTART_TRANSACTION \<and> plib st3 = snd (pq_exec api (con_ptr con) ''ROLLBACK'' m)
       else e = SB_DB_ERROR_FAILED \<and> plib st3 = m"
  proof (cases "pg_restartable ?msg")
    case True
    let ?st3 = "snd (pq_call (pq_exec api (con_ptr con) ''ROLLBACK'') ?st2)"
    have "pgsql_drv_query api c q c ?st1 = Inr (SB_DB_ERROR_RESTART_TRANSACTION, ?st3)"
      using True bad call by (simp add: pgsql_drv_query_def con_at_def pgsql_check_status_def pg_restartable_def upd_p_def Let_def)
    then show ?thesis
      using that [of SB_DB_ERROR_RESTART_TRANSACTION ?st3] True assms(2) by (simp add: pq_call_def case_prod_unfold upd_p_def)
  next
    case False
    let ?text = "''PQexec() failed: '' @ print_int (pq_resultStatus api r m) @ '' '' @ ?msg"
    obtain w1 where w1: "d_log LOG_FATAL ?text ?st2 = Inr (?st2\<lparr>ds_pg := (ds_pg ?st2)\<lparr>pg_w := w1\<rparr>\<rparr>)" "logger_ready w1"
      using d_log_ready [of ?st2] assms(4) by (auto simp: upd_p_def)
    let ?st3 = "?st2\<lparr>ds_pg := (ds_pg ?st2)\<lparr>pg_w := w1\<rparr>\<rparr>"
    obtain w2 where w2: "d_log LOG_FATAL (''failed query: '' @ q) ?st3 = Inr (?st3\<lparr>ds_pg := (ds_pg ?st3)\<lparr>pg_w := w2\<rparr>\<rparr>)"
      using d_log_ready [of ?st3] w1(2) by auto
    let ?st4 = "?st3\<lparr>ds_pg := (ds_pg ?st3)\<lparr>pg_w := w2\<rparr>\<rparr>"
    have "pgsql_check_status api (con_ptr con) r ''PQexec'' ?st2 = Inr (SB_DB_ERROR_FAILED, ?st3)"
      using False bad w1(1) by (simp add: pgsql_check_status_def pg_restartable_def upd_p_def Let_def)
    then have "pgsql_drv_query api c q c ?st1 = Inr (SB_DB_ERROR_FAILED, ?st4)"
      using call w2 by (simp add: pgsql_drv_query_def con_at_def)
    then show ?thesis
      using that [of SB_DB_ERROR_FAILED ?st4] False assms(2) by (simp add: upd_p_def)
  qed
  let ?con4 = "?con1\<lparr>con_errno := e\<rparr>"
  let ?st4 = "st3\<lparr>ds_conns := (ds_conns st3)(c := Some ?con4)\<rparr>"
  have e: "e \<noteq> SB_DB_ERROR_NONE"
    using drv(4) by (auto split: if_splits)
  obtain st5 where st5: "db_count_error c e ?st4 = Inr st5" "ds_conns st5 c = Some ?con4" "ds_drv st5 = ds_drv st3"
      "thread_stats st5 = Some (if e = SB_DB_ERROR_RESTART_TRANSACTION then ts[?i := (ts ! ?i)\<lparr>errors := errors (ts ! ?i) + 1\<rparr>] else ts)"
    using drv(3,4) at(2) assms(3) by (auto simp: db_count_error_def con_at_def upd_stat_def split: if_splits)
  have "db_query drvs c q st = Inr (None, st5)"
    using attached_driver [OF assms(1)] at drv(1,2) e st5(1)
    by (simp add: db_query_def upd_rs_def upd_con_def con_at_def pgsql_ops_def)
  then show ?thesis
    using drv(4) st5(2-4) by (intro exI [of _ st5]) (simp add: db_errno_def con_at_def split: if_splits)
qed

section \<open>Examples\<close>

definition sample_pg_params :: "nat option \<Rightarrow> db_bind_t list" where
  "sample_pg_params flag =
     [\<lparr>b_type = DB_TYPE_INT, b_buffer = Some 20, b_data_len = None, b_max_len = 4, b_is_null = flag\<rparr>,
      \<lparr>b_type = DB_TYPE_VARCHAR, b_buffer = Some 21, b_data_len = None, b_max_len = 3, b_is_null = None\<rparr>]"

definition sample_pg_vars :: "int \<Rightarrow> string \<Rightarrow> vars" where
  "sample_pg_vars i s = [20 \<mapsto> Int_data i, 21 \<mapsto> String_data (s @ [CHR 0x00]), 22 \<mapsto> Flag_data False]"

lemma digits_sample: "digit_char 4 = CHR ''4''" "digit_char 2 = CHR ''2''" "digit_char 1 = CHR ''1''" "digit_char 7 = CHR ''7''"
  by code_simp+

lemma numbered_sample: "question_marks ''SELECT ? , ?'' = 2" "numbered ''SELECT ? , ?'' = ''SELECT $1 , $2''"
  using digits_sample
  by (simp_all add: numbered_def question_marks_def placeholder_def upt_rec print_int_def print_nat.simps)

lemma sample_sendable:
  "sendable (sample_pg_vars 42 ''abc'') (sample_pg_params flag ! 1) ''abc''"
  "list_all2 (sendable (sample_pg_vars 42 ''abc'')) (sample_pg_params None) [''42'', ''abc'']"
  "list_all2 (sendable (sample_pg_vars 7 ''x'')) (sample_pg_params None) [''7'', ''x'']"
  using digits_sample
  by (simp_all add: sample_pg_params_def sample_pg_vars_def sendable_def MAX_PARAM_LENGTH_def bind_text_def is_null_var_def var_at_def Let_def
      print_int_def print_nat.simps)

lemma sample_prepares: "pgsql_prepares sample_pg_api id"
  by (auto simp: pgsql_prepares_def pg_done_ok_def sample_pg_api_def)

lemma sample_pgsql_state: "con_ptr sample_pcon = Some 3" "p_use_ps (ds_drv sample_pgsql)" "plib sample_pgsql = []"
  by (simp_all add: sample_pcon_def sample_pgsql_def sample_db_def sample_pdrv_def con_zero_def)

lemma pgsql_statement_transmits_witness:
  "\<exists>s name st1 st2 st3. db_prepare sample_pdrvs 1 ''SELECT ? , ?'' sample_pgsql = Inr (Some s, st1) \<and>
     db_bind_param sample_pdrvs s (sample_pg_params None) 2 st1 = Inr (0, st2) \<and>
     db_executions sample_pdrvs s [sample_pg_vars 42 ''abc'', sample_pg_vars 7 ''x''] st2 = Inr (True, st3) \<and>
     plib st3 = [Prepared (Some name) (Some ''SELECT $1 , $2'') 2 (Some [23, 1043]),
       Executed (Some name) 2 (Some [Some ''42'', Some ''abc'']), Executed (Some name) 2 (Some [Some ''7'', Some ''x''])]"
proof -
  have len: "length (sample_pg_params None) = 2" "sample_pg_params None \<noteq> []" "\<forall>p\<in>set (sample_pg_params None). b_is_null p = None"
    "pg_types (sample_pg_params None) = [23, 1043]"
    by (simp_all add: sample_pg_params_def pg_types_def get_pgsql_bind_type_def db_pgsql_bind_map_def)
  have "list_all2 (\<lambda>v ts. list_all2 (sendable v) (sample_pg_params None) ts) [sample_pg_vars 42 ''abc'', sample_pg_vars 7 ''x'']
      [[''42'', ''abc''], [''7'', ''x'']]"
    using sample_sendable(2,3) by simp
  then show ?thesis
    using pgsql_statement_transmits [OF sample_pgsql_ready(2) sample_pgsql_state(1) sample_pgsql_ready(3) sample_pgsql_state(2) sample_prepares,
        where query = "''SELECT ? , ?''" and ps = "sample_pg_params None" and vss = "[sample_pg_vars 42 ''abc'', sample_pg_vars 7 ''x'']" and
        tss = "[[''42'', ''abc''], [''7'', ''x'']]"] len numbered_sample sample_pgsql_state(3)
    by (simp del: db_executions.simps)
qed

lemma pgsql_flagged_value_unsent_witness:
  "\<exists>s st1 st2. db_prepare sample_pdrvs 1 ''SELECT ? , ?'' sample_pgsql = Inr (Some s, st1) \<and>
     db_bind_param sample_pdrvs s (sample_pg_params (Some 22)) 2 st1 = Inr (0, st2) \<and>
     db_execute sample_pdrvs s (st2\<lparr>ds_vars := sample_pg_vars 42 ''abc''\<rparr>) = Inl Uninit_read"
proof -
  have len: "length (sample_pg_params (Some 22)) = 2" "\<exists>p\<in>set (sample_pg_params (Some 22)). b_is_null p \<noteq> None"
    "b_is_null (sample_pg_params (Some 22) ! 0) \<noteq> None"
    by (simp_all add: sample_pg_params_def)
  then have "\<forall>i<length (sample_pg_params (Some 22)). b_is_null (sample_pg_params (Some 22) ! i) = None \<longrightarrow>
      sendable (sample_pg_vars 42 ''abc'') (sample_pg_params (Some 22) ! i) ([''42'', ''abc''] ! i)"
    using sample_sendable(1) by (auto simp: less_2_cases_iff)
  then show ?thesis
    using pgsql_flagged_value_unsent [OF sample_pgsql_ready(2) sample_pgsql_state(1) sample_pgsql_ready(3) sample_pgsql_state(2) sample_prepares,
        of "''SELECT ? , ?''" "sample_pg_params (Some 22)" "[''42'', ''abc'']" "sample_pg_vars 42 ''abc''"] len(1,2) numbered_sample by simp
qed

lemma pgsql_refused_query_witness:
  "\<exists>st' ts. db_query (register_driver_pgsql 200 (sample_pg_api\<lparr>pq_resultStatus := \<lambda>_ _. 7\<rparr>) []) 1 ''UPDATE t SET k=k+1'' sample_pgsql = Inr (None, st') \<and>
     db_errno 1 st' = Inr SB_DB_ERROR_RESTART_TRANSACTION \<and> plib st' = [Sent ''UPDATE t SET k=k+1'', Sent ''ROLLBACK'']"
proof -
  let ?api = "sample_pg_api\<lparr>pq_resultStatus := \<lambda>_ _. 7\<rparr>"
  let ?drvs = "register_driver_pgsql 200 ?api []"
  obtain ts where ts: "thread_stats sample_pgsql = Some ts" "0 < length ts"
    by (simp add: sample_pgsql_def sample_db_def sample_world_def sample_globals_def)
  have "attached ?drvs (pgsql_ops 200 ?api) 1 sample_pgsql sample_pcon" "0 \<le> con_thread_id sample_pcon"
    using ts by (simp_all add: attached_def register_driver_pgsql_def pgsql_driver_def sample_pgsql_def sample_pcon_def con_zero_def)
  moreover have "pq_exec ?api (con_ptr sample_pcon) ''UPDATE t SET k=k+1'' (plib sample_pgsql) = (Some 2, [Sent ''UPDATE t SET k=k+1''])"
    by (simp add: sample_pg_api_def sample_pgsql_state)
  moreover have "\<not> pg_done_ok ?api (Some 2, [Sent ''UPDATE t SET k=k+1''])"
    by (simp add: pg_done_ok_def sample_pg_api_def)
  moreover have "pg_restartable (pq_errorMessage ?api (con_ptr sample_pcon) [Sent ''UPDATE t SET k=k+1''])"
    by (simp add: pg_restartable_def sample_pg_api_def)
  moreover have "snd (pq_exec ?api (con_ptr sample_pcon) ''ROLLBACK'' [Sent ''UPDATE t SET k=k+1'']) = [Sent ''UPDATE t SET k=k+1'', Sent ''ROLLBACK'']"
    by (simp add: sample_pg_api_def)
  ultimately show ?thesis
    using pgsql_refused_query [of ?drvs 200 ?api 1 sample_pgsql sample_pcon ts] ts(1) sample_pgsql_ready(5) by fastforce
qed

end
