(* ===== verification/DrvDrizzle.thy ===== *)
theory DrvDrizzle
  imports DrvCommon
begin

text \<open>
  The Drizzle driver (\<^verbatim>\<open>drivers/drizzle/drv_drizzle.c\<close>). The library libdrizzle is not part of the sources: its functions and the numbers of its return
  codes are an argument \<open>api\<close>, its state \<open>'m\<close> is part of the driver's state; the objects of the library are numbers, \<open>None\<close> is NULL, and \<open>dz_addr\<close> is the address of an
  object, \<open>dz_local\<close> that of a local variable, for the debugging messages. An argument through which a function returns a value is a part of its result. Prepared statements are
  always emulated. \<open>fuel\<close> is the number of iterations that are followed of the loops whose end the library decides, and of the loop that fills the buffer of a statement.
\<close>

section \<open>Data\<close>

datatype buffer_level = BUFFER_NONE | BUFFER_FIELD | BUFFER_ROW | BUFFER_ALL

record drizzle_drv_args_t =
  dz_hosts :: "string list"
  dz_port :: u32
  dz_socket :: "string option"
  dz_user :: "string option"
  dz_password :: "string option"
  dz_db :: "string option"
  dz_buffer :: buffer_level
  dz_mysql :: bool

record 'm drizzle_con_api =
  dz_create :: "'m \<Rightarrow> nat option \<times> 'm"
  dz_con_add_uds :: "nat option \<Rightarrow> string option \<Rightarrow> string option \<Rightarrow> string option \<Rightarrow> string option \<Rightarrow> int \<Rightarrow> 'm \<Rightarrow> nat option \<times> 'm"
  dz_con_add_tcp :: "nat option \<Rightarrow> string \<Rightarrow> u32 \<Rightarrow> string option \<Rightarrow> string option \<Rightarrow> string option \<Rightarrow> int \<Rightarrow> 'm \<Rightarrow> nat option \<times> 'm"
  dz_errno :: "nat option \<Rightarrow> 'm \<Rightarrow> int"
  dz_error :: "nat option \<Rightarrow> 'm \<Rightarrow> string"
  dz_con_connect :: "nat option \<Rightarrow> 'm \<Rightarrow> int \<times> 'm"
  dz_con_close :: "nat option \<Rightarrow> 'm \<Rightarrow> 'm"
  dz_free :: "nat option \<Rightarrow> 'm \<Rightarrow> 'm"
  dz_con_errno :: "nat option \<Rightarrow> 'm \<Rightarrow> int"
  dz_con_error :: "nat option \<Rightarrow> 'm \<Rightarrow> string"
  dz_con_drizzle :: "nat option \<Rightarrow> 'm \<Rightarrow> nat option"
  dz_query :: "nat option \<Rightarrow> string \<Rightarrow> 'm \<Rightarrow> (nat option \<times> int) \<times> 'm"
  dz_addr :: "nat option \<Rightarrow> nat"
  dz_local :: "string \<Rightarrow> nat"
  DRIZZLE_CON_MYSQL :: int
  DRIZZLE_RETURN_OK :: int
  DRIZZLE_RETURN_ERROR_CODE :: int
  DRIZZLE_RETURN_ROW_END :: int

record 'm drizzle_result_api =
  dz_result_error_code :: "nat option \<Rightarrow> 'm \<Rightarrow> u32"
  dz_result_error :: "nat option \<Rightarrow> 'm \<Rightarrow> string"
  dz_result_row_count :: "nat \<Rightarrow> 'm \<Rightarrow> u64"
  dz_result_buffer :: "nat \<Rightarrow> 'm \<Rightarrow> int \<times> 'm"
  dz_result_column_count :: "nat \<Rightarrow> 'm \<Rightarrow> nat"
  dz_result_free :: "nat \<Rightarrow> 'm \<Rightarrow> 'm"
  dz_column_next :: "nat \<Rightarrow> 'm \<Rightarrow> nat option \<times> 'm"
  dz_column_read :: "nat \<Rightarrow> nat option \<Rightarrow> 'm \<Rightarrow> (nat option \<times> int) \<times> 'm"
  dz_column_free :: "nat \<Rightarrow> 'm \<Rightarrow> 'm"
  dz_column_names :: "nat \<Rightarrow> 'm \<Rightarrow> string \<times> string \<times> string \<times> string \<times> string \<times> string"
  dz_column_numbers :: "nat \<Rightarrow> 'm \<Rightarrow> u32 \<times> u32 \<times> u32 \<times> u32"
  dz_row_buffer :: "nat \<Rightarrow> 'm \<Rightarrow> (nat option \<times> int) \<times> 'm"
  dz_row_free :: "nat \<Rightarrow> nat \<Rightarrow> 'm \<Rightarrow> 'm"
  dz_row_read :: "nat \<Rightarrow> 'm \<Rightarrow> (u64 \<times> int) \<times> 'm"
  dz_field_buffer :: "nat \<Rightarrow> 'm \<Rightarrow> (nat option \<times> u64 \<times> int) \<times> 'm"
  dz_field_read :: "nat \<Rightarrow> u64 \<Rightarrow> 'm \<Rightarrow> (nat option \<times> u64 \<times> u64 \<times> u64 \<times> int) \<times> 'm"
  dz_field_free :: "nat option \<Rightarrow> 'm \<Rightarrow> 'm"

record 'm drizzle_api =
  dz_con_api :: "'m drizzle_con_api"
  dz_res_api :: "'m drizzle_result_api"

text \<open>The variables of the driver and the state of the library; a position in the list of hosts is 0 for the list head.\<close>

record 'm drizzle_drv =
  dz_args :: drizzle_drv_args_t
  dz_hosts_pos :: nat
  dz_lib :: 'm

type_synonym 'm dzst = "'m drizzle_drv db_state"

abbreviation dzlib :: "'m dzst \<Rightarrow> 'm" where "dzlib st \<equiv> dz_lib (ds_drv st)"
abbreviation dzargs :: "'m dzst \<Rightarrow> drizzle_drv_args_t" where "dzargs st \<equiv> dz_args (ds_drv st)"
abbreviation dzok :: "'m drizzle_api \<Rightarrow> int" where "dzok api \<equiv> DRIZZLE_RETURN_OK (dz_con_api api)"

definition dz_call :: "('m \<Rightarrow> 'a \<times> 'm) \<Rightarrow> 'm dzst \<Rightarrow> 'a \<times> 'm dzst" where
  "dz_call f st = (case f (dzlib st) of (x, m) \<Rightarrow> (x, st\<lparr>ds_drv := (ds_drv st)\<lparr>dz_lib := m\<rparr>\<rparr>))"

definition dz_do :: "('m \<Rightarrow> 'm) \<Rightarrow> 'm dzst \<Rightarrow> 'm dzst" where
  "dz_do f st = st\<lparr>ds_drv := (ds_drv st)\<lparr>dz_lib := f (dzlib st)\<rparr>\<rparr>"

text \<open>\<^verbatim>\<open>%x\<close>, \<^verbatim>\<open>%p\<close> of an object or a local variable, \<^verbatim>\<open>%u\<close> and \<^verbatim>\<open>%d\<close> of numbers that are cut off to 32 bits.\<close>

fun print_hex :: "nat \<Rightarrow> string" where
  "print_hex n = (if n < 16 then [''0123456789abcdef'' ! n] else print_hex (n div 16) @ [''0123456789abcdef'' ! (n mod 16)])"

declare print_hex.simps [simp del]

definition print_p :: "nat \<Rightarrow> string" where
  "print_p a = (if a = 0 then ''(nil)'' else ''0x'' @ print_hex a)"

definition dz_p :: "'m drizzle_api \<Rightarrow> nat option \<Rightarrow> string" where
  "dz_p api x = print_p (dz_addr (dz_con_api api) x)"

definition dz_lp :: "'m drizzle_api \<Rightarrow> string \<Rightarrow> string" where
  "dz_lp api x = print_p (dz_local (dz_con_api api) x)"

definition print_x :: "nat \<Rightarrow> string" where "print_x n = print_hex (unat (of_nat n :: u32))"
definition print_dd :: "nat \<Rightarrow> string" where "print_dd n = print_int (sint (of_nat n :: u32))"

definition drizzle_drv_args :: "sb_arg_t list" where
  "drizzle_drv_args =
     [mk_arg ''drizzle-host'' ''Drizzle server host'' SB_ARG_TYPE_LIST (Some ''localhost''),
      mk_arg ''drizzle-port'' ''Drizzle server port'' SB_ARG_TYPE_INT (Some ''4427''),
      mk_arg ''drizzle-socket'' ''Drizzle socket'' SB_ARG_TYPE_STRING None,
      mk_arg ''drizzle-user'' ''Drizzle user'' SB_ARG_TYPE_STRING (Some []),
      mk_arg ''drizzle-password'' ''Drizzle password'' SB_ARG_TYPE_STRING (Some []),
      mk_arg ''drizzle-db'' ''Drizzle database name'' SB_ARG_TYPE_STRING (Some ''sbtest''),
      mk_arg ''drizzle-buffer'' ''Level of library buffering (none, field, row, all)'' SB_ARG_TYPE_STRING (Some ''none''),
      mk_arg ''drizzle-mysql'' ''Use MySQL Protocol'' SB_ARG_TYPE_FLAG (Some ''off'')]"

definition drizzle_drv_caps :: drv_caps_t where
  "drizzle_drv_caps = \<lparr>multi_rows_insert = True, prepared_statements = False, auto_increment = True, needs_commit = False,
                       serial = False, unsigned_int = False\<rparr>"

section \<open>Initialisation and connections\<close>

text \<open>A level that is not known leaves the buffer level as it was.\<close>

definition parse_buffer_level :: "string \<Rightarrow> buffer_level \<Rightarrow> buffer_level" where
  "parse_buffer_level s old =
     (if strcasecmp_eq s ''none'' then BUFFER_NONE
      else if strcasecmp_eq s ''field'' then BUFFER_FIELD
      else if strcasecmp_eq s ''row'' then BUFFER_ROW
      else if strcasecmp_eq s ''all'' then BUFFER_ALL
      else old)"

definition drizzle_drv_init :: "'m drizzle_drv dop" where
  "drizzle_drv_init st =
     (let opts = pg_opts (ds_pg st) in
      case map_option (map val_data) (sb_get_value_list opts ''drizzle-host'') of
        None \<Rightarrow> Inl Null_deref
      | Some [] \<Rightarrow> rbind (d_log LOG_FATAL ''No Drizzle hosts specified, aborting'' st) (\<lambda>st. Inr (1, st))
      | Some hosts \<Rightarrow>
          rbind (sb_get_value_int opts ''drizzle-port'') (\<lambda>port.
            case sb_get_value_string opts ''drizzle-buffer'' of
              None \<Rightarrow> Inl Null_deref
            | Some s \<Rightarrow>
                (let args = \<lparr>dz_hosts = hosts, dz_port = word_of_int port, dz_socket = sb_get_value_string opts ''drizzle-socket'',
                             dz_user = sb_get_value_string opts ''drizzle-user'', dz_password = sb_get_value_string opts ''drizzle-password'',
                             dz_db = sb_get_value_string opts ''drizzle-db'', dz_buffer = parse_buffer_level s (dz_buffer (dzargs st)),
                             dz_mysql = sb_get_value_flag opts ''drizzle-mysql''\<rparr>
                 in Inr (0, st\<lparr>ds_drv := (ds_drv st)\<lparr>dz_args := args, dz_hosts_pos := 0\<rparr>\<rparr>))))"

definition drizzle_drv_describe :: "'m dzst \<Rightarrow> ((int \<times> drv_caps_t) \<times> 'm dzst) res" where
  "drizzle_drv_describe st = Inr ((0, drizzle_drv_caps), st)"

text \<open>The connection through the socket, or to the next host.\<close>

definition dz_con_add :: "'m drizzle_api \<Rightarrow> nat option \<Rightarrow> 'm dzst \<Rightarrow> (nat option \<times> 'm dzst) res" where
  "dz_con_add api lib st =
     (let a = dzargs st; q = (\<lambda>s. in_quotes (print_s s));
          flags = (if dz_mysql a then DRIZZLE_CON_MYSQL (dz_con_api api) else 0);
          rest = q (dz_user a) @ '', '' @ q (dz_password a) @ '', '' @ q (dz_db a) @ '', '' @ print_int flags @ '')''
      in
      if dz_socket a \<noteq> None
      then
        rbind (DEBUG_db (''drizzle_con_add_uds('' @ dz_p api lib @ '', '' @ dz_p api None @ '' '' @ q (dz_socket a) @ '', '' @ rest) st)
          (\<lambda>st. Inr (dz_call (dz_con_add_uds (dz_con_api api) lib (dz_socket a) (dz_user a) (dz_password a) (dz_db a) flags) st))
      else
        (let pos = advance_pos (length (dz_hosts a)) (dz_hosts_pos (ds_drv st)) in
         rbind (element_at (dz_hosts a) pos) (\<lambda>host.
         rbind (DEBUG_db (''drizzle_con_add_tcp('' @ dz_p api lib @ '', '' @ dz_p api None @ '' '' @ in_quotes host @ '', '' @ print_nat (unat (dz_port a))
                  @ '', '' @ rest) (st\<lparr>ds_drv := (ds_drv st)\<lparr>dz_hosts_pos := pos\<rparr>\<rparr>))
           (\<lambda>st. Inr (dz_call (dz_con_add_tcp (dz_con_api api) lib host (dz_port a) (dz_user a) (dz_password a) (dz_db a) flags) st)))))"

definition dz_error_text :: "'m drizzle_api \<Rightarrow> nat option \<Rightarrow> 'm dzst \<Rightarrow> string" where
  "dz_error_text api lib st =
     ''error '' @ print_int (dz_errno (dz_con_api api) lib (dzlib st)) @ '': '' @ dz_error (dz_con_api api) lib (dzlib st)"

definition drizzle_drv_connect :: "'m drizzle_api \<Rightarrow> nat \<Rightarrow> 'm drizzle_drv dop" where
  "drizzle_drv_connect api c st =
     (case dz_call (dz_create (dz_con_api api)) st of (lib, st) \<Rightarrow>
        rbind (dz_con_add api lib st) (\<lambda>(con, st).
          if con = None
          then
            rbind (d_log LOG_FATAL ''unable to Add Drizzle Connection, aborting...'' st) (\<lambda>st.
            rbind (d_log LOG_FATAL (dz_error_text api lib st) st) (\<lambda>st. Inr (1, st)))
          else
            (case dz_call (dz_con_connect (dz_con_api api) con) st of (ret, st) \<Rightarrow>
               if ret \<noteq> dzok api
               then
                 rbind (d_log LOG_FATAL (''unable to connect to Drizzle server: '' @ print_int ret) st) (\<lambda>st.
                 rbind (d_log LOG_FATAL (dz_error_text api lib st) st) (\<lambda>st. Inr (1, dz_do (dz_free (dz_con_api api) con) st)))
               else rbind (upd_con c (\<lambda>sb_conn. sb_conn\<lparr>con_ptr := con\<rparr>) st) (\<lambda>st. Inr (0, st)))))"

definition drizzle_drv_disconnect :: "'m drizzle_api \<Rightarrow> nat \<Rightarrow> 'm drizzle_drv dop" where
  "drizzle_drv_disconnect api c st =
     rbind (con_at c st) (\<lambda>sb_conn.
       let con = con_ptr sb_conn in
       if con = None then Inr (0, st)
       else
         rbind (DEBUG_db (''drizzle_close('' @ dz_p api con @ '')'') st)
           (\<lambda>st. Inr (0, dz_do (dz_free (dz_con_api api) con) (dz_do (dz_con_close (dz_con_api api) con) st))))"

section \<open>Statements and queries\<close>

definition drizzle_drv_prepare :: "nat \<Rightarrow> string \<Rightarrow> 'm drizzle_drv dop" where
  "drizzle_drv_prepare s query st =
     (case d_strdup query st of (q, st) \<Rightarrow>
        rbind (upd_stmt s (\<lambda>stmt. stmt\<lparr>st_emulated := True, st_query := q\<rparr>) st) (\<lambda>st. Inr (0, st)))"

definition drizzle_drv_bind_param :: "nat \<Rightarrow> db_bind_t list \<Rightarrow> u32 \<Rightarrow> 'm drizzle_drv dop" where
  "drizzle_drv_bind_param s params len st =
     rbind (stmt_con s st) (\<lambda>c. rbind (con_at c st) (\<lambda>con. if con_ptr con = None then Inr (1, st) else keep_params s params len st))"

definition drizzle_drv_bind_result :: "nat \<Rightarrow> db_bind_t list \<Rightarrow> u32 \<Rightarrow> 'm drizzle_drv dop" where
  "drizzle_drv_bind_result s params len st = Inr (0, st)"

text \<open>What is logged after a failed call of the library: the error of the connection.\<close>

definition dz_con_failed :: "'m drizzle_api \<Rightarrow> nat option \<Rightarrow> string \<Rightarrow> 'm drizzle_drv eop" where
  "dz_con_failed api con what st =
     (let errno = (\<lambda>st. dz_con_errno (dz_con_api api) con (dzlib st)) in
      rbind (DEBUG_db (''drizzle_errno('' @ dz_p api (dz_con_drizzle (dz_con_api api) con (dzlib st)) @ '') = ''
               @ print_nat (unat (word_of_int (errno st) :: u32))) st) (\<lambda>st.
      rbind (d_log LOG_ALERT what st) (\<lambda>st.
      rbind (d_log LOG_ALERT (''Error '' @ print_int (errno st) @ '' '' @ dz_con_error (dz_con_api api) con (dzlib st)) st)
        (\<lambda>st. Inr (SB_DB_ERROR_FAILED, st)))))"

definition drizzle_drv_query :: "'m drizzle_api \<Rightarrow> nat \<Rightarrow> string \<Rightarrow> nat \<Rightarrow> 'm drizzle_drv eop" where
  "drizzle_drv_query api c query rs st =
     rbind (con_at c st) (\<lambda>sb_conn.
       let con = con_ptr sb_conn in
       rbind (DEBUG_db (''drizzle_query('' @ dz_p api con @ '', '' @ dz_p api None @ '', '' @ in_quotes query @ '', '' @ print_u (length query) @ '', ''
                @ dz_lp api ''ret'' @ '')'') st) (\<lambda>st.
         case dz_call (dz_query (dz_con_api api) con query) st of ((result, ret), st) \<Rightarrow>
           rbind (DEBUG_db (''drizzle_query('' @ dz_p api con @ '') == '' @ print_int ret) st) (\<lambda>st.
             if ret = DRIZZLE_RETURN_ERROR_CODE (dz_con_api api)
             then
               (let rc = dz_result_error_code (dz_res_api api) result (dzlib st) in
                if rc \<in> {1213, 1205, 1020} then Inr (SB_DB_ERROR_RESTART_TRANSACTION, st)
                else
                  rbind (d_log LOG_ALERT (''Drizzle Query Failed: '' @ print_nat (unat rc) @ '':'' @ dz_result_error (dz_res_api api) result (dzlib st)) st)
                    (\<lambda>st. Inr (SB_DB_ERROR_FAILED, st)))
             else if ret \<noteq> dzok api
             then dz_con_failed api con (''failed to execute Drizzle query: len=='' @ print_dd (length query) @ '' '' @ [CHR 0x60] @ query @ [CHR 0x60] @ '':'') st
             else
               rbind (DEBUG_db (''drizzle_query '' @ in_quotes query @ '' returned '' @ print_int ret) st) (\<lambda>st.
                 case result of
                   None \<Rightarrow>
                     rbind (DEBUG_db (''drizzle_query('' @ dz_p api con @ '', '' @ in_quotes query @ '') == NULL'') st) (\<lambda>st. Inr (SB_DB_ERROR_FAILED, st))
                 | Some res \<Rightarrow>
                     (let n = dz_result_row_count (dz_res_api api) res (dzlib st) in
                      rbind (upd_rs rs (\<lambda>r. r\<lparr>rs_ptr := Some res, rs_nrows := n\<rparr>) st) (\<lambda>st.
                      rbind (DEBUG_db (''drizzle_result_row_count('' @ dz_p api (Some res) @ '') == '' @ print_dd (unat n)) st)
                        (\<lambda>st. Inr (SB_DB_ERROR_NONE, st))))))))"

definition drizzle_drv_execute :: "nat \<Rightarrow> 'm drizzle_api \<Rightarrow> nat \<Rightarrow> nat \<Rightarrow> 'm drizzle_drv eop" where
  "drizzle_drv_execute fuel api s rs st =
     rbind (stmt_at s st) (\<lambda>stmt. case st_query stmt of
       None \<Rightarrow> Inl Null_deref
     | Some query \<Rightarrow>
         rbind (emulate_query (ds_vars st) fuel (st_bound_param stmt) query (os_mem (pg_opts (ds_pg st)))) (\<lambda>(buf, m).
           let st = st\<lparr>ds_pg := set_opts ((pg_opts (ds_pg st))\<lparr>os_mem := m\<rparr>) (ds_pg st)\<rparr> in
           case buf of
             None \<Rightarrow>
               rbind (d_log LOG_DEBUG ''ERROR: exiting drizzle_drv_execute(), memory allocation failure'' st) (\<lambda>st. Inr (SB_DB_ERROR_FAILED, st))
           | Some text \<Rightarrow>
               rbind (stmt_con s st) (\<lambda>c.
               rbind (drizzle_drv_query api c text rs st) (\<lambda>(e, st).
               rbind (upd_con c (\<lambda>con. con\<lparr>con_errno := e\<rparr>) st) (\<lambda>st.
                 if e \<noteq> SB_DB_ERROR_NONE
                 then rbind (d_log LOG_DEBUG ''ERROR: exiting drizzle_drv_execute(), database error'' st) (\<lambda>st. Inr (e, st))
                 else Inr (SB_DB_ERROR_NONE, st))))))"

section \<open>Results\<close>

text \<open>Both functions print the same message.\<close>

definition dz_not_implemented :: "'m drizzle_drv dop" where
  "dz_not_implemented st = Inr (1, st\<lparr>ds_pg := upd_w (w_print (''in drizzle_drv_fetch_row!'' @ newline)) (ds_pg st)\<rparr>)"

definition drizzle_drv_fetch :: "nat \<Rightarrow> 'm drizzle_drv dop" where
  "drizzle_drv_fetch rs = dz_not_implemented"

definition drizzle_drv_fetch_row :: "nat \<Rightarrow> nat \<Rightarrow> 'm drizzle_drv dop" where
  "drizzle_drv_fetch_row rs row = dz_not_implemented"

definition drizzle_drv_num_rows :: "nat \<Rightarrow> 'm dzst \<Rightarrow> (u64 \<times> 'm dzst) res" where
  "drizzle_drv_num_rows rs st = rbind (con_at rs st) (\<lambda>con. Inr (rs_nrows (con_rs con), st))"

definition column_info :: "'m drizzle_api \<Rightarrow> nat \<Rightarrow> 'm dzst \<Rightarrow> 'm dzst res" where
  "column_info api column st =
     (case dz_column_names (dz_res_api api) column (dzlib st) of (catalog, db, table, org_table, name, org_name) \<Rightarrow>
      case dz_column_numbers (dz_res_api api) column (dzlib st) of (charset, sz, ty, flags) \<Rightarrow>
        let u = (\<lambda>x :: u32. print_nat (unat x)) in
        DEBUG_db (''Field:   catalog='' @ catalog @ newline @ ''              db='' @ db @ newline @ ''           table='' @ table @ newline
          @ ''       org_table='' @ org_table @ newline @ ''            name='' @ name @ newline @ ''        org_name='' @ org_name @ newline
          @ ''         charset='' @ u charset @ newline @ ''            size='' @ u sz @ newline @ ''            type='' @ u ty @ newline
          @ ''           flags='' @ u flags @ newline) st)"

fun dz_all_columns :: "nat \<Rightarrow> 'm drizzle_api \<Rightarrow> nat \<Rightarrow> 'm dzst \<Rightarrow> 'm dzst res" where
  "dz_all_columns 0 api res st = Inl Still_running"
| "dz_all_columns (Suc n) api res st =
     (case dz_call (dz_column_next (dz_res_api api) res) st of (column, st) \<Rightarrow>
        case column of None \<Rightarrow> Inr st | Some c \<Rightarrow> rbind (column_info api c st) (dz_all_columns n api res))"

text \<open>The loop that reads the columns; \<open>column\<close> is the one read before.\<close>

fun dz_read_columns :: "nat \<Rightarrow> 'm drizzle_api \<Rightarrow> nat option \<Rightarrow> nat \<Rightarrow> nat option \<Rightarrow> 'm drizzle_drv eop" where
  "dz_read_columns 0 api con res column st = Inl Still_running"
| "dz_read_columns (Suc n) api con res column st =
     (case dz_call (dz_column_read (dz_res_api api) res column) st of ((column', ret), st) \<Rightarrow>
        rbind (DEBUG_db (''drizzle_column_read('' @ dz_p api (Some res) @ '','' @ dz_p api column' @ '','' @ dz_lp api ''ret'' @ '') == '' @ print_int ret) st) (\<lambda>st.
          if ret \<noteq> dzok api then dz_con_failed api con (''drizzle_column_read failed: '' @ [CHR 0x60] @ dz_p api (Some res) @ [CHR 0x60] @ '':'') st
          else
            case column' of
              None \<Rightarrow> Inr (SB_DB_ERROR_NONE, st)
            | Some c \<Rightarrow>
                rbind (column_info api c st)
                  (\<lambda>st. dz_read_columns n api con res column' (dz_do (dz_column_free (dz_res_api api) c) st))))"

text \<open>
  The loop over the fields of a row. The debugging message of \<^verbatim>\<open>drizzle_field_buffer\<close> has \<^verbatim>\<open>&p\<close> for \<^verbatim>\<open>%p\<close>,
  so that each value is printed by the conversion meant for the next one.
\<close>

fun dz_fields :: "nat \<Rightarrow> 'm drizzle_api \<Rightarrow> nat option \<Rightarrow> nat \<Rightarrow> u64 \<Rightarrow> 'm dzst \<Rightarrow> ((db_error_t \<times> u64) \<times> 'm dzst) res" where
  "dz_fields 0 api con res offset st = Inl Still_running"
| "dz_fields (Suc n) api con res offset st =
     (let buffered = (dz_buffer (dzargs st) = BUFFER_FIELD) in
      rbind (if buffered
             then
               (case dz_call (dz_field_buffer (dz_res_api api) res) st of ((field, tot, ret), st) \<Rightarrow>
                  rbind (DEBUG_db (''drizzle_field_buffer('' @ dz_p api (Some res) @ '', &p, '' @ dz_lp api ''total'' @ '') == '' @ dz_lp api ''ret'' @ '', ''
                           @ print_x (dz_addr (dz_con_api api) field) @ '', '' @ print_dd (unat tot)) st) (\<lambda>st. Inr (field, offset, ret, st)))
             else
               (case dz_call (dz_field_read (dz_res_api api) res offset) st of ((field, offset, len, tot, ret), st) \<Rightarrow>
                  rbind (DEBUG_db (''drizzle_field_read('' @ dz_p api (Some res) @ '', '' @ dz_lp api ''offset'' @ '', '' @ dz_lp api ''length'' @ '', ''
                           @ dz_lp api ''total'' @ '', '' @ dz_lp api ''ret'' @ '') == '' @ dz_p api field @ '', '' @ print_x (unat offset) @ '', ''
                           @ print_x (unat len) @ '', '' @ print_x (unat tot) @ '', '' @ print_int ret) st) (\<lambda>st. Inr (field, offset, ret, st))))
        (\<lambda>(field, offset, ret, st).
           if ret = DRIZZLE_RETURN_ROW_END (dz_con_api api) then Inr ((SB_DB_ERROR_NONE, offset), st)
           else if ret \<noteq> dzok api
           then
             rbind (dz_con_failed api con (''drizzle_field_(buffer|read) failed: '' @ [CHR 0x60] @ dz_p api (Some res) @ [CHR 0x60] @ '':'') st)
               (\<lambda>(e, st). Inr ((e, offset), st))
           else dz_fields n api con res offset (if buffered then dz_do (dz_field_free (dz_res_api api) field) st else st)))"

text \<open>The loop over the rows; \<open>offset\<close> is kept from row to row.\<close>

fun dz_rows :: "nat \<Rightarrow> nat \<Rightarrow> 'm drizzle_api \<Rightarrow> nat option \<Rightarrow> nat \<Rightarrow> u64 \<Rightarrow> 'm drizzle_drv eop" where
  "dz_rows 0 fuel api con res offset st = Inl Still_running"
| "dz_rows (Suc n) fuel api con res offset st =
     (if dz_buffer (dzargs st) = BUFFER_ROW
      then
        (case dz_call (dz_row_buffer (dz_res_api api) res) st of ((row, ret), st) \<Rightarrow>
           rbind (DEBUG_db (''drizzle_row_buffer('' @ dz_p api (Some res) @ '', '' @ dz_lp api ''ret'' @ '') == '' @ dz_p api row @ '', '' @ print_int ret) st) (\<lambda>st.
             if ret \<noteq> dzok api then dz_con_failed api con (''drizzle_row_buffer failed: '' @ [CHR 0x60] @ dz_p api (Some res) @ [CHR 0x60] @ '':'') st
             else
               case row of
                 None \<Rightarrow> Inr (SB_DB_ERROR_NONE, st)
               | Some r \<Rightarrow>
                   rbind (DEBUG_db (''drizzle_row_free('' @ dz_p api (Some res) @ '', '' @ dz_p api row @ '')'') st)
                     (\<lambda>st. dz_rows n fuel api con res offset (dz_do (dz_row_free (dz_res_api api) res r) st))))
      else if dz_buffer (dzargs st) = BUFFER_ALL then Inl Still_running
      else
        (case dz_call (dz_row_read (dz_res_api api) res) st of ((row_num, ret), st) \<Rightarrow>
           rbind (DEBUG_db (''drizzle_row_read('' @ dz_p api (Some res) @ '', '' @ dz_lp api ''ret'' @ '') == '' @ print_nat (unat row_num) @ '', '' @ print_int ret) st) (\<lambda>st.
             if ret \<noteq> dzok api then dz_con_failed api con (''drizzle_row_read failed: '' @ [CHR 0x60] @ dz_p api (Some res) @ [CHR 0x60] @ '':'') st
             else if row_num = 0 then Inr (SB_DB_ERROR_NONE, st)
             else
               rbind (dz_fields fuel api con res offset st) (\<lambda>((e, offset), st).
                 if e \<noteq> SB_DB_ERROR_NONE then Inr (e, st) else dz_rows n fuel api con res offset st))))"

definition drizzle_drv_store_results :: "nat \<Rightarrow> 'm drizzle_api \<Rightarrow> nat \<Rightarrow> 'm drizzle_drv eop" where
  "drizzle_drv_store_results fuel api rs st =
     rbind (con_at rs st) (\<lambda>rscon.
     rbind (case rs_connection (con_rs rscon) of None \<Rightarrow> Inl Null_deref | Some c \<Rightarrow> con_at c st) (\<lambda>sb_conn.
       case (con_ptr sb_conn, rs_ptr (con_rs rscon)) of
         (Some h, Some res) \<Rightarrow>
           (let con = Some h in
            if dz_buffer (dzargs st) = BUFFER_ALL
            then
              (case dz_call (dz_result_buffer (dz_res_api api) res) st of (ret, st) \<Rightarrow>
                 rbind (DEBUG_db (''drizzle_result_buffer('' @ dz_p api (Some res) @ '') = '' @ print_int ret) st) (\<lambda>st.
                   if ret \<noteq> dzok api then dz_con_failed api con (''drizzle_result_buffer failed: '' @ [CHR 0x60] @ dz_p api (Some res) @ [CHR 0x60] @ '':'') st
                   else rbind (dz_all_columns fuel api res st) (\<lambda>st. Inr (SB_DB_ERROR_NONE, st))))
            else if dz_result_column_count (dz_res_api api) res (dzlib st) > 0
            then
              rbind (dz_read_columns fuel api con res None st) (\<lambda>(e, st).
                if e \<noteq> SB_DB_ERROR_NONE then Inr (e, st) else dz_rows fuel fuel api con res 0 st)
            else Inr (SB_DB_ERROR_NONE, st))
       | _ \<Rightarrow> Inr (SB_DB_ERROR_FAILED, st)))"

definition drizzle_drv_free_results :: "'m drizzle_api \<Rightarrow> nat \<Rightarrow> 'm drizzle_drv dop" where
  "drizzle_drv_free_results api rs st =
     rbind (con_at rs st) (\<lambda>con. case rs_ptr (con_rs con) of
       None \<Rightarrow> Inr (1, st)
     | Some res \<Rightarrow>
         rbind (DEBUG_db (''drizzle_result_free('' @ dz_p api (Some res) @ '')'') st) (\<lambda>st. Inr (0, dz_do (dz_result_free (dz_res_api api) res) st)))"

definition drizzle_drv_close :: "nat \<Rightarrow> 'm drizzle_drv dop" where
  "drizzle_drv_close s st = Inr (0, st)"

definition drizzle_drv_done :: "'m drizzle_drv dop" where
  "drizzle_drv_done st = Inr (0, st)"

section \<open>The driver\<close>

definition drizzle_ops :: "nat \<Rightarrow> 'm drizzle_api \<Rightarrow> 'm drizzle_drv drv_ops_t" where
  "drizzle_ops fuel api =
     \<lparr>drv_init = drizzle_drv_init, drv_describe = Some drizzle_drv_describe, drv_connect = drizzle_drv_connect api,
      drv_disconnect = drizzle_drv_disconnect api, drv_prepare = drizzle_drv_prepare, drv_bind_param = drizzle_drv_bind_param,
      drv_bind_result = drizzle_drv_bind_result, drv_execute = drizzle_drv_execute fuel api, drv_fetch = drizzle_drv_fetch,
      drv_fetch_row = drizzle_drv_fetch_row, drv_num_rows = drizzle_drv_num_rows, drv_free_results = drizzle_drv_free_results api,
      drv_close = drizzle_drv_close, drv_query = drizzle_drv_query api, drv_store_results = drizzle_drv_store_results fuel api,
      drv_done = drizzle_drv_done\<rparr>"

definition drizzle_driver :: "nat \<Rightarrow> 'm drizzle_api \<Rightarrow> 'm drizzle_drv db_driver_t" where
  "drizzle_driver fuel api = \<lparr>d_sname = ''drizzle'', d_lname = ''Drizzle driver'', d_args = Some drizzle_drv_args, d_ops = drizzle_ops fuel api\<rparr>"

definition register_driver_drizzle ::
  "nat \<Rightarrow> 'm drizzle_api \<Rightarrow> 'm drizzle_drv db_driver_t list \<Rightarrow> 'm drizzle_drv db_driver_t list" where
  "register_driver_drizzle fuel api drivers = drivers @ [drizzle_driver fuel api]"

section \<open>What the driver leaves alone\<close>

lemma layer_same_dz [simp]:
  "layer_same (dz_do f st) st' = layer_same st st'" "layer_same st (dz_do f st') = layer_same st st'"
  "layer_same (snd (dz_call g st)) st' = layer_same st st'" "layer_same st (snd (dz_call g st')) = layer_same st st'"
  by (simp_all add: layer_same_def dz_do_def dz_call_def case_prod_unfold)

lemma dz_con_failed_same:
  assumes "dz_con_failed api con what st = Inr (e, st')"
  shows "layer_same st st' \<and> e = SB_DB_ERROR_FAILED"
proof -
  obtain st1 st2 where "layer_same st st1" "layer_same st1 st2" "layer_same st2 st'" "e = SB_DB_ERROR_FAILED"
    using assms by (auto simp: dz_con_failed_def Let_def rbind_eq_Inr dest!: DEBUG_db_same d_log_same)
  then show ?thesis
    using layer_same_trans by blast
qed

lemma drizzle_query_kept:
  assumes "drizzle_drv_query api c q c st = Inr (e, st')"
  shows "con_kept c st st'"
proof -
  obtain con where con: "ds_conns st c = Some con" "con_at c st = Inr con"
    using assms by (auto simp: drizzle_drv_query_def rbind_eq_Inr con_at_def split: option.splits)
  let ?h = "con_ptr con" and ?c = "dz_con_api api" and ?r = "dz_res_api api"
  obtain st1 where st1: "DEBUG_db (''drizzle_query('' @ dz_p api ?h @ '', '' @ dz_p api None @ '', '' @ in_quotes q @ '', '' @ print_u (length q) @ '', ''
                @ dz_lp api ''ret'' @ '')'') st = Inr st1"
    using assms con(2) by (auto simp: drizzle_drv_query_def rbind_eq_Inr Let_def)
  obtain result ret st2 where c: "dz_call (dz_query ?c ?h q) st1 = ((result, ret), st2)"
    by (metis surj_pair)
  have same2: "layer_same st st2"
    using DEBUG_db_same [OF st1] layer_same_dz(4) [of st "dz_query ?c ?h q" st1] c by simp
  obtain st3 where st3: "DEBUG_db (''drizzle_query('' @ dz_p api ?h @ '') == '' @ print_int ret) st2 = Inr st3"
    using assms con(2) st1 c by (auto simp: drizzle_drv_query_def rbind_eq_Inr Let_def)
  have same3: "layer_same st st3"
    using same2 DEBUG_db_same [OF st3] layer_same_trans by blast
  consider "layer_same st3 st'" | st4 st5 res n where "layer_same st3 st4" "upd_rs c (\<lambda>r. r\<lparr>rs_ptr := Some res, rs_nrows := n\<rparr>) st4 = Inr st5" "layer_same st5 st'"
  proof (cases "ret = DRIZZLE_RETURN_ERROR_CODE ?c \<or> ret \<noteq> DRIZZLE_RETURN_OK ?c")
    case True
    then have "layer_same st3 st'"
      using assms con(2) st1 c st3
      by (auto simp: drizzle_drv_query_def rbind_eq_Inr Let_def split: if_splits dest!: d_log_same dz_con_failed_same)
    then show ?thesis using that by blast
  next
    case False
    obtain st4 where st4: "DEBUG_db (''drizzle_query '' @ in_quotes q @ '' returned '' @ print_int ret) st3 = Inr st4"
      using assms con(2) st1 c st3 False by (auto simp: drizzle_drv_query_def rbind_eq_Inr Let_def)
    show ?thesis
    proof (cases result)
      case None
      then have "layer_same st4 st'"
        using assms con(2) st1 c st3 False st4
        by (auto simp: drizzle_drv_query_def rbind_eq_Inr Let_def dest!: DEBUG_db_same)
      then show ?thesis using that DEBUG_db_same [OF st4] layer_same_trans by blast
    next
      case (Some res)
      then show ?thesis
        using assms con(2) st1 c st3 False st4 that(2) [OF DEBUG_db_same [OF st4]]
        by (auto simp: drizzle_drv_query_def rbind_eq_Inr Let_def dest!: DEBUG_db_same)
    qed
  qed
  then show ?thesis
  proof cases
    case 1
    then have "layer_same st st'"
      using same3 layer_same_trans by blast
    then show ?thesis
      by (intro con_keptI) (simp_all add: layer_same_def)
  next
    case 2
    then have "layer_same st st4"
      using same3 layer_same_trans by blast
    then show ?thesis
      using 2(2,3) con(1) by (auto simp: con_kept_def layer_same_def upd_rs_def upd_con_def con_at_def)
  qed
qed

interpretation drizzle_quiet: quiet_driver "drizzle_ops fuel api" for fuel api
  by unfold_locales (auto simp: drizzle_ops_def dest!: drizzle_query_kept)

section \<open>A server that accepts every statement\<close>

definition drizzle_accepts :: "'m drizzle_api \<Rightarrow> ('m \<Rightarrow> string list) \<Rightarrow> bool" where
  "drizzle_accepts api sent \<longleftrightarrow>
     dzok api \<noteq> DRIZZLE_RETURN_ERROR_CODE (dz_con_api api) \<and>
     (\<forall>con q m result ret m'. dz_query (dz_con_api api) con q m = ((result, ret), m') \<longrightarrow> result \<noteq> None \<and> ret = dzok api \<and> sent m' = sent m @ [q])"

definition drizzle_ready :: "'m drizzle_api \<Rightarrow> ('m \<Rightarrow> string list) \<Rightarrow> nat \<Rightarrow> 'm dzst \<Rightarrow> bool" where
  "drizzle_ready api sent c st \<longleftrightarrow> drizzle_accepts api sent \<and> logger_ready (pg_w (ds_pg st)) \<and> ds_conns st c \<noteq> None"

lemma drizzle_query_accepted:
  assumes "drizzle_ready api sent c st" and "ds_conns st c = Some con"
  shows "\<exists>st'. drizzle_drv_query api c q c st = Inr (SB_DB_ERROR_NONE, st') \<and> drizzle_ready api sent c st' \<and>
           sent (dzlib st') = sent (dzlib st) @ [q] \<and> con_kept c st st' \<and> ds_stmts st' = ds_stmts st"
proof -
  let ?h = "con_ptr con" and ?c = "dz_con_api api" and ?r = "dz_res_api api"
  have acc: "drizzle_accepts api sent" and log: "logger_ready (pg_w (ds_pg st))"
    using assms(1) by (simp_all add: drizzle_ready_def)
  obtain w1 where w1: "DEBUG_db (''drizzle_query('' @ dz_p api ?h @ '', '' @ dz_p api None @ '', '' @ in_quotes q @ '', '' @ print_u (length q) @ '', ''
                @ dz_lp api ''ret'' @ '')'') st = Inr (st\<lparr>ds_pg := (ds_pg st)\<lparr>pg_w := w1\<rparr>\<rparr>)" "logger_ready w1"
    using DEBUG_db_ready [OF log] by blast
  let ?st1 = "st\<lparr>ds_pg := (ds_pg st)\<lparr>pg_w := w1\<rparr>\<rparr>"
  obtain result ret m where x: "dz_query ?c ?h q (dzlib st) = ((result, ret), m)"
    by (metis surj_pair)
  then have "result \<noteq> None \<and> ret = dzok api \<and> sent m = sent (dzlib st) @ [q]" "dzok api \<noteq> DRIZZLE_RETURN_ERROR_CODE ?c"
    using acc unfolding drizzle_accepts_def by blast+
  then obtain res where ok: "result = Some res" "ret = DRIZZLE_RETURN_OK ?c" "sent m = sent (dzlib st) @ [q]" "ret \<noteq> DRIZZLE_RETURN_ERROR_CODE ?c"
    by auto
  let ?st2 = "?st1\<lparr>ds_drv := (ds_drv st)\<lparr>dz_lib := m\<rparr>\<rparr>"
  have call: "dz_call (dz_query ?c ?h q) ?st1 = ((Some res, ret), ?st2)"
    using x ok(1) by (simp add: dz_call_def)
  obtain w3 where w3: "DEBUG_db (''drizzle_query('' @ dz_p api ?h @ '') == '' @ print_int ret) ?st2 = Inr (?st2\<lparr>ds_pg := (ds_pg ?st2)\<lparr>pg_w := w3\<rparr>\<rparr>)" "logger_ready w3"
    using DEBUG_db_ready [of ?st2] w1(2) by auto
  let ?st3 = "?st2\<lparr>ds_pg := (ds_pg ?st2)\<lparr>pg_w := w3\<rparr>\<rparr>"
  obtain w4 where w4: "DEBUG_db (''drizzle_query '' @ in_quotes q @ '' returned '' @ print_int ret) ?st3 = Inr (?st3\<lparr>ds_pg := (ds_pg ?st3)\<lparr>pg_w := w4\<rparr>\<rparr>)"
      "logger_ready w4"
    using DEBUG_db_ready [of ?st3] w3(2) by auto
  let ?st4 = "?st3\<lparr>ds_pg := (ds_pg ?st3)\<lparr>pg_w := w4\<rparr>\<rparr>"
  let ?n = "dz_result_row_count ?r res (dzlib ?st4)"
  let ?st5 = "?st4\<lparr>ds_conns := (ds_conns st)(c := Some (con\<lparr>con_rs := (con_rs con)\<lparr>rs_ptr := Some res, rs_nrows := ?n\<rparr>\<rparr>))\<rparr>"
  have rs: "upd_rs c (\<lambda>r. r\<lparr>rs_ptr := Some res, rs_nrows := ?n\<rparr>) ?st4 = Inr ?st5"
    using assms(2) by (simp add: upd_rs_def upd_con_def con_at_def)
  obtain w6 where w6: "DEBUG_db (''drizzle_result_row_count('' @ dz_p api (Some res) @ '') == '' @ print_dd (unat ?n)) ?st5 = Inr (?st5\<lparr>ds_pg := (ds_pg ?st5)\<lparr>pg_w := w6\<rparr>\<rparr>)"
      "logger_ready w6"
    using DEBUG_db_ready [of ?st5] w4(2) by auto
  let ?st6 = "?st5\<lparr>ds_pg := (ds_pg ?st5)\<lparr>pg_w := w6\<rparr>\<rparr>"
  have "drizzle_drv_query api c q c st = Inr (SB_DB_ERROR_NONE, ?st6)"
    unfolding drizzle_drv_query_def con_at_def assms(2) option.case rbind_Inr Let_def w1(1) call prod.case w3(1) w4(1)
    using ok(2,4) rs w6(1) by simp
  moreover from this have "con_kept c st ?st6"
    by (rule drizzle_query_kept)
  ultimately show ?thesis
    using acc w6(2) ok(3) by (intro exI [of _ ?st6]) (simp add: drizzle_ready_def)
qed

interpretation drizzle_accepting:
  accepting_driver "drizzle_ops fuel api" "drizzle_ready api sent" "\<lambda>d. sent (dz_lib d)" "\<lambda>_ :: 'm drizzle_drv. drizzle_drv_caps"
  for fuel and api :: "'m drizzle_api" and sent
proof (unfold_locales, goal_cases)
  case (1 c st con q)
  then show ?case using drizzle_query_accepted [of api sent c st con q] by (auto simp: drizzle_ops_def)
next
  case (2 c st)
  then show ?case by (simp add: drizzle_ops_def drizzle_drv_describe_def)
next
  case (3 c st st')
  then show ?case by (auto simp: drizzle_ready_def)
qed

section \<open>Emulated statements\<close>

lemma drizzle_execute_sends:
  assumes "drizzle_ready api sent c st" and "ds_conns st c = Some con" and "os_mem (pg_opts (ds_pg st)) = []"
    and "ds_stmts st s = Some stmt" and "st_connection stmt = Some c" and "st_query stmt = Some query" and "st_bound_param stmt = Some ps"
    and "map (bind_text (ds_vars st)) ps = map Inr ts" and "length (filter (\<lambda>c. c = CHR ''?'') query) \<le> length ts"
    and "query \<noteq> []" and "length (substitute ts query) + 1 < 2 ^ 30" and "length query + 45 \<le> fuel"
  shows "\<exists>st' r. drizzle_drv_execute fuel api s c st = Inr (SB_DB_ERROR_NONE, st') \<and> sent (dzlib st') = sent (dzlib st) @ [substitute ts query] \<and>
           ds_conns st' c = Some (con\<lparr>con_rs := r, con_errno := SB_DB_ERROR_NONE\<rparr>) \<and> thread_stats st' = thread_stats st \<and> ds_stmts st' = ds_stmts st"
proof -
  have mem: "st\<lparr>ds_pg := set_opts ((pg_opts (ds_pg st))\<lparr>os_mem := []\<rparr>) (ds_pg st)\<rparr> = st"
    using assms(3) by simp
  have sub: "emulate_query (ds_vars st) fuel (Some ps) query (os_mem (pg_opts (ds_pg st))) = Inr (Some (substitute ts query), [])"
    using emulate_query_text [OF assms(8-12)] assms(3) by simp
  obtain st1 where st1: "drizzle_drv_query api c (substitute ts query) c st = Inr (SB_DB_ERROR_NONE, st1)"
      "sent (dzlib st1) = sent (dzlib st) @ [substitute ts query]" "con_kept c st st1" "ds_stmts st1 = ds_stmts st"
    using drizzle_query_accepted [OF assms(1,2)] by blast
  then obtain r where r: "ds_conns st1 c = Some (con\<lparr>con_rs := r\<rparr>)" "thread_stats st1 = thread_stats st"
    using assms(2) by (auto simp: con_kept_def)
  let ?st2 = "st1\<lparr>ds_conns := (ds_conns st1)(c := Some (con\<lparr>con_rs := r, con_errno := SB_DB_ERROR_NONE\<rparr>))\<rparr>"
  have "drizzle_drv_execute fuel api s c st = Inr (SB_DB_ERROR_NONE, ?st2)"
    using assms(4-7) sub mem st1(1) r(1) by (simp add: drizzle_drv_execute_def stmt_at_def stmt_con_def upd_con_def con_at_def)
  then show ?thesis
    using st1(2,4) r(2) by (intro exI [of _ ?st2] exI [of _ r]) simp
qed

text \<open>
  (C5) The whole life of a statement through the Drizzle driver: it is prepared by keeping a copy of its text, bound by keeping a copy of the bindings, and each execution sends
  one query, the text with the question marks replaced by the values the variables have at that time, in order. No buffer is overrun, and the loop ends.
\<close>

theorem drizzle_statement_sent:
  assumes "drizzle_ready api sent c st" and "attached drvs (drizzle_ops fuel api) c st con" and "con_ptr con \<noteq> None"
    and "os_mem (pg_opts (ds_pg st)) = []" and "map (bind_text vars) ps = map Inr ts" and "length ps < 2 ^ 31"
    and "length (filter (\<lambda>c. c = CHR ''?'') query) \<le> length ts" and "query \<noteq> []" and "length (substitute ts query) + 1 < 2 ^ 30"
    and "length query + 45 \<le> fuel"
  shows "\<exists>s st1 st2 st3. db_prepare drvs c query st = Inr (Some s, st1) \<and> db_bind_param drvs s ps (of_nat (length ps)) st1 = Inr (0, st2) \<and>
           db_execute drvs s (st2\<lparr>ds_vars := vars\<rparr>) = Inr (Some c, st3) \<and> sent (dzlib st3) = sent (dzlib st) @ [substitute ts query]"
proof -
  let ?s = "ds_next st"
  have at: "ds_conns st c = Some con"
    using assms(2) by (simp add: attached_def)
  let ?st0 = "st\<lparr>ds_next := ?s + 1, ds_stmts := (ds_stmts st)(?s := Some (stmt_zero\<lparr>st_connection := Some c\<rparr>))\<rparr>"
  let ?stmt1 = "stmt_zero\<lparr>st_connection := Some c, st_emulated := True, st_query := Some query, st_type := db_get_query_type query\<rparr>"
  let ?st1 = "st\<lparr>ds_next := ?s + 1, ds_stmts := (ds_stmts st)(?s := Some ?stmt1)\<rparr>"
  have att: "attached drvs (drizzle_ops fuel api) c ?st0 con" "attached drvs (drizzle_ops fuel api) c ?st1 con"
    using assms(2) by (simp_all add: attached_def)
  have mal: "d_malloc st = (True, st)" "d_malloc ?st0 = (True, ?st0)" "d_malloc ?st1 = (True, ?st1)"
    using assms(4) by (simp_all add: d_malloc_def)
  have prep: "db_prepare drvs c query st = Inr (Some ?s, ?st1)"
    using mal(1,2) attached_driver [OF att(1)]
    by (simp add: db_prepare_def Let_def drizzle_ops_def drizzle_drv_prepare_def d_strdup_def upd_stmt_def stmt_at_def)
  have n: "unat (of_nat (length ps) :: u32) = length ps"
    using assms(6) by (intro unat_of_nat_u32) simp
  let ?stmt2 = "?stmt1\<lparr>st_bound_param := Some ps, st_bound_param_len := of_nat (length ps)\<rparr>"
  let ?st2 = "?st1\<lparr>ds_stmts := (ds_stmts st)(?s := Some ?stmt2)\<rparr>"
  have bind: "db_bind_param drvs ?s ps (of_nat (length ps)) ?st1 = Inr (0, ?st2)"
    using mal(3) attached_driver [OF att(2)] at assms(3) n
    by (simp add: db_bind_param_def stmt_at_def drizzle_ops_def drizzle_drv_bind_param_def stmt_con_def con_at_def keep_params_def upd_stmt_def)
  let ?st3 = "?st2\<lparr>ds_vars := vars\<rparr>"
  let ?con4 = "con\<lparr>con_rs := rs_zero\<lparr>rs_statement := Some ?s, rs_connection := Some c\<rparr>\<rparr>"
  let ?st4 = "?st3\<lparr>ds_conns := (ds_conns st)(c := Some ?con4)\<rparr>"
  have ready4: "drizzle_ready api sent c ?st4"
    using assms(1) by (simp add: drizzle_ready_def)
  obtain st5 r where st5: "drizzle_drv_execute fuel api ?s c ?st4 = Inr (SB_DB_ERROR_NONE, st5)" "sent (dzlib st5) = sent (dzlib st) @ [substitute ts query]"
      "ds_conns st5 c = Some (con\<lparr>con_rs := r, con_errno := SB_DB_ERROR_NONE\<rparr>)" "thread_stats st5 = thread_stats st" "ds_stmts st5 = ds_stmts ?st4"
    using drizzle_execute_sends [OF ready4, of ?con4 ?s ?stmt2 query ps ts fuel] assms(4,5,7-10) by (auto simp: stmt_zero_def)
  let ?con6 = "con\<lparr>con_rs := r, con_errno := SB_DB_ERROR_NONE\<rparr>"
  let ?st6 = "st5\<lparr>ds_conns := (ds_conns st5)(c := Some ?con6)\<rparr>"
  obtain ts0 where ts0: "thread_stats st = Some ts0" "con_thread_id con < int (length ts0)"
    using assms(2) by (auto simp: attached_def)
  obtain ts' where st7: "db_count_ok c (st_type ?stmt2) ?st6 = Inr (?st6\<lparr>thread_stats := Some ts'\<rparr>)"
    using db_count_ok_succeeds [of ?st6 c ?con6 ts0] ts0 st5(4) by auto
  have att3: "attached drvs (drizzle_ops fuel api) c ?st3 con"
    using assms(2) by (simp add: attached_def)
  have "db_execute drvs ?s ?st3 = Inr (Some c, ?st6\<lparr>thread_stats := Some ts'\<rparr>)"
    using attached_driver [OF att3] at st5(1,3,5) st7
    by (simp add: db_execute_def stmt_at_def upd_rs_def upd_con_def con_at_def drizzle_ops_def)
  then show ?thesis
    using prep bind st5(2) by (intro exI [of _ ?s] exI [of _ ?st1] exI [of _ ?st2] exI [of _ "?st6\<lparr>thread_stats := Some ts'\<rparr>"]) simp
qed

section \<open>Fetching results\<close>

text \<open>
  A result with \<open>columns m\<close> columns and \<open>rows m\<close> rows still to be read, of which \<open>held m\<close> objects of the library have not been released: reading a column or a row hands
  out one object until there is none left.
\<close>

definition drizzle_streams :: "'m drizzle_api \<Rightarrow> ('m \<Rightarrow> nat) \<Rightarrow> ('m \<Rightarrow> nat) \<Rightarrow> ('m \<Rightarrow> int) \<Rightarrow> bool" where
  "drizzle_streams api columns rows held \<longleftrightarrow>
     (\<forall>res col m x ret m'. dz_column_read (dz_res_api api) res col m = ((x, ret), m') \<longrightarrow> ret = dzok api \<and> rows m' = rows m \<and>
        (x \<noteq> None \<longleftrightarrow> columns m \<noteq> 0) \<and> columns m' = columns m - 1 \<and> held m' = held m + (if columns m \<noteq> 0 then 1 else 0)) \<and>
     (\<forall>res m x ret m'. dz_row_buffer (dz_res_api api) res m = ((x, ret), m') \<longrightarrow> ret = dzok api \<and> columns m' = columns m \<and>
        (x \<noteq> None \<longleftrightarrow> rows m \<noteq> 0) \<and> rows m' = rows m - 1 \<and> held m' = held m + (if rows m \<noteq> 0 then 1 else 0)) \<and>
     (\<forall>col m. columns (dz_column_free (dz_res_api api) col m) = columns m \<and> rows (dz_column_free (dz_res_api api) col m) = rows m \<and>
        held (dz_column_free (dz_res_api api) col m) = held m - 1) \<and>
     (\<forall>res r m. columns (dz_row_free (dz_res_api api) res r m) = columns m \<and> rows (dz_row_free (dz_res_api api) res r m) = rows m \<and>
        held (dz_row_free (dz_res_api api) res r m) = held m - 1)"

lemma column_info_ready:
  assumes "logger_ready (pg_w (ds_pg st))"
  shows "\<exists>w'. column_info api c st = Inr (st\<lparr>ds_pg := (ds_pg st)\<lparr>pg_w := w'\<rparr>\<rparr>) \<and> logger_ready w'"
  using DEBUG_db_ready [OF assms] by (simp add: column_info_def case_prod_unfold Let_def)

lemma dz_read_columns_ends:
  assumes "drizzle_streams api columns rows held"
  shows "columns (dzlib st) < n \<Longrightarrow> logger_ready (pg_w (ds_pg st)) \<Longrightarrow>
     \<exists>st'. dz_read_columns n api con res column st = Inr (SB_DB_ERROR_NONE, st') \<and> columns (dzlib st') = 0 \<and> rows (dzlib st') = rows (dzlib st) \<and>
       held (dzlib st') = held (dzlib st) \<and> dzargs st' = dzargs st \<and> logger_ready (pg_w (ds_pg st')) \<and> ds_conns st' = ds_conns st"
proof (induction n arbitrary: st column)
  case (Suc n)
  obtain x ret m where x: "dz_column_read (dz_res_api api) res column (dzlib st) = ((x, ret), m)"
    by (metis surj_pair)
  have law: "ret = dzok api" "rows m = rows (dzlib st)" "x \<noteq> None \<longleftrightarrow> columns (dzlib st) \<noteq> 0" "columns m = columns (dzlib st) - 1"
      "held m = held (dzlib st) + (if columns (dzlib st) \<noteq> 0 then 1 else 0)"
    using assms x unfolding drizzle_streams_def by blast+
  let ?st1 = "st\<lparr>ds_drv := (ds_drv st)\<lparr>dz_lib := m\<rparr>\<rparr>"
  let ?msg = "''drizzle_column_read('' @ dz_p api (Some res) @ '','' @ dz_p api x @ '','' @ dz_lp api ''ret'' @ '') == '' @ print_int ret"
  obtain w1 where w1: "DEBUG_db ?msg ?st1 = Inr (?st1\<lparr>ds_pg := (ds_pg ?st1)\<lparr>pg_w := w1\<rparr>\<rparr>)" "logger_ready w1"
    using DEBUG_db_ready [of ?st1] Suc.prems(2) by auto
  let ?st2 = "?st1\<lparr>ds_pg := (ds_pg ?st1)\<lparr>pg_w := w1\<rparr>\<rparr>"
  have step: "dz_read_columns (Suc n) api con res column st =
      (case x of None \<Rightarrow> Inr (SB_DB_ERROR_NONE, ?st2)
       | Some c \<Rightarrow> rbind (column_info api c ?st2) (\<lambda>st. dz_read_columns n api con res x (dz_do (dz_column_free (dz_res_api api) c) st)))"
    using x w1(1) law(1) by (simp add: dz_call_def split: option.split)
  show ?case
  proof (cases x)
    case None
    then have "columns m = 0" "held m = held (dzlib st)"
      using law(3-5) by auto
    then show ?thesis
      unfolding step using None law(2) w1(2) by simp
  next
    case (Some c)
    obtain w2 where w2: "column_info api c ?st2 = Inr (?st2\<lparr>ds_pg := (ds_pg ?st2)\<lparr>pg_w := w2\<rparr>\<rparr>)" "logger_ready w2"
      using column_info_ready [of ?st2] w1(2) by auto
    let ?st3 = "dz_do (dz_column_free (dz_res_api api) c) (?st2\<lparr>ds_pg := (ds_pg ?st2)\<lparr>pg_w := w2\<rparr>\<rparr>)"
    have law3: "columns (dzlib ?st3) = columns m" "rows (dzlib ?st3) = rows m" "held (dzlib ?st3) = held m - 1"
      using assms unfolding drizzle_streams_def by (simp_all add: dz_do_def)
    have "columns (dzlib ?st3) < n" "logger_ready (pg_w (ds_pg ?st3))"
      using law3(1) law(3,4) Some Suc.prems(1) w2(2) by (auto simp: dz_do_def)
    then show ?thesis
      unfolding step using Some w2(1) Suc.IH [of ?st3 x] law3 law(2,3,5) by (auto simp: dz_do_def)
  qed
qed simp

lemma dz_rows_end:
  assumes "drizzle_streams api columns rows held"
  shows "rows (dzlib st) < n \<Longrightarrow> dz_buffer (dzargs st) = BUFFER_ROW \<Longrightarrow> logger_ready (pg_w (ds_pg st)) \<Longrightarrow>
     \<exists>st'. dz_rows n fuel api con res offset st = Inr (SB_DB_ERROR_NONE, st') \<and> rows (dzlib st') = 0 \<and> columns (dzlib st') = columns (dzlib st) \<and>
       held (dzlib st') = held (dzlib st)"
proof (induction n arbitrary: st)
  case (Suc n)
  obtain x ret m where x: "dz_row_buffer (dz_res_api api) res (dzlib st) = ((x, ret), m)"
    by (metis surj_pair)
  have law: "ret = dzok api" "columns m = columns (dzlib st)" "x \<noteq> None \<longleftrightarrow> rows (dzlib st) \<noteq> 0" "rows m = rows (dzlib st) - 1"
      "held m = held (dzlib st) + (if rows (dzlib st) \<noteq> 0 then 1 else 0)"
    using assms x unfolding drizzle_streams_def by blast+
  let ?st1 = "st\<lparr>ds_drv := (ds_drv st)\<lparr>dz_lib := m\<rparr>\<rparr>"
  let ?msg = "''drizzle_row_buffer('' @ dz_p api (Some res) @ '', '' @ dz_lp api ''ret'' @ '') == '' @ dz_p api x @ '', '' @ print_int ret"
  obtain w1 where w1: "DEBUG_db ?msg ?st1 = Inr (?st1\<lparr>ds_pg := (ds_pg ?st1)\<lparr>pg_w := w1\<rparr>\<rparr>)" "logger_ready w1"
    using DEBUG_db_ready [of ?st1] Suc.prems(3) by auto
  let ?st2 = "?st1\<lparr>ds_pg := (ds_pg ?st1)\<lparr>pg_w := w1\<rparr>\<rparr>"
  have step: "dz_rows (Suc n) fuel api con res offset st =
      (case x of None \<Rightarrow> Inr (SB_DB_ERROR_NONE, ?st2)
       | Some r \<Rightarrow> rbind (DEBUG_db (''drizzle_row_free('' @ dz_p api (Some res) @ '', '' @ dz_p api x @ '')'') ?st2)
                    (\<lambda>st. dz_rows n fuel api con res offset (dz_do (dz_row_free (dz_res_api api) res r) st)))"
    using x w1(1) law(1) Suc.prems(2) by (simp add: dz_call_def split: option.split)
  show ?case
  proof (cases x)
    case None
    then have "rows m = 0" "held m = held (dzlib st)"
      using law(3-5) by auto
    then show ?thesis
      unfolding step using None law(2) by simp
  next
    case (Some r)
    obtain w2 where w2: "DEBUG_db (''drizzle_row_free('' @ dz_p api (Some res) @ '', '' @ dz_p api x @ '')'') ?st2 =
        Inr (?st2\<lparr>ds_pg := (ds_pg ?st2)\<lparr>pg_w := w2\<rparr>\<rparr>)" "logger_ready w2"
      using DEBUG_db_ready [of ?st2] w1(2) by auto
    let ?st3 = "dz_do (dz_row_free (dz_res_api api) res r) (?st2\<lparr>ds_pg := (ds_pg ?st2)\<lparr>pg_w := w2\<rparr>\<rparr>)"
    have law3: "columns (dzlib ?st3) = columns m" "rows (dzlib ?st3) = rows m" "held (dzlib ?st3) = held m - 1"
      using assms unfolding drizzle_streams_def by (simp_all add: dz_do_def)
    have "rows (dzlib ?st3) < n" "dz_buffer (dzargs ?st3) = BUFFER_ROW" "logger_ready (pg_w (ds_pg ?st3))"
      using law3(2) law(3,4) Some Suc.prems(1,2) w2(2) by (auto simp: dz_do_def)
    then show ?thesis
      unfolding step using Some w2(1) Suc.IH [of ?st3] law3 law(2,3,5) by auto
  qed
qed simp

text \<open>
  Storing a result with buffered rows ends and leaks nothing: \<^verbatim>\<open>drizzle_drv_store_results\<close> reads all columns and all rows of the result, and as many objects of the
  library have been released as were handed out.
\<close>

lemma drizzle_results_released:
  assumes "drizzle_streams api columns rows held" and "ds_conns st c = Some con" and "rs_connection (con_rs con) = Some c" and "con_ptr con \<noteq> None"
    and "rs_ptr (con_rs con) = Some res" and "dz_buffer (dzargs st) = BUFFER_ROW" and "logger_ready (pg_w (ds_pg st))"
    and "0 < dz_result_column_count (dz_res_api api) res (dzlib st)" and "columns (dzlib st) < fuel" and "rows (dzlib st) < fuel"
  shows "\<exists>st'. drizzle_drv_store_results fuel api c st = Inr (SB_DB_ERROR_NONE, st') \<and> columns (dzlib st') = 0 \<and> rows (dzlib st') = 0 \<and>
           held (dzlib st') = held (dzlib st)"
proof -
  obtain h where h: "con_ptr con = Some h"
    using assms(4) by auto
  obtain st1 where st1: "dz_read_columns fuel api (Some h) res None st = Inr (SB_DB_ERROR_NONE, st1)" "columns (dzlib st1) = 0"
      "rows (dzlib st1) = rows (dzlib st)" "held (dzlib st1) = held (dzlib st)" "dzargs st1 = dzargs st" "logger_ready (pg_w (ds_pg st1))"
    using dz_read_columns_ends [OF assms(1,9,7)] by blast
  obtain st2 where st2: "dz_rows fuel fuel api (Some h) res 0 st1 = Inr (SB_DB_ERROR_NONE, st2)" "rows (dzlib st2) = 0" "columns (dzlib st2) = 0"
      "held (dzlib st2) = held (dzlib st)"
    using dz_rows_end [OF assms(1), of st1 fuel fuel "Some h" res 0] st1 assms(6,10) by auto
  then show ?thesis
    using assms(2,3,5,6,8) h st1(1) by (intro exI [of _ st2]) (simp add: drizzle_drv_store_results_def con_at_def)
qed

section \<open>Examples\<close>

text \<open>A library that records what it is sent, with a result of two columns and three rows.\<close>

record dz_sample =
  zs_sent :: "string list"
  zs_columns :: nat
  zs_rows :: nat
  zs_held :: int

definition sample_dz_con_api :: "dz_sample drizzle_con_api" where
  "sample_dz_con_api =
     \<lparr>dz_create = (\<lambda>m. (Some 1, m)), dz_con_add_uds = (\<lambda>_ _ _ _ _ _ m. (Some 2, m)), dz_con_add_tcp = (\<lambda>_ _ _ _ _ _ _ m. (Some 2, m)),
      dz_errno = (\<lambda>_ _. 0), dz_error = (\<lambda>_ _. []), dz_con_connect = (\<lambda>_ m. (0, m)), dz_con_close = (\<lambda>_. id), dz_free = (\<lambda>_. id),
      dz_con_errno = (\<lambda>_ _. 0), dz_con_error = (\<lambda>_ _. []), dz_con_drizzle = (\<lambda>_ _. Some 1),
      dz_query = (\<lambda>_ q m. ((Some 4, 0), m\<lparr>zs_sent := zs_sent m @ [q]\<rparr>)), dz_addr = (\<lambda>_. 0), dz_local = (\<lambda>_. 0), DRIZZLE_CON_MYSQL = 8,
      DRIZZLE_RETURN_OK = 0, DRIZZLE_RETURN_ERROR_CODE = 14, DRIZZLE_RETURN_ROW_END = 12\<rparr>"

definition sample_dz_api :: "dz_sample drizzle_api" where
  "sample_dz_api =
     \<lparr>dz_con_api = sample_dz_con_api,
      dz_res_api =
        \<lparr>dz_result_error_code = (\<lambda>_ _. 0), dz_result_error = (\<lambda>_ _. []), dz_result_row_count = (\<lambda>_ _. 0), dz_result_buffer = (\<lambda>_ m. (0, m)),
         dz_result_column_count = (\<lambda>_ m. zs_columns m), dz_result_free = (\<lambda>_. id), dz_column_next = (\<lambda>_ m. (None, m)),
         dz_column_read = (\<lambda>_ _ m. if zs_columns m = 0 then ((None, 0), m)
                                    else ((Some (zs_columns m), 0), m\<lparr>zs_columns := zs_columns m - 1, zs_held := zs_held m + 1\<rparr>)),
         dz_column_free = (\<lambda>_ m. m\<lparr>zs_held := zs_held m - 1\<rparr>), dz_column_names = (\<lambda>_ _. ([], [], [], [], [], [])), dz_column_numbers = (\<lambda>_ _. (0, 0, 0, 0)),
         dz_row_buffer = (\<lambda>_ m. if zs_rows m = 0 then ((None, 0), m) else ((Some (zs_rows m), 0), m\<lparr>zs_rows := zs_rows m - 1, zs_held := zs_held m + 1\<rparr>)),
         dz_row_free = (\<lambda>_ _ m. m\<lparr>zs_held := zs_held m - 1\<rparr>), dz_row_read = (\<lambda>_ m. ((0, 0), m)), dz_field_buffer = (\<lambda>_ m. ((None, 0, 12), m)),
         dz_field_read = (\<lambda>_ _ m. ((None, 0, 0, 0, 12), m)), dz_field_free = (\<lambda>_. id)\<rparr>\<rparr>"

definition sample_dz_con :: db_conn_t where
  "sample_dz_con = con_zero\<lparr>con_driver := Some 0, con_ptr := Some 2, con_rs := rs_zero\<lparr>rs_connection := Some 1, rs_ptr := Some 4\<rparr>\<rparr>"

definition sample_dz :: "dz_sample dzst" where
  "sample_dz =
     (sample_db \<lparr>dz_args = \<lparr>dz_hosts = [''localhost''], dz_port = 4427, dz_socket = None, dz_user = None, dz_password = None, dz_db = None,
                             dz_buffer = BUFFER_ROW, dz_mysql = False\<rparr>, dz_hosts_pos = 0,
                 dz_lib = \<lparr>zs_sent = [], zs_columns = 2, zs_rows = 3, zs_held = 0\<rparr>\<rparr>)\<lparr>ds_conns := [1 \<mapsto> sample_dz_con], ds_next := 30\<rparr>"

definition sample_dz_params :: "db_bind_t list" where
  "sample_dz_params =
     [\<lparr>b_type = DB_TYPE_INT, b_buffer = Some 20, b_data_len = None, b_max_len = 4, b_is_null = None\<rparr>,
      \<lparr>b_type = DB_TYPE_INT, b_buffer = Some 20, b_data_len = None, b_max_len = 4, b_is_null = Some 22\<rparr>]"

definition sample_dz_vars :: vars where
  "sample_dz_vars = [20 \<mapsto> Int_data 4, 22 \<mapsto> Flag_data True]"

lemma sample_dz_ready:
  "drizzle_ready sample_dz_api zs_sent 1 sample_dz" "attached (register_driver_drizzle 100 sample_dz_api []) (drizzle_ops 100 sample_dz_api) 1 sample_dz sample_dz_con"
  "os_mem (pg_opts (ds_pg sample_dz)) = []"
  using sample_world_ready
  by (auto simp: drizzle_ready_def drizzle_accepts_def sample_dz_api_def sample_dz_con_api_def sample_dz_def sample_db_def attached_def
      register_driver_drizzle_def drizzle_driver_def sample_dz_con_def con_zero_def sample_world_def sample_globals_def empty_opts_def)

lemma drizzle_statement_sent_witness:
  "\<exists>s st1 st2 st3. db_prepare (register_driver_drizzle 100 sample_dz_api []) 1 ''SELECT ? , ?'' sample_dz = Inr (Some s, st1) \<and>
     db_bind_param (register_driver_drizzle 100 sample_dz_api []) s sample_dz_params 2 st1 = Inr (0, st2) \<and>
     db_execute (register_driver_drizzle 100 sample_dz_api []) s (st2\<lparr>ds_vars := sample_dz_vars\<rparr>) = Inr (Some 1, st3) \<and>
     zs_sent (dzlib st3) = [''SELECT 4 , NULL'']"
proof -
  have "digit_char 4 = CHR ''4''"
    by code_simp
  then have "map (bind_text sample_dz_vars) sample_dz_params = map Inr [''4'', ''NULL'']"
    by (simp add: sample_dz_params_def sample_dz_vars_def bind_text_def is_null_var_def var_at_def Let_def print_int_def print_nat.simps)
  moreover have "con_ptr sample_dz_con \<noteq> None" "zs_sent (dzlib sample_dz) = []" "length sample_dz_params = 2"
    by (simp_all add: sample_dz_con_def sample_dz_def sample_db_def sample_dz_params_def)
  ultimately show ?thesis
    using drizzle_statement_sent [OF sample_dz_ready(1,2) _ sample_dz_ready(3), of sample_dz_vars sample_dz_params "[''4'', ''NULL'']" "''SELECT ? , ?''"]
    by (simp del: db_prepare_def)
qed

lemma drizzle_results_released_witness:
  "\<exists>st'. drizzle_drv_store_results 5 sample_dz_api 1 sample_dz = Inr (SB_DB_ERROR_NONE, st') \<and> zs_columns (dzlib st') = 0 \<and> zs_rows (dzlib st') = 0 \<and>
     zs_held (dzlib st') = 0"
proof -
  have "drizzle_streams sample_dz_api zs_columns zs_rows zs_held"
    by (auto simp: drizzle_streams_def sample_dz_api_def sample_dz_con_api_def split: if_splits)
  moreover have "logger_ready (pg_w (ds_pg sample_dz))"
    using sample_dz_ready(1) by (simp add: drizzle_ready_def)
  ultimately show ?thesis
    using drizzle_results_released [of sample_dz_api zs_columns zs_rows zs_held sample_dz 1 sample_dz_con 4 5]
    by (simp add: sample_dz_def sample_db_def sample_dz_con_def sample_dz_api_def)
qed

end
