(* ===== verification/DrvAttachsql.thy ===== *)
theory DrvAttachsql
  imports DrvCommon
begin

text \<open>
  The libAttachSQL driver (\<^verbatim>\<open>drivers/attachsql/drv_attachsql.c\<close>). The library is not part of the sources: its functions and the
  numbers of its enumerations are an argument \<open>api\<close>, its state \<open>'m\<close> is part of the driver's state; connections and errors are numbers, \<open>None\<close> is NULL.
  A function of the library that is given the address of the variable \<^verbatim>\<open>error\<close> takes its value and returns the new one. The loops that
  poll the library end when it is ready; the number of rounds that are followed is the argument \<open>fuel\<close>.
\<close>

section \<open>Data\<close>

record attachsql_drv_args_t =
  at_hosts :: "string list"
  at_port :: u32
  at_socket :: "string option"
  at_user :: "string option"
  at_password :: "string option"
  at_db :: "string option"

type_synonym at_error = "nat option"

text \<open>The values a parameter is set to, and the functions that read a column.\<close>

datatype at_value =
    Set_int int
  | Set_bigint int
  | Set_float real
  | Set_double real
  | Set_time u32 u32 u32
  | Set_datetime u32 u32 u32 u32 u32 u32
  | Set_string u64 "nat option"
  | Set_null

datatype at_getter = Get_int | Get_bigint | Get_float | Get_double | Get_char

text \<open>The library: connections, errors, queries and prepared statements; the constants of \<^verbatim>\<open>attachsql_return_t\<close> and of the column types.\<close>

record 'm attachsql_api =
  at_library_init :: "'m \<Rightarrow> 'm"
  at_connect_create :: "string option \<Rightarrow> u32 \<Rightarrow> string option \<Rightarrow> string option \<Rightarrow> string option \<Rightarrow> at_error \<Rightarrow> 'm \<Rightarrow> (nat option \<times> at_error) \<times> 'm"
  at_set_semi_blocking :: "nat option \<Rightarrow> 'm \<Rightarrow> 'm"
  at_connect :: "nat option \<Rightarrow> at_error \<Rightarrow> 'm \<Rightarrow> (bool \<times> at_error) \<times> 'm"
  at_connect_poll :: "nat option \<Rightarrow> at_error \<Rightarrow> 'm \<Rightarrow> (int \<times> at_error) \<times> 'm"
  at_connect_destroy :: "nat option \<Rightarrow> 'm \<Rightarrow> 'm"
  at_error_code :: "at_error \<Rightarrow> 'm \<Rightarrow> u32"
  at_error_message :: "at_error \<Rightarrow> 'm \<Rightarrow> string"
  at_error_free :: "at_error \<Rightarrow> 'm \<Rightarrow> 'm"
  at_query :: "nat option \<Rightarrow> string \<Rightarrow> at_error \<Rightarrow> 'm \<Rightarrow> at_error \<times> 'm"
  at_query_close :: "nat option \<Rightarrow> 'm \<Rightarrow> 'm"
  at_query_column_count :: "nat option \<Rightarrow> 'm \<Rightarrow> nat"
  at_query_row_get :: "nat option \<Rightarrow> 'm \<Rightarrow> nat option \<times> 'm"
  at_query_row_next :: "nat option \<Rightarrow> 'm \<Rightarrow> 'm"
  at_statement_prepare :: "nat option \<Rightarrow> string \<Rightarrow> at_error \<Rightarrow> 'm \<Rightarrow> at_error \<times> 'm"
  at_statement_set :: "nat option \<Rightarrow> nat \<Rightarrow> at_value \<Rightarrow> 'm \<Rightarrow> 'm"
  at_statement_execute :: "nat option \<Rightarrow> at_error \<Rightarrow> 'm \<Rightarrow> at_error \<times> 'm"
  at_statement_row_get :: "nat option \<Rightarrow> 'm \<Rightarrow> 'm"
  at_statement_get_column_type :: "nat option \<Rightarrow> nat \<Rightarrow> 'm \<Rightarrow> int"
  at_statement_get :: "at_getter \<Rightarrow> nat option \<Rightarrow> nat \<Rightarrow> at_error \<Rightarrow> 'm \<Rightarrow> at_error \<times> 'm"
  at_statement_close :: "nat option \<Rightarrow> 'm \<Rightarrow> 'm"
  at_ptr :: "nat option \<Rightarrow> string"
  ATTACHSQL_RETURN_NONE :: int
  ATTACHSQL_RETURN_IDLE :: int
  ATTACHSQL_RETURN_EOF :: int
  ATTACHSQL_RETURN_ROW_READY :: int
  ATTACHSQL_COLUMN_TYPE_TINY :: int
  ATTACHSQL_COLUMN_TYPE_SHORT :: int
  ATTACHSQL_COLUMN_TYPE_LONG :: int
  ATTACHSQL_COLUMN_TYPE_YEAR :: int
  ATTACHSQL_COLUMN_TYPE_INT24 :: int
  ATTACHSQL_COLUMN_TYPE_LONGLONG :: int
  ATTACHSQL_COLUMN_TYPE_FLOAT :: int
  ATTACHSQL_COLUMN_TYPE_DOUBLE :: int

text \<open>The variables of the driver and the state of the library; a position in the list of hosts is 0 for the list head.\<close>

record 'm attachsql_drv =
  at_args :: attachsql_drv_args_t
  at_hosts_pos :: nat
  at_lib :: 'm

type_synonym 'm atst = "'m attachsql_drv db_state"

abbreviation atlib :: "'m atst \<Rightarrow> 'm" where "atlib st \<equiv> at_lib (ds_drv st)"

definition at_call :: "('m \<Rightarrow> 'a \<times> 'm) \<Rightarrow> 'm atst \<Rightarrow> 'a \<times> 'm atst" where
  "at_call f st = (case f (atlib st) of (x, m) \<Rightarrow> (x, st\<lparr>ds_drv := (ds_drv st)\<lparr>at_lib := m\<rparr>\<rparr>))"

definition at_do :: "('m \<Rightarrow> 'm) \<Rightarrow> 'm atst \<Rightarrow> 'm atst" where
  "at_do f st = st\<lparr>ds_drv := (ds_drv st)\<lparr>at_lib := f (atlib st)\<rparr>\<rparr>"

definition attachsql_drv_args :: "sb_arg_t list" where
  "attachsql_drv_args =
     [mk_arg ''attachsql-host'' ''libAttachSQL server host'' SB_ARG_TYPE_LIST (Some ''localhost''),
      mk_arg ''attachsql-port'' ''libAttachSQL server port'' SB_ARG_TYPE_INT (Some ''4427''),
      mk_arg ''attachsql-socket'' ''libAttachSQL socket'' SB_ARG_TYPE_STRING None,
      mk_arg ''attachsql-user'' ''libAttachSQL user'' SB_ARG_TYPE_STRING (Some []),
      mk_arg ''attachsql-password'' ''libAttachSQL password'' SB_ARG_TYPE_STRING (Some []),
      mk_arg ''attachsql-db'' ''libAttachSQL database name'' SB_ARG_TYPE_STRING (Some ''sbtest'')]"

definition attachsql_drv_caps :: drv_caps_t where
  "attachsql_drv_caps = \<lparr>multi_rows_insert = True, prepared_statements = True, auto_increment = True, needs_commit = False,
                         serial = False, unsigned_int = False\<rparr>"

section \<open>Initialisation and connections\<close>

definition attachsql_drv_init :: "'m attachsql_api \<Rightarrow> 'm attachsql_drv dop" where
  "attachsql_drv_init api st =
     (let opts = pg_opts (ds_pg st) in
      case map_option (map val_data) (sb_get_value_list opts ''attachsql-host'') of
        None \<Rightarrow> Inl Null_deref
      | Some [] \<Rightarrow> rbind (d_log LOG_FATAL ''No libAttachSQL hosts specified, aborting'' st) (\<lambda>st. Inr (1, st))
      | Some hosts \<Rightarrow>
          rbind (sb_get_value_int opts ''attachsql-port'') (\<lambda>port.
            let args = \<lparr>at_hosts = hosts, at_port = word_of_int port, at_socket = sb_get_value_string opts ''attachsql-socket'',
                        at_user = sb_get_value_string opts ''attachsql-user'', at_password = sb_get_value_string opts ''attachsql-password'',
                        at_db = sb_get_value_string opts ''attachsql-db''\<rparr>
            in Inr (0, at_do (at_library_init api) (st\<lparr>ds_drv := (ds_drv st)\<lparr>at_args := args, at_hosts_pos := 0\<rparr>\<rparr>))))"

definition attachsql_drv_describe :: "'m atst \<Rightarrow> ((int \<times> drv_caps_t) \<times> 'm atst) res" where
  "attachsql_drv_describe st = Inr ((0, attachsql_drv_caps), st)"

text \<open>The text \<^verbatim>\<open>"error %d: %s"\<close> of a library error.\<close>

definition at_error_text :: "'m attachsql_api \<Rightarrow> at_error \<Rightarrow> 'm atst \<Rightarrow> string" where
  "at_error_text api e st = ''error '' @ print_int (sint (at_error_code api e (atlib st))) @ '': '' @ at_error_message api e (atlib st)"

text \<open>What follows when the connection fails after it was created.\<close>

definition at_connect_failed :: "'m attachsql_api \<Rightarrow> nat option \<Rightarrow> at_error \<Rightarrow> 'm attachsql_drv dop" where
  "at_connect_failed api con e st =
     rbind (d_log LOG_FATAL ''unable to connect to libAttachSQL server'' st) (\<lambda>st.
     rbind (d_log LOG_FATAL (at_error_text api e st) st) (\<lambda>st.
       Inr (1, at_do (at_connect_destroy api con) (at_do (at_error_free api e) st))))"

fun at_connect_loop :: "nat \<Rightarrow> 'm attachsql_api \<Rightarrow> nat \<Rightarrow> nat option \<Rightarrow> int \<Rightarrow> at_error \<Rightarrow> 'm attachsql_drv dop" where
  "at_connect_loop fuel api c con aret e st =
     (if aret = ATTACHSQL_RETURN_IDLE api
      then rbind (upd_con c (\<lambda>sb_conn. sb_conn\<lparr>con_ptr := con\<rparr>) st) (\<lambda>st. Inr (0, st))
      else
        case fuel of
          0 \<Rightarrow> Inl Still_running
        | Suc fuel \<Rightarrow>
            (case at_call (at_connect_poll api con e) st of ((aret, e), st) \<Rightarrow>
               if e \<noteq> None then at_connect_failed api con e st else at_connect_loop fuel api c con aret e st))"

declare at_connect_loop.simps [simp del]

text \<open>The connection through the socket, or to the next host.\<close>

definition at_create :: "'m attachsql_api \<Rightarrow> 'm atst \<Rightarrow> ((nat option \<times> at_error) \<times> 'm atst) res" where
  "at_create api st =
     (let args = at_args (ds_drv st); q = (\<lambda>s. in_quotes (print_s s));
          create = (\<lambda>host port. at_connect_create api host port (at_user args) (at_password args) (at_db args) None)
      in
      if at_socket args \<noteq> None
      then
        rbind (DEBUG_db (''attachsql_connect_create('' @ q (at_socket args) @ '', '' @ q (at_user args) @ '', '' @ q (at_password args) @ '', ''
                 @ q (at_db args) @ '')'') st) (\<lambda>st. Inr (at_call (create (at_socket args) 0) st))
      else
        (let pos = advance_pos (length (at_hosts args)) (at_hosts_pos (ds_drv st)) in
         rbind (element_at (at_hosts args) pos) (\<lambda>host.
         rbind (DEBUG_db (''attachsql_connect_create('' @ in_quotes host @ '', '' @ print_nat (unat (at_port args)) @ '', '' @ q (at_user args) @ '', ''
                  @ q (at_password args) @ '', '' @ q (at_db args) @ '')'') (st\<lparr>ds_drv := (ds_drv st)\<lparr>at_hosts_pos := pos\<rparr>\<rparr>))
           (\<lambda>st. Inr (at_call (create (Some host) (at_port args)) st)))))"

definition attachsql_drv_connect :: "nat \<Rightarrow> 'm attachsql_api \<Rightarrow> nat \<Rightarrow> 'm attachsql_drv dop" where
  "attachsql_drv_connect fuel api c st =
     rbind (at_create api st) (\<lambda>((con, e), st).
       if con = None
       then
         rbind (d_log LOG_FATAL ''unable to Add libAttachSQL Connection, aborting...'' st) (\<lambda>st.
         rbind (d_log LOG_FATAL (at_error_text api e st) st) (\<lambda>st. Inr (1, at_do (at_error_free api e) st)))
       else
         (case at_call (at_connect api con e) (at_do (at_set_semi_blocking api con) st) of ((ok, e), st) \<Rightarrow>
            if \<not> ok then at_connect_failed api con e st
            else at_connect_loop fuel api c con (ATTACHSQL_RETURN_NONE api) e st))"

definition attachsql_drv_disconnect :: "'m attachsql_api \<Rightarrow> nat \<Rightarrow> 'm attachsql_drv dop" where
  "attachsql_drv_disconnect api c st =
     rbind (con_at c st) (\<lambda>sb_conn.
       if con_ptr sb_conn = None then Inr (0, st)
       else
         rbind (DEBUG_db (''attachsql_connect_destroy('' @ at_ptr api (con_ptr sb_conn) @ '')'') st)
           (\<lambda>st. Inr (0, at_do (at_connect_destroy api (con_ptr sb_conn)) st)))"

section \<open>Waiting for the library\<close>

text \<open>
  The loops that poll until one of the given results, or until an error: the last result, the error, and whether the loop ended by an error.
\<close>

fun at_poll_loop :: "nat \<Rightarrow> 'm attachsql_api \<Rightarrow> nat option \<Rightarrow> int set \<Rightarrow> int \<Rightarrow> at_error \<Rightarrow> 'm atst \<Rightarrow> ((int \<times> at_error) \<times> 'm atst) res" where
  "at_poll_loop fuel api con ends aret e st =
     (if aret \<in> ends then Inr ((aret, None), st)
      else
        case fuel of
          0 \<Rightarrow> Inl Still_running
        | Suc fuel \<Rightarrow>
            (case at_call (at_connect_poll api con e) st of ((aret, e), st) \<Rightarrow>
               if e \<noteq> None then Inr ((aret, e), st) else at_poll_loop fuel api con ends aret e st))"

declare at_poll_loop.simps [simp del]

definition query_ends :: "'m attachsql_api \<Rightarrow> int set" where
  "query_ends api = {ATTACHSQL_RETURN_EOF api, ATTACHSQL_RETURN_ROW_READY api}"

text \<open>The message \<^verbatim>\<open>"libAttachSQL ... Failed: %u:%s"\<close> and the release of the error.\<close>

definition at_report :: "'m attachsql_api \<Rightarrow> string \<Rightarrow> at_error \<Rightarrow> 'm atst \<Rightarrow> 'm atst res" where
  "at_report api what e st =
     rbind (d_log LOG_ALERT (''libAttachSQL '' @ what @ '' Failed: '' @ print_nat (unat (at_error_code api e (atlib st))) @ '':''
              @ at_error_message api e (atlib st)) st) (\<lambda>st. Inr (at_do (at_error_free api e) st))"

definition stmt_atcon :: "nat \<Rightarrow> 'm atst \<Rightarrow> nat option res" where
  "stmt_atcon s st = rbind (stmt_con s st) (\<lambda>c. rbind (con_at c st) (\<lambda>con. Inr (con_ptr con)))"

section \<open>Prepared statements\<close>

text \<open>An error is returned as the number of \<open>SB_DB_ERROR_FAILED\<close>, which is 3.\<close>

definition attachsql_drv_prepare :: "nat \<Rightarrow> 'm attachsql_api \<Rightarrow> nat \<Rightarrow> string \<Rightarrow> 'm attachsql_drv dop" where
  "attachsql_drv_prepare fuel api s query st =
     rbind (stmt_atcon s st) (\<lambda>con.
       case at_call (at_statement_prepare api con query None) st of (e, st) \<Rightarrow>
         rbind (at_poll_loop fuel api con {ATTACHSQL_RETURN_EOF api} (ATTACHSQL_RETURN_NONE api) e st) (\<lambda>((aret, e), st).
           if e \<noteq> None then rbind (at_report api ''Prepare'' e st) (\<lambda>st. Inr (3, st)) else Inr (0, st)))"

definition attachsql_drv_bind_param :: "nat \<Rightarrow> db_bind_t list \<Rightarrow> u32 \<Rightarrow> 'm attachsql_drv dop" where
  "attachsql_drv_bind_param = keep_params"

definition attachsql_drv_bind_result :: "nat \<Rightarrow> db_bind_t list \<Rightarrow> u32 \<Rightarrow> 'm attachsql_drv dop" where
  "attachsql_drv_bind_result s params len st = Inr (0, st)"

text \<open>
  The calls with which a parameter is set, from the variables the bindings point to. The case of the strings has no \<^verbatim>\<open>break\<close>: a string is set, and then NULL.
\<close>

definition at_values :: "vars \<Rightarrow> db_bind_t \<Rightarrow> at_value list res" where
  "at_values vars param =
     (let buffer = var_at vars (b_buffer param);
          num = (\<lambda>f. rbind buffer (\<lambda>d. case d of Int_data i \<Rightarrow> Inr [f i] | Undef_data \<Rightarrow> Inl Uninit_read | _ \<Rightarrow> Inl Bad_access));
          flt = (\<lambda>f. rbind buffer (\<lambda>d. case d of Real_data x \<Rightarrow> Inr [f x] | Undef_data \<Rightarrow> Inl Uninit_read | _ \<Rightarrow> Inl Bad_access));
          time = (\<lambda>f. rbind buffer (\<lambda>d. case d of Time_data t \<Rightarrow> Inr [f t] | Undef_data \<Rightarrow> Inl Uninit_read | _ \<Rightarrow> Inl Bad_access));
          datetime = time (\<lambda>t. Set_datetime (tm_year t) (tm_month t) (tm_day t) (tm_hour t) (tm_minute t) (tm_second t));
          text = Inr [Set_string (b_max_len param) (b_buffer param), Set_null]
      in case b_type param of
           DB_TYPE_TINYINT \<Rightarrow> num (\<lambda>i. Set_int (sint (word_of_int i :: 8 word)))
         | DB_TYPE_SMALLINT \<Rightarrow> num (\<lambda>i. Set_int (sint (word_of_int i :: 16 word)))
         | DB_TYPE_INT \<Rightarrow> num (\<lambda>i. Set_int (sint (word_of_int i :: 32 word)))
         | DB_TYPE_BIGINT \<Rightarrow> num (\<lambda>i. Set_bigint (sint (word_of_int i :: 64 word)))
         | DB_TYPE_FLOAT \<Rightarrow> flt Set_float
         | DB_TYPE_DOUBLE \<Rightarrow> flt Set_double
         | DB_TYPE_TIME \<Rightarrow> time (\<lambda>t. Set_time (tm_hour t) (tm_minute t) (tm_second t))
         | DB_TYPE_DATE \<Rightarrow> datetime
         | DB_TYPE_DATETIME \<Rightarrow> datetime
         | DB_TYPE_TIMESTAMP \<Rightarrow> datetime
         | DB_TYPE_CHAR \<Rightarrow> text
         | DB_TYPE_VARCHAR \<Rightarrow> text
         | DB_TYPE_NONE \<Rightarrow> Inr [Set_null])"

definition at_set_param :: "'m attachsql_api \<Rightarrow> nat option \<Rightarrow> db_bind_t list option \<Rightarrow> nat \<Rightarrow> 'm atst \<Rightarrow> 'm atst res" where
  "at_set_param api con params i st =
     rbind (case params of None \<Rightarrow> Inl Null_deref | Some ps \<Rightarrow> aread ps i) (\<lambda>param.
     rbind (at_values (ds_vars st) param) (\<lambda>vs. Inr (fold (\<lambda>v. at_do (at_statement_set api con i v)) vs st)))"

text \<open>
  The counter of the loop over the parameters has 16 bits: with more than 65535 parameters it begins anew and the loop does not end.
\<close>

definition at_set_params :: "'m attachsql_api \<Rightarrow> nat option \<Rightarrow> db_stmt_t \<Rightarrow> 'm atst \<Rightarrow> 'm atst res" where
  "at_set_params api con stmt st =
     (let n = unat (st_bound_param_len stmt) in
      rbind (rfold (at_set_param api con (st_bound_param stmt)) [0..<min n (2 ^ 16)] st)
        (\<lambda>st. if n \<ge> 2 ^ 16 then Inl Still_running else Inr st))"

text \<open>The loop after the execution returns 0 as soon as a row is ready, before the error is looked at.\<close>

fun at_execute_loop :: "nat \<Rightarrow> 'm attachsql_api \<Rightarrow> nat option \<Rightarrow> int \<Rightarrow> at_error \<Rightarrow> 'm attachsql_drv eop" where
  "at_execute_loop fuel api con aret e st =
     (if aret = ATTACHSQL_RETURN_EOF api then Inr (SB_DB_ERROR_NONE, st)
      else
        case fuel of
          0 \<Rightarrow> Inl Still_running
        | Suc fuel \<Rightarrow>
            (case at_call (at_connect_poll api con e) st of ((aret, e), st) \<Rightarrow>
               if aret = ATTACHSQL_RETURN_ROW_READY api then Inr (SB_DB_ERROR_NONE, st)
               else if e \<noteq> None then rbind (at_report api ''Execute'' e st) (\<lambda>st. Inr (SB_DB_ERROR_FAILED, st))
               else at_execute_loop fuel api con aret e st))"

declare at_execute_loop.simps [simp del]

text \<open>Without a connection the result is 1, the number of \<open>SB_DB_ERROR_RESTART_TRANSACTION\<close>.\<close>

definition attachsql_drv_execute :: "nat \<Rightarrow> 'm attachsql_api \<Rightarrow> nat \<Rightarrow> nat \<Rightarrow> 'm attachsql_drv eop" where
  "attachsql_drv_execute fuel api s rs st =
     rbind (stmt_atcon s st) (\<lambda>con.
       if con = None then Inr (SB_DB_ERROR_RESTART_TRANSACTION, st)
       else
         rbind (stmt_at s st) (\<lambda>stmt.
         rbind (at_set_params api con stmt st) (\<lambda>st.
           case at_call (at_statement_execute api con None) st of (e, st) \<Rightarrow>
             at_execute_loop fuel api con (ATTACHSQL_RETURN_NONE api) e st)))"

section \<open>Queries\<close>

definition attachsql_drv_query :: "nat \<Rightarrow> 'm attachsql_api \<Rightarrow> nat \<Rightarrow> string \<Rightarrow> nat \<Rightarrow> 'm attachsql_drv eop" where
  "attachsql_drv_query fuel api c query rs st =
     rbind (con_at c st) (\<lambda>sb_conn.
       let con = con_ptr sb_conn in
       rbind (DEBUG_db (''attachsql_query('' @ at_ptr api con @ '', '' @ in_quotes query @ '', '' @ print_u (length query) @ '')'')
                (at_do (at_query_close api con) st)) (\<lambda>st.
         case at_call (at_query api con query None) st of (e, st) \<Rightarrow>
           rbind (at_poll_loop fuel api con (query_ends api) (ATTACHSQL_RETURN_NONE api) e st) (\<lambda>((aret, e), st).
             if e \<noteq> None
             then
               (if at_error_code api e (atlib st) \<in> {1213, 1205, 1020}
                then Inr (SB_DB_ERROR_RESTART_TRANSACTION, at_do (at_error_free api e) st)
                else rbind (at_report api ''Query'' e st) (\<lambda>st. Inr (SB_DB_ERROR_FAILED, st)))
             else
               rbind (DEBUG_db (''attachsql_query '' @ in_quotes query @ '' returned '' @ print_int aret) st) (\<lambda>st. Inr (SB_DB_ERROR_NONE, st)))))"

section \<open>Results\<close>

definition rs_atcon :: "nat \<Rightarrow> 'm atst \<Rightarrow> nat option res" where
  "rs_atcon rs st =
     rbind (con_at rs st) (\<lambda>con. case rs_connection (con_rs con) of None \<Rightarrow> Inl Null_deref | Some c \<Rightarrow> rbind (con_at c st) (\<lambda>con. Inr (con_ptr con)))"

text \<open>Waiting for a row: True when there is one.\<close>

definition at_next_row :: "nat \<Rightarrow> 'm attachsql_api \<Rightarrow> nat option \<Rightarrow> 'm atst \<Rightarrow> (bool \<times> 'm atst) res" where
  "at_next_row fuel api con st =
     rbind (at_poll_loop fuel api con (query_ends api) (ATTACHSQL_RETURN_NONE api) None st) (\<lambda>((aret, e), st).
       if e \<noteq> None then rbind (at_report api ''Query'' e st) (\<lambda>st. Inr (False, st))
       else Inr (aret \<noteq> ATTACHSQL_RETURN_EOF api, st))"

definition at_getter_of :: "'m attachsql_api \<Rightarrow> int \<Rightarrow> at_getter" where
  "at_getter_of api ty =
     (if ty \<in> {ATTACHSQL_COLUMN_TYPE_TINY api, ATTACHSQL_COLUMN_TYPE_SHORT api, ATTACHSQL_COLUMN_TYPE_LONG api, ATTACHSQL_COLUMN_TYPE_YEAR api,
               ATTACHSQL_COLUMN_TYPE_INT24 api} then Get_int
      else if ty = ATTACHSQL_COLUMN_TYPE_LONGLONG api then Get_bigint
      else if ty = ATTACHSQL_COLUMN_TYPE_FLOAT api then Get_float
      else if ty = ATTACHSQL_COLUMN_TYPE_DOUBLE api then Get_double
      else Get_char)"

text \<open>The columns are read one by one; the values and the errors are not looked at.\<close>

definition at_get_columns :: "'m attachsql_api \<Rightarrow> nat option \<Rightarrow> nat \<Rightarrow> 'm atst \<Rightarrow> 'm atst" where
  "at_get_columns api con columns st =
     snd (fold (\<lambda>col (e, st). at_call (at_statement_get api (at_getter_of api (at_statement_get_column_type api con col (atlib st))) con col e) st)
            [0..<columns] (None, st))"

definition attachsql_drv_fetch :: "nat \<Rightarrow> 'm attachsql_api \<Rightarrow> nat \<Rightarrow> 'm attachsql_drv dop" where
  "attachsql_drv_fetch fuel api rs st =
     rbind (rs_atcon rs st) (\<lambda>con.
     rbind (at_next_row fuel api con st) (\<lambda>(row, st).
       if \<not> row then Inr (1, st)
       else
         (let st = at_do (at_statement_row_get api con) st;
              columns = unat (of_nat (at_query_column_count api con (atlib st)) :: 16 word)
          in Inr (0, at_do (at_query_row_next api con) (at_get_columns api con columns st)))))"

text \<open>The row is stored through the pointer \<open>row\<close>; \<open>None\<close> is the local variable of \<^verbatim>\<open>attachsql_drv_store_results\<close>.\<close>

definition at_fetch_row :: "nat \<Rightarrow> 'm attachsql_api \<Rightarrow> nat \<Rightarrow> nat option \<Rightarrow> 'm attachsql_drv dop" where
  "at_fetch_row fuel api rs row st =
     rbind (rs_atcon rs st) (\<lambda>con.
     rbind (at_next_row fuel api con st) (\<lambda>(ready, st).
       if \<not> ready then Inr (1, st)
       else
         (case at_call (at_query_row_get api con) st of (r, st) \<Rightarrow>
            rbind (case row of
                     None \<Rightarrow> Inr st
                   | Some a \<Rightarrow> if ds_rows st a = None then Inl Bad_access else Inr (st\<lparr>ds_rows := (ds_rows st)(a := Some r)\<rparr>))
              (\<lambda>st. Inr (0, at_do (at_query_row_next api con) st)))))"

definition attachsql_drv_fetch_row :: "nat \<Rightarrow> 'm attachsql_api \<Rightarrow> nat \<Rightarrow> nat \<Rightarrow> 'm attachsql_drv dop" where
  "attachsql_drv_fetch_row fuel api rs row = at_fetch_row fuel api rs (Some row)"

definition attachsql_drv_num_rows :: "nat \<Rightarrow> 'm atst \<Rightarrow> (u64 \<times> 'm atst) res" where
  "attachsql_drv_num_rows rs st = rbind (con_at rs st) (\<lambda>con. Inr (rs_nrows (con_rs con), st))"

text \<open>All rows are fetched until there is none left or an error; both end in success.\<close>

fun at_store_loop :: "nat \<Rightarrow> nat \<Rightarrow> 'm attachsql_api \<Rightarrow> nat \<Rightarrow> 'm attachsql_drv eop" where
  "at_store_loop 0 fuel api rs st = Inl Still_running"
| "at_store_loop (Suc n) fuel api rs st =
     rbind (con_at rs st) (\<lambda>con.
     rbind (if rs_statement (con_rs con) \<noteq> None then attachsql_drv_fetch fuel api rs st else at_fetch_row fuel api rs None st) (\<lambda>(ret, st).
       if ret = 0 then at_store_loop n fuel api rs st else Inr (SB_DB_ERROR_NONE, st)))"

definition attachsql_drv_store_results :: "nat \<Rightarrow> 'm attachsql_api \<Rightarrow> nat \<Rightarrow> 'm attachsql_drv eop" where
  "attachsql_drv_store_results fuel api = at_store_loop fuel fuel api"

definition attachsql_drv_free_results :: "'m attachsql_api \<Rightarrow> nat \<Rightarrow> 'm attachsql_drv dop" where
  "attachsql_drv_free_results api rs st =
     rbind (rs_atcon rs st) (\<lambda>con.
       if con = None then Inr (1, st)
       else rbind (DEBUG_db (''attachsql_query_close('' @ at_ptr api con @ '')'') st) (\<lambda>st. Inr (0, at_do (at_query_close api con) st)))"

definition attachsql_drv_close :: "'m attachsql_api \<Rightarrow> nat \<Rightarrow> 'm attachsql_drv dop" where
  "attachsql_drv_close api s st = rbind (stmt_atcon s st) (\<lambda>con. Inr (0, at_do (at_statement_close api con) st))"

definition attachsql_drv_done :: "'m attachsql_drv dop" where
  "attachsql_drv_done st = Inr (0, st)"

section \<open>The driver\<close>

definition attachsql_ops :: "nat \<Rightarrow> 'm attachsql_api \<Rightarrow> 'm attachsql_drv drv_ops_t" where
  "attachsql_ops fuel api =
     \<lparr>drv_init = attachsql_drv_init api, drv_describe = Some attachsql_drv_describe, drv_connect = attachsql_drv_connect fuel api,
      drv_disconnect = attachsql_drv_disconnect api, drv_prepare = attachsql_drv_prepare fuel api, drv_bind_param = attachsql_drv_bind_param,
      drv_bind_result = attachsql_drv_bind_result, drv_execute = attachsql_drv_execute fuel api, drv_fetch = attachsql_drv_fetch fuel api,
      drv_fetch_row = attachsql_drv_fetch_row fuel api, drv_num_rows = attachsql_drv_num_rows, drv_free_results = attachsql_drv_free_results api,
      drv_close = attachsql_drv_close api, drv_query = attachsql_drv_query fuel api, drv_store_results = attachsql_drv_store_results fuel api,
      drv_done = attachsql_drv_done\<rparr>"

definition attachsql_driver :: "nat \<Rightarrow> 'm attachsql_api \<Rightarrow> 'm attachsql_drv db_driver_t" where
  "attachsql_driver fuel api =
     \<lparr>d_sname = ''attachsql'', d_lname = ''libAttachSQL driver'', d_args = Some attachsql_drv_args, d_ops = attachsql_ops fuel api\<rparr>"

definition register_driver_attachsql ::
  "nat \<Rightarrow> 'm attachsql_api \<Rightarrow> 'm attachsql_drv db_driver_t list \<Rightarrow> 'm attachsql_drv db_driver_t list" where
  "register_driver_attachsql fuel api drivers = drivers @ [attachsql_driver fuel api]"

section \<open>What the driver leaves alone\<close>

lemma layer_same_at [simp]:
  "layer_same (at_do f st) st' = layer_same st st'" "layer_same st (at_do f st') = layer_same st st'"
  "layer_same (snd (at_call g st)) st' = layer_same st st'" "layer_same st (snd (at_call g st')) = layer_same st st'"
  by (simp_all add: layer_same_def at_do_def at_call_def case_prod_unfold)

lemma at_poll_same: "at_poll_loop fuel api con ends aret e st = Inr (r, st') \<Longrightarrow> layer_same st st'"
proof (induction fuel arbitrary: aret e st)
  case 0
  then show ?case by (subst (asm) at_poll_loop.simps) (simp split: if_splits)
next
  case (Suc fuel)
  obtain aret1 e1 st1 where c: "at_call (at_connect_poll api con e) st = ((aret1, e1), st1)"
    by (metis surj_pair)
  then have "layer_same st st1"
    using layer_same_at(4) [of st "at_connect_poll api con e" st] by simp
  moreover have "layer_same st1 st'" if "aret \<notin> ends"
    using Suc.prems that c Suc.IH [of aret1 e1 st1] by (subst (asm) at_poll_loop.simps) (simp split: if_splits)
  ultimately show ?case
    using Suc.prems layer_same_trans by (cases "aret \<in> ends") (auto simp: at_poll_loop.simps)
qed

lemma at_report_same: "at_report api what e st = Inr st' \<Longrightarrow> layer_same st st'"
  by (auto simp: at_report_def rbind_eq_Inr dest!: d_log_same)

lemma attachsql_query_same:
  assumes "attachsql_drv_query fuel api c q rs st = Inr (r, st')"
  shows "layer_same st st'"
proof -
  obtain con where con: "con_at c st = Inr con"
    using assms by (auto simp: attachsql_drv_query_def rbind_eq_Inr)
  let ?con = "con_ptr con"
  obtain st1 where st1: "DEBUG_db (''attachsql_query('' @ at_ptr api ?con @ '', '' @ in_quotes q @ '', '' @ print_u (length q) @ '')'')
      (at_do (at_query_close api ?con) st) = Inr st1"
    using assms con by (auto simp: attachsql_drv_query_def rbind_eq_Inr Let_def)
  let ?e2 = "fst (at_call (at_query api ?con q None) st1)" and ?st2 = "snd (at_call (at_query api ?con q None) st1)"
  obtain aret e st3 where st3: "at_poll_loop fuel api ?con (query_ends api) (ATTACHSQL_RETURN_NONE api) ?e2 ?st2 = Inr ((aret, e), st3)"
    using assms con st1 by (auto simp: attachsql_drv_query_def rbind_eq_Inr case_prod_unfold Let_def)
  have "layer_same st st1"
    using DEBUG_db_same [OF st1] by simp
  moreover have "layer_same st1 st3"
    using at_poll_same [OF st3] by simp
  moreover have "layer_same st3 st'"
    using assms con st1 st3
    by (auto simp: attachsql_drv_query_def rbind_eq_Inr case_prod_unfold Let_def split: if_splits dest!: at_report_same DEBUG_db_same)
  ultimately show ?thesis
    using layer_same_trans by blast
qed

interpretation attachsql_quiet: quiet_driver "attachsql_ops fuel api" for fuel api
  by unfold_locales (auto simp: attachsql_ops_def layer_same_def intro: con_keptI dest!: attachsql_query_same)

section \<open>A server that answers\<close>

text \<open>
  What the library promises while the server answers: \<open>waits m\<close> is a bound for the number of polls until the answer is there, \<open>sent m\<close> are the statements
  the server has received; a poll sends nothing, meets no error and either ends the waiting or brings its end nearer.
\<close>

definition at_answers :: "'m attachsql_api \<Rightarrow> ('m \<Rightarrow> 's) \<Rightarrow> ('m \<Rightarrow> nat) \<Rightarrow> int set \<Rightarrow> bool" where
  "at_answers api sent waits ends \<longleftrightarrow>
     (\<forall>con m aret e m'. at_connect_poll api con None m = ((aret, e), m') \<longrightarrow>
        e = None \<and> sent m' = sent m \<and> (aret \<in> ends \<or> waits m' < waits m))"

definition at_accepts :: "'m attachsql_api \<Rightarrow> ('m \<Rightarrow> string list) \<Rightarrow> ('m \<Rightarrow> nat) \<Rightarrow> nat \<Rightarrow> bool" where
  "at_accepts api sent waits n \<longleftrightarrow>
     at_answers api sent waits (query_ends api) \<and>
     (\<forall>con q m e m'. at_query api con q None m = (e, m') \<longrightarrow> e = None \<and> sent m' = sent m @ [q] \<and> waits m' < n) \<and>
     (\<forall>con m. sent (at_query_close api con m) = sent m)"

definition attachsql_ready :: "'m attachsql_api \<Rightarrow> ('m \<Rightarrow> string list) \<Rightarrow> ('m \<Rightarrow> nat) \<Rightarrow> nat \<Rightarrow> nat \<Rightarrow> 'm atst \<Rightarrow> bool" where
  "attachsql_ready api sent waits fuel c st \<longleftrightarrow> at_accepts api sent waits fuel \<and> logger_ready (pg_w (ds_pg st)) \<and> ds_conns st c \<noteq> None"

lemma at_poll_answers:
  assumes "at_answers api sent waits ends"
  shows "waits (atlib st) < fuel \<Longrightarrow>
     \<exists>aret' st'. at_poll_loop fuel api con ends aret None st = Inr ((aret', None), st') \<and> sent (atlib st') = sent (atlib st) \<and> ds_pg st' = ds_pg st"
proof (induction fuel arbitrary: aret st)
  case (Suc fuel)
  show ?case
  proof (cases "aret \<in> ends")
    case True
    then show ?thesis by (simp add: at_poll_loop.simps)
  next
    case False
    obtain aret1 e1 m1 where c: "at_connect_poll api con None (atlib st) = ((aret1, e1), m1)"
      by (metis surj_pair)
    have ans: "e1 = None" "sent m1 = sent (atlib st)" "aret1 \<in> ends \<or> waits m1 < waits (atlib st)"
      using assms c unfolding at_answers_def by blast+
    let ?st1 = "st\<lparr>ds_drv := (ds_drv st)\<lparr>at_lib := m1\<rparr>\<rparr>"
    have step: "at_poll_loop (Suc fuel) api con ends aret None st = at_poll_loop fuel api con ends aret1 None ?st1"
      using False c ans(1) by (subst at_poll_loop.simps) (simp add: at_call_def)
    show ?thesis
    proof (cases "aret1 \<in> ends")
      case True
      then show ?thesis
        unfolding step using ans(2) by (simp add: at_poll_loop.simps)
    next
      case False
      then show ?thesis
        unfolding step using Suc.IH [of ?st1 aret1] Suc.prems ans(2,3) by auto
    qed
  qed
qed simp

lemma attachsql_query_accepted:
  assumes "attachsql_ready api sent waits fuel c st"
  shows "\<exists>st'. attachsql_drv_query fuel api c q rs st = Inr (SB_DB_ERROR_NONE, st') \<and> sent (atlib st') = sent (atlib st) @ [q] \<and>
           attachsql_ready api sent waits fuel c st' \<and> layer_same st st'"
proof -
  obtain con where con: "ds_conns st c = Some con"
    using assms by (auto simp: attachsql_ready_def)
  have acc: "at_accepts api sent waits fuel"
    using assms by (simp add: attachsql_ready_def)
  let ?con = "con_ptr con"
  let ?st0 = "at_do (at_query_close api ?con) st"
  let ?m1 = "''attachsql_query('' @ at_ptr api ?con @ '', '' @ in_quotes q @ '', '' @ print_u (length q) @ '')''"
  obtain w1 where w1: "DEBUG_db ?m1 ?st0 = Inr (?st0\<lparr>ds_pg := (ds_pg ?st0)\<lparr>pg_w := w1\<rparr>\<rparr>)" "logger_ready w1"
    using DEBUG_db_ready [of ?st0] assms by (auto simp: attachsql_ready_def at_do_def)
  let ?st1 = "?st0\<lparr>ds_pg := (ds_pg ?st0)\<lparr>pg_w := w1\<rparr>\<rparr>"
  obtain e m where q: "at_query api ?con q None (atlib ?st1) = (e, m)"
    by fastforce
  have ok: "e = None" "sent m = sent (atlib st) @ [q]" "waits m < fuel"
    using acc q unfolding at_accepts_def by (auto simp: at_do_def)
  let ?st2 = "?st1\<lparr>ds_drv := (ds_drv ?st1)\<lparr>at_lib := m\<rparr>\<rparr>"
  obtain aret st3 where st3: "at_poll_loop fuel api ?con (query_ends api) (ATTACHSQL_RETURN_NONE api) None ?st2 = Inr ((aret, None), st3)"
      "sent (atlib st3) = sent m" "ds_pg st3 = ds_pg ?st2"
    using at_poll_answers [of api sent waits "query_ends api" ?st2 fuel ?con "ATTACHSQL_RETURN_NONE api"] acc ok(3) by (auto simp: at_accepts_def)
  let ?m2 = "''attachsql_query '' @ in_quotes q @ '' returned '' @ print_int aret"
  obtain w3 where w3: "DEBUG_db ?m2 st3 = Inr (st3\<lparr>ds_pg := (ds_pg st3)\<lparr>pg_w := w3\<rparr>\<rparr>)" "logger_ready w3"
    using DEBUG_db_ready [of st3] st3(3) w1(2) by auto
  let ?st4 = "st3\<lparr>ds_pg := (ds_pg st3)\<lparr>pg_w := w3\<rparr>\<rparr>"
  have r: "attachsql_drv_query fuel api c q rs st = Inr (SB_DB_ERROR_NONE, ?st4)"
    using con w1(1) q ok(1) st3(1) w3(1) by (simp add: attachsql_drv_query_def con_at_def at_call_def)
  then have "layer_same st ?st4"
    by (rule attachsql_query_same)
  then show ?thesis
    using r st3(2) ok(2) acc w3(2) con by (intro exI [of _ ?st4]) (simp add: attachsql_ready_def layer_same_def)
qed

interpretation attachsql_accepting:
  accepting_driver "attachsql_ops fuel api" "attachsql_ready api sent waits fuel" "\<lambda>d. sent (at_lib d)" "\<lambda>_ :: 'm attachsql_drv. attachsql_drv_caps"
  for fuel and api :: "'m attachsql_api" and sent waits
proof (unfold_locales, goal_cases)
  case (1 c st con q)
  then show ?case
    using attachsql_query_accepted [of api sent waits fuel c st q c] by (auto simp: attachsql_ops_def layer_same_def intro: con_keptI)
next
  case (2 c st)
  then show ?case by (simp add: attachsql_ops_def attachsql_drv_describe_def)
next
  case (3 c st st')
  then show ?case by (auto simp: attachsql_ready_def)
qed

section \<open>Executing a prepared statement\<close>

text \<open>
  A library that records: \<open>bound m i\<close> is the value to which parameter \<open>i\<close> was set last, \<open>executed m\<close> are the values with which statements have been executed.
\<close>

type_synonym at_row = "nat \<Rightarrow> at_value option"

definition at_records :: "'m attachsql_api \<Rightarrow> ('m \<Rightarrow> at_row) \<Rightarrow> ('m \<Rightarrow> at_row list) \<Rightarrow> ('m \<Rightarrow> nat) \<Rightarrow> nat \<Rightarrow> bool" where
  "at_records api bound executed waits n \<longleftrightarrow>
     at_answers api executed waits (query_ends api) \<and>
     (\<forall>con i v m. bound (at_statement_set api con i v m) = (bound m)(i \<mapsto> v) \<and> executed (at_statement_set api con i v m) = executed m) \<and>
     (\<forall>con m e m'. at_statement_execute api con None m = (e, m') \<longrightarrow> e = None \<and> executed m' = executed m @ [bound m] \<and> waits m' < n)"

lemma at_do_frame [simp]: "ds_vars (at_do f st) = ds_vars st" "atlib (at_do f st) = f (atlib st)"
  by (simp_all add: at_do_def)

lemma at_set_last:
  assumes "at_records api bound executed waits n"
  shows "bound (atlib (fold (\<lambda>v. at_do (at_statement_set api con i v)) vs st)) = (if vs = [] then bound (atlib st) else (bound (atlib st))(i \<mapsto> last vs))"
    and "executed (atlib (fold (\<lambda>v. at_do (at_statement_set api con i v)) vs st)) = executed (atlib st)"
    and "ds_vars (fold (\<lambda>v. at_do (at_statement_set api con i v)) vs st) = ds_vars st"
  using assms by (induction vs arbitrary: st) (simp_all add: at_records_def)

lemma at_set_params_records:
  assumes "at_records api bound executed waits n" and "length vss = length ps"
    and "\<forall>i<length ps. at_values (ds_vars st) (ps ! i) = Inr (vss ! i) \<and> vss ! i \<noteq> []"
  shows "k \<le> length ps \<Longrightarrow>
     \<exists>st'. rfold (at_set_param api con (Some ps)) [0..<k] st = Inr st' \<and> ds_vars st' = ds_vars st \<and>
       executed (atlib st') = executed (atlib st) \<and> (\<forall>i<k. bound (atlib st') i = Some (last (vss ! i)))"
proof (induction k)
  case (Suc k)
  then obtain st1 where st1: "rfold (at_set_param api con (Some ps)) [0..<k] st = Inr st1" "ds_vars st1 = ds_vars st"
      "executed (atlib st1) = executed (atlib st)" "\<forall>i<k. bound (atlib st1) i = Some (last (vss ! i))"
    by auto
  let ?st2 = "fold (\<lambda>v. at_do (at_statement_set api con k v)) (vss ! k) st1"
  have "at_set_param api con (Some ps) k st1 = Inr ?st2"
    using Suc.prems assms(3) st1(2) by (simp add: at_set_param_def)
  then have "rfold (at_set_param api con (Some ps)) [0..<Suc k] st = Inr ?st2"
    using st1(1) by (simp add: rfold_append)
  moreover have "vss ! k \<noteq> []"
    using Suc.prems assms(3) by simp
  ultimately show ?case
    using at_set_last [OF assms(1), of con k "vss ! k" st1] st1(2-4)
    by (intro exI [of _ ?st2]) (simp add: less_Suc_eq)
qed simp

lemma at_execute_answers:
  assumes "at_answers api sent waits (query_ends api)"
  shows "waits (atlib st) < fuel \<Longrightarrow>
     \<exists>st'. at_execute_loop fuel api con aret None st = Inr (SB_DB_ERROR_NONE, st') \<and> sent (atlib st') = sent (atlib st)"
proof (induction fuel arbitrary: aret st)
  case (Suc fuel)
  obtain aret1 e1 m1 where c: "at_connect_poll api con None (atlib st) = ((aret1, e1), m1)"
    by (metis surj_pair)
  have ans: "e1 = None" "sent m1 = sent (atlib st)" "aret1 \<in> query_ends api \<or> waits m1 < waits (atlib st)"
    using assms c unfolding at_answers_def by blast+
  let ?st1 = "st\<lparr>ds_drv := (ds_drv st)\<lparr>at_lib := m1\<rparr>\<rparr>"
  have step: "at_execute_loop (Suc fuel) api con aret None st =
      (if aret = ATTACHSQL_RETURN_EOF api then Inr (SB_DB_ERROR_NONE, st)
       else if aret1 = ATTACHSQL_RETURN_ROW_READY api then Inr (SB_DB_ERROR_NONE, ?st1)
       else at_execute_loop fuel api con aret1 None ?st1)"
    using c ans(1) by (subst at_execute_loop.simps) (simp add: at_call_def)
  have eof: "at_execute_loop fuel api con aret1 None ?st1 = Inr (SB_DB_ERROR_NONE, ?st1)" if "aret1 = ATTACHSQL_RETURN_EOF api"
    using that by (subst at_execute_loop.simps) simp
  show ?case
  proof (cases "aret1 \<in> query_ends api")
    case True
    then show ?thesis
      unfolding step using ans(2) eof by (auto simp: query_ends_def)
  next
    case False
    then show ?thesis
      unfolding step using Suc.IH [of ?st1 aret1] Suc.prems ans(2,3) by (auto simp: query_ends_def)
  qed
qed simp

text \<open>
  What a parameter is to send for the data its buffer holds, type by type: an integer that fits its type, a floating point number, a time or the
  fields of a date; NULL for strings, whatever the buffer holds, since their case runs on into the case that sets NULL.
\<close>

inductive value_sent :: "db_bind_type_t \<Rightarrow> bind_data option \<Rightarrow> at_value \<Rightarrow> bool" where
  sends_tinyint: "- 128 \<le> v \<Longrightarrow> v < 128 \<Longrightarrow> value_sent DB_TYPE_TINYINT (Some (Int_data v)) (Set_int v)"
| sends_smallint: "- 32768 \<le> v \<Longrightarrow> v < 32768 \<Longrightarrow> value_sent DB_TYPE_SMALLINT (Some (Int_data v)) (Set_int v)"
| sends_int: "INT_MIN \<le> v \<Longrightarrow> v \<le> INT_MAX \<Longrightarrow> value_sent DB_TYPE_INT (Some (Int_data v)) (Set_int v)"
| sends_bigint: "LONG_MIN \<le> v \<Longrightarrow> v \<le> LONG_MAX \<Longrightarrow> value_sent DB_TYPE_BIGINT (Some (Int_data v)) (Set_bigint v)"
| sends_float: "value_sent DB_TYPE_FLOAT (Some (Real_data x)) (Set_float x)"
| sends_double: "value_sent DB_TYPE_DOUBLE (Some (Real_data x)) (Set_double x)"
| sends_time: "value_sent DB_TYPE_TIME (Some (Time_data t)) (Set_time (tm_hour t) (tm_minute t) (tm_second t))"
| sends_datetime: "ty \<in> {DB_TYPE_DATE, DB_TYPE_DATETIME, DB_TYPE_TIMESTAMP} \<Longrightarrow>
     value_sent ty (Some (Time_data t)) (Set_datetime (tm_year t) (tm_month t) (tm_day t) (tm_hour t) (tm_minute t) (tm_second t))"
| sends_null: "ty \<in> {DB_TYPE_CHAR, DB_TYPE_VARCHAR, DB_TYPE_NONE} \<Longrightarrow> value_sent ty d Set_null"

definition buffer_data :: "vars \<Rightarrow> db_bind_t \<Rightarrow> bind_data option" where
  "buffer_data vars p = (case b_buffer p of None \<Rightarrow> None | Some a \<Rightarrow> vars a)"

lemma buffer_data_var: "buffer_data vars p = Some d \<Longrightarrow> var_at vars (b_buffer p) = Inr d"
  by (auto simp: buffer_data_def var_at_def split: option.splits)

lemma sint_fits:
  "- 128 \<le> v \<Longrightarrow> v < 128 \<Longrightarrow> sint (word_of_int v :: 8 word) = v"
  "- 32768 \<le> v \<Longrightarrow> v < 32768 \<Longrightarrow> sint (word_of_int v :: 16 word) = v"
  "INT_MIN \<le> v \<Longrightarrow> v \<le> INT_MAX \<Longrightarrow> sint (word_of_int v :: 32 word) = v"
  "LONG_MIN \<le> v \<Longrightarrow> v \<le> LONG_MAX \<Longrightarrow> sint (word_of_int v :: 64 word) = v"
  by (simp_all add: signed_take_bit_int_eq_self sint_sbintrunc')

lemma at_values_sent:
  assumes "value_sent ty d v" and "b_type p = ty" and "buffer_data vars p = d"
  shows "\<exists>vs. at_values vars p = Inr vs \<and> vs \<noteq> [] \<and> last vs = v"
  using assms(1)
proof cases
  case (sends_datetime t)
  then show ?thesis using assms(2,3) buffer_data_var [of vars p "Time_data t"] by (auto simp: at_values_def)
next
  case sends_null
  then show ?thesis using assms(2) by (auto simp: at_values_def)
qed (use assms(2,3) buffer_data_var [of vars p] in \<open>simp_all add: at_values_def sint_fits\<close>)

lemma at_values_all:
  assumes "list_all2 (\<lambda>p v. value_sent (b_type p) (buffer_data vars p) v) ps vs"
  obtains vss where "length vss = length ps" and "\<forall>i<length ps. at_values vars (ps ! i) = Inr (vss ! i) \<and> vss ! i \<noteq> [] \<and> last (vss ! i) = vs ! i"
proof -
  have "\<exists>us. at_values vars (ps ! i) = Inr us \<and> us \<noteq> [] \<and> last us = vs ! i" if "i < length ps" for i
    using assms that at_values_sent by (auto simp: list_all2_conv_all_nth)
  then obtain f where "\<forall>i<length ps. at_values vars (ps ! i) = Inr (f i) \<and> f i \<noteq> [] \<and> last (f i) = vs ! i"
    by metis
  then show ?thesis by (intro that [of "map f [0..<length ps]"]) auto
qed

text \<open>
  (C17) An execution of a prepared statement through the libAttachSQL driver returns as soon as the server has answered and has sent a row that holds, for each
  parameter, the current value of its buffer as a value of its type: the integer itself for the four integer types, the number, the time or the
  date, but NULL for every string. The NULL flags and the lengths of the parameters have no influence.
\<close>

theorem attachsql_execution_sends:
  assumes "at_records api bound executed waits fuel" and "ds_stmts st s = Some stmt" and "st_connection stmt = Some c"
    and "ds_conns st c = Some con" and "con_ptr con \<noteq> None" and "st_bound_param stmt = Some ps" and "st_bound_param_len stmt = of_nat (length ps)"
    and "length ps < 2 ^ 16" and "list_all2 (\<lambda>p v. value_sent (b_type p) (buffer_data (ds_vars st) p) v) ps vs"
  shows "\<exists>st' row. attachsql_drv_execute fuel api s rs st = Inr (SB_DB_ERROR_NONE, st') \<and> executed (atlib st') = executed (atlib st) @ [row] \<and>
           (\<forall>i<length ps. row i = Some (vs ! i))"
proof -
  obtain vss where vss: "length vss = length ps"
      "\<forall>i<length ps. at_values (ds_vars st) (ps ! i) = Inr (vss ! i) \<and> vss ! i \<noteq> [] \<and> last (vss ! i) = vs ! i"
    using at_values_all [OF assms(9)] by blast
  then have vals: "\<forall>i<length ps. at_values (ds_vars st) (ps ! i) = Inr (vss ! i) \<and> vss ! i \<noteq> []" by blast
  obtain st1 where st1: "rfold (at_set_param api (con_ptr con) (Some ps)) [0..<length ps] st = Inr st1"
      "executed (atlib st1) = executed (atlib st)" "\<forall>i<length ps. bound (atlib st1) i = Some (last (vss ! i))"
    using at_set_params_records [OF assms(1) vss(1) vals order_refl, of "con_ptr con"] by auto
  have n: "unat (of_nat (length ps) :: u32) = length ps"
    using assms(8) by (intro unat_of_nat_u32) simp
  have params: "at_set_params api (con_ptr con) stmt st = Inr st1"
    using assms(6-8) n st1(1) by (simp add: at_set_params_def)
  obtain e m where x: "at_statement_execute api (con_ptr con) None (atlib st1) = (e, m)"
    by fastforce
  have ok: "e = None" "executed m = executed (atlib st1) @ [bound (atlib st1)]" "waits m < fuel"
    using assms(1) x unfolding at_records_def by auto
  let ?st2 = "st1\<lparr>ds_drv := (ds_drv st1)\<lparr>at_lib := m\<rparr>\<rparr>"
  obtain st3 where st3: "at_execute_loop fuel api (con_ptr con) (ATTACHSQL_RETURN_NONE api) None ?st2 = Inr (SB_DB_ERROR_NONE, st3)"
      "executed (atlib st3) = executed m"
    using at_execute_answers [of api executed waits ?st2 fuel "con_ptr con" "ATTACHSQL_RETURN_NONE api"] assms(1) ok(3)
    by (auto simp: at_records_def)
  have "attachsql_drv_execute fuel api s rs st = Inr (SB_DB_ERROR_NONE, st3)"
    using assms(2-5) params x ok(1) st3(1)
    by (simp add: attachsql_drv_execute_def stmt_atcon_def stmt_con_def stmt_at_def con_at_def at_call_def)
  moreover have "\<forall>i<length ps. bound (atlib st1) i = Some (vs ! i)"
    using st1(3) vss(2) by simp
  ultimately show ?thesis
    using st3(2) ok(2) st1(2) by (intro exI [of _ st3] exI [of _ "bound (atlib st1)"]) simp
qed

text \<open>
  A query through the libAttachSQL driver returns when the server has answered: with as many rounds as the library asks to be polled, the driver leaves its loop,
  the query has been sent once, it is counted once in the statistics of the thread, and the connection can be used again.
\<close>

lemma attachsql_query_returns:
  assumes "attachsql_ready api sent waits fuel c st" and "attached drvs (attachsql_ops fuel api) c st con" and "thread_stats st = Some ts"
    and "0 \<le> con_thread_id con"
  shows "\<exists>st' con'. db_query drvs c q st = Inr (Some c, st') \<and> attachsql_ready api sent waits fuel c st' \<and>
           attached drvs (attachsql_ops fuel api) c st' con' \<and> sent (atlib st') = sent (atlib st) @ [q] \<and>
           thread_stats st' = Some (ts[nat (con_thread_id con) := count_query (db_get_query_type q) (ts ! nat (con_thread_id con))])"
proof -
  obtain st' r where st': "db_query drvs c q st = Inr (Some c, st')" "attachsql_ready api sent waits fuel c st'"
      "attached drvs (attachsql_ops fuel api) c st' (con\<lparr>con_rs := r, con_errno := SB_DB_ERROR_NONE\<rparr>)" "sent (atlib st') = sent (atlib st) @ [q]"
    using attachsql_accepting.db_query_accepted [OF assms(1,2)] by blast
  then show ?thesis
    using attachsql_quiet.db_query_tally [OF assms(2-4) st'(1)] by auto
qed

text \<open>A library that answers at the second poll.\<close>

record at_sample =
  as_sent :: "string list"
  as_bound :: at_row
  as_executed :: "at_row list"
  as_waits :: nat

definition sample_at_api :: "at_sample attachsql_api" where
  "sample_at_api =
     \<lparr>at_library_init = id, at_connect_create = (\<lambda>_ _ _ _ _ e m. ((Some 3, e), m)), at_set_semi_blocking = (\<lambda>_. id), at_connect = (\<lambda>_ e m. ((True, e), m)),
      at_connect_poll = (\<lambda>_ e m. ((if as_waits m = 0 then 3 else 1, e), m\<lparr>as_waits := as_waits m - 1\<rparr>)), at_connect_destroy = (\<lambda>_. id),
      at_error_code = (\<lambda>_ _. 0), at_error_message = (\<lambda>_ _. []), at_error_free = (\<lambda>_. id),
      at_query = (\<lambda>_ q e m. (e, m\<lparr>as_sent := as_sent m @ [q], as_waits := 1\<rparr>)), at_query_close = (\<lambda>_. id), at_query_column_count = (\<lambda>_ _. 0),
      at_query_row_get = (\<lambda>_ m. (None, m)), at_query_row_next = (\<lambda>_. id), at_statement_prepare = (\<lambda>_ _ e m. (e, m)),
      at_statement_set = (\<lambda>_ i v m. m\<lparr>as_bound := (as_bound m)(i \<mapsto> v)\<rparr>),
      at_statement_execute = (\<lambda>_ e m. (e, m\<lparr>as_executed := as_executed m @ [as_bound m], as_waits := 1\<rparr>)), at_statement_row_get = (\<lambda>_. id),
      at_statement_get_column_type = (\<lambda>_ _ _. 0), at_statement_get = (\<lambda>_ _ _ e m. (e, m)), at_statement_close = (\<lambda>_. id), at_ptr = (\<lambda>_. []),
      ATTACHSQL_RETURN_NONE = 0, ATTACHSQL_RETURN_IDLE = 2, ATTACHSQL_RETURN_EOF = 3, ATTACHSQL_RETURN_ROW_READY = 4,
      ATTACHSQL_COLUMN_TYPE_TINY = 1, ATTACHSQL_COLUMN_TYPE_SHORT = 2, ATTACHSQL_COLUMN_TYPE_LONG = 3, ATTACHSQL_COLUMN_TYPE_YEAR = 13,
      ATTACHSQL_COLUMN_TYPE_INT24 = 9, ATTACHSQL_COLUMN_TYPE_LONGLONG = 8, ATTACHSQL_COLUMN_TYPE_FLOAT = 4, ATTACHSQL_COLUMN_TYPE_DOUBLE = 5\<rparr>"

definition sample_at_con :: db_conn_t where
  "sample_at_con = con_zero\<lparr>con_driver := Some 0, con_ptr := Some 3\<rparr>"

definition sample_at_params :: "db_bind_t list" where
  "sample_at_params =
     [\<lparr>b_type = DB_TYPE_INT, b_buffer = Some 20, b_data_len = None, b_max_len = 4, b_is_null = None\<rparr>,
      \<lparr>b_type = DB_TYPE_CHAR, b_buffer = Some 21, b_data_len = None, b_max_len = 3, b_is_null = None\<rparr>,
      \<lparr>b_type = DB_TYPE_SMALLINT, b_buffer = Some 22, b_data_len = None, b_max_len = 2, b_is_null = None\<rparr>,
      \<lparr>b_type = DB_TYPE_BIGINT, b_buffer = Some 23, b_data_len = None, b_max_len = 8, b_is_null = None\<rparr>,
      \<lparr>b_type = DB_TYPE_TIME, b_buffer = Some 24, b_data_len = None, b_max_len = 0, b_is_null = None\<rparr>]"

definition sample_time :: db_time_t where
  "sample_time = \<lparr>tm_year = 2014, tm_month = 11, tm_day = 30, tm_hour = 23, tm_minute = 59, tm_second = 1\<rparr>"

definition sample_at_stmt :: db_stmt_t where
  "sample_at_stmt = stmt_zero\<lparr>st_connection := Some 1, st_bound_param := Some sample_at_params, st_bound_param_len := 5\<rparr>"

definition sample_at :: "at_sample atst" where
  "sample_at =
     (sample_db \<lparr>at_args = \<lparr>at_hosts = [''localhost''], at_port = 4427, at_socket = None, at_user = None, at_password = None, at_db = None\<rparr>, at_hosts_pos = 0,
        at_lib = \<lparr>as_sent = [], as_bound = (\<lambda>_. None), as_executed = [], as_waits = 0\<rparr>\<rparr>)
       \<lparr>ds_conns := [1 \<mapsto> sample_at_con], ds_stmts := [5 \<mapsto> sample_at_stmt], ds_vars := [20 \<mapsto> Int_data 42, 21 \<mapsto> String_data ''abc'', 22 \<mapsto> Int_data (- 7),
         23 \<mapsto> Int_data 5000000000, 24 \<mapsto> Time_data sample_time], ds_next := 30\<rparr>"

lemma sample_at_records: "at_records sample_at_api as_bound as_executed as_waits 2" "at_accepts sample_at_api as_sent as_waits 2"
  by (auto simp: at_records_def at_accepts_def at_answers_def query_ends_def sample_at_api_def split: if_splits)

definition sample_sent :: "at_value list" where
  "sample_sent = [Set_int 42, Set_null, Set_int (- 7), Set_bigint 5000000000, Set_time 23 59 1]"

lemma sample_values_sent:
  "list_all2 (\<lambda>p v. value_sent (b_type p) (buffer_data (ds_vars sample_at) p) v) sample_at_params sample_sent"
  using sends_time [of sample_time]
  by (simp add: sample_at_def sample_at_params_def sample_sent_def sample_time_def buffer_data_def value_sent.intros)

lemma attachsql_execution_sends_witness:
  "\<exists>st' row. attachsql_drv_execute 2 sample_at_api 5 1 sample_at = Inr (SB_DB_ERROR_NONE, st') \<and> as_executed (atlib st') = [row] \<and>
     map row [0..<5] = map Some sample_sent"
proof -
  have at: "ds_stmts sample_at 5 = Some sample_at_stmt" "st_connection sample_at_stmt = Some 1" "ds_conns sample_at 1 = Some sample_at_con"
      "con_ptr sample_at_con \<noteq> None" "st_bound_param sample_at_stmt = Some sample_at_params"
      "st_bound_param_len sample_at_stmt = of_nat (length sample_at_params)" "length sample_at_params < 2 ^ 16"
    by (simp_all add: sample_at_def sample_at_stmt_def sample_at_con_def stmt_zero_def con_zero_def sample_at_params_def)
  obtain st' row where r: "attachsql_drv_execute 2 sample_at_api 5 1 sample_at = Inr (SB_DB_ERROR_NONE, st')"
      "as_executed (atlib st') = as_executed (atlib sample_at) @ [row]" "\<forall>i<length sample_at_params. row i = Some (sample_sent ! i)"
    using attachsql_execution_sends [OF sample_at_records(1) at sample_values_sent] by blast
  have n: "length sample_at_params = 5" "length sample_sent = 5" "as_executed (atlib sample_at) = []"
    by (simp_all add: sample_at_params_def sample_sent_def sample_at_def sample_db_def)
  have "map row [0..<5] = map Some sample_sent"
    using r(3) n by (intro nth_equalityI) auto
  then show ?thesis using r(1,2) n(3) by auto
qed

lemma attachsql_query_returns_witness:
  "\<exists>st'. db_query (register_driver_attachsql 2 sample_at_api []) 1 ''COMMIT'' sample_at = Inr (Some 1, st') \<and> as_sent (atlib st') = [''COMMIT'']"
proof -
  obtain ts where ts: "thread_stats sample_at = Some ts" "0 < length ts"
    by (simp add: sample_at_def sample_db_def sample_world_def sample_globals_def)
  have "attached (register_driver_attachsql 2 sample_at_api []) (attachsql_ops 2 sample_at_api) 1 sample_at sample_at_con" "0 \<le> con_thread_id sample_at_con"
    using ts by (simp_all add: attached_def register_driver_attachsql_def attachsql_driver_def sample_at_def sample_at_con_def con_zero_def)
  moreover have "attachsql_ready sample_at_api as_sent as_waits 2 1 sample_at" "as_sent (atlib sample_at) = []"
    using sample_at_records(2) sample_world_ready by (simp_all add: attachsql_ready_def sample_at_def sample_db_def)
  ultimately show ?thesis
    using attachsql_query_returns [of sample_at_api as_sent as_waits 2 1 sample_at _ sample_at_con ts "''COMMIT''"] ts(1) by force
qed

end
