(* ===== verification/DrvOracle.thy ===== *)
theory DrvOracle
  imports DrvCommon
begin

text \<open>
  The Oracle driver (\<^verbatim>\<open>drivers/oracle/drv_oracle.c\<close>). The Oracle call interface is not part of the sources: its functions and the numbers of its
  data types are an argument \<open>api\<close>, its state \<open>'m\<close> is part of the driver's state. Handles are numbers, \<open>None\<close> is NULL; a function of the library that
  stores something through a pointer returns what it leaves there. The structures the driver allocates for connections, statements, indicators and results are in
  stores of their own. The library keeps pointers: to the variables of the caller and to the indicators, which it reads when a statement is executed, and to the
  columns of a result, into which it writes when a row is fetched. The lists of columns and rows of a result are HOL lists.
\<close>

section \<open>Data\<close>

definition ORA_DRV_PREFETCH_COUNT :: u32 where "ORA_DRV_PREFETCH_COUNT = 1000"

record ora_drv_args_t =
  oa_user :: "string option"
  oa_password :: "string option"
  oa_db :: "string option"

record ora_conn_t =
  svchp :: "nat option"
  srvhp :: "nat option"
  errhp :: "nat option"
  transhp :: "nat option"
  usrhp :: "nat option"

datatype ora_stmt_type_t = STMT_TYPE_BEGIN | STMT_TYPE_COMMIT | STMT_TYPE_SELECT | STMT_TYPE_UPDATE

record ora_stmt_t =
  ora_ptr :: "nat option"
  ora_type :: ora_stmt_type_t
  ora_params :: "nat option"
  ora_results :: "nat option"

text \<open>The buffer of a column: NULL, not written, or the bytes written by the last fetch.\<close>

record ora_column_t =
  oc_type :: "16 word"
  oc_name :: "string option"
  oc_len :: "16 word"
  oc_defhp :: "nat option"
  oc_value :: "string option option"
  oc_ind :: int

type_synonym ora_data_t = "string option \<times> int"

record ora_row_t =
  or_data :: "ora_data_t list option"

record ora_result_set_t =
  ors_ncolumns :: u32
  ors_nrows :: u32
  ors_columns :: "ora_column_t list"
  ors_rows :: "ora_row_t list"

text \<open>The results of the library functions, which \<^verbatim>\<open>checkerr\<close> tells apart.\<close>

datatype oci_status =
    OCI_SUCCESS
  | OCI_SUCCESS_WITH_INFO
  | OCI_NEED_DATA
  | OCI_NO_DATA
  | OCI_ERROR
  | OCI_INVALID_HANDLE
  | OCI_STILL_EXECUTING
  | OCI_CONTINUE
  | OCI_OTHER int

datatype oci_htype =
    OCI_HTYPE_ENV
  | OCI_HTYPE_ERROR
  | OCI_HTYPE_SVCCTX
  | OCI_HTYPE_STMT
  | OCI_HTYPE_SERVER
  | OCI_HTYPE_SESSION
  | OCI_HTYPE_TRANS

datatype oci_attr =
    OCI_ATTR_SERVER "nat option"
  | OCI_ATTR_USERNAME string
  | OCI_ATTR_PASSWORD string
  | OCI_ATTR_TRANS "nat option"
  | OCI_ATTR_SESSION "nat option"
  | OCI_ATTR_PREFETCH_ROWS u32

text \<open>What is passed to \<^verbatim>\<open>OCIHandleFree\<close>: a handle, or the address of something else.\<close>

datatype oci_ptr = Handle "nat option" | Not_a_handle nat

text \<open>The address of an element: of an array of indicators, or of the list of columns of a result.\<close>

type_synonym elem = "nat \<times> nat"

text \<open>The arrays of indicators; an indicator that has not been written is \<open>None\<close>.\<close>

type_synonym indicators = "nat \<Rightarrow> int option list option"

record oci_types =
  SQLT_INT :: "16 word"
  SQLT_FLT :: "16 word"
  SQLT_DATE :: "16 word"
  SQLT_TIMESTAMP :: "16 word"
  SQLT_AFC :: "16 word"
  SQLT_VCS :: "16 word"
  SQLT_NUM :: "16 word"

text \<open>The library: environment, connections and transactions; the last function reads the variables and the indicators that were bound.\<close>

record 'm oci_conn_api =
  OCIEnvCreate :: "'m \<Rightarrow> (oci_status \<times> nat option) \<times> 'm"
  OCIHandleAlloc :: "nat option \<Rightarrow> oci_htype \<Rightarrow> 'm \<Rightarrow> (oci_status \<times> nat option) \<times> 'm"
  OCIHandleFree :: "oci_ptr \<Rightarrow> oci_htype \<Rightarrow> 'm \<Rightarrow> oci_status \<times> 'm"
  OCIAttrSet :: "nat option \<Rightarrow> oci_htype \<Rightarrow> oci_attr \<Rightarrow> nat option \<Rightarrow> 'm \<Rightarrow> oci_status \<times> 'm"
  OCIServerAttach :: "nat option \<Rightarrow> nat option \<Rightarrow> string \<Rightarrow> 'm \<Rightarrow> oci_status \<times> 'm"
  OCIServerDetach :: "nat option \<Rightarrow> nat option \<Rightarrow> 'm \<Rightarrow> oci_status \<times> 'm"
  OCISessionBegin :: "nat option \<Rightarrow> nat option \<Rightarrow> nat option \<Rightarrow> 'm \<Rightarrow> oci_status \<times> 'm"
  OCISessionEnd :: "nat option \<Rightarrow> nat option \<Rightarrow> nat option \<Rightarrow> 'm \<Rightarrow> oci_status \<times> 'm"
  OCITransStart :: "nat option \<Rightarrow> nat option \<Rightarrow> nat \<Rightarrow> 'm \<Rightarrow> oci_status \<times> 'm"
  OCITransCommit :: "nat option \<Rightarrow> nat option \<Rightarrow> 'm \<Rightarrow> oci_status \<times> 'm"
  OCIErrorGet :: "nat option \<Rightarrow> 'm \<Rightarrow> string \<times> 'm"

text \<open>
  The library: statements and results. \<open>OCIBindByPos\<close> is given the statement, the variable for the bind handle, the error handle, the position, the address of the variable,
  its length and type, and the address of its indicator; \<open>OCIDefineByPos\<close> the address of the column, whose buffer and indicator it may write. \<open>OCIStmtFetch2\<close>
  returns what it writes to the columns.
\<close>

record 'm oci_stmt_api =
  OCIStmtPrepare :: "nat option \<Rightarrow> nat option \<Rightarrow> string \<Rightarrow> 'm \<Rightarrow> oci_status \<times> 'm"
  OCIBindByPos :: "nat option \<Rightarrow> nat option \<Rightarrow> nat option \<Rightarrow> u32 \<Rightarrow> nat option \<Rightarrow> int \<Rightarrow> 16 word \<Rightarrow> elem \<Rightarrow> 'm \<Rightarrow> (oci_status \<times> nat option) \<times> 'm"
  OCIStmtExecute :: "nat option \<Rightarrow> nat option \<Rightarrow> nat option \<Rightarrow> u32 \<Rightarrow> vars \<Rightarrow> indicators \<Rightarrow> 'm \<Rightarrow> oci_status \<times> 'm"
  OCIParamGet :: "nat option \<Rightarrow> nat option \<Rightarrow> u32 \<Rightarrow> 'm \<Rightarrow> (oci_status \<times> nat option) \<times> 'm"
  OCIAttrGet_type :: "nat option \<Rightarrow> nat option \<Rightarrow> 'm \<Rightarrow> (oci_status \<times> 16 word) \<times> 'm"
  OCIAttrGet_name :: "nat option \<Rightarrow> nat option \<Rightarrow> 'm \<Rightarrow> (oci_status \<times> string \<times> u32) \<times> 'm"
  OCIAttrGet_char_used :: "nat option \<Rightarrow> nat option \<Rightarrow> 'm \<Rightarrow> (oci_status \<times> u32) \<times> 'm"
  OCIAttrGet_size :: "bool \<Rightarrow> nat option \<Rightarrow> nat option \<Rightarrow> 'm \<Rightarrow> (oci_status \<times> 16 word) \<times> 'm"
  OCIDescriptorFree :: "nat option \<Rightarrow> 'm \<Rightarrow> 'm"
  OCIDefineByPos :: "nat option \<Rightarrow> nat option \<Rightarrow> u32 \<Rightarrow> elem \<Rightarrow> 16 word \<Rightarrow> 16 word \<Rightarrow> 'm \<Rightarrow> (oci_status \<times> nat option) \<times> 'm"
  OCIStmtFetch2 :: "nat option \<Rightarrow> nat option \<Rightarrow> 'm \<Rightarrow> (oci_status \<times> (elem \<times> string \<times> int) list) \<times> 'm"
  oci_types_of :: oci_types

record 'm oci_api =
  oci_con :: "'m oci_conn_api"
  oci_st :: "'m oci_stmt_api"

text \<open>The variables of the driver, its structures, and the state of the library.\<close>

record 'm oracle_drv =
  ora_env :: "nat option"
  o_args :: ora_drv_args_t
  o_conns :: "nat \<Rightarrow> ora_conn_t option"
  o_stmts :: "nat \<Rightarrow> ora_stmt_t option"
  o_binds :: indicators
  o_results :: "nat \<Rightarrow> ora_result_set_t option"
  o_lib :: 'm

type_synonym 'm ost = "'m oracle_drv db_state"

section \<open>Access to the driver's state\<close>

abbreviation olib :: "'m ost \<Rightarrow> 'm" where "olib st \<equiv> o_lib (ds_drv st)"
abbreviation oenv :: "'m ost \<Rightarrow> nat option" where "oenv st \<equiv> ora_env (ds_drv st)"

definition upd_o :: "('m oracle_drv \<Rightarrow> 'm oracle_drv) \<Rightarrow> 'm ost \<Rightarrow> 'm ost" where
  "upd_o f st = st\<lparr>ds_drv := f (ds_drv st)\<rparr>"

definition oci_call :: "('m \<Rightarrow> 'a \<times> 'm) \<Rightarrow> 'm ost \<Rightarrow> 'a \<times> 'm ost" where
  "oci_call f st = (case f (olib st) of (x, m) \<Rightarrow> (x, upd_o (\<lambda>d. d\<lparr>o_lib := m\<rparr>) st))"

definition oci_do :: "('m \<Rightarrow> 'm) \<Rightarrow> 'm ost \<Rightarrow> 'm ost" where
  "oci_do f st = upd_o (\<lambda>d. d\<lparr>o_lib := f (o_lib d)\<rparr>) st"

definition oconn_at :: "nat option \<Rightarrow> 'm ost \<Rightarrow> ora_conn_t res" where
  "oconn_at p st = (case p of None \<Rightarrow> Inl Null_deref | Some a \<Rightarrow> (case o_conns (ds_drv st) a of None \<Rightarrow> Inl Bad_access | Some x \<Rightarrow> Inr x))"

definition ostmt_at :: "nat option \<Rightarrow> 'm ost \<Rightarrow> ora_stmt_t res" where
  "ostmt_at p st = (case p of None \<Rightarrow> Inl Null_deref | Some a \<Rightarrow> (case o_stmts (ds_drv st) a of None \<Rightarrow> Inl Bad_access | Some x \<Rightarrow> Inr x))"

definition put_ostmt :: "nat \<Rightarrow> ora_stmt_t option \<Rightarrow> 'm ost \<Rightarrow> 'm ost" where
  "put_ostmt a x st = upd_o (\<lambda>d. d\<lparr>o_stmts := (o_stmts d)(a := x)\<rparr>) st"

definition put_obind :: "nat \<Rightarrow> int option list option \<Rightarrow> 'm ost \<Rightarrow> 'm ost" where
  "put_obind a x st = upd_o (\<lambda>d. d\<lparr>o_binds := (o_binds d)(a := x)\<rparr>) st"

definition put_ors :: "nat \<Rightarrow> ora_result_set_t option \<Rightarrow> 'm ost \<Rightarrow> 'm ost" where
  "put_ors a x st = upd_o (\<lambda>d. d\<lparr>o_results := (o_results d)(a := x)\<rparr>) st"

definition ors_at :: "nat \<Rightarrow> 'm ost \<Rightarrow> ora_result_set_t res" where
  "ors_at a st = (case o_results (ds_drv st) a of None \<Rightarrow> Inl Bad_access | Some x \<Rightarrow> Inr x)"

text \<open>A string that is passed with its length: \<^verbatim>\<open>strlen\<close> reads through the pointer.\<close>

definition with_strlen :: "string option \<Rightarrow> string res" where
  "with_strlen s = (case s of None \<Rightarrow> Inl Null_deref | Some s \<Rightarrow> Inr s)"

section \<open>Errors\<close>

definition checkerr :: "'m oci_api \<Rightarrow> nat option \<Rightarrow> oci_status \<Rightarrow> 'm ost \<Rightarrow> 'm ost res" where
  "checkerr api eh status st =
     (case status of
        OCI_SUCCESS \<Rightarrow> Inr st
      | OCI_SUCCESS_WITH_INFO \<Rightarrow> d_log LOG_ALERT ''Error - OCI_SUCCESS_WITH_INFO'' st
      | OCI_NEED_DATA \<Rightarrow> d_log LOG_ALERT ''Error - OCI_NEED_DATA'' st
      | OCI_NO_DATA \<Rightarrow> d_log LOG_ALERT ''Error - OCI_NO_DATA'' st
      | OCI_ERROR \<Rightarrow> (case oci_call (OCIErrorGet (oci_con api) eh) st of (errbuf, st) \<Rightarrow> d_log LOG_ALERT (''Error - '' @ errbuf) st)
      | OCI_INVALID_HANDLE \<Rightarrow> d_log LOG_ALERT ''Error - OCI_INVALID_HANDLE'' st
      | OCI_STILL_EXECUTING \<Rightarrow> d_log LOG_ALERT ''Error - OCI_STILL_EXECUTE'' st
      | OCI_CONTINUE \<Rightarrow> d_log LOG_ALERT ''Error - OCI_CONTINUE'' st
      | OCI_OTHER _ \<Rightarrow> Inr st)"

text \<open>
  The macro \<^verbatim>\<open>CHECKERR\<close>, used in the given line: False when the function goes on at its label \<^verbatim>\<open>error\<close>; and the statements that follow it otherwise.
\<close>

definition CHECKERR :: "'m oci_api \<Rightarrow> nat option \<Rightarrow> string \<Rightarrow> nat \<Rightarrow> oci_status \<Rightarrow> 'm ost \<Rightarrow> (bool \<times> 'm ost) res" where
  "CHECKERR api eh stmt line rc st =
     (if rc \<noteq> OCI_SUCCESS
      then
        rbind (d_log LOG_FATAL (stmt @ '' failed in drv_oracle.c:'' @ print_nat line) st) (\<lambda>st.
        rbind (checkerr api eh rc st) (\<lambda>st. Inr (False, st)))
      else Inr (True, st))"

definition oci_then :: "(bool \<times> 's) res \<Rightarrow> ('s \<Rightarrow> (bool \<times> 's) res) \<Rightarrow> (bool \<times> 's) res" where
  "oci_then r f = rbind r (\<lambda>(ok, s). if ok then f s else Inr (False, s))"

text \<open>A call of the library whose result is checked.\<close>

definition checked :: "'m oci_api \<Rightarrow> nat option \<Rightarrow> string \<Rightarrow> nat \<Rightarrow> ('m \<Rightarrow> oci_status \<times> 'm) \<Rightarrow> 'm ost \<Rightarrow> (bool \<times> 'm ost) res" where
  "checked api eh stmt line f st = (case oci_call f st of (rc, st) \<Rightarrow> CHECKERR api eh stmt line rc st)"

section \<open>Initialisation and connections\<close>

definition ora_drv_args :: "sb_arg_t list" where
  "ora_drv_args =
     [mk_arg ''oracle-user'' ''Oracle user'' SB_ARG_TYPE_STRING (Some ''sbtest''),
      mk_arg ''oracle-password'' ''Oracle password'' SB_ARG_TYPE_STRING (Some []),
      mk_arg ''oracle-db'' ''Oracle database name'' SB_ARG_TYPE_STRING (Some ''sbtest'')]"

definition ora_drv_caps :: drv_caps_t where
  "ora_drv_caps = \<lparr>multi_rows_insert = False, prepared_statements = True, auto_increment = False, needs_commit = True, serial = False,
                   unsigned_int = False\<rparr>"

definition ora_drv_init :: "'m oci_api \<Rightarrow> 'm oracle_drv dop" where
  "ora_drv_init api st =
     (let get = sb_get_value_string (pg_opts (ds_pg st));
          args = \<lparr>oa_user = get ''oracle-user'', oa_password = get ''oracle-password'', oa_db = get ''oracle-db''\<rparr>
      in
      case oci_call (OCIEnvCreate (oci_con api)) (upd_o (\<lambda>d. d\<lparr>o_args := args\<rparr>) st) of ((rc, env), st) \<Rightarrow>
        let st = upd_o (\<lambda>d. d\<lparr>ora_env := env\<rparr>) st in
        if rc \<noteq> OCI_SUCCESS \<or> env = None then rbind (d_log LOG_FATAL ''OCIEnvCreate failed!'' st) (\<lambda>st. Inr (1, st))
        else Inr (0, st))"

definition ora_drv_describe :: "'m ost \<Rightarrow> ((int \<times> drv_caps_t) \<times> 'm ost) res" where
  "ora_drv_describe st = Inr ((0, ora_drv_caps), st)"

text \<open>An allocation of a handle whose result is checked, and what follows with the handle.\<close>

definition alloc_handle ::
  "'m oci_api \<Rightarrow> nat option \<Rightarrow> oci_htype \<Rightarrow> nat \<Rightarrow> 'm ost \<Rightarrow> (nat option \<Rightarrow> 'm ost \<Rightarrow> (bool \<times> 'm ost) res) \<Rightarrow> (bool \<times> 'm ost) res" where
  "alloc_handle api eh ty line st f =
     (case oci_call (OCIHandleAlloc (oci_con api) (oenv st) ty) st of ((rc, h), st) \<Rightarrow>
        oci_then (CHECKERR api eh ''OCIHandleAlloc'' line rc st) (f h))"

text \<open>The steps after the service and the error handle are allocated; False when one of them fails.\<close>

definition ora_login :: "'m oci_api \<Rightarrow> nat \<Rightarrow> nat option \<Rightarrow> nat option \<Rightarrow> 'm ost \<Rightarrow> (bool \<times> 'm ost) res" where
  "ora_login api c svc err st =
     (let con = oci_con api;
          args = o_args (ds_drv st);
          set = (\<lambda>h ty attr line. checked api err ''OCIAttrSet'' line (OCIAttrSet con h ty attr err))
      in
      alloc_handle api err OCI_HTYPE_SERVER 301 st (\<lambda>srv st.
      alloc_handle api err OCI_HTYPE_SESSION 306 st (\<lambda>usr st.
      rbind (with_strlen (oa_db args)) (\<lambda>db.
      oci_then (checked api err ''OCIServerAttach'' 311 (OCIServerAttach con srv err db) st) (\<lambda>st.
      oci_then (set svc OCI_HTYPE_SVCCTX (OCI_ATTR_SERVER srv) 316 st) (\<lambda>st.
      rbind (with_strlen (oa_user args)) (\<lambda>user.
      oci_then (set usr OCI_HTYPE_SESSION (OCI_ATTR_USERNAME user) 321 st) (\<lambda>st.
      rbind (with_strlen (oa_password args)) (\<lambda>password.
      oci_then (set usr OCI_HTYPE_SESSION (OCI_ATTR_PASSWORD password) 326 st) (\<lambda>st.
      alloc_handle api err OCI_HTYPE_TRANS 331 st (\<lambda>trans st.
      oci_then (set svc OCI_HTYPE_SVCCTX (OCI_ATTR_TRANS trans) 334 st) (\<lambda>st.
      oci_then (checked api err ''OCISessionBegin'' 339 (OCISessionBegin con svc err usr) st) (\<lambda>st.
      oci_then (set svc OCI_HTYPE_SVCCTX (OCI_ATTR_SESSION usr) 344 st) (\<lambda>st.
        let a = ds_next st;
            ora_con = \<lparr>svchp = svc, srvhp = srv, errhp = err, transhp = trans, usrhp = usr\<rparr>;
            st = upd_o (\<lambda>d. d\<lparr>o_conns := (o_conns d)(a := Some ora_con)\<rparr>) (st\<lparr>ds_next := a + 1\<rparr>)
        in rbind (upd_con c (\<lambda>sb_conn. sb_conn\<lparr>con_ptr := Some a\<rparr>) st) (\<lambda>st. Inr (True, st))))))))))))))))"

definition ora_drv_connect :: "'m oci_api \<Rightarrow> nat \<Rightarrow> 'm oracle_drv dop" where
  "ora_drv_connect api c st =
     (case d_malloc st of (ok, st) \<Rightarrow>
        if \<not> ok then Inr (1, st)
        else
          case oci_call (OCIHandleAlloc (oci_con api) (oenv st) OCI_HTYPE_SVCCTX) st of ((rc, svc), st) \<Rightarrow>
            if rc \<noteq> OCI_SUCCESS then rbind (d_log LOG_FATAL ''OCIHandleAlloc (OCI_HTYPE_SVCCTX) failed'' st) (\<lambda>st. Inr (1, st))
            else
              case oci_call (OCIHandleAlloc (oci_con api) (oenv st) OCI_HTYPE_ERROR) st of ((rc, err), st) \<Rightarrow>
                if rc \<noteq> OCI_SUCCESS then rbind (d_log LOG_FATAL ''OCIHandleAlloc (OCI_HTYPE_ERROR) failed'' st) (\<lambda>st. Inr (1, st))
                else rbind (ora_login api c svc err st) (\<lambda>(ok, st). Inr (if ok then 0 else 1, st)))"

text \<open>The handle of the transaction is not released.\<close>

definition ora_drv_disconnect :: "'m oci_api \<Rightarrow> nat \<Rightarrow> 'm oracle_drv dop" where
  "ora_drv_disconnect api c st =
     rbind (con_at c st) (\<lambda>sb_conn.
       if con_ptr sb_conn = None then Inr (1, st)
       else
         rbind (oconn_at (con_ptr sb_conn) st) (\<lambda>con.
           let free = (\<lambda>h ty (res, st). case oci_call (OCIHandleFree (oci_con api) (Handle h) ty) st of (rc, st) \<Rightarrow> (if rc \<noteq> OCI_SUCCESS then 1 else res, st));
               failed = (\<lambda>what (rc, st). if rc \<noteq> OCI_SUCCESS then rbind (d_log LOG_FATAL what st) (\<lambda>st. Inr (1, st)) else Inr (0, st))
           in
           rbind (failed ''OCISessionEnd failed'' (oci_call (OCISessionEnd (oci_con api) (svchp con) (errhp con) (usrhp con)) st)) (\<lambda>(r1, st).
           rbind (failed ''OCIServerDetach failed'' (oci_call (OCIServerDetach (oci_con api) (srvhp con) (errhp con)) st)) (\<lambda>(r2, st).
             case free (errhp con) OCI_HTYPE_ERROR (free (svchp con) OCI_HTYPE_SVCCTX (free (srvhp con) OCI_HTYPE_SERVER
                    (free (usrhp con) OCI_HTYPE_SESSION (if r2 = 1 then 1 else r1, st)))) of (res, st) \<Rightarrow>
               Inr (res, upd_o (\<lambda>d. d\<lparr>o_conns := (o_conns d)(the (con_ptr sb_conn) := None)\<rparr>) st)))))"

section \<open>Types\<close>

text \<open>The table ends at the type \<open>DB_TYPE_NONE\<close>, which is no entry of it; a pointer has 8 bytes.\<close>

definition db_oracle_bind_map :: "oci_types \<Rightarrow> (db_bind_type_t \<times> 16 word \<times> int) list" where
  "db_oracle_bind_map T =
     [(DB_TYPE_TINYINT, SQLT_INT T, 1), (DB_TYPE_SMALLINT, SQLT_INT T, 2), (DB_TYPE_INT, SQLT_INT T, 4), (DB_TYPE_BIGINT, SQLT_INT T, 8),
      (DB_TYPE_FLOAT, SQLT_FLT T, 4), (DB_TYPE_DOUBLE, SQLT_FLT T, 8), (DB_TYPE_DATETIME, SQLT_DATE T, 8), (DB_TYPE_TIMESTAMP, SQLT_TIMESTAMP T, 8),
      (DB_TYPE_CHAR, SQLT_AFC T, 0), (DB_TYPE_VARCHAR, SQLT_VCS T, 0)]"

text \<open>\<^verbatim>\<open>strlen\<close> of a bound string, whose buffer has to hold its end.\<close>

definition strlen_var :: "vars \<Rightarrow> nat option \<Rightarrow> int res" where
  "strlen_var vars a =
     rbind (var_at vars a) (\<lambda>d. case d of
       String_data s \<Rightarrow> if CHR 0x00 \<in> set s then Inr (c_int (int (length (takeWhile (\<lambda>c. c \<noteq> CHR 0x00) s)))) else Inl Out_of_bounds
     | Undef_data \<Rightarrow> Inl Uninit_read
     | _ \<Rightarrow> Inl Bad_access)"

text \<open>
  The type, the length and the indicator of a parameter; \<open>None\<close> is the result 1. The indicator depends on whether there is a NULL flag, not on its value.
\<close>

definition get_oracle_bind_type :: "oci_types \<Rightarrow> vars \<Rightarrow> db_bind_t \<Rightarrow> (16 word \<times> int \<times> int) option res" where
  "get_oracle_bind_type T vars param =
     (case map_of (db_oracle_bind_map T) (b_type param) of
        None \<Rightarrow> Inr None
      | Some (ty, len) \<Rightarrow>
          rbind (if b_type param = DB_TYPE_CHAR \<or> b_type param = DB_TYPE_VARCHAR then strlen_var vars (b_buffer param) else Inr len)
            (\<lambda>len. Inr (Some (ty, len, if b_is_null param \<noteq> None then - 1 else 0))))"

definition get_oracle_type_size :: "oci_types \<Rightarrow> 16 word \<Rightarrow> int" where
  "get_oracle_type_size T ty =
     (if ty = SQLT_NUM T then 21
      else fold (\<lambda>(_, t, len) size. if t = ty \<and> size < len then len else size) (db_oracle_bind_map T) 0)"

definition get_stmt_type :: "string \<Rightarrow> ora_stmt_type_t" where
  "get_stmt_type query =
     (if take 5 query = ''BEGIN'' then STMT_TYPE_BEGIN
      else if take 6 query = ''COMMIT'' then STMT_TYPE_COMMIT
      else if take 6 query = ''SELECT'' then STMT_TYPE_SELECT
      else STMT_TYPE_UPDATE)"

definition get_db_bind_type :: "oci_types \<Rightarrow> 16 word \<Rightarrow> db_bind_type_t" where
  "get_db_bind_type T ty = (case find (\<lambda>(_, t, _). t = ty) (db_oracle_bind_map T) of None \<Rightarrow> DB_TYPE_NONE | Some (d, _) \<Rightarrow> d)"

section \<open>Prepared statements\<close>

text \<open>The placeholder for a question mark.\<close>

definition ora_placeholder :: "nat \<Rightarrow> string" where
  "ora_placeholder v = CHR '':'' # print_int (sint (of_nat v + 1 :: u32))"

definition put_ora_placeholder :: "nat \<Rightarrow> int \<Rightarrow> (int \<times> string) res" where
  "put_ora_placeholder v n =
     (let text = ora_placeholder v in Inr (if int (length text) < n then int (length text) else - 1, snprintf_text (nat n) text))"

definition ora_stmt_zero :: ora_stmt_t where
  "ora_stmt_zero = \<lparr>ora_ptr = None, ora_type = STMT_TYPE_BEGIN, ora_params = None, ora_results = None\<rparr>"

definition stmt_ocon :: "nat \<Rightarrow> 'm ost \<Rightarrow> nat option res" where
  "stmt_ocon s st = rbind (stmt_con s st) (\<lambda>c. rbind (con_at c st) (\<lambda>con. Inr (con_ptr con)))"

text \<open>What follows at the label \<^verbatim>\<open>error\<close> with the handle of the statement, if there is a statement.\<close>

definition ora_prepare_failed :: "'m oci_api \<Rightarrow> nat option \<Rightarrow> string \<Rightarrow> 'm oracle_drv dop" where
  "ora_prepare_failed api h query st =
     (let st = (if h \<noteq> None then snd (oci_call (OCIHandleFree (oci_con api) (Handle h) OCI_HTYPE_STMT) st) else st) in
      rbind (d_log LOG_FATAL (''Failed to prepare statement: '' @ [CHR 0x27] @ query @ [CHR 0x27]) st) (\<lambda>st. Inr (1, st)))"

text \<open>The text with its placeholders is given to the library, unless the statement begins or ends a transaction.\<close>

definition ora_prepare_text :: "'m oci_api \<Rightarrow> nat option \<Rightarrow> nat option \<Rightarrow> string \<Rightarrow> 'm ost \<Rightarrow> (bool \<times> 'm ost) res" where
  "ora_prepare_text api h p buf st =
     (if get_stmt_type buf \<noteq> STMT_TYPE_BEGIN \<and> get_stmt_type buf \<noteq> STMT_TYPE_COMMIT
      then
        rbind (oconn_at p st) (\<lambda>con. let eh = errhp con in
          oci_then (checked api eh ''OCIStmtPrepare'' 472 (OCIStmtPrepare (oci_st api) h eh buf) st)
            (checked api eh ''OCIAttrSet'' 476 (OCIAttrSet (oci_con api) h OCI_HTYPE_STMT (OCI_ATTR_PREFETCH_ROWS ORA_DRV_PREFETCH_COUNT) eh)))
      else Inr (True, st))"

definition ora_drv_prepare :: "nat \<Rightarrow> 'm oci_api \<Rightarrow> nat \<Rightarrow> string \<Rightarrow> 'm oracle_drv dop" where
  "ora_drv_prepare fuel api s query st =
     rbind (stmt_ocon s st) (\<lambda>p.
       if p = None then Inr (1, st)
       else if ds_ps_mode st \<noteq> DB_PS_MODE_DISABLE
       then
         (case d_malloc st of (ok, st) \<Rightarrow>
            if \<not> ok then ora_prepare_failed api None query st
            else
              case oci_call (OCIHandleAlloc (oci_con api) (oenv st) OCI_HTYPE_STMT) st of ((rc, h), st) \<Rightarrow>
                if rc \<noteq> OCI_SUCCESS then ora_prepare_failed api h query st
                else
                  rbind (fill_loop put_ora_placeholder fuel 0 query [] 0 True (os_mem (pg_opts (ds_pg st)))) (\<lambda>(r, m).
                    let st = st\<lparr>ds_pg := set_opts ((pg_opts (ds_pg st))\<lparr>os_mem := m\<rparr>) (ds_pg st)\<rparr> in
                    case r of
                      None \<Rightarrow> ora_prepare_failed api h query st
                    | Some (buf, _) \<Rightarrow>
                        rbind (ora_prepare_text api h p buf st) (\<lambda>(ok, st).
                          if \<not> ok then ora_prepare_failed api h query st
                          else
                            (let a = ds_next st;
                                 st = put_ostmt a (Some (ora_stmt_zero\<lparr>ora_ptr := h, ora_type := get_stmt_type buf\<rparr>)) (st\<lparr>ds_next := a + 1\<rparr>)
                             in
                             case d_strdup query st of (q, st) \<Rightarrow>
                               rbind (upd_stmt s (\<lambda>stmt. stmt\<lparr>st_query := q, st_ptr := Some a\<rparr>) st) (\<lambda>st. Inr (0, st))))))
       else
         (case d_strdup query st of (q, st) \<Rightarrow>
            rbind (upd_stmt s (\<lambda>stmt. stmt\<lparr>st_query := q, st_emulated := True\<rparr>) st) (\<lambda>st. Inr (0, st))))"

text \<open>
  The loop that binds the parameters; \<open>a\<close> is the address of the new indicators, \<open>bindp\<close> the variable for the bind handle, which all calls share. False when a type is not known
  or a call has failed.
\<close>

fun ora_bind_loop :: "'m oci_api \<Rightarrow> nat option \<Rightarrow> nat option \<Rightarrow> nat \<Rightarrow> db_bind_t list \<Rightarrow> nat list \<Rightarrow> nat option \<Rightarrow> 'm ost \<Rightarrow> (bool \<times> 'm ost) res" where
  "ora_bind_loop api h p a params [] bindp st = Inr (True, st)"
| "ora_bind_loop api h p a params (i # is) bindp st =
     rbind (aread params i) (\<lambda>param.
     rbind (get_oracle_bind_type (oci_types_of (oci_st api)) (ds_vars st) param) (\<lambda>r. case r of
       None \<Rightarrow> Inr (False, st)
     | Some (dtype, dlen, ind) \<Rightarrow>
         (let st = put_obind a (map_option (\<lambda>inds. inds[i := Some ind]) (o_binds (ds_drv st) a)) st in
          rbind (oconn_at p st) (\<lambda>con.
          case oci_call (OCIBindByPos (oci_st api) h bindp (errhp con) (of_nat i + 1) (b_buffer param) dlen dtype (a, i)) st of ((rc, bindp), st) \<Rightarrow>
            if rc \<noteq> OCI_SUCCESS then rbind (d_log LOG_FATAL ''OCIBindByPos failed'' st) (\<lambda>st. Inr (False, st))
            else ora_bind_loop api h p a params is bindp st))))"

definition ora_drv_bind_param :: "'m oci_api \<Rightarrow> nat \<Rightarrow> db_bind_t list \<Rightarrow> u32 \<Rightarrow> 'm oracle_drv dop" where
  "ora_drv_bind_param api s params len st =
     rbind (stmt_ocon s st) (\<lambda>p.
       if p = None then Inr (1, st)
       else
         rbind (stmt_at s st) (\<lambda>stmt.
           if st_emulated stmt then keep_params s params len st
           else if st_ptr stmt = None then Inr (1, st)
           else
             rbind (ostmt_at (st_ptr stmt) st) (\<lambda>ora_stmt.
               if ora_ptr ora_stmt = None then Inr (1, st)
               else
                 (let b = the (st_ptr stmt);
                      st = (case ora_params ora_stmt of None \<Rightarrow> st | Some old \<Rightarrow> put_obind old None st)
                  in
                  case d_malloc st of (ok, st) \<Rightarrow>
                    if \<not> ok then Inr (1, put_ostmt b (Some (ora_stmt\<lparr>ora_params := None\<rparr>)) st)
                    else
                      (let a = ds_next st;
                           st = put_ostmt b (Some (ora_stmt\<lparr>ora_params := Some a\<rparr>)) (put_obind a (Some (replicate (unat len) None)) (st\<lparr>ds_next := a + 1\<rparr>))
                       in
                       rbind (ora_bind_loop api (ora_ptr ora_stmt) p a params [0..<unat len] None st) (\<lambda>(ok, st).
                         if ok then Inr (0, st)
                         else Inr (1, put_ostmt b (Some (ora_stmt\<lparr>ora_params := None\<rparr>)) (put_obind a None st))))))))"

definition ora_drv_bind_result :: "nat \<Rightarrow> db_bind_t list \<Rightarrow> u32 \<Rightarrow> 'm oracle_drv dop" where
  "ora_drv_bind_result s params len st = Inr (1, st)"

section \<open>Executing\<close>

text \<open>The message after the label \<^verbatim>\<open>error\<close>; the result of a statement whose steps were checked.\<close>

definition ora_failed_query :: "string option \<Rightarrow> 'm ost \<Rightarrow> 'm ost res" where
  "ora_failed_query query st = d_log LOG_FATAL (''failed query was: '' @ [CHR 0x27] @ print_s query @ [CHR 0x27]) st"

definition ora_result :: "string option \<Rightarrow> (bool \<times> 'm ost) res \<Rightarrow> (db_error_t \<times> 'm ost) res" where
  "ora_result query r =
     rbind r (\<lambda>(ok, st). if ok then Inr (SB_DB_ERROR_NONE, st) else rbind (ora_failed_query query st) (\<lambda>st. Inr (SB_DB_ERROR_FAILED, st)))"

text \<open>The beginning and the end of a transaction, in the lines given.\<close>

definition ora_begin :: "'m oci_api \<Rightarrow> ora_conn_t \<Rightarrow> nat \<Rightarrow> 'm ost \<Rightarrow> (bool \<times> 'm ost) res" where
  "ora_begin api con line = checked api (errhp con) ''OCITransStart'' line (OCITransStart (oci_con api) (svchp con) (errhp con) 3600)"

definition ora_commit :: "'m oci_api \<Rightarrow> ora_conn_t \<Rightarrow> nat \<Rightarrow> 'm ost \<Rightarrow> (bool \<times> 'm ost) res" where
  "ora_commit api con line = checked api (errhp con) ''OCITransCommit'' line (OCITransCommit (oci_con api) (svchp con) (errhp con))"

definition ora_iters :: "ora_stmt_type_t \<Rightarrow> u32" where
  "ora_iters ty = (if ty = STMT_TYPE_SELECT then 0 else 1)"

definition ora_execute :: "'m oci_api \<Rightarrow> ora_conn_t \<Rightarrow> nat option \<Rightarrow> ora_stmt_type_t \<Rightarrow> nat \<Rightarrow> 'm ost \<Rightarrow> (bool \<times> 'm ost) res" where
  "ora_execute api con h ty line st =
     checked api (errhp con) ''OCIStmtExecute'' line
       (OCIStmtExecute (oci_st api) (svchp con) h (errhp con) (ora_iters ty) (ds_vars st) (o_binds (ds_drv st))) st"

text \<open>The steps of a query that is neither the beginning nor the end of a transaction: the handle of the statement is released in any case.\<close>

definition ora_query_text :: "'m oci_api \<Rightarrow> ora_conn_t \<Rightarrow> string \<Rightarrow> 'm oracle_drv eop" where
  "ora_query_text api con query st =
     (case oci_call (OCIHandleAlloc (oci_con api) (oenv st) OCI_HTYPE_STMT) st of ((rc, tmp), st) \<Rightarrow>
        rbind (CHECKERR api (errhp con) ''OCIHandleAlloc'' 726 rc st) (\<lambda>(ok, st).
          let stmt = (if ok then tmp else None);
              free = (\<lambda>st. snd (oci_call (OCIHandleFree (oci_con api) (Handle stmt) OCI_HTYPE_STMT) st))
          in
          rbind (oci_then (oci_then (Inr (ok, st)) (checked api (errhp con) ''OCIStmtPrepare'' 732 (OCIStmtPrepare (oci_st api) stmt (errhp con) query)))
                   (ora_execute api con stmt (get_stmt_type query) 736)) (\<lambda>(ok, st).
            if ok then Inr (SB_DB_ERROR_NONE, free st)
            else rbind (ora_failed_query (Some query) st) (\<lambda>st. Inr (SB_DB_ERROR_FAILED, if stmt \<noteq> None then free st else st)))))"

definition ora_drv_query :: "'m oci_api \<Rightarrow> nat \<Rightarrow> string \<Rightarrow> nat \<Rightarrow> 'm oracle_drv eop" where
  "ora_drv_query api c query rs st =
     rbind (con_at c st) (\<lambda>sb_conn.
     rbind (oconn_at (con_ptr sb_conn) st) (\<lambda>con. case get_stmt_type query of
       STMT_TYPE_BEGIN \<Rightarrow> ora_result (Some query) (ora_begin api con 709 st)
     | STMT_TYPE_COMMIT \<Rightarrow> ora_result (Some query) (ora_commit api con 716 st)
     | _ \<Rightarrow> ora_query_text api con query st))"

text \<open>
  The execution of a prepared or an emulated statement. The result of the query of an emulated statement is stored in the connection, but not returned.
\<close>

definition ora_drv_execute :: "nat \<Rightarrow> 'm oci_api \<Rightarrow> nat \<Rightarrow> nat \<Rightarrow> 'm oracle_drv eop" where
  "ora_drv_execute fuel api s rs st =
     rbind (stmt_at s st) (\<lambda>stmt. case st_connection stmt of
       None \<Rightarrow> Inr (SB_DB_ERROR_FAILED, st)
     | Some c \<Rightarrow>
         rbind (con_at c st) (\<lambda>db_con.
           if con_ptr db_con = None then Inr (SB_DB_ERROR_FAILED, st)
           else if \<not> st_emulated stmt
           then
             (if st_ptr stmt = None then Inr (SB_DB_ERROR_FAILED, st)
              else
                rbind (ostmt_at (st_ptr stmt) st) (\<lambda>ora_stmt.
                rbind (oconn_at (con_ptr db_con) st) (\<lambda>con.
                  ora_result (st_query stmt)
                    (case ora_type ora_stmt of
                       STMT_TYPE_BEGIN \<Rightarrow> ora_begin api con 620 st
                     | STMT_TYPE_COMMIT \<Rightarrow> ora_commit api con 627 st
                     | ty \<Rightarrow> ora_execute api con (ora_ptr ora_stmt) ty 638 st))))
           else
             (case st_query stmt of
                None \<Rightarrow> Inl Null_deref
              | Some query \<Rightarrow>
                  rbind (emulate_query (ds_vars st) fuel (st_bound_param stmt) query (os_mem (pg_opts (ds_pg st)))) (\<lambda>(buf, m).
                    let st = st\<lparr>ds_pg := set_opts ((pg_opts (ds_pg st))\<lparr>os_mem := m\<rparr>) (ds_pg st)\<rparr> in
                    case buf of
                      None \<Rightarrow> Inr (SB_DB_ERROR_FAILED, st)
                    | Some text \<Rightarrow>
                        rbind (ora_drv_query api c text rs st) (\<lambda>(e, st).
                        rbind (upd_con c (\<lambda>con. con\<lparr>con_errno := e\<rparr>) st) (\<lambda>st. Inr (SB_DB_ERROR_NONE, st)))))))"

section \<open>Results\<close>

definition ora_drv_fetch :: "nat \<Rightarrow> 'm oracle_drv dop" where
  "ora_drv_fetch rs st = Inr (1, st)"

definition ora_drv_fetch_row :: "nat \<Rightarrow> nat \<Rightarrow> 'm oracle_drv dop" where
  "ora_drv_fetch_row rs row st = Inr (1, st)"

definition ora_drv_num_rows :: "nat \<Rightarrow> 'm ost \<Rightarrow> (u64 \<times> 'm ost) res" where
  "ora_drv_num_rows rs st =
     rbind (con_at rs st) (\<lambda>con. case rs_ptr (con_rs con) of
       None \<Rightarrow> Inr (0, st)
     | Some a \<Rightarrow> rbind (ors_at a st) (\<lambda>ora_rs. Inr (ucast (ors_nrows ora_rs), st)))"

definition column_zero :: ora_column_t where
  "column_zero = \<lparr>oc_type = 0, oc_name = None, oc_len = 0, oc_defhp = None, oc_value = None, oc_ind = 0\<rparr>"

definition ors_zero :: ora_result_set_t where
  "ors_zero = \<lparr>ors_ncolumns = 0, ors_nrows = 0, ors_columns = [], ors_rows = []\<rparr>"

definition upd_ors :: "nat \<Rightarrow> (ora_result_set_t \<Rightarrow> ora_result_set_t) \<Rightarrow> 'm ost \<Rightarrow> 'm ost res" where
  "upd_ors a f st = rbind (ors_at a st) (\<lambda>r. Inr (put_ors a (Some (f r)) st))"

definition upd_column :: "nat \<Rightarrow> nat \<Rightarrow> (ora_column_t \<Rightarrow> ora_column_t) \<Rightarrow> 'm ost \<Rightarrow> 'm ost res" where
  "upd_column a k f st =
     rbind (ors_at a st) (\<lambda>r.
       if k < length (ors_columns r) then Inr (put_ors a (Some (r\<lparr>ors_columns := (ors_columns r)[k := f (ors_columns r ! k)]\<rparr>)) st) else Inl Bad_access)"

text \<open>
  \<^verbatim>\<open>strncpy\<close> of up to \<open>n\<close> bytes of the memory \<open>s\<close>: the name of a column does not end with a zero there.
\<close>

definition strncpy_text :: "string \<Rightarrow> nat \<Rightarrow> string res" where
  "strncpy_text s n =
     (let t = takeWhile (\<lambda>c. c \<noteq> CHR 0x00) s in
      if n \<le> length t then Inr (take n t)
      else if length t < length s then Inr (t @ replicate (n - length t) (CHR 0x00))
      else Inl Out_of_bounds)"

text \<open>
  The description of column number \<open>i\<close>, with the descriptor \<open>parm\<close>: a column is added to the result before anything is known of it, and its fields are set step by step.
\<close>

definition ora_column_type :: "'m oci_api \<Rightarrow> nat option \<Rightarrow> nat \<Rightarrow> nat \<Rightarrow> nat option \<Rightarrow> 'm ost \<Rightarrow> (bool \<times> 'm ost) res" where
  "ora_column_type api eh a k parm st =
     (case oci_call (OCIAttrGet_type (oci_st api) parm eh) st of ((rc, ty), st) \<Rightarrow>
        rbind (upd_column a k (\<lambda>c. c\<lparr>oc_type := ty\<rparr>) st) (CHECKERR api eh ''OCIAttrGet'' 845 rc))"

definition ora_column_name :: "'m oci_api \<Rightarrow> nat option \<Rightarrow> nat \<Rightarrow> nat \<Rightarrow> nat option \<Rightarrow> 'm ost \<Rightarrow> (bool \<times> 'm ost) res" where
  "ora_column_name api eh a k parm st =
     (case oci_call (OCIAttrGet_name (oci_st api) parm eh) st of ((rc, fnamep, col_len), st) \<Rightarrow>
        oci_then (CHECKERR api eh ''OCIAttrGet'' 850 rc st) (\<lambda>st.
          case d_malloc st of (ok, st) \<Rightarrow>
            if \<not> ok then Inr (False, st)
            else
              rbind (strncpy_text fnamep (unat (col_len + 1))) (\<lambda>name.
              rbind (upd_column a k (\<lambda>c. c\<lparr>oc_name := Some name\<rparr>) st) (\<lambda>st. Inr (True, st)))))"

text \<open>The width in characters or in bytes; the width 0 is replaced by the size of the type.\<close>

definition ora_column_len :: "'m oci_api \<Rightarrow> nat option \<Rightarrow> nat \<Rightarrow> nat \<Rightarrow> nat option \<Rightarrow> 'm ost \<Rightarrow> (bool \<times> 'm ost) res" where
  "ora_column_len api eh a k parm st =
     (case oci_call (OCIAttrGet_char_used (oci_st api) parm eh) st of ((rc, semantics), st) \<Rightarrow>
        oci_then (CHECKERR api eh ''OCIAttrGet'' 860 rc st) (\<lambda>st.
          case oci_call (OCIAttrGet_size (oci_st api) (semantics \<noteq> 0) parm eh) st of ((rc, w), st) \<Rightarrow>
            rbind (upd_column a k (\<lambda>c. c\<lparr>oc_len := if w = 0 then word_of_int (get_oracle_type_size (oci_types_of (oci_st api)) (oc_type c)) else w\<rparr>) st)
              (CHECKERR api eh ''OCIAttrGet'' 878 rc)))"

definition ora_column_define :: "'m oci_api \<Rightarrow> nat option \<Rightarrow> nat option \<Rightarrow> nat \<Rightarrow> nat \<Rightarrow> u32 \<Rightarrow> 'm ost \<Rightarrow> (bool \<times> 'm ost) res" where
  "ora_column_define api h eh a k i st =
     (case d_malloc st of (ok, st) \<Rightarrow>
        if \<not> ok then Inr (False, st)
        else
          rbind (upd_column a k (\<lambda>c. c\<lparr>oc_value := Some None\<rparr>) st) (\<lambda>st.
          rbind (ors_at a st) (\<lambda>r.
          rbind (aread (ors_columns r) k) (\<lambda>c.
            case oci_call (OCIDefineByPos (oci_st api) h eh i (a, k) (oc_len c) (oc_type c)) st of ((rc, defhp), st) \<Rightarrow>
              rbind (upd_column a k (\<lambda>c. c\<lparr>oc_defhp := defhp\<rparr>) st) (CHECKERR api eh ''OCIDefineByPos'' 889 rc)))))"

definition ora_column :: "'m oci_api \<Rightarrow> nat option \<Rightarrow> nat option \<Rightarrow> nat \<Rightarrow> u32 \<Rightarrow> nat option \<Rightarrow> 'm ost \<Rightarrow> (bool \<times> 'm ost) res" where
  "ora_column api h eh a i parm st =
     (case d_malloc st of (ok, st) \<Rightarrow>
        if \<not> ok then Inr (False, st)
        else
          rbind (ors_at a st) (\<lambda>r.
          rbind (upd_ors a (\<lambda>r. r\<lparr>ors_columns := ors_columns r @ [column_zero]\<rparr>) st) (\<lambda>st.
            let k = length (ors_columns r) in
            oci_then (ora_column_type api eh a k parm st) (\<lambda>st.
            oci_then (ora_column_name api eh a k parm st) (\<lambda>st.
            oci_then (ora_column_len api eh a k parm st) (\<lambda>st.
            ora_column_define api h eh a k i (oci_do (OCIDescriptorFree (oci_st api) parm) st)))))))"

text \<open>The loop over the columns: it ends when the library has no descriptor for the next number \<open>i\<close>, which is a result.\<close>

fun ora_columns :: "nat \<Rightarrow> 'm oci_api \<Rightarrow> nat option \<Rightarrow> nat option \<Rightarrow> nat \<Rightarrow> u32 \<Rightarrow> 'm ost \<Rightarrow> ((bool \<times> u32) \<times> 'm ost) res" where
  "ora_columns fuel api h eh a i st =
     (case oci_call (OCIParamGet (oci_st api) h eh i) st of ((rc, parm), st) \<Rightarrow>
        if rc \<noteq> OCI_SUCCESS then Inr ((True, i), st)
        else
          case fuel of
            0 \<Rightarrow> Inl Still_running
          | Suc fuel \<Rightarrow>
              rbind (ora_column api h eh a i parm st) (\<lambda>(ok, st).
                if ok then ora_columns fuel api h eh a (i + 1) st else Inr ((False, i), st)))"

declare ora_columns.simps [simp del]

text \<open>What a fetch writes to a column, whose buffer must be allocated.\<close>

definition ora_write :: "elem \<times> string \<times> int \<Rightarrow> 'm ost \<Rightarrow> 'm ost res" where
  "ora_write w st =
     (case w of ((a, k), bytes, ind) \<Rightarrow>
        rbind (ors_at a st) (\<lambda>r.
        rbind (aread (ors_columns r) k) (\<lambda>c.
          if oc_value c = None then Inl Bad_access else upd_column a k (\<lambda>c. c\<lparr>oc_value := Some (Some bytes), oc_ind := ind\<rparr>) st)))"

text \<open>The values of the columns are copied to the data of a row; \<open>None\<close> for the array is NULL, which is not tested.\<close>

fun ora_copy_row :: "ora_column_t list \<Rightarrow> ora_data_t list option \<Rightarrow> 'm ost \<Rightarrow> ((bool \<times> ora_data_t list option) \<times> 'm ost) res" where
  "ora_copy_row [] data st = Inr ((True, data), st)"
| "ora_copy_row (c # cs) None st = Inl Null_deref"
| "ora_copy_row (c # cs) (Some ds) st =
     (case d_malloc st of (ok, st) \<Rightarrow>
        if \<not> ok then Inr ((False, Some ds), st)
        else
          case oc_value c of
            None \<Rightarrow> Inl Null_deref
          | Some v \<Rightarrow> ora_copy_row cs (Some (ds @ [(v, oc_ind c)])) st)"

fun ora_rows :: "nat \<Rightarrow> 'm oci_api \<Rightarrow> nat option \<Rightarrow> nat option \<Rightarrow> nat \<Rightarrow> 'm ost \<Rightarrow> (bool \<times> 'm ost) res" where
  "ora_rows 0 api h eh a st = Inl Still_running"
| "ora_rows (Suc n) api h eh a st =
     (case oci_call (OCIStmtFetch2 (oci_st api) h eh) st of ((rc, writes), st) \<Rightarrow>
        rbind (rfold ora_write writes st) (\<lambda>st.
          if rc = OCI_NO_DATA then Inr (True, st)
          else
            oci_then (CHECKERR api eh ''OCIStmtFetch'' 905 rc st) (\<lambda>st.
              case d_malloc st of (ok, st) \<Rightarrow>
                if \<not> ok then Inr (False, st)
                else
                  case d_malloc st of (ok, st) \<Rightarrow>
                    rbind (ors_at a st) (\<lambda>r.
                    rbind (ora_copy_row (ors_columns r) (if ok then Some [] else None) st) (\<lambda>((ok, data), st).
                      if \<not> ok then Inr (False, st)
                      else
                        rbind (upd_ors a (\<lambda>r. r\<lparr>ors_rows := ors_rows r @ [\<lparr>or_data = data\<rparr>], ors_nrows := ors_nrows r + 1\<rparr>) st)
                          (ora_rows n api h eh a))))))"

text \<open>Failures are the result 1, which is the number of \<open>SB_DB_ERROR_RESTART_TRANSACTION\<close>; what has been stored by then stays in the result set.\<close>

definition ora_drv_store_results :: "nat \<Rightarrow> 'm oci_api \<Rightarrow> nat \<Rightarrow> 'm oracle_drv eop" where
  "ora_drv_store_results fuel api rs st =
     (let failed = (\<lambda>st. Inr (SB_DB_ERROR_RESTART_TRANSACTION, st)) in
      rbind (con_at rs st) (\<lambda>rscon.
        case (rs_statement (con_rs rscon), rs_connection (con_rs rscon)) of
          (Some s, Some c) \<Rightarrow>
            rbind (stmt_at s st) (\<lambda>stmt.
            rbind (con_at c st) (\<lambda>con.
              if st_ptr stmt = None \<or> con_ptr con = None \<or> rs_ptr (con_rs rscon) \<noteq> None then failed st
              else
                case d_malloc st of (ok, st) \<Rightarrow>
                  if \<not> ok then failed st
                  else
                    (let a = ds_next st in
                     rbind (upd_rs rs (\<lambda>r. r\<lparr>rs_ptr := Some a\<rparr>) (put_ors a (Some ors_zero) (st\<lparr>ds_next := a + 1\<rparr>))) (\<lambda>st.
                     rbind (ostmt_at (st_ptr stmt) st) (\<lambda>ora_stmt.
                     rbind (oconn_at (con_ptr con) st) (\<lambda>ora_con.
                     rbind (ora_columns fuel api (ora_ptr ora_stmt) (errhp ora_con) a 1 st) (\<lambda>((ok, i), st).
                       if \<not> ok then failed st
                       else
                         rbind (upd_ors a (\<lambda>r. r\<lparr>ors_ncolumns := i - 1\<rparr>) st) (\<lambda>st.
                         rbind (ora_rows fuel api (ora_ptr ora_stmt) (errhp ora_con) a st) (\<lambda>(ok, st).
                           if ok then Inr (SB_DB_ERROR_NONE, st) else failed st)))))))))
        | _ \<Rightarrow> failed st))"

text \<open>The pointer to the result stays in the result set.\<close>

definition ora_drv_free_results :: "nat \<Rightarrow> 'm oracle_drv dop" where
  "ora_drv_free_results rs st =
     rbind (con_at rs st) (\<lambda>con. case rs_ptr (con_rs con) of
       None \<Rightarrow> Inr (1, st)
     | Some a \<Rightarrow>
         rbind (ors_at a st) (\<lambda>r.
           if list_all (\<lambda>row. case or_data row of None \<Rightarrow> True | Some ds \<Rightarrow> unat (ors_ncolumns r) \<le> length ds) (ors_rows r)
           then Inr (0, put_ors a None st) else Inl Out_of_bounds))"

text \<open>The library is given the statement of the database layer instead of the handle.\<close>

definition ora_drv_close :: "'m oci_api \<Rightarrow> nat \<Rightarrow> 'm oracle_drv dop" where
  "ora_drv_close api s st =
     rbind (stmt_at s st) (\<lambda>stmt.
       if st_ptr stmt = None then Inr (1, st)
       else Inr (0, snd (oci_call (OCIHandleFree (oci_con api) (Not_a_handle s) OCI_HTYPE_STMT) st)))"

definition ora_drv_done :: "'m oci_api \<Rightarrow> 'm oracle_drv dop" where
  "ora_drv_done api st =
     (if oenv st = None then Inr (1, st)
      else
        case oci_call (OCIHandleFree (oci_con api) (Handle (oenv st)) OCI_HTYPE_ENV) st of (rc, st) \<Rightarrow>
          if rc \<noteq> OCI_SUCCESS then rbind (d_log LOG_FATAL ''OCIHandleFree failed'' st) (\<lambda>st. Inr (1, st)) else Inr (0, st))"

section \<open>The driver\<close>

definition oracle_ops :: "nat \<Rightarrow> 'm oci_api \<Rightarrow> 'm oracle_drv drv_ops_t" where
  "oracle_ops fuel api =
     \<lparr>drv_init = ora_drv_init api, drv_describe = Some ora_drv_describe, drv_connect = ora_drv_connect api,
      drv_disconnect = ora_drv_disconnect api, drv_prepare = ora_drv_prepare fuel api, drv_bind_param = ora_drv_bind_param api,
      drv_bind_result = ora_drv_bind_result, drv_execute = ora_drv_execute fuel api, drv_fetch = ora_drv_fetch,
      drv_fetch_row = ora_drv_fetch_row, drv_num_rows = ora_drv_num_rows, drv_free_results = ora_drv_free_results,
      drv_close = ora_drv_close api, drv_query = ora_drv_query api, drv_store_results = ora_drv_store_results fuel api,
      drv_done = ora_drv_done api\<rparr>"

definition oracle_driver :: "nat \<Rightarrow> 'm oci_api \<Rightarrow> 'm oracle_drv db_driver_t" where
  "oracle_driver fuel api = \<lparr>d_sname = ''oracle'', d_lname = ''Oracle driver'', d_args = Some ora_drv_args, d_ops = oracle_ops fuel api\<rparr>"

definition register_driver_oracle :: "nat \<Rightarrow> 'm oci_api \<Rightarrow> 'm oracle_drv db_driver_t list \<Rightarrow> 'm oracle_drv db_driver_t list" where
  "register_driver_oracle fuel api drivers = drivers @ [oracle_driver fuel api]"

section \<open>What the driver leaves alone\<close>

text \<open>
  A step that leaves the data of the layer alone, and that does not end in a fault when the logger is ready: \<open>get\<close> is the state of its result.
\<close>

definition settles :: "('r \<Rightarrow> 'd db_state) \<Rightarrow> 'd db_state \<Rightarrow> 'r res \<Rightarrow> bool" where
  "settles get st r \<longleftrightarrow>
     (\<forall>y. r = Inr y \<longrightarrow> layer_same st (get y) \<and> (logger_ready (pg_w (ds_pg st)) \<longrightarrow> logger_ready (pg_w (ds_pg (get y))))) \<and>
     (logger_ready (pg_w (ds_pg st)) \<longrightarrow> (\<exists>y. r = Inr y))"

lemma settles_Inr: "layer_same st (get y) \<Longrightarrow> ds_pg (get y) = ds_pg st \<Longrightarrow> settles get st (Inr y)"
  by (simp add: settles_def)

lemma settles_bind:
  assumes "settles get st r" and "\<And>y. settles get' (get y) (f y)"
  shows "settles get' st (rbind r f)"
  using assms unfolding settles_def by (cases r) (auto intro: layer_same_trans)

lemma settles_d_log: "settles (\<lambda>st. st) st (d_log p m st)"
  using d_log_ready [of st p m] d_log_same [of p m st] by (auto simp: settles_def)

lemma layer_same_oci [simp]:
  "layer_same (snd (oci_call g st)) st' = layer_same st st'" "layer_same st (snd (oci_call g st')) = layer_same st st'"
  "layer_same (oci_do f st) st' = layer_same st st'" "layer_same st (oci_do f st') = layer_same st st'"
  by (simp_all add: layer_same_def oci_do_def oci_call_def upd_o_def case_prod_unfold)

lemma ds_pg_oci [simp]: "ds_pg (snd (oci_call g st)) = ds_pg st" "ds_pg (oci_do f st) = ds_pg st"
  by (simp_all add: oci_do_def oci_call_def upd_o_def case_prod_unfold)

lemma settles_oci: "settles get (snd (oci_call g st)) r \<Longrightarrow> settles get st r"
  by (simp add: settles_def)

lemma settles_checkerr: "settles (\<lambda>st. st) st (checkerr api eh rc st)"
proof (cases "rc = OCI_ERROR")
  case True
  then show ?thesis
    by (auto simp: checkerr_def case_prod_unfold intro!: settles_oci [of _ "OCIErrorGet (oci_con api) eh"] settles_d_log)
next
  case False
  then show ?thesis
    by (cases rc) (simp_all add: checkerr_def settles_d_log settles_Inr)
qed

lemma settles_CHECKERR: "settles snd st (CHECKERR api eh m n rc st)"
  by (auto simp: CHECKERR_def intro!: settles_bind [OF settles_d_log] settles_bind [OF settles_checkerr] settles_Inr)

lemma settles_checked: "settles snd st (checked api eh m n f st)"
  unfolding checked_def case_prod_unfold by (rule settles_oci, rule settles_CHECKERR)

lemma settles_then: "settles snd st r \<Longrightarrow> (\<And>st. settles snd st (f st)) \<Longrightarrow> settles snd st (oci_then r f)"
  unfolding oci_then_def by (rule settles_bind) (auto intro!: settles_Inr)

lemma settles_result: "settles snd st r \<Longrightarrow> settles snd st (ora_result q r)"
  unfolding ora_result_def ora_failed_query_def by (rule settles_bind) (auto intro!: settles_bind [OF settles_d_log] settles_Inr)

lemma settles_query_text: "settles snd st (ora_query_text api con q st)"
proof -
  let ?r = "oci_call (OCIHandleAlloc (oci_con api) (oenv st) OCI_HTYPE_STMT) st"
  have exec: "ora_execute api con h ty n st =
      checked api (errhp con) ''OCIStmtExecute'' n (OCIStmtExecute (oci_st api) (svchp con) h (errhp con) (ora_iters ty) (ds_vars st) (o_binds (ds_drv st))) st"
    for h ty n and st :: "'a ost"
    by (simp add: ora_execute_def)
  have run: "settles snd st (oci_then (oci_then (Inr (ok, st)) (checked api eh m n f)) (ora_execute api con h ty n'))" for ok eh m n f h ty n' and st :: "'a ost"
    by (intro settles_then settles_checked settles_Inr) (simp_all add: exec settles_checked)
  have "settles snd (snd ?r) (ora_query_text api con q st)"
    unfolding ora_query_text_def ora_failed_query_def Let_def case_prod_unfold
    by (intro settles_bind [OF settles_CHECKERR] settles_bind [OF run])
       (auto intro!: settles_bind [OF run [simplified]] settles_bind [OF settles_d_log] settles_Inr)
  then show ?thesis
    by (rule settles_oci)
qed

lemma ora_query_settles:
  assumes "ds_conns st c = Some sb" and "con_ptr sb = Some a" and "o_conns (ds_drv st) a = Some con"
  shows "settles snd st (ora_drv_query api c q rs st)"
proof -
  have "oconn_at (con_ptr sb) st = Inr con"
    using assms(2,3) by (simp add: oconn_at_def)
  then show ?thesis
    using assms(1) by (cases "get_stmt_type q")
      (simp_all add: ora_drv_query_def con_at_def ora_begin_def ora_commit_def settles_result settles_checked settles_query_text)
qed

lemma ora_query_same:
  assumes "ora_drv_query api c q rs st = Inr (e, st')"
  shows "layer_same st st'"
proof -
  obtain sb where sb: "ds_conns st c = Some sb"
    using assms by (cases "ds_conns st c") (simp_all add: ora_drv_query_def con_at_def)
  moreover from this obtain con where con: "oconn_at (con_ptr sb) st = Inr con"
    using assms by (cases "oconn_at (con_ptr sb) st") (simp_all add: ora_drv_query_def con_at_def)
  moreover from con obtain a where "con_ptr sb = Some a" "o_conns (ds_drv st) a = Some con"
    by (auto simp: oconn_at_def split: option.splits)
  ultimately show ?thesis
    using ora_query_settles [of st c sb a con api q rs] assms by (auto simp: settles_def)
qed

interpretation oracle_quiet: quiet_driver "oracle_ops fuel api" for fuel api
proof (unfold_locales)
  fix c q st e st'
  assume "drv_query (oracle_ops fuel api) c q c st = Inr (e, st')"
  then have "layer_same st st'"
    using ora_query_same by (simp add: oracle_ops_def)
  then show "con_kept c st st'"
    by (intro con_keptI) (simp_all add: layer_same_def)
qed

section \<open>Emulated statements\<close>

text \<open>
  (C15) The failure of an emulated statement is lost: whatever the library answers to its query, \<^verbatim>\<open>ora_drv_execute\<close> returns success after the text with the
  parameters put in place was built. \<^verbatim>\<open>db_execute\<close> then returns the result set, clears the error of the connection and counts the statement by its kind,
  so that neither an error nor a restart of the transaction is ever seen.
\<close>

theorem oracle_failure_unnoticed:
  assumes "attached drvs (oracle_ops fuel api) c st con" and "con_ptr con = Some a" and "o_conns (ds_drv st) a = Some oc"
    and "ds_stmts st s = Some stmt" and "st_connection stmt = Some c" and "st_emulated stmt" and "st_query stmt = Some query"
    and "st_bound_param stmt = Some ps" and "map (bind_text (ds_vars st)) ps = map Inr ts" and "length (filter (\<lambda>c. c = CHR ''?'') query) \<le> length ts"
    and "query \<noteq> []" and "length (substitute ts query) + 1 < 2 ^ 30" and "length query + 45 \<le> fuel" and "os_mem (pg_opts (ds_pg st)) = []"
    and "thread_stats st = Some tstats" and "0 \<le> con_thread_id con" and "logger_ready (pg_w (ds_pg st))"
  shows "\<exists>st'. db_execute drvs s st = Inr (Some c, st') \<and> db_errno c st' = Inr SB_DB_ERROR_NONE \<and>
           thread_stats st' = Some (tstats[nat (con_thread_id con) := count_query (st_type stmt) (tstats ! nat (con_thread_id con))])"
proof -
  have at: "ds_conns st c = Some con" "con_thread_id con < int (length tstats)"
    using assms(1,15) by (auto simp: attached_def)
  let ?con1 = "con\<lparr>con_rs := rs_zero\<lparr>rs_statement := Some s, rs_connection := Some c\<rparr>\<rparr>"
  let ?st1 = "st\<lparr>ds_conns := (ds_conns st)(c := Some ?con1)\<rparr>"
  have mem: "?st1\<lparr>ds_pg := set_opts ((pg_opts (ds_pg st))\<lparr>os_mem := []\<rparr>) (ds_pg st)\<rparr> = ?st1"
    using assms(14) by simp
  have sub: "emulate_query (ds_vars st) fuel (Some ps) query (os_mem (pg_opts (ds_pg st))) = Inr (Some (substitute ts query), [])"
    using emulate_query_text [OF assms(9-13)] assms(14) by simp
  have "settles snd ?st1 (ora_drv_query api c (substitute ts query) c ?st1)"
    using ora_query_settles [of ?st1 c ?con1 a oc] assms(2,3) by simp
  then obtain e st2 where st2: "ora_drv_query api c (substitute ts query) c ?st1 = Inr (e, st2)" "layer_same ?st1 st2"
    using assms(17) by (auto simp: settles_def)
  then have same: "ds_conns st2 = (ds_conns st)(c := Some ?con1)" "ds_stmts st2 s = Some stmt" "thread_stats st2 = Some tstats"
    using assms(4,15) by (simp_all add: layer_same_def)
  let ?st3 = "st2\<lparr>ds_conns := (ds_conns st)(c := Some (?con1\<lparr>con_errno := e\<rparr>))\<rparr>"
  have exec: "ora_drv_execute fuel api s c ?st1 = Inr (SB_DB_ERROR_NONE, ?st3)"
    using assms(2,4-8) mem sub st2(1) same(1) by (simp add: ora_drv_execute_def stmt_at_def con_at_def upd_con_def)
  let ?ts = "tstats[nat (con_thread_id con) := count_query (st_type stmt) (tstats ! nat (con_thread_id con))]"
  let ?st4 = "st2\<lparr>ds_conns := (ds_conns st)(c := Some (?con1\<lparr>con_errno := SB_DB_ERROR_NONE\<rparr>))\<rparr>"
  have count: "db_count_ok c (st_type stmt) ?st4 = Inr (?st4\<lparr>thread_stats := Some ?ts\<rparr>)"
    using same(3) at(2) assms(16) by (simp add: db_count_ok_def con_at_def db_update_thread_stats_def upd_stat_def)
  have "db_execute drvs s st = Inr (Some c, ?st4\<lparr>thread_stats := Some ?ts\<rparr>)"
    using attached_driver [OF assms(1)] at(1) assms(4,5) exec same(2) count
    by (simp add: db_execute_def stmt_at_def upd_rs_def upd_con_def con_at_def oracle_ops_def)
  then show ?thesis
    by (intro exI [of _ "?st4\<lparr>thread_stats := Some ?ts\<rparr>"]) (simp add: db_errno_def con_at_def)
qed

section \<open>Storing results\<close>

text \<open>
  What the library shows of a statement: the number of its columns, the rows not fetched yet, and the column each position was defined for. Handle \<open>h\<close> delivers its results
  when the descriptors of the columns are numbered from 1, all descriptions and definitions succeed, a name can be read up to its length or its end,
  and a fetch writes the next row to the columns defined, until there is no data.
\<close>

record oci_view =
  ov_cols :: nat
  ov_rows :: "(string \<times> int) list list"
  ov_defs :: "nat \<Rightarrow> elem option"

definition oci_answers :: "('m \<Rightarrow> oci_view) \<Rightarrow> 'm \<Rightarrow> (oci_status \<times> 'a) \<times> 'm \<Rightarrow> bool" where
  "oci_answers view m r \<longleftrightarrow> fst (fst r) = OCI_SUCCESS \<and> view (snd r) = view m"

definition oci_describes :: "'m oci_stmt_api \<Rightarrow> ('m \<Rightarrow> oci_view) \<Rightarrow> bool" where
  "oci_describes api view \<longleftrightarrow>
     (\<forall>p eh m. oci_answers view m (OCIAttrGet_type api p eh m)) \<and>
     (\<forall>p eh m. oci_answers view m (OCIAttrGet_name api p eh m)) \<and>
     (\<forall>p eh m rc name len m'. OCIAttrGet_name api p eh m = ((rc, name, len), m') \<longrightarrow> (\<exists>t. strncpy_text name (unat (len + 1)) = Inr t)) \<and>
     (\<forall>p eh m. oci_answers view m (OCIAttrGet_char_used api p eh m)) \<and>
     (\<forall>b p eh m. oci_answers view m (OCIAttrGet_size api b p eh m)) \<and>
     (\<forall>p m. view (OCIDescriptorFree api p m) = view m)"

definition oci_delivers :: "'m oci_stmt_api \<Rightarrow> ('m \<Rightarrow> oci_view) \<Rightarrow> nat option \<Rightarrow> bool" where
  "oci_delivers api view h \<longleftrightarrow> oci_describes api view \<and>
     (\<forall>eh i m rc p m'. OCIParamGet api h eh i m = ((rc, p), m') \<longrightarrow>
        view m' = view m \<and> (0 < i \<longrightarrow> (rc = OCI_SUCCESS) = (unat i \<le> ov_cols (view m)))) \<and>
     (\<forall>eh i e len ty m rc d m'. OCIDefineByPos api h eh i e len ty m = ((rc, d), m') \<longrightarrow>
        rc = OCI_SUCCESS \<and> view m' = (view m)\<lparr>ov_defs := (ov_defs (view m))(unat i \<mapsto> e)\<rparr>) \<and>
     (\<forall>eh m rc ws m'. OCIStmtFetch2 api h eh m = ((rc, ws), m') \<longrightarrow>
        (case ov_rows (view m) of
           [] \<Rightarrow> rc = OCI_NO_DATA \<and> ws = []
         | row # rows \<Rightarrow> rc = OCI_SUCCESS \<and> view m' = (view m)\<lparr>ov_rows := rows\<rparr> \<and>
             ws = map (\<lambda>k. (the (ov_defs (view m) (k + 1)), row ! k)) [0..<ov_cols (view m)]))"

text \<open>The states with a given result at an address and a given state of the library.\<close>

definition ost_with :: "'m ost \<Rightarrow> nat \<Rightarrow> ora_result_set_t \<Rightarrow> 'm \<Rightarrow> 'm ost" where
  "ost_with st a r m = st\<lparr>ds_drv := (ds_drv st)\<lparr>o_results := (o_results (ds_drv st))(a := Some r), o_lib := m\<rparr>\<rparr>"

lemma ost_with_simps [simp]:
  "oci_call f (ost_with st a r m) = (fst (f m), ost_with st a r (snd (f m)))"
  "oci_do g (ost_with st a r m) = ost_with st a r (g m)"
  "ors_at a (ost_with st a r m) = Inr r"
  "put_ors a (Some r') (ost_with st a r m) = ost_with st a r' m"
  "upd_ors a u (ost_with st a r m) = Inr (ost_with st a (u r) m)"
  "k < length (ors_columns r) \<Longrightarrow>
     upd_column a k v (ost_with st a r m) = Inr (ost_with st a (r\<lparr>ors_columns := (ors_columns r)[k := v (ors_columns r ! k)]\<rparr>) m)"
  "os_mem (pg_opts (ds_pg st)) = [] \<Longrightarrow> d_malloc (ost_with st a r m) = (True, ost_with st a r m)"
  by (simp_all add: ost_with_def oci_call_def oci_do_def upd_o_def ors_at_def put_ors_def upd_ors_def upd_column_def d_malloc_def case_prod_unfold)

lemma CHECKERR_success [simp]: "CHECKERR api eh t n OCI_SUCCESS st = Inr (True, st)" "oci_then (Inr (True, st)) f = f st"
  by (simp_all add: CHECKERR_def oci_then_def)

lemma oci_answersE: "oci_answers view m r \<Longrightarrow> \<exists>x m'. r = ((OCI_SUCCESS, x), m') \<and> view m' = view m"
  by (cases r) (auto simp: oci_answers_def)

lemma ora_column_added:
  assumes "oci_delivers (oci_st api) view h" and "os_mem (pg_opts (ds_pg st)) = []"
  shows "\<exists>col m'. ora_column api h eh a i parm (ost_with st a r m) = Inr (True, ost_with st a (r\<lparr>ors_columns := ors_columns r @ [col]\<rparr>) m') \<and>
           oc_value col = Some None \<and> view m' = (view m)\<lparr>ov_defs := (ov_defs (view m))(unat i \<mapsto> (a, length (ors_columns r)))\<rparr>"
proof -
  let ?S = "oci_st api" and ?k = "length (ors_columns r)"
  have desc: "oci_describes ?S view"
    using assms(1) by (simp add: oci_delivers_def)
  then have ans: "oci_answers view m (OCIAttrGet_type ?S p eh m)" "oci_answers view m (OCIAttrGet_name ?S p eh m)"
      "oci_answers view m (OCIAttrGet_char_used ?S p eh m)" "oci_answers view m (OCIAttrGet_size ?S b p eh m)"
      "view (OCIDescriptorFree ?S p m) = view m" for p eh m b
    by (simp_all add: oci_describes_def)
  have names: "\<forall>p eh m rc name len m'. OCIAttrGet_name ?S p eh m = ((rc, name, len), m') \<longrightarrow> (\<exists>t. strncpy_text name (unat (len + 1)) = Inr t)"
    using desc by (simp add: oci_describes_def)
  obtain ty m1 where c1: "OCIAttrGet_type ?S parm eh m = ((OCI_SUCCESS, ty), m1)" "view m1 = view m"
    using oci_answersE [OF ans(1)] by blast
  obtain x m2 where "OCIAttrGet_name ?S parm eh m1 = ((OCI_SUCCESS, x), m2)" "view m2 = view m1"
    using oci_answersE [OF ans(2)] by blast
  then obtain name len where c2: "OCIAttrGet_name ?S parm eh m1 = ((OCI_SUCCESS, name, len), m2)" "view m2 = view m1"
    by (cases x) blast
  obtain t where t: "strncpy_text name (unat (len + 1)) = Inr t"
    using names [rule_format, OF c2(1)] by blast
  obtain sem m3 where c3: "OCIAttrGet_char_used ?S parm eh m2 = ((OCI_SUCCESS, sem), m3)" "view m3 = view m2"
    using oci_answersE [OF ans(3)] by blast
  obtain w m4 where c4: "OCIAttrGet_size ?S (sem \<noteq> 0) parm eh m3 = ((OCI_SUCCESS, w), m4)" "view m4 = view m3"
    using oci_answersE [OF ans(4)] by blast
  let ?m5 = "OCIDescriptorFree ?S parm m4"
  have c5: "view ?m5 = view m4"
    by (rule ans(5))
  let ?w = "if w = 0 then word_of_int (get_oracle_type_size (oci_types_of ?S) ty) else w"
  obtain rc d m6 where d: "OCIDefineByPos ?S h eh i (a, ?k) ?w ty ?m5 = ((rc, d), m6)"
    by (metis surj_pair)
  have "\<forall>eh i e len ty m rc d m'. OCIDefineByPos ?S h eh i e len ty m = ((rc, d), m') \<longrightarrow>
        rc = OCI_SUCCESS \<and> view m' = (view m)\<lparr>ov_defs := (ov_defs (view m))(unat i \<mapsto> e)\<rparr>"
    using assms(1) by (simp add: oci_delivers_def)
  then have c6: "OCIDefineByPos ?S h eh i (a, ?k) ?w ty ?m5 = ((OCI_SUCCESS, d), m6)"
      "view m6 = (view ?m5)\<lparr>ov_defs := (ov_defs (view ?m5))(unat i \<mapsto> (a, ?k))\<rparr>"
    using d by blast+
  let ?col = "\<lparr>oc_type = ty, oc_name = Some t, oc_len = ?w, oc_defhp = d, oc_value = Some None, oc_ind = 0\<rparr>"
  have "ora_column api h eh a i parm (ost_with st a r m) = Inr (True, ost_with st a (r\<lparr>ors_columns := ors_columns r @ [?col]\<rparr>) m6)"
    using assms(2) c1(1) c2(1) t c3(1) c4(1) c6(1)
    by (cases "w = 0")
       (simp_all add: ora_column_def ora_column_type_def ora_column_name_def ora_column_len_def ora_column_define_def column_zero_def nth_append Let_def)
  then show ?thesis
    using c1(2) c2(2) c3(2) c4(2) c5 c6(2) by (intro exI [of _ ?col] exI [of _ m6]) simp
qed

lemma ora_param:
  assumes "oci_delivers api view h" and "OCIParamGet api h eh (of_nat (k + 1)) m = ((rc, p), m')" and "k + 1 < 2 ^ 32"
  shows "view m' = view m" "(rc = OCI_SUCCESS) = (k + 1 \<le> ov_cols (view m))"
proof -
  have "unat (of_nat (k + 1) :: u32) = k + 1"
    using assms(3) by (intro unat_of_nat_u32) simp
  moreover from this have "0 < (of_nat (k + 1) :: u32)"
    by (simp add: word_less_nat_alt)
  moreover have "\<forall>eh i m rc p m'. OCIParamGet api h eh i m = ((rc, p), m') \<longrightarrow>
        view m' = view m \<and> (0 < i \<longrightarrow> (rc = OCI_SUCCESS) = (unat i \<le> ov_cols (view m)))"
    using assms(1) by (simp add: oci_delivers_def)
  ultimately show "view m' = view m" "(rc = OCI_SUCCESS) = (k + 1 \<le> ov_cols (view m))"
    using assms(2) by metis+
qed

lemma ora_columns_added:
  assumes "oci_delivers (oci_st api) view h" and "os_mem (pg_opts (ds_pg st)) = []"
  shows "length (ors_columns r) \<le> ov_cols (view m) \<Longrightarrow> ov_cols (view m) - length (ors_columns r) \<le> fuel \<Longrightarrow> ov_cols (view m) + 1 < 2 ^ 32 \<Longrightarrow>
     \<forall>j<length (ors_columns r). ov_defs (view m) (j + 1) = Some (a, j) \<and> oc_value (ors_columns r ! j) \<noteq> None \<Longrightarrow>
     \<exists>cs m'. ora_columns fuel api h eh a (of_nat (length (ors_columns r) + 1)) (ost_with st a r m) =
         Inr ((True, of_nat (ov_cols (view m) + 1)), ost_with st a (r\<lparr>ors_columns := cs\<rparr>) m') \<and>
       length cs = ov_cols (view m) \<and> ov_cols (view m') = ov_cols (view m) \<and> ov_rows (view m') = ov_rows (view m) \<and>
       (\<forall>j<ov_cols (view m). ov_defs (view m') (j + 1) = Some (a, j) \<and> oc_value (cs ! j) \<noteq> None)"
proof (induction fuel arbitrary: r m)
  case (0 r m)
  obtain rc p m1 where p: "OCIParamGet (oci_st api) h eh (of_nat (length (ors_columns r) + 1)) m = ((rc, p), m1)"
    by (metis surj_pair)
  have v1: "view m1 = view m" "(rc = OCI_SUCCESS) = (length (ors_columns r) + 1 \<le> ov_cols (view m))"
    using ora_param [OF assms(1) p] 0(1,3) by simp_all
  then have "rc \<noteq> OCI_SUCCESS"
    using 0(2) by simp
  then show ?case
    using 0 p v1(1) by (intro exI [of _ "ors_columns r"] exI [of _ m1]) (simp add: ora_columns.simps)
next
  case (Suc fuel r m)
  let ?k = "length (ors_columns r)"
  obtain rc p m1 where p: "OCIParamGet (oci_st api) h eh (of_nat (?k + 1)) m = ((rc, p), m1)"
    by (metis surj_pair)
  have n: "unat (of_nat (?k + 1) :: u32) = ?k + 1"
    using Suc.prems(1,3) by (intro unat_of_nat_u32) simp
  have v1: "view m1 = view m" "(rc = OCI_SUCCESS) = (?k + 1 \<le> ov_cols (view m))"
    using ora_param [OF assms(1) p] Suc.prems(1,3) by simp_all
  show ?case
  proof (cases "?k + 1 \<le> ov_cols (view m)")
    case False
    then have k: "ov_cols (view m) = ?k"
      using Suc.prems(1) by simp
    show ?thesis
      unfolding k using Suc.prems(1,4) p v1 False k by (intro exI [of _ "ors_columns r"] exI [of _ m1]) (simp add: ora_columns.simps)
  next
    case True
    obtain col m2 where col: "ora_column api h eh a (of_nat (?k + 1)) p (ost_with st a r m1) = Inr (True, ost_with st a (r\<lparr>ors_columns := ors_columns r @ [col]\<rparr>) m2)"
        "oc_value col = Some None" "view m2 = (view m1)\<lparr>ov_defs := (ov_defs (view m1))(?k + 1 \<mapsto> (a, ?k))\<rparr>"
      using ora_column_added [OF assms, of eh a "of_nat (?k + 1)" p r m1] n by auto
    let ?r2 = "r\<lparr>ors_columns := ors_columns r @ [col]\<rparr>"
    have view2: "ov_cols (view m2) = ov_cols (view m)" "ov_rows (view m2) = ov_rows (view m)"
      using col(3) v1(1) by simp_all
    then have bounds: "length (ors_columns ?r2) \<le> ov_cols (view m2)" "ov_cols (view m2) - length (ors_columns ?r2) \<le> fuel" "ov_cols (view m2) + 1 < 2 ^ 32"
      using Suc.prems(2,3) True by simp_all
    have inv: "\<forall>j<length (ors_columns ?r2). ov_defs (view m2) (j + 1) = Some (a, j) \<and> oc_value (ors_columns ?r2 ! j) \<noteq> None"
      using Suc.prems(4) col(2,3) v1(1) by (auto simp: nth_append less_Suc_eq)
    obtain cs m' where cs: "ora_columns fuel api h eh a (of_nat (length (ors_columns ?r2) + 1)) (ost_with st a ?r2 m2) =
          Inr ((True, of_nat (ov_cols (view m) + 1)), ost_with st a (?r2\<lparr>ors_columns := cs\<rparr>) m')"
        "length cs = ov_cols (view m)" "ov_cols (view m') = ov_cols (view m)" "ov_rows (view m') = ov_rows (view m)"
        "\<forall>j<ov_cols (view m). ov_defs (view m') (j + 1) = Some (a, j) \<and> oc_value (cs ! j) \<noteq> None"
      using Suc.IH [OF bounds inv] unfolding view2 by blast
    have "ora_columns (Suc fuel) api h eh a (of_nat (?k + 1)) (ost_with st a r m) =
        ora_columns fuel api h eh a (of_nat (length (ors_columns ?r2) + 1)) (ost_with st a ?r2 m2)"
      using p v1(2) True col(1) by (subst ora_columns.simps) (simp add: add.commute)
    then show ?thesis
      using cs by (intro exI [of _ cs] exI [of _ m']) simp
  qed
qed

text \<open>A row that is fetched: the columns hold it afterwards, and it is copied.\<close>

lemma ora_write_row:
  "n \<le> length (ors_columns r) \<Longrightarrow> \<forall>j<length (ors_columns r). oc_value (ors_columns r ! j) \<noteq> None \<Longrightarrow>
   \<exists>cs. rfold ora_write (map (\<lambda>k. ((a, k), row ! k)) [0..<n]) (ost_with st a r m) = Inr (ost_with st a (r\<lparr>ors_columns := cs\<rparr>) m) \<and>
     length cs = length (ors_columns r) \<and> (\<forall>j<length cs. oc_value (cs ! j) \<noteq> None) \<and>
     (\<forall>j<n. oc_value (cs ! j) = Some (Some (fst (row ! j))) \<and> oc_ind (cs ! j) = snd (row ! j))"
proof (induction n)
  case 0
  then show ?case
    by (intro exI [of _ "ors_columns r"]) simp
next
  case (Suc n)
  then obtain cs where cs: "rfold ora_write (map (\<lambda>k. ((a, k), row ! k)) [0..<n]) (ost_with st a r m) = Inr (ost_with st a (r\<lparr>ors_columns := cs\<rparr>) m)"
      "length cs = length (ors_columns r)" "\<forall>j<length cs. oc_value (cs ! j) \<noteq> None"
      "\<forall>j<n. oc_value (cs ! j) = Some (Some (fst (row ! j))) \<and> oc_ind (cs ! j) = snd (row ! j)"
    by auto
  let ?cs = "cs[n := (cs ! n)\<lparr>oc_value := Some (Some (fst (row ! n))), oc_ind := snd (row ! n)\<rparr>]"
  have "ora_write ((a, n), row ! n) (ost_with st a (r\<lparr>ors_columns := cs\<rparr>) m) = Inr (ost_with st a (r\<lparr>ors_columns := ?cs\<rparr>) m)"
    using Suc.prems(1) cs(2,3) by (simp add: ora_write_def case_prod_unfold)
  then have "rfold ora_write (map (\<lambda>k. ((a, k), row ! k)) [0..<Suc n]) (ost_with st a r m) = Inr (ost_with st a (r\<lparr>ors_columns := ?cs\<rparr>) m)"
    using cs(1) by (simp add: rfold_append)
  then show ?case
    using Suc.prems(1) cs(2-4) by (intro exI [of _ ?cs]) (auto simp: nth_list_update less_Suc_eq)
qed

lemma ora_copy_row_all:
  assumes "os_mem (pg_opts (ds_pg st)) = []"
  shows "\<forall>c\<in>set cs. oc_value c \<noteq> None \<Longrightarrow>
     ora_copy_row cs (Some ds) (ost_with st a r m) = Inr ((True, Some (ds @ map (\<lambda>c. (the (oc_value c), oc_ind c)) cs)), ost_with st a r m)"
  using assms by (induction cs arbitrary: ds) auto

definition stored_row :: "(string \<times> int) list \<Rightarrow> ora_row_t" where
  "stored_row row = \<lparr>or_data = Some (map (\<lambda>(v, ind). (Some v, ind)) row)\<rparr>"

lemma ora_rows_stored:
  assumes "oci_delivers (oci_st api) view h" and "os_mem (pg_opts (ds_pg st)) = []"
  shows "ov_rows (view m) = rows \<Longrightarrow> length rows < fuel \<Longrightarrow> \<forall>row\<in>set rows. length row = ov_cols (view m) \<Longrightarrow>
     length (ors_columns r) = ov_cols (view m) \<Longrightarrow> \<forall>j<ov_cols (view m). ov_defs (view m) (j + 1) = Some (a, j) \<and> oc_value (ors_columns r ! j) \<noteq> None \<Longrightarrow>
     \<exists>cs m'. ora_rows fuel api h eh a (ost_with st a r m) =
       Inr (True, ost_with st a (r\<lparr>ors_columns := cs, ors_rows := ors_rows r @ map stored_row rows, ors_nrows := ors_nrows r + of_nat (length rows)\<rparr>) m')"
proof (induction rows arbitrary: fuel r m)
  case Nil
  obtain n where n: "fuel = Suc n"
    using Nil(2) by (cases fuel) auto
  obtain rc ws m1 where f: "OCIStmtFetch2 (oci_st api) h eh m = ((rc, ws), m1)"
    by (metis surj_pair)
  then have "case ov_rows (view m) of
           [] \<Rightarrow> rc = OCI_NO_DATA \<and> ws = []
         | row # rows \<Rightarrow> rc = OCI_SUCCESS \<and> view m1 = (view m)\<lparr>ov_rows := rows\<rparr> \<and>
             ws = map (\<lambda>k. (the (ov_defs (view m) (k + 1)), row ! k)) [0..<ov_cols (view m)]"
    using assms(1) unfolding oci_delivers_def by blast
  then have "rc = OCI_NO_DATA" "ws = []"
    using Nil(1) by simp_all
  then show ?case
    using f n by (intro exI [of _ "ors_columns r"] exI [of _ m1]) simp
next
  case (Cons row rows)
  obtain n where n: "fuel = Suc n" "length rows < n"
    using Cons.prems(2) by (cases fuel) auto
  obtain rc ws m1 where f: "OCIStmtFetch2 (oci_st api) h eh m = ((rc, ws), m1)"
    by (metis surj_pair)
  then have "case ov_rows (view m) of
           [] \<Rightarrow> rc = OCI_NO_DATA \<and> ws = []
         | row # rows \<Rightarrow> rc = OCI_SUCCESS \<and> view m1 = (view m)\<lparr>ov_rows := rows\<rparr> \<and>
             ws = map (\<lambda>k. (the (ov_defs (view m) (k + 1)), row ! k)) [0..<ov_cols (view m)]"
    using assms(1) unfolding oci_delivers_def by blast
  then have rc: "rc = OCI_SUCCESS" and v1: "view m1 = (view m)\<lparr>ov_rows := rows\<rparr>"
    and "ws = map (\<lambda>k. (the (ov_defs (view m) (k + 1)), row ! k)) [0..<ov_cols (view m)]"
    using Cons.prems(1) by simp_all
  then have ws: "ws = map (\<lambda>k. ((a, k), row ! k)) [0..<ov_cols (view m)]"
    using Cons.prems(5) by simp
  obtain cs where cs: "rfold ora_write ws (ost_with st a r m1) = Inr (ost_with st a (r\<lparr>ors_columns := cs\<rparr>) m1)"
      "length cs = ov_cols (view m)" "\<forall>j<length cs. oc_value (cs ! j) \<noteq> None"
      "\<forall>j<ov_cols (view m). oc_value (cs ! j) = Some (Some (fst (row ! j))) \<and> oc_ind (cs ! j) = snd (row ! j)"
    using ora_write_row [of "ov_cols (view m)" r a row st m1] Cons.prems(4,5) ws by auto
  have "map (\<lambda>c. (the (oc_value c), oc_ind c)) cs = map (\<lambda>(v, ind). (Some v, ind)) row"
    using cs(2,4) Cons.prems(3) by (intro nth_equalityI) (simp_all add: case_prod_unfold)
  moreover have "\<forall>c\<in>set cs. oc_value c \<noteq> None"
    using cs(3) by (auto simp: in_set_conv_nth)
  ultimately have copy: "ora_copy_row cs (Some []) (ost_with st a r' m1) = Inr ((True, or_data (stored_row row)), ost_with st a r' m1)" for r'
    using ora_copy_row_all [OF assms(2), of cs "[]" a r' m1] by (simp add: stored_row_def)
  let ?r1 = "r\<lparr>ors_columns := cs, ors_rows := ors_rows r @ [stored_row row], ors_nrows := ors_nrows r + 1\<rparr>"
  have step: "ora_rows fuel api h eh a (ost_with st a r m) = ora_rows n api h eh a (ost_with st a ?r1 m1)"
    using n(1) f rc cs(1) copy assms(2) by (simp add: stored_row_def)
  obtain cs' m' where "ora_rows n api h eh a (ost_with st a ?r1 m1) =
       Inr (True, ost_with st a (?r1\<lparr>ors_columns := cs', ors_rows := ors_rows ?r1 @ map stored_row rows, ors_nrows := ors_nrows ?r1 + of_nat (length rows)\<rparr>) m')"
    using Cons.IH [of m1 n ?r1] Cons.prems(3,5) n(2) v1 cs(2,3) by auto
  then show ?case
    unfolding step by (intro exI [of _ cs'] exI [of _ m']) (simp add: algebra_simps)
qed

text \<open>
  (C14) Storing the results of a prepared statement reads them completely: with one round for each column and each row, both loops end, the result set holds the rows the library
  delivered, in order and column by column with their indicators, \<^verbatim>\<open>ora_drv_num_rows\<close> is their number, and \<^verbatim>\<open>ora_drv_free_results\<close> releases the result.
\<close>

theorem oracle_rows_stored:
  assumes "oci_delivers (oci_st api) view (ora_ptr ostmt)" and "ds_conns st c = Some con" and "rs_statement (con_rs con) = Some s"
    and "rs_connection (con_rs con) = Some c" and "rs_ptr (con_rs con) = None" and "ds_stmts st s = Some stmt" and "st_ptr stmt = Some b"
    and "o_stmts (ds_drv st) b = Some ostmt" and "con_ptr con = Some a" and "o_conns (ds_drv st) a = Some oc" and "os_mem (pg_opts (ds_pg st)) = []"
    and "view (olib st) = \<lparr>ov_cols = n, ov_rows = rows, ov_defs = defs\<rparr>" and "\<forall>row\<in>set rows. length row = n"
    and "n \<le> fuel" and "length rows < fuel" and "n + 1 < 2 ^ 32" and "length rows < 2 ^ 32"
  shows "\<exists>st1 st2 r. ora_drv_store_results fuel api c st = Inr (SB_DB_ERROR_NONE, st1) \<and> o_results (ds_drv st1) (ds_next st) = Some r \<and>
           ors_rows r = map stored_row rows \<and> ora_drv_num_rows c st1 = Inr (of_nat (length rows), st1) \<and>
           ora_drv_free_results c st1 = Inr (0, st2) \<and> o_results (ds_drv st2) (ds_next st) = None"
proof -
  let ?a = "ds_next st" and ?h = "ora_ptr ostmt" and ?eh = "errhp oc"
  let ?con1 = "con\<lparr>con_rs := (con_rs con)\<lparr>rs_ptr := Some ?a\<rparr>\<rparr>"
  let ?st0 = "st\<lparr>ds_conns := (ds_conns st)(c := Some ?con1), ds_next := ?a + 1\<rparr>"
  have mal: "d_malloc st = (True, st)" and mem: "os_mem (pg_opts (ds_pg ?st0)) = []"
    using assms(11) by (simp_all add: d_malloc_def)
  have opened: "upd_rs c (\<lambda>r. r\<lparr>rs_ptr := Some ?a\<rparr>) (put_ors ?a (Some ors_zero) (st\<lparr>ds_next := ?a + 1\<rparr>)) = Inr (ost_with ?st0 ?a ors_zero (olib st))"
    using assms(2) by (simp add: upd_rs_def upd_con_def con_at_def put_ors_def upd_o_def ost_with_def)
  obtain cs m1 where cols: "ora_columns fuel api ?h ?eh ?a 1 (ost_with ?st0 ?a ors_zero (olib st)) =
        Inr ((True, of_nat (n + 1)), ost_with ?st0 ?a (ors_zero\<lparr>ors_columns := cs\<rparr>) m1)"
      "length cs = n" "ov_cols (view m1) = n" "ov_rows (view m1) = rows" "\<forall>j<n. ov_defs (view m1) (j + 1) = Some (?a, j) \<and> oc_value (cs ! j) \<noteq> None"
    using ora_columns_added [OF assms(1) mem, of ors_zero "olib st" fuel ?a ?eh] assms(12,14,16) by (auto simp: ors_zero_def)
  let ?r1 = "ors_zero\<lparr>ors_columns := cs, ors_ncolumns := of_nat n\<rparr>"
  obtain cs' m2 where rows: "ora_rows fuel api ?h ?eh ?a (ost_with ?st0 ?a ?r1 m1) =
       Inr (True, ost_with ?st0 ?a (?r1\<lparr>ors_columns := cs', ors_rows := ors_rows ?r1 @ map stored_row rows, ors_nrows := ors_nrows ?r1 + of_nat (length rows)\<rparr>) m2)"
    using ora_rows_stored [OF assms(1) mem cols(4) assms(15), of ?r1 ?a ?eh] cols(2,3,5) assms(13) by auto
  let ?r2 = "?r1\<lparr>ors_columns := cs', ors_rows := ors_rows ?r1 @ map stored_row rows, ors_nrows := ors_nrows ?r1 + of_nat (length rows)\<rparr>"
  let ?st1 = "ost_with ?st0 ?a ?r2 m2"
  have here: "oconn_at (Some a) (ost_with ?st0 ?a r m) = Inr oc" "ostmt_at (Some b) (ost_with ?st0 ?a r m) = Inr ostmt" for r m
    using assms(8,10) by (simp_all add: oconn_at_def ostmt_at_def ost_with_def)
  have store: "ora_drv_store_results fuel api c st = Inr (SB_DB_ERROR_NONE, ?st1)"
    using assms(2-7,9) mal opened cols(1) rows here by (simp add: ora_drv_store_results_def con_at_def stmt_at_def Let_def)
  have con1: "con_at c (ost_with (st\<lparr>ds_conns := (ds_conns st)(c := Some ?con1), ds_next := i\<rparr>) j r m) = Inr ?con1" for i j r m
    by (simp add: con_at_def ost_with_def)
  have nrows: "ucast (of_nat (length rows) :: u32) = (of_nat (length rows) :: u64)"
    using assms(17) by (simp add: unsigned_of_nat take_bit_nat_eq_self)
  have num: "ora_drv_num_rows c ?st1 = Inr (of_nat (length rows), ?st1)"
    using nrows by (simp add: ora_drv_num_rows_def con1 ors_zero_def)
  have "unat (of_nat n :: u32) = n"
    using assms(16) by (intro unat_of_nat_u32) simp
  then have "ora_drv_free_results c ?st1 = Inr (0, put_ors ?a None ?st1)"
    using assms(13) by (auto simp: ora_drv_free_results_def con1 ors_zero_def stored_row_def list_all_iff)
  moreover have "o_results (ds_drv ?st1) ?a = Some ?r2" "ors_rows ?r2 = map stored_row rows" "o_results (ds_drv (put_ors ?a None ?st1)) ?a = None"
    by (simp_all add: ost_with_def ors_zero_def put_ors_def upd_o_def)
  ultimately show ?thesis
    using store num by blast
qed

section \<open>Prepared statements\<close>

text \<open>
  What the library keeps of statement \<open>h\<close>: the variables bound to its positions, and the values sent by its executions, which are read through the pointers at that time.
  Indicators that have been released, which does not occur below, count as NULL.
\<close>

datatype oci_value = Sent_null | Sent "bind_data option" int "16 word"

type_synonym oci_bound = "nat option \<times> int \<times> 16 word \<times> elem"

definition oci_value_of :: "vars \<Rightarrow> indicators \<Rightarrow> oci_bound \<Rightarrow> oci_value" where
  "oci_value_of vars inds b =
     (case b of (p, len, ty, a, i) \<Rightarrow>
        if inds a = None \<or> the (inds a) ! i = Some (- 1) then Sent_null else Sent (Option.bind p vars) len ty)"

definition oci_records ::
  "'m oci_stmt_api \<Rightarrow> ('m \<Rightarrow> nat \<Rightarrow> oci_bound option) \<Rightarrow> ('m \<Rightarrow> (nat \<Rightarrow> oci_value option) list) \<Rightarrow> nat option \<Rightarrow> bool" where
  "oci_records api bound executed h \<longleftrightarrow>
     (\<forall>bindp eh i p len ty e m rc x m'. OCIBindByPos api h bindp eh i p len ty e m = ((rc, x), m') \<longrightarrow>
        rc = OCI_SUCCESS \<and> bound m' = (bound m)(unat i \<mapsto> (p, len, ty, e)) \<and> executed m' = executed m) \<and>
     (\<forall>svc eh n vars inds m rc m'. OCIStmtExecute api svc h eh n vars inds m = (rc, m') \<longrightarrow>
        rc = OCI_SUCCESS \<and> executed m' = executed m @ [\<lambda>i. map_option (oci_value_of vars inds) (bound m i)])"

definition obind_with :: "'m ost \<Rightarrow> nat \<Rightarrow> int option list \<Rightarrow> 'm \<Rightarrow> 'm ost" where
  "obind_with st a inds m = st\<lparr>ds_drv := (ds_drv st)\<lparr>o_binds := (o_binds (ds_drv st))(a := Some inds), o_lib := m\<rparr>\<rparr>"

lemma obind_with_simps [simp]:
  "oci_call f (obind_with st a inds m) = (fst (f m), obind_with st a inds (snd (f m)))"
  "put_obind a (Some inds') (obind_with st a inds m) = obind_with st a inds' m"
  "o_binds (ds_drv (obind_with st a inds m)) a = Some inds"
  "ds_vars (obind_with st a inds m) = ds_vars st"
  "oconn_at p (obind_with st a inds m) = oconn_at p st"
  by (simp_all add: obind_with_def oci_call_def upd_o_def put_obind_def oconn_at_def case_prod_unfold split: option.splits)

lemma bind_type_indicator:
  "get_oracle_bind_type T vars p = Inr (Some t) \<Longrightarrow> snd (snd t) = (if b_is_null p \<noteq> None then - 1 else 0)"
  by (auto simp: get_oracle_bind_type_def rbind_eq_Inr split: option.splits)

lemma ora_bind_loop_binds:
  assumes "oci_records (oci_st api) bound executed h" and "oconn_at p st = Inr con" and "length ps < 2 ^ 32 - 1" and "length ts = length ps"
    and "\<forall>i<length ps. get_oracle_bind_type (oci_types_of (oci_st api)) (ds_vars st) (ps ! i) = Inr (Some (ts ! i))"
  shows "n = length ps - k \<Longrightarrow> k \<le> length ps \<Longrightarrow> length inds = length ps \<Longrightarrow>
     \<exists>inds' m'. ora_bind_loop api h p a ps [k..<length ps] bindp (obind_with st a inds m) = Inr (True, obind_with st a inds' m') \<and>
       executed m' = executed m \<and> length inds' = length ps \<and> (\<forall>i<k. inds' ! i = inds ! i \<and> bound m' (i + 1) = bound m (i + 1)) \<and>
       (\<forall>i<length ps. k \<le> i \<longrightarrow> inds' ! i = Some (snd (snd (ts ! i))) \<and>
          bound m' (i + 1) = Some (b_buffer (ps ! i), fst (snd (ts ! i)), fst (ts ! i), a, i))"
proof (induction n arbitrary: k inds bindp m)
  case 0
  then show ?case
    by (intro exI [of _ inds] exI [of _ m]) simp
next
  case (Suc n)
  then have k: "k < length ps" "[k..<length ps] = k # [Suc k..<length ps]"
    by (simp_all add: upt_conv_Cons)
  obtain dtype dlen ind where t: "ts ! k = (dtype, dlen, ind)"
    by (metis surj_pair)
  obtain rc x m1 where c: "OCIBindByPos (oci_st api) h bindp (errhp con) (of_nat k + 1) (b_buffer (ps ! k)) dlen dtype (a, k) m = ((rc, x), m1)"
    by (metis surj_pair)
  have "unat (of_nat (k + 1) :: u32) = k + 1"
    using assms(3) k(1) by (intro unat_of_nat_u32) simp
  then have u: "unat (of_nat k + 1 :: u32) = k + 1"
    by (simp add: add.commute)
  have "\<forall>bindp eh i p len ty e m rc x m'. OCIBindByPos (oci_st api) h bindp eh i p len ty e m = ((rc, x), m') \<longrightarrow>
        rc = OCI_SUCCESS \<and> bound m' = (bound m)(unat i \<mapsto> (p, len, ty, e)) \<and> executed m' = executed m"
    using assms(1) by (simp add: oci_records_def)
  then have ok: "rc = OCI_SUCCESS" "bound m1 = (bound m)(k + 1 \<mapsto> (b_buffer (ps ! k), dlen, dtype, a, k))" "executed m1 = executed m"
    using c u by force+
  let ?inds = "inds[k := Some ind]"
  have step: "ora_bind_loop api h p a ps [k..<length ps] bindp (obind_with st a inds m) =
      ora_bind_loop api h p a ps [Suc k..<length ps] x (obind_with st a ?inds m1)"
    using assms(2) assms(5) [rule_format, OF k(1)] k c ok(1) t by simp
  have prems: "n = length ps - Suc k" "Suc k \<le> length ps" "length ?inds = length ps"
    using Suc.prems(1,3) k(1) by simp_all
  obtain inds' m' where rest: "ora_bind_loop api h p a ps [Suc k..<length ps] x (obind_with st a ?inds m1) = Inr (True, obind_with st a inds' m')"
      "executed m' = executed m1" "length inds' = length ps" "\<forall>i<Suc k. inds' ! i = ?inds ! i \<and> bound m' (i + 1) = bound m1 (i + 1)"
      "\<forall>i<length ps. Suc k \<le> i \<longrightarrow> inds' ! i = Some (snd (snd (ts ! i))) \<and>
          bound m' (i + 1) = Some (b_buffer (ps ! i), fst (snd (ts ! i)), fst (ts ! i), a, i)"
    using Suc.IH [OF prems] by blast
  have "\<forall>i<k. inds' ! i = inds ! i \<and> bound m' (i + 1) = bound m (i + 1)"
    using rest(4) ok(2) by (simp add: less_Suc_eq)
  moreover have "inds' ! k = Some (snd (snd (ts ! k))) \<and> bound m' (k + 1) = Some (b_buffer (ps ! k), fst (snd (ts ! k)), fst (ts ! k), a, k)"
    using rest(4) ok(2) t k(1) Suc.prems(3) by simp
  ultimately show ?case
    using rest(1-3,5) step ok(3) by (intro exI [of _ inds'] exI [of _ m']) (auto simp: Suc_le_eq le_less)
qed

text \<open>
  What an execution of a prepared statement sends is fixed when its parameters are bound: a parameter with a NULL flag is NULL in every execution, whatever the
  flag says, since \<^verbatim>\<open>get_oracle_bind_type\<close> tests the pointer to it; for the others the library reads the variable as it is when the statement is
  executed, but a string with the length it had when it was bound.
\<close>

lemma oracle_flag_means_null:
  assumes "oci_records (oci_st api) bound executed (ora_ptr ostmt)" and "ora_ptr ostmt = Some h" and "ds_stmts st s = Some stmt" and "st_connection stmt = Some c"
    and "\<not> st_emulated stmt" and "st_ptr stmt = Some b" and "o_stmts (ds_drv st) b = Some ostmt" and "ora_params ostmt = None"
    and "ora_type ostmt \<in> {STMT_TYPE_SELECT, STMT_TYPE_UPDATE}" and "ds_conns st c = Some con" and "con_ptr con = Some a" and "o_conns (ds_drv st) a = Some oc"
    and "os_mem (pg_opts (ds_pg st)) = []" and "length ps < 2 ^ 32 - 1"
    and "list_all2 (\<lambda>p t. get_oracle_bind_type (oci_types_of (oci_st api)) (ds_vars st) p = Inr (Some t)) ps ts"
  shows "\<exists>st1 st2 row. ora_drv_bind_param api s ps (of_nat (length ps)) st = Inr (0, st1) \<and>
           ora_drv_execute fuel api s rs (st1\<lparr>ds_vars := vars\<rparr>) = Inr (SB_DB_ERROR_NONE, st2) \<and> executed (olib st2) = executed (olib st) @ [row] \<and>
           (\<forall>i<length ps. row (i + 1) =
              Some (if b_is_null (ps ! i) \<noteq> None then Sent_null else Sent (Option.bind (b_buffer (ps ! i)) vars) (fst (snd (ts ! i))) (fst (ts ! i))))"
proof -
  let ?a = "ds_next st"
  have types: "length ts = length ps" "\<forall>i<length ps. get_oracle_bind_type (oci_types_of (oci_st api)) (ds_vars st) (ps ! i) = Inr (Some (ts ! i))"
    using assms(15) by (auto simp: list_all2_conv_all_nth)
  have ind: "snd (snd (ts ! i)) = (if b_is_null (ps ! i) \<noteq> None then - 1 else 0)" if "i < length ps" for i
    using types(2) [rule_format, OF that] by (rule bind_type_indicator)
  have n: "unat (of_nat (length ps) :: u32) = length ps"
    using assms(14) by (intro unat_of_nat_u32) simp
  let ?st0 = "put_ostmt b (Some (ostmt\<lparr>ora_params := Some ?a\<rparr>)) (st\<lparr>ds_next := ?a + 1\<rparr>)"
  have frame: "ds_vars ?st0 = ds_vars st" "oconn_at (Some a) ?st0 = Inr oc"
    using assms(12) by (simp_all add: put_ostmt_def upd_o_def oconn_at_def)
  have types0: "\<forall>i<length ps. get_oracle_bind_type (oci_types_of (oci_st api)) (ds_vars ?st0) (ps ! i) = Inr (Some (ts ! i))"
    using types(2) frame(1) by simp
  obtain inds m where loop: "ora_bind_loop api (ora_ptr ostmt) (Some a) ?a ps [0..<length ps] None (obind_with ?st0 ?a (replicate (length ps) None) (olib st)) =
        Inr (True, obind_with ?st0 ?a inds m)" "executed m = executed (olib st)"
      "\<forall>i<length ps. inds ! i = Some (snd (snd (ts ! i))) \<and> bound m (i + 1) = Some (b_buffer (ps ! i), fst (snd (ts ! i)), fst (ts ! i), ?a, i)"
    using ora_bind_loop_binds [OF assms(1) frame(2) assms(14) types(1) types0, of "length ps" 0 "replicate (length ps) None" ?a None "olib st"] by auto
  let ?st1 = "obind_with ?st0 ?a inds m"
  have start: "put_ostmt b (Some (ostmt\<lparr>ora_params := Some ?a\<rparr>)) (put_obind ?a (Some (replicate (length ps) None)) (st\<lparr>ds_next := ?a + 1\<rparr>)) =
      obind_with ?st0 ?a (replicate (length ps) None) (olib st)"
    by (simp add: put_ostmt_def put_obind_def upd_o_def obind_with_def)
  have mal: "d_malloc st = (True, st)"
    using assms(13) by (simp add: d_malloc_def)
  have ocon: "stmt_ocon s st = Inr (Some a)" "stmt_at s st = Inr stmt" "ostmt_at (Some b) st = Inr ostmt"
    using assms(3,4,7,10,11) by (simp_all add: stmt_ocon_def stmt_con_def stmt_at_def con_at_def ostmt_at_def)
  have bind: "ora_drv_bind_param api s ps (of_nat (length ps)) st = Inr (0, ?st1)"
    using ocon assms(2,5,6,8) mal n start loop(1) by (simp add: ora_drv_bind_param_def Let_def)
  let ?st2 = "?st1\<lparr>ds_vars := vars\<rparr>"
  obtain rc m' where x: "OCIStmtExecute (oci_st api) (svchp oc) (ora_ptr ostmt) (errhp oc) (ora_iters (ora_type ostmt)) vars (o_binds (ds_drv ?st1)) m = (rc, m')"
    by (metis surj_pair)
  have "\<forall>svc eh n vars inds m rc m'. OCIStmtExecute (oci_st api) svc (ora_ptr ostmt) eh n vars inds m = (rc, m') \<longrightarrow>
        rc = OCI_SUCCESS \<and> executed m' = executed m @ [\<lambda>i. map_option (oci_value_of vars inds) (bound m i)]"
    using assms(1) by (simp add: oci_records_def)
  then have ok: "rc = OCI_SUCCESS" "executed m' = executed m @ [\<lambda>i. map_option (oci_value_of vars (o_binds (ds_drv ?st1))) (bound m i)]"
    using x by blast+
  let ?st3 = "upd_o (\<lambda>d. d\<lparr>o_lib := m'\<rparr>) ?st2"
  have run: "ora_execute api oc (ora_ptr ostmt) (ora_type ostmt) 638 ?st2 = Inr (True, ?st3)"
    using x ok(1) by (simp add: ora_execute_def checked_def oci_call_def obind_with_def)
  have at2: "stmt_at s ?st2 = Inr stmt" "con_at c ?st2 = Inr con" "ostmt_at (Some b) ?st2 = Inr (ostmt\<lparr>ora_params := Some ?a\<rparr>)" "oconn_at (Some a) ?st2 = Inr oc"
    using assms(3,10,12) by (simp_all add: stmt_at_def con_at_def ostmt_at_def oconn_at_def obind_with_def put_ostmt_def upd_o_def)
  have exec: "ora_drv_execute fuel api s rs ?st2 = Inr (SB_DB_ERROR_NONE, ?st3)"
    using assms(4-6,9,11) at2 run by (auto simp: ora_drv_execute_def ora_result_def)
  have "\<forall>i<length ps. map_option (oci_value_of vars (o_binds (ds_drv ?st1))) (bound m (i + 1)) =
      Some (if b_is_null (ps ! i) \<noteq> None then Sent_null else Sent (Option.bind (b_buffer (ps ! i)) vars) (fst (snd (ts ! i))) (fst (ts ! i)))"
    using loop(3) ind by (simp add: oci_value_of_def)
  moreover have "executed (olib ?st3) = executed (olib st) @ [\<lambda>i. map_option (oci_value_of vars (o_binds (ds_drv ?st1))) (bound m i)]"
    using ok(2) loop(2) by (simp add: upd_o_def)
  ultimately show ?thesis
    using bind exec by blast
qed

section \<open>Witnesses\<close>

text \<open>A library in which the execution of a statement has the given status, with a result of two columns and two rows.\<close>

record ora_sample =
  osm_bound :: "nat \<Rightarrow> oci_bound option"
  osm_executed :: "(nat \<Rightarrow> oci_value option) list"
  osm_view :: oci_view

definition sample_oci_con :: "ora_sample oci_conn_api" where
  "sample_oci_con =
     \<lparr>OCIEnvCreate = (\<lambda>m. ((OCI_SUCCESS, Some 1), m)), OCIHandleAlloc = (\<lambda>_ _ m. ((OCI_SUCCESS, Some 2), m)),
      OCIHandleFree = (\<lambda>_ _ m. (OCI_SUCCESS, m)), OCIAttrSet = (\<lambda>_ _ _ _ m. (OCI_SUCCESS, m)), OCIServerAttach = (\<lambda>_ _ _ m. (OCI_SUCCESS, m)),
      OCIServerDetach = (\<lambda>_ _ m. (OCI_SUCCESS, m)), OCISessionBegin = (\<lambda>_ _ _ m. (OCI_SUCCESS, m)), OCISessionEnd = (\<lambda>_ _ _ m. (OCI_SUCCESS, m)),
      OCITransStart = (\<lambda>_ _ _ m. (OCI_SUCCESS, m)), OCITransCommit = (\<lambda>_ _ m. (OCI_SUCCESS, m)), OCIErrorGet = (\<lambda>_ m. (''ORA-00942'', m))\<rparr>"

definition sample_oci_types :: oci_types where
  "sample_oci_types =
     \<lparr>SQLT_INT = 3, SQLT_FLT = 4, SQLT_DATE = 12, SQLT_TIMESTAMP = 187, SQLT_AFC = 96, SQLT_VCS = 9, SQLT_NUM = 2\<rparr>"

definition sample_fetch :: "ora_sample \<Rightarrow> (oci_status \<times> (elem \<times> string \<times> int) list) \<times> ora_sample" where
  "sample_fetch m =
     (case ov_rows (osm_view m) of
        [] \<Rightarrow> ((OCI_NO_DATA, []), m)
      | row # rows \<Rightarrow> ((OCI_SUCCESS, map (\<lambda>k. (the (ov_defs (osm_view m) (k + 1)), row ! k)) [0..<ov_cols (osm_view m)]),
                       m\<lparr>osm_view := (osm_view m)\<lparr>ov_rows := rows\<rparr>\<rparr>))"

definition sample_oci :: "oci_status \<Rightarrow> ora_sample oci_api" where
  "sample_oci status =
     \<lparr>oci_con = sample_oci_con,
      oci_st =
        \<lparr>OCIStmtPrepare = (\<lambda>_ _ _ m. (OCI_SUCCESS, m)),
         OCIBindByPos = (\<lambda>_ bindp _ i p len ty e m. ((OCI_SUCCESS, bindp), m\<lparr>osm_bound := (osm_bound m)(unat i \<mapsto> (p, len, ty, e))\<rparr>)),
         OCIStmtExecute = (\<lambda>_ _ _ _ vars inds m. (status, m\<lparr>osm_executed := osm_executed m @ [\<lambda>i. map_option (oci_value_of vars inds) (osm_bound m i)]\<rparr>)),
         OCIParamGet = (\<lambda>_ _ i m. ((if unat i \<le> ov_cols (osm_view m) then OCI_SUCCESS else OCI_NO_DATA, Some 9), m)),
         OCIAttrGet_type = (\<lambda>_ _ m. ((OCI_SUCCESS, 2), m)), OCIAttrGet_name = (\<lambda>_ _ m. ((OCI_SUCCESS, ''C'' @ [CHR 0x00], 1), m)),
         OCIAttrGet_char_used = (\<lambda>_ _ m. ((OCI_SUCCESS, 0), m)), OCIAttrGet_size = (\<lambda>_ _ _ m. ((OCI_SUCCESS, 0), m)), OCIDescriptorFree = (\<lambda>_ m. m),
         OCIDefineByPos = (\<lambda>_ _ i e _ _ m. ((OCI_SUCCESS, None), m\<lparr>osm_view := (osm_view m)\<lparr>ov_defs := (ov_defs (osm_view m))(unat i \<mapsto> e)\<rparr>\<rparr>)),
         OCIStmtFetch2 = (\<lambda>_ _. sample_fetch), oci_types_of = sample_oci_types\<rparr>\<rparr>"

definition sample_ora_con :: db_conn_t where
  "sample_ora_con = con_zero\<lparr>con_driver := Some 0, con_ptr := Some 7, con_rs := rs_zero\<lparr>rs_connection := Some 1, rs_statement := Some 5\<rparr>\<rparr>"

definition sample_ora_params :: "db_bind_t list" where
  "sample_ora_params =
     [\<lparr>b_type = DB_TYPE_INT, b_buffer = Some 20, b_data_len = None, b_max_len = 4, b_is_null = Some 22\<rparr>,
      \<lparr>b_type = DB_TYPE_CHAR, b_buffer = Some 21, b_data_len = None, b_max_len = 4, b_is_null = None\<rparr>]"

definition sample_ora_vars :: "string \<Rightarrow> vars" where
  "sample_ora_vars s = [20 \<mapsto> Int_data 4, 21 \<mapsto> String_data (s @ [CHR 0x00]), 22 \<mapsto> Flag_data False]"

definition sample_ora_handles :: ora_conn_t where
  "sample_ora_handles = \<lparr>svchp = Some 2, srvhp = Some 2, errhp = Some 2, transhp = Some 2, usrhp = Some 2\<rparr>"

definition sample_ora_stmt :: ora_stmt_t where
  "sample_ora_stmt = \<lparr>ora_ptr = Some 2, ora_type = STMT_TYPE_SELECT, ora_params = None, ora_results = None\<rparr>"

definition sample_ora_rows :: "(string \<times> int) list list" where
  "sample_ora_rows = [[(''1'', 0), (''x'', 0)], [(''2'', 0), ([], - 1)]]"

definition sample_ora_view :: oci_view where
  "sample_ora_view = \<lparr>ov_cols = 2, ov_rows = sample_ora_rows, ov_defs = (\<lambda>_. None)\<rparr>"

definition sample_ora :: "ora_sample ost" where
  "sample_ora =
     (sample_db \<lparr>ora_env = Some 1, o_args = \<lparr>oa_user = None, oa_password = None, oa_db = None\<rparr>, o_conns = [7 \<mapsto> sample_ora_handles],
                  o_stmts = [8 \<mapsto> sample_ora_stmt], o_binds = (\<lambda>_. None), o_results = (\<lambda>_. None),
                  o_lib = \<lparr>osm_bound = (\<lambda>_. None), osm_executed = [], osm_view = sample_ora_view\<rparr>\<rparr>)
       \<lparr>ds_conns := [1 \<mapsto> sample_ora_con],
        ds_stmts := [5 \<mapsto> stmt_zero\<lparr>st_connection := Some 1, st_ptr := Some 8\<rparr>,
                     6 \<mapsto> stmt_zero\<lparr>st_connection := Some 1, st_emulated := True, st_query := Some ''DELETE FROM t'', st_bound_param := Some [],
                                     st_type := DB_QUERY_TYPE_WRITE\<rparr>],
        ds_vars := sample_ora_vars ''abc'', ds_next := 30\<rparr>"

lemma sample_ora_parts:
  "ds_conns sample_ora = [1 \<mapsto> sample_ora_con]" "o_conns (ds_drv sample_ora) 7 = Some sample_ora_handles" "o_stmts (ds_drv sample_ora) 8 = Some sample_ora_stmt"
  "ds_stmts sample_ora 5 = Some (stmt_zero\<lparr>st_connection := Some 1, st_ptr := Some 8\<rparr>)"
  "ds_stmts sample_ora 6 = Some (stmt_zero\<lparr>st_connection := Some 1, st_emulated := True, st_query := Some ''DELETE FROM t'', st_bound_param := Some [],
                                     st_type := DB_QUERY_TYPE_WRITE\<rparr>)"
  "ds_vars sample_ora = sample_ora_vars ''abc''" "ds_next sample_ora = 30" "olib sample_ora = \<lparr>osm_bound = (\<lambda>_. None), osm_executed = [], osm_view = sample_ora_view\<rparr>"
  "os_mem (pg_opts (ds_pg sample_ora)) = []" "thread_stats sample_ora = Some (replicate (unat (g_num_threads (w_globals sample_world))) stat_zero)"
  "logger_ready (pg_w (ds_pg sample_ora))"
  using sample_world_ready by (simp_all add: sample_ora_def sample_db_def sample_world_def sample_globals_def empty_opts_def)

lemma oracle_failure_unnoticed_witness:
  "\<exists>st'. db_execute (register_driver_oracle 100 (sample_oci OCI_ERROR) []) 6 sample_ora = Inr (Some 1, st') \<and> db_errno 1 st' = Inr SB_DB_ERROR_NONE"
proof -
  have "attached (register_driver_oracle 100 (sample_oci OCI_ERROR) []) (oracle_ops 100 (sample_oci OCI_ERROR)) 1 sample_ora sample_ora_con"
    by (simp add: attached_def sample_ora_parts register_driver_oracle_def oracle_driver_def sample_ora_con_def con_zero_def sample_world_def sample_globals_def)
  then show ?thesis
    using oracle_failure_unnoticed [of _ 100 "sample_oci OCI_ERROR" 1 sample_ora sample_ora_con 7 sample_ora_handles 6 _ "''DELETE FROM t''" "[]" "[]"]
    by (force simp: sample_ora_parts sample_ora_con_def con_zero_def stmt_zero_def)
qed

lemma sample_oci_delivers: "oci_delivers (oci_st (sample_oci status)) osm_view h"
  by (auto simp: oci_delivers_def oci_describes_def oci_answers_def sample_oci_def sample_fetch_def strncpy_text_def split: list.splits)

lemma oracle_rows_stored_witness:
  "\<exists>st1 r. ora_drv_store_results 3 (sample_oci OCI_SUCCESS) 1 sample_ora = Inr (SB_DB_ERROR_NONE, st1) \<and> o_results (ds_drv st1) 30 = Some r \<and>
     ors_rows r = [\<lparr>or_data = Some [(Some ''1'', 0), (Some ''x'', 0)]\<rparr>, \<lparr>or_data = Some [(Some ''2'', 0), (Some [], - 1)]\<rparr>] \<and>
     ora_drv_num_rows 1 st1 = Inr (2, st1)"
proof -
  have "map stored_row sample_ora_rows = [\<lparr>or_data = Some [(Some ''1'', 0), (Some ''x'', 0)]\<rparr>, \<lparr>or_data = Some [(Some ''2'', 0), (Some [], - 1)]\<rparr>]"
      "length sample_ora_rows = 2" "\<forall>row\<in>set sample_ora_rows. length row = 2"
    by (simp_all add: sample_ora_rows_def stored_row_def)
  then show ?thesis
    using oracle_rows_stored [OF sample_oci_delivers, of sample_ora 1 sample_ora_con 5 _ 8 sample_ora_stmt 7 sample_ora_handles 2 sample_ora_rows "\<lambda>_. None" 3 OCI_SUCCESS]
    by (simp add: sample_ora_parts sample_ora_view_def sample_ora_con_def con_zero_def rs_zero_def stmt_zero_def) blast
qed

lemma oracle_flag_means_null_witness:
  "\<exists>st1 st2 row. ora_drv_bind_param (sample_oci OCI_SUCCESS) 5 sample_ora_params 2 sample_ora = Inr (0, st1) \<and>
     ora_drv_execute 100 (sample_oci OCI_SUCCESS) 5 1 (st1\<lparr>ds_vars := sample_ora_vars ''abcdef''\<rparr>) = Inr (SB_DB_ERROR_NONE, st2) \<and>
     osm_executed (olib st2) = [row] \<and> row (Suc 0) = Some Sent_null \<and> row (Suc 1) = Some (Sent (Some (String_data (''abcdef'' @ [CHR 0x00]))) 3 96)"
proof -
  let ?S = "oci_st (sample_oci OCI_SUCCESS)"
  have "oci_records ?S osm_bound osm_executed h" for h
    by (simp add: oci_records_def sample_oci_def)
  moreover have "list_all2 (\<lambda>p t. get_oracle_bind_type (oci_types_of ?S) (ds_vars sample_ora) p = Inr (Some t)) sample_ora_params [(3, 4, - 1), (96, 3, 0)]"
    by (simp add: sample_ora_params_def sample_ora_parts sample_ora_vars_def sample_oci_def sample_oci_types_def get_oracle_bind_type_def db_oracle_bind_map_def
        strlen_var_def var_at_def int_range_def)
  moreover have "length sample_ora_params = 2" "b_is_null (sample_ora_params ! 0) = Some 22" "b_is_null (sample_ora_params ! 1) = None"
      "b_buffer (sample_ora_params ! 1) = Some 21"
    by (simp_all add: sample_ora_params_def)
  ultimately show ?thesis
    using oracle_flag_means_null [of "sample_oci OCI_SUCCESS" osm_bound osm_executed sample_ora_stmt 2 sample_ora 5 _ 1 8 sample_ora_con 7 sample_ora_handles
        sample_ora_params "[(3, 4, - 1), (96, 3, 0)]" 100 1 "sample_ora_vars ''abcdef''"]
    by (simp add: sample_ora_parts sample_ora_stmt_def sample_ora_con_def con_zero_def stmt_zero_def sample_ora_vars_def less_2_cases_iff all_conj_distrib imp_disjL)
qed

end
