(* ===== verification/TestCommon.thy ===== *)
theory TestCommon
  imports SbRun
begin

text \<open>
  What the built-in tests share: the request union of \<^verbatim>\<open>sysbench.h\<close> with the request types of
  the test headers, and what a thread needs of the logger to measure the events of a test.
  The static variables of the tests are records that extend one another, in the order cpu, threads, mutex, memory;
  every operation leaves the variables of the other tests alone because it is defined on the record scheme.
\<close>

section \<open>Requests\<close>

datatype sb_mem_op_t = SB_MEM_OP_NONE | SB_MEM_OP_READ | SB_MEM_OP_WRITE

datatype sb_mem_scope_t = SB_MEM_SCOPE_GLOBAL | SB_MEM_SCOPE_LOCAL

datatype sb_file_op_t = FILE_OP_TYPE_NULL | FILE_OP_TYPE_READ | FILE_OP_TYPE_WRITE | FILE_OP_TYPE_FSYNC

record sb_file_request_t =
  file_id :: u32
  pos :: int
  rsize :: int
  operation :: sb_file_op_t

text \<open>The lock number; the numbers of locks and of loops; operation, block size and scope; the block of a file.\<close>

datatype request_u =
    Threads_request u32
  | File_request sb_file_request_t
  | Mutex_request u32 u32
  | Mem_request sb_mem_op_t u64 sb_mem_scope_t

section \<open>Measuring events\<close>

definition s_event_start :: "fpenv \<Rightarrow> nat \<Rightarrow> 't st \<Rightarrow> 't st res" where
  "s_event_start fp thread_id = s_world (LOG_EVENT_START fp (int thread_id))"

definition s_event_stop :: "fpenv \<Rightarrow> nat \<Rightarrow> 't st \<Rightarrow> 't st res" where
  "s_event_stop fp thread_id = s_world (LOG_EVENT_STOP fp (int thread_id))"

text \<open>\<^verbatim>\<open>sb_timer_value(&timers[thread_id])\<close>.\<close>

definition thread_timer_value :: "nat \<Rightarrow> world \<Rightarrow> (u64 \<times> world) res" where
  "thread_timer_value i w =
     rbind (aread (lg_timers (w_log w)) i) (\<lambda>t.
       case (if sb_timer_running t then SB_GETTIME w else (timespec_zero, w)) of (now, w) \<Rightarrow>
         rbind (sb_timer_value now t) (\<lambda>(v, t, msgs).
         rbind (log_reqs msgs (upd_log (\<lambda>l. l\<lparr>lg_timers := (lg_timers l)[i := t]\<rparr>) w)) (\<lambda>w. Inr (v, w))))"

text \<open>A thread that can measure events: the handlers are there, and the thread has a timer.\<close>

definition thread_ready :: "fpenv \<Rightarrow> nat \<Rightarrow> prog \<Rightarrow> bool" where
  "thread_ready fp i pg \<longleftrightarrow> fp_ok fp \<and> oper_ready fp (pg_w pg) \<and> i < length (lg_timers (w_log (pg_w pg)))"

text \<open>What an event changes: the timers of the logger and its histogram, the clock and the text output.\<close>

definition event_frame :: "prog \<Rightarrow> prog \<Rightarrow> bool" where
  "event_frame pg pg' \<longleftrightarrow>
     pg_globals pg' = pg_globals pg \<and> pg_rand pg' = pg_rand pg \<and>
     length (lg_timers (w_log (pg_w pg'))) = length (lg_timers (w_log (pg_w pg)))"

lemma event_frame_refl [simp]: "event_frame pg pg"
  by (simp add: event_frame_def)

lemma event_frame_trans: "event_frame pg pg' \<Longrightarrow> event_frame pg' pg'' \<Longrightarrow> event_frame pg pg''"
  by (simp add: event_frame_def)

text \<open>The number of events the histogram of the logger has counted.\<close>

definition events_counted :: "prog \<Rightarrow> u64" where
  "events_counted pg = (case lg_percentile (w_log (pg_w pg)) of None \<Rightarrow> 0 | Some p \<Rightarrow> pc_total p)"

lemma event_start_ok:
  assumes "thread_ready fp i (fst s)"
  shows "\<exists>pg'. s_event_start fp i s = Inr (pg', snd s) \<and> thread_ready fp i pg' \<and> event_frame (fst s) pg' \<and>
           events_counted pg' = events_counted (fst s)"
proof -
  obtain w' where "LOG_EVENT_START fp (int i) (pg_w (fst s)) = Inr w'" "oper_ready fp w'"
      "length (lg_timers (w_log w')) = length (lg_timers (w_log (pg_w (fst s))))" "w_globals w' = pg_globals (fst s)"
      "lg_percentile (w_log w') = lg_percentile (w_log (pg_w (fst s)))"
    using oper_start [of fp "pg_w (fst s)" i] assms by (auto simp: thread_ready_def)
  then show ?thesis
    using assms by (auto simp: s_event_start_def s_world_def thread_ready_def event_frame_def events_counted_def)
qed

lemma event_stop_ok:
  assumes "thread_ready fp i (fst s)"
  shows "\<exists>pg'. s_event_stop fp i s = Inr (pg', snd s) \<and> thread_ready fp i pg' \<and> event_frame (fst s) pg' \<and>
           events_counted pg' = events_counted (fst s) + 1"
proof -
  obtain w' p p' where "LOG_EVENT_STOP fp (int i) (pg_w (fst s)) = Inr w'" "oper_ready fp w'"
      "length (lg_timers (w_log w')) = length (lg_timers (w_log (pg_w (fst s))))" "w_globals w' = pg_globals (fst s)"
      "lg_percentile (w_log (pg_w (fst s))) = Some p" "lg_percentile (w_log w') = Some p'" "pc_total p' = pc_total p + 1"
    using oper_stop [of fp "pg_w (fst s)" i] assms by (auto simp: thread_ready_def)
  then show ?thesis
    using assms by (auto simp: s_event_stop_def s_world_def thread_ready_def event_frame_def events_counted_def)
qed

lemma timers_same: "lg_timers (w_log w) ! i = t \<Longrightarrow> upd_log (\<lambda>l. l\<lparr>lg_timers := (lg_timers l)[i := t]\<rparr>) w = w"
  by (cases w, cases "w_log w") auto

lemma event_stop_value:
  assumes "thread_ready fp i (fst s)"
  shows "\<exists>pg' v. s_event_stop fp i s = Inr (pg', snd s) \<and> thread_timer_value i (pg_w pg') = Inr (v, pg_w pg') \<and>
           thread_ready fp i pg' \<and> event_frame (fst s) pg' \<and> events_counted pg' = events_counted (fst s) + 1"
proof -
  have r: "fp_ok fp" "oper_ready fp (pg_w (fst s))" "i < length (lg_timers (w_log (pg_w (fst s))))"
    using assms by (simp_all add: thread_ready_def)
  obtain w' t' q q' where w': "LOG_EVENT_STOP fp (int i) (pg_w (fst s)) = Inr w'" "oper_ready fp w'"
      "lg_timers (w_log w') = (lg_timers (w_log (pg_w (fst s))))[i := t']" "state t' = TIMER_STOPPED"
      "lg_percentile (w_log (pg_w (fst s))) = Some q" "lg_percentile (w_log w') = Some q'" "pc_total q' = pc_total q + 1"
      "w_globals w' = w_globals (pg_w (fst s))"
    using oper_stop [OF r] by blast
  have len: "i < length (lg_timers (w_log w'))" "lg_timers (w_log w') ! i = t'"
    using w'(3) r(3) by simp_all
  have same: "upd_log (\<lambda>l. l\<lparr>lg_timers := (lg_timers l)[i := t']\<rparr>) w' = w'"
    using len(2) by (rule timers_same)
  have v: "thread_timer_value i w' = Inr (elapsed t', w')"
    using len w'(4) same by (simp add: thread_timer_value_def sb_timer_running_def sb_timer_value_def log_reqs_def)
  let ?pg = "(fst s)\<lparr>pg_w := w'\<rparr>"
  have "s_event_stop fp i s = Inr (?pg, snd s)"
    unfolding s_event_stop_def s_world_def w'(1) by simp
  moreover have "thread_ready fp i ?pg" "event_frame (fst s) ?pg" "events_counted ?pg = events_counted (fst s) + 1"
    using w'(2,3,5,6,7,8) r(1,3) by (simp_all add: thread_ready_def event_frame_def events_counted_def)
  ultimately show ?thesis
    using v by (intro exI [of _ ?pg] exI [of _ "elapsed t'"]) simp
qed

lemma thread_ready_between:
  "thread_ready fp i pg \<Longrightarrow> run_frame pg pg' \<Longrightarrow> thread_ready fp i pg'"
  by (auto simp: thread_ready_def run_frame_def oper_ready_def logger_ready_def)

lemma events_counted_between: "run_frame pg pg' \<Longrightarrow> events_counted pg' = events_counted pg"
  by (simp add: events_counted_def run_frame_def)

lemma run_ok_event:
  "run_ok pg \<Longrightarrow> thread_ready fp i pg' \<Longrightarrow> event_frame pg pg' \<Longrightarrow> run_ok pg'"
  by (simp add: run_ok_def thread_ready_def oper_ready_def event_frame_def)

lemmas event_intros = event_frame_trans run_ok_event

section \<open>Tests with a known number of requests\<close>

text \<open>
  The stronger contract of the tests that serve a fixed number of requests: as long as requests remain, the next one is
  handed out, its execution succeeds, measures one event and leaves the global variables alone.
\<close>

locale counted_source =
  fixes get :: "nat \<Rightarrow> 't st \<Rightarrow> ('r sb_request \<times> 't st) res"
    and exec :: "'r sb_request \<Rightarrow> nat \<Rightarrow> 't op"
    and remaining :: "'t st \<Rightarrow> nat"
    and ok :: "nat \<Rightarrow> 't st \<Rightarrow> bool"
  assumes last: "ok i s \<Longrightarrow> remaining s = 0 \<Longrightarrow> \<exists>r. get i s = Inr ((SB_REQ_TYPE_NULL, r), s)"
    and one: "ok i s \<Longrightarrow> run_ok (fst s) \<Longrightarrow> remaining s \<noteq> 0 \<Longrightarrow>
       \<exists>ty r s1 s2. get i s = Inr ((ty, r), s1) \<and> ty \<noteq> SB_REQ_TYPE_NULL \<and> ok i s1 \<and> run_ok (fst s1) \<and>
         exec (ty, r) i s1 = Inr (0, s2) \<and> ok i s2 \<and> run_ok (fst s2) \<and> remaining s = Suc (remaining s2) \<and>
         s_globals s2 = s_globals s \<and> events_counted (fst s2) = events_counted (fst s) + 1"
    and frame: "ok i (pg, t) \<Longrightarrow> run_frame pg pg' \<Longrightarrow> ok i (pg', t) \<and> remaining (pg', t) = remaining (pg, t)"

sublocale counted_source \<subseteq> request_source get exec remaining ok
proof
  fix i s
  assume s: "ok i s" "run_ok (fst s)"
  show "\<exists>ty r s1. get i s = Inr ((ty, r), s1) \<and> ok i s1 \<and> run_ok (fst s1) \<and>
     (ty \<noteq> SB_REQ_TYPE_NULL \<longrightarrow>
        (\<exists>rc s2. exec (ty, r) i s1 = Inr (rc, s2) \<and> ok i s2 \<and> run_ok (fst s2) \<and> (rc = 0 \<longrightarrow> remaining s2 < remaining s)))"
  proof (cases "remaining s = 0")
    case True
    then show ?thesis using last [OF s(1)] s by blast
  next
    case False
    then obtain ty r s1 s2 where "get i s = Inr ((ty, r), s1)" "ok i s1" "run_ok (fst s1)"
        "exec (ty, r) i s1 = Inr (0, s2)" "ok i s2" "run_ok (fst s2)" "remaining s = Suc (remaining s2)"
      using one [OF s] by blast
    then show ?thesis by (metis lessI)
  qed
qed (rule frame)

context counted_source
begin

lemma loop_serves_all:
  "ok i s \<Longrightarrow> run_ok (fst s) \<Longrightarrow> g_max_time (s_globals s) = 0 \<Longrightarrow> g_error (s_globals s) = 0 \<Longrightarrow>
   op_get_request test = Some get \<Longrightarrow> op_execute_request test = Some exec \<Longrightarrow> remaining s < n \<Longrightarrow>
   \<exists>s'. runner_loop n test i start q s = Inr (Left_loop, start, q, s') \<and> ok i s' \<and>
     events_counted (fst s') = events_counted (fst s) + of_nat (remaining s)"
proof (induction n arbitrary: s)
  case (Suc n)
  have rate: "\<not> g_tx_rate (s_globals s) > 0"
    using Suc.prems(2) by (simp add: run_ok_def)
  show ?case
  proof (cases "remaining s = 0")
    case True
    then obtain r where "get i s = Inr ((SB_REQ_TYPE_NULL, r), s)"
      using last [OF Suc.prems(1)] by blast
    then show ?thesis
      using True rate Suc.prems(1,3,5) by (simp add: runner_iteration_def get_request_def time_limit_exceeded_def)
  next
    case False
    then obtain ty r s1 s2 where s2: "get i s = Inr ((ty, r), s1)" "ty \<noteq> SB_REQ_TYPE_NULL"
        "exec (ty, r) i s1 = Inr (0, s2)" "ok i s2" "run_ok (fst s2)" "remaining s = Suc (remaining s2)"
        "s_globals s2 = s_globals s" "events_counted (fst s2) = events_counted (fst s) + 1"
      using one [OF Suc.prems(1,2)] by blast
    then have it: "runner_iteration test i start q s = Inr (Again, start, q, s2)"
      using rate Suc.prems(3-6)
      by (simp add: runner_iteration_def get_request_def execute_request_def time_limit_exceeded_def)
    then show ?thesis
      using Suc.IH [of s2] Suc.prems(3-7) s2(4-8) by auto
  qed
qed simp

lemma thread_serves_all:
  assumes "ok i (upd_sg (\<lambda>g. g\<lparr>g_num_running := g_num_running g + 1\<rparr>) s)" and "run_ok (fst s)"
    and "g_max_time (s_globals s) = 0" and "g_error (s_globals s) = 0"
    and "op_get_request test = Some get" and "op_execute_request test = Some exec"
    and "op_thread_init test = None" and "op_thread_done test = None"
    and "remaining (upd_sg (\<lambda>g. g\<lparr>g_num_running := g_num_running g + 1\<rparr>) s) < n"
  shows "\<exists>s'. runner_thread n test i q s = Inr (Left_loop, q, s') \<and>
           events_counted (fst s') = events_counted (fst s)
             + of_nat (remaining (upd_sg (\<lambda>g. g\<lparr>g_num_running := g_num_running g + 1\<rparr>) s)) \<and>
           (\<exists>pg'. ok i (pg', snd s'))"
proof -
  obtain pg1 where l: "s_log LOG_DEBUG (''Runner thread started ('' @ print_nat i @ '')!'') s = Inr (pg1, snd s)" "run_ok pg1"
      "run_frame (fst s) pg1"
    using s_log_run_ok [OF assms(2)] by blast
  let ?up = "upd_sg (\<lambda>g. g\<lparr>g_num_running := g_num_running g + 1\<rparr>)"
  let ?s = "?up (pg1, snd s)"
  have f: "run_frame (fst (?up s)) (fst ?s)" "run_ok (fst ?s)" "events_counted (fst ?s) = events_counted (fst s)"
      "g_max_time (s_globals ?s) = 0" "g_error (s_globals ?s) = 0"
    using l(2,3) assms(3,4) run_frame_running [OF l(3)] events_counted_between [OF l(3)]
    by (auto simp: run_frame_def run_ok_def upd_sg_def logger_ready_def events_counted_def)
  have o: "ok i ?s" "remaining ?s = remaining (?up s)"
    using frame [of i "fst (?up s)" "snd s" "fst ?s"] f(1) assms(1) by (simp_all add: upd_sg_def)
  obtain s' where "runner_loop n test i 0 q ?s = Inr (Left_loop, 0, q, s')" "ok i s'"
      "events_counted (fst s') = events_counted (fst s) + of_nat (remaining (?up s))"
    using loop_serves_all [OF o(1) f(2,4,5) assms(5,6), of n 0 q] assms(9) f(3) o(2) by auto
  then show ?thesis
    using l(1) assms(7,8) by (cases s') (auto simp: runner_thread_def run_op_def upd_sg_def events_counted_def)
qed

end

section \<open>A sample program\<close>

text \<open>A program whose two worker threads can run, with the given limit of requests.\<close>

definition worker_prog :: "u32 \<Rightarrow> prog" where
  "worker_prog limit = \<lparr>pg_w = upd_globals (\<lambda>g. g\<lparr>g_max_requests := limit\<rparr>) sample_world,
     pg_rand = \<lparr>rd_lrand48 = (\<lambda>_. 7), rd_calls = 0, rd_drand48 = (\<lambda>_. 0), rd_dcalls = 0, rd_type = DIST_TYPE_UNIFORM,
                rd_iter = 12, rd_pct = 1, rd_res = 75, rd_pareto_power = 1, rd_seed = 0\<rparr>,
     pg_rand_init = False, pg_rand_seed = 0, pg_pareto_h = 1, pg_stack_size = 0\<rparr>"

definition sample_queue :: equeue where
  "sample_queue = queue_init sample_store"

lemma worker_prog_fields [simp]:
  "g_max_requests (pg_globals (worker_prog m)) = m" "g_max_time (pg_globals (worker_prog m)) = 0"
  "g_error (pg_globals (worker_prog m)) = 0" "length (lg_timers (w_log (pg_w (worker_prog m)))) = 2"
  by (simp_all add: worker_prog_def sample_world_def sample_globals_def)

lemma worker_prog_ready:
  "run_ok (worker_prog m)" "i < 2 \<Longrightarrow> thread_ready fp_exact i (worker_prog m)"
  using sample_world_oper fp_exact_ok
  by (simp_all add: run_ok_def worker_prog_def thread_ready_def oper_ready_def logger_ready_def sample_world_def
        sample_globals_def sb_timer_initialized_def sb_timer_init_def Let_def)

end
