(* ===== verification/TestCpu.thy ===== *)
theory TestCpu
  imports TestCommon
begin

text \<open>
  The cpu test, \<^verbatim>\<open>tests/cpu/sb_cpu.c\<close>: every request counts primes by trial division up to a square root
  computed in floating point. The limit of requests is tested before the mutex of
  the counter is taken, so that the test and the count are separate steps of a thread.
\<close>

section \<open>The test\<close>

record test_cpu =
  max_prime :: u32
  cpu_req_performed :: u32

definition cpu_args :: "sb_arg_t list" where
  "cpu_args = [mk_arg ''cpu-max-prime'' ''upper limit for primes generator'' SB_ARG_TYPE_INT (Some ''10000'')]"

definition cpu_init :: "'a test_cpu_scheme op" where
  "cpu_init s =
     rbind (sb_get_value_int (pg_opts (fst s)) ''cpu-max-prime'')
       (\<lambda>prime_option.
          if prime_option \<le> 0
          then rbind (s_log LOG_FATAL (''Invalid value of cpu-max-prime: '' @ print_int prime_option @ ''.'') s) (\<lambda>s. Inr (1, s))
          else Inr (0, (fst s, (snd s)\<lparr>max_prime := word_of_int prime_option, cpu_req_performed := 0\<rparr>)))"

definition cpu_limit_reached :: "u32 \<Rightarrow> u32 \<Rightarrow> bool" where
  "cpu_limit_reached max_requests performed \<longleftrightarrow> max_requests > 0 \<and> performed \<ge> max_requests"

definition cpu_get_request :: "nat \<Rightarrow> 'a test_cpu_scheme st \<Rightarrow> (request_u sb_request \<times> 'a test_cpu_scheme st) res" where
  "cpu_get_request thread_id s =
     (if cpu_limit_reached (g_max_requests (s_globals s)) (cpu_req_performed (snd s)) then Inr ((SB_REQ_TYPE_NULL, None), s)
      else Inr ((SB_REQ_TYPE_CPU, None), (fst s, (snd s)\<lparr>cpu_req_performed := cpu_req_performed (snd s) + 1\<rparr>)))"

text \<open>The inner loop: the value of \<^verbatim>\<open>l\<close> when it is left.\<close>

partial_function (option) cpu_divisor :: "fpenv \<Rightarrow> u64 \<Rightarrow> real \<Rightarrow> u64 \<Rightarrow> u64 option" where
  "cpu_divisor fp c t l =
     (if u64_double fp l \<le> t then (if c mod l = 0 then Some l else cpu_divisor fp c t (l + 1)) else Some l)"

text \<open>The outer loop: the value of \<^verbatim>\<open>n\<close> at its end.\<close>

partial_function (option) cpu_primes :: "fpenv \<Rightarrow> u32 \<Rightarrow> u64 \<Rightarrow> u64 \<Rightarrow> u64 option" where
  "cpu_primes fp limit c n =
     (if c < ucast limit
      then (let t = fp_sqrt fp (u64_double fp c) in
            case cpu_divisor fp c t 2 of
              None \<Rightarrow> None
            | Some l \<Rightarrow> cpu_primes fp limit (c + 1) (if u64_double fp l > t then n + 1 else n))
      else Some n)"

definition cpu_execute_request :: "fpenv \<Rightarrow> request_u sb_request \<Rightarrow> nat \<Rightarrow> 'a test_cpu_scheme op" where
  "cpu_execute_request fp r thread_id s =
     rbind (s_event_start fp thread_id s)
       (\<lambda>s. case cpu_primes fp (max_prime (snd s)) 3 0 of
          None \<Rightarrow> Inl Still_running
        | Some n \<Rightarrow> rbind (s_event_stop fp thread_id s) (\<lambda>s. Inr (0, s)))"

definition cpu_print_mode :: "'a test_cpu_scheme st \<Rightarrow> 'a test_cpu_scheme st res" where
  "cpu_print_mode s =
     rbind (s_log LOG_INFO (''Doing CPU performance benchmark'' @ newline) s)
       (\<lambda>s. s_log LOG_NOTICE (''Prime numbers limit: '' @ print_int (sint (max_prime (snd s))) @ newline) s)"

definition cpu_done :: "'a test_cpu_scheme op" where
  "cpu_done s = Inr (0, s)"

definition cpu_test :: "fpenv \<Rightarrow> ('a test_cpu_scheme, request_u) sb_test" where
  "cpu_test fp = \<lparr>t_sname = ''cpu'', t_lname = ''CPU performance test'',
     op_init = Some cpu_init, op_prepare = None, op_thread_init = None, op_print_mode = Some cpu_print_mode,
     op_get_request = Some cpu_get_request, op_execute_request = Some (cpu_execute_request fp),
     op_print_stats = None, op_thread_done = None, op_cleanup = None, op_done = Some cpu_done,
     cmd_help = None, cmd_prepare = None, cmd_run = None, cmd_cleanup = None, t_args = Some cpu_args\<rparr>"

lemma cpu_test_ops:
  "op_get_request (cpu_test fp) = Some cpu_get_request" "op_execute_request (cpu_test fp) = Some (cpu_execute_request fp)"
  "op_thread_init (cpu_test fp) = None" "op_thread_done (cpu_test fp) = None"
  by (simp_all add: cpu_test_def)

section \<open>The primes\<close>

definition is_prime :: "nat \<Rightarrow> bool" where
  "is_prime p \<longleftrightarrow> 1 < p \<and> (\<forall>d\<in>{2..<p}. \<not> d dvd p)"

definition count_primes :: "nat \<Rightarrow> nat \<Rightarrow> nat" where
  "count_primes a b = card {p. a \<le> p \<and> p < b \<and> is_prime p}"

lemma count_primes_step:
  assumes "a < b"
  shows "count_primes a b = (if is_prime a then 1 else 0) + count_primes (Suc a) b"
proof -
  have "{p. a \<le> p \<and> p < b \<and> is_prime p} =
      (if is_prime a then {a} else {}) \<union> {p. Suc a \<le> p \<and> p < b \<and> is_prime p}"
    using assms le_eq_less_or_eq by (auto simp: Suc_le_eq)
  then show ?thesis
    by (simp add: count_primes_def card_insert_if)
qed

text \<open>Trial division up to any bound between the square root and the number decides primality.\<close>

lemma prime_by_trial:
  assumes "1 < c" and "c < (b + 1) * (b + 1)" and "b < c"
  shows "is_prime c \<longleftrightarrow> (\<forall>d\<in>{2..b}. \<not> d dvd c)"
proof
  assume small: "\<forall>d\<in>{2..b}. \<not> d dvd c"
  have "\<not> d dvd c" if d: "2 \<le> d" "d < c" for d
  proof
    assume "d dvd c"
    then obtain e where e: "c = d * e" by (rule dvdE)
    have "2 \<le> e"
      using e d assms(1) by (cases e rule: nat.exhaust [case_names z s]) (auto simp: le_Suc_eq not_less_eq_eq)
    moreover have "d \<le> b \<or> e \<le> b"
    proof (rule ccontr)
      assume "\<not> ?thesis"
      then have "(b + 1) * (b + 1) \<le> d * e" by (intro mult_le_mono) auto
      then show False using e assms(2) by simp
    qed
    ultimately show False
      using small e d by (metis atLeastAtMost_iff dvd_triv_left dvd_triv_right)
  qed
  then show "is_prime c" using assms(1) by (auto simp: is_prime_def)
qed (use assms in \<open>auto simp: is_prime_def\<close>)

section \<open>What a request computes\<close>

lemma u64_double_small:
  assumes "fp_ok fp" and "unat l \<le> 2 ^ 53"
  shows "u64_double fp l = real (unat l)"
proof -
  have "int (unat l) \<le> int (2 ^ 53)"
    using assms(2) by (rule of_nat_mono)
  then have "\<bar>int (unat l)\<bar> \<le> 2 ^ 53"
    by simp
  then show ?thesis
    using fp_round_int [OF assms(1)] by (metis of_int_of_nat_eq u64_double_def)
qed

lemma unat_ucast_u64: "unat (ucast (x :: u32) :: u64) = unat x"
  by (simp add: unsigned_ucast_eq take_bit_nat_eq_self less_le_trans [OF unsigned_less])

text \<open>The rounded square root lies where trial division needs it.\<close>

lemma sqrt_bound:
  assumes fp: "fp_ok fp" "sqrt_ok fp" and c: "3 \<le> c" "c < 2 ^ 32"
  defines "b \<equiv> nat \<lfloor>fp_round fp (sqrt (real c))\<rfloor>"
  shows "c < (b + 1) * (b + 1)" and "b < c" and "real l \<le> fp_round fp (sqrt (real c)) \<longleftrightarrow> l \<le> b"
proof -
  let ?t = "fp_round fp (sqrt (real c))"
  have t0: "0 \<le> ?t"
    using fp_round_nonneg [OF fp(1)] by simp
  then have le: "real l \<le> ?t \<longleftrightarrow> l \<le> b" for l
    unfolding b_def by (simp add: le_nat_iff le_floor_iff)
  have "real c \<le> (real (c - 1))\<^sup>2"
  proof -
    have "int c + 1 \<le> (int c - 1) * (int c - 1)"
      using c(1) mult_mono [of 2 "int c - 1" "int c - 1" "int c - 1"] by simp
    then have "real_of_int (int c) \<le> real_of_int ((int c - 1) * (int c - 1))" by linarith
    then show ?thesis using c(1) by (simp add: power2_eq_square of_nat_diff)
  qed
  then have "sqrt (real c) \<le> real (c - 1)"
    by (intro real_le_lsqrt) auto
  then have "?t \<le> real (c - 1)"
    using fp_round_le [OF fp(1)] fp_round_int [OF fp(1), of "int (c - 1)"] c by fastforce
  then show "b < c"
    using le [of b] c(1) by linarith
  show "c < (b + 1) * (b + 1)"
  proof (rule ccontr)
    assume "\<not> ?thesis"
    then have "(b + 1) * (b + 1) \<le> c" by simp
    then have "(real (b + 1))\<^sup>2 \<le> real c"
      by (metis of_nat_le_iff of_nat_mult power2_eq_square)
    then have "real (b + 1) \<le> sqrt (real c)"
      by (rule real_le_rsqrt)
    then have "fp_round fp (real (b + 1)) \<le> ?t"
      by (rule fp_round_le [OF fp(1)])
    moreover have "fp_round fp (real (b + 1)) = real (b + 1)"
      using fp_round_int [OF fp(1), of "int (b + 1)"] \<open>b < c\<close> c(2) by simp
    ultimately show False using le [of "b + 1"] by simp
  qed
  show "real l \<le> ?t \<longleftrightarrow> l \<le> b" by (rule le)
qed

lemma cpu_divisor_trial:
  assumes fp: "fp_ok fp" and t: "\<And>l. real l \<le> t \<longleftrightarrow> l \<le> b" and b: "b < 2 ^ 32"
    and l: "2 \<le> unat l" "unat l \<le> b + 1"
  shows "\<exists>r. cpu_divisor fp c t l = Some r \<and>
           (u64_double fp r > t \<longleftrightarrow> (\<forall>d\<in>{unat l..b}. \<not> d dvd unat c))"
  using l
proof (induction "b + 1 - unat l" arbitrary: l)
  case 0
  then have "unat l = b + 1" by simp
  then show ?case
    using t [of "b + 1"] b u64_double_small [OF fp, of l] by (subst cpu_divisor.simps) simp
next
  case (Suc k)
  then have le: "unat l \<le> b" by simp
  then have d: "u64_double fp l = real (unat l)" "real (unat l) \<le> t"
    using t [of "unat l"] b u64_double_small [OF fp, of l] by simp_all
  show ?case
  proof (cases "c mod l = 0")
    case True
    then have "unat l dvd unat c"
      by (metis dvd_eq_mod_eq_0 unat_0 unat_mod)
    then show ?thesis
      using True d le by (subst cpu_divisor.simps) auto
  next
    case False
    have s: "unat (l + 1) = Suc (unat l)"
      using le b unat_plus_no_wrap [of l 1] by simp
    have k: "k = b + 1 - unat (l + 1)"
      using Suc.hyps(2) s by simp
    have nd: "\<not> unat l dvd unat c"
      using False by (metis mod_eq_0_iff_dvd unat_eq_zero unat_mod)
    have split: "{unat l..b} = insert (unat l) {Suc (unat l)..b}"
      using le by auto
    obtain r where "cpu_divisor fp c t (l + 1) = Some r"
        "u64_double fp r > t \<longleftrightarrow> (\<forall>d\<in>{unat (l + 1)..b}. \<not> d dvd unat c)"
      using Suc.hyps(1) [of "l + 1"] k Suc.prems(1) s le by auto
    then show ?thesis
      using False d nd s split by (subst cpu_divisor.simps) simp
  qed
qed

lemma cpu_divisor_prime:
  assumes fp: "fp_ok fp" "sqrt_ok fp" and c: "3 \<le> unat c" "unat c < 2 ^ 32"
  shows "\<exists>r. cpu_divisor fp c (fp_sqrt fp (u64_double fp c)) 2 = Some r \<and>
           (u64_double fp r > fp_sqrt fp (u64_double fp c) \<longleftrightarrow> is_prime (unat c))"
proof -
  let ?t = "fp_round fp (sqrt (real (unat c)))"
  have "u64_double fp c = real (unat c)"
    using c(2) by (intro u64_double_small fp(1)) simp
  then have t: "fp_sqrt fp (u64_double fp c) = ?t"
    using fp(2) of_nat_0_le_iff [of "unat c"] by (simp only: sqrt_ok_def)
  obtain b where b: "unat c < (b + 1) * (b + 1)" "b < unat c" "\<And>l. real l \<le> ?t \<longleftrightarrow> l \<le> b"
    using sqrt_bound [OF fp c] by blast
  then have "1 \<le> b"
    using c(1) by (cases b) auto
  then obtain r where "cpu_divisor fp c ?t 2 = Some r" "u64_double fp r > ?t \<longleftrightarrow> (\<forall>d\<in>{2..b}. \<not> d dvd unat c)"
    using cpu_divisor_trial [OF fp(1) b(3), of 2 c] b(2) c(2) by auto
  then show ?thesis
    using t prime_by_trial [of "unat c" b] b(1,2) c(1) by auto
qed

lemma cpu_primes_counts:
  assumes fp: "fp_ok fp" "sqrt_ok fp" and "3 \<le> unat c" "unat c \<le> unat limit \<or> unat limit < 3 \<and> c = 3"
  shows "cpu_primes fp limit c n = Some (n + of_nat (count_primes (unat c) (unat limit)))"
  using assms(3,4)
proof (induction "unat limit - unat c" arbitrary: c n)
  case 0
  then have "\<not> c < ucast limit"
    by (auto simp: word_less_nat_alt unat_ucast_u64)
  moreover have "count_primes (unat c) (unat limit) = 0"
    using 0 by (auto simp: count_primes_def)
  ultimately show ?case by (subst cpu_primes.simps) simp
next
  case (Suc k)
  have lt: "unat c < unat limit" using Suc.hyps(2) by simp
  then have c: "c < ucast limit" "unat c < 2 ^ 32"
    using unsigned_less [of limit, where ?'a = nat] by (auto simp: word_less_nat_alt unat_ucast_u64)
  have s: "unat (c + 1) = Suc (unat c)"
    using c(2) unat_plus_no_wrap [of c 1] by simp
  obtain r where r: "cpu_divisor fp c (fp_sqrt fp (u64_double fp c)) 2 = Some r"
      "u64_double fp r > fp_sqrt fp (u64_double fp c) \<longleftrightarrow> is_prime (unat c)"
    using cpu_divisor_prime [OF fp Suc.prems(1) c(2)] by blast
  have "cpu_primes fp limit (c + 1) m = Some (m + of_nat (count_primes (Suc (unat c)) (unat limit)))" for m
    using Suc.hyps(1) [of "c + 1" m] Suc.hyps(2) s lt Suc.prems(1) by simp
  then show ?case
    using c(1) r count_primes_step [OF lt] by (subst cpu_primes.simps) (simp add: Let_def)
qed

text \<open>
  (C20) A request of the cpu test counts primes: with a correctly rounded square root the two nested loops end, and the
  counter ends at the number of primes from 3 up to, and without, the limit, for every limit the test accepts.
\<close>

theorem cpu_request_counts_primes:
  assumes "fp_ok fp" and "sqrt_ok fp"
  shows "cpu_primes fp limit 3 0 = Some (of_nat (count_primes 3 (unat limit)))"
  using cpu_primes_counts [OF assms, of 3 limit 0] by (cases "3 \<le> unat limit") auto

lemma cpu_request_counts_primes_witness: "cpu_primes fp_exact 12 3 0 = Some 4"
proof -
  have "{p. 3 \<le> p \<and> p < 12 \<and> is_prime p} = Set.filter is_prime {3, 4, 5, 6, 7, 8, 9, 10, 11}"
    by auto
  also have "\<dots> = {3, 5, 7, 11}"
    by code_simp
  finally have "count_primes 3 12 = 4" by (simp add: count_primes_def)
  then show ?thesis
    using cpu_request_counts_primes [OF fp_exact_ok sqrt_exact_ok, of 12] by simp
qed

section \<open>Serving requests\<close>

definition cpu_remaining :: "'a test_cpu_scheme st \<Rightarrow> nat" where
  "cpu_remaining s = unat (g_max_requests (s_globals s)) - unat (cpu_req_performed (snd s))"

definition cpu_ok :: "fpenv \<Rightarrow> nat \<Rightarrow> 'a test_cpu_scheme st \<Rightarrow> bool" where
  "cpu_ok fp i s \<longleftrightarrow> sqrt_ok fp \<and> thread_ready fp i (fst s) \<and> g_max_requests (s_globals s) > 0"

lemma cpu_request_ok:
  assumes "cpu_ok fp i s" and "run_ok (fst s)"
  shows "\<exists>pg2. cpu_execute_request fp r i s = Inr (0, (pg2, snd s)) \<and> cpu_ok fp i (pg2, snd s) \<and> run_ok pg2 \<and>
           pg_globals pg2 = s_globals s \<and> events_counted pg2 = events_counted (fst s) + 1"
proof -
  have fp: "fp_ok fp" "sqrt_ok fp"
    using assms(1) by (simp_all add: cpu_ok_def thread_ready_def)
  obtain pg1 where s1: "s_event_start fp i s = Inr (pg1, snd s)" "thread_ready fp i pg1" "event_frame (fst s) pg1"
      "events_counted pg1 = events_counted (fst s)"
    using event_start_ok assms(1) unfolding cpu_ok_def by blast
  obtain pg2 where s2: "s_event_stop fp i (pg1, snd s) = Inr (pg2, snd s)" "thread_ready fp i pg2" "event_frame pg1 pg2"
      "events_counted pg2 = events_counted (fst s) + 1"
    using event_stop_ok [of fp i "(pg1, snd s)"] s1(2,4) by auto
  have f: "event_frame (fst s) pg2"
    by (rule event_frame_trans [OF s1(3) s2(3)])
  then show ?thesis
    using s1(1) s2(1,2,4) cpu_primes_counts [OF fp, of 3] run_ok_event [OF assms(2) s2(2) f] assms(1)
    by (cases "3 \<le> unat (max_prime (snd s))") (auto simp: cpu_execute_request_def cpu_ok_def event_frame_def)
qed

interpretation cpu_requests: counted_source cpu_get_request "cpu_execute_request fp" cpu_remaining "cpu_ok fp" for fp
proof
  fix i and s :: "'a test_cpu_scheme st"
  assume s: "cpu_ok fp i s" "cpu_remaining s = 0"
  then show "\<exists>r. cpu_get_request i s = Inr ((SB_REQ_TYPE_NULL, r), s)"
    by (simp add: cpu_get_request_def cpu_limit_reached_def cpu_remaining_def cpu_ok_def word_le_nat_alt)
next
  fix i and s :: "'a test_cpu_scheme st"
  assume s: "cpu_ok fp i s" "run_ok (fst s)" "cpu_remaining s \<noteq> 0"
  let ?s1 = "(fst s, (snd s)\<lparr>cpu_req_performed := cpu_req_performed (snd s) + 1\<rparr>)"
  have lt: "unat (cpu_req_performed (snd s)) < unat (g_max_requests (s_globals s))"
    using s(3) by (simp add: cpu_remaining_def)
  then have g: "cpu_get_request i s = Inr ((SB_REQ_TYPE_CPU, None), ?s1)"
    by (simp add: cpu_get_request_def cpu_limit_reached_def word_le_nat_alt)
  have "unat (cpu_req_performed (snd s) + 1) = Suc (unat (cpu_req_performed (snd s)))"
    using lt unsigned_less [of "g_max_requests (s_globals s)", where ?'a = nat]
    by (subst unat_plus_no_wrap) auto
  then have r: "cpu_remaining s = Suc (cpu_remaining (pg, snd ?s1))" if "pg_globals pg = s_globals s" for pg
    using lt that by (simp add: cpu_remaining_def)
  have "cpu_ok fp i ?s1" "run_ok (fst ?s1)"
    using s(1,2) by (simp_all add: cpu_ok_def)
  then obtain pg2 where "cpu_execute_request fp (SB_REQ_TYPE_CPU, None) i ?s1 = Inr (0, (pg2, snd ?s1))"
      "cpu_ok fp i (pg2, snd ?s1)" "run_ok pg2" "pg_globals pg2 = s_globals s" "events_counted pg2 = events_counted (fst s) + 1"
    using cpu_request_ok [of fp i ?s1 "(SB_REQ_TYPE_CPU, None)"] by auto
  then show "\<exists>ty r s1 s2. cpu_get_request i s = Inr ((ty, r), s1) \<and> ty \<noteq> SB_REQ_TYPE_NULL \<and> cpu_ok fp i s1 \<and>
     run_ok (fst s1) \<and> cpu_execute_request fp (ty, r) i s1 = Inr (0, s2) \<and> cpu_ok fp i s2 \<and> run_ok (fst s2) \<and>
     cpu_remaining s = Suc (cpu_remaining s2) \<and> s_globals s2 = s_globals s \<and> events_counted (fst s2) = events_counted (fst s) + 1"
    using g r [of pg2] \<open>cpu_ok fp i ?s1\<close> \<open>run_ok (fst ?s1)\<close>
    by (intro exI [of _ SB_REQ_TYPE_CPU] exI [of _ None] exI [of _ ?s1] exI [of _ "(pg2, snd ?s1)"]) simp
next
  fix i pg pg' and t :: "'a test_cpu_scheme"
  assume "cpu_ok fp i (pg, t)" "run_frame pg pg'"
  then show "cpu_ok fp i (pg', t) \<and> cpu_remaining (pg', t) = cpu_remaining (pg, t)"
    using thread_ready_between [of fp i pg pg'] by (auto simp: cpu_ok_def cpu_remaining_def run_frame_def)
qed

text \<open>
  (C21) A worker of the cpu test ends and does its work exactly: without a time limit and with a limit of requests, the thread
  function leaves its loop after serving exactly the requests that were left, and the histogram of
  the logger has counted exactly that many events more.
\<close>

theorem cpu_worker_serves_limit:
  assumes "fp_ok fp" and "sqrt_ok fp" and "oper_ready fp (pg_w pg)" and "i < length (lg_timers (w_log (pg_w pg)))"
    and "run_ok pg" and "g_max_time (pg_globals pg) = 0" and "g_error (pg_globals pg) = 0"
    and "0 < g_max_requests (pg_globals pg)" and "cpu_req_performed t \<le> g_max_requests (pg_globals pg)"
    and "unat (g_max_requests (pg_globals pg)) - unat (cpu_req_performed t) < fuel"
  shows "\<exists>s'. runner_thread fuel (cpu_test fp) i q (pg, t) = Inr (Left_loop, q, s') \<and>
           events_counted (fst s') = events_counted pg + of_nat (unat (g_max_requests (pg_globals pg) - cpu_req_performed t))"
proof -
  have ok: "cpu_ok fp i (upd_sg (\<lambda>g. g\<lparr>g_num_running := g_num_running g + 1\<rparr>) (pg, t))"
    using assms by (simp add: cpu_ok_def thread_ready_def upd_sg_def oper_ready_def logger_ready_def)
  have rem: "cpu_remaining (upd_sg (\<lambda>g. g\<lparr>g_num_running := g_num_running g + 1\<rparr>) (pg, t)) =
      unat (g_max_requests (pg_globals pg)) - unat (cpu_req_performed t)"
    by (simp add: cpu_remaining_def upd_sg_def)
  have "\<exists>s'. runner_thread fuel (cpu_test fp) i q (pg, t) = Inr (Left_loop, q, s') \<and>
      events_counted (fst s') = events_counted pg + of_nat (unat (g_max_requests (pg_globals pg)) - unat (cpu_req_performed t))"
    using cpu_requests.thread_serves_all [OF ok, of "cpu_test fp" fuel q] assms(5-7,10) unfolding rem
    by (auto simp: cpu_test_ops)
  then show ?thesis
    using assms(9) by (simp add: unat_word_minus)
qed

lemma cpu_worker_serves_limit_witness:
  "\<exists>s'. runner_thread 6 (cpu_test fp_exact) 1 sample_queue (worker_prog 5, \<lparr>max_prime = 10, cpu_req_performed = 0\<rparr>) =
          Inr (Left_loop, sample_queue, s') \<and> events_counted (fst s') = events_counted (worker_prog 5) + 5"
  using cpu_worker_serves_limit [OF fp_exact_ok sqrt_exact_ok, of "worker_prog 5" 1 "\<lparr>max_prime = 10, cpu_req_performed = 0\<rparr>" 6 sample_queue]
    worker_prog_ready(1) [of 5] worker_prog_ready(2) [of 1 5]
  by (simp add: thread_ready_def)

section \<open>Several threads\<close>

text \<open>
  The threads of the test at the counter: a thread that finds the limit not reached goes on to the mutex, where it counts its request.
  The state is the counter and the set of threads between the two.
\<close>

inductive cpu_step :: "u32 \<Rightarrow> nat \<Rightarrow> u32 \<times> nat set \<Rightarrow> u32 \<times> nat set \<Rightarrow> bool"
  for max_requests :: u32 and num_threads :: nat where
  pass: "i < num_threads \<Longrightarrow> i \<notin> passed \<Longrightarrow> \<not> cpu_limit_reached max_requests performed \<Longrightarrow>
         cpu_step max_requests num_threads (performed, passed) (performed, insert i passed)"
| count: "i \<in> passed \<Longrightarrow>
         cpu_step max_requests num_threads (performed, passed) (performed + 1, passed - {i})"

inductive_cases cpu_stepE: "cpu_step max_requests num_threads s s'"

definition cpu_counter_inv :: "u32 \<Rightarrow> nat \<Rightarrow> u32 \<times> nat set \<Rightarrow> bool" where
  "cpu_counter_inv limit n s \<longleftrightarrow>
     snd s \<subseteq> {..<n} \<and> unat (fst s) + card (snd s) < unat limit + n"

lemma cpu_step_inv:
  assumes "cpu_counter_inv limit n s" and "cpu_step limit n s s'" and "0 < limit" and "unat limit + n < 2 ^ 32"
  shows "cpu_counter_inv limit n s'"
  using assms(2)
proof (rule cpu_stepE)
  fix i passed performed
  assume s: "s = (performed, passed)" "s' = (performed, insert i passed)" "i < n" "i \<notin> passed"
    "\<not> cpu_limit_reached limit performed"
  have sub: "insert i passed \<subseteq> {..<n}"
    using assms(1) s(1,3) by (simp add: cpu_counter_inv_def)
  then have "card (insert i passed) \<le> n"
    using card_mono [of "{..<n}"] by auto
  moreover have "unat performed < unat limit"
    using s(5) assms(3) by (simp add: cpu_limit_reached_def word_le_nat_alt)
  ultimately show ?thesis
    using s(2) sub by (simp add: cpu_counter_inv_def)
next
  fix i passed performed
  assume s: "s = (performed, passed)" "s' = (performed + 1, passed - {i})" "i \<in> passed"
  have fin: "finite passed"
    using assms(1) s(1) finite_subset by (auto simp: cpu_counter_inv_def)
  then have c: "card passed = Suc (card (passed - {i}))"
    using s(3) card_Suc_Diff1 [of passed i] by simp
  have "unat (performed + 1) = Suc (unat performed)"
    using assms(1,4) s(1) c by (subst unat_plus_no_wrap) (auto simp: cpu_counter_inv_def)
  then show ?thesis
    using assms(1) s(1,2) c by (auto simp: cpu_counter_inv_def)
qed

text \<open>
  (C37) The limit of requests is exceeded by less than the number of threads: however the threads of the cpu test
  interleave, the number of requests handed out is at most the limit plus the number of threads minus one.
\<close>

theorem cpu_requests_bounded:
  assumes "(cpu_step limit n)\<^sup>*\<^sup>* (0, {}) (performed, passed)" and "0 < limit" and "0 < n" and "unat limit + n < 2 ^ 32"
  shows "unat performed \<le> unat limit + n - 1"
proof -
  have "cpu_counter_inv limit n (performed, passed)"
    using assms(1)
  proof (induction rule: rtranclp_induct)
    case base
    then show ?case using assms(3) by (simp add: cpu_counter_inv_def)
  next
    case (step s s')
    then show ?case using cpu_step_inv assms(2,4) by blast
  qed
  then have "unat performed + card passed < unat limit + n" by (simp add: cpu_counter_inv_def)
  then show ?thesis by linarith
qed

text \<open>The bound is reached: two threads serve two requests under a limit of one.\<close>

lemma cpu_overrun: "(cpu_step 1 2)\<^sup>*\<^sup>* (0, {}) (2, {})"
proof -
  have "cpu_step 1 2 (0, {}) (0, {0})" "cpu_step 1 2 (0, {0}) (0, {1, 0})"
    by (auto intro: cpu_step.pass simp: cpu_limit_reached_def)
  moreover have "cpu_step 1 2 (0, {1, 0}) (1, {0})" "cpu_step 1 2 (1, {0}) (2, {})"
    using cpu_step.count [of 1 "{1, 0}" 1 2 0] cpu_step.count [of 0 "{0}" 1 2 1] by simp_all
  ultimately show ?thesis by (meson converse_rtranclp_into_rtranclp rtranclp.rtrancl_refl)
qed

lemma cpu_requests_bounded_witness: "unat (2 :: u32) \<le> unat (1 :: u32) + 2 - 1 \<and> (cpu_step 1 2)\<^sup>*\<^sup>* (0, {}) (2, {})"
  using cpu_requests_bounded [OF cpu_overrun] cpu_overrun by simp

end
