(* ===== verification/TestThreads.thy ===== *)
theory TestThreads
  imports TestCpu
begin

text \<open>
  The threads and mutex tests, \<^verbatim>\<open>tests/threads/sb_threads.c\<close> and \<^verbatim>\<open>tests/mutex/sb_mutex.c\<close>. An array of
  mutexes is the list of their states (\<open>True\<close>: locked); locking a mutex that is locked does not return for
  the thread that is followed. The values \<^verbatim>\<open>rand\<close> returns are an arbitrary sequence.
\<close>

section \<open>Mutexes\<close>

definition s_malloc :: "'t st \<Rightarrow> bool \<times> 't st" where
  "s_malloc s =
     (case malloc (os_mem (pg_opts (fst s))) of (ok, m) \<Rightarrow>
        (ok, (set_opts ((pg_opts (fst s))\<lparr>os_mem := m\<rparr>) (fst s), snd s)))"

definition pthread_mutex_lock :: "bool list option \<Rightarrow> nat \<Rightarrow> bool list option res" where
  "pthread_mutex_lock ms i =
     (case ms of None \<Rightarrow> Inl Bad_access
      | Some ms \<Rightarrow> rbind (aread ms i) (\<lambda>locked. if locked then Inl Still_running else Inr (Some (ms[i := True]))))"

definition pthread_mutex_unlock :: "bool list option \<Rightarrow> nat \<Rightarrow> bool list option res" where
  "pthread_mutex_unlock ms i =
     (case ms of None \<Rightarrow> Inl Bad_access | Some ms \<Rightarrow> rbind (awrite ms i False) (\<lambda>ms. Inr (Some ms)))"

text \<open>Destroying the first mutexes of the array and releasing it.\<close>

definition mutexes_free :: "u32 \<Rightarrow> bool list option \<Rightarrow> bool list option res" where
  "mutexes_free n ms =
     (case ms of None \<Rightarrow> if n = 0 then Inr None else Inl Bad_access
      | Some ms \<Rightarrow> if unat n \<le> length ms then Inr None else Inl Out_of_bounds)"

definition all_free :: "u32 \<Rightarrow> bool list option \<Rightarrow> bool" where
  "all_free n ms \<longleftrightarrow> ms = Some (replicate (unat n) False)"

lemma lock_unlock:
  assumes "all_free n ms" and "i < unat n"
  shows "rbind (pthread_mutex_lock ms i) (\<lambda>ms. pthread_mutex_unlock ms i) = Inr ms"
proof -
  have "(replicate (unat n) False)[i := False] = replicate (unat n) False"
    using assms(2) by (intro list_update_same_conv [THEN iffD2]) auto
  then show ?thesis
    using assms by (simp add: all_free_def pthread_mutex_lock_def pthread_mutex_unlock_def)
qed

section \<open>The threads test\<close>

record test_threads = test_cpu +
  thread_yields :: u32
  thread_locks :: u32
  test_mutexes :: "bool list option"
  thr_req_performed :: u32

definition threads_args :: "sb_arg_t list" where
  "threads_args =
     [mk_arg ''thread-yields'' ''number of yields to do per request'' SB_ARG_TYPE_INT (Some ''1000''),
      mk_arg ''thread-locks'' ''number of locks per thread'' SB_ARG_TYPE_INT (Some ''8'')]"

definition threads_init :: "'a test_threads_scheme op" where
  "threads_init s =
     rbind (sb_get_value_int (pg_opts (fst s)) ''thread-yields'')
       (\<lambda>y. rbind (sb_get_value_int (pg_opts (fst s)) ''thread-locks'')
         (\<lambda>l. Inr (0, (fst s, (snd s)\<lparr>thread_yields := word_of_int y, thread_locks := word_of_int l, thr_req_performed := 0\<rparr>))))"

definition threads_prepare :: "'a test_threads_scheme op" where
  "threads_prepare s =
     (case s_malloc s of (ok, s) \<Rightarrow>
        if \<not> ok
        then rbind (s_log LOG_FATAL ''Memory allocation failure!'' (fst s, (snd s)\<lparr>test_mutexes := None\<rparr>)) (\<lambda>s. Inr (1, s))
        else Inr (0, (fst s, (snd s)\<lparr>test_mutexes := Some (replicate (unat (thread_locks (snd s))) False)\<rparr>)))"

definition threads_cleanup :: "'a test_threads_scheme op" where
  "threads_cleanup s =
     rbind (mutexes_free (thread_locks (snd s)) (test_mutexes (snd s)))
       (\<lambda>ms. Inr (0, (fst s, (snd s)\<lparr>test_mutexes := ms\<rparr>)))"

definition threads_get_request ::
  "nat \<Rightarrow> 'a test_threads_scheme st \<Rightarrow> (request_u sb_request \<times> 'a test_threads_scheme st) res" where
  "threads_get_request thread_id s =
     (let performed = thr_req_performed (snd s) in
      if g_max_requests (s_globals s) > 0 \<and> performed \<ge> g_max_requests (s_globals s)
      then Inr ((SB_REQ_TYPE_NULL, None), s)
      else if thread_locks (snd s) = 0 then Inl Div_zero
      else Inr ((SB_REQ_TYPE_THREADS, Some (Threads_request (performed mod thread_locks (snd s)))),
                (fst s, (snd s)\<lparr>thr_req_performed := performed + 1\<rparr>)))"

text \<open>The loop over the yields.\<close>

fun yield_loop :: "nat \<Rightarrow> nat \<Rightarrow> bool list option \<Rightarrow> bool list option res" where
  "yield_loop 0 lock_num ms = Inr ms"
| "yield_loop (Suc n) lock_num ms =
     rbind (rbind (pthread_mutex_lock ms lock_num) (\<lambda>ms. pthread_mutex_unlock ms lock_num)) (yield_loop n lock_num)"

definition threads_execute_request :: "fpenv \<Rightarrow> request_u sb_request \<Rightarrow> nat \<Rightarrow> 'a test_threads_scheme op" where
  "threads_execute_request fp sb_req thread_id s =
     rbind (s_event_start fp thread_id s)
       (\<lambda>s. case snd sb_req of
          Some (Threads_request lock_num) \<Rightarrow>
            rbind (yield_loop (unat (thread_yields (snd s))) (unat lock_num) (test_mutexes (snd s)))
              (\<lambda>ms. rbind (s_event_stop fp thread_id (fst s, (snd s)\<lparr>test_mutexes := ms\<rparr>)) (\<lambda>s. Inr (0, s)))
        | _ \<Rightarrow> Inl Uninit_read)"

definition threads_print_mode :: "'a test_threads_scheme st \<Rightarrow> 'a test_threads_scheme st res" where
  "threads_print_mode s =
     rbind (s_log LOG_INFO ''Doing thread subsystem performance test'' s)
       (\<lambda>s. s_log LOG_INFO (''Thread yields per test: '' @ print_int (sint (thread_yields (snd s))) @ '' Locks used: ''
               @ print_int (sint (thread_locks (snd s)))) s)"

definition threads_test :: "fpenv \<Rightarrow> ('a test_threads_scheme, request_u) sb_test" where
  "threads_test fp = \<lparr>t_sname = ''threads'', t_lname = ''Threads subsystem performance test'',
     op_init = Some threads_init, op_prepare = Some threads_prepare, op_thread_init = None,
     op_print_mode = Some threads_print_mode, op_get_request = Some threads_get_request,
     op_execute_request = Some (threads_execute_request fp), op_print_stats = None, op_thread_done = None,
     op_cleanup = None, op_done = Some threads_cleanup,
     cmd_help = None, cmd_prepare = None, cmd_run = None, cmd_cleanup = None, t_args = Some threads_args\<rparr>"

section \<open>The mutex test\<close>

text \<open>The last two fields are the sequence of values of \<^verbatim>\<open>rand\<close> and the number of calls made.\<close>

record test_mutex = test_threads +
  mutex_num :: u32
  mutex_loops :: u32
  mutex_locks :: u32
  mtx_thread_locks :: "bool list option"
  global_var :: u32
  c_rand :: "nat \<Rightarrow> nat"
  c_rand_calls :: nat

definition mutex_args :: "sb_arg_t list" where
  "mutex_args =
     [mk_arg ''mutex-num'' ''total size of mutex array'' SB_ARG_TYPE_INT (Some ''4096''),
      mk_arg ''mutex-locks'' ''number of mutex locks to do per thread'' SB_ARG_TYPE_INT (Some ''50000''),
      mk_arg ''mutex-loops'' ''number of empty loops to do inside mutex lock'' SB_ARG_TYPE_INT (Some ''10000'')]"

definition mutex_init :: "'a test_mutex_scheme op" where
  "mutex_init s =
     rbind (sb_get_value_int (pg_opts (fst s)) ''mutex-num'') (\<lambda>n.
     rbind (sb_get_value_int (pg_opts (fst s)) ''mutex-loops'') (\<lambda>l.
     rbind (sb_get_value_int (pg_opts (fst s)) ''mutex-locks'') (\<lambda>k.
       let s = (fst s, (snd s)\<lparr>mutex_num := word_of_int n, mutex_loops := word_of_int l, mutex_locks := word_of_int k\<rparr>) in
       case s_malloc s of (ok, s) \<Rightarrow>
         if \<not> ok
         then rbind (s_log LOG_FATAL ''Memory allocation failure!'' (fst s, (snd s)\<lparr>mtx_thread_locks := None\<rparr>)) (\<lambda>s. Inr (1, s))
         else Inr (0, (fst s, (snd s)\<lparr>mtx_thread_locks := Some (replicate (unat (mutex_num (snd s))) False)\<rparr>)))))"

definition mutex_done :: "'a test_mutex_scheme op" where
  "mutex_done s =
     rbind (mutexes_free (mutex_num (snd s)) (mtx_thread_locks (snd s)))
       (\<lambda>ms. Inr (0, (fst s, (snd s)\<lparr>mtx_thread_locks := ms\<rparr>)))"

definition mutex_get_request ::
  "nat \<Rightarrow> 'a test_mutex_scheme st \<Rightarrow> (request_u sb_request \<times> 'a test_mutex_scheme st) res" where
  "mutex_get_request thread_id s =
     Inr ((SB_REQ_TYPE_MUTEX, Some (Mutex_request (mutex_locks (snd s)) (mutex_loops (snd s)))), s)"

text \<open>One pass of the loop; the counting loop before the lock has no effect that is used.\<close>

definition mutex_pass :: "'a test_mutex_scheme \<Rightarrow> 'a test_mutex_scheme res" where
  "mutex_pass t =
     (if mutex_num t = 0 then Inl Div_zero
      else
        (let current_lock = c_rand t (c_rand_calls t) mod unat (mutex_num t); t = t\<lparr>c_rand_calls := c_rand_calls t + 1\<rparr> in
         rbind (pthread_mutex_lock (mtx_thread_locks t) current_lock)
           (\<lambda>ms. rbind (pthread_mutex_unlock ms current_lock)
             (\<lambda>ms. Inr (t\<lparr>global_var := global_var t + 1, mtx_thread_locks := ms\<rparr>)))))"

function mutex_loop :: "u32 \<Rightarrow> 'a test_mutex_scheme \<Rightarrow> 'a test_mutex_scheme res" where
  "mutex_loop nlocks t =
     rbind (mutex_pass t) (\<lambda>t. let nlocks = nlocks - 1 in if nlocks > 0 then mutex_loop nlocks t else Inr t)"
  by pat_completeness auto
termination
proof (relation "measure (\<lambda>(nlocks, t). unat (nlocks - 1))", goal_cases)
  case (2 nlocks t t' n)
  then have "0 < unat n"
    by (auto simp: unat_gt_0)
  then have "unat (n - 1) = unat n - 1"
    by (subst unat_word_minus) (simp_all add: word_le_nat_alt)
  then show ?case
    using 2 \<open>0 < unat n\<close> by simp
qed simp

declare mutex_loop.simps [simp del]

definition mutex_execute_request :: "fpenv \<Rightarrow> request_u sb_request \<Rightarrow> nat \<Rightarrow> 'a test_mutex_scheme op" where
  "mutex_execute_request fp sb_req thread_id s =
     rbind (s_event_start fp thread_id s)
       (\<lambda>s. case snd sb_req of
          Some (Mutex_request nlocks nloops) \<Rightarrow>
            rbind (mutex_loop nlocks (snd s))
              (\<lambda>t. rbind (s_event_stop fp thread_id (fst s, t)) (\<lambda>s. Inr (1, s)))
        | _ \<Rightarrow> Inl Uninit_read)"

definition mutex_print_mode :: "'a test_mutex_scheme st \<Rightarrow> 'a test_mutex_scheme st res" where
  "mutex_print_mode s = s_log LOG_INFO ''Doing mutex performance test'' s"

definition mutex_test :: "fpenv \<Rightarrow> ('a test_mutex_scheme, request_u) sb_test" where
  "mutex_test fp = \<lparr>t_sname = ''mutex'', t_lname = ''Mutex performance test'',
     op_init = Some mutex_init, op_prepare = None, op_thread_init = None, op_print_mode = Some mutex_print_mode,
     op_get_request = Some mutex_get_request, op_execute_request = Some (mutex_execute_request fp),
     op_print_stats = None, op_thread_done = None, op_cleanup = None, op_done = Some mutex_done,
     cmd_help = None, cmd_prepare = None, cmd_run = None, cmd_cleanup = None, t_args = Some mutex_args\<rparr>"

section \<open>Serving requests\<close>

lemma yield_loop_free:
  "all_free n ms \<Longrightarrow> lock_num < unat n \<Longrightarrow> yield_loop k lock_num ms = Inr ms"
  by (induction k) (simp_all add: lock_unlock)

definition threads_remaining :: "'a test_threads_scheme st \<Rightarrow> nat" where
  "threads_remaining s = unat (g_max_requests (s_globals s)) - unat (thr_req_performed (snd s))"

definition threads_ok :: "fpenv \<Rightarrow> nat \<Rightarrow> 'a test_threads_scheme st \<Rightarrow> bool" where
  "threads_ok fp i s \<longleftrightarrow> thread_ready fp i (fst s) \<and> g_max_requests (s_globals s) > 0 \<and>
     thread_locks (snd s) > 0 \<and> all_free (thread_locks (snd s)) (test_mutexes (snd s))"

lemma threads_request_ok:
  assumes "threads_ok fp i s" and "run_ok (fst s)" and "unat lock_num < unat (thread_locks (snd s))"
  shows "\<exists>pg2. threads_execute_request fp (ty, Some (Threads_request lock_num)) i s = Inr (0, (pg2, snd s)) \<and>
           threads_ok fp i (pg2, snd s) \<and> run_ok pg2 \<and> pg_globals pg2 = s_globals s \<and>
           events_counted pg2 = events_counted (fst s) + 1"
proof -
  obtain pg1 where s1: "s_event_start fp i s = Inr (pg1, snd s)" "thread_ready fp i pg1" "event_frame (fst s) pg1"
      "events_counted pg1 = events_counted (fst s)"
    using event_start_ok assms(1) unfolding threads_ok_def by blast
  obtain pg2 where s2: "s_event_stop fp i (pg1, snd s) = Inr (pg2, snd s)" "thread_ready fp i pg2" "event_frame pg1 pg2"
      "events_counted pg2 = events_counted (fst s) + 1"
    using event_stop_ok [of fp i "(pg1, snd s)"] s1(2,4) by auto
  have f: "event_frame (fst s) pg2"
    by (rule event_frame_trans [OF s1(3) s2(3)])
  have "yield_loop (unat (thread_yields (snd s))) (unat lock_num) (test_mutexes (snd s)) = Inr (test_mutexes (snd s))"
    using assms(1,3) by (intro yield_loop_free) (auto simp: threads_ok_def)
  then show ?thesis
    using s1(1) s2(1,2,4) run_ok_event [OF assms(2) s2(2) f] f assms(1)
    by (simp add: threads_execute_request_def threads_ok_def event_frame_def)
qed

interpretation threads_requests:
  counted_source threads_get_request "threads_execute_request fp" threads_remaining "threads_ok fp" for fp
proof
  fix i and s :: "'a test_threads_scheme st"
  assume s: "threads_ok fp i s" "threads_remaining s = 0"
  then show "\<exists>r. threads_get_request i s = Inr ((SB_REQ_TYPE_NULL, r), s)"
    by (simp add: threads_get_request_def threads_remaining_def threads_ok_def word_le_nat_alt)
next
  fix i and s :: "'a test_threads_scheme st"
  assume s: "threads_ok fp i s" "run_ok (fst s)" "threads_remaining s \<noteq> 0"
  let ?s1 = "(fst s, (snd s)\<lparr>thr_req_performed := thr_req_performed (snd s) + 1\<rparr>)"
  let ?k = "thr_req_performed (snd s) mod thread_locks (snd s)"
  have lt: "unat (thr_req_performed (snd s)) < unat (g_max_requests (s_globals s))"
    using s(3) by (simp add: threads_remaining_def)
  then have g: "threads_get_request i s = Inr ((SB_REQ_TYPE_THREADS, Some (Threads_request ?k)), ?s1)"
    using s(1) by (auto simp: threads_get_request_def threads_ok_def word_le_nat_alt Let_def)
  have "unat (thr_req_performed (snd s) + 1) = Suc (unat (thr_req_performed (snd s)))"
    using lt unsigned_less [of "g_max_requests (s_globals s)", where ?'a = nat]
    by (subst unat_plus_no_wrap) auto
  then have r: "threads_remaining s = Suc (threads_remaining (pg, snd ?s1))" if "pg_globals pg = s_globals s" for pg
    using lt that by (simp add: threads_remaining_def)
  have ok: "threads_ok fp i ?s1" "run_ok (fst ?s1)" "unat ?k < unat (thread_locks (snd ?s1))"
    using s(1,2) by (simp_all add: threads_ok_def unat_mod word_less_nat_alt)
  obtain pg2 where "threads_execute_request fp (SB_REQ_TYPE_THREADS, Some (Threads_request ?k)) i ?s1 = Inr (0, (pg2, snd ?s1))"
      "threads_ok fp i (pg2, snd ?s1)" "run_ok pg2" "pg_globals pg2 = s_globals s" "events_counted pg2 = events_counted (fst s) + 1"
    using threads_request_ok [OF ok] by auto
  then show "\<exists>ty r s1 s2. threads_get_request i s = Inr ((ty, r), s1) \<and> ty \<noteq> SB_REQ_TYPE_NULL \<and> threads_ok fp i s1 \<and>
     run_ok (fst s1) \<and> threads_execute_request fp (ty, r) i s1 = Inr (0, s2) \<and> threads_ok fp i s2 \<and> run_ok (fst s2) \<and>
     threads_remaining s = Suc (threads_remaining s2) \<and> s_globals s2 = s_globals s \<and>
     events_counted (fst s2) = events_counted (fst s) + 1"
    using g r [of pg2] ok(1,2)
    by (intro exI [of _ SB_REQ_TYPE_THREADS] exI [of _ "Some (Threads_request ?k)"] exI [of _ ?s1] exI [of _ "(pg2, snd ?s1)"]) simp
next
  fix i pg pg' and t :: "'a test_threads_scheme"
  assume "threads_ok fp i (pg, t)" "run_frame pg pg'"
  then show "threads_ok fp i (pg', t) \<and> threads_remaining (pg', t) = threads_remaining (pg, t)"
    using thread_ready_between [of fp i pg pg'] by (auto simp: threads_ok_def threads_remaining_def run_frame_def)
qed

lemma threads_prepare_ok:
  assumes "threads_prepare s = Inr (0, s')"
  shows "all_free (thread_locks (snd s)) (test_mutexes (snd s'))" and "snd s' = (snd s)\<lparr>test_mutexes := test_mutexes (snd s')\<rparr>"
    and "\<exists>m. fst s' = set_opts ((pg_opts (fst s))\<lparr>os_mem := m\<rparr>) (fst s)"
proof -
  obtain ok s1 where s1: "s_malloc s = (ok, s1)" "snd s1 = snd s" "\<exists>m. fst s1 = set_opts ((pg_opts (fst s))\<lparr>os_mem := m\<rparr>) (fst s)"
    by (cases "s_malloc s") (auto simp: s_malloc_def split: prod.splits)
  then have "s' = (fst s1, (snd s)\<lparr>test_mutexes := Some (replicate (unat (thread_locks (snd s))) False)\<rparr>)"
    using assms by (auto simp: threads_prepare_def rbind_eq_Inr split: if_splits)
  then show "all_free (thread_locks (snd s)) (test_mutexes (snd s'))" "snd s' = (snd s)\<lparr>test_mutexes := test_mutexes (snd s')\<rparr>"
      "\<exists>m. fst s' = set_opts ((pg_opts (fst s))\<lparr>os_mem := m\<rparr>) (fst s)"
    using s1(3) by (simp_all add: all_free_def)
qed

lemma threads_test_ops:
  "op_get_request (threads_test fp) = Some threads_get_request"
  "op_execute_request (threads_test fp) = Some (threads_execute_request fp)"
  "op_thread_init (threads_test fp) = None" "op_thread_done (threads_test fp) = None"
  by (simp_all add: threads_test_def)

text \<open>
  The threads test does its work and gives back its locks: once the preparation has succeeded, a worker ends
  after serving exactly the limit of requests, each measured once, no lock is left locked, and the array of mutexes is
  released without a fault at the end.
\<close>

lemma threads_test_completes:
  assumes "threads_prepare (pg, t) = Inr (0, s)"
    and "fp_ok fp" and "oper_ready fp (pg_w pg)" and "i < length (lg_timers (w_log (pg_w pg)))"
    and "run_ok pg" and "g_max_time (pg_globals pg) = 0" and "g_error (pg_globals pg) = 0"
    and "0 < g_max_requests (pg_globals pg)" and "thr_req_performed t = 0" and "0 < thread_locks t"
    and "unat (g_max_requests (pg_globals pg)) < fuel"
  shows "\<exists>s'. runner_thread fuel (threads_test fp) i q s = Inr (Left_loop, q, s') \<and>
           events_counted (fst s') = events_counted pg + of_nat (unat (g_max_requests (pg_globals pg))) \<and>
           all_free (thread_locks (snd s')) (test_mutexes (snd s')) \<and>
           threads_cleanup s' = Inr (0, (fst s', (snd s')\<lparr>test_mutexes := None\<rparr>))"
proof -
  obtain m where s: "fst s = set_opts ((pg_opts pg)\<lparr>os_mem := m\<rparr>) pg" "snd s = t\<lparr>test_mutexes := test_mutexes (snd s)\<rparr>"
      "all_free (thread_locks t) (test_mutexes (snd s))"
    using threads_prepare_ok [OF assms(1)] by auto
  then have t: "thread_locks (snd s) = thread_locks t" "thr_req_performed (snd s) = 0"
    using assms(9) by (metis test_threads.select_convs(2) test_threads.update_convs(3) test_threads.surjective,
        metis test_threads.select_convs(4) test_threads.update_convs(3) test_threads.surjective)
  let ?up = "upd_sg (\<lambda>g. g\<lparr>g_num_running := g_num_running g + 1\<rparr>) s"
  have ok: "threads_ok fp i ?up"
    using assms(2-4,8,10) s(1,3) t(1) by (simp add: threads_ok_def thread_ready_def upd_sg_def oper_ready_def logger_ready_def)
  have rem: "threads_remaining ?up = unat (g_max_requests (pg_globals pg))"
    using s(1) t(2) by (simp add: threads_remaining_def upd_sg_def)
  have "run_ok (fst s)" "events_counted (fst s) = events_counted pg" "pg_globals (fst s) = pg_globals pg"
    using assms(5) s(1) by (simp_all add: run_ok_def logger_ready_def events_counted_def)
  then obtain s' pg' where "runner_thread fuel (threads_test fp) i q s = Inr (Left_loop, q, s')" "threads_ok fp i (pg', snd s')"
      "events_counted (fst s') = events_counted pg + of_nat (unat (g_max_requests (pg_globals pg)))"
    using threads_requests.thread_serves_all [OF ok, of "threads_test fp" fuel q] assms(6,7,11) unfolding rem
    by (auto simp: threads_test_ops)
  then show ?thesis
    by (auto simp: threads_ok_def all_free_def threads_cleanup_def mutexes_free_def intro!: exI)
qed

lemma threads_test_completes_witness:
  "\<exists>s'. runner_thread 4 (threads_test fp_exact) 0 sample_queue
            (worker_prog 3, \<lparr>max_prime = 0, cpu_req_performed = 0, thread_yields = 2, thread_locks = 2,
               test_mutexes = Some (replicate 2 False), thr_req_performed = 0\<rparr>) = Inr (Left_loop, sample_queue, s') \<and>
          events_counted (fst s') = events_counted (worker_prog 3) + 3 \<and> all_free (thread_locks (snd s')) (test_mutexes (snd s'))"
proof -
  let ?t = "\<lparr>max_prime = 0, cpu_req_performed = 0, thread_yields = 2, thread_locks = 2, test_mutexes = None, thr_req_performed = 0\<rparr>"
  have "threads_prepare (worker_prog 3, ?t) = Inr (0, (worker_prog 3, ?t\<lparr>test_mutexes := Some (replicate 2 False)\<rparr>))"
    by (simp add: threads_prepare_def s_malloc_def worker_prog_def sample_world_def empty_opts_def)
  from threads_test_completes [OF this fp_exact_ok, of 0 4 sample_queue] show ?thesis
    using worker_prog_ready(1) [of 3] worker_prog_ready(2) [of 0 3] by (auto simp: thread_ready_def)
qed

section \<open>The mutex test locks\<close>

definition mutex_passes :: "u32 \<Rightarrow> nat" where
  "mutex_passes nlocks = (if nlocks = 0 then 2 ^ 32 else unat nlocks)"

lemma mutex_pass_ok:
  assumes "mutex_num t > 0" and "all_free (mutex_num t) (mtx_thread_locks t)"
  shows "mutex_pass t = Inr (t\<lparr>c_rand_calls := c_rand_calls t + 1, global_var := global_var t + 1\<rparr>)"
proof -
  let ?i = "c_rand t (c_rand_calls t) mod unat (mutex_num t)"
  have i: "?i < unat (mutex_num t)"
    using assms(1) by (simp add: word_less_nat_alt)
  obtain ms where ms: "pthread_mutex_lock (mtx_thread_locks t) ?i = Inr ms" "pthread_mutex_unlock ms ?i = Inr (mtx_thread_locks t)"
    using lock_unlock [OF assms(2) i] by (auto simp: rbind_eq_Inr)
  then show ?thesis
    using assms(1) by (simp add: mutex_pass_def Let_def word_neq_0_conv)
qed

lemma mutex_passes_step: "nlocks - 1 > 0 \<Longrightarrow> mutex_passes nlocks = Suc (mutex_passes (nlocks - 1))"
proof -
  assume n: "nlocks - 1 > 0"
  show ?thesis
  proof (cases "nlocks = 0")
    case True
    then show ?thesis by (simp add: mutex_passes_def unsigned_minus_1_eq_mask mask_eq_exp_minus_1)
  next
    case False
    then have "unat (nlocks - 1) = unat nlocks - 1"
      by (subst unat_word_minus) (simp_all add: word_le_nat_alt unat_gt_0 Suc_le_eq)
    then show ?thesis
      using False n by (auto simp: mutex_passes_def unat_gt_0)
  qed
qed

lemma mutex_loop_effect:
  assumes "mutex_num t > 0" and "all_free (mutex_num t) (mtx_thread_locks t)"
  shows "mutex_loop nlocks t =
     Inr (t\<lparr>c_rand_calls := c_rand_calls t + mutex_passes nlocks, global_var := global_var t + nlocks\<rparr>)"
  using assms
proof (induction nlocks t rule: mutex_loop.induct)
  case (1 nlocks t)
  let ?t = "t\<lparr>c_rand_calls := c_rand_calls t + 1, global_var := global_var t + 1\<rparr>"
  have p: "mutex_pass t = Inr ?t"
    using 1 mutex_pass_ok by blast
  show ?case
  proof (cases "nlocks - 1 > 0")
    case True
    have "mutex_loop (nlocks - 1) ?t =
        Inr (?t\<lparr>c_rand_calls := c_rand_calls ?t + mutex_passes (nlocks - 1), global_var := global_var ?t + (nlocks - 1)\<rparr>)"
      using 1 p True by simp
    then show ?thesis
      using True p mutex_passes_step [OF True] by (subst mutex_loop.simps) (simp add: Let_def)
  next
    case False
    then have "nlocks = 1"
      using word_neq_0_conv by fastforce
    then show ?thesis
      using p by (subst mutex_loop.simps) (simp add: mutex_passes_def)
  qed
qed

text \<open>
  A request of the mutex test: the loop over the locks ends, every mutex it takes is one of the array and is given
  back, the shared variable grows by the number of locks asked for, and the request returns 1, which ends the thread. The number of passes is the
  number of locks, except that no locks at all are taken as \<open>2\<^sup>3\<^sup>2\<close>, because the counter is decremented before it is tested.
\<close>

lemma mutex_request_effect:
  assumes "fp_ok fp" and "oper_ready fp (pg_w pg)" and "i < length (lg_timers (w_log (pg_w pg)))"
    and "0 < mutex_num t" and "all_free (mutex_num t) (mtx_thread_locks t)"
  shows "\<exists>pg'. mutex_execute_request fp (ty, Some (Mutex_request nlocks nloops)) i (pg, t) =
             Inr (1, (pg', t\<lparr>c_rand_calls := c_rand_calls t + (if nlocks = 0 then 2 ^ 32 else unat nlocks),
                             global_var := global_var t + nlocks\<rparr>)) \<and>
           events_counted pg' = events_counted pg + 1"
proof -
  let ?t = "t\<lparr>c_rand_calls := c_rand_calls t + mutex_passes nlocks, global_var := global_var t + nlocks\<rparr>"
  obtain pg1 where s1: "s_event_start fp i (pg, t) = Inr (pg1, t)" "thread_ready fp i pg1" "events_counted pg1 = events_counted pg"
    using event_start_ok [of fp i "(pg, t)"] assms(1-3) by (auto simp: thread_ready_def)
  obtain pg2 where "s_event_stop fp i (pg1, ?t) = Inr (pg2, ?t)" "events_counted pg2 = events_counted pg + 1"
    using event_stop_ok [of fp i "(pg1, ?t)"] s1(2,3) by auto
  then show ?thesis
    using s1(1) mutex_loop_effect [OF assms(4,5), of nlocks]
    by (auto simp: mutex_execute_request_def mutex_passes_def)
qed

definition mutex_sample :: test_mutex where
  "mutex_sample = \<lparr>max_prime = 0, cpu_req_performed = 0, thread_yields = 0, thread_locks = 0, test_mutexes = None,
     thr_req_performed = 0, mutex_num = 3, mutex_loops = 10, mutex_locks = 5, mtx_thread_locks = Some (replicate 3 False),
     global_var = 0, c_rand = (\<lambda>n. n * n), c_rand_calls = 0\<rparr>"

lemma mutex_request_effect_witness:
  "\<exists>pg' t'. mutex_execute_request fp_exact (SB_REQ_TYPE_MUTEX, Some (Mutex_request 5 10)) 1 (worker_prog 0, mutex_sample) =
             Inr (1, (pg', t')) \<and> global_var t' = 5 \<and> c_rand_calls t' = 5"
  using mutex_request_effect [OF fp_exact_ok, of "worker_prog 0" 1 mutex_sample SB_REQ_TYPE_MUTEX 5 10]
    worker_prog_ready(2) [of 1 0]
  by (auto simp: mutex_sample_def thread_ready_def all_free_def)

text \<open>The mutex test as a source of requests: the first execution ends the loop of the thread.\<close>

definition mutex_ok :: "fpenv \<Rightarrow> nat \<Rightarrow> 'a test_mutex_scheme st \<Rightarrow> bool" where
  "mutex_ok fp i s \<longleftrightarrow> thread_ready fp i (fst s) \<and> mutex_num (snd s) > 0 \<and> all_free (mutex_num (snd s)) (mtx_thread_locks (snd s))"

interpretation mutex_requests: request_source mutex_get_request "mutex_execute_request fp" "\<lambda>s. 0" "mutex_ok fp" for fp
proof
  fix i and s :: "'a test_mutex_scheme st"
  assume s: "mutex_ok fp i s" "run_ok (fst s)"
  obtain pg1 where s1: "s_event_start fp i s = Inr (pg1, snd s)" "thread_ready fp i pg1" "event_frame (fst s) pg1"
    using event_start_ok s(1) unfolding mutex_ok_def by blast
  let ?t = "(snd s)\<lparr>c_rand_calls := c_rand_calls (snd s) + mutex_passes (mutex_locks (snd s)),
                     global_var := global_var (snd s) + mutex_locks (snd s)\<rparr>"
  obtain pg2 where s2: "s_event_stop fp i (pg1, ?t) = Inr (pg2, ?t)" "thread_ready fp i pg2" "event_frame pg1 pg2"
    using event_stop_ok [of fp i "(pg1, ?t)"] s1(2) by auto
  have "run_ok pg2"
    by (rule run_ok_event [OF s(2) s2(2) event_frame_trans [OF s1(3) s2(3)]])
  moreover have "mutex_ok fp i (pg2, ?t)"
    using s(1) s2(2) by (simp add: mutex_ok_def)
  moreover have "mutex_execute_request fp (SB_REQ_TYPE_MUTEX, Some (Mutex_request (mutex_locks (snd s)) (mutex_loops (snd s)))) i s =
      Inr (1, (pg2, ?t))"
    using s(1) s1(1) s2(1) mutex_loop_effect [of "snd s"] by (simp add: mutex_execute_request_def mutex_ok_def)
  ultimately show "\<exists>ty r s1. mutex_get_request i s = Inr ((ty, r), s1) \<and> mutex_ok fp i s1 \<and> run_ok (fst s1) \<and>
     (ty \<noteq> SB_REQ_TYPE_NULL \<longrightarrow>
        (\<exists>rc s2. mutex_execute_request fp (ty, r) i s1 = Inr (rc, s2) \<and> mutex_ok fp i s2 \<and> run_ok (fst s2) \<and>
           (rc = 0 \<longrightarrow> (0 :: nat) < 0)))"
    using s unfolding mutex_get_request_def by auto
next
  fix i pg pg' and t :: "'a test_mutex_scheme"
  assume "mutex_ok fp i (pg, t)" "run_frame pg pg'"
  then show "mutex_ok fp i (pg', t) \<and> (0 :: nat) = 0"
    using thread_ready_between [of fp i pg pg'] by (simp add: mutex_ok_def)
qed

text \<open>
  A worker of the mutex test ends after one request, although the test never hands out a request that says there are no more: one
  iteration of the loop is enough.
\<close>

lemma mutex_worker_ends:
  assumes "fp_ok fp" and "oper_ready fp (pg_w pg)" and "i < length (lg_timers (w_log (pg_w pg)))" and "run_ok pg"
    and "0 < mutex_num t" and "all_free (mutex_num t) (mtx_thread_locks t)"
  shows "\<exists>q' s'. runner_thread 1 (mutex_test fp) i q (pg, t) = Inr (Left_loop, q', s')"
  by (rule mutex_requests.thread_ends [where fp = fp])
    (use assms in \<open>simp_all add: mutex_ok_def mutex_test_def thread_ready_def upd_sg_def oper_ready_def logger_ready_def\<close>)

lemma mutex_worker_ends_witness:
  "\<exists>q' s'. runner_thread 1 (mutex_test fp_exact) 1 sample_queue (worker_prog 0, mutex_sample) = Inr (Left_loop, q', s')"
  by (rule mutex_worker_ends)
    (use fp_exact_ok worker_prog_ready(1) [of 0] worker_prog_ready(2) [of 1 0] in
      \<open>simp_all add: mutex_sample_def thread_ready_def all_free_def\<close>)

end
