(* ===== verification/TestMemory.thy ===== *)
theory TestMemory
  imports TestThreads "HOL-Library.Signed_Division"
begin

text \<open>
  The memory test, \<^verbatim>\<open>tests/memory/sb_memory.c\<close>: it writes or reads a block of memory, shared by the threads or one per thread, in order or
  at one random place. A buffer is the list of its \<^verbatim>\<open>int\<close> elements, a NULL pointer a buffer without any; an index outside of it is a fault. Sizes are 64-bit words; those declared
  \<^verbatim>\<open>ssize_t\<close> and \<^verbatim>\<open>long long\<close> are read as signed numbers where the code compares them.
\<close>

section \<open>State and arguments\<close>

record test_memory = test_mutex +
  memory_block_size :: u64
  memory_total_size :: u64
  memory_scope :: sb_mem_scope_t
  memory_oper :: sb_mem_op_t
  memory_access_rnd :: bool
  memory_hugetlb :: bool
  total_ops :: u32
  total_bytes :: u64
  last_bytes :: u64
  buffers :: "u32 list list"
  mem_buffer :: "u32 list"

definition memory_args :: "sb_arg_t list" where
  "memory_args =
     [mk_arg ''memory-block-size'' ''size of memory block for test'' SB_ARG_TYPE_SIZE (Some ''1K''),
      mk_arg ''memory-total-size'' ''total size of data to transfer'' SB_ARG_TYPE_SIZE (Some ''100G''),
      mk_arg ''memory-scope'' ''memory access scope {global,local}'' SB_ARG_TYPE_STRING (Some ''global''),
      mk_arg ''memory-hugetlb'' ''allocate memory from HugeTLB pool'' SB_ARG_TYPE_FLAG (Some ''off''),
      mk_arg ''memory-oper'' ''type of memory operations {read, write, none}'' SB_ARG_TYPE_STRING (Some ''write''),
      mk_arg ''memory-access-mode'' ''memory access mode {seq,rnd}'' SB_ARG_TYPE_STRING (Some ''seq'')]"

section \<open>Allocation\<close>

definition LARGE_PAGE_SIZE :: u64 where "LARGE_PAGE_SIZE = 4 * 1024 * 1024"

text \<open>What the system calls for shared memory answer, by the size asked for, and the error they leave.\<close>

record shm_env =
  shm_get :: "u64 \<Rightarrow> bool"
  shm_at :: "u64 \<Rightarrow> bool"
  shm_errno :: int
  shm_strerror :: string

unbundle bit_operations_syntax

definition hugetlb_size :: "u64 \<Rightarrow> u64" where
  "hugetlb_size sz = ((sz - 1) AND NOT LARGE_PAGE_SIZE) + LARGE_PAGE_SIZE"

definition hugetlb_alloc :: "shm_env \<Rightarrow> u64 \<Rightarrow> 't st \<Rightarrow> (bool \<times> 't st) res" where
  "hugetlb_alloc env sz s =
     (let sz = hugetlb_size sz; fail = (\<lambda>m. rbind (s_world (log_errno LOG_FATAL (shm_errno env) (shm_strerror env) m) s) (\<lambda>s. Inr (False, s))) in
      if \<not> shm_get env sz
      then fail (''Failed to allocate '' @ print_int (sint (ucast sz :: u32)) @ '' bytes from HugeTLB memory.'')
      else if \<not> shm_at env sz then fail ''Failed to attach shared memory segment,''
      else Inr (True, s))"

text \<open>A block of the test, from the pool of large pages or from the heap.\<close>

definition alloc_block :: "shm_env \<Rightarrow> 'a test_memory_scheme st \<Rightarrow> (bool \<times> 'a test_memory_scheme st) res" where
  "alloc_block env s =
     (if memory_hugetlb (snd s) then hugetlb_alloc env (memory_block_size (snd s)) s else Inr (s_malloc s))"

abbreviation zero_block :: "u64 \<Rightarrow> u32 list" where
  "zero_block sz \<equiv> replicate (unat (sz div 4)) 0"

definition mem_fail :: "string \<Rightarrow> 't st \<Rightarrow> (int \<times> 't st) res" where
  "mem_fail m s = rbind (s_log LOG_FATAL m s) (\<lambda>s. Inr (1, s))"

section \<open>Initialisation\<close>

text \<open>The options that choose between names; a missing string option would be a NULL pointer for \<^verbatim>\<open>strcmp\<close>.\<close>

definition memory_choose :: "string \<Rightarrow> (string \<times> ('a test_memory_scheme \<Rightarrow> 'a test_memory_scheme)) list \<Rightarrow> 'a test_memory_scheme op" where
  "memory_choose name choices s =
     (case sb_get_value_string (pg_opts (fst s)) name of
        None \<Rightarrow> Inl Null_deref
      | Some v \<Rightarrow>
          (case map_of choices v of
             Some f \<Rightarrow> Inr (0, (fst s, f (snd s)))
           | None \<Rightarrow> mem_fail (''Invalid value for '' @ name @ '': '' @ v) s))"

fun alloc_buffers :: "shm_env \<Rightarrow> nat list \<Rightarrow> 'a test_memory_scheme op" where
  "alloc_buffers env [] s = Inr (0, s)"
| "alloc_buffers env (i # is) s =
     rbind (alloc_block env s)
       (\<lambda>(ok, s). if \<not> ok then mem_fail (''Failed to allocate buffer for thread #'' @ print_nat i @ ''!'') s
          else alloc_buffers env is (fst s, (snd s)\<lparr>buffers := buffers (snd s) @ [zero_block (memory_block_size (snd s))]\<rparr>))"

definition memory_allocate :: "shm_env \<Rightarrow> 'a test_memory_scheme op" where
  "memory_allocate env s =
     (case memory_scope (snd s) of
        SB_MEM_SCOPE_GLOBAL \<Rightarrow>
          rbind (alloc_block env s)
            (\<lambda>(ok, s). if \<not> ok then mem_fail ''Failed to allocate buffer!'' (fst s, (snd s)\<lparr>mem_buffer := []\<rparr>)
               else Inr (0, (fst s, (snd s)\<lparr>mem_buffer := zero_block (memory_block_size (snd s))\<rparr>)))
      | SB_MEM_SCOPE_LOCAL \<Rightarrow>
          (case s_malloc s of (ok, s) \<Rightarrow>
             if \<not> ok then mem_fail ''Failed to allocate buffers array!'' s
             else alloc_buffers env [0..<unat (g_num_threads (s_globals s))] (fst s, (snd s)\<lparr>buffers := []\<rparr>)))"

definition memory_init :: "shm_env \<Rightarrow> 'a test_memory_scheme op" where
  "memory_init env s =
     (let s = (fst s, (snd s)\<lparr>memory_block_size := sb_get_value_size (pg_opts (fst s)) ''memory-block-size''\<rparr>) in
      if memory_block_size (snd s) mod 4 \<noteq> 0 then mem_fail ''memory-block-size must be a multiple of 4!'' s
      else
        (let s = (fst s, (snd s)\<lparr>memory_total_size := sb_get_value_size (pg_opts (fst s)) ''memory-total-size''\<rparr>) in
         sthen (memory_choose ''memory-scope''
             [(''global'', \<lambda>t. t\<lparr>memory_scope := SB_MEM_SCOPE_GLOBAL\<rparr>), (''local'', \<lambda>t. t\<lparr>memory_scope := SB_MEM_SCOPE_LOCAL\<rparr>)])
        (sthen (\<lambda>s. Inr (0, (fst s, (snd s)\<lparr>memory_hugetlb := sb_get_value_flag (pg_opts (fst s)) ''memory-hugetlb''\<rparr>)))
        (sthen (memory_choose ''memory-oper''
             [(''write'', \<lambda>t. t\<lparr>memory_oper := SB_MEM_OP_WRITE\<rparr>), (''read'', \<lambda>t. t\<lparr>memory_oper := SB_MEM_OP_READ\<rparr>),
              (''none'', \<lambda>t. t\<lparr>memory_oper := SB_MEM_OP_NONE\<rparr>)])
        (sthen (memory_choose ''memory-access-mode''
             [(''seq'', \<lambda>t. t\<lparr>memory_access_rnd := False\<rparr>), (''rnd'', \<lambda>t. t\<lparr>memory_access_rnd := True\<rparr>)])
               (memory_allocate env)))) s))"

section \<open>Requests\<close>

definition memory_get_request ::
  "nat \<Rightarrow> 'a test_memory_scheme st \<Rightarrow> (request_u sb_request \<times> 'a test_memory_scheme st) res" where
  "memory_get_request thread_id s =
     (let t = snd s in
      if sint (total_bytes t) \<ge> sint (memory_total_size t) then Inr ((SB_REQ_TYPE_NULL, None), s)
      else Inr ((SB_REQ_TYPE_MEMORY, Some (Mem_request (memory_oper t) (memory_block_size t) (memory_scope t))),
                (fst s, t\<lparr>total_ops := total_ops t + 1, total_bytes := total_bytes t + memory_block_size t\<rparr>)))"

text \<open>The pointer loops over a buffer from an index up to the end of the block.\<close>

fun mem_write_seq :: "nat \<Rightarrow> nat \<Rightarrow> u32 list \<Rightarrow> u32 list res" where
  "mem_write_seq i 0 buf = Inr buf"
| "mem_write_seq i (Suc n) buf = rbind (awrite buf i 0) (mem_write_seq (Suc i) n)"

fun mem_read_seq :: "nat \<Rightarrow> nat \<Rightarrow> u32 list \<Rightarrow> u32 list res" where
  "mem_read_seq i 0 buf = Inr buf"
| "mem_read_seq i (Suc n) buf = rbind (aread buf i) (\<lambda>_. mem_read_seq (Suc i) n buf)"

text \<open>The random place, computed in floating point; a value no \<^verbatim>\<open>int\<close> can hold is undefined behaviour, as is a negative index.\<close>

definition mem_index :: "fpenv \<Rightarrow> nat \<Rightarrow> u64 \<Rightarrow> nat res" where
  "mem_index fp rnd sz =
     (let x = fmul fp (fdiv fp (real rnd) (real SB_MAX_RND)) (u64_double fp (sz div 4)); idx = (if x \<ge> 0 then \<lfloor>x\<rfloor> else \<lceil>x\<rceil>)
      in if 0 \<le> idx \<and> idx \<le> INT_MAX then Inr (nat idx) else Inl Out_of_bounds)"

fun mem_write_rnd :: "fpenv \<Rightarrow> nat \<Rightarrow> u64 \<Rightarrow> nat \<Rightarrow> u32 list \<Rightarrow> u32 list res" where
  "mem_write_rnd fp rnd sz 0 buf = Inr buf"
| "mem_write_rnd fp rnd sz (Suc n) buf =
     rbind (mem_index fp rnd sz) (\<lambda>idx. rbind (awrite buf idx 0) (mem_write_rnd fp rnd sz n))"

fun mem_read_rnd :: "fpenv \<Rightarrow> nat \<Rightarrow> u64 \<Rightarrow> nat \<Rightarrow> u32 list \<Rightarrow> u32 list res" where
  "mem_read_rnd fp rnd sz 0 buf = Inr buf"
| "mem_read_rnd fp rnd sz (Suc n) buf =
     rbind (mem_index fp rnd sz) (\<lambda>idx. rbind (aread buf idx) (\<lambda>_. mem_read_rnd fp rnd sz n buf))"

text \<open>The accesses of a request; \<open>None\<close> is the default branch of the two switches.\<close>

definition mem_access :: "fpenv \<Rightarrow> bool \<Rightarrow> sb_mem_op_t \<Rightarrow> nat \<Rightarrow> u64 \<Rightarrow> (u32 list \<Rightarrow> u32 list res) option" where
  "mem_access fp rnd_mode ty rnd sz =
     (if rnd_mode
      then (case ty of
              SB_MEM_OP_WRITE \<Rightarrow> Some (mem_write_rnd fp rnd sz (nat (sint sz)))
            | SB_MEM_OP_READ \<Rightarrow> Some (mem_read_rnd fp rnd sz (nat (sint sz)))
            | SB_MEM_OP_NONE \<Rightarrow> None)
      else (case ty of
              SB_MEM_OP_NONE \<Rightarrow> Some Inr
            | SB_MEM_OP_WRITE \<Rightarrow> Some (mem_write_seq 0 (unat (sz div 4)))
            | SB_MEM_OP_READ \<Rightarrow> Some (mem_read_seq 0 (unat (sz div 4)))))"

definition mem_op_num :: "sb_mem_op_t \<Rightarrow> int" where
  "mem_op_num ty = (case ty of SB_MEM_OP_NONE \<Rightarrow> 0 | SB_MEM_OP_READ \<Rightarrow> 1 | SB_MEM_OP_WRITE \<Rightarrow> 2)"

definition get_buf :: "sb_mem_scope_t \<Rightarrow> nat \<Rightarrow> 'a test_memory_scheme \<Rightarrow> u32 list res" where
  "get_buf scope thread_id t =
     (case scope of
        SB_MEM_SCOPE_GLOBAL \<Rightarrow> Inr (mem_buffer t)
      | SB_MEM_SCOPE_LOCAL \<Rightarrow> aread (buffers t) thread_id)"

definition put_buf :: "sb_mem_scope_t \<Rightarrow> nat \<Rightarrow> u32 list \<Rightarrow> 'a test_memory_scheme \<Rightarrow> 'a test_memory_scheme" where
  "put_buf scope thread_id b t =
     (case scope of
        SB_MEM_SCOPE_GLOBAL \<Rightarrow> t\<lparr>mem_buffer := b\<rparr>
      | SB_MEM_SCOPE_LOCAL \<Rightarrow> t\<lparr>buffers := (buffers t)[thread_id := b]\<rparr>)"

definition memory_execute_request :: "fpenv \<Rightarrow> request_u sb_request \<Rightarrow> nat \<Rightarrow> 'a test_memory_scheme op" where
  "memory_execute_request fp sb_req thread_id s =
     (case snd sb_req of
        Some (Mem_request ty block_size scope) \<Rightarrow>
          (let t = snd s; rnd_mode = memory_access_rnd t in
           rbind (get_buf scope thread_id t) (\<lambda>buf.
             case (if rnd_mode then sb_rnd (pg_rand (fst s)) else (0, pg_rand (fst s))) of (rnd, r) \<Rightarrow>
               rbind (s_event_start fp thread_id ((fst s)\<lparr>pg_rand := r\<rparr>, t)) (\<lambda>s.
                 case mem_access fp rnd_mode ty rnd (memory_block_size t) of
                   None \<Rightarrow> rbind (s_log LOG_FATAL (''Unknown memory request type:'' @ print_int (mem_op_num ty) @ ''. Aborting...'' @ newline) s)
                             (\<lambda>s. Inr (1, s))
                 | Some f \<Rightarrow> rbind (f buf)
                     (\<lambda>b. rbind (s_event_stop fp thread_id (fst s, put_buf scope thread_id b (snd s))) (\<lambda>s. Inr (0, s))))))
      | _ \<Rightarrow> Inl Uninit_read)"

section \<open>Reports\<close>

definition memory_print_mode :: "'a test_memory_scheme st \<Rightarrow> 'a test_memory_scheme st res" where
  "memory_print_mode s =
     (let t = snd s; info = s_log LOG_INFO in
      rbind (info ''Doing memory operations speed test'' s) (\<lambda>s.
      rbind (info (''Memory block size: '' @ print_int (sint (memory_block_size t) sdiv 1024) @ ''K'' @ newline) s) (\<lambda>s.
      rbind (info (''Memory transfer size: '' @ print_int (sint (memory_total_size t) sdiv 1024 sdiv 1024) @ ''M'' @ newline) s) (\<lambda>s.
      rbind (info (''Memory operations type: ''
               @ (case memory_oper t of SB_MEM_OP_READ \<Rightarrow> ''read'' | SB_MEM_OP_WRITE \<Rightarrow> ''write'' | SB_MEM_OP_NONE \<Rightarrow> ''none'')) s) (\<lambda>s.
        info (''Memory scope type: '' @ (case memory_scope t of SB_MEM_SCOPE_GLOBAL \<Rightarrow> ''global'' | SB_MEM_SCOPE_LOCAL \<Rightarrow> ''local'')) s)))))"

text \<open>\<^verbatim>\<open>sb_timer_split\<close> of a global timer.\<close>

definition s_split ::
  "(sb_globals_t \<Rightarrow> sb_timer_t) \<Rightarrow> (sb_timer_t \<Rightarrow> sb_globals_t \<Rightarrow> sb_globals_t) \<Rightarrow> 't st \<Rightarrow> (u64 \<times> 't st) res" where
  "s_split sel put s = rbind (w_split sel put (pg_w (fst s))) (\<lambda>(v, w). Inr (v, ((fst s)\<lparr>pg_w := w\<rparr>, snd s)))"

definition MEGABYTE :: real where "MEGABYTE = 1024 * 1024"

definition s64_double :: "fpenv \<Rightarrow> u64 \<Rightarrow> real" where
  "s64_double fp x = fp_round fp (real_of_int (sint x))"

text \<open>A value per second, to two places; a division by zero prints as the GNU library does.\<close>

definition fmt_rate :: "fpenv \<Rightarrow> nat \<Rightarrow> real \<Rightarrow> real \<Rightarrow> string" where
  "fmt_rate fp w x seconds =
     pad_left w (if seconds = 0 then (if x = 0 then ''-nan'' else if x < 0 then ''-inf'' else ''inf'')
                 else fmt_fixed 2 (fdiv fp x seconds))"

definition memory_print_intermediate :: "fpenv \<Rightarrow> 'a test_memory_scheme st \<Rightarrow> 'a test_memory_scheme st res" where
  "memory_print_intermediate fp s =
     rbind (s_split g_exec_timer (\<lambda>t g. g\<lparr>g_exec_timer := t\<rparr>) s) (\<lambda>(ns, s).
     rbind (s_world (log_timestamp fp LOG_NOTICE (g_exec_timer (s_globals s))
              (fmt_rate fp 4 (fdiv fp (s64_double fp (total_bytes (snd s) - last_bytes (snd s))) MEGABYTE) (NS2SEC fp ns) @ '' MB/sec,'')) s)
       (\<lambda>s. Inr (fst s, (snd s)\<lparr>last_bytes := total_bytes (snd s)\<rparr>)))"

definition memory_report :: "fpenv \<Rightarrow> real \<Rightarrow> 'a test_memory_scheme \<Rightarrow> log_req list" where
  "memory_report fp seconds t =
     (let mb = fdiv fp (s64_double fp (total_bytes t)) MEGABYTE in
      (LOG_NOTICE, ''Operations performed: '' @ print_int (sint (total_ops t)) @ '' (''
         @ fmt_rate fp 8 (real (unat (total_ops t))) seconds @ '' ops/sec)'' @ newline) #
      (if memory_oper t \<noteq> SB_MEM_OP_NONE
       then [(LOG_NOTICE, fmt_f 4 2 mb @ '' MB transferred ('' @ fmt_rate fp 4 mb seconds @ '' MB/sec)'' @ newline)]
       else []))"

definition memory_print_cumulative :: "fpenv \<Rightarrow> 'a test_memory_scheme st \<Rightarrow> 'a test_memory_scheme st res" where
  "memory_print_cumulative fp s =
     rbind (s_split g_cumulative_timer1 (\<lambda>t g. g\<lparr>g_cumulative_timer1 := t\<rparr>) s) (\<lambda>(ns, s).
     rbind (s_world (log_reqs (memory_report fp (NS2SEC fp ns) (snd s))) s) (\<lambda>s.
       let s = (fst s, (snd s)\<lparr>total_ops := 0, total_bytes := 0\<rparr>) in
       if sb_timer_initialized (g_exec_timer (s_globals s))
       then rbind (s_split g_exec_timer (\<lambda>t g. g\<lparr>g_exec_timer := t\<rparr>) s) (\<lambda>(_, s). Inr s)
       else Inr s))"

definition memory_print_stats :: "fpenv \<Rightarrow> sb_stat_t \<Rightarrow> 'a test_memory_scheme st \<Rightarrow> 'a test_memory_scheme st res" where
  "memory_print_stats fp ty s =
     (case ty of SB_STAT_INTERMEDIATE \<Rightarrow> memory_print_intermediate fp s | SB_STAT_CUMULATIVE \<Rightarrow> memory_print_cumulative fp s)"

definition memory_test :: "fpenv \<Rightarrow> shm_env \<Rightarrow> ('a test_memory_scheme, request_u) sb_test" where
  "memory_test fp env = \<lparr>t_sname = ''memory'', t_lname = ''Memory functions speed test'',
     op_init = Some (memory_init env), op_prepare = None, op_thread_init = None, op_print_mode = Some memory_print_mode,
     op_get_request = Some memory_get_request, op_execute_request = Some (memory_execute_request fp),
     op_print_stats = Some (memory_print_stats fp), op_thread_done = None, op_cleanup = None, op_done = None,
     cmd_help = None, cmd_prepare = None, cmd_run = None, cmd_cleanup = None, t_args = Some memory_args\<rparr>"

section \<open>Accesses stay inside the block\<close>

lemma mem_write_seq_ok:
  "i + n \<le> length buf \<Longrightarrow> \<exists>b. mem_write_seq i n buf = Inr b \<and> length b = length buf"
proof (induction n arbitrary: i buf)
  case (Suc n)
  then show ?case using Suc.IH [of "Suc i" "buf[i := 0]"] by auto
qed simp

lemma mem_read_seq_ok: "i + n \<le> length buf \<Longrightarrow> mem_read_seq i n buf = Inr buf"
  by (induction n arbitrary: i) simp_all

lemma mem_write_rnd_ok:
  "mem_index fp rnd sz = Inr k \<Longrightarrow> k < length buf \<Longrightarrow> \<exists>b. mem_write_rnd fp rnd sz n buf = Inr b \<and> length b = length buf"
proof (induction n arbitrary: buf)
  case (Suc n)
  then show ?case using Suc.IH [of "buf[k := 0]"] by auto
qed simp

lemma mem_read_rnd_ok:
  "mem_index fp rnd sz = Inr k \<Longrightarrow> k < length buf \<Longrightarrow> mem_read_rnd fp rnd sz n buf = Inr buf"
  by (induction n) simp_all

text \<open>The rounding of the two operations cannot lift a random part of a number to the number itself.\<close>

lemma random_part_below:
  assumes fp: "fp_ok fp" and rnd: "rnd < SB_MAX_RND" and n: "1 \<le> x" "x \<le> 2 ^ 60"
  shows "0 \<le> fmul fp (fdiv fp (real rnd) (real SB_MAX_RND)) x" and "fmul fp (fdiv fp (real rnd) (real SB_MAX_RND)) x < x"
proof -
  let ?e = "1 / 2 ^ 53 :: real" and ?w = "1 - 1 / real SB_MAX_RND"
  let ?y = "fdiv fp (real rnd) (real SB_MAX_RND)"
  have "real rnd / real SB_MAX_RND \<le> ?w"
    using rnd by (simp add: SB_MAX_RND_def field_simps)
  then have "?y \<le> fp_round fp ?w"
    unfolding fdiv_def by (rule fp_round_le [OF fp])
  also have "\<dots> \<le> ?w + ?w / 2 ^ 53"
    by (rule fp_round_upper [OF fp]) (simp_all add: SB_MAX_RND_def)
  finally have y: "?y \<le> ?w * (1 + ?e)" by (simp add: field_simps)
  have y0: "0 \<le> ?y"
    unfolding fdiv_def by (intro fp_round_nonneg fp) simp
  have v: "1 \<le> 2 * (?w * (1 + ?e))" "?w * (1 + ?e) * (1 + ?e) < 1" "?w * (1 + ?e) \<le> 2"
    by (simp_all add: SB_MAX_RND_def)
  let ?v = "?w * (1 + ?e) * x"
  have "?y * x \<le> ?v"
    using y n(1) by (intro mult_right_mono) auto
  then have "fmul fp ?y x \<le> fp_round fp ?v"
    unfolding fmul_def by (rule fp_round_le [OF fp])
  also have "\<dots> \<le> ?v + ?v / 2 ^ 53"
  proof (rule fp_round_upper [OF fp])
    have "1 / 2 ^ 1022 \<le> (1 / 2 :: real)" by simp
    also have "\<dots> \<le> ?v"
      using mult_mono [of "1 / 2" "?w * (1 + ?e)" 1 x] v(1) n(1) by simp
    finally show "1 / 2 ^ 1022 \<le> ?v" .
    have "?v \<le> 2 * 2 ^ 60"
      using v(1,3) n by (intro mult_mono) auto
    then show "?v < 2 ^ 1023"
      by (rule le_less_trans) simp
  qed
  also have "\<dots> = ?w * (1 + ?e) * (1 + ?e) * x" by (simp add: field_simps)
  also have "\<dots> < 1 * x"
    using v(2) n(1) by (intro mult_strict_right_mono) auto
  finally show "fmul fp ?y x < x" by simp
  show "0 \<le> fmul fp ?y x"
    unfolding fmul_def using n(1) by (intro fp_round_nonneg fp mult_nonneg_nonneg y0) simp
qed

lemma mem_index_bound:
  assumes fp: "fp_ok fp" and rnd: "rnd < SB_MAX_RND" and n: "0 < unat (sz div 4)" "unat (sz div 4) \<le> 2 ^ 31"
  shows "\<exists>k. mem_index fp rnd sz = Inr k \<and> k < unat (sz div 4)"
proof -
  let ?n = "real (unat (sz div 4))" and ?y = "fdiv fp (real rnd) (real SB_MAX_RND)"
  have dn: "u64_double fp (sz div 4) = ?n"
    using n(2) by (intro u64_double_small fp) simp
  have n1: "1 \<le> ?n"
    using n(1) by linarith
  have "?n \<le> 2 ^ 31"
    using of_nat_mono [OF n(2), where ?'a = real] by simp
  then have "?n \<le> 2 ^ 60"
    by (rule order_trans) simp
  note b = random_part_below [OF fp rnd n1 this]
  define z where "z = \<lfloor>fmul fp ?y ?n\<rfloor>"
  have z: "0 \<le> z" "z < int (unat (sz div 4))"
    using b by (simp_all add: z_def floor_less_iff)
  have "z \<le> INT_MAX"
    using z(2) of_nat_mono [OF n(2), where ?'a = int] by simp
  then have "mem_index fp rnd sz = Inr (nat z)"
    using b(1) z(1) unfolding mem_index_def Let_def dn z_def by auto
  moreover have "nat z < unat (sz div 4)"
    by (rule nat_less_iff [OF z(1), THEN iffD2, OF z(2)])
  ultimately show ?thesis by blast
qed

definition block_fits :: "bool \<Rightarrow> sb_mem_op_t \<Rightarrow> u64 \<Rightarrow> bool" where
  "block_fits rnd_mode ty sz \<longleftrightarrow> rnd_mode \<longrightarrow> ty \<noteq> SB_MEM_OP_NONE \<and> 0 < unat (sz div 4) \<and> unat (sz div 4) \<le> 2 ^ 31"

lemma mem_access_ok:
  assumes "fp_ok fp" and "rnd < SB_MAX_RND" and "length buf = unat (sz div 4)" and "block_fits rnd_mode ty sz"
  shows "\<exists>f b. mem_access fp rnd_mode ty rnd sz = Some f \<and> f buf = Inr b \<and> length b = length buf"
proof (cases rnd_mode)
  case True
  then obtain k where k: "mem_index fp rnd sz = Inr k" "k < length buf"
    using mem_index_bound assms by (metis block_fits_def)
  show ?thesis
    using True assms(4) mem_write_rnd_ok [OF k] mem_read_rnd_ok [OF k]
    by (cases ty) (simp_all add: mem_access_def block_fits_def)
next
  case False
  then show ?thesis
    using mem_write_seq_ok [of 0 "length buf" buf] mem_read_seq_ok [of 0 "length buf" buf] assms(3)
    by (cases ty) (simp_all add: mem_access_def)
qed

text \<open>
  (C36) The memory test stays inside its block: whatever the random number, and however the two floating point operations
  round, every access of a request is to an element of the block, in both access modes, for blocks of up to \<open>2\<^sup>3\<^sup>3\<close> bytes; the block keeps its length.
\<close>

theorem memory_access_in_block:
  assumes "fp_ok fp" and "rnd < SB_MAX_RND" and "length buf = unat (sz div 4)"
    and "0 < unat (sz div 4)" and "unat (sz div 4) \<le> 2 ^ 31" and "\<not> (rnd_mode \<and> ty = SB_MEM_OP_NONE)"
  shows "\<exists>f b. mem_access fp rnd_mode ty rnd sz = Some f \<and> f buf = Inr b \<and> length b = length buf"
  using assms by (intro mem_access_ok) (auto simp: block_fits_def)

lemma memory_access_in_block_witness:
  "\<exists>f b. mem_access fp_exact True SB_MEM_OP_WRITE 0x3ffffffe 1024 = Some f \<and> f (replicate 256 7) = Inr b \<and> length b = 256"
  using memory_access_in_block [OF fp_exact_ok, of "0x3ffffffe" "replicate 256 7" 1024 True SB_MEM_OP_WRITE]
  by (simp add: SB_MAX_RND_def)

section \<open>Serving requests\<close>

definition memory_ok :: "fpenv \<Rightarrow> nat \<Rightarrow> 'a test_memory_scheme st \<Rightarrow> bool" where
  "memory_ok fp i s \<longleftrightarrow>
     (let t = snd s; n = unat (memory_block_size t div 4) in
      thread_ready fp i (fst s) \<and> block_fits (memory_access_rnd t) (memory_oper t) (memory_block_size t) \<and>
      0 < sint (memory_block_size t) \<and> 0 \<le> sint (total_bytes t) \<and> sint (memory_total_size t) + sint (memory_block_size t) < 2 ^ 63 \<and>
      (case memory_scope t of SB_MEM_SCOPE_GLOBAL \<Rightarrow> length (mem_buffer t) = n
       | SB_MEM_SCOPE_LOCAL \<Rightarrow> i < length (buffers t) \<and> length (buffers t ! i) = n))"

text \<open>The number of blocks still to be transferred, rounded up.\<close>

definition memory_remaining :: "'a test_memory_scheme st \<Rightarrow> nat" where
  "memory_remaining s =
     (let t = snd s; b = nat (sint (memory_block_size t)) in
      (nat (sint (memory_total_size t) - sint (total_bytes t)) + b - 1) div b)"

lemma ceiling_div_step:
  assumes "0 < (d :: nat)" and "0 < b"
  shows "(d + b - 1) div b = Suc ((d - b + b - 1) div b)"
proof (cases "b \<le> d")
  case True
  then have "d + b - 1 = (d - b + b - 1) + b" using assms by simp
  then have "(d + b - 1) div b = (d - b + b - 1) div b + 1"
    using assms(2) by (metis div_add_self2 less_not_refl)
  then show ?thesis by (simp only: Suc_eq_plus1)
next
  case False
  then show ?thesis
    using assms by (simp add: div_nat_eqI)
qed

lemma sint_plus_u64:
  "- (2 ^ 63) \<le> sint a + sint b \<Longrightarrow> sint a + sint b < 2 ^ 63 \<Longrightarrow> sint (a + b :: u64) = sint a + sint b"
  using sint_word_of_int_u64 [of "sint a + sint b"] by simp

lemma memory_request_ok:
  assumes "memory_ok fp i s" and "run_ok (fst s)"
  shows "\<exists>pg2 t2. memory_execute_request fp
             (SB_REQ_TYPE_MEMORY, Some (Mem_request (memory_oper (snd s)) (memory_block_size (snd s)) (memory_scope (snd s)))) i s =
             Inr (0, (pg2, t2)) \<and> memory_ok fp i (pg2, t2) \<and> run_ok pg2 \<and>
           memory_remaining (pg2, t2) = memory_remaining s \<and> pg_globals pg2 = s_globals s \<and>
           events_counted pg2 = events_counted (fst s) + 1"
proof -
  let ?t = "snd s" and ?sz = "memory_block_size (snd s)"
  obtain rnd r where rnd: "(if memory_access_rnd ?t then sb_rnd (pg_rand (fst s)) else (0, pg_rand (fst s))) = (rnd, r)"
      "rnd < SB_MAX_RND"
    by (cases "memory_access_rnd ?t") (auto simp: sb_rnd_def SB_MAX_RND_def)
  obtain buf where buf: "get_buf (memory_scope ?t) i ?t = Inr buf" "length buf = unat (?sz div 4)"
    using assms(1) by (cases "memory_scope ?t") (auto simp: memory_ok_def get_buf_def Let_def)
  obtain f b where f: "mem_access fp (memory_access_rnd ?t) (memory_oper ?t) rnd ?sz = Some f" "f buf = Inr b" "length b = length buf"
    using mem_access_ok [OF _ rnd(2) buf(2)] assms(1) by (metis memory_ok_def thread_ready_def)
  let ?s0 = "((fst s)\<lparr>pg_rand := r\<rparr>, ?t)"
  have r0: "thread_ready fp i (fst ?s0)" "run_ok (fst ?s0)" "events_counted (fst ?s0) = events_counted (fst s)"
    using assms by (simp_all add: memory_ok_def thread_ready_def run_ok_def events_counted_def Let_def)
  obtain pg1 where s1: "s_event_start fp i ?s0 = Inr (pg1, ?t)" "thread_ready fp i pg1" "event_frame (fst ?s0) pg1"
      "events_counted pg1 = events_counted (fst s)"
    using event_start_ok [OF r0(1)] r0(3) by auto
  let ?t2 = "put_buf (memory_scope ?t) i b ?t"
  obtain pg2 where s2: "s_event_stop fp i (pg1, ?t2) = Inr (pg2, ?t2)" "thread_ready fp i pg2" "event_frame pg1 pg2"
      "events_counted pg2 = events_counted (fst s) + 1"
    using event_stop_ok [of fp i "(pg1, ?t2)"] s1(2,4) by auto
  have fr: "event_frame (fst ?s0) pg2"
    by (rule event_frame_trans [OF s1(3) s2(3)])
  have "memory_ok fp i (pg2, ?t2)" "memory_remaining (pg2, ?t2) = memory_remaining s"
    using assms(1) s2(2) f(3) buf(2)
    by (cases "memory_scope ?t"; auto simp: memory_ok_def memory_remaining_def put_buf_def Let_def)+
  moreover have "run_ok pg2"
    by (rule run_ok_event [OF r0(2) s2(2) fr])
  moreover have "pg_globals pg2 = s_globals s"
    using fr by (simp add: event_frame_def)
  ultimately show ?thesis
    using rnd(1) buf(1) f(1,2) s1(1) s2(1,4) by (simp add: memory_execute_request_def Let_def)
qed

interpretation memory_requests:
  counted_source memory_get_request "memory_execute_request fp" memory_remaining "memory_ok fp" for fp
proof
  fix i and s :: "'a test_memory_scheme st"
  assume s: "memory_ok fp i s" "memory_remaining s = 0"
  then have "sint (memory_total_size (snd s)) \<le> sint (total_bytes (snd s))"
    by (auto simp: memory_ok_def memory_remaining_def Let_def div_eq_0_iff split: if_splits)
  then show "\<exists>r. memory_get_request i s = Inr ((SB_REQ_TYPE_NULL, r), s)"
    by (simp add: memory_get_request_def)
next
  fix i and s :: "'a test_memory_scheme st"
  assume s: "memory_ok fp i s" "run_ok (fst s)" "memory_remaining s \<noteq> 0"
  let ?t = "snd s"
  let ?s1 = "(fst s, ?t\<lparr>total_ops := total_ops ?t + 1, total_bytes := total_bytes ?t + memory_block_size ?t\<rparr>)"
  let ?r = "Some (Mem_request (memory_oper ?t) (memory_block_size ?t) (memory_scope ?t))"
  have b: "0 < sint (memory_block_size ?t)" "0 \<le> sint (total_bytes ?t)"
      "sint (memory_total_size ?t) + sint (memory_block_size ?t) < 2 ^ 63"
    using s(1) by (simp_all add: memory_ok_def Let_def)
  have lt: "sint (total_bytes ?t) < sint (memory_total_size ?t)"
    using s(3) b(1) by (auto simp: memory_remaining_def Let_def div_eq_0_iff intro: ccontr)
  then have g: "memory_get_request i s = Inr ((SB_REQ_TYPE_MEMORY, ?r), ?s1)"
    by (simp add: memory_get_request_def Let_def)
  have sum: "sint (total_bytes ?t + memory_block_size ?t) = sint (total_bytes ?t) + sint (memory_block_size ?t)"
    using b lt by (intro sint_plus_u64) linarith+
  have "nat (sint (memory_total_size ?t) - (sint (total_bytes ?t) + sint (memory_block_size ?t))) =
      nat (sint (memory_total_size ?t) - sint (total_bytes ?t)) - nat (sint (memory_block_size ?t))"
    using b lt by arith
  then have r: "memory_remaining s = Suc (memory_remaining ?s1)"
    using ceiling_div_step [of "nat (sint (memory_total_size ?t) - sint (total_bytes ?t))" "nat (sint (memory_block_size ?t))"] lt b(1) sum
    by (simp only: memory_remaining_def Let_def snd_conv test_memory.simps) simp
  have ok: "memory_ok fp i ?s1" "run_ok (fst ?s1)"
    using s(1,2) b(1,2) sum by (auto simp: memory_ok_def Let_def cong: sb_mem_scope_t.case_cong)
  obtain pg2 t2 where "memory_execute_request fp (SB_REQ_TYPE_MEMORY, ?r) i ?s1 = Inr (0, (pg2, t2))"
      "memory_ok fp i (pg2, t2)" "run_ok pg2" "memory_remaining (pg2, t2) = memory_remaining ?s1"
      "pg_globals pg2 = s_globals s" "events_counted pg2 = events_counted (fst s) + 1"
    using memory_request_ok [OF ok] by auto
  then show "\<exists>ty r s1 s2. memory_get_request i s = Inr ((ty, r), s1) \<and> ty \<noteq> SB_REQ_TYPE_NULL \<and> memory_ok fp i s1 \<and>
     run_ok (fst s1) \<and> memory_execute_request fp (ty, r) i s1 = Inr (0, s2) \<and> memory_ok fp i s2 \<and> run_ok (fst s2) \<and>
     memory_remaining s = Suc (memory_remaining s2) \<and> s_globals s2 = s_globals s \<and>
     events_counted (fst s2) = events_counted (fst s) + 1"
    using g r ok
    by (intro exI [of _ SB_REQ_TYPE_MEMORY] exI [of _ ?r] exI [of _ ?s1] exI [of _ "(pg2, t2)"]) simp
next
  fix i pg pg' and t :: "'a test_memory_scheme"
  assume "memory_ok fp i (pg, t)" "run_frame pg pg'"
  then show "memory_ok fp i (pg', t) \<and> memory_remaining (pg', t) = memory_remaining (pg, t)"
    using thread_ready_between [of fp i pg pg'] by (auto simp: memory_ok_def memory_remaining_def Let_def)
qed

lemma memory_test_ops:
  "op_get_request (memory_test fp env) = Some memory_get_request"
  "op_execute_request (memory_test fp env) = Some (memory_execute_request fp)"
  "op_thread_init (memory_test fp env) = None" "op_thread_done (memory_test fp env) = None"
  by (simp_all add: memory_test_def)

text \<open>
  A worker of the memory test transfers what is left and ends: without a time limit it serves exactly as many requests as
  blocks are needed to reach the total size, rounded up, with one event measured for each and no access outside of the block.
\<close>

lemma memory_worker_transfers_all:
  assumes "fp_ok fp" and "oper_ready fp (pg_w pg)" and "i < length (lg_timers (w_log (pg_w pg)))"
    and "run_ok pg" and "g_max_time (pg_globals pg) = 0" and "g_error (pg_globals pg) = 0"
    and "memory_scope t = SB_MEM_SCOPE_GLOBAL" and "length (mem_buffer t) = unat (memory_block_size t div 4)"
    and "block_fits (memory_access_rnd t) (memory_oper t) (memory_block_size t)"
    and "0 < sint (memory_block_size t)" and "sint (memory_total_size t) + sint (memory_block_size t) < 2 ^ 63"
    and "total_bytes t = 0" and "sint (memory_total_size t) = int m" and "sint (memory_block_size t) = int b"
    and "m < fuel"
  shows "\<exists>s'. runner_thread fuel (memory_test fp env) i q (pg, t) = Inr (Left_loop, q, s') \<and>
           events_counted (fst s') = events_counted pg + of_nat ((m + b - 1) div b)"
proof -
  let ?up = "upd_sg (\<lambda>g. g\<lparr>g_num_running := g_num_running g + 1\<rparr>) (pg, t)"
  have ok: "memory_ok fp i ?up"
    using assms by (simp add: memory_ok_def thread_ready_def upd_sg_def oper_ready_def logger_ready_def Let_def)
  have rem: "memory_remaining ?up = (m + b - 1) div b"
    using assms(12-14) by (simp add: memory_remaining_def upd_sg_def Let_def)
  have "m + b - 1 < Suc m * b"
    using assms(10,14) by (cases b) simp_all
  then have "(m + b - 1) div b < Suc m"
    by (rule less_mult_imp_div_less)
  then show ?thesis
    using memory_requests.thread_serves_all [OF ok, of "memory_test fp env" fuel q] assms(4-6,15) unfolding rem
    by (auto simp: memory_test_ops)
qed

definition memory_sample :: test_memory where
  "memory_sample = \<lparr>max_prime = 0, cpu_req_performed = 0, thread_yields = 0, thread_locks = 0, test_mutexes = None,
     thr_req_performed = 0, mutex_num = 0, mutex_loops = 0, mutex_locks = 0, mtx_thread_locks = None, global_var = 0,
     c_rand = (\<lambda>n. n), c_rand_calls = 0, memory_block_size = 16, memory_total_size = 40, memory_scope = SB_MEM_SCOPE_GLOBAL,
     memory_oper = SB_MEM_OP_WRITE, memory_access_rnd = True, memory_hugetlb = False, total_ops = 0, total_bytes = 0,
     last_bytes = 0, buffers = [], mem_buffer = replicate 4 0\<rparr>"

definition no_shm :: shm_env where
  "no_shm = \<lparr>shm_get = (\<lambda>_. False), shm_at = (\<lambda>_. False), shm_errno = 12, shm_strerror = ''Cannot allocate memory''\<rparr>"

lemma memory_worker_transfers_all_witness:
  "\<exists>s'. runner_thread 41 (memory_test fp_exact no_shm) 1 sample_queue (worker_prog 0, memory_sample) =
          Inr (Left_loop, sample_queue, s') \<and> events_counted (fst s') = events_counted (worker_prog 0) + 3"
  using memory_worker_transfers_all [OF fp_exact_ok, of "worker_prog 0" 1 memory_sample 40 16 41 no_shm sample_queue]
    worker_prog_ready(1) [of 0] worker_prog_ready(2) [of 1 0]
  by (simp add: thread_ready_def memory_sample_def block_fits_def)

text \<open>
  A checkpoint starts the memory test over: the cumulative report sets the number of bytes transferred back to zero, so that the next
  request is handed out again, even if the total size had been reached; the number of bytes of the last intermediate report stays.
\<close>

lemma memory_checkpoint_restarts:
  assumes "logger_ready (pg_w pg)" and "sb_timer_initialized (g_exec_timer (pg_globals pg))"
    and "sb_timer_initialized (g_cumulative_timer1 (pg_globals pg))" and "0 < sint (memory_total_size t)"
  shows "\<exists>pg' s'. memory_print_stats fp SB_STAT_CUMULATIVE (pg, t) = Inr (pg', t\<lparr>total_ops := 0, total_bytes := 0\<rparr>) \<and>
           memory_get_request i (pg', t\<lparr>total_ops := 0, total_bytes := 0\<rparr>) =
             Inr ((SB_REQ_TYPE_MEMORY, Some (Mem_request (memory_oper t) (memory_block_size t) (memory_scope t))), s') \<and>
           last_bytes (snd s') = last_bytes t"
proof -
  obtain v t1 w1 where w1: "w_split g_cumulative_timer1 (\<lambda>t g. g\<lparr>g_cumulative_timer1 := t\<rparr>) (pg_w pg) = Inr (v, w1)" "logger_ready w1"
      "w_globals w1 = (pg_globals pg)\<lparr>g_cumulative_timer1 := t1\<rparr>"
    using w_split_ready [OF assms(1), of g_cumulative_timer1 "\<lambda>t g. g\<lparr>g_cumulative_timer1 := t\<rparr>"] assms(3) by auto
  obtain w2 where w2: "log_reqs (memory_report fp (NS2SEC fp v) t) w1 = Inr w2" "text_frame w1 w2" "logger_ready w2"
    using log_reqs_ready [OF w1(2)] text_frame_ready w1(2) by blast
  have e: "sb_timer_initialized (g_exec_timer (w_globals w2))"
    using w2(2) w1(3) assms(2) by (simp add: text_frame_def)
  obtain v' w3 where "w_split g_exec_timer (\<lambda>t g. g\<lparr>g_exec_timer := t\<rparr>) w2 = Inr (v', w3)"
    using w_split_ready [OF w2(3), of g_exec_timer "\<lambda>t g. g\<lparr>g_exec_timer := t\<rparr>"] e by blast
  then show ?thesis
    using w1(1) w2(1) e assms(4)
    by (simp add: memory_print_stats_def memory_print_cumulative_def s_split_def s_world_def memory_get_request_def Let_def)
qed

lemma memory_checkpoint_restarts_witness:
  "\<exists>pg' s'. memory_print_stats fp_exact SB_STAT_CUMULATIVE (worker_prog 0, memory_sample\<lparr>total_bytes := 48\<rparr>) =
       Inr (pg', memory_sample\<lparr>total_ops := 0, total_bytes := 0\<rparr>) \<and>
     memory_get_request 0 (pg', memory_sample\<lparr>total_ops := 0, total_bytes := 0\<rparr>) =
       Inr ((SB_REQ_TYPE_MEMORY, Some (Mem_request SB_MEM_OP_WRITE 16 SB_MEM_SCOPE_GLOBAL)), s')"
  using memory_checkpoint_restarts [of "worker_prog 0" "memory_sample\<lparr>total_bytes := 48\<rparr>" fp_exact 0]
  by (simp add: memory_sample_def worker_prog_def sample_world_def sample_globals_def logger_ready_def sb_timer_initialized_def
        sb_timer_init_def Let_def) blast

text \<open>The size asked of the pool of large pages is not a multiple of the page size.\<close>

lemma hugetlb_size_not_aligned: "hugetlb_size 1024 = 4195327" "hugetlb_size 5242880 = 5242879"
  by (simp_all add: hugetlb_size_def LARGE_PAGE_SIZE_def)

end
