(* ===== verification/Crc32.thy ===== *)
theory Crc32
  imports Prelude
begin

text \<open>
  The checksum of the file test, \<^verbatim>\<open>tests/fileio/crc32.c\<close> with its tables \<^verbatim>\<open>crc32tbl.h\<close>: the routine for
  little-endian machines, which works on four bytes at a time with four tables once the address is aligned. The reference is the
  shift register of the comment in \<^verbatim>\<open>crc32.c\<close>, one bit at a time. The tables for big-endian machines are not used on
  the platform modelled.
\<close>

unbundle bit_operations_syntax

section \<open>Tables\<close>

definition crc_table0 :: "u32 list" where
  "crc_table0 =
     [0, 0x77073096, 0xee0e612c, 0x990951ba, 0x76dc419, 0x706af48f, 0xe963a535, 0x9e6495a3, 0xedb8832, 0x79dcb8a4,
      0xe0d5e91e, 0x97d2d988, 0x9b64c2b, 0x7eb17cbd, 0xe7b82d07, 0x90bf1d91, 0x1db71064, 0x6ab020f2, 0xf3b97148, 0x84be41de,
      0x1adad47d, 0x6ddde4eb, 0xf4d4b551, 0x83d385c7, 0x136c9856, 0x646ba8c0, 0xfd62f97a, 0x8a65c9ec, 0x14015c4f, 0x63066cd9,
      0xfa0f3d63, 0x8d080df5, 0x3b6e20c8, 0x4c69105e, 0xd56041e4, 0xa2677172, 0x3c03e4d1, 0x4b04d447, 0xd20d85fd, 0xa50ab56b,
      0x35b5a8fa, 0x42b2986c, 0xdbbbc9d6, 0xacbcf940, 0x32d86ce3, 0x45df5c75, 0xdcd60dcf, 0xabd13d59, 0x26d930ac, 0x51de003a,
      0xc8d75180, 0xbfd06116, 0x21b4f4b5, 0x56b3c423, 0xcfba9599, 0xb8bda50f, 0x2802b89e, 0x5f058808, 0xc60cd9b2, 0xb10be924,
      0x2f6f7c87, 0x58684c11, 0xc1611dab, 0xb6662d3d, 0x76dc4190, 0x1db7106, 0x98d220bc, 0xefd5102a, 0x71b18589, 0x6b6b51f,
      0x9fbfe4a5, 0xe8b8d433, 0x7807c9a2, 0xf00f934, 0x9609a88e, 0xe10e9818, 0x7f6a0dbb, 0x86d3d2d, 0x91646c97, 0xe6635c01,
      0x6b6b51f4, 0x1c6c6162, 0x856530d8, 0xf262004e, 0x6c0695ed, 0x1b01a57b, 0x8208f4c1, 0xf50fc457, 0x65b0d9c6, 0x12b7e950,
      0x8bbeb8ea, 0xfcb9887c, 0x62dd1ddf, 0x15da2d49, 0x8cd37cf3, 0xfbd44c65, 0x4db26158, 0x3ab551ce, 0xa3bc0074, 0xd4bb30e2,
      0x4adfa541, 0x3dd895d7, 0xa4d1c46d, 0xd3d6f4fb, 0x4369e96a, 0x346ed9fc, 0xad678846, 0xda60b8d0, 0x44042d73, 0x33031de5,
      0xaa0a4c5f, 0xdd0d7cc9, 0x5005713c, 0x270241aa, 0xbe0b1010, 0xc90c2086, 0x5768b525, 0x206f85b3, 0xb966d409, 0xce61e49f,
      0x5edef90e, 0x29d9c998, 0xb0d09822, 0xc7d7a8b4, 0x59b33d17, 0x2eb40d81, 0xb7bd5c3b, 0xc0ba6cad, 0xedb88320, 0x9abfb3b6,
      0x3b6e20c, 0x74b1d29a, 0xead54739, 0x9dd277af, 0x4db2615, 0x73dc1683, 0xe3630b12, 0x94643b84, 0xd6d6a3e, 0x7a6a5aa8,
      0xe40ecf0b, 0x9309ff9d, 0xa00ae27, 0x7d079eb1, 0xf00f9344, 0x8708a3d2, 0x1e01f268, 0x6906c2fe, 0xf762575d, 0x806567cb,
      0x196c3671, 0x6e6b06e7, 0xfed41b76, 0x89d32be0, 0x10da7a5a, 0x67dd4acc, 0xf9b9df6f, 0x8ebeeff9, 0x17b7be43, 0x60b08ed5,
      0xd6d6a3e8, 0xa1d1937e, 0x38d8c2c4, 0x4fdff252, 0xd1bb67f1, 0xa6bc5767, 0x3fb506dd, 0x48b2364b, 0xd80d2bda, 0xaf0a1b4c,
      0x36034af6, 0x41047a60, 0xdf60efc3, 0xa867df55, 0x316e8eef, 0x4669be79, 0xcb61b38c, 0xbc66831a, 0x256fd2a0, 0x5268e236,
      0xcc0c7795, 0xbb0b4703, 0x220216b9, 0x5505262f, 0xc5ba3bbe, 0xb2bd0b28, 0x2bb45a92, 0x5cb36a04, 0xc2d7ffa7, 0xb5d0cf31,
      0x2cd99e8b, 0x5bdeae1d, 0x9b64c2b0, 0xec63f226, 0x756aa39c, 0x26d930a, 0x9c0906a9, 0xeb0e363f, 0x72076785, 0x5005713,
      0x95bf4a82, 0xe2b87a14, 0x7bb12bae, 0xcb61b38, 0x92d28e9b, 0xe5d5be0d, 0x7cdcefb7, 0xbdbdf21, 0x86d3d2d4, 0xf1d4e242,
      0x68ddb3f8, 0x1fda836e, 0x81be16cd, 0xf6b9265b, 0x6fb077e1, 0x18b74777, 0x88085ae6, 0xff0f6a70, 0x66063bca, 0x11010b5c,
      0x8f659eff, 0xf862ae69, 0x616bffd3, 0x166ccf45, 0xa00ae278, 0xd70dd2ee, 0x4e048354, 0x3903b3c2, 0xa7672661, 0xd06016f7,
      0x4969474d, 0x3e6e77db, 0xaed16a4a, 0xd9d65adc, 0x40df0b66, 0x37d83bf0, 0xa9bcae53, 0xdebb9ec5, 0x47b2cf7f, 0x30b5ffe9,
      0xbdbdf21c, 0xcabac28a, 0x53b39330, 0x24b4a3a6, 0xbad03605, 0xcdd70693, 0x54de5729, 0x23d967bf, 0xb3667a2e, 0xc4614ab8,
      0x5d681b02, 0x2a6f2b94, 0xb40bbe37, 0xc30c8ea1, 0x5a05df1b, 0x2d02ef8d]"

definition crc_table1 :: "u32 list" where
  "crc_table1 =
     [0, 0x191b3141, 0x32366282, 0x2b2d53c3, 0x646cc504, 0x7d77f445, 0x565aa786, 0x4f4196c7, 0xc8d98a08, 0xd1c2bb49,
      0xfaefe88a, 0xe3f4d9cb, 0xacb54f0c, 0xb5ae7e4d, 0x9e832d8e, 0x87981ccf, 0x4ac21251, 0x53d92310, 0x78f470d3, 0x61ef4192,
      0x2eaed755, 0x37b5e614, 0x1c98b5d7, 0x5838496, 0x821b9859, 0x9b00a918, 0xb02dfadb, 0xa936cb9a, 0xe6775d5d, 0xff6c6c1c,
      0xd4413fdf, 0xcd5a0e9e, 0x958424a2, 0x8c9f15e3, 0xa7b24620, 0xbea97761, 0xf1e8e1a6, 0xe8f3d0e7, 0xc3de8324, 0xdac5b265,
      0x5d5daeaa, 0x44469feb, 0x6f6bcc28, 0x7670fd69, 0x39316bae, 0x202a5aef, 0xb07092c, 0x121c386d, 0xdf4636f3, 0xc65d07b2,
      0xed705471, 0xf46b6530, 0xbb2af3f7, 0xa231c2b6, 0x891c9175, 0x9007a034, 0x179fbcfb, 0xe848dba, 0x25a9de79, 0x3cb2ef38,
      0x73f379ff, 0x6ae848be, 0x41c51b7d, 0x58de2a3c, 0xf0794f05, 0xe9627e44, 0xc24f2d87, 0xdb541cc6, 0x94158a01, 0x8d0ebb40,
      0xa623e883, 0xbf38d9c2, 0x38a0c50d, 0x21bbf44c, 0xa96a78f, 0x138d96ce, 0x5ccc0009, 0x45d73148, 0x6efa628b, 0x77e153ca,
      0xbabb5d54, 0xa3a06c15, 0x888d3fd6, 0x91960e97, 0xded79850, 0xc7cca911, 0xece1fad2, 0xf5facb93, 0x7262d75c, 0x6b79e61d,
      0x4054b5de, 0x594f849f, 0x160e1258, 0xf152319, 0x243870da, 0x3d23419b, 0x65fd6ba7, 0x7ce65ae6, 0x57cb0925, 0x4ed03864,
      0x191aea3, 0x188a9fe2, 0x33a7cc21, 0x2abcfd60, 0xad24e1af, 0xb43fd0ee, 0x9f12832d, 0x8609b26c, 0xc94824ab, 0xd05315ea,
      0xfb7e4629, 0xe2657768, 0x2f3f79f6, 0x362448b7, 0x1d091b74, 0x4122a35, 0x4b53bcf2, 0x52488db3, 0x7965de70, 0x607eef31,
      0xe7e6f3fe, 0xfefdc2bf, 0xd5d0917c, 0xcccba03d, 0x838a36fa, 0x9a9107bb, 0xb1bc5478, 0xa8a76539, 0x3b83984b, 0x2298a90a,
      0x9b5fac9, 0x10aecb88, 0x5fef5d4f, 0x46f46c0e, 0x6dd93fcd, 0x74c20e8c, 0xf35a1243, 0xea412302, 0xc16c70c1, 0xd8774180,
      0x9736d747, 0x8e2de606, 0xa500b5c5, 0xbc1b8484, 0x71418a1a, 0x685abb5b, 0x4377e898, 0x5a6cd9d9, 0x152d4f1e, 0xc367e5f,
      0x271b2d9c, 0x3e001cdd, 0xb9980012, 0xa0833153, 0x8bae6290, 0x92b553d1, 0xddf4c516, 0xc4eff457, 0xefc2a794, 0xf6d996d5,
      0xae07bce9, 0xb71c8da8, 0x9c31de6b, 0x852aef2a, 0xca6b79ed, 0xd37048ac, 0xf85d1b6f, 0xe1462a2e, 0x66de36e1, 0x7fc507a0,
      0x54e85463, 0x4df36522, 0x2b2f3e5, 0x1ba9c2a4, 0x30849167, 0x299fa026, 0xe4c5aeb8, 0xfdde9ff9, 0xd6f3cc3a, 0xcfe8fd7b,
      0x80a96bbc, 0x99b25afd, 0xb29f093e, 0xab84387f, 0x2c1c24b0, 0x350715f1, 0x1e2a4632, 0x7317773, 0x4870e1b4, 0x516bd0f5,
      0x7a468336, 0x635db277, 0xcbfad74e, 0xd2e1e60f, 0xf9ccb5cc, 0xe0d7848d, 0xaf96124a, 0xb68d230b, 0x9da070c8, 0x84bb4189,
      0x3235d46, 0x1a386c07, 0x31153fc4, 0x280e0e85, 0x674f9842, 0x7e54a903, 0x5579fac0, 0x4c62cb81, 0x8138c51f, 0x9823f45e,
      0xb30ea79d, 0xaa1596dc, 0xe554001b, 0xfc4f315a, 0xd7626299, 0xce7953d8, 0x49e14f17, 0x50fa7e56, 0x7bd72d95, 0x62cc1cd4,
      0x2d8d8a13, 0x3496bb52, 0x1fbbe891, 0x6a0d9d0, 0x5e7ef3ec, 0x4765c2ad, 0x6c48916e, 0x7553a02f, 0x3a1236e8, 0x230907a9,
      0x824546a, 0x113f652b, 0x96a779e4, 0x8fbc48a5, 0xa4911b66, 0xbd8a2a27, 0xf2cbbce0, 0xebd08da1, 0xc0fdde62, 0xd9e6ef23,
      0x14bce1bd, 0xda7d0fc, 0x268a833f, 0x3f91b27e, 0x70d024b9, 0x69cb15f8, 0x42e6463b, 0x5bfd777a, 0xdc656bb5, 0xc57e5af4,
      0xee530937, 0xf7483876, 0xb809aeb1, 0xa1129ff0, 0x8a3fcc33, 0x9324fd72]"

definition crc_table2 :: "u32 list" where
  "crc_table2 =
     [0, 0x1c26a37, 0x384d46e, 0x246be59, 0x709a8dc, 0x6cbc2eb, 0x48d7cb2, 0x54f1685, 0xe1351b8, 0xfd13b8f,
      0xd9785d6, 0xc55efe1, 0x91af964, 0x8d89353, 0xa9e2d0a, 0xb5c473d, 0x1c26a370, 0x1de4c947, 0x1fa2771e, 0x1e601d29,
      0x1b2f0bac, 0x1aed619b, 0x18abdfc2, 0x1969b5f5, 0x1235f2c8, 0x13f798ff, 0x11b126a6, 0x10734c91, 0x153c5a14, 0x14fe3023,
      0x16b88e7a, 0x177ae44d, 0x384d46e0, 0x398f2cd7, 0x3bc9928e, 0x3a0bf8b9, 0x3f44ee3c, 0x3e86840b, 0x3cc03a52, 0x3d025065,
      0x365e1758, 0x379c7d6f, 0x35dac336, 0x3418a901, 0x3157bf84, 0x3095d5b3, 0x32d36bea, 0x331101dd, 0x246be590, 0x25a98fa7,
      0x27ef31fe, 0x262d5bc9, 0x23624d4c, 0x22a0277b, 0x20e69922, 0x2124f315, 0x2a78b428, 0x2bbade1f, 0x29fc6046, 0x283e0a71,
      0x2d711cf4, 0x2cb376c3, 0x2ef5c89a, 0x2f37a2ad, 0x709a8dc0, 0x7158e7f7, 0x731e59ae, 0x72dc3399, 0x7793251c, 0x76514f2b,
      0x7417f172, 0x75d59b45, 0x7e89dc78, 0x7f4bb64f, 0x7d0d0816, 0x7ccf6221, 0x798074a4, 0x78421e93, 0x7a04a0ca, 0x7bc6cafd,
      0x6cbc2eb0, 0x6d7e4487, 0x6f38fade, 0x6efa90e9, 0x6bb5866c, 0x6a77ec5b, 0x68315202, 0x69f33835, 0x62af7f08, 0x636d153f,
      0x612bab66, 0x60e9c151, 0x65a6d7d4, 0x6464bde3, 0x662203ba, 0x67e0698d, 0x48d7cb20, 0x4915a117, 0x4b531f4e, 0x4a917579,
      0x4fde63fc, 0x4e1c09cb, 0x4c5ab792, 0x4d98dda5, 0x46c49a98, 0x4706f0af, 0x45404ef6, 0x448224c1, 0x41cd3244, 0x400f5873,
      0x4249e62a, 0x438b8c1d, 0x54f16850, 0x55330267, 0x5775bc3e, 0x56b7d609, 0x53f8c08c, 0x523aaabb, 0x507c14e2, 0x51be7ed5,
      0x5ae239e8, 0x5b2053df, 0x5966ed86, 0x58a487b1, 0x5deb9134, 0x5c29fb03, 0x5e6f455a, 0x5fad2f6d, 0xe1351b80, 0xe0f771b7,
      0xe2b1cfee, 0xe373a5d9, 0xe63cb35c, 0xe7fed96b, 0xe5b86732, 0xe47a0d05, 0xef264a38, 0xeee4200f, 0xeca29e56, 0xed60f461,
      0xe82fe2e4, 0xe9ed88d3, 0xebab368a, 0xea695cbd, 0xfd13b8f0, 0xfcd1d2c7, 0xfe976c9e, 0xff5506a9, 0xfa1a102c, 0xfbd87a1b,
      0xf99ec442, 0xf85cae75, 0xf300e948, 0xf2c2837f, 0xf0843d26, 0xf1465711, 0xf4094194, 0xf5cb2ba3, 0xf78d95fa, 0xf64fffcd,
      0xd9785d60, 0xd8ba3757, 0xdafc890e, 0xdb3ee339, 0xde71f5bc, 0xdfb39f8b, 0xddf521d2, 0xdc374be5, 0xd76b0cd8, 0xd6a966ef,
      0xd4efd8b6, 0xd52db281, 0xd062a404, 0xd1a0ce33, 0xd3e6706a, 0xd2241a5d, 0xc55efe10, 0xc49c9427, 0xc6da2a7e, 0xc7184049,
      0xc25756cc, 0xc3953cfb, 0xc1d382a2, 0xc011e895, 0xcb4dafa8, 0xca8fc59f, 0xc8c97bc6, 0xc90b11f1, 0xcc440774, 0xcd866d43,
      0xcfc0d31a, 0xce02b92d, 0x91af9640, 0x906dfc77, 0x922b422e, 0x93e92819, 0x96a63e9c, 0x976454ab, 0x9522eaf2, 0x94e080c5,
      0x9fbcc7f8, 0x9e7eadcf, 0x9c381396, 0x9dfa79a1, 0x98b56f24, 0x99770513, 0x9b31bb4a, 0x9af3d17d, 0x8d893530, 0x8c4b5f07,
      0x8e0de15e, 0x8fcf8b69, 0x8a809dec, 0x8b42f7db, 0x89044982, 0x88c623b5, 0x839a6488, 0x82580ebf, 0x801eb0e6, 0x81dcdad1,
      0x8493cc54, 0x8551a663, 0x8717183a, 0x86d5720d, 0xa9e2d0a0, 0xa820ba97, 0xaa6604ce, 0xaba46ef9, 0xaeeb787c, 0xaf29124b,
      0xad6fac12, 0xacadc625, 0xa7f18118, 0xa633eb2f, 0xa4755576, 0xa5b73f41, 0xa0f829c4, 0xa13a43f3, 0xa37cfdaa, 0xa2be979d,
      0xb5c473d0, 0xb40619e7, 0xb640a7be, 0xb782cd89, 0xb2cddb0c, 0xb30fb13b, 0xb1490f62, 0xb08b6555, 0xbbd72268, 0xba15485f,
      0xb853f606, 0xb9919c31, 0xbcde8ab4, 0xbd1ce083, 0xbf5a5eda, 0xbe9834ed]"

definition crc_table3 :: "u32 list" where
  "crc_table3 =
     [0, 0xb8bc6765, 0xaa09c88b, 0x12b5afee, 0x8f629757, 0x37def032, 0x256b5fdc, 0x9dd738b9, 0xc5b428ef, 0x7d084f8a,
      0x6fbde064, 0xd7018701, 0x4ad6bfb8, 0xf26ad8dd, 0xe0df7733, 0x58631056, 0x5019579f, 0xe8a530fa, 0xfa109f14, 0x42acf871,
      0xdf7bc0c8, 0x67c7a7ad, 0x75720843, 0xcdce6f26, 0x95ad7f70, 0x2d111815, 0x3fa4b7fb, 0x8718d09e, 0x1acfe827, 0xa2738f42,
      0xb0c620ac, 0x87a47c9, 0xa032af3e, 0x188ec85b, 0xa3b67b5, 0xb28700d0, 0x2f503869, 0x97ec5f0c, 0x8559f0e2, 0x3de59787,
      0x658687d1, 0xdd3ae0b4, 0xcf8f4f5a, 0x7733283f, 0xeae41086, 0x525877e3, 0x40edd80d, 0xf851bf68, 0xf02bf8a1, 0x48979fc4,
      0x5a22302a, 0xe29e574f, 0x7f496ff6, 0xc7f50893, 0xd540a77d, 0x6dfcc018, 0x359fd04e, 0x8d23b72b, 0x9f9618c5, 0x272a7fa0,
      0xbafd4719, 0x241207c, 0x10f48f92, 0xa848e8f7, 0x9b14583d, 0x23a83f58, 0x311d90b6, 0x89a1f7d3, 0x1476cf6a, 0xaccaa80f,
      0xbe7f07e1, 0x6c36084, 0x5ea070d2, 0xe61c17b7, 0xf4a9b859, 0x4c15df3c, 0xd1c2e785, 0x697e80e0, 0x7bcb2f0e, 0xc377486b,
      0xcb0d0fa2, 0x73b168c7, 0x6104c729, 0xd9b8a04c, 0x446f98f5, 0xfcd3ff90, 0xee66507e, 0x56da371b, 0xeb9274d, 0xb6054028,
      0xa4b0efc6, 0x1c0c88a3, 0x81dbb01a, 0x3967d77f, 0x2bd27891, 0x936e1ff4, 0x3b26f703, 0x839a9066, 0x912f3f88, 0x299358ed,
      0xb4446054, 0xcf80731, 0x1e4da8df, 0xa6f1cfba, 0xfe92dfec, 0x462eb889, 0x549b1767, 0xec277002, 0x71f048bb, 0xc94c2fde,
      0xdbf98030, 0x6345e755, 0x6b3fa09c, 0xd383c7f9, 0xc1366817, 0x798a0f72, 0xe45d37cb, 0x5ce150ae, 0x4e54ff40, 0xf6e89825,
      0xae8b8873, 0x1637ef16, 0x48240f8, 0xbc3e279d, 0x21e91f24, 0x99557841, 0x8be0d7af, 0x335cb0ca, 0xed59b63b, 0x55e5d15e,
      0x47507eb0, 0xffec19d5, 0x623b216c, 0xda874609, 0xc832e9e7, 0x708e8e82, 0x28ed9ed4, 0x9051f9b1, 0x82e4565f, 0x3a58313a,
      0xa78f0983, 0x1f336ee6, 0xd86c108, 0xb53aa66d, 0xbd40e1a4, 0x5fc86c1, 0x1749292f, 0xaff54e4a, 0x322276f3, 0x8a9e1196,
      0x982bbe78, 0x2097d91d, 0x78f4c94b, 0xc048ae2e, 0xd2fd01c0, 0x6a4166a5, 0xf7965e1c, 0x4f2a3979, 0x5d9f9697, 0xe523f1f2,
      0x4d6b1905, 0xf5d77e60, 0xe762d18e, 0x5fdeb6eb, 0xc2098e52, 0x7ab5e937, 0x680046d9, 0xd0bc21bc, 0x88df31ea, 0x3063568f,
      0x22d6f961, 0x9a6a9e04, 0x7bda6bd, 0xbf01c1d8, 0xadb46e36, 0x15080953, 0x1d724e9a, 0xa5ce29ff, 0xb77b8611, 0xfc7e174,
      0x9210d9cd, 0x2aacbea8, 0x38191146, 0x80a57623, 0xd8c66675, 0x607a0110, 0x72cfaefe, 0xca73c99b, 0x57a4f122, 0xef189647,
      0xfdad39a9, 0x45115ecc, 0x764dee06, 0xcef18963, 0xdc44268d, 0x64f841e8, 0xf92f7951, 0x41931e34, 0x5326b1da, 0xeb9ad6bf,
      0xb3f9c6e9, 0xb45a18c, 0x19f00e62, 0xa14c6907, 0x3c9b51be, 0x842736db, 0x96929935, 0x2e2efe50, 0x2654b999, 0x9ee8defc,
      0x8c5d7112, 0x34e11677, 0xa9362ece, 0x118a49ab, 0x33fe645, 0xbb838120, 0xe3e09176, 0x5b5cf613, 0x49e959fd, 0xf1553e98,
      0x6c820621, 0xd43e6144, 0xc68bceaa, 0x7e37a9cf, 0xd67f4138, 0x6ec3265d, 0x7c7689b3, 0xc4caeed6, 0x591dd66f, 0xe1a1b10a,
      0xf3141ee4, 0x4ba87981, 0x13cb69d7, 0xab770eb2, 0xb9c2a15c, 0x17ec639, 0x9ca9fe80, 0x241599e5, 0x36a0360b, 0x8e1c516e,
      0x866616a7, 0x3eda71c2, 0x2c6fde2c, 0x94d3b949, 0x90481f0, 0xb1b8e695, 0xa30d497b, 0x1bb12e1e, 0x43d23e48, 0xfb6e592d,
      0xe9dbf6c3, 0x516791a6, 0xccb0a91f, 0x740cce7a, 0x66b96194, 0xde0506f1]"

section \<open>The routine\<close>

text \<open>One byte, and four bytes of a little-endian word.\<close>

definition DO1 :: "u32 \<Rightarrow> u8 \<Rightarrow> u32" where
  "DO1 c b = crc_table0 ! unat ((c XOR ucast b) AND 0xff) XOR drop_bit 8 c"

definition load_u4 :: "u8 \<Rightarrow> u8 \<Rightarrow> u8 \<Rightarrow> u8 \<Rightarrow> u32" where
  "load_u4 b0 b1 b2 b3 = ucast b0 OR push_bit 8 (ucast b1) OR push_bit 16 (ucast b2) OR push_bit 24 (ucast b3)"

definition DOLIT4 :: "u32 \<Rightarrow> u32 \<Rightarrow> u32" where
  "DOLIT4 c w =
     (let c = c XOR w in
      crc_table3 ! unat (c AND 0xff) XOR crc_table2 ! unat (drop_bit 8 c AND 0xff) XOR
      crc_table1 ! unat (drop_bit 16 c AND 0xff) XOR crc_table0 ! unat (drop_bit 24 c))"

text \<open>The loop up to an aligned address; the loops over words, eight at a time and one at a time; the remaining bytes.\<close>

fun crc_align :: "u64 \<Rightarrow> u32 \<Rightarrow> u8 list \<Rightarrow> u32 \<times> u8 list" where
  "crc_align addr c [] = (c, [])"
| "crc_align addr c (b # bs) = (if addr AND 3 \<noteq> 0 then crc_align (addr + 1) (DO1 c b) bs else (c, b # bs))"

fun dolit4s :: "nat \<Rightarrow> u32 \<Rightarrow> u8 list \<Rightarrow> u32 \<times> u8 list" where
  "dolit4s (Suc n) c (b0 # b1 # b2 # b3 # bs) = dolit4s n (DOLIT4 c (load_u4 b0 b1 b2 b3)) bs"
| "dolit4s n c bs = (c, bs)"

function crc_words32 :: "u32 \<Rightarrow> u8 list \<Rightarrow> u32 \<times> u8 list" where
  "crc_words32 c bs =
     (if length bs \<ge> 32 then (case dolit4s 8 c (take 32 bs) of (c, _) \<Rightarrow> crc_words32 c (drop 32 bs)) else (c, bs))"
  by pat_completeness auto
termination
  by (relation "measure (\<lambda>(c, bs). length bs)") auto

declare crc_words32.simps [simp del]

function crc_words4 :: "u32 \<Rightarrow> u8 list \<Rightarrow> u32 \<times> u8 list" where
  "crc_words4 c bs =
     (if length bs \<ge> 4 then (case dolit4s 1 c (take 4 bs) of (c, _) \<Rightarrow> crc_words4 c (drop 4 bs)) else (c, bs))"
  by pat_completeness auto
termination
  by (relation "measure (\<lambda>(c, bs). length bs)") auto

declare crc_words4.simps [simp del]

definition crc32_little :: "u64 \<Rightarrow> u64 \<Rightarrow> u8 list \<Rightarrow> u64" where
  "crc32_little crc addr bs =
     (case crc_align addr (NOT (ucast crc)) bs of (c, bs) \<Rightarrow>
      case crc_words32 c bs of (c, bs) \<Rightarrow>
      case crc_words4 c bs of (c, bs) \<Rightarrow> ucast (NOT (foldl DO1 c bs)))"

text \<open>The data is the address of the buffer and its bytes; a NULL pointer is \<open>None\<close>.\<close>

definition crc32 :: "u64 \<Rightarrow> (u64 \<times> u8 list) option \<Rightarrow> u64" where
  "crc32 crc data = (case data of None \<Rightarrow> 0 | Some (addr, bs) \<Rightarrow> crc32_little crc addr bs)"

section \<open>The shift register\<close>

definition crc_poly :: u32 where "crc_poly = 0xedb88320"

definition crc_bit :: "u32 \<Rightarrow> u32" where
  "crc_bit c = (if bit c 0 then crc_poly XOR drop_bit 1 c else drop_bit 1 c)"

definition crc_shift8 :: "u32 \<Rightarrow> u32" where
  "crc_shift8 c = crc_bit (crc_bit (crc_bit (crc_bit (crc_bit (crc_bit (crc_bit (crc_bit c)))))))"

definition crc_register :: "u32 \<Rightarrow> u8 list \<Rightarrow> u32" where
  "crc_register = foldl (\<lambda>c b. crc_shift8 (c XOR ucast b))"

lemma crc_bit_xor: "crc_bit (a XOR b) = crc_bit a XOR crc_bit b"
  by (cases "bit a 0"; cases "bit b 0") (simp_all add: crc_bit_def bit_xor_iff drop_bit_xor xor.assoc xor.left_commute xor.commute)

lemma crc_shift8_xor: "crc_shift8 (a XOR b) = crc_shift8 a XOR crc_shift8 b"
  by (simp add: crc_shift8_def crc_bit_xor)

lemma crc_shift8_high: "(\<And>i. i < 8 \<Longrightarrow> \<not> bit c i) \<Longrightarrow> crc_shift8 c = drop_bit 8 c"
  by (simp add: crc_shift8_def crc_bit_def bit_drop_bit_eq) (simp add: numeral_eq_Suc)

lemma crc_shift8_push: "crc_shift8 (push_bit 8 y) = drop_bit 8 (push_bit 8 y)"
  by (rule crc_shift8_high) (simp add: bit_push_bit_iff)

lemma crc_shift8_split: "crc_shift8 c = crc_shift8 (c AND 0xff) XOR drop_bit 8 c"
proof -
  have byte: "(0xff :: u32) = mask 8" by (simp add: mask_eq_exp_minus_1)
  have "c = (c AND 0xff) XOR push_bit 8 (drop_bit 8 c)"
    unfolding byte by (rule bit_eqI) (auto simp: bit_simps)
  then have "crc_shift8 c = crc_shift8 (c AND 0xff) XOR crc_shift8 (push_bit 8 (drop_bit 8 c))"
    by (metis crc_shift8_xor)
  also have "crc_shift8 (push_bit 8 (drop_bit 8 c)) = drop_bit 8 c"
    unfolding crc_shift8_push by (rule bit_eqI) (auto simp: bit_simps dest: bit_imp_le_length)
  finally show ?thesis .
qed

section \<open>The tables\<close>

text \<open>A table whose entries are the sums of the entries at the powers of two; the list holds those, highest first.\<close>

fun xor_table :: "u32 list \<Rightarrow> u32 list" where
  "xor_table [] = [0]"
| "xor_table (b # bs) = xor_table bs @ map (\<lambda>x. b XOR x) (xor_table bs)"

lemma length_xor_table: "length (xor_table bs) = 2 ^ length bs"
  by (induction bs) simp_all

fun powers :: "nat \<Rightarrow> u32 list" where
  "powers 0 = []"
| "powers (Suc m) = 2 ^ m # powers m"

lemma length_powers: "length (powers m) = m"
  by (induction m) simp_all

lemma xor_table_linear:
  assumes lin: "\<And>a b. G (a XOR b) = G a XOR G b"
  shows "i < 2 ^ m \<Longrightarrow> xor_table (map G (powers m)) ! i = G (of_nat i)"
proof (induction m arbitrary: i)
  case 0
  have "G 0 = 0" using lin [of 0 0] by simp
  then show ?case using 0 by simp
next
  case (Suc m)
  have len: "length (xor_table (map G (powers m))) = 2 ^ m"
    by (simp add: length_xor_table length_powers)
  show ?case
  proof (cases "i < 2 ^ m")
    case True
    then show ?thesis using Suc.IH len by (simp add: nth_append)
  next
    case False
    then obtain j where j: "i = 2 ^ m + j" "j < 2 ^ m"
      using Suc.prems by (metis add_less_cancel_left le_Suc_ex mult_2 not_less power_Suc)
    have "2 ^ m AND j = (0 :: nat)"
      using j(2) by (subst and.commute) (simp add: and_exp_eq_0_iff_not_bit bit_iff_odd)
    then have "i = 2 ^ m XOR j"
      using j(1) by (simp add: disjunctive_add_eq_xor)
    then have "(of_nat i :: u32) = 2 ^ m XOR of_nat j"
      by (simp add: of_nat_xor_eq)
    then show ?thesis
      using Suc.IH [OF j(2)] j len lin by (simp add: nth_append)
  qed
qed

lemma powers8: "powers 8 = [128, 64, 32, 16, 8, 4, 2, 1]"
  by (simp add: numeral_eq_Suc)

lemma crc_table0_basis: "crc_table0 = xor_table [0xedb88320, 0x76dc4190, 0x3b6e20c8, 0x1db71064, 0xedb8832, 0x76dc419, 0xee0e612c, 0x77073096]"
  by (simp add: crc_table0_def)

lemma crc_table1_basis: "crc_table1 = xor_table [0x3b83984b, 0xf0794f05, 0x958424a2, 0x4ac21251, 0xc8d98a08, 0x646cc504, 0x32366282, 0x191b3141]"
  by (simp add: crc_table1_def)

lemma crc_table2_basis: "crc_table2 = xor_table [0xe1351b80, 0x709a8dc0, 0x384d46e0, 0x1c26a370, 0xe1351b8, 0x709a8dc, 0x384d46e, 0x1c26a37]"
  by (simp add: crc_table2_def)

lemma crc_table3_basis: "crc_table3 = xor_table [0xed59b63b, 0x9b14583d, 0xa032af3e, 0x5019579f, 0xc5b428ef, 0x8f629757, 0xaa09c88b, 0xb8bc6765]"
  by (simp add: crc_table3_def)

text \<open>The tables are the contents of the register after one to four shifts by eight, for every byte.\<close>

lemma basis_shifts:
  "map crc_shift8 (powers 8) = [0xedb88320, 0x76dc4190, 0x3b6e20c8, 0x1db71064, 0xedb8832, 0x76dc419, 0xee0e612c, 0x77073096]"
  "map crc_shift8 [0xedb88320, 0x76dc4190, 0x3b6e20c8, 0x1db71064, 0xedb8832, 0x76dc419, 0xee0e612c, 0x77073096] = [0x3b83984b, 0xf0794f05, 0x958424a2, 0x4ac21251, 0xc8d98a08, 0x646cc504, 0x32366282, 0x191b3141]"
  "map crc_shift8 [0x3b83984b, 0xf0794f05, 0x958424a2, 0x4ac21251, 0xc8d98a08, 0x646cc504, 0x32366282, 0x191b3141] = [0xe1351b80, 0x709a8dc0, 0x384d46e0, 0x1c26a370, 0xe1351b8, 0x709a8dc, 0x384d46e, 0x1c26a37]"
  "map crc_shift8 [0xe1351b80, 0x709a8dc0, 0x384d46e0, 0x1c26a370, 0xe1351b8, 0x709a8dc, 0x384d46e, 0x1c26a37] = [0xed59b63b, 0x9b14583d, 0xa032af3e, 0x5019579f, 0xc5b428ef, 0x8f629757, 0xaa09c88b, 0xb8bc6765]"
  by (simp_all add: powers8 crc_shift8_def crc_bit_def crc_poly_def)

lemma crc_tables:
  assumes "i < 256"
  shows "crc_table0 ! i = crc_shift8 (of_nat i)" and "crc_table1 ! i = crc_shift8 (crc_shift8 (of_nat i))"
    and "crc_table2 ! i = crc_shift8 (crc_shift8 (crc_shift8 (of_nat i)))"
    and "crc_table3 ! i = crc_shift8 (crc_shift8 (crc_shift8 (crc_shift8 (of_nat i))))"
proof -
  have t: "crc_table0 = xor_table (map crc_shift8 (powers 8))"
      "crc_table1 = xor_table (map crc_shift8 (map crc_shift8 (powers 8)))"
      "crc_table2 = xor_table (map crc_shift8 (map crc_shift8 (map crc_shift8 (powers 8))))"
      "crc_table3 = xor_table (map crc_shift8 (map crc_shift8 (map crc_shift8 (map crc_shift8 (powers 8)))))"
    using crc_table0_basis crc_table1_basis crc_table2_basis crc_table3_basis basis_shifts
    by (simp_all only:)
  have i: "i < 2 ^ 8" using assms by simp
  show "crc_table0 ! i = crc_shift8 (of_nat i)" "crc_table1 ! i = crc_shift8 (crc_shift8 (of_nat i))"
    "crc_table2 ! i = crc_shift8 (crc_shift8 (crc_shift8 (of_nat i)))"
    "crc_table3 ! i = crc_shift8 (crc_shift8 (crc_shift8 (crc_shift8 (of_nat i))))"
    unfolding t map_map comp_def by (subst xor_table_linear [OF _ i]; simp add: crc_shift8_xor)+
qed

section \<open>The routine computes the register\<close>

abbreviation byte_of :: "u32 \<Rightarrow> u32" where "byte_of c \<equiv> c AND 0xff"

lemma byte_lt: "unat (byte_of c) < 256"
proof -
  have "unat (c AND mask 8) < 2 ^ 8"
    using and_mask_less' [of 8 c] by (simp add: word_less_nat_alt)
  then show ?thesis by (simp add: mask_eq_exp_minus_1)
qed

lemma crc_tables_byte:
  "crc_table0 ! unat (byte_of c) = crc_shift8 (byte_of c)"
  "crc_table1 ! unat (byte_of c) = crc_shift8 (crc_shift8 (byte_of c))"
  "crc_table2 ! unat (byte_of c) = crc_shift8 (crc_shift8 (crc_shift8 (byte_of c)))"
  "crc_table3 ! unat (byte_of c) = crc_shift8 (crc_shift8 (crc_shift8 (crc_shift8 (byte_of c))))"
  using crc_tables [OF byte_lt [of c]] by simp_all

lemma DO1_shift: "DO1 c b = crc_shift8 (c XOR ucast b)"
proof -
  have "drop_bit 8 (ucast b :: u32) = 0"
    by (rule bit_eqI) (auto simp: bit_simps dest: bit_imp_le_length)
  then show ?thesis
    by (simp add: DO1_def crc_tables_byte crc_shift8_split [of "c XOR ucast b"] drop_bit_xor)
qed

lemma top_byte: "byte_of (drop_bit 24 c) = drop_bit 24 c"
proof -
  have "drop_bit 24 c AND mask 8 = drop_bit 24 c"
    by (rule bit_eqI) (auto simp: bit_simps dest: bit_imp_le_length)
  then show ?thesis by (simp add: mask_eq_exp_minus_1)
qed

lemma DOLIT4_shift: "DOLIT4 c w = crc_shift8 (crc_shift8 (crc_shift8 (crc_shift8 (c XOR w))))"
proof -
  define x where "x = c XOR w"
  have top: "drop_bit 8 (drop_bit 24 x) = 0"
    by (rule bit_eqI) (auto simp: bit_simps dest: bit_imp_le_length)
  have s1: "crc_shift8 x = crc_shift8 (byte_of x) XOR drop_bit 8 x"
    by (rule crc_shift8_split)
  have s2: "crc_shift8 (drop_bit 8 x) = crc_shift8 (byte_of (drop_bit 8 x)) XOR drop_bit 16 x"
    using crc_shift8_split [of "drop_bit 8 x"] by simp
  have s3: "crc_shift8 (drop_bit 16 x) = crc_shift8 (byte_of (drop_bit 16 x)) XOR drop_bit 24 x"
    using crc_shift8_split [of "drop_bit 16 x"] by simp
  have t0: "crc_table0 ! unat (drop_bit 24 x) = crc_shift8 (drop_bit 24 x)"
    using crc_tables_byte(1) [of "drop_bit 24 x"] by (simp only: top_byte)
  have "DOLIT4 c w =
      crc_shift8 (crc_shift8 (crc_shift8 (crc_shift8 (byte_of x)))) XOR
      crc_shift8 (crc_shift8 (crc_shift8 (byte_of (drop_bit 8 x)))) XOR
      crc_shift8 (crc_shift8 (byte_of (drop_bit 16 x))) XOR crc_shift8 (drop_bit 24 x)"
    unfolding DOLIT4_def Let_def x_def [symmetric] t0 crc_tables_byte ..
  also have "\<dots> = crc_shift8 (crc_shift8 (crc_shift8 (crc_shift8 x)))"
    by (simp only: s1 s2 s3 crc_shift8_xor xor.assoc)
  finally show ?thesis by (simp only: x_def)
qed

lemma crc_shift8_push_byte:
  "crc_shift8 (push_bit 8 (ucast (b :: u8))) = ucast b"
  "crc_shift8 (push_bit 16 (ucast b)) = push_bit 8 (ucast b)"
  "crc_shift8 (push_bit 24 (ucast b)) = push_bit 16 (ucast b)"
  by (subst crc_shift8_high; (rule bit_eqI)?; auto simp: bit_simps dest: bit_imp_le_length)+

lemma load_u4_xor:
  "load_u4 b0 b1 b2 b3 = ucast b0 XOR push_bit 8 (ucast b1) XOR push_bit 16 (ucast b2) XOR push_bit 24 (ucast b3)"
  unfolding load_u4_def by (rule bit_eqI) (auto simp: bit_simps dest: bit_imp_le_length)

lemma DOLIT4_register: "DOLIT4 c (load_u4 b0 b1 b2 b3) = crc_register c [b0, b1, b2, b3]"
  by (simp add: DOLIT4_shift load_u4_xor crc_register_def crc_shift8_xor crc_shift8_push_byte xor.assoc)

lemma crc_register_append: "crc_register c (xs @ ys) = crc_register (crc_register c xs) ys"
  by (simp add: crc_register_def)

lemma crc_register_Cons: "crc_register c (b # bs) = crc_register (DO1 c b) bs"
  by (simp add: crc_register_def DO1_shift)

lemma crc_align_register:
  "crc_align addr c bs = (c', bs') \<Longrightarrow> crc_register c' bs' = crc_register c bs"
  by (induction addr c bs rule: crc_align.induct) (auto simp: crc_register_Cons split: if_splits)

lemma dolit4s_register:
  "dolit4s n c bs = (c', bs') \<Longrightarrow> crc_register c' bs' = crc_register c bs"
proof (induction n c bs rule: dolit4s.induct)
  case (1 n c b0 b1 b2 b3 bs)
  then show ?case
    using crc_register_append [of c "[b0, b1, b2, b3]" bs] by (simp add: DOLIT4_register)
qed auto

lemma dolit4s_length: "length bs = 4 * n \<Longrightarrow> dolit4s n c bs = (c', bs') \<Longrightarrow> bs' = []"
proof (induction n arbitrary: c bs)
  case (Suc n)
  then obtain b0 b1 b2 b3 cs where "bs = b0 # b1 # b2 # b3 # cs"
    by (auto simp: length_Suc_conv numeral_eq_Suc)
  then show ?case using Suc by simp
qed simp

lemma crc_words32_register:
  "crc_words32 c bs = (c', bs') \<Longrightarrow> crc_register c' bs' = crc_register c bs"
proof (induction c bs rule: crc_words32.induct)
  case (1 c bs)
  show ?case
  proof (cases "32 \<le> length bs")
    case True
    obtain d ds where d: "dolit4s 8 c (take 32 bs) = (d, ds)" by (cases "dolit4s 8 c (take 32 bs)")
    then have "ds = []"
      using dolit4s_length [of "take 32 bs" 8] True by simp
    then have "crc_register c (take 32 bs) = d"
      using dolit4s_register [OF d] by (simp add: crc_register_def)
    moreover have "crc_register c' bs' = crc_register d (drop 32 bs)"
      using 1 True d by (simp add: crc_words32.simps [of c bs])
    ultimately show ?thesis
      by (metis append_take_drop_id crc_register_append)
  next
    case False
    then show ?thesis using 1(2) by (simp add: crc_words32.simps [of c bs])
  qed
qed

lemma crc_words4_register:
  "crc_words4 c bs = (c', bs') \<Longrightarrow> crc_register c' bs' = crc_register c bs"
proof (induction c bs rule: crc_words4.induct)
  case (1 c bs)
  show ?case
  proof (cases "4 \<le> length bs")
    case True
    obtain d ds where d: "dolit4s 1 c (take 4 bs) = (d, ds)" by (cases "dolit4s 1 c (take 4 bs)")
    then have "ds = []"
      using dolit4s_length [of "take 4 bs" 1] True by simp
    then have "crc_register c (take 4 bs) = d"
      using dolit4s_register [OF d] by (simp add: crc_register_def)
    moreover have "crc_register c' bs' = crc_register d (drop 4 bs)"
      using 1 True d by (simp add: crc_words4.simps [of c bs])
    ultimately show ?thesis
      by (metis append_take_drop_id crc_register_append)
  next
    case False
    then show ?thesis using 1(2) by (simp add: crc_words4.simps [of c bs])
  qed
qed

lemma crc32_little_eq:
  "crc32_little crc addr bs = ucast (NOT (crc_register (NOT (ucast crc)) bs))"
proof -
  let ?c = "NOT (ucast crc) :: u32"
  obtain c1 bs1 where s1: "crc_align addr ?c bs = (c1, bs1)" by (cases "crc_align addr ?c bs")
  obtain c2 bs2 where s2: "crc_words32 c1 bs1 = (c2, bs2)" by (cases "crc_words32 c1 bs1")
  obtain c3 bs3 where s3: "crc_words4 c2 bs2 = (c3, bs3)" by (cases "crc_words4 c2 bs2")
  have "foldl DO1 c3 bs3 = crc_register c3 bs3"
    by (simp add: crc_register_def DO1_shift cong: foldl_cong)
  also have "\<dots> = crc_register ?c bs"
    by (simp add: crc_align_register [OF s1] crc_words32_register [OF s2] crc_words4_register [OF s3])
  finally show ?thesis
    by (simp add: crc32_little_def s1 s2 s3)
qed

section \<open>Error detection\<close>

lemma word_xor_eq_0: "(a :: 'a::len word) XOR b = 0 \<Longrightarrow> a = b"
  by (auto simp: bit_eq_iff bit_xor_iff)

lemma word_xor_cancel: "(a :: 'a::len word) XOR c = b XOR c \<Longrightarrow> a = b"
  by (auto simp: bit_eq_iff bit_xor_iff)

lemma word_xor_cancel_left: "(c :: 'a::len word) XOR a = c XOR b \<Longrightarrow> a = b"
  by (auto simp: bit_eq_iff bit_xor_iff)

lemma ucast_u8_u32: "(ucast (ucast (a :: u8) :: u32) :: u8) = a"
  by (rule bit_word_eqI) (simp add: bit_simps)

lemma crc_bit_0: "crc_bit d = 0 \<Longrightarrow> d = 0"
proof -
  assume z: "crc_bit d = 0"
  have low: "\<not> bit d 0"
  proof
    assume "bit d 0"
    then have "drop_bit 1 d = crc_poly"
      using z word_xor_eq_0 [of crc_poly "drop_bit 1 d"] by (simp add: crc_bit_def)
    then have "bit (drop_bit 1 d) 31 = bit crc_poly 31" by simp
    moreover have "\<not> bit (drop_bit 1 d) 31"
      by (auto simp: bit_drop_bit_eq dest: bit_imp_le_length)
    moreover have "bit crc_poly 31"
      by (simp add: crc_poly_def bit_iff_odd)
    ultimately show False by simp
  qed
  then have "drop_bit 1 d = 0"
    using z by (auto simp: crc_bit_def bit_0)
  show "d = 0"
  proof (rule bit_eqI)
    fix n
    have "bit (drop_bit 1 d) (n - 1) = bit (0 :: u32) (n - 1)"
      using \<open>drop_bit 1 d = 0\<close> by simp
    then show "bit d n = bit 0 n"
      using low by (cases n) (simp_all add: bit_drop_bit_eq)
  qed
qed

lemma crc_shift8_inj: "crc_shift8 a = crc_shift8 b \<Longrightarrow> a = b"
proof -
  assume "crc_shift8 a = crc_shift8 b"
  then have "crc_shift8 (a XOR b) = 0" by (simp add: crc_shift8_xor)
  then have "a XOR b = 0"
    by (auto simp: crc_shift8_def dest!: crc_bit_0)
  then show "a = b" by (rule word_xor_eq_0)
qed

lemma crc_register_inj: "crc_register c bs = crc_register c' bs \<Longrightarrow> c = c'"
proof (induction bs arbitrary: c c')
  case (Cons b bs)
  then have "crc_shift8 (c XOR ucast b) = crc_shift8 (c' XOR ucast b)"
    by (auto simp: crc_register_def)
  then have "c XOR ucast b = c' XOR ucast b" by (rule crc_shift8_inj)
  then show ?case by (rule word_xor_cancel)
qed (simp add: crc_register_def)

text \<open>One changed byte changes the register, whatever surrounds it.\<close>

lemma crc_register_detects:
  assumes "a \<noteq> b"
  shows "crc_register c (xs @ a # ys) \<noteq> crc_register c (xs @ b # ys)"
proof
  let ?d = "crc_register c xs"
  assume "crc_register c (xs @ a # ys) = crc_register c (xs @ b # ys)"
  then have "crc_register ?d [a] = crc_register ?d [b]"
    using crc_register_append [of ?d "[a]" ys] crc_register_append [of ?d "[b]" ys]
    by (auto simp: crc_register_append [of c] intro: crc_register_inj)
  then have "?d XOR ucast a = ?d XOR ucast b"
    by (auto simp: crc_register_def intro: crc_shift8_inj)
  then have "(ucast a :: u32) = ucast b"
    by (rule word_xor_cancel_left)
  then show False
    using assms ucast_u8_u32 [of a] ucast_u8_u32 [of b] by simp
qed

lemma crc32_eq_iff:
  "crc32 crc (Some (addr, xs)) = crc32 crc (Some (addr', ys)) \<longleftrightarrow>
     crc_register (NOT (ucast crc)) xs = crc_register (NOT (ucast crc)) ys"
proof -
  have "(ucast (NOT a :: u32) :: u64) = ucast (NOT b) \<longleftrightarrow> a = b" for a b :: u32
  proof
    assume "(ucast (NOT a :: u32) :: u64) = ucast (NOT b)"
    then have "(ucast (ucast (NOT a :: u32) :: u64) :: u32) = ucast (ucast (NOT b :: u32) :: u64)" by simp
    moreover have "(ucast (ucast x :: u64) :: u32) = x" for x :: u32
      by (rule bit_word_eqI) (simp add: bit_simps)
    ultimately show "a = b" by (metis bit.double_compl)
  qed simp
  then show ?thesis by (simp add: crc32_def crc32_little_eq)
qed

lemma crc32_address: "crc32 crc (Some (addr, bs)) = crc32 crc (Some (addr', bs))"
  by (simp add: crc32_eq_iff)

lemma crc32_low: "(ucast (ucast (crc32 crc (Some (addr, bs))) :: u32) :: u64) = crc32 crc (Some (addr, bs))"
  by (simp add: crc32_def crc32_little_eq) (rule bit_word_eqI, auto simp: bit_simps dest: bit_imp_le_length)

lemma crc32_detects:
  assumes "a \<noteq> b"
  shows "crc32 crc (Some (addr, xs @ a # ys)) \<noteq> crc32 crc (Some (addr', xs @ b # ys))"
  using crc_register_detects [OF assms] by (simp add: crc32_eq_iff)

text \<open>
  (C27) The fast checksum is the checksum: for every start value, address and content of the buffer \<^verbatim>\<open>crc32\<close>, which works on
  whole words with the precomputed tables, returns what the shift register of the CRC-32 polynomial returns, one bit at a time.
\<close>

theorem crc32_shift_register:
  "crc32 crc (Some (addr, bs)) = ucast (NOT (crc_register (NOT (ucast crc)) bs))"
  by (simp add: crc32_def crc32_little_eq)

end
