(* ===== verification/FileIo.thy ===== *)
theory FileIo
  imports TestMemory Crc32
begin

text \<open>
  The file test, \<^verbatim>\<open>tests/fileio/sb_fileio.c\<close>, first part: state, arguments, the generators of sequential and random requests, the
  check of sequential requests, checksums of blocks, and the reports; then the proofs that sequential requests follow one another,
  that random requests stay inside the files and do not collide, and that the checksums detect damage. Operations on files are in \<open>FileExec\<close>. The configuration modelled is a 64-bit Linux with
  asynchronous I/O, memory mapping, \<^verbatim>\<open>fdatasync\<close> and \<^verbatim>\<open>posix_memalign\<close>. The types \<^verbatim>\<open>long long\<close> and \<^verbatim>\<open>ssize_t\<close> are integers, \<^verbatim>\<open>int\<close> is an
  integer converted by \<open>c_int\<close>, unsigned types are words. Fresh memory that holds data of blocks
  or descriptors is taken as zeros; the block position of a thread that has not had a random request yet is what
  \<^verbatim>\<open>malloc\<close> left there, any value.
\<close>

section \<open>State\<close>

datatype file_test_mode_t = MODE_READ | MODE_WRITE | MODE_REWRITE | MODE_RND_READ | MODE_RND_WRITE | MODE_RND_RW | MODE_MIXED
datatype file_fsync_mode_t = FSYNC_ALL | FSYNC_DATA
datatype file_io_mode_t = FILE_IO_MODE_SYNC | FILE_IO_MODE_ASYNC | FILE_IO_MODE_MMAP
datatype file_flags_t = SB_FILE_FLAG_NORMAL | SB_FILE_FLAG_SYNC | SB_FILE_FLAG_DSYNC | SB_FILE_FLAG_DIRECTIO

text \<open>The block a thread works on is a file and a position.\<close>

record sb_per_thread_t =
  pt_buffer :: "u8 list option"
  pt_place :: "u32 \<times> int"

text \<open>The context of a thread for asynchronous operations: the number of queued operations.\<close>

record sb_aio_context_t =
  nrequests :: u32

text \<open>\<open>malloc_places i\<close> is what the memory from \<^verbatim>\<open>malloc\<close> holds where the block of thread \<open>i\<close> is kept, before anything is stored there: any value.\<close>

record 'o test_file = test_memory +
  fl_os :: 'o
  malloc_places :: "nat \<Rightarrow> u32 \<times> int"
  aio_ctxts :: "sb_aio_context_t list"
  per_thread :: "sb_per_thread_t list option"
  num_files :: u32
  total_size :: int
  file_size :: int
  file_block_size :: int
  file_extra_flags :: file_flags_t
  file_fsync_freq :: int
  file_fsync_all :: bool
  file_fsync_end :: bool
  file_fsync_mode :: file_fsync_mode_t
  file_rw_ratio :: real
  file_merged_requests :: int
  file_max_request_size :: int
  file_io_mode :: file_io_mode_t
  file_async_backlog :: u32
  f_position :: int
  current_file :: u32
  fsynced_file :: u32
  fsynced_file2 :: u32
  is_dirty :: bool
  f_read_ops :: int
  f_write_ops :: int
  f_other_ops :: int
  f_last_other_ops :: int
  f_req_performed :: u32
  bytes_read :: u64
  last_bytes_read :: u64
  bytes_written :: u64
  last_bytes_written :: u64
  mmaps :: "nat list"
  files :: "int list"
  test_mode :: file_test_mode_t
  prev_req :: sb_file_request_t
  f_percentile :: "sb_percentile_t option"

definition upd_t :: "('t \<Rightarrow> 't) \<Rightarrow> 't st \<Rightarrow> 't st" where
  "upd_t f s = (fst s, f (snd s))"

lemma upd_t_simps [simp]: "fst (upd_t f s) = fst s" "snd (upd_t f s) = f (snd s)"
  by (simp_all add: upd_t_def)

definition fileio_args :: "sb_arg_t list" where
  "fileio_args =
     [mk_arg ''file-num'' ''number of files to create'' SB_ARG_TYPE_INT (Some ''128''),
      mk_arg ''file-block-size'' ''block size to use in all IO operations'' SB_ARG_TYPE_INT (Some ''16384''),
      mk_arg ''file-total-size'' ''total size of files to create'' SB_ARG_TYPE_SIZE (Some ''2G''),
      mk_arg ''file-test-mode'' ''test mode {seqwr, seqrewr, seqrd, rndrd, rndwr, rndrw}'' SB_ARG_TYPE_STRING None,
      mk_arg ''file-io-mode'' ''file operations mode {sync,async,mmap}'' SB_ARG_TYPE_STRING (Some ''sync''),
      mk_arg ''file-async-backlog'' ''number of asynchronous operatons to queue per thread'' SB_ARG_TYPE_INT (Some ''128''),
      mk_arg ''file-extra-flags'' ''additional flags to use on opening files {sync,dsync,direct}'' SB_ARG_TYPE_STRING (Some []),
      mk_arg ''file-fsync-freq'' (''do fsync() after this number of requests (0 - don'' @ [CHR 0x27] @ ''t use fsync())'') SB_ARG_TYPE_INT (Some ''100''),
      mk_arg ''file-fsync-all'' ''do fsync() after each write operation'' SB_ARG_TYPE_FLAG (Some ''off''),
      mk_arg ''file-fsync-end'' ''do fsync() at the end of test'' SB_ARG_TYPE_FLAG (Some ''on''),
      mk_arg ''file-fsync-mode'' ''which method to use for synchronization {fsync, fdatasync}'' SB_ARG_TYPE_STRING (Some ''fsync''),
      mk_arg ''file-merged-requests'' (''merge at most this number of IO requests if possible (0 - don'' @ [CHR 0x27] @ ''t merge)'') SB_ARG_TYPE_INT (Some ''0''),
      mk_arg ''file-rw-ratio'' ''reads/writes ratio for combined test'' SB_ARG_TYPE_FLOAT (Some ''1.5'')]"

section \<open>Arguments\<close>

text \<open>An option that is one of several names.\<close>

definition file_choose :: "(string \<times> ('t \<Rightarrow> 't)) list \<Rightarrow> string \<Rightarrow> string \<Rightarrow> 't op" where
  "file_choose choices v m s = (case map_of choices v of Some f \<Rightarrow> Inr (0, upd_t f s) | None \<Rightarrow> mem_fail m s)"

definition file_parse_sizes :: "('o, 'a) test_file_scheme op" where
  "file_parse_sizes s =
     rbind (sb_get_value_int (pg_opts (fst s)) ''file-num'') (\<lambda>n.
       let s = upd_t (\<lambda>t. t\<lparr>num_files := word_of_int n\<rparr>) s in
       if num_files (snd s) = 0 then mem_fail (''Invalid value for file-num: '' @ print_int (sint (num_files (snd s)))) s
       else
         (let s = upd_t (\<lambda>t. t\<lparr>total_size := sint (sb_get_value_size (pg_opts (fst s)) ''file-total-size'')\<rparr>) s in
          if total_size (snd s) \<le> 0 then mem_fail (''Invalid value for file-total-size: '' @ print_int (total_size (snd s))) s
          else Inr (0, upd_t (\<lambda>t. t\<lparr>file_size := total_size t div uint (num_files t)\<rparr>) s)))"

definition file_parse_mode :: "('o, 'a) test_file_scheme op" where
  "file_parse_mode s =
     (if g_command (s_globals s) \<noteq> SB_COMMAND_RUN then Inr (0, s)
      else
        (case sb_get_value_string (pg_opts (fst s)) ''file-test-mode'' of
           None \<Rightarrow> rbind (s_log LOG_FATAL ''Missing required argument: --file-test-mode'' s)
                     (\<lambda>s. Inr (1, (upd_w (w_print (sb_print_options fileio_args)) (fst s), snd s)))
         | Some mode \<Rightarrow>
             file_choose
               [(''seqwr'', \<lambda>t. t\<lparr>test_mode := MODE_WRITE\<rparr>), (''seqrewr'', \<lambda>t. t\<lparr>test_mode := MODE_REWRITE\<rparr>),
                (''seqrd'', \<lambda>t. t\<lparr>test_mode := MODE_READ\<rparr>), (''rndrd'', \<lambda>t. t\<lparr>test_mode := MODE_RND_READ\<rparr>),
                (''rndwr'', \<lambda>t. t\<lparr>test_mode := MODE_RND_WRITE\<rparr>), (''rndrw'', \<lambda>t. t\<lparr>test_mode := MODE_RND_RW\<rparr>)]
               mode (''Invalid IO operations mode: '' @ mode @ ''.'') s))"

definition file_parse_io :: "('o, 'a) test_file_scheme op" where
  "file_parse_io s =
     (let mode = (case sb_get_value_string (pg_opts (fst s)) ''file-io-mode'' of None \<Rightarrow> ''sync'' | Some m \<Rightarrow> m) in
      file_choose
        [(''sync'', \<lambda>t. t\<lparr>file_io_mode := FILE_IO_MODE_SYNC\<rparr>), (''async'', \<lambda>t. t\<lparr>file_io_mode := FILE_IO_MODE_ASYNC\<rparr>),
         (''mmap'', \<lambda>t. t\<lparr>file_io_mode := FILE_IO_MODE_MMAP\<rparr>)] mode (''unknown I/O mode: '' @ mode) s)"

definition file_parse_blocks :: "('o, 'a) test_file_scheme op" where
  "file_parse_blocks s =
     rbind (sb_get_value_int (pg_opts (fst s)) ''file-merged-requests'') (\<lambda>m.
       let s = upd_t (\<lambda>t. t\<lparr>file_merged_requests := m\<rparr>) s in
       if m < 0 then mem_fail (''Invalid value for file-merged-requests: '' @ print_int m @ ''.'') s
       else
         (let b = c_int (uint (sb_get_value_size (pg_opts (fst s)) ''file-block-size''));
              s = upd_t (\<lambda>t. t\<lparr>file_block_size := b\<rparr>) s in
          if b \<le> 0 then mem_fail (''Invalid value for file-block-size: '' @ print_int b @ ''.'') s
          else Inr (0, upd_t (\<lambda>t. t\<lparr>file_max_request_size := (if m > 0 then c_int (b * m) else b)\<rparr>) s)))"

definition file_parse_flags :: "('o, 'a) test_file_scheme op" where
  "file_parse_flags s =
     (case sb_get_value_string (pg_opts (fst s)) ''file-extra-flags'' of
        None \<Rightarrow> Inr (0, upd_t (\<lambda>t. t\<lparr>file_extra_flags := SB_FILE_FLAG_NORMAL\<rparr>) s)
      | Some mode \<Rightarrow>
          file_choose
            [([], \<lambda>t. t\<lparr>file_extra_flags := SB_FILE_FLAG_NORMAL\<rparr>), (''sync'', \<lambda>t. t\<lparr>file_extra_flags := SB_FILE_FLAG_SYNC\<rparr>),
             (''dsync'', \<lambda>t. t\<lparr>file_extra_flags := SB_FILE_FLAG_DSYNC\<rparr>), (''direct'', \<lambda>t. t\<lparr>file_extra_flags := SB_FILE_FLAG_DIRECTIO\<rparr>)]
            mode (''Invalid value for file-extra-flags: '' @ mode) s)"

definition file_parse_fsync :: "('o, 'a) test_file_scheme op" where
  "file_parse_fsync s =
     rbind (sb_get_value_int (pg_opts (fst s)) ''file-fsync-freq'') (\<lambda>n.
       let s = upd_t (\<lambda>t. t\<lparr>file_fsync_freq := n\<rparr>) s in
       if n < 0 then mem_fail (''Invalid value for file-fsync-freq: '' @ print_int n @ ''.'') s
       else
         (let s = upd_t (\<lambda>t. t\<lparr>file_fsync_end := sb_get_value_flag (pg_opts (fst s)) ''file-fsync-end'',
                              file_fsync_all := sb_get_value_flag (pg_opts (fst s)) ''file-fsync-all''\<rparr>) s;
              s = upd_t (\<lambda>t. if file_fsync_all t then t\<lparr>file_fsync_end := False, file_fsync_freq := 0\<rparr> else t) s in
          case sb_get_value_string (pg_opts (fst s)) ''file-fsync-mode'' of
            None \<Rightarrow> Inl Null_deref
          | Some mode \<Rightarrow>
              file_choose [(''fsync'', \<lambda>t. t\<lparr>file_fsync_mode := FSYNC_ALL\<rparr>), (''fdatasync'', \<lambda>t. t\<lparr>file_fsync_mode := FSYNC_DATA\<rparr>)]
                mode (''Invalid fsync mode: '' @ mode @ ''.'') s))"

definition file_parse_ratio :: "fpenv \<Rightarrow> ('o, 'a) test_file_scheme op" where
  "file_parse_ratio fp s =
     rbind (sb_get_value_float fp (pg_opts (fst s)) ''file-rw-ratio'') (\<lambda>r.
       let s = upd_t (\<lambda>t. t\<lparr>file_rw_ratio := fp_round32 fp r\<rparr>) s in
       if file_rw_ratio (snd s) < 0 then mem_fail (''Invalid value file file-rw-ratio: '' @ fmt_fixed 6 (file_rw_ratio (snd s)) @ ''.'') s
       else Inr (0, s))"

text \<open>\<^verbatim>\<open>sb_memalign\<close>: a zeroed buffer, or NULL.\<close>

definition sb_memalign :: "int \<Rightarrow> 't st \<Rightarrow> u8 list option \<times> 't st" where
  "sb_memalign sz s = (case s_malloc s of (ok, s) \<Rightarrow> (if ok then Some (replicate (nat sz) 0) else None, s))"

fun alloc_per_thread :: "nat \<Rightarrow> sb_per_thread_t list \<Rightarrow> ('o, 'a) test_file_scheme st \<Rightarrow> sb_per_thread_t list \<times> ('o, 'a) test_file_scheme st" where
  "alloc_per_thread 0 ps s = (ps, s)"
| "alloc_per_thread (Suc n) ps s =
     (case sb_memalign (file_max_request_size (snd s)) s of (b, s) \<Rightarrow> alloc_per_thread n (ps @ [\<lparr>pt_buffer = b, pt_place = malloc_places (snd s) (length ps)\<rparr>]) s)"

definition file_parse_buffers :: "('o, 'a) test_file_scheme op" where
  "file_parse_buffers s =
     (let n = unat (g_num_threads (s_globals s)) in
      case s_malloc s of (ok, s) \<Rightarrow>
        if \<not> ok then (if n = 0 then Inr (0, upd_t (\<lambda>t. t\<lparr>per_thread := None\<rparr>) s) else Inl Null_deref)
        else (case alloc_per_thread n [] s of (ps, s) \<Rightarrow> Inr (0, upd_t (\<lambda>t. t\<lparr>per_thread := Some ps\<rparr>) s)))"

definition file_parse_arguments :: "fpenv \<Rightarrow> ('o, 'a) test_file_scheme op" where
  "file_parse_arguments fp =
     sthen file_parse_sizes (sthen file_parse_mode (sthen file_parse_io (sthen file_parse_blocks
       (sthen file_parse_flags (sthen file_parse_fsync (sthen (file_parse_ratio fp) file_parse_buffers))))))"

section \<open>Sequential requests\<close>

definition fsync_request :: "u32 \<Rightarrow> sb_file_request_t" where
  "fsync_request fid = \<lparr>file_id = fid, pos = 0, rsize = 0, operation = FILE_OP_TYPE_FSYNC\<rparr>"

abbreviation file_request :: "sb_file_request_t \<Rightarrow> request_u sb_request" where
  "file_request r \<equiv> (SB_REQ_TYPE_FILE, Some (File_request r))"

definition file_limit_reached :: "sb_globals_t \<Rightarrow> ('o, 'a) test_file_scheme \<Rightarrow> bool" where
  "file_limit_reached g t \<longleftrightarrow> g_max_requests g > 0 \<and> f_req_performed t \<ge> g_max_requests g"

text \<open>The periodic synchronisation: the next file in turn; after the last file the data is clean.\<close>

definition fsync_due :: "('o, 'a) test_file_scheme \<Rightarrow> bool" where
  "fsync_due t \<longleftrightarrow> file_fsync_freq t \<noteq> 0 \<and> is_dirty t \<and> uint (f_req_performed t) mod file_fsync_freq t = 0"

definition fsync_next :: "('o, 'a) test_file_scheme \<Rightarrow> sb_file_request_t \<times> ('o, 'a) test_file_scheme" where
  "fsync_next t =
     (fsync_request (fsynced_file t),
      (let t = t\<lparr>fsynced_file := fsynced_file t + 1\<rparr> in
       if fsynced_file t = num_files t then t\<lparr>fsynced_file := 0, is_dirty := False\<rparr> else t))"

text \<open>The final synchronisation, or the end of the requests.\<close>

definition fsync_last :: "bool \<Rightarrow> ('o, 'a) test_file_scheme \<Rightarrow> request_u sb_request \<times> ('o, 'a) test_file_scheme" where
  "fsync_last writes t =
     (if file_fsync_end t \<and> writes \<and> fsynced_file2 t < num_files t
      then (file_request (fsync_request (fsynced_file2 t)), t\<lparr>fsynced_file2 := fsynced_file2 t + 1\<rparr>)
      else ((SB_REQ_TYPE_NULL, None), t))"

definition check_seq_req :: "u32 \<Rightarrow> int \<Rightarrow> sb_file_request_t \<Rightarrow> sb_file_request_t \<Rightarrow> log_req list" where
  "check_seq_req nfiles fsize prev r =
     (if operation r = FILE_OP_TYPE_FSYNC \<or> operation r = FILE_OP_TYPE_NULL then []
      else if operation prev = FILE_OP_TYPE_NULL then []
      else if file_id r - file_id prev > 1 \<and> \<not> (file_id r = 0 \<and> file_id prev = nfiles - 1)
      then [(LOG_WARNING, ''Discovered too large file difference in seq requests!'')]
      else if file_id r = file_id prev
      then (if pos r - pos prev \<noteq> rsize prev then [(LOG_WARNING, ''Discovered too large position difference in seq request!'')] else [])
      else if pos prev + rsize prev \<noteq> fsize \<or> pos r \<noteq> 0
      then (let show = (\<lambda>q. ''file_id: '' @ print_int (sint (file_id q)) @ '', pos: '' @ print_int (c_int (pos q)) @ ''  size: ''
                               @ print_int (c_int (rsize q))) in
            [(LOG_WARNING, ''Invalid file switch found!''), (LOG_WARNING, ''Old: '' @ show prev), (LOG_WARNING, ''New: '' @ show r)])
      else [])"

text \<open>The next block in order: the count, the rewind to the first file, the size, and the step to the next file.\<close>

definition seq_count :: "sb_file_op_t \<Rightarrow> ('o, 'a) test_file_scheme \<Rightarrow> ('o, 'a) test_file_scheme" where
  "seq_count oper t =
     (let t = t\<lparr>f_req_performed := f_req_performed t + 1\<rparr> in
      if oper = FILE_OP_TYPE_WRITE then t\<lparr>is_dirty := True\<rparr> else t)"

definition seq_rewind :: "('o, 'a) test_file_scheme \<Rightarrow> ('o, 'a) test_file_scheme" where
  "seq_rewind t = (if current_file t = num_files t then t\<lparr>f_position := 0, current_file := 0\<rparr> else t)"

definition seq_size :: "('o, 'a) test_file_scheme \<Rightarrow> int" where
  "seq_size t =
     (if file_merged_requests t > 0
      then if f_position t + file_max_request_size t \<le> file_size t then file_max_request_size t else file_size t - f_position t
      else file_block_size t)"

definition seq_advance :: "int \<Rightarrow> ('o, 'a) test_file_scheme \<Rightarrow> ('o, 'a) test_file_scheme" where
  "seq_advance sz t =
     (let t = t\<lparr>f_position := f_position t + sz\<rparr> in
      if f_position t = file_size t then t\<lparr>current_file := current_file t + 1, f_position := 0\<rparr> else t)"

definition seq_block :: "sb_file_op_t \<Rightarrow> ('o, 'a) test_file_scheme \<Rightarrow> sb_file_request_t \<times> ('o, 'a) test_file_scheme" where
  "seq_block oper t =
     (let t = seq_rewind (seq_count oper t); sz = seq_size t in
      (\<lparr>file_id = current_file t, pos = f_position t, rsize = sz, operation = oper\<rparr>, seq_advance sz t))"

definition file_get_seq_request :: "('o, 'a) test_file_scheme st \<Rightarrow> (request_u sb_request \<times> ('o, 'a) test_file_scheme st) res" where
  "file_get_seq_request s =
     (let t = snd s; writes = (test_mode t = MODE_WRITE \<or> test_mode t = MODE_REWRITE);
          oper = (if writes then FILE_OP_TYPE_WRITE else FILE_OP_TYPE_READ) in
      if file_limit_reached (s_globals s) t then (case fsync_last writes t of (r, t) \<Rightarrow> Inr (r, (fst s, t)))
      else if writes \<and> fsync_due t then (case fsync_next t of (r, t) \<Rightarrow> Inr (file_request r, (fst s, t)))
      else
        (case seq_block oper t of (r, t) \<Rightarrow>
           if g_validate (s_globals s)
           then rbind (s_world (log_reqs (check_seq_req (num_files t) (file_size t) (prev_req t) r)) (fst s, t))
                  (\<lambda>s. Inr (file_request r, upd_t (\<lambda>t. t\<lparr>prev_req := r\<rparr>) s))
           else Inr (file_request r, (fst s, t))))"

section \<open>Random requests\<close>

text \<open>The block a random number stands for.\<close>

definition rnd_place :: "fpenv \<Rightarrow> nat \<Rightarrow> ('o, 'a) test_file_scheme \<Rightarrow> (u32 \<times> int) res" where
  "rnd_place fp randnum t =
     (let x = fmul fp (fdiv fp (real randnum) (real SB_MAX_RND)) (fp_round fp (real_of_int (total_size t)));
          tmppos = (if x \<ge> 0 then \<lfloor>x\<rfloor> else \<lceil>x\<rceil>) in
      if file_block_size t = 0 then Inl Div_zero
      else
        (let tmppos = tmppos - tmppos mod file_block_size t in
         if file_size t = 0 then Inl Div_zero
         else Inr (word_of_int (tmppos div file_size t), tmppos mod file_size t)))"

text \<open>
  Whether another thread works on the block; the threads are visited in order. Where a thread has had no request yet the comparison is with what \<^verbatim>\<open>malloc\<close> left.
\<close>

fun place_used :: "nat \<Rightarrow> u32 \<times> int \<Rightarrow> nat \<Rightarrow> sb_per_thread_t list \<Rightarrow> bool" where
  "place_used thread_id place i [] = False"
| "place_used thread_id place i (p # ps) =
     (if i \<noteq> thread_id \<and> pt_place p = place then True else place_used thread_id place (Suc i) ps)"

text \<open>The loop that draws a block, with fuel for the number of draws.\<close>

fun rnd_draw :: "nat \<Rightarrow> fpenv \<Rightarrow> nat \<Rightarrow> ('o, 'a) test_file_scheme st \<Rightarrow> ((u32 \<times> int) \<times> ('o, 'a) test_file_scheme st) res" where
  "rnd_draw 0 fp thread_id s = Inl Still_running"
| "rnd_draw (Suc n) fp thread_id s =
     (case sb_rnd (pg_rand (fst s)) of (x, r) \<Rightarrow>
        let s = ((fst s)\<lparr>pg_rand := r\<rparr>, snd s) in
        rbind (rnd_place fp x (snd s)) (\<lambda>place.
          rbind (if g_validate (s_globals s)
                 then (case per_thread (snd s) of
                         None \<Rightarrow> Inl Null_deref
                       | Some ps \<Rightarrow> Inr (place_used thread_id place 0 (take (unat (g_num_threads (s_globals s))) ps)))
                 else Inr False)
            (\<lambda>used. if used then rnd_draw n fp thread_id s else Inr (place, s))))"

definition rnd_mode :: "fpenv \<Rightarrow> ('o, 'a) test_file_scheme \<Rightarrow> file_test_mode_t" where
  "rnd_mode fp t =
     (if test_mode t = MODE_RND_RW
      then if fdiv fp (real_of_int (c_int (f_read_ops t + 1))) (real_of_int (c_int (f_write_ops t + 1))) < file_rw_ratio t
           then MODE_RND_READ else MODE_RND_WRITE
      else test_mode t)"

definition set_place :: "nat \<Rightarrow> u32 \<times> int \<Rightarrow> ('o, 'a) test_file_scheme \<Rightarrow> ('o, 'a) test_file_scheme res" where
  "set_place thread_id place t =
     (case per_thread t of
        None \<Rightarrow> Inl Null_deref
      | Some ps \<Rightarrow> rbind (aread ps thread_id) (\<lambda>p. Inr (t\<lparr>per_thread := Some (ps[thread_id := p\<lparr>pt_place := place\<rparr>])\<rparr>)))"

definition file_get_rnd_request ::
  "nat \<Rightarrow> fpenv \<Rightarrow> nat \<Rightarrow> ('o, 'a) test_file_scheme st \<Rightarrow> (request_u sb_request \<times> ('o, 'a) test_file_scheme st) res" where
  "file_get_rnd_request fuel fp thread_id s =
     (let t = snd s; mode = rnd_mode fp t in
      if file_limit_reached (s_globals s) t
      then (case fsync_last (test_mode t = MODE_RND_WRITE \<or> test_mode t = MODE_RND_RW \<or> test_mode t = MODE_MIXED) t of
              (r, t) \<Rightarrow> Inr (r, (fst s, t)))
      else if fsync_due t then (case fsync_next t of (r, t) \<Rightarrow> Inr (file_request r, (fst s, t)))
      else
        (let oper = (if mode = MODE_RND_WRITE then FILE_OP_TYPE_WRITE else FILE_OP_TYPE_READ) in
         rbind (rnd_draw fuel fp thread_id s) (\<lambda>(place, s).
         rbind (set_place thread_id place (snd s)) (\<lambda>t.
           let t = t\<lparr>f_req_performed := f_req_performed t + 1\<rparr>;
               t = (if oper = FILE_OP_TYPE_WRITE then t\<lparr>is_dirty := True\<rparr> else t) in
           Inr (file_request \<lparr>file_id = fst place, pos = snd place, rsize = file_block_size t, operation = oper\<rparr>, (fst s, t))))))"

definition file_get_request ::
  "nat \<Rightarrow> fpenv \<Rightarrow> nat \<Rightarrow> ('o, 'a) test_file_scheme st \<Rightarrow> (request_u sb_request \<times> ('o, 'a) test_file_scheme st) res" where
  "file_get_request fuel fp thread_id s =
     (if test_mode (snd s) = MODE_WRITE \<or> test_mode (snd s) = MODE_REWRITE \<or> test_mode (snd s) = MODE_READ
      then file_get_seq_request s else file_get_rnd_request fuel fp thread_id s)"

section \<open>Checksums of blocks\<close>

text \<open>Little-endian values in memory.\<close>

definition store_u4 :: "u32 \<Rightarrow> u8 list" where
  "store_u4 w = map (\<lambda>k. ucast (drop_bit (8 * k) w)) [0..<4]"

definition store_u8 :: "u64 \<Rightarrow> u8 list" where
  "store_u8 w = map (\<lambda>k. ucast (drop_bit (8 * k) w)) [0..<8]"

fun load_le :: "u8 list \<Rightarrow> u64" where
  "load_le [] = 0"
| "load_le (b # bs) = ucast b OR push_bit 8 (load_le bs)"

definition FILE_CHECKSUM_LENGTH :: nat where "FILE_CHECKSUM_LENGTH = 4"
definition FILE_OFFSET_LENGTH :: nat where "FILE_OFFSET_LENGTH = 8"

text \<open>Random bytes from the generator.\<close>

fun rnd_bytes :: "nat \<Rightarrow> rand_t \<Rightarrow> u8 list \<times> rand_t" where
  "rnd_bytes 0 r = ([], r)"
| "rnd_bytes (Suc n) r =
     (case sb_rnd r of (x, r) \<Rightarrow> case rnd_bytes n r of (bs, r) \<Rightarrow> (of_nat x # bs, r))"

text \<open>
  The block at the start of a buffer at an address. A block shorter than checksum and offset makes the loop bound wrap around, and the loop
  leaves the buffer; so does a block longer than the buffer.
\<close>

definition file_fill_buffer :: "u64 \<Rightarrow> u8 list \<Rightarrow> u32 \<Rightarrow> u64 \<Rightarrow> rand_t \<Rightarrow> (u8 list \<times> rand_t) res" where
  "file_fill_buffer addr buf len off r =
     (if unat len < FILE_CHECKSUM_LENGTH + FILE_OFFSET_LENGTH \<or> length buf < unat len then Inl Out_of_bounds
      else
        (case rnd_bytes (unat len - (FILE_CHECKSUM_LENGTH + FILE_OFFSET_LENGTH)) r of (bs, r) \<Rightarrow>
           Inr (bs @ store_u4 (ucast (crc32 0 (Some (addr, bs)))) @ store_u8 off @ drop (unat len) buf, r)))"

text \<open>The result of the validation, and the messages.\<close>

definition print_hex :: "u32 \<Rightarrow> string" where
  "print_hex x = (let digit = (\<lambda>n. if n < 10 then digit_char n else char_of (87 + n));
                      ds = map (\<lambda>k. digit (unat (drop_bit (4 * k) x AND 0xf))) (rev [0..<8]);
                      nz = dropWhile (\<lambda>c. c = CHR ''0'') ds in if nz = [] then ''0'' else nz)"

definition file_validate_buffer :: "u64 \<Rightarrow> u8 list \<Rightarrow> u32 \<Rightarrow> u64 \<Rightarrow> (int \<times> log_req list) res" where
  "file_validate_buffer addr buf len off =
     (if unat len < FILE_CHECKSUM_LENGTH + FILE_OFFSET_LENGTH \<or> length buf < unat len then Inl Out_of_bounds
      else
        (let cs_offset = unat len - (FILE_CHECKSUM_LENGTH + FILE_OFFSET_LENGTH);
             checksum = ucast (crc32 0 (Some (addr, take cs_offset buf))) :: u32;
             stored = ucast (load_le (take 4 (drop cs_offset buf))) :: u32;
             stored_off = load_le (take 8 (drop (cs_offset + FILE_CHECKSUM_LENGTH) buf)) in
         if checksum \<noteq> stored
         then Inr (1, [(LOG_FATAL, ''Checksum mismatch in block: ''),
                       (LOG_FATAL, ''    Calculated value: 0x'' @ print_hex checksum @ ''    Stored value: 0x'' @ print_hex stored)])
         else if off \<noteq> stored_off
         then Inr (1, [(LOG_FATAL, ''Offset mismatch in block:''),
                       (LOG_FATAL, ''   Actual offset: '' @ print_int (sint off) @ ''    Stored offset: '' @ print_int (sint stored_off))])
         else Inr (0, [])))"

section \<open>Statistics and reports\<close>

definition init_vars :: "('o, 'a) test_file_scheme st \<Rightarrow> ('o, 'a) test_file_scheme st" where
  "init_vars s =
     upd_t (\<lambda>t. let t = t\<lparr>f_position := 0, current_file := 0, fsynced_file := 0, fsynced_file2 := 0, is_dirty := False, f_req_performed := 0\<rparr>
                 in if g_validate (s_globals s)
                    then t\<lparr>prev_req := \<lparr>file_id = 0, pos = 0, rsize = 0, operation = FILE_OP_TYPE_NULL\<rparr>\<rparr> else t) s"

definition clear_stats :: "('o, 'a) test_file_scheme st \<Rightarrow> ('o, 'a) test_file_scheme st res" where
  "clear_stats s =
     (let s = upd_t (\<lambda>t. t\<lparr>f_read_ops := 0, f_write_ops := 0, f_other_ops := 0, f_last_other_ops := 0, bytes_read := 0,
                          last_bytes_read := 0, bytes_written := 0, last_bytes_written := 0\<rparr>) s in
      if sb_timer_initialized (g_exec_timer (s_globals s))
      then rbind (s_split g_exec_timer (\<lambda>t g. g\<lparr>g_exec_timer := t\<rparr>) s) (\<lambda>(_, s). Inr s) else Inr s)"

definition get_io_mode_str :: "file_io_mode_t \<Rightarrow> string" where
  "get_io_mode_str m = (case m of FILE_IO_MODE_SYNC \<Rightarrow> ''synchronous'' | FILE_IO_MODE_ASYNC \<Rightarrow> ''asynchronous''
                        | FILE_IO_MODE_MMAP \<Rightarrow> ''fast mmaped'')"

definition get_test_mode_str :: "file_test_mode_t \<Rightarrow> string" where
  "get_test_mode_str m =
     (case m of MODE_WRITE \<Rightarrow> ''sequential write (creation)'' | MODE_REWRITE \<Rightarrow> ''sequential rewrite'' | MODE_READ \<Rightarrow> ''sequential read''
      | MODE_RND_READ \<Rightarrow> ''random read'' | MODE_RND_WRITE \<Rightarrow> ''random write'' | MODE_RND_RW \<Rightarrow> ''random r/w'' | MODE_MIXED \<Rightarrow> ''mixed'')"

definition flags_num :: "file_flags_t \<Rightarrow> u32" where
  "flags_num f = (case f of SB_FILE_FLAG_NORMAL \<Rightarrow> 0 | SB_FILE_FLAG_SYNC \<Rightarrow> 1 | SB_FILE_FLAG_DSYNC \<Rightarrow> 2 | SB_FILE_FLAG_DIRECTIO \<Rightarrow> 3)"

definition size_text :: "fpenv \<Rightarrow> real \<Rightarrow> string" where
  "size_text fp v = sb_print_value_size fp 16 (fp_round fp v)"

definition mode_report :: "fpenv \<Rightarrow> sb_globals_t \<Rightarrow> ('o, 'a) test_file_scheme \<Rightarrow> log_req list" where
  "mode_report fp g t =
     [(LOG_NOTICE, ''Extra file open flags: '' @ print_hex (flags_num (file_extra_flags t))),
      (LOG_NOTICE, print_int (sint (num_files t)) @ '' files, '' @ size_text fp (real_of_int (file_size t)) @ ''b each''),
      (LOG_NOTICE, size_text fp (real_of_int (file_size t * uint (num_files t))) @ ''b total file size''),
      (LOG_NOTICE, ''Block size '' @ size_text fp (real_of_int (file_block_size t)) @ ''b'')] @
     (if file_merged_requests t > 0
      then [(LOG_NOTICE, ''Merging requests  up to '' @ size_text fp (real_of_int (file_max_request_size t)) @ ''b for sequential IO.'')] else []) @
     (if test_mode t = MODE_RND_WRITE \<or> test_mode t = MODE_RND_READ \<or> test_mode t = MODE_RND_RW
      then [(LOG_NOTICE, ''Number of IO requests: '' @ print_int (sint (g_max_requests g))),
            (LOG_NOTICE, ''Read/Write ratio for combined random IO test: '' @ fmt_f 2 2 (file_rw_ratio t))] else []) @
     (if file_fsync_freq t > 0
      then [(LOG_NOTICE, ''Periodic FSYNC enabled, calling fsync() each '' @ print_int (file_fsync_freq t) @ '' requests.'')] else []) @
     (if file_fsync_end t then [(LOG_NOTICE, ''Calling fsync() at the end of test, Enabled.'')] else []) @
     (if file_fsync_all t then [(LOG_NOTICE, ''Calling fsync() after each write operation.'')] else []) @
     [(LOG_NOTICE, ''Using '' @ get_io_mode_str (file_io_mode t) @ '' I/O mode'')] @
     (if g_validate g then [(LOG_NOTICE, ''Using checksums validation.'')] else []) @
     [(LOG_NOTICE, ''Doing '' @ get_test_mode_str (test_mode t) @ '' test'')]"

definition file_print_mode :: "fpenv \<Rightarrow> ('o, 'a) test_file_scheme st \<Rightarrow> ('o, 'a) test_file_scheme st res" where
  "file_print_mode fp s = s_world (log_reqs (mode_report fp (s_globals s) (snd s))) s"

definition file_print_intermediate :: "fpenv \<Rightarrow> ('o, 'a) test_file_scheme st \<Rightarrow> ('o, 'a) test_file_scheme st res" where
  "file_print_intermediate fp s =
     rbind (s_split g_exec_timer (\<lambda>t g. g\<lparr>g_exec_timer := t\<rparr>) s) (\<lambda>(ns, s).
       let seconds = NS2SEC fp ns; t = snd s; rank = g_percentile_rank (s_globals s);
           diff_read = bytes_read t - last_bytes_read t; diff_written = bytes_written t - last_bytes_written t;
           diff_other = word_of_int (c_int (f_other_ops t - f_last_other_ops t)) :: u64;
           s = upd_t (\<lambda>t. t\<lparr>last_bytes_read := bytes_read t, last_bytes_written := bytes_written t, f_last_other_ops := f_other_ops t\<rparr>) s in
       case f_percentile (snd s) of
         None \<Rightarrow> Inl Null_deref
       | Some p \<Rightarrow>
           rbind (sb_percentile_calculate fp p (real (unat rank))) (\<lambda>(pct, p).
           rbind (s_world (log_timestamp fp LOG_NOTICE (g_exec_timer (s_globals s))
                    (''reads: '' @ fmt_rate fp 4 (fdiv fp (u64_double fp diff_read) MEGABYTE) seconds @ '' MB/s writes: ''
                     @ fmt_rate fp 4 (fdiv fp (u64_double fp diff_written) MEGABYTE) seconds @ '' MB/s fsyncs: ''
                     @ fmt_rate fp 4 (u64_double fp diff_other) seconds @ ''/s response time: ''
                     @ fmt_f 4 3 (fdiv fp pct 1000000) @ ''ms ('' @ print_nat (unat rank) @ ''%)'')) s)
             (\<lambda>s. Inr (upd_t (\<lambda>t. t\<lparr>f_percentile := Some (sb_percentile_reset p)\<rparr>) s))))"

text \<open>A rate over no time at all is printed as 0 in the second line.\<close>

definition file_report :: "fpenv \<Rightarrow> real \<Rightarrow> ('o, 'a) test_file_scheme \<Rightarrow> log_req list" where
  "file_report fp seconds t =
     (let r = f_read_ops t; w = f_write_ops t; x = f_other_ops t; per_s = (\<lambda>v. if seconds = 0 then 0 else fdiv fp v seconds) in
      [(LOG_NOTICE, ''Operations performed:  '' @ print_int r @ '' reads, '' @ print_int w @ '' writes, '' @ print_int x @ '' Other = ''
                    @ print_int (c_int (r + w + x)) @ '' Total''),
       (LOG_NOTICE, ''Read '' @ size_text fp (real (unat (bytes_read t))) @ ''b  Written '' @ size_text fp (real (unat (bytes_written t)))
                    @ ''b  Total transferred '' @ size_text fp (real (unat (bytes_read t + bytes_written t))) @ ''b  (''
                    @ size_text fp (per_s (u64_double fp (bytes_read t + bytes_written t))) @ ''b/sec)''),
       (LOG_NOTICE, fmt_rate fp 8 (real_of_int (c_int (r + w))) seconds @ '' Requests/sec executed'')])"

definition file_print_cumulative :: "fpenv \<Rightarrow> ('o, 'a) test_file_scheme st \<Rightarrow> ('o, 'a) test_file_scheme st res" where
  "file_print_cumulative fp s =
     rbind (s_split g_cumulative_timer1 (\<lambda>t g. g\<lparr>g_cumulative_timer1 := t\<rparr>) s) (\<lambda>(ns, s).
     rbind (s_world (log_reqs (file_report fp (NS2SEC fp ns) (snd s))) s) clear_stats)"

definition file_print_stats :: "fpenv \<Rightarrow> sb_stat_t \<Rightarrow> ('o, 'a) test_file_scheme st \<Rightarrow> ('o, 'a) test_file_scheme st res" where
  "file_print_stats fp ty s =
     (case ty of SB_STAT_INTERMEDIATE \<Rightarrow> file_print_intermediate fp s | SB_STAT_CUMULATIVE \<Rightarrow> file_print_cumulative fp s)"

section \<open>Sequential requests cover the files in order\<close>

text \<open>
  Where the next request starts, counted over all files; what the parameters must satisfy; and where the request kept for the check
  of the order ends.
\<close>

definition seq_start :: "('o, 'a) test_file_scheme \<Rightarrow> int" where
  "seq_start t = (if current_file t = num_files t then 0 else uint (current_file t) * file_size t + f_position t)"

definition req_start :: "int \<Rightarrow> sb_file_request_t \<Rightarrow> int" where
  "req_start fsize r = uint (file_id r) * fsize + pos r"

definition req_inside :: "u32 \<Rightarrow> int \<Rightarrow> sb_file_request_t \<Rightarrow> bool" where
  "req_inside n fsize r \<longleftrightarrow> file_id r < n \<and> 0 \<le> pos r \<and> pos r + rsize r \<le> fsize"

definition seq_params :: "('o, 'a) test_file_scheme \<Rightarrow> bool" where
  "seq_params t \<longleftrightarrow>
     0 < num_files t \<and> 0 < file_size t \<and>
     (if file_merged_requests t > 0 then 0 < file_max_request_size t else 0 < file_block_size t \<and> file_block_size t dvd file_size t)"

definition seq_inv :: "('o, 'a) test_file_scheme \<Rightarrow> bool" where
  "seq_inv t \<longleftrightarrow>
     seq_params t \<and> current_file t \<le> num_files t \<and> 0 \<le> f_position t \<and> f_position t < file_size t \<and>
     (current_file t = num_files t \<longrightarrow> f_position t = 0) \<and>
     (\<not> file_merged_requests t > 0 \<longrightarrow> file_block_size t dvd f_position t) \<and>
     fsynced_file t < num_files t \<and>
     (operation (prev_req t) = FILE_OP_TYPE_NULL \<or>
      req_inside (num_files t) (file_size t) (prev_req t) \<and>
      (if pos (prev_req t) + rsize (prev_req t) = file_size t
       then f_position t = 0 \<and> current_file t = file_id (prev_req t) + 1
       else f_position t = pos (prev_req t) + rsize (prev_req t) \<and> current_file t = file_id (prev_req t)))"

lemma block_fits_file:
  assumes "(b :: int) dvd n" and "b dvd p" and "0 < b" and "p < n"
  shows "p + b \<le> n"
proof -
  have "b dvd n - p" using assms(1,2) by simp
  then have "b \<le> n - p" using assms(4) by (intro zdvd_imp_le) simp_all
  then show ?thesis by simp
qed

text \<open>The state after a possible rewind, and the request made from it.\<close>

definition seq_rewound :: "('o, 'a) test_file_scheme \<Rightarrow> u32 \<times> int" where
  "seq_rewound t = (if current_file t = num_files t then (0, 0) else (current_file t, f_position t))"

lemma seq_count_fields [simp]:
  "num_files (seq_count oper t) = num_files t"
  "file_size (seq_count oper t) = file_size t"
  "file_merged_requests (seq_count oper t) = file_merged_requests t"
  "file_max_request_size (seq_count oper t) = file_max_request_size t"
  "file_block_size (seq_count oper t) = file_block_size t"
  "fsynced_file (seq_count oper t) = fsynced_file t"
  "prev_req (seq_count oper t) = prev_req t"
  "file_fsync_freq (seq_count oper t) = file_fsync_freq t"
  "fsynced_file2 (seq_count oper t) = fsynced_file2 t"
  "file_fsync_end (seq_count oper t) = file_fsync_end t"
  "per_thread (seq_count oper t) = per_thread t"
  "files (seq_count oper t) = files t"
  "file_io_mode (seq_count oper t) = file_io_mode t"
  "test_mode (seq_count oper t) = test_mode t"
  "current_file (seq_count oper t) = current_file t"
  "f_position (seq_count oper t) = f_position t"
  by (simp_all add: seq_count_def Let_def)

lemma seq_rewind_fields [simp]:
  "num_files (seq_rewind t) = num_files t"
  "file_size (seq_rewind t) = file_size t"
  "file_merged_requests (seq_rewind t) = file_merged_requests t"
  "file_max_request_size (seq_rewind t) = file_max_request_size t"
  "file_block_size (seq_rewind t) = file_block_size t"
  "fsynced_file (seq_rewind t) = fsynced_file t"
  "prev_req (seq_rewind t) = prev_req t"
  "file_fsync_freq (seq_rewind t) = file_fsync_freq t"
  "fsynced_file2 (seq_rewind t) = fsynced_file2 t"
  "file_fsync_end (seq_rewind t) = file_fsync_end t"
  "per_thread (seq_rewind t) = per_thread t"
  "files (seq_rewind t) = files t"
  "file_io_mode (seq_rewind t) = file_io_mode t"
  "test_mode (seq_rewind t) = test_mode t"
  "f_req_performed (seq_rewind t) = f_req_performed t"
  "is_dirty (seq_rewind t) = is_dirty t"
  by (simp_all add: seq_rewind_def)

lemma seq_advance_fields [simp]:
  "num_files (seq_advance sz t) = num_files t"
  "file_size (seq_advance sz t) = file_size t"
  "file_merged_requests (seq_advance sz t) = file_merged_requests t"
  "file_max_request_size (seq_advance sz t) = file_max_request_size t"
  "file_block_size (seq_advance sz t) = file_block_size t"
  "fsynced_file (seq_advance sz t) = fsynced_file t"
  "prev_req (seq_advance sz t) = prev_req t"
  "file_fsync_freq (seq_advance sz t) = file_fsync_freq t"
  "fsynced_file2 (seq_advance sz t) = fsynced_file2 t"
  "file_fsync_end (seq_advance sz t) = file_fsync_end t"
  "per_thread (seq_advance sz t) = per_thread t"
  "files (seq_advance sz t) = files t"
  "file_io_mode (seq_advance sz t) = file_io_mode t"
  "test_mode (seq_advance sz t) = test_mode t"
  "f_req_performed (seq_advance sz t) = f_req_performed t"
  "is_dirty (seq_advance sz t) = is_dirty t"
  by (simp_all add: seq_advance_def Let_def)

lemma seq_block_eq:
  assumes "seq_block oper t = (r, t')" and "seq_rewound t = (c, p)"
  defines "sz \<equiv> rsize r"
  shows "file_id r = c" "pos r = p" "operation r = oper"
    and "current_file t' = (if p + sz = file_size t then c + 1 else c)"
    and "f_position t' = (if p + sz = file_size t then 0 else p + sz)"
    and "num_files t' = num_files t" "file_size t' = file_size t" "file_merged_requests t' = file_merged_requests t"
    and "file_max_request_size t' = file_max_request_size t" "file_block_size t' = file_block_size t"
    and "fsynced_file t' = fsynced_file t" "prev_req t' = prev_req t"
    and "sz = (if file_merged_requests t > 0
               then if p + file_max_request_size t \<le> file_size t then file_max_request_size t else file_size t - p
               else file_block_size t)"
proof -
  let ?t = "seq_rewind (seq_count oper t)"
  have cp: "current_file ?t = c" "f_position ?t = p"
    using assms(2) by (auto simp: seq_rewind_def seq_rewound_def split: if_splits)
  have r: "r = \<lparr>file_id = c, pos = p, rsize = seq_size ?t, operation = oper\<rparr>" and t': "t' = seq_advance (seq_size ?t) ?t"
    using assms(1) cp by (auto simp: seq_block_def Let_def)
  then have sz: "sz = seq_size ?t" by (simp add: sz_def)
  show "file_id r = c" "pos r = p" "operation r = oper" using r by simp_all
  show "current_file t' = (if p + sz = file_size t then c + 1 else c)" "f_position t' = (if p + sz = file_size t then 0 else p + sz)"
    using t' sz cp by (simp_all add: seq_advance_def Let_def)
  show "num_files t' = num_files t" "file_size t' = file_size t" "file_merged_requests t' = file_merged_requests t"
    "file_max_request_size t' = file_max_request_size t" "file_block_size t' = file_block_size t"
    "fsynced_file t' = fsynced_file t" "prev_req t' = prev_req t"
    using t' by simp_all
  show "sz = (if file_merged_requests t > 0
               then if p + file_max_request_size t \<le> file_size t then file_max_request_size t else file_size t - p
               else file_block_size t)"
    using sz cp by (simp add: seq_size_def)
qed

lemma seq_size_fits:
  assumes "seq_inv t" and "seq_rewound t = (c, p)" and "seq_block oper t = (r, t')"
  shows "c < num_files t" and "0 \<le> p" and "p < file_size t" and "0 < rsize r" and "p + rsize r \<le> file_size t"
    and "\<not> file_merged_requests t > 0 \<Longrightarrow> file_block_size t dvd p"
proof -
  have s: "seq_params t" "current_file t \<le> num_files t" "0 \<le> f_position t" "f_position t < file_size t"
      "\<not> file_merged_requests t > 0 \<longrightarrow> file_block_size t dvd f_position t"
    using assms(1) by (simp_all add: seq_inv_def)
  show c: "c < num_files t" "0 \<le> p" "p < file_size t" "\<not> file_merged_requests t > 0 \<Longrightarrow> file_block_size t dvd p"
    using s assms(2) by (auto simp: seq_rewound_def seq_params_def split: if_splits)
  show "0 < rsize r" "p + rsize r \<le> file_size t"
    using s(1) c block_fits_file [of "file_block_size t" "file_size t" p] seq_block_eq(13) [OF assms(3,2)] by (auto simp: seq_params_def split: if_splits)
qed

lemma seq_start_rewound:
  "seq_rewound t = (c, p) \<Longrightarrow> seq_start t = uint c * file_size t + p"
  by (auto simp: seq_rewound_def seq_start_def split: if_splits)

lemma uint_plus_1: "c < n \<Longrightarrow> uint (c + 1 :: u32) = uint c + 1"
  using uint_bounded [of n] by (subst uint_plus_if') (auto simp: word_less_def)

lemma seq_block_request:
  assumes inv: "seq_inv t" and b: "seq_block oper t = (r, t')"
  shows "req_inside (num_files t) (file_size t) r" and "0 < rsize r" and "operation r = oper"
    and "req_start (file_size t) r = seq_start t"
    and "seq_start t' = (seq_start t + rsize r) mod (uint (num_files t) * file_size t)"
proof -
  obtain c p where cp: "seq_rewound t = (c, p)" by fastforce
  note e = seq_block_eq [OF b cp] and s = seq_size_fits [OF inv cp b]
  show "req_inside (num_files t) (file_size t) r" "0 < rsize r" "operation r = oper"
    using e(1-3) s by (simp_all add: req_inside_def)
  show "req_start (file_size t) r = seq_start t"
    using e(1-3) seq_start_rewound [OF cp] by (simp add: req_start_def)
  have F: "0 < file_size t" "uint c < uint (num_files t)"
    using s(2,3) s(1) by (simp_all add: word_less_def)
  have total: "uint c * file_size t + file_size t \<le> uint (num_files t) * file_size t"
    using F mult_right_mono [of "uint c + 1" "uint (num_files t)" "file_size t"] by (simp add: distrib_right)
  show "seq_start t' = (seq_start t + rsize r) mod (uint (num_files t) * file_size t)"
  proof (cases "p + rsize r = file_size t")
    case True
    then have n: "current_file t' = c + 1" "f_position t' = 0" and sum: "seq_start t + rsize r = (uint c + 1) * file_size t"
      using e seq_start_rewound [OF cp] by (simp_all add: distrib_right)
    show ?thesis
    proof (cases "c + 1 = num_files t")
      case True
      then have "uint c + 1 = uint (num_files t)" using uint_plus_1 [OF s(1)] by simp
      then show ?thesis using True n e(6) sum by (simp add: seq_start_def)
    next
      case False
      then have "uint c + 1 < uint (num_files t)"
        using uint_plus_1 [OF s(1)] F(2) word_uint_eq_iff [of "c + 1" "num_files t"] by linarith
      then have "(uint c + 1) * file_size t < uint (num_files t) * file_size t"
        using F(1) by (intro mult_strict_right_mono)
      moreover have "0 \<le> (uint c + 1) * file_size t"
        using F(1) unsigned_greater_eq [of c, where ?'a = int] by (intro mult_nonneg_nonneg) linarith+
      ultimately show ?thesis using False n e(6,7) sum uint_plus_1 [OF s(1)] by (simp add: seq_start_def)
    qed
  next
    case False
    then have lt: "p + rsize r < file_size t" using s(5) by simp
    have "current_file t' \<noteq> num_files t'"
      using e(4,6) False s(1) by auto
    then have "seq_start t' = uint c * file_size t + (p + rsize r)"
      using e False by (simp add: seq_start_def)
    moreover have "seq_start t + rsize r = uint c * file_size t + (p + rsize r)"
      using e(1-3) seq_start_rewound [OF cp] by simp
    moreover have "0 \<le> uint c * file_size t" using F(1) by simp
    ultimately show ?thesis
      using lt total s(2,4) by (simp add: mod_pos_pos_trivial)
  qed
qed

lemma seq_block_quiet:
  assumes inv: "seq_inv t" and b: "seq_block oper t = (r, t')" and "2 \<le> num_files t"
  shows "check_seq_req (num_files t') (file_size t') (prev_req t') r = []"
proof -
  obtain c p where cp: "seq_rewound t = (c, p)" by fastforce
  note e = seq_block_eq [OF b cp] and s = seq_size_fits [OF inv cp b]
  let ?q = "prev_req t"
  have q: "operation ?q = FILE_OP_TYPE_NULL \<or> file_id ?q < num_files t \<and>
      (if pos ?q + rsize ?q = file_size t then f_position t = 0 \<and> current_file t = file_id ?q + 1
       else f_position t = pos ?q + rsize ?q \<and> current_file t = file_id ?q)"
    using inv by (auto simp: seq_inv_def req_inside_def)
  show ?thesis
  proof (cases "operation ?q = FILE_OP_TYPE_NULL")
    case True
    then show ?thesis using e(12) by (simp add: check_seq_req_def)
  next
    case False
    note q' = q [simplified False, simplified]
    show ?thesis
    proof (cases "pos ?q + rsize ?q = file_size t")
      case True
      then have w: "file_id ?q < num_files t" "f_position t = 0" "current_file t = file_id ?q + 1"
        using q' by auto
      show ?thesis
      proof (cases "current_file t = num_files t")
        case True
        then have "c = 0" "p = 0" "file_id ?q = num_files t - 1"
          using cp w(3) True by (simp_all add: seq_rewound_def) (metis add_diff_cancel_right')
        moreover have "num_files t \<noteq> 1"
          using assms(3) by (auto simp: word_le_def)
        then have "num_files t - 1 \<noteq> 0"
          by simp
        ultimately show ?thesis
          using e \<open>pos ?q + rsize ?q = file_size t\<close> by (simp add: check_seq_req_def)
      next
        case nlast: False
        then have "c = file_id ?q + 1" "p = 0"
          using cp w by (auto simp: seq_rewound_def)
        then show ?thesis
          using e \<open>pos ?q + rsize ?q = file_size t\<close> by (simp add: check_seq_req_def)
      qed
    next
      case mid: False
      then have "current_file t \<noteq> num_files t" "c = file_id ?q" "p = pos ?q + rsize ?q"
        using q' cp by (auto simp: seq_rewound_def split: if_splits)
      then show ?thesis
        using e by (simp add: check_seq_req_def)
    qed
  qed
qed

lemma seq_block_inv:
  assumes inv: "seq_inv t" and b: "seq_block oper t = (r, t')"
  shows "seq_inv (t'\<lparr>prev_req := r\<rparr>)" and "operation (prev_req t) = FILE_OP_TYPE_NULL \<Longrightarrow> seq_inv t'"
proof -
  obtain c p where cp: "seq_rewound t = (c, p)" by fastforce
  note e = seq_block_eq [OF b cp] and s = seq_size_fits [OF inv cp b]
  have F: "c + 1 \<le> num_files t"
    using uint_plus_1 [OF s(1)] s(1) by (simp add: word_le_def word_less_def)
  have c1: "c + 1 \<noteq> c" by simp
  have par: "seq_params t'"
    using inv e by (simp add: seq_inv_def seq_params_def)
  have cur: "current_file t' \<le> num_files t'" "0 \<le> f_position t'" "f_position t' < file_size t'"
      "current_file t' = num_files t' \<longrightarrow> f_position t' = 0" "fsynced_file t' < num_files t'"
    using F e s inv by (auto simp: seq_inv_def less_imp_le)
  have dv: "\<not> file_merged_requests t' > 0 \<longrightarrow> file_block_size t' dvd f_position t'"
    using e s(6) by (auto split: if_splits)
  show "seq_inv (t'\<lparr>prev_req := r\<rparr>)"
    using par cur dv e s by (auto simp: seq_inv_def seq_params_def req_inside_def)
  show "seq_inv t'" if "operation (prev_req t) = FILE_OP_TYPE_NULL"
    using par cur dv e that by (simp add: seq_inv_def)
qed

lemma fsync_next_fields [simp]:
  "num_files (snd (fsync_next t)) = num_files t"
  "file_size (snd (fsync_next t)) = file_size t"
  "file_merged_requests (snd (fsync_next t)) = file_merged_requests t"
  "file_max_request_size (snd (fsync_next t)) = file_max_request_size t"
  "file_block_size (snd (fsync_next t)) = file_block_size t"
  "prev_req (snd (fsync_next t)) = prev_req t"
  "current_file (snd (fsync_next t)) = current_file t"
  "f_position (snd (fsync_next t)) = f_position t"
  "f_req_performed (snd (fsync_next t)) = f_req_performed t"
  "fsynced_file2 (snd (fsync_next t)) = fsynced_file2 t"
  "file_fsync_end (snd (fsync_next t)) = file_fsync_end t"
  "file_fsync_freq (snd (fsync_next t)) = file_fsync_freq t"
  "per_thread (snd (fsync_next t)) = per_thread t"
  "files (snd (fsync_next t)) = files t"
  "file_io_mode (snd (fsync_next t)) = file_io_mode t"
  "test_mode (snd (fsync_next t)) = test_mode t"
  by (simp_all add: fsync_next_def Let_def)

lemma fsync_last_fields [simp]:
  "num_files (snd (fsync_last w t)) = num_files t"
  "file_size (snd (fsync_last w t)) = file_size t"
  "file_merged_requests (snd (fsync_last w t)) = file_merged_requests t"
  "file_max_request_size (snd (fsync_last w t)) = file_max_request_size t"
  "file_block_size (snd (fsync_last w t)) = file_block_size t"
  "prev_req (snd (fsync_last w t)) = prev_req t"
  "current_file (snd (fsync_last w t)) = current_file t"
  "f_position (snd (fsync_last w t)) = f_position t"
  "f_req_performed (snd (fsync_last w t)) = f_req_performed t"
  "file_fsync_end (snd (fsync_last w t)) = file_fsync_end t"
  "file_fsync_freq (snd (fsync_last w t)) = file_fsync_freq t"
  "per_thread (snd (fsync_last w t)) = per_thread t"
  "files (snd (fsync_last w t)) = files t"
  "file_io_mode (snd (fsync_last w t)) = file_io_mode t"
  "test_mode (snd (fsync_last w t)) = test_mode t"
  "fsynced_file (snd (fsync_last w t)) = fsynced_file t"
  "is_dirty (snd (fsync_last w t)) = is_dirty t"
  by (simp_all add: fsync_last_def)

lemma fsync_next_file:
  "fst (fsync_next t) = fsync_request (fsynced_file t)"
  "fsynced_file (snd (fsync_next t)) = (if fsynced_file t + 1 = num_files t then 0 else fsynced_file t + 1)"
  by (simp_all add: fsync_next_def Let_def)

lemma word_next_below: "a < n \<Longrightarrow> a + 1 \<noteq> n \<Longrightarrow> a + 1 < (n :: u32)"
  using uint_plus_1 [of a n] word_uint_eq_iff [of "a + 1" n] by (simp add: word_less_def)

lemma fsync_next_inv:
  assumes "seq_inv t"
  shows "seq_inv (snd (fsync_next t))" and "req_inside (num_files t) (file_size t) (fst (fsync_next t))"
    and "operation (fst (fsync_next t)) = FILE_OP_TYPE_FSYNC"
proof -
  have lt: "fsynced_file t < num_files t" "0 < file_size t" "0 < num_files t"
    using assms by (simp_all add: seq_inv_def seq_params_def)
  show "req_inside (num_files t) (file_size t) (fst (fsync_next t))" "operation (fst (fsync_next t)) = FILE_OP_TYPE_FSYNC"
    using lt by (simp_all add: fsync_next_file fsync_request_def req_inside_def)
  show "seq_inv (snd (fsync_next t))"
    using assms lt(1,3) word_next_below [OF lt(1)] unfolding seq_inv_def seq_params_def fsync_next_fields fsync_next_file by simp
qed

lemma fsync_last_inv:
  assumes "seq_inv t"
  shows "seq_inv (snd (fsync_last w t))"
    and "fst (fsync_last w t) = file_request r \<Longrightarrow> req_inside (num_files t) (file_size t) r \<and> operation r = FILE_OP_TYPE_FSYNC"
proof -
  show "seq_inv (snd (fsync_last w t))"
    using assms unfolding seq_inv_def seq_params_def fsync_last_fields .
  have "0 < file_size t"
    using assms by (simp add: seq_inv_def seq_params_def)
  then show "req_inside (num_files t) (file_size t) r \<and> operation r = FILE_OP_TYPE_FSYNC"
    if "fst (fsync_last w t) = file_request r"
    using that by (auto simp: fsync_last_def fsync_request_def req_inside_def split: if_splits)
qed

text \<open>
  (C26) Sequential requests visit the files in order: every data request lies inside its file and starts where the one
  before it ended, the last file being followed by the first; every request for synchronisation names an existing file; with two files or more the order check of
  the validation mode never complains, so that nothing but the state of the test changes.
\<close>

theorem seq_requests_in_order:
  assumes "seq_inv (snd s)" and "g_validate (s_globals s) \<or> operation (prev_req (snd s)) = FILE_OP_TYPE_NULL" and "2 \<le> num_files (snd s)"
  shows "\<exists>req t'. file_get_seq_request s = Inr (req, (fst s, t')) \<and> seq_inv t' \<and>
           (g_validate (s_globals s) \<or> operation (prev_req t') = FILE_OP_TYPE_NULL) \<and>
           (\<forall>r. req = file_request r \<longrightarrow>
              req_inside (num_files (snd s)) (file_size (snd s)) r \<and>
              (operation r \<noteq> FILE_OP_TYPE_FSYNC \<longrightarrow>
                 0 < rsize r \<and> req_start (file_size (snd s)) r = seq_start (snd s) \<and>
                 seq_start t' = (seq_start (snd s) + rsize r) mod (uint (num_files (snd s)) * file_size (snd s))))"
proof -
  obtain pg t where s: "s = (pg, t)" by (cases s)
  let ?w = "test_mode t = MODE_WRITE \<or> test_mode t = MODE_REWRITE"
  let ?op = "if ?w then FILE_OP_TYPE_WRITE else FILE_OP_TYPE_READ"
  note inv = assms(1) [unfolded s snd_conv]
  show ?thesis
  proof (cases "file_limit_reached (pg_globals pg) t")
    case True
    note f = fsync_last_inv [OF inv, of ?w]
    have "file_get_seq_request s = Inr (fst (fsync_last ?w t), (pg, snd (fsync_last ?w t)))"
      using True by (simp add: s file_get_seq_request_def Let_def case_prod_unfold)
    then show ?thesis
      using f assms(2) by (intro exI [of _ "fst (fsync_last ?w t)"] exI [of _ "snd (fsync_last ?w t)"]) (simp add: s)
  next
    case nlimit: False
    show ?thesis
    proof (cases "?w \<and> fsync_due t")
      case True
      note f = fsync_next_inv [OF inv]
      have "file_get_seq_request s = Inr (file_request (fst (fsync_next t)), (pg, snd (fsync_next t)))"
        using True nlimit by (simp add: s file_get_seq_request_def Let_def case_prod_unfold)
      then show ?thesis
        using f assms(2) by (intro exI [of _ "file_request (fst (fsync_next t))"] exI [of _ "snd (fsync_next t)"]) (simp add: s)
    next
      case ndue: False
      obtain r t' where b: "seq_block ?op t = (r, t')" by fastforce
      note f = seq_block_request [OF inv b] seq_block_quiet [OF inv b] seq_block_inv [OF inv b]
      have "operation r \<noteq> FILE_OP_TYPE_FSYNC" using f(3) by auto
      let ?t' = "if g_validate (pg_globals pg) then t'\<lparr>prev_req := r\<rparr> else t'"
      have st: "seq_start ?t' = seq_start t'" "prev_req t' = prev_req t"
        using b by (auto simp: seq_start_def seq_block_def Let_def)
      have q: "check_seq_req (num_files t') (file_size t') (prev_req t') r = []"
        using f(6) assms(3) by (simp add: s)
      have "file_get_seq_request s = Inr (file_request r, (pg, ?t'))"
        using nlimit ndue q unfolding s file_get_seq_request_def Let_def snd_conv fst_conv b prod.case
        by (auto simp: s_world_def log_reqs_def upd_t_def)
      then show ?thesis
        using f(1,2,4,5,7,8) st assms(2) by (intro exI [of _ "file_request r"] exI [of _ ?t']) (auto simp: s)
    qed
  qed
qed

text \<open>With a single file the check takes the rewind to its start for a jump.\<close>

lemma single_file_rewind_warns:
  "check_seq_req 1 100 \<lparr>file_id = 0, pos = 90, rsize = 10, operation = FILE_OP_TYPE_READ\<rparr>
     \<lparr>file_id = 0, pos = 0, rsize = 10, operation = FILE_OP_TYPE_READ\<rparr> \<noteq> []"
  by (simp add: check_seq_req_def)

lemma init_vars_seq_inv:
  assumes "seq_params (snd s)" and "g_validate (s_globals s) \<or> operation (prev_req (snd s)) = FILE_OP_TYPE_NULL"
  shows "seq_inv (snd (init_vars s))"
  using assms by (auto simp: init_vars_def seq_inv_def seq_params_def Let_def)

section \<open>Checksums of blocks detect what happened to them\<close>


lemma load_le_store:
  assumes "LENGTH('w) \<le> 64"
  shows "load_le (map (\<lambda>k. ucast (drop_bit (8 * k) (w :: 'w::len word))) [m..<m + n]) = take_bit (8 * n) (drop_bit (8 * m) (ucast w))"
proof (induction n arbitrary: m)
  case (Suc n)
  have up: "[m..<m + Suc n] = m # [Suc m..<Suc m + n]"
    by (simp add: upt_conv_Cons del: upt_Suc)
  show ?case
    unfolding up list.map load_le.simps Suc.IH
    using assms by (intro bit_word_eqI) (auto simp: bit_simps dest: bit_imp_le_length)
qed simp

lemma load_store [simp]: "ucast (load_le (store_u4 c)) = c" "load_le (store_u8 w) = w"
proof -
  have "load_le (store_u4 c) = take_bit 32 (ucast c)"
    using load_le_store [of c 0 4] by (simp add: store_u4_def)
  also have "ucast (take_bit 32 (ucast c :: u64)) = c"
    by (rule bit_word_eqI) (simp add: bit_simps)
  finally show "ucast (load_le (store_u4 c)) = c" .
  have "load_le (store_u8 w) = take_bit 64 w"
    using load_le_store [of w 0 8] by (simp add: store_u8_def)
  also have "\<dots> = w"
    by (rule bit_word_eqI) (simp add: bit_simps)
  finally show "load_le (store_u8 w) = w" .
qed

lemma length_store [simp]: "length (store_u4 c) = 4" "length (store_u8 w) = 8"
  by (simp_all add: store_u4_def store_u8_def)

lemma load_le_byte:
  "k < length bs \<Longrightarrow> length bs \<le> 8 \<Longrightarrow> ucast (drop_bit (8 * k) (load_le bs)) = bs ! k"
proof (induction bs arbitrary: k)
  case (Cons b bs)
  show ?case
  proof (cases k)
    case 0
    then show ?thesis by (simp, intro bit_word_eqI) (auto simp: bit_simps)
  next
    case (Suc j)
    have "ucast (drop_bit (8 * k) (load_le (b # bs))) = (ucast (drop_bit (8 * j) (load_le bs)) :: u8)"
      using Cons.prems(1,2) Suc by (intro bit_word_eqI) (auto simp: bit_simps dest: bit_imp_le_length)
    then show ?thesis using Cons Suc by simp
  qed
qed simp

lemma load_le_inj:
  assumes "load_le xs = load_le ys" and "length xs = length ys" and "length xs \<le> 8"
  shows "xs = ys"
  using assms load_le_byte [of _ xs] load_le_byte [of _ ys] by (intro nth_equalityI) auto

lemma load_le_bits: "bit (load_le bs) n \<Longrightarrow> n < 8 * length bs"
  by (induction bs arbitrary: n) (fastforce simp: bit_simps dest: bit_imp_le_length)+

lemma load_le_small:
  assumes "length bs \<le> 4"
  shows "ucast (ucast (load_le bs) :: u32) = load_le bs"
proof (rule bit_word_eqI)
  fix n
  assume "n < LENGTH(64)"
  then show "bit (ucast (ucast (load_le bs) :: u32) :: u64) n = bit (load_le bs) n"
    using load_le_bits [of bs n] assms by (auto simp: bit_simps)
qed

lemma rnd_bytes_length: "rnd_bytes n r = (bs, r') \<Longrightarrow> length bs = n"
  by (induction n arbitrary: r bs r') (auto split: prod.splits)

text \<open>A block as the validation sees it: the data, the stored checksum, the stored offset, and the rest of the buffer.\<close>

lemma validate_parts:
  assumes "length bs + 12 = unat len" and "length c = 4" and "length d = 8"
  shows "\<exists>msgs. file_validate_buffer addr (bs @ c @ d @ rest) len off =
           Inr (if ucast (load_le c) = (ucast (crc32 0 (Some (addr, bs))) :: u32) \<and> load_le d = off then 0 else 1, msgs)"
    and "ucast (load_le c) = (ucast (crc32 0 (Some (addr, bs))) :: u32) \<Longrightarrow> load_le d = off \<Longrightarrow>
           file_validate_buffer addr (bs @ c @ d @ rest) len off = Inr (0, [])"
proof -
  have n: "unat len - 12 = length bs" "take (length bs) (bs @ c @ d @ rest) = bs" "take 4 (drop (length bs) (bs @ c @ d @ rest)) = c"
      "take 8 (drop (length bs + 4) (bs @ c @ d @ rest)) = d" "\<not> unat len < 12" "\<not> length (bs @ c @ d @ rest) < unat len"
    using assms by auto
  show "\<exists>msgs. file_validate_buffer addr (bs @ c @ d @ rest) len off =
           Inr (if ucast (load_le c) = (ucast (crc32 0 (Some (addr, bs))) :: u32) \<and> load_le d = off then 0 else 1, msgs)"
    using n by (auto simp: file_validate_buffer_def Let_def FILE_CHECKSUM_LENGTH_def FILE_OFFSET_LENGTH_def)
  show "file_validate_buffer addr (bs @ c @ d @ rest) len off = Inr (0, [])"
    if "ucast (load_le c) = (ucast (crc32 0 (Some (addr, bs))) :: u32)" "load_le d = off"
    using n that by (auto simp: file_validate_buffer_def Let_def FILE_CHECKSUM_LENGTH_def FILE_OFFSET_LENGTH_def)
qed

lemma file_fill_parts:
  assumes "file_fill_buffer addr buf len off r = Inr (blk, r')"
  obtains bs where "blk = bs @ store_u4 (ucast (crc32 0 (Some (addr, bs)))) @ store_u8 off @ drop (unat len) buf"
    and "length bs + 12 = unat len" and "length blk = length buf"
  using assms rnd_bytes_length
  by (fastforce simp: file_fill_buffer_def FILE_CHECKSUM_LENGTH_def FILE_OFFSET_LENGTH_def split: if_splits prod.splits)

lemma fill_then_validate:
  assumes "file_fill_buffer addr buf len off r = Inr (blk, r')"
  shows "file_validate_buffer addr' blk len off = Inr (0, [])"
  using file_fill_parts [OF assms] validate_parts(2) [of _ len _ "store_u8 off" addr' off "drop (unat len) buf"]
  by (metis crc32_address length_store load_store)

lemma crc32_low_inj:
  "ucast (crc32 crc (Some (addr, xs))) = (ucast (crc32 crc (Some (addr', ys))) :: u32) \<Longrightarrow> crc32 crc (Some (addr, xs)) = crc32 crc (Some (addr', ys))"
  by (metis crc32_low)

lemma byte_update_split:
  "k < length bs \<Longrightarrow> bs = take k bs @ bs ! k # drop (Suc k) bs" "k < length bs \<Longrightarrow> bs[k := b] = take k bs @ b # drop (Suc k) bs"
  by (simp_all add: id_take_nth_drop [symmetric] upd_conv_take_nth_drop)

lemma crc32_update_detects:
  assumes "k < length bs" and "b \<noteq> bs ! k"
  shows "ucast (crc32 0 (Some (addr, bs[k := b]))) \<noteq> (ucast (crc32 0 (Some (addr', bs))) :: u32)"
proof
  assume "ucast (crc32 0 (Some (addr, bs[k := b]))) = (ucast (crc32 0 (Some (addr', bs))) :: u32)"
  from crc32_low_inj [OF this] show False
    using crc32_detects [OF assms(2), of 0 addr "take k bs" "drop (Suc k) bs" addr'] byte_update_split [OF assms(1)] by metis
qed

lemma load_le_update:
  assumes "k < length bs" and "length bs \<le> 8" and "b \<noteq> bs ! k"
  shows "load_le (bs[k := b]) \<noteq> load_le bs"
  using load_le_inj [of "bs[k := b]" bs] assms by (metis length_list_update nth_list_update_eq)

text \<open>
  (C24) The checksums of the validation mode are sound: a block that was filled validates, wherever it is read to; a block with any one byte
  of data, checksum or offset changed does not, and neither does a block that is read from another offset.
\<close>

theorem block_checksum_detects:
  assumes "file_fill_buffer addr buf len off r = Inr (blk, r')"
  shows "file_validate_buffer addr' blk len off = Inr (0, []) \<and>
    (k < unat len \<longrightarrow> b \<noteq> blk ! k \<longrightarrow> (\<exists>msgs. file_validate_buffer addr' (blk[k := b]) len off = Inr (1, msgs))) \<and>
    (off' \<noteq> off \<longrightarrow> (\<exists>msgs. file_validate_buffer addr' blk len off' = Inr (1, msgs)))"
proof (intro conjI)
  obtain bs where blk: "blk = bs @ store_u4 (ucast (crc32 0 (Some (addr, bs)))) @ store_u8 off @ drop (unat len) buf"
      and n: "length bs + 12 = unat len"
    by (rule file_fill_parts [OF assms])
  let ?cs = "ucast (crc32 0 (Some (addr, bs))) :: u32" and ?rest = "drop (unat len) buf"
  show "file_validate_buffer addr' blk len off = Inr (0, [])"
    by (rule fill_then_validate [OF assms])
  show "off' \<noteq> off \<longrightarrow> (\<exists>msgs. file_validate_buffer addr' blk len off' = Inr (1, msgs))"
    using validate_parts(1) [OF n, of "store_u4 ?cs" "store_u8 off" addr' ?rest off'] by (auto simp: blk)
  show "k < unat len \<longrightarrow> b \<noteq> blk ! k \<longrightarrow> (\<exists>msgs. file_validate_buffer addr' (blk[k := b]) len off = Inr (1, msgs))"
  proof (intro impI)
    assume k: "k < unat len" and b: "b \<noteq> blk ! k"
    consider "k < length bs" | "length bs \<le> k" "k < length bs + 4" | "length bs + 4 \<le> k" "k < length bs + 12"
      using k n by linarith
    then show "\<exists>msgs. file_validate_buffer addr' (blk[k := b]) len off = Inr (1, msgs)"
    proof cases
      case 1
      then have "blk[k := b] = bs[k := b] @ store_u4 ?cs @ store_u8 off @ ?rest" "b \<noteq> bs ! k"
        using b by (simp_all add: blk list_update_append nth_append)
      then show ?thesis
        using validate_parts(1) [of "bs[k := b]" len "store_u4 ?cs" "store_u8 off" addr' ?rest off] n
          crc32_update_detects [OF 1, of b addr' addr] by (auto simp: eq_commute)
    next
      case 2
      let ?j = "k - length bs"
      have "k - length bs < 4" using 2 by linarith
      then have j: "blk[k := b] = bs @ (store_u4 ?cs)[?j := b] @ store_u8 off @ ?rest" "b \<noteq> store_u4 ?cs ! ?j" "?j < 4"
        using b 2 by (simp_all add: blk list_update_append nth_append)
      have "ucast (load_le ((store_u4 ?cs)[?j := b])) \<noteq> ?cs"
        using load_le_update [of ?j "store_u4 ?cs" b] j(2,3) load_le_small [of "(store_u4 ?cs)[?j := b]"] load_le_small [of "store_u4 ?cs"]
        by auto
      then show ?thesis
        using validate_parts(1) [OF n, of "(store_u4 ?cs)[?j := b]" "store_u8 off" addr' ?rest off] j(1) crc32_address [of 0 addr bs addr']
        by auto
    next
      case 3
      let ?j = "k - length bs - 4"
      have "\<not> k - length bs < 4" "k - length bs - 4 < 8" using 3 by linarith+
      then have j: "blk[k := b] = bs @ store_u4 ?cs @ (store_u8 off)[?j := b] @ ?rest" "b \<noteq> store_u8 off ! ?j" "?j < 8"
        using b 3 by (simp_all add: blk list_update_append nth_append diff_diff_left)
      have "load_le ((store_u8 off)[?j := b]) \<noteq> off"
        using load_le_update [of ?j "store_u8 off" b] j(2,3) by simp
      then show ?thesis
        using validate_parts(1) [OF n, of "store_u4 ?cs" "(store_u8 off)[?j := b]" addr' ?rest off] j(1) by auto
    qed
  qed
qed

lemma block_checksum_detects_witness:
  "\<exists>blk r'. file_fill_buffer 0 (replicate 16 0) 14 512 (pg_rand (worker_prog 0)) = Inr (blk, r') \<and>
     file_validate_buffer 7 blk 14 512 = Inr (0, []) \<and> (\<exists>msgs. file_validate_buffer 7 blk 14 1024 = Inr (1, msgs))"
proof -
  obtain blk r' where f: "file_fill_buffer 0 (replicate 16 0) 14 512 (pg_rand (worker_prog 0)) = Inr (blk, r')"
    by (cases "rnd_bytes 2 (pg_rand (worker_prog 0))") (simp add: file_fill_buffer_def FILE_CHECKSUM_LENGTH_def FILE_OFFSET_LENGTH_def)
  show ?thesis
    using f block_checksum_detects [OF f, of 7 0 0 1024] by auto
qed

section \<open>Random requests stay in the files and do not collide\<close>

text \<open>The parameters under which a block drawn at random lies inside a file: whole blocks per file, and no bytes left over.\<close>

definition rnd_params :: "('o, 'a) test_file_scheme \<Rightarrow> bool" where
  "rnd_params t \<longleftrightarrow>
     0 < num_files t \<and> 0 < file_size t \<and> 0 < file_block_size t \<and> file_block_size t dvd file_size t \<and>
     total_size t = file_size t * uint (num_files t) \<and> total_size t \<le> 2 ^ 53 \<and> fsynced_file t < num_files t"

definition place_ok :: "('o, 'a) test_file_scheme \<Rightarrow> u32 \<times> int \<Rightarrow> bool" where
  "place_ok t place \<longleftrightarrow>
     fst place < num_files t \<and> 0 \<le> snd place \<and> snd place + file_block_size t \<le> file_size t \<and> file_block_size t dvd snd place"

lemma rnd_place_ok:
  assumes fp: "fp_ok fp" and t: "rnd_params t" and x: "x < SB_MAX_RND"
  shows "\<exists>place. rnd_place fp x t = Inr place \<and> place_ok t place"
proof -
  let ?N = "total_size t" and ?b = "file_block_size t" and ?F = "file_size t" and ?n = "uint (num_files t)"
  have p: "0 < ?F" "0 < ?b" "?b dvd ?F" "?N = ?F * ?n" "?N \<le> 2 ^ 53" "0 < ?n"
    using t by (simp_all add: rnd_params_def word_less_def)
  then have N: "1 \<le> ?N" by (simp add: int_one_le_iff_zero_less)
  have round: "fp_round fp (real_of_int ?N) = real_of_int ?N"
    using N p(5) by (intro fp_round_int fp) simp
  let ?x = "fmul fp (fdiv fp (real x) (real SB_MAX_RND)) (real_of_int ?N)"
  have "1 \<le> real_of_int ?N" using N by simp
  moreover have "real_of_int ?N \<le> real_of_int (2 ^ 60)"
    using p(5) by (subst of_int_le_iff) simp
  then have "real_of_int ?N \<le> 2 ^ 60" by simp
  ultimately have b: "0 \<le> ?x" "?x < real_of_int ?N"
    by (rule random_part_below [OF fp x])+
  define q where "q = \<lfloor>?x\<rfloor> - \<lfloor>?x\<rfloor> mod ?b"
  have z: "0 \<le> \<lfloor>?x\<rfloor>" "\<lfloor>?x\<rfloor> < ?N"
    using b by (simp_all add: floor_less_iff)
  have "\<lfloor>?x\<rfloor> mod ?b \<le> \<lfloor>?x\<rfloor>" "0 \<le> \<lfloor>?x\<rfloor> mod ?b"
    using z(1) p(2) by (simp_all add: zmod_le_nonneg_dividend)
  then have q: "0 \<le> q" "q < ?N" "?b dvd q"
    using z(2) unfolding q_def by (linarith, linarith, simp add: dvd_minus_mod)
  have "q div ?F * ?F \<le> q"
    using p(1) q(1) by (simp add: minus_mod_eq_div_mult [symmetric])
  then have "q div ?F < ?n"
    using q(2) p(1,4) by (metis mult.commute mult_less_cancel_right_pos order_le_less_trans)
  then have n: "0 \<le> q div ?F" "q div ?F < ?n"
    using q(1) p(1) by (simp_all add: pos_imp_zdiv_nonneg_iff)
  have "uint (word_of_int (q div ?F) :: u32) = q div ?F"
    using n uint_bounded [of "num_files t"] by (simp add: word_of_int_inverse uint_word_of_int_eq take_bit_int_eq_self)
  then have c: "(word_of_int (q div ?F) :: u32) < num_files t"
    using n by (simp add: word_less_def)
  have m: "?b dvd q mod ?F" "0 \<le> q mod ?F" "q mod ?F < ?F"
    using q(3) p(1,3) by (simp_all add: dvd_mod)
  have "rnd_place fp x t = Inr (word_of_int (q div ?F), q mod ?F)"
    using p(1,2) b(1) by (simp add: rnd_place_def round Let_def q_def)
  then show ?thesis
    using c m block_fits_file [OF p(3) m(1) p(2) m(3)] by (auto simp: place_ok_def)
qed

text \<open>The place the draw number \<open>k\<close> from now gives, and whether another thread than \<open>i\<close> works on a place.\<close>

definition drawn_place :: "fpenv \<Rightarrow> nat \<Rightarrow> ('o, 'a) test_file_scheme st \<Rightarrow> (u32 \<times> int) res" where
  "drawn_place fp k s = rnd_place fp (rd_lrand48 (pg_rand (fst s)) (rd_calls (pg_rand (fst s)) + k) mod SB_MAX_RND) (snd s)"

definition used_by_other :: "nat \<Rightarrow> u32 \<times> int \<Rightarrow> sb_per_thread_t list \<Rightarrow> bool" where
  "used_by_other i place ps \<longleftrightarrow> (\<exists>j<length ps. j \<noteq> i \<and> pt_place (ps ! j) = place)"

lemma ex_nth_Cons: "(\<exists>j<length (p # ps). P j ((p # ps) ! j)) \<longleftrightarrow> P 0 p \<or> (\<exists>j<length ps. P (Suc j) (ps ! j))"
  by (auto simp: less_Suc_eq_0_disj)

lemma place_used_eq: "place_used i place k ps \<longleftrightarrow> (\<exists>j<length ps. k + j \<noteq> i \<and> pt_place (ps ! j) = place)"
proof (induction i place k ps rule: place_used.induct)
  case (2 i place k p ps)
  show ?case
    unfolding ex_nth_Cons [of p ps "\<lambda>j q. k + j \<noteq> i \<and> pt_place q = place"] using 2 by auto
qed simp

lemma rnd_draw_ends:
  assumes "fp_ok fp" and "rnd_params (snd s)"
    and "g_validate (s_globals s) \<longrightarrow> per_thread (snd s) = Some ps \<and> length ps = unat (g_num_threads (s_globals s))"
    and "k < n" and "drawn_place fp k s = Inr free" and "g_validate (s_globals s) \<longrightarrow> \<not> used_by_other i free ps"
  shows "\<exists>place r'. rnd_draw n fp i s = Inr (place, ((fst s)\<lparr>pg_rand := r'\<rparr>, snd s)) \<and> place_ok (snd s) place \<and>
           (g_validate (s_globals s) \<longrightarrow> \<not> used_by_other i place ps)"
  using assms
proof (induction n arbitrary: s k)
  case (Suc n)
  let ?r = "pg_rand (fst s)"
  let ?s = "((fst s)\<lparr>pg_rand := ?r\<lparr>rd_calls := rd_calls ?r + 1\<rparr>\<rparr>, snd s)"
  obtain place where place: "drawn_place fp 0 s = Inr place" "place_ok (snd s) place"
    using rnd_place_ok [OF Suc.prems(1,2), of "rd_lrand48 ?r (rd_calls ?r) mod SB_MAX_RND"]
    by (auto simp: drawn_place_def SB_MAX_RND_def)
  have used: "place_used i p 0 ps = used_by_other i p ps" for p
    by (simp add: place_used_eq used_by_other_def)
  have step: "rnd_draw (Suc n) fp i s =
      (if g_validate (s_globals s) \<and> used_by_other i place ps then rnd_draw n fp i ?s else Inr (place, ?s))"
    using place(1) used Suc.prems(3) by (cases "g_validate (s_globals s)") (auto simp: sb_rnd_def drawn_place_def Let_def)
  show ?case
  proof (cases "g_validate (s_globals s) \<and> used_by_other i place ps")
    case True
    then have "k \<noteq> 0" using Suc.prems(5,6) place(1) by (cases "k = 0") auto
    then obtain m where m: "k = Suc m" by (cases k) auto
    have "\<exists>place r'. rnd_draw n fp i ?s = Inr (place, ((fst ?s)\<lparr>pg_rand := r'\<rparr>, snd ?s)) \<and> place_ok (snd ?s) place \<and>
           (g_validate (s_globals ?s) \<longrightarrow> \<not> used_by_other i place ps)"
      using Suc.prems m by (intro Suc.IH [of ?s m]) (simp_all add: drawn_place_def)
    then show ?thesis using step True by (simp del: rnd_draw.simps)
  next
    case False
    then show ?thesis
      unfolding step using place(2)
      by (intro exI [of _ place] exI [of _ "?r\<lparr>rd_calls := rd_calls ?r + 1\<rparr>"]) auto
  qed
qed simp

lemma file_last_case:
  "fst (fsync_last w t) = file_request r \<Longrightarrow> operation r = FILE_OP_TYPE_FSYNC \<and> file_id r < num_files t"
  by (auto simp: fsync_last_def fsync_request_def split: if_splits)

text \<open>The descriptors of the threads are as many as there are threads, in the first state of a run as in the later ones.\<close>

lemma alloc_per_thread_length: "alloc_per_thread n ps s = (ps', s') \<Longrightarrow> length ps' = length ps + n"
  by (induction n ps s rule: alloc_per_thread.induct) (auto split: prod.splits)

lemma file_parse_buffers_threads:
  "file_parse_buffers s = Inr (rc, s') \<Longrightarrow> per_thread (snd s') = Some ps \<Longrightarrow> length ps = unat (g_num_threads (s_globals s))"
  by (cases "s_malloc s"; cases "alloc_per_thread (unat (g_num_threads (s_globals s))) [] (snd (s_malloc s))")
    (auto simp: file_parse_buffers_def Let_def dest: alloc_per_thread_length split: if_splits)

text \<open>
  (C25) Random requests: when the files hold whole blocks and one of the next random numbers, as many as there is fuel, gives a block that no other thread
  works on, a request is handed out; it names an existing file and, if it reads or writes, an aligned block inside the file, rounding
  included, that in the validation mode no other thread works on. This holds from the first request on, whatever the memory of the threads that have
  had none yet contains; a block that such a thread happens to name is avoided as well.
\<close>

theorem random_requests_placed:
  assumes "fp_ok fp" and "rnd_params (snd s)" and "per_thread (snd s) = Some ps" and "i < length ps"
    and "g_validate (s_globals s) \<longrightarrow> length ps = unat (g_num_threads (s_globals s))"
    and "k < fuel" and "drawn_place fp k s = Inr free" and "g_validate (s_globals s) \<longrightarrow> \<not> used_by_other i free ps"
  shows "\<exists>req s'. file_get_rnd_request fuel fp i s = Inr (req, s') \<and> rnd_params (snd s') \<and>
           (\<forall>r. req = file_request r \<longrightarrow>
              file_id r < num_files (snd s) \<and>
              (operation r \<noteq> FILE_OP_TYPE_FSYNC \<longrightarrow>
                 req_inside (num_files (snd s)) (file_size (snd s)) r \<and> rsize r = file_block_size (snd s) \<and>
                 file_block_size (snd s) dvd pos r \<and>
                 (\<exists>ps'. per_thread (snd s') = Some ps' \<and> length ps' = length ps \<and> pt_place (ps' ! i) = (file_id r, pos r) \<and>
                    (g_validate (s_globals s) \<longrightarrow> \<not> used_by_other i (file_id r, pos r) ps'))))"
proof -
  let ?t = "snd s"
  let ?w = "test_mode ?t = MODE_RND_WRITE \<or> test_mode ?t = MODE_RND_RW \<or> test_mode ?t = MODE_MIXED"
  consider "file_limit_reached (s_globals s) ?t" | "\<not> file_limit_reached (s_globals s) ?t" "fsync_due ?t"
    | "\<not> file_limit_reached (s_globals s) ?t" "\<not> fsync_due ?t" by blast
  then show ?thesis
  proof cases
    case 1
    have "file_get_rnd_request fuel fp i s = Inr (fst (fsync_last ?w ?t), (fst s, snd (fsync_last ?w ?t)))"
      using 1 by (simp add: file_get_rnd_request_def Let_def case_prod_unfold)
    moreover have "rnd_params (snd (fsync_last ?w ?t))"
      using assms(2) by (simp add: rnd_params_def fsync_last_def)
    ultimately show ?thesis
      using file_last_case [of ?w ?t] by (intro exI [of _ "fst (fsync_last ?w ?t)"] exI [of _ "(fst s, snd (fsync_last ?w ?t))"]) auto
  next
    case 2
    have "file_get_rnd_request fuel fp i s = Inr (file_request (fst (fsync_next ?t)), (fst s, snd (fsync_next ?t)))"
      using 2 by (simp add: file_get_rnd_request_def Let_def case_prod_unfold)
    moreover have "rnd_params (snd (fsync_next ?t))"
      using assms(2) word_next_below [of "fsynced_file ?t" "num_files ?t"]
      by (simp add: rnd_params_def fsync_next_def Let_def)
    ultimately show ?thesis
      using assms(2) by (intro exI [of _ "file_request (fst (fsync_next ?t))"] exI [of _ "(fst s, snd (fsync_next ?t))"])
        (simp add: fsync_next_file fsync_request_def rnd_params_def)
  next
    case 3
    have v: "g_validate (s_globals s) \<longrightarrow> per_thread ?t = Some ps \<and> length ps = unat (g_num_threads (s_globals s))"
      using assms(3,5) by simp
    obtain place r' where d: "rnd_draw fuel fp i s = Inr (place, ((fst s)\<lparr>pg_rand := r'\<rparr>, ?t))" "place_ok ?t place"
        "g_validate (s_globals s) \<longrightarrow> \<not> used_by_other i place ps"
      using rnd_draw_ends [OF assms(1,2) v assms(6-8)] by blast
    let ?op = "if rnd_mode fp ?t = MODE_RND_WRITE then FILE_OP_TYPE_WRITE else FILE_OP_TYPE_READ"
    let ?ps = "ps[i := (ps ! i)\<lparr>pt_place := place\<rparr>]"
    let ?t' = "?t\<lparr>per_thread := Some ?ps, f_req_performed := f_req_performed ?t + 1\<rparr>"
    let ?t'' = "if ?op = FILE_OP_TYPE_WRITE then ?t'\<lparr>is_dirty := True\<rparr> else ?t'"
    let ?r = "\<lparr>file_id = fst place, pos = snd place, rsize = file_block_size ?t, operation = ?op\<rparr>"
    have "file_get_rnd_request fuel fp i s = Inr (file_request ?r, ((fst s)\<lparr>pg_rand := r'\<rparr>, ?t''))"
      using 3 d(1) assms(3,4) by (simp add: file_get_rnd_request_def set_place_def Let_def)
    moreover have "rnd_params ?t''"
      using assms(2) by (simp add: rnd_params_def)
    moreover have "per_thread ?t'' = Some ?ps" "pt_place (?ps ! i) = place"
        "used_by_other i place ?ps \<longleftrightarrow> used_by_other i place ps"
      using assms(4) by (auto simp: used_by_other_def nth_list_update)
    ultimately show ?thesis
      using d(2,3) by (intro exI [of _ "file_request ?r"] exI [of _ "((fst s)\<lparr>pg_rand := r'\<rparr>, ?t'')"])
        (auto simp: place_ok_def req_inside_def)
  qed
qed

section \<open>A sample configuration\<close>

text \<open>Two files of four blocks each, two threads.\<close>

definition file_sample :: "'o \<Rightarrow> 'o test_file" where
  "file_sample os =
     \<lparr>max_prime = 0, cpu_req_performed = 0, thread_yields = 0, thread_locks = 0, test_mutexes = None,
      thr_req_performed = 0, mutex_num = 0, mutex_loops = 0, mutex_locks = 0, mtx_thread_locks = None, global_var = 0, c_rand = (\<lambda>n. n), c_rand_calls = 0,
      memory_block_size = 0, memory_total_size = 0, memory_scope = SB_MEM_SCOPE_GLOBAL, memory_oper = SB_MEM_OP_NONE, memory_access_rnd = False,
      memory_hugetlb = False, total_ops = 0, total_bytes = 0, last_bytes = 0, buffers = [], mem_buffer = [],
      fl_os = os, malloc_places = (\<lambda>_. (9, 8)), aio_ctxts = [], per_thread = Some (replicate 2 \<lparr>pt_buffer = Some (replicate 16 0), pt_place = (9, 8)\<rparr>),
      num_files = 2, total_size = 128, file_size = 64, file_block_size = 16, file_extra_flags = SB_FILE_FLAG_NORMAL,
      file_fsync_freq = 0, file_fsync_all = False, file_fsync_end = True, file_fsync_mode = FSYNC_ALL, file_rw_ratio = 1,
      file_merged_requests = 0, file_max_request_size = 16, file_io_mode = FILE_IO_MODE_SYNC, file_async_backlog = 2,
      f_position = 0, current_file = 0, fsynced_file = 0, fsynced_file2 = 0, is_dirty = False, f_read_ops = 0, f_write_ops = 0,
      f_other_ops = 0, f_last_other_ops = 0, f_req_performed = 0, bytes_read = 0, last_bytes_read = 0, bytes_written = 0,
      last_bytes_written = 0, mmaps = [], files = [3, 4], test_mode = MODE_RND_WRITE,
      prev_req = \<lparr>file_id = 0, pos = 0, rsize = 0, operation = FILE_OP_TYPE_NULL\<rparr>, f_percentile = None\<rparr>"

lemma seq_requests_in_order_witness:
  "\<exists>req t'. file_get_seq_request (worker_prog 0, file_sample ()) = Inr (req, (worker_prog 0, t')) \<and> seq_inv t'"
proof -
  have "seq_inv (file_sample ())"
    by (simp add: file_sample_def seq_inv_def seq_params_def)
  moreover have "operation (prev_req (file_sample ())) = FILE_OP_TYPE_NULL" "2 \<le> num_files (file_sample ())"
    by (simp_all add: file_sample_def)
  ultimately show ?thesis
    using seq_requests_in_order [of "(worker_prog 0, file_sample ())"] by auto
qed

definition validating :: "prog \<Rightarrow> prog" where
  "validating = upd_g (\<lambda>g. g\<lparr>g_validate := True\<rparr>)"

text \<open>The first request of two threads in the validation mode.\<close>

lemma random_requests_placed_witness:
  "\<exists>r s' ps'. file_get_rnd_request 1 fp_exact 1 (validating (worker_prog 0), file_sample ()) = Inr (file_request r, s') \<and>
     file_id r < 2 \<and> operation r = FILE_OP_TYPE_WRITE \<and> pos r + 16 \<le> 64 \<and> 16 dvd pos r \<and>
     per_thread (snd s') = Some ps' \<and> pt_place (ps' ! 1) = (file_id r, pos r) \<and> \<not> used_by_other 1 (file_id r, pos r) ps'"
proof -
  let ?s = "(validating (worker_prog 0), file_sample ())" and ?ps = "replicate 2 \<lparr>pt_buffer = Some (replicate 16 0), pt_place = (9, 8)\<rparr>"
  have p: "rnd_params (snd ?s)" "per_thread (snd ?s) = Some ?ps" "g_validate (s_globals ?s)" "length ?ps = unat (g_num_threads (s_globals ?s))"
    by (simp_all add: file_sample_def rnd_params_def validating_def worker_prog_def sample_world_def sample_globals_def)
  have "rd_lrand48 (pg_rand (fst ?s)) (rd_calls (pg_rand (fst ?s)) + 0) mod SB_MAX_RND < SB_MAX_RND"
    by (simp add: SB_MAX_RND_def)
  then obtain free where free: "drawn_place fp_exact 0 ?s = Inr free" "place_ok (snd ?s) free"
    using rnd_place_ok [OF fp_exact_ok p(1)] unfolding drawn_place_def by blast
  then have "\<not> used_by_other 1 free ?ps"
    by (auto simp: used_by_other_def place_ok_def file_sample_def)
  from random_requests_placed [OF fp_exact_ok p(1,2), of 1 0 1 free] this p(4) free(1) obtain req s' where
    req: "file_get_rnd_request 1 fp_exact 1 ?s = Inr (req, s')" and
    r: "\<forall>r. req = file_request r \<longrightarrow> file_id r < num_files (snd ?s) \<and>
          (operation r \<noteq> FILE_OP_TYPE_FSYNC \<longrightarrow>
             req_inside (num_files (snd ?s)) (file_size (snd ?s)) r \<and> rsize r = file_block_size (snd ?s) \<and> file_block_size (snd ?s) dvd pos r \<and>
             (\<exists>ps'. per_thread (snd s') = Some ps' \<and> length ps' = length ?ps \<and> pt_place (ps' ! 1) = (file_id r, pos r) \<and>
                (g_validate (s_globals ?s) \<longrightarrow> \<not> used_by_other 1 (file_id r, pos r) ps')))"
    by auto
  have "\<not> file_limit_reached (s_globals ?s) (snd ?s)" "\<not> fsync_due (snd ?s)" "rnd_mode fp_exact (snd ?s) = MODE_RND_WRITE"
    by (simp_all add: file_limit_reached_def fsync_due_def rnd_mode_def file_sample_def validating_def worker_prog_def sample_world_def sample_globals_def)
  then obtain q where q: "req = file_request q" "operation q = FILE_OP_TYPE_WRITE"
    using req by (auto simp: file_get_rnd_request_def rbind_eq_Inr Let_def)
  then show ?thesis
    using r req p(3) by (intro exI [of _ q] exI [of _ s']) (auto simp: req_inside_def file_sample_def)
qed

text \<open>A total size that the number of files does not divide: the last random numbers give the file behind the last one.\<close>

lemma random_place_behind_last_file:
  assumes "num_files t = 3" and "total_size t = 10" and "file_size t = 3" and "file_block_size t = 1"
  shows "\<exists>p. rnd_place fp_exact (SB_MAX_RND - 1) t = Inr (3, p)"
  using assms by (simp add: rnd_place_def fmul_def fdiv_def fp_exact_def SB_MAX_RND_def Let_def floor_divide_of_int_eq)

end
