(* ===== verification/FileExec.thy ===== *)
theory FileExec
  imports FileIo
begin

text \<open>
  The file test, second part: the operations of \<^verbatim>\<open>tests/fileio/sb_fileio.c\<close> on files. The operating system and the
  library for asynchronous I/O are an argument: functions on a state of their own, which see the buffer a call is
  given and return it as they leave it; a missing buffer is a NULL pointer. An asynchronous operation refers to the buffer of its thread, and the calls that submit
  operations or wait for them may change it. Writing and reading through a mapping answers \<open>None\<close> for an access that faults.
  Then the proofs that blocks written validate when they are read, that the queue of asynchronous operations is bounded
  and drained at the end, and that the creation of the files ends.
\<close>

section \<open>The operating system\<close>

datatype open_flag = O_CREAT | O_WRONLY | O_RDWR | O_SYNC | O_DSYNC | O_DIRECT

text \<open>A prepared asynchronous operation: descriptor, length and offset.\<close>

datatype iocb = Prep_pread int int int | Prep_pwrite int int int

record sb_aio_oper_t =
  ao_iocb :: iocb
  ao_type :: sb_file_op_t
  ao_len :: int

record io_event =
  ev_oper :: sb_aio_oper_t
  ev_res :: int

record 'o file_os =
  os_open :: "string \<Rightarrow> open_flag list \<Rightarrow> 'o \<Rightarrow> int \<times> 'o"
  os_unlink :: "string \<Rightarrow> 'o \<Rightarrow> 'o"
  os_close :: "int \<Rightarrow> 'o \<Rightarrow> 'o"
  os_lseek_end :: "int \<Rightarrow> 'o \<Rightarrow> int \<times> 'o"
  os_write :: "int \<Rightarrow> u8 list option \<Rightarrow> int \<Rightarrow> 'o \<Rightarrow> int \<times> 'o"
  os_fsync :: "int \<Rightarrow> 'o \<Rightarrow> int \<times> 'o"
  os_fdatasync :: "int \<Rightarrow> 'o \<Rightarrow> int \<times> 'o"
  os_pread :: "int \<Rightarrow> u8 list option \<Rightarrow> int \<Rightarrow> int \<Rightarrow> 'o \<Rightarrow> (int \<times> u8 list option) \<times> 'o"
  os_pwrite :: "int \<Rightarrow> u8 list option \<Rightarrow> int \<Rightarrow> int \<Rightarrow> 'o \<Rightarrow> int \<times> 'o"
  os_ftruncate :: "int \<Rightarrow> int \<Rightarrow> 'o \<Rightarrow> int \<times> 'o"
  os_mmap :: "int \<Rightarrow> int \<Rightarrow> 'o \<Rightarrow> nat option \<times> 'o"
  os_munmap :: "nat \<Rightarrow> int \<Rightarrow> 'o \<Rightarrow> 'o"
  os_msync :: "nat \<Rightarrow> int \<Rightarrow> 'o \<Rightarrow> int \<times> 'o"
  os_map_read :: "nat \<Rightarrow> int \<Rightarrow> int \<Rightarrow> 'o \<Rightarrow> u8 list option"
  os_map_write :: "nat \<Rightarrow> int \<Rightarrow> u8 list \<Rightarrow> 'o \<Rightarrow> 'o option"
  os_queue_init :: "nat \<Rightarrow> u32 \<Rightarrow> 'o \<Rightarrow> int \<times> 'o"
  os_queue_release :: "nat \<Rightarrow> 'o \<Rightarrow> 'o"
  os_submit :: "nat \<Rightarrow> sb_aio_oper_t \<Rightarrow> u8 list option \<Rightarrow> 'o \<Rightarrow> (int \<times> u8 list option) \<times> 'o"
  os_getevents :: "nat \<Rightarrow> int \<Rightarrow> u32 \<Rightarrow> u8 list option \<Rightarrow> 'o \<Rightarrow> (io_event list \<times> u8 list option) \<times> 'o"
  os_error :: "'o \<Rightarrow> int \<times> string"
  os_buf_addr :: "nat \<Rightarrow> u64"

text \<open>A system call, and a fatal message with the error it left.\<close>

definition sys :: "('o \<Rightarrow> 'r \<times> 'o) \<Rightarrow> ('o, 'a) test_file_scheme st \<Rightarrow> 'r \<times> ('o, 'a) test_file_scheme st" where
  "sys f s = (case f (fl_os (snd s)) of (r, d) \<Rightarrow> (r, upd_t (\<lambda>t. t\<lparr>fl_os := d\<rparr>) s))"

abbreviation sys_do :: "('o \<Rightarrow> 'o) \<Rightarrow> ('o, 'a) test_file_scheme st \<Rightarrow> ('o, 'a) test_file_scheme st" where
  "sys_do f \<equiv> upd_t (\<lambda>t. t\<lparr>fl_os := f (fl_os t)\<rparr>)"

definition file_fail :: "'o file_os \<Rightarrow> string \<Rightarrow> ('o, 'a) test_file_scheme op" where
  "file_fail os m s =
     (case os_error os (fl_os (snd s)) of (e, str) \<Rightarrow> rbind (s_world (log_errno LOG_FATAL e str m) s) (\<lambda>s. Inr (1, s)))"

text \<open>The buffer of a thread.\<close>

definition thread_buffer :: "nat \<Rightarrow> ('o, 'a) test_file_scheme st \<Rightarrow> u8 list option res" where
  "thread_buffer i s =
     (case per_thread (snd s) of None \<Rightarrow> Inl Null_deref | Some ps \<Rightarrow> rbind (aread ps i) (\<lambda>p. Inr (pt_buffer p)))"

definition set_buffer :: "nat \<Rightarrow> u8 list option \<Rightarrow> ('o, 'a) test_file_scheme st \<Rightarrow> ('o, 'a) test_file_scheme st" where
  "set_buffer i b = upd_t (\<lambda>t. t\<lparr>per_thread := map_option (\<lambda>ps. ps[i := (ps ! i)\<lparr>pt_buffer := b\<rparr>]) (per_thread t)\<rparr>)"

definition fill_thread_buffer :: "'o file_os \<Rightarrow> nat \<Rightarrow> int \<Rightarrow> int \<Rightarrow> ('o, 'a) test_file_scheme op" where
  "fill_thread_buffer os i len off s =
     rbind (thread_buffer i s)
       (\<lambda>b. case b of
              None \<Rightarrow> Inl Null_deref
            | Some b \<Rightarrow>
                rbind (file_fill_buffer (os_buf_addr os i) b (word_of_int len) (word_of_int off) (pg_rand (fst s)))
                  (\<lambda>(b, r). Inr (0, set_buffer i (Some b) ((fst s)\<lparr>pg_rand := r\<rparr>, snd s))))"

section \<open>Opening, creating and removing files\<close>

definition convert_extra_flags :: "file_flags_t \<Rightarrow> open_flag list" where
  "convert_extra_flags f =
     (case f of SB_FILE_FLAG_NORMAL \<Rightarrow> [] | SB_FILE_FLAG_SYNC \<Rightarrow> [O_SYNC] | SB_FILE_FLAG_DSYNC \<Rightarrow> [O_DSYNC] | SB_FILE_FLAG_DIRECTIO \<Rightarrow> [O_DIRECT])"

definition test_file_name :: "nat \<Rightarrow> string" where
  "test_file_name i = ''test_file.'' @ print_int (c_int (int i))"

definition sb_open :: "'o file_os \<Rightarrow> string \<Rightarrow> ('o, 'a) test_file_scheme st \<Rightarrow> int \<times> ('o, 'a) test_file_scheme st" where
  "sb_open os name s = sys (os_open os name ([O_CREAT, O_RDWR] @ convert_extra_flags (file_extra_flags (snd s)))) s"

text \<open>
  The loop that writes blocks from an offset up to the size of the file, with fuel for the number of blocks; it returns whether a write
  failed and the bytes counted as written.
\<close>

fun write_blocks :: "nat \<Rightarrow> 'o file_os \<Rightarrow> int \<Rightarrow> int \<Rightarrow> int \<Rightarrow> ('o, 'a) test_file_scheme st \<Rightarrow> (bool \<times> int \<times> ('o, 'a) test_file_scheme st) res" where
  "write_blocks 0 os fd offset written s = Inl Still_running"
| "write_blocks (Suc n) os fd offset written s =
     (if offset < file_size (snd s)
      then rbind (if g_validate (s_globals s) then fill_thread_buffer os 0 (file_block_size (snd s)) offset s else Inr (0, s)) (\<lambda>(_, s).
           rbind (thread_buffer 0 s) (\<lambda>b.
             case sys (os_write os fd b (file_block_size (snd s))) s of (rc, s) \<Rightarrow>
               if rc < 0 then Inr (True, written, s)
               else write_blocks n os fd (offset + file_block_size (snd s)) (written + file_block_size (snd s)) s))
      else Inr (False, written, s))"

definition create_file :: "nat \<Rightarrow> 'o file_os \<Rightarrow> nat \<Rightarrow> int \<Rightarrow> ('o, 'a) test_file_scheme st \<Rightarrow> (int \<times> int \<times> ('o, 'a) test_file_scheme st) res" where
  "create_file fuel os i written s =
     (case sys (os_open os (test_file_name i) ([O_CREAT, O_WRONLY] @ convert_extra_flags (file_extra_flags (snd s)))) s of (fd, s) \<Rightarrow>
        if fd < 0 then rbind (file_fail os (''Can'' @ [CHR 0x27] @ ''t open file'') s) (\<lambda>(rc, s). Inr (rc, written, s))
        else
          (case sys (os_lseek_end os fd) s of (offset, s) \<Rightarrow>
             let what = (if offset \<ge> file_size (snd s) then ''Reusing existing file '' else if offset > 0 then ''Extending existing file ''
                         else ''Creating file '') in
             rbind (s_log LOG_NOTICE (what @ test_file_name i) s) (\<lambda>s.
             rbind (write_blocks fuel os fd offset written s) (\<lambda>(failed, written, s).
               if failed
               then rbind (file_fail os ''Failed to write file!'' s) (\<lambda>(rc, s). Inr (rc, written, sys_do (os_close os fd) s))
               else (case sys (os_fsync os fd) s of (_, s) \<Rightarrow> Inr (0, written, sys_do (os_close os fd) s))))))"

fun create_loop :: "nat \<Rightarrow> 'o file_os \<Rightarrow> nat list \<Rightarrow> int \<Rightarrow> ('o, 'a) test_file_scheme st \<Rightarrow> (int \<times> int \<times> ('o, 'a) test_file_scheme st) res" where
  "create_loop fuel os [] written s = Inr (0, written, s)"
| "create_loop fuel os (i # is) written s =
     rbind (create_file fuel os i written s)
       (\<lambda>(rc, written, s). if rc \<noteq> 0 then Inr (rc, written, s) else create_loop fuel os is written s)"

definition create_files :: "nat \<Rightarrow> fpenv \<Rightarrow> 'o file_os \<Rightarrow> ('o, 'a) test_file_scheme op" where
  "create_files fuel fp os s =
     (let t = snd s in
      rbind (s_world (log_reqs
        [(LOG_NOTICE, print_int (sint (num_files t)) @ '' files, '' @ print_int (file_size t div 1024) @ ''Kb each, ''
                      @ print_int (file_size t * uint (num_files t) div (1024 * 1024)) @ ''Mb total''),
         (LOG_NOTICE, ''Creating files for the test...''),
         (LOG_NOTICE, ''Extra file open flags: '' @ print_hex (flags_num (file_extra_flags t)))]) s) (\<lambda>s.
      case SB_GETTIME (pg_w (fst s)) of (start, w) \<Rightarrow>
        let s = ((fst s)\<lparr>pg_w := w\<rparr>, snd s) in
        rbind (create_loop fuel os [0..<unat (num_files t)] 0 s) (\<lambda>(rc, written, s).
          if rc \<noteq> 0 then Inr (rc, s)
          else
            (case SB_GETTIME (pg_w (fst s)) of (now, w) \<Rightarrow>
               let s = ((fst s)\<lparr>pg_w := w\<rparr>, snd s); seconds = NS2SEC fp (TIMESPEC_DIFF now start) in
               rbind (s_log LOG_NOTICE
                 (if written > 0
                  then print_int written @ '' bytes written in '' @ fmt_f 0 2 seconds @ '' seconds ('' @
                       fmt_rate fp 0 (fdiv fp (fp_round fp (real_of_int written)) MEGABYTE) seconds @ '' MB/sec).''
                  else ''No bytes written.'') s) (\<lambda>s. Inr (0, s))))))"

definition remove_files :: "'o file_os \<Rightarrow> ('o, 'a) test_file_scheme op" where
  "remove_files os s =
     rbind (s_log LOG_NOTICE ''Removing test files...'' s)
       (\<lambda>s. Inr (0, sys_do (fold (\<lambda>i. os_unlink os (test_file_name i)) [0..<unat (num_files (snd s))]) s))"

definition file_cmd_prepare :: "nat \<Rightarrow> fpenv \<Rightarrow> 'o file_os \<Rightarrow> ('o, 'a) test_file_scheme op" where
  "file_cmd_prepare fuel fp os =
     sthen (file_parse_arguments fp) (\<lambda>s. if test_mode (snd s) = MODE_WRITE then remove_files os s else create_files fuel fp os s)"

definition file_cmd_cleanup :: "fpenv \<Rightarrow> 'o file_os \<Rightarrow> ('o, 'a) test_file_scheme op" where
  "file_cmd_cleanup fp os = sthen (file_parse_arguments fp) (remove_files os)"

section \<open>Asynchronous operations\<close>

text \<open>What the completion of an operation counts, or the message of a failed one.\<close>

definition aio_complete :: "io_event \<Rightarrow> ('o, 'a) test_file_scheme \<Rightarrow> string + ('o, 'a) test_file_scheme" where
  "aio_complete ev t =
     (let len = ao_len (ev_oper ev) in
      case ao_type (ev_oper ev) of
        FILE_OP_TYPE_FSYNC \<Rightarrow>
          if ev_res ev \<noteq> 0 then Inl (''Asynchronous fsync failed!'' @ newline) else Inr (t\<lparr>f_other_ops := c_int (f_other_ops t + 1)\<rparr>)
      | FILE_OP_TYPE_READ \<Rightarrow>
          if ev_res ev \<noteq> len then Inl (''Asynchronous read failed!'' @ newline)
          else Inr (t\<lparr>f_read_ops := c_int (f_read_ops t + 1), bytes_read := bytes_read t + word_of_int len\<rparr>)
      | FILE_OP_TYPE_WRITE \<Rightarrow>
          if ev_res ev \<noteq> len then Inl (''Asynchronous write failed!'' @ newline)
          else Inr (t\<lparr>f_write_ops := c_int (f_write_ops t + 1), bytes_written := bytes_written t + word_of_int len\<rparr>)
      | FILE_OP_TYPE_NULL \<Rightarrow> Inr t)"

definition set_nrequests :: "nat \<Rightarrow> u32 \<Rightarrow> ('o, 'a) test_file_scheme \<Rightarrow> ('o, 'a) test_file_scheme" where
  "set_nrequests i n t = t\<lparr>aio_ctxts := (aio_ctxts t)[i := (aio_ctxts t ! i)\<lparr>nrequests := n\<rparr>]\<rparr>"

fun complete_events :: "nat \<Rightarrow> io_event list \<Rightarrow> ('o, 'a) test_file_scheme op" where
  "complete_events i [] s = Inr (0, s)"
| "complete_events i (ev # evs) s =
     (case aio_complete ev (snd s) of
        Inl m \<Rightarrow> mem_fail m s
      | Inr t \<Rightarrow> complete_events i evs (fst s, set_nrequests i (nrequests (aio_ctxts t ! i) - 1) t))"

text \<open>Every result of \<^verbatim>\<open>io_getevents\<close> below 1 is the empty list of events.\<close>

definition file_wait :: "'o file_os \<Rightarrow> nat \<Rightarrow> int \<Rightarrow> ('o, 'a) test_file_scheme op" where
  "file_wait os i nreq s =
     rbind (aread (aio_ctxts (snd s)) i) (\<lambda>_.
     rbind (thread_buffer i s) (\<lambda>b.
       case sys (os_getevents os i nreq (file_async_backlog (snd s)) b) s of ((evs, b), s) \<Rightarrow>
         let s = set_buffer i b s in
         if evs = [] then file_fail os ''io_getevents() failed!'' s else complete_events i evs s))"

definition file_submit_or_wait :: "'o file_os \<Rightarrow> iocb \<Rightarrow> sb_file_op_t \<Rightarrow> int \<Rightarrow> nat \<Rightarrow> ('o, 'a) test_file_scheme op" where
  "file_submit_or_wait os cb ty len i s =
     (case s_malloc s of (ok, s) \<Rightarrow>
        if \<not> ok then mem_fail ''Failed to allocate AIO operation!'' s
        else
          rbind (aread (aio_ctxts (snd s)) i) (\<lambda>c.
          rbind (thread_buffer i s) (\<lambda>b.
            case sys (os_submit os i \<lparr>ao_iocb = cb, ao_type = ty, ao_len = len\<rparr> b) s of ((n, b), s) \<Rightarrow>
              let s = set_buffer i b s in
              if n < 1 then file_fail os ''io_submit() failed!'' s
              else
                (let s = upd_t (set_nrequests i (nrequests c + 1)) s in
                 if nrequests c + 1 < file_async_backlog (snd s) then Inr (0, s) else file_wait os i 1 s))))"

fun aio_init_loop :: "'o file_os \<Rightarrow> nat list \<Rightarrow> ('o, 'a) test_file_scheme op" where
  "aio_init_loop os [] s = Inr (0, s)"
| "aio_init_loop os (i # is) s =
     (case sys (os_queue_init os i (file_async_backlog (snd s))) s of (rc, s) \<Rightarrow>
        if rc \<noteq> 0 then file_fail os ''io_queue_init() failed!'' s
        else
          (case s_malloc s of (ok, s) \<Rightarrow>
             if \<not> ok then file_fail os ''Failed to allocate async I/O context!'' s else aio_init_loop os is s))"

definition file_async_init :: "'o file_os \<Rightarrow> ('o, 'a) test_file_scheme op" where
  "file_async_init os s =
     (if file_io_mode (snd s) \<noteq> FILE_IO_MODE_ASYNC then Inr (0, s)
      else
        rbind (sb_get_value_int (pg_opts (fst s)) ''file-async-backlog'') (\<lambda>n.
          let s = upd_t (\<lambda>t. t\<lparr>file_async_backlog := word_of_int n\<rparr>) s; n = unat (g_num_threads (s_globals s)) in
          if file_async_backlog (snd s) = 0
          then mem_fail (''Invalid value of file-async-backlog: '' @ print_int (sint (file_async_backlog (snd s)))) s
          else
            (case s_malloc s of (ok, s) \<Rightarrow>
               if \<not> ok \<and> n \<noteq> 0 then Inl Null_deref
               else aio_init_loop os [0..<n] (upd_t (\<lambda>t. t\<lparr>aio_ctxts := replicate n \<lparr>nrequests = 0\<rparr>\<rparr>) s))))"

definition file_async_done :: "'o file_os \<Rightarrow> ('o, 'a) test_file_scheme op" where
  "file_async_done os s =
     (if file_io_mode (snd s) \<noteq> FILE_IO_MODE_ASYNC then Inr (0, s)
      else if length (aio_ctxts (snd s)) < unat (g_num_threads (s_globals s)) then Inl Out_of_bounds
      else Inr (0, upd_t (\<lambda>t. t\<lparr>aio_ctxts := []\<rparr>) (sys_do (fold (os_queue_release os) [0..<unat (g_num_threads (s_globals s))]) s)))"

text \<open>At the end of a thread: wait for all operations it has queued.\<close>

definition file_thread_done :: "'o file_os \<Rightarrow> nat \<Rightarrow> ('o, 'a) test_file_scheme op" where
  "file_thread_done os i s =
     (if file_io_mode (snd s) \<noteq> FILE_IO_MODE_ASYNC then Inr (0, s)
      else rbind (aread (aio_ctxts (snd s)) i)
             (\<lambda>c. if nrequests c > 0 then file_wait os i (uint (nrequests c)) s else Inr (0, s)))"

section \<open>Mappings\<close>

fun truncate_loop :: "'o file_os \<Rightarrow> nat list \<Rightarrow> ('o, 'a) test_file_scheme op" where
  "truncate_loop os [] s = Inr (0, s)"
| "truncate_loop os (i # is) s =
     rbind (aread (files (snd s)) i) (\<lambda>fd.
       case sys (os_ftruncate os fd (file_size (snd s))) s of (rc, s) \<Rightarrow>
         if rc \<noteq> 0 then file_fail os (''ftruncate() failed on file '' @ print_int (c_int (int i))) s else truncate_loop os is s)"

fun mmap_loop :: "'o file_os \<Rightarrow> nat list \<Rightarrow> ('o, 'a) test_file_scheme op" where
  "mmap_loop os [] s = Inr (0, s)"
| "mmap_loop os (i # is) s =
     rbind (aread (files (snd s)) i) (\<lambda>fd.
       case sys (os_mmap os fd (file_size (snd s))) s of (m, s) \<Rightarrow>
         (case m of
            None \<Rightarrow> file_fail os (''mmap() failed on file '' @ print_int (c_int (int i))) s
          | Some m \<Rightarrow> mmap_loop os is (upd_t (\<lambda>t. t\<lparr>mmaps := mmaps t @ [m]\<rparr>) s)))"

definition file_mmap_prepare :: "'o file_os \<Rightarrow> ('o, 'a) test_file_scheme op" where
  "file_mmap_prepare os s =
     (if file_io_mode (snd s) \<noteq> FILE_IO_MODE_MMAP then Inr (0, s)
      else
        (let is = [0..<unat (num_files (snd s))] in
         sthen (\<lambda>s. if test_mode (snd s) = MODE_WRITE then truncate_loop os is s else Inr (0, s))
           (\<lambda>s. case s_malloc s of (ok, s) \<Rightarrow>
              if \<not> ok \<and> is \<noteq> [] then Inl Null_deref else mmap_loop os is (upd_t (\<lambda>t. t\<lparr>mmaps := []\<rparr>) s)) s))"

definition file_mmap_done :: "'o file_os \<Rightarrow> ('o, 'a) test_file_scheme op" where
  "file_mmap_done os s =
     (if file_io_mode (snd s) \<noteq> FILE_IO_MODE_MMAP then Inr (0, s)
      else if length (mmaps (snd s)) < unat (num_files (snd s)) then Inl Out_of_bounds
      else Inr (0, upd_t (\<lambda>t. t\<lparr>mmaps := []\<rparr>)
             (sys_do (fold (\<lambda>m. os_munmap os m (file_size (snd s))) (take (unat (num_files (snd s))) (mmaps (snd s)))) s)))"

section \<open>Reading, writing and synchronising\<close>

definition file_fsync :: "'o file_os \<Rightarrow> u32 \<Rightarrow> nat \<Rightarrow> ('o, 'a) test_file_scheme op" where
  "file_fsync os fid i s =
     rbind (aread (files (snd s)) (unat fid)) (\<lambda>fd.
       if file_io_mode (snd s) = FILE_IO_MODE_SYNC \<or> file_io_mode (snd s) = FILE_IO_MODE_ASYNC
       then Inr (sys (if file_fsync_mode (snd s) = FSYNC_ALL then os_fsync os fd else os_fdatasync os fd) s)
       else rbind (aread (mmaps (snd s)) (unat fid)) (\<lambda>m. Inr (sys (os_msync os m (file_size (snd s))) s)))"

definition file_pread :: "'o file_os \<Rightarrow> u32 \<Rightarrow> int \<Rightarrow> int \<Rightarrow> nat \<Rightarrow> ('o, 'a) test_file_scheme op" where
  "file_pread os fid cnt off i s =
     rbind (aread (files (snd s)) (unat fid)) (\<lambda>fd.
     rbind (thread_buffer i s) (\<lambda>b.
       case file_io_mode (snd s) of
         FILE_IO_MODE_SYNC \<Rightarrow>
           (case sys (os_pread os fd b cnt off) s of ((n, b), s) \<Rightarrow> Inr (n, set_buffer i b s))
       | FILE_IO_MODE_ASYNC \<Rightarrow>
           rbind (file_submit_or_wait os (Prep_pread fd cnt off) FILE_OP_TYPE_READ cnt i s)
             (\<lambda>(rc, s). Inr (if rc \<noteq> 0 then 0 else cnt, s))
       | FILE_IO_MODE_MMAP \<Rightarrow>
           rbind (aread (mmaps (snd s)) (unat fid)) (\<lambda>m.
             case os_map_read os m off cnt (fl_os (snd s)) of
               None \<Rightarrow> Inl Bad_access
             | Some bs \<Rightarrow>
                 (case b of
                    None \<Rightarrow> Inl Null_deref
                  | Some b \<Rightarrow> if length b < length bs then Inl Out_of_bounds
                              else Inr (cnt, set_buffer i (Some (bs @ drop (length bs) b)) s)))))"

definition file_pwrite :: "'o file_os \<Rightarrow> u32 \<Rightarrow> int \<Rightarrow> int \<Rightarrow> nat \<Rightarrow> ('o, 'a) test_file_scheme op" where
  "file_pwrite os fid cnt off i s =
     rbind (aread (files (snd s)) (unat fid)) (\<lambda>fd.
     rbind (thread_buffer i s) (\<lambda>b.
       case file_io_mode (snd s) of
         FILE_IO_MODE_SYNC \<Rightarrow> Inr (sys (os_pwrite os fd b cnt off) s)
       | FILE_IO_MODE_ASYNC \<Rightarrow>
           rbind (file_submit_or_wait os (Prep_pwrite fd cnt off) FILE_OP_TYPE_WRITE cnt i s)
             (\<lambda>(rc, s). Inr (if rc \<noteq> 0 then 0 else cnt, s))
       | FILE_IO_MODE_MMAP \<Rightarrow>
           rbind (aread (mmaps (snd s)) (unat fid)) (\<lambda>m.
             case b of
               None \<Rightarrow> Inl Null_deref
             | Some b \<Rightarrow>
                 if length b < nat cnt then Inl Out_of_bounds
                 else
                   (case os_map_write os m off (take (nat cnt) b) (fl_os (snd s)) of
                      None \<Rightarrow> Inl Bad_access
                    | Some d \<Rightarrow> Inr (cnt, upd_t (\<lambda>t. t\<lparr>fl_os := d\<rparr>) s)))))"

section \<open>Execution of requests\<close>

text \<open>The time measured is recorded in the histogram of the test.\<close>

definition event_measured :: "fpenv \<Rightarrow> nat \<Rightarrow> ('o, 'a) test_file_scheme op" where
  "event_measured fp i s =
     rbind (s_event_stop fp i s) (\<lambda>s.
     rbind (thread_timer_value i (pg_w (fst s))) (\<lambda>(v, w).
       case f_percentile (snd s) of
         None \<Rightarrow> Inl Null_deref
       | Some p \<Rightarrow> rbind (sb_percentile_update fp p (u64_double fp v))
                     (\<lambda>p. Inr (0, ((fst s)\<lparr>pg_w := w\<rparr>, (snd s)\<lparr>f_percentile := Some p\<rparr>)))))"

text \<open>The counters, except in the asynchronous mode, which counts when operations complete.\<close>

definition when_sync :: "(('o, 'a) test_file_scheme \<Rightarrow> ('o, 'a) test_file_scheme) \<Rightarrow> ('o, 'a) test_file_scheme op" where
  "when_sync f s = Inr (0, if file_io_mode (snd s) \<noteq> FILE_IO_MODE_ASYNC then upd_t f s else s)"

definition add_other :: "('o, 'a) test_file_scheme \<Rightarrow> ('o, 'a) test_file_scheme" where
  "add_other t = t\<lparr>f_other_ops := c_int (f_other_ops t + 1)\<rparr>"

definition add_write :: "int \<Rightarrow> ('o, 'a) test_file_scheme \<Rightarrow> ('o, 'a) test_file_scheme" where
  "add_write len t = t\<lparr>f_write_ops := c_int (f_write_ops t + 1), bytes_written := bytes_written t + word_of_int len\<rparr>"

definition add_read :: "int \<Rightarrow> ('o, 'a) test_file_scheme \<Rightarrow> ('o, 'a) test_file_scheme" where
  "add_read len t = t\<lparr>f_read_ops := c_int (f_read_ops t + 1), bytes_read := bytes_read t + word_of_int len\<rparr>"

definition exec_write :: "'o file_os \<Rightarrow> fpenv \<Rightarrow> int \<Rightarrow> sb_file_request_t \<Rightarrow> nat \<Rightarrow> ('o, 'a) test_file_scheme op" where
  "exec_write os fp fd r i =
     sthen (\<lambda>s. if g_validate (s_globals s) then fill_thread_buffer os i (rsize r) (pos r) s else Inr (0, s))
    (sthen (\<lambda>s. rbind (s_event_start fp i s) (\<lambda>s. Inr (0, s)))
    (sthen (\<lambda>s. rbind (file_pwrite os (file_id r) (rsize r) (pos r) i s) (\<lambda>(n, s).
         if n \<noteq> rsize r
         then file_fail os (''Failed to write file! file: '' @ print_int fd @ '' pos: '' @ print_int (pos r)) s else Inr (0, s)))
    (sthen (\<lambda>s.
         if \<not> file_fsync_all (snd s) then Inr (0, s)
         else rbind (file_fsync os (file_id r) i s) (\<lambda>(rc, s).
           if rc \<noteq> 0 then file_fail os (''Failed to fsync file! file: '' @ print_int fd) s else Inr (0, upd_t add_other s)))
    (sthen (event_measured fp i) (when_sync (add_write (rsize r)))))))"

definition exec_read :: "'o file_os \<Rightarrow> fpenv \<Rightarrow> int \<Rightarrow> sb_file_request_t \<Rightarrow> nat \<Rightarrow> ('o, 'a) test_file_scheme op" where
  "exec_read os fp fd r i =
     sthen (\<lambda>s. rbind (s_event_start fp i s) (\<lambda>s. Inr (0, s)))
    (sthen (\<lambda>s. rbind (file_pread os (file_id r) (rsize r) (pos r) i s) (\<lambda>(n, s).
         if n \<noteq> rsize r
         then file_fail os (''Failed to read file! file: '' @ print_int fd @ '' pos: '' @ print_int (pos r)) s else Inr (0, s)))
    (sthen (event_measured fp i)
    (sthen (\<lambda>s.
         if \<not> g_validate (s_globals s) then Inr (0, s)
         else
           rbind (thread_buffer i s) (\<lambda>b. case b of None \<Rightarrow> Inl Null_deref | Some b \<Rightarrow>
           rbind (file_validate_buffer (os_buf_addr os i) b (word_of_int (rsize r)) (word_of_int (pos r))) (\<lambda>(bad, msgs).
           rbind (s_world (log_reqs msgs) s) (\<lambda>s.
             if bad \<noteq> 0
             then mem_fail (''Validation failed on file '' @ print_int (sint (file_id r)) @ '', block offset 0x''
                            @ print_hex (word_of_int (pos r)) @ '', exiting...'') s
             else Inr (0, s)))))
      (when_sync (add_read (rsize r))))))"

definition exec_fsync :: "'o file_os \<Rightarrow> int \<Rightarrow> sb_file_request_t \<Rightarrow> nat \<Rightarrow> ('o, 'a) test_file_scheme op" where
  "exec_fsync os fd r i s =
     (if file_fsync_all (snd s) then Inr (0, s)
      else
        sthen (\<lambda>s. rbind (file_fsync os (file_id r) i s) (\<lambda>(rc, s).
            if rc \<noteq> 0
            then file_fail os (''Failed to fsync file! id: '' @ print_nat (unat (file_id r)) @ '' fd: '' @ print_int fd) s else Inr (0, s)))
          (when_sync add_other) s)"

definition file_op_num :: "sb_file_op_t \<Rightarrow> int" where
  "file_op_num oper =
     (case oper of FILE_OP_TYPE_NULL \<Rightarrow> 0 | FILE_OP_TYPE_READ \<Rightarrow> 1 | FILE_OP_TYPE_WRITE \<Rightarrow> 2 | FILE_OP_TYPE_FSYNC \<Rightarrow> 3)"

text \<open>A file identifier equal to the number of files passes the first check; the array is read behind its end then.\<close>

definition file_execute_request :: "'o file_os \<Rightarrow> fpenv \<Rightarrow> request_u sb_request \<Rightarrow> nat \<Rightarrow> ('o, 'a) test_file_scheme op" where
  "file_execute_request os fp sb_req i s =
     (case snd sb_req of
        Some (File_request r) \<Rightarrow>
          rbind (if g_debug (s_globals s)
                 then s_log LOG_DEBUG (''Executing request, operation: '' @ print_int (file_op_num (operation r)) @ '', file_id: ''
                        @ print_int (sint (file_id r)) @ '', pos: '' @ print_int (c_int (pos r)) @ '', size: '' @ print_int (c_int (rsize r))) s
                 else Inr s) (\<lambda>s.
            if file_id r > num_files (snd s) then mem_fail (''Incorrect file id in request: '' @ print_nat (unat (file_id r))) s
            else if pos r + rsize r > file_size (snd s) then mem_fail ''Too large position discovered in request!'' s
            else rbind (aread (files (snd s)) (unat (file_id r))) (\<lambda>fd.
              case operation r of
                FILE_OP_TYPE_NULL \<Rightarrow> mem_fail ''Execute of NULL request called !, aborting'' s
              | FILE_OP_TYPE_WRITE \<Rightarrow> exec_write os fp fd r i s
              | FILE_OP_TYPE_READ \<Rightarrow> exec_read os fp fd r i s
              | FILE_OP_TYPE_FSYNC \<Rightarrow> exec_fsync os fd r i s))
      | _ \<Rightarrow> Inl Uninit_read)"

section \<open>The test\<close>

definition file_percentile_init :: "fpenv \<Rightarrow> ('o, 'a) test_file_scheme op" where
  "file_percentile_init fp s =
     (case sb_percentile_init fp (os_mem (pg_opts (fst s))) 100000 1 (10 ^ 13) of (r, m) \<Rightarrow>
        let s = (set_opts ((pg_opts (fst s))\<lparr>os_mem := m\<rparr>) (fst s), snd s) in
        case r of
          Inl msgs \<Rightarrow> rbind (s_world (log_reqs msgs) s) (\<lambda>s. Inr (1, s))
        | Inr p \<Rightarrow> Inr (0, upd_t (\<lambda>t. t\<lparr>f_percentile := Some p\<rparr>) s))"

definition file_init :: "fpenv \<Rightarrow> 'o file_os \<Rightarrow> ('o, 'a) test_file_scheme op" where
  "file_init fp os =
     sthen (file_parse_arguments fp)
    (sthen (\<lambda>s. case s_malloc s of (ok, s) \<Rightarrow>
         if \<not> ok then mem_fail ''Memory allocation failure.'' s
         else Inr (0, upd_t (\<lambda>t. t\<lparr>files := replicate (unat (num_files t)) 0\<rparr>) s))
    (sthen (file_async_init os)
    (sthen (\<lambda>s. rbind (clear_stats (init_vars s)) (\<lambda>s. Inr (0, s)))
           (file_percentile_init fp))))"

fun open_loop :: "'o file_os \<Rightarrow> nat list \<Rightarrow> ('o, 'a) test_file_scheme op" where
  "open_loop os [] s = Inr (0, s)"
| "open_loop os (i # is) s =
     (let name = test_file_name i; s = (if test_mode (snd s) = MODE_WRITE then sys_do (os_unlink os name) s else s) in
      rbind (s_log LOG_DEBUG (''Opening file: '' @ name) s) (\<lambda>s.
        case sb_open os name s of (fd, s) \<Rightarrow>
          let s = upd_t (\<lambda>t. t\<lparr>files := (files t)[i := fd]\<rparr>) s in
          if fd < 0 then file_fail os ''Cannot open file'' s else open_loop os is s))"

definition file_prepare :: "'o file_os \<Rightarrow> ('o, 'a) test_file_scheme op" where
  "file_prepare os = sthen (\<lambda>s. open_loop os [0..<unat (num_files (snd s))] s) (file_mmap_prepare os)"

definition file_done :: "'o file_os \<Rightarrow> ('o, 'a) test_file_scheme op" where
  "file_done os =
     sthen (\<lambda>s. if length (files (snd s)) < unat (num_files (snd s)) then Inl Out_of_bounds
                else Inr (0, sys_do (fold (os_close os) (take (unat (num_files (snd s))) (files (snd s)))) s))
    (sthen (file_async_done os)
    (sthen (file_mmap_done os)
      (\<lambda>s. let n = unat (g_num_threads (s_globals s)) in
         case per_thread (snd s) of
           None \<Rightarrow> if n = 0 then Inr (0, upd_t (\<lambda>t. t\<lparr>f_percentile := None\<rparr>) s) else Inl Null_deref
         | Some ps \<Rightarrow>
             if length ps < n then Inl Out_of_bounds
             else Inr (0, upd_t (\<lambda>t. t\<lparr>per_thread := None, f_percentile := None\<rparr>) s))))"

definition fileio_test :: "nat \<Rightarrow> fpenv \<Rightarrow> 'o file_os \<Rightarrow> (('o, 'a) test_file_scheme, request_u) sb_test" where
  "fileio_test fuel fp os = \<lparr>t_sname = ''fileio'', t_lname = ''File I/O test'',
     op_init = Some (file_init fp os), op_prepare = Some (file_prepare os), op_thread_init = None,
     op_print_mode = Some (file_print_mode fp), op_get_request = Some (file_get_request fuel fp),
     op_execute_request = Some (file_execute_request os fp), op_print_stats = Some (file_print_stats fp),
     op_thread_done = Some (file_thread_done os), op_cleanup = None, op_done = Some (file_done os),
     cmd_help = None, cmd_prepare = Some (file_cmd_prepare fuel fp os), cmd_run = None, cmd_cleanup = Some (file_cmd_cleanup fp os),
     t_args = Some fileio_args\<rparr>"

text \<open>The tests of the program, in the order in which they are registered, and the search by name.\<close>

definition builtin_tests :: "nat \<Rightarrow> fpenv \<Rightarrow> 'o file_os \<Rightarrow> shm_env \<Rightarrow> (('o, 'a) test_file_scheme, request_u) sb_test list" where
  "builtin_tests fuel fp os env = [fileio_test fuel fp os, cpu_test fp, memory_test fp env, threads_test fp, mutex_test fp]"

lemma builtin_tests_names:
  "map t_sname (builtin_tests fuel fp os env) = [''fileio'', ''cpu'', ''memory'', ''threads'', ''mutex'']"
  by (simp add: builtin_tests_def fileio_test_def cpu_test_def memory_test_def threads_test_def mutex_test_def)

section \<open>Blocks written validate when they are read\<close>

lemma event_measured_ok:
  assumes "thread_ready fp i (fst s)" and "f_percentile (snd s) = Some p" and "percentile_wf fp p"
  shows "\<exists>pg' p'. event_measured fp i s = Inr (0, (pg', (snd s)\<lparr>f_percentile := Some p'\<rparr>)) \<and> percentile_wf fp p' \<and>
           thread_ready fp i pg' \<and> event_frame (fst s) pg' \<and> events_counted pg' = events_counted (fst s) + 1 \<and>
           pc_total p' = pc_total p + 1"
proof -
  obtain pg' v where st: "s_event_stop fp i s = Inr (pg', snd s)" "thread_timer_value i (pg_w pg') = Inr (v, pg_w pg')"
      "thread_ready fp i pg'" "event_frame (fst s) pg'" "events_counted pg' = events_counted (fst s) + 1"
    using event_stop_value [OF assms(1)] by blast
  have "fp_ok fp"
    using assms(1) by (simp add: thread_ready_def)
  then obtain p' where p': "sb_percentile_update fp p (u64_double fp v) = Inr p'" "percentile_wf fp p'" "pc_total p' = pc_total p + 1"
    using percentile_update_total [OF _ assms(3)] by blast
  have "event_measured fp i s = Inr (0, (pg', (snd s)\<lparr>f_percentile := Some p'\<rparr>))"
    using st(1,2) p'(1) assms(2) unfolding event_measured_def by simp
  then show ?thesis
    using st(3-5) p'(2,3) by blast
qed

text \<open>
  A device without errors: what is stored for every descriptor and position; a write of whole length stores its data and nothing else, and
  a read returns what is stored.
\<close>

definition storage_ok :: "'o file_os \<Rightarrow> ('o \<Rightarrow> int \<Rightarrow> int \<Rightarrow> u8) \<Rightarrow> bool" where
  "storage_ok os stored \<longleftrightarrow>
     (\<forall>fd b n off d. 0 \<le> n \<longrightarrow> nat n \<le> length b \<longrightarrow>
        (\<exists>d'. os_pwrite os fd (Some b) n off d = (n, d') \<and>
           (\<forall>g q. stored d' g q = (if g = fd \<and> off \<le> q \<and> q < off + n then b ! nat (q - off) else stored d g q)))) \<and>
     (\<forall>fd b n off d. 0 \<le> n \<longrightarrow> nat n \<le> length b \<longrightarrow>
        (\<exists>d'. os_pread os fd (Some b) n off d = ((n, Some (map (\<lambda>k. stored d fd (off + int k)) [0..<nat n] @ drop (nat n) b)), d') \<and>
           stored d' = stored d))"

definition stored_block :: "('o \<Rightarrow> int \<Rightarrow> int \<Rightarrow> u8) \<Rightarrow> ('o, 'a) test_file_scheme \<Rightarrow> u32 \<times> int \<Rightarrow> u8 list" where
  "stored_block stored t place =
     map (\<lambda>k. stored (fl_os t) (files t ! unat (fst place)) (snd place + int k)) [0..<nat (file_block_size t)]"

definition block_valid :: "('o \<Rightarrow> int \<Rightarrow> int \<Rightarrow> u8) \<Rightarrow> ('o, 'a) test_file_scheme \<Rightarrow> u32 \<times> int \<Rightarrow> bool" where
  "block_valid stored t place \<longleftrightarrow>
     (\<forall>addr. file_validate_buffer addr (stored_block stored t place) (word_of_int (file_block_size t)) (word_of_int (snd place)) = Inr (0, []))"

definition buffers_ok :: "int \<Rightarrow> sb_per_thread_t list \<Rightarrow> bool" where
  "buffers_ok n ps \<longleftrightarrow> (\<forall>p\<in>set ps. \<exists>b. pt_buffer p = Some b \<and> nat n \<le> length b)"

text \<open>A worker of the test in the validation mode with synchronous operations that has its files open.\<close>

definition file_ready :: "fpenv \<Rightarrow> ('o, 'a) test_file_scheme st \<Rightarrow> bool" where
  "file_ready fp s \<longleftrightarrow>
     fp_ok fp \<and> oper_ready fp (pg_w (fst s)) \<and> g_validate (s_globals s) \<and>
     (\<exists>p. f_percentile (snd s) = Some p \<and> percentile_wf fp p) \<and>
     file_io_mode (snd s) = FILE_IO_MODE_SYNC \<and> \<not> file_fsync_all (snd s) \<and>
     (\<exists>ps. per_thread (snd s) = Some ps \<and> length ps \<le> length (lg_timers (w_log (pg_w (fst s)))) \<and> buffers_ok (file_block_size (snd s)) ps) \<and>
     12 \<le> file_block_size (snd s) \<and> file_block_size (snd s) < 2 ^ 32 \<and>
     unat (num_files (snd s)) \<le> length (files (snd s)) \<and> distinct (take (unat (num_files (snd s))) (files (snd s)))"

text \<open>What the execution of requests leaves alone.\<close>

definition file_frame :: "('o, 'a) test_file_scheme \<Rightarrow> ('o, 'a) test_file_scheme \<Rightarrow> bool" where
  "file_frame t t' \<longleftrightarrow>
     files t' = files t \<and> num_files t' = num_files t \<and> file_size t' = file_size t \<and> file_block_size t' = file_block_size t \<and>
     map_option length (per_thread t') = map_option length (per_thread t)"

lemma file_frame_trans: "file_frame t t' \<Longrightarrow> file_frame t' t'' \<Longrightarrow> file_frame t t''"
  by (simp add: file_frame_def)

lemma validate_prefix:
  assumes "length b = unat len"
  shows "file_validate_buffer addr (b @ rest) len off = file_validate_buffer addr b len off"
  using assms by (simp add: file_validate_buffer_def Let_def FILE_CHECKSUM_LENGTH_def FILE_OFFSET_LENGTH_def)

lemma block_len: "12 \<le> n \<Longrightarrow> n < 2 ^ 32 \<Longrightarrow> unat (word_of_int n :: u32) = nat n"
  by (simp add: unsigned_of_int take_bit_int_eq_self)

lemma fill_ok:
  assumes "nat n \<le> length b" and "12 \<le> n" and "n < 2 ^ 32"
  shows "\<exists>blk r'. file_fill_buffer addr b (word_of_int n) off r = Inr (blk, r') \<and> length blk = length b \<and>
           (\<forall>addr. file_validate_buffer addr (take (nat n) blk) (word_of_int n) off = Inr (0, []))"
proof -
  let ?n = "word_of_int n :: u32"
  have len: "unat ?n = nat n"
    using assms(2,3) by (rule block_len)
  obtain bs r' where rb: "rnd_bytes (unat ?n - 12) r = (bs, r')" by (cases "rnd_bytes (unat ?n - 12) r")
  have "\<not> (unat ?n < FILE_CHECKSUM_LENGTH + FILE_OFFSET_LENGTH \<or> length b < unat ?n)"
    using assms(1,2) by (simp add: len FILE_CHECKSUM_LENGTH_def FILE_OFFSET_LENGTH_def)
  then obtain blk where f: "file_fill_buffer addr b ?n off r = Inr (blk, r')"
    using rb by (simp add: file_fill_buffer_def FILE_CHECKSUM_LENGTH_def FILE_OFFSET_LENGTH_def)
  have l: "length blk = length b"
    using file_fill_parts [OF f] by blast
  have "file_validate_buffer a (take (nat n) blk) ?n off = Inr (0, [])" for a
    using fill_then_validate [OF f, of a] validate_prefix [of "take (nat n) blk" ?n a "drop (nat n) blk" off] len l assms(1) by simp
  then show ?thesis using f l by blast
qed

lemma storage_write:
  assumes "storage_ok os stored" and "0 \<le> n" and "nat n \<le> length b"
  obtains d' where "os_pwrite os fd (Some b) n off d = (n, d')"
    and "\<And>g q. stored d' g q = (if g = fd \<and> off \<le> q \<and> q < off + n then b ! nat (q - off) else stored d g q)"
  using assms unfolding storage_ok_def by blast

lemma storage_read:
  assumes "storage_ok os stored" and "0 \<le> n" and "nat n \<le> length b"
  obtains d' where "os_pread os fd (Some b) n off d = ((n, Some (map (\<lambda>k. stored d fd (off + int k)) [0..<nat n] @ drop (nat n) b)), d')"
    and "stored d' = stored d"
  using assms unfolding storage_ok_def by blast

text \<open>Two different aligned blocks of a file have no byte in common.\<close>

lemma aligned_disjoint:
  assumes "(n :: int) dvd p" and "n dvd q" and "p \<noteq> q" and "0 \<le> k" and "k < n"
  shows "\<not> (p \<le> q + k \<and> q + k < p + n)"
proof
  assume "p \<le> q + k \<and> q + k < p + n"
  then have "\<bar>p - q\<bar> < n" using assms(4,5) by linarith
  moreover have "n dvd p - q" using assms(1,2) by simp
  ultimately show False
    using assms(3) dvd_imp_le_int [of "p - q" n] assms(4,5) by auto
qed

lemma s_log_ready:
  assumes "oper_ready fp (pg_w (fst s))"
  shows "\<exists>pg'. s_log p m s = Inr (pg', snd s) \<and> oper_ready fp (pg_w pg') \<and> event_frame (fst s) pg' \<and> events_counted pg' = events_counted (fst s)"
proof -
  let ?w = "text_handler_process p (log_buffer m) False (pg_w (fst s))"
  have "logger_ready (pg_w (fst s))" using assms by (simp add: oper_ready_def)
  then have l: "log_text p m (pg_w (fst s)) = Inr ?w" by (rule log_text_ready)
  have f: "text_frame (pg_w (fst s)) ?w" by (rule text_handler_process_frame)
  then have "oper_ready fp ?w"
    using assms text_frame_ready [OF f] by (simp add: oper_ready_def text_frame_def)
  then show ?thesis
    using f by (simp add: s_log_def p_log_def l event_frame_def events_counted_def text_frame_def)
qed

lemma sthen_ok: "f s = Inr (0, s1) \<Longrightarrow> sthen f g s = g s1"
  by (simp add: sthen_def)

lemma file_ready_thread:
  assumes "file_ready fp s" and "per_thread (snd s) = Some ps" and "i < length ps"
  shows "thread_ready fp i (fst s)" and "\<exists>b. pt_buffer (ps ! i) = Some b \<and> nat (file_block_size (snd s)) \<le> length b"
  using assms by (auto simp: file_ready_def thread_ready_def buffers_ok_def)

lemma thread_ready_rand: "thread_ready fp i (pg\<lparr>pg_rand := r\<rparr>) = thread_ready fp i pg"
  by (simp add: thread_ready_def)

lemma exec_write_ok:
  assumes os: "storage_ok os stored" and ready: "file_ready fp s" and ps: "per_thread (snd s) = Some ps" "i < length ps"
    and r: "rsize r = file_block_size (snd s)" "unat (file_id r) < length (files (snd s))" and fd: "fd = files (snd s) ! unat (file_id r)"
  shows "\<exists>pg' blk d' p'. exec_write os fp fd' r i s =
       Inr (0, (pg', add_write (rsize r) ((snd s)\<lparr>per_thread := Some (ps[i := (ps ! i)\<lparr>pt_buffer := Some blk\<rparr>]), fl_os := d', f_percentile := Some p'\<rparr>))) \<and>
     nat (rsize r) \<le> length blk \<and>
     (\<forall>addr. file_validate_buffer addr (take (nat (rsize r)) blk) (word_of_int (rsize r)) (word_of_int (pos r)) = Inr (0, [])) \<and>
     (\<forall>g q. stored d' g q = (if g = fd \<and> pos r \<le> q \<and> q < pos r + rsize r then blk ! nat (q - pos r) else stored (fl_os (snd s)) g q)) \<and>
     percentile_wf fp p' \<and> oper_ready fp (pg_w pg') \<and> pg_globals pg' = s_globals s \<and>
     length (lg_timers (w_log (pg_w pg'))) = length (lg_timers (w_log (pg_w (fst s)))) \<and> events_counted pg' = events_counted (fst s) + 1"
proof -
  let ?t = "snd s" and ?n = "file_block_size (snd s)"
  obtain b where b: "pt_buffer (ps ! i) = Some b" "nat ?n \<le> length b" and tr: "thread_ready fp i (fst s)"
    using file_ready_thread [OF ready ps] by blast
  have n: "12 \<le> ?n" "?n < 2 ^ 32" and m: "g_validate (s_globals s)" "file_io_mode ?t = FILE_IO_MODE_SYNC" "\<not> file_fsync_all ?t"
    using ready by (simp_all add: file_ready_def)
  obtain p where p: "f_percentile ?t = Some p" "percentile_wf fp p"
    using ready by (auto simp: file_ready_def)
  obtain blk r' where blk: "file_fill_buffer (os_buf_addr os i) b (word_of_int ?n) (word_of_int (pos r)) (pg_rand (fst s)) = Inr (blk, r')"
      "length blk = length b" "\<forall>addr. file_validate_buffer addr (take (nat ?n) blk) (word_of_int ?n) (word_of_int (pos r)) = Inr (0, [])"
    using fill_ok [OF b(2) n] by blast
  let ?ps = "ps[i := (ps ! i)\<lparr>pt_buffer := Some blk\<rparr>]"
  let ?s1 = "((fst s)\<lparr>pg_rand := r'\<rparr>, ?t\<lparr>per_thread := Some ?ps\<rparr>)"
  have s1: "fill_thread_buffer os i (rsize r) (pos r) s = Inr (0, ?s1)"
    using blk(1) b(1) ps r(1) by (simp add: fill_thread_buffer_def thread_buffer_def set_buffer_def upd_t_def)
  obtain pg2 where s2: "s_event_start fp i ?s1 = Inr (pg2, snd ?s1)" "thread_ready fp i pg2" "event_frame (fst ?s1) pg2"
      "events_counted pg2 = events_counted (fst ?s1)"
    using event_start_ok [of fp i ?s1] tr by (auto simp: thread_ready_rand)
  have len: "0 \<le> rsize r" "nat (rsize r) \<le> length blk"
    using r(1) n b(2) blk(2) by simp_all
  obtain d' where d': "os_pwrite os fd (Some blk) (rsize r) (pos r) (fl_os ?t) = (rsize r, d')"
      "\<And>g q. stored d' g q = (if g = fd \<and> pos r \<le> q \<and> q < pos r + rsize r then blk ! nat (q - pos r) else stored (fl_os ?t) g q)"
    by (rule storage_write [OF os len]) blast
  let ?s3 = "(pg2, (snd ?s1)\<lparr>fl_os := d'\<rparr>)"
  have s3: "file_pwrite os (file_id r) (rsize r) (pos r) i (pg2, snd ?s1) = Inr (rsize r, ?s3)"
    using d'(1) r(2) fd ps m(2) by (simp add: file_pwrite_def thread_buffer_def sys_def upd_t_def)
  obtain pg5 p' where s5: "event_measured fp i ?s3 = Inr (0, (pg5, (snd ?s3)\<lparr>f_percentile := Some p'\<rparr>))" "percentile_wf fp p'"
      "thread_ready fp i pg5" "event_frame pg2 pg5" "events_counted pg5 = events_counted pg2 + 1"
    using event_measured_ok [of fp i ?s3 p] s2(2) p by auto
  have "exec_write os fp fd' r i s = Inr (0, (pg5, add_write (rsize r) ((snd ?s3)\<lparr>f_percentile := Some p'\<rparr>)))"
    using m s1 s2(1) s3 s5(1) unfolding exec_write_def
    by (simp add: sthen_ok when_sync_def upd_t_def)
  moreover have "oper_ready fp (pg_w pg5)" "pg_globals pg5 = s_globals s" "events_counted pg5 = events_counted (fst s) + 1"
      "length (lg_timers (w_log (pg_w pg5))) = length (lg_timers (w_log (pg_w (fst s))))"
    using s5(3,4,5) s2(3,4) by (simp_all add: thread_ready_def event_frame_def events_counted_def)
  ultimately show ?thesis
    using len(2) blk(3) d'(2) s5(2) r(1)
    by (intro exI [of _ pg5] exI [of _ blk] exI [of _ d'] exI [of _ p']) simp
qed

lemma exec_read_ok:
  assumes os: "storage_ok os stored" and ready: "file_ready fp s" and ps: "per_thread (snd s) = Some ps" "i < length ps"
    and r: "rsize r = file_block_size (snd s)" "unat (file_id r) < length (files (snd s))"
    and valid: "block_valid stored (snd s) (file_id r, pos r)"
  shows "\<exists>pg' buf d' p'. exec_read os fp fd' r i s =
       Inr (0, (pg', add_read (rsize r) ((snd s)\<lparr>fl_os := d', per_thread := Some (ps[i := (ps ! i)\<lparr>pt_buffer := Some buf\<rparr>]), f_percentile := Some p'\<rparr>))) \<and>
     nat (rsize r) \<le> length buf \<and> stored d' = stored (fl_os (snd s)) \<and>
     percentile_wf fp p' \<and> oper_ready fp (pg_w pg') \<and> pg_globals pg' = s_globals s \<and>
     length (lg_timers (w_log (pg_w pg'))) = length (lg_timers (w_log (pg_w (fst s)))) \<and> events_counted pg' = events_counted (fst s) + 1"
proof -
  let ?t = "snd s" and ?n = "file_block_size (snd s)"
  obtain b where b: "pt_buffer (ps ! i) = Some b" "nat ?n \<le> length b" and tr: "thread_ready fp i (fst s)"
    using file_ready_thread [OF ready ps] by blast
  have n: "12 \<le> ?n" "?n < 2 ^ 32" and m: "g_validate (s_globals s)" "file_io_mode ?t = FILE_IO_MODE_SYNC"
    using ready by (simp_all add: file_ready_def)
  obtain p where p: "f_percentile ?t = Some p" "percentile_wf fp p"
    using ready by (auto simp: file_ready_def)
  obtain pg2 where s2: "s_event_start fp i s = Inr (pg2, ?t)" "thread_ready fp i pg2" "event_frame (fst s) pg2"
      "events_counted pg2 = events_counted (fst s)"
    using event_start_ok [of fp i s] tr by auto
  have len: "0 \<le> rsize r" "nat (rsize r) \<le> length b"
    using r(1) n b(2) by simp_all
  let ?fd = "files ?t ! unat (file_id r)"
  let ?data = "map (\<lambda>k. stored (fl_os ?t) ?fd (pos r + int k)) [0..<nat (rsize r)]"
  let ?buf = "?data @ drop (nat (rsize r)) b"
  obtain d' where d': "os_pread os ?fd (Some b) (rsize r) (pos r) (fl_os ?t) = ((rsize r, Some ?buf), d')"
      "stored d' = stored (fl_os ?t)"
    by (rule storage_read [OF os len]) blast
  let ?ps = "ps[i := (ps ! i)\<lparr>pt_buffer := Some ?buf\<rparr>]"
  let ?s3 = "(pg2, ?t\<lparr>fl_os := d', per_thread := Some ?ps\<rparr>)"
  have s3: "file_pread os (file_id r) (rsize r) (pos r) i (pg2, ?t) = Inr (rsize r, ?s3)"
    using d'(1) r(2) ps b(1) m(2) by (simp add: file_pread_def thread_buffer_def set_buffer_def sys_def upd_t_def)
  obtain pg5 p' where s5: "event_measured fp i ?s3 = Inr (0, (pg5, (snd ?s3)\<lparr>f_percentile := Some p'\<rparr>))" "percentile_wf fp p'"
      "thread_ready fp i pg5" "event_frame pg2 pg5" "events_counted pg5 = events_counted pg2 + 1"
    using event_measured_ok [of fp i ?s3 p] s2(2) p by auto
  let ?s5 = "(pg5, (snd ?s3)\<lparr>f_percentile := Some p'\<rparr>)"
  have g5: "pg_globals pg5 = s_globals s"
    using s5(4) s2(3) by (simp add: event_frame_def)
  have buf: "thread_buffer i ?s5 = Inr (Some ?buf)"
    using ps(2) by (simp add: thread_buffer_def)
  have "file_validate_buffer (os_buf_addr os i) ?data (word_of_int ?n) (word_of_int (pos r)) = Inr (0, [])"
    using valid r(1) by (simp add: block_valid_def stored_block_def)
  then have v: "file_validate_buffer (os_buf_addr os i) ?buf (word_of_int (rsize r)) (word_of_int (pos r)) = Inr (0, [])"
    using validate_prefix [of ?data "word_of_int ?n"] block_len [OF n] r(1) by simp
  have "exec_read os fp fd' r i s = Inr (0, (pg5, add_read (rsize r) ((snd ?s3)\<lparr>f_percentile := Some p'\<rparr>)))"
    using m g5 s2(1) s3 s5(1) buf v unfolding exec_read_def
    by (simp add: sthen_ok when_sync_def upd_t_def s_world_def log_reqs_def)
  moreover have "oper_ready fp (pg_w pg5)" "events_counted pg5 = events_counted (fst s) + 1"
      "length (lg_timers (w_log (pg_w pg5))) = length (lg_timers (w_log (pg_w (fst s))))"
    using s5(3,4,5) s2(3,4) by (simp_all add: thread_ready_def event_frame_def events_counted_def)
  ultimately show ?thesis
    using d'(2) s5(2) len g5 by (intro exI [of _ pg5] exI [of _ ?buf] exI [of _ d'] exI [of _ p']) simp
qed

text \<open>A request of the test for one aligned block.\<close>

definition block_request :: "('o, 'a) test_file_scheme \<Rightarrow> sb_file_request_t \<Rightarrow> bool" where
  "block_request t r \<longleftrightarrow>
     file_id r < num_files t \<and> rsize r = file_block_size t \<and> pos r + rsize r \<le> file_size t \<and> file_block_size t dvd pos r \<and>
     (operation r = FILE_OP_TYPE_READ \<or> operation r = FILE_OP_TYPE_WRITE)"

lemma block_request_frame: "file_frame t t' \<Longrightarrow> block_request t' r = block_request t r"
  by (simp add: block_request_def file_frame_def)

lemma buffers_ok_update: "buffers_ok n ps \<Longrightarrow> nat n \<le> length b \<Longrightarrow> buffers_ok n (ps[i := (ps ! i)\<lparr>pt_buffer := Some b\<rparr>])"
  unfolding buffers_ok_def
proof
  fix p
  assume a: "\<forall>p\<in>set ps. \<exists>b. pt_buffer p = Some b \<and> nat n \<le> length b" "nat n \<le> length b"
    and "p \<in> set (ps[i := (ps ! i)\<lparr>pt_buffer := Some b\<rparr>])"
  then have "p = (ps ! i)\<lparr>pt_buffer := Some b\<rparr> \<or> p \<in> set ps"
    using set_update_subset_insert by fast
  then show "\<exists>b. pt_buffer p = Some b \<and> nat n \<le> length b"
    using a(1,2) by auto
qed

lemma file_ready_step:
  assumes "file_ready fp s" and "per_thread (snd s) = Some ps" and "nat (file_block_size (snd s)) \<le> length b" and "percentile_wf fp p"
    and "oper_ready fp (pg_w pg')" and "pg_globals pg' = s_globals s"
    and "length (lg_timers (w_log (pg_w pg'))) = length (lg_timers (w_log (pg_w (fst s))))"
    and "per_thread t' = Some (ps[i := (ps ! i)\<lparr>pt_buffer := Some b\<rparr>])" and "f_percentile t' = Some p"
    and "file_io_mode t' = file_io_mode (snd s)" and "file_fsync_all t' = file_fsync_all (snd s)"
    and "file_block_size t' = file_block_size (snd s)" and "num_files t' = num_files (snd s)" and "files t' = files (snd s)"
  shows "file_ready fp (pg', t')"
  using assms buffers_ok_update [of "file_block_size (snd s)" ps b i] unfolding file_ready_def fst_conv snd_conv by auto

lemma stored_block_same:
  assumes "\<And>q. snd place \<le> q \<Longrightarrow> q < snd place + file_block_size t \<Longrightarrow>
      stored (fl_os t') (files t ! unat (fst place)) q = stored (fl_os t) (files t ! unat (fst place)) q"
    and "files t' = files t" and "file_block_size t' = file_block_size t"
  shows "block_valid stored t' place = block_valid stored t place"
proof -
  have "stored_block stored t' place = stored_block stored t place"
    using assms by (auto simp: stored_block_def)
  then show ?thesis using assms(3) by (simp add: block_valid_def)
qed

lemma distinct_take_nth:
  "distinct (take n xs) \<Longrightarrow> n \<le> length xs \<Longrightarrow> i < n \<Longrightarrow> j < n \<Longrightarrow> i \<noteq> j \<Longrightarrow> xs ! i \<noteq> xs ! j"
  by (metis length_take min.absorb2 nth_eq_iff_index_eq nth_take)

definition is_read :: "sb_file_request_t \<Rightarrow> bool" where
  "is_read r \<longleftrightarrow> operation r = FILE_OP_TYPE_READ"

abbreviation req_place :: "sb_file_request_t \<Rightarrow> u32 \<times> int" where
  "req_place r \<equiv> (file_id r, pos r)"

text \<open>The blocks of the files that hold valid checksums.\<close>

definition valid_places :: "('o \<Rightarrow> int \<Rightarrow> int \<Rightarrow> u8) \<Rightarrow> ('o, 'a) test_file_scheme \<Rightarrow> (u32 \<times> int) set" where
  "valid_places stored t =
     {place. fst place < num_files t \<and> file_block_size t dvd snd place \<and> block_valid stored t place}"

lemma write_request_ok:
  assumes os: "storage_ok os stored" and ready: "file_ready fp s" and ps: "per_thread (snd s) = Some ps" "i < length ps"
    and r: "block_request (snd s) r" "operation r = FILE_OP_TYPE_WRITE"
  shows "\<exists>s'. exec_write os fp fd' r i s = Inr (0, s') \<and> file_ready fp s' \<and> file_frame (snd s) (snd s') \<and>
    insert (req_place r) (valid_places stored (snd s)) \<subseteq> valid_places stored (snd s') \<and>
    bytes_written (snd s') = bytes_written (snd s) + word_of_int (file_block_size (snd s)) \<and> bytes_read (snd s') = bytes_read (snd s)"
proof -
  let ?t = "snd s" and ?fd = "files (snd s) ! unat (file_id r)" and ?n = "file_block_size (snd s)"
  have f: "unat (num_files ?t) \<le> length (files ?t)" "distinct (take (unat (num_files ?t)) (files ?t))"
    using ready by (simp_all add: file_ready_def)
  have r': "rsize r = ?n" "?n dvd pos r" "file_id r < num_files ?t" "unat (file_id r) < length (files ?t)"
    using r(1) f(1) by (auto simp: block_request_def word_less_nat_alt)
  obtain pg' blk d' p' where w: "exec_write os fp fd' r i s =
       Inr (0, (pg', add_write (rsize r) (?t\<lparr>per_thread := Some (ps[i := (ps ! i)\<lparr>pt_buffer := Some blk\<rparr>]), fl_os := d', f_percentile := Some p'\<rparr>)))"
      "nat (rsize r) \<le> length blk"
      "\<forall>addr. file_validate_buffer addr (take (nat (rsize r)) blk) (word_of_int (rsize r)) (word_of_int (pos r)) = Inr (0, [])"
      "\<forall>g q. stored d' g q = (if g = ?fd \<and> pos r \<le> q \<and> q < pos r + rsize r then blk ! nat (q - pos r) else stored (fl_os ?t) g q)"
      "percentile_wf fp p'" "oper_ready fp (pg_w pg')" "pg_globals pg' = s_globals s"
      "length (lg_timers (w_log (pg_w pg'))) = length (lg_timers (w_log (pg_w (fst s))))"
    using exec_write_ok [OF os ready ps r'(1,4) refl, of fd'] by blast
  define t' where "t' = add_write (rsize r) (?t\<lparr>per_thread := Some (ps[i := (ps ! i)\<lparr>pt_buffer := Some blk\<rparr>]), fl_os := d', f_percentile := Some p'\<rparr>)"
  have t': "per_thread t' = Some (ps[i := (ps ! i)\<lparr>pt_buffer := Some blk\<rparr>])" "f_percentile t' = Some p'" "fl_os t' = d'"
      "file_io_mode t' = file_io_mode ?t" "file_fsync_all t' = file_fsync_all ?t" "file_block_size t' = ?n"
      "num_files t' = num_files ?t" "files t' = files ?t" "file_size t' = file_size ?t"
      "bytes_written t' = bytes_written ?t + word_of_int ?n" "bytes_read t' = bytes_read ?t"
    using r'(1) by (simp_all add: t'_def add_write_def)
  have "stored_block stored t' (req_place r) = take (nat ?n) blk"
    using w(2,4) r'(1) t'(3,6,8) by (intro nth_equalityI) (auto simp: stored_block_def)
  then have new: "block_valid stored t' (req_place r)"
    using w(3) r'(1) t'(6) by (simp add: block_valid_def)
  have old: "block_valid stored t' place" if v: "place \<in> valid_places stored ?t" for place
  proof (cases "place = req_place r")
    case False
    have p: "fst place < num_files ?t" "?n dvd snd place" "block_valid stored ?t place"
      using v by (simp_all add: valid_places_def)
    have "stored (fl_os t') (files ?t ! unat (fst place)) q = stored (fl_os ?t) (files ?t ! unat (fst place)) q"
      if q: "snd place \<le> q" "q < snd place + ?n" for q
    proof (cases "fst place = file_id r")
      case True
      then have "snd place \<noteq> pos r" using False by (metis prod.collapse)
      then have "\<not> (pos r \<le> snd place + (q - snd place) \<and> snd place + (q - snd place) < pos r + ?n)"
        using q by (intro aligned_disjoint r'(2) p(2)) auto
      then show ?thesis using w(4) t'(3) r'(1) by auto
    next
      case other: False
      then have "files ?t ! unat (fst place) \<noteq> ?fd"
        using distinct_take_nth [OF f(2,1)] p(1) r'(3) by (simp add: word_less_nat_alt word_unat_eq_iff)
      then show ?thesis using w(4) t'(3) by simp
    qed
    then show ?thesis
      using p(3) stored_block_same [of place ?t stored t'] t'(6,8) by blast
  qed (simp add: new)
  have "insert (req_place r) (valid_places stored ?t) \<subseteq> valid_places stored t'"
    using new old r'(2,3) t'(6,7) by (auto simp: valid_places_def)
  moreover have "file_ready fp (pg', t')"
    using w(2) r'(1) by (intro file_ready_step [OF ready ps(1) _ w(5-8) t'(1,2,4-8)]) simp
  moreover have "file_frame ?t t'"
    using t' ps(1) by (simp add: file_frame_def)
  ultimately show ?thesis
    using w(1) t'(10,11) unfolding t'_def [symmetric] by (intro exI [of _ "(pg', t')"]) simp
qed

lemma read_request_ok:
  assumes os: "storage_ok os stored" and ready: "file_ready fp s" and ps: "per_thread (snd s) = Some ps" "i < length ps"
    and r: "block_request (snd s) r" "operation r = FILE_OP_TYPE_READ" and valid: "req_place r \<in> valid_places stored (snd s)"
  shows "\<exists>s'. exec_read os fp fd' r i s = Inr (0, s') \<and> file_ready fp s' \<and> file_frame (snd s) (snd s') \<and>
    valid_places stored (snd s') = valid_places stored (snd s) \<and>
    bytes_read (snd s') = bytes_read (snd s) + word_of_int (file_block_size (snd s)) \<and> bytes_written (snd s') = bytes_written (snd s)"
proof -
  let ?t = "snd s" and ?n = "file_block_size (snd s)"
  have f: "unat (num_files ?t) \<le> length (files ?t)"
    using ready by (simp add: file_ready_def)
  have r': "rsize r = ?n" "unat (file_id r) < length (files ?t)"
    using r(1) f by (auto simp: block_request_def word_less_nat_alt)
  have v: "block_valid stored ?t (req_place r)"
    using valid by (simp add: valid_places_def)
  obtain pg' buf d' p' where w: "exec_read os fp fd' r i s =
       Inr (0, (pg', add_read (rsize r) (?t\<lparr>fl_os := d', per_thread := Some (ps[i := (ps ! i)\<lparr>pt_buffer := Some buf\<rparr>]), f_percentile := Some p'\<rparr>)))"
      "nat (rsize r) \<le> length buf" "stored d' = stored (fl_os ?t)"
      "percentile_wf fp p'" "oper_ready fp (pg_w pg')" "pg_globals pg' = s_globals s"
      "length (lg_timers (w_log (pg_w pg'))) = length (lg_timers (w_log (pg_w (fst s))))"
    using exec_read_ok [OF os ready ps r' v, of fd'] by blast
  define t' where "t' = add_read (rsize r) (?t\<lparr>fl_os := d', per_thread := Some (ps[i := (ps ! i)\<lparr>pt_buffer := Some buf\<rparr>]), f_percentile := Some p'\<rparr>)"
  have t': "per_thread t' = Some (ps[i := (ps ! i)\<lparr>pt_buffer := Some buf\<rparr>])" "f_percentile t' = Some p'" "fl_os t' = d'"
      "file_io_mode t' = file_io_mode ?t" "file_fsync_all t' = file_fsync_all ?t" "file_block_size t' = ?n"
      "num_files t' = num_files ?t" "files t' = files ?t" "file_size t' = file_size ?t"
      "bytes_read t' = bytes_read ?t + word_of_int ?n" "bytes_written t' = bytes_written ?t"
    using r'(1) by (simp_all add: t'_def add_read_def)
  have "valid_places stored t' = valid_places stored ?t"
    using t'(3,6,7,8) w(3) by (simp add: valid_places_def block_valid_def stored_block_def)
  moreover have "file_ready fp (pg', t')"
    using w(2) r'(1) by (intro file_ready_step [OF ready ps(1) _ w(4-7) t'(1,2,4-8)]) simp
  moreover have "file_frame ?t t'"
    using t' ps(1) by (simp add: file_frame_def)
  ultimately show ?thesis
    using w(1) t'(10,11) unfolding t'_def [symmetric] by (intro exI [of _ "(pg', t')"]) simp
qed

lemma file_execute_dispatch:
  assumes "oper_ready fp (pg_w (fst s))" and "unat (num_files (snd s)) \<le> length (files (snd s))" and "block_request (snd s) r"
  shows "\<exists>pg1. file_execute_request os fp (file_request r) i s =
           (if is_read r then exec_read os fp (files (snd s) ! unat (file_id r)) r i (pg1, snd s)
            else exec_write os fp (files (snd s) ! unat (file_id r)) r i (pg1, snd s)) \<and>
         oper_ready fp (pg_w pg1) \<and> event_frame (fst s) pg1"
proof -
  let ?m = "''Executing request, operation: '' @ print_int (file_op_num (operation r)) @ '', file_id: ''
              @ print_int (sint (file_id r)) @ '', pos: '' @ print_int (c_int (pos r)) @ '', size: '' @ print_int (c_int (rsize r))"
  obtain pg1 where l: "(if g_debug (s_globals s) then s_log LOG_DEBUG ?m s else Inr s) = Inr (pg1, snd s)"
      "oper_ready fp (pg_w pg1)" "event_frame (fst s) pg1"
    using s_log_ready [OF assms(1), of LOG_DEBUG ?m] assms(1) by (cases "g_debug (s_globals s)") (auto, metis event_frame_refl prod.collapse)
  have r: "\<not> num_files (snd s) < file_id r" "\<not> file_size (snd s) < pos r + rsize r" "unat (file_id r) < length (files (snd s))"
      "operation r = (if is_read r then FILE_OP_TYPE_READ else FILE_OP_TYPE_WRITE)"
    using assms(2,3) by (auto simp: block_request_def is_read_def word_less_nat_alt)
  show ?thesis
    using l r unfolding file_execute_request_def by (intro exI [of _ pg1]) simp
qed

text \<open>Requests of several threads, executed one after the other.\<close>

fun exec_requests :: "'o file_os \<Rightarrow> fpenv \<Rightarrow> (nat \<times> sb_file_request_t) list \<Rightarrow> ('o, 'a) test_file_scheme op" where
  "exec_requests os fp [] s = Inr (0, s)"
| "exec_requests os fp ((i, r) # rs) s = sthen (file_execute_request os fp (file_request r) i) (exec_requests os fp rs) s"

text \<open>Every block that is read is one of a set of blocks or has been written before.\<close>

fun reads_written :: "(u32 \<times> int) set \<Rightarrow> (nat \<times> sb_file_request_t) list \<Rightarrow> bool" where
  "reads_written V [] = True"
| "reads_written V ((i, r) # rs) \<longleftrightarrow>
     (if is_read r then req_place r \<in> V \<and> reads_written V rs else reads_written (insert (req_place r) V) rs)"

lemma reads_written_mono: "reads_written V rs \<Longrightarrow> V \<subseteq> W \<Longrightarrow> reads_written W rs"
  by (induction V rs arbitrary: W rule: reads_written.induct) (auto split: if_splits, blast)

lemma thread_frame:
  assumes "file_frame (snd s) (snd s')" and "per_thread (snd s) = Some ps"
  shows "\<exists>ps'. per_thread (snd s') = Some ps' \<and> length ps' = length ps"
  using assms by (auto simp: file_frame_def)

lemma exec_requests_ok:
  assumes "storage_ok os stored" and "file_ready fp s" and "per_thread (snd s) = Some ps"
    and "\<forall>(i, r)\<in>set rs. i < length ps \<and> block_request (snd s) r" and "reads_written (valid_places stored (snd s)) rs"
  shows "\<exists>s'. exec_requests os fp rs s = Inr (0, s') \<and> file_ready fp s' \<and>
    bytes_read (snd s') = bytes_read (snd s) + of_nat (length (filter (\<lambda>x. is_read (snd x)) rs)) * word_of_int (file_block_size (snd s)) \<and>
    bytes_written (snd s') = bytes_written (snd s) + of_nat (length (filter (\<lambda>x. \<not> is_read (snd x)) rs)) * word_of_int (file_block_size (snd s))"
  using assms(2-)
proof (induction rs arbitrary: s ps)
  case (Cons x rs)
  obtain i r where x: "x = (i, r)" by (cases x)
  have r: "i < length ps" "block_request (snd s) r" and rest: "\<forall>(i, r)\<in>set rs. i < length ps \<and> block_request (snd s) r"
    using Cons.prems(3) x by auto
  have f: "oper_ready fp (pg_w (fst s))" "unat (num_files (snd s)) \<le> length (files (snd s))"
    using Cons.prems(1) by (simp_all add: file_ready_def)
  let ?fd = "files (snd s) ! unat (file_id r)" and ?n = "file_block_size (snd s)"
  obtain pg1 where pg1: "file_execute_request os fp (file_request r) i s =
        (if is_read r then exec_read os fp ?fd r i (pg1, snd s) else exec_write os fp ?fd r i (pg1, snd s))"
      "oper_ready fp (pg_w pg1)" "event_frame (fst s) pg1"
    using file_execute_dispatch [OF f r(2)] by blast
  have ready1: "file_ready fp (pg1, snd s)"
    using Cons.prems(1) pg1(2,3) by (simp add: file_ready_def event_frame_def)
  have op: "operation r = (if is_read r then FILE_OP_TYPE_READ else FILE_OP_TYPE_WRITE)"
    using r(2) by (auto simp: block_request_def is_read_def)
  obtain s1 where s1: "file_execute_request os fp (file_request r) i s = Inr (0, s1)" "file_ready fp s1" "file_frame (snd s) (snd s1)"
      "reads_written (valid_places stored (snd s1)) rs"
      "bytes_read (snd s1) = bytes_read (snd s) + (if is_read r then word_of_int ?n else 0)"
      "bytes_written (snd s1) = bytes_written (snd s) + (if is_read r then 0 else word_of_int ?n)"
  proof (cases "is_read r")
    case True
    then have v: "req_place r \<in> valid_places stored (snd s)" "reads_written (valid_places stored (snd s)) rs"
      using Cons.prems(4) x by simp_all
    show ?thesis
      using read_request_ok [OF assms(1) ready1, of ps i r ?fd] Cons.prems(2) r op True v pg1(1) that by fastforce
  next
    case False
    then have v: "reads_written (insert (req_place r) (valid_places stored (snd s))) rs"
      using Cons.prems(4) x by simp
    show ?thesis
      using write_request_ok [OF assms(1) ready1, of ps i r ?fd] Cons.prems(2) r op False reads_written_mono [OF v] pg1(1) that by fastforce
  qed
  obtain ps1 where ps1: "per_thread (snd s1) = Some ps1" "length ps1 = length ps"
    using thread_frame [OF s1(3) Cons.prems(2)] by blast
  have b: "file_block_size (snd s1) = ?n"
    using s1(3) by (simp add: file_frame_def)
  have "\<forall>(i, r)\<in>set rs. i < length ps1 \<and> block_request (snd s1) r"
    using rest ps1(2) block_request_frame [OF s1(3)] by simp
  then obtain s' where "exec_requests os fp rs s1 = Inr (0, s')" "file_ready fp s'"
      "bytes_read (snd s') = bytes_read (snd s1) + of_nat (length (filter (\<lambda>x. is_read (snd x)) rs)) * word_of_int ?n"
      "bytes_written (snd s') = bytes_written (snd s1) + of_nat (length (filter (\<lambda>x. \<not> is_read (snd x)) rs)) * word_of_int ?n"
    using Cons.IH [OF s1(2) ps1(1) _ s1(4)] b by auto
  then show ?case
    using s1(1,5,6) x by (intro exI [of _ s']) (simp add: sthen_ok distrib_right)
qed simp

text \<open>
  (C22) In the synchronous I/O mode without \<^verbatim>\<open>--file-fsync-all\<close> the validation mode raises no false alarm and loses nothing: on a device without errors, any
  sequence of read and write requests of any threads for aligned blocks, in which every block read holds a valid checksum already or has been written
  before, is executed without a failure, and the bytes read and written are counted exactly (modulo 2 to the 64). The files are different, a block
  has at least 12 bytes, and every thread has a buffer for one. The asynchronous mode does not have this property: there a block is validated before it has been read.
\<close>

theorem written_blocks_validate:
  assumes "storage_ok os stored" and "file_ready fp s" and "per_thread (snd s) = Some ps"
    and "\<forall>(i, r)\<in>set rs. i < length ps \<and> block_request (snd s) r" and "reads_written (valid_places stored (snd s)) rs"
  shows "\<exists>s'. exec_requests os fp rs s = Inr (0, s') \<and>
    bytes_read (snd s') = bytes_read (snd s) + of_nat (length (filter (\<lambda>x. is_read (snd x)) rs)) * word_of_int (file_block_size (snd s)) \<and>
    bytes_written (snd s') = bytes_written (snd s) + of_nat (length (filter (\<lambda>x. \<not> is_read (snd x)) rs)) * word_of_int (file_block_size (snd s))"
  using exec_requests_ok [OF assms] by blast

section \<open>Asynchronous operations are all waited for and counted\<close>

text \<open>
  A library for asynchronous operations without errors, with the operations that are pending for a thread: submitting adds one, waiting
  removes at least as many as asked for if there are that many, and reports the length asked for.
\<close>

definition aio_ok :: "'o file_os \<Rightarrow> ('o \<Rightarrow> nat \<Rightarrow> sb_aio_oper_t multiset) \<Rightarrow> bool" where
  "aio_ok os pending \<longleftrightarrow>
     (\<forall>i oper b d. \<exists>b' d'. os_submit os i oper b d = ((1, b'), d') \<and> pending d' i = add_mset oper (pending d i)) \<and>
     (\<forall>i n backlog b d. 0 < n \<longrightarrow> n \<le> int (size (pending d i)) \<longrightarrow>
        (\<exists>evs b' d'. os_getevents os i n backlog b d = ((evs, b'), d') \<and> n \<le> int (length evs) \<and>
           pending d i = mset (map ev_oper evs) + pending d' i \<and> (\<forall>ev\<in>set evs. ev_res ev = ao_len (ev_oper ev))))"

text \<open>The bytes that operations of a kind stand for.\<close>

definition bytes_of :: "sb_file_op_t \<Rightarrow> sb_aio_oper_t multiset \<Rightarrow> u64" where
  "bytes_of ty M = (\<Sum>oper\<in>#M. if ao_type oper = ty then word_of_int (ao_len oper) else 0)"

lemma bytes_of_simps [simp]:
  "bytes_of ty {#} = 0"
  "bytes_of ty (add_mset oper M) = (if ao_type oper = ty then word_of_int (ao_len oper) else 0) + bytes_of ty M"
  "bytes_of ty (M + N) = bytes_of ty M + bytes_of ty N"
  by (simp_all add: bytes_of_def)

definition data_ops :: "sb_aio_oper_t multiset \<Rightarrow> bool" where
  "data_ops M \<longleftrightarrow> (\<forall>oper\<in>#M. ao_type oper = FILE_OP_TYPE_READ \<or> ao_type oper = FILE_OP_TYPE_WRITE)"

text \<open>What the completion of operations leaves alone.\<close>

definition aio_frame :: "('o, 'a) test_file_scheme \<Rightarrow> ('o, 'a) test_file_scheme \<Rightarrow> bool" where
  "aio_frame t t' \<longleftrightarrow> file_io_mode t' = file_io_mode t \<and> file_async_backlog t' = file_async_backlog t \<and> length (aio_ctxts t') = length (aio_ctxts t) \<and>
     map_option length (per_thread t') = map_option length (per_thread t)"

lemma aio_complete_ok:
  assumes "ao_type (ev_oper ev) = FILE_OP_TYPE_READ \<or> ao_type (ev_oper ev) = FILE_OP_TYPE_WRITE" and "ev_res ev = ao_len (ev_oper ev)"
  defines "len \<equiv> ao_len (ev_oper ev)"
  shows "aio_complete ev t = Inr (if ao_type (ev_oper ev) = FILE_OP_TYPE_READ then add_read len t else add_write len t)"
  using assms(1,2) by (auto simp: aio_complete_def add_read_def add_write_def len_def)

lemma complete_events_ok:
  assumes "data_ops (mset (map ev_oper evs))" and "\<forall>ev\<in>set evs. ev_res ev = ao_len (ev_oper ev)" and "i < length (aio_ctxts (snd s))"
  shows "\<exists>t'. complete_events i evs s = Inr (0, (fst s, t')) \<and> aio_frame (snd s) t' \<and> fl_os t' = fl_os (snd s) \<and> per_thread t' = per_thread (snd s) \<and>
    nrequests (aio_ctxts t' ! i) = nrequests (aio_ctxts (snd s) ! i) - of_nat (length evs) \<and>
    bytes_read t' = bytes_read (snd s) + bytes_of FILE_OP_TYPE_READ (mset (map ev_oper evs)) \<and>
    bytes_written t' = bytes_written (snd s) + bytes_of FILE_OP_TYPE_WRITE (mset (map ev_oper evs))"
  using assms
proof (induction evs arbitrary: s)
  case Nil
  then show ?case by (intro exI [of _ "snd s"]) (simp add: aio_frame_def)
next
  case (Cons ev evs)
  let ?op = "ev_oper ev" and ?t = "snd s"
  define t1 where "t1 = (if ao_type ?op = FILE_OP_TYPE_READ then add_read (ao_len ?op) ?t else add_write (ao_len ?op) ?t)"
  have ty: "ao_type ?op = FILE_OP_TYPE_READ \<or> ao_type ?op = FILE_OP_TYPE_WRITE" "ev_res ev = ao_len ?op"
    using Cons.prems(1,2) by (simp_all add: data_ops_def)
  have c: "aio_complete ev ?t = Inr t1"
    unfolding t1_def by (rule aio_complete_ok [OF ty])
  have t1: "aio_frame ?t t1" "fl_os t1 = fl_os ?t" "per_thread t1 = per_thread ?t" "aio_ctxts t1 = aio_ctxts ?t"
    by (simp_all add: t1_def add_read_def add_write_def aio_frame_def)
  have b1: "bytes_read t1 = bytes_read ?t + (if ao_type ?op = FILE_OP_TYPE_READ then word_of_int (ao_len ?op) else 0)"
      "bytes_written t1 = bytes_written ?t + (if ao_type ?op = FILE_OP_TYPE_WRITE then word_of_int (ao_len ?op) else 0)"
    using ty(1) by (auto simp: t1_def add_read_def add_write_def)
  let ?t2 = "set_nrequests i (nrequests (aio_ctxts t1 ! i) - 1) t1"
  have t2: "aio_frame t1 ?t2" "fl_os ?t2 = fl_os t1" "per_thread ?t2 = per_thread t1" "bytes_read ?t2 = bytes_read t1" "bytes_written ?t2 = bytes_written t1"
      "nrequests (aio_ctxts ?t2 ! i) = nrequests (aio_ctxts ?t ! i) - 1" "i < length (aio_ctxts ?t2)"
    using Cons.prems(3) t1(4) by (simp_all add: set_nrequests_def aio_frame_def)
  have IH: "data_ops (mset (map ev_oper evs))" "\<forall>ev\<in>set evs. ev_res ev = ao_len (ev_oper ev)" "i < length (aio_ctxts (snd (fst s, ?t2)))"
    using Cons.prems(1,2) t2(7) by (simp_all add: data_ops_def)
  from Cons.IH [OF IH] obtain t' where t': "complete_events i evs (fst s, ?t2) = Inr (0, (fst s, t'))" "aio_frame ?t2 t'"
      "fl_os t' = fl_os ?t2" "per_thread t' = per_thread ?t2"
      "nrequests (aio_ctxts t' ! i) = nrequests (aio_ctxts ?t2 ! i) - of_nat (length evs)"
      "bytes_read t' = bytes_read ?t2 + bytes_of FILE_OP_TYPE_READ (mset (map ev_oper evs))"
      "bytes_written t' = bytes_written ?t2 + bytes_of FILE_OP_TYPE_WRITE (mset (map ev_oper evs))"
    unfolding fst_conv snd_conv by blast
  have "complete_events i (ev # evs) s = Inr (0, (fst s, t'))"
    using c t'(1) by simp
  moreover have "aio_frame ?t t'"
    using t1(1) t2(1) t'(2) by (simp add: aio_frame_def)
  moreover have "nrequests (aio_ctxts t' ! i) = nrequests (aio_ctxts ?t ! i) - of_nat (length (ev # evs))"
    unfolding t'(5) t2(6) by (simp add: diff_diff_eq)
  moreover have "bytes_read t' = bytes_read ?t + bytes_of FILE_OP_TYPE_READ (mset (map ev_oper (ev # evs)))"
      "bytes_written t' = bytes_written ?t + bytes_of FILE_OP_TYPE_WRITE (mset (map ev_oper (ev # evs)))"
    unfolding t'(6,7) t2(4,5) b1 by simp_all
  ultimately show ?case
    using t1(2,3) t2(2,3) t'(3,4) by (intro exI [of _ t']) simp
qed

text \<open>The operations of a thread that are pending, and the invariant of its context.\<close>

abbreviation pending_of :: "('o \<Rightarrow> nat \<Rightarrow> sb_aio_oper_t multiset) \<Rightarrow> nat \<Rightarrow> ('o, 'a) test_file_scheme st \<Rightarrow> sb_aio_oper_t multiset" where
  "pending_of pending i s \<equiv> pending (fl_os (snd s)) i"

definition aio_inv :: "('o \<Rightarrow> nat \<Rightarrow> sb_aio_oper_t multiset) \<Rightarrow> nat \<Rightarrow> ('o, 'a) test_file_scheme st \<Rightarrow> bool" where
  "aio_inv pending i s \<longleftrightarrow>
     file_io_mode (snd s) = FILE_IO_MODE_ASYNC \<and> i < length (aio_ctxts (snd s)) \<and>
     (\<exists>ps. per_thread (snd s) = Some ps \<and> i < length ps) \<and> os_mem (pg_opts (fst s)) = [] \<and>
     nrequests (aio_ctxts (snd s) ! i) = of_nat (size (pending_of pending i s)) \<and> data_ops (pending_of pending i s) \<and>
     size (pending_of pending i s) \<le> unat (file_async_backlog (snd s))"

text \<open>Bytes transferred or still to be transferred by pending operations.\<close>

definition read_total :: "('o \<Rightarrow> nat \<Rightarrow> sb_aio_oper_t multiset) \<Rightarrow> nat \<Rightarrow> ('o, 'a) test_file_scheme st \<Rightarrow> u64" where
  "read_total pending i s = bytes_read (snd s) + bytes_of FILE_OP_TYPE_READ (pending_of pending i s)"

definition write_total :: "('o \<Rightarrow> nat \<Rightarrow> sb_aio_oper_t multiset) \<Rightarrow> nat \<Rightarrow> ('o, 'a) test_file_scheme st \<Rightarrow> u64" where
  "write_total pending i s = bytes_written (snd s) + bytes_of FILE_OP_TYPE_WRITE (pending_of pending i s)"

definition totals_kept :: "('o \<Rightarrow> nat \<Rightarrow> sb_aio_oper_t multiset) \<Rightarrow> nat \<Rightarrow> ('o, 'a) test_file_scheme st \<Rightarrow> ('o, 'a) test_file_scheme st \<Rightarrow> bool" where
  "totals_kept pending i s s' \<longleftrightarrow>
     read_total pending i s' = read_total pending i s \<and> write_total pending i s' = write_total pending i s \<and>
     file_async_backlog (snd s') = file_async_backlog (snd s)"

lemma getevents_ok:
  assumes "aio_ok os pending" and "0 < n" and "n \<le> int (size (pending d i))"
  obtains evs b' d' where "os_getevents os i n backlog b d = ((evs, b'), d')" and "n \<le> int (length evs)"
    and "pending d i = mset (map ev_oper evs) + pending d' i" and "\<forall>ev\<in>set evs. ev_res ev = ao_len (ev_oper ev)"
  using assms unfolding aio_ok_def by blast

lemma submit_ok:
  assumes "aio_ok os pending"
  obtains b' d' where "os_submit os i oper b d = ((1, b'), d')" and "pending d' i = add_mset oper (pending d i)"
  using assms unfolding aio_ok_def by blast

lemma file_wait_ok:
  assumes os: "aio_ok os pending" and inv: "aio_inv pending i s" and n: "0 < n" "n \<le> int (size (pending_of pending i s))"
  shows "\<exists>s'. file_wait os i n s = Inr (0, s') \<and> aio_inv pending i s' \<and> totals_kept pending i s s' \<and>
    int (size (pending_of pending i s')) \<le> int (size (pending_of pending i s)) - n"
proof -
  let ?t = "snd s" and ?P = "pending_of pending i s"
  obtain ps where ps: "per_thread ?t = Some ps" "i < length ps"
    using inv by (auto simp: aio_inv_def)
  have a: "i < length (aio_ctxts ?t)" "nrequests (aio_ctxts ?t ! i) = of_nat (size ?P)" "data_ops ?P"
      "size ?P \<le> unat (file_async_backlog ?t)" "file_io_mode ?t = FILE_IO_MODE_ASYNC" "os_mem (pg_opts (fst s)) = []"
    using inv by (simp_all add: aio_inv_def)
  let ?b = "pt_buffer (ps ! i)"
  obtain evs b' d' where ev: "os_getevents os i n (file_async_backlog ?t) ?b (fl_os ?t) = ((evs, b'), d')"
      "n \<le> int (length evs)" "?P = mset (map ev_oper evs) + pending d' i" "\<forall>ev\<in>set evs. ev_res ev = ao_len (ev_oper ev)"
    by (rule getevents_ok [OF os n]) blast
  let ?ps = "ps[i := (ps ! i)\<lparr>pt_buffer := b'\<rparr>]"
  let ?s1 = "(fst s, ?t\<lparr>fl_os := d', per_thread := Some ?ps\<rparr>)"
  have ne: "evs \<noteq> []" using ev(2) n(1) by auto
  have w: "file_wait os i n s = complete_events i evs ?s1"
    using a(1) ps ev(1) ne by (simp add: file_wait_def thread_buffer_def sys_def set_buffer_def upd_t_def)
  have "data_ops (mset (map ev_oper evs))" "i < length (aio_ctxts (snd ?s1))"
    using a(1,3) ev(3) by (auto simp: data_ops_def)
  from complete_events_ok [OF this(1) ev(4) this(2)] obtain t' where t': "complete_events i evs ?s1 = Inr (0, (fst s, t'))"
      "aio_frame (snd ?s1) t'" "fl_os t' = d'" "per_thread t' = Some ?ps"
      "nrequests (aio_ctxts t' ! i) = nrequests (aio_ctxts ?t ! i) - of_nat (length evs)"
      "bytes_read t' = bytes_read ?t + bytes_of FILE_OP_TYPE_READ (mset (map ev_oper evs))"
      "bytes_written t' = bytes_written ?t + bytes_of FILE_OP_TYPE_WRITE (mset (map ev_oper evs))"
    by auto
  have sz: "size ?P = length evs + size (pending d' i)"
    unfolding ev(3) by simp
  have fr: "file_io_mode t' = FILE_IO_MODE_ASYNC" "file_async_backlog t' = file_async_backlog ?t" "i < length (aio_ctxts t')"
    using t'(2) a(1,5) by (simp_all add: aio_frame_def)
  have "aio_inv pending i (fst s, t')"
    using fr t'(3,4,5) a(2,3,4,6) sz ps(2) ev(3) unfolding aio_inv_def
    by (auto simp: data_ops_def)
  moreover have "totals_kept pending i s (fst s, t')"
    using t'(3,6,7) fr(2) by (simp add: totals_kept_def read_total_def write_total_def ev(3))
  ultimately show ?thesis
    using w t'(1,3) sz ev(2) by (intro exI [of _ "(fst s, t')"]) simp
qed

lemma s_malloc_ok: "os_mem (pg_opts (fst s)) = [] \<Longrightarrow> s_malloc s = (True, s)"
  by (cases s, cases "fst s", cases "pg_opts (fst s)") (auto simp: s_malloc_def)

lemma file_submit_ok:
  assumes os: "aio_ok os pending" and inv: "aio_inv pending i s" and room: "size (pending_of pending i s) < unat (file_async_backlog (snd s))"
    and ty: "ty = FILE_OP_TYPE_READ \<or> ty = FILE_OP_TYPE_WRITE"
  shows "\<exists>s'. file_submit_or_wait os cb ty len i s = Inr (0, s') \<and> aio_inv pending i s' \<and>
    size (pending_of pending i s') < unat (file_async_backlog (snd s')) \<and> file_async_backlog (snd s') = file_async_backlog (snd s) \<and>
    read_total pending i s' = read_total pending i s + (if ty = FILE_OP_TYPE_READ then word_of_int len else 0) \<and>
    write_total pending i s' = write_total pending i s + (if ty = FILE_OP_TYPE_WRITE then word_of_int len else 0)"
proof -
  let ?t = "snd s" and ?P = "pending_of pending i s"
  obtain ps where ps: "per_thread ?t = Some ps" "i < length ps"
    using inv by (auto simp: aio_inv_def)
  have a: "i < length (aio_ctxts ?t)" "nrequests (aio_ctxts ?t ! i) = of_nat (size ?P)" "data_ops ?P"
      "file_io_mode ?t = FILE_IO_MODE_ASYNC" "os_mem (pg_opts (fst s)) = []"
    using inv by (simp_all add: aio_inv_def)
  let ?oper = "\<lparr>ao_iocb = cb, ao_type = ty, ao_len = len\<rparr>"
  obtain b' d' where sub: "os_submit os i ?oper (pt_buffer (ps ! i)) (fl_os ?t) = ((1, b'), d')" "pending d' i = add_mset ?oper ?P"
    by (rule submit_ok [OF os]) blast
  let ?ps = "ps[i := (ps ! i)\<lparr>pt_buffer := b'\<rparr>]"
  let ?t1 = "?t\<lparr>fl_os := d', per_thread := Some ?ps\<rparr>"
  let ?s1 = "(fst s, set_nrequests i (nrequests (aio_ctxts ?t ! i) + 1) ?t1)"
  have step: "file_submit_or_wait os cb ty len i s =
      (if nrequests (aio_ctxts ?t ! i) + 1 < file_async_backlog ?t then Inr (0, ?s1) else file_wait os i 1 ?s1)"
    using a(1) ps sub(1) s_malloc_ok [OF a(5)]
    by (simp add: file_submit_or_wait_def thread_buffer_def sys_def set_buffer_def upd_t_def set_nrequests_def)
  have f1: "pending_of pending i ?s1 = add_mset ?oper ?P" "file_async_backlog (snd ?s1) = file_async_backlog ?t"
      "nrequests (aio_ctxts (snd ?s1) ! i) = of_nat (size ?P) + 1" "file_io_mode (snd ?s1) = FILE_IO_MODE_ASYNC"
      "i < length (aio_ctxts (snd ?s1))" "per_thread (snd ?s1) = Some ?ps" "bytes_read (snd ?s1) = bytes_read ?t"
      "bytes_written (snd ?s1) = bytes_written ?t"
    using a(1,2,4) sub(2) by (simp_all add: set_nrequests_def)
  have inv1: "aio_inv pending i ?s1"
    unfolding aio_inv_def f1 using f1(5) a(3,5) room ps(2) ty by (simp add: data_ops_def)
  have tot1: "read_total pending i ?s1 = read_total pending i s + (if ty = FILE_OP_TYPE_READ then word_of_int len else 0)"
      "write_total pending i ?s1 = write_total pending i s + (if ty = FILE_OP_TYPE_WRITE then word_of_int len else 0)"
    unfolding read_total_def write_total_def f1 by simp_all
  show ?thesis
  proof (cases "nrequests (aio_ctxts ?t ! i) + 1 < file_async_backlog ?t")
    case True
    have "size ?P + 1 < 2 ^ 32"
      using room unsigned_less [of "file_async_backlog ?t", where ?'a = nat] by simp
    then have "unat (nrequests (aio_ctxts ?t ! i) + 1) = size ?P + 1"
      using unat_of_nat_u32 [of "size ?P + 1"] unfolding a(2) by (simp add: add.commute)
    then have "size (pending_of pending i ?s1) < unat (file_async_backlog (snd ?s1))"
      using True unfolding f1 by (simp add: word_less_nat_alt)
    then show ?thesis
      using step True inv1 tot1 f1(2) by (intro exI [of _ ?s1]) simp
  next
    case False
    have "(0 :: int) < 1" "1 \<le> int (size (pending_of pending i ?s1))"
      unfolding f1 by simp_all
    from file_wait_ok [OF os inv1 this] obtain s' where s': "file_wait os i 1 ?s1 = Inr (0, s')" "aio_inv pending i s'"
        "totals_kept pending i ?s1 s'" "int (size (pending_of pending i s')) \<le> int (size (pending_of pending i ?s1)) - 1"
      by blast
    have "size (pending_of pending i s') \<le> size ?P"
      using s'(4) unfolding f1 by simp
    moreover have "file_async_backlog (snd s') = file_async_backlog ?t"
      using s'(3) f1(2) by (simp add: totals_kept_def)
    ultimately show ?thesis
      using step False s'(1,2,3) room tot1 by (intro exI [of _ s']) (simp add: totals_kept_def)
  qed
qed

lemma file_thread_done_ok:
  assumes os: "aio_ok os pending" and inv: "aio_inv pending i s"
  shows "\<exists>s'. file_thread_done os i s = Inr (0, s') \<and> aio_inv pending i s' \<and> totals_kept pending i s s' \<and> pending_of pending i s' = {#}"
proof -
  let ?n = "size (pending_of pending i s)"
  have a: "i < length (aio_ctxts (snd s))" "nrequests (aio_ctxts (snd s) ! i) = of_nat ?n" "file_io_mode (snd s) = FILE_IO_MODE_ASYNC"
      "?n \<le> unat (file_async_backlog (snd s))"
    using inv by (simp_all add: aio_inv_def)
  then have u: "unat (nrequests (aio_ctxts (snd s) ! i)) = ?n"
    using unsigned_less [of "file_async_backlog (snd s)", where ?'a = nat] unat_of_nat_u32 [of ?n] by simp
  then have u': "uint (nrequests (aio_ctxts (snd s) ! i)) = int ?n"
    by (metis uint_nat)
  show ?thesis
  proof (cases "?n = 0")
    case True
    then show ?thesis
      using a inv by (intro exI [of _ s]) (simp add: file_thread_done_def totals_kept_def)
  next
    case False
    then have "0 < int ?n" "int ?n \<le> int ?n" by linarith+
    from file_wait_ok [OF os inv this] obtain s' where s': "file_wait os i (int ?n) s = Inr (0, s')" "aio_inv pending i s'"
        "totals_kept pending i s s'" "int (size (pending_of pending i s')) \<le> int ?n - int ?n"
      by blast
    have "nrequests (aio_ctxts (snd s) ! i) > 0"
      using u False by (simp add: word_less_nat_alt nonempty_has_size)
    then show ?thesis
      using a(1,3) s' u' by (intro exI [of _ s']) (simp add: file_thread_done_def)
  qed
qed

text \<open>A thread that submits operations, each a prepared operation, its kind and its length, and one that ends after that.\<close>

fun submit_each :: "'o file_os \<Rightarrow> nat \<Rightarrow> (iocb \<times> sb_file_op_t \<times> int) list \<Rightarrow> ('o, 'a) test_file_scheme op" where
  "submit_each os i [] s = Inr (0, s)"
| "submit_each os i ((cb, ty, len) # xs) s = sthen (file_submit_or_wait os cb ty len i) (submit_each os i xs) s"

definition submit_all :: "'o file_os \<Rightarrow> nat \<Rightarrow> (iocb \<times> sb_file_op_t \<times> int) list \<Rightarrow> ('o, 'a) test_file_scheme op" where
  "submit_all os i xs = sthen (submit_each os i xs) (file_thread_done os i)"

lemma submit_each_ok:
  assumes "aio_ok os pending" and "aio_inv pending i s" and "size (pending_of pending i s) < unat (file_async_backlog (snd s))"
    and "\<forall>(cb, ty, len)\<in>set xs. ty = FILE_OP_TYPE_READ \<or> ty = FILE_OP_TYPE_WRITE"
  shows "\<exists>s'. submit_each os i xs s = Inr (0, s') \<and> aio_inv pending i s' \<and>
    size (pending_of pending i s') < unat (file_async_backlog (snd s)) \<and>
    read_total pending i s' = read_total pending i s + (\<Sum>(cb, ty, len)\<leftarrow>xs. if ty = FILE_OP_TYPE_READ then word_of_int len else 0) \<and>
    write_total pending i s' = write_total pending i s + (\<Sum>(cb, ty, len)\<leftarrow>xs. if ty = FILE_OP_TYPE_WRITE then word_of_int len else 0)"
  using assms(2-)
proof (induction xs arbitrary: s)
  case (Cons x xs)
  obtain cb ty len where x: "x = (cb, ty, len)" by (cases x)
  have ty: "ty = FILE_OP_TYPE_READ \<or> ty = FILE_OP_TYPE_WRITE" and xs: "\<forall>(cb, ty, len)\<in>set xs. ty = FILE_OP_TYPE_READ \<or> ty = FILE_OP_TYPE_WRITE"
    using Cons.prems(3) x by auto
  from file_submit_ok [OF assms(1) Cons.prems(1,2) ty, of cb len] obtain s1 where
    s1: "file_submit_or_wait os cb ty len i s = Inr (0, s1)" "aio_inv pending i s1"
      "size (pending_of pending i s1) < unat (file_async_backlog (snd s1))" "file_async_backlog (snd s1) = file_async_backlog (snd s)"
      "read_total pending i s1 = read_total pending i s + (if ty = FILE_OP_TYPE_READ then word_of_int len else 0)"
      "write_total pending i s1 = write_total pending i s + (if ty = FILE_OP_TYPE_WRITE then word_of_int len else 0)"
    by blast
  from Cons.IH [OF s1(2,3) xs] obtain s' where "submit_each os i xs s1 = Inr (0, s')" "aio_inv pending i s'"
      "size (pending_of pending i s') < unat (file_async_backlog (snd s1))"
      "read_total pending i s' = read_total pending i s1 + (\<Sum>(cb, ty, len)\<leftarrow>xs. if ty = FILE_OP_TYPE_READ then word_of_int len else 0)"
      "write_total pending i s' = write_total pending i s1 + (\<Sum>(cb, ty, len)\<leftarrow>xs. if ty = FILE_OP_TYPE_WRITE then word_of_int len else 0)"
    by blast
  then show ?case
    using s1(1,4-6) x by (intro exI [of _ s']) (simp add: sthen_ok add.assoc)
qed simp

text \<open>
  (C23) Asynchronous operations are all waited for and counted: with a library that loses no operation, a thread that submits any operations and ends
  never fails, has less than the backlog pending after each submission, has nothing pending at its end, and has
  counted the bytes of every operation exactly once, those pending before included.
\<close>

theorem async_operations_accounted:
  assumes "aio_ok os pending" and "aio_inv pending i s" and "size (pending_of pending i s) < unat (file_async_backlog (snd s))"
    and "\<forall>(cb, ty, len)\<in>set xs. ty = FILE_OP_TYPE_READ \<or> ty = FILE_OP_TYPE_WRITE"
  shows "(\<forall>k\<le>length xs. \<exists>s1. submit_each os i (take k xs) s = Inr (0, s1) \<and>
      nrequests (aio_ctxts (snd s1) ! i) = of_nat (size (pending_of pending i s1)) \<and>
      size (pending_of pending i s1) < unat (file_async_backlog (snd s))) \<and>
    (\<exists>s'. submit_all os i xs s = Inr (0, s') \<and> nrequests (aio_ctxts (snd s') ! i) = 0 \<and> pending_of pending i s' = {#} \<and>
    bytes_read (snd s') = read_total pending i s + (\<Sum>(cb, ty, len)\<leftarrow>xs. if ty = FILE_OP_TYPE_READ then word_of_int len else 0) \<and>
    bytes_written (snd s') = write_total pending i s + (\<Sum>(cb, ty, len)\<leftarrow>xs. if ty = FILE_OP_TYPE_WRITE then word_of_int len else 0))"
proof (intro conjI allI impI)
  fix k
  have "\<forall>(cb, ty, len)\<in>set (take k xs). ty = FILE_OP_TYPE_READ \<or> ty = FILE_OP_TYPE_WRITE"
    using assms(4) by (auto dest: in_set_takeD)
  from submit_each_ok [OF assms(1-3) this] show "\<exists>s1. submit_each os i (take k xs) s = Inr (0, s1) \<and>
      nrequests (aio_ctxts (snd s1) ! i) = of_nat (size (pending_of pending i s1)) \<and>
      size (pending_of pending i s1) < unat (file_async_backlog (snd s))"
    by (auto simp: aio_inv_def)
next
  from submit_each_ok [OF assms] obtain s1 where s1: "submit_each os i xs s = Inr (0, s1)" "aio_inv pending i s1"
      "read_total pending i s1 = read_total pending i s + (\<Sum>(cb, ty, len)\<leftarrow>xs. if ty = FILE_OP_TYPE_READ then word_of_int len else 0)"
      "write_total pending i s1 = write_total pending i s + (\<Sum>(cb, ty, len)\<leftarrow>xs. if ty = FILE_OP_TYPE_WRITE then word_of_int len else 0)"
    by blast
  from file_thread_done_ok [OF assms(1) s1(2)] obtain s' where
    s': "file_thread_done os i s1 = Inr (0, s')" "aio_inv pending i s'" "totals_kept pending i s1 s'" "pending_of pending i s' = {#}"
    by blast
  have "bytes_read (snd s') = read_total pending i s'" "bytes_written (snd s') = write_total pending i s'" "nrequests (aio_ctxts (snd s') ! i) = 0"
    using s'(2,4) by (simp_all add: read_total_def write_total_def aio_inv_def)
  then show "\<exists>s'. submit_all os i xs s = Inr (0, s') \<and> nrequests (aio_ctxts (snd s') ! i) = 0 \<and> pending_of pending i s' = {#} \<and>
    bytes_read (snd s') = read_total pending i s + (\<Sum>(cb, ty, len)\<leftarrow>xs. if ty = FILE_OP_TYPE_READ then word_of_int len else 0) \<and>
    bytes_written (snd s') = write_total pending i s + (\<Sum>(cb, ty, len)\<leftarrow>xs. if ty = FILE_OP_TYPE_WRITE then word_of_int len else 0)"
    using s1(1,3,4) s'(1,3,4) by (intro exI [of _ s']) (simp add: submit_all_def sthen_ok totals_kept_def)
qed

section \<open>A device without errors\<close>

text \<open>
  A device whose state is the byte stored for every descriptor and position, and the queue of asynchronous operations
  of every thread, which complete when they are waited for; its files start empty.
\<close>

record disk =
  d_bytes :: "int \<Rightarrow> int \<Rightarrow> u8"
  d_queue :: "nat \<Rightarrow> sb_aio_oper_t list"

definition disk_os :: "disk file_os" where
  "disk_os =
     \<lparr>os_open = (\<lambda>name flags d. (3, d)), os_unlink = (\<lambda>name d. d), os_close = (\<lambda>fd d. d), os_lseek_end = (\<lambda>fd d. (0, d)),
      os_write = (\<lambda>fd b n d. (n, d)), os_fsync = (\<lambda>fd d. (0, d)), os_fdatasync = (\<lambda>fd d. (0, d)),
      os_pread = (\<lambda>fd b n off d. ((n, map_option (\<lambda>b. map (\<lambda>k. d_bytes d fd (off + int k)) [0..<nat n] @ drop (nat n) b) b), d)),
      os_pwrite = (\<lambda>fd b n off d. (n, d\<lparr>d_bytes := \<lambda>g q. if g = fd \<and> off \<le> q \<and> q < off + n then the b ! nat (q - off) else d_bytes d g q\<rparr>)),
      os_ftruncate = (\<lambda>fd n d. (0, d)), os_mmap = (\<lambda>fd n d. (Some 0, d)), os_munmap = (\<lambda>m n d. d), os_msync = (\<lambda>m n d. (0, d)),
      os_map_read = (\<lambda>m off n d. None), os_map_write = (\<lambda>m off b d. None),
      os_queue_init = (\<lambda>i n d. (0, d)), os_queue_release = (\<lambda>i d. d),
      os_submit = (\<lambda>i oper b d. ((1, b), d\<lparr>d_queue := (d_queue d)(i := d_queue d i @ [oper])\<rparr>)),
      os_getevents = (\<lambda>i n backlog b d.
        ((map (\<lambda>oper. \<lparr>ev_oper = oper, ev_res = ao_len oper\<rparr>) (take (nat n) (d_queue d i)), b),
         d\<lparr>d_queue := (d_queue d)(i := drop (nat n) (d_queue d i))\<rparr>)),
      os_error = (\<lambda>d. (0, [])), os_buf_addr = (\<lambda>i. of_nat (4096 * i))\<rparr>"

definition empty_disk :: disk where
  "empty_disk = \<lparr>d_bytes = \<lambda>fd q. 0, d_queue = \<lambda>i. []\<rparr>"

lemma disk_storage: "storage_ok disk_os d_bytes"
  by (simp add: storage_ok_def disk_os_def)

lemma disk_aio: "aio_ok disk_os (\<lambda>d i. mset (d_queue d i))"
  unfolding aio_ok_def
proof (intro conjI allI impI)
  fix i n backlog b and d :: disk
  assume "0 < n" and "n \<le> int (size (mset (d_queue d i)))"
  then show "\<exists>evs b' d'. os_getevents disk_os i n backlog b d = ((evs, b'), d') \<and> n \<le> int (length evs) \<and>
      mset (d_queue d i) = mset (map ev_oper evs) + mset (d_queue d' i) \<and> (\<forall>ev\<in>set evs. ev_res ev = ao_len (ev_oper ev))"
    by (simp add: disk_os_def multiset.map_comp comp_def) (metis append_take_drop_id mset_append)
qed (simp add: disk_os_def)

lemma sample_file_ready:
  "file_ready fp_exact (validating (worker_prog 0), (file_sample d)\<lparr>f_percentile := Some sample_percentile\<rparr>)"
  using worker_prog_ready(2) [of 0 0] sample_percentile_wf fp_exact_ok
  by (simp add: file_ready_def validating_def thread_ready_def oper_ready_def logger_ready_def file_sample_def buffers_ok_def)

lemma written_blocks_validate_witness:
  "\<exists>s'. exec_requests disk_os fp_exact
       [(0, \<lparr>file_id = 1, pos = 32, rsize = 16, operation = FILE_OP_TYPE_WRITE\<rparr>),
        (1, \<lparr>file_id = 1, pos = 32, rsize = 16, operation = FILE_OP_TYPE_READ\<rparr>)]
       (validating (worker_prog 0), (file_sample empty_disk)\<lparr>f_percentile := Some sample_percentile\<rparr>) = Inr (0, s') \<and>
     bytes_read (snd s') = 16 \<and> bytes_written (snd s') = 16"
  using written_blocks_validate [OF disk_storage sample_file_ready, of empty_disk _
      "[(0, \<lparr>file_id = 1, pos = 32, rsize = 16, operation = FILE_OP_TYPE_WRITE\<rparr>),
        (1, \<lparr>file_id = 1, pos = 32, rsize = 16, operation = FILE_OP_TYPE_READ\<rparr>)]"]
  by (simp add: file_sample_def block_request_def is_read_def)

definition sample_async :: "disk test_file st" where
  "sample_async = (worker_prog 0, (file_sample empty_disk)\<lparr>file_io_mode := FILE_IO_MODE_ASYNC, aio_ctxts := [\<lparr>nrequests = 0\<rparr>]\<rparr>)"

definition sample_opers :: "(iocb \<times> sb_file_op_t \<times> int) list" where
  "sample_opers = [(Prep_pwrite 3 16 0, FILE_OP_TYPE_WRITE, 16), (Prep_pread 3 16 0, FILE_OP_TYPE_READ, 16), (Prep_pread 3 16 16, FILE_OP_TYPE_READ, 16)]"

lemma async_operations_accounted_witness:
  "\<exists>s1 s'. submit_each disk_os 0 (take 2 sample_opers) sample_async = Inr (0, s1) \<and> length (d_queue (fl_os (snd s1)) 0) < 2 \<and>
     submit_all disk_os 0 sample_opers sample_async = Inr (0, s') \<and>
     nrequests (aio_ctxts (snd s') ! 0) = 0 \<and> bytes_read (snd s') = 32 \<and> bytes_written (snd s') = 16"
proof -
  let ?p = "\<lambda>d i. mset (d_queue d i)"
  have h: "aio_inv ?p 0 sample_async" "size (pending_of ?p 0 sample_async) < unat (file_async_backlog (snd sample_async))"
      "\<forall>(cb, ty, len)\<in>set sample_opers. ty = FILE_OP_TYPE_READ \<or> ty = FILE_OP_TYPE_WRITE"
    by (auto simp: sample_async_def sample_opers_def aio_inv_def file_sample_def empty_disk_def data_ops_def worker_prog_def sample_world_def empty_opts_def)
  note T = async_operations_accounted [OF disk_aio h]
  have sums: "(\<Sum>(cb, ty, len)\<leftarrow>sample_opers. if ty = FILE_OP_TYPE_READ then word_of_int len else 0) = (32 :: u64)"
      "(\<Sum>(cb, ty, len)\<leftarrow>sample_opers. if ty = FILE_OP_TYPE_WRITE then word_of_int len else 0) = (16 :: u64)"
    by (simp_all add: sample_opers_def)
  have v: "unat (file_async_backlog (snd sample_async)) = 2" "read_total ?p 0 sample_async = 0" "write_total ?p 0 sample_async = 0" "2 \<le> length sample_opers"
    by (simp_all add: sample_async_def sample_opers_def file_sample_def empty_disk_def read_total_def write_total_def)
  show ?thesis
    using conjunct1 [OF T, rule_format, OF v(4)] conjunct2 [OF T] v(1-3) sums by auto
qed

section \<open>The creation of the files ends\<close>

text \<open>What the creation relies on: a logger, a block size, and the buffer of the first thread, long enough for a block when it is filled.\<close>

definition create_ready :: "('o, 'a) test_file_scheme st \<Rightarrow> bool" where
  "create_ready s \<longleftrightarrow>
     logger_ready (pg_w (fst s)) \<and> 0 < file_block_size (snd s) \<and>
     (\<exists>p ps. per_thread (snd s) = Some (p # ps) \<and>
        (g_validate (s_globals s) \<longrightarrow> 12 \<le> file_block_size (snd s) \<and> file_block_size (snd s) < 2 ^ 32 \<and>
           (\<exists>b. pt_buffer p = Some b \<and> nat (file_block_size (snd s)) \<le> length b)))"

definition create_frame :: "('o, 'a) test_file_scheme st \<Rightarrow> ('o, 'a) test_file_scheme st \<Rightarrow> bool" where
  "create_frame s s' \<longleftrightarrow> create_ready s' \<and> file_size (snd s') = file_size (snd s) \<and> file_block_size (snd s') = file_block_size (snd s) \<and>
     num_files (snd s') = num_files (snd s)"

lemma create_frame_trans: "create_frame s s' \<Longrightarrow> create_frame s' s'' \<Longrightarrow> create_frame s s''"
  by (simp add: create_frame_def)

lemma create_ready_os [simp]: "create_ready (pg, t\<lparr>fl_os := d\<rparr>) = create_ready (pg, t)"
  by (simp add: create_ready_def)

lemma create_sys:
  assumes "create_ready s"
  shows "create_frame s (snd (sys f s))" and "create_frame s (sys_do g s)"
  using assms by (cases s; simp add: sys_def upd_t_def create_frame_def case_prod_unfold)+

lemma create_ready_world:
  assumes "create_ready s" and "text_frame (pg_w (fst s)) w"
  shows "create_frame s ((fst s)\<lparr>pg_w := w\<rparr>, snd s)"
  using assms text_frame_ready [OF assms(2)] by (simp add: create_frame_def create_ready_def text_frame_def)

lemma create_log:
  assumes "create_ready s"
  shows "\<exists>s'. s_log p m s = Inr s' \<and> create_frame s s'"
proof -
  have "logger_ready (pg_w (fst s))" using assms by (simp add: create_ready_def)
  then show ?thesis
    using create_ready_world [OF assms text_handler_process_frame [of _ p "log_buffer m" False]]
    by (simp add: s_log_def p_log_def log_text_ready)
qed

lemma create_log_reqs:
  assumes "create_ready s"
  shows "\<exists>s'. s_world (log_reqs msgs) s = Inr s' \<and> create_frame s s'"
proof -
  have "logger_ready (pg_w (fst s))" using assms by (simp add: create_ready_def)
  then obtain w where "log_reqs msgs (pg_w (fst s)) = Inr w" "text_frame (pg_w (fst s)) w"
    using log_reqs_ready by blast
  then show ?thesis using create_ready_world [OF assms] by (simp add: s_world_def)
qed

lemma create_fail:
  assumes "create_ready s" and "length m < TEXT_BUFFER_SIZE"
  shows "\<exists>s'. file_fail os m s = Inr (1, s') \<and> create_frame s s'"
proof -
  have l: "logger_ready (pg_w (fst s))" using assms by (simp add: create_ready_def)
  obtain e str where e: "os_error os (fl_os (snd s)) = (e, str)" by (cases "os_error os (fl_os (snd s))")
  obtain w where "log_errno LOG_FATAL e str m (pg_w (fst s)) = Inr w" "text_frame (pg_w (fst s)) w"
    using l assms(2) text_handler_process_frame by (simp add: log_errno_def log_text_ready Let_def)
  then show ?thesis
    using create_ready_world [OF assms(1)] by (simp add: file_fail_def e s_world_def)
qed

lemma create_fill:
  assumes "create_ready s"
  shows "\<exists>s'. (if g_validate (s_globals s) then fill_thread_buffer os 0 (file_block_size (snd s)) off s else Inr (0, s)) = Inr (0, s') \<and>
           create_frame s s'"
proof (cases "g_validate (s_globals s)")
  case True
  then obtain p ps b where b: "per_thread (snd s) = Some (p # ps)" "12 \<le> file_block_size (snd s)" "file_block_size (snd s) < 2 ^ 32"
      "pt_buffer p = Some b" "nat (file_block_size (snd s)) \<le> length b"
    using assms by (auto simp: create_ready_def)
  obtain blk r' where blk: "file_fill_buffer (os_buf_addr os 0) b (word_of_int (file_block_size (snd s))) (word_of_int off) (pg_rand (fst s)) = Inr (blk, r')"
      "length blk = length b"
    using fill_ok [OF b(5,2,3)] by blast
  let ?s = "((fst s)\<lparr>pg_rand := r'\<rparr>, (snd s)\<lparr>per_thread := Some (p\<lparr>pt_buffer := Some blk\<rparr> # ps)\<rparr>)"
  have "fill_thread_buffer os 0 (file_block_size (snd s)) off s = Inr (0, ?s)"
    using b(1,4) blk(1) by (simp add: fill_thread_buffer_def thread_buffer_def set_buffer_def upd_t_def)
  moreover have "create_frame s ?s"
    using assms b blk(2) by (simp add: create_frame_def create_ready_def)
  ultimately show ?thesis using True by auto
next
  case False
  then show ?thesis using assms by (simp add: create_frame_def)
qed

lemma create_tick:
  assumes "create_ready s" and "SB_GETTIME (pg_w (fst s)) = (now, w)"
  shows "create_ready ((fst s)\<lparr>pg_w := w\<rparr>, snd s)"
  using assms by (auto simp: create_ready_def SB_GETTIME_def logger_ready_def)

lemma write_blocks_ends:
  "create_ready s \<Longrightarrow> nat (file_size (snd s) - offset) < n \<Longrightarrow>
   \<exists>failed written' s'. write_blocks n os fd offset written s = Inr (failed, written', s') \<and> create_frame s s'"
proof (induction n arbitrary: offset written s)
  case (Suc n)
  show ?case
  proof (cases "offset < file_size (snd s)")
    case True
    obtain s1 where s1: "(if g_validate (s_globals s) then fill_thread_buffer os 0 (file_block_size (snd s)) offset s else Inr (0, s)) = Inr (0, s1)"
        "create_frame s s1"
      using create_fill [OF Suc.prems(1)] by blast
    have r1: "create_ready s1" using s1(2) by (simp add: create_frame_def)
    obtain b where b: "thread_buffer 0 s1 = Inr b"
      using r1 by (auto simp: create_ready_def thread_buffer_def)
    obtain rc s2 where s2: "sys (os_write os fd b (file_block_size (snd s1))) s1 = (rc, s2)" by (metis surj_pair)
    have f2: "create_frame s s2"
      using create_frame_trans [OF s1(2) create_sys(1) [OF r1, of "os_write os fd b (file_block_size (snd s1))"]] s2 by simp
    have step: "write_blocks (Suc n) os fd offset written s =
        (if rc < 0 then Inr (True, written, s2)
         else write_blocks n os fd (offset + file_block_size (snd s2)) (written + file_block_size (snd s2)) s2)"
      using True s1(1) b s2 by simp
    have fs: "file_size (snd s2) = file_size (snd s)" "0 < file_block_size (snd s2)"
      using f2 by (simp_all add: create_frame_def create_ready_def)
    have "nat (file_size (snd s2) - (offset + file_block_size (snd s2))) < n"
      using True Suc.prems(2) fs(2) unfolding fs(1) by arith
    then obtain failed written' s' where "write_blocks n os fd (offset + file_block_size (snd s2)) (written + file_block_size (snd s2)) s2 = Inr (failed, written', s')"
        "create_frame s2 s'"
      using Suc.IH [of s2] f2 unfolding create_frame_def [of s] by blast
    then show ?thesis
      using step f2 create_frame_trans by (cases "rc < 0") (simp_all del: write_blocks.simps, blast)
  next
    case False
    then show ?thesis
      using Suc.prems(1) by (intro exI [of _ False] exI [of _ written] exI [of _ s]) (simp add: create_frame_def)
  qed
qed simp

lemma create_file_ends:
  assumes s: "create_ready s" and fuel: "nat (file_size (snd s)) + 1 < fuel" and seek: "\<forall>fd d. - 1 \<le> fst (os_lseek_end os fd d)"
  shows "\<exists>rc written' s'. create_file fuel os i written s = Inr (rc, written', s') \<and> (rc = 0 \<or> rc = 1) \<and> create_frame s s'"
proof -
  let ?open = "os_open os (test_file_name i) ([O_CREAT, O_WRONLY] @ convert_extra_flags (file_extra_flags (snd s)))"
  obtain fd s1 where s1: "sys ?open s = (fd, s1)" by (metis surj_pair)
  have f1: "create_frame s s1" "create_ready s1"
    using create_sys(1) [OF s, of ?open] s1 by (simp_all add: create_frame_def)
  show ?thesis
  proof (cases "fd < 0")
    case True
    have "length (''Can'' @ [CHR 0x27] @ ''t open file'') < TEXT_BUFFER_SIZE" by (simp add: TEXT_BUFFER_SIZE_def)
    from create_fail [OF f1(2) this] obtain s2 where "file_fail os (''Can'' @ [CHR 0x27] @ ''t open file'') s1 = Inr (1, s2)" "create_frame s1 s2"
      by blast
    then show ?thesis
      using s1 True create_frame_trans [OF f1(1)] by (intro exI [of _ 1] exI [of _ written] exI [of _ s2]) (simp add: create_file_def)
  next
    case False
    obtain offset s2 where s2: "sys (os_lseek_end os fd) s1 = (offset, s2)" by (metis surj_pair)
    have f2: "create_frame s1 s2" "create_ready s2"
      using create_sys(1) [OF f1(2), of "os_lseek_end os fd"] s2 by (simp_all add: create_frame_def)
    have off: "- 1 \<le> offset"
    proof -
      have "fst (os_lseek_end os fd (fl_os (snd s1))) = offset"
        using s2 by (simp add: sys_def case_prod_unfold)
      then show ?thesis using seek by metis
    qed
    let ?what = "if offset \<ge> file_size (snd s2) then ''Reusing existing file '' else if offset > 0 then ''Extending existing file ''
                 else ''Creating file ''"
    obtain s3 where s3: "s_log LOG_NOTICE (?what @ test_file_name i) s2 = Inr s3" "create_frame s2 s3"
      using create_log [OF f2(2)] by blast
    have r3: "create_ready s3" using s3(2) by (simp add: create_frame_def)
    have "nat (file_size (snd s3) - offset) < fuel"
      using fuel off f1(1) f2(1) s3(2) by (simp add: create_frame_def)
    then obtain failed written' s4 where s4: "write_blocks fuel os fd offset written s3 = Inr (failed, written', s4)" "create_frame s3 s4"
      using write_blocks_ends [OF r3] by blast
    have f4: "create_frame s s4" "create_ready s4"
      using create_frame_trans [OF create_frame_trans [OF create_frame_trans [OF f1(1) f2(1)] s3(2)] s4(2)] s4(2) by (simp_all add: create_frame_def)
    show ?thesis
    proof (cases failed)
      case True
      have "length ''Failed to write file!'' < TEXT_BUFFER_SIZE" by (simp add: TEXT_BUFFER_SIZE_def)
      from create_fail [OF f4(2) this] obtain s5 where "file_fail os ''Failed to write file!'' s4 = Inr (1, s5)" "create_frame s4 s5"
        by blast
      moreover from this(2) have "create_frame s4 (sys_do (os_close os fd) s5)"
        using create_frame_trans create_sys(2) [of s5 "os_close os fd"] by (simp add: create_frame_def)
      ultimately show ?thesis
        using s1 False s2 s3(1) s4(1) True create_frame_trans [OF f4(1)]
        by (intro exI [of _ 1] exI [of _ written'] exI [of _ "sys_do (os_close os fd) s5"]) (simp add: create_file_def Let_def)
    next
      case nf: False
      obtain r s5 where s5: "sys (os_fsync os fd) s4 = (r, s5)" by (metis surj_pair)
      then have "create_frame s4 s5" "create_ready s5"
        using create_sys(1) [OF f4(2), of "os_fsync os fd"] by (simp_all add: create_frame_def)
      then have "create_frame s4 (sys_do (os_close os fd) s5)"
        using create_frame_trans create_sys(2) by blast
      then show ?thesis
        using s1 False s2 s3(1) s4(1) nf s5 create_frame_trans [OF f4(1)]
        by (intro exI [of _ 0] exI [of _ written'] exI [of _ "sys_do (os_close os fd) s5"]) (simp add: create_file_def Let_def)
    qed
  qed
qed

lemma create_loop_ends:
  assumes "\<forall>fd d. - 1 \<le> fst (os_lseek_end os fd d)"
  shows "create_ready s \<Longrightarrow> nat (file_size (snd s)) + 1 < fuel \<Longrightarrow>
    \<exists>rc written' s'. create_loop fuel os is written s = Inr (rc, written', s') \<and> (rc = 0 \<or> rc = 1) \<and> create_frame s s'"
proof (induction "is" arbitrary: written s)
  case (Cons i "is")
  obtain rc w1 s1 where s1: "create_file fuel os i written s = Inr (rc, w1, s1)" "rc = 0 \<or> rc = 1" "create_frame s s1"
    using create_file_ends [OF Cons.prems assms] by blast
  have r1: "create_ready s1" "nat (file_size (snd s1)) + 1 < fuel"
    using s1(3) Cons.prems(2) by (simp_all add: create_frame_def)
  show ?case
  proof (cases "rc = 0")
    case True
    then show ?thesis
      using Cons.IH [OF r1, of w1] s1 create_frame_trans [OF s1(3)] by fastforce
  next
    case False
    then show ?thesis using s1 by auto
  qed
qed (simp add: create_frame_def)

text \<open>
  (C39) The creation of the files ends, whatever the operating system answers: with fuel for one block of one byte per
  position of a file the loops over files and blocks finish, with the result 0 or 1, and without a fault.
\<close>

theorem create_files_ends:
  assumes "create_ready s" and "nat (file_size (snd s)) + 1 < fuel" and "\<forall>fd d. - 1 \<le> fst (os_lseek_end os fd d)"
  shows "\<exists>rc s'. create_files fuel fp os s = Inr (rc, s') \<and> (rc = 0 \<or> rc = 1)"
proof -
  let ?msgs = "[(LOG_NOTICE, print_int (sint (num_files (snd s))) @ '' files, '' @ print_int (file_size (snd s) div 1024) @ ''Kb each, ''
                      @ print_int (file_size (snd s) * uint (num_files (snd s)) div (1024 * 1024)) @ ''Mb total''),
         (LOG_NOTICE, ''Creating files for the test...''),
         (LOG_NOTICE, ''Extra file open flags: '' @ print_hex (flags_num (file_extra_flags (snd s))))]"
  obtain s1 where s1: "s_world (log_reqs ?msgs) s = Inr s1" "create_frame s s1"
    using create_log_reqs [OF assms(1)] by blast
  obtain start w where w: "SB_GETTIME (pg_w (fst s1)) = (start, w)" by fastforce
  let ?s2 = "((fst s1)\<lparr>pg_w := w\<rparr>, snd s1)"
  have r2: "create_ready ?s2" "nat (file_size (snd ?s2)) + 1 < fuel"
    using create_tick [OF _ w] s1(2) assms(2) by (simp_all add: create_frame_def)
  obtain rc written s3 where s3: "create_loop fuel os [0..<unat (num_files (snd s))] 0 ?s2 = Inr (rc, written, s3)" "rc = 0 \<or> rc = 1"
      "create_frame ?s2 s3"
    using create_loop_ends [OF assms(3) r2] by blast
  obtain now w' where w': "SB_GETTIME (pg_w (fst s3)) = (now, w')" by fastforce
  have "create_ready ((fst s3)\<lparr>pg_w := w'\<rparr>, snd s3)"
    using create_tick [OF _ w'] s3(3) by (simp add: create_frame_def)
  note log = create_log [OF this]
  show ?thesis
  proof (cases "rc = 0")
    case True
    let ?secs = "NS2SEC fp (TIMESPEC_DIFF now start)"
    let ?m = "if written > 0
                  then print_int written @ '' bytes written in '' @ fmt_f 0 2 ?secs @ '' seconds ('' @
                       fmt_rate fp 0 (fdiv fp (fp_round fp (real_of_int written)) MEGABYTE) ?secs @ '' MB/sec).''
                  else ''No bytes written.''"
    obtain s4 where "s_log LOG_NOTICE ?m ((fst s3)\<lparr>pg_w := w'\<rparr>, snd s3) = Inr s4"
      using log by blast
    then have "create_files fuel fp os s = Inr (0, s4)"
      using s1(1) w s3(1) w' True unfolding create_files_def Let_def by (simp del: log_reqs_Cons)
    then show ?thesis by simp
  next
    case False
    then have "create_files fuel fp os s = Inr (rc, s3)"
      using s1(1) w s3(1) unfolding create_files_def Let_def by simp
    then show ?thesis using s3(2) by simp
  qed
qed

lemma create_files_ends_witness:
  "\<exists>rc s'. create_files 66 fp_exact disk_os (validating (worker_prog 0), file_sample empty_disk) = Inr (rc, s') \<and> (rc = 0 \<or> rc = 1)"
  using sample_file_ready [of empty_disk]
  by (intro create_files_ends) (simp_all add: create_ready_def file_ready_def oper_ready_def file_sample_def disk_os_def numeral_2_eq_2)

end
