(* ===== verification/LuaApi.thy ===== *)
theory LuaApi
  imports Prelude CLib
begin

text \<open>
  The part of the Lua 5.1 interface that \<^verbatim>\<open>script_lua.c\<close> uses (\<^verbatim>\<open>lapi.c\<close>, \<^verbatim>\<open>lauxlib.c\<close>): values, the stack of the running
  function, globals and tables, the numbered references of the registry, userdata, errors and protected calls. A C function works
  on its own stack frame; the first element of the list is the bottom. An error is a value that unwinds to the next protected call.
  What a Lua function does is not decided by the program: its interaction with the program is a tree of calls of the exported
  functions. The garbage collector, the stack limit, metamethods and errors inside the interpreter (memory) are not modelled.
\<close>

section \<open>Values\<close>

datatype lua_fun = C_fun string | Lua_fun nat

datatype lua_value =
    LNil
  | LBool bool
  | LNumber real
  | LString string
  | LLight nat
  | LTable nat
  | LUserdata nat
  | LFunction lua_fun

fun lua_typename :: "lua_value option \<Rightarrow> string" where
  "lua_typename None = ''no value''"
| "lua_typename (Some LNil) = ''nil''"
| "lua_typename (Some (LBool b)) = ''boolean''"
| "lua_typename (Some (LNumber x)) = ''number''"
| "lua_typename (Some (LString s)) = ''string''"
| "lua_typename (Some (LLight a)) = ''userdata''"
| "lua_typename (Some (LTable a)) = ''table''"
| "lua_typename (Some (LUserdata a)) = ''userdata''"
| "lua_typename (Some (LFunction f)) = ''function''"

text \<open>What scripts see of the memory: the global variables, and the tables as lists of keys and values in the order in which they are traversed.\<close>

record lua_mem =
  lm_globals :: "string \<Rightarrow> lua_value"
  lm_tables :: "nat \<Rightarrow> (lua_value \<times> lua_value) list option"

text \<open>
  A Lua function that has been called: it returns values, raises an error, computes on the memory, or calls an exported function with
  arguments and goes on with the results, or with the error when it catches it.
\<close>

datatype script =
    Return "lua_value list"
  | Raise lua_value
  | Compute "lua_mem \<Rightarrow> lua_mem \<times> script"
  | Call string "lua_value list" "lua_value + lua_value list \<Rightarrow> script"

text \<open>
  A state of the interpreter; \<open>'u\<close> is the contents of userdata, which the name of its metatable comes with. \<open>ls_refs\<close>
  and \<open>ls_light\<close> are the entries of the registry with integer keys and with light userdata as keys.
\<close>

record 'u lua_state =
  ls_stack :: "lua_value list"
  ls_mem :: lua_mem
  ls_refs :: "int \<Rightarrow> lua_value"
  ls_light :: "nat \<Rightarrow> lua_value"
  ls_udata :: "nat \<Rightarrow> (string \<times> 'u) option"
  ls_next :: nat

text \<open>
  What comes from the interpreter and from the script: the conversions between numbers and strings, the position an error message begins
  with, the length of a table with the given integer keys, the memory and the value of the table \<^verbatim>\<open>math\<close> after the
  libraries have been opened, the body of a Lua function, and the result of loading a file.
\<close>

record lua_env =
  le_str2d :: "string \<Rightarrow> real option"
  le_number2str :: "real \<Rightarrow> string"
  le_where :: "lua_value list \<Rightarrow> string"
  le_objlen :: "(int \<Rightarrow> lua_value) \<Rightarrow> nat"
  le_libs :: lua_mem
  le_math :: lua_value
  le_body :: "nat \<Rightarrow> lua_value list \<Rightarrow> script"
  le_load :: "string \<Rightarrow> lua_value + script"

section \<open>Functions on a state\<close>

text \<open>
  A function on a state of the interpreter and on the world \<open>'w\<close> outside of it; \<open>Inl\<close> is an error that has been raised.
\<close>

type_synonym ('u, 'w, 'a) lua = "'u lua_state \<times> 'w \<Rightarrow> ((lua_value + 'a) \<times> 'u lua_state \<times> 'w) res"

definition lret :: "'a \<Rightarrow> ('u, 'w, 'a) lua" where
  "lret x s = Inr (Inr x, s)"

definition lraise :: "lua_value \<Rightarrow> ('u, 'w, 'a) lua" where
  "lraise e s = Inr (Inl e, s)"

definition lfault :: "fault \<Rightarrow> ('u, 'w, 'a) lua" where
  "lfault e s = Inl e"

definition lbind :: "('u, 'w, 'a) lua \<Rightarrow> ('a \<Rightarrow> ('u, 'w, 'b) lua) \<Rightarrow> ('u, 'w, 'b) lua" where
  "lbind m f s = rbind (m s) (\<lambda>(r, s). case r of Inl e \<Rightarrow> Inr (Inl e, s) | Inr x \<Rightarrow> f x s)"

definition lget :: "('u lua_state \<Rightarrow> 'a) \<Rightarrow> ('u, 'w, 'a) lua" where
  "lget f s = Inr (Inr (f (fst s)), s)"

definition lmod :: "('u lua_state \<Rightarrow> 'u lua_state) \<Rightarrow> ('u, 'w, unit) lua" where
  "lmod f s = Inr (Inr (), (f (fst s), snd s))"

definition lres :: "'a res \<Rightarrow> ('u, 'w, 'a) lua" where
  "lres r s = rbind r (\<lambda>x. Inr (Inr x, s))"

text \<open>A step of the world.\<close>

definition lworld :: "('w \<Rightarrow> ('a \<times> 'w) res) \<Rightarrow> ('u, 'w, 'a) lua" where
  "lworld f s = rbind (f (snd s)) (\<lambda>(x, w). Inr (Inr x, (fst s, w)))"

lemma lbind_lret [simp]: "lbind (lret x) f s = f x s"
  by (simp add: lbind_def lret_def)

lemma lbind_lraise [simp]: "lbind (lraise e) f s = Inr (Inl e, s)"
  by (simp add: lbind_def lraise_def)

lemma lbind_lfault [simp]: "lbind (lfault v) f s = Inl v"
  by (simp add: lbind_def lfault_def)

lemma lbind_lget [simp]: "lbind (lget g) f s = f (g (fst s)) s"
  by (simp add: lbind_def lget_def)

lemma lbind_lmod [simp]: "lbind (lmod h) f s = f () (h (fst s), snd s)"
  by (simp add: lbind_def lmod_def)

lemma lbind_assoc: "lbind (lbind m f) g = lbind m (\<lambda>x. lbind (f x) g)"
  by (rule ext) (auto simp: lbind_def rbind_def split: sum.splits)

lemma lbind_Inr: "m s = Inr (Inr x, s') \<Longrightarrow> lbind m f s = f x s'"
  by (simp add: lbind_def)

lemma lbind_raised: "m s = Inr (Inl e, s') \<Longrightarrow> lbind m f s = Inr (Inl e, s')"
  by (simp add: lbind_def)

section \<open>The stack\<close>

text \<open>The value at an index: positive from the bottom of the frame, negative from the top; there may be none.\<close>

definition index2adr :: "lua_value list \<Rightarrow> int \<Rightarrow> lua_value option" where
  "index2adr stk i =
     (if 0 < i then (if nat i \<le> length stk then Some (stk ! (nat i - 1)) else None)
      else if nat (- i) \<le> length stk \<and> i \<noteq> 0 then Some (stk ! (length stk - nat (- i))) else None)"

definition lua_at :: "int \<Rightarrow> ('u, 'w, lua_value option) lua" where
  "lua_at i = lget (\<lambda>L. index2adr (ls_stack L) i)"

definition lua_gettop :: "('u, 'w, nat) lua" where
  "lua_gettop = lget (\<lambda>L. length (ls_stack L))"

definition lua_push :: "lua_value \<Rightarrow> ('u, 'w, unit) lua" where
  "lua_push v = lmod (\<lambda>L. L\<lparr>ls_stack := ls_stack L @ [v]\<rparr>)"

text \<open>Removing more values than there are is outside the rules of the interface.\<close>

definition lua_pop :: "nat \<Rightarrow> ('u, 'w, unit) lua" where
  "lua_pop n s =
     (if n \<le> length (ls_stack (fst s))
      then Inr (Inr (), ((fst s)\<lparr>ls_stack := take (length (ls_stack (fst s)) - n) (ls_stack (fst s))\<rparr>, snd s))
      else Inl Out_of_bounds)"

definition lua_pushvalue :: "int \<Rightarrow> ('u, 'w, unit) lua" where
  "lua_pushvalue i = lbind (lua_at i) (\<lambda>v. case v of None \<Rightarrow> lfault Out_of_bounds | Some v \<Rightarrow> lua_push v)"

definition lua_isnil :: "int \<Rightarrow> ('u, 'w, bool) lua" where
  "lua_isnil i = lbind (lua_at i) (\<lambda>v. lret (v = Some LNil))"

definition lua_isfunction :: "int \<Rightarrow> ('u, 'w, bool) lua" where
  "lua_isfunction i = lbind (lua_at i) (\<lambda>v. lret (case v of Some (LFunction f) \<Rightarrow> True | _ \<Rightarrow> False))"

definition lua_istable :: "int \<Rightarrow> ('u, 'w, bool) lua" where
  "lua_istable i = lbind (lua_at i) (\<lambda>v. lret (case v of Some (LTable a) \<Rightarrow> True | _ \<Rightarrow> False))"

text \<open>The number a value is or can be converted to.\<close>

definition luaV_tonumber :: "lua_env \<Rightarrow> lua_value option \<Rightarrow> real option" where
  "luaV_tonumber env v = (case v of Some (LNumber x) \<Rightarrow> Some x | Some (LString s) \<Rightarrow> le_str2d env s | _ \<Rightarrow> None)"

text \<open>\<^verbatim>\<open>lua_tolstring\<close>: a number on the stack is replaced by its text.\<close>

definition lua_tolstring :: "lua_env \<Rightarrow> int \<Rightarrow> ('u, 'w, string option) lua" where
  "lua_tolstring env i =
     lbind (lua_at i) (\<lambda>v. case v of
       Some (LString s) \<Rightarrow> lret (Some s)
     | Some (LNumber x) \<Rightarrow>
         lbind (lmod (\<lambda>L. L\<lparr>ls_stack := (ls_stack L)[(if 0 < i then nat i - 1 else length (ls_stack L) - nat (- i)) := LString (le_number2str env x)]\<rparr>))
           (\<lambda>_. lret (Some (le_number2str env x)))
     | _ \<Rightarrow> lret None)"

section \<open>Errors and arguments\<close>

definition luaL_error :: "lua_env \<Rightarrow> string \<Rightarrow> ('u, 'w, 'a) lua" where
  "luaL_error env msg s = lraise (LString (le_where env (ls_stack (fst s)) @ msg)) s"

text \<open>\<^verbatim>\<open>lua_error\<close> raises the value on top of the stack.\<close>

definition lua_error :: "('u, 'w, 'a) lua" where
  "lua_error = lbind (lua_at (- 1)) (\<lambda>v. case v of None \<Rightarrow> lfault Out_of_bounds | Some e \<Rightarrow> lraise e)"

definition luaL_argerror :: "lua_env \<Rightarrow> int \<Rightarrow> string \<Rightarrow> ('u, 'w, 'a) lua" where
  "luaL_argerror env narg msg = luaL_error env (''bad argument #'' @ print_int narg @ '' ('' @ msg @ '')'')"

definition luaL_typerror :: "lua_env \<Rightarrow> int \<Rightarrow> string \<Rightarrow> ('u, 'w, 'a) lua" where
  "luaL_typerror env narg tname =
     lbind (lua_at narg) (\<lambda>v. luaL_argerror env narg (tname @ '' expected, got '' @ lua_typename v))"

definition luaL_checknumber :: "lua_env \<Rightarrow> int \<Rightarrow> ('u, 'w, real) lua" where
  "luaL_checknumber env narg =
     lbind (lua_at narg) (\<lambda>v. case luaV_tonumber env v of Some x \<Rightarrow> lret x | None \<Rightarrow> luaL_typerror env narg ''number'')"

text \<open>The bytes up to the first NUL are the C string the caller gets.\<close>

definition c_string :: "string \<Rightarrow> string" where
  "c_string s = takeWhile (\<lambda>c. c \<noteq> CHR 0x00) s"

definition luaL_checkstring :: "lua_env \<Rightarrow> int \<Rightarrow> ('u, 'w, string) lua" where
  "luaL_checkstring env narg =
     lbind (lua_tolstring env narg) (\<lambda>s. case s of Some s \<Rightarrow> lret (c_string s) | None \<Rightarrow> luaL_typerror env narg ''string'')"

text \<open>The conversion of a \<^verbatim>\<open>double\<close> to \<^verbatim>\<open>int\<close> truncates; outside the range of \<^verbatim>\<open>int\<close> it is undefined.\<close>

definition double_to_int :: "real \<Rightarrow> int res" where
  "double_to_int x =
     (let i = (if 0 \<le> x then \<lfloor>x\<rfloor> else \<lceil>x\<rceil>) in if int_range i then Inr i else Inl Out_of_bounds)"

definition check_int :: "lua_env \<Rightarrow> int \<Rightarrow> ('u, 'w, int) lua" where
  "check_int env narg = lbind (luaL_checknumber env narg) (\<lambda>x. lres (double_to_int x))"

section \<open>Globals, tables and references\<close>

definition lua_getglobal :: "string \<Rightarrow> ('u, 'w, unit) lua" where
  "lua_getglobal name = lbind (lget (\<lambda>L. lm_globals (ls_mem L) name)) lua_push"

definition lua_setglobal :: "string \<Rightarrow> ('u, 'w, unit) lua" where
  "lua_setglobal name =
     lbind (lua_at (- 1)) (\<lambda>v. case v of
       None \<Rightarrow> lfault Out_of_bounds
     | Some v \<Rightarrow>
         lbind (lmod (\<lambda>L. L\<lparr>ls_mem := (ls_mem L)\<lparr>lm_globals := (lm_globals (ls_mem L))(name := v)\<rparr>\<rparr>)) (\<lambda>_. lua_pop 1))"

fun table_get :: "(lua_value \<times> lua_value) list \<Rightarrow> lua_value \<Rightarrow> lua_value" where
  "table_get [] k = LNil"
| "table_get ((k', v) # t) k = (if k' = k then v else table_get t k)"

text \<open>The entry after a key, the first one after nil; a key that is not in the table is an error.\<close>

definition table_next :: "(lua_value \<times> lua_value) list \<Rightarrow> lua_value \<Rightarrow> (lua_value \<times> lua_value) option option" where
  "table_next t k =
     (let rest = (if k = LNil then Some t
                  else case dropWhile (\<lambda>e. fst e \<noteq> k) t of [] \<Rightarrow> None | _ # r \<Rightarrow> Some r)
      in map_option (\<lambda>r. case r of [] \<Rightarrow> None | e # _ \<Rightarrow> Some e) rest)"

definition lua_table :: "int \<Rightarrow> ('u, 'w, (lua_value \<times> lua_value) list) lua" where
  "lua_table i =
     lbind (lua_at i) (\<lambda>v. case v of
       Some (LTable a) \<Rightarrow> lbind (lget (\<lambda>L. lm_tables (ls_mem L) a)) (\<lambda>t. case t of None \<Rightarrow> lfault Bad_access | Some t \<Rightarrow> lret t)
     | _ \<Rightarrow> lfault Bad_access)"

definition lua_next :: "lua_env \<Rightarrow> int \<Rightarrow> ('u, 'w, bool) lua" where
  "lua_next env i =
     lbind (lua_table i) (\<lambda>t. lbind (lua_at (- 1)) (\<lambda>k. case k of
       None \<Rightarrow> lfault Out_of_bounds
     | Some k \<Rightarrow>
         (case table_next t k of
            None \<Rightarrow> luaL_error env (''invalid key to '' @ [CHR 0x27] @ ''next'' @ [CHR 0x27])
          | Some None \<Rightarrow> lbind (lua_pop 1) (\<lambda>_. lret False)
          | Some (Some (k', v)) \<Rightarrow> lbind (lua_pop 1) (\<lambda>_. lbind (lua_push k') (\<lambda>_. lbind (lua_push v) (\<lambda>_. lret True))))))"

text \<open>The value on top of the stack is a key of a table; it is replaced by its value. Indexing another value is an error.\<close>

definition lua_gettable :: "lua_env \<Rightarrow> int \<Rightarrow> ('u, 'w, unit) lua" where
  "lua_gettable env i =
     lbind (lua_at i) (\<lambda>v. lbind (lua_at (- 1)) (\<lambda>k. case (v, k) of
       (Some (LTable a), Some k) \<Rightarrow> lbind (lua_table i) (\<lambda>t. lbind (lua_pop 1) (\<lambda>_. lua_push (table_get t k)))
     | (Some v, Some k) \<Rightarrow> luaL_error env (''attempt to index a '' @ lua_typename (Some v) @ '' value'')
     | _ \<Rightarrow> lfault Out_of_bounds))"

definition LUA_REFNIL :: int where "LUA_REFNIL = - 1"

definition lua_rawgeti_registry :: "int \<Rightarrow> ('u, 'w, unit) lua" where
  "lua_rawgeti_registry n = lbind (lget (\<lambda>L. ls_refs L n)) lua_push"

definition set_ref :: "int \<Rightarrow> lua_value \<Rightarrow> 'u lua_state \<Rightarrow> 'u lua_state" where
  "set_ref n v L = L\<lparr>ls_refs := (ls_refs L)(n := v)\<rparr>"

text \<open>The entry 0 of the registry is the list of the free references.\<close>

definition free_ref :: "'u lua_state \<Rightarrow> int" where
  "free_ref L = (case ls_refs L 0 of LNumber x \<Rightarrow> \<lfloor>x\<rfloor> | _ \<Rightarrow> 0)"

definition luaL_ref :: "lua_env \<Rightarrow> ('u, 'w, int) lua" where
  "luaL_ref env =
     lbind (lua_at (- 1)) (\<lambda>v. case v of
       None \<Rightarrow> lfault Out_of_bounds
     | Some v \<Rightarrow>
         lbind (lua_pop 1) (\<lambda>_.
           if v = LNil then lret LUA_REFNIL
           else
             lbind (lget (\<lambda>L. if free_ref L \<noteq> 0 then free_ref L else int (le_objlen env (ls_refs L)) + 1)) (\<lambda>ref.
             lbind (lmod (\<lambda>L. set_ref ref v (if free_ref L \<noteq> 0 then set_ref 0 (ls_refs L ref) L else L))) (\<lambda>_. lret ref))))"

definition luaL_unref :: "int \<Rightarrow> ('u, 'w, unit) lua" where
  "luaL_unref ref =
     (if ref \<ge> 0 then lmod (\<lambda>L. set_ref 0 (LNumber (of_int ref)) (set_ref ref (ls_refs L 0) L)) else lret ())"

section \<open>Userdata\<close>

definition lua_newuserdata :: "string \<Rightarrow> 'u \<Rightarrow> ('u, 'w, nat) lua" where
  "lua_newuserdata tname u =
     lbind (lget ls_next) (\<lambda>a.
     lbind (lmod (\<lambda>L. L\<lparr>ls_next := a + 1, ls_udata := (ls_udata L)(a := Some (tname, u))\<rparr>)) (\<lambda>_.
     lbind (lua_push (LUserdata a)) (\<lambda>_. lret a)))"

text \<open>The address of a userdata with the right metatable.\<close>

definition luaL_checkudata :: "lua_env \<Rightarrow> int \<Rightarrow> string \<Rightarrow> ('u, 'w, nat) lua" where
  "luaL_checkudata env i tname =
     lbind (lua_at i) (\<lambda>v. case v of
       Some (LUserdata a) \<Rightarrow>
         lbind (lget (\<lambda>L. ls_udata L a)) (\<lambda>u. case u of
           Some (n, _) \<Rightarrow> if n = tname then lret a else luaL_typerror env i tname
         | None \<Rightarrow> lfault Bad_access)
     | _ \<Rightarrow> luaL_typerror env i tname)"

section \<open>Calls\<close>

text \<open>A C function runs in a frame that holds its arguments; its results are the values on top of the stack.\<close>

definition call_C :: "('u, 'w, nat) lua \<Rightarrow> lua_value list \<Rightarrow> ('u, 'w, lua_value list) lua" where
  "call_C f args s =
     rbind (f ((fst s)\<lparr>ls_stack := args\<rparr>, snd s))
       (\<lambda>(r, s'). let s'' = ((fst s')\<lparr>ls_stack := ls_stack (fst s)\<rparr>, snd s'); stk = ls_stack (fst s') in
          case r of Inl e \<Rightarrow> Inr (Inl e, s'') | Inr n \<Rightarrow> Inr (Inr (drop (length stk - n) stk), s''))"

text \<open>The execution of a Lua function; \<open>cfun\<close> are the functions the program exports.\<close>

primrec run_script :: "(string \<Rightarrow> ('u, 'w, nat) lua) \<Rightarrow> script \<Rightarrow> ('u, 'w, lua_value list) lua" where
  "run_script cfun (Return vs) = lret vs"
| "run_script cfun (Raise e) = lraise e"
| "run_script cfun (Compute f) =
     (\<lambda>s. case map_prod id (run_script cfun) (f (ls_mem (fst s))) of (m, k) \<Rightarrow> k ((fst s)\<lparr>ls_mem := m\<rparr>, snd s))"
| "run_script cfun (Call name args k) =
     (\<lambda>s. rbind (call_C (cfun name) args s) (\<lambda>(r, s'). run_script cfun (k r) s'))"

definition call_value ::
  "lua_env \<Rightarrow> (string \<Rightarrow> ('u, 'w, nat) lua) \<Rightarrow> lua_value \<Rightarrow> lua_value list \<Rightarrow> ('u, 'w, lua_value list) lua" where
  "call_value env cfun f args =
     (case f of
        LFunction (Lua_fun i) \<Rightarrow> run_script cfun (le_body env i args)
      | LFunction (C_fun name) \<Rightarrow> call_C (cfun name) args
      | v \<Rightarrow> lraise (LString (''attempt to call a '' @ lua_typename (Some v) @ '' value'')))"

definition LUA_ERRRUN :: int where "LUA_ERRRUN = 2"

text \<open>
  \<^verbatim>\<open>lua_pcall\<close> without an error handler: the function and its arguments on the stack are replaced by the results,
  or by the error.
\<close>

definition adjust_results :: "nat \<Rightarrow> lua_value list \<Rightarrow> lua_value list" where
  "adjust_results n vs = take n (vs @ replicate n LNil)"

definition lua_pcall :: "lua_env \<Rightarrow> (string \<Rightarrow> ('u, 'w, nat) lua) \<Rightarrow> nat \<Rightarrow> nat \<Rightarrow> ('u, 'w, int) lua" where
  "lua_pcall env cfun nargs nresults s =
     (let stk = ls_stack (fst s) in
      if length stk < nargs + 1 then Inl Out_of_bounds
      else
        (let k = length stk - (nargs + 1) in
         rbind (call_value env cfun (stk ! k) (drop (k + 1) stk) ((fst s)\<lparr>ls_stack := take k stk\<rparr>, snd s))
           (\<lambda>(r, s'). case r of
              Inl e \<Rightarrow> lbind (lua_push e) (\<lambda>_. lret LUA_ERRRUN) s'
            | Inr vs \<Rightarrow> lbind (lmod (\<lambda>L. L\<lparr>ls_stack := ls_stack L @ adjust_results nresults vs\<rparr>)) (\<lambda>_. lret 0) s')))"

text \<open>An error outside every protected call ends the process.\<close>

definition unprotected :: "('u, 'w, 'a) lua \<Rightarrow> 'u lua_state \<times> 'w \<Rightarrow> ('a \<times> 'u lua_state \<times> 'w) res" where
  "unprotected m s = rbind (m s) (\<lambda>(r, s). case r of Inl e \<Rightarrow> Inl (Exit_call 1) | Inr x \<Rightarrow> Inr (x, s))"

end
