(* ===== verification/ScriptLua.thy ===== *)
theory ScriptLua
  imports LuaApi DbDriver TestCommon
begin

text \<open>
  The scripting component (\<^verbatim>\<open>scripting/script_lua.c\<close>, \<^verbatim>\<open>scripting/sb_script.c\<close>): one interpreter per worker
  thread and a global one, the test operations that call the functions of the script, and the functions exported to scripts. An
  exported function works on its interpreter and on what all interpreters share: the program with the database layer, the database
  driver, and the contexts, which are allocated objects. The arrays of bound variables belong to their statement; their buffers, lengths and
  NULL flags are variables in the store of the database layer, to which the layer keeps pointers.
\<close>

section \<open>Data\<close>

record sb_lua_ctxt_t =
  ctx_thread_id :: int
  ctx_con :: "nat option"

text \<open>\<open>lb_buflen\<close> and \<open>lb_is_null\<close> are the addresses of the fields.\<close>

record sb_lua_bind_t =
  lb_id :: int
  lb_type :: db_bind_type_t
  lb_buf :: "nat option"
  lb_buflen :: nat
  lb_is_null :: nat

record sb_lua_db_stmt_t =
  sl_ptr :: "nat option"
  sl_params :: "sb_lua_bind_t list option"
  sl_nparams :: u32
  sl_results :: "sb_lua_bind_t list option"
  sl_nresults :: u32
  sl_param_ref :: int
  sl_result_ref :: int
  sl_rs :: "nat option"

text \<open>The contents of userdata: a statement, or a result set.\<close>

datatype lua_udata = Stmt_udata sb_lua_db_stmt_t | Rs_udata "nat option"

type_synonym L_state = "lua_udata lua_state"

record 'd lua_shared =
  lx_db :: "'d db_state"
  lx_driver :: "nat option"
  lx_once :: bool
  lx_ctxts :: "nat \<Rightarrow> sb_lua_ctxt_t option"

text \<open>The variables of the component; a NULL interpreter is \<open>None\<close>.\<close>

record 'd lua_vars =
  lv_shared :: "'d lua_shared"
  lv_states :: "L_state option list option"
  lv_gstate :: "L_state option"
  lv_nevents :: u32

text \<open>The drivers, the floating point environment and the interpreter.\<close>

record 'd lua_sys =
  sy_fp :: fpenv
  sy_drvs :: "'d db_driver_t list"
  sy_lua :: lua_env

type_synonym ('d, 'a) L_op = "(lua_udata, 'd lua_shared, 'a) lua"

section \<open>Access to the shared state\<close>

definition on_db :: "('d db_state \<Rightarrow> ('a \<times> 'd db_state) res) \<Rightarrow> ('d, 'a) L_op" where
  "on_db f = lworld (\<lambda>x. rbind (f (lx_db x)) (\<lambda>(r, db). Inr (r, x\<lparr>lx_db := db\<rparr>)))"

definition L_malloc :: "('d, bool) L_op" where
  "L_malloc = on_db (\<lambda>db. Inr (d_malloc db))"

text \<open>An allocated variable.\<close>

definition new_var :: "bind_data \<Rightarrow> ('d, nat) L_op" where
  "new_var d = on_db (\<lambda>db. Inr (ds_next db, db\<lparr>ds_next := ds_next db + 1, ds_vars := (ds_vars db)(ds_next db := Some d)\<rparr>))"

definition set_var :: "nat \<Rightarrow> bind_data \<Rightarrow> ('d, unit) L_op" where
  "set_var a d = on_db (\<lambda>db. if ds_vars db a = None then Inl Bad_access else Inr ((), db\<lparr>ds_vars := (ds_vars db)(a := Some d)\<rparr>))"

definition get_var :: "nat \<Rightarrow> ('d, bind_data) L_op" where
  "get_var a = on_db (\<lambda>db. rbind (var_at (ds_vars db) (Some a)) (\<lambda>d. Inr (d, db)))"

definition free_var :: "nat \<Rightarrow> ('d, unit) L_op" where
  "free_var a = on_db (\<lambda>db. if ds_vars db a = None then Inl Bad_free else Inr ((), db\<lparr>ds_vars := (ds_vars db)(a := None)\<rparr>))"

definition ctxt_at :: "nat \<Rightarrow> ('d, sb_lua_ctxt_t) L_op" where
  "ctxt_at c = lworld (\<lambda>x. case lx_ctxts x c of None \<Rightarrow> Inl Bad_access | Some ctxt \<Rightarrow> Inr (ctxt, x))"

definition upd_ctxt :: "nat \<Rightarrow> (sb_lua_ctxt_t \<Rightarrow> sb_lua_ctxt_t) \<Rightarrow> ('d, unit) L_op" where
  "upd_ctxt c f =
     lworld (\<lambda>x. case lx_ctxts x c of None \<Rightarrow> Inl Bad_access | Some ctxt \<Rightarrow> Inr ((), x\<lparr>lx_ctxts := (lx_ctxts x)(c := Some (f ctxt))\<rparr>))"

text \<open>The statement and the result set in a userdata.\<close>

definition stmt_of :: "nat \<Rightarrow> ('d, sb_lua_db_stmt_t) L_op" where
  "stmt_of u = lbind (lget (\<lambda>L. ls_udata L u)) (\<lambda>d. case d of Some (_, Stmt_udata s) \<Rightarrow> lret s | _ \<Rightarrow> lfault Bad_access)"

definition upd_sl :: "nat \<Rightarrow> (sb_lua_db_stmt_t \<Rightarrow> sb_lua_db_stmt_t) \<Rightarrow> ('d, unit) L_op" where
  "upd_sl u f =
     lbind (stmt_of u) (\<lambda>s. lmod (\<lambda>L. L\<lparr>ls_udata := (ls_udata L)(u := Some (''sysbench.stmt'', Stmt_udata (f s)))\<rparr>))"

definition rs_of :: "nat \<Rightarrow> ('d, nat option) L_op" where
  "rs_of u = lbind (lget (\<lambda>L. ls_udata L u)) (\<lambda>d. case d of Some (_, Rs_udata r) \<Rightarrow> lret r | _ \<Rightarrow> lfault Bad_access)"

section \<open>The context of an interpreter\<close>

definition sb_lua_ctxt_key :: nat where "sb_lua_ctxt_key = 0"

definition sb_lua_get_context :: "lua_env \<Rightarrow> ('d, nat) L_op" where
  "sb_lua_get_context env =
     lbind (lget (\<lambda>L. ls_light L sb_lua_ctxt_key)) (\<lambda>v. lbind (lua_push v) (\<lambda>_. case v of
       LLight c \<Rightarrow> lret c
     | _ \<Rightarrow> luaL_error env ''Attempt to access database driver before it is initialized. Check your script for syntax errors''))"

definition sb_lua_set_context :: "nat \<Rightarrow> L_state \<Rightarrow> L_state" where
  "sb_lua_set_context c L = L\<lparr>ls_light := (ls_light L)(sb_lua_ctxt_key := LLight c)\<rparr>"

text \<open>\<^verbatim>\<open>CHECK_CONNECTION\<close>: the connection.\<close>

definition CHECK_CONNECTION :: "lua_env \<Rightarrow> nat \<Rightarrow> ('d, nat) L_op" where
  "CHECK_CONNECTION env c =
     lbind (ctxt_at c) (\<lambda>ctxt. case ctx_con ctxt of None \<Rightarrow> luaL_error env ''Uninitialized database connection'' | Some con \<Rightarrow> lret con)"

text \<open>
  The loop of \<^verbatim>\<open>sb_lua_table_size\<close>. Each entry is visited once, so that the number of entries of the table is enough fuel.
\<close>

fun table_size_loop :: "lua_env \<Rightarrow> nat \<Rightarrow> int \<Rightarrow> u32 \<Rightarrow> ('d, u32) L_op" where
  "table_size_loop env 0 index i = lfault Still_running"
| "table_size_loop env (Suc n) index i =
     lbind (lua_next env index) (\<lambda>more.
       if more then lbind (lua_pop 1) (\<lambda>_. table_size_loop env n index (i + 1)) else lret i)"

definition sb_lua_table_size :: "lua_env \<Rightarrow> int \<Rightarrow> ('d, u32) L_op" where
  "sb_lua_table_size env index =
     lbind (lua_push LNil) (\<lambda>_. lbind (lua_table index) (\<lambda>t. table_size_loop env (length t + 1) index 0))"

section \<open>Connections and queries\<close>

definition db_errno_num :: "db_error_t \<Rightarrow> real" where
  "db_errno_num e = (case e of SB_DB_ERROR_NONE \<Rightarrow> 0 | SB_DB_ERROR_RESTART_TRANSACTION \<Rightarrow> 1 | SB_DB_ERROR_RECONNECTED \<Rightarrow> 2 | SB_DB_ERROR_FAILED \<Rightarrow> 3)"

definition sb_lua_db_init_once :: "'d lua_sys \<Rightarrow> ('d, unit) L_op" where
  "sb_lua_db_init_once sy =
     lworld (\<lambda>x. if lx_driver x = None
                 then rbind (db_init (sy_fp sy) (sy_drvs sy) None (lx_db x)) (\<lambda>(drv, db). Inr ((), x\<lparr>lx_driver := drv, lx_db := db\<rparr>))
                 else Inr ((), x))"

definition db_init_control :: "'d lua_sys \<Rightarrow> ('d, nat option) L_op" where
  "db_init_control sy =
     lbind (lworld (\<lambda>x. Inr (lx_once x, x\<lparr>lx_once := True\<rparr>))) (\<lambda>done.
     lbind (if done then lret () else sb_lua_db_init_once sy) (\<lambda>_. lworld (\<lambda>x. Inr (lx_driver x, x))))"

definition sb_lua_db_connect :: "'d lua_sys \<Rightarrow> ('d, nat) L_op" where
  "sb_lua_db_connect sy =
     (let env = sy_lua sy in
      lbind (sb_lua_get_context env) (\<lambda>c.
      lbind (db_init_control sy) (\<lambda>drv. case drv of
        None \<Rightarrow> luaL_error env ''DB initialization failed''
      | Some d \<Rightarrow>
          lbind (lres (aread (sy_drvs sy) d)) (\<lambda>driver.
          lbind (lua_push (LString (d_sname driver))) (\<lambda>_.
          lbind (lua_setglobal ''db_driver'') (\<lambda>_.
          lbind (on_db (db_connect (sy_drvs sy) d)) (\<lambda>con.
          lbind (upd_ctxt c (\<lambda>ctxt. ctxt\<lparr>ctx_con := con\<rparr>)) (\<lambda>_. case con of
            None \<Rightarrow> luaL_error env ''Failed to connect to the database''
          | Some con \<Rightarrow>
              lbind (ctxt_at c) (\<lambda>ctxt.
              lbind (on_db (\<lambda>db. rbind (db_set_thread con (ctx_thread_id ctxt) db) (\<lambda>db. Inr ((), db)))) (\<lambda>_. lret 0))))))))))"

definition sb_lua_db_disconnect :: "'d lua_sys \<Rightarrow> ('d, nat) L_op" where
  "sb_lua_db_disconnect sy =
     lbind (sb_lua_get_context (sy_lua sy)) (\<lambda>c.
     lbind (ctxt_at c) (\<lambda>ctxt.
     lbind (case ctx_con ctxt of None \<Rightarrow> lret 0 | Some con \<Rightarrow> on_db (db_disconnect (sy_drvs sy) con)) (\<lambda>_.
     lbind (upd_ctxt c (\<lambda>ctxt. ctxt\<lparr>ctx_con := None\<rparr>)) (\<lambda>_. lret 0))))"

text \<open>The connection of the context, established when there is none yet.\<close>

definition connected :: "'d lua_sys \<Rightarrow> nat \<Rightarrow> ('d, nat) L_op" where
  "connected sy c =
     lbind (ctxt_at c) (\<lambda>ctxt.
     lbind (if ctx_con ctxt = None then sb_lua_db_connect sy else lret 0) (\<lambda>_.
     lbind (ctxt_at c) (\<lambda>ctxt. case ctx_con ctxt of None \<Rightarrow> lfault Null_deref | Some con \<Rightarrow> lret con)))"

text \<open>The error number of the connection is raised.\<close>

definition raise_errno :: "nat \<Rightarrow> ('d, 'a) L_op" where
  "raise_errno con =
     lbind (on_db (\<lambda>db. rbind (db_errno con db) (\<lambda>e. Inr (e, db)))) (\<lambda>e.
     lbind (lua_push (LNumber (db_errno_num e))) (\<lambda>_. lua_error))"

definition sb_lua_db_query :: "'d lua_sys \<Rightarrow> ('d, nat) L_op" where
  "sb_lua_db_query sy =
     lbind (sb_lua_get_context (sy_lua sy)) (\<lambda>c.
     lbind (connected sy c) (\<lambda>con.
     lbind (luaL_checkstring (sy_lua sy) 1) (\<lambda>query.
     lbind (on_db (db_query (sy_drvs sy) con query)) (\<lambda>rs. case rs of
       None \<Rightarrow> raise_errno con
     | Some rs \<Rightarrow>
         lbind (on_db (db_store_results (sy_drvs sy) rs)) (\<lambda>_.
         lbind (on_db (db_free_results (sy_drvs sy) rs)) (\<lambda>_. lret 0))))))"

definition sb_lua_db_bulk_insert_init :: "'d lua_sys \<Rightarrow> ('d, nat) L_op" where
  "sb_lua_db_bulk_insert_init sy =
     lbind (sb_lua_get_context (sy_lua sy)) (\<lambda>c.
     lbind (connected sy c) (\<lambda>con.
     lbind (luaL_checkstring (sy_lua sy) 1) (\<lambda>query.
     lbind (on_db (db_bulk_insert_init (sy_drvs sy) con query)) (\<lambda>rc.
       if rc \<noteq> 0 then luaL_error (sy_lua sy) ''db_bulk_insert_init() failed'' else lret 0))))"

definition sb_lua_db_bulk_insert_next :: "'d lua_sys \<Rightarrow> ('d, nat) L_op" where
  "sb_lua_db_bulk_insert_next sy =
     lbind (sb_lua_get_context (sy_lua sy)) (\<lambda>c.
     lbind (CHECK_CONNECTION (sy_lua sy) c) (\<lambda>con.
     lbind (luaL_checkstring (sy_lua sy) 1) (\<lambda>query.
     lbind (on_db (db_bulk_insert_next (sy_drvs sy) con query)) (\<lambda>rc.
       if rc \<noteq> 0 then luaL_error (sy_lua sy) ''db_bulk_insert_next() failed'' else lret 0))))"

definition sb_lua_db_bulk_insert_done :: "'d lua_sys \<Rightarrow> ('d, nat) L_op" where
  "sb_lua_db_bulk_insert_done sy =
     lbind (sb_lua_get_context (sy_lua sy)) (\<lambda>c.
     lbind (CHECK_CONNECTION (sy_lua sy) c) (\<lambda>con.
     lbind (on_db (\<lambda>db. rbind (db_bulk_insert_done (sy_drvs sy) con db) (\<lambda>db. Inr ((), db)))) (\<lambda>_. lret 0)))"

section \<open>Prepared statements\<close>

definition stmt_userdata_zero :: sb_lua_db_stmt_t where
  "stmt_userdata_zero =
     \<lparr>sl_ptr = None, sl_params = None, sl_nparams = 0, sl_results = None, sl_nresults = 0, sl_param_ref = 0, sl_result_ref = 0, sl_rs = None\<rparr>"

definition sb_lua_db_prepare :: "'d lua_sys \<Rightarrow> ('d, nat) L_op" where
  "sb_lua_db_prepare sy =
     lbind (sb_lua_get_context (sy_lua sy)) (\<lambda>c.
     lbind (connected sy c) (\<lambda>con.
     lbind (luaL_checkstring (sy_lua sy) 1) (\<lambda>query.
     lbind (lua_newuserdata ''sysbench.stmt'' (Stmt_udata stmt_userdata_zero)) (\<lambda>u.
     lbind (on_db (db_prepare (sy_drvs sy) con query)) (\<lambda>s.
     lbind (upd_sl u (\<lambda>sl. sl\<lparr>sl_ptr := s\<rparr>)) (\<lambda>_.
       if s = None then luaL_error (sy_lua sy) ''db_prepare() failed''
       else lbind (upd_sl u (\<lambda>sl. sl\<lparr>sl_param_ref := LUA_REFNIL\<rparr>)) (\<lambda>_. lret 1)))))))"

definition bind_zero :: db_bind_t where
  "bind_zero = \<lparr>b_type = DB_TYPE_NONE, b_buffer = None, b_data_len = None, b_max_len = 0, b_is_null = None\<rparr>"

text \<open>The zeroed array of bound variables.\<close>

fun new_binds :: "nat \<Rightarrow> ('d, sb_lua_bind_t list) L_op" where
  "new_binds 0 = lret []"
| "new_binds (Suc n) =
     lbind (new_var (Len_data 0)) (\<lambda>len. lbind (new_var (Flag_data False)) (\<lambda>null.
     lbind (new_binds n) (\<lambda>ps. lret (\<lparr>lb_id = 0, lb_type = DB_TYPE_NONE, lb_buf = None, lb_buflen = len, lb_is_null = null\<rparr> # ps))))"

text \<open>
  The loops of \<^verbatim>\<open>sb_lua_db_bind_param\<close> and \<^verbatim>\<open>sb_lua_db_bind_result\<close> over the entries of the table: \<open>ty\<close> is the
  type of a number, \<open>put\<close> the assignment to the array of the statement, \<open>ps\<close> its contents. \<open>None\<close> is the jump to the label \<^verbatim>\<open>error\<close>.
\<close>

fun bind_loop ::
  "lua_env \<Rightarrow> db_bind_type_t \<Rightarrow> (sb_lua_bind_t list \<Rightarrow> ('d, unit) L_op) \<Rightarrow> nat \<Rightarrow> nat \<Rightarrow> sb_lua_bind_t list \<Rightarrow> db_bind_t list \<Rightarrow> bool \<Rightarrow>
   ('d, (db_bind_t list \<times> bool) option) L_op" where
  "bind_loop env ty put 0 i ps binds needs_rebind = lret (Some (binds, needs_rebind))"
| "bind_loop env ty put (Suc n) i ps binds needs_rebind =
     lbind (lua_next env 2) (\<lambda>_. lbind (lua_at (- 1)) (\<lambda>v.
     let finish = (\<lambda>p b needs.
           lbind (put (ps[i := p\<lparr>lb_type := b_type b\<rparr>])) (\<lambda>_. lbind (lua_pop 1) (\<lambda>_.
             bind_loop env ty put n (Suc i) (ps[i := p\<lparr>lb_type := b_type b\<rparr>]) (binds[i := b\<lparr>b_is_null := Some (lb_is_null p)\<rparr>]) needs)))
     in case v of
          Some (LNumber x) \<Rightarrow>
            lbind L_malloc (\<lambda>ok. lbind (if ok then lbind (new_var Undef_data) (\<lambda>a. lret (Some a)) else lret None) (\<lambda>buf.
            lbind (put (ps[i := (ps ! i)\<lparr>lb_buf := buf\<rparr>])) (\<lambda>_.
            lbind (check_int env (- 2)) (\<lambda>k.
              finish ((ps ! i)\<lparr>lb_buf := buf, lb_id := k\<rparr>) ((binds ! i)\<lparr>b_type := ty, b_buffer := buf\<rparr>) needs_rebind))))
        | Some (LString s) \<Rightarrow>
            lbind (check_int env (- 2)) (\<lambda>k. finish ((ps ! i)\<lparr>lb_id := k\<rparr>) ((binds ! i)\<lparr>b_type := DB_TYPE_CHAR\<rparr>) True)
        | _ \<Rightarrow> lbind (lua_push (LString (''Unsupported variable type: '' @ lua_typename v))) (\<lambda>_. lret None)))"

text \<open>What the two functions share: the checks of the arguments, the arrays and the loop.\<close>

definition bind_table ::
  "'d lua_sys \<Rightarrow> db_bind_type_t \<Rightarrow> (sb_lua_bind_t list option \<Rightarrow> sb_lua_db_stmt_t \<Rightarrow> sb_lua_db_stmt_t) \<Rightarrow>
   ('d, nat \<times> u32 \<times> (db_bind_t list \<times> bool) option) L_op" where
  "bind_table sy ty put =
     (let env = sy_lua sy in
      lbind (sb_lua_get_context env) (\<lambda>c. lbind (CHECK_CONNECTION env c) (\<lambda>_.
      lbind (luaL_checkudata env 1 ''sysbench.stmt'') (\<lambda>u.
      lbind (lua_istable 2) (\<lambda>t. if \<not> t then luaL_error env ''table was expected'' else
      lbind (sb_lua_table_size env 2) (\<lambda>n. if n = 0 then luaL_error env ''table is empty'' else
      lbind L_malloc (\<lambda>ok1. lbind L_malloc (\<lambda>ok2.
      lbind (if ok2 then lbind (new_binds (unat n)) (\<lambda>ps. lret (Some ps)) else lret None) (\<lambda>arr.
      lbind (upd_sl u (put arr)) (\<lambda>_. case (ok1, arr) of
        (True, Some ps) \<Rightarrow>
          lbind (lua_push LNil) (\<lambda>_.
          lbind (bind_loop env ty (\<lambda>ps. upd_sl u (put (Some ps))) (unat n) 0 ps (replicate (unat n) bind_zero) False)
            (\<lambda>r. lret (u, n, r)))
      | _ \<Rightarrow> luaL_error env ''memory allocation failure''))))))))))"

definition put_params :: "sb_lua_bind_t list option \<Rightarrow> sb_lua_db_stmt_t \<Rightarrow> sb_lua_db_stmt_t" where
  "put_params ps sl = sl\<lparr>sl_params := ps\<rparr>"

definition put_results :: "sb_lua_bind_t list option \<Rightarrow> sb_lua_db_stmt_t \<Rightarrow> sb_lua_db_stmt_t" where
  "put_results ps sl = sl\<lparr>sl_results := ps\<rparr>"

text \<open>The statement of the database layer.\<close>

definition stmt_ptr :: "nat \<Rightarrow> ('d, nat) L_op" where
  "stmt_ptr u = lbind (stmt_of u) (\<lambda>sl. case sl_ptr sl of None \<Rightarrow> lfault Null_deref | Some s \<Rightarrow> lret s)"

definition sb_lua_db_bind_param :: "'d lua_sys \<Rightarrow> ('d, nat) L_op" where
  "sb_lua_db_bind_param sy =
     lbind (bind_table sy DB_TYPE_INT put_params) (\<lambda>(u, n, r). case r of
       None \<Rightarrow> lua_error
     | Some (binds, needs_rebind) \<Rightarrow>
         lbind (if needs_rebind then lret 0
                else lbind (stmt_ptr u) (\<lambda>s. on_db (db_bind_param (sy_drvs sy) s binds n))) (\<lambda>rc.
           if rc \<noteq> 0 then lua_error
           else
             lbind (upd_sl u (\<lambda>sl. sl\<lparr>sl_nparams := n\<rparr>)) (\<lambda>_.
             lbind (lua_pushvalue 2) (\<lambda>_. lbind (luaL_ref (sy_lua sy)) (\<lambda>ref.
             lbind (upd_sl u (\<lambda>sl. sl\<lparr>sl_param_ref := ref\<rparr>)) (\<lambda>_. lret 0))))))"

definition sb_lua_db_bind_result :: "'d lua_sys \<Rightarrow> ('d, nat) L_op" where
  "sb_lua_db_bind_result sy =
     lbind (bind_table sy DB_TYPE_BIGINT put_results) (\<lambda>(u, n, r). case r of
       None \<Rightarrow> lua_error
     | Some (binds, needs_rebind) \<Rightarrow>
         lbind (if needs_rebind then lret 0
                else lbind (stmt_ptr u) (\<lambda>s. on_db (db_bind_result (sy_drvs sy) s binds n))) (\<lambda>rc.
           if rc \<noteq> 0 then lua_error
           else
             lbind (upd_sl u (\<lambda>sl. sl\<lparr>sl_nresults := n\<rparr>)) (\<lambda>_.
             lbind (lua_pushvalue 2) (\<lambda>_. lbind (luaL_ref (sy_lua sy)) (\<lambda>ref.
             lbind (upd_sl u (\<lambda>sl. sl\<lparr>sl_result_ref := ref\<rparr>)) (\<lambda>_. lret 0))))))"

text \<open>An element of the array of parameters.\<close>

definition param_at :: "nat \<Rightarrow> nat \<Rightarrow> ('d, sb_lua_bind_t) L_op" where
  "param_at u i = lbind (stmt_of u) (\<lambda>sl. case sl_params sl of None \<Rightarrow> lfault Null_deref | Some ps \<Rightarrow> lres (aread ps i))"

definition set_param_buf :: "nat \<Rightarrow> nat \<Rightarrow> nat option \<Rightarrow> ('d, unit) L_op" where
  "set_param_buf u i buf = upd_sl u (\<lambda>sl. sl\<lparr>sl_params := map_option (\<lambda>ps. ps[i := (ps ! i)\<lparr>lb_buf := buf\<rparr>]) (sl_params sl)\<rparr>)"

text \<open>
  The value of a string parameter: the buffer grows when the string is longer than the last one; \<^verbatim>\<open>strncpy\<close> pads with NULs up to the
  length of the string and writes no NUL after it.
\<close>

definition realloc_var :: "nat option \<Rightarrow> ('d, nat option) L_op" where
  "realloc_var buf =
     lbind L_malloc (\<lambda>ok.
       if \<not> ok then lret None
       else
         lbind (case buf of None \<Rightarrow> lret (String_data []) | Some a \<Rightarrow> lbind (get_var a) (\<lambda>d. lbind (free_var a) (\<lambda>_. lret d))) (\<lambda>d.
         lbind (new_var d) (\<lambda>a. lret (Some a))))"

definition strncpy_var :: "nat option \<Rightarrow> string \<Rightarrow> nat \<Rightarrow> ('d, unit) L_op" where
  "strncpy_var buf s n =
     (if n = 0 then lret ()
      else (case buf of
              None \<Rightarrow> lfault Null_deref
            | Some a \<Rightarrow>
                lbind (get_var a) (\<lambda>d. case d of
                  String_data old \<Rightarrow> set_var a (String_data (take n (s @ replicate n (CHR 0x00)) @ drop n old))
                | _ \<Rightarrow> lfault Bad_access)))"

definition char_param :: "lua_env \<Rightarrow> nat \<Rightarrow> nat \<Rightarrow> ('d, bool) L_op" where
  "char_param env u i =
     lbind (luaL_checkstring env (- 1)) (\<lambda>str.
     lbind (lua_at (- 1)) (\<lambda>v. let len = (case v of Some (LString s) \<Rightarrow> length s | _ \<Rightarrow> 0) in
     lbind (param_at u i) (\<lambda>p.
     lbind (get_var (lb_buflen p)) (\<lambda>d. case d of
       Len_data buflen \<Rightarrow>
         (let grow = unat buflen < len in
          lbind (if grow then lbind (realloc_var (lb_buf p)) (\<lambda>buf. lbind (set_param_buf u i buf) (\<lambda>_. lret buf)) else lret (lb_buf p)) (\<lambda>buf.
          lbind (strncpy_var buf str len) (\<lambda>_.
          lbind (set_var (lb_buflen p) (Len_data (of_nat len))) (\<lambda>_. lret grow))))
     | _ \<Rightarrow> lfault Bad_access))))"

text \<open>An iteration of the loop that copies the values of the table to the variables; whether the variables have to be bound again.\<close>

definition copy_param :: "lua_env \<Rightarrow> nat \<Rightarrow> nat \<Rightarrow> ('d, bool) L_op" where
  "copy_param env u i =
     lbind (param_at u i) (\<lambda>p.
     lbind (lua_push (LNumber (of_int (lb_id p)))) (\<lambda>_.
     lbind (lua_gettable env (- 2)) (\<lambda>_.
     lbind (lua_isnil (- 1)) (\<lambda>nil.
     lbind (if nil then lbind (set_var (lb_is_null p) (Flag_data True)) (\<lambda>_. lret False)
            else
              lbind (set_var (lb_is_null p) (Flag_data False)) (\<lambda>_. case lb_type p of
                DB_TYPE_INT \<Rightarrow>
                  lbind (check_int env (- 1)) (\<lambda>x. case lb_buf p of
                    None \<Rightarrow> lfault Null_deref
                  | Some a \<Rightarrow> lbind (set_var a (Int_data x)) (\<lambda>_. lret False))
              | DB_TYPE_CHAR \<Rightarrow> char_param env u i
              | _ \<Rightarrow> lbind (lua_at (- 1)) (\<lambda>v. luaL_error env (''Unsupported variable type: '' @ lua_typename v)))) (\<lambda>grow.
     lbind (lua_pop 1) (\<lambda>_. lret grow))))))"

fun copy_params :: "lua_env \<Rightarrow> nat \<Rightarrow> nat \<Rightarrow> nat \<Rightarrow> bool \<Rightarrow> ('d, bool) L_op" where
  "copy_params env u 0 i needs_rebind = lret needs_rebind"
| "copy_params env u (Suc n) i needs_rebind =
     lbind (copy_param env u i) (\<lambda>grow. copy_params env u n (Suc i) (needs_rebind \<or> grow))"

text \<open>
  The loop that builds the new bindings; the pointer to the NULL flag of a string that is not NULL is cleared.
\<close>

fun rebind_params :: "lua_env \<Rightarrow> nat \<Rightarrow> nat \<Rightarrow> nat \<Rightarrow> ('d, db_bind_t list) L_op" where
  "rebind_params env u 0 i = lret []"
| "rebind_params env u (Suc n) i =
     lbind (param_at u i) (\<lambda>p.
     lbind (get_var (lb_is_null p)) (\<lambda>null.
     let b = bind_zero\<lparr>b_type := lb_type p, b_is_null := Some (lb_is_null p)\<rparr> in
     lbind (if null \<noteq> Flag_data False then lret b
            else (case lb_type p of
                    DB_TYPE_INT \<Rightarrow> lret (b\<lparr>b_buffer := lb_buf p\<rparr>)
                  | DB_TYPE_CHAR \<Rightarrow> lret (b\<lparr>b_buffer := lb_buf p, b_data_len := Some (lb_buflen p), b_is_null := None\<rparr>)
                  | _ \<Rightarrow> luaL_error env ''Unsupported variable type'')) (\<lambda>b.
     lbind (rebind_params env u n (Suc i)) (\<lambda>bs. lret (b # bs)))))"

definition rebind_stmt :: "'d lua_sys \<Rightarrow> nat \<Rightarrow> ('d, unit) L_op" where
  "rebind_stmt sy u =
     lbind L_malloc (\<lambda>ok. if \<not> ok then luaL_error (sy_lua sy) ''Memory allocation failure'' else
     lbind (stmt_of u) (\<lambda>sl.
     lbind (rebind_params (sy_lua sy) u (unat (sl_nparams sl)) 0) (\<lambda>binds.
     lbind (stmt_ptr u) (\<lambda>s.
     lbind (on_db (db_bind_param (sy_drvs sy) s binds (sl_nparams sl))) (\<lambda>rc.
       if rc \<noteq> 0 then luaL_error (sy_lua sy) ''db_bind_param() failed'' else lret ())))))"

definition sb_lua_db_execute :: "'d lua_sys \<Rightarrow> ('d, nat) L_op" where
  "sb_lua_db_execute sy =
     (let env = sy_lua sy in
      lbind (sb_lua_get_context env) (\<lambda>c. lbind (CHECK_CONNECTION env c) (\<lambda>con.
      lbind (luaL_checkudata env 1 ''sysbench.stmt'') (\<lambda>u.
      lbind (stmt_of u) (\<lambda>sl.
      lbind (lua_rawgeti_registry (sl_param_ref sl)) (\<lambda>_.
      lbind (lua_isnil (- 1)) (\<lambda>nil. lbind (lua_istable (- 1)) (\<lambda>tab.
      if \<not> nil \<and> \<not> tab then luaL_error env ''table expected'' else
      lbind (copy_params env u (unat (sl_nparams sl)) 0 False) (\<lambda>needs_rebind.
      lbind (if needs_rebind then rebind_stmt sy u else lret ()) (\<lambda>_.
      lbind (stmt_ptr u) (\<lambda>s.
      lbind (on_db (db_execute (sy_drvs sy) s)) (\<lambda>ptr. case ptr of
        None \<Rightarrow> lbind (upd_sl u (\<lambda>sl. sl\<lparr>sl_rs := None\<rparr>)) (\<lambda>_. raise_errno con)
      | Some rs \<Rightarrow>
          lbind (lua_newuserdata ''sysbench.rs'' (Rs_udata (Some rs))) (\<lambda>a.
          lbind (upd_sl u (\<lambda>sl. sl\<lparr>sl_rs := Some a\<rparr>)) (\<lambda>_. lret 1))))))))))))))"

text \<open>The variables of the parameters are released.\<close>

fun free_bufs :: "nat \<Rightarrow> nat \<Rightarrow> nat \<Rightarrow> ('d, unit) L_op" where
  "free_bufs u 0 i = lret ()"
| "free_bufs u (Suc n) i =
     lbind (param_at u i) (\<lambda>p. lbind (case lb_buf p of None \<Rightarrow> lret () | Some a \<Rightarrow> free_var a) (\<lambda>_. free_bufs u n (Suc i)))"

fun free_fields :: "sb_lua_bind_t list \<Rightarrow> ('d, unit) L_op" where
  "free_fields [] = lret ()"
| "free_fields (p # ps) = lbind (free_var (lb_buflen p)) (\<lambda>_. lbind (free_var (lb_is_null p)) (\<lambda>_. free_fields ps))"

definition sb_lua_db_close :: "'d lua_sys \<Rightarrow> ('d, nat) L_op" where
  "sb_lua_db_close sy =
     (let env = sy_lua sy in
      lbind (sb_lua_get_context env) (\<lambda>c. lbind (CHECK_CONNECTION env c) (\<lambda>_.
      lbind (luaL_checkudata env 1 ''sysbench.stmt'') (\<lambda>u.
      lbind (stmt_of u) (\<lambda>sl.
      lbind (free_bufs u (unat (sl_nparams sl)) 0) (\<lambda>_.
      lbind (case sl_params sl of None \<Rightarrow> lret () | Some ps \<Rightarrow> free_fields ps) (\<lambda>_.
      lbind (upd_sl u (\<lambda>sl. sl\<lparr>sl_params := None\<rparr>)) (\<lambda>_.
      lbind (luaL_unref (sl_param_ref sl)) (\<lambda>_. lbind (luaL_unref (sl_result_ref sl)) (\<lambda>_.
      lbind (on_db (db_close (sy_drvs sy) (sl_ptr sl))) (\<lambda>_. lret 0)))))))))))"

section \<open>Result sets\<close>

definition checked_rs :: "'d lua_sys \<Rightarrow> ('d, nat \<times> nat) L_op" where
  "checked_rs sy =
     lbind (sb_lua_get_context (sy_lua sy)) (\<lambda>c. lbind (CHECK_CONNECTION (sy_lua sy) c) (\<lambda>_.
     lbind (luaL_checkudata (sy_lua sy) 1 ''sysbench.rs'') (\<lambda>a.
     lbind (rs_of a) (\<lambda>r. case r of None \<Rightarrow> lfault Null_deref | Some rs \<Rightarrow> lret (a, rs)))))"

definition sb_lua_db_store_results :: "'d lua_sys \<Rightarrow> ('d, nat) L_op" where
  "sb_lua_db_store_results sy =
     lbind (checked_rs sy) (\<lambda>(a, rs). lbind (on_db (db_store_results (sy_drvs sy) rs)) (\<lambda>_. lret 0))"

definition sb_lua_db_free_results :: "'d lua_sys \<Rightarrow> ('d, nat) L_op" where
  "sb_lua_db_free_results sy =
     lbind (checked_rs sy) (\<lambda>(a, rs). lbind (on_db (db_free_results (sy_drvs sy) rs)) (\<lambda>_.
     lbind (lmod (\<lambda>L. L\<lparr>ls_udata := (ls_udata L)(a := Some (''sysbench.rs'', Rs_udata None))\<rparr>)) (\<lambda>_. lret 0)))"

section \<open>Random numbers\<close>

definition on_rand :: "(rand_t \<Rightarrow> ('a \<times> rand_t) res) \<Rightarrow> ('d, 'a) L_op" where
  "on_rand f = on_db (\<lambda>db. rbind (f (pg_rand (ds_pg db))) (\<lambda>(x, r). Inr (x, db\<lparr>ds_pg := (ds_pg db)\<lparr>pg_rand := r\<rparr>\<rparr>)))"

definition rand_function :: "'d lua_sys \<Rightarrow> (int \<Rightarrow> int \<Rightarrow> rand_t \<Rightarrow> (int \<times> rand_t) res) \<Rightarrow> ('d, nat) L_op" where
  "rand_function sy f =
     lbind (check_int (sy_lua sy) 1) (\<lambda>a. lbind (check_int (sy_lua sy) 2) (\<lambda>b.
     lbind (on_rand (f a b)) (\<lambda>x. lbind (lua_push (LNumber (of_int x))) (\<lambda>_. lret 1))))"

definition sb_lua_rand :: "'d lua_sys \<Rightarrow> ('d, nat) L_op" where
  "sb_lua_rand sy = rand_function sy (sb_rand (sy_fp sy))"

definition sb_lua_rand_uniform :: "'d lua_sys \<Rightarrow> ('d, nat) L_op" where
  "sb_lua_rand_uniform sy = rand_function sy sb_rand_uniform"

definition sb_lua_rand_gaussian :: "'d lua_sys \<Rightarrow> ('d, nat) L_op" where
  "sb_lua_rand_gaussian sy = rand_function sy sb_rand_gaussian"

definition sb_lua_rand_special :: "'d lua_sys \<Rightarrow> ('d, nat) L_op" where
  "sb_lua_rand_special sy = rand_function sy sb_rand_special"

definition sb_lua_rand_uniq :: "'d lua_sys \<Rightarrow> ('d, nat) L_op" where
  "sb_lua_rand_uniq sy = rand_function sy sb_rand_uniq"

definition sb_lua_rnd :: "('d, nat) L_op" where
  "sb_lua_rnd = lbind (on_rand (\<lambda>r. Inr (sb_rnd r))) (\<lambda>x. lbind (lua_push (LNumber (real x))) (\<lambda>_. lret 1))"

definition sb_lua_rand_str :: "'d lua_sys \<Rightarrow> ('d, nat) L_op" where
  "sb_lua_rand_str sy =
     lbind (luaL_checkstring (sy_lua sy) (- 1)) (\<lambda>fmt.
     lbind L_malloc (\<lambda>ok. if \<not> ok then lfault Null_deref else
     lbind (on_rand (sb_rand_str fmt)) (\<lambda>buf. lbind (lua_push (LString buf)) (\<lambda>_. lret 1))))"

section \<open>Exported functions and variables\<close>

definition lua_exports :: "'d lua_sys \<Rightarrow> (string \<times> ('d, nat) L_op) list" where
  "lua_exports sy =
     [(''sb_rand'', sb_lua_rand sy), (''sb_rand_uniq'', sb_lua_rand_uniq sy), (''sb_rnd'', sb_lua_rnd), (''sb_rand_str'', sb_lua_rand_str sy),
      (''sb_rand_uniform'', sb_lua_rand_uniform sy), (''sb_rand_gaussian'', sb_lua_rand_gaussian sy),
      (''sb_rand_special'', sb_lua_rand_special sy), (''db_connect'', sb_lua_db_connect sy), (''db_disconnect'', sb_lua_db_disconnect sy),
      (''db_query'', sb_lua_db_query sy), (''db_bulk_insert_init'', sb_lua_db_bulk_insert_init sy),
      (''db_bulk_insert_next'', sb_lua_db_bulk_insert_next sy), (''db_bulk_insert_done'', sb_lua_db_bulk_insert_done sy),
      (''db_prepare'', sb_lua_db_prepare sy), (''db_bind_param'', sb_lua_db_bind_param sy), (''db_bind_result'', sb_lua_db_bind_result sy),
      (''db_execute'', sb_lua_db_execute sy), (''db_close'', sb_lua_db_close sy), (''db_store_results'', sb_lua_db_store_results sy),
      (''db_free_results'', sb_lua_db_free_results sy)]"

definition lua_cfun :: "'d lua_sys \<Rightarrow> string \<Rightarrow> ('d, nat) L_op" where
  "lua_cfun sy name = (case map_of (lua_exports sy) name of None \<Rightarrow> lfault Bad_access | Some f \<Rightarrow> f)"

text \<open>
  The value of an option is pushed; for a file option, and for one of an unknown type, nothing is pushed.
\<close>

definition push_option :: "fpenv \<Rightarrow> option_t \<Rightarrow> ('d, unit) L_op" where
  "push_option fp opt =
     (case opt_type opt of
        SB_ARG_TYPE_FLAG \<Rightarrow> lua_push (LBool (sb_opt_to_flag opt))
      | SB_ARG_TYPE_INT \<Rightarrow> lbind (lres (sb_opt_to_int opt)) (\<lambda>i. lua_push (LNumber (of_int i)))
      | SB_ARG_TYPE_FLOAT \<Rightarrow> lbind (lres (sb_opt_to_float fp opt)) (\<lambda>x. lua_push (LNumber x))
      | SB_ARG_TYPE_SIZE \<Rightarrow> lua_push (LNumber (u64_double fp (sb_opt_to_size opt)))
      | SB_ARG_TYPE_STRING \<Rightarrow> lua_push (LString (case sb_opt_to_string opt of None \<Rightarrow> [] | Some s \<Rightarrow> s))
      | SB_ARG_TYPE_LIST \<Rightarrow> lua_push LNil
      | SB_ARG_TYPE_FILE \<Rightarrow> lret ()
      | SB_ARG_TYPE_NULL \<Rightarrow>
          on_db (\<lambda>db. rbind (d_log LOG_WARNING (''Global option '' @ [CHR 0x27] @ opt_name opt @ [CHR 0x27]
            @ '' will not be exported, because the type is unknown'') db) (\<lambda>db. Inr ((), db))))"

fun export_options :: "fpenv \<Rightarrow> option_t list \<Rightarrow> ('d, unit) L_op" where
  "export_options fp [] = lret ()"
| "export_options fp (opt # opts) =
     lbind (push_option fp opt) (\<lambda>_. lbind (lua_setglobal (opt_name opt)) (\<lambda>_. export_options fp opts))"

fun export_values :: "(string \<times> lua_value) list \<Rightarrow> ('d, unit) L_op" where
  "export_values [] = lret ()"
| "export_values ((n, v) # vs) = lbind (lua_push v) (\<lambda>_. lbind (lua_setglobal n) (\<lambda>_. export_values vs))"

definition lua_constants :: "(string \<times> lua_value) list" where
  "lua_constants =
     [(''DB_ERROR_NONE'', LNumber (db_errno_num SB_DB_ERROR_NONE)),
      (''DB_ERROR_RESTART_TRANSACTION'', LNumber (db_errno_num SB_DB_ERROR_RESTART_TRANSACTION)),
      (''DB_ERROR_FAILED'', LNumber (db_errno_num SB_DB_ERROR_FAILED))]"

text \<open>The state of a new interpreter after the libraries have been opened; \<^verbatim>\<open>luaopen_math\<close> leaves its table on the stack.\<close>

definition lua_newstate :: "lua_env \<Rightarrow> L_state" where
  "lua_newstate env =
     \<lparr>ls_stack = [le_math env], ls_mem = le_libs env, ls_refs = (\<lambda>_. LNil), ls_light = (\<lambda>_. LNil), ls_udata = (\<lambda>_. None), ls_next = 0\<rparr>"

definition load_script :: "'d lua_sys \<Rightarrow> string \<Rightarrow> ('d, unit) L_op" where
  "load_script sy scriptname =
     (case le_load (sy_lua sy) scriptname of
        Inl e \<Rightarrow> lraise e
      | Inr chunk \<Rightarrow> lbind (run_script (lua_cfun sy) chunk) (\<lambda>_. lret ()))"

text \<open>The two metatables stay on the stack; \<open>LTable 0\<close> stands for them.\<close>

definition prepare_state :: "'d lua_sys \<Rightarrow> string \<Rightarrow> ('d, unit) L_op" where
  "prepare_state sy scriptname =
     lbind (lworld (\<lambda>x. Inr (os_options (pg_opts (ds_pg (lx_db x))), x))) (\<lambda>opts.
     lbind (export_options (sy_fp sy) opts) (\<lambda>_.
     lbind (export_values (map (\<lambda>(n, f). (n, LFunction (C_fun n))) (lua_exports sy) @ lua_constants)) (\<lambda>_.
     lbind (lua_push (LTable 0)) (\<lambda>_. lbind (lua_push (LTable 0)) (\<lambda>_. load_script sy scriptname)))))"

definition sb_lua_new_state :: "'d lua_sys \<Rightarrow> string \<Rightarrow> int \<Rightarrow> 'd lua_shared \<Rightarrow> (L_state option \<times> 'd lua_shared) res" where
  "sb_lua_new_state sy scriptname thread_id x =
     (case d_malloc (lx_db x) of (ok, db) \<Rightarrow>
        if \<not> ok then Inl Null_deref
        else
          rbind (unprotected (prepare_state sy scriptname) (lua_newstate (sy_lua sy), x\<lparr>lx_db := db\<rparr>)) (\<lambda>(_, L, x).
            case d_malloc (lx_db x) of (ok, db) \<Rightarrow>
              if \<not> ok then Inr (None, x\<lparr>lx_db := db\<rparr>)
              else
                (let c = ds_next db in
                 Inr (Some (sb_lua_set_context c L),
                      x\<lparr>lx_db := db\<lparr>ds_next := c + 1\<rparr>,
                        lx_ctxts := (lx_ctxts x)(c := Some \<lparr>ctx_thread_id = thread_id, ctx_con = None\<rparr>)\<rparr>))))"

section \<open>The test\<close>

text \<open>The program's state is a part of the state of the database layer while functions of a script run.\<close>

definition shared_of :: "'d lua_vars st \<Rightarrow> 'd lua_shared" where
  "shared_of s = (lv_shared (snd s))\<lparr>lx_db := (lx_db (lv_shared (snd s)))\<lparr>ds_pg := fst s\<rparr>\<rparr>"

definition put_shared :: "'d lua_shared \<Rightarrow> 'd lua_vars st \<Rightarrow> 'd lua_vars st" where
  "put_shared x s = (ds_pg (lx_db x), (snd s)\<lparr>lv_shared := x\<rparr>)"

text \<open>A function on the interpreter of a thread, and on the global one.\<close>

definition on_thread :: "nat \<Rightarrow> ('d, 'a) L_op \<Rightarrow> 'd lua_vars st \<Rightarrow> ('a \<times> 'd lua_vars st) res" where
  "on_thread i m s =
     (case lv_states (snd s) of
        None \<Rightarrow> Inl Null_deref
      | Some states \<Rightarrow>
          rbind (aread states i) (\<lambda>L. case L of
            None \<Rightarrow> Inl Null_deref
          | Some L \<Rightarrow>
              rbind (unprotected m (L, shared_of s)) (\<lambda>(r, L, x).
                Inr (r, put_shared x (fst s, (snd s)\<lparr>lv_states := Some (states[i := Some L])\<rparr>)))))"

definition on_gstate :: "('d, 'a) L_op \<Rightarrow> 'd lua_vars st \<Rightarrow> ('a \<times> 'd lua_vars st) res" where
  "on_gstate m s =
     (case lv_gstate (snd s) of
        None \<Rightarrow> Inl Null_deref
      | Some L \<Rightarrow>
          rbind (unprotected m (L, shared_of s)) (\<lambda>(r, L, x). Inr (r, put_shared x (fst s, (snd s)\<lparr>lv_gstate := Some L\<rparr>))))"

definition L_log :: "log_msg_priority_t \<Rightarrow> string \<Rightarrow> ('d, unit) L_op" where
  "L_log p m = on_db (\<lambda>db. rbind (d_log p m db) (\<lambda>db. Inr ((), db)))"

text \<open>The message of a failed call.\<close>

definition error_text :: "lua_env \<Rightarrow> ('d, string) L_op" where
  "error_text env = lbind (lua_tolstring env (- 1)) (\<lambda>s. lret (case s of None \<Rightarrow> ''(null)'' | Some s \<Rightarrow> c_string s))"

definition CALL_ERROR :: "lua_env \<Rightarrow> log_msg_priority_t \<Rightarrow> string \<Rightarrow> ('d, unit) L_op" where
  "CALL_ERROR env p name =
     lbind (error_text env) (\<lambda>err. L_log p (''failed to execute function `'' @ name @ [CHR 0x27] @ '': '' @ err))"

definition sb_lua_init :: "'d lua_vars op" where
  "sb_lua_init s = Inr (0, s)"

definition sb_lua_get_request :: "nat \<Rightarrow> 'd lua_vars st \<Rightarrow> (request_u sb_request \<times> 'd lua_vars st) res" where
  "sb_lua_get_request thread_id s =
     (if g_max_requests (s_globals s) \<noteq> 0 \<and> lv_nevents (snd s) \<ge> g_max_requests (s_globals s)
      then Inr ((SB_REQ_TYPE_NULL, None), s)
      else Inr ((SB_REQ_TYPE_SCRIPT, None), (fst s, (snd s)\<lparr>lv_nevents := lv_nevents (snd s) + 1\<rparr>)))"

text \<open>One round of the loop over a transaction: it is done, it is started again, or it has failed.\<close>

datatype event_result = Event_done | Event_restart | Event_failed

definition event_attempt :: "'d lua_sys \<Rightarrow> nat \<Rightarrow> ('d, event_result) L_op" where
  "event_attempt sy thread_id =
     (let env = sy_lua sy in
      lbind (lua_getglobal ''event'') (\<lambda>_.
      lbind (lua_push (LNumber (real thread_id))) (\<lambda>_.
      lbind (lua_pcall env (lua_cfun sy) 1 1) (\<lambda>rc.
        if rc \<noteq> 0
        then
          lbind lua_gettop (\<lambda>top. lbind (lua_at (- 1)) (\<lambda>v.
            if top \<noteq> 0 \<and> luaV_tonumber env v = Some (db_errno_num SB_DB_ERROR_RESTART_TRANSACTION)
            then
              lbind (L_log LOG_DEBUG ''Ignored error encountered, restarting transaction'') (\<lambda>_.
              lbind (lua_pop 1) (\<lambda>_. lret Event_restart))
            else lbind (CALL_ERROR env LOG_DEBUG ''event'') (\<lambda>_. lret Event_failed)))
        else lbind (lua_pop 1) (\<lambda>_. lret Event_done)))))"

text \<open>The loop, with fuel for the number of rounds.\<close>

fun event_loop :: "nat \<Rightarrow> 'd lua_sys \<Rightarrow> nat \<Rightarrow> 'd lua_vars st \<Rightarrow> (event_result \<times> 'd lua_vars st) res" where
  "event_loop 0 sy thread_id s = Inl Still_running"
| "event_loop (Suc fuel) sy thread_id s =
     rbind (on_thread thread_id (event_attempt sy thread_id) s)
       (\<lambda>(r, s). if r = Event_restart then event_loop fuel sy thread_id s else Inr (r, s))"

text \<open>The part of a request after the event has ended.\<close>

definition record_event :: "'d lua_sys \<Rightarrow> nat \<Rightarrow> 'd lua_vars op" where
  "record_event sy i s =
     rbind (s_event_stop (sy_fp sy) i s) (\<lambda>s.
     rbind (thread_timer_value i (pg_w (fst s))) (\<lambda>(v, w).
       let s = ((fst s)\<lparr>pg_w := w\<rparr>, snd s); db = lx_db (lv_shared (snd s)) in
       case local_percentile db of
         None \<Rightarrow> Inl Null_deref
       | Some p \<Rightarrow>
           rbind (sb_percentile_update (sy_fp sy) p (u64_double (sy_fp sy) v)) (\<lambda>p.
             Inr (0, (fst s, (snd s)\<lparr>lv_shared := (lv_shared (snd s))\<lparr>lx_db := db\<lparr>local_percentile := Some p\<rparr>\<rparr>\<rparr>)))))"

definition sb_lua_op_execute_request :: "nat \<Rightarrow> 'd lua_sys \<Rightarrow> request_u sb_request \<Rightarrow> nat \<Rightarrow> 'd lua_vars op" where
  "sb_lua_op_execute_request fuel sy sb_req thread_id s =
     rbind (s_event_start (sy_fp sy) thread_id s) (\<lambda>s.
     rbind (event_loop fuel sy thread_id s) (\<lambda>(r, s).
       if r = Event_failed then Inr (1, upd_sg (\<lambda>g. g\<lparr>g_error := 1\<rparr>) s) else record_event sy thread_id s))"

text \<open>A call of a function of the script with the thread number.\<close>

definition call_hook :: "'d lua_sys \<Rightarrow> string \<Rightarrow> nat \<Rightarrow> ('d, int) L_op" where
  "call_hook sy name thread_id =
     (let env = sy_lua sy in
      lbind (lua_getglobal name) (\<lambda>_.
      lbind (lua_push (LNumber (real thread_id))) (\<lambda>_.
      lbind (lua_pcall env (lua_cfun sy) 1 1) (\<lambda>rc.
        if rc \<noteq> 0 then lbind (CALL_ERROR env LOG_DEBUG name) (\<lambda>_. lret 1) else lret 0))))"

definition sb_lua_op_thread_init :: "'d lua_sys \<Rightarrow> nat \<Rightarrow> 'd lua_vars op" where
  "sb_lua_op_thread_init sy thread_id =
     on_thread thread_id
       (lbind (sb_lua_get_context (sy_lua sy)) (\<lambda>c.
        lbind (ctxt_at c) (\<lambda>ctxt.
        lbind (if ctx_con ctxt = None then sb_lua_db_connect sy else lret 0) (\<lambda>_. call_hook sy ''thread_init'' thread_id))))"

definition sb_lua_op_thread_done :: "'d lua_sys \<Rightarrow> nat \<Rightarrow> 'd lua_vars op" where
  "sb_lua_op_thread_done sy thread_id = on_thread thread_id (call_hook sy ''thread_done'' thread_id)"

definition sb_lua_op_print_stats :: "'d lua_sys \<Rightarrow> sb_stat_t \<Rightarrow> 'd lua_vars st \<Rightarrow> 'd lua_vars st res" where
  "sb_lua_op_print_stats sy ty s =
     (let x = shared_of s in
      if lx_driver x \<noteq> None
      then rbind (db_print_stats (sy_fp sy) ty (lx_db x)) (\<lambda>db. Inr (put_shared (x\<lparr>lx_db := db\<rparr>) s))
      else Inr s)"

text \<open>\<^verbatim>\<open>lua_close\<close> of a NULL state is a fault; a closed state is not accessible any more.\<close>

definition sb_lua_done :: "'d lua_vars op" where
  "sb_lua_done s =
     (let n = unat (g_num_threads (s_globals s)) in
      case lv_states (snd s) of
        None \<Rightarrow> if n = 0 then Inr (0, s) else Inl Null_deref
      | Some states \<Rightarrow>
          if length states < n then Inl Out_of_bounds
          else if None \<in> set (take n states) then Inl Null_deref
          else Inr (0, (fst s, (snd s)\<lparr>lv_states := None\<rparr>)))"

section \<open>Commands and loading\<close>

definition lua_command :: "'d lua_sys \<Rightarrow> string \<Rightarrow> 'd lua_vars op" where
  "lua_command sy name =
     on_gstate
       (lbind (lua_getglobal name) (\<lambda>_.
        lbind (lua_pcall (sy_lua sy) (lua_cfun sy) 0 1) (\<lambda>rc.
          if rc \<noteq> 0 then lbind (CALL_ERROR (sy_lua sy) LOG_FATAL name) (\<lambda>_. lret 1) else lret 0)))"

definition sb_lua_cmd_prepare :: "'d lua_sys \<Rightarrow> 'd lua_vars op" where
  "sb_lua_cmd_prepare sy = lua_command sy ''prepare''"

definition sb_lua_cmd_cleanup :: "'d lua_sys \<Rightarrow> 'd lua_vars op" where
  "sb_lua_cmd_cleanup sy = lua_command sy ''cleanup''"

definition sb_lua_cmd_help :: "'d lua_sys \<Rightarrow> 'd lua_vars op" where
  "sb_lua_cmd_help sy = lua_command sy ''help''"

text \<open>Which functions the script has; the values looked up stay on the stack, except for the first one.\<close>

record script_has =
  has_prepare :: bool
  has_cleanup :: bool
  has_help :: bool
  has_thread_init :: bool
  has_thread_done :: bool

definition probe_script :: "('d, script_has) L_op" where
  "probe_script =
     lbind (lua_getglobal ''prepare'') (\<lambda>_. lbind (lua_isnil (- 1)) (\<lambda>no_prepare. lbind (lua_pop 1) (\<lambda>_.
     lbind (lua_getglobal ''cleanup'') (\<lambda>_. lbind (lua_isnil (- 1)) (\<lambda>no_cleanup.
     lbind (lua_getglobal ''help'') (\<lambda>_. lbind (lua_isnil (- 1)) (\<lambda>no_help. lbind (lua_isfunction (- 1)) (\<lambda>help_fun.
     lbind (lua_getglobal ''thread_init'') (\<lambda>_. lbind (lua_isnil (- 1)) (\<lambda>no_init.
     lbind (lua_getglobal ''thread_done'') (\<lambda>_. lbind (lua_isnil (- 1)) (\<lambda>no_done.
       lret \<lparr>has_prepare = \<not> no_prepare, has_cleanup = \<not> no_cleanup, has_help = \<not> no_help \<and> help_fun,
             has_thread_init = \<not> no_init, has_thread_done = \<not> no_done\<rparr>))))))))))))"

definition lua_test :: "nat \<Rightarrow> 'd lua_sys \<Rightarrow> string \<Rightarrow> script_has \<Rightarrow> ('d lua_vars, request_u) sb_test" where
  "lua_test fuel sy testname has =
     (let when = (\<lambda>b f. if b then Some f else None) in
      \<lparr>t_sname = testname, t_lname = [],
       op_init = Some sb_lua_init, op_prepare = None,
       op_thread_init = (if has_thread_init has then Some (sb_lua_op_thread_init sy) else None), op_print_mode = None,
       op_get_request = Some sb_lua_get_request, op_execute_request = Some (sb_lua_op_execute_request fuel sy),
       op_print_stats = Some (sb_lua_op_print_stats sy),
       op_thread_done = (if has_thread_done has then Some (sb_lua_op_thread_done sy) else None), op_cleanup = None,
       op_done = Some sb_lua_done,
       cmd_help = when (has_help has) (sb_lua_cmd_help sy), cmd_prepare = when (has_prepare has) (sb_lua_cmd_prepare sy),
       cmd_run = None, cmd_cleanup = when (has_cleanup has) (sb_lua_cmd_cleanup sy), t_args = None\<rparr>)"

text \<open>The interpreters of the threads \<open>i\<close> and higher; the result is \<open>False\<close> when one cannot be created.\<close>

fun create_states ::
  "'d lua_sys \<Rightarrow> string \<Rightarrow> nat \<Rightarrow> nat \<Rightarrow> L_state option list \<Rightarrow> 'd lua_shared \<Rightarrow> (bool \<times> L_state option list \<times> 'd lua_shared) res" where
  "create_states sy testname 0 i states x = Inr (True, states, x)"
| "create_states sy testname (Suc n) i states x =
     rbind (sb_lua_new_state sy testname (int i) x) (\<lambda>(L, x).
       if L = None then Inr (False, states, x) else create_states sy testname n (Suc i) (states[i := L]) x)"

definition script_load_lua ::
  "nat \<Rightarrow> 'd lua_sys \<Rightarrow> string \<Rightarrow> 'd lua_vars st \<Rightarrow> (('d lua_vars, request_u) sb_test option \<times> 'd lua_vars st) res" where
  "script_load_lua fuel sy testname s =
     (let n = unat (g_num_threads (s_globals s));
          failed = (\<lambda>s. Inr (None, (fst s, (snd s)\<lparr>lv_gstate := None, lv_states := None\<rparr>))) in
      rbind (sb_lua_new_state sy testname (- 1) (shared_of s)) (\<lambda>(g, x).
        let s = put_shared x (fst s, (snd s)\<lparr>lv_gstate := g\<rparr>) in
        if g = None then failed s
        else
          rbind (on_gstate probe_script s) (\<lambda>(has, s).
            case d_malloc (lx_db (shared_of s)) of (ok, db) \<Rightarrow>
              let x = (shared_of s)\<lparr>lx_db := db\<rparr> in
              if \<not> ok then failed (put_shared x s)
              else
                rbind (create_states sy testname n 0 (replicate n None) x) (\<lambda>(ok, states, x).
                  let s = put_shared x (fst s, (snd s)\<lparr>lv_states := Some states\<rparr>) in
                  if ok then Inr (Some (lua_test fuel sy testname has), s) else failed s))))"

text \<open>\<^verbatim>\<open>script_load\<close> copies the name; the result of \<^verbatim>\<open>strdup\<close> is not checked, and a NULL name prints as below.\<close>

definition script_load ::
  "nat \<Rightarrow> 'd lua_sys \<Rightarrow> string \<Rightarrow> 'd lua_vars st \<Rightarrow> (('d lua_vars, request_u) sb_test option \<times> 'd lua_vars st) res" where
  "script_load fuel sy testname s =
     (case d_malloc (lx_db (shared_of s)) of (ok, db) \<Rightarrow>
        rbind (script_load_lua fuel sy testname (put_shared ((shared_of s)\<lparr>lx_db := db\<rparr>) s)) (\<lambda>(test, s).
          Inr (map_option (\<lambda>t. t\<lparr>t_sname := (if ok then testname else ''(null)'')\<rparr>) test, s)))"

end
