(* ===== verification/ScriptRun.thy ===== *)
theory ScriptRun
  imports ScriptLua
begin

text \<open>
  What the scripting component guarantees: the stack of an interpreter is balanced, an event is repeated as long as the script asks for it
  and measured once, other errors end the thread, a worker serves the limit of requests, and a new interpreter knows the options
  of the program.
\<close>

section \<open>Stepping through the interface\<close>

lemma lua_push_bind [simp]: "lbind (lua_push v) f s = f () ((fst s)\<lparr>ls_stack := ls_stack (fst s) @ [v]\<rparr>, snd s)"
  by (simp add: lua_push_def)

lemma lua_at_bind [simp]: "lbind (lua_at i) f s = f (index2adr (ls_stack (fst s)) i) s"
  by (simp add: lua_at_def)

lemma lua_getglobal_bind [simp]:
  "lbind (lua_getglobal n) f s = f () ((fst s)\<lparr>ls_stack := ls_stack (fst s) @ [lm_globals (ls_mem (fst s)) n]\<rparr>, snd s)"
  by (simp add: lua_getglobal_def lbind_assoc)

lemma lua_isnil_bind [simp]: "lbind (lua_isnil i) f s = f (index2adr (ls_stack (fst s)) i = Some LNil) s"
  by (simp add: lua_isnil_def lbind_assoc)

lemma lua_gettop_bind [simp]: "lbind lua_gettop f s = f (length (ls_stack (fst s))) s"
  by (simp add: lua_gettop_def)

lemma index2adr_top [simp]:
  "index2adr (stk @ [v]) (- 1) = Some v" "index2adr (stk @ [u, v]) (- 1) = Some v" "index2adr (stk @ [u, v]) (- 2) = Some u"
  by (simp_all add: index2adr_def nth_append)

lemma lua_pop_bind: "ls_stack L = stk @ [v] \<Longrightarrow> lbind (lua_pop (Suc 0)) f (L, x) = f () (L\<lparr>ls_stack := stk\<rparr>, x)"
  by (simp add: lua_pop_def lbind_def)

lemma lworld_bind [simp]: "lbind (lworld f) g s = rbind (f (snd s)) (\<lambda>(r, x). g r (fst s, x))"
  by (cases "f (snd s)") (auto simp: lbind_def lworld_def)

lemma on_db_bind [simp]: "lbind (on_db f) g s = rbind (f (lx_db (snd s))) (\<lambda>(r, db). g r (fst s, (snd s)\<lparr>lx_db := db\<rparr>))"
  by (cases "f (lx_db (snd s))") (auto simp: on_db_def)

lemma L_log_bind [simp]: "lbind (L_log p m) g s = rbind (d_log p m (lx_db (snd s))) (\<lambda>db. g () (fst s, (snd s)\<lparr>lx_db := db\<rparr>))"
  by (cases "d_log p m (lx_db (snd s))") (auto simp: L_log_def)

lemma L_log_eval: "L_log p m s = rbind (d_log p m (lx_db (snd s))) (\<lambda>db. Inr (Inr (), (fst s, (snd s)\<lparr>lx_db := db\<rparr>)))"
  by (cases "d_log p m (lx_db (snd s))") (auto simp: L_log_def on_db_def lworld_def)

lemma stack_same [simp]: "ls_stack L = stk \<Longrightarrow> L\<lparr>ls_stack := stk\<rparr> = L"
  by auto

text \<open>A script leaves the stack of its caller alone.\<close>

lemma call_C_stack:
  assumes "call_C f args s = Inr (r, s')"
  shows "ls_stack (fst s') = ls_stack (fst s)"
proof -
  obtain q s1 where q: "f ((fst s)\<lparr>ls_stack := args\<rparr>, snd s) = Inr (q, s1)"
    using assms by (auto simp: call_C_def rbind_eq_Inr)
  then show ?thesis
    using assms by (cases q) (auto simp: call_C_def Let_def)
qed

lemma run_script_stack: "run_script cfun sc s = Inr (r, s') \<Longrightarrow> ls_stack (fst s') = ls_stack (fst s)"
proof (induction sc arbitrary: s r s')
  case (Compute f)
  obtain m k where mk: "f (ls_mem (fst s)) = (m, k)"
    by (metis surj_pair)
  then show ?case
    using Compute.IH [of "(m, k)" k "((fst s)\<lparr>ls_mem := m\<rparr>, snd s)" r s'] Compute.prems mk by (auto simp: rangeI) (metis rangeI)
next
  case (Call name args k)
  then obtain q s1 where q: "call_C (cfun name) args s = Inr (q, s1)" "run_script cfun (k q) s1 = Inr (r, s')"
    by (auto simp: rbind_eq_Inr)
  then show ?case
    using Call.IH [of "k q" s1] call_C_stack [OF q(1)] by auto
qed (auto simp: lret_def lraise_def)

lemma adjust_one: "\<exists>v. adjust_results (Suc 0) vs = [v]"
  by (cases vs) (simp_all add: adjust_results_def)

section \<open>Events\<close>

text \<open>The \<^verbatim>\<open>event\<close> function of a script has been called.\<close>

definition event_call :: "'d lua_sys \<Rightarrow> nat \<Rightarrow> ('d, lua_value list) L_op" where
  "event_call sy i s =
     call_value (sy_lua sy) (lua_cfun sy) (lm_globals (ls_mem (fst s)) ''event'') [LNumber (real i)] s"

definition restart_message :: string where
  "restart_message = ''Ignored error encountered, restarting transaction''"

text \<open>
  The event asks \<open>k\<close> times to be restarted, with a message logged each time, and ends then with the result \<open>r\<close>: normally,
  or with an error other than the request for a restart.
\<close>

definition asks_restart :: "'d lua_sys \<Rightarrow> lua_value \<Rightarrow> bool" where
  "asks_restart sy e \<longleftrightarrow> luaV_tonumber (sy_lua sy) (Some e) = Some (db_errno_num SB_DB_ERROR_RESTART_TRANSACTION)"

fun event_ends ::
  "'d lua_sys \<Rightarrow> nat \<Rightarrow> nat \<Rightarrow> L_state \<times> 'd lua_shared \<Rightarrow> lua_value + lua_value list \<Rightarrow> L_state \<times> 'd lua_shared \<Rightarrow> bool" where
  "event_ends sy i 0 s r s' \<longleftrightarrow> event_call sy i s = Inr (r, s') \<and> (\<forall>e. r = Inl e \<longrightarrow> \<not> asks_restart sy e)"
| "event_ends sy i (Suc k) s r s' \<longleftrightarrow>
     (\<exists>e s1 s2. event_call sy i s = Inr (Inl e, s1) \<and> asks_restart sy e \<and>
        L_log LOG_DEBUG restart_message s1 = Inr (Inr (), s2) \<and> event_ends sy i k s2 r s')"

lemma call_value_stack: "call_value env cfun f args s = Inr (r, s') \<Longrightarrow> ls_stack (fst s') = ls_stack (fst s)"
  by (auto simp: call_value_def lraise_def split: lua_value.splits lua_fun.splits dest: call_C_stack run_script_stack)

lemma event_call_stack: "event_call sy i s = Inr (r, s') \<Longrightarrow> ls_stack (fst s') = ls_stack (fst s)"
  by (auto simp: event_call_def dest: call_value_stack)

lemma pcall_call:
  "lua_pcall env cfun (Suc 0) (Suc 0) (L\<lparr>ls_stack := ls_stack L @ [f, a]\<rparr>, x) =
     rbind (call_value env cfun f [a] (L, x)) (\<lambda>(r, s'). case r of
       Inl e \<Rightarrow> Inr (Inr LUA_ERRRUN, ((fst s')\<lparr>ls_stack := ls_stack (fst s') @ [e]\<rparr>, snd s'))
     | Inr vs \<Rightarrow> Inr (Inr 0, ((fst s')\<lparr>ls_stack := ls_stack (fst s') @ adjust_results (Suc 0) vs\<rparr>, snd s')))"
  by (simp add: lua_pcall_def Let_def lret_def nth_append cong: sum.case_cong)

lemma L_log_keeps: "L_log p m (L, x) = Inr (r, s') \<Longrightarrow> fst s' = L"
  by (auto simp: L_log_eval rbind_eq_Inr)

lemma event_attempt_called:
  assumes "event_call sy i (L, x) = Inr (r, (L', x'))"
  shows "event_attempt sy i (L, x) =
     (case r of
        Inr vs \<Rightarrow> Inr (Inr Event_done, (L', x'))
      | Inl e \<Rightarrow>
          if asks_restart sy e
          then rbind (L_log LOG_DEBUG restart_message (L', x')) (\<lambda>(_, s). Inr (Inr Event_restart, s))
          else lbind (CALL_ERROR (sy_lua sy) LOG_DEBUG ''event'') (\<lambda>_. lret Event_failed) (L'\<lparr>ls_stack := ls_stack L @ [e]\<rparr>, x'))"
proof -
  let ?ev = "lm_globals (ls_mem L) ''event''" and ?a = "LNumber (real i)"
  have stk: "ls_stack L' = ls_stack L"
    using event_call_stack [OF assms] by simp
  have call: "call_value (sy_lua sy) (lua_cfun sy) ?ev [?a] (L, x) = Inr (r, (L', x'))"
    using assms by (simp add: event_call_def)
  show ?thesis
  proof (cases r)
    case (Inr vs)
    obtain v where "adjust_results (Suc 0) vs = [v]"
      using adjust_one by blast
    then show ?thesis
      using call Inr stk by (simp add: event_attempt_def Let_def pcall_call lbind_def [of "lua_pcall _ _ _ _"] lua_pop_bind [of _ "ls_stack L" v] lret_def)
  next
    case (Inl e)
    have stop: "lbind (lua_pop 1) (\<lambda>_. lret Event_restart) (L'\<lparr>ls_stack := ls_stack L @ [e]\<rparr>, y) = Inr (Inr Event_restart, (L', y))" for y
      using stk by (simp add: lua_pop_bind [of _ "ls_stack L" e] lret_def)
    have "lbind (L_log LOG_DEBUG restart_message) (\<lambda>_. lbind (lua_pop 1) (\<lambda>_. lret Event_restart)) (L'\<lparr>ls_stack := ls_stack L @ [e]\<rparr>, x') =
        rbind (L_log LOG_DEBUG restart_message (L', x')) (\<lambda>(_, s). Inr (Inr Event_restart, s))"
      using stop by (cases "d_log LOG_DEBUG restart_message (lx_db x')") (simp_all add: L_log_eval)
    then show ?thesis
      using call Inl stk
      by (simp add: event_attempt_def Let_def pcall_call lbind_def [of "lua_pcall _ _ _ _"] LUA_ERRRUN_def asks_restart_def restart_message_def)
  qed
qed

text \<open>The state of the program with the interpreter of a thread and the shared state put in.\<close>

definition thread_state :: "nat \<Rightarrow> L_state \<Rightarrow> 'd lua_shared \<Rightarrow> 'd lua_vars st \<Rightarrow> 'd lua_vars st" where
  "thread_state i L x s =
     (ds_pg (lx_db x), (snd s)\<lparr>lv_states := map_option (\<lambda>states. states[i := Some L]) (lv_states (snd s)), lv_shared := x\<rparr>)"

definition has_state :: "nat \<Rightarrow> L_state \<Rightarrow> 'd lua_vars st \<Rightarrow> bool" where
  "has_state i L s \<longleftrightarrow> (\<exists>states. lv_states (snd s) = Some states \<and> i < length states \<and> states ! i = Some L)"

lemma on_thread_runs:
  assumes "has_state i L s" and "m (L, shared_of s) = Inr (Inr r, (L', x'))"
  shows "on_thread i m s = Inr (r, thread_state i L' x' s)"
  using assms by (auto simp: has_state_def on_thread_def unprotected_def put_shared_def thread_state_def)

lemma on_thread_put:
  "has_state i L s \<Longrightarrow> m (L, shared_of s) = m' (L', x') \<Longrightarrow> on_thread i m s = on_thread i m' (thread_state i L' x' s)"
  by (auto simp: has_state_def on_thread_def unprotected_def put_shared_def thread_state_def shared_of_def)

lemma thread_state_simps [simp]:
  "has_state i L s \<Longrightarrow> has_state i L' (thread_state i L' x s)"
  "shared_of (thread_state i L x s) = x" "thread_state i L' x' (thread_state i L x s) = thread_state i L' x' s"
  "fst (thread_state i L x s) = ds_pg (lx_db x)" "lv_nevents (snd (thread_state i L x s)) = lv_nevents (snd s)"
  "lv_shared (snd (thread_state i L x s)) = x" "lv_gstate (snd (thread_state i L x s)) = lv_gstate (snd s)"
  by (auto simp: has_state_def thread_state_def shared_of_def option.map_comp o_def)

lemma lret_last: "lbind m (\<lambda>_. lret v) s = Inr (Inr r, s') \<Longrightarrow> r = v"
  by (cases "m s") (auto simp: lbind_def lret_def split: sum.splits)

lemma unprotected_Inr: "unprotected m s = Inr (r, s') \<Longrightarrow> m s = Inr (Inr r, s')"
  by (cases "m s") (auto simp: unprotected_def split: sum.splits)

lemma on_thread_failed:
  assumes "on_thread i (lbind m (\<lambda>_. lret v)) s = Inr (r, s')"
  shows "r = v"
proof -
  obtain L t where "lbind m (\<lambda>_. lret v) (L, shared_of s) = Inr (Inr r, t)"
    using assms by (auto simp: on_thread_def rbind_eq_Inr dest!: unprotected_Inr split: option.splits)
  then show ?thesis by (rule lret_last)
qed

lemma event_loop_ends:
  assumes "event_ends sy i k (L, shared_of s) r (L', x')" and "has_state i L s" and "k < fuel"
  shows "event_loop fuel sy i s =
     (case r of
        Inr vs \<Rightarrow> Inr (Event_done, thread_state i L' x' s)
      | Inl e \<Rightarrow> on_thread i (lbind (CALL_ERROR (sy_lua sy) LOG_DEBUG ''event'') (\<lambda>_. lret Event_failed))
                    (thread_state i (L'\<lparr>ls_stack := ls_stack L' @ [e]\<rparr>) x' s))"
  using assms
proof (induction k arbitrary: L s fuel)
  case 0
  then have call: "event_call sy i (L, shared_of s) = Inr (r, (L', x'))" "\<forall>e. r = Inl e \<longrightarrow> \<not> asks_restart sy e"
    by simp_all
  obtain n where n: "fuel = Suc n"
    using 0(3) by (cases fuel) auto
  show ?case
  proof (cases r)
    case (Inr vs)
    then have "event_attempt sy i (L, shared_of s) = Inr (Inr Event_done, (L', x'))"
      using event_attempt_called [OF call(1)] by simp
    then have "on_thread i (event_attempt sy i) s = Inr (Event_done, thread_state i L' x' s)"
      by (rule on_thread_runs [OF 0(2)])
    then show ?thesis
      using n Inr by simp
  next
    case (Inl e)
    let ?f = "lbind (CALL_ERROR (sy_lua sy) LOG_DEBUG ''event'') (\<lambda>_. lret Event_failed)"
    let ?L = "L'\<lparr>ls_stack := ls_stack L' @ [e]\<rparr>"
    have "event_attempt sy i (L, shared_of s) = ?f (?L, x')"
      using event_attempt_called [OF call(1)] event_call_stack [OF call(1)] Inl call(2) by simp
    then have "on_thread i (event_attempt sy i) s = on_thread i ?f (thread_state i ?L x' s)"
      using on_thread_put [OF 0(2)] by blast
    moreover have "res \<noteq> Event_restart" if "on_thread i ?f (thread_state i ?L x' s) = Inr (res, s')" for res s'
      using on_thread_failed [OF that] by simp
    ultimately show ?thesis
      using n Inl by (cases "on_thread i ?f (thread_state i ?L x' s)") auto
  qed
next
  case (Suc k)
  obtain n where n: "fuel = Suc n" "k < n"
    using Suc.prems(3) by (cases fuel) auto
  obtain e L1 x1 L2 x2 where c: "event_call sy i (L, shared_of s) = Inr (Inl e, (L1, x1))" "asks_restart sy e"
      "L_log LOG_DEBUG restart_message (L1, x1) = Inr (Inr (), (L2, x2))" "event_ends sy i k (L2, x2) r (L', x')"
    using Suc.prems(1) by auto
  have "event_attempt sy i (L, shared_of s) = Inr (Inr Event_restart, (L2, x2))"
    using event_attempt_called [OF c(1)] c(2,3) by simp
  then have "on_thread i (event_attempt sy i) s = Inr (Event_restart, thread_state i L2 x2 s)"
    by (rule on_thread_runs [OF Suc.prems(2)])
  then show ?case
    using Suc.IH [of L2 "thread_state i L2 x2 s" n] c(4) Suc.prems(2) n by (cases r) simp_all
qed

text \<open>What a thread needs to record an event: the logger, and the histogram of the database layer.\<close>

definition event_recordable :: "'d lua_sys \<Rightarrow> nat \<Rightarrow> 'd lua_shared \<Rightarrow> bool" where
  "event_recordable sy i x \<longleftrightarrow>
     thread_ready (sy_fp sy) i (ds_pg (lx_db x)) \<and> (\<exists>p. local_percentile (lx_db x) = Some p \<and> percentile_wf (sy_fp sy) p)"

definition recorded_total :: "'d lua_shared \<Rightarrow> u64" where
  "recorded_total x = (case local_percentile (lx_db x) of None \<Rightarrow> 0 | Some p \<Rightarrow> pc_total p)"

lemma record_event_ok:
  assumes "event_recordable sy i (lv_shared (snd s))" and "thread_ready (sy_fp sy) i (fst s)"
  shows "\<exists>pg' p'. record_event sy i s =
             Inr (0, (pg', (snd s)\<lparr>lv_shared := (lv_shared (snd s))\<lparr>lx_db := (lx_db (lv_shared (snd s)))\<lparr>local_percentile := Some p'\<rparr>\<rparr>\<rparr>)) \<and>
           percentile_wf (sy_fp sy) p' \<and> pc_total p' = recorded_total (lv_shared (snd s)) + 1 \<and>
           thread_ready (sy_fp sy) i pg' \<and> event_frame (fst s) pg' \<and> events_counted pg' = events_counted (fst s) + 1"
proof -
  obtain pg' v where st: "s_event_stop (sy_fp sy) i s = Inr (pg', snd s)" "thread_timer_value i (pg_w pg') = Inr (v, pg_w pg')"
      "thread_ready (sy_fp sy) i pg'" "event_frame (fst s) pg'" "events_counted pg' = events_counted (fst s) + 1"
    using event_stop_value [OF assms(2)] by blast
  obtain p where p: "local_percentile (lx_db (lv_shared (snd s))) = Some p" "percentile_wf (sy_fp sy) p"
    using assms(1) by (auto simp: event_recordable_def)
  have "fp_ok (sy_fp sy)"
    using assms(2) by (simp add: thread_ready_def)
  then obtain p' where p': "sb_percentile_update (sy_fp sy) p (u64_double (sy_fp sy) v) = Inr p'" "percentile_wf (sy_fp sy) p'"
      "pc_total p' = pc_total p + 1"
    using percentile_update_total [OF _ p(2)] by blast
  show ?thesis
    using st p p' by (intro exI [of _ pg'] exI [of _ p']) (simp add: record_event_def recorded_total_def)
qed

lemma event_ends_stack: "event_ends sy i k s r s' \<Longrightarrow> ls_stack (fst s') = ls_stack (fst s)"
proof (induction k arbitrary: s)
  case 0
  then show ?case by (auto dest: event_call_stack)
next
  case (Suc k)
  then obtain e s1 s2 where s: "event_call sy i s = Inr (Inl e, s1)" "L_log LOG_DEBUG restart_message s1 = Inr (Inr (), s2)"
      "event_ends sy i k s2 r s'"
    by auto
  have "fst s2 = fst s1"
    using L_log_keeps [of _ _ "fst s1" "snd s1"] s(2) by simp
  then show ?case
    using Suc.IH [OF s(3)] event_call_stack [OF s(1)] by simp
qed

lemma error_text_total: "ls_stack L = stk @ [e] \<Longrightarrow> \<exists>m L'. error_text env (L, x) = Inr (Inr m, (L', x))"
  by (cases e) (auto simp: error_text_def lua_tolstring_def lbind_assoc lret_def)

lemma d_log_percentile:
  assumes "logger_ready (pg_w (ds_pg st))"
  shows "\<exists>w'. d_log p m st = Inr (st\<lparr>ds_pg := (ds_pg st)\<lparr>pg_w := w'\<rparr>\<rparr>) \<and> lg_percentile (w_log w') = lg_percentile (w_log (pg_w (ds_pg st)))"
proof -
  obtain w' where "log_text p m (pg_w (ds_pg st)) = Inr w'" "text_frame (pg_w (ds_pg st)) w'"
    using assms log_text_ready text_handler_process_frame by metis
  then show ?thesis by (auto simp: d_log_def p_log_def text_frame_def)
qed

lemma start_thread:
  assumes "s_event_start fp i s = Inr s1"
  shows "snd s1 = snd s" "has_state i L s1 = has_state i L s"
  using assms by (auto simp: s_event_start_def s_world_def rbind_eq_Inr has_state_def)

text \<open>The state after an event has been recorded.\<close>

definition recorded_state :: "nat \<Rightarrow> L_state \<Rightarrow> 'd lua_shared \<Rightarrow> prog \<Rightarrow> sb_percentile_t \<Rightarrow> 'd lua_vars st \<Rightarrow> 'd lua_vars st" where
  "recorded_state i L x pg p s =
     (pg, (snd (thread_state i L x s))\<lparr>lv_shared := x\<lparr>lx_db := (lx_db x)\<lparr>local_percentile := Some p\<rparr>\<rparr>\<rparr>)"

lemma recorded_state_simps [simp]:
  "fst (recorded_state i L x pg p s) = pg" "lv_nevents (snd (recorded_state i L x pg p s)) = lv_nevents (snd s)"
  "recorded_total (lv_shared (snd (recorded_state i L x pg p s))) = pc_total p"
  "shared_of (recorded_state i L x pg p s) = x\<lparr>lx_db := (lx_db x)\<lparr>ds_pg := pg, local_percentile := Some p\<rparr>\<rparr>"
  "has_state i L0 s \<Longrightarrow> has_state i L (recorded_state i L x pg p s)"
  by (auto simp: recorded_state_def recorded_total_def shared_of_def thread_state_def has_state_def)

lemma script_event_effect:
  assumes "has_state i L s" and "s_event_start (sy_fp sy) i s = Inr s1"
    and "event_ends sy i k (L, shared_of s1) (Inr vs) (L', x')" and "event_recordable sy i x'" and "k < fuel"
  shows "\<exists>pg' p'. sb_lua_op_execute_request fuel sy r i s = Inr (0, recorded_state i L' x' pg' p' s) \<and>
           percentile_wf (sy_fp sy) p' \<and> pc_total p' = recorded_total x' + 1 \<and> thread_ready (sy_fp sy) i pg' \<and>
           event_frame (ds_pg (lx_db x')) pg' \<and> events_counted pg' = events_counted (ds_pg (lx_db x')) + 1"
proof -
  have "event_loop fuel sy i s1 = Inr (Event_done, thread_state i L' x' s1)"
    using event_loop_ends [OF assms(3) _ assms(5)] assms(1) start_thread [OF assms(2)] by simp
  moreover obtain pg' p' where "record_event sy i (thread_state i L' x' s1) =
        Inr (0, (pg', (snd (thread_state i L' x' s1))\<lparr>lv_shared := x'\<lparr>lx_db := (lx_db x')\<lparr>local_percentile := Some p'\<rparr>\<rparr>\<rparr>))"
      "percentile_wf (sy_fp sy) p'" "pc_total p' = recorded_total x' + 1" "thread_ready (sy_fp sy) i pg'"
      "event_frame (ds_pg (lx_db x')) pg'" "events_counted pg' = events_counted (ds_pg (lx_db x')) + 1"
    using record_event_ok [of sy i "thread_state i L' x' s1"] assms(4) by (auto simp: event_recordable_def)
  moreover have "recorded_state i L' x' pg' p' s1 = recorded_state i L' x' pg' p' s"
    using start_thread(1) [OF assms(2)] by (simp add: recorded_state_def thread_state_def)
  ultimately show ?thesis
    using assms(2) by (intro exI [of _ pg'] exI [of _ p']) (simp add: sb_lua_op_execute_request_def recorded_state_def)
qed

text \<open>
  (C6) An event that asks for restarts is repeated and recorded once: when the \<^verbatim>\<open>event\<close> function of the script raises the number
  of \<^verbatim>\<open>SB_DB_ERROR_RESTART_TRANSACTION\<close> \<open>k\<close> times and then returns, whatever it does to the database in between, the
  request succeeds, the histograms of the logger and of the database layer have counted one event more, the globals are as the script left them,
  and the stack of the interpreter has the depth it had before.
\<close>

theorem script_event_retried:
  assumes "has_state i L s" and "s_event_start (sy_fp sy) i s = Inr s1"
    and "event_ends sy i k (L, shared_of s1) (Inr vs) (L', x')" and "event_recordable sy i x'" and "k < fuel"
  shows "\<exists>s2. sb_lua_op_execute_request fuel sy r i s = Inr (0, s2) \<and> has_state i L' s2 \<and> ls_stack L' = ls_stack L \<and>
           s_globals s2 = pg_globals (ds_pg (lx_db x')) \<and>
           events_counted (fst s2) = events_counted (ds_pg (lx_db x')) + 1 \<and>
           recorded_total (lv_shared (snd s2)) = recorded_total x' + 1"
proof -
  obtain pg' p' where "sb_lua_op_execute_request fuel sy r i s = Inr (0, recorded_state i L' x' pg' p' s)"
      "pc_total p' = recorded_total x' + 1" "event_frame (ds_pg (lx_db x')) pg'"
      "events_counted pg' = events_counted (ds_pg (lx_db x')) + 1"
    using script_event_effect [OF assms] by blast
  moreover have "has_state i L' (recorded_state i L' x' pg' p' s)"
    using assms(1) by (rule recorded_state_simps(5))
  moreover have "ls_stack L' = ls_stack L"
    using event_ends_stack [OF assms(3)] by simp
  ultimately show ?thesis
    by (intro exI [of _ "recorded_state i L' x' pg' p' s"]) (simp add: event_frame_def)
qed

text \<open>
  (C9) Any other error of a script ends the run: the request fails with the code 1, the global error flag is set, so that all workers leave
  their loops, and no event is recorded.
\<close>

theorem script_error_stops_run:
  assumes "has_state i L s" and "s_event_start (sy_fp sy) i s = Inr s1"
    and "event_ends sy i k (L, shared_of s1) (Inl e) (L', x')" and "logger_ready (pg_w (ds_pg (lx_db x')))" and "k < fuel"
  shows "\<exists>s2. sb_lua_op_execute_request fuel sy r i s = Inr (1, s2) \<and> g_error (s_globals s2) = 1 \<and>
           events_counted (fst s2) = events_counted (ds_pg (lx_db x')) \<and>
           recorded_total (lv_shared (snd s2)) = recorded_total x'"
proof -
  let ?L = "L'\<lparr>ls_stack := ls_stack L' @ [e]\<rparr>" and ?f = "lbind (CALL_ERROR (sy_lua sy) LOG_DEBUG ''event'') (\<lambda>_. lret Event_failed)"
  obtain L2 m where msg: "error_text (sy_lua sy) (?L, x') = Inr (Inr m, (L2, x'))"
    using error_text_total [of ?L "ls_stack L'" e "sy_lua sy" x'] by auto
  let ?m = "''failed to execute function `'' @ ''event'' @ [CHR 0x27] @ '': '' @ m"
  obtain w where w: "d_log LOG_DEBUG ?m (lx_db x') = Inr ((lx_db x')\<lparr>ds_pg := (ds_pg (lx_db x'))\<lparr>pg_w := w\<rparr>\<rparr>)"
      "lg_percentile (w_log w) = lg_percentile (w_log (pg_w (ds_pg (lx_db x'))))"
    using d_log_percentile [OF assms(4)] by blast
  let ?x = "x'\<lparr>lx_db := (lx_db x')\<lparr>ds_pg := (ds_pg (lx_db x'))\<lparr>pg_w := w\<rparr>\<rparr>\<rparr>"
  have "?f (?L, x') = Inr (Inr Event_failed, (L2, ?x))"
    using msg w(1) by (simp add: CALL_ERROR_def lbind_assoc lbind_def [of "error_text _"] lret_def)
  moreover have st: "has_state i ?L (thread_state i ?L x' s1)"
    using assms(1) start_thread [OF assms(2)] by (metis thread_state_simps(1))
  ultimately have "on_thread i ?f (thread_state i ?L x' s1) = Inr (Event_failed, thread_state i L2 ?x (thread_state i ?L x' s1))"
    using on_thread_runs [OF st, of ?f Event_failed L2 ?x] by simp
  then have "event_loop fuel sy i s1 = Inr (Event_failed, thread_state i L2 ?x s1)"
    using event_loop_ends [OF assms(3) _ assms(5)] assms(1) start_thread [OF assms(2)] by simp
  then show ?thesis
    using assms(2) w(2) by (simp add: sb_lua_op_execute_request_def upd_sg_def events_counted_def recorded_total_def)
qed

section \<open>Workers\<close>

text \<open>
  What a script promises about its \<^verbatim>\<open>event\<close> function with the help of an invariant: started where the invariant holds, it
  ends normally after fewer than \<open>fuel\<close> restarts, keeps the invariant, and leaves the globals and the logger alone. The invariant does not speak of the
  program's state and of the histogram, which change between the events.
\<close>

definition script_invariant :: "(L_state \<Rightarrow> 'd lua_shared \<Rightarrow> bool) \<Rightarrow> bool" where
  "script_invariant Inv \<longleftrightarrow>
     (\<forall>L x pg p. Inv L (x\<lparr>lx_db := (lx_db x)\<lparr>ds_pg := pg, local_percentile := p\<rparr>\<rparr>) = Inv L x)"

definition event_serves :: "'d lua_sys \<Rightarrow> nat \<Rightarrow> nat \<Rightarrow> (L_state \<Rightarrow> 'd lua_shared \<Rightarrow> bool) \<Rightarrow> bool" where
  "event_serves sy fuel i Inv \<longleftrightarrow>
     (\<forall>L x. Inv L x \<and> event_recordable sy i x \<longrightarrow>
        (\<exists>k vs L' x'. k < fuel \<and> event_ends sy i k (L, x) (Inr vs) (L', x') \<and> Inv L' x' \<and> event_recordable sy i x' \<and>
           pg_globals (ds_pg (lx_db x')) = pg_globals (ds_pg (lx_db x)) \<and>
           events_counted (ds_pg (lx_db x')) = events_counted (ds_pg (lx_db x))))"

definition script_ready ::
  "'d lua_sys \<Rightarrow> nat \<Rightarrow> (L_state \<Rightarrow> 'd lua_shared \<Rightarrow> bool) \<Rightarrow> nat \<Rightarrow> 'd lua_vars st \<Rightarrow> bool" where
  "script_ready sy fuel Inv i s \<longleftrightarrow>
     script_invariant Inv \<and> event_serves sy fuel i Inv \<and> g_max_requests (s_globals s) \<noteq> 0 \<and>
     (\<exists>L. has_state i L s \<and> Inv L (shared_of s) \<and> event_recordable sy i (shared_of s))"

definition script_remaining :: "'d lua_vars st \<Rightarrow> nat" where
  "script_remaining s = unat (g_max_requests (s_globals s)) - unat (lv_nevents (snd s))"

lemma invariant_moves:
  "script_invariant Inv \<Longrightarrow> Inv L x \<Longrightarrow> Inv L (x\<lparr>lx_db := (lx_db x)\<lparr>ds_pg := pg, local_percentile := p\<rparr>\<rparr>)"
  by (simp add: script_invariant_def)

lemma invariant_moves_pg:
  assumes "script_invariant Inv" and "Inv L x"
  shows "Inv L (x\<lparr>lx_db := (lx_db x)\<lparr>ds_pg := pg\<rparr>\<rparr>)"
  using invariant_moves [OF assms, where pg = pg and p = "local_percentile (lx_db x)"] by simp

lemma shared_of_pg: "shared_of (pg, t) = (lv_shared t)\<lparr>lx_db := (lx_db (lv_shared t))\<lparr>ds_pg := pg\<rparr>\<rparr>"
  by (simp add: shared_of_def)

lemma script_ready_moves:
  assumes "script_ready sy fuel Inv i (pg, t)" and "thread_ready (sy_fp sy) i pg'" and "g_max_requests (pg_globals pg') = g_max_requests (pg_globals pg)"
  shows "script_ready sy fuel Inv i (pg', t)"
proof -
  obtain L where L: "has_state i L (pg, t)" "Inv L (shared_of (pg, t))" "event_recordable sy i (shared_of (pg, t))"
    using assms(1) by (auto simp: script_ready_def)
  have "shared_of (pg', t) = (shared_of (pg, t))\<lparr>lx_db := (lx_db (shared_of (pg, t)))\<lparr>ds_pg := pg'\<rparr>\<rparr>"
    by (simp add: shared_of_pg)
  then have "Inv L (shared_of (pg', t))"
    using invariant_moves_pg L(2) assms(1) by (metis script_ready_def)
  moreover have "event_recordable sy i (shared_of (pg', t))" "has_state i L (pg', t)"
    using L assms(2) by (auto simp: event_recordable_def shared_of_def has_state_def)
  ultimately show ?thesis
    using assms(1,3) by (auto simp: script_ready_def)
qed

lemma script_ready_thread: "script_ready sy fuel Inv i s \<Longrightarrow> thread_ready (sy_fp sy) i (fst s)"
  by (auto simp: script_ready_def event_recordable_def shared_of_def)

lemma script_request_served:
  assumes "script_ready sy fuel Inv i s" and "run_ok (fst s)"
  shows "\<exists>s'. sb_lua_op_execute_request fuel sy r i s = Inr (0, s') \<and> script_ready sy fuel Inv i s' \<and> run_ok (fst s') \<and>
           lv_nevents (snd s') = lv_nevents (snd s) \<and> s_globals s' = s_globals s \<and> events_counted (fst s') = events_counted (fst s) + 1"
proof -
  obtain pg1 where st: "s_event_start (sy_fp sy) i s = Inr (pg1, snd s)" "thread_ready (sy_fp sy) i pg1" "event_frame (fst s) pg1"
      "events_counted pg1 = events_counted (fst s)"
    using event_start_ok [OF script_ready_thread [OF assms(1)]] by blast
  let ?s1 = "(pg1, snd s)"
  have "script_ready sy fuel Inv i ?s1"
    using script_ready_moves [of sy fuel Inv i "fst s" "snd s" pg1] assms(1) st(2,3)
    by (simp add: event_frame_def)
  then obtain L where L: "has_state i L ?s1" "Inv L (shared_of ?s1)" "event_recordable sy i (shared_of ?s1)"
      "event_serves sy fuel i Inv" "script_invariant Inv" "g_max_requests (pg_globals pg1) \<noteq> 0"
    by (auto simp: script_ready_def)
  then obtain k vs L' x' where e: "k < fuel" "event_ends sy i k (L, shared_of ?s1) (Inr vs) (L', x')" "Inv L' x'"
      "event_recordable sy i x'" "pg_globals (ds_pg (lx_db x')) = pg_globals (ds_pg (lx_db (shared_of ?s1)))"
      "events_counted (ds_pg (lx_db x')) = events_counted (ds_pg (lx_db (shared_of ?s1)))"
    unfolding event_serves_def by blast
  have pg1: "ds_pg (lx_db (shared_of ?s1)) = pg1"
    by (simp add: shared_of_def)
  have hs: "has_state i L s"
    using L(1) by (simp add: has_state_def)
  obtain pg' p' where r: "sb_lua_op_execute_request fuel sy r i s = Inr (0, recorded_state i L' x' pg' p' s)"
      "percentile_wf (sy_fp sy) p'" "thread_ready (sy_fp sy) i pg'" "event_frame (ds_pg (lx_db x')) pg'"
      "events_counted pg' = events_counted (ds_pg (lx_db x')) + 1"
    using script_event_effect [OF hs st(1) e(2,4,1)] by blast
  let ?s' = "recorded_state i L' x' pg' p' s"
  have gl: "pg_globals pg' = s_globals s"
    using r(4) e(5) st(3) pg1 by (simp add: event_frame_def)
  have "Inv L' (shared_of ?s')"
    using invariant_moves [OF L(5) e(3)] by simp
  moreover have "event_recordable sy i (shared_of ?s')"
    using r(2,3) by (simp add: event_recordable_def)
  ultimately have "script_ready sy fuel Inv i ?s'"
    unfolding script_ready_def using L(4-6) recorded_state_simps(5) [OF hs] gl st(3) by (intro conjI exI [of _ L']) (simp_all add: event_frame_def)
  moreover have "run_ok pg'"
    using assms(2) r(3) gl by (simp add: run_ok_def thread_ready_def oper_ready_def)
  ultimately show ?thesis
    using r(1,5) e(6) st(4) gl pg1 by (intro exI [of _ ?s']) simp
qed

interpretation script_requests:
  counted_source sb_lua_get_request "sb_lua_op_execute_request fuel sy" script_remaining "script_ready sy fuel Inv"
  for fuel and sy :: "'d lua_sys" and Inv
proof (unfold_locales, goal_cases)
  case (1 i s)
  then have "lv_nevents (snd s) \<ge> g_max_requests (s_globals s)"
    by (simp add: script_remaining_def word_le_nat_alt)
  then show ?case
    using 1(1) by (auto simp: sb_lua_get_request_def script_ready_def)
next
  case (2 i s)
  let ?s1 = "(fst s, (snd s)\<lparr>lv_nevents := lv_nevents (snd s) + 1\<rparr>)"
  have lt: "unat (lv_nevents (snd s)) < unat (g_max_requests (s_globals s))"
    using 2(3) by (simp add: script_remaining_def)
  then have get: "sb_lua_get_request i s = Inr ((SB_REQ_TYPE_SCRIPT, None), ?s1)"
    by (simp add: sb_lua_get_request_def word_le_nat_alt)
  have ok: "script_ready sy fuel Inv i ?s1"
    using 2(1) by (auto simp: script_ready_def has_state_def shared_of_def)
  obtain s' where s': "sb_lua_op_execute_request fuel sy (SB_REQ_TYPE_SCRIPT, None) i ?s1 = Inr (0, s')" "script_ready sy fuel Inv i s'"
      "run_ok (fst s')" "lv_nevents (snd s') = lv_nevents (snd s) + 1" "s_globals s' = s_globals s"
      "events_counted (fst s') = events_counted (fst s) + 1"
    using script_request_served [OF ok, of "(SB_REQ_TYPE_SCRIPT, None)"] 2(2) by auto
  have "unat (g_max_requests (s_globals s)) < 2 ^ LENGTH(32)"
    by (rule unsigned_less)
  then have "unat (lv_nevents (snd s) + 1) = unat (lv_nevents (snd s)) + 1"
    using lt unat_plus_no_wrap [of "lv_nevents (snd s)" 1] by simp
  then have "script_remaining s = Suc (script_remaining s')"
    using lt s'(4,5) by (simp add: script_remaining_def)
  then show ?case
    using get ok 2(2) s' by (intro exI [of _ SB_REQ_TYPE_SCRIPT] exI [of _ None] exI [of _ ?s1] exI [of _ s']) simp
next
  case (3 i pg t pg')
  have "thread_ready (sy_fp sy) i pg'"
    using thread_ready_between [OF _ 3(2)] script_ready_thread [OF 3(1)] by simp
  moreover have "g_max_requests (pg_globals pg') = g_max_requests (pg_globals pg)"
    using 3(2) by (auto simp: run_frame_def)
  ultimately show ?case
    using script_ready_moves [OF 3(1)] by (simp add: script_remaining_def)
qed

text \<open>
  (C7) A worker that runs a script without hooks for threads serves exactly the requests left under the limit and ends: each of them is one
  normal end of the \<^verbatim>\<open>event\<close> function, counted once, however often the script asked for restarts (fewer than \<open>fuel\<close> times per event).
\<close>

theorem script_worker_serves_limit:
  assumes "script_ready sy fuel Inv i (pg, t)" and "run_ok pg" and "g_max_time (pg_globals pg) = 0" and "g_error (pg_globals pg) = 0"
    and "\<not> has_thread_init has" and "\<not> has_thread_done has" and "lv_nevents t \<le> g_max_requests (pg_globals pg)"
    and "unat (g_max_requests (pg_globals pg)) - unat (lv_nevents t) < n"
  shows "\<exists>s'. runner_thread n (lua_test fuel sy name has) i q (pg, t) = Inr (Left_loop, q, s') \<and>
           events_counted (fst s') = events_counted pg + of_nat (unat (g_max_requests (pg_globals pg) - lv_nevents t))"
proof -
  let ?up = "upd_sg (\<lambda>g. g\<lparr>g_num_running := g_num_running g + 1\<rparr>) (pg, t)"
  have "thread_ready (sy_fp sy) i pg"
    using script_ready_thread [OF assms(1)] by simp
  then have "thread_ready (sy_fp sy) i (fst ?up)"
    by (simp add: thread_ready_def upd_sg_def oper_ready_def logger_ready_def)
  then have ok: "script_ready sy fuel Inv i ?up"
    using script_ready_moves [OF assms(1)] by (simp add: upd_sg_def)
  have rem: "script_remaining ?up = unat (g_max_requests (pg_globals pg)) - unat (lv_nevents t)"
    by (simp add: script_remaining_def upd_sg_def)
  have "\<exists>s'. runner_thread n (lua_test fuel sy name has) i q (pg, t) = Inr (Left_loop, q, s') \<and>
      events_counted (fst s') = events_counted pg + of_nat (unat (g_max_requests (pg_globals pg)) - unat (lv_nevents t))"
    using script_requests.thread_serves_all [OF ok, of "lua_test fuel sy name has" n q] assms(2-6,8) unfolding rem
    by (auto simp: lua_test_def Let_def)
  then show ?thesis
    using assms(7) by (simp add: unat_word_minus)
qed

section \<open>A sample script\<close>

text \<open>
  The event of the sample script asks for a restart every other time it is called; the function 1 fails.
\<close>

definition flip_event :: "lua_mem \<Rightarrow> lua_mem \<times> script" where
  "flip_event m =
     (if lm_globals m ''tried'' = LNil then (m\<lparr>lm_globals := (lm_globals m)(''tried'' := LBool True)\<rparr>, Raise (LNumber 1))
      else (m\<lparr>lm_globals := (lm_globals m)(''tried'' := LNil)\<rparr>, Return []))"

definition empty_mem :: lua_mem where
  "empty_mem = \<lparr>lm_globals = (\<lambda>_. LNil), lm_tables = (\<lambda>_. None)\<rparr>"

definition sample_lua_env :: lua_env where
  "sample_lua_env =
     \<lparr>le_str2d = (\<lambda>_. None), le_number2str = (\<lambda>_. []), le_where = (\<lambda>_. []), le_objlen = (\<lambda>_. 0), le_libs = empty_mem, le_math = LTable 1,
      le_body = (\<lambda>f args. if f = 0 then Compute flip_event else Raise (LString ''boom'')),
      le_load = (\<lambda>name. Inr (Compute (\<lambda>m. (m\<lparr>lm_globals := (lm_globals m)(''event'' := LFunction (Lua_fun 0))\<rparr>, Return []))))\<rparr>"

definition sample_sy :: "unit lua_sys" where
  "sample_sy = \<lparr>sy_fp = fp_exact, sy_drvs = [], sy_lua = sample_lua_env\<rparr>"

definition sample_L :: "nat \<Rightarrow> L_state" where
  "sample_L f =
     (lua_newstate sample_lua_env)\<lparr>ls_mem := empty_mem\<lparr>lm_globals := (lm_globals empty_mem)(''event'' := LFunction (Lua_fun f))\<rparr>\<rparr>"

definition sample_lua :: "nat \<Rightarrow> unit lua_vars" where
  "sample_lua f =
     \<lparr>lv_shared = \<lparr>lx_db = (sample_db ())\<lparr>local_percentile := Some sample_percentile\<rparr>, lx_driver = None, lx_once = False, lx_ctxts = (\<lambda>_. None)\<rparr>,
      lv_states = Some [Some (sample_L f), Some (sample_L f)], lv_gstate = None, lv_nevents = 0\<rparr>"

definition flip_inv :: "L_state \<Rightarrow> 'd lua_shared \<Rightarrow> bool" where
  "flip_inv L x \<longleftrightarrow> lm_globals (ls_mem L) ''event'' = LFunction (Lua_fun 0)"

lemma flip_call:
  assumes "flip_inv L x"
  shows "event_call sample_sy i (L, x) =
     (if lm_globals (ls_mem L) ''tried'' = LNil
      then Inr (Inl (LNumber 1), (L\<lparr>ls_mem := (ls_mem L)\<lparr>lm_globals := (lm_globals (ls_mem L))(''tried'' := LBool True)\<rparr>\<rparr>, x))
      else Inr (Inr [], (L\<lparr>ls_mem := (ls_mem L)\<lparr>lm_globals := (lm_globals (ls_mem L))(''tried'' := LNil)\<rparr>\<rparr>, x)))"
  using assms
  by (simp add: event_call_def call_value_def flip_inv_def sample_sy_def sample_lua_env_def flip_event_def lret_def lraise_def)

lemma flip_inv_serves: "script_invariant flip_inv" "event_serves sample_sy 2 i (flip_inv :: L_state \<Rightarrow> unit lua_shared \<Rightarrow> bool)"
proof -
  show "script_invariant flip_inv"
    by (simp add: script_invariant_def flip_inv_def)
  have "\<exists>k vs L' x'. k < 2 \<and> event_ends sample_sy i k (L, x) (Inr vs) (L', x') \<and> flip_inv L' x' \<and> event_recordable sample_sy i x' \<and>
           pg_globals (ds_pg (lx_db x')) = pg_globals (ds_pg (lx_db x)) \<and>
           events_counted (ds_pg (lx_db x')) = events_counted (ds_pg (lx_db x))"
    if L: "flip_inv L x" "event_recordable sample_sy i x" for L and x :: "unit lua_shared"
  proof (cases "lm_globals (ls_mem L) ''tried'' = LNil")
    case False
    then show ?thesis
      using flip_call [OF L(1), of i] L by (intro exI [of _ 0]) (auto simp: flip_inv_def)
  next
    case True
    let ?L1 = "L\<lparr>ls_mem := (ls_mem L)\<lparr>lm_globals := (lm_globals (ls_mem L))(''tried'' := LBool True)\<rparr>\<rparr>"
    have call: "event_call sample_sy i (L, x) = Inr (Inl (LNumber 1), (?L1, x))"
      using flip_call [OF L(1), of i] True by simp
    have rd: "thread_ready fp_exact i (ds_pg (lx_db x))"
      using L(2) by (simp add: event_recordable_def sample_sy_def)
    obtain w where w: "log_text LOG_DEBUG restart_message (pg_w (ds_pg (lx_db x))) = Inr w" "text_frame (pg_w (ds_pg (lx_db x))) w" "logger_ready w"
      using rd log_text_ready text_handler_process_frame text_frame_ready by (metis thread_ready_def oper_ready_def)
    let ?x = "x\<lparr>lx_db := (lx_db x)\<lparr>ds_pg := (ds_pg (lx_db x))\<lparr>pg_w := w\<rparr>\<rparr>\<rparr>"
    have log: "L_log LOG_DEBUG restart_message (?L1, x) = Inr (Inr (), (?L1, ?x))"
      using w(1) by (simp add: L_log_eval d_log_def p_log_def)
    let ?L2 = "?L1\<lparr>ls_mem := (ls_mem ?L1)\<lparr>lm_globals := (lm_globals (ls_mem ?L1))(''tried'' := LNil)\<rparr>\<rparr>"
    have inv: "flip_inv ?L1 ?x" "flip_inv ?L2 ?x"
      using L(1) by (simp_all add: flip_inv_def)
    have "event_call sample_sy i (?L1, ?x) = Inr (Inr [], (?L2, ?x))"
      using flip_call [OF inv(1), of i] by simp
    moreover have "asks_restart sample_sy (LNumber 1)"
      by (simp add: asks_restart_def luaV_tonumber_def db_errno_num_def)
    ultimately have "event_ends sample_sy i 1 (L, x) (Inr []) (?L2, ?x)"
      using call log by auto
    moreover have "run_frame (ds_pg (lx_db x)) (ds_pg (lx_db ?x))"
      using text_frame_run_frame [OF w(2)] by simp
    moreover have "event_recordable sample_sy i ?x"
      using thread_ready_between [OF rd calculation(2)] L(2) by (simp add: event_recordable_def sample_sy_def)
    ultimately show ?thesis
      using inv(2) w(2) by (intro exI [of _ 1] exI [of _ "[]"] exI [of _ ?L2] exI [of _ ?x]) (auto simp: text_frame_def events_counted_def)
  qed
  then show "event_serves sample_sy 2 i (flip_inv :: L_state \<Rightarrow> unit lua_shared \<Rightarrow> bool)"
    unfolding event_serves_def by blast
qed

lemma sample_lua_recordable: "i < 2 \<Longrightarrow> event_recordable sample_sy i (shared_of (worker_prog m, sample_lua f))"
  using worker_prog_ready(2) [of i m] sample_percentile_wf
  by (simp add: event_recordable_def shared_of_def sample_lua_def sample_sy_def)

definition sample_has :: script_has where
  "sample_has = \<lparr>has_prepare = True, has_cleanup = False, has_help = False, has_thread_init = False, has_thread_done = False\<rparr>"

lemma script_worker_serves_limit_witness:
  "\<exists>s'. runner_thread 6 (lua_test 2 sample_sy ''oltp.lua'' sample_has) 1 sample_queue (worker_prog 5, sample_lua 0) = Inr (Left_loop, sample_queue, s') \<and>
         events_counted (fst s') = events_counted (worker_prog 5) + 5"
proof -
  have "has_state 1 (sample_L 0) (worker_prog 5, sample_lua 0)"
    by (simp add: has_state_def sample_lua_def)
  moreover have "flip_inv (sample_L 0) (shared_of (worker_prog 5, sample_lua 0))"
    by (simp add: flip_inv_def sample_L_def)
  ultimately have ready: "script_ready sample_sy 2 flip_inv 1 (worker_prog 5, sample_lua 0)"
    using flip_inv_serves sample_lua_recordable [of 1 5 0] unfolding script_ready_def
    by (intro conjI exI [of _ "sample_L 0"]) simp_all
  have "lv_nevents (sample_lua 0) = 0"
    by (simp add: sample_lua_def)
  then show ?thesis
    using script_worker_serves_limit [OF ready worker_prog_ready(1), where has = sample_has and n = 6 and q = sample_queue and name = "''oltp.lua''"]
    by (simp add: sample_has_def)
qed

lemma script_event_retried_witness:
  "\<exists>s2. sb_lua_op_execute_request 2 sample_sy (SB_REQ_TYPE_SCRIPT, None) 0 (worker_prog 5, sample_lua 0) = Inr (0, s2) \<and>
        events_counted (fst s2) = events_counted (worker_prog 5) + 1"
proof -
  let ?s = "(worker_prog 5, sample_lua 0)"
  have st: "has_state 0 (sample_L 0) ?s"
    by (simp add: has_state_def sample_lua_def)
  obtain pg1 where s1: "s_event_start (sy_fp sample_sy) 0 ?s = Inr (pg1, sample_lua 0)" "thread_ready fp_exact 0 pg1"
      "events_counted pg1 = events_counted (worker_prog 5)"
    using event_start_ok [of fp_exact 0 ?s] worker_prog_ready(2) [of 0 5] by (auto simp: sample_sy_def)
  have "event_recordable sample_sy 0 (shared_of (pg1, sample_lua 0))" "flip_inv (sample_L 0) (shared_of (pg1, sample_lua 0))"
    using s1(2) sample_percentile_wf by (auto simp: event_recordable_def shared_of_def sample_lua_def sample_sy_def flip_inv_def sample_L_def)
  then obtain k vs L' x' where e: "k < 2" "event_ends sample_sy 0 k (sample_L 0, shared_of (pg1, sample_lua 0)) (Inr vs) (L', x')"
      "event_recordable sample_sy 0 x'"
      "events_counted (ds_pg (lx_db x')) = events_counted (ds_pg (lx_db (shared_of (pg1, sample_lua 0))))"
    using flip_inv_serves(2) [of 0] unfolding event_serves_def by blast
  show ?thesis
    using script_event_retried [OF st s1(1) e(2,3,1), of "(SB_REQ_TYPE_SCRIPT, None)"] e(4) s1(3) by (auto simp: shared_of_def)
qed

lemma script_error_stops_run_witness:
  "\<exists>s2. sb_lua_op_execute_request 1 sample_sy (SB_REQ_TYPE_SCRIPT, None) 0 (worker_prog 5, sample_lua 1) = Inr (1, s2) \<and>
        g_error (s_globals s2) = 1"
proof -
  let ?s = "(worker_prog 5, sample_lua 1)"
  have st: "has_state 0 (sample_L 1) ?s"
    by (simp add: has_state_def sample_lua_def)
  obtain pg1 where s1: "s_event_start (sy_fp sample_sy) 0 ?s = Inr (pg1, sample_lua 1)" "thread_ready fp_exact 0 pg1"
    using event_start_ok [of fp_exact 0 ?s] worker_prog_ready(2) [of 0 5] by (auto simp: sample_sy_def)
  let ?x = "shared_of (pg1, sample_lua 1)"
  have "event_call sample_sy 0 (sample_L 1, ?x) = Inr (Inl (LString ''boom''), (sample_L 1, ?x))"
    by (simp add: event_call_def call_value_def sample_L_def sample_sy_def sample_lua_env_def lraise_def)
  then have e: "event_ends sample_sy 0 0 (sample_L 1, ?x) (Inl (LString ''boom'')) (sample_L 1, ?x)"
    by (simp add: asks_restart_def luaV_tonumber_def sample_sy_def sample_lua_env_def)
  have log: "logger_ready (pg_w (ds_pg (lx_db ?x)))"
    using s1(2) by (simp add: shared_of_def thread_ready_def oper_ready_def)
  show ?thesis
    using script_error_stops_run [OF st s1(1) e log, of 1 "(SB_REQ_TYPE_SCRIPT, None)"] by auto
qed

text \<open>
  A script that never connects to a database has no histogram to record its first event in.
\<close>

lemma script_without_database_faults:
  assumes "has_state i L s" and "s_event_start (sy_fp sy) i s = Inr s1"
    and "event_ends sy i k (L, shared_of s1) (Inr vs) (L', x')" and "k < fuel"
    and "thread_ready (sy_fp sy) i (ds_pg (lx_db x'))" and "local_percentile (lx_db x') = None"
  shows "sb_lua_op_execute_request fuel sy r i s = Inl Null_deref"
proof -
  have "event_loop fuel sy i s1 = Inr (Event_done, thread_state i L' x' s1)"
    using event_loop_ends [OF assms(3) _ assms(4)] assms(1) start_thread [OF assms(2)] by simp
  moreover have "record_event sy i (thread_state i L' x' s1) = Inl Null_deref"
    using event_stop_value [of "sy_fp sy" i "thread_state i L' x' s1"] assms(5,6) by (auto simp: record_event_def)
  ultimately show ?thesis
    using assms(2) by (simp add: sb_lua_op_execute_request_def)
qed

section \<open>Options and functions seen by a script\<close>

text \<open>The value a script should see of an option; \<open>None\<close> when the conversion ends the program or there is nothing to export.\<close>

definition option_value :: "fpenv \<Rightarrow> option_t \<Rightarrow> lua_value option" where
  "option_value fp opt =
     (case opt_type opt of
        SB_ARG_TYPE_FLAG \<Rightarrow> Some (LBool (sb_opt_to_flag opt))
      | SB_ARG_TYPE_INT \<Rightarrow> (case sb_opt_to_int opt of Inr i \<Rightarrow> Some (LNumber (of_int i)) | Inl e \<Rightarrow> None)
      | SB_ARG_TYPE_FLOAT \<Rightarrow> (case sb_opt_to_float fp opt of Inr r \<Rightarrow> Some (LNumber r) | Inl e \<Rightarrow> None)
      | SB_ARG_TYPE_SIZE \<Rightarrow> Some (LNumber (u64_double fp (sb_opt_to_size opt)))
      | SB_ARG_TYPE_STRING \<Rightarrow> Some (LString (case sb_opt_to_string opt of None \<Rightarrow> [] | Some s \<Rightarrow> s))
      | SB_ARG_TYPE_LIST \<Rightarrow> Some LNil
      | SB_ARG_TYPE_FILE \<Rightarrow> None
      | SB_ARG_TYPE_NULL \<Rightarrow> None)"

definition is_file_option :: "option_t \<Rightarrow> bool" where
  "is_file_option opt \<longleftrightarrow> opt_type opt = SB_ARG_TYPE_FILE"

text \<open>The stack and the globals after some options have been exported.\<close>

fun export_all :: "fpenv \<Rightarrow> option_t list \<Rightarrow> lua_value list \<Rightarrow> (string \<Rightarrow> lua_value) \<Rightarrow> lua_value list \<times> (string \<Rightarrow> lua_value)" where
  "export_all fp [] stk g = (stk, g)"
| "export_all fp (opt # opts) stk g =
     (if is_file_option opt then export_all fp opts (butlast stk) (g(opt_name opt := last stk))
      else export_all fp opts stk (g(opt_name opt := the (option_value fp opt))))"

lemma lua_setglobal_bind:
  "ls_stack L = stk @ [v] \<Longrightarrow>
   lbind (lua_setglobal n) f (L, x) = f () (L\<lparr>ls_stack := stk, ls_mem := (ls_mem L)\<lparr>lm_globals := (lm_globals (ls_mem L))(n := v)\<rparr>\<rparr>, x)"
  by (cases L) (simp add: lua_setglobal_def lbind_assoc lua_pop_bind [of _ stk v])

lemma export_options_Cons:
  "lbind (export_options fp (opt # opts)) f =
     lbind (push_option fp opt) (\<lambda>_. lbind (lua_setglobal (opt_name opt)) (\<lambda>_. lbind (export_options fp opts) f))"
  by (simp only: export_options.simps lbind_assoc)

lemma export_values_Cons:
  "lbind (export_values ((n, v) # vs)) f = lbind (lua_push v) (\<lambda>_. lbind (lua_setglobal n) (\<lambda>_. lbind (export_values vs) f))"
  by (simp only: export_values.simps lbind_assoc)

lemma push_option_bind:
  "option_value fp opt = Some v \<Longrightarrow> lbind (push_option fp opt) f (L, x) = f () (L\<lparr>ls_stack := ls_stack L @ [v]\<rparr>, x)"
  by (auto simp: option_value_def push_option_def lbind_assoc lres_def lbind_def [of "lres _"] split: sb_arg_type_t.splits sum.splits)

lemma push_file: "is_file_option opt \<Longrightarrow> push_option fp opt = lret ()"
  by (simp add: push_option_def is_file_option_def)

lemma export_options_all:
  "\<forall>opt\<in>set opts. is_file_option opt \<or> option_value fp opt \<noteq> None \<Longrightarrow> length (filter is_file_option opts) \<le> length stk \<Longrightarrow>
   ls_stack L = stk \<Longrightarrow> lm_globals (ls_mem L) = g \<Longrightarrow>
   lbind (export_options fp opts) f (L, x) =
     (case export_all fp opts stk g of (stk', g') \<Rightarrow> f () (L\<lparr>ls_stack := stk', ls_mem := (ls_mem L)\<lparr>lm_globals := g'\<rparr>\<rparr>, x))"
proof (induction opts arbitrary: L stk g)
  case Nil
  then have "L\<lparr>ls_stack := stk, ls_mem := (ls_mem L)\<lparr>lm_globals := g\<rparr>\<rparr> = L"
    by auto
  then show ?case by simp
next
  case (Cons opt opts)
  show ?case
  proof (cases "is_file_option opt")
    case True
    then obtain stk' v where stk: "stk = stk' @ [v]"
      using Cons.prems(2) by (cases stk rule: rev_cases) auto
    show ?thesis
      using Cons.IH [of stk' "L\<lparr>ls_stack := stk', ls_mem := (ls_mem L)\<lparr>lm_globals := g(opt_name opt := v)\<rparr>\<rparr>" "g(opt_name opt := v)"]
        Cons.prems True stk
      by (simp add: export_options_Cons push_file lua_setglobal_bind [of L stk' v] del: fun_upd_apply export_options.simps)
  next
    case False
    then obtain v where v: "option_value fp opt = Some v"
      using Cons.prems(1) by auto
    show ?thesis
      using Cons.IH [of stk "L\<lparr>ls_stack := stk, ls_mem := (ls_mem L)\<lparr>lm_globals := g(opt_name opt := v)\<rparr>\<rparr>" "g(opt_name opt := v)"]
        Cons.prems False v
      by (simp add: export_options_Cons push_option_bind [OF v] lua_setglobal_bind [of _ stk v] del: fun_upd_apply export_options.simps)
  qed
qed

lemma export_all_other: "n \<notin> opt_name ` set opts \<Longrightarrow> snd (export_all fp opts stk g) n = g n"
  by (induction fp opts stk g rule: export_all.induct) auto

lemma export_all_value:
  "distinct (map opt_name opts) \<Longrightarrow> opt \<in> set opts \<Longrightarrow> option_value fp opt = Some v \<Longrightarrow> snd (export_all fp opts stk g) (opt_name opt) = v"
  by (induction fp opts stk g rule: export_all.induct)
    (auto simp: export_all_other image_iff is_file_option_def option_value_def)

text \<open>The only file option takes what is on the stack.\<close>

lemma export_all_file:
  "distinct (map opt_name opts) \<Longrightarrow> length (filter is_file_option opts) \<le> 1 \<Longrightarrow> opt \<in> set opts \<Longrightarrow> is_file_option opt \<Longrightarrow>
   snd (export_all fp opts [v] g) (opt_name opt) = v"
proof (induction opts arbitrary: g)
  case (Cons o1 opts)
  show ?case
  proof (cases "is_file_option o1")
    case True
    then have "filter is_file_option opts = []" using Cons.prems(2) by (cases "filter is_file_option opts") auto
    then have "opt = o1" using Cons.prems(3,4) by (auto simp: filter_empty_conv)
    then have "opt_name opt \<notin> opt_name ` set opts" using Cons.prems(1) by simp
    then show ?thesis using True \<open>opt = o1\<close> by (simp add: export_all_other)
  next
    case False
    then show ?thesis using Cons by auto
  qed
qed simp

lemma export_all_stack: "filter is_file_option opts = [] \<Longrightarrow> fst (export_all fp opts stk g) = stk"
  by (induction fp opts stk g rule: export_all.induct) (auto split: if_splits)

fun put_globals :: "(string \<times> lua_value) list \<Rightarrow> (string \<Rightarrow> lua_value) \<Rightarrow> string \<Rightarrow> lua_value" where
  "put_globals [] g = g"
| "put_globals ((n, v) # vs) g = put_globals vs (g(n := v))"

lemma export_values_all:
  "lbind (export_values vs) f (L, x) = f () (L\<lparr>ls_mem := (ls_mem L)\<lparr>lm_globals := put_globals vs (lm_globals (ls_mem L))\<rparr>\<rparr>, x)"
proof (induction vs arbitrary: L)
  case (Cons nv vs)
  obtain n v where nv: "nv = (n, v)"
    by (metis surj_pair)
  let ?L = "L\<lparr>ls_mem := (ls_mem L)\<lparr>lm_globals := (lm_globals (ls_mem L))(n := v)\<rparr>\<rparr>"
  have "lbind (export_values (nv # vs)) f (L, x) = lbind (export_values vs) f (?L, x)"
    by (cases L) (simp add: nv export_values_Cons lua_setglobal_bind [of _ "ls_stack L" v] del: fun_upd_apply export_values.simps)
  then show ?case
    using Cons.IH [of ?L] by (simp add: nv del: fun_upd_apply export_values.simps)
qed simp

lemma put_globals_other: "n \<notin> fst ` set vs \<Longrightarrow> put_globals vs g n = g n"
  by (induction vs g rule: put_globals.induct) auto

lemma put_globals_value: "distinct (map fst vs) \<Longrightarrow> (n, v) \<in> set vs \<Longrightarrow> put_globals vs g n = v"
  by (induction vs g rule: put_globals.induct) (auto simp: put_globals_other image_iff)

text \<open>What is exported besides the options.\<close>

definition lua_api :: "'d lua_sys \<Rightarrow> (string \<times> lua_value) list" where
  "lua_api sy = map (\<lambda>(n, f). (n, LFunction (C_fun n))) (lua_exports sy) @ lua_constants"

lemma lua_api_names: "map fst (lua_api sy) = map fst (lua_exports (undefined :: unit lua_sys)) @ map fst lua_constants"
  by (simp add: lua_api_def lua_exports_def)

lemma lua_api_distinct: "distinct (map fst (lua_api sy))"
  by (simp add: lua_api_def lua_exports_def lua_constants_def)

text \<open>
  (C8) Scripts see the options of the program: when the options have different names, which are not those of exported functions and constants, every
  option but a file option has a value that can be converted, and at most one of them is a file option,
  the script is loaded in an interpreter in which the global variable of each other option has the value of the option (a boolean, a number or a
  string, but nil for a list), the one of the file option has the table of the library for mathematics, which was left on the stack, all functions and
  constants are defined, and every other global variable is as the libraries left it.
\<close>

theorem script_sees_options:
  assumes "os_options (pg_opts (ds_pg (lx_db x))) = opts" and "distinct (map opt_name opts)"
    and "\<forall>opt\<in>set opts. is_file_option opt \<or> option_value (sy_fp sy) opt \<noteq> None"
    and "length (filter is_file_option opts) \<le> 1" and "opt_name ` set opts \<inter> fst ` set (lua_api sy) = {}"
  shows "\<exists>L. prepare_state sy scriptname (lua_newstate (sy_lua sy), x) = load_script sy scriptname (L, x) \<and>
           (\<forall>opt\<in>set opts. \<not> is_file_option opt \<longrightarrow> Some (lm_globals (ls_mem L) (opt_name opt)) = option_value (sy_fp sy) opt) \<and>
           (\<forall>opt\<in>set opts. is_file_option opt \<longrightarrow> lm_globals (ls_mem L) (opt_name opt) = le_math (sy_lua sy)) \<and>
           (\<forall>(n, v)\<in>set (lua_api sy). lm_globals (ls_mem L) n = v) \<and>
           (\<forall>n. n \<notin> opt_name ` set opts \<and> n \<notin> fst ` set (lua_api sy) \<longrightarrow>
              lm_globals (ls_mem L) n = lm_globals (le_libs (sy_lua sy)) n)"
proof -
  let ?g0 = "lm_globals (le_libs (sy_lua sy))" and ?m = "[le_math (sy_lua sy)]"
  obtain stk g where sg: "export_all (sy_fp sy) opts ?m ?g0 = (stk, g)"
    by (metis surj_pair)
  let ?L = "(lua_newstate (sy_lua sy))\<lparr>ls_mem := (le_libs (sy_lua sy))\<lparr>lm_globals := put_globals (lua_api sy) g\<rparr>,
              ls_stack := stk @ [LTable 0, LTable 0]\<rparr>"
  have new: "ls_stack (lua_newstate (sy_lua sy)) = ?m" "lm_globals (ls_mem (lua_newstate (sy_lua sy))) = ?g0"
      "ls_mem (lua_newstate (sy_lua sy)) = le_libs (sy_lua sy)"
    by (simp_all add: lua_newstate_def)
  have "prepare_state sy scriptname (lua_newstate (sy_lua sy), x) = load_script sy scriptname (?L, x)"
    using assms(1,4) sg new(3)
    by (simp add: prepare_state_def export_options_all [OF assms(3) _ new(1,2)] export_values_all lua_api_def)
  moreover have "Some (put_globals (lua_api sy) g (opt_name opt)) = option_value (sy_fp sy) opt"
    if opt: "opt \<in> set opts" "\<not> is_file_option opt" for opt
  proof -
    obtain v where v: "option_value (sy_fp sy) opt = Some v"
      using opt assms(3) by auto
    have "opt_name opt \<notin> fst ` set (lua_api sy)"
      using opt(1) assms(5) by blast
    then show ?thesis
      using export_all_value [OF assms(2) opt(1) v, of ?m ?g0] sg v by (simp add: put_globals_other)
  qed
  moreover have "put_globals (lua_api sy) g (opt_name opt) = le_math (sy_lua sy)" if opt: "opt \<in> set opts" "is_file_option opt" for opt
  proof -
    have "opt_name opt \<notin> fst ` set (lua_api sy)"
      using opt(1) assms(5) by blast
    then show ?thesis
      using export_all_file [OF assms(2,4) opt, of "sy_fp sy" "le_math (sy_lua sy)" ?g0] sg by (simp add: put_globals_other)
  qed
  moreover have "put_globals (lua_api sy) g n = ?g0 n" if "n \<notin> opt_name ` set opts" "n \<notin> fst ` set (lua_api sy)" for n
    using that export_all_other [OF that(1), of "sy_fp sy" ?m ?g0] sg by (simp add: put_globals_other)
  ultimately show ?thesis
    using put_globals_value [OF lua_api_distinct] by (intro exI [of _ ?L]) auto
qed

definition sample_options :: "option_t list" where
  "sample_options =
     [\<lparr>opt_name = ''num_threads'', opt_type = SB_ARG_TYPE_INT, opt_values = [\<lparr>val_data = print_int 8, val_ignore = False\<rparr>], opt_ignore = False\<rparr>,
      \<lparr>opt_name = ''test'', opt_type = SB_ARG_TYPE_STRING, opt_values = [\<lparr>val_data = ''oltp.lua'', val_ignore = False\<rparr>], opt_ignore = False\<rparr>,
      \<lparr>opt_name = ''validate'', opt_type = SB_ARG_TYPE_FLAG, opt_values = [], opt_ignore = False\<rparr>,
      \<lparr>opt_name = ''config_file'', opt_type = SB_ARG_TYPE_FILE, opt_values = [], opt_ignore = False\<rparr>]"

definition sample_shared :: "unit lua_shared" where
  "sample_shared =
     (let x = lv_shared (sample_lua 0); db = lx_db x; pg = ds_pg db in
      x\<lparr>lx_db := db\<lparr>ds_pg := set_opts ((pg_opts pg)\<lparr>os_options := sample_options\<rparr>) pg\<rparr>\<rparr>)"

lemma script_sees_options_witness:
  "\<exists>L. prepare_state sample_sy ''oltp.lua'' (lua_newstate (sy_lua sample_sy), sample_shared) = load_script sample_sy ''oltp.lua'' (L, sample_shared) \<and>
     lm_globals (ls_mem L) ''num_threads'' = LNumber 8 \<and> lm_globals (ls_mem L) ''test'' = LString ''oltp.lua'' \<and>
     lm_globals (ls_mem L) ''validate'' = LBool False \<and> lm_globals (ls_mem L) ''config_file'' = LTable 1 \<and>
     lm_globals (ls_mem L) ''db_query'' = LFunction (C_fun ''db_query'')"
proof -
  have h: "os_options (pg_opts (ds_pg (lx_db sample_shared))) = sample_options" "distinct (map opt_name sample_options)"
      "\<forall>opt\<in>set sample_options. is_file_option opt \<or> option_value (sy_fp sample_sy) opt \<noteq> None"
      "length (filter is_file_option sample_options) \<le> 1" "opt_name ` set sample_options \<inter> fst ` set (lua_api sample_sy) = {}"
    using strtol_print_int [of 8 "[]"]
    by (simp_all add: sample_shared_def sample_options_def is_file_option_def option_value_def sb_opt_to_int_def Let_def lua_api_def lua_exports_def
        lua_constants_def)
  obtain L where L: "prepare_state sample_sy ''oltp.lua'' (lua_newstate (sy_lua sample_sy), sample_shared) = load_script sample_sy ''oltp.lua'' (L, sample_shared)"
      "\<forall>opt\<in>set sample_options. \<not> is_file_option opt \<longrightarrow> Some (lm_globals (ls_mem L) (opt_name opt)) = option_value (sy_fp sample_sy) opt"
      "\<forall>opt\<in>set sample_options. is_file_option opt \<longrightarrow> lm_globals (ls_mem L) (opt_name opt) = le_math (sy_lua sample_sy)"
      "\<forall>(n, v)\<in>set (lua_api sample_sy). lm_globals (ls_mem L) n = v"
    using script_sees_options [OF h, of "''oltp.lua''"] by blast
  have "(''db_query'', LFunction (C_fun ''db_query'')) \<in> set (lua_api sample_sy)"
    by (simp add: lua_api_def lua_exports_def)
  then have "lm_globals (ls_mem L) ''db_query'' = LFunction (C_fun ''db_query'')"
    using L(4) by auto
  moreover have "lm_globals (ls_mem L) ''num_threads'' = LNumber 8 \<and> lm_globals (ls_mem L) ''test'' = LString ''oltp.lua'' \<and>
     lm_globals (ls_mem L) ''validate'' = LBool False"
    using L(2) strtol_print_int [of 8 "[]"]
    by (simp add: sample_options_def is_file_option_def option_value_def sb_opt_to_int_def sb_opt_to_string_def sb_opt_to_flag_def)
  moreover have "lm_globals (ls_mem L) ''config_file'' = LTable 1"
    using L(3) by (simp add: sample_options_def is_file_option_def sample_sy_def sample_lua_env_def)
  ultimately show ?thesis using L(1) by blast
qed

text \<open>
  For a file option nothing is pushed, but a value is popped: the first one takes the table left by \<^verbatim>\<open>luaopen_math\<close>, the second one
  finds the stack empty.
\<close>

lemma file_option_pops:
  assumes "is_file_option o1" and "is_file_option o2"
  shows "export_options fp [o1] (lua_newstate env, x) =
           Inr (Inr (), ((lua_newstate env)\<lparr>ls_stack := [], ls_mem := (le_libs env)\<lparr>lm_globals := (lm_globals (le_libs env))(opt_name o1 := le_math env)\<rparr>\<rparr>, x))"
    and "export_options fp [o1, o2] (lua_newstate env, x) = Inl Out_of_bounds"
proof -
  show "export_options fp [o1] (lua_newstate env, x) =
           Inr (Inr (), ((lua_newstate env)\<lparr>ls_stack := [], ls_mem := (le_libs env)\<lparr>lm_globals := (lm_globals (le_libs env))(opt_name o1 := le_math env)\<rparr>\<rparr>, x))"
    by (simp add: assms push_file lua_setglobal_bind [of _ "[]" "le_math env"] lua_newstate_def lret_def)
  show "export_options fp [o1, o2] (lua_newstate env, x) = Inl Out_of_bounds"
    by (simp add: assms push_file lua_setglobal_bind [of _ "[]" "le_math env"] lua_newstate_def)
      (simp add: lua_setglobal_def lbind_assoc index2adr_def)
qed

end
