(* ===== verification/ScriptStmt.thy ===== *)
theory ScriptStmt
  imports ScriptRun DrvMysql
begin

text \<open>
  Prepared statements from the script down to the server: the variables that \<^verbatim>\<open>sb_lua_db_bind_param\<close> binds, the values that
  \<^verbatim>\<open>sb_lua_db_execute\<close> copies into them, and what the MySQL driver sends for them; and what happens when the binding fails.
\<close>

section \<open>Execution in the database layer\<close>

lemma mysql_ready_frame:
  "mysql_ready api received c st \<Longrightarrow> ds_drv st' = ds_drv st \<Longrightarrow> ds_pg st' = ds_pg st \<Longrightarrow>
   map_option con_ptr (ds_conns st' c) = map_option con_ptr (ds_conns st c) \<Longrightarrow> mysql_ready api received c st'"
  by (auto simp: mysql_ready_def mysql_open_def)

text \<open>A connection to a server that accepts everything; no allocation fails.\<close>

definition session_ok :: "nat \<Rightarrow> 'm mysql_api \<Rightarrow> ('m \<Rightarrow> string list) \<Rightarrow> 'm mysql_drv db_driver_t list \<Rightarrow> nat \<Rightarrow> 'm mst \<Rightarrow> bool" where
  "session_ok fuel api received drvs c st \<longleftrightarrow>
     mysql_ready api received c st \<and> (\<exists>con. attached drvs (mysql_ops fuel api) c st con) \<and> os_mem (pg_opts (ds_pg st)) = []"

lemma db_execute_emulated:
  assumes "session_ok fuel api received drvs c st"
    and "ds_stmts st s = Some stmt" and "st_emulated stmt" and "st_connection stmt = Some c" and "st_query stmt = Some query"
    and "st_bound_param stmt = Some ps" and "map (bind_text (ds_vars st)) ps = map Inr ts" and "length (filter (\<lambda>c. c = CHR ''?'') query) \<le> length ts"
    and "query \<noteq> []" and "length (substitute ts query) + 1 < 2 ^ 30" and "length query + 45 \<le> fuel"
  shows "\<exists>st'. db_execute drvs s st = Inr (Some c, st') \<and> session_ok fuel api received drvs c st' \<and>
           received (mlib st') = received (mlib st) @ [substitute ts query] \<and>
           ds_stmts st' = ds_stmts st \<and> ds_vars st' = ds_vars st \<and> ds_next st' = ds_next st"
proof -
  obtain con where rdy: "mysql_ready api received c st" "attached drvs (mysql_ops fuel api) c st con" "os_mem (pg_opts (ds_pg st)) = []"
    using assms(1) by (auto simp: session_ok_def)
  have at: "ds_conns st c = Some con"
    using rdy(2) by (simp add: attached_def)
  let ?con1 = "con\<lparr>con_rs := rs_zero\<lparr>rs_statement := Some s, rs_connection := Some c\<rparr>\<rparr>"
  let ?st1 = "st\<lparr>ds_conns := (ds_conns st)(c := Some ?con1)\<rparr>" and ?con2 = "?con1\<lparr>con_errno := SB_DB_ERROR_NONE\<rparr>"
  have ready1: "mysql_ready api received c ?st1"
    using mysql_ready_frame [OF rdy(1), of ?st1] at by simp
  obtain st2 where st2: "mysql_drv_query fuel api c (substitute ts query) c ?st1 = Inr (SB_DB_ERROR_NONE, st2)"
      "mysql_drv_execute fuel api s c ?st1 = Inr (SB_DB_ERROR_NONE, st2\<lparr>ds_conns := (ds_conns st2)(c := Some ?con2)\<rparr>)"
    using emulated_execute [OF ready1 _ _ assms(3-6) _ assms(8-11), of s ?con1 c] rdy(3) assms(2,7) by auto
  have q: "mysql_ready api received c st2" "received (mlib st2) = received (mlib st) @ [substitute ts query]"
      "ds_conns st2 = ds_conns ?st1" "thread_stats st2 = thread_stats st" "os_mem (pg_opts (ds_pg st2)) = []"
    using mysql_query_accepted [OF ready1, of fuel "substitute ts query" c] st2(1) rdy(3) by auto
  have same: "ds_stmts st2 = ds_stmts st" "ds_vars st2 = ds_vars st" "ds_next st2 = ds_next st"
    using mysql_query_same [OF st2(1)] by (simp_all add: layer_same_def)
  let ?st3 = "st2\<lparr>ds_conns := (ds_conns st2)(c := Some ?con2)\<rparr>"
  obtain ts0 where ts0: "thread_stats st = Some ts0" "con_thread_id con < int (length ts0)"
    using rdy(2) by (auto simp: attached_def)
  obtain ts' where st4: "db_count_ok c (st_type stmt) ?st3 = Inr (?st3\<lparr>thread_stats := Some ts'\<rparr>)" "length ts' = length ts0"
    using db_count_ok_succeeds [of ?st3 c ?con2 ts0] ts0 q(4) by auto
  let ?st4 = "?st3\<lparr>thread_stats := Some ts'\<rparr>"
  have "db_execute drvs s st = Inr (Some c, ?st4)"
    using attached_driver [OF rdy(2)] assms(2,4) at st2(2) st4(1) same(1)
    by (simp add: db_execute_def stmt_at_def upd_rs_def upd_con_def con_at_def mysql_ops_def)
  moreover have "attached drvs (mysql_ops fuel api) c ?st4 ?con2"
    using rdy(2) ts0(2) st4(2) by (auto simp: attached_def)
  moreover have "mysql_ready api received c ?st4"
    using mysql_ready_frame [OF q(1), of ?st4] q(3) by simp
  ultimately show ?thesis
    using q(2,5) same by (intro exI [of _ ?st4]) (auto simp: session_ok_def)
qed

lemma db_bind_emulated:
  assumes "session_ok fuel api received drvs c st" and "ds_stmts st s = Some stmt" and "st_emulated stmt" and "st_connection stmt = Some c"
    and "unat len \<le> length ps"
  shows "db_bind_param drvs s ps len st =
     Inr (0, st\<lparr>ds_stmts := (ds_stmts st)(s := Some (stmt\<lparr>st_bound_param := Some (take (unat len) ps), st_bound_param_len := len\<rparr>))\<rparr>)"
proof -
  obtain con where rdy: "mysql_ready api received c st" "attached drvs (mysql_ops fuel api) c st con" "os_mem (pg_opts (ds_pg st)) = []"
    using assms(1) by (auto simp: session_ok_def)
  obtain con' a mc h where "ds_conns st c = Some con'" "con_ptr con' = Some a" "m_conns (ds_drv st) a = Some mc" "mc_mysql mc = Some h"
      "\<not> a_dry_run (margs st)"
    using rdy(1) by (auto simp: mysql_ready_def mysql_open_def)
  moreover have "d_malloc st = (True, st)"
    using rdy(3) by (simp add: d_malloc_def)
  ultimately show ?thesis
    using attached_driver [OF rdy(2)] assms(2-5)
    by (simp add: db_bind_param_def stmt_at_def mysql_ops_def mysql_drv_bind_param_def stmt_con_def mysql_con_at_def con_at_def upd_stmt_def)
qed

section \<open>Steps on an interpreter with a statement\<close>

text \<open>
  An interpreter with the stack \<open>stk\<close> and the statement \<open>sl\<close> at \<open>u\<close>, and the shared state with the variables \<open>vs\<close> and the next
  free address \<open>nx\<close>.
\<close>

definition lst :: "nat \<Rightarrow> L_state \<Rightarrow> lua_value list \<Rightarrow> sb_lua_db_stmt_t \<Rightarrow> L_state" where
  "lst u L stk sl = L\<lparr>ls_stack := stk, ls_udata := (ls_udata L)(u := Some (''sysbench.stmt'', Stmt_udata sl))\<rparr>"

definition xst :: "'d lua_shared \<Rightarrow> vars \<Rightarrow> nat \<Rightarrow> 'd lua_shared" where
  "xst x vs nx = x\<lparr>lx_db := (lx_db x)\<lparr>ds_next := nx, ds_vars := vs\<rparr>\<rparr>"

lemma lst_simps [simp]:
  "ls_stack (lst u L stk sl) = stk" "ls_udata (lst u L stk sl) u = Some (''sysbench.stmt'', Stmt_udata sl)" "ls_mem (lst u L stk sl) = ls_mem L"
  "ls_refs (lst u L stk sl) = ls_refs L" "ls_light (lst u L stk sl) = ls_light L" "ls_next (lst u L stk sl) = ls_next L"
  "(lst u L stk sl)\<lparr>ls_stack := stk'\<rparr> = lst u L stk' sl" "lst u (lst u L stk sl) stk' sl' = lst u L stk' sl'"
  by (simp_all add: lst_def)

lemma xst_simps [simp]:
  "ds_vars (lx_db (xst x vs nx)) = vs" "ds_next (lx_db (xst x vs nx)) = nx" "ds_stmts (lx_db (xst x vs nx)) = ds_stmts (lx_db x)"
  "ds_conns (lx_db (xst x vs nx)) = ds_conns (lx_db x)" "ds_pg (lx_db (xst x vs nx)) = ds_pg (lx_db x)" "ds_drv (lx_db (xst x vs nx)) = ds_drv (lx_db x)"
  "thread_stats (lx_db (xst x vs nx)) = thread_stats (lx_db x)"
  "lx_ctxts (xst x vs nx) = lx_ctxts x" "lx_driver (xst x vs nx) = lx_driver x" "xst (xst x vs nx) vs' nx' = xst x vs' nx'"
  by (simp_all add: xst_def)

lemma lst_same: "ls_udata L u = Some (''sysbench.stmt'', Stmt_udata sl) \<Longrightarrow> lst u L (ls_stack L) sl = L"
  by (cases L) (auto simp: lst_def)

lemma xst_same: "xst x (ds_vars (lx_db x)) (ds_next (lx_db x)) = x"
  by (simp add: xst_def)

lemma malloc_ok: "os_mem (pg_opts (ds_pg db)) = [] \<Longrightarrow> d_malloc db = (True, db)"
  by (simp add: d_malloc_def)

lemma step_pop: "lbind (lua_pop (Suc 0)) f (lst u L (stk @ [v]) sl, x) = f () (lst u L stk sl, x)"
  by (simp add: lua_pop_bind [of _ stk v])

lemma step_stmt_of: "lbind (stmt_of u) f (lst u L stk sl, x) = f sl (lst u L stk sl, x)"
  by (simp add: stmt_of_def lbind_assoc)

lemma step_upd_sl: "lbind (upd_sl u g) f (lst u L stk sl, x) = f () (lst u L stk (g sl), x)"
  by (simp add: upd_sl_def lbind_assoc step_stmt_of) (simp add: lst_def)

lemma step_new_var: "lbind (new_var d) f (l, xst x vs nx) = f nx (l, xst x (vs(nx \<mapsto> d)) (nx + 1))"
  by (simp add: new_var_def) (simp add: xst_def)

lemma step_set_var: "a \<in> dom vs \<Longrightarrow> lbind (set_var a d) f (l, xst x vs nx) = f () (l, xst x (vs(a \<mapsto> d)) nx)"
  by (auto simp: set_var_def) (simp add: xst_def)

lemma step_get_var: "vs a = Some d \<Longrightarrow> lbind (get_var a) f (l, xst x vs nx) = f d (l, xst x vs nx)"
  by (simp add: get_var_def var_at_def xst_def)

lemma step_malloc: "os_mem (pg_opts (ds_pg (lx_db x))) = [] \<Longrightarrow> lbind L_malloc f (l, x) = f True (l, x)"
  by (simp add: L_malloc_def malloc_ok)

lemma step_context: "ls_light L sb_lua_ctxt_key = LLight c \<Longrightarrow>
   lbind (sb_lua_get_context env) f (L, x) = f c (L\<lparr>ls_stack := ls_stack L @ [LLight c]\<rparr>, x)"
  by (simp add: sb_lua_get_context_def lbind_assoc)

lemma step_ctxt_at: "lx_ctxts x c = Some ctxt \<Longrightarrow> lbind (ctxt_at c) f (L, x) = f ctxt (L, x)"
  by (simp add: ctxt_at_def)

lemma step_connection: "lx_ctxts x c = Some ctxt \<Longrightarrow> ctx_con ctxt = Some con \<Longrightarrow> lbind (CHECK_CONNECTION env c) f (L, x) = f con (L, x)"
  by (simp add: CHECK_CONNECTION_def lbind_assoc step_ctxt_at)

lemma step_userdata: "index2adr stk i = Some (LUserdata u) \<Longrightarrow>
   lbind (luaL_checkudata env i ''sysbench.stmt'') f (lst u L stk sl, x) = f u (lst u L stk sl, x)"
  by (simp add: luaL_checkudata_def lbind_assoc)

lemma step_istable: "index2adr stk i = Some (LTable t) \<Longrightarrow> lbind (lua_istable i) f (lst u L stk sl, x) = f True (lst u L stk sl, x)"
  by (simp add: lua_istable_def lbind_assoc)

lemma step_table: "index2adr stk i = Some (LTable t) \<Longrightarrow> lm_tables (ls_mem L) t = Some tab \<Longrightarrow>
   lbind (lua_table i) f (lst u L stk sl, x) = f tab (lst u L stk sl, x)"
  by (simp add: lua_table_def lbind_assoc)

lemma step_stmt_ptr: "sl_ptr sl = Some s \<Longrightarrow> lbind (stmt_ptr u) f (lst u L stk sl, x) = f s (lst u L stk sl, x)"
  by (simp add: stmt_ptr_def lbind_assoc step_stmt_of)

lemma step_param_at: "sl_params sl = Some ps \<Longrightarrow> i < length ps \<Longrightarrow> lbind (param_at u i) f (lst u L stk sl, x) = f (ps ! i) (lst u L stk sl, x)"
  by (simp add: param_at_def lbind_assoc step_stmt_of lres_def lbind_def [of "lres _"])

lemma step_check_int: "luaV_tonumber env (index2adr stk i) = Some v \<Longrightarrow> double_to_int v = Inr k \<Longrightarrow>
   lbind (check_int env i) f (lst u L stk sl, x) = f k (lst u L stk sl, x)"
  by (simp add: check_int_def luaL_checknumber_def lbind_assoc lres_def lbind_def [of "lres _"])

lemma double_to_int_of_int: "int_range i \<Longrightarrow> double_to_int (of_int i) = Inr i"
  by (simp add: double_to_int_def)

lemmas stmt_steps = lbind_assoc step_pop step_stmt_of step_upd_sl step_new_var step_set_var step_get_var step_malloc step_context step_ctxt_at
  step_connection step_userdata step_istable step_table step_stmt_ptr step_param_at step_check_int
section \<open>Binding a table of numbers\<close>

text \<open>The key before the entries \<open>rest\<close> of a table, and what the next step of the traversal gives.\<close>

definition key_before :: "(lua_value \<times> lua_value) list \<Rightarrow> lua_value" where
  "key_before done = (if done = [] then LNil else fst (last done))"

lemma key_before_simps [simp]: "key_before [] = LNil" "key_before (done @ [e]) = fst e"
  by (simp_all add: key_before_def)

lemma dropWhile_key: "distinct (map fst (xs @ [e] @ ys)) \<Longrightarrow> dropWhile (\<lambda>e'. fst e' \<noteq> fst e) (xs @ [e] @ ys) = e # ys"
  by (induction xs) auto

lemma table_next_entries:
  assumes "distinct (map fst (done @ rest))" and "LNil \<notin> fst ` set (done @ rest)"
  shows "table_next (done @ rest) (key_before done) = Some (case rest of [] \<Rightarrow> None | e # _ \<Rightarrow> Some e)"
proof (cases "done" rule: rev_cases)
  case Nil
  then show ?thesis
    by (simp add: table_next_def key_before_def)
next
  case (snoc ini e)
  have "fst e \<noteq> LNil"
    using assms(2) snoc by auto
  moreover have "dropWhile (\<lambda>e'. fst e' \<noteq> fst e) (done @ rest) = e # rest"
    using dropWhile_key [of ini e rest] assms(1) snoc by simp
  ultimately show ?thesis
    using snoc by (simp add: table_next_def key_before_def)
qed

text \<open>A table with entries that are keyed by numbers, at the index 2 of a stack.\<close>

definition at_two :: "nat \<Rightarrow> lua_value list \<Rightarrow> bool" where
  "at_two t stk \<longleftrightarrow> (\<forall>vs. index2adr (stk @ vs) 2 = Some (LTable t))"

lemma at_two_ext: "at_two t stk \<Longrightarrow> at_two t (stk @ vs)" and at_two_here: "at_two t stk \<Longrightarrow> index2adr (stk @ vs) 2 = Some (LTable t)"
  by (simp_all add: at_two_def)

lemma at_two_frame: "at_two t (v # LTable t # vs)"
  by (simp add: at_two_def index2adr_def)

lemma step_next:
  assumes "at_two t stk" and "lm_tables (ls_mem L) t = Some (done @ rest)"
    and "distinct (map fst (done @ rest))" and "LNil \<notin> fst ` set (done @ rest)"
  shows "lbind (lua_next env 2) f (lst u L (stk @ [key_before done]) sl, x) =
     (case rest of [] \<Rightarrow> f False (lst u L stk sl, x) | e # _ \<Rightarrow> f True (lst u L (stk @ [fst e, snd e]) sl, x))"
  using at_two_here [OF assms(1)] assms(2) table_next_entries [OF assms(3,4)]
  by (cases rest) (simp_all add: lua_next_def lbind_assoc step_pop case_prod_unfold step_table [where t = t and tab = "done @ rest"] step_table [where t = t and tab = "done"])

lemma table_size_entries:
  assumes "at_two t stk" and "lm_tables (ls_mem L) t = Some (done @ rest)"
    and "distinct (map fst (done @ rest))" and "LNil \<notin> fst ` set (done @ rest)"
  shows "lbind (table_size_loop env (Suc (length rest)) 2 i) f (lst u L (stk @ [key_before done]) sl, x) = f (i + of_nat (length rest)) (lst u L stk sl, x)"
  using assms
proof (induction rest arbitrary: "done" i)
  case Nil
  then show ?case
    by (simp add: lbind_assoc step_next [where rest = "[]", OF Nil, simplified])
next
  case (Cons e rest)
  then show ?case
    using Cons.IH [of "done @ [e]" "i + 1"]
    by (simp add: lbind_assoc algebra_simps step_next [OF Cons.prems] step_pop [where stk = "stk @ [fst e]", simplified])
qed

lemma step_table_size:
  assumes "at_two t stk" and "lm_tables (ls_mem L) t = Some tab" and "distinct (map fst tab)" and "LNil \<notin> fst ` set tab"
  shows "lbind (sb_lua_table_size env 2) f (lst u L stk sl, x) = f (of_nat (length tab)) (lst u L stk sl, x)"
  using table_size_entries [OF assms(1), of L "[]" tab env 0 f u sl x] assms(2-4) at_two_here [OF assms(1)]
  by (simp add: sb_lua_table_size_def lbind_assoc key_before_def step_table [where t = t and tab = tab] del: table_size_loop.simps)

text \<open>The array that is allocated, and the bound variables after the loop.\<close>

fun fresh_binds :: "nat \<Rightarrow> nat \<Rightarrow> sb_lua_bind_t list" where
  "fresh_binds nx 0 = []"
| "fresh_binds nx (Suc n) = \<lparr>lb_id = 0, lb_type = DB_TYPE_NONE, lb_buf = None, lb_buflen = nx, lb_is_null = Suc nx\<rparr> # fresh_binds (Suc (Suc nx)) n"

fun fresh_vars :: "nat \<Rightarrow> nat \<Rightarrow> vars \<Rightarrow> vars" where
  "fresh_vars nx 0 vs = vs"
| "fresh_vars nx (Suc n) vs = fresh_vars (Suc (Suc nx)) n (vs(nx \<mapsto> Len_data 0, Suc nx \<mapsto> Flag_data False))"

lemma step_new_binds:
  "lbind (new_binds n) f (l, xst x vs nx) = f (fresh_binds nx n) (l, xst x (fresh_vars nx n vs) (nx + 2 * n))"
  by (induction n arbitrary: nx vs f) (simp_all add: lbind_assoc step_new_var del: fun_upd_apply)

fun bound_binds :: "db_bind_type_t \<Rightarrow> nat \<Rightarrow> int list \<Rightarrow> sb_lua_bind_t list \<Rightarrow> sb_lua_bind_t list" where
  "bound_binds ty nx (k # ks) (p # ps) = p\<lparr>lb_buf := Some nx, lb_id := k, lb_type := ty\<rparr> # bound_binds ty (Suc nx) ks ps"
| "bound_binds ty nx ks ps = []"

fun undef_vars :: "nat \<Rightarrow> nat \<Rightarrow> vars \<Rightarrow> vars" where
  "undef_vars nx 0 vs = vs"
| "undef_vars nx (Suc n) vs = undef_vars (Suc nx) n (vs(nx \<mapsto> Undef_data))"

definition binding :: "sb_lua_bind_t \<Rightarrow> db_bind_t" where
  "binding p = bind_zero\<lparr>b_type := lb_type p, b_buffer := lb_buf p, b_is_null := Some (lb_is_null p)\<rparr>"

definition number_table :: "(int \<times> real) list \<Rightarrow> (lua_value \<times> lua_value) list" where
  "number_table kvs = map (\<lambda>(k, v). (LNumber (of_int k), LNumber v)) kvs"

lemma number_table_keys:
  "distinct (map fst kvs) \<Longrightarrow> distinct (map fst (number_table kvs))" "LNil \<notin> fst ` set (number_table kvs)"
proof -
  have "map fst (number_table kvs) = map (\<lambda>k. LNumber (of_int k)) (map fst kvs)"
    by (simp add: number_table_def case_prod_unfold)
  then show "distinct (map fst kvs) \<Longrightarrow> distinct (map fst (number_table kvs))"
    by (simp only: distinct_map) (auto simp: inj_on_def)
  show "LNil \<notin> fst ` set (number_table kvs)"
    by (auto simp: number_table_def)
qed

lemma number_table_append [simp]: "number_table (xs @ ys) = number_table xs @ number_table ys" "length (number_table kvs) = length kvs" "number_table [] = []"
  by (simp_all add: number_table_def)

lemma bind_loop_numbers:
  assumes "at_two t stk" and "lm_tables (ls_mem L) t = Some (number_table (kvs @ rest))" and "distinct (map fst (kvs @ rest))"
    and "\<forall>k\<in>fst ` set rest. int_range k" and "os_mem (pg_opts (ds_pg (lx_db x))) = []"
    and "length pre = i" and "length bpre = i" and "length qs = length rest"
    and "put = (\<lambda>ps. upd_sl u (pt (Some ps)))" and "\<And>a b sl. pt a (pt b sl) = pt a sl"
  shows "lbind (bind_loop env ty put (length rest) i (pre @ qs) (bpre @ replicate (length rest) bind_zero) needs) f
       (lst u L (stk @ [key_before (number_table kvs)]) (pt (Some (pre @ qs)) sl), xst x vs nx) =
     f (Some (bpre @ map binding (bound_binds ty nx (map fst rest) qs), needs))
       (lst u L (stk @ [key_before (number_table (kvs @ rest))]) (pt (Some (pre @ bound_binds ty nx (map fst rest) qs)) sl),
        xst x (undef_vars nx (length rest) vs) (nx + length rest))"
  using assms
proof (induction rest arbitrary: kvs pre bpre qs i vs nx)
  case Nil
  then show ?case by simp
next
  case (Cons e rest)
  obtain k v where e: "e = (k, v)"
    by (metis surj_pair)
  obtain p qs' where qs: "qs = p # qs'"
    using Cons.prems(8) by (cases qs) auto
  let ?p = "p\<lparr>lb_buf := Some nx, lb_id := k, lb_type := ty\<rparr>"
  have d: "distinct (map fst (number_table kvs @ number_table (e # rest)))" "LNil \<notin> fst ` set (number_table kvs @ number_table (e # rest))"
    using number_table_keys [of "kvs @ e # rest"] Cons.prems(3) by simp_all
  have tab: "lm_tables (ls_mem L) t = Some (number_table kvs @ number_table (e # rest))"
    using Cons.prems(2) by simp
  note nxt = step_next [OF Cons.prems(1) tab d]
  note pop = step_pop [where stk = "stk @ [LNumber (of_int k)]" and v = "LNumber v", simplified]
  have key: "key_before (number_table (kvs @ [e])) = LNumber (of_int k)"
    by (simp add: e number_table_def)
  have rng: "double_to_int (of_int k) = Inr k"
    using Cons.prems(4) e by (simp add: double_to_int_of_int)
  have upd: "(pre @ p # qs')[i := q] = (pre @ [q]) @ qs'" "(pre @ p # qs') ! i = p"
      "(bpre @ bind_zero # bs)[i := b] = (bpre @ [b]) @ bs" "(bpre @ bind_zero # bs) ! i = bind_zero" for q b bs
    using Cons.prems(6,7) by (simp_all add: nth_append list_update_append)
  note IH = Cons.IH [where kvs = "kvs @ [e]" and i = "Suc i" and pre = "pre @ [?p]" and bpre = "bpre @ [binding ?p]" and qs = qs'
      and vs = "vs(nx \<mapsto> Undef_data)" and nx = "Suc nx"]
  show ?case
    using Cons.prems IH key rng qs
    by (simp add: nxt pop e number_table_def [of "_ # _"] upd binding_def stmt_steps luaV_tonumber_def Let_def del: fun_upd_apply)
qed
section \<open>Binding parameters\<close>

lemma undef_vars_dom [simp]: "dom (undef_vars nx n vs) = {nx ..< nx + n} \<union> dom vs"
  by (induction nx n vs rule: undef_vars.induct) (auto simp del: fun_upd_apply)

lemma fresh_vars_dom [simp]: "dom (fresh_vars nx n vs) = {nx ..< nx + 2 * n} \<union> dom vs"
  by (induction nx n vs rule: fresh_vars.induct) (auto simp del: fun_upd_apply)

text \<open>The addresses of the value and of the NULL flag of every variable.\<close>

definition cells :: "sb_lua_bind_t list \<Rightarrow> nat list" where
  "cells ps = concat (map (\<lambda>p. [the (lb_buf p), lb_is_null p]) ps)"

lemma cells_simps [simp]: "cells [] = []" "cells (p # ps) = the (lb_buf p) # lb_is_null p # cells ps"
  by (simp_all add: cells_def)

lemma fresh_binds_length: "length (fresh_binds nx n) = n"
  by (induction nx n rule: fresh_binds.induct) simp_all

lemma bound_fresh:
  assumes "m + 2 * length ks \<le> nx"
  shows "set (cells (bound_binds ty nx ks (fresh_binds m (length ks)))) \<subseteq> {m ..< m + 2 * length ks} \<union> {nx ..< nx + length ks}"
    and "distinct (cells (bound_binds ty nx ks (fresh_binds m (length ks))))"
    and "map lb_id (bound_binds ty nx ks (fresh_binds m (length ks))) = ks"
    and "\<forall>p\<in>set (bound_binds ty nx ks (fresh_binds m (length ks))). lb_type p = ty \<and> lb_buf p \<noteq> None"
  using assms
proof (induction ks arbitrary: nx m)
  case (Cons k ks)
  {
    case 1
    then show ?case using Cons.IH(1) [of "m + 2" "nx + 1"] by fastforce
  next
    case 2
    then show ?case using Cons.IH(1,2) [of "m + 2" "nx + 1"] by fastforce
  next
    case 3
    then show ?case using Cons.IH(3) [of "m + 2" "nx + 1"] by simp
  next
    case 4
    then show ?case using Cons.IH(4) [of "m + 2" "nx + 1"] by simp
  }
qed simp_all

text \<open>
  A statement whose variables have been bound to the parameters with the numbers \<open>ks\<close>, in an interpreter with the context \<open>c0\<close>: the driver
  has been given their addresses, and the table with their values is registered.
\<close>

definition bound_params :: "u32 \<Rightarrow> int list \<Rightarrow> sb_lua_bind_t list \<Rightarrow> vars \<Rightarrow> bool" where
  "bound_params n ks ps vs \<longleftrightarrow>
     unat n = length ps \<and> map lb_id ps = ks \<and> distinct (cells ps) \<and> set (cells ps) \<subseteq> dom vs \<and>
     (\<forall>p\<in>set ps. lb_type p = DB_TYPE_INT \<and> lb_buf p \<noteq> None)"

definition script_session ::
  "'m mysql_drv lua_sys \<Rightarrow> nat \<Rightarrow> 'm mysql_api \<Rightarrow> ('m \<Rightarrow> string list) \<Rightarrow> nat \<Rightarrow> L_state \<Rightarrow> 'm mysql_drv lua_shared \<Rightarrow> bool" where
  "script_session sy fuel api received c L x \<longleftrightarrow>
     session_ok fuel api received (sy_drvs sy) c (lx_db x) \<and>
     (\<exists>c0 ctxt. ls_light L sb_lua_ctxt_key = LLight c0 \<and> lx_ctxts x c0 = Some ctxt \<and> ctx_con ctxt = Some c)"

definition statement_of :: "nat \<Rightarrow> string \<Rightarrow> db_stmt_t \<Rightarrow> bool" where
  "statement_of c query stmt \<longleftrightarrow> st_emulated stmt \<and> st_connection stmt = Some c \<and> st_query stmt = Some query"

definition statement_bound ::
  "nat \<Rightarrow> nat \<Rightarrow> nat \<Rightarrow> string \<Rightarrow> int list \<Rightarrow> L_state \<Rightarrow> 'm mysql_drv lua_shared \<Rightarrow> bool" where
  "statement_bound c u t query ks L x \<longleftrightarrow>
     (\<exists>sl s ps stmt. ls_udata L u = Some (''sysbench.stmt'', Stmt_udata sl) \<and> u < ls_next L \<and> sl_ptr sl = Some s \<and> sl_params sl = Some ps \<and>
        bound_params (sl_nparams sl) ks ps (ds_vars (lx_db x)) \<and> ls_refs L (sl_param_ref sl) = LTable t \<and>
        ds_stmts (lx_db x) s = Some stmt \<and> statement_of c query stmt \<and> st_bound_param stmt = Some (map binding ps))"

lemma step_on_db: "f (lx_db x) = Inr (r, db) \<Longrightarrow> lbind (on_db f) g (l, x) = g r (l, x\<lparr>lx_db := db\<rparr>)"
  by simp

lemma step_ref:
  "v \<noteq> LNil \<Longrightarrow> \<exists>ref L'. luaL_ref env (lst u L (stk @ [v]) sl, x) = Inr (Inr ref, (lst u L' stk sl, x)) \<and> ls_refs L' ref = v \<and>
     ls_mem L' = ls_mem L \<and> ls_light L' = ls_light L \<and> ls_next L' = ls_next L"
proof -
  assume "v \<noteq> LNil"
  let ?ref = "if free_ref L \<noteq> 0 then free_ref L else int (le_objlen env (ls_refs L)) + 1"
  let ?L' = "set_ref ?ref v (if free_ref L \<noteq> 0 then set_ref 0 (ls_refs L ?ref) L else L)"
  have free: "free_ref (lst u L stk sl) = free_ref L" for stk
    by (simp add: free_ref_def)
  have set: "set_ref n w (lst u L stk sl) = lst u (set_ref n w L) stk sl" for n w L
    by (simp add: set_ref_def lst_def)
  have "luaL_ref env (lst u L (stk @ [v]) sl, x) = Inr (Inr ?ref, (lst u ?L' stk sl, x))"
    using \<open>v \<noteq> LNil\<close> by (simp add: luaL_ref_def lbind_assoc step_pop free set lret_def)
  moreover have "ls_refs ?L' ?ref = v" "ls_mem ?L' = ls_mem L" "ls_light ?L' = ls_light L" "ls_next ?L' = ls_next L"
    by (simp_all add: set_ref_def)
  ultimately show ?thesis
    by blast
qed

lemma step_bind_table:
  assumes "ls_light L sb_lua_ctxt_key = LLight c0" and "lx_ctxts x c0 = Some ctxt" and "ctx_con ctxt = Some c"
    and "os_mem (pg_opts (ds_pg (lx_db x))) = []" and "lm_tables (ls_mem L) t = Some (number_table kvs)" and "kvs \<noteq> []"
    and "distinct (map fst kvs)" and "\<forall>k\<in>fst ` set kvs. int_range k" and "length kvs < 2 ^ 32" and "\<And>a b sl. pt a (pt b sl) = pt a sl"
    and "ps = bound_binds ty (nx + 2 * length kvs) (map fst kvs) (fresh_binds nx (length kvs))"
    and "vs' = undef_vars (nx + 2 * length kvs) (length kvs) (fresh_vars nx (length kvs) vs)"
  shows "lbind (bind_table sy ty pt) f (lst u L [LUserdata u, LTable t] sl, xst x vs nx) =
      f (u, of_nat (length kvs), Some (map binding ps, False))
        (lst u L [LUserdata u, LTable t, LLight c0, key_before (number_table kvs)] (pt (Some ps) sl), xst x vs' (nx + 3 * length kvs))"
proof -
  let ?env = "sy_lua sy" and ?stk = "[LUserdata u, LTable t, LLight c0]"
  have two: "at_two t ?stk"
    by (rule at_two_frame)
  have idx: "index2adr ?stk 1 = Some (LUserdata u)" "index2adr ?stk 2 = Some (LTable t)"
    by (simp_all add: index2adr_def)
  have n: "of_nat (length kvs) \<noteq> (0 :: u32)" "unat (of_nat (length kvs) :: u32) = length kvs"
    using assms(6,9) by (simp_all add: unat_of_nat take_bit_nat_eq_self_iff word_of_nat_eq_0_iff nat_dvd_not_less)
  note size = step_table_size [OF two assms(5) number_table_keys(1) [OF assms(7)] number_table_keys(2)]
  have loop: "lbind (bind_loop ?env ty (\<lambda>ps. upd_sl u (pt (Some ps))) (length kvs) 0 (fresh_binds nx (length kvs)) (replicate (length kvs) bind_zero) False) g
       (lst u L (?stk @ [LNil]) (pt (Some (fresh_binds nx (length kvs))) sl), xst x (fresh_vars nx (length kvs) vs) (nx + 2 * length kvs)) =
     g (Some (map binding ps, False)) (lst u L (?stk @ [key_before (number_table kvs)]) (pt (Some ps) sl), xst x vs' (nx + 3 * length kvs))" for g
    using bind_loop_numbers [where kvs = "[]" and rest = kvs and i = 0 and pre = "[]" and bpre = "[]" and qs = "fresh_binds nx (length kvs)"
        and pt = pt and ty = ty and x = x and L = L and u = u and f = g and nx = "nx + 2 * length kvs" and needs = False
        and put = "\<lambda>ps. upd_sl u (pt (Some ps))" and env = ?env and sl = sl and vs = "fresh_vars nx (length kvs) vs", OF two] assms(4-8,10-12)
    by (simp add: fresh_binds_length add.commute)
  show ?thesis
    using assms(1-4) n by (simp add: bind_table_def Let_def stmt_steps idx size step_new_binds loop [simplified])
qed
lemma session_frame:
  assumes "session_ok fuel api received drvs c db" and "ds_pg db' = ds_pg db" and "ds_drv db' = ds_drv db" and "ds_conns db' = ds_conns db"
    and "thread_stats db' = thread_stats db"
  shows "session_ok fuel api received drvs c db'"
  using assms mysql_ready_frame [of api received c db db'] by (auto simp: session_ok_def attached_def)

lemma bind_param_binds:
  assumes "script_session sy fuel api received c L x" and "ls_udata L u = Some (''sysbench.stmt'', Stmt_udata sl)" and "u < ls_next L" and "sl_ptr sl = Some s"
    and "ds_stmts (lx_db x) s = Some stmt" and "statement_of c query stmt" and "lm_tables (ls_mem L) t = Some (number_table kvs)" and "kvs \<noteq> []"
    and "distinct (map fst kvs)" and "\<forall>k\<in>fst ` set kvs. int_range k" and "length kvs < 2 ^ 32"
  shows "\<exists>L' x'. sb_lua_db_bind_param sy (L\<lparr>ls_stack := [LUserdata u, LTable t]\<rparr>, x) = Inr (Inr 0, (L', x')) \<and>
           script_session sy fuel api received c L' x' \<and> statement_bound c u t query (map fst kvs) L' x' \<and>
           ls_mem L' = ls_mem L \<and> ds_drv (lx_db x') = ds_drv (lx_db x)"
proof -
  obtain c0 ctxt where ctx: "ls_light L sb_lua_ctxt_key = LLight c0" "lx_ctxts x c0 = Some ctxt" "ctx_con ctxt = Some c"
      and ses: "session_ok fuel api received (sy_drvs sy) c (lx_db x)"
    using assms(1) by (auto simp: script_session_def)
  have mem: "os_mem (pg_opts (ds_pg (lx_db x))) = []"
    using ses by (simp add: session_ok_def)
  let ?n = "of_nat (length kvs) :: u32" and ?nx = "ds_next (lx_db x)"
  define ps where "ps = bound_binds DB_TYPE_INT (?nx + 2 * length kvs) (map fst kvs) (fresh_binds ?nx (length kvs))"
  define vs where "vs = undef_vars (?nx + 2 * length kvs) (length kvs) (fresh_vars ?nx (length kvs) (ds_vars (lx_db x)))"
  have start: "(L\<lparr>ls_stack := [LUserdata u, LTable t]\<rparr>, x) = (lst u L [LUserdata u, LTable t] sl, xst x (ds_vars (lx_db x)) ?nx)"
    using lst_same [of "L\<lparr>ls_stack := [LUserdata u, LTable t]\<rparr>" u sl] assms(2) by (simp add: xst_same) (simp add: lst_def)
  have n: "unat ?n = length kvs"
    using assms(11) by (simp add: unat_of_nat take_bit_nat_eq_self_iff)
  note fresh = bound_fresh [of ?nx "map fst kvs" "?nx + 2 * length kvs" DB_TYPE_INT, simplified, folded ps_def]
  have len: "length ps = length kvs"
    using arg_cong [OF fresh(3), of length] by simp
  have put: "put_params a (put_params b sl) = put_params a sl" "sl_ptr (put_params a sl) = sl_ptr sl" for a b sl
    by (simp_all add: put_params_def)
  let ?x = "xst x vs (?nx + 3 * length kvs)" and ?stmt = "stmt\<lparr>st_bound_param := Some (map binding ps), st_bound_param_len := ?n\<rparr>"
  have ses1: "session_ok fuel api received (sy_drvs sy) c (lx_db ?x)"
    using ses by (rule session_frame) simp_all
  let ?db = "(lx_db ?x)\<lparr>ds_stmts := (ds_stmts (lx_db x))(s := Some ?stmt)\<rparr>"
  have bind: "db_bind_param (sy_drvs sy) s (map binding ps) ?n (lx_db ?x) = Inr (0, ?db)"
    using db_bind_emulated [OF ses1, of s stmt ?n "map binding ps"] assms(5,6) n len by (simp add: statement_of_def)
  let ?k = "[LUserdata u, LTable t, LLight c0, key_before (number_table kvs)]" and ?sl = "put_params (Some ps) sl\<lparr>sl_nparams := ?n\<rparr>"
  obtain ref L' where ref: "luaL_ref (sy_lua sy) (lst u L (?k @ [LTable t]) ?sl, ?x\<lparr>lx_db := ?db\<rparr>) = Inr (Inr ref, (lst u L' ?k ?sl, ?x\<lparr>lx_db := ?db\<rparr>))"
      and L': "ls_refs L' ref = LTable t" "ls_mem L' = ls_mem L" "ls_light L' = ls_light L" "ls_next L' = ls_next L"
    using step_ref [of "LTable t" "sy_lua sy" u L ?k ?sl "?x\<lparr>lx_db := ?db\<rparr>", simplified] by auto
  let ?L = "lst u L' ?k (?sl\<lparr>sl_param_ref := ref\<rparr>)"
  have "sb_lua_db_bind_param sy (L\<lparr>ls_stack := [LUserdata u, LTable t]\<rparr>, x) = Inr (Inr 0, (?L, ?x\<lparr>lx_db := ?db\<rparr>))"
    using assms(4) bind by (simp add: start put(2) sb_lua_db_bind_param_def stmt_steps lua_pushvalue_def index2adr_def lbind_Inr [where m = "luaL_ref (sy_lua sy)", OF ref [simplified]] lret_def
      step_bind_table [where pt = put_params, OF ctx mem assms(7-11) put(1) ps_def vs_def])
  moreover have "script_session sy fuel api received c ?L (?x\<lparr>lx_db := ?db\<rparr>)"
    using ctx L' session_frame [OF ses1, of ?db] by (simp add: script_session_def)
  moreover have "statement_bound c u t query (map fst kvs) ?L (?x\<lparr>lx_db := ?db\<rparr>)"
    using fresh len n L' assms(3,4,6) by (auto simp: statement_bound_def bound_params_def statement_of_def put_params_def vs_def)
  ultimately show ?thesis
    using L'(2) by (intro exI [of _ ?L] exI [of _ "?x\<lparr>lx_db := ?db\<rparr>"]) simp
qed
section \<open>Executing a statement\<close>

text \<open>A value that a parameter can take, and its text in the statement.\<close>

definition value_ok :: "lua_env \<Rightarrow> lua_value \<Rightarrow> bool" where
  "value_ok env v \<longleftrightarrow> v = LNil \<or> (\<exists>r i. luaV_tonumber env (Some v) = Some r \<and> double_to_int r = Inr i)"

definition param_int :: "lua_env \<Rightarrow> lua_value \<Rightarrow> int" where
  "param_int env v = (case luaV_tonumber env (Some v) of None \<Rightarrow> 0 | Some r \<Rightarrow> (case double_to_int r of Inl _ \<Rightarrow> 0 | Inr i \<Rightarrow> i))"

definition value_text :: "lua_env \<Rightarrow> lua_value \<Rightarrow> string" where
  "value_text env v = (if v = LNil then ''NULL'' else print_int (param_int env v))"

definition param_value :: "(lua_value \<times> lua_value) list \<Rightarrow> int \<Rightarrow> lua_value" where
  "param_value tab k = table_get tab (LNumber (of_int k))"

definition copied :: "lua_env \<Rightarrow> (lua_value \<times> lua_value) list \<Rightarrow> sb_lua_bind_t \<Rightarrow> vars \<Rightarrow> vars" where
  "copied env tab p vs =
     (let v = param_value tab (lb_id p) in
      if v = LNil then vs(lb_is_null p \<mapsto> Flag_data True)
      else vs(lb_is_null p \<mapsto> Flag_data False, the (lb_buf p) \<mapsto> Int_data (param_int env v)))"

fun copied_all :: "lua_env \<Rightarrow> (lua_value \<times> lua_value) list \<Rightarrow> sb_lua_bind_t list \<Rightarrow> vars \<Rightarrow> vars" where
  "copied_all env tab [] vs = vs"
| "copied_all env tab (p # ps) vs = copied_all env tab ps (copied env tab p vs)"

lemma copied_dom: "lb_is_null p \<in> dom vs \<Longrightarrow> the (lb_buf p) \<in> dom vs \<Longrightarrow> dom (copied env tab p vs) = dom vs"
  by (auto simp: copied_def Let_def)

lemma copied_other: "a \<noteq> lb_is_null p \<Longrightarrow> a \<noteq> the (lb_buf p) \<Longrightarrow> copied env tab p vs a = vs a"
  by (simp add: copied_def Let_def)

lemma copied_all_dom: "set (cells ps) \<subseteq> dom vs \<Longrightarrow> dom (copied_all env tab ps vs) = dom vs"
  by (induction ps arbitrary: vs) (simp_all add: copied_dom)

lemma copied_all_other: "a \<notin> set (cells ps) \<Longrightarrow> copied_all env tab ps vs a = vs a"
  by (induction ps arbitrary: vs) (simp_all add: copied_other)

lemma param_int_range: "value_ok env v \<Longrightarrow> int_range (param_int env v)"
  by (auto simp: value_ok_def param_int_def double_to_int_def int_range_def Let_def luaV_tonumber_def split: if_splits option.splits lua_value.splits)

lemma sint_int_range: "int_range i \<Longrightarrow> sint (word_of_int i :: 32 word) = i"
  by (simp add: int_range_def sint_sbintrunc' signed_take_bit_int_eq_self)

lemma copied_all_text:
  assumes "distinct (cells ps)" and "\<forall>p\<in>set ps. lb_type p = DB_TYPE_INT \<and> lb_buf p \<noteq> None \<and> value_ok env (param_value tab (lb_id p))"
  shows "map (bind_text (copied_all env tab ps vs)) (map binding ps) = map Inr (map (value_text env \<circ> param_value tab) (map lb_id ps))"
  using assms
proof (induction ps arbitrary: vs)
  case (Cons p ps)
  obtain a where a: "lb_buf p = Some a"
    using Cons.prems(2) by auto
  let ?vs = "copied_all env tab ps (copied env tab p vs)" and ?v = "param_value tab (lb_id p)"
  have "?vs a = copied env tab p vs a" "?vs (lb_is_null p) = copied env tab p vs (lb_is_null p)" "a \<noteq> lb_is_null p"
    using Cons.prems(1) a by (auto simp: copied_all_other)
  moreover have "sint (word_of_int (param_int env ?v) :: 32 word) = param_int env ?v"
    using Cons.prems(2) by (intro sint_int_range param_int_range) simp
  ultimately have "bind_text ?vs (binding p) = Inr (value_text env ?v)"
    using Cons.prems(2) a
    by (cases "?v = LNil") (simp_all add: bind_text_def binding_def is_null_var_def var_at_def Let_def copied_def value_text_def bind_zero_def)
  then show ?case
    using Cons by simp
qed simp

lemma step_gettable:
  "lm_tables (ls_mem L) t = Some tab \<Longrightarrow>
   lbind (lua_gettable env (- 2)) f (lst u L (stk @ [LTable t, k]) sl, x) = f () (lst u L (stk @ [LTable t, table_get tab k]) sl, x)"
  by (simp add: lua_gettable_def lbind_assoc step_table [where t = t and tab = tab] step_pop [where stk = "stk @ [LTable t]", simplified])

lemma step_copy_param:
  assumes "lm_tables (ls_mem L) t = Some tab" and "sl_params sl = Some ps" and "i < length ps" and "lb_type (ps ! i) = DB_TYPE_INT"
    and "lb_buf (ps ! i) = Some a" and "a \<in> dom vs" and "lb_is_null (ps ! i) \<in> dom vs" and "value_ok env (param_value tab (lb_id (ps ! i)))"
  shows "lbind (copy_param env u i) f (lst u L (stk @ [LTable t]) sl, xst x vs nx) =
         f False (lst u L (stk @ [LTable t]) sl, xst x (copied env tab (ps ! i) vs) nx)"
proof (cases "param_value tab (lb_id (ps ! i)) = LNil")
  case True
  then show ?thesis
    using assms(2,3,7)
    by (simp add: copy_param_def lbind_assoc step_param_at step_gettable [OF assms(1)] step_set_var param_value_def copied_def Let_def
      step_pop [where stk = "stk @ [LTable t]", simplified] del: fun_upd_apply)
next
  case False
  then obtain r k where v: "luaV_tonumber env (Some (param_value tab (lb_id (ps ! i)))) = Some r" "double_to_int r = Inr k"
    using assms(8) by (auto simp: value_ok_def)
  then have k: "param_int env (param_value tab (lb_id (ps ! i))) = k"
    by (simp add: param_int_def)
  show ?thesis
    using assms(2-7) False v k
    by (simp add: copy_param_def lbind_assoc step_param_at step_gettable [OF assms(1)] step_set_var step_check_int param_value_def copied_def Let_def
      step_pop [where stk = "stk @ [LTable t]", simplified] del: fun_upd_apply)
qed

lemma step_copy_params:
  fixes x :: "'d lua_shared" and f :: "bool \<Rightarrow> ('d, 'r) L_op"
  assumes "lm_tables (ls_mem L) t = Some tab" and "sl_params sl = Some (pre @ ps)" and "length pre = i" and "set (cells ps) \<subseteq> dom vs"
    and "\<forall>p\<in>set ps. lb_type p = DB_TYPE_INT \<and> lb_buf p \<noteq> None \<and> value_ok env (param_value tab (lb_id p))"
  shows "lbind (copy_params env u (length ps) i b) f (lst u L (stk @ [LTable t]) sl, xst x vs nx) =
         f b (lst u L (stk @ [LTable t]) sl, xst x (copied_all env tab ps vs) nx)"
  using assms
proof (induction ps arbitrary: pre i vs)
  case (Cons p ps)
  obtain a where a: "lb_buf p = Some a"
    using Cons.prems(5) by auto
  have here: "(pre @ p # ps) ! i = p"
    using Cons.prems(3) by auto
  have dom: "dom (copied env tab p vs) = dom vs"
    using Cons.prems(4) by (simp add: copied_dom)
  have step: "lbind (copy_param env u i) g (lst u L (stk @ [LTable t]) sl, xst x vs nx) =
      g False (lst u L (stk @ [LTable t]) sl, xst x (copied env tab p vs) nx)" for g :: "bool \<Rightarrow> ('d, 'r) L_op"
    using step_copy_param [OF Cons.prems(1,2), of i a vs env u g stk x nx] Cons.prems(3-5) a here by simp
  show ?case
    using Cons.IH [of "pre @ [p]" "Suc i" "copied env tab p vs"] Cons.prems dom by (simp add: lbind_assoc step)
qed simp
lemma execute_sends:
  assumes "script_session sy fuel api received c L x" and "statement_bound c u t query ks L x" and "lm_tables (ls_mem L) t = Some tab"
    and "\<forall>k\<in>set ks. value_ok (sy_lua sy) (param_value tab k)" and "ts = map (value_text (sy_lua sy) \<circ> param_value tab) ks"
    and "length (filter (\<lambda>c. c = CHR ''?'') query) \<le> length ks" and "query \<noteq> []" and "length (substitute ts query) + 1 < 2 ^ 30" and "length query + 45 \<le> fuel"
  shows "\<exists>L' x'. sb_lua_db_execute sy (L\<lparr>ls_stack := [LUserdata u]\<rparr>, x) = Inr (Inr 1, (L', x')) \<and>
           script_session sy fuel api received c L' x' \<and> statement_bound c u t query ks L' x' \<and> ls_mem L' = ls_mem L \<and>
           received (mlib (lx_db x')) = received (mlib (lx_db x)) @ [substitute ts query]"
proof -
  let ?env = "sy_lua sy"
  obtain c0 ctxt where ctx: "ls_light L sb_lua_ctxt_key = LLight c0" "lx_ctxts x c0 = Some ctxt" "ctx_con ctxt = Some c"
      and ses: "session_ok fuel api received (sy_drvs sy) c (lx_db x)"
    using assms(1) by (auto simp: script_session_def)
  obtain sl s ps stmt where sl: "ls_udata L u = Some (''sysbench.stmt'', Stmt_udata sl)" "u < ls_next L" "sl_ptr sl = Some s" "sl_params sl = Some ps"
      "ls_refs L (sl_param_ref sl) = LTable t" and ps: "bound_params (sl_nparams sl) ks ps (ds_vars (lx_db x))"
      and stmt: "ds_stmts (lx_db x) s = Some stmt" "statement_of c query stmt" "st_bound_param stmt = Some (map binding ps)"
    using assms(2) unfolding statement_bound_def by blast
  let ?vs = "copied_all ?env tab ps (ds_vars (lx_db x))" and ?nx = "ds_next (lx_db x)" and ?stk = "[LUserdata u, LLight c0]"
  let ?x = "xst x ?vs ?nx"
  have start: "(L\<lparr>ls_stack := [LUserdata u]\<rparr>, x) = (lst u L [LUserdata u] sl, xst x (ds_vars (lx_db x)) ?nx)"
    using lst_same [of "L\<lparr>ls_stack := [LUserdata u]\<rparr>" u sl] sl(1) by (simp add: xst_same) (simp add: lst_def)
  have vals: "\<forall>p\<in>set ps. lb_type p = DB_TYPE_INT \<and> lb_buf p \<noteq> None \<and> value_ok ?env (param_value tab (lb_id p))"
    using ps assms(4) by (auto simp: bound_params_def)
  have n: "unat (sl_nparams sl) = length ps" "length ts = length ks"
    using ps assms(5) by (auto simp: bound_params_def)
  have sub: "set (cells ps) \<subseteq> dom (ds_vars (lx_db x))"
    using ps by (simp add: bound_params_def)
  have ids: "distinct (cells ps)" "map lb_id ps = ks"
    using ps by (simp_all add: bound_params_def)
  have texts: "map (bind_text (ds_vars (lx_db ?x))) (map binding ps) = map Inr ts"
    using copied_all_text [OF ids(1) vals, of "ds_vars (lx_db x)"] by (simp only: ids(2) assms(5) xst_simps)
  have ses1: "session_ok fuel api received (sy_drvs sy) c (lx_db ?x)"
    using ses by (rule session_frame) simp_all
  obtain db where db: "db_execute (sy_drvs sy) s (lx_db ?x) = Inr (Some c, db)" "session_ok fuel api received (sy_drvs sy) c db"
      "received (mlib db) = received (mlib (lx_db x)) @ [substitute ts query]" "ds_stmts db = ds_stmts (lx_db x)" "ds_vars db = ?vs"
    using db_execute_emulated [OF ses1, of s stmt query "map binding ps" ts] stmt texts assms(6-9) n(2) by (auto simp: statement_of_def)
  let ?a = "ls_next L" and ?sl = "sl\<lparr>sl_rs := Some (ls_next L)\<rparr>"
  let ?L = "L\<lparr>ls_next := ?a + 1, ls_udata := (ls_udata L)(?a := Some (''sysbench.rs'', Rs_udata (Some c)))\<rparr>"
  have new: "(lst u L stk sl)\<lparr>ls_next := Suc ?a, ls_udata := (ls_udata (lst u L stk sl))(?a := Some (''sysbench.rs'', Rs_udata (Some c)))\<rparr> = lst u ?L stk sl" for stk
    using sl(2) by (cases L) (simp add: lst_def fun_upd_twist)
  have "sb_lua_db_execute sy (L\<lparr>ls_stack := [LUserdata u]\<rparr>, x) = Inr (Inr 1, (lst u ?L (?stk @ [LTable t, LUserdata ?a]) ?sl, ?x\<lparr>lx_db := db\<rparr>))"
    using ctx sl(3-5) n(1) db(1) sub vals
    by (simp add: start sb_lua_db_execute_def Let_def stmt_steps index2adr_def lua_rawgeti_registry_def lua_newuserdata_def
      step_copy_params [where pre = "[]" and stk = ?stk, OF assms(3), simplified] lret_def new)
  moreover have "script_session sy fuel api received c (lst u ?L (?stk @ [LTable t, LUserdata ?a]) ?sl) (?x\<lparr>lx_db := db\<rparr>)"
    using ctx db(2) by (simp add: script_session_def)
  moreover have "statement_bound c u t query ks (lst u ?L (?stk @ [LTable t, LUserdata ?a]) ?sl) (?x\<lparr>lx_db := db\<rparr>)"
    using sl ps stmt db(4,5) copied_all_dom [OF sub] by (auto simp: statement_bound_def bound_params_def)
  ultimately show ?thesis
    using db(3) by (intro exI [of _ "lst u ?L (?stk @ [LTable t, LUserdata ?a]) ?sl"] exI [of _ "?x\<lparr>lx_db := db\<rparr>"]) simp
qed
section \<open>A prepared statement from end to end\<close>

lemma db_prepare_emulated:
  assumes "session_ok fuel api received drvs c db" and "\<not> m_use_ps (ds_drv db)"
  shows "\<exists>db' s stmt. db_prepare drvs c query db = Inr (Some s, db') \<and> session_ok fuel api received drvs c db' \<and>
           ds_stmts db' s = Some stmt \<and> statement_of c query stmt \<and> ds_drv db' = ds_drv db"
proof -
  obtain con where rdy: "mysql_ready api received c db" "attached drvs (mysql_ops fuel api) c db con" "os_mem (pg_opts (ds_pg db)) = []"
    using assms(1) by (auto simp: session_ok_def)
  obtain con' a mc h where con: "ds_conns db c = Some con'" "con_ptr con' = Some a" "m_conns (ds_drv db) a = Some mc" "mc_mysql mc = Some h"
      "\<not> a_dry_run (margs db)"
    using rdy(1) by (auto simp: mysql_ready_def mysql_open_def)
  let ?s = "ds_next db" and ?stmt = "stmt_zero\<lparr>st_connection := Some c\<rparr>"
  let ?db = "db\<lparr>ds_next := ?s + 1, ds_stmts := (ds_stmts db)(?s := Some ?stmt)\<rparr>"
  let ?db2 = "?db\<lparr>ds_stmts := (ds_stmts ?db)(?s := Some (?stmt\<lparr>st_query := Some query, st_emulated := True, st_type := db_get_query_type query\<rparr>))\<rparr>"
  have at: "attached drvs (mysql_ops fuel api) c ?db con"
    using rdy(2) by (simp add: attached_def)
  have "db_prepare drvs c query db = Inr (Some ?s, ?db2)"
    using attached_driver [OF at] assms(2) con rdy(3)
    by (simp add: db_prepare_def malloc_ok Let_def mysql_ops_def mysql_drv_prepare_def stmt_con_def stmt_at_def mysql_con_at_def con_at_def upd_stmt_def keep_query_def d_strdup_def)
  moreover have "session_ok fuel api received drvs c ?db2"
    using assms(1) by (rule session_frame) simp_all
  ultimately show ?thesis
    by (intro exI [of _ ?db2] exI [of _ ?s]) (simp add: statement_of_def)
qed

lemma c_string_plain: "CHR 0x00 \<notin> set s \<Longrightarrow> c_string s = s"
  by (auto simp: c_string_def takeWhile_eq_all_conv)

lemma prepare_statement:
  assumes "script_session sy fuel api received c L x" and "\<not> m_use_ps (ds_drv (lx_db x))" and "CHR 0x00 \<notin> set query"
  shows "\<exists>L' x' sl s stmt stk. sb_lua_db_prepare sy (L\<lparr>ls_stack := [LString query]\<rparr>, x) = Inr (Inr 1, (L', x')) \<and> ls_stack L' = stk @ [LUserdata (ls_next L)] \<and>
           script_session sy fuel api received c L' x' \<and> ls_udata L' (ls_next L) = Some (''sysbench.stmt'', Stmt_udata sl) \<and> ls_next L < ls_next L' \<and>
           sl_ptr sl = Some s \<and> ds_stmts (lx_db x') s = Some stmt \<and> statement_of c query stmt \<and> ls_mem L' = ls_mem L \<and> ds_drv (lx_db x') = ds_drv (lx_db x)"
proof -
  obtain c0 ctxt where ctx: "ls_light L sb_lua_ctxt_key = LLight c0" "lx_ctxts x c0 = Some ctxt" "ctx_con ctxt = Some c"
      and ses: "session_ok fuel api received (sy_drvs sy) c (lx_db x)"
    using assms(1) by (auto simp: script_session_def)
  obtain db s stmt where db: "db_prepare (sy_drvs sy) c query (lx_db x) = Inr (Some s, db)" "session_ok fuel api received (sy_drvs sy) c db"
      "ds_stmts db s = Some stmt" "statement_of c query stmt" "ds_drv db = ds_drv (lx_db x)"
    using db_prepare_emulated [OF ses assms(2)] by blast
  let ?u = "ls_next L" and ?stk = "[LString query, LLight c0]" and ?sl = "stmt_userdata_zero\<lparr>sl_ptr := Some s, sl_param_ref := LUA_REFNIL\<rparr>"
  let ?L = "L\<lparr>ls_next := ?u + 1\<rparr>"
  have new: "L\<lparr>ls_stack := stk, ls_next := Suc ?u, ls_udata := (ls_udata L)(?u := Some (''sysbench.stmt'', Stmt_udata sl))\<rparr> = lst ?u ?L stk sl" for stk sl
    by (cases L) (simp add: lst_def)
  have chk: "luaL_checkstring (sy_lua sy) 1 (L\<lparr>ls_stack := ?stk\<rparr>, x) = Inr (Inr query, (L\<lparr>ls_stack := ?stk\<rparr>, x))"
    using assms(3) by (simp add: luaL_checkstring_def lua_tolstring_def lbind_assoc index2adr_def lret_def c_string_plain)
  have "sb_lua_db_prepare sy (L\<lparr>ls_stack := [LString query]\<rparr>, x) = Inr (Inr 1, (lst ?u ?L (?stk @ [LUserdata ?u]) ?sl, x\<lparr>lx_db := db\<rparr>))"
    using ctx db(1)
    by (simp add: sb_lua_db_prepare_def lbind_assoc step_context connected_def lbind_Inr [where m = "luaL_checkstring (sy_lua sy) 1", OF chk] lua_newuserdata_def new lret_def
      step_upd_sl step_ctxt_at)
  moreover have "script_session sy fuel api received c (lst ?u ?L (?stk @ [LUserdata ?u]) ?sl) (x\<lparr>lx_db := db\<rparr>)"
    using ctx db(2) by (simp add: script_session_def)
  ultimately show ?thesis
    using db(3-5)
    by (intro exI [of _ "lst ?u ?L (?stk @ [LUserdata ?u]) ?sl"] exI [of _ "x\<lparr>lx_db := db\<rparr>"] exI [of _ ?sl] exI [of _ s] exI [of _ stmt] exI [of _ ?stk]) simp
qed
text \<open>
  A script that prepares a statement, binds the table \<open>t\<close>, and executes the statement for several contents of the table. An error ends it.
\<close>

definition then_script :: "(lua_value \<Rightarrow> script) \<Rightarrow> lua_value + lua_value list \<Rightarrow> script" where
  "then_script k r = (case r of Inl e \<Rightarrow> Raise e | Inr vs \<Rightarrow> k (case vs of [] \<Rightarrow> LNil | v # _ \<Rightarrow> v))"

fun execute_script :: "lua_value \<Rightarrow> nat \<Rightarrow> (lua_value \<times> lua_value) list list \<Rightarrow> script" where
  "execute_script stmt t [] = Return []"
| "execute_script stmt t (tab # tabs) =
     Compute (\<lambda>m. (m\<lparr>lm_tables := (lm_tables m)(t \<mapsto> tab)\<rparr>, Call ''db_execute'' [stmt] (then_script (\<lambda>_. execute_script stmt t tabs))))"

definition statement_script :: "string \<Rightarrow> nat \<Rightarrow> (lua_value \<times> lua_value) list list \<Rightarrow> script" where
  "statement_script query t tabs =
     Call ''db_prepare'' [LString query] (then_script (\<lambda>stmt.
       Call ''db_bind_param'' [stmt, LTable t] (then_script (\<lambda>_. execute_script stmt t tabs))))"

text \<open>The texts of the parameters with the numbers \<open>ks\<close>.\<close>

definition table_texts :: "lua_env \<Rightarrow> int list \<Rightarrow> (lua_value \<times> lua_value) list \<Rightarrow> string list" where
  "table_texts env ks tab = map (value_text env \<circ> param_value tab) ks"

lemma lua_cfun_stmt:
  "lua_cfun sy ''db_prepare'' = sb_lua_db_prepare sy" "lua_cfun sy ''db_bind_param'' = sb_lua_db_bind_param sy"
  "lua_cfun sy ''db_execute'' = sb_lua_db_execute sy"
  by (simp_all add: lua_cfun_def lua_exports_def)

lemma session_moves:
  "script_session sy fuel api received c (L\<lparr>ls_stack := stk\<rparr>) x = script_session sy fuel api received c L x"
  "script_session sy fuel api received c (L\<lparr>ls_mem := m\<rparr>) x = script_session sy fuel api received c L x"
  "statement_bound c u t query ks (L\<lparr>ls_stack := stk\<rparr>) x = statement_bound c u t query ks L x"
  "statement_bound c u t query ks (L\<lparr>ls_mem := m\<rparr>) x = statement_bound c u t query ks L x"
  by (simp_all add: script_session_def statement_bound_def)

lemma call_C_runs:
  "f (L\<lparr>ls_stack := args\<rparr>, x) = Inr (Inr n, (L', x')) \<Longrightarrow>
   call_C f args (L, x) = Inr (Inr (drop (length (ls_stack L') - n) (ls_stack L')), (L'\<lparr>ls_stack := ls_stack L\<rparr>, x'))"
  by (simp add: call_C_def Let_def)

lemma execute_script_sends:
  assumes "script_session sy fuel api received c L x" and "statement_bound c u t query ks L x"
    and "\<forall>tab\<in>set tabs. (\<forall>k\<in>set ks. value_ok (sy_lua sy) (param_value tab k)) \<and> length (substitute (table_texts (sy_lua sy) ks tab) query) + 1 < 2 ^ 30"
    and "length (filter (\<lambda>c. c = CHR ''?'') query) \<le> length ks" and "query \<noteq> []" and "length query + 45 \<le> fuel"
  shows "\<exists>L' x'. run_script (lua_cfun sy) (execute_script (LUserdata u) t tabs) (L, x) = Inr (Inr [], (L', x')) \<and>
           received (mlib (lx_db x')) = received (mlib (lx_db x)) @ map (\<lambda>tab. substitute (table_texts (sy_lua sy) ks tab) query) tabs"
  using assms(1-3)
proof (induction tabs arbitrary: L x)
  case Nil
  then show ?case by (simp add: lret_def)
next
  case (Cons tab tabs)
  let ?L = "L\<lparr>ls_mem := (ls_mem L)\<lparr>lm_tables := (lm_tables (ls_mem L))(t \<mapsto> tab)\<rparr>\<rparr>"
  obtain L1 x1 where ex: "sb_lua_db_execute sy (?L\<lparr>ls_stack := [LUserdata u]\<rparr>, x) = Inr (Inr 1, (L1, x1))"
      "script_session sy fuel api received c L1 x1" "statement_bound c u t query ks L1 x1"
      "received (mlib (lx_db x1)) = received (mlib (lx_db x)) @ [substitute (table_texts (sy_lua sy) ks tab) query]"
    using execute_sends [of sy fuel api received c ?L x u t query ks tab "table_texts (sy_lua sy) ks tab"] Cons.prems assms(4-6)
    by (auto simp: session_moves table_texts_def)
  let ?L1 = "L1\<lparr>ls_stack := ls_stack ?L\<rparr>"
  obtain L' x' where rest: "run_script (lua_cfun sy) (execute_script (LUserdata u) t tabs) (?L1, x1) = Inr (Inr [], (L', x'))"
      "received (mlib (lx_db x')) = received (mlib (lx_db x1)) @ map (\<lambda>tab. substitute (table_texts (sy_lua sy) ks tab) query) tabs"
    using Cons.IH [of ?L1 x1] ex(2,3) Cons.prems(3) by (auto simp: session_moves)
  then show ?case
    using call_C_runs [where f = "sb_lua_db_execute sy", OF ex(1)] ex(4) by (simp add: lua_cfun_stmt then_script_def)
qed

text \<open>
  (C3) A prepared statement carries the values of the table: when a script prepares a statement on a connection without server-side prepared
  statements and binds a table of numbers to it, every later execution sends the statement with its placeholders replaced by the values that
  the table has at that time, in the order in which the table was traversed when it was bound, NULL for a value that is nil; nothing else is
  sent, and no error is raised. The order of the keys, not their values, decides which placeholder a value goes to.
\<close>

theorem script_statement_sends_table:
  assumes "script_session sy fuel api received c L x" and "\<not> m_use_ps (ds_drv (lx_db x))"
    and "query \<noteq> []" and "CHR 0x00 \<notin> set query" and "length (filter (\<lambda>c. c = CHR ''?'') query) \<le> length kvs" and "length query + 45 \<le> fuel"
    and "lm_tables (ls_mem L) t = Some (number_table kvs)" and "kvs \<noteq> []" and "length kvs < 2 ^ 32"
    and "distinct (map fst kvs)" and "\<forall>k\<in>fst ` set kvs. int_range k"
    and "\<forall>tab\<in>set tabs. (\<forall>k\<in>fst ` set kvs. value_ok (sy_lua sy) (param_value tab k)) \<and>
           length (substitute (table_texts (sy_lua sy) (map fst kvs) tab) query) + 1 < 2 ^ 30"
  shows "\<exists>L' x'. run_script (lua_cfun sy) (statement_script query t tabs) (L, x) = Inr (Inr [], (L', x')) \<and>
           received (mlib (lx_db x')) =
             received (mlib (lx_db x)) @ map (\<lambda>tab. substitute (table_texts (sy_lua sy) (map fst kvs) tab) query) tabs"
proof -
  let ?u = "ls_next L"
  obtain L1 x1 sl s stmt stk where pr: "sb_lua_db_prepare sy (L\<lparr>ls_stack := [LString query]\<rparr>, x) = Inr (Inr 1, (L1, x1))"
      "ls_stack L1 = stk @ [LUserdata ?u]" "script_session sy fuel api received c L1 x1" "ls_udata L1 ?u = Some (''sysbench.stmt'', Stmt_udata sl)"
      "?u < ls_next L1" "sl_ptr sl = Some s" "ds_stmts (lx_db x1) s = Some stmt" "statement_of c query stmt" "ls_mem L1 = ls_mem L"
      "ds_drv (lx_db x1) = ds_drv (lx_db x)"
    using prepare_statement [OF assms(1,2,4)] by blast
  let ?L1 = "L1\<lparr>ls_stack := ls_stack L\<rparr>"
  obtain L2 x2 where bd: "sb_lua_db_bind_param sy (?L1\<lparr>ls_stack := [LUserdata ?u, LTable t]\<rparr>, x1) = Inr (Inr 0, (L2, x2))"
      "script_session sy fuel api received c L2 x2" "statement_bound c ?u t query (map fst kvs) L2 x2" "ds_drv (lx_db x2) = ds_drv (lx_db x1)"
    using bind_param_binds [of sy fuel api received c ?L1 x1 ?u sl s stmt query t kvs] pr(3-9) assms(7-11) by (auto simp: session_moves)
  let ?L2 = "L2\<lparr>ls_stack := ls_stack L\<rparr>"
  obtain L' x' where "run_script (lua_cfun sy) (execute_script (LUserdata ?u) t tabs) (?L2, x2) = Inr (Inr [], (L', x'))"
      "received (mlib (lx_db x')) = received (mlib (lx_db x2)) @ map (\<lambda>tab. substitute (table_texts (sy_lua sy) (map fst kvs) tab) query) tabs"
    using execute_script_sends [of sy fuel api received c ?L2 x2 ?u t query "map fst kvs" tabs] bd(2,3) assms(3,5,6,12) by (auto simp: session_moves)
  then show ?thesis
    using call_C_runs [where f = "sb_lua_db_prepare sy", OF pr(1)] call_C_runs [where f = "sb_lua_db_bind_param sy" and L = ?L1, OF bd(1)] pr(2,10) bd(4) by (simp add: statement_script_def lua_cfun_stmt then_script_def)
qed

definition sample_ms_sy :: "string list mysql_drv lua_sys" where
  "sample_ms_sy = \<lparr>sy_fp = fp_exact, sy_drvs = register_driver_mysql 100 sample_api [], sy_lua = sample_lua_env\<rparr>"

definition sample_ms_shared :: "string list mysql_drv lua_shared" where
  "sample_ms_shared =
     \<lparr>lx_db = upd_m (\<lambda>d. d\<lparr>m_use_ps := False\<rparr>) sample_mysql, lx_driver = Some 0, lx_once = True, lx_ctxts = [4 \<mapsto> \<lparr>ctx_thread_id = 0, ctx_con = Some 1\<rparr>]\<rparr>"

definition sample_ms_L :: L_state where
  "sample_ms_L =
     sb_lua_set_context 4 ((lua_newstate sample_lua_env)\<lparr>ls_mem := empty_mem\<lparr>lm_tables := [5 \<mapsto> number_table [(1, 0)]]\<rparr>\<rparr>)"

lemma sample_ms_session: "script_session sample_ms_sy 100 sample_api id 1 sample_ms_L sample_ms_shared"
  using sample_mysql_ready
  by (auto simp: script_session_def session_ok_def mysql_ready_def mysql_open_def attached_def sample_ms_sy_def sample_ms_shared_def sample_ms_L_def
      sb_lua_set_context_def register_driver_mysql_def sample_drvs_def mysql_driver_def upd_m_def sample_mysql_def sample_con_def con_zero_def)

lemma script_statement_sends_table_witness:
  "\<exists>L' x'. run_script (lua_cfun sample_ms_sy) (statement_script ''SELECT ?'' 5 [[(LNumber 1, LNumber 42)], []]) (sample_ms_L, sample_ms_shared) =
       Inr (Inr [], (L', x')) \<and> mlib (lx_db x') = [''SELECT 42'', ''SELECT NULL'']"
proof -
  let ?q = "''SELECT ?''" and ?tabs = "[[(LNumber 1, LNumber 42)], []]" and ?kvs = "[(1, 0)] :: (int \<times> real) list" and ?env = "sy_lua sample_ms_sy"
  have digits: "digit_char 4 = CHR ''4''" "digit_char 2 = CHR ''2''"
    by code_simp+
  have v: "param_value [(LNumber 1, LNumber 42)] 1 = LNumber 42" "param_value [] 1 = LNil"
    by (simp_all add: param_value_def)
  have i: "double_to_int 42 = Inr 42"
    using double_to_int_of_int [of 42] by (simp add: int_range_def)
  have texts: "table_texts ?env [1] [(LNumber 1, LNumber 42)] = [''42'']" "table_texts ?env [1] [] = [''NULL'']"
    using v i digits by (simp_all add: table_texts_def value_text_def param_int_def luaV_tonumber_def print_int_def print_nat.simps)
  have ok: "value_ok ?env (LNumber 42)" "value_ok ?env LNil"
    using i by (simp_all add: value_ok_def luaV_tonumber_def)
  have st: "\<not> m_use_ps (ds_drv (lx_db sample_ms_shared))" "lm_tables (ls_mem sample_ms_L) 5 = Some (number_table ?kvs)" "mlib (lx_db sample_ms_shared) = []"
    by (simp_all add: sample_ms_shared_def sample_ms_L_def upd_m_def sb_lua_set_context_def sample_mysql_def sample_db_def sample_mdrv_def)
  show ?thesis
    using script_statement_sends_table [OF sample_ms_session st(1), of ?q ?kvs 5 ?tabs] st(2,3) texts v ok by (simp add: int_range_def)
qed
text \<open>
  When the driver refuses the bindings, nothing has been pushed for \<^verbatim>\<open>lua_error\<close>: the error value is the last key of the table, and a
  table with the single key 1 makes a worker start the event again and again.
\<close>

lemma bind_failure_raises_key:
  assumes "ls_light L sb_lua_ctxt_key = LLight c0" and "lx_ctxts x c0 = Some ctxt" and "ctx_con ctxt = Some c"
    and "os_mem (pg_opts (ds_pg (lx_db x))) = []" and "ls_udata L u = Some (''sysbench.stmt'', Stmt_udata sl)" and "sl_ptr sl = Some s"
    and "\<forall>binds db. \<exists>db'. db_bind_param (sy_drvs sy) s binds (of_nat (length kvs)) db = Inr (1, db')"
    and "lm_tables (ls_mem L) t = Some (number_table kvs)" and "kvs \<noteq> []" and "distinct (map fst kvs)" and "\<forall>k\<in>fst ` set kvs. int_range k"
    and "length kvs < 2 ^ 32"
  shows "\<exists>s'. sb_lua_db_bind_param sy (L\<lparr>ls_stack := [LUserdata u, LTable t]\<rparr>, x) = Inr (Inl (LNumber (of_int (fst (last kvs)))), s')"
    and "asks_restart sy (LNumber (of_int (fst (last kvs)))) \<longleftrightarrow> fst (last kvs) = 1"
proof -
  let ?nx = "ds_next (lx_db x)"
  define ps where "ps = bound_binds DB_TYPE_INT (?nx + 2 * length kvs) (map fst kvs) (fresh_binds ?nx (length kvs))"
  define vs where "vs = undef_vars (?nx + 2 * length kvs) (length kvs) (fresh_vars ?nx (length kvs) (ds_vars (lx_db x)))"
  have start: "(L\<lparr>ls_stack := [LUserdata u, LTable t]\<rparr>, x) = (lst u L [LUserdata u, LTable t] sl, xst x (ds_vars (lx_db x)) ?nx)"
    using lst_same [of "L\<lparr>ls_stack := [LUserdata u, LTable t]\<rparr>" u sl] assms(5) by (simp add: xst_same) (simp add: lst_def)
  have put: "put_params a (put_params b sl) = put_params a sl" "sl_ptr (put_params a sl) = sl_ptr sl" for a b sl
    by (simp_all add: put_params_def)
  obtain ini e where kvs: "kvs = ini @ [e]"
    using assms(9) by (cases kvs rule: rev_cases) auto
  then have key: "key_before (number_table kvs) = LNumber (of_int (fst (last kvs)))"
    by (simp add: number_table_def case_prod_unfold)
  obtain db where "db_bind_param (sy_drvs sy) s (map binding ps) (of_nat (length kvs)) (lx_db (xst x vs (?nx + 3 * length kvs))) = Inr (1, db)"
    using assms(7) by blast
  then show "\<exists>s'. sb_lua_db_bind_param sy (L\<lparr>ls_stack := [LUserdata u, LTable t]\<rparr>, x) = Inr (Inl (LNumber (of_int (fst (last kvs)))), s')"
    using assms(6) key
    by (simp add: start put(2) sb_lua_db_bind_param_def stmt_steps lua_error_def index2adr_def lraise_def
      step_bind_table [where pt = put_params, OF assms(1-4,8-12) put(1) ps_def vs_def])
  show "asks_restart sy (LNumber (of_int (fst (last kvs)))) \<longleftrightarrow> fst (last kvs) = 1"
    by (simp add: asks_restart_def luaV_tonumber_def db_errno_num_def)
qed

end
