(* ===== verification/SbWin.thy ===== *)
theory SbWin
  imports Prelude
begin

text \<open>
  The Windows port (\<^verbatim>\<open>sb_win.c\<close>, \<^verbatim>\<open>sb_win.h\<close>): the functions of the POSIX threads library on top of the Windows interface, which is not part of
  the sources. Its events, threads and clocks are an argument \<open>api\<close>, its state is \<open>'w\<close>; a handle is a number, \<open>None\<close> is NULL. A function that
  waits has the result \<open>None\<close> while it has to wait. The condition variables are a step relation of the threads that use one condition variable and its mutex:
  each section between \<^verbatim>\<open>EnterCriticalSection (&cond->lock_waiting)\<close> and \<^verbatim>\<open>LeaveCriticalSection\<close> is one step, and so is each call that waits.
\<close>

section \<open>Arithmetic\<close>

text \<open>The conversion to 64 bits and the quotient of signed numbers, which is cut towards 0.\<close>

definition c_ll :: "int \<Rightarrow> int" where
  "c_ll i = sint (word_of_int i :: u64)"

definition c_div :: "int \<Rightarrow> int \<Rightarrow> int" where
  "c_div a b = (if (a < 0) = (b < 0) then \<bar>a\<bar> div \<bar>b\<bar> else - (\<bar>a\<bar> div \<bar>b\<bar>))"

section \<open>Data\<close>

text \<open>The fields of a condition variable other than the critical section \<^verbatim>\<open>lock_waiting\<close>, whose sections are single steps.\<close>

record pthread_cond_t =
  waiting :: int
  events_SIGNAL :: "nat option"
  events_BROADCAST :: "nat option"
  broadcast_block_event :: "nat option"

definition SIGNAL :: nat where "SIGNAL = 0"
definition BROADCAST :: nat where "BROADCAST = 1"

definition ETIMEDOUT :: int where "ETIMEDOUT = 2204"

text \<open>
  The Windows interface: \<open>CreateEvent\<close> is told whether the event is reset by hand and whether it is set, \<open>CreateThread\<close> the size of the stack, the
  routine and its argument; \<open>WaitObjects\<close> is the index of the object that ends a wait without time limit for one of several objects.
\<close>

record 'w win_api =
  CreateEvent :: "bool \<Rightarrow> bool \<Rightarrow> 'w \<Rightarrow> nat option \<times> 'w"
  CloseHandle :: "nat option \<Rightarrow> 'w \<Rightarrow> bool \<times> 'w"
  SetEvent :: "nat option \<Rightarrow> 'w \<Rightarrow> 'w"
  ResetEvent :: "nat option \<Rightarrow> 'w \<Rightarrow> 'w"
  WaitObjects :: "nat option list \<Rightarrow> 'w \<Rightarrow> (nat \<times> 'w) option"
  CreateThread :: "u32 \<Rightarrow> nat \<Rightarrow> nat \<Rightarrow> 'w \<Rightarrow> nat option \<times> 'w"
  TerminateThread :: "nat option \<Rightarrow> 'w \<Rightarrow> bool \<times> 'w"
  win_ENOMEM :: int
  win_EINVAL :: int

section \<open>Mutexes\<close>

text \<open>
  A mutex is a critical section: none or the thread that has entered it and how often it has to leave it. Entering one that another thread has
  entered waits.
\<close>

type_synonym pthread_mutex_t = "(nat \<times> nat) option"

definition EnterCriticalSection :: "nat \<Rightarrow> pthread_mutex_t \<Rightarrow> pthread_mutex_t option" where
  "EnterCriticalSection t m = (case m of None \<Rightarrow> Some (Some (t, 1)) | Some (u, n) \<Rightarrow> if u = t then Some (Some (t, n + 1)) else None)"

definition LeaveCriticalSection :: "pthread_mutex_t \<Rightarrow> pthread_mutex_t" where
  "LeaveCriticalSection m = (case m of None \<Rightarrow> None | Some (u, n) \<Rightarrow> if n \<le> 1 then None else Some (u, n - 1))"

definition win_mutex_init :: "int \<times> pthread_mutex_t" where
  "win_mutex_init = (0, None)"

definition win_mutex_lock :: "nat \<Rightarrow> pthread_mutex_t \<Rightarrow> (int \<times> pthread_mutex_t) option" where
  "win_mutex_lock t m = map_option (Pair 0) (EnterCriticalSection t m)"

definition win_mutex_unlock :: "pthread_mutex_t \<Rightarrow> int \<times> pthread_mutex_t" where
  "win_mutex_unlock m = (0, LeaveCriticalSection m)"

text \<open>Behind the destruction there is no mutex.\<close>

definition win_mutex_destroy :: "pthread_mutex_t \<Rightarrow> int \<times> pthread_mutex_t option" where
  "win_mutex_destroy m = (0, None)"

section \<open>Condition variables\<close>

definition pthread_cond_init :: "'w win_api \<Rightarrow> 'w \<Rightarrow> (int \<times> pthread_cond_t) \<times> 'w" where
  "pthread_cond_init api w =
     (case CreateEvent api False False w of (sig, w) \<Rightarrow>
      case CreateEvent api True False w of (bc, w) \<Rightarrow>
      case CreateEvent api True True w of (block, w) \<Rightarrow>
        ((if sig = None \<or> bc = None \<or> block = None then win_ENOMEM api else 0,
          \<lparr>waiting = 0, events_SIGNAL = sig, events_BROADCAST = bc, broadcast_block_event = block\<rparr>), w))"

text \<open>The first handle that cannot be closed ends the evaluation of the condition.\<close>

definition pthread_cond_destroy :: "'w win_api \<Rightarrow> pthread_cond_t \<Rightarrow> 'w \<Rightarrow> int \<times> 'w" where
  "pthread_cond_destroy api cond w =
     (case CloseHandle api (events_SIGNAL cond) w of (ok, w) \<Rightarrow>
        if \<not> ok then (win_EINVAL api, w)
        else
          case CloseHandle api (events_BROADCAST cond) w of (ok, w) \<Rightarrow>
            if \<not> ok then (win_EINVAL api, w)
            else (case CloseHandle api (broadcast_block_event cond) w of (ok, w) \<Rightarrow> (if \<not> ok then win_EINVAL api else 0, w)))"

text \<open>
  The time to wait in milliseconds: \<open>tv_sec\<close> and \<open>tv_nsec\<close> of the absolute time, \<open>now\<close> the system time in units of 100 nanoseconds; the
  quotient of two 64-bit numbers is cut to the 32 bits of a \<^verbatim>\<open>long\<close>.
\<close>

definition timedwait_timeout :: "int \<Rightarrow> int \<Rightarrow> int \<Rightarrow> int" where
  "timedwait_timeout tv_sec tv_nsec now =
     (let stoptime_nanos = c_ll (tv_sec * 1000000000 + tv_nsec);
          now_nanos = c_ll (now * 100);
          timeout_nanos = c_ll (stoptime_nanos - now_nanos)
      in c_int (c_div timeout_nanos 1000000))"

text \<open>
  Where a thread is in \<^verbatim>\<open>pthread_cond_timedwait\<close>: outside; in front of the wait for the block gate; behind it; counted; waiting for an event, with the mutex
  released; notified by an event or at the end of the time; waiting for the mutex. The flag tells whether there is a time limit.
\<close>

datatype wait_result = Object nat | Timed_out

datatype cond_pc =
    Outside
  | At_gate bool
  | Past_gate bool
  | Counted bool
  | Blocked bool
  | Notified wait_result
  | Leaving wait_result

record 'w cv_state =
  cv_cond :: pthread_cond_t
  cv_win :: 'w
  cv_pc :: "nat \<Rightarrow> cond_pc"
  cv_mutex :: pthread_mutex_t

definition goto_pc :: "nat \<Rightarrow> cond_pc \<Rightarrow> 'w cv_state \<Rightarrow> 'w cv_state" where
  "goto_pc t pc s = s\<lparr>cv_pc := (cv_pc s)(t := pc)\<rparr>"

text \<open>The counting of a waiter, and what a waiter does when it has been notified.\<close>

definition wait_enter :: "'w cv_state \<Rightarrow> 'w cv_state" where
  "wait_enter s = s\<lparr>cv_cond := (cv_cond s)\<lparr>waiting := waiting (cv_cond s) + 1\<rparr>\<rparr>"

definition wait_leave :: "'w win_api \<Rightarrow> wait_result \<Rightarrow> 'w cv_state \<Rightarrow> 'w cv_state" where
  "wait_leave api result s =
     (let cond = (cv_cond s)\<lparr>waiting := waiting (cv_cond s) - 1\<rparr>;
          w = (if waiting cond = 0 \<and> result = Object BROADCAST
               then SetEvent api (broadcast_block_event cond) (ResetEvent api (events_BROADCAST cond) (cv_win s)) else cv_win s)
      in s\<lparr>cv_cond := cond, cv_win := w\<rparr>)"

definition pthread_cond_signal :: "'w win_api \<Rightarrow> 'w cv_state \<Rightarrow> 'w cv_state" where
  "pthread_cond_signal api s =
     (if waiting (cv_cond s) > 0 then s\<lparr>cv_win := SetEvent api (events_SIGNAL (cv_cond s)) (cv_win s)\<rparr> else s)"

definition pthread_cond_broadcast :: "'w win_api \<Rightarrow> 'w cv_state \<Rightarrow> 'w cv_state" where
  "pthread_cond_broadcast api s =
     (if waiting (cv_cond s) > 0
      then s\<lparr>cv_win := SetEvent api (events_BROADCAST (cv_cond s)) (ResetEvent api (broadcast_block_event (cv_cond s)) (cv_win s))\<rparr> else s)"

text \<open>The result of \<^verbatim>\<open>pthread_cond_timedwait\<close>.\<close>

definition wait_return :: "wait_result \<Rightarrow> int" where
  "wait_return result = (if result = Timed_out then ETIMEDOUT else 0)"

datatype cv_event =
    Locked nat
  | Unlocked nat
  | Called nat bool
  | Passed nat
  | Entered nat
  | Released nat
  | Woke nat wait_result
  | Left nat
  | Returned nat int
  | Signalled nat
  | Broadcasted nat

text \<open>
  The steps of the threads: a thread that is outside locks and unlocks the mutex, calls \<^verbatim>\<open>pthread_cond_wait\<close> or \<^verbatim>\<open>pthread_cond_timedwait\<close>
  with the mutex locked, signals or broadcasts. The wait for the block gate comes before the mutex is released.
\<close>

inductive cond_step :: "'w win_api \<Rightarrow> 'w cv_state \<Rightarrow> cv_event \<Rightarrow> 'w cv_state \<Rightarrow> bool" for api where
  lock: "cv_pc s t = Outside \<Longrightarrow> win_mutex_lock t (cv_mutex s) = Some (r, m) \<Longrightarrow> cond_step api s (Locked t) (s\<lparr>cv_mutex := m\<rparr>)"
| unlock: "cv_pc s t = Outside \<Longrightarrow> cv_mutex s = Some (t, n) \<Longrightarrow> win_mutex_unlock (cv_mutex s) = (r, m) \<Longrightarrow>
     cond_step api s (Unlocked t) (s\<lparr>cv_mutex := m\<rparr>)"
| call: "cv_pc s t = Outside \<Longrightarrow> cv_mutex s = Some (t, n) \<Longrightarrow> cond_step api s (Called t timed) (goto_pc t (At_gate timed) s)"
| gate: "cv_pc s t = At_gate timed \<Longrightarrow> WaitObjects api [broadcast_block_event (cv_cond s)] (cv_win s) = Some (i, w) \<Longrightarrow>
     cond_step api s (Passed t) (goto_pc t (Past_gate timed) (s\<lparr>cv_win := w\<rparr>))"
| enter: "cv_pc s t = Past_gate timed \<Longrightarrow> cond_step api s (Entered t) (goto_pc t (Counted timed) (wait_enter s))"
| release: "cv_pc s t = Counted timed \<Longrightarrow>
     cond_step api s (Released t) (goto_pc t (Blocked timed) (s\<lparr>cv_mutex := LeaveCriticalSection (cv_mutex s)\<rparr>))"
| wake: "cv_pc s t = Blocked timed \<Longrightarrow> WaitObjects api [events_SIGNAL (cv_cond s), events_BROADCAST (cv_cond s)] (cv_win s) = Some (i, w) \<Longrightarrow>
     cond_step api s (Woke t (Object i)) (goto_pc t (Notified (Object i)) (s\<lparr>cv_win := w\<rparr>))"
| timeout: "cv_pc s t = Blocked True \<Longrightarrow> cond_step api s (Woke t Timed_out) (goto_pc t (Notified Timed_out) s)"
| leave: "cv_pc s t = Notified r \<Longrightarrow> cond_step api s (Left t) (goto_pc t (Leaving r) (wait_leave api r s))"
| return: "cv_pc s t = Leaving r \<Longrightarrow> EnterCriticalSection t (cv_mutex s) = Some m \<Longrightarrow>
     cond_step api s (Returned t (wait_return r)) (goto_pc t Outside (s\<lparr>cv_mutex := m\<rparr>))"
| signal: "cv_pc s t = Outside \<Longrightarrow> cond_step api s (Signalled t) (pthread_cond_signal api s)"
| broadcast: "cv_pc s t = Outside \<Longrightarrow> cond_step api s (Broadcasted t) (pthread_cond_broadcast api s)"

inductive_cases cond_stepE: "cond_step api s e s'"

text \<open>The runs from a state, with the events in the order in which they happened.\<close>

inductive cond_runs :: "'w win_api \<Rightarrow> 'w cv_state \<Rightarrow> cv_event list \<Rightarrow> 'w cv_state \<Rightarrow> bool" for api s where
  stop: "cond_runs api s [] s"
| go: "cond_runs api s tr s1 \<Longrightarrow> cond_step api s1 e s2 \<Longrightarrow> cond_runs api s (tr @ [e]) s2"

text \<open>The state after \<^verbatim>\<open>pthread_cond_init\<close> and \<^verbatim>\<open>pthread_mutex_init\<close>: no thread is in a function.\<close>

definition cv_start :: "pthread_cond_t \<Rightarrow> pthread_mutex_t \<Rightarrow> 'w \<Rightarrow> 'w cv_state" where
  "cv_start cond m w = \<lparr>cv_cond = cond, cv_win = w, cv_pc = (\<lambda>_. Outside), cv_mutex = m\<rparr>"

section \<open>Threads\<close>

record pthread_attr_t =
  stacksize :: u32

definition pthread_attr_init :: "int \<times> pthread_attr_t" where
  "pthread_attr_init = (0, \<lparr>stacksize = 0\<rparr>)"

definition PTHREAD_STACK_MIN :: u64 where "PTHREAD_STACK_MIN = 65536 * 2"

definition pthread_attr_setstacksize :: "pthread_attr_t \<Rightarrow> u64 \<Rightarrow> int \<times> pthread_attr_t" where
  "pthread_attr_setstacksize attr bytes = (0, if bytes \<noteq> 0 then attr\<lparr>stacksize := ucast (max bytes PTHREAD_STACK_MIN)\<rparr> else attr)"

definition pthread_create :: "'w win_api \<Rightarrow> pthread_attr_t \<Rightarrow> nat \<Rightarrow> nat \<Rightarrow> 'w \<Rightarrow> (int \<times> nat option) \<times> 'w" where
  "pthread_create api attr start_routine arg w =
     (case CreateThread api (stacksize attr) start_routine arg w of (thread, w) \<Rightarrow> ((if thread \<noteq> None then 0 else -1, thread), w))"

definition pthread_cancel :: "'w win_api \<Rightarrow> nat option \<Rightarrow> 'w \<Rightarrow> int \<times> 'w" where
  "pthread_cancel api thread w = (case TerminateThread api thread w of (ok, w) \<Rightarrow> (if ok then 0 else 1, w))"

text \<open>\<open>value_ptr\<close> is \<open>None\<close> or what it points to.\<close>

definition WAIT_OBJECT_0 :: nat where "WAIT_OBJECT_0 = 0"

definition pthread_join :: "'w win_api \<Rightarrow> nat option \<Rightarrow> nat option \<Rightarrow> 'w \<Rightarrow> ((int \<times> nat option) \<times> 'w) option" where
  "pthread_join api pthread value_ptr w =
     (case WaitObjects api [pthread] w of
        None \<Rightarrow> None
      | Some (r, w) \<Rightarrow> Some (if r \<noteq> WAIT_OBJECT_0 then (-1, value_ptr) else (0, map_option (\<lambda>_. 0) value_ptr), w))"

section \<open>One-time initialisation\<close>

definition PTHREAD_ONCE_INIT :: int where "PTHREAD_ONCE_INIT = 0"
definition PTHREAD_ONCE_INPROGRESS :: int where "PTHREAD_ONCE_INPROGRESS = 1"
definition PTHREAD_ONCE_DONE :: int where "PTHREAD_ONCE_DONE = 2"

text \<open>
  Where a thread is in \<^verbatim>\<open>pthread_once\<close>: outside; behind the exchange, with the value it has found; behind the initialisation routine; in the loop that waits;
  at the return.
\<close>

datatype once_pc = Once_outside | Found int | Initialised | Polling | Once_return

record once_state =
  once_control :: int
  once_pc :: "nat \<Rightarrow> once_pc"

datatype once_event = Exchanged nat | Ran_routine nat | Once_stored nat | Slept nat | Saw_done nat | Skipped nat | Once_returned nat int

definition InterlockedCompareExchange :: "int \<Rightarrow> int \<Rightarrow> int \<Rightarrow> int \<times> int" where
  "InterlockedCompareExchange v exchange comparand = (v, if v = comparand then exchange else v)"

inductive once_step :: "once_state \<Rightarrow> once_event \<Rightarrow> once_state \<Rightarrow> bool" where
  exchange: "once_pc s t = Once_outside \<Longrightarrow>
     InterlockedCompareExchange (once_control s) PTHREAD_ONCE_INPROGRESS PTHREAD_ONCE_INIT = (v, v') \<Longrightarrow>
     once_step s (Exchanged t) (s\<lparr>once_control := v', once_pc := (once_pc s)(t := Found v)\<rparr>)"
| routine: "once_pc s t = Found PTHREAD_ONCE_INIT \<Longrightarrow> once_step s (Ran_routine t) (s\<lparr>once_pc := (once_pc s)(t := Initialised)\<rparr>)"
| store: "once_pc s t = Initialised \<Longrightarrow>
     once_step s (Once_stored t) (s\<lparr>once_control := PTHREAD_ONCE_DONE, once_pc := (once_pc s)(t := Once_return)\<rparr>)"
| sleep: "once_pc s t = Found PTHREAD_ONCE_INPROGRESS \<or> once_pc s t = Polling \<Longrightarrow> once_control s = PTHREAD_ONCE_INPROGRESS \<Longrightarrow>
     once_step s (Slept t) (s\<lparr>once_pc := (once_pc s)(t := Polling)\<rparr>)"
| saw_done: "once_pc s t = Found PTHREAD_ONCE_INPROGRESS \<or> once_pc s t = Polling \<Longrightarrow> once_control s \<noteq> PTHREAD_ONCE_INPROGRESS \<Longrightarrow>
     once_step s (Saw_done t) (s\<lparr>once_pc := (once_pc s)(t := Once_return)\<rparr>)"
| skip: "once_pc s t = Found v \<Longrightarrow> v \<noteq> PTHREAD_ONCE_INIT \<Longrightarrow> v \<noteq> PTHREAD_ONCE_INPROGRESS \<Longrightarrow>
     once_step s (Skipped t) (s\<lparr>once_pc := (once_pc s)(t := Once_return)\<rparr>)"
| returned: "once_pc s t = Once_return \<Longrightarrow> once_step s (Once_returned t 0) (s\<lparr>once_pc := (once_pc s)(t := Once_outside)\<rparr>)"

inductive_cases once_stepE: "once_step s e s'"

inductive once_runs :: "once_state \<Rightarrow> once_event list \<Rightarrow> once_state \<Rightarrow> bool" for s where
  once_stop: "once_runs s [] s"
| once_go: "once_runs s tr s1 \<Longrightarrow> once_step s1 e s2 \<Longrightarrow> once_runs s (tr @ [e]) s2"

definition once_start :: once_state where
  "once_start = \<lparr>once_control = PTHREAD_ONCE_INIT, once_pc = (\<lambda>_. Once_outside)\<rparr>"

section \<open>Clock, random numbers and sleeping\<close>

text \<open>
  The static variables of \<^verbatim>\<open>gettimeofday\<close>. \<open>clock\<close> is the time in seconds, \<open>frequency\<close> the frequency of the performance counter, and \<open>counter1\<close>,
  \<open>counter2\<close> are what it shows when it is read for the first and the second time; the quotients are those of 64-bit integers, and \<^verbatim>\<open>long\<close> has 32 bits.
\<close>

record tod_state =
  qpf :: int
  startup_time :: int

definition gettimeofday :: "int \<Rightarrow> int \<Rightarrow> int \<Rightarrow> int \<Rightarrow> tod_state \<Rightarrow> fault + (int \<times> int) \<times> tod_state" where
  "gettimeofday frequency clock counter1 counter2 st =
     (let st = (if qpf st = 0 then st\<lparr>qpf := frequency\<rparr> else st)
      in if qpf st = 0 then Inl Div_zero
         else
           let st = (if startup_time st = 0 then st\<lparr>startup_time := clock - c_div counter1 (qpf st)\<rparr> else st);
               sec = startup_time st + c_div counter2 (qpf st);
               usec = c_div (c_ll ((counter2 - c_div counter2 (qpf st) * qpf st) * 1000000)) (qpf st)
           in Inr ((c_int sec, c_int usec), st))"

text \<open>\<open>bits\<close> is what \<^verbatim>\<open>rand_s\<close> stores; it is read as a signed number.\<close>

definition random_r :: "u32 \<Rightarrow> int" where
  "random_r bits = sint bits"

text \<open>The time in milliseconds that \<^verbatim>\<open>usleep\<close> sleeps, a 32-bit unsigned number.\<close>

definition usleep_ms :: "int \<Rightarrow> u32" where
  "usleep_ms micros = word_of_int (c_div micros 1000)"

section \<open>What the events of Windows promise\<close>

text \<open>
  \<open>ev w h\<close> is \<open>None\<close> when \<open>h\<close> is not the handle of an event, otherwise whether the event is reset by hand and whether it is set. A wait for several
  events ends with the first one that is set, which is reset unless that is done by hand.
\<close>

definition event_set :: "('w \<Rightarrow> nat \<Rightarrow> (bool \<times> bool) option) \<Rightarrow> 'w \<Rightarrow> nat \<Rightarrow> bool" where
  "event_set ev w h \<longleftrightarrow> ev w h = Some (True, True) \<or> ev w h = Some (False, True)"

definition waited :: "(nat \<Rightarrow> (bool \<times> bool) option) \<Rightarrow> nat \<Rightarrow> nat \<Rightarrow> (bool \<times> bool) option" where
  "waited e h = (case e h of Some (False, _) \<Rightarrow> e(h \<mapsto> (False, False)) | _ \<Rightarrow> e)"

definition win_events :: "'w win_api \<Rightarrow> ('w \<Rightarrow> nat \<Rightarrow> (bool \<times> bool) option) \<Rightarrow> bool" where
  "win_events api ev \<longleftrightarrow>
     (\<forall>m b w h w'. CreateEvent api m b w = (Some h, w') \<longrightarrow> ev w h = None \<and> ev w' = (ev w)(h \<mapsto> (m, b))) \<and>
     (\<forall>h w m b. ev w h = Some (m, b) \<longrightarrow> ev (SetEvent api (Some h) w) = (ev w)(h \<mapsto> (m, True))) \<and>
     (\<forall>h w m b. ev w h = Some (m, b) \<longrightarrow> ev (ResetEvent api (Some h) w) = (ev w)(h \<mapsto> (m, False))) \<and>
     (\<forall>hs w. (\<forall>h\<in>set hs. ev w h \<noteq> None) \<longrightarrow>
        (case WaitObjects api (map Some hs) w of
           None \<Rightarrow> (\<forall>h\<in>set hs. \<not> event_set ev w h)
         | Some (i, w') \<Rightarrow> i < length hs \<and> event_set ev w (hs ! i) \<and> (\<forall>j<i. \<not> event_set ev w (hs ! j)) \<and> ev w' = waited (ev w) (hs ! i)))"

lemma win_events_set: "win_events api ev \<Longrightarrow> ev w h = Some (m, b) \<Longrightarrow> ev (SetEvent api (Some h) w) = (ev w)(h \<mapsto> (m, True))"
  by (simp add: win_events_def)

lemma win_events_reset: "win_events api ev \<Longrightarrow> ev w h = Some (m, b) \<Longrightarrow> ev (ResetEvent api (Some h) w) = (ev w)(h \<mapsto> (m, False))"
  by (simp add: win_events_def)

lemma win_events_create:
  "win_events api ev \<Longrightarrow> CreateEvent api m b w = (Some h, w') \<Longrightarrow> ev w h = None \<and> ev w' = (ev w)(h \<mapsto> (m, b))"
  by (simp add: win_events_def)

lemma win_events_wait:
  "win_events api ev \<Longrightarrow> \<forall>h\<in>set hs. ev w h \<noteq> None \<Longrightarrow>
     (case WaitObjects api (map Some hs) w of
        None \<Rightarrow> (\<forall>h\<in>set hs. \<not> event_set ev w h)
      | Some (i, w') \<Rightarrow> i < length hs \<and> event_set ev w (hs ! i) \<and> (\<forall>j<i. \<not> event_set ev w (hs ! j)) \<and> ev w' = waited (ev w) (hs ! i))"
  unfolding win_events_def by blast

lemma win_events_wait1:
  assumes "win_events api ev" "ev w h = Some (m, b)"
  shows "case WaitObjects api [Some h] w of None \<Rightarrow> \<not> b | Some (i, w') \<Rightarrow> i = 0 \<and> b \<and> ev w' = waited (ev w) h"
proof -
  have "\<forall>k\<in>set [h]. ev w k \<noteq> None" using assms(2) by simp
  from win_events_wait [OF assms(1) this] show ?thesis
    using assms(2) by (cases b; cases m) (auto simp: event_set_def split: option.splits)
qed

lemma win_events_wait2:
  assumes "win_events api ev" "ev w h = Some (m, b)" "ev w h' = Some (m', b')"
  shows "case WaitObjects api [Some h, Some h'] w of
           None \<Rightarrow> \<not> b \<and> \<not> b'
         | Some (i, w') \<Rightarrow> i = 0 \<and> b \<and> ev w' = waited (ev w) h \<or> i = 1 \<and> \<not> b \<and> b' \<and> ev w' = waited (ev w) h'"
proof -
  have two: "i < Suc (Suc 0) \<longleftrightarrow> i = 0 \<or> i = 1" for i :: nat by auto
  have "\<forall>k\<in>set [h, h']. ev w k \<noteq> None" using assms(2,3) by simp
  from win_events_wait [OF assms(1) this] show ?thesis
    using assms(2,3) by (cases b; cases b'; cases m; cases m') (auto simp: event_set_def two split: option.splits)
qed

text \<open>The three events of a condition variable, and whether they are set: \<open>S\<close> the signal, \<open>B\<close> the broadcast, \<open>K\<close> the block gate.\<close>

definition cv_events :: "('w \<Rightarrow> nat \<Rightarrow> (bool \<times> bool) option) \<Rightarrow> pthread_cond_t \<Rightarrow> 'w \<Rightarrow> bool \<Rightarrow> bool \<Rightarrow> bool \<Rightarrow> bool" where
  "cv_events ev cond w S B K \<longleftrightarrow>
     (\<exists>sg bc bl. events_SIGNAL cond = Some sg \<and> events_BROADCAST cond = Some bc \<and> broadcast_block_event cond = Some bl \<and>
        distinct [sg, bc, bl] \<and> ev w sg = Some (False, S) \<and> ev w bc = Some (True, B) \<and> ev w bl = Some (True, K))"

lemma cv_events_unique: "cv_events ev cond w S B K \<Longrightarrow> cv_events ev cond w S' B' K' \<Longrightarrow> S = S' \<and> B = B' \<and> K = K'"
  by (auto simp: cv_events_def)

lemma cv_events_waiting [simp]: "cv_events ev (cond\<lparr>waiting := n\<rparr>) w S B K = cv_events ev cond w S B K"
  by (simp add: cv_events_def)

lemma cv_events_init:
  assumes "win_events api ev" "pthread_cond_init api w0 = ((0, cond), w)" "win_ENOMEM api \<noteq> 0"
  shows "waiting cond = 0 \<and> cv_events ev cond w False False True"
  using assms(2,3)
  by (auto simp: pthread_cond_init_def cv_events_def split: prod.splits if_splits dest!: win_events_create [OF assms(1)])

lemma cv_events_set_signal:
  "win_events api ev \<Longrightarrow> cv_events ev cond w S B K \<Longrightarrow> cv_events ev cond (SetEvent api (events_SIGNAL cond) w) True B K"
  by (auto simp: cv_events_def win_events_set)

lemma cv_events_open_broadcast:
  "win_events api ev \<Longrightarrow> cv_events ev cond w S B K \<Longrightarrow>
     cv_events ev cond (SetEvent api (events_BROADCAST cond) (ResetEvent api (broadcast_block_event cond) w)) S True False"
  by (auto simp: cv_events_def win_events_reset win_events_set)

lemma cv_events_close_broadcast:
  "win_events api ev \<Longrightarrow> cv_events ev cond w S B K \<Longrightarrow>
     cv_events ev cond (SetEvent api (broadcast_block_event cond) (ResetEvent api (events_BROADCAST cond) w)) S False True"
  by (auto simp: cv_events_def win_events_reset win_events_set)

lemma cv_events_gate:
  assumes "win_events api ev" "cv_events ev cond w S B K"
  shows "(\<exists>i w'. WaitObjects api [broadcast_block_event cond] w = Some (i, w')) = K"
    and "WaitObjects api [broadcast_block_event cond] w = Some (i, w') \<Longrightarrow> cv_events ev cond w' S B K"
proof -
  obtain sg bc bl where h: "events_SIGNAL cond = Some sg" "events_BROADCAST cond = Some bc" "broadcast_block_event cond = Some bl"
    "distinct [sg, bc, bl]" "ev w sg = Some (False, S)" "ev w bc = Some (True, B)" "ev w bl = Some (True, K)"
    using assms(2) by (auto simp: cv_events_def)
  note W = win_events_wait1 [OF assms(1) h(7)]
  show "(\<exists>i w'. WaitObjects api [broadcast_block_event cond] w = Some (i, w')) = K"
    using W h by (auto simp: event_set_def split: option.splits prod.splits)
  show "WaitObjects api [broadcast_block_event cond] w = Some (i, w') \<Longrightarrow> cv_events ev cond w' S B K"
    using W h by (auto simp: cv_events_def waited_def)
qed

lemma cv_events_wake:
  assumes "win_events api ev" "cv_events ev cond w S B K"
  shows "S \<Longrightarrow> \<exists>w'. WaitObjects api [events_SIGNAL cond, events_BROADCAST cond] w = Some (SIGNAL, w')"
    and "S \<or> B \<Longrightarrow> \<exists>i w'. WaitObjects api [events_SIGNAL cond, events_BROADCAST cond] w = Some (i, w')"
    and "WaitObjects api [events_SIGNAL cond, events_BROADCAST cond] w = Some (i, w') \<Longrightarrow>
      i = SIGNAL \<and> S \<and> cv_events ev cond w' False B K \<or> i = BROADCAST \<and> \<not> S \<and> B \<and> cv_events ev cond w' S B K"
proof -
  obtain sg bc bl where h: "events_SIGNAL cond = Some sg" "events_BROADCAST cond = Some bc" "broadcast_block_event cond = Some bl"
    "distinct [sg, bc, bl]" "ev w sg = Some (False, S)" "ev w bc = Some (True, B)" "ev w bl = Some (True, K)"
    using assms(2) by (auto simp: cv_events_def)
  note W = win_events_wait2 [OF assms(1) h(5,6)]
  show T: "WaitObjects api [events_SIGNAL cond, events_BROADCAST cond] w = Some (i, w') \<Longrightarrow>
      i = SIGNAL \<and> S \<and> cv_events ev cond w' False B K \<or> i = BROADCAST \<and> \<not> S \<and> B \<and> cv_events ev cond w' S B K" for i w'
    using W h by (auto simp: cv_events_def waited_def SIGNAL_def BROADCAST_def)
  show E: "\<exists>i w'. WaitObjects api [events_SIGNAL cond, events_BROADCAST cond] w = Some (i, w')" if "S \<or> B"
    using W h that by (auto simp: event_set_def split: option.splits)
  show "\<exists>w'. WaitObjects api [events_SIGNAL cond, events_BROADCAST cond] w = Some (SIGNAL, w')" if "S"
    using E T that by (metis SIGNAL_def)
qed

section \<open>Counting the waiters\<close>

fun counted :: "cond_pc \<Rightarrow> bool" where
  "counted (Counted _) = True"
| "counted (Blocked _) = True"
| "counted (Notified _) = True"
| "counted _ = False"

fun holds_mutex :: "cond_pc \<Rightarrow> bool" where
  "holds_mutex (At_gate _) = True"
| "holds_mutex (Past_gate _) = True"
| "holds_mutex (Counted _) = True"
| "holds_mutex _ = False"

text \<open>
  The number of waiters is the number of threads that have been counted and have not left, a thread between its call and the release of the mutex has the mutex, and the
  block gate is closed exactly as long as the broadcast event is set.
\<close>

definition cv_ok :: "('w \<Rightarrow> nat \<Rightarrow> (bool \<times> bool) option) \<Rightarrow> 'w cv_state \<Rightarrow> bool" where
  "cv_ok ev s \<longleftrightarrow>
     finite {t. counted (cv_pc s t)} \<and> waiting (cv_cond s) = int (card {t. counted (cv_pc s t)}) \<and>
     (\<forall>t. holds_mutex (cv_pc s t) \<longrightarrow> (\<exists>n. cv_mutex s = Some (t, n))) \<and>
     (\<exists>S B K. cv_events ev (cv_cond s) (cv_win s) S B K \<and> K = (\<not> B))"

lemma counted_set_upd:
  "{u. counted (((f :: nat \<Rightarrow> cond_pc)(t := pc)) u)} = (if counted pc then insert t {u. counted (f u)} else {u. counted (f u)} - {t})"
  by auto

lemma card_counted_upd:
  assumes "finite {u. counted ((f :: nat \<Rightarrow> cond_pc) u)}"
  shows "finite {u. counted ((f(t := pc)) u)}"
    and "int (card {u. counted ((f(t := pc)) u)}) = int (card {u. counted (f u)}) + of_bool (counted pc) - of_bool (counted (f t))"
proof -
  have "card {u. counted (f u)} \<ge> 1" if "counted (f t)"
    using assms that by (auto simp: card_gt_0_iff Suc_le_eq)
  with assms show "finite {u. counted ((f(t := pc)) u)}"
    "int (card {u. counted ((f(t := pc)) u)}) = int (card {u. counted (f u)}) + of_bool (counted pc) - of_bool (counted (f t))"
    by (auto simp del: fun_upd_apply simp: counted_set_upd card_insert_if card_Diff_singleton_if of_nat_diff)
qed

lemma waiting_positive: "cv_ok ev s \<Longrightarrow> counted (cv_pc s t) \<Longrightarrow> waiting (cv_cond s) > 0"
  by (auto simp: cv_ok_def card_gt_0_iff)

lemma cv_ok_start:
  "win_events api ev \<Longrightarrow> pthread_cond_init api w0 = ((0, cond), w) \<Longrightarrow> win_ENOMEM api \<noteq> 0 \<Longrightarrow> cv_ok ev (cv_start cond None w)"
proof -
  assume "win_events api ev" "pthread_cond_init api w0 = ((0, cond), w)" "win_ENOMEM api \<noteq> 0"
  from cv_events_init [OF this] have e: "waiting cond = 0" "cv_events ev cond w False False True" by auto
  have "\<exists>S B K. cv_events ev cond w S B K \<and> K = (\<not> B)" by (rule exI, rule exI, rule exI, rule conjI, rule e(2)) simp
  then show "cv_ok ev (cv_start cond None w)" by (simp add: cv_ok_def cv_start_def e(1))
qed

text \<open>What each step does to the events.\<close>

lemma step_events:
  assumes W: "win_events api ev" and E: "cv_events ev (cv_cond s) (cv_win s) S B K" and step: "cond_step api s e s'"
  shows "(\<exists>t. e = Signalled t \<and> cv_events ev (cv_cond s') (cv_win s') (S \<or> waiting (cv_cond s) > 0) B K) \<or>
     (\<exists>t. e = Broadcasted t \<and>
        cv_events ev (cv_cond s') (cv_win s') S (B \<or> waiting (cv_cond s) > 0) (K \<and> \<not> waiting (cv_cond s) > 0)) \<or>
     (\<exists>t. e = Passed t \<and> K \<and> cv_events ev (cv_cond s') (cv_win s') S B K) \<or>
     (\<exists>t. e = Woke t (Object SIGNAL) \<and> S \<and> cv_events ev (cv_cond s') (cv_win s') False B K) \<or>
     (\<exists>t. e = Woke t (Object BROADCAST) \<and> \<not> S \<and> B \<and> cv_events ev (cv_cond s') (cv_win s') S B K) \<or>
     (\<exists>t. e = Left t \<and> waiting (cv_cond s) = 1 \<and> cv_pc s t = Notified (Object BROADCAST) \<and> cv_events ev (cv_cond s') (cv_win s') S False True) \<or>
     (\<exists>t. e = Left t \<and> \<not> (waiting (cv_cond s) = 1 \<and> cv_pc s t = Notified (Object BROADCAST)) \<and> cv_events ev (cv_cond s') (cv_win s') S B K) \<or>
     ((\<forall>t. e \<noteq> Signalled t \<and> e \<noteq> Broadcasted t \<and> e \<noteq> Passed t \<and> e \<noteq> Left t) \<and> (\<forall>t i. e \<noteq> Woke t (Object i)) \<and>
        cv_events ev (cv_cond s') (cv_win s') S B K)"
  using step
proof cases
  case (gate t timed i w)
  with cv_events_gate [OF W E] show ?thesis by (auto simp: goto_pc_def)
next
  case (wake t timed i w)
  with cv_events_wake(3) [OF W E, of i w] show ?thesis by (auto simp: goto_pc_def)
next
  case (leave t r)
  with cv_events_close_broadcast [OF W E] E show ?thesis
    by (cases "waiting (cv_cond s) = 1 \<and> r = Object BROADCAST") (auto simp: goto_pc_def wait_leave_def Let_def cv_events_def)
next
  case (signal t)
  with cv_events_set_signal [OF W E] E show ?thesis by (auto simp: pthread_cond_signal_def)
next
  case (broadcast t)
  with cv_events_open_broadcast [OF W E] E show ?thesis by (auto simp: pthread_cond_broadcast_def)
qed (use E in \<open>auto simp: goto_pc_def wait_enter_def\<close>)

text \<open>What each step does to the number of waiters and to the thread that makes it.\<close>

lemma step_counts:
  assumes "cond_step api s e s'"
    and "finite {t. counted (cv_pc s t)}" "waiting (cv_cond s) = int (card {t. counted (cv_pc s t)})"
  shows "finite {t. counted (cv_pc s' t)} \<and> waiting (cv_cond s') = int (card {t. counted (cv_pc s' t)})"
  using assms(1)
  by cases (use assms(2,3) in \<open>auto simp del: fun_upd_apply simp: goto_pc_def wait_enter_def wait_leave_def Let_def pthread_cond_signal_def
      pthread_cond_broadcast_def card_counted_upd\<close>)

lemma step_mutex:
  assumes "cond_step api s e s'" "\<forall>t. holds_mutex (cv_pc s t) \<longrightarrow> (\<exists>n. cv_mutex s = Some (t, n))"
  shows "\<forall>t. holds_mutex (cv_pc s' t) \<longrightarrow> (\<exists>n. cv_mutex s' = Some (t, n))"
proof (intro allI impI)
  fix u
  assume h: "holds_mutex (cv_pc s' u)"
  note own = assms(2) [rule_format, of u]
  show "\<exists>n. cv_mutex s' = Some (u, n)"
    using assms(1) h
  proof cases
    case (lock t r m)
    then show ?thesis using own h by (auto simp: win_mutex_lock_def EnterCriticalSection_def split: option.splits if_splits)
  next
    case (unlock t n r m)
    then show ?thesis using own h by (auto simp: win_mutex_unlock_def LeaveCriticalSection_def)
  next
    case (release t timed)
    then show ?thesis using own h assms(2) [rule_format, of t] by (auto simp: goto_pc_def split: if_splits)
  next
    case (return t r m)
    then show ?thesis using own h by (auto simp: goto_pc_def EnterCriticalSection_def split: option.splits if_splits)
  next
    case (leave t r)
    then show ?thesis using own h by (auto simp: goto_pc_def wait_leave_def Let_def split: if_splits)
  next
    case (signal t)
    then show ?thesis using own h by (auto simp: pthread_cond_signal_def split: if_splits)
  next
    case (broadcast t)
    then show ?thesis using own h by (auto simp: pthread_cond_broadcast_def split: if_splits)
  qed (use own h in \<open>auto simp: goto_pc_def wait_enter_def split: if_splits\<close>)
qed

lemma cv_ok_step: "win_events api ev \<Longrightarrow> cv_ok ev s \<Longrightarrow> cond_step api s e s' \<Longrightarrow> cv_ok ev s'"
proof -
  assume a: "win_events api ev" "cv_ok ev s" "cond_step api s e s'"
  then obtain S B K where e: "cv_events ev (cv_cond s) (cv_win s) S B K" and K: "K = (\<not> B)" by (auto simp: cv_ok_def)
  have "\<exists>S B K. cv_events ev (cv_cond s') (cv_win s') S B K \<and> K = (\<not> B)"
    using step_events [OF a(1) e a(3)] by (elim disjE exE conjE) (intro exI conjI, assumption, simp add: K)+
  then show "cv_ok ev s'"
    using a(2) step_counts [OF a(3)] step_mutex [OF a(3)] by (simp add: cv_ok_def)
qed

lemma cv_ok_runs: "cond_runs api s tr s' \<Longrightarrow> win_events api ev \<Longrightarrow> cv_ok ev s \<Longrightarrow> cv_ok ev s'"
  by (induction rule: cond_runs.induct) (auto intro: cv_ok_step)

section \<open>Signals and broadcasts\<close>

text \<open>The steps of the other threads leave a thread where it is.\<close>

fun thread_of :: "cv_event \<Rightarrow> nat" where
  "thread_of (Locked t) = t"
| "thread_of (Unlocked t) = t"
| "thread_of (Called t _) = t"
| "thread_of (Passed t) = t"
| "thread_of (Entered t) = t"
| "thread_of (Released t) = t"
| "thread_of (Woke t _) = t"
| "thread_of (Left t) = t"
| "thread_of (Returned t _) = t"
| "thread_of (Signalled t) = t"
| "thread_of (Broadcasted t) = t"

lemma step_other: "cond_step api s e s' \<Longrightarrow> thread_of e \<noteq> t \<Longrightarrow> cv_pc s' t = cv_pc s t"
  by (erule cond_step.cases)
     (auto simp: goto_pc_def wait_enter_def wait_leave_def Let_def pthread_cond_signal_def pthread_cond_broadcast_def)

lemma step_blocked: "cond_step api s e s' \<Longrightarrow> cv_pc s t = Blocked timed \<Longrightarrow> \<forall>r. e \<noteq> Woke t r \<Longrightarrow> cv_pc s' t = Blocked timed"
  by (cases "thread_of e = t") (auto elim!: cond_step.cases simp: step_other)

lemma cond_runs_blocked:
  "cond_runs api s tr s' \<Longrightarrow> cv_pc s t = Blocked timed \<Longrightarrow> \<forall>r. Woke t r \<notin> set tr \<Longrightarrow> cv_pc s' t = Blocked timed"
  by (induction rule: cond_runs.induct) (auto intro: step_blocked)

lemma step_signal_set:
  assumes "win_events api ev" "cond_step api s e s'" "cv_events ev (cv_cond s) (cv_win s) S B K"
  shows "\<exists>S' B' K'. cv_events ev (cv_cond s') (cv_win s') S' B' K' \<and> (S \<and> (\<forall>t. e \<noteq> Woke t (Object SIGNAL)) \<longrightarrow> S')"
  using step_events [OF assms(1,3,2)] by (elim disjE exE conjE) (intro exI conjI, assumption, simp)+

lemma cond_runs_signal_set:
  assumes "cond_runs api s tr s'" "win_events api ev" "cv_events ev (cv_cond s) (cv_win s) True B K" "\<forall>t. Woke t (Object SIGNAL) \<notin> set tr"
  shows "\<exists>B K. cv_events ev (cv_cond s') (cv_win s') True B K"
  using assms
proof (induction rule: cond_runs.induct)
  case (go tr s1 e s2)
  then obtain B K where "cv_events ev (cv_cond s1) (cv_win s1) True B K" by auto
  from step_signal_set [OF go(4) go(2) this] obtain S' B' K' where
    n: "cv_events ev (cv_cond s2) (cv_win s2) S' B' K'" "True \<and> (\<forall>t. e \<noteq> Woke t (Object SIGNAL)) \<longrightarrow> S'" by blast
  from n(2) go(6) have "S' = True" by auto
  with n(1) show ?case by blast
qed auto

text \<open>
  A signal with a waiter is not lost: until a waiter has taken it, every blocked waiter can take it.
\<close>

lemma signal_can_be_taken:
  assumes "win_events api ev" "cv_ok ev s" "waiting (cv_cond s) > 0" "cond_runs api (pthread_cond_signal api s) tr s'"
    and "\<forall>u. Woke u (Object SIGNAL) \<notin> set tr" "cv_pc s' t = Blocked timed"
  shows "\<exists>s''. cond_step api s' (Woke t (Object SIGNAL)) s''"
proof -
  obtain S B K where "cv_events ev (cv_cond s) (cv_win s) S B K" using assms(2) by (auto simp: cv_ok_def)
  then have "cv_events ev (cv_cond (pthread_cond_signal api s)) (cv_win (pthread_cond_signal api s)) True B K"
    using assms(1,3) by (simp add: pthread_cond_signal_def cv_events_set_signal)
  from cond_runs_signal_set [OF assms(4,1) this assms(5)] obtain B K where "cv_events ev (cv_cond s') (cv_win s') True B K" by blast
  from cv_events_wake(1) [OF assms(1) this] obtain w where
    "WaitObjects api [events_SIGNAL (cv_cond s'), events_BROADCAST (cv_cond s')] (cv_win s') = Some (SIGNAL, w)" by blast
  then show ?thesis using assms(6) by (blast intro: cond_step.wake)
qed

text \<open>While a waiter that was blocked at a broadcast has not woken, the broadcast event stays set.\<close>

lemma step_broadcast_set:
  assumes "win_events api ev" "cond_step api s e s'" "cv_ok ev s" "cv_events ev (cv_cond s) (cv_win s) S True K"
    and "cv_pc s t = Blocked timed" "\<forall>r. e \<noteq> Woke t r"
  shows "\<exists>S' K'. cv_events ev (cv_cond s') (cv_win s') S' True K'"
proof -
  have "\<not> (waiting (cv_cond s) = 1 \<and> cv_pc s u = Notified (Object BROADCAST))" for u
  proof
    assume a: "waiting (cv_cond s) = 1 \<and> cv_pc s u = Notified (Object BROADCAST)"
    then have "{t, u} \<subseteq> {t. counted (cv_pc s t)}" "t \<noteq> u" using assms(5) by auto
    moreover have "finite {t. counted (cv_pc s t)}" "card {t. counted (cv_pc s t)} = 1" using assms(3) a by (auto simp: cv_ok_def)
    ultimately show False using card_mono [of "{t. counted (cv_pc s t)}" "{t, u}"] by simp
  qed
  with step_events [OF assms(1,4,2)] show ?thesis by auto
qed

lemma cond_runs_broadcast_set:
  assumes "cond_runs api s tr s'" "win_events api ev" "cv_ok ev s" "cv_events ev (cv_cond s) (cv_win s) S True K"
    and "cv_pc s t = Blocked timed" "\<forall>r. Woke t r \<notin> set tr"
  shows "\<exists>S K. cv_events ev (cv_cond s') (cv_win s') S True K"
  using assms
proof (induction rule: cond_runs.induct)
  case (go tr s1 e s2)
  then obtain S K where "cv_events ev (cv_cond s1) (cv_win s1) S True K" by auto
  moreover have "cv_pc s1 t = Blocked timed" "cv_ok ev s1"
    using cond_runs_blocked [OF go(1)] cv_ok_runs [OF go(1)] go by auto
  ultimately show ?case using step_broadcast_set [OF go(4) go(2), of S K t timed] go(8) by auto
qed auto

lemma broadcast_event_set:
  assumes "win_events api ev" "cv_ok ev s" "cv_pc s t = Blocked timed"
  shows "\<exists>S K. cv_events ev (cv_cond (pthread_cond_broadcast api s)) (cv_win (pthread_cond_broadcast api s)) S True K"
    and "cv_pc (pthread_cond_broadcast api s) t = Blocked timed"
proof -
  have p: "waiting (cv_cond s) > 0" using waiting_positive [OF assms(2), of t] assms(3) by simp
  obtain S B K where "cv_events ev (cv_cond s) (cv_win s) S B K" using assms(2) by (auto simp: cv_ok_def)
  from cv_events_open_broadcast [OF assms(1) this] p
  show "\<exists>S K. cv_events ev (cv_cond (pthread_cond_broadcast api s)) (cv_win (pthread_cond_broadcast api s)) S True K"
    by (auto simp: pthread_cond_broadcast_def)
  show "cv_pc (pthread_cond_broadcast api s) t = Blocked timed" using assms(3) by (simp add: pthread_cond_broadcast_def)
qed

text \<open>The number of threads that woke by a signal is at most the number of signals.\<close>

definition woken_by_signal :: "cv_event list \<Rightarrow> nat" where
  "woken_by_signal tr = length (filter (\<lambda>e. \<exists>t. e = Woke t (Object SIGNAL)) tr)"

definition signals_sent :: "cv_event list \<Rightarrow> nat" where
  "signals_sent tr = length (filter (\<lambda>e. \<exists>t. e = Signalled t) tr)"

lemma woken_append [simp]: "woken_by_signal (tr @ [e]) = woken_by_signal tr + of_bool (\<exists>t. e = Woke t (Object SIGNAL))"
  by (simp add: woken_by_signal_def)

lemma signals_append [simp]: "signals_sent (tr @ [e]) = signals_sent tr + of_bool (\<exists>t. e = Signalled t)"
  by (simp add: signals_sent_def)

lemma step_signal_count:
  assumes "win_events api ev" "cond_step api s e s'" "cv_events ev (cv_cond s) (cv_win s) S B K"
  shows "\<exists>S' B' K'. cv_events ev (cv_cond s') (cv_win s') S' B' K' \<and>
     of_bool (\<exists>t. e = Woke t (Object SIGNAL)) + of_bool S' \<le> of_bool S + (of_bool (\<exists>t. e = Signalled t) :: nat)"
  using step_events [OF assms(1,3,2)]
  by (elim disjE exE conjE) (intro exI conjI, assumption, simp add: SIGNAL_def BROADCAST_def)+

lemma signal_wakes_at_most_one:
  assumes "cond_runs api s tr s'" "win_events api ev" "cv_events ev (cv_cond s) (cv_win s) False B K"
  shows "\<exists>S B K. cv_events ev (cv_cond s') (cv_win s') S B K \<and> woken_by_signal tr + of_bool S \<le> signals_sent tr"
  using assms
proof (induction rule: cond_runs.induct)
  case stop
  then have "cv_events ev (cv_cond s) (cv_win s) False B K \<and> woken_by_signal [] + of_bool False \<le> signals_sent []"
    by (simp add: woken_by_signal_def)
  then show ?case by blast
next
  case (go tr s1 e s2)
  then obtain S B K where E: "cv_events ev (cv_cond s1) (cv_win s1) S B K" "woken_by_signal tr + of_bool S \<le> signals_sent tr" by auto
  from step_signal_count [OF go(4) go(2) E(1)] obtain S' B' K' where n: "cv_events ev (cv_cond s2) (cv_win s2) S' B' K'"
    "of_bool (\<exists>t. e = Woke t (Object SIGNAL)) + of_bool S' \<le> of_bool S + (of_bool (\<exists>t. e = Signalled t) :: nat)" by blast
  have "woken_by_signal (tr @ [e]) + of_bool S' \<le> signals_sent (tr @ [e])"
    unfolding woken_append signals_append using n(2) E(2) by linarith
  with n(1) show ?case by blast
qed

section \<open>The block gate\<close>

text \<open>When nobody is counted and the block gate is closed, it stays closed: only the last waiter that was woken by a broadcast opens it.\<close>

definition gate_stuck :: "('w \<Rightarrow> nat \<Rightarrow> (bool \<times> bool) option) \<Rightarrow> 'w cv_state \<Rightarrow> bool" where
  "gate_stuck ev s \<longleftrightarrow> waiting (cv_cond s) = 0 \<and> (\<forall>t timed. cv_pc s t \<noteq> Past_gate timed) \<and> (\<forall>t. \<not> counted (cv_pc s t)) \<and>
     (\<exists>S B. cv_events ev (cv_cond s) (cv_win s) S B False)"

lemma gate_stuck_step:
  assumes "win_events api ev" "gate_stuck ev s" "cond_step api s e s'"
  shows "gate_stuck ev s' \<and> (\<forall>t. e \<noteq> Passed t)"
proof -
  obtain S B where E: "cv_events ev (cv_cond s) (cv_win s) S B False" using assms(2) by (auto simp: gate_stuck_def)
  have q: "waiting (cv_cond s) = 0" "cv_pc s t \<noteq> Past_gate timed" "\<not> counted (cv_pc s t)" for t timed
    using assms(2) by (auto simp: gate_stuck_def)
  have nl: "cv_pc s t \<noteq> Notified r" "cv_pc s t \<noteq> Blocked timed" "cv_pc s t \<noteq> Counted timed" for t r timed
    using q(3) [of t] by auto
  from assms(3) show ?thesis
  proof cases
    case (gate t timed i w)
    then show ?thesis using cv_events_gate(1) [OF assms(1) E] by auto
  next
    case (signal t)
    then show ?thesis using assms(2) q by (simp add: pthread_cond_signal_def)
  next
    case (broadcast t)
    then show ?thesis using assms(2) q by (simp add: pthread_cond_broadcast_def)
  qed (use assms(2) q nl in \<open>auto simp: gate_stuck_def goto_pc_def\<close>)
qed

lemma gate_stuck_runs:
  "cond_runs api s tr s' \<Longrightarrow> win_events api ev \<Longrightarrow> gate_stuck ev s \<Longrightarrow> gate_stuck ev s' \<and> (\<forall>t. Passed t \<notin> set tr)"
proof (induction rule: cond_runs.induct)
  case (go tr s1 e s2)
  then show ?case using gate_stuck_step [of api ev s1 e s2] by auto
qed simp

section \<open>One-time initialisation is exact\<close>

definition routine_runs :: "once_event list \<Rightarrow> nat" where
  "routine_runs tr = length (filter (\<lambda>e. \<exists>t. e = Ran_routine t) tr)"

lemma routine_runs_append [simp]: "routine_runs (tr @ [e]) = routine_runs tr + of_bool (\<exists>t. e = Ran_routine t)"
  by (simp add: routine_runs_def)

text \<open>The states before, during and after the initialisation, with the number of times the routine has run.\<close>

definition once_ok :: "nat \<Rightarrow> once_state \<Rightarrow> bool" where
  "once_ok n s \<longleftrightarrow>
     (once_control s = PTHREAD_ONCE_INIT \<and> n = 0 \<and> (\<forall>t. once_pc s t = Once_outside)) \<or>
     (once_control s = PTHREAD_ONCE_INPROGRESS \<and>
        (\<exists>t. (once_pc s t = Found PTHREAD_ONCE_INIT \<and> n = 0 \<or> once_pc s t = Initialised \<and> n = 1) \<and>
           (\<forall>u. u \<noteq> t \<longrightarrow> once_pc s u \<in> {Once_outside, Found PTHREAD_ONCE_INPROGRESS, Polling}))) \<or>
     (once_control s = PTHREAD_ONCE_DONE \<and> n = 1 \<and>
        (\<forall>u. once_pc s u \<in> {Once_outside, Found PTHREAD_ONCE_INPROGRESS, Found PTHREAD_ONCE_DONE, Polling, Once_return}))"

lemmas once_consts = PTHREAD_ONCE_INIT_def PTHREAD_ONCE_INPROGRESS_def PTHREAD_ONCE_DONE_def

lemma once_ok_before: "once_ok n s \<Longrightarrow> once_control s = 0 \<Longrightarrow> n = 0 \<and> once_pc s t = Once_outside"
  by (auto simp: once_ok_def once_consts)

lemma once_ok_during:
  assumes "once_ok n s" "once_control s = 1"
  obtains t where "once_pc s t = Found 0 \<and> n = 0 \<or> once_pc s t = Initialised \<and> n = 1"
    and "\<And>u. u \<noteq> t \<Longrightarrow> once_pc s u \<in> {Once_outside, Found 1, Polling}"
  using assms by (auto simp: once_ok_def once_consts)

lemma once_ok_after:
  "once_ok n s \<Longrightarrow> once_control s = 2 \<Longrightarrow> n = 1 \<and> once_pc s t \<in> {Once_outside, Found 1, Found 2, Polling, Once_return}"
  by (auto simp: once_ok_def once_consts)

lemma once_ok_duringI:
  "once_control x = 1 \<Longrightarrow> once_pc x t = Found 0 \<and> n = 0 \<or> once_pc x t = Initialised \<and> n = 1 \<Longrightarrow>
     (\<And>u. u \<noteq> t \<Longrightarrow> once_pc x u \<in> {Once_outside, Found 1, Polling}) \<Longrightarrow> once_ok n x"
  by (auto simp: once_ok_def once_consts)

lemma once_ok_afterI:
  "once_control x = 2 \<Longrightarrow> (\<And>t. once_pc x t \<in> {Once_outside, Found 1, Found 2, Polling, Once_return}) \<Longrightarrow> once_ok (Suc 0) x"
  by (auto simp: once_ok_def once_consts)

lemma once_ok_control: "once_ok n s \<Longrightarrow> once_control s = 0 \<or> once_control s = 1 \<or> once_control s = 2"
  by (auto simp: once_ok_def once_consts)

text \<open>A step of a thread other than the initialiser, in the middle of the initialisation, and any step after it.\<close>

lemma once_ok_first: "once_control s = 0 \<Longrightarrow> once_ok n s \<Longrightarrow> once_step s e s' \<Longrightarrow> once_ok n s' \<and> (\<forall>t. e \<noteq> Ran_routine t) \<and> (\<forall>t r. e \<noteq> Once_returned t r)"
proof -
  assume a: "once_control s = 0" "once_ok n s" "once_step s e s'"
  have u: "n = 0" "once_pc s t = Once_outside" for t using once_ok_before [OF a(2,1)] by auto
  from a(3) show ?thesis
  proof cases
    case (exchange t v v')
    have "once_ok 0 s'" by (rule once_ok_duringI [of _ t]) (use a(1) u exchange in \<open>auto simp: once_consts InterlockedCompareExchange_def\<close>)
    then show ?thesis using exchange(1) u(1) by simp
  qed (use u in auto)
qed

lemma once_ok_last: "once_control s = 2 \<Longrightarrow> once_ok n s \<Longrightarrow> once_step s e s' \<Longrightarrow> once_ok n s' \<and> (\<forall>t. e \<noteq> Ran_routine t)"
proof -
  assume a: "once_control s = 2" "once_ok n s" "once_step s e s'"
  have u: "n = 1" "once_pc s t \<in> {Once_outside, Found 1, Found 2, Polling, Once_return}" for t
    using once_ok_after [OF a(2,1)] by auto
  have upd: "once_ok n x" if "once_control x = 2" "once_pc x = (once_pc s)(t := pc)" "pc \<in> {Once_outside, Found 2, Once_return}" for x t pc
    unfolding u(1) One_nat_def
  proof (rule once_ok_afterI [OF that(1)])
    show "once_pc x v \<in> {Once_outside, Found 1, Found 2, Polling, Once_return}" for v using that(2,3) u(2) [of v] by auto
  qed
  from a(3) show ?thesis
  proof cases
    case (routine t)
    then show ?thesis using u(2) [of t] by (simp add: once_consts)
  next
    case (store t)
    then show ?thesis using u(2) [of t] by simp
  next
    case (exchange t v v')
    then show ?thesis using a(1) by (auto intro!: upd simp: once_consts InterlockedCompareExchange_def)
  next
    case (sleep t)
    then show ?thesis using a(1) by (simp add: once_consts)
  qed (use a(1) in \<open>auto intro!: upd\<close>)
qed

lemma once_ok_middle:
  assumes "once_control s = 1" "once_ok n s" "once_step s e s'"
  shows "once_ok (n + of_bool (\<exists>t. e = Ran_routine t)) s' \<and> (\<forall>t r. e \<noteq> Once_returned t r)"
proof -
  obtain i where i: "once_pc s i = Found 0 \<and> n = 0 \<or> once_pc s i = Initialised \<and> n = 1"
    and o: "\<And>u. u \<noteq> i \<Longrightarrow> once_pc s u \<in> {Once_outside, Found 1, Polling}"
    using once_ok_during [OF assms(2,1)] by blast
  have other: "once_ok n (s\<lparr>once_pc := (once_pc s)(t := pc)\<rparr>)" if "t \<noteq> i" "pc \<in> {Once_outside, Found 1, Polling}" for t pc
    by (rule once_ok_duringI [of _ i]) (use assms(1) i o that in auto)
  from assms(3) show ?thesis
  proof cases
    case (exchange t v v')
    then have "s' = s\<lparr>once_pc := (once_pc s)(t := Found 1)\<rparr>" using assms(1) by (simp add: once_consts InterlockedCompareExchange_def)
    moreover have "t \<noteq> i" using exchange i by auto
    ultimately show ?thesis using exchange(1) other by simp
  next
    case (routine t)
    then have "t = i" using o [of t] by (cases "t = i") (auto simp: once_consts)
    then have "once_pc s i = Found 0 \<and> n = 0" using i routine by auto
    moreover have "once_ok 1 s'" by (rule once_ok_duringI [of _ i]) (use assms(1) o routine \<open>t = i\<close> in auto)
    ultimately show ?thesis using routine(1) by simp
  next
    case (store t)
    then have "t = i" using o [of t] by (cases "t = i") auto
    then have "n = 1" using i store by auto
    moreover have "once_ok (Suc 0) s'" by (rule once_ok_afterI) (use o store \<open>t = i\<close> in \<open>auto simp: once_consts\<close>)
    ultimately show ?thesis using store(1) by simp
  next
    case (sleep t)
    moreover have "t \<noteq> i" using sleep i by (auto simp: once_consts)
    ultimately show ?thesis using other by simp
  next
    case (saw_done t)
    then show ?thesis using assms(1) by (simp add: once_consts)
  next
    case (skip t v)
    then show ?thesis using i o [of t] by (cases "t = i") (auto simp: once_consts)
  next
    case (returned t)
    then show ?thesis using i o [of t] by (cases "t = i") auto
  qed
qed

lemma once_ok_step:
  assumes "once_ok n s" "once_step s e s'"
  shows "once_ok (n + of_bool (\<exists>t. e = Ran_routine t)) s' \<and> (\<forall>t r. e = Once_returned t r \<longrightarrow> r = 0 \<and> n = 1)"
proof -
  consider "once_control s = 0" | "once_control s = 1" | "once_control s = 2" using once_ok_control [OF assms(1)] by blast
  then show ?thesis
  proof cases
    case 1
    then show ?thesis using once_ok_first [OF _ assms] by auto
  next
    case 2
    then show ?thesis using once_ok_middle [OF _ assms] by auto
  next
    case 3
    then have "r = 0" if "e = Once_returned t r" for t r using assms(2) that by (auto elim: once_step.cases)
    with 3 show ?thesis using once_ok_last [OF 3 assms] once_ok_after [OF assms(1) 3] by auto
  qed
qed

lemma once_runs_ok:
  "once_runs once_start tr s \<Longrightarrow>
     once_ok (routine_runs tr) s \<and> (\<forall>i<length tr. \<forall>t r. tr ! i = Once_returned t r \<longrightarrow> r = 0 \<and> routine_runs (take i tr) = 1)"
proof (induction rule: once_runs.induct)
  case once_stop
  then show ?case by (simp add: once_ok_def once_start_def routine_runs_def)
next
  case (once_go tr s1 e s2)
  then show ?case using once_ok_step [of "routine_runs tr" s1 e s2] by (auto simp: less_Suc_eq nth_append)
qed

lemma once_ok_at_most: "once_ok n s \<Longrightarrow> n \<le> 1"
  by (auto simp: once_ok_def)

text \<open>
  (C16) In every interleaving of the threads that call \<open>pthread_once\<close> with one control variable the initialisation routine is run at most once, and each call
  that returns has the result 0 and returns after the routine has been run.
\<close>

theorem once_exactly_once:
  assumes "once_runs once_start tr s"
  shows "routine_runs tr \<le> 1 \<and> (\<forall>i<length tr. \<forall>t r. tr ! i = Once_returned t r \<longrightarrow> r = 0 \<and> routine_runs (take i tr) = 1)"
  using once_runs_ok [OF assms] once_ok_at_most by blast

lemma once_exactly_once_witness:
  "routine_runs [Exchanged 1, Ran_routine 1, Once_stored 1, Once_returned 1 0] \<le> 1 \<and>
   routine_runs (take 3 [Exchanged 1, Ran_routine 1, Once_stored 1, Once_returned 1 0]) = 1"
proof -
  have 1: "once_runs once_start [Exchanged 1] \<lparr>once_control = 1, once_pc = (\<lambda>_. Once_outside)(1 := Found 0)\<rparr>"
    using once_go [OF once_stop once_step.exchange [of once_start 1 0 1]] by (simp add: once_start_def once_consts InterlockedCompareExchange_def)
  have 2: "once_runs once_start [Exchanged 1, Ran_routine 1] \<lparr>once_control = 1, once_pc = (\<lambda>_. Once_outside)(1 := Initialised)\<rparr>"
    using once_go [OF 1 once_step.routine [of _ 1]] by (simp add: once_consts)
  have 3: "once_runs once_start [Exchanged 1, Ran_routine 1, Once_stored 1] \<lparr>once_control = 2, once_pc = (\<lambda>_. Once_outside)(1 := Once_return)\<rparr>"
    using once_go [OF 2 once_step.store [of _ 1]] by (simp add: once_consts)
  have 4: "once_runs once_start [Exchanged 1, Ran_routine 1, Once_stored 1, Once_returned 1 0]
      \<lparr>once_control = 2, once_pc = (\<lambda>_. Once_outside)(1 := Once_outside)\<rparr>"
    using once_go [OF 3 once_step.returned [of _ 1]] by simp
  have "[Exchanged 1, Ran_routine 1, Once_stored 1, Once_returned 1 0] ! 3 = Once_returned 1 0"
    "3 < length [Exchanged 1, Ran_routine 1, Once_stored 1, Once_returned 1 0]" by simp_all
  then show ?thesis using once_exactly_once [OF 4] by blast
qed

section \<open>Waiters, signals and broadcasts\<close>

text \<open>
  (C18) A broadcast reaches every waiter: in whatever way the threads go on after a broadcast, a thread that was blocked then and has not been woken can be
  woken by an event.
\<close>

theorem broadcast_reaches_waiters:
  assumes "win_events api ev" "win_ENOMEM api \<noteq> 0" "pthread_cond_init api w0 = ((0, cond), w)"
    and "cond_runs api (cv_start cond None w) tr s" "cv_pc s t = Blocked timed"
    and "cond_runs api (pthread_cond_broadcast api s) tr' s'" "\<forall>r. Woke t r \<notin> set tr'"
  shows "\<exists>i s''. cond_step api s' (Woke t (Object i)) s'' \<and> cv_pc s'' t = Notified (Object i)"
proof -
  have ok: "cv_ok ev s" using cv_ok_runs [OF assms(4,1)] cv_ok_start [OF assms(1,3,2)] .
  have okb: "cv_ok ev (pthread_cond_broadcast api s)"
  proof -
    obtain S B K where e: "cv_events ev (cv_cond s) (cv_win s) S B K" "K = (\<not> B)" using ok by (auto simp: cv_ok_def)
    from cv_events_open_broadcast [OF assms(1) e(1)] have
      "\<exists>S B K. cv_events ev (cv_cond s) (SetEvent api (events_BROADCAST (cv_cond s)) (ResetEvent api (broadcast_block_event (cv_cond s)) (cv_win s))) S B K
         \<and> K = (\<not> B)" by blast
    then show ?thesis using ok by (simp add: cv_ok_def pthread_cond_broadcast_def)
  qed
  obtain S K where b: "cv_events ev (cv_cond (pthread_cond_broadcast api s)) (cv_win (pthread_cond_broadcast api s)) S True K"
    using broadcast_event_set(1) [OF assms(1) ok assms(5)] by blast
  note bl = broadcast_event_set(2) [OF assms(1) ok assms(5)]
  obtain S K where n: "cv_events ev (cv_cond s') (cv_win s') S True K"
    using cond_runs_broadcast_set [OF assms(6,1) okb b bl assms(7)] by blast
  obtain i w' where "WaitObjects api [events_SIGNAL (cv_cond s'), events_BROADCAST (cv_cond s')] (cv_win s') = Some (i, w')"
    using cv_events_wake(2) [OF assms(1) n] by blast
  from cond_step.wake [OF cond_runs_blocked [OF assms(6) bl assms(7)] this] show ?thesis by (force simp: goto_pc_def)
qed

text \<open>
  (C34) A signal in front of a broadcast can block the condition variable for good: when one thread waits, a thread that signals and broadcasts lets it wake by
  the signal, and it leaves without opening the block gate that the broadcast has closed, so that no later call of \<open>pthread_cond_wait\<close> gets past the gate.
\<close>

theorem signalled_broadcast_blocks_gate:
  assumes "win_events api ev" "win_ENOMEM api \<noteq> 0" "pthread_cond_init api w0 = ((0, cond), w)"
    and "cond_runs api (cv_start cond None w) tr s" "waiting (cv_cond s) = 1" "cv_pc s t = Blocked timed"
    and "cv_pc s u = Outside" "\<forall>v d. cv_pc s v \<noteq> Past_gate d"
  shows "\<exists>s'. cond_runs api s [Signalled u, Broadcasted u, Woke t (Object SIGNAL), Left t] s' \<and>
     (\<forall>tr' s'' v. cond_runs api s' tr' s'' \<longrightarrow> Passed v \<notin> set tr')"
proof -
  have ok: "cv_ok ev s" using cv_ok_runs [OF assms(4,1)] cv_ok_start [OF assms(1,3,2)] .
  then obtain S B K where e: "cv_events ev (cv_cond s) (cv_win s) S B K" by (auto simp: cv_ok_def)
  define s1 where "s1 = pthread_cond_signal api s"
  define s2 where "s2 = pthread_cond_broadcast api s1"
  have s1: "cv_cond s1 = cv_cond s" "cv_pc s1 = cv_pc s" "cv_events ev (cv_cond s1) (cv_win s1) True B K"
    using cv_events_set_signal [OF assms(1) e] assms(5) by (auto simp: s1_def pthread_cond_signal_def)
  have s2: "cv_cond s2 = cv_cond s" "cv_pc s2 = cv_pc s" "cv_events ev (cv_cond s2) (cv_win s2) True True False"
    using cv_events_open_broadcast [OF assms(1) s1(3)] assms(5) s1(1,2) by (auto simp: s2_def pthread_cond_broadcast_def)
  obtain w' where w': "WaitObjects api [events_SIGNAL (cv_cond s2), events_BROADCAST (cv_cond s2)] (cv_win s2) = Some (SIGNAL, w')"
    using cv_events_wake(1) [OF assms(1) s2(3)] by blast
  have e': "cv_events ev (cv_cond s) w' False True False"
    using cv_events_wake(3) [OF assms(1) s2(3) w'] s2(1) by (auto simp: SIGNAL_def BROADCAST_def)
  define s3 where "s3 = goto_pc t (Notified (Object SIGNAL)) (s2\<lparr>cv_win := w'\<rparr>)"
  define s4 where "s4 = goto_pc t (Leaving (Object SIGNAL)) (wait_leave api (Object SIGNAL) s3)"
  have r2: "cond_runs api s [Signalled u, Broadcasted u] s2"
    using go [OF go [OF stop cond_step.signal [where s = s and t = u]] cond_step.broadcast [where t = u]] assms(7) s1(2)
    by (simp add: s1_def s2_def)
  have r3: "cond_runs api s [Signalled u, Broadcasted u, Woke t (Object SIGNAL)] s3"
    using go [OF r2 cond_step.wake [where t = t and timed = timed and i = SIGNAL and w = w']] w' s2(2) assms(6) by (simp add: s3_def)
  have r4: "cond_runs api s [Signalled u, Broadcasted u, Woke t (Object SIGNAL), Left t] s4"
    using go [OF r3 cond_step.leave [where t = t and r = "Object SIGNAL"]] by (simp add: s3_def s4_def goto_pc_def)
  have fin: "finite {v. counted (cv_pc s v)}" "card {v. counted (cv_pc s v)} = 1" using ok assms(5) by (auto simp: cv_ok_def)
  then obtain a where "{v. counted (cv_pc s v)} = {a}" by (auto simp: card_1_singleton_iff)
  then have only: "\<not> counted (cv_pc s v)" if "v \<noteq> t" for v using that assms(6) by (metis counted.simps(2) mem_Collect_eq singletonD)
  have "gate_stuck ev s4"
    using e' only assms(5,8) s2(1,2)
    by (auto simp: gate_stuck_def s4_def s3_def wait_leave_def goto_pc_def Let_def SIGNAL_def BROADCAST_def)
  with r4 show ?thesis using gate_stuck_runs assms(1) by blast
qed

section \<open>Events in a list\<close>

text \<open>Concrete events: the handle of an event is its place in a list.\<close>

definition demo_events :: "(bool \<times> bool) list \<Rightarrow> nat \<Rightarrow> (bool \<times> bool) option" where
  "demo_events w h = (if h < length w then Some (w ! h) else None)"

definition demo_put :: "bool \<Rightarrow> nat option \<Rightarrow> (bool \<times> bool) list \<Rightarrow> (bool \<times> bool) list" where
  "demo_put b h w = (case h of None \<Rightarrow> w | Some h \<Rightarrow> w[h := (fst (w ! h), b)])"

fun demo_wait :: "nat option list \<Rightarrow> (bool \<times> bool) list \<Rightarrow> (nat \<times> (bool \<times> bool) list) option" where
  "demo_wait [] w = None"
| "demo_wait (None # hs) w = map_option (\<lambda>(i, w). (Suc i, w)) (demo_wait hs w)"
| "demo_wait (Some h # hs) w =
     (if h < length w \<and> snd (w ! h) then Some (0, w[h := (fst (w ! h), fst (w ! h))])
      else map_option (\<lambda>(i, w). (Suc i, w)) (demo_wait hs w))"

definition demo_api :: "(bool \<times> bool) list win_api" where
  "demo_api = \<lparr>CreateEvent = (\<lambda>m b w. (Some (length w), w @ [(m, b)])), CloseHandle = (\<lambda>h w. (h \<noteq> None, w)),
     SetEvent = demo_put True, ResetEvent = demo_put False, WaitObjects = demo_wait,
     CreateThread = (\<lambda>size routine arg w. (None, w)), TerminateThread = (\<lambda>h w. (False, w)), win_ENOMEM = 12, win_EINVAL = 22\<rparr>"

lemma demo_wait_none: "\<forall>h\<in>set hs. demo_events w h \<noteq> None \<Longrightarrow> demo_wait (map Some hs) w = None \<Longrightarrow> h \<in> set hs \<Longrightarrow> \<not> event_set demo_events w h"
  by (induction hs) (auto simp: demo_events_def event_set_def split: if_splits)

lemma demo_wait_some:
  "\<forall>h\<in>set hs. demo_events w h \<noteq> None \<Longrightarrow> demo_wait (map Some hs) w = Some (i, w') \<Longrightarrow>
     i < length hs \<and> event_set demo_events w (hs ! i) \<and> (\<forall>j<i. \<not> event_set demo_events w (hs ! j)) \<and>
     demo_events w' = waited (demo_events w) (hs ! i)"
proof (induction hs arbitrary: i)
  case (Cons h hs)
  have h: "h < length w" using Cons.prems(1) by (simp add: demo_events_def split: if_splits)
  obtain m b where wh: "w ! h = (m, b)" by (cases "w ! h")
  show ?case
  proof (cases b)
    case True
    then show ?thesis using Cons.prems(2) h wh
      by (cases m) (auto simp: demo_events_def event_set_def waited_def fun_eq_iff nth_list_update)
  next
    case False
    then obtain k where k: "demo_wait (map Some hs) w = Some (k, w')" "i = Suc k" using Cons.prems(2) wh by auto
    have "\<not> event_set demo_events w h" using False h wh by (simp add: event_set_def demo_events_def)
    then show ?thesis using Cons.IH [OF _ k(1)] Cons.prems(1) k(2) by (auto simp: nth_Cons split: nat.splits)
  qed
qed simp

lemma demo_api_events: "win_events demo_api demo_events"
proof -
  have put: "demo_events (demo_put b (Some h) w) = (demo_events w)(h \<mapsto> (m, b))" if "demo_events w h = Some (m, b')" for h w m b b'
    using that by (auto simp: demo_events_def demo_put_def fun_eq_iff nth_list_update split: if_splits)
  have wait: "case demo_wait (map Some hs) w of
           None \<Rightarrow> (\<forall>h\<in>set hs. \<not> event_set demo_events w h)
         | Some (i, w') \<Rightarrow> i < length hs \<and> event_set demo_events w (hs ! i) \<and> (\<forall>j<i. \<not> event_set demo_events w (hs ! j)) \<and>
             demo_events w' = waited (demo_events w) (hs ! i)" if "\<forall>h\<in>set hs. demo_events w h \<noteq> None" for hs w
    using demo_wait_none [OF that] demo_wait_some [OF that] by (simp split: option.splits)
  show ?thesis
    unfolding win_events_def by (auto simp: demo_api_def put wait demo_events_def fun_eq_iff nth_append)
qed

definition demo_cond :: pthread_cond_t where
  "demo_cond = \<lparr>waiting = 0, events_SIGNAL = Some 0, events_BROADCAST = Some 1, broadcast_block_event = Some 2\<rparr>"

lemma demo_init: "pthread_cond_init demo_api [] = ((0, demo_cond), [(False, False), (True, False), (True, True)])"
  by (simp add: pthread_cond_init_def demo_api_def demo_cond_def)

text \<open>Thread 1 waits, thread 2 is outside.\<close>

definition demo_blocked :: "(bool \<times> bool) list cv_state" where
  "demo_blocked = \<lparr>cv_cond = demo_cond\<lparr>waiting := 1\<rparr>, cv_win = [(False, False), (True, False), (True, True)],
     cv_pc = (\<lambda>_. Outside)(1 := Blocked False), cv_mutex = None\<rparr>"

lemma demo_blocked_reached:
  "cond_runs demo_api (cv_start demo_cond None [(False, False), (True, False), (True, True)])
     [Locked 1, Called 1 False, Passed 1, Entered 1, Released 1] demo_blocked"
proof -
  define w0 where "w0 = [(False, False), (True, False), (True, True :: bool)]"
  define st where "st = (\<lambda>n pc m. \<lparr>cv_cond = demo_cond\<lparr>waiting := n\<rparr>, cv_win = w0, cv_pc = (\<lambda>_. Outside)(1 := pc), cv_mutex = m\<rparr>)"
  have w: "WaitObjects demo_api [Some 2] w0 = Some (0, w0)" by (simp add: demo_api_def w0_def)
  have s0: "cv_start demo_cond None w0 = st 0 Outside None" by (simp add: cv_start_def st_def demo_cond_def fun_eq_iff)
  have 1: "cond_runs demo_api (st 0 Outside None) [Locked 1] (st 0 Outside (Some (1, 1)))"
    using go [OF stop cond_step.lock [of "st 0 Outside None" 1 0 "Some (1, 1)"]]
    by (simp add: st_def win_mutex_lock_def EnterCriticalSection_def)
  have 2: "cond_runs demo_api (st 0 Outside None) [Locked 1, Called 1 False] (st 0 (At_gate False) (Some (1, 1)))"
    using go [OF 1 cond_step.call [where t = 1 and n = 1 and timed = False]] by (simp add: st_def goto_pc_def)
  have 3: "cond_runs demo_api (st 0 Outside None) [Locked 1, Called 1 False, Passed 1] (st 0 (Past_gate False) (Some (1, 1)))"
    using go [OF 2 cond_step.gate [where t = 1 and timed = False and i = 0 and w = w0]] w by (simp add: st_def goto_pc_def demo_cond_def)
  have 4: "cond_runs demo_api (st 0 Outside None) [Locked 1, Called 1 False, Passed 1, Entered 1] (st 1 (Counted False) (Some (1, 1)))"
    using go [OF 3 cond_step.enter [where t = 1 and timed = False]] by (simp add: st_def goto_pc_def wait_enter_def)
  have "cond_runs demo_api (st 0 Outside None) [Locked 1, Called 1 False, Passed 1, Entered 1, Released 1] (st 1 (Blocked False) None)"
    using go [OF 4 cond_step.release [where t = 1 and timed = False]] by (simp add: st_def goto_pc_def LeaveCriticalSection_def)
  then show ?thesis unfolding s0 [symmetric] by (simp add: demo_blocked_def st_def w0_def)
qed

lemma broadcast_reaches_waiters_witness:
  "\<exists>i s''. cond_step demo_api (pthread_cond_broadcast demo_api demo_blocked) (Woke 1 (Object i)) s'' \<and> cv_pc s'' 1 = Notified (Object i)"
  by (rule broadcast_reaches_waiters [OF demo_api_events _ demo_init demo_blocked_reached _ stop])
     (auto simp: demo_api_def demo_blocked_def)

lemma signalled_broadcast_blocks_gate_witness:
  "\<exists>s'. cond_runs demo_api demo_blocked [Signalled 2, Broadcasted 2, Woke 1 (Object SIGNAL), Left 1] s' \<and>
     (\<forall>v. \<not> (\<exists>tr' s''. cond_runs demo_api s' tr' s'' \<and> Passed v \<in> set tr'))"
proof -
  have "win_ENOMEM demo_api \<noteq> 0" "waiting (cv_cond demo_blocked) = 1" "cv_pc demo_blocked 1 = Blocked False" "cv_pc demo_blocked 2 = Outside"
    "\<forall>v d. cv_pc demo_blocked v \<noteq> Past_gate d"
    by (auto simp: demo_api_def demo_blocked_def)
  from signalled_broadcast_blocks_gate [OF demo_api_events this(1) demo_init demo_blocked_reached this(2-5)] show ?thesis by blast
qed

section \<open>Threads and clock\<close>

text \<open>Every size below \<open>2^32\<close> gives a stack of at least the minimal size.\<close>

lemma stack_size_at_least_minimum:
  assumes "bytes \<noteq> 0" "bytes < 4294967296"
  shows "unat (stacksize (snd (pthread_attr_setstacksize attr bytes))) = max (unat bytes) 131072"
proof -
  have "unat bytes < 4294967296" using assms(2) by (simp add: word_less_nat_alt)
  then show ?thesis
    using assms(1) by (auto simp: pthread_attr_setstacksize_def PTHREAD_STACK_MIN_def unsigned_ucast_eq take_bit_nat_eq_self max_def word_le_nat_alt)
qed

text \<open>The time is that of the performance counter, cut to microseconds and moved by the start time.\<close>

lemma c_ll_id: "LONG_MIN \<le> i \<Longrightarrow> i \<le> LONG_MAX \<Longrightarrow> c_ll i = i"
  unfolding c_ll_def by (simp add: sint_word_ariths signed_take_bit_int_eq_self sint_sbintrunc')

lemma c_div_nonneg: "0 \<le> a \<Longrightarrow> 0 < b \<Longrightarrow> c_div a b = a div b"
  by (simp add: c_div_def)

lemma gettimeofday_exact:
  assumes "qpf st > 0" "startup_time st \<noteq> 0" "0 \<le> c2" "qpf st * 1000000 \<le> LONG_MAX" "startup_time st + c2 div qpf st \<in> {0..INT_MAX}"
  shows "\<exists>sec usec. gettimeofday f now c1 c2 st = Inr ((sec, usec), st) \<and> 0 \<le> usec \<and> usec < 1000000 \<and>
     sec * 1000000 + usec = startup_time st * 1000000 + c2 * 1000000 div qpf st"
proof -
  define d where "d = qpf st"
  define r where "r = c2 mod d"
  have d: "0 < d" "d * 1000000 \<le> LONG_MAX" using assms(1,4) by (auto simp: d_def)
  have r: "0 \<le> r" "r < d" "c2 - c2 div d * d = r" using d(1) by (simp_all add: r_def minus_div_mult_eq_mod)
  have ll: "c_ll (r * 1000000) = r * 1000000"
    using r d by (intro c_ll_id) auto
  have u0: "0 \<le> r * 1000000 div d" using r(1) d(1) by (simp add: pos_imp_zdiv_nonneg_iff)
  have "r * 1000000 < 1000000 * d" using r(2) by simp
  moreover have "r * 1000000 div d * d \<le> r * 1000000"
    using div_mult_mod_eq [of "r * 1000000" d] pos_mod_sign [of d "r * 1000000"] d(1) by linarith
  ultimately have "r * 1000000 div d * d < 1000000 * d" by linarith
  then have u1: "r * 1000000 div d < 1000000" using d(1) by simp
  have "c2 * 1000000 = r * 1000000 + (c2 div d * 1000000) * d" using r(3) by (simp add: algebra_simps)
  then have s: "c2 * 1000000 div d = c2 div d * 1000000 + r * 1000000 div d" using d(1) by simp
  have "gettimeofday f now c1 c2 st = Inr ((startup_time st + c2 div d, r * 1000000 div d), st)"
    using assms(2,3,5) d r u0 u1
    by (simp del: left_diff_distrib_numeral add: gettimeofday_def Let_def d_def [symmetric] c_div_nonneg ll int_range_def)
  then show ?thesis using u0 u1 s by (simp add: d_def [symmetric] algebra_simps)
qed

end
