(* ===== verification/Spec2Isabelle.thy ===== *)
theory Spec2Isabelle
  imports SbRand DrvMysql DrvPgsql DrvDrizzle DrvAttachsql DrvOracle FileExec ScriptStmt SbWin
begin

text \<open>
  A verification library for sysbench 0.5 (\<^verbatim>\<open>src/sysbench-0.5/sysbench\<close>), a multi-threaded benchmark program in C. File names below are
  relative to that directory.

  \<^bold>\<open>The program.\<close> \<^verbatim>\<open>sysbench.c\<close> parses the command line and initialises the global variables, then runs one test: it starts worker threads,
  which ask the test for requests and execute them until there are none left, an error occurs or the time is over, and optional threads that generate
  events at a given rate, print reports and print checkpoints. The options live in a list (\<^verbatim>\<open>sb_options.c\<close>) on intrusive lists
  (\<^verbatim>\<open>sb_list.h\<close>). Workers measure each request by messages to the logger (\<^verbatim>\<open>sb_logger.c\<close>), which keeps a timer per thread
  (\<^verbatim>\<open>sb_timer.c\<close>) and a histogram for percentiles (\<^verbatim>\<open>sb_percentile.c\<close>). A test is one of the built-in ones
  (\<^verbatim>\<open>tests/\<close>: cpu, threads, mutex, memory, fileio) or a Lua script (\<^verbatim>\<open>scripting/script_lua.c\<close>), whose functions reach a database
  through \<^verbatim>\<open>db_driver.c\<close> and a driver such as \<^verbatim>\<open>drivers/mysql/drv_mysql.c\<close>.

  \<^bold>\<open>Conventions.\<close> A function of the program is a definition of the same name; parts of long functions have names of their own. A function that
  can end the process, access memory it must not access, read a variable that has not been set or divide by zero returns
  \<open>fault + 'a\<close>, with the faults of \<open>Prelude\<close>; return codes and NULL pointers of the source stay values of the result. Unsigned types are words, so that they wrap;
  \<^verbatim>\<open>int\<close> and \<^verbatim>\<open>long long\<close> are integers whose conversions are written out. Structures are records, pointers to allocated objects
  addresses in a store, pointers that may be NULL options. The platform is 64-bit Linux, with the configuration in which asynchronous I/O, large pages and prepared
  statements are compiled in.

  \<^bold>\<open>The theories.\<close>

    \<^item> \<open>Prelude\<close>, \<open>CLib\<close>: machine types, faults, allocation oracle, floating point environment; the functions of the C library on
      strings and numbers, as far as they are used.
    \<^item> \<open>SbList\<close> (\<^verbatim>\<open>sb_list.h\<close>): each macro as its assignments on a store of items; \<open>dll\<close> abstracts a list to a sequence, and
      every operation refines the one on sequences.
    \<^item> \<open>SbOptions\<close> (\<^verbatim>\<open>sb_options.c\<close>): registering, setting, reading and printing options, configuration files; the invariant of the
      option list, what a later lookup finds, and what a file assigns.
    \<^item> \<open>SbTimer\<close>, \<open>SbPercentile\<close> (\<^verbatim>\<open>sb_timer.c\<close>, \<^verbatim>\<open>sb_percentile.c\<close>): the statistics of a timer are those of the
      list of measured durations; the histogram is never left, and the percentile has the requested rank.
    \<^item> \<open>LogReq\<close>, \<open>SbGlobals\<close>, \<open>SbLogger\<close> (\<^verbatim>\<open>sb_logger.c\<close>, the globals of \<^verbatim>\<open>sysbench.h\<close>): text
      messages with their suppression of repetitions, operation messages, reports.
    \<^item> \<open>SbArgs\<close>, \<open>SbRun\<close>, \<open>SbRand\<close>, \<open>EventQueue\<close> (\<^verbatim>\<open>sysbench.c\<close>): command line and initialisation; worker,
      generator, report and checkpoint threads, \<open>run_test\<close> and \<open>sb_main\<close>; the random number generators; the queue of the
      rate-limited mode as a step relation of the threads, with its invariant over all interleavings.
    \<^item> \<open>TestCommon\<close>, \<open>TestCpu\<close>, \<open>TestThreads\<close> (threads and mutex), \<open>TestMemory\<close>: the operations of the tests; that a
      worker ends after the requests left under the limit, each measured once.
    \<^item> \<open>Crc32\<close>, \<open>FileIo\<close>, \<open>FileExec\<close> (\<^verbatim>\<open>tests/fileio/\<close>): the checksum against its shift register; the generators of
      requests; the execution of requests on an operating system that is a parameter, synchronous, asynchronous and mapped; blocks that were written validate when
      they are read.
    \<^item> \<open>DbDriver\<close> (\<^verbatim>\<open>db_driver.c\<close>): connections, statements, result sets, statistics and multi-row inserts for any list of
      drivers, which are records of operations; \<open>DrvCommon\<close>: what the drivers have in common, above all the loop with which they rewrite the question marks of a statement; \<open>DrvMysql\<close>
      (\<^verbatim>\<open>drv_mysql.c\<close>), \<open>DrvPgsql\<close> (\<^verbatim>\<open>drv_pgsql.c\<close>), \<open>DrvDrizzle\<close> (\<^verbatim>\<open>drv_drizzle.c\<close>),
      \<open>DrvAttachsql\<close> (\<^verbatim>\<open>drv_attachsql.c\<close>), \<open>DrvOracle\<close> (\<^verbatim>\<open>drv_oracle.c\<close>): the drivers over client libraries that are parameters, with emulated and prepared statements,
      reconnection, the restart of transactions, and the loops that poll a library or read rows and fields.
    \<^item> \<open>LuaApi\<close>: the part of the Lua interface that is called; \<open>ScriptLua\<close> (\<^verbatim>\<open>script_lua.c\<close>, \<^verbatim>\<open>sb_script.c\<close>): interpreters,
      exported functions and the test operations of scripts; \<open>ScriptRun\<close>: events, errors, options seen by scripts; \<open>ScriptStmt\<close>: prepared
      statements from the script to the server.
    \<^item> \<open>SbWin\<close> (\<^verbatim>\<open>sb_win.c\<close>, \<^verbatim>\<open>sb_win.h\<close>): the Windows port of the thread functions, by itself: condition variables and one-time
      initialisation as step relations of the threads, with what signals and broadcasts promise and where they fail; thread creation, stack sizes, the clock.

  \<^bold>\<open>Interfaces.\<close> \<open>intrusive_list\<close> and \<open>option_store\<close> are the laws that users of the lists and of the options rely on; \<open>mergeable\<close> what
  merging statistics promises; \<open>request_source\<close> and its extension \<open>counted_source\<close> what the worker loop needs of a test, interpreted for the
  built-in tests and for scripts; \<open>accepting_driver\<close> and \<open>quiet_driver\<close> what the database layer needs of a driver, interpreted for
  MySQL, PostgreSQL, Drizzle and libAttachSQL; the Oracle driver, which does not send the text of the statements that begin and end a transaction, is a \<open>quiet_driver\<close> only.

  \<^bold>\<open>Parameters and hypotheses.\<close> What is not in the sources is an argument of the definitions, and the theorems name what they ask of it:

    \<^item> memory: \<open>os_mem\<close> is the list of the outcomes of the next allocations, all successful when it is empty; \<open>malloc_places\<close> is what it leaves in the
      positions of the threads of the file test, which may be anything;
    \<^item> floating point: \<open>fpenv\<close>, with \<open>fp_ok\<close> (rounding is monotone, exact on the integers up to \<open>2^53\<close> and within the relative error of
      normal numbers; logarithm and exponential are monotone) and \<open>sqrt_ok\<close> (a correctly rounded square root);
    \<^item> time: the readings of the clock are an arbitrary sequence; random numbers: arbitrary sequences in the range of the library functions;
    \<^item> operating system: \<open>file_os\<close> with \<open>storage_ok\<close> (what was written is read) and \<open>aio_ok\<close> (submitted operations complete once), \<open>shm_env\<close>;
    \<^item> client libraries: \<open>mysql_api\<close> with \<open>client_accepts\<close>, \<open>pgsql_api\<close> with \<open>pgsql_accepts\<close> and \<open>pgsql_prepares\<close>, \<open>drizzle_api\<close>
      with \<open>drizzle_accepts\<close> and \<open>drizzle_streams\<close>, \<open>attachsql_api\<close> with \<open>at_accepts\<close> and \<open>at_records\<close>, \<open>oci_api\<close> with
      \<open>oci_records\<close> and \<open>oci_delivers\<close> (what is sent is accepted and
      recorded by the server, the rows of a result are delivered one after the other, a library that is polled answers after a number of rounds, a library reads bound variables when a statement is executed);
    \<^item> Windows: \<open>win_api\<close> with \<open>win_events\<close> (events are set and reset, a wait ends with the first event that is set and resets it unless that is done by hand);
    \<^item> interpreter and script: \<open>lua_env\<close>, in which a Lua function is a tree of computations on globals and tables and of calls of exported functions.

  \<^bold>\<open>Loops.\<close> Loops over data are structural or have a termination measure. \<open>cpu_divisor\<close> and \<open>cpu_primes\<close> are partial functions whose
  result is proved to exist. Loops that wait for something outside (reconnecting, fetching, restarting an event, serving requests) take a number of rounds as fuel; running
  out of it is the fault \<open>Still_running\<close>, and the theorems state how much is enough: for a worker more than the requests left, for an event more than the restarts it asks
  for, for the text of an emulated statement its length plus 45 (the number of times a 32-bit buffer length can double, with room to spare), for reconnecting the attempts the server needs.

  \<^bold>\<open>Not modelled.\<close> The Lua interpreter is a third-party library kept in the tree. The big-endian branch of \<^verbatim>\<open>crc32.c\<close> and
  the branches for Windows and 32-bit systems in the other files are not compiled here. \<^verbatim>\<open>free_options\<close>, \<^verbatim>\<open>sb_percentile_done\<close> and \<^verbatim>\<open>sb_lua_close_state\<close> only release
  memory. Creating, joining and cancelling threads is a parameter of \<open>run_test\<close>; threads interleave at the event queue, at the counter of the cpu test
  and in \<open>SbWin\<close>, elsewhere a thread is followed by itself and a critical section is one step. The garbage collector, metamethods and the stack limit of Lua are left out.
\<close>

end
